(* ===== verification/Prelude.thy ===== *)
theory Prelude
  imports Complex_Main "HOL-Library.AList"
begin

text \<open>
  What every component of the development shares: Python exceptions as values, the
  sequencing of fallible computations, Python dictionaries as association lists in
  insertion order, and the lemma collections the component proofs are driven by.
\<close>

section \<open>Exceptions and fallible results\<close>

datatype py_exc =
    Value_Error string
  | Type_Error string
  | Runtime_Error string
  | Lookup_Error string
  | Index_Error
  | Key_Error
  | Attribute_Error
  | Zero_Division_Error
  | Stop_Iteration
  | Overflow_Error
  | Integrity_Error

type_synonym 'a res = "py_exc + 'a"

text \<open>The collections: rules about results, about dictionaries and about floats.\<close>

named_theorems res_simps
named_theorems dict_simps
named_theorems float_simps

definition bindR :: "'a res \<Rightarrow> ('a \<Rightarrow> 'b res) \<Rightarrow> 'b res" where
  "bindR m f = (case m of Inl e \<Rightarrow> Inl e | Inr x \<Rightarrow> f x)"

definition guardR :: "bool \<Rightarrow> py_exc \<Rightarrow> unit res" where
  "guardR b e = (if b then Inr () else Inl e)"

lemma bindR_Inl [simp]: "bindR (Inl e) f = Inl e"
  and bindR_Inr [simp]: "bindR (Inr x) f = f x"
  by (simp_all add: bindR_def)

lemma bindR_eq_Inr [res_simps]: "bindR m f = Inr y \<longleftrightarrow> (\<exists>x. m = Inr x \<and> f x = Inr y)"
  by (cases m) auto

lemma bindR_check: "bindR (m :: unit res) f = Inr y \<longleftrightarrow> m = Inr () \<and> f () = Inr y"
  by (cases m) auto

lemma bindR_eq_Inl [res_simps]:
  "bindR m f = Inl e \<longleftrightarrow> m = Inl e \<or> (\<exists>x. m = Inr x \<and> f x = Inl e)"
  by (cases m) auto

lemma bindR_InrE:
  assumes "bindR m f = Inr y"
  obtains x where "m = Inr x" "f x = Inr y"
  using assms by (cases m) auto

lemma bindR_Inr2E:
  assumes "bindR m (\<lambda>(a, b). f a b) = Inr y"
  obtains a b where "m = Inr (a, b)" "f a b = Inr y"
  using assms by (cases m) auto

lemma bindR_Inr3E:
  assumes "bindR m (\<lambda>(a, b, c). f a b c) = Inr y"
  obtains a b c where "m = Inr (a, b, c)" "f a b c = Inr y"
  using assms by (cases m) auto

lemma bindR_cong [fundef_cong]:
  assumes "m = m'" and "\<And>x. m' = Inr x \<Longrightarrow> f x = g x"
  shows "bindR m f = bindR m' g"
  using assms by (cases m') auto

lemma guardR_eq_Inr [res_simps]: "guardR b e = Inr u \<longleftrightarrow> b"
  by (simp add: guardR_def)

lemma guardR_eq_Inl [res_simps]: "guardR b e = Inl e' \<longleftrightarrow> \<not> b \<and> e' = e"
  by (auto simp: guardR_def)

lemma guardR_True [simp]: "guardR True e = Inr ()"
  and guardR_False [simp]: "guardR False e = Inl e"
  by (simp_all add: guardR_def)

text \<open>\<open>forR\<close> runs a check on every element of a list, in order.\<close>

fun forR :: "('a \<Rightarrow> unit res) \<Rightarrow> 'a list \<Rightarrow> unit res" where
  "forR f [] = Inr ()"
| "forR f (x # xs) = bindR (f x) (\<lambda>_. forR f xs)"

lemma forR_eq_Inr [res_simps]: "forR f xs = Inr u \<longleftrightarrow> (\<forall>x \<in> set xs. f x = Inr ())"
  by (induction xs) (auto simp: bindR_eq_Inr)

text \<open>\<open>mapR\<close> runs a fallible function over a list and stops at the first exception.\<close>

fun mapR :: "('a \<Rightarrow> 'b res) \<Rightarrow> 'a list \<Rightarrow> 'b list res" where
  "mapR f [] = Inr []"
| "mapR f (x # xs) = bindR (f x) (\<lambda>y. bindR (mapR f xs) (\<lambda>ys. Inr (y # ys)))"

lemma mapR_eq_Inr_iff: "mapR f xs = Inr ys \<longleftrightarrow> list_all2 (\<lambda>x y. f x = Inr y) xs ys"
  by (induction xs arbitrary: ys) (auto simp: res_simps list_all2_Cons1)

lemma mapR_succeeds: "\<forall>x \<in> set xs. \<exists>y. f x = Inr y \<Longrightarrow> \<exists>ys. mapR f xs = Inr ys"
  by (induction xs) force+

lemma mapR_length: "mapR f xs = Inr ys \<Longrightarrow> length ys = length xs"
  by (auto simp: mapR_eq_Inr_iff dest: list_all2_lengthD)

text \<open>\<open>foldR\<close> is a Python \<open>for\<close> loop whose body may raise.\<close>

fun foldR :: "('a \<Rightarrow> 's \<Rightarrow> 's res) \<Rightarrow> 'a list \<Rightarrow> 's \<Rightarrow> 's res" where
  "foldR f [] s = Inr s"
| "foldR f (x # xs) s = bindR (f x s) (foldR f xs)"

lemma foldR_append: "foldR f (xs @ ys) s = bindR (foldR f xs s) (foldR f ys)"
  by (induction xs arbitrary: s) (auto simp: bindR_def split: sum.splits)

lemma foldR_invariant:
  assumes "foldR f xs s = Inr t" and "P s"
    and "\<And>x s s'. x \<in> set xs \<Longrightarrow> P s \<Longrightarrow> f x s = Inr s' \<Longrightarrow> P s'"
  shows "P t"
  using assms
proof (induction xs arbitrary: s)
  case Nil
  then show ?case by simp
next
  case (Cons x xs)
  then obtain s1 where s1: "f x s = Inr s1" "foldR f xs s1 = Inr t"
    by (auto simp: res_simps)
  have "P s1" using Cons.prems(2,3) s1(1) by auto
  then show ?case using Cons.IH s1(2) Cons.prems(3) by auto
qed

text \<open>\<open>filterR\<close> is a comprehension whose condition may raise.\<close>

fun filterR :: "('a \<Rightarrow> bool res) \<Rightarrow> 'a list \<Rightarrow> 'a list res" where
  "filterR p [] = Inr []"
| "filterR p (x # xs) =
     bindR (p x) (\<lambda>b. bindR (filterR p xs) (\<lambda>ys. Inr (if b then x # ys else ys)))"

lemma filterR_Inr:
  "filterR p xs = Inr ys \<Longrightarrow> ys = filter (\<lambda>x. p x = Inr True) xs"
  by (induction xs arbitrary: ys) (auto elim!: bindR_InrE)

section \<open>JSON values\<close>

text \<open>Payloads are JSON documents; numbers that are not integers are floats.\<close>

datatype json =
    JNull
  | JBool bool
  | JInt int
  | JNum rat
  | JStr string
  | JList "json list"
  | JObj "(string \<times> json) list"

definition json_opt :: "('a \<Rightarrow> json) \<Rightarrow> 'a option \<Rightarrow> json" where
  "json_opt f x = (case x of None \<Rightarrow> JNull | Some y \<Rightarrow> f y)"

section \<open>Lists\<close>

text \<open>Python's \<open>next(x for x in xs if p(x))\<close> is \<open>List.find\<close>; without a match it raises.\<close>

definition find_or_stop :: "('a \<Rightarrow> bool) \<Rightarrow> 'a list \<Rightarrow> 'a res" where
  "find_or_stop p xs = (case List.find p xs of None \<Rightarrow> Inl Stop_Iteration | Some x \<Rightarrow> Inr x)"

lemma find_SomeD: "List.find p xs = Some x \<Longrightarrow> x \<in> set xs \<and> p x"
  by (auto simp: find_Some_iff)

lemma find_or_stop_Inr:
  "find_or_stop p xs = Inr x \<Longrightarrow> x \<in> set xs \<and> p x"
  by (auto simp: find_or_stop_def split: option.splits dest: find_SomeD)

lemma find_or_stop_total: "\<exists>x \<in> set xs. p x \<Longrightarrow> \<exists>x. find_or_stop p xs = Inr x"
  by (auto simp: find_or_stop_def find_None_iff split: option.splits)

lemma int_div_less_iff: "0 < k \<Longrightarrow> x div k < h \<longleftrightarrow> x < h * k" for x h k :: int
proof -
  assume k: "0 < k"
  have m: "x = k * (x div k) + x mod k" "0 \<le> x mod k" "x mod k < k" using k by simp_all
  show ?thesis
  proof
    assume "x div k < h"
    then have "k * (x div k + 1) \<le> k * h" using k by (intro mult_left_mono) simp_all
    moreover have "x < k * (x div k) + k" using m by linarith
    ultimately show "x < h * k" by (simp add: algebra_simps)
  next
    assume "x < h * k"
    show "x div k < h"
    proof (rule ccontr)
      assume "\<not> x div k < h"
      then have "k * h \<le> k * (x div k)" using k by (intro mult_left_mono) simp_all
      moreover have "k * (x div k) \<le> x" using m by linarith
      ultimately show False using \<open>x < h * k\<close> by (simp add: mult.commute)
    qed
  qed
qed

lemma sum_list_filter_le_nat:
  "sum_list (map f (filter P xs)) \<le> (sum_list (map f xs) :: nat)"
  by (induction xs) auto

lemma distinct_map_filter_key: "distinct (map f xs) \<Longrightarrow> distinct (map f (filter P xs))"
  by (induction xs) auto

section \<open>Dictionaries in insertion order\<close>

text \<open>
  A Python \<open>dict\<close> is an association list: assignment to a present key keeps its position,
  assignment to a new key appends, which is \<open>AList.update\<close>. Reading a missing key raises.
\<close>

type_synonym ('k, 'v) dict = "('k \<times> 'v) list"

abbreviation dict_set :: "'k \<Rightarrow> 'v \<Rightarrow> ('k, 'v) dict \<Rightarrow> ('k, 'v) dict" where
  "dict_set \<equiv> AList.update"

definition dict_get :: "('k, 'v) dict \<Rightarrow> 'k \<Rightarrow> 'v res" where
  "dict_get d k = (case map_of d k of None \<Rightarrow> Inl Key_Error | Some v \<Rightarrow> Inr v)"

definition dict_get_default :: "('k, 'v) dict \<Rightarrow> 'k \<Rightarrow> 'v \<Rightarrow> 'v" where
  "dict_get_default d k v = (case map_of d k of None \<Rightarrow> v | Some w \<Rightarrow> w)"

definition dict_of :: "('a \<Rightarrow> 'k) \<Rightarrow> 'a list \<Rightarrow> ('k, 'a) dict" where
  "dict_of key xs = fold (\<lambda>x. dict_set (key x) x) xs []"

definition well_keyed :: "('v \<Rightarrow> 'k) \<Rightarrow> ('k, 'v) dict \<Rightarrow> bool" where
  "well_keyed key d \<longleftrightarrow> distinct (map fst d) \<and> (\<forall>(k, v) \<in> set d. key v = k)"

definition dict_setdefault :: "'k \<Rightarrow> 'v \<Rightarrow> ('k, 'v) dict \<Rightarrow> ('k, 'v) dict" where
  "dict_setdefault k v d = (case map_of d k of None \<Rightarrow> dict_set k v d | Some _ \<Rightarrow> d)"

lemma map_of_dict_set [dict_simps]: "map_of (dict_set k v d) = (map_of d)(k \<mapsto> v)"
  by (simp add: update_conv')

lemma dict_get_set [dict_simps]:
  "dict_get (dict_set k v d) k' = (if k' = k then Inr v else dict_get d k')"
  by (simp add: dict_get_def dict_simps)

lemma dict_get_Inr [dict_simps]: "dict_get d k = Inr v \<longleftrightarrow> map_of d k = Some v"
  by (simp add: dict_get_def split: option.splits)

lemma distinct_dict_set: "distinct (map fst d) \<Longrightarrow> distinct (map fst (dict_set k v d))"
  by (rule distinct_update)

lemma keys_dict_set [dict_simps]: "fst ` set (dict_set k v d) = insert k (fst ` set d)"
  by (simp add: dom_update)

lemma length_dict_set_present: "k \<in> fst ` set d \<Longrightarrow> map fst (dict_set k v d) = map fst d"
  by (induction d) auto

lemma distinct_keys_map_of:
  "distinct (map fst d) \<Longrightarrow> (k, v) \<in> set d \<longleftrightarrow> map_of d k = Some v"
  by (metis map_of_SomeD map_of_is_SomeI)

lemma map_of_well_keyed: "well_keyed key d \<Longrightarrow> map_of d k = Some v \<Longrightarrow> key v = k"
  by (auto simp: well_keyed_def dest!: map_of_SomeD)

lemma well_keyed_set:
  assumes "well_keyed key d" and "key v = k"
  shows "well_keyed key (dict_set k v d)"
proof -
  have d: "distinct (map fst (dict_set k v d))"
    using assms(1) by (simp add: well_keyed_def distinct_dict_set)
  have "key w = j" if "(j, w) \<in> set (dict_set k v d)" for j w
  proof -
    have "((map_of d)(k \<mapsto> v)) j = Some w"
      using that d by (simp add: distinct_keys_map_of dict_simps)
    then show ?thesis using assms map_of_well_keyed by (fastforce split: if_splits)
  qed
  with d show ?thesis by (auto simp: well_keyed_def)
qed

text \<open>A loop of \<open>setdefault\<close> keeps the first value of every key.\<close>

lemma distinct_setdefault: "distinct (map fst d) \<Longrightarrow> distinct (map fst (dict_setdefault k v d))"
  by (simp add: dict_setdefault_def distinct_dict_set split: option.splits)

lemma map_of_dict_setdefault [dict_simps]:
  "map_of (dict_setdefault k v d) k' =
     (if k' = k then (case map_of d k of None \<Rightarrow> Some v | Some w \<Rightarrow> Some w) else map_of d k')"
  by (auto simp: dict_setdefault_def dict_simps split: option.splits)

lemma map_of_fold_setdefault:
  "map_of (fold (\<lambda>x. dict_setdefault (key x) x) xs d) k =
     (case map_of d k of Some w \<Rightarrow> Some w | None \<Rightarrow> List.find (\<lambda>x. key x = k) xs)"
  by (induction xs arbitrary: d) (auto simp: dict_simps split: option.splits)

lemma distinct_fold_setdefault:
  "distinct (map fst d) \<Longrightarrow> distinct (map fst (fold (\<lambda>x. dict_setdefault (key x) x) xs d))"
  by (induction xs arbitrary: d) (simp_all add: distinct_setdefault)

lemma well_keyed_Nil [simp]: "well_keyed key []"
  by (simp add: well_keyed_def)

lemma dict_of_snoc: "dict_of key (xs @ [x]) = dict_set (key x) x (dict_of key xs)"
  by (simp add: dict_of_def)

lemma well_keyed_dict_of [simp]: "well_keyed key (dict_of key xs)"
  by (induction xs rule: rev_induct)
    (simp_all add: dict_of_def[of _ "[]"] dict_of_snoc well_keyed_set)

lemma map_of_dict_of: "map_of (dict_of key xs) k = List.find (\<lambda>x. key x = k) (rev xs)"
  by (induction xs rule: rev_induct) (auto simp: dict_of_def[of _ "[]"] dict_of_snoc dict_simps)

lemma set_dict_of: "map_of (dict_of key xs) k = Some x \<Longrightarrow> x \<in> set xs \<and> key x = k"
  by (auto simp: map_of_dict_of find_Some_iff) (metis length_rev nth_mem set_rev)

lemma dict_of_distinct:
  assumes "distinct (map key xs)"
  shows "map_of (dict_of key xs) k = Some x \<longleftrightarrow> x \<in> set xs \<and> key x = k"
proof
  assume "x \<in> set xs \<and> key x = k"
  then have x: "x \<in> set (rev xs)" "key x = k" by simp_all
  then obtain y where y: "List.find (\<lambda>x. key x = k) (rev xs) = Some y"
    by (metis (mono_tags, lifting) find_None_iff not_None_eq)
  then have "y \<in> set xs" "key y = k" by (auto simp: find_Some_iff) (metis length_rev nth_mem set_rev)
  then have "y = x" using x assms by (auto simp: distinct_map dest: inj_onD)
  then show "map_of (dict_of key xs) k = Some x" using y by (simp add: map_of_dict_of)
qed (rule set_dict_of)

lemma dict_of_None: "map_of (dict_of key xs) k = None \<longleftrightarrow> k \<notin> key ` set xs"
  by (auto simp: map_of_dict_of find_None_iff)

lemma distinct_map_eq: "distinct (map f xs) \<Longrightarrow> x \<in> set xs \<Longrightarrow> y \<in> set xs \<Longrightarrow> f x = f y \<Longrightarrow> x = y"
  by (auto simp: distinct_map dest: inj_onD)

end
