(* ===== verification/Py_Float.thy ===== *)
theory Py_Float
  imports Prelude "HOL-Library.Log_Nat"
begin

text \<open>
  Python floats. A finite float is the rational number it denotes, and every arithmetic
  operation is the exact operation followed by the rounding \<open>fl\<close> of IEEE 754 binary64
  (round to nearest, ties to even, gradual underflow included). Overflow to infinity and
  NaN are outside the model: the code's values are hours, fractions and probabilities.
  \<open>round_half_even\<close> is Python's \<open>round(x)\<close> with one argument and \<open>\<lceil>x\<rceil>\<close>
  its \<open>math.ceil\<close>.
\<close>

type_synonym py_float = rat

section \<open>Rounding to an integer\<close>

definition round_half_even :: "rat \<Rightarrow> int" where
  "round_half_even x =
     (let f = \<lfloor>x\<rfloor>; d = x - of_int f
      in if d < 1 / 2 then f else if 1 / 2 < d then f + 1 else if even f then f else f + 1)"

lemma round_half_even_of_int [float_simps, simp]: "round_half_even (of_int n) = n"
  by (simp add: round_half_even_def)

lemma round_half_even_bounds: "\<lfloor>x\<rfloor> \<le> round_half_even x \<and> round_half_even x \<le> \<lfloor>x\<rfloor> + 1"
  by (simp add: round_half_even_def Let_def)

lemma round_half_even_near: "\<bar>of_int (round_half_even x) - x\<bar> \<le> 1 / 2"
proof -
  have "of_int \<lfloor>x\<rfloor> \<le> x" and "x < of_int \<lfloor>x\<rfloor> + 1" by linarith+
  then show ?thesis by (auto simp: round_half_even_def Let_def)
qed

lemma round_half_even_mono: "x \<le> y \<Longrightarrow> round_half_even x \<le> round_half_even y"
proof -
  assume le: "x \<le> y"
  show ?thesis
  proof (cases "\<lfloor>x\<rfloor> = \<lfloor>y\<rfloor>")
    case True
    then show ?thesis using le by (auto simp: round_half_even_def Let_def)
  next
    case False
    then have "\<lfloor>x\<rfloor> + 1 \<le> \<lfloor>y\<rfloor>" using floor_mono[OF le] by linarith
    then show ?thesis using round_half_even_bounds[of x] round_half_even_bounds[of y] by linarith
  qed
qed

lemma round_half_even_le_int: "x \<le> of_int n \<Longrightarrow> round_half_even x \<le> n"
  by (metis round_half_even_mono round_half_even_of_int)

lemma round_half_even_ge_int: "of_int n \<le> x \<Longrightarrow> n \<le> round_half_even x"
  by (metis round_half_even_mono round_half_even_of_int)

lemma round_half_even_nonneg: "0 \<le> x \<Longrightarrow> 0 \<le> round_half_even x"
  using round_half_even_ge_int[of 0 x] by simp

lemma round_half_even_minus: "round_half_even (- x) = - round_half_even x"
proof (cases "x = of_int \<lfloor>x\<rfloor>")
  case True
  then show ?thesis by (metis of_int_minus round_half_even_of_int)
next
  case False
  then have c: "\<lfloor>- x\<rfloor> = - \<lfloor>x\<rfloor> - 1" by linarith
  show ?thesis unfolding round_half_even_def c Let_def by auto
qed

section \<open>Rounding to binary64\<close>

lemma floor_rat_numeral [float_simps]:
  "\<lfloor>(numeral a :: rat) / numeral b\<rfloor> = numeral a div numeral b"
  "\<lfloor>(1 :: rat) / numeral b\<rfloor> = 1 div numeral b"
  using floor_divide_of_int_eq[of "numeral a" "numeral b", where 'a = rat]
    floor_divide_of_int_eq[of 1 "numeral b", where 'a = rat] by simp_all

lemma ceiling_rat_numeral [float_simps]:
  "\<lceil>(numeral a :: rat) / numeral b\<rceil> = - (- numeral a div numeral b)"
  "\<lceil>(1 :: rat) / numeral b\<rceil> = - (- 1 div numeral b)"
  using ceiling_divide_eq_div[of "numeral a" "numeral b", where 'a = rat]
    ceiling_divide_eq_div[of 1 "numeral b", where 'a = rat] by simp_all

text \<open>\<open>ilog2 x\<close> is the exponent of the binade of a positive \<open>x\<close>.\<close>

fun bits :: "nat \<Rightarrow> nat" where
  "bits n = (if n = 0 then 0 else Suc (bits (n div 2)))"

declare bits.simps [simp del]

lemma bits_0 [simp, float_simps]: "bits 0 = 0"
  and bits_1 [simp, float_simps]: "bits 1 = 1" "bits (Suc 0) = 1"
  by (simp_all add: bits.simps)

lemma bits_numeral [simp, float_simps]: "bits (numeral n) = Suc (bits (numeral n div 2))"
  by (subst bits.simps) simp

definition ilog2 :: "rat \<Rightarrow> int" where
  "ilog2 x = (if 1 \<le> x then int (bits (nat \<lfloor>x\<rfloor>)) - 1 else - int (bits (nat (\<lceil>1 / x\<rceil> - 1))))"

definition ulp_exp :: "rat \<Rightarrow> int" where
  "ulp_exp x = max (ilog2 x - 52) (- 1074)"

definition fl_pos :: "rat \<Rightarrow> rat" where
  "fl_pos x = of_int (round_half_even (x / 2 powi ulp_exp x)) * 2 powi ulp_exp x"

definition fl :: "rat \<Rightarrow> py_float" where
  "fl x = (if x = 0 then 0 else if 0 < x then fl_pos x else - fl_pos (- x))"

lemma bits_bounds: "0 < n \<Longrightarrow> 2 ^ (bits n - 1) \<le> n \<and> n < 2 ^ bits n"
proof (induction n rule: bits.induct)
  case (1 n)
  show ?case
  proof (cases "n = 1")
    case True
    then show ?thesis by simp
  next
    case False
    with "1.prems" have pos: "0 < n div 2" by auto
    with "1.IH" "1.prems" have IH: "2 ^ (bits (n div 2) - 1) \<le> n div 2" "n div 2 < 2 ^ bits (n div 2)"
      by auto
    have "bits (n div 2) \<noteq> 0" using pos by (subst bits.simps) auto
    then have "2 * 2 ^ (bits (n div 2) - 1) = (2::nat) ^ bits (n div 2)"
      by (cases "bits (n div 2)") auto
    with IH have "2 ^ bits (n div 2) \<le> n" "n < 2 * 2 ^ bits (n div 2)" by auto
    then show ?thesis using "1.prems" by (subst (1 2) bits.simps) simp
  qed
qed

lemma bits_pos: "0 < n \<Longrightarrow> 0 < bits n"
  by (subst bits.simps) simp

lemma powi_int_nat: "(2::rat) powi (int n) = 2 ^ n"
  by simp

lemma powi_add_2: "(2::rat) powi (a + b) = 2 powi a * 2 powi b"
  by (simp add: power_int_add)

lemma powi_mono_2: "a \<le> b \<Longrightarrow> (2::rat) powi a \<le> 2 powi b"
  by (simp add: power_int_increasing)

lemma ilog2_ge_one: "1 \<le> x \<Longrightarrow> 2 powi ilog2 x \<le> x \<and> x < 2 powi (ilog2 x + 1)"
proof -
  assume x: "1 \<le> x"
  define n where "n = nat \<lfloor>x\<rfloor>"
  have n: "0 < n" "of_nat n \<le> x" "x < of_nat n + 1" using x by (auto simp: n_def) linarith+
  have b: "2 ^ (bits n - 1) \<le> n" "n < 2 ^ bits n" using bits_bounds[OF n(1)] by auto
  have "bits n \<noteq> 0" using bits_pos[OF n(1)] by simp
  then have i: "ilog2 x = int (bits n - 1)" and i1: "ilog2 x + 1 = int (bits n)"
    using x by (auto simp: ilog2_def n_def of_nat_diff)
  have "(2::rat) ^ (bits n - 1) \<le> of_nat n"
    using b(1) by (metis of_nat_le_iff of_nat_numeral of_nat_power)
  moreover have "(of_nat n :: rat) + 1 \<le> 2 ^ bits n"
    using b(2) by (metis Suc_eq_plus1 Suc_leI of_nat_1 of_nat_add of_nat_le_iff of_nat_numeral of_nat_power)
  ultimately show ?thesis using n unfolding i1 unfolding i powi_int_nat by linarith
qed

lemma ilog2_less_one: "0 < x \<Longrightarrow> x < 1 \<Longrightarrow> 2 powi ilog2 x \<le> x \<and> x < 2 powi (ilog2 x + 1)"
proof -
  assume x: "0 < x" "x < 1"
  define y where "y = 1 / x"
  define n where "n = nat (\<lceil>y\<rceil> - 1)"
  have y: "1 < y" using x by (simp add: y_def)
  then have n: "0 < n" "of_nat n < y" "y \<le> of_nat n + 1" by (auto simp: n_def) linarith+
  have b: "2 ^ (bits n - 1) \<le> n" "n < 2 ^ bits n" using bits_bounds[OF n(1)] by auto
  have i: "ilog2 x = - int (bits n)" using x by (simp add: ilog2_def n_def y_def)
  have bp: "0 < bits n" by (rule bits_pos[OF n(1)])
  have "(of_nat n :: rat) + 1 \<le> 2 ^ bits n"
    using b(2) by (metis Suc_eq_plus1 Suc_leI of_nat_1 of_nat_add of_nat_le_iff of_nat_numeral of_nat_power)
  then have hi: "y \<le> 2 ^ bits n" using n(3) by linarith
  have "(2::rat) ^ (bits n - 1) \<le> of_nat n"
    using b(1) by (metis of_nat_le_iff of_nat_numeral of_nat_power)
  then have lo: "2 ^ (bits n - 1) < y" using n(2) by linarith
  have "1 / 2 ^ bits n \<le> x" using hi x by (simp add: y_def field_simps)
  moreover have "x < 1 / 2 ^ (bits n - 1)" using lo x by (simp add: y_def field_simps)
  moreover have "2 powi ilog2 x = (1 :: rat) / 2 ^ bits n"
    by (simp add: i power_int_minus field_simps)
  moreover have "2 powi (ilog2 x + 1) = (1 :: rat) / 2 ^ (bits n - 1)"
  proof -
    have "ilog2 x + 1 = - int (bits n - 1)" using bp by (simp add: i of_nat_diff)
    then show ?thesis by (simp only: power_int_minus powi_int_nat) (simp add: field_simps)
  qed
  ultimately show ?thesis by simp
qed

lemma ilog2_bounds: "0 < x \<Longrightarrow> 2 powi ilog2 x \<le> x \<and> x < 2 powi (ilog2 x + 1)"
  using ilog2_ge_one ilog2_less_one by (cases "1 \<le> x") auto

lemma ilog2_mono: "0 < x \<Longrightarrow> x \<le> y \<Longrightarrow> ilog2 x \<le> ilog2 y"
proof (rule ccontr)
  assume x: "0 < x" "x \<le> y" and "\<not> ilog2 x \<le> ilog2 y"
  then have "ilog2 y + 1 \<le> ilog2 x" by linarith
  then have "(2::rat) powi (ilog2 y + 1) \<le> 2 powi ilog2 x" by (rule powi_mono_2)
  then show False using ilog2_bounds[of x] ilog2_bounds[of y] x by linarith
qed

text \<open>Scaled by its unit in the last place, a positive number has at most 53 bits.\<close>

lemma scaled_upper: "0 < x \<Longrightarrow> x / 2 powi ulp_exp x \<le> 2 ^ 53"
proof -
  assume x: "0 < x"
  have "x \<le> 2 powi (ilog2 x + 1)" using ilog2_bounds[OF x] by simp
  also have "\<dots> \<le> 2 powi (ulp_exp x + int 53)"
    by (rule powi_mono_2) (simp add: ulp_exp_def)
  also have "\<dots> = 2 powi ulp_exp x * 2 ^ 53" by (simp only: powi_add_2 powi_int_nat)
  finally show ?thesis by (simp add: field_simps)
qed

lemma scaled_lower: "0 < x \<Longrightarrow> - 1074 < ulp_exp x \<Longrightarrow> 2 ^ 52 \<le> x / 2 powi ulp_exp x"
proof -
  assume x: "0 < x" "- 1074 < ulp_exp x"
  then have "ilog2 x = ulp_exp x + int 52" by (simp add: ulp_exp_def)
  then have "2 powi ulp_exp x * 2 ^ 52 \<le> x"
    using ilog2_bounds[OF x(1)] by (metis powi_add_2 powi_int_nat)
  then show ?thesis by (simp add: field_simps)
qed

lemma fl_pos_mono: "0 < x \<Longrightarrow> x \<le> y \<Longrightarrow> fl_pos x \<le> fl_pos y"
proof -
  assume x: "0 < x" "x \<le> y"
  have le: "ulp_exp x \<le> ulp_exp y" using ilog2_mono[OF x] by (simp add: ulp_exp_def)
  show ?thesis
  proof (cases "ulp_exp x = ulp_exp y")
    case True
    have "x / 2 powi ulp_exp y \<le> y / 2 powi ulp_exp y" using x by (simp add: divide_right_mono)
    then show ?thesis unfolding fl_pos_def True
      by (intro mult_right_mono) (auto intro: round_half_even_mono)
  next
    case False
    let ?a = "2 powi ulp_exp x :: rat" and ?b = "2 powi ulp_exp y :: rat"
    have "round_half_even (x / ?a) \<le> 2 ^ 53"
      using scaled_upper[OF x(1)] by (intro round_half_even_le_int) simp
    then have "fl_pos x \<le> of_int (2 ^ 53) * ?a"
      unfolding fl_pos_def by (intro mult_right_mono) auto
    also have "\<dots> = 2 powi (ulp_exp x + 1 + int 52)"
      by (simp only: powi_add_2 powi_int_nat power_int_1_right) simp
    also have "\<dots> \<le> 2 powi (ulp_exp y + int 52)" using le False by (intro powi_mono_2) simp
    also have "\<dots> = of_int (2 ^ 52) * ?b" by (simp only: powi_add_2 powi_int_nat) simp
    also have "\<dots> \<le> fl_pos y"
    proof -
      have "- 1074 < ulp_exp y" using le False by (simp add: ulp_exp_def)
      then have "2 ^ 52 \<le> round_half_even (y / ?b)"
        using scaled_lower[of y] x by (intro round_half_even_ge_int) simp
      then show ?thesis unfolding fl_pos_def by (intro mult_right_mono) auto
    qed
    finally show ?thesis .
  qed
qed

lemma fl_pos_nonneg: "0 < x \<Longrightarrow> 0 \<le> fl_pos x"
  unfolding fl_pos_def by (intro mult_nonneg_nonneg) (simp_all add: round_half_even_nonneg)

lemma fl_0 [simp, float_simps]: "fl 0 = 0"
  by (simp add: fl_def)

lemma fl_nonneg: "0 \<le> x \<Longrightarrow> 0 \<le> fl x"
  by (simp add: fl_def fl_pos_nonneg)

lemma fl_minus [float_simps]: "fl (- x) = - fl x"
  by (auto simp: fl_def)

lemma fl_mono: "x \<le> y \<Longrightarrow> fl x \<le> fl y"
proof -
  assume xy: "x \<le> y"
  consider "0 < x" | "y < 0" | "x \<le> 0" "0 \<le> y" by linarith
  then show ?thesis
  proof cases
    case 1
    then show ?thesis using xy fl_pos_mono[of x y] by (simp add: fl_def)
  next
    case 2
    then show ?thesis using xy fl_pos_mono[of "- y" "- x"] by (simp add: fl_def)
  next
    case 3
    have "fl x \<le> 0" using fl_nonneg[of "- x"] 3 by (simp add: fl_minus)
    then show ?thesis using fl_nonneg[of y] 3 by linarith
  qed
qed

section \<open>Numbers that are floats\<close>

definition is_float :: "rat \<Rightarrow> bool" where
  "is_float x \<longleftrightarrow> fl x = x"

lemma fl_pos_exact:
  assumes m: "0 < m" "m \<le> 2 ^ 53" and k: "- 1074 \<le> k"
  shows "fl_pos (of_int m * 2 powi k) = of_int m * 2 powi k"
proof -
  define x :: rat where "x = of_int m * 2 powi k"
  define u where "u = ulp_exp x"
  have p: "0 < x" using m by (simp add: x_def)
  have "\<exists>n. x / 2 powi u = of_int n"
  proof (cases "u \<le> k")
    case True
    have "x / 2 powi u = of_int m * 2 powi (k - u)" by (simp add: x_def power_int_diff)
    also have "\<dots> = of_int (m * 2 ^ nat (k - u))" using True by (simp add: power_int_def)
    finally show ?thesis by blast
  next
    case False
    then have lo: "2 ^ 52 \<le> x / 2 powi u" using scaled_lower[OF p] k by (simp add: u_def)
    have "x \<le> 2 powi int 53 * 2 powi k"
      using m(2) unfolding x_def powi_int_nat
      by (intro mult_right_mono) (metis of_int_le_iff of_int_numeral of_int_power, simp)
    also have "\<dots> = 2 powi (int 53 + k)" by (rule powi_add_2[symmetric])
    also have "\<dots> = 2 powi (k + 1 + int 52)" by (simp add: add.commute)
    also have "\<dots> \<le> 2 powi (u + int 52)" using False by (intro powi_mono_2) simp
    also have "\<dots> = 2 powi u * 2 ^ 52" by (simp only: powi_add_2 powi_int_nat)
    finally have "x / 2 powi u \<le> 2 ^ 52" by (simp add: field_simps)
    with lo have "x / 2 powi u = of_int (2 ^ 52)" by simp
    then show ?thesis by blast
  qed
  then obtain n where n: "x / 2 powi u = of_int n" by blast
  then have "x = of_int n * 2 powi u" by (simp add: field_simps)
  moreover have "fl_pos x = of_int n * 2 powi u"
    unfolding fl_pos_def u_def[symmetric] n by simp
  ultimately have "fl_pos x = x" by simp
  then show ?thesis by (simp add: x_def)
qed

lemma powi_2_pos: "(0::rat) < 2 powi k"
  by simp

lemma fl_exact:
  assumes m: "\<bar>m\<bar> \<le> 2 ^ 53" and k: "- 1074 \<le> k"
  shows "fl (of_int m * 2 powi k) = of_int m * 2 powi k"
proof (cases m "0 :: int" rule: linorder_cases)
  case less
  then have "fl_pos (of_int (- m) * 2 powi k) = of_int (- m) * 2 powi k"
    using m k by (intro fl_pos_exact) auto
  moreover have "of_int m * 2 powi k < (0::rat)" using less by (simp add: mult_neg_pos)
  ultimately show ?thesis by (simp add: fl_def)
next
  case equal
  then show ?thesis by simp
next
  case greater
  then show ?thesis using m k fl_pos_exact[of m k] by (simp add: fl_def zero_less_mult_iff)
qed

lemma fl_pos_fl: "0 < x \<Longrightarrow> fl (fl_pos x) = fl_pos x"
proof -
  assume x: "0 < x"
  have "round_half_even (x / 2 powi ulp_exp x) \<le> 2 ^ 53"
    using scaled_upper[OF x] by (intro round_half_even_le_int) simp
  moreover have "0 \<le> round_half_even (x / 2 powi ulp_exp x)"
    using x by (intro round_half_even_nonneg) simp
  ultimately show ?thesis unfolding fl_pos_def by (intro fl_exact) (auto simp: ulp_exp_def)
qed

text \<open>Rounding is idempotent, so the result of every operation is a float.\<close>

lemma fl_idem [simp, float_simps]: "fl (fl x) = fl x"
proof (cases x "0 :: rat" rule: linorder_cases)
  case less
  then have "fl x = - fl_pos (- x)" by (simp add: fl_def)
  then show ?thesis using fl_pos_fl[of "- x"] less by (simp add: fl_minus)
qed (auto simp: fl_def[of x] fl_pos_fl)

lemma is_float_fl [simp]: "is_float (fl x)"
  by (simp add: is_float_def)

lemma fl_of_int [float_simps]: "\<bar>n\<bar> \<le> 2 ^ 53 \<Longrightarrow> fl (of_int n) = of_int n"
  using fl_exact[of n 0] by simp

lemma fl_numeral [float_simps]:
  "(numeral n :: int) \<le> 2 ^ 53 \<Longrightarrow> fl (numeral n) = numeral n"
  "fl 1 = 1" "(numeral n :: int) \<le> 2 ^ 53 \<Longrightarrow> fl (- numeral n) = - numeral n"
  using fl_of_int[of "numeral n"] fl_of_int[of 1] fl_of_int[of "- numeral n"] by simp_all

lemma fl_le_int: "x \<le> of_int n \<Longrightarrow> \<bar>n\<bar> \<le> 2 ^ 53 \<Longrightarrow> fl x \<le> of_int n"
  using fl_mono[of x "of_int n"] by (simp add: fl_of_int)

lemma fl_ge_int: "of_int n \<le> x \<Longrightarrow> \<bar>n\<bar> \<le> 2 ^ 53 \<Longrightarrow> of_int n \<le> fl x"
  using fl_mono[of "of_int n" x] by (simp add: fl_of_int)

lemma fl_between: "is_float a \<Longrightarrow> is_float b \<Longrightarrow> a \<le> x \<Longrightarrow> x \<le> b \<Longrightarrow> a \<le> fl x \<and> fl x \<le> b"
  using fl_mono[of a x] fl_mono[of x b] by (simp add: is_float_def)

lemma is_float_int [simp]: "\<bar>n\<bar> \<le> 2 ^ 53 \<Longrightarrow> is_float (of_int n)"
  by (simp add: is_float_def fl_of_int)

lemma is_float_0 [simp]: "is_float 0" and is_float_1 [simp]: "is_float 1"
  using is_float_int[of 0] is_float_int[of 1] by simp_all

text \<open>A way to evaluate \<open>fl\<close> that is given the exponent.\<close>

lemma fl_at:
  assumes "2 ^ 52 \<le> x / 2 powi k" "x / 2 powi k < 2 ^ 53" "- 1074 \<le> k"
  shows "fl x = of_int (round_half_even (x / 2 powi k)) * 2 powi k"
proof -
  have x: "2 powi (k + 52) \<le> x" "x < 2 powi (k + 53)"
    using assms by (simp_all add: powi_add_2[of k] field_simps)
  have p: "0 < x" using x(1) powi_2_pos[of "k + 52"] by linarith
  have "\<not> ilog2 x < k + 52" and "\<not> k + 52 < ilog2 x"
    using ilog2_bounds[OF p] x powi_mono_2[of "ilog2 x + 1" "k + 52"]
      powi_mono_2[of "k + 53" "ilog2 x"] by force+
  then have "ulp_exp x = k" using assms(3) by (simp add: ulp_exp_def)
  then show ?thesis using p by (simp add: fl_def fl_pos_def)
qed

lemmas fl_eval = fl_def fl_pos_def ulp_exp_def ilog2_def round_half_even_def Let_def power_int_def

section \<open>Arithmetic\<close>

definition f_add :: "py_float \<Rightarrow> py_float \<Rightarrow> py_float" where "f_add x y = fl (x + y)"
definition f_sub :: "py_float \<Rightarrow> py_float \<Rightarrow> py_float" where "f_sub x y = fl (x - y)"
definition f_mul :: "py_float \<Rightarrow> py_float \<Rightarrow> py_float" where "f_mul x y = fl (x * y)"

definition f_div :: "py_float \<Rightarrow> py_float \<Rightarrow> py_float res" where
  "f_div x y = (if y = 0 then Inl Zero_Division_Error else Inr (fl (x / y)))"

text \<open>An integer operand of a float operation is converted first.\<close>

definition f_of_int :: "int \<Rightarrow> py_float" where "f_of_int n = fl (of_int n)"

lemma f_add_mono: "is_float x \<Longrightarrow> 0 \<le> y \<Longrightarrow> x \<le> f_add x y"
  using fl_mono[of x "x + y"] by (simp add: f_add_def is_float_def)

lemma f_mul_shrink: "is_float x \<Longrightarrow> 0 \<le> x \<Longrightarrow> y \<le> 1 \<Longrightarrow> f_mul x y \<le> x"
  using fl_mono[of "x * y" x] mult_left_mono[of y 1 x] by (simp add: f_mul_def is_float_def)

lemma f_mul_nonneg: "0 \<le> x \<Longrightarrow> 0 \<le> y \<Longrightarrow> 0 \<le> f_mul x y"
  by (simp add: f_mul_def fl_nonneg)

end
