(* ===== verification/Py_Random.thy ===== *)
theory Py_Random
  imports Py_Float "HOL-Library.Multiset"
begin

text \<open>
  The parts of \<open>random.Random\<close> and \<open>math\<close> the simulator calls. The Mersenne twister
  (C code of the interpreter) is an arbitrary tape of words: each library call consumes one
  word and maps it into the range its documentation promises, and the library code on top of
  it (\<open>randint\<close>, \<open>shuffle\<close>, \<open>uniform\<close>, \<open>choice\<close>, \<open>choices\<close>) is written out as the standard
  library has it. Theorems hold for every tape, so for every seed. The logarithm, the
  exponential and the normal deviate are the functions of the C library, a parameter.
\<close>

record rng =
  tape :: "nat \<Rightarrow> nat"
  pos :: nat

record libm =
  m_log :: "py_float \<Rightarrow> py_float"
  m_exp :: "py_float \<Rightarrow> py_float"
  m_gauss :: "nat \<Rightarrow> py_float"

definition next_word :: "rng \<Rightarrow> nat \<times> rng" where
  "next_word r = (tape r (pos r), r\<lparr>pos := Suc (pos r)\<rparr>)"

definition rng_random :: "rng \<Rightarrow> py_float \<times> rng" where
  "rng_random r = (let (w, r') = next_word r in (of_nat (w mod 2 ^ 53) / 2 ^ 53, r'))"

definition rng_below :: "nat \<Rightarrow> rng \<Rightarrow> nat \<times> rng" where
  "rng_below n r = (let (w, r') = next_word r in (w mod n, r'))"

definition rng_gauss :: "libm \<Rightarrow> rng \<Rightarrow> py_float \<times> rng" where
  "rng_gauss M r = (let (w, r') = next_word r in (m_gauss M w, r'))"

definition rng_randint :: "int \<Rightarrow> int \<Rightarrow> rng \<Rightarrow> (int \<times> rng) res" where
  "rng_randint a b r =
     (if b < a then Inl (Value_Error ''empty range for randrange'')
      else let (k, r') = rng_below (nat (b - a + 1)) r in Inr (a + int k, r'))"

definition rng_choice :: "'a list \<Rightarrow> rng \<Rightarrow> ('a \<times> rng) res" where
  "rng_choice xs r =
     (if xs = [] then Inl Index_Error
      else let (k, r') = rng_below (length xs) r in Inr (xs ! k, r'))"

definition rng_uniform :: "py_float \<Rightarrow> py_float \<Rightarrow> rng \<Rightarrow> py_float \<times> rng" where
  "rng_uniform a b r = (let (u, r') = rng_random r in (f_add a (f_mul (f_sub b a) u), r'))"

text \<open>\<open>shuffle\<close>: for \<open>i\<close> from the last index down to 1, swap \<open>i\<close> with a random \<open>j \<le> i\<close>.\<close>

definition swap_at :: "nat \<Rightarrow> nat \<Rightarrow> 'a list \<Rightarrow> 'a list" where
  "swap_at i j xs = xs[i := xs ! j, j := xs ! i]"

fun shuffle_from :: "nat \<Rightarrow> 'a list \<Rightarrow> rng \<Rightarrow> 'a list \<times> rng" where
  "shuffle_from 0 xs r = (xs, r)"
| "shuffle_from (Suc i) xs r =
     (let (j, r') = rng_below (Suc (Suc i)) r in shuffle_from i (swap_at (Suc i) j xs) r')"

definition rng_shuffle :: "'a list \<Rightarrow> rng \<Rightarrow> 'a list \<times> rng" where
  "rng_shuffle xs r = shuffle_from (length xs - 1) xs r"

text \<open>\<open>choices\<close> with \<open>k=1\<close>: the first cumulative weight above the roll, at most the last.\<close>

fun accumulate :: "py_float \<Rightarrow> py_float list \<Rightarrow> py_float list" where
  "accumulate a [] = []"
| "accumulate a (w # ws) = (let s = f_add a w in s # accumulate s ws)"

definition bisect_below_last :: "py_float list \<Rightarrow> py_float \<Rightarrow> nat" where
  "bisect_below_last cum x = length (takeWhile (\<lambda>c. c \<le> x) (butlast cum))"

definition rng_choices1 :: "'a list \<Rightarrow> py_float list \<Rightarrow> rng \<Rightarrow> ('a \<times> rng) res" where
  "rng_choices1 xs ws r =
     (let cum = accumulate 0 ws in
      if length cum \<noteq> length xs
      then Inl (Value_Error ''The number of weights does not match the population'')
      else if cum = [] then Inl Index_Error
      else if last cum \<le> 0 then Inl (Value_Error ''Total of weights must be greater than zero'')
      else let (u, r') = rng_random r in
        Inr (xs ! bisect_below_last cum (f_mul u (last cum)), r'))"

section \<open>Ranges\<close>

lemma rng_random_unit: "rng_random r = (u, r') \<Longrightarrow> 0 \<le> u \<and> u < 1"
proof -
  assume "rng_random r = (u, r')"
  then have u: "u = of_nat (tape r (pos r) mod 2 ^ 53) / 2 ^ 53"
    by (auto simp: rng_random_def next_word_def)
  have "tape r (pos r) mod 2 ^ 53 < 2 ^ 53" by simp
  then have "(of_nat (tape r (pos r) mod 2 ^ 53) :: rat) < of_nat (2 ^ 53)"
    by (rule iffD2[OF of_nat_less_iff])
  then show ?thesis by (simp add: u field_simps)
qed

lemma rng_below_less: "rng_below n r = (k, r') \<Longrightarrow> 0 < n \<Longrightarrow> k < n"
  by (auto simp: rng_below_def next_word_def)

lemma rng_randint_bounds: "rng_randint a b r = Inr (k, r') \<Longrightarrow> a \<le> k \<and> k \<le> b"
  by (auto simp: rng_randint_def split: if_splits prod.splits dest!: rng_below_less)

lemma rng_randint_total: "a \<le> b \<Longrightarrow> \<exists>k r'. rng_randint a b r = Inr (k, r')"
  by (auto simp: rng_randint_def split: prod.splits)

lemma rng_choice_mem: "rng_choice xs r = Inr (x, r') \<Longrightarrow> x \<in> set xs"
  by (auto simp: rng_choice_def split: if_splits prod.splits dest!: rng_below_less)

lemma rng_choice_total: "xs \<noteq> [] \<Longrightarrow> \<exists>x r'. rng_choice xs r = Inr (x, r')"
  by (auto simp: rng_choice_def split: prod.splits)

lemma rng_uniform_bounds:
  assumes "rng_uniform a b r = (x, r')" and "is_float a" and "0 \<le> a" and "a \<le> b"
  shows "a \<le> x"
proof -
  obtain u where u: "rng_random r = (u, r')" "x = f_add a (f_mul (f_sub b a) u)"
    using assms(1) by (auto simp: rng_uniform_def split: prod.splits)
  have "0 \<le> f_sub b a" using assms(4) by (simp add: f_sub_def fl_nonneg)
  then have "0 \<le> f_mul (f_sub b a) u" using rng_random_unit[OF u(1)] by (simp add: f_mul_nonneg)
  then show ?thesis using f_add_mono[OF assms(2)] u(2) by blast
qed

section \<open>A shuffle is a permutation\<close>

lemma mset_swap_at: "i < length xs \<Longrightarrow> j < length xs \<Longrightarrow> mset (swap_at i j xs) = mset xs"
  by (simp add: swap_at_def mset_swap)

lemma mset_shuffle_from:
  "i < length xs \<or> xs = [] \<and> i = 0 \<Longrightarrow> shuffle_from i xs r = (ys, r') \<Longrightarrow> mset ys = mset xs"
proof (induction i arbitrary: xs r)
  case 0
  then show ?case by simp
next
  case (Suc i)
  obtain j r1 where j: "rng_below (Suc (Suc i)) r = (j, r1)" by fastforce
  then have jl: "j < length xs" "Suc i < length xs"
    using rng_below_less[OF j] Suc.prems(1) by auto
  have "shuffle_from i (swap_at (Suc i) j xs) r1 = (ys, r')" using Suc.prems(2) j by simp
  moreover have "length (swap_at (Suc i) j xs) = length xs" by (simp add: swap_at_def)
  ultimately have "mset ys = mset (swap_at (Suc i) j xs)"
    using Suc.IH[of "swap_at (Suc i) j xs" r1] jl(2) by auto
  then show ?case using mset_swap_at jl by metis
qed

lemma mset_rng_shuffle: "rng_shuffle xs r = (ys, r') \<Longrightarrow> mset ys = mset xs"
  using mset_shuffle_from[of "length xs - 1" xs r ys r'] by (cases xs) (auto simp: rng_shuffle_def)

lemma length_accumulate [simp]: "length (accumulate a ws) = length ws"
  by (induction ws arbitrary: a) (auto simp: Let_def)

lemma rng_choices1_mem: "rng_choices1 xs ws r = Inr (x, r') \<Longrightarrow> x \<in> set xs"
proof -
  assume h: "rng_choices1 xs ws r = Inr (x, r')"
  have "bisect_below_last c y < length c" if "c \<noteq> []" for c y
    using that length_takeWhile_le[of "\<lambda>a. a \<le> y" "butlast c"]
    by (cases c) (auto simp: bisect_below_last_def)
  then show ?thesis using h
    by (fastforce simp: rng_choices1_def Let_def split: if_splits prod.splits)
qed

end
