(* ===== verification/Capacity.thy ===== *)
theory Capacity
  imports Py_Random
begin

text \<open>
  Per-member capacity within one tick (\<open>engine/capacity.py\<close>): the tick state of a member,
  the choice of an available worker, marking and releasing. The locale \<open>worker_pool\<close> is
  the contract the workflow engine relies on; it is interpreted on these definitions.
\<close>

record MemberTickState =
  member_id :: int
  role :: string
  busy_this_tick :: bool
  assigned_issue_id :: "int option"

record MemberInput =
  mi_id :: int
  mi_role :: string
  mi_assigned_issue_id :: "int option"

type_synonym member_states = "(int, MemberTickState) dict"

definition build_member_states :: "MemberInput list \<Rightarrow> member_states" where
  "build_member_states members =
     fold (\<lambda>m. dict_set (mi_id m)
       \<lparr>member_id = mi_id m, role = mi_role m, busy_this_tick = False,
        assigned_issue_id = mi_assigned_issue_id m\<rparr>) members []"

definition available_for :: "string list \<Rightarrow> int \<Rightarrow> MemberTickState \<Rightarrow> bool" where
  "available_for roles issue_id s \<longleftrightarrow>
     \<not> busy_this_tick s \<and> role s \<in> set roles \<and>
     (assigned_issue_id s = None \<or> assigned_issue_id s = Some issue_id)"

definition find_available_member ::
  "member_states \<Rightarrow> string list \<Rightarrow> int \<Rightarrow> rng \<Rightarrow> (MemberTickState option \<times> rng) res" where
  "find_available_member states roles issue_id r =
     (let candidates = filter (available_for roles issue_id) (map snd states) in
      if candidates = [] then Inr (None, r)
      else bindR (rng_choice candidates r) (\<lambda>(s, r'). Inr (Some s, r')))"

definition mark_busy :: "member_states \<Rightarrow> int \<Rightarrow> int \<Rightarrow> member_states res" where
  "mark_busy states mid issue_id =
     bindR (dict_get states mid) (\<lambda>current.
       Inr (dict_set mid (current\<lparr>busy_this_tick := True, assigned_issue_id := Some issue_id\<rparr>) states))"

definition release_assignment :: "member_states \<Rightarrow> int \<Rightarrow> member_states res" where
  "release_assignment states mid =
     bindR (dict_get states mid) (\<lambda>current.
       Inr (dict_set mid (current\<lparr>assigned_issue_id := None\<rparr>) states))"

section \<open>Well-formed states and what the operations do\<close>

text \<open>Every entry is filed under the id it carries, each member once.\<close>

definition states_ok :: "member_states \<Rightarrow> bool" where
  "states_ok st \<longleftrightarrow> well_keyed member_id st"

definition member_of :: "member_states \<Rightarrow> int \<Rightarrow> MemberTickState option" where
  "member_of st k = map_of st k"

definition busy_of :: "member_states \<Rightarrow> int set" where
  "busy_of st = {k. \<exists>s. map_of st k = Some s \<and> busy_this_tick s}"

lemma build_member_states_snoc:
  "build_member_states (ms @ [m]) =
     dict_set (mi_id m)
       \<lparr>member_id = mi_id m, role = mi_role m, busy_this_tick = False,
        assigned_issue_id = mi_assigned_issue_id m\<rparr> (build_member_states ms)"
  by (simp add: build_member_states_def)

lemma build_member_states_ok: "states_ok (build_member_states ms)"
  by (induction ms rule: rev_induct)
    (simp_all add: states_ok_def build_member_states_def[of "[]"] build_member_states_snoc
      well_keyed_set)

lemma build_member_states_idle: "busy_of (build_member_states ms) = {}"
  by (induction ms rule: rev_induct)
    (auto simp: busy_of_def build_member_states_def[of "[]"] build_member_states_snoc dict_simps
      split: if_splits)

lemma build_member_states_dom: "fst ` set (build_member_states ms) = mi_id ` set ms"
  by (induction ms rule: rev_induct)
    (simp_all add: build_member_states_def[of "[]"] build_member_states_snoc dict_simps)

lemma find_available_member_Some:
  assumes "states_ok st" and "find_available_member st roles i r = Inr (Some s, r')"
  shows "member_of st (member_id s) = Some s \<and> available_for roles i s"
proof -
  have "s \<in> set (filter (available_for roles i) (map snd st))"
    using assms(2) by (auto simp: find_available_member_def Let_def res_simps
        split: if_splits dest: rng_choice_mem)
  then obtain k where k: "(k, s) \<in> set st" "available_for roles i s" by auto
  have "distinct (map fst st)" and "member_id s = k"
    using assms(1) k(1) by (auto simp: states_ok_def well_keyed_def)
  with k show ?thesis by (auto simp: member_of_def intro: map_of_is_SomeI)
qed

lemma find_available_member_None:
  assumes "find_available_member st roles i r = Inr (None, r')" and "member_of st k = Some s"
  shows "\<not> available_for roles i s"
proof -
  have "filter (available_for roles i) (map snd st) = []"
    using assms(1) by (auto simp: find_available_member_def Let_def res_simps split: if_splits)
  moreover have "s \<in> set (map snd st)"
    using assms(2) by (force simp: member_of_def dest: map_of_SomeD)
  ultimately show ?thesis by (simp only: filter_empty_conv) blast
qed

lemma find_available_member_total: "\<exists>s r'. find_available_member st roles i r = Inr (s, r')"
proof (cases "filter (available_for roles i) (map snd st) = []")
  case True
  then show ?thesis by (simp add: find_available_member_def)
next
  case False
  then obtain s r' where "rng_choice (filter (available_for roles i) (map snd st)) r = Inr (s, r')"
    using rng_choice_total by blast
  with False show ?thesis by (simp add: find_available_member_def Let_def)
qed

lemma mark_busy_effect:
  "mark_busy st k i = Inr st' \<Longrightarrow>
   \<exists>s. member_of st k = Some s \<and>
       member_of st' = (member_of st)(k \<mapsto> s\<lparr>busy_this_tick := True, assigned_issue_id := Some i\<rparr>)"
  by (auto simp: mark_busy_def res_simps dict_simps member_of_def fun_eq_iff)

lemma release_assignment_effect:
  "release_assignment st k = Inr st' \<Longrightarrow>
   \<exists>s. member_of st k = Some s \<and> member_of st' = (member_of st)(k \<mapsto> s\<lparr>assigned_issue_id := None\<rparr>)"
  by (auto simp: release_assignment_def res_simps dict_simps member_of_def fun_eq_iff)

lemma mark_busy_total: "member_of st k = Some s \<Longrightarrow> \<exists>st'. mark_busy st k i = Inr st'"
  by (auto simp: mark_busy_def res_simps dict_simps member_of_def)

lemma release_total: "member_of st k = Some s \<Longrightarrow> \<exists>st'. release_assignment st k = Inr st'"
  by (auto simp: release_assignment_def res_simps dict_simps member_of_def)

lemma mark_busy_ok:
  assumes "states_ok st" and "mark_busy st k i = Inr st'"
  shows "states_ok st'"
proof -
  obtain s where s: "map_of st k = Some s"
    and st': "st' = dict_set k (s\<lparr>busy_this_tick := True, assigned_issue_id := Some i\<rparr>) st"
    using assms(2) by (auto simp: mark_busy_def res_simps dict_simps)
  have "member_id s = k" using assms(1) s unfolding states_ok_def by (rule map_of_well_keyed)
  then show ?thesis using assms(1) unfolding states_ok_def st' by (intro well_keyed_set) simp_all
qed

lemma release_ok:
  assumes "states_ok st" and "release_assignment st k = Inr st'"
  shows "states_ok st'"
proof -
  obtain s where s: "map_of st k = Some s"
    and st': "st' = dict_set k (s\<lparr>assigned_issue_id := None\<rparr>) st"
    using assms(2) by (auto simp: release_assignment_def res_simps dict_simps)
  have "member_id s = k" using assms(1) s unfolding states_ok_def by (rule map_of_well_keyed)
  then show ?thesis using assms(1) unfolding states_ok_def st' by (intro well_keyed_set) simp_all
qed

section \<open>The contract\<close>

text \<open>
  What a client of the pool may rely on, stated through the view \<open>look\<close> of the pool as a
  map from members to their tick states.
\<close>

locale worker_pool =
  fixes find :: "'p \<Rightarrow> string list \<Rightarrow> int \<Rightarrow> rng \<Rightarrow> (MemberTickState option \<times> rng) res"
    and mark :: "'p \<Rightarrow> int \<Rightarrow> int \<Rightarrow> 'p res"
    and release :: "'p \<Rightarrow> int \<Rightarrow> 'p res"
    and look :: "'p \<Rightarrow> int \<Rightarrow> MemberTickState option"
    and pool_ok :: "'p \<Rightarrow> bool"
  assumes find_some: "pool_ok p \<Longrightarrow> find p roles i r = Inr (Some s, r') \<Longrightarrow>
      look p (member_id s) = Some s \<and> available_for roles i s"
    and find_none: "pool_ok p \<Longrightarrow> find p roles i r = Inr (None, r') \<Longrightarrow> look p k = Some s \<Longrightarrow>
      \<not> available_for roles i s"
    and mark_effect: "mark p k i = Inr p' \<Longrightarrow> \<exists>s. look p k = Some s \<and>
      look p' = (look p)(k \<mapsto> s\<lparr>busy_this_tick := True, assigned_issue_id := Some i\<rparr>)"
    and release_effect: "release p k = Inr p' \<Longrightarrow> \<exists>s. look p k = Some s \<and>
      look p' = (look p)(k \<mapsto> s\<lparr>assigned_issue_id := None\<rparr>)"
    and mark_total: "look p k = Some s \<Longrightarrow> \<exists>p'. mark p k i = Inr p'"
    and release_total': "look p k = Some s \<Longrightarrow> \<exists>p'. release p k = Inr p'"
    and mark_keeps: "pool_ok p \<Longrightarrow> mark p k i = Inr p' \<Longrightarrow> pool_ok p'"
    and release_keeps: "pool_ok p \<Longrightarrow> release p k = Inr p' \<Longrightarrow> pool_ok p'"
begin

definition busy :: "'p \<Rightarrow> int set" where
  "busy p = {k. \<exists>s. look p k = Some s \<and> busy_this_tick s}"

text \<open>The worker found is a member that was idle, and marking it makes exactly it busy.\<close>

lemma found_was_idle:
  "pool_ok p \<Longrightarrow> find p roles i r = Inr (Some s, r') \<Longrightarrow> member_id s \<notin> busy p"
  using find_some[of p roles i r s r'] by (auto simp: busy_def available_for_def)

lemma busy_mark: "mark p k i = Inr p' \<Longrightarrow> busy p' = insert k (busy p)"
  using mark_effect[of p k i p'] by (auto simp: busy_def)

lemma busy_release: "release p k = Inr p' \<Longrightarrow> busy p' = busy p"
  using release_effect[of p k p'] by (auto simp: busy_def split: if_splits)

lemma members_mark: "mark p k i = Inr p' \<Longrightarrow> dom (look p') = dom (look p)"
  using mark_effect[of p k i p'] by (auto split: if_splits)

lemma members_release: "release p k = Inr p' \<Longrightarrow> dom (look p') = dom (look p)"
  using release_effect[of p k p'] by (auto split: if_splits)

text \<open>A found worker can be marked; once busy it is not offered to anyone again.\<close>

lemma found_markable:
  "pool_ok p \<Longrightarrow> find p roles i r = Inr (Some s, r') \<Longrightarrow> \<exists>p'. mark p (member_id s) i = Inr p'"
  using find_some mark_total by blast

lemma busy_not_offered:
  "pool_ok p \<Longrightarrow> k \<in> busy p \<Longrightarrow> find p roles i r = Inr (Some s, r') \<Longrightarrow> member_id s \<noteq> k"
  using found_was_idle by blast

end

interpretation pool: worker_pool find_available_member mark_busy release_assignment member_of states_ok
  by unfold_locales
    (blast intro: mark_busy_ok release_ok mark_busy_total release_total
      dest: find_available_member_Some find_available_member_None mark_busy_effect
        release_assignment_effect)+

lemma pool_busy [simp]: "pool.busy = busy_of"
  by (rule ext) (simp add: pool.busy_def busy_of_def member_of_def)

end
