(* ===== verification/Distributions.thy ===== *)
theory Distributions
  imports Py_Random
begin

text \<open>
  Duration sampling of the first engine (\<open>engine/distributions.py\<close>): the log-normal fit of
  three percentiles, the samplers and their refusals. Logarithm and exponential come from the
  C library record; every arithmetic operation rounds.
\<close>

text \<open>The module constants, as the floats their literals denote.\<close>

definition Z_25 :: py_float where "Z_25 = fl (- 6745 / 10000)"
definition Z_99 :: py_float where "Z_99 = fl (23263 / 10000)"
definition MIN_FULL_TIME :: py_float where "MIN_FULL_TIME = fl (1 / 10)"

definition fit_lognormal ::
  "libm \<Rightarrow> py_float \<Rightarrow> py_float \<Rightarrow> py_float \<Rightarrow> (py_float \<times> py_float) res" where
  "fit_lognormal M p25 p50 p99 =
     (if p25 \<le> 0 \<or> p50 \<le> 0 \<or> p99 \<le> 0
      then Inl (Value_Error ''All percentiles must be positive'')
      else if \<not> (p25 \<le> p50 \<and> p50 \<le> p99)
      then Inl (Value_Error ''Percentiles must be ordered'')
      else
        (let mu = m_log M p50 in
         bindR (f_div (f_sub mu (m_log M p25)) \<bar>Z_25\<bar>) (\<lambda>sigma_from_p25.
         bindR (f_div (f_sub (m_log M p99) mu) Z_99) (\<lambda>sigma_from_p99.
         bindR (f_div (f_add sigma_from_p25 sigma_from_p99) 2) (\<lambda>sigma.
           Inr (mu, max sigma 0))))))"

definition sample_full_time ::
  "libm \<Rightarrow> py_float \<Rightarrow> py_float \<Rightarrow> py_float \<Rightarrow> rng \<Rightarrow> (py_float \<times> rng) res" where
  "sample_full_time M p25 p50 p99 r =
     bindR (fit_lognormal M p25 p50 p99) (\<lambda>(mu, sigma).
       if sigma = 0 then Inr (max (m_exp M mu) MIN_FULL_TIME, r)
       else
         (let (z, r') = rng_gauss M r;
              val = m_exp M (f_add mu (f_mul sigma z))
          in Inr (max val MIN_FULL_TIME, r')))"

definition sample_work_time :: "py_float \<Rightarrow> py_float \<Rightarrow> rng \<Rightarrow> (py_float \<times> rng) res" where
  "sample_work_time min_hours max_hours r =
     (if min_hours = 0 \<and> max_hours = 0 then Inr (0, r)
      else if min_hours < 0 \<or> max_hours < min_hours
      then Inl (Value_Error ''Invalid work time range'')
      else Inr (rng_uniform min_hours max_hours r))"

definition sample_sprint_capacity :: "int \<Rightarrow> int \<Rightarrow> rng \<Rightarrow> (int \<times> rng) res" where
  "sample_sprint_capacity min_sp max_sp r =
     (if max_sp < min_sp then Inl (Value_Error ''Invalid capacity range'')
      else rng_randint min_sp max_sp r)"

lemma Z_constants [simp]: "Z_25 \<noteq> 0" "Z_99 \<noteq> 0" "0 < \<bar>Z_25\<bar>" "0 < Z_99"
proof -
  have "fl (23263 / 10000) \<ge> 2" using fl_ge_int[of 2 "23263 / 10000"] by simp
  then show z: "Z_99 \<noteq> 0" "0 < Z_99" by (auto simp: Z_99_def)
  have "fl (- 6745 / 10000) = - fl (6745 / 10000)" using fl_minus[of "6745 / 10000"] by simp
  moreover have "fl (1 / 2) \<le> fl (6745 / 10000)" by (rule fl_mono) simp
  moreover have "fl (1 / 2) = 1 / 2" using fl_exact[of 1 "-1"] by (simp add: power_int_def)
  ultimately show "Z_25 \<noteq> 0" "0 < \<bar>Z_25\<bar>" by (auto simp: Z_25_def)
qed

lemma fit_lognormal_total:
  "\<lbrakk>0 < p25; p25 \<le> p50; p50 \<le> p99\<rbrakk> \<Longrightarrow>
   \<exists>sigma. fit_lognormal M p25 p50 p99 = Inr (m_log M p50, sigma) \<and> 0 \<le> sigma"
  by (auto simp: fit_lognormal_def f_div_def Let_def)

lemma fit_lognormal_Inr:
  "fit_lognormal M p25 p50 p99 = Inr (mu, sigma) \<Longrightarrow>
   0 < p25 \<and> p25 \<le> p50 \<and> p50 \<le> p99 \<and> mu = m_log M p50 \<and> 0 \<le> sigma"
  by (auto simp: fit_lognormal_def f_div_def Let_def split: if_splits)

text \<open>Equal percentiles fit a degenerate distribution, so no deviate is drawn.\<close>

lemma fit_lognormal_degenerate: "0 < p \<Longrightarrow> fit_lognormal M p p p = Inr (m_log M p, 0)"
  by (simp add: fit_lognormal_def f_div_def f_sub_def f_add_def)

lemma MIN_FULL_TIME_pos: "0 < MIN_FULL_TIME"
proof -
  have "fl (1 / 16) \<le> fl (1 / 10)" by (rule fl_mono) simp
  moreover have "fl (1 / 16) = 1 / 16" using fl_exact[of 1 "-4"] by (simp add: power_int_def power_one_over)
  ultimately have "1 / 16 \<le> MIN_FULL_TIME" by (simp add: MIN_FULL_TIME_def)
  moreover have "(0::rat) < 1 / 16" by simp
  ultimately show ?thesis by (rule less_le_trans[rotated])
qed

lemma sample_full_time_ge_min:
  "sample_full_time M p25 p50 p99 r = Inr (x, r') \<Longrightarrow> MIN_FULL_TIME \<le> x"
  by (auto simp: sample_full_time_def res_simps Let_def split: if_splits prod.splits)

lemma sample_work_time_ge:
  "sample_work_time a b r = Inr (x, r') \<Longrightarrow> is_float a \<Longrightarrow> 0 \<le> x"
  using rng_uniform_bounds[of a b r x r']
  by (auto simp: sample_work_time_def split: if_splits)

end
