(* ===== verification/Workflow_Engine.thy ===== *)
theory Workflow_Engine
  imports Capacity Distributions
begin

text \<open>
  Per-item, per-tick processing (\<open>engine/workflow_engine.py\<close>) over the snapshots of
  \<open>engine/snapshots.py\<close>. The item is a record that is returned updated, the member states
  and the random source are threaded through, and the exceptions of the code are results.
\<close>

section \<open>Snapshots\<close>

text \<open>The workflow engine marks an item complete with \<open>True\<close>; its caller stores the instant.\<close>

datatype completion = Done_Flag | Done_At int

record IssueSnapshot =
  iss_id :: int
  iss_team_id :: int
  iss_issue_type :: string
  iss_story_points :: "int option"
  iss_summary :: string
  iss_jira_issue_key :: "string option"
  iss_jira_issue_id :: "string option"
  iss_status :: string
  iss_current_workflow_step_id :: "int option"
  iss_current_worker_id :: "int option"
  iss_sampled_full_time :: py_float
  iss_sampled_work_time :: py_float
  iss_elapsed_full_time :: py_float
  iss_elapsed_work_time :: py_float
  iss_work_started :: bool
  iss_completed_at :: "completion option"
  iss_sprint_id :: "int option"
  iss_carried_over :: bool
  iss_backlog_priority :: "int option"
  iss_priority :: string
  iss_description :: "string option"
  iss_is_blocked :: bool
  iss_descoped :: bool

record WorkflowStepSnapshot =
  ws_id :: int
  ws_workflow_id :: int
  ws_jira_status :: string
  ws_order :: int
  ws_role_required :: "string option"
  ws_roles_json :: "string list option" \<comment> \<open>decoded; None for a null or empty text\<close>

record TouchTimeConfigSnapshot =
  ttc_id :: int
  ttc_workflow_step_id :: int
  ttc_issue_type :: string
  ttc_story_points :: int
  ttc_min_hours :: py_float
  ttc_max_hours :: py_float
  ttc_full_time_p25 :: "py_float option"
  ttc_full_time_p50 :: "py_float option"
  ttc_full_time_p99 :: "py_float option"

record MoveLeftTargetSnapshot =
  mt_id :: int
  mt_to_step_id :: int
  mt_weight :: py_float

record MoveLeftConfigSnapshot =
  ml_id :: int
  ml_team_id :: int
  ml_from_step_id :: int
  ml_issue_type :: "string option"
  ml_base_probability :: py_float
  ml_targets :: "MoveLeftTargetSnapshot list"

type_synonym touch_configs = "(int \<times> string \<times> int, TouchTimeConfigSnapshot) dict"

record JiraWriteAction =
  operation_type :: string
  payload :: json
  act_issue_id :: "int option"

record ItemTickResult =
  jira_actions :: "JiraWriteAction list"
  tick_member_states :: member_states
  tick_completed :: bool

definition roles_of :: "WorkflowStepSnapshot \<Rightarrow> string list" where
  "roles_of s =
     (case ws_roles_json s of Some rs \<Rightarrow> rs
      | None \<Rightarrow> (case ws_role_required s of None \<Rightarrow> [] | Some r \<Rightarrow> if r = [] then [] else [r]))"

section \<open>Lookups\<close>

definition get_touch_time_config ::
  "touch_configs \<Rightarrow> int \<Rightarrow> string \<Rightarrow> int \<Rightarrow> TouchTimeConfigSnapshot option" where
  "get_touch_time_config configs step_id issue_type points =
     (case map_of configs (step_id, issue_type, points) of
        Some cfg \<Rightarrow> Some cfg
      | None \<Rightarrow> map_of configs (step_id, issue_type, 0))"

definition find_step_by_id ::
  "WorkflowStepSnapshot list \<Rightarrow> int option \<Rightarrow> WorkflowStepSnapshot option" where
  "find_step_by_id steps sid = List.find (\<lambda>s. Some (ws_id s) = sid) steps"

definition next_step :: "WorkflowStepSnapshot list \<Rightarrow> int \<Rightarrow> WorkflowStepSnapshot option" where
  "next_step steps current_order =
     (let candidates = filter (\<lambda>s. current_order < ws_order s) steps in
      if candidates = [] then None else Some (arg_min_list ws_order candidates))"

definition is_final_step :: "WorkflowStepSnapshot list \<Rightarrow> WorkflowStepSnapshot \<Rightarrow> bool res" where
  "is_final_step steps step =
     (case map ws_order steps of
        [] \<Rightarrow> Inl (Value_Error ''max() arg is an empty sequence'')
      | n # ns \<Rightarrow> Inr (ws_order step = fold max ns n))"

section \<open>Entering a status\<close>

definition truthy_num :: "py_float option \<Rightarrow> bool" where
  "truthy_num x \<longleftrightarrow> (case x of None \<Rightarrow> False | Some v \<Rightarrow> v \<noteq> 0)"

definition sampled_full ::
  "libm \<Rightarrow> TouchTimeConfigSnapshot \<Rightarrow> rng \<Rightarrow> (py_float \<times> rng) res" where
  "sampled_full M c r =
     (case (ttc_full_time_p25 c, ttc_full_time_p50 c, ttc_full_time_p99 c) of
        (Some p25, Some p50, Some p99) \<Rightarrow>
          if p25 \<noteq> 0 \<and> p50 \<noteq> 0 \<and> p99 \<noteq> 0 then sample_full_time M p25 p50 p99 r
          else Inr (0, r)
      | _ \<Rightarrow> Inr (0, r))"

definition transition_action :: "IssueSnapshot \<Rightarrow> WorkflowStepSnapshot \<Rightarrow> JiraWriteAction" where
  "transition_action issue step =
     \<lparr>operation_type = ''TRANSITION_ISSUE'',
      payload = JObj [(''issue_key'', json_opt JStr (iss_jira_issue_key issue)),
                      (''target_status'', JStr (ws_jira_status step))],
      act_issue_id = Some (iss_id issue)\<rparr>"

definition enter_status ::
  "libm \<Rightarrow> IssueSnapshot \<Rightarrow> WorkflowStepSnapshot \<Rightarrow> TouchTimeConfigSnapshot option \<Rightarrow> rng \<Rightarrow>
   (IssueSnapshot \<times> JiraWriteAction list \<times> rng) res" where
  "enter_status M issue step cfg r =
     bindR (case cfg of
              None \<Rightarrow> Inr (0, 0, r)
            | Some c \<Rightarrow>
                bindR (sampled_full M c r) (\<lambda>(full, r1).
                bindR (sample_work_time (ttc_min_hours c) (ttc_max_hours c) r1) (\<lambda>(work, r2).
                  Inr (full, work, r2))))
       (\<lambda>(full, work, r').
         let issue' = issue\<lparr>iss_current_workflow_step_id := Some (ws_id step),
                            iss_status := ws_jira_status step,
                            iss_sampled_full_time := full,
                            iss_sampled_work_time := work,
                            iss_elapsed_full_time := 0,
                            iss_elapsed_work_time := 0,
                            iss_work_started := False,
                            iss_current_worker_id := None\<rparr>
         in Inr (issue', [transition_action issue' step], r'))"

definition check_transition_ready :: "IssueSnapshot \<Rightarrow> bool" where
  "check_transition_ready issue \<longleftrightarrow>
     (iss_sampled_work_time issue = 0 \<or>
      iss_sampled_work_time issue \<le> iss_elapsed_work_time issue) \<and>
     iss_sampled_full_time issue \<le> iss_elapsed_full_time issue"

section \<open>Rolling the direction\<close>

text \<open>The builtin \<open>sum\<close> over floats keeps a compensation term (since Python 3.12).\<close>

fun sum_comp :: "py_float \<Rightarrow> py_float \<Rightarrow> py_float list \<Rightarrow> py_float" where
  "sum_comp hi lo [] = (if lo = 0 then hi else f_add hi lo)"
| "sum_comp hi lo (x # xs) =
     (let t = f_add hi x;
          c = (if \<bar>x\<bar> \<le> \<bar>hi\<bar> then f_add (f_sub hi t) x else f_add (f_sub x t) hi)
      in sum_comp t (f_add lo c) xs)"

definition py_sum :: "py_float list \<Rightarrow> py_float" where
  "py_sum xs = sum_comp 0 0 xs"

datatype direction = Forward | Move_Left int

fun pick_target :: "py_float \<Rightarrow> py_float \<Rightarrow> MoveLeftTargetSnapshot list \<Rightarrow> int option" where
  "pick_target roll cumulative [] = None"
| "pick_target roll cumulative (t # ts) =
     (let c = f_add cumulative (mt_weight t)
      in if roll \<le> c then Some (mt_to_step_id t) else pick_target roll c ts)"

definition matching_config ::
  "string \<Rightarrow> int \<Rightarrow> MoveLeftConfigSnapshot list \<Rightarrow> MoveLeftConfigSnapshot option" where
  "matching_config issue_type step_id cfgs =
     (let here = filter (\<lambda>c. ml_from_step_id c = step_id) cfgs;
          specific = List.find (\<lambda>c. ml_issue_type c = Some issue_type) (rev here);
          generic = List.find (\<lambda>c. ml_issue_type c = None) (rev here)
      in case specific of Some c \<Rightarrow> Some c | None \<Rightarrow> generic)"

definition roll_direction ::
  "string \<Rightarrow> WorkflowStepSnapshot \<Rightarrow> MoveLeftConfigSnapshot list \<Rightarrow> rng \<Rightarrow> direction \<times> rng" where
  "roll_direction issue_type step cfgs r =
     (case matching_config issue_type (ws_id step) cfgs of
        None \<Rightarrow> (Forward, r)
      | Some config \<Rightarrow>
          (let (u, r1) = rng_random r in
           if ml_base_probability config \<le> u then (Forward, r1)
           else if ml_targets config = [] then (Forward, r1)
           else
             (let total = py_sum (map mt_weight (ml_targets config)) in
              if total \<le> 0 then (Forward, r1)
              else
                (let (v, r2) = rng_random r1; roll = f_mul v total in
                 case pick_target roll 0 (ml_targets config) of
                   Some sid \<Rightarrow> (Move_Left sid, r2)
                 | None \<Rightarrow> (Move_Left (mt_to_step_id (last (ml_targets config))), r2)))))"

section \<open>One tick of one item\<close>

text \<open>Step 1: an item that needs work and has not started asks for a worker.\<close>

definition assign_worker ::
  "IssueSnapshot \<Rightarrow> WorkflowStepSnapshot \<Rightarrow> member_states \<Rightarrow> rng \<Rightarrow>
   (IssueSnapshot \<times> member_states \<times> rng) res" where
  "assign_worker issue step st r =
     (if 0 < iss_sampled_work_time issue \<and> \<not> iss_work_started issue then
        bindR (find_available_member st (roles_of step) (iss_id issue) r) (\<lambda>(worker, r1).
          case worker of
            None \<Rightarrow> Inr (issue, st, r1)
          | Some w \<Rightarrow>
              bindR (mark_busy st (member_id w) (iss_id issue)) (\<lambda>st1.
                Inr (issue\<lparr>iss_work_started := True,
                           iss_current_worker_id := Some (member_id w)\<rparr>, st1, r1)))
      else Inr (issue, st, r))"

text \<open>Steps 2 and 3: work in progress advances, and full time always does.\<close>

definition advance_work ::
  "py_float \<Rightarrow> IssueSnapshot \<Rightarrow> member_states \<Rightarrow> (IssueSnapshot \<times> member_states) res" where
  "advance_work tick_hours issue st =
     (if \<not> iss_work_started issue then Inr (issue, st)
      else case iss_current_worker_id issue of
        None \<Rightarrow> Inr (issue, st)
      | Some w \<Rightarrow>
          (let issue1 = issue\<lparr>iss_elapsed_work_time := f_add (iss_elapsed_work_time issue) tick_hours\<rparr>
           in bindR (dict_get st w) (\<lambda>m.
                if busy_this_tick m then Inr (issue1, st)
                else bindR (mark_busy st w (iss_id issue)) (\<lambda>st1. Inr (issue1, st1)))))"

definition advance_full :: "py_float \<Rightarrow> IssueSnapshot \<Rightarrow> IssueSnapshot" where
  "advance_full tick_hours issue =
     issue\<lparr>iss_elapsed_full_time := f_add (iss_elapsed_full_time issue) tick_hours\<rparr>"

text \<open>Step 6: the transition, forward or to the left.\<close>

definition move_forward ::
  "libm \<Rightarrow> IssueSnapshot \<Rightarrow> WorkflowStepSnapshot list \<Rightarrow> WorkflowStepSnapshot \<Rightarrow> touch_configs \<Rightarrow>
   rng \<Rightarrow> (IssueSnapshot \<times> JiraWriteAction list \<times> bool \<times> rng) res" where
  "move_forward M issue steps current configs r =
     (let points = (case iss_story_points issue of None \<Rightarrow> 0 | Some p \<Rightarrow> p) in
      case next_step steps (ws_order current) of
        None \<Rightarrow> Inr (issue\<lparr>iss_completed_at := Some Done_Flag\<rparr>, [], True, r)
      | Some nxt \<Rightarrow>
          bindR (is_final_step steps current) (\<lambda>final.
            if final then Inr (issue\<lparr>iss_completed_at := Some Done_Flag\<rparr>, [], True, r)
            else
              bindR (enter_status M issue nxt
                      (get_touch_time_config configs (ws_id nxt) (iss_issue_type issue) points) r)
                (\<lambda>(issue1, acts, r1).
                  bindR (is_final_step steps nxt) (\<lambda>done. Inr (issue1, acts, done, r1)))))"

definition move_left ::
  "libm \<Rightarrow> IssueSnapshot \<Rightarrow> WorkflowStepSnapshot list \<Rightarrow> int \<Rightarrow> touch_configs \<Rightarrow> rng \<Rightarrow>
   (IssueSnapshot \<times> JiraWriteAction list \<times> bool \<times> rng) res" where
  "move_left M issue steps target configs r =
     (let points = (case iss_story_points issue of None \<Rightarrow> 0 | Some p \<Rightarrow> p) in
      case find_step_by_id steps (Some target) of
        None \<Rightarrow> Inr (issue, [], False, r)
      | Some tgt \<Rightarrow>
          bindR (enter_status M issue tgt
                  (get_touch_time_config configs (ws_id tgt) (iss_issue_type issue) points) r)
            (\<lambda>(issue1, acts, r1). Inr (issue1, acts, False, r1)))"

definition release_worker :: "IssueSnapshot \<Rightarrow> member_states \<Rightarrow> member_states res" where
  "release_worker issue st =
     (case iss_current_worker_id issue of None \<Rightarrow> Inr st | Some w \<Rightarrow> release_assignment st w)"

definition execute_transition ::
  "libm \<Rightarrow> IssueSnapshot \<Rightarrow> WorkflowStepSnapshot list \<Rightarrow> WorkflowStepSnapshot \<Rightarrow> touch_configs \<Rightarrow>
   MoveLeftConfigSnapshot list \<Rightarrow> member_states \<Rightarrow> rng \<Rightarrow>
   (ItemTickResult \<times> IssueSnapshot \<times> rng) res" where
  "execute_transition M issue steps current configs mls st r =
     (let (dir, r1) = roll_direction (iss_issue_type issue) current mls r in
      bindR (release_worker issue st) (\<lambda>st1.
      bindR (case dir of
               Forward \<Rightarrow> move_forward M issue steps current configs r1
             | Move_Left target \<Rightarrow> move_left M issue steps target configs r1)
        (\<lambda>(issue1, acts, done, r2).
          Inr (\<lparr>jira_actions = acts, tick_member_states = st1, tick_completed = done\<rparr>,
               issue1, r2))))"

definition process_item_tick ::
  "libm \<Rightarrow> IssueSnapshot \<Rightarrow> WorkflowStepSnapshot list \<Rightarrow> touch_configs \<Rightarrow>
   MoveLeftConfigSnapshot list \<Rightarrow> member_states \<Rightarrow> py_float \<Rightarrow> rng \<Rightarrow>
   (ItemTickResult \<times> IssueSnapshot \<times> rng) res" where
  "process_item_tick M issue steps configs mls st tick_hours r =
     (case find_step_by_id steps (iss_current_workflow_step_id issue) of
        None \<Rightarrow> Inr (\<lparr>jira_actions = [], tick_member_states = st, tick_completed = False\<rparr>, issue, r)
      | Some current \<Rightarrow>
          bindR (assign_worker issue current st r) (\<lambda>(issue1, st1, r1).
          bindR (advance_work tick_hours issue1 st1) (\<lambda>(issue2, st2).
            let issue3 = advance_full tick_hours issue2 in
            if \<not> check_transition_ready issue3
            then Inr (\<lparr>jira_actions = [], tick_member_states = st2, tick_completed = False\<rparr>,
                      issue3, r1)
            else execute_transition M issue3 steps current configs mls st2 r1)))"

section \<open>Lookups meet their descriptions\<close>

lemma find_step_by_id_Some:
  "find_step_by_id steps sid = Some s \<Longrightarrow> s \<in> set steps \<and> sid = Some (ws_id s)"
  by (auto simp: find_step_by_id_def find_Some_iff)

lemma arg_min_list_le:
  fixes f :: "'a \<Rightarrow> 'b :: linorder"
  shows "x \<in> set xs \<Longrightarrow> f (arg_min_list f xs) \<le> f x"
  using f_arg_min_list_f[of xs f] by (metis Min_le empty_iff empty_set finite_imageI finite_set
      imageI list.set_map)

lemma next_step_Some:
  assumes "next_step steps o1 = Some n"
  shows "n \<in> set steps \<and> o1 < ws_order n \<and>
         (\<forall>s \<in> set steps. o1 < ws_order s \<longrightarrow> ws_order n \<le> ws_order s)"
proof -
  let ?c = "filter (\<lambda>s. o1 < ws_order s) steps"
  have c: "?c \<noteq> []" and n: "n = arg_min_list ws_order ?c"
    using assms by (auto simp: next_step_def Let_def split: if_splits)
  have "n \<in> set ?c" unfolding n using c by (rule arg_min_list_in)
  moreover have "ws_order n \<le> ws_order s" if "s \<in> set ?c" for s
    unfolding n using that by (rule arg_min_list_le)
  ultimately show ?thesis by auto
qed

lemma next_step_None: "next_step steps o1 = None \<longleftrightarrow> (\<forall>s \<in> set steps. ws_order s \<le> o1)"
  by (auto simp: next_step_def Let_def filter_empty_conv not_less)

lemma fold_max_eq: "fold max ns n = Max (set (n # ns))" for n :: "'a :: linorder"
  by (rule Max.set_eq_fold[symmetric])

lemma is_final_step_Inr:
  "is_final_step steps s = Inr b \<Longrightarrow> steps \<noteq> [] \<and> (b \<longleftrightarrow> ws_order s = Max (ws_order ` set steps))"
  by (cases steps) (auto simp: is_final_step_def fold_max_eq)

lemma is_final_step_total: "steps \<noteq> [] \<Longrightarrow> \<exists>b. is_final_step steps s = Inr b"
  by (cases steps) (auto simp: is_final_step_def)

text \<open>A present step is final exactly when nothing follows it.\<close>

lemma final_iff_no_next:
  "s \<in> set steps \<Longrightarrow> is_final_step steps s = Inr b \<Longrightarrow> b \<longleftrightarrow> next_step steps (ws_order s) = None"
  by (auto dest!: is_final_step_Inr simp: next_step_None Max_ge_iff
      intro!: antisym Max.boundedI)

lemma matching_config_Some:
  "matching_config ty sid cfgs = Some c \<Longrightarrow>
   c \<in> set cfgs \<and> ml_from_step_id c = sid \<and> (ml_issue_type c = Some ty \<or> ml_issue_type c = None)"
  by (auto simp: matching_config_def Let_def split: option.splits dest!: find_SomeD)

lemma pick_target_mem: "pick_target roll c ts = Some sid \<Longrightarrow> sid \<in> mt_to_step_id ` set ts"
  by (induction ts arbitrary: c) (auto simp: Let_def split: if_splits)

lemma roll_direction_left:
  assumes "roll_direction ty step cfgs r = (Move_Left sid, r')"
  shows "\<exists>c \<in> set cfgs. ml_from_step_id c = ws_id step \<and> sid \<in> mt_to_step_id ` set (ml_targets c)
           \<and> 0 < ml_base_probability c"
proof -
  obtain c where c: "matching_config ty (ws_id step) cfgs = Some c"
    using assms by (auto simp: roll_direction_def split: option.splits)
  obtain u r1 where u: "rng_random r = (u, r1)" by fastforce
  have "\<not> ml_base_probability c \<le> u" and ne: "ml_targets c \<noteq> []"
    using assms c u by (auto simp: roll_direction_def Let_def split: if_splits prod.splits)
  then have "0 < ml_base_probability c" using rng_random_unit[OF u] by linarith
  moreover have "sid \<in> mt_to_step_id ` set (ml_targets c)"
    using assms c u ne
    by (auto simp: roll_direction_def Let_def split: if_splits prod.splits option.splits
        dest: pick_target_mem)
  ultimately show ?thesis using matching_config_Some[OF c] by auto
qed

section \<open>Entering a status\<close>

definition config_ok :: "TouchTimeConfigSnapshot \<Rightarrow> bool" where
  "config_ok c \<longleftrightarrow>
     0 \<le> ttc_min_hours c \<and> ttc_min_hours c \<le> ttc_max_hours c \<and> is_float (ttc_min_hours c) \<and>
     (case (ttc_full_time_p25 c, ttc_full_time_p50 c, ttc_full_time_p99 c) of
        (Some p25, Some p50, Some p99) \<Rightarrow>
          p25 = 0 \<or> p50 = 0 \<or> p99 = 0 \<or> 0 < p25 \<and> p25 \<le> p50 \<and> p50 \<le> p99
      | _ \<Rightarrow> True)"

lemma sample_full_time_total:
  "\<lbrakk>0 < p25; p25 \<le> p50; p50 \<le> p99\<rbrakk> \<Longrightarrow> \<exists>x r'. sample_full_time M p25 p50 p99 r = Inr (x, r')"
  using fit_lognormal_total[of p25 p50 p99 M]
  by (auto simp: sample_full_time_def Let_def split: prod.splits)

lemma sampled_full_total: "config_ok c \<Longrightarrow> \<exists>x r'. sampled_full M c r = Inr (x, r')"
  using sample_full_time_total
  by (fastforce simp: sampled_full_def config_ok_def split: option.splits)

lemma sample_work_total: "config_ok c \<Longrightarrow>
  \<exists>x r'. sample_work_time (ttc_min_hours c) (ttc_max_hours c) r = Inr (x, r')"
  by (auto simp: sample_work_time_def config_ok_def intro: surj_pair)

lemma enter_status_total:
  assumes "\<And>c. cfg = Some c \<Longrightarrow> config_ok c"
  shows "\<exists>i acts r'. enter_status M issue step cfg r = Inr (i, acts, r')"
proof (cases cfg)
  case None
  then show ?thesis by (simp add: enter_status_def Let_def)
next
  case (Some c)
  then have ok: "config_ok c" using assms by simp
  then obtain x r1 where x: "sampled_full M c r = Inr (x, r1)" using sampled_full_total by blast
  obtain y r2 where "sample_work_time (ttc_min_hours c) (ttc_max_hours c) r1 = Inr (y, r2)"
    using sample_work_total[OF ok] by blast
  with x show ?thesis by (simp add: enter_status_def Let_def Some)
qed

lemma enter_status_effect:
  "enter_status M issue step cfg r = Inr (i, acts, r') \<Longrightarrow>
   iss_id i = iss_id issue \<and> iss_current_workflow_step_id i = Some (ws_id step) \<and>
   iss_status i = ws_jira_status step \<and> iss_elapsed_full_time i = 0 \<and> iss_elapsed_work_time i = 0 \<and>
   \<not> iss_work_started i \<and> iss_current_worker_id i = None \<and>
   iss_completed_at i = iss_completed_at issue \<and> acts = [transition_action i step]"
  by (auto simp: enter_status_def res_simps Let_def split: option.splits)

section \<open>One tick of one item\<close>

text \<open>An item's worker is a known member; an item without work in progress has none to lose.\<close>

definition worker_known :: "member_states \<Rightarrow> IssueSnapshot \<Rightarrow> bool" where
  "worker_known st i \<longleftrightarrow>
     (\<forall>w. iss_current_worker_id i = Some w \<longrightarrow> member_of st w \<noteq> None)"

lemma assign_worker_pool:
  assumes "states_ok st" and "assign_worker issue step st r = Inr (i, st', r')"
  shows "states_ok st' \<and> dom (member_of st') = dom (member_of st) \<and>
         (i = issue \<and> st' = st \<or>
          (\<exists>s. available_for (roles_of step) (iss_id issue) s \<and> member_of st (member_id s) = Some s \<and>
               i = issue\<lparr>iss_work_started := True, iss_current_worker_id := Some (member_id s)\<rparr> \<and>
               busy_of st' = insert (member_id s) (busy_of st) \<and> member_id s \<notin> busy_of st))"
proof (cases "0 < iss_sampled_work_time issue \<and> \<not> iss_work_started issue")
  case False
  then show ?thesis using assms by (auto simp: assign_worker_def)
next
  case True
  obtain wo r1 where w: "find_available_member st (roles_of step) (iss_id issue) r = Inr (wo, r1)"
    using find_available_member_total by blast
  show ?thesis
  proof (cases wo)
    case None
    then show ?thesis using assms True w by (simp add: assign_worker_def)
  next
    case (Some s)
    note f = pool.find_some[OF assms(1) w[unfolded Some]]
      and idle = pool.found_was_idle[OF assms(1) w[unfolded Some]]
    obtain st1 where m: "mark_busy st (member_id s) (iss_id issue) = Inr st1"
      using pool.found_markable[OF assms(1) w[unfolded Some]] by blast
    have i: "st' = st1"
      "i = issue\<lparr>iss_work_started := True, iss_current_worker_id := Some (member_id s)\<rparr>"
      using assms(2) True w Some m by (simp_all add: assign_worker_def)
    have "busy_of st1 = insert (member_id s) (busy_of st)" and "member_id s \<notin> busy_of st"
      using pool.busy_mark[OF m] idle by simp_all
    then show ?thesis
      using f i pool.mark_keeps[OF assms(1) m] pool.members_mark[OF m] by blast
  qed
qed

lemma advance_work_pool:
  assumes "states_ok st" and "advance_work h issue st = Inr (i, st')"
  shows "states_ok st' \<and> dom (member_of st') = dom (member_of st) \<and>
         iss_current_worker_id i = iss_current_worker_id issue \<and>
         (st' = st \<or> (\<exists>w. iss_current_worker_id issue = Some w \<and> busy_of st' = insert w (busy_of st)))"
proof -
  consider "st' = st" "iss_current_worker_id i = iss_current_worker_id issue"
    | w where "iss_current_worker_id issue = Some w" "mark_busy st w (iss_id issue) = Inr st'"
        "iss_current_worker_id i = iss_current_worker_id issue"
    using assms(2)
    by (auto simp: advance_work_def res_simps Let_def split: if_splits option.splits)
  then show ?thesis
  proof cases
    case 2
    then show ?thesis
      using pool.mark_keeps[OF assms(1) 2(2)] pool.members_mark[OF 2(2)] pool.busy_mark[OF 2(2)]
      by auto
  qed (use assms(1) in simp)
qed

lemma release_worker_pool:
  assumes "states_ok st" and "release_worker issue st = Inr st'"
  shows "states_ok st' \<and> dom (member_of st') = dom (member_of st) \<and> busy_of st' = busy_of st"
  using assms pool.release_keeps pool.members_release pool.busy_release
  by (fastforce simp: release_worker_def split: option.splits)

text \<open>The three ways a tick of one item can return.\<close>

lemma process_item_tick_split:
  assumes "process_item_tick M issue steps configs mls st h r = Inr (res, i, r')"
  obtains
    (unplaced) "find_step_by_id steps (iss_current_workflow_step_id issue) = None"
      "i = issue" "tick_member_states res = st" "jira_actions res = []" "\<not> tick_completed res"
  | (waits) cur i1 st1 i2 st2 where
      "find_step_by_id steps (iss_current_workflow_step_id issue) = Some cur"
      "assign_worker issue cur st r = Inr (i1, st1, r')" "advance_work h i1 st1 = Inr (i2, st2)"
      "i = advance_full h i2" "\<not> check_transition_ready i"
      "tick_member_states res = st2" "jira_actions res = []" "\<not> tick_completed res"
  | (moves) cur i1 st1 r1 i2 st2 where
      "find_step_by_id steps (iss_current_workflow_step_id issue) = Some cur"
      "assign_worker issue cur st r = Inr (i1, st1, r1)" "advance_work h i1 st1 = Inr (i2, st2)"
      "check_transition_ready (advance_full h i2)"
      "execute_transition M (advance_full h i2) steps cur configs mls st2 r1 = Inr (res, i, r')"
proof (cases "find_step_by_id steps (iss_current_workflow_step_id issue)")
  case None
  then have "i = issue \<and>
      res = \<lparr>jira_actions = [], tick_member_states = st, tick_completed = False\<rparr>"
    using assms by (auto simp: process_item_tick_def)
  with None show ?thesis by (intro unplaced) simp_all
next
  case (Some cur)
  have "bindR (assign_worker issue cur st r) (\<lambda>(issue1, st1, r1).
          bindR (advance_work h issue1 st1) (\<lambda>(issue2, st2).
            let issue3 = advance_full h issue2 in
            if \<not> check_transition_ready issue3
            then Inr (\<lparr>jira_actions = [], tick_member_states = st2, tick_completed = False\<rparr>,
                      issue3, r1)
            else execute_transition M issue3 steps cur configs mls st2 r1)) = Inr (res, i, r')"
    using assms Some by (simp add: process_item_tick_def)
  then obtain i1 st1 r1 where a: "assign_worker issue cur st r = Inr (i1, st1, r1)"
    and rest: "bindR (advance_work h i1 st1) (\<lambda>(issue2, st2).
            let issue3 = advance_full h issue2 in
            if \<not> check_transition_ready issue3
            then Inr (\<lparr>jira_actions = [], tick_member_states = st2, tick_completed = False\<rparr>,
                      issue3, r1)
            else execute_transition M issue3 steps cur configs mls st2 r1) = Inr (res, i, r')"
    by (rule bindR_Inr3E)
  obtain i2 st2 where b: "advance_work h i1 st1 = Inr (i2, st2)"
    using rest by (rule bindR_Inr2E)
  show ?thesis
  proof (cases "check_transition_ready (advance_full h i2)")
    case True
    have "execute_transition M (advance_full h i2) steps cur configs mls st2 r1 = Inr (res, i, r')"
      using assms Some a b True by (simp add: process_item_tick_def Let_def)
    then show ?thesis using moves Some a b True by blast
  next
    case False
    have "i = advance_full h i2" "r' = r1"
      "res = \<lparr>jira_actions = [], tick_member_states = st2, tick_completed = False\<rparr>"
      using assms Some a b False by (simp_all add: process_item_tick_def Let_def)
    then show ?thesis using waits Some a b False by simp
  qed
qed

lemma execute_transition_split:
  assumes "execute_transition M issue steps cur configs mls st r = Inr (res, i, r')"
  obtains dir r1 where "roll_direction (iss_issue_type issue) cur mls r = (dir, r1)"
    "release_worker issue st = Inr (tick_member_states res)"
    "(case dir of Forward \<Rightarrow> move_forward M issue steps cur configs r1
       | Move_Left t \<Rightarrow> move_left M issue steps t configs r1)
     = Inr (i, jira_actions res, tick_completed res, r')"
proof -
  obtain dir r1 where d: "roll_direction (iss_issue_type issue) cur mls r = (dir, r1)" by fastforce
  have e: "bindR (release_worker issue st) (\<lambda>st1.
      bindR (case dir of
               Forward \<Rightarrow> move_forward M issue steps cur configs r1
             | Move_Left target \<Rightarrow> move_left M issue steps target configs r1)
        (\<lambda>(issue1, acts, done, r2).
          Inr (\<lparr>jira_actions = acts, tick_member_states = st1, tick_completed = done\<rparr>,
               issue1, r2))) = Inr (res, i, r')"
    using assms d by (simp add: execute_transition_def)
  obtain st1 where st1: "release_worker issue st = Inr st1" using e by (rule bindR_InrE)
  obtain i' acts fin r2 where m: "(case dir of
               Forward \<Rightarrow> move_forward M issue steps cur configs r1
             | Move_Left target \<Rightarrow> move_left M issue steps target configs r1) = Inr (i', acts, fin, r2)"
    using e st1 by (auto elim!: bindR_InrE)
  have "res = \<lparr>jira_actions = acts, tick_member_states = st1, tick_completed = fin\<rparr>" "i = i'" "r' = r2"
    using e st1 m by simp_all
  then show ?thesis using that[OF d] st1 m by simp
qed

text \<open>At most one member is charged for an item in a tick, and nobody is freed.\<close>

definition charges_at_most_one :: "member_states \<Rightarrow> member_states \<Rightarrow> bool" where
  "charges_at_most_one st st' \<longleftrightarrow>
     states_ok st' \<and> dom (member_of st') = dom (member_of st) \<and>
     (busy_of st' = busy_of st \<or> (\<exists>w. busy_of st' = insert w (busy_of st)))"

lemma assign_then_advance_pool:
  assumes "states_ok st" and "assign_worker issue cur st r = Inr (i1, st1, r1)"
    and "advance_work h i1 st1 = Inr (i2, st2)"
  shows "charges_at_most_one st st2"
proof -
  note a = assign_worker_pool[OF assms(1,2)]
  then have ok1: "states_ok st1" by blast
  note b = advance_work_pool[OF ok1 assms(3)]
  have d: "dom (member_of st2) = dom (member_of st)" using a b by (simp only: simp_thms)
  from a have "i1 = issue \<and> st1 = st \<or>
      (\<exists>w. iss_current_worker_id i1 = Some w \<and> busy_of st1 = insert w (busy_of st))"
    by (elim conjE disjE exE) simp_all
  then have "busy_of st2 = busy_of st \<or> (\<exists>w. busy_of st2 = insert w (busy_of st))"
    using b by (elim conjE disjE exE; simp) blast+
  with b d show ?thesis by (simp add: charges_at_most_one_def)
qed

lemma process_item_tick_charges:
  assumes "states_ok st"
    and "process_item_tick M issue steps configs mls st h r = Inr (res, i, r')"
  shows "charges_at_most_one st (tick_member_states res)"
  using assms(2)
proof (cases rule: process_item_tick_split)
  case unplaced
  then show ?thesis using assms(1) by (simp add: charges_at_most_one_def)
next
  case (waits cur i1 st1 i2 st2)
  then show ?thesis using assign_then_advance_pool[OF assms(1)] by simp
next
  case (moves cur i1 st1 r1 i2 st2)
  have c: "charges_at_most_one st st2" by (rule assign_then_advance_pool[OF assms(1) moves(2,3)])
  obtain x where "release_worker (advance_full h i2) st2 = Inr (tick_member_states res)"
    using moves(5) by (rule execute_transition_split)
  then show ?thesis using c release_worker_pool[of st2 _ "tick_member_states res"]
    by (auto simp: charges_at_most_one_def)
qed

lemma assign_worker_frame:
  assumes "assign_worker issue cur st r = Inr (i, st', r')"
  shows "i = issue \<or>
         (\<exists>w. i = issue\<lparr>iss_work_started := True, iss_current_worker_id := Some w\<rparr>)"
proof (cases "0 < iss_sampled_work_time issue \<and> \<not> iss_work_started issue")
  case True
  with assms show ?thesis
    by (auto simp: assign_worker_def elim!: bindR_Inr2E bindR_InrE split: option.splits)
qed (use assms in \<open>auto simp: assign_worker_def\<close>)

lemma advance_work_frame:
  assumes "advance_work h issue st = Inr (i, st')"
  shows "i = issue \<or>
         i = issue\<lparr>iss_elapsed_work_time := f_add (iss_elapsed_work_time issue) h\<rparr>"
  using assms
  by (auto simp: advance_work_def Let_def elim!: bindR_InrE split: option.splits if_splits)

text \<open>Whether somebody works on the item in a tick: an item that needs work and was not started gets the work of
  this tick exactly if some member is available for its step, any other item if it was started and has a worker.\<close>

definition worked_now :: "member_states \<Rightarrow> WorkflowStepSnapshot \<Rightarrow> IssueSnapshot \<Rightarrow> bool" where
  "worked_now st cur issue \<longleftrightarrow>
     (if 0 < iss_sampled_work_time issue \<and> \<not> iss_work_started issue
      then \<exists>s \<in> snd ` set st. available_for (roles_of cur) (iss_id issue) s
      else iss_work_started issue \<and> iss_current_worker_id issue \<noteq> None)"

lemma find_available_member_iff:
  assumes "find_available_member st roles i r = Inr (wo, r')"
  shows "(wo \<noteq> None) = (\<exists>s \<in> snd ` set st. available_for roles i s)"
proof (cases "filter (available_for roles i) (map snd st) = []")
  case True
  then have "\<forall>s \<in> snd ` set st. \<not> available_for roles i s" by (auto simp: filter_empty_conv)
  then show ?thesis using assms True by (auto simp: find_available_member_def Let_def)
next
  case False
  then have "\<exists>s \<in> snd ` set st. available_for roles i s" by (auto simp: filter_empty_conv)
  then show ?thesis using assms False by (auto simp: find_available_member_def Let_def elim!: bindR_Inr2E)
qed

lemma advance_work_started:
  "advance_work h issue st = Inr (i, st') \<Longrightarrow>
     i = (if iss_work_started issue \<and> iss_current_worker_id issue \<noteq> None
          then issue\<lparr>iss_elapsed_work_time := f_add (iss_elapsed_work_time issue) h\<rparr> else issue)"
  by (auto simp: advance_work_def Let_def elim!: bindR_InrE split: option.splits if_splits)

lemma work_clock_of_tick:
  assumes "assign_worker issue cur st r = Inr (i1, st1, r1)" and "advance_work h i1 st1 = Inr (i2, st2)"
  shows "iss_elapsed_work_time i2 =
      (if worked_now st cur issue then f_add (iss_elapsed_work_time issue) h else iss_elapsed_work_time issue)"
    "iss_sampled_work_time i2 = iss_sampled_work_time issue" "iss_sampled_full_time i2 = iss_sampled_full_time issue"
    "iss_elapsed_full_time i2 = iss_elapsed_full_time issue"
proof -
  have "i1 = issue \<and> (worked_now st cur issue \<longleftrightarrow> iss_work_started issue \<and> iss_current_worker_id issue \<noteq> None) \<or>
    (\<exists>w. i1 = issue\<lparr>iss_work_started := True, iss_current_worker_id := Some w\<rparr> \<and> worked_now st cur issue)"
  proof (cases "0 < iss_sampled_work_time issue \<and> \<not> iss_work_started issue")
    case True
    then obtain wo r2 where f: "find_available_member st (roles_of cur) (iss_id issue) r = Inr (wo, r2)"
      and w: "(case wo of None \<Rightarrow> Inr (issue, st, r2)
        | Some w \<Rightarrow> bindR (mark_busy st (member_id w) (iss_id issue)) (\<lambda>st1.
            Inr (issue\<lparr>iss_work_started := True, iss_current_worker_id := Some (member_id w)\<rparr>, st1, r2))) = Inr (i1, st1, r1)"
      using assms(1) by (auto simp: assign_worker_def elim!: bindR_Inr2E)
    show ?thesis using find_available_member_iff[OF f] w True
      by (cases wo) (auto simp: worked_now_def elim!: bindR_InrE)
  next
    case False
    then have "i1 = issue" using assms(1) by (auto simp: assign_worker_def)
    moreover have "worked_now st cur issue \<longleftrightarrow> iss_work_started issue \<and> iss_current_worker_id issue \<noteq> None"
      using False by (simp only: worked_now_def if_False)
    ultimately show ?thesis by blast
  qed
  then have "iss_elapsed_work_time i2 =
      (if worked_now st cur issue then f_add (iss_elapsed_work_time issue) h else iss_elapsed_work_time issue) \<and>
    iss_sampled_work_time i2 = iss_sampled_work_time issue \<and> iss_sampled_full_time i2 = iss_sampled_full_time issue \<and>
    iss_elapsed_full_time i2 = iss_elapsed_full_time issue"
    using advance_work_started[OF assms(2)]
    by (elim disjE exE conjE; cases "iss_work_started issue \<and> iss_current_worker_id issue \<noteq> None") auto
  then show "iss_elapsed_work_time i2 =
      (if worked_now st cur issue then f_add (iss_elapsed_work_time issue) h else iss_elapsed_work_time issue)"
    "iss_sampled_work_time i2 = iss_sampled_work_time issue" "iss_sampled_full_time i2 = iss_sampled_full_time issue"
    "iss_elapsed_full_time i2 = iss_elapsed_full_time issue" by blast+
qed

text \<open>An item leaves its step, completes or reports only when both clocks have run out.\<close>

lemma leaving_needs_both_clocks:
  assumes "process_item_tick M issue steps configs mls st h r = Inr (res, i, r')"
    and "iss_current_workflow_step_id i \<noteq> iss_current_workflow_step_id issue \<or> tick_completed res
         \<or> jira_actions res \<noteq> []"
  shows "\<exists>cur. find_step_by_id steps (iss_current_workflow_step_id issue) = Some cur \<and>
    iss_sampled_full_time issue \<le> f_add (iss_elapsed_full_time issue) h \<and>
    (iss_sampled_work_time issue = 0 \<or>
     iss_sampled_work_time issue \<le>
       (if worked_now st cur issue then f_add (iss_elapsed_work_time issue) h else iss_elapsed_work_time issue))"
  using assms(1)
proof (cases rule: process_item_tick_split)
  case unplaced
  then show ?thesis using assms(2) by simp
next
  case (waits cur i1 st1 i2 st2)
  have "iss_current_workflow_step_id i = iss_current_workflow_step_id issue"
    using assign_worker_frame[OF waits(2)] advance_work_frame[OF waits(3)] waits(4)
    by (auto simp: advance_full_def)
  then show ?thesis using assms(2) waits by simp
next
  case (moves cur i1 st1 r1 i2 st2)
  then show ?thesis using work_clock_of_tick[OF moves(2,3)] moves(4)
    by (intro exI[of _ cur]) (simp add: advance_full_def check_transition_ready_def)
qed

section \<open>Errors\<close>

text \<open>
  With members that exist, a well-formed workflow and valid timing configurations, no branch
  of a tick raises.
\<close>

definition configs_ok :: "touch_configs \<Rightarrow> bool" where
  "configs_ok configs \<longleftrightarrow> (\<forall>(k, c) \<in> set configs. config_ok c)"

lemma get_touch_time_config_ok:
  "configs_ok configs \<Longrightarrow> get_touch_time_config configs s ty p = Some c \<Longrightarrow> config_ok c"
  by (auto simp: get_touch_time_config_def configs_ok_def split: option.splits dest!: map_of_SomeD)

lemma enter_configured_total:
  "configs_ok configs \<Longrightarrow>
   \<exists>i' acts r'. enter_status M i st (get_touch_time_config configs s ty p) r = Inr (i', acts, r')"
  by (rule enter_status_total) (rule get_touch_time_config_ok)

lemma assign_worker_total: "states_ok st \<Longrightarrow> \<exists>x. assign_worker i cur st r = Inr x"
proof -
  assume ok: "states_ok st"
  obtain wo r1 where w: "find_available_member st (roles_of cur) (iss_id i) r = Inr (wo, r1)"
    using find_available_member_total by blast
  show ?thesis
  proof (cases wo)
    case None
    then show ?thesis using w by (simp add: assign_worker_def)
  next
    case (Some s)
    then obtain st1 where "mark_busy st (member_id s) (iss_id i) = Inr st1"
      using pool.found_markable[OF ok] w by blast
    then show ?thesis using w Some by (simp add: assign_worker_def)
  qed
qed

lemma advance_work_total: "worker_known st i \<Longrightarrow> \<exists>x. advance_work h i st = Inr x"
proof (cases "iss_current_worker_id i")
  case (Some w)
  assume "worker_known st i"
  then obtain m where m: "member_of st w = Some m" using Some by (auto simp: worker_known_def)
  then have g: "dict_get st w = Inr m" by (simp add: member_of_def dict_simps)
  obtain st1 where "mark_busy st w (iss_id i) = Inr st1" using mark_busy_total[OF m] by blast
  then show ?thesis using Some g by (simp add: advance_work_def Let_def)
qed (simp add: advance_work_def)

lemma release_worker_total: "worker_known st i \<Longrightarrow> \<exists>st'. release_worker i st = Inr st'"
  by (auto simp: release_worker_def worker_known_def split: option.splits dest: release_total)

lemma move_forward_total:
  assumes "configs_ok configs" and "steps \<noteq> []"
  shows "\<exists>x. move_forward M i steps cur configs r = Inr x"
proof (cases "next_step steps (ws_order cur)")
  case (Some n)
  obtain b where b: "is_final_step steps cur = Inr b" using is_final_step_total[OF assms(2)] by blast
  obtain d where d: "is_final_step steps n = Inr d" using is_final_step_total[OF assms(2)] by blast
  obtain i' acts r' where "enter_status M i n
      (get_touch_time_config configs (ws_id n) (iss_issue_type i)
        (case iss_story_points i of None \<Rightarrow> 0 | Some p \<Rightarrow> p)) r = Inr (i', acts, r')"
    using enter_configured_total[OF assms(1)] by blast
  then show ?thesis using Some b d by (cases b; cases d) (auto simp: move_forward_def)
qed (auto simp: move_forward_def)

lemma move_left_total:
  assumes "configs_ok configs"
  shows "\<exists>x. move_left M i steps target configs r = Inr x"
proof (cases "find_step_by_id steps (Some target)")
  case (Some n)
  obtain i' acts r' where "enter_status M i n
      (get_touch_time_config configs (ws_id n) (iss_issue_type i)
        (case iss_story_points i of None \<Rightarrow> 0 | Some p \<Rightarrow> p)) r = Inr (i', acts, r')"
    using enter_configured_total[OF assms] by blast
  then show ?thesis using Some by (auto simp: move_left_def)
qed (auto simp: move_left_def)

lemma execute_transition_total:
  assumes "configs_ok configs" "steps \<noteq> []" "worker_known st i"
  shows "\<exists>x. execute_transition M i steps cur configs mls st r = Inr x"
proof -
  obtain dir r1 where d: "roll_direction (iss_issue_type i) cur mls r = (dir, r1)" by fastforce
  obtain st1 where s: "release_worker i st = Inr st1" using release_worker_total[OF assms(3)] by blast
  have "\<exists>x. (case dir of Forward \<Rightarrow> move_forward M i steps cur configs r1
       | Move_Left t \<Rightarrow> move_left M i steps t configs r1) = Inr x"
    using move_forward_total[OF assms(1,2)] move_left_total[OF assms(1)] by (cases dir) auto
  then obtain x where "(case dir of Forward \<Rightarrow> move_forward M i steps cur configs r1
       | Move_Left t \<Rightarrow> move_left M i steps t configs r1) = Inr x" by blast
  then show ?thesis using d s by (cases x) (simp add: execute_transition_def)
qed

lemma worker_known_assigned:
  assumes "states_ok st" "worker_known st i" "assign_worker i cur st r = Inr (i1, st1, r1)"
  shows "worker_known st1 i1"
proof -
  note a = assign_worker_pool[OF assms(1,3)]
  then have "dom (member_of st1) = dom (member_of st)" by blast
  moreover have "\<forall>w. iss_current_worker_id i1 = Some w \<longrightarrow> w \<in> dom (member_of st)"
    using a assms(2) by (elim conjE disjE exE) (auto simp: worker_known_def)
  ultimately show ?thesis by (auto simp: worker_known_def)
qed

section \<open>Properties\<close>

text \<open>(C28) One tick of one item charges at most one member: the pool stays well-formed with the
  same members, nobody who was busy is freed, and at most one more member is busy.\<close>

theorem process_item_tick_one_worker:
  assumes "states_ok st"
    and "process_item_tick M issue steps configs mls st h r = Inr (res, i, r')"
  shows "states_ok (tick_member_states res) \<and>
    dom (member_of (tick_member_states res)) = dom (member_of st) \<and>
    busy_of st \<subseteq> busy_of (tick_member_states res) \<and>
    (\<exists>w. busy_of (tick_member_states res) \<subseteq> insert w (busy_of st))"
  using process_item_tick_charges[OF assms] by (auto simp: charges_at_most_one_def)

text \<open>(C29) An item changes its step, completes or reports to Jira only in a tick at whose end both its
  clocks have run out: the time in status, with this tick, has reached the sampled time, and the work has, too,
  unless none was needed. The tick counts as work exactly if the item was started and has a worker, or needs
  work, was not started and some member is available for its step; otherwise the work clock stands where it stood.\<close>

theorem process_item_tick_needs_both_clocks:
  assumes "process_item_tick M issue steps configs mls st h r = Inr (res, i, r')"
    and "iss_current_workflow_step_id i \<noteq> iss_current_workflow_step_id issue \<or> tick_completed res
         \<or> jira_actions res \<noteq> []"
  shows "\<exists>cur. find_step_by_id steps (iss_current_workflow_step_id issue) = Some cur \<and>
    iss_sampled_full_time issue \<le> f_add (iss_elapsed_full_time issue) h \<and>
    (iss_sampled_work_time issue = 0 \<or>
     iss_sampled_work_time issue \<le>
       (if worked_now st cur issue then f_add (iss_elapsed_work_time issue) h else iss_elapsed_work_time issue))"
  using assms by (rule leaving_needs_both_clocks)

text \<open>Error freedom of a tick: if the worker of the item is a known member and the timing
  configurations are valid, processing an item returns a result for every random source.\<close>

theorem process_item_tick_total:
  assumes "states_ok st" and "worker_known st issue" and "configs_ok configs"
  shows "\<exists>res i r'. process_item_tick M issue steps configs mls st h r = Inr (res, i, r')"
proof (cases "find_step_by_id steps (iss_current_workflow_step_id issue)")
  case None
  then show ?thesis by (simp add: process_item_tick_def)
next
  case (Some cur)
  then have ne: "steps \<noteq> []" using find_step_by_id_Some by fastforce
  obtain i1 st1 r1 where a: "assign_worker issue cur st r = Inr (i1, st1, r1)"
    using assign_worker_total[OF assms(1)] by (metis prod_cases3)
  have k: "worker_known st1 i1" by (rule worker_known_assigned[OF assms(1,2) a])
  have ok: "states_ok st1" using assign_worker_pool[OF assms(1) a] by blast
  obtain i2 st2 where b: "advance_work h i1 st1 = Inr (i2, st2)"
    using advance_work_total[OF k] by (metis surj_pair)
  have "worker_known st2 (advance_full h i2)"
    using k advance_work_pool[OF ok b] by (auto simp: worker_known_def advance_full_def dom_def)
  then obtain x where "execute_transition M (advance_full h i2) steps cur configs mls st2 r1 = Inr x"
    using execute_transition_total[OF assms(3) ne] by blast
  then show ?thesis using Some a b by (cases x) (simp add: process_item_tick_def Let_def)
qed

text \<open>A move to the left goes only to a step that some move-left configuration of the item's
  current step names as a target, and only if that configuration has a positive probability.\<close>

theorem roll_direction_configured:
  assumes "roll_direction ty step cfgs r = (Move_Left sid, r')"
  shows "\<exists>c \<in> set cfgs. ml_from_step_id c = ws_id step \<and> sid \<in> mt_to_step_id ` set (ml_targets c)
           \<and> 0 < ml_base_probability c"
  using assms by (rule roll_direction_left)

section \<open>Witnesses\<close>

definition sample_steps :: "WorkflowStepSnapshot list" where
  "sample_steps =
     [\<lparr>ws_id = 10, ws_workflow_id = 1,
       ws_jira_status = ''To Do'', ws_order = 1, ws_role_required = Some ''dev'', ws_roles_json = None\<rparr>,
      \<lparr>ws_id = 20, ws_workflow_id = 1,
       ws_jira_status = ''Doing'', ws_order = 2, ws_role_required = Some ''dev'', ws_roles_json = None\<rparr>,
      \<lparr>ws_id = 30, ws_workflow_id = 1,
       ws_jira_status = ''Done'', ws_order = 3, ws_role_required = None, ws_roles_json = None\<rparr>]"

definition sample_issue :: "int \<Rightarrow> string \<Rightarrow> IssueSnapshot" where
  "sample_issue k ty =
     \<lparr>iss_id = k, iss_team_id = 1, iss_issue_type = ty, iss_story_points = Some 3, iss_summary = [],
      iss_jira_issue_key = Some ''P-1'', iss_jira_issue_id = None,
      iss_status = ''To Do'', iss_current_workflow_step_id = Some 10, iss_current_worker_id = None,
      iss_sampled_full_time = 0, iss_sampled_work_time = 0, iss_elapsed_full_time = 0,
      iss_elapsed_work_time = 0, iss_work_started = False, iss_completed_at = None,
      iss_sprint_id = None, iss_carried_over = False, iss_backlog_priority = None,
      iss_priority = ''Medium'', iss_description = None, iss_is_blocked = False, iss_descoped = False\<rparr>"

definition sample_rng :: rng where "sample_rng = \<lparr>tape = (\<lambda>_. 0), pos = 0\<rparr>"

definition sample_libm :: libm where
  "sample_libm = \<lparr>m_log = (\<lambda>_. 0), m_exp = (\<lambda>_. 1), m_gauss = (\<lambda>_. 0)\<rparr>"

definition sample_member :: MemberInput where
  "sample_member = \<lparr>mi_id = 1, mi_role = ''dev'', mi_assigned_issue_id = None\<rparr>"

definition sample_work :: TouchTimeConfigSnapshot where
  "sample_work = \<lparr>ttc_id = 1, ttc_workflow_step_id = 20, ttc_issue_type = ''Bug'',
                  ttc_story_points = 3, ttc_min_hours = 2, ttc_max_hours = 2, ttc_full_time_p25 = None,
                  ttc_full_time_p50 = None, ttc_full_time_p99 = None\<rparr>"

lemmas sample_defs = sample_steps_def sample_issue_def sample_rng_def sample_libm_def
  sample_member_def sample_work_def

lemmas tick_eval = process_item_tick_def find_step_by_id_def assign_worker_def advance_work_def
  advance_full_def check_transition_ready_def execute_transition_def roll_direction_def
  matching_config_def release_worker_def move_forward_def next_step_def is_final_step_def
  enter_status_def sampled_full_def sample_work_time_def get_touch_time_config_def
  transition_action_def json_opt_def roles_of_def find_available_member_def available_for_def
  rng_choice_def rng_below_def next_word_def rng_uniform_def rng_random_def mark_busy_def
  release_assignment_def dict_get_def build_member_states_def f_add_def f_mul_def f_sub_def

theorem process_item_tick_one_worker_witness:
  "busy_of (build_member_states [sample_member]) = {} \<and>
   (\<exists>res i r'. process_item_tick sample_libm
        ((sample_issue 7 ''Story'')\<lparr>iss_sampled_work_time := 2\<rparr>) sample_steps [] []
        (build_member_states [sample_member]) 1 sample_rng = Inr (res, i, r') \<and>
      busy_of (tick_member_states res) = {1} \<and>
      (\<exists>w. busy_of (tick_member_states res) \<subseteq> insert w {}))"
proof -
  let ?st = "build_member_states [sample_member]"
  let ?i = "(sample_issue 7 ''Story'')\<lparr>iss_sampled_work_time := 2\<rparr>"
  obtain res i r' where p:
    "process_item_tick sample_libm ?i sample_steps [] [] ?st 1 sample_rng = Inr (res, i, r')"
    "busy_of (tick_member_states res) = {1}"
    by (simp add: sample_defs tick_eval Let_def float_simps busy_of_def)
  from process_item_tick_one_worker[OF build_member_states_ok p(1)] p
  show ?thesis by (auto simp: build_member_states_idle)
qed

theorem process_item_tick_needs_both_clocks_witness:
  "\<exists>res i r'. process_item_tick sample_libm (sample_issue 7 ''Story'') sample_steps [] []
      (build_member_states [sample_member]) 1 sample_rng = Inr (res, i, r') \<and>
    iss_current_workflow_step_id i = Some 20 \<and>
    iss_sampled_full_time (sample_issue 7 ''Story'') \<le> f_add (iss_elapsed_full_time (sample_issue 7 ''Story'')) 1"
proof -
  obtain res i r' where p:
    "process_item_tick sample_libm (sample_issue 7 ''Story'') sample_steps [] []
      (build_member_states [sample_member]) 1 sample_rng = Inr (res, i, r')"
    "iss_current_workflow_step_id i = Some 20"
    by (simp add: sample_defs tick_eval Let_def float_simps)
  have "iss_current_workflow_step_id i \<noteq> iss_current_workflow_step_id (sample_issue 7 ''Story'')"
    using p(2) by (simp add: sample_issue_def)
  then show ?thesis using process_item_tick_needs_both_clocks[OF p(1)] p by blast
qed

theorem process_item_tick_total_witness:
  "\<exists>res i r'. process_item_tick sample_libm (sample_issue 7 ''Bug'') sample_steps
      [((20, ''Bug'', 3), sample_work)] [] (build_member_states [sample_member]) 1 sample_rng
      = Inr (res, i, r')"
proof (rule process_item_tick_total)
  show "states_ok (build_member_states [sample_member])" by (rule build_member_states_ok)
  show "worker_known (build_member_states [sample_member]) (sample_issue 7 ''Bug'')"
    by (simp add: worker_known_def sample_issue_def)
  show "configs_ok [((20, ''Bug'', 3), sample_work)]"
    by (simp add: configs_ok_def config_ok_def sample_work_def is_float_def float_simps)
qed

definition sample_move_left :: MoveLeftConfigSnapshot where
  "sample_move_left = \<lparr>ml_id = 1, ml_team_id = 1, ml_from_step_id = 20, ml_issue_type = None, ml_base_probability = 1,
                       ml_targets = [\<lparr>mt_id = 1, mt_to_step_id = 10, mt_weight = 1\<rparr>]\<rparr>"

theorem roll_direction_configured_witness:
  "fst (roll_direction ''Story'' (sample_steps ! 1) [sample_move_left] sample_rng) = Move_Left 10 \<and>
   (\<exists>c \<in> set [sample_move_left]. ml_from_step_id c = ws_id (sample_steps ! 1) \<and>
      10 \<in> mt_to_step_id ` set (ml_targets c) \<and> 0 < ml_base_probability c)"
proof -
  obtain r' where "roll_direction ''Story'' (sample_steps ! 1) [sample_move_left] sample_rng = (Move_Left 10, r')"
    by (simp add: sample_defs sample_move_left_def roll_direction_def matching_config_def
        rng_random_def next_word_def py_sum_def f_add_def f_sub_def f_mul_def float_simps)
  then show ?thesis using roll_direction_configured by fastforce
qed

end
