(* ===== verification/Py_Time.thy ===== *)
theory Py_Time
  imports Py_Float
begin

text \<open>
  Dates, instants and time zones as \<open>datetime\<close> and \<open>zoneinfo\<close> have them. A date is its
  proleptic Gregorian ordinal (1 is 1 January of year 1). An aware datetime is an instant: the
  microseconds since ordinal 1, midnight UTC; a naive one is the same count on a local clock.
  Arithmetic that leaves the years 1 to 9999 raises. The zone data base is not part of the
  repository: a zone is a record of the conversions \<open>zoneinfo\<close> provides.
\<close>

section \<open>Days and microseconds\<close>

definition DAY_US :: int where "DAY_US = 86400000000"
definition HOUR_US :: int where "HOUR_US = 3600000000"
definition MAX_ORDINAL :: int where "MAX_ORDINAL = 3652059"

lemmas time_consts = DAY_US_def HOUR_US_def MAX_ORDINAL_def

definition valid_ordinal :: "int \<Rightarrow> bool" where
  "valid_ordinal d \<longleftrightarrow> 1 \<le> d \<and> d \<le> MAX_ORDINAL"

definition date_add :: "int \<Rightarrow> int \<Rightarrow> int res" where
  "date_add d n = (if valid_ordinal (d + n) then Inr (d + n) else Inl Overflow_Error)"

definition weekday :: "int \<Rightarrow> int" where
  "weekday d = (d + 6) mod 7"

definition valid_instant :: "int \<Rightarrow> bool" where
  "valid_instant t \<longleftrightarrow> 0 \<le> t \<and> t < MAX_ORDINAL * DAY_US"

definition instant_add :: "int \<Rightarrow> int \<Rightarrow> int res" where
  "instant_add t n = (if valid_instant (t + n) then Inr (t + n) else Inl Overflow_Error)"

text \<open>Splitting and combining a naive local time.\<close>

definition local_date :: "int \<Rightarrow> int" where "local_date l = l div DAY_US + 1"
definition local_clock :: "int \<Rightarrow> int" where "local_clock l = l mod DAY_US"
definition local_hour :: "int \<Rightarrow> int" where "local_hour l = local_clock l div HOUR_US"
definition combine :: "int \<Rightarrow> int \<Rightarrow> int" where "combine d clock = (d - 1) * DAY_US + clock"

lemma date_add_Inr: "date_add d n = Inr e \<longleftrightarrow> e = d + n \<and> valid_ordinal e"
  by (auto simp: date_add_def)

lemma weekday_range: "0 \<le> weekday d \<and> weekday d < 7"
  by (simp add: weekday_def)

lemma weekday_add7 [simp]: "weekday (d + 7 * k) = weekday d"
proof -
  have "(d + 7 * k + 6) mod 7 = (d + 6 + 7 * k) mod 7" by (simp add: algebra_simps)
  then show ?thesis by (simp add: weekday_def)
qed

lemma local_split: "combine (local_date l) (local_clock l) = l"
  by (simp add: combine_def local_date_def local_clock_def)

lemma local_clock_range: "0 \<le> local_clock l \<and> local_clock l < DAY_US"
  by (simp add: local_clock_def DAY_US_def)

lemma local_of_combine:
  assumes "0 \<le> c" "c < DAY_US"
  shows "local_date (combine d c) = d" "local_clock (combine d c) = c"
proof -
  have q: "((d - 1) * DAY_US + c) div DAY_US = d - 1"
    using assms by (simp add: div_pos_pos_trivial)
  show "local_date (combine d c) = d" by (simp add: local_date_def combine_def q)
  show "local_clock (combine d c) = c" using assms by (simp add: local_clock_def combine_def)
qed

lemma local_hour_range: "0 \<le> local_hour l \<and> local_hour l < 24"
  using local_clock_range[of l] by (auto simp: local_hour_def time_consts)

text \<open>Some day of each weekday lies in every week.\<close>

lemma weekday_in_week:
  assumes "0 \<le> w" "w < 7"
  shows "\<exists>k \<in> {0..<7}. weekday (d + k) = w"
proof (intro bexI)
  show "weekday (d + (w - weekday d) mod 7) = w"
  proof -
    have "(d + (w - (d + 6) mod 7) mod 7 + 6) mod 7 = (d + 6 + (w - (d + 6) mod 7) mod 7) mod 7"
      by (simp add: algebra_simps)
    also have "\<dots> = (d + 6 + (w - (d + 6) mod 7)) mod 7" by (rule mod_add_right_eq)
    also have "\<dots> = (w + ((d + 6) - (d + 6) mod 7)) mod 7" by (simp add: algebra_simps)
    also have "\<dots> = (w + 7 * ((d + 6) div 7)) mod 7" by (simp add: minus_mod_eq_mult_div)
    also have "\<dots> = w" using assms by simp
    finally show ?thesis by (simp add: weekday_def)
  qed
  show "(w - weekday d) mod 7 \<in> {0..<7}" by simp
qed

text \<open>
  \<open>timedelta(hours=x)\<close> or \<open>timedelta(seconds=x)\<close> for a float \<open>x\<close>: the whole units are exact,
  the fraction is multiplied in floating point, and the sum rounds half-even to a microsecond.
\<close>

definition py_trunc :: "py_float \<Rightarrow> int" where
  "py_trunc x = (if 0 \<le> x then \<lfloor>x\<rfloor> else \<lceil>x\<rceil>)"

definition delta_of_float :: "int \<Rightarrow> py_float \<Rightarrow> int" where
  "delta_of_float unit x =
     round_half_even (of_int (py_trunc x * unit) + fl (of_int unit * (x - of_int (py_trunc x))))"

lemma delta_of_int [simp]: "delta_of_float unit (of_int n) = n * unit"
proof -
  have "py_trunc (of_int n) = n" by (simp add: py_trunc_def)
  then show ?thesis by (simp add: delta_of_float_def flip: of_int_mult)
qed

lemma delta_nonneg:
  assumes "0 \<le> unit" "0 \<le> x"
  shows "0 \<le> delta_of_float unit x"
proof -
  have "0 \<le> py_trunc x" and "of_int (py_trunc x) \<le> x" using assms by (simp_all add: py_trunc_def)
  then show ?thesis unfolding delta_of_float_def using assms
    by (intro round_half_even_nonneg add_nonneg_nonneg fl_nonneg mult_nonneg_nonneg) simp_all
qed

section \<open>Time zones\<close>

record zone =
  z_local :: "int \<Rightarrow> int"
  z_fold :: "int \<Rightarrow> bool"
  z_utc :: "int \<Rightarrow> bool \<Rightarrow> int"

text \<open>\<open>astimezone\<close>, both ways, with its range error.\<close>

definition to_local :: "zone \<Rightarrow> int \<Rightarrow> int res" where
  "to_local z t = (let l = z_local z t in if valid_instant l then Inr l else Inl Overflow_Error)"

definition to_utc :: "zone \<Rightarrow> int \<Rightarrow> bool \<Rightarrow> int res" where
  "to_utc z l f = (let t = z_utc z l f in if valid_instant t then Inr t else Inl Overflow_Error)"

text \<open>
  A zone without transitions: its clock is a fixed distance from UTC. \<open>fixed_zone 0\<close> is UTC.
\<close>

definition fixed_zone :: "int \<Rightarrow> zone" where
  "fixed_zone off = \<lparr>z_local = (\<lambda>t. t + off), z_fold = (\<lambda>_. False), z_utc = (\<lambda>l _. l - off)\<rparr>"

definition no_transitions :: "zone \<Rightarrow> bool" where
  "no_transitions z \<longleftrightarrow> (\<exists>off. z_local z = (\<lambda>t. t + off) \<and> z_utc z = (\<lambda>l _. l - off))"

lemma no_transitions_fixed [simp]: "no_transitions (fixed_zone off)"
  by (auto simp: no_transitions_def fixed_zone_def)

lemma no_transitions_round: "no_transitions z \<Longrightarrow> z_local z (z_utc z l f) = l"
  by (auto simp: no_transitions_def)

lemma no_transitions_order: "no_transitions z \<Longrightarrow> z_local z t \<le> l \<Longrightarrow> t \<le> z_utc z l f"
  by (auto simp: no_transitions_def)

end
