(* ===== verification/Sprint_Planning.thy ===== *)
theory Sprint_Planning
  imports Py_Random Py_Time
begin

text \<open>
  Sprint planning, carry-over and the sprint clock of the first engine
  (\<open>engine/sprint_lifecycle.py\<close>). Instants are microseconds.
\<close>

datatype SprintPhase = PLANNING | SIMULATED | ACTIVE | COMPLETED

record BacklogItem =
  bi_id :: int
  bi_story_points :: "int option"
  bi_backlog_priority :: "int option"

text \<open>\<open>issue.get("story_points") or 0\<close>: a null and a zero both read as zero.\<close>

definition points_of :: "BacklogItem \<Rightarrow> int" where
  "points_of i = (case bi_story_points i of None \<Rightarrow> 0 | Some p \<Rightarrow> p)"

text \<open>\<open>issue.get("backlog_priority") or 999\<close>: a priority of zero reads as 999, too.\<close>

definition priority_of :: "BacklogItem \<Rightarrow> int" where
  "priority_of i = (case bi_backlog_priority i of None \<Rightarrow> 999 | Some p \<Rightarrow> if p = 0 then 999 else p)"

definition by_priority :: "BacklogItem list \<Rightarrow> BacklogItem list" where
  "by_priority xs = sort_key priority_of (sort_key bi_id xs)"

text \<open>The selection loop, with the running total.\<close>

fun pull_items :: "int \<Rightarrow> int \<Rightarrow> int \<Rightarrow> BacklogItem list \<Rightarrow> BacklogItem list" where
  "pull_items target capacity_min tot [] = []"
| "pull_items target capacity_min tot (i # is) =
     (if target < tot + points_of i \<and> capacity_min \<le> tot then []
      else i # pull_items target capacity_min (tot + points_of i) is)"

definition plan_sprint ::
  "BacklogItem list \<Rightarrow> int \<Rightarrow> int \<Rightarrow> bool \<Rightarrow> rng \<Rightarrow> (BacklogItem list \<times> int \<times> rng) res" where
  "plan_sprint backlog capacity_min capacity_max randomize r =
     (if backlog = [] then
        (if capacity_min \<le> capacity_max
         then bindR (rng_randint capacity_min capacity_max r) (\<lambda>(target, r1). Inr ([], target, r1))
         else Inr ([], capacity_min, r))
      else
        (let (ordered, r1) = (if randomize then rng_shuffle backlog r else (by_priority backlog, r)) in
         bindR (rng_randint capacity_min capacity_max r1) (\<lambda>(target, r2).
           Inr (pull_items target capacity_min 0 ordered, target, r2))))"

section \<open>The sprint clock\<close>

text \<open>\<open>total_seconds() / (3600 * 24)\<close>: two float divisions, the first by 10 to the 6.\<close>

definition elapsed_days :: "int \<Rightarrow> int \<Rightarrow> py_float" where
  "elapsed_days sprint_start sim_now =
     fl (fl (of_int (sim_now - sprint_start) / 1000000) / 86400)"

definition check_sprint_end :: "int \<Rightarrow> int \<Rightarrow> int \<Rightarrow> bool" where
  "check_sprint_end sprint_start sprint_length_days sim_now \<longleftrightarrow>
     of_int sprint_length_days \<le> elapsed_days sprint_start sim_now"

definition create_next_sprint_dates :: "int \<Rightarrow> int \<Rightarrow> int \<times> int" where
  "create_next_sprint_dates prev_end sprint_length_days =
     (prev_end, prev_end + sprint_length_days * DAY_US)"

definition calculate_velocity :: "int \<Rightarrow> int \<Rightarrow> py_float" where
  "calculate_velocity completed committed =
     (if committed = 0 then 0 else fl (of_int completed / of_int committed))"

section \<open>Carry-over\<close>

record CarryItem =
  ci_sampled_work_time :: py_float
  ci_elapsed_work_time :: py_float
  ci_sampled_full_time :: py_float
  ci_elapsed_full_time :: py_float
  ci_work_started :: bool
  ci_current_worker_id :: "int option"
  ci_carried_over :: bool

text \<open>The penalty on one clock: what remains grows by a quarter, an overrun is left alone.\<close>

definition extend_remaining :: "py_float \<Rightarrow> py_float \<Rightarrow> py_float" where
  "extend_remaining sampled elapsed =
     (let remaining = f_sub sampled elapsed in
      if 0 < remaining then f_add elapsed (f_mul remaining (5 / 4)) else sampled)"

definition carry_item :: "CarryItem \<Rightarrow> CarryItem" where
  "carry_item i =
     i\<lparr>ci_sampled_work_time := extend_remaining (ci_sampled_work_time i) (ci_elapsed_work_time i),
       ci_sampled_full_time := extend_remaining (ci_sampled_full_time i) (ci_elapsed_full_time i),
       ci_work_started := False, ci_current_worker_id := None, ci_carried_over := True\<rparr>"

definition handle_carryover :: "CarryItem list \<Rightarrow> CarryItem list" where
  "handle_carryover issues = map carry_item issues"

section \<open>What is selected\<close>

abbreviation total_points :: "BacklogItem list \<Rightarrow> int" where
  "total_points xs \<equiv> sum_list (map points_of xs)"

lemma pull_items_prefix: "\<exists>rest. xs = pull_items t m tot xs @ rest"
  by (induction xs arbitrary: tot) auto

text \<open>Every item taken either fitted the target or was needed to reach the minimum.\<close>

lemma pull_items_justified:
  "pull_items t m tot xs = ys @ i # zs \<Longrightarrow>
   tot + total_points ys + points_of i \<le> t \<or> tot + total_points ys < m"
proof (induction xs arbitrary: tot ys)
  case Nil
  then show ?case by simp
next
  case (Cons x xs)
  show ?case
  proof (cases ys)
    case Nil
    then show ?thesis using Cons.prems by (auto split: if_splits)
  next
    case (Cons y ys')
    then have "pull_items t m (tot + points_of x) xs = ys' @ i # zs" "y = x"
      using Cons.prems by (auto split: if_splits)
    from Cons.IH[OF this(1)] show ?thesis using Cons \<open>y = x\<close> by (simp add: algebra_simps)
  qed
qed

text \<open>The first item left behind would have exceeded the target of a sprint that had enough.\<close>

lemma pull_items_stops:
  "xs = pull_items t m tot xs @ i # rest \<Longrightarrow>
   t < tot + total_points (pull_items t m tot xs) + points_of i \<and>
   m \<le> tot + total_points (pull_items t m tot xs)"
proof (induction xs arbitrary: tot)
  case Nil
  then show ?case by simp
next
  case (Cons x xs)
  show ?case
  proof (cases "t < tot + points_of x \<and> m \<le> tot")
    case True
    then show ?thesis using Cons.prems by auto
  next
    case False
    then have "xs = pull_items t m (tot + points_of x) xs @ i # rest" using Cons.prems by auto
    from Cons.IH[OF this] show ?thesis using False by (auto simp: algebra_simps)
  qed
qed

lemma pull_items_bound:
  assumes "\<And>i. i \<in> set xs \<Longrightarrow> 0 \<le> points_of i \<and> points_of i \<le> big" and "tot \<le> max t (m - 1 + big)"
  shows "tot + total_points (pull_items t m tot xs) \<le> max t (m - 1 + big)"
  using assms
proof (induction xs arbitrary: tot)
  case Nil
  then show ?case by simp
next
  case (Cons x xs)
  show ?case
  proof (cases "t < tot + points_of x \<and> m \<le> tot")
    case True
    then show ?thesis using Cons.prems(2) by simp
  next
    case False
    have "points_of x \<le> big" using Cons.prems(1) by simp
    with False have "tot + points_of x \<le> max t (m - 1 + big)" by linarith
    then have "(tot + points_of x) + total_points (pull_items t m (tot + points_of x) xs)
        \<le> max t (m - 1 + big)"
      using Cons.prems(1) by (intro Cons.IH) simp_all
    moreover have "pull_items t m tot (x # xs) = x # pull_items t m (tot + points_of x) xs"
      using False by auto
    ultimately show ?thesis by (simp add: algebra_simps)
  qed
qed

lemma mset_by_priority: "mset (by_priority xs) = mset xs"
  by (simp add: by_priority_def)

lemma sorted_by_priority: "sorted (map priority_of (by_priority xs))"
  by (simp add: by_priority_def)

lemma plan_sprint_ordered:
  assumes "plan_sprint backlog a b rnd r = Inr (sel, target, r')"
  obtains ordered where "mset ordered = mset backlog" "sel = pull_items target a 0 ordered"
    "backlog \<noteq> [] \<Longrightarrow> \<not> rnd \<Longrightarrow> ordered = by_priority backlog"
    "backlog \<noteq> [] \<or> a \<le> b \<Longrightarrow> a \<le> target \<and> target \<le> b"
proof (cases "backlog = []")
  case True
  then have "sel = []" "a \<le> b \<Longrightarrow> a \<le> target \<and> target \<le> b"
    using assms by (auto simp: plan_sprint_def split: if_splits elim!: bindR_Inr2E dest: rng_randint_bounds)
  then show ?thesis using that[of "[]"] True by simp
next
  case False
  obtain ordered r1 where o:
    "(if rnd then rng_shuffle backlog r else (by_priority backlog, r)) = (ordered, r1)" by fastforce
  have "bindR (rng_randint a b r1) (\<lambda>(t, r2). Inr (pull_items t a 0 ordered, t, r2))
          = Inr (sel, target, r')"
    using assms False o by (simp add: plan_sprint_def)
  then have t: "rng_randint a b r1 = Inr (target, r')" "sel = pull_items target a 0 ordered"
    by (auto elim!: bindR_Inr2E)
  have "mset ordered = mset backlog"
    using o mset_by_priority[of backlog] by (auto split: if_splits dest: mset_rng_shuffle)
  moreover have "ordered = by_priority backlog" if "\<not> rnd" using o that by simp
  moreover have "a \<le> target \<and> target \<le> b" using rng_randint_bounds[OF t(1)] .
  ultimately show ?thesis using that[of ordered] t(2) by simp
qed

section \<open>Properties\<close>

text \<open>Sprint planning takes a prefix of the ordered backlog (by priority unless the team
  shuffles): every item taken fits the capacity target or is needed to reach the minimum, and the
  first item left behind would have exceeded the target of a sprint that has the minimum.\<close>

theorem plan_sprint_greedy:
  assumes "plan_sprint backlog a b rnd r = Inr (sel, target, r')" and "backlog \<noteq> []"
  shows "a \<le> target \<and> target \<le> b \<and>
    (\<exists>rest. mset (sel @ rest) = mset backlog \<and>
       (\<not> rnd \<longrightarrow> sorted (map priority_of (sel @ rest))) \<and>
       (\<forall>ys i zs. sel = ys @ i # zs \<longrightarrow>
          total_points ys + points_of i \<le> target \<or> total_points ys < a) \<and>
       (rest \<noteq> [] \<longrightarrow>
          target < total_points sel + points_of (hd rest) \<and> a \<le> total_points sel))"
proof -
  obtain ordered where o: "mset ordered = mset backlog" "sel = pull_items target a 0 ordered"
    "\<not> rnd \<Longrightarrow> ordered = by_priority backlog" "a \<le> target \<and> target \<le> b"
    by (rule plan_sprint_ordered[OF assms(1)]) (use assms(2) in blast)
  obtain rest where rest: "ordered = sel @ rest" using pull_items_prefix o(2) by blast
  have "target < total_points sel + points_of (hd rest) \<and> a \<le> total_points sel" if "rest \<noteq> []"
  proof -
    have "ordered = pull_items target a 0 ordered @ hd rest # tl rest"
      unfolding o(2)[symmetric] using rest that by (metis list.collapse)
    from pull_items_stops[OF this] show ?thesis by (simp flip: o(2))
  qed
  moreover have "total_points ys + points_of i \<le> target \<or> total_points ys < a"
    if "sel = ys @ i # zs" for ys i zs
    using pull_items_justified[OF trans[OF o(2)[symmetric] that]] by simp
  moreover have "sorted (map priority_of (sel @ rest))" if "\<not> rnd"
    using o(3)[OF that] rest sorted_by_priority[of backlog] by simp
  ultimately show ?thesis using o(1,4) rest by (intro conjI exI[of _ rest]) auto
qed

text \<open>The committed points of a planned sprint exceed the capacity target only to reach the
  minimum, and then by less than one item.\<close>

theorem plan_sprint_capacity:
  assumes "plan_sprint backlog a b rnd r = Inr (sel, target, r')"
    and "\<forall>i \<in> set backlog. 0 \<le> points_of i \<and> points_of i \<le> big" and "0 \<le> a" and "1 \<le> big"
  shows "total_points sel \<le> max target (a - 1 + big)"
proof -
  obtain ordered where o: "mset ordered = mset backlog" "sel = pull_items target a 0 ordered"
    by (rule plan_sprint_ordered[OF assms(1)]) blast
  have "set ordered = set backlog" using o(1) by (rule mset_eq_setD)
  then have "0 + total_points sel \<le> max target (a - 1 + big)" unfolding o(2)
    using assms(2-) by (intro pull_items_bound) auto
  then show ?thesis by simp
qed

section \<open>Witnesses\<close>

definition sample_backlog :: "BacklogItem list" where
  "sample_backlog =
     [\<lparr>bi_id = 1, bi_story_points = Some 5, bi_backlog_priority = Some 2\<rparr>,
      \<lparr>bi_id = 2, bi_story_points = Some 3, bi_backlog_priority = Some 1\<rparr>,
      \<lparr>bi_id = 3, bi_story_points = Some 8, bi_backlog_priority = None\<rparr>]"

lemma sample_plan:
  "\<exists>r'. plan_sprint sample_backlog 8 8 False \<lparr>tape = (\<lambda>_. 0), pos = 0\<rparr> =
    Inr (drop 1 (take 2 sample_backlog) @ take 1 sample_backlog, 8, r')"
  by (simp add: plan_sprint_def sample_backlog_def by_priority_def priority_of_def rng_randint_def
      rng_below_def next_word_def points_of_def)

theorem plan_sprint_greedy_witness:
  "\<exists>sel r'. plan_sprint sample_backlog 8 8 False \<lparr>tape = (\<lambda>_. 0), pos = 0\<rparr> = Inr (sel, 8, r') \<and>
    map bi_id sel = [2, 1] \<and> (\<exists>rest. mset (sel @ rest) = mset sample_backlog)"
proof -
  obtain r' where p: "plan_sprint sample_backlog 8 8 False \<lparr>tape = (\<lambda>_. 0), pos = 0\<rparr> =
    Inr (drop 1 (take 2 sample_backlog) @ take 1 sample_backlog, 8, r')" using sample_plan by blast
  show ?thesis using plan_sprint_greedy[OF p] p by (auto simp: sample_backlog_def)
qed

theorem plan_sprint_capacity_witness:
  "total_points (drop 1 (take 2 sample_backlog) @ take 1 sample_backlog) \<le> max 8 (8 - 1 + 8)"
proof -
  obtain r' where p: "plan_sprint sample_backlog 8 8 False \<lparr>tape = (\<lambda>_. 0), pos = 0\<rparr> =
    Inr (drop 1 (take 2 sample_backlog) @ take 1 sample_backlog, 8, r')" using sample_plan by blast
  show ?thesis
    by (rule plan_sprint_capacity[OF p]) (simp_all add: sample_backlog_def points_of_def)
qed

end
