(* ===== verification/Work_Calendar.thy ===== *)
theory Work_Calendar
  imports Py_Time
begin

text \<open>
  Working hours, holidays and the tick schedule of the first engine: \<open>engine/calendar.py\<close>
  and the two schedule functions of \<open>engine/precompute.py\<close>. Local times come from the zone
  record; the hours a team configures are checked the way \<open>datetime\<close> checks them.
\<close>

definition MAX_LOOKAHEAD_DAYS :: nat where "MAX_LOOKAHEAD_DAYS = 30"
definition DEFAULT_WORKING_DAYS :: "int list" where "DEFAULT_WORKING_DAYS = [0, 1, 2, 3, 4]"

text \<open>The five arguments every function of the module takes.\<close>

record work_hours =
  wh_zone :: zone
  wh_start_hour :: int
  wh_end_hour :: int
  wh_holidays :: "int list"
  wh_working_days :: "int list"

definition is_workday :: "work_hours \<Rightarrow> int \<Rightarrow> bool" where
  "is_workday w d \<longleftrightarrow> weekday d \<in> set (wh_working_days w) \<and> d \<notin> set (wh_holidays w)"

definition is_working_local :: "work_hours \<Rightarrow> int \<Rightarrow> bool" where
  "is_working_local w l \<longleftrightarrow>
     (if weekday (local_date l) \<notin> set (wh_working_days w) then False
      else if local_date l \<in> set (wh_holidays w) then False
      else wh_start_hour w \<le> local_hour l \<and> local_hour l < wh_end_hour w)"

definition is_working_time :: "work_hours \<Rightarrow> int \<Rightarrow> bool res" where
  "is_working_time w now = bindR (to_local (wh_zone w) now) (\<lambda>l. Inr (is_working_local w l))"

text \<open>\<open>datetime(..., hour, 0, 0)\<close> and \<open>replace(hour=...)\<close> refuse an hour outside the day.\<close>

definition at_hour :: "int \<Rightarrow> int \<Rightarrow> int res" where
  "at_hour d h =
     (if 0 \<le> h \<and> h < 24 then Inr (combine d (h * HOUR_US))
      else Inl (Value_Error ''hour must be in 0..23''))"

fun scan_days :: "work_hours \<Rightarrow> nat \<Rightarrow> int \<Rightarrow> int \<Rightarrow> int res" where
  "scan_days w 0 current after = Inr after"
| "scan_days w (Suc n) current after =
     (if is_workday w current
      then bindR (at_hour current (wh_start_hour w)) (\<lambda>l. to_utc (wh_zone w) l False)
      else bindR (date_add current 1) (\<lambda>next. scan_days w n next after))"

definition next_working_moment :: "work_hours \<Rightarrow> int \<Rightarrow> int res" where
  "next_working_moment w after =
     bindR (to_local (wh_zone w) after) (\<lambda>l.
       if is_working_local w l then Inr after
       else if weekday (local_date l) \<in> set (wh_working_days w) \<and>
               local_date l \<notin> set (wh_holidays w) \<and> local_hour l < wh_start_hour w
       then bindR (at_hour (local_date l) (wh_start_hour w))
              (\<lambda>c. to_utc (wh_zone w) c (z_fold (wh_zone w) after))
       else bindR (date_add (local_date l) 1) (\<lambda>d. scan_days w MAX_LOOKAHEAD_DAYS d after))"

definition working_hours_remaining_today :: "zone \<Rightarrow> int \<Rightarrow> int \<Rightarrow> int \<Rightarrow> py_float res" where
  "working_hours_remaining_today z start_hour end_hour now =
     bindR (to_local z now) (\<lambda>l.
       if end_hour \<le> local_hour l then Inr 0
       else if local_hour l < start_hour then Inr (f_of_int (end_hour - start_hour))
       else
         (let remaining_seconds = end_hour * 3600 - local_clock l div 1000000
          in bindR (f_div (of_int remaining_seconds) 3600) (\<lambda>h. Inr (max 0 h))))"

function count_working_days :: "work_hours \<Rightarrow> int \<Rightarrow> int \<Rightarrow> int \<Rightarrow> int res" where
  "count_working_days w current final n =
     (if final < current then Inr n
      else
        (let n' = (if is_workday w current then n + 1 else n)
         in bindR (date_add current 1) (\<lambda>next. count_working_days w next final n')))"
  by pat_completeness auto
termination
  by (relation "measure (\<lambda>(w, c, f, n). nat (MAX_ORDINAL + 1 - c))")
    (auto simp: date_add_def valid_ordinal_def split: if_splits)

declare count_working_days.simps [simp del]

definition working_days_in_range :: "work_hours \<Rightarrow> int \<Rightarrow> int \<Rightarrow> int res" where
  "working_days_in_range w first final = count_working_days w first final 0"

definition handoff_lag_hours :: "work_hours \<Rightarrow> int \<Rightarrow> py_float res" where
  "handoff_lag_hours receiver now =
     bindR (next_working_moment (receiver\<lparr>wh_end_hour := wh_start_hour receiver + 8\<rparr>) now)
       (\<lambda>next_moment.
         bindR (f_div (fl (of_int (next_moment - now) / 1000000)) 3600) (\<lambda>lag. Inr (max 0 lag)))"

section \<open>The end of a sprint, in working days\<close>

function last_sprint_day :: "work_hours \<Rightarrow> int \<Rightarrow> int \<Rightarrow> int \<Rightarrow> int res" where
  "last_sprint_day w current counted need =
     (if counted < need then
        bindR (date_add current 1) (\<lambda>next.
          last_sprint_day w next (if is_workday w next then counted + 1 else counted) need)
      else Inr current)"
  by pat_completeness auto
termination
  by (relation "measure (\<lambda>(w, c, k, n). nat (MAX_ORDINAL + 1 - c))")
    (auto simp: date_add_def valid_ordinal_def split: if_splits)

declare last_sprint_day.simps [simp del]

definition compute_sprint_end :: "work_hours \<Rightarrow> int \<Rightarrow> int \<Rightarrow> int res" where
  "compute_sprint_end w sprint_start sprint_length_days =
     (if sprint_length_days \<le> 0 then Inr sprint_start
      else
        bindR (to_local (wh_zone w) sprint_start) (\<lambda>l.
        bindR (last_sprint_day w (local_date l) (if is_workday w (local_date l) then 1 else 0)
                 sprint_length_days) (\<lambda>day.
        bindR (at_hour day (wh_end_hour w)) (\<lambda>e. to_utc (wh_zone w) e False))))"

section \<open>The tick schedule\<close>

text \<open>
  The loop has no bound of its own: a tick that does not move forward never ends it. It is a
  partial function, and not returning is the value \<open>None\<close>.
\<close>

partial_function (option) tick_loop ::
  "work_hours \<Rightarrow> int \<Rightarrow> int \<Rightarrow> int \<Rightarrow> int list \<Rightarrow> int list res option" where
  "tick_loop w tick_delta sprint_end current acc =
     (if current < sprint_end then
        (case bindR (instant_add current tick_delta) (next_working_moment w) of
           Inl e \<Rightarrow> Some (Inl e)
         | Inr next \<Rightarrow> tick_loop w tick_delta sprint_end next (acc @ [current]))
      else Some (Inr acc))"

definition compute_tick_wall_times ::
  "work_hours \<Rightarrow> int \<Rightarrow> int \<Rightarrow> py_float \<Rightarrow> int list res option" where
  "compute_tick_wall_times w sprint_start sprint_length_days tick_hours =
     (case compute_sprint_end w sprint_start sprint_length_days of
        Inl e \<Rightarrow> Some (Inl e)
      | Inr sprint_end \<Rightarrow>
          (case next_working_moment w sprint_start of
             Inl e \<Rightarrow> Some (Inl e)
           | Inr current \<Rightarrow> tick_loop w (delta_of_float HOUR_US tick_hours) sprint_end current []))"

section \<open>The next working moment\<close>

lemma is_workday_local:
  "is_working_local w l \<longleftrightarrow>
   is_workday w (local_date l) \<and> wh_start_hour w \<le> local_hour l \<and> local_hour l < wh_end_hour w"
  by (simp add: is_working_local_def is_workday_def)

lemma at_hour_Inr:
  "at_hour d h = Inr l \<Longrightarrow> 0 \<le> h \<and> h < 24 \<and> l = combine d (h * HOUR_US) \<and>
     local_date l = d \<and> local_clock l = h * HOUR_US \<and> local_hour l = h"
proof -
  assume "at_hour d h = Inr l"
  then have h: "0 \<le> h" "h < 24" "l = combine d (h * HOUR_US)"
    by (simp_all add: at_hour_def split: if_splits)
  then have "0 \<le> h * HOUR_US" "h * HOUR_US < DAY_US" by (simp_all add: time_consts)
  with h show ?thesis using local_of_combine[of "h * HOUR_US" d]
    by (simp add: local_hour_def HOUR_US_def)
qed

lemma to_utc_Inr: "to_utc z l f = Inr t \<Longrightarrow> t = z_utc z l f"
  by (simp add: to_utc_def Let_def split: if_splits)

lemma to_local_Inr: "to_local z t = Inr l \<Longrightarrow> l = z_local z t"
  by (simp add: to_local_def Let_def split: if_splits)

text \<open>The start of the working hours is the first working instant of a working day.\<close>

lemma before_start_of_day:
  "local_date l < d \<or> local_date l = d \<and> local_hour l < h \<Longrightarrow> l < combine d (h * HOUR_US) \<or> h < 0"
proof -
  assume a: "local_date l < d \<or> local_date l = d \<and> local_hour l < h"
  have l: "l = (local_date l - 1) * DAY_US + local_clock l"
    using local_split[of l] by (simp add: combine_def)
  have c: "local_clock l < DAY_US" using local_clock_range[of l] by simp
  from a show ?thesis
  proof
    assume "local_date l < d"
    then have "(local_date l - 1) * DAY_US + DAY_US \<le> (d - 1) * DAY_US"
      by (simp add: DAY_US_def)
    then show ?thesis using l c
      by (cases "h < 0") (auto simp: combine_def HOUR_US_def)
  next
    assume b: "local_date l = d \<and> local_hour l < h"
    then have "local_clock l < h * HOUR_US"
      by (simp add: local_hour_def HOUR_US_def int_div_less_iff)
    then show ?thesis using l b by (simp add: combine_def)
  qed
qed

lemma local_date_mono: "l \<le> m \<Longrightarrow> local_date l \<le> local_date m"
  by (simp add: local_date_def zdiv_mono1 DAY_US_def)

lemma local_hour_mono: "l \<le> m \<Longrightarrow> local_date l = local_date m \<Longrightarrow> local_hour l \<le> local_hour m"
proof -
  assume "l \<le> m" "local_date l = local_date m"
  then have "local_clock l \<le> local_clock m"
    using local_split[of l] local_split[of m] by (simp add: combine_def)
  then show ?thesis by (simp add: local_hour_def zdiv_mono1 HOUR_US_def)
qed

lemma less_combineD:
  assumes "l < combine D c" "0 \<le> c" "c < DAY_US"
  shows "local_date l < D \<or> local_date l = D \<and> local_clock l < c"
proof -
  have "local_date l \<le> D" using local_date_mono[of l "combine D c"] local_of_combine[of c D] assms by simp
  moreover have "local_clock l < c" if "local_date l = D"
    using assms(1) that local_split[of l] by (simp add: combine_def)
  ultimately show ?thesis by linarith
qed

lemma idle_until:
  assumes "l0 \<le> l" "l < combine D (wh_start_hour w * HOUR_US)"
    and "0 \<le> wh_start_hour w" "wh_start_hour w < 24"
    and between: "\<forall>e. local_date l0 < e \<and> e < D \<longrightarrow> \<not> is_workday w e"
    and today: "local_date l0 < D \<longrightarrow>
      \<not> is_workday w (local_date l0) \<or> wh_end_hour w \<le> local_hour l0"
  shows "\<not> is_working_local w l"
proof -
  have c: "0 \<le> wh_start_hour w * HOUR_US" "wh_start_hour w * HOUR_US < DAY_US"
    using assms(3,4) by (simp_all add: time_consts)
  have m: "local_date l0 \<le> local_date l" by (rule local_date_mono[OF assms(1)])
  from less_combineD[OF assms(2) c] show ?thesis
  proof
    assume less: "local_date l < D"
    show ?thesis
    proof (cases "local_date l = local_date l0")
      case True
      then show ?thesis using today less local_hour_mono[OF assms(1)] by (auto simp: is_workday_local)
    next
      case False
      then show ?thesis using between less m by (auto simp: is_workday_local)
    qed
  next
    assume "local_date l = D \<and> local_clock l < wh_start_hour w * HOUR_US"
    then have "local_hour l < wh_start_hour w" by (simp add: local_hour_def HOUR_US_def int_div_less_iff)
    then show ?thesis by (auto simp: is_workday_local)
  qed
qed

lemma scan_days_result:
  "scan_days w n d after = Inr u \<Longrightarrow> u = after \<or>
   (\<exists>D \<ge> d. is_workday w D \<and> (\<forall>e. d \<le> e \<and> e < D \<longrightarrow> \<not> is_workday w e) \<and>
      at_hour D (wh_start_hour w) = Inr (combine D (wh_start_hour w * HOUR_US)) \<and>
      u = z_utc (wh_zone w) (combine D (wh_start_hour w * HOUR_US)) False)"
proof (induction n arbitrary: d)
  case 0
  then show ?case by simp
next
  case (Suc n)
  show ?case
  proof (cases "is_workday w d")
    case True
    then obtain l where l: "at_hour d (wh_start_hour w) = Inr l" "to_utc (wh_zone w) l False = Inr u"
      using Suc.prems by (auto elim: bindR_InrE)
    then have "l = combine d (wh_start_hour w * HOUR_US)" using at_hour_Inr by blast
    then show ?thesis using l True to_utc_Inr[OF l(2)] by (intro disjI2 exI[of _ d]) auto
  next
    case False
    then have "scan_days w n (d + 1) after = Inr u"
      using Suc.prems by (auto elim!: bindR_InrE simp: date_add_Inr)
    from Suc.IH[OF this] show ?thesis
    proof
      assume "\<exists>D\<ge>d + 1. is_workday w D \<and> (\<forall>e. d + 1 \<le> e \<and> e < D \<longrightarrow> \<not> is_workday w e) \<and>
        at_hour D (wh_start_hour w) = Inr (combine D (wh_start_hour w * HOUR_US)) \<and>
        u = z_utc (wh_zone w) (combine D (wh_start_hour w * HOUR_US)) False"
      then obtain D where D: "d + 1 \<le> D" "is_workday w D"
        "\<forall>e. d + 1 \<le> e \<and> e < D \<longrightarrow> \<not> is_workday w e"
        "at_hour D (wh_start_hour w) = Inr (combine D (wh_start_hour w * HOUR_US))"
        "u = z_utc (wh_zone w) (combine D (wh_start_hour w * HOUR_US)) False" by blast
      have "\<not> is_workday w e" if "d \<le> e" "e < D" for e
        using D(3) False that by (cases "e = d") auto
      then show ?thesis using D by (intro disjI2 exI[of _ D]) auto
    qed simp
  qed
qed

text \<open>
  Unless it gives up and returns its argument, the next working moment is the start of the
  working hours on the first working day whose hours have not begun yet.
\<close>

lemma next_working_moment_result:
  assumes "next_working_moment w t = Inr u" and "u \<noteq> t"
  shows "\<exists>D. is_workday w D \<and> 0 \<le> wh_start_hour w \<and> wh_start_hour w < 24 \<and>
     (\<exists>f. u = z_utc (wh_zone w) (combine D (wh_start_hour w * HOUR_US)) f) \<and>
     z_local (wh_zone w) t < combine D (wh_start_hour w * HOUR_US) \<and>
     (\<forall>l. z_local (wh_zone w) t \<le> l \<and> l < combine D (wh_start_hour w * HOUR_US) \<longrightarrow>
        \<not> is_working_local w l)"
proof -
  let ?z = "wh_zone w" and ?h = "wh_start_hour w"
  define l0 where "l0 = z_local ?z t"
  have loc: "to_local ?z t = Inr l0"
    using assms(1) by (auto simp: next_working_moment_def l0_def elim!: bindR_InrE dest: to_local_Inr)
  have z: "z_local ?z t = l0" by (simp add: l0_def)
  have not_now: "\<not> is_working_local w l0"
    using assms loc by (auto simp: next_working_moment_def)
  have idle: "\<not> is_working_local w l"
    if "l0 \<le> l" "l < combine D (?h * HOUR_US)" "0 \<le> ?h" "?h < 24"
      "\<forall>e. local_date l0 < e \<and> e < D \<longrightarrow> \<not> is_workday w e"
      "local_date l0 < D \<longrightarrow> \<not> is_workday w (local_date l0) \<or> wh_end_hour w \<le> local_hour l0" for l D
    by (rule idle_until[OF that])
  show ?thesis
  proof (cases "is_workday w (local_date l0) \<and> local_hour l0 < ?h")
    case True
    then have "bindR (at_hour (local_date l0) ?h) (\<lambda>c. to_utc ?z c (z_fold ?z t)) = Inr u"
      using assms(1) loc not_now by (simp add: next_working_moment_def is_workday_def)
    then obtain c where c: "at_hour (local_date l0) ?h = Inr c" "to_utc ?z c (z_fold ?z t) = Inr u"
      by (rule bindR_InrE)
    note h = at_hour_Inr[OF c(1)]
    have "l0 < combine (local_date l0) (?h * HOUR_US)"
      using before_start_of_day[of l0 "local_date l0" ?h] True h by auto
    moreover have "\<forall>l. l0 \<le> l \<and> l < combine (local_date l0) (?h * HOUR_US) \<longrightarrow> \<not> is_working_local w l"
      by (intro allI impI idle[of _ "local_date l0"]) (use h in auto)
    ultimately show ?thesis unfolding z using True h to_utc_Inr[OF c(2)] by blast
  next
    case False
    then have "bindR (date_add (local_date l0) 1) (\<lambda>d. scan_days w MAX_LOOKAHEAD_DAYS d t) = Inr u"
      using assms(1) loc not_now by (auto simp: next_working_moment_def is_workday_def)
    then have "scan_days w MAX_LOOKAHEAD_DAYS (local_date l0 + 1) t = Inr u"
      by (auto elim!: bindR_InrE simp: date_add_Inr)
    from scan_days_result[OF this] assms(2) obtain D where D: "local_date l0 + 1 \<le> D" "is_workday w D"
        "\<forall>e. local_date l0 + 1 \<le> e \<and> e < D \<longrightarrow> \<not> is_workday w e"
        "at_hour D ?h = Inr (combine D (?h * HOUR_US))"
        "u = z_utc ?z (combine D (?h * HOUR_US)) False" by blast
    note h = at_hour_Inr[OF D(4)]
    have over: "\<not> is_workday w (local_date l0) \<or> wh_end_hour w \<le> local_hour l0"
      using False not_now by (auto simp: is_workday_local)
    have "l0 < combine D (?h * HOUR_US)" using before_start_of_day[of l0 D ?h] D(1) h by auto
    moreover have "\<forall>l. l0 \<le> l \<and> l < combine D (?h * HOUR_US) \<longrightarrow> \<not> is_working_local w l"
      by (intro allI impI idle[of _ D]) (use h D(3) over in auto)
    ultimately show ?thesis unfolding z using D h by blast
  qed
qed

text \<open>Work opens in the order of time: an instant whose local time is before an opening is not after it. This
  excludes only zones that turn the clock back across the hour at which work starts.\<close>

definition opens_in_order :: "zone \<Rightarrow> int \<Rightarrow> bool" where
  "opens_in_order z hour \<longleftrightarrow>
     (\<forall>t D f. z_local z t < combine D (hour * HOUR_US) \<longrightarrow> t \<le> z_utc z (combine D (hour * HOUR_US)) f)"

lemma no_transitions_opens [simp]: "no_transitions z \<Longrightarrow> opens_in_order z hour"
  by (simp add: opens_in_order_def no_transitions_order)

text \<open>A zone that goes one hour forward at an instant and, later, one hour back, with its openings outside the
  two hours that are skipped and repeated.\<close>

definition summer_zone :: "int \<Rightarrow> int \<Rightarrow> zone" where
  "summer_zone forward backward =
     \<lparr>z_local = (\<lambda>t. if forward \<le> t \<and> t < backward then t + HOUR_US else t),
      z_fold = (\<lambda>t. backward \<le> t \<and> t < backward + HOUR_US),
      z_utc = (\<lambda>l f. if l < forward \<or> backward + HOUR_US \<le> l \<or> (f \<and> backward \<le> l) then l else l - HOUR_US)\<rparr>"

lemma summer_zone_opens:
  assumes "forward < backward"
    and "\<And>D. \<not> (forward \<le> combine D (hour * HOUR_US) \<and> combine D (hour * HOUR_US) < forward + HOUR_US)"
    and "\<And>D. \<not> (backward \<le> combine D (hour * HOUR_US) \<and> combine D (hour * HOUR_US) < backward + HOUR_US)"
  shows "opens_in_order (summer_zone forward backward) hour"
  unfolding opens_in_order_def
proof (intro allI impI)
  fix t D f assume "z_local (summer_zone forward backward) t < combine D (hour * HOUR_US)"
  then show "t \<le> z_utc (summer_zone forward backward) (combine D (hour * HOUR_US)) f"
    using assms(1) assms(2,3)[of D] by (auto simp: summer_zone_def HOUR_US_def split: if_splits)
qed

lemma next_working_moment_ge:
  assumes "opens_in_order (wh_zone w) (wh_start_hour w)" and "next_working_moment w t = Inr u"
  shows "t \<le> u"
proof (cases "u = t")
  case False
  from next_working_moment_result[OF assms(2) False] obtain D f where
    "u = z_utc (wh_zone w) (combine D (wh_start_hour w * HOUR_US)) f"
    "z_local (wh_zone w) t < combine D (wh_start_hour w * HOUR_US)" by blast
  then show ?thesis using assms(1) by (simp add: opens_in_order_def)
qed simp

section \<open>Counting working days\<close>

definition workdays :: "work_hours \<Rightarrow> int \<Rightarrow> int \<Rightarrow> int set" where
  "workdays w a b = {d \<in> {a..b}. is_workday w d}"

lemma finite_workdays [simp]: "finite (workdays w a b)"
  by (rule finite_subset[of _ "{a..b}"]) (auto simp: workdays_def)

lemma workdays_empty [simp]: "b < a \<Longrightarrow> workdays w a b = {}"
  by (auto simp: workdays_def)

lemma workdays_first:
  "a \<le> b \<Longrightarrow> workdays w a b = (if is_workday w a then {a} else {}) \<union> workdays w (a + 1) b"
proof -
  assume "a \<le> b"
  then have "{a..b} = insert a {a + 1..b}" by auto
  then show ?thesis by (auto simp: workdays_def)
qed

lemma workdays_last:
  "a \<le> b + 1 \<Longrightarrow> workdays w a (b + 1) = (if is_workday w (b + 1) then {b + 1} else {}) \<union> workdays w a b"
proof -
  assume "a \<le> b + 1"
  then have "{a..b + 1} = insert (b + 1) {a..b}" by auto
  then show ?thesis by (auto simp: workdays_def)
qed

lemma card_workdays_first:
  "a \<le> b \<Longrightarrow> card (workdays w a b) = (if is_workday w a then 1 else 0) + card (workdays w (a + 1) b)"
proof -
  have "a \<notin> workdays w (a + 1) b" by (simp add: workdays_def)
  then show "a \<le> b \<Longrightarrow> ?thesis" by (subst workdays_first) (auto simp: card_insert_if)
qed

lemma card_workdays_last:
  "a \<le> b + 1 \<Longrightarrow>
   card (workdays w a (b + 1)) = (if is_workday w (b + 1) then 1 else 0) + card (workdays w a b)"
proof -
  have "b + 1 \<notin> workdays w a b" by (simp add: workdays_def)
  then show "a \<le> b + 1 \<Longrightarrow> ?thesis" by (subst workdays_last) (auto simp: card_insert_if)
qed

lemma count_working_days_eq:
  "count_working_days w c f n = Inr m \<Longrightarrow> m = n + int (card (workdays w c f))"
proof (induction w c f n rule: count_working_days.induct)
  case (1 w c f n)
  show ?case
  proof (cases "f < c")
    case True
    then show ?thesis using "1.prems" by (subst (asm) count_working_days.simps) simp
  next
    case False
    let ?n = "if is_workday w c then n + 1 else n"
    have v: "valid_ordinal (c + 1)" and r: "count_working_days w (c + 1) f ?n = Inr m"
      using "1.prems" False
      by (subst (asm) count_working_days.simps, auto simp: Let_def date_add_Inr elim!: bindR_InrE
          split: if_splits)+
    have "m = ?n + int (card (workdays w (c + 1) f))"
      using "1.IH"[OF False refl _ r] v by (simp add: date_add_Inr)
    then show ?thesis using card_workdays_first[of c f w] False by auto
  qed
qed

text \<open>A weekly working day yields a working day per week, but for the holidays.\<close>

lemma workdays_weekly:
  assumes "wd \<in> set (wh_working_days w)" "0 \<le> wd" "wd < 7"
  shows "m \<le> card (workdays w a (a + 7 * int m - 1)) + card (set (wh_holidays w))"
proof -
  obtain k where k: "k \<in> {0..<7}" "weekday (a + k) = wd" using weekday_in_week[OF assms(2,3)] by blast
  define A where "A = (\<lambda>j. a + k + 7 * int j) ` {0..<m}"
  have card: "card A = m" by (simp add: A_def card_image inj_on_def)
  have "weekday (a + k + 7 * int j) = wd" for j using k(2) by simp
  then have sub: "A - set (wh_holidays w) \<subseteq> workdays w a (a + 7 * int m - 1)"
    using assms(1) k(1) by (auto simp: A_def workdays_def is_workday_def)
  have "m \<le> card (A - set (wh_holidays w)) + card (set (wh_holidays w))"
    using card diff_card_le_card_Diff[of "set (wh_holidays w)" A] by simp
  also have "card (A - set (wh_holidays w)) \<le> card (workdays w a (a + 7 * int m - 1))"
    by (rule card_mono[OF finite_workdays sub])
  finally show ?thesis by simp
qed

section \<open>The last day of a sprint\<close>

lemma last_sprint_day_step:
  "counted < need \<Longrightarrow> valid_ordinal (c + 1) \<Longrightarrow>
   last_sprint_day w c counted need =
     last_sprint_day w (c + 1) (if is_workday w (c + 1) then counted + 1 else counted) need"
  by (subst last_sprint_day.simps) (simp add: date_add_def)

lemma last_sprint_day_stop: "need \<le> counted \<Longrightarrow> last_sprint_day w c counted need = Inr c"
  by (subst last_sprint_day.simps) simp

lemma last_sprint_day_result:
  assumes "last_sprint_day w c k need = Inr D" and "k = int (card (workdays w s c))"
    and "s \<le> c" and "k \<le> need"
  shows "c \<le> D \<and> int (card (workdays w s D)) = need \<and> (D = c \<or> is_workday w D)"
  using assms
proof (induction w c k need rule: last_sprint_day.induct)
  case (1 w c k need)
  show ?case
  proof (cases "k < need")
    case False
    then show ?thesis using "1.prems" by (subst (asm) last_sprint_day.simps) auto
  next
    case True
    let ?k = "if is_workday w (c + 1) then k + 1 else k"
    have v: "valid_ordinal (c + 1)" and r: "last_sprint_day w (c + 1) ?k need = Inr D"
      using "1.prems"(1) True
      by (subst (asm) last_sprint_day.simps, auto simp: date_add_Inr elim!: bindR_InrE)+
    have k: "?k = int (card (workdays w s (c + 1)))"
      using "1.prems"(2,3) card_workdays_last[of s c w] by auto
    have "c + 1 \<le> D \<and> int (card (workdays w s D)) = need \<and> (D = c + 1 \<or> is_workday w D)"
      using "1.IH"[OF True _ r k] v "1.prems"(3) True by (auto simp: date_add_Inr)
    moreover have "is_workday w (c + 1)" if "D = c + 1"
    proof (rule ccontr)
      assume "\<not> is_workday w (c + 1)"
      then have "int (card (workdays w s (c + 1))) = k" using k by simp
      then show False using calculation that True by simp
    qed
    ultimately show ?thesis by auto
  qed
qed

text \<open>It fails only by running past the last representable day.\<close>

lemma last_sprint_day_fails:
  assumes "last_sprint_day w c k need = Inl e" and "k = int (card (workdays w s c))"
    and "s \<le> c" and "valid_ordinal c"
  shows "e = Overflow_Error \<and> int (card (workdays w s MAX_ORDINAL)) < need"
  using assms
proof (induction w c k need rule: last_sprint_day.induct)
  case (1 w c k need)
  have less: "k < need"
    using "1.prems"(1) by (subst (asm) last_sprint_day.simps) (auto split: if_splits)
  show ?case
  proof (cases "valid_ordinal (c + 1)")
    case False
    then have "c = MAX_ORDINAL" using "1.prems"(4) by (simp add: valid_ordinal_def)
    moreover have "e = Overflow_Error"
      using "1.prems"(1) less False by (subst (asm) last_sprint_day.simps) (simp add: date_add_def)
    ultimately show ?thesis using "1.prems"(2) less by simp
  next
    case True
    let ?k = "if is_workday w (c + 1) then k + 1 else k"
    have a: "date_add c 1 = Inr (c + 1)" using True by (simp add: date_add_Inr)
    have r: "last_sprint_day w (c + 1) ?k need = Inl e"
      using "1.prems"(1) less by (subst (asm) last_sprint_day.simps) (simp add: a)
    have "?k = int (card (workdays w s (c + 1)))"
      using "1.prems"(2,3) card_workdays_last[of s c w] by auto
    from "1.IH"[OF less a r this] show ?thesis using "1.prems"(3) True by simp
  qed
qed

section \<open>The tick schedule\<close>

lemma tick_loop_ends:
  assumes "opens_in_order (wh_zone w) (wh_start_hour w)" and "0 < delta"
  shows "\<exists>r. tick_loop w delta e c acc = Some r \<and>
    (\<forall>ticks. r = Inr ticks \<longrightarrow> (\<exists>new. ticks = acc @ new \<and> sorted_wrt (<) new \<and>
       (\<forall>x \<in> set new. c \<le> x \<and> x < e)))"
proof (induction "nat (e - c)" arbitrary: c acc rule: less_induct)
  case less
  show ?case
  proof (cases "c < e")
    case False
    then show ?thesis by (simp add: tick_loop.simps)
  next
    case True
    show ?thesis
    proof (cases "bindR (instant_add c delta) (next_working_moment w)")
      case (Inl x)
      then show ?thesis using True by (simp add: tick_loop.simps)
    next
      case (Inr n)
      then have "next_working_moment w (c + delta) = Inr n"
        by (auto simp: instant_add_def elim!: bindR_InrE split: if_splits)
      then have n: "c < n" using next_working_moment_ge[OF assms(1)] assms(2) by fastforce
      then have "nat (e - n) < nat (e - c)" using True by simp
      from less[OF this, of "acc @ [c]"] obtain r where r: "tick_loop w delta e n (acc @ [c]) = Some r"
        "\<forall>ticks. r = Inr ticks \<longrightarrow> (\<exists>new. ticks = (acc @ [c]) @ new \<and> sorted_wrt (<) new \<and>
           (\<forall>x \<in> set new. n \<le> x \<and> x < e))" by blast
      have "tick_loop w delta e c acc = Some r"
        using True Inr r(1) by (subst tick_loop.simps) simp
      moreover have "\<exists>new. ticks = acc @ new \<and> sorted_wrt (<) new \<and> (\<forall>x \<in> set new. c \<le> x \<and> x < e)"
        if eq: "r = Inr ticks" for ticks
      proof -
        obtain new where "ticks = (acc @ [c]) @ new" "sorted_wrt (<) new" "\<forall>x \<in> set new. n \<le> x \<and> x < e"
          using r(2)[rule_format, OF eq] by blast
        then show ?thesis using n True by (intro exI[of _ "c # new"]) auto
      qed
      ultimately show ?thesis by blast
    qed
  qed
qed

text \<open>A tick that rounds to no time at all repeats the same working moment for ever.\<close>

lemma tick_loop_stuck:
  assumes "next_working_moment w c = Inr c" "valid_instant c" "c < e"
  shows "tick_loop w 0 e c acc = None"
proof (rule ccontr)
  assume "tick_loop w 0 e c acc \<noteq> None"
  then obtain r where r: "tick_loop w 0 e c acc = Some r" by blast
  have "\<not> (0 = (0::int) \<and> next_working_moment w c = Inr c \<and> valid_instant c \<and> c < e)"
  proof (rule tick_loop.raw_induct[where P = "\<lambda>w delta e c acc r.
      \<not> (delta = 0 \<and> next_working_moment w c = Inr c \<and> valid_instant c \<and> c < e)", OF _ r])
    fix loop w delta e c acc r
    assume IH: "\<And>w delta e c acc r. loop w delta e c acc = Some r \<Longrightarrow>
        \<not> (delta = 0 \<and> next_working_moment w c = Inr c \<and> valid_instant c \<and> c < e)"
      and eq: "(if c < e then
          (case bindR (instant_add c delta) (next_working_moment w) of
             Inl e \<Rightarrow> Some (Inl e)
           | Inr next \<Rightarrow> loop w delta e next (acc @ [c]))
        else Some (Inr acc)) = Some r"
    show "\<not> (delta = 0 \<and> next_working_moment w c = Inr c \<and> valid_instant c \<and> c < e)"
    proof
      assume a: "delta = 0 \<and> next_working_moment w c = Inr c \<and> valid_instant c \<and> c < e"
      then have "loop w delta e c (acc @ [c]) = Some r" using eq by (simp add: instant_add_def)
      then show False using IH a by blast
    qed
  qed
  then show False using assms by simp
qed

section \<open>Properties\<close>

text \<open>In a zone without transitions, a search for working time that moves at all moves
  forward, to the start of the working hours of a working day, and no instant it skips was a
  working one.\<close>

theorem next_working_moment_first:
  assumes "no_transitions (wh_zone w)" and "wh_start_hour w < wh_end_hour w"
    and "next_working_moment w t = Inr u" and "u \<noteq> t"
  shows "t < u \<and> is_working_local w (z_local (wh_zone w) u) \<and>
    local_clock (z_local (wh_zone w) u) = wh_start_hour w * HOUR_US \<and>
    (\<forall>v. t \<le> v \<and> v < u \<longrightarrow> \<not> is_working_local w (z_local (wh_zone w) v))"
proof -
  let ?z = "wh_zone w" and ?c = "wh_start_hour w * HOUR_US"
  obtain off where off: "z_local ?z = (\<lambda>t. t + off)" "z_utc ?z = (\<lambda>l _. l - off)"
    using assms(1) by (auto simp: no_transitions_def)
  obtain D f where D: "is_workday w D" "0 \<le> wh_start_hour w" "wh_start_hour w < 24"
    "u = z_utc ?z (combine D ?c) f" "z_local ?z t < combine D ?c"
    "\<forall>l. z_local ?z t \<le> l \<and> l < combine D ?c \<longrightarrow> \<not> is_working_local w l"
    using next_working_moment_result[OF assms(3,4)] by blast
  have loc: "z_local ?z u = combine D ?c" using no_transitions_round[OF assms(1)] D(4) by simp
  have c: "0 \<le> ?c" "?c < DAY_US" using D(2,3) by (simp_all add: time_consts)
  have "local_hour (combine D ?c) = wh_start_hour w"
    using local_of_combine(2)[OF c] by (simp add: local_hour_def HOUR_US_def)
  then have "is_working_local w (z_local ?z u)"
    using D(1) assms(2) local_of_combine(1)[OF c] by (simp add: is_workday_local loc)
  moreover have "t < u" using D(5) off loc by simp
  moreover have "\<not> is_working_local w (z_local ?z v)" if "t \<le> v" "v < u" for v
    using D(6) that off loc by simp
  ultimately show ?thesis using local_of_combine(2)[OF c] by (simp add: loc)
qed

text \<open>(C31) When the calculation of the end of a sprint of a positive number of n days returns, the result is the end
  of the working hours on a working day, not before the day the sprint starts, up to which there are exactly n working
  days, the day of the start included.\<close>

theorem compute_sprint_end_counts:
  assumes "0 < n" and "compute_sprint_end w s n = Inr e"
  shows "\<exists>D. e = z_utc (wh_zone w) (combine D (wh_end_hour w * HOUR_US)) False \<and>
    local_date (z_local (wh_zone w) s) \<le> D \<and> is_workday w D \<and>
    int (card (workdays w (local_date (z_local (wh_zone w) s)) D)) = n"
proof -
  define d where "d = local_date (z_local (wh_zone w) s)"
  have "bindR (last_sprint_day w d (if is_workday w d then 1 else 0) n) (\<lambda>day.
        bindR (at_hour day (wh_end_hour w)) (\<lambda>e. to_utc (wh_zone w) e False)) = Inr e"
    using assms by (auto simp: compute_sprint_end_def d_def elim!: bindR_InrE dest: to_local_Inr)
  then obtain D l where D: "last_sprint_day w d (if is_workday w d then 1 else 0) n = Inr D"
    "at_hour D (wh_end_hour w) = Inr l" "to_utc (wh_zone w) l False = Inr e"
    by (auto elim!: bindR_InrE)
  have k: "(if is_workday w d then 1 else 0) = int (card (workdays w d d))"
    using card_workdays_first[of d d w] by simp
  have "d \<le> D \<and> int (card (workdays w d D)) = n \<and> (D = d \<or> is_workday w D)"
    using last_sprint_day_result[OF D(1) k] assms(1) by simp
  moreover from this have "is_workday w D" using k assms(1) by (auto split: if_splits)
  ultimately show ?thesis
    using at_hour_Inr[OF D(2)] to_utc_Inr[OF D(3)] unfolding d_def by blast
qed

text \<open>(C32) The tick schedule of a positive tick length ends, whatever the hours and holidays, in every time zone in
  which work opens in the order of time (which a zone with daylight saving satisfies as long as the clock is not
  turned back across the opening hour); its ticks are strictly increasing, none is before the start
  and all are before the end of the sprint.\<close>

theorem compute_tick_wall_times_ends:
  assumes "opens_in_order (wh_zone w) (wh_start_hour w)" and "0 < delta_of_float HOUR_US h"
  shows "\<exists>r. compute_tick_wall_times w s n h = Some r \<and>
    (\<forall>ticks. r = Inr ticks \<longrightarrow> sorted_wrt (<) ticks \<and>
       (\<exists>e. compute_sprint_end w s n = Inr e \<and> (\<forall>x \<in> set ticks. s \<le> x \<and> x < e)))"
proof (cases "compute_sprint_end w s n")
  case (Inr e)
  show ?thesis
  proof (cases "next_working_moment w s")
    case (Inr c)
    have "s \<le> c" by (rule next_working_moment_ge[OF assms(1) Inr])
    then show ?thesis using tick_loop_ends[OF assms, of e c "[]"] Inr \<open>compute_sprint_end w s n = Inr e\<close>
      by (fastforce simp: compute_tick_wall_times_def)
  qed (simp add: compute_tick_wall_times_def Inr)
qed (simp add: compute_tick_wall_times_def)

text \<open>(C37) A tick length that rounds to no time at all makes the schedule of a sprint that starts
  in working time run for ever.\<close>

theorem compute_tick_wall_times_zero:
  assumes "delta_of_float HOUR_US h = 0" and "next_working_moment w s = Inr s"
    and "valid_instant s" and "compute_sprint_end w s n = Inr e" and "s < e"
  shows "compute_tick_wall_times w s n h = None"
  using assms tick_loop_stuck by (simp add: compute_tick_wall_times_def)

section \<open>Witnesses\<close>

text \<open>Office hours in UTC, Monday to Friday; day 1 is a Monday and day 6 a Saturday.\<close>

definition office :: work_hours where
  "office = \<lparr>wh_zone = fixed_zone 0, wh_start_hour = 9, wh_end_hour = 17, wh_holidays = [2],
             wh_working_days = DEFAULT_WORKING_DAYS\<rparr>"

lemmas calendar_eval = office_def fixed_zone_def DEFAULT_WORKING_DAYS_def is_working_local_def
  is_workday_def to_local_def to_utc_def valid_instant_def valid_ordinal_def at_hour_def
  local_date_def local_hour_def local_clock_def weekday_def combine_def date_add_def
  MAX_ORDINAL_def DAY_US_def HOUR_US_def

lemma office_skips_weekend:
  "next_working_moment office (combine 5 (17 * HOUR_US)) = Inr (combine 8 (9 * HOUR_US))"
proof -
  have w: "\<not> is_workday office 6" "\<not> is_workday office 7" "is_workday office 8"
    and v: "valid_ordinal 6" "valid_ordinal 7" "valid_ordinal 8"
    by (simp_all add: calendar_eval)
  have n: "MAX_LOOKAHEAD_DAYS = Suc (Suc (Suc 27))" by (simp add: MAX_LOOKAHEAD_DAYS_def)
  have "scan_days office (Suc (Suc (Suc k))) 6 a = Inr (combine 8 (9 * HOUR_US))" for k a
  proof -
    have "at_hour 8 (wh_start_hour office) = Inr (combine 8 (9 * HOUR_US))"
      "to_utc (wh_zone office) (combine 8 (9 * HOUR_US)) False = Inr (combine 8 (9 * HOUR_US))"
      by (simp_all add: calendar_eval)
    then show ?thesis using w v by (simp add: date_add_def)
  qed
  from this[of 27] have "scan_days office MAX_LOOKAHEAD_DAYS 6 a = Inr (combine 8 (9 * HOUR_US))" for a
    unfolding n .
  moreover have "to_local (wh_zone office) (combine 5 (17 * HOUR_US)) = Inr (combine 5 (17 * HOUR_US))"
    "\<not> is_working_local office (combine 5 (17 * HOUR_US))"
    "\<not> local_hour (combine 5 (17 * HOUR_US)) < wh_start_hour office"
    "date_add (local_date (combine 5 (17 * HOUR_US))) 1 = Inr 6"
    by (simp_all add: calendar_eval)
  ultimately show ?thesis by (simp add: next_working_moment_def)
qed

theorem next_working_moment_first_witness:
  "combine 5 (17 * HOUR_US) < combine 8 (9 * HOUR_US) \<and>
   is_working_local office (combine 8 (9 * HOUR_US)) \<and>
   \<not> is_working_local office (combine 7 (12 * HOUR_US))"
proof -
  have z: "z_local (wh_zone office) v = v" for v by (simp add: office_def fixed_zone_def)
  have "no_transitions (wh_zone office)" "wh_start_hour office < wh_end_hour office"
    by (simp_all add: office_def)
  moreover have "combine 8 (9 * HOUR_US) \<noteq> combine 5 (17 * HOUR_US)"
    by (simp add: combine_def HOUR_US_def DAY_US_def)
  moreover have "combine 5 (17 * HOUR_US) \<le> combine 7 (12 * HOUR_US)"
    "combine 7 (12 * HOUR_US) < combine 8 (9 * HOUR_US)"
    by (simp_all add: combine_def HOUR_US_def DAY_US_def)
  ultimately show ?thesis using next_working_moment_first[OF _ _ office_skips_weekend] by (simp add: z)
qed

lemma office_sprint_end:
  "compute_sprint_end office (combine 1 (9 * HOUR_US)) 3 = Inr (combine 4 (17 * HOUR_US))"
proof -
  have w: "is_workday office 1" "\<not> is_workday office 2" "is_workday office 3" "is_workday office 4"
    by (simp_all add: calendar_eval)
  have v: "valid_ordinal 2" "valid_ordinal 3" "valid_ordinal 4"
    by (simp_all add: valid_ordinal_def MAX_ORDINAL_def)
  have "last_sprint_day office 1 1 3 = Inr 4"
    by (simp add: last_sprint_day_step last_sprint_day_stop w v)
  moreover have "to_local (wh_zone office) (combine 1 (9 * HOUR_US)) = Inr (combine 1 (9 * HOUR_US))"
    "local_date (combine 1 (9 * HOUR_US)) = 1"
    "at_hour 4 (wh_end_hour office) = Inr (combine 4 (17 * HOUR_US))"
    "to_utc (wh_zone office) (combine 4 (17 * HOUR_US)) False = Inr (combine 4 (17 * HOUR_US))"
    by (simp_all add: calendar_eval)
  ultimately show ?thesis using w(1) by (simp add: compute_sprint_end_def)
qed

theorem compute_sprint_end_counts_witness:
  "\<exists>D. combine 4 (17 * HOUR_US) = z_utc (wh_zone office) (combine D (wh_end_hour office * HOUR_US)) False
    \<and> is_workday office D"
  using compute_sprint_end_counts[OF _ office_sprint_end] by auto

theorem compute_tick_wall_times_ends_witness:
  "\<exists>r. compute_tick_wall_times office (combine 1 0) 10 1 = Some r"
proof -
  have "delta_of_float HOUR_US 1 = HOUR_US" using delta_of_int[of HOUR_US 1] by simp
  then have "0 < delta_of_float HOUR_US 1" by (simp add: HOUR_US_def)
  moreover have "opens_in_order (wh_zone office) (wh_start_hour office)" by (simp add: office_def)
  ultimately show ?thesis using compute_tick_wall_times_ends by blast
qed

theorem compute_tick_wall_times_zero_witness:
  "compute_tick_wall_times office (combine 1 (9 * HOUR_US)) 3 (1 / 2 ^ 40) = None"
proof (rule compute_tick_wall_times_zero[OF _ _ _ office_sprint_end])
  have tr: "py_trunc (1 / 2 ^ 40) = 0" by (simp add: py_trunc_def floor_unique)
  have e: "fl (3515625 / 1073741824) = 3515625 / 1073741824"
    using fl_exact[of HOUR_US "-40"] by (simp add: HOUR_US_def power_int_def power_one_over)
  have "delta_of_float HOUR_US (1 / 2 ^ 40) = round_half_even (fl (3515625 / 1073741824))"
    unfolding delta_of_float_def tr by (simp add: HOUR_US_def)
  then show "delta_of_float HOUR_US (1 / 2 ^ 40) = 0"
    unfolding e by (simp add: round_half_even_def float_simps)
  have "to_local (wh_zone office) (combine 1 (9 * HOUR_US)) = Inr (combine 1 (9 * HOUR_US))"
    "is_working_local office (combine 1 (9 * HOUR_US))"
    by (simp_all add: calendar_eval)
  then show "next_working_moment office (combine 1 (9 * HOUR_US)) = Inr (combine 1 (9 * HOUR_US))"
    by (simp add: next_working_moment_def)
  show "valid_instant (combine 1 (9 * HOUR_US))" by (simp add: calendar_eval)
  show "combine 1 (9 * HOUR_US) < combine 4 (17 * HOUR_US)" by (simp add: calendar_eval)
qed

end
