(* ===== verification/Precompute.thy ===== *)
theory Precompute
  imports Workflow_Engine Sprint_Planning Work_Calendar
begin

text \<open>
  Pre-computation of a sprint (\<open>engine/precompute.py\<close>): the planning tick, the active ticks
  and the closing event, over the planner, the workflow engine and the tick schedule. Backlog
  ids are primary keys, so an item occurs once. Seeding (\<open>random.Random(seed)\<close>) and
  \<open>isoformat\<close> are parameters. A schedule that never ends makes the whole run \<open>None\<close>.
\<close>

record ScheduledEventData =
  sim_tick :: nat
  wall_clock_time :: int
  event_type :: string
  ev_payload :: json
  ev_issue_id :: "int option"
  sequence_order :: nat

record PrecomputeResult =
  pr_events :: "ScheduledEventData list"
  pr_total_ticks :: nat
  pr_rng_seed :: int
  pr_issue_final_states :: "(int, IssueSnapshot) dict"
  pr_committed_points :: int
  pr_selected_issue_ids :: "int list"
  pr_capacity_target :: int

record TeamSnapshot =
  tm_id :: int
  tm_name :: string
  tm_jira_project_key :: string
  tm_jira_board_id :: "int option"
  tm_sprint_length_days :: int
  tm_sprint_capacity_min :: int
  tm_sprint_capacity_max :: int
  tm_priority_randomization :: bool
  tm_tick_duration_hours :: py_float
  tm_zone :: zone
  tm_working_hours_start :: int
  tm_working_hours_end :: int
  tm_holidays :: "json option" \<comment> \<open>decoded; None for an empty or malformed text\<close>
  tm_sprint_cadence_rule :: "string option"
  tm_sprint_cadence_time :: "string option"
  tm_sprint_auto_schedule :: bool

record MemberSnapshot =
  mem_id :: int
  mem_role :: string
  mem_team_id :: int
  mem_is_active :: bool

record environment =
  env_libm :: libm
  env_seeded :: "int \<Rightarrow> rng"
  env_iso :: "int \<Rightarrow> string"
  env_parse_date :: "string \<Rightarrow> int option"

text \<open>The keyword arguments of a run.\<close>

record sprint_args =
  sa_start :: int
  sa_length_days :: int
  sa_jira_sprint_id :: "int option"
  sa_jira_board_id :: "int option"
  sa_name :: string
  sa_db_id :: "int option"
  sa_rng_seed :: int

definition parse_holidays :: "(string \<Rightarrow> int option) \<Rightarrow> json option \<Rightarrow> int list res" where
  "parse_holidays parse doc =
     (case doc of
        None \<Rightarrow> Inr []
      | Some (JList hs) \<Rightarrow>
          Inr (List.map_filter (\<lambda>h. case h of JStr s \<Rightarrow> parse s | _ \<Rightarrow> None) hs)
      | Some (JObj kvs) \<Rightarrow> Inr (List.map_filter (parse \<circ> fst) kvs)
      | Some (JStr s) \<Rightarrow> Inr (List.map_filter (\<lambda>c. parse [c]) s)
      | Some _ \<Rightarrow> Inl (Type_Error ''object is not iterable''))"

definition truthy_int :: "int option \<Rightarrow> bool" where
  "truthy_int x \<longleftrightarrow> x \<noteq> None \<and> x \<noteq> Some 0"

definition truthy_str :: "string option \<Rightarrow> bool" where
  "truthy_str x \<longleftrightarrow> x \<noteq> None \<and> x \<noteq> Some []"

text \<open>The sequence counter always equals the number of events so far.\<close>

definition add_event ::
  "nat \<Rightarrow> int \<Rightarrow> JiraWriteAction \<Rightarrow> ScheduledEventData list \<Rightarrow> ScheduledEventData list" where
  "add_event tick wall a events =
     events @ [\<lparr>sim_tick = tick, wall_clock_time = wall, event_type = operation_type a,
                ev_payload = payload a, ev_issue_id = act_issue_id a,
                sequence_order = length events\<rparr>]"

definition add_events ::
  "nat \<Rightarrow> int \<Rightarrow> JiraWriteAction list \<Rightarrow> ScheduledEventData list \<Rightarrow> ScheduledEventData list" where
  "add_events tick wall acts events = fold (add_event tick wall) acts events"

definition sprint_action :: "string \<Rightarrow> int option \<Rightarrow> JiraWriteAction" where
  "sprint_action op sid =
     \<lparr>operation_type = op, payload = JObj [(''sprint_id'', json_opt JInt sid)], act_issue_id = None\<rparr>"

definition create_sprint_action :: "environment \<Rightarrow> sprint_args \<Rightarrow> int \<Rightarrow> JiraWriteAction" where
  "create_sprint_action E a sprint_end =
     \<lparr>operation_type = ''CREATE_SPRINT'',
      payload = JObj [(''board_id'', json_opt JInt (sa_jira_board_id a)), (''name'', JStr (sa_name a)),
        (''start_date'', JStr (env_iso E (sa_start a))), (''end_date'', JStr (env_iso E sprint_end)),
        (''_sprint_db_id'', json_opt JInt (sa_db_id a))],
      act_issue_id = None\<rparr>"

definition add_to_sprint_action :: "sprint_args \<Rightarrow> IssueSnapshot \<Rightarrow> JiraWriteAction" where
  "add_to_sprint_action a issue =
     \<lparr>operation_type = ''ADD_TO_SPRINT'',
      payload = JObj [(''sprint_id'', json_opt JInt (sa_jira_sprint_id a)),
        (''issue_keys'', JList [json_opt JStr (iss_jira_issue_key issue)])],
      act_issue_id = Some (iss_id issue)\<rparr>"

section \<open>Tick 0: planning\<close>

definition issue_points :: "IssueSnapshot \<Rightarrow> int" where
  "issue_points i = (case iss_story_points i of None \<Rightarrow> 0 | Some p \<Rightarrow> p)"

definition backlog_item :: "IssueSnapshot \<Rightarrow> BacklogItem" where
  "backlog_item i =
     \<lparr>bi_id = iss_id i, bi_story_points = Some (issue_points i),
      bi_backlog_priority = iss_backlog_priority i\<rparr>"

record plan_state =
  ps_issues :: "IssueSnapshot list"
  ps_events :: "ScheduledEventData list"
  ps_committed :: int
  ps_rng :: rng

definition plan_item ::
  "environment \<Rightarrow> sprint_args \<Rightarrow> WorkflowStepSnapshot \<Rightarrow> touch_configs \<Rightarrow> int \<Rightarrow>
   (int, IssueSnapshot) dict \<Rightarrow> BacklogItem \<Rightarrow> plan_state \<Rightarrow> plan_state res" where
  "plan_item E a first_step configs planning_time issue_map sel s =
     (case map_of issue_map (bi_id sel) of
        None \<Rightarrow> Inr s
      | Some found \<Rightarrow>
          (let issue = found\<lparr>iss_sprint_id := sa_db_id a\<rparr> in
           bindR (enter_status (env_libm E) issue first_step
                   (get_touch_time_config configs (ws_id first_step) (iss_issue_type issue)
                     (issue_points issue)) (ps_rng s)) (\<lambda>(issue1, acts, r1).
             let ev1 = add_events 0 planning_time acts (ps_events s);
                 ev2 = (if truthy_str (iss_jira_issue_key issue1) \<and> truthy_int (sa_jira_sprint_id a)
                        then add_event 0 planning_time (add_to_sprint_action a issue1) ev1 else ev1)
             in Inr \<lparr>ps_issues = ps_issues s @ [issue1], ps_events = ev2,
                     ps_committed = ps_committed s + issue_points issue, ps_rng = r1\<rparr>)))"

section \<open>Ticks 1 to N: the active phase\<close>

record tick_state =
  ts_done :: "IssueSnapshot list"
  ts_events :: "ScheduledEventData list"
  ts_members :: member_states
  ts_rng :: rng

definition tick_item ::
  "environment \<Rightarrow> WorkflowStepSnapshot list \<Rightarrow> touch_configs \<Rightarrow> MoveLeftConfigSnapshot list \<Rightarrow>
   py_float \<Rightarrow> nat \<Rightarrow> int \<Rightarrow> IssueSnapshot \<Rightarrow> tick_state \<Rightarrow> tick_state res" where
  "tick_item E steps configs mls tick_hours tick wall issue s =
     (if iss_completed_at issue \<noteq> None then Inr (s\<lparr>ts_done := ts_done s @ [issue]\<rparr>)
      else
        bindR (process_item_tick (env_libm E) issue steps configs mls (ts_members s) tick_hours (ts_rng s))
          (\<lambda>(res, issue1, r1).
            let issue2 = (if tick_completed res
                          then issue1\<lparr>iss_completed_at := Some (Done_At wall),
                                      iss_status := ws_jira_status (last steps)\<rparr>
                          else issue1)
            in Inr (s\<lparr>ts_done := ts_done s @ [issue2],
                      ts_events := add_events tick wall (jira_actions res) (ts_events s),
                      ts_members := tick_member_states res, ts_rng := r1\<rparr>)))"

definition fresh_members :: "MemberSnapshot list \<Rightarrow> member_states" where
  "fresh_members members =
     build_member_states
       (map (\<lambda>m. \<lparr>mi_id = mem_id m, mi_role = mem_role m, mi_assigned_issue_id = None\<rparr>) members)"

definition run_tick ::
  "environment \<Rightarrow> WorkflowStepSnapshot list \<Rightarrow> touch_configs \<Rightarrow> MoveLeftConfigSnapshot list \<Rightarrow>
   MemberSnapshot list \<Rightarrow> py_float \<Rightarrow> nat \<Rightarrow> int \<Rightarrow> IssueSnapshot list \<Rightarrow>
   ScheduledEventData list \<Rightarrow> rng \<Rightarrow> tick_state res" where
  "run_tick E steps configs mls members tick_hours tick wall issues events r =
     foldR (tick_item E steps configs mls tick_hours tick wall) issues
       \<lparr>ts_done = [], ts_events = events, ts_members = fresh_members members, ts_rng = r\<rparr>"

fun run_ticks ::
  "environment \<Rightarrow> sprint_args \<Rightarrow> WorkflowStepSnapshot list \<Rightarrow> touch_configs \<Rightarrow>
   MoveLeftConfigSnapshot list \<Rightarrow> MemberSnapshot list \<Rightarrow> py_float \<Rightarrow> nat \<Rightarrow> int list \<Rightarrow>
   IssueSnapshot list \<Rightarrow> ScheduledEventData list \<Rightarrow> rng \<Rightarrow>
   (IssueSnapshot list \<times> ScheduledEventData list) res" where
  "run_ticks E a steps configs mls members h tick [] issues events r = Inr (issues, events)"
| "run_ticks E a steps configs mls members h tick (wall # walls) issues events r =
     bindR (run_tick E steps configs mls members h tick wall issues events r) (\<lambda>s.
       if \<forall>i \<in> set (ts_done s). iss_completed_at i \<noteq> None
       then Inr (ts_done s,
              if truthy_int (sa_jira_sprint_id a)
              then add_event tick wall (sprint_action ''COMPLETE_SPRINT'' (sa_jira_sprint_id a)) (ts_events s)
              else ts_events s)
       else run_ticks E a steps configs mls members h (Suc tick) walls (ts_done s) (ts_events s) (ts_rng s))"

section \<open>The whole run\<close>

definition empty_result :: "int \<Rightarrow> PrecomputeResult" where
  "empty_result seed =
     \<lparr>pr_events = [], pr_total_ticks = 0, pr_rng_seed = seed, pr_issue_final_states = [],
      pr_committed_points = 0, pr_selected_issue_ids = [], pr_capacity_target = 0\<rparr>"

definition team_hours :: "TeamSnapshot \<Rightarrow> int list \<Rightarrow> work_hours" where
  "team_hours team holidays =
     \<lparr>wh_zone = tm_zone team, wh_start_hour = tm_working_hours_start team,
      wh_end_hour = tm_working_hours_end team, wh_holidays = holidays,
      wh_working_days = DEFAULT_WORKING_DAYS\<rparr>"

definition effective_tick_hours :: "TeamSnapshot \<Rightarrow> py_float" where
  "effective_tick_hours team =
     (if tm_tick_duration_hours team = 0 then 1 else tm_tick_duration_hours team)"

definition plan_phase ::
  "environment \<Rightarrow> TeamSnapshot \<Rightarrow> sprint_args \<Rightarrow> work_hours \<Rightarrow> IssueSnapshot list \<Rightarrow>
   WorkflowStepSnapshot list \<Rightarrow> touch_configs \<Rightarrow> int \<Rightarrow> (plan_state \<times> int) res" where
  "plan_phase E team a w backlog steps configs planning_time =
     bindR (if truthy_int (sa_jira_board_id a)
            then bindR (compute_sprint_end w (sa_start a) (sa_length_days a)) (\<lambda>sprint_end.
                   Inr (add_event 0 planning_time (create_sprint_action E a sprint_end) []))
            else Inr []) (\<lambda>events0.
     bindR (plan_sprint (map backlog_item backlog) (tm_sprint_capacity_min team)
             (tm_sprint_capacity_max team) (tm_priority_randomization team)
             (env_seeded E (sa_rng_seed a))) (\<lambda>(selected, target, r1).
     bindR (foldR (plan_item E a (hd steps) configs planning_time (dict_of iss_id backlog)) selected
             \<lparr>ps_issues = [], ps_events = events0, ps_committed = 0, ps_rng = r1\<rparr>) (\<lambda>s.
       Inr (if truthy_int (sa_jira_sprint_id a)
            then s\<lparr>ps_events := add_event 0 planning_time
                      (sprint_action ''UPDATE_SPRINT'' (sa_jira_sprint_id a)) (ps_events s)\<rparr>
            else s, target))))"

definition close_events ::
  "sprint_args \<Rightarrow> int list \<Rightarrow> ScheduledEventData list \<Rightarrow> ScheduledEventData list" where
  "close_events a tick_times events =
     (if truthy_int (sa_jira_sprint_id a) \<and> tick_times \<noteq> [] \<and>
         \<not> (\<exists>e \<in> set events. event_type e = ''COMPLETE_SPRINT'')
      then add_event (length tick_times - 1) (last tick_times)
             (sprint_action ''COMPLETE_SPRINT'' (sa_jira_sprint_id a)) events
      else events)"

definition run_schedule ::
  "environment \<Rightarrow> TeamSnapshot \<Rightarrow> sprint_args \<Rightarrow> work_hours \<Rightarrow> IssueSnapshot list \<Rightarrow>
   WorkflowStepSnapshot list \<Rightarrow> touch_configs \<Rightarrow> MoveLeftConfigSnapshot list \<Rightarrow>
   MemberSnapshot list \<Rightarrow> int list \<Rightarrow> PrecomputeResult res" where
  "run_schedule E team a w backlog steps configs mls members tick_times =
     (if tick_times = [] then Inr (empty_result (sa_rng_seed a))
      else if steps = [] then Inr (empty_result (sa_rng_seed a))
      else
        bindR (plan_phase E team a w backlog steps configs (hd tick_times)) (\<lambda>(s, target).
        bindR (run_ticks E a steps configs mls members (effective_tick_hours team) 1 (tl tick_times)
                (ps_issues s) (ps_events s) (ps_rng s)) (\<lambda>(issues, events).
          Inr \<lparr>pr_events = close_events a tick_times events, pr_total_ticks = length tick_times,
               pr_rng_seed = sa_rng_seed a, pr_issue_final_states = dict_of iss_id issues,
               pr_committed_points = ps_committed s, pr_selected_issue_ids = map iss_id issues,
               pr_capacity_target = target\<rparr>)))"

definition precompute_sprint ::
  "environment \<Rightarrow> TeamSnapshot \<Rightarrow> IssueSnapshot list \<Rightarrow> WorkflowStepSnapshot list \<Rightarrow> touch_configs \<Rightarrow>
   MoveLeftConfigSnapshot list \<Rightarrow> MemberSnapshot list \<Rightarrow> sprint_args \<Rightarrow> PrecomputeResult res option" where
  "precompute_sprint E team backlog steps configs mls members a =
     (case parse_holidays (env_parse_date E) (tm_holidays team) of
        Inl e \<Rightarrow> Some (Inl e)
      | Inr holidays \<Rightarrow>
          (let w = team_hours team holidays in
           case compute_tick_wall_times w (sa_start a) (sa_length_days a) (effective_tick_hours team) of
             None \<Rightarrow> None
           | Some (Inl e) \<Rightarrow> Some (Inl e)
           | Some (Inr tick_times) \<Rightarrow>
               Some (run_schedule E team a w backlog steps configs mls members tick_times)))"

section \<open>The event ledger\<close>

text \<open>
  Numbered from zero without gaps, in the order of the wall clock and none after \<open>t\<close>; the
  sprint has not been completed yet.
\<close>

definition ledger_ok :: "int \<Rightarrow> ScheduledEventData list \<Rightarrow> bool" where
  "ledger_ok t evs \<longleftrightarrow>
     map sequence_order evs = [0..<length evs] \<and> sorted (map wall_clock_time evs) \<and>
     (\<forall>e \<in> set evs. wall_clock_time e \<le> t \<and> event_type e \<noteq> ''COMPLETE_SPRINT'')"

definition ledger_closed :: "int \<Rightarrow> ScheduledEventData list \<Rightarrow> bool" where
  "ledger_closed t evs \<longleftrightarrow>
     (\<exists>u init e. u \<le> t \<and> evs = init @ [e] \<and> ledger_ok u init \<and> event_type e = ''COMPLETE_SPRINT'' \<and>
        wall_clock_time e = u \<and> sequence_order e = length init)"

lemma ledger_ok_Nil [simp]: "ledger_ok t []"
  by (simp add: ledger_ok_def)

lemma ledger_ok_later: "ledger_ok t evs \<Longrightarrow> t \<le> u \<Longrightarrow> ledger_ok u evs"
  by (auto simp: ledger_ok_def)

lemma ledger_ok_add:
  "ledger_ok t evs \<Longrightarrow> operation_type a \<noteq> ''COMPLETE_SPRINT'' \<Longrightarrow> ledger_ok t (add_event k t a evs)"
  by (auto simp: ledger_ok_def add_event_def sorted_append)

lemma ledger_ok_adds:
  "ledger_ok t evs \<Longrightarrow> \<forall>a \<in> set acts. operation_type a \<noteq> ''COMPLETE_SPRINT'' \<Longrightarrow>
   ledger_ok t (add_events k t acts evs)"
  unfolding add_events_def by (induction acts arbitrary: evs) (auto intro: ledger_ok_add)

lemma ledger_close:
  "ledger_ok t evs \<Longrightarrow> ledger_closed t (add_event k t (sprint_action ''COMPLETE_SPRINT'' sid) evs)"
  by (auto simp: ledger_closed_def add_event_def sprint_action_def)

lemma ledger_closed_later: "ledger_closed t evs \<Longrightarrow> t \<le> u \<Longrightarrow> ledger_closed u evs"
  unfolding ledger_closed_def by (blast intro: order_trans)

lemma ledger_closed_facts:
  assumes "ledger_closed t evs"
  shows "map sequence_order evs = [0..<length evs] \<and> sorted (map wall_clock_time evs) \<and>
    length (filter (\<lambda>e. event_type e = ''COMPLETE_SPRINT'') evs) = 1 \<and>
    event_type (last evs) = ''COMPLETE_SPRINT''"
proof -
  obtain u init e where u: "u \<le> t" "evs = init @ [e]" "ledger_ok u init"
    "event_type e = ''COMPLETE_SPRINT''" "wall_clock_time e = u" "sequence_order e = length init"
    using assms by (auto simp: ledger_closed_def)
  have "filter (\<lambda>e. event_type e = ''COMPLETE_SPRINT'') init = []"
    using u(3) by (auto simp: ledger_ok_def filter_empty_conv)
  then show ?thesis using u by (auto simp: ledger_ok_def sorted_append)
qed

text \<open>The workflow engine reports transitions only.\<close>

lemma enter_status_transitions:
  "enter_status M i st cfg r = Inr (i', acts, r') \<Longrightarrow> \<forall>a \<in> set acts. operation_type a = ''TRANSITION_ISSUE''"
  using enter_status_effect[of M i st cfg r i' acts r'] by (auto simp: transition_action_def)

lemma move_forward_transitions:
  assumes "move_forward M i steps cur configs r = Inr (i', acts, d, r')"
  shows "\<forall>a \<in> set acts. operation_type a = ''TRANSITION_ISSUE''"
proof (cases "next_step steps (ws_order cur)")
  case None
  then show ?thesis using assms by (simp add: move_forward_def)
next
  case (Some n)
  then obtain fin where f: "is_final_step steps cur = Inr fin"
    using assms by (auto simp: move_forward_def Let_def elim: bindR_InrE)
  show ?thesis
  proof (cases fin)
    case True
    then show ?thesis using assms Some f by (simp add: move_forward_def)
  next
    case False
    then obtain i1 acts1 r1 where e: "enter_status M i n
        (get_touch_time_config configs (ws_id n) (iss_issue_type i)
          (case iss_story_points i of None \<Rightarrow> 0 | Some p \<Rightarrow> p)) r = Inr (i1, acts1, r1)"
      using assms Some f by (auto simp: move_forward_def Let_def elim!: bindR_Inr3E)
    then have "acts = acts1"
      using assms Some f False by (auto simp: move_forward_def Let_def elim!: bindR_InrE)
    then show ?thesis using enter_status_transitions[OF e] by simp
  qed
qed

lemma move_left_transitions:
  "move_left M i steps target configs r = Inr (i', acts, d, r') \<Longrightarrow>
   \<forall>a \<in> set acts. operation_type a = ''TRANSITION_ISSUE''"
  by (auto simp: move_left_def Let_def elim!: bindR_Inr3E split: option.splits
      dest!: enter_status_transitions)

lemma process_item_tick_transitions:
  assumes "process_item_tick M i steps configs mls st h r = Inr (res, i', r')"
  shows "\<forall>a \<in> set (jira_actions res). operation_type a = ''TRANSITION_ISSUE''"
  using assms
proof (cases rule: process_item_tick_split)
  case (moves cur i1 st1 r1 i2 st2)
  from moves(5) show ?thesis
  proof (cases rule: execute_transition_split)
    case (1 dir r3)
    then show ?thesis
      by (cases dir) (auto dest: move_forward_transitions move_left_transitions)
  qed
qed simp_all

section \<open>The loops keep the ledger\<close>

lemma plan_item_ledger:
  assumes "plan_item E a st configs t m sel s = Inr s'" and "ledger_ok t (ps_events s)"
  shows "ledger_ok t (ps_events s')"
proof (cases "map_of m (bi_id sel)")
  case None
  then show ?thesis using assms by (simp add: plan_item_def)
next
  case (Some i)
  then obtain i1 acts r1 where e: "enter_status (env_libm E) (i\<lparr>iss_sprint_id := sa_db_id a\<rparr>) st
        (get_touch_time_config configs (ws_id st) (iss_issue_type i) (issue_points i)) (ps_rng s)
        = Inr (i1, acts, r1)"
    using assms(1) by (auto simp: plan_item_def issue_points_def Let_def elim!: bindR_Inr3E)
  have "ledger_ok t (add_events 0 t acts (ps_events s))"
    using assms(2) enter_status_transitions[OF e] by (intro ledger_ok_adds) auto
  then show ?thesis using assms(1) Some e
    by (auto simp: plan_item_def issue_points_def Let_def add_to_sprint_action_def intro!: ledger_ok_add)
qed

lemma tick_item_ledger:
  assumes "tick_item E steps configs mls h k t i s = Inr s'" and "ledger_ok t (ts_events s)"
  shows "ledger_ok t (ts_events s')"
proof (cases "iss_completed_at i \<noteq> None")
  case True
  then show ?thesis using assms by (auto simp: tick_item_def)
next
  case False
  then obtain res i1 r1 where p:
    "process_item_tick (env_libm E) i steps configs mls (ts_members s) h (ts_rng s) = Inr (res, i1, r1)"
    using assms(1) by (auto simp: tick_item_def elim!: bindR_Inr3E)
  have "ledger_ok t (add_events k t (jira_actions res) (ts_events s))"
    using assms(2) process_item_tick_transitions[OF p] by (intro ledger_ok_adds) auto
  then show ?thesis using assms(1) False p by (auto simp: tick_item_def Let_def)
qed

lemma run_tick_ledger:
  assumes "run_tick E steps configs mls members h k t issues evs r = Inr s" and "ledger_ok t evs"
  shows "ledger_ok t (ts_events s)"
  by (rule foldR_invariant[where P = "\<lambda>s. ledger_ok t (ts_events s)", OF assms(1)[unfolded run_tick_def]])
    (use assms(2) in \<open>auto intro: tick_item_ledger\<close>)

lemma run_ticks_ledger:
  assumes "run_ticks E a steps configs mls members h k walls issues evs r = Inr (issues', evs')"
    and "sorted (t # walls)" and "ledger_ok t evs"
  shows "(ledger_ok (last (t # walls)) evs' \<or>
          truthy_int (sa_jira_sprint_id a) \<and> ledger_closed (last (t # walls)) evs')"
  using assms
proof (induction walls arbitrary: k issues evs r t)
  case Nil
  then show ?case by simp
next
  case (Cons wall walls)
  from Cons.prems(1) obtain s where s: "run_tick E steps configs mls members h k wall issues evs r = Inr s"
    by (auto elim: bindR_InrE)
  have tw: "t \<le> wall" "sorted (wall # walls)" using Cons.prems(2) by simp_all
  have le: "wall \<le> last (wall # walls)" using tw(2) by (cases walls) (auto dest: last_in_set)
  have ok: "ledger_ok wall (ts_events s)"
    using run_tick_ledger[OF s] ledger_ok_later[OF Cons.prems(3) tw(1)] by blast
  show ?case
  proof (cases "\<forall>i \<in> set (ts_done s). iss_completed_at i \<noteq> None")
    case True
    then have e: "evs' = (if truthy_int (sa_jira_sprint_id a)
        then add_event k wall (sprint_action ''COMPLETE_SPRINT'' (sa_jira_sprint_id a)) (ts_events s)
        else ts_events s)"
      using Cons.prems(1) s by simp
    then show ?thesis
      using ledger_close[OF ok] ledger_closed_later[OF _ le] ledger_ok_later[OF ok le]
      by (auto split: if_splits)
  next
    case False
    then have "run_ticks E a steps configs mls members h (Suc k) walls (ts_done s) (ts_events s) (ts_rng s)
        = Inr (issues', evs')"
      using Cons.prems(1) s by (simp only: run_ticks.simps bindR_Inr if_False False)
    from Cons.IH[OF this tw(2) ok] show ?thesis by simp
  qed
qed

lemma plan_phase_ledger:
  assumes "plan_phase E team a w backlog steps configs t = Inr (s, target)"
  shows "ledger_ok t (ps_events s)"
proof -
  obtain evs0 where e0: "(if truthy_int (sa_jira_board_id a)
            then bindR (compute_sprint_end w (sa_start a) (sa_length_days a)) (\<lambda>sprint_end.
                   Inr (add_event 0 t (create_sprint_action E a sprint_end) []))
            else Inr []) = Inr evs0" and
    rest: "bindR (plan_sprint (map backlog_item backlog) (tm_sprint_capacity_min team)
             (tm_sprint_capacity_max team) (tm_priority_randomization team)
             (env_seeded E (sa_rng_seed a))) (\<lambda>(selected, target, r1).
     bindR (foldR (plan_item E a (hd steps) configs t (dict_of iss_id backlog)) selected
             \<lparr>ps_issues = [], ps_events = evs0, ps_committed = 0, ps_rng = r1\<rparr>) (\<lambda>s.
       Inr (if truthy_int (sa_jira_sprint_id a)
            then s\<lparr>ps_events := add_event 0 t
                      (sprint_action ''UPDATE_SPRINT'' (sa_jira_sprint_id a)) (ps_events s)\<rparr>
            else s, target))) = Inr (s, target)"
    using assms unfolding plan_phase_def by (rule bindR_InrE)
  have l0: "ledger_ok t evs0"
    using e0 by (auto simp: create_sprint_action_def elim!: bindR_InrE intro!: ledger_ok_add split: if_splits)
  obtain selected tg r1 where f: "bindR (foldR (plan_item E a (hd steps) configs t (dict_of iss_id backlog))
             selected \<lparr>ps_issues = [], ps_events = evs0, ps_committed = 0, ps_rng = r1\<rparr>) (\<lambda>s.
       Inr (if truthy_int (sa_jira_sprint_id a)
            then s\<lparr>ps_events := add_event 0 t
                      (sprint_action ''UPDATE_SPRINT'' (sa_jira_sprint_id a)) (ps_events s)\<rparr>
            else s, tg)) = Inr (s, target)"
    using rest by (rule bindR_Inr3E)
  then obtain s1 where s1: "foldR (plan_item E a (hd steps) configs t (dict_of iss_id backlog))
             selected \<lparr>ps_issues = [], ps_events = evs0, ps_committed = 0, ps_rng = r1\<rparr> = Inr s1"
    by (rule bindR_InrE)
  have "ledger_ok t (ps_events s1)"
    by (rule foldR_invariant[where P = "\<lambda>s. ledger_ok t (ps_events s)", OF s1])
      (auto intro: plan_item_ledger simp: l0)
  then show ?thesis using f s1 by (auto simp: sprint_action_def intro!: ledger_ok_add)
qed

lemma run_schedule_ledger:
  assumes "run_schedule E team a w backlog steps configs mls members ticks = Inr res"
    and "sorted ticks"
  shows "pr_events res = [] \<and> (ticks = [] \<or> steps = []) \<or>
    (if truthy_int (sa_jira_sprint_id a) then ledger_closed (last ticks) (pr_events res)
     else ledger_ok (last ticks) (pr_events res))"
proof (cases "ticks = [] \<or> steps = []")
  case True
  then have "res = empty_result (sa_rng_seed a)"
    using assms(1) by (cases "ticks = []") (simp_all add: run_schedule_def)
  then show ?thesis using True by (simp add: empty_result_def)
next
  case False
  then obtain t walls where ticks: "ticks = t # walls" by (cases ticks) auto
  have "bindR (plan_phase E team a w backlog steps configs t) (\<lambda>(s, target).
        bindR (run_ticks E a steps configs mls members (effective_tick_hours team) 1 walls
                (ps_issues s) (ps_events s) (ps_rng s)) (\<lambda>(issues, events).
          Inr \<lparr>pr_events = close_events a ticks events, pr_total_ticks = length ticks,
               pr_rng_seed = sa_rng_seed a, pr_issue_final_states = dict_of iss_id issues,
               pr_committed_points = ps_committed s, pr_selected_issue_ids = map iss_id issues,
               pr_capacity_target = target\<rparr>)) = Inr res"
    using assms(1) False ticks by (simp add: run_schedule_def)
  then obtain s tg where p: "plan_phase E team a w backlog steps configs t = Inr (s, tg)" and
    q: "bindR (run_ticks E a steps configs mls members (effective_tick_hours team) 1 walls
                (ps_issues s) (ps_events s) (ps_rng s)) (\<lambda>(issues, events).
          Inr \<lparr>pr_events = close_events a ticks events, pr_total_ticks = length ticks,
               pr_rng_seed = sa_rng_seed a, pr_issue_final_states = dict_of iss_id issues,
               pr_committed_points = ps_committed s, pr_selected_issue_ids = map iss_id issues,
               pr_capacity_target = tg\<rparr>) = Inr res"
    by (rule bindR_Inr2E)
  obtain issues evs where r: "run_ticks E a steps configs mls members (effective_tick_hours team) 1 walls
                (ps_issues s) (ps_events s) (ps_rng s) = Inr (issues, evs)"
    and res: "pr_events res = close_events a ticks evs"
    using q by (auto elim!: bindR_Inr2E)
  note led = run_ticks_ledger[OF r, of t] plan_phase_ledger[OF p]
  then have "ledger_ok (last ticks) evs \<or>
      truthy_int (sa_jira_sprint_id a) \<and> ledger_closed (last ticks) evs"
    using assms(2) ticks by blast
  then show ?thesis
  proof
    assume ok: "ledger_ok (last ticks) evs"
    then have "\<not> (\<exists>e \<in> set evs. event_type e = ''COMPLETE_SPRINT'')" by (auto simp: ledger_ok_def)
    then show ?thesis using ok res ticks ledger_close[OF ok] by (auto simp: close_events_def)
  next
    assume c: "truthy_int (sa_jira_sprint_id a) \<and> ledger_closed (last ticks) evs"
    then have "\<exists>e \<in> set evs. event_type e = ''COMPLETE_SPRINT''" by (auto simp: ledger_closed_def)
    then show ?thesis using c res by (auto simp: close_events_def)
  qed
qed

section \<open>A sample run\<close>

definition sample_env :: environment where
  "sample_env = \<lparr>env_libm = sample_libm, env_seeded = (\<lambda>_. sample_rng), env_iso = (\<lambda>_. []),
                 env_parse_date = (\<lambda>_. None)\<rparr>"

definition sample_dev :: MemberSnapshot where
  "sample_dev = \<lparr>mem_id = 1, mem_role = ''dev'', mem_team_id = 1, mem_is_active = True\<rparr>"

definition sample_args :: sprint_args where
  "sample_args = \<lparr>sa_start = 0, sa_length_days = 3, sa_jira_sprint_id = Some 5, sa_jira_board_id = None,
                  sa_name = ''Sprint'', sa_db_id = Some 1, sa_rng_seed = 0\<rparr>"

text \<open>A bug that has no work left in the first column ahead of a story that has five hours.\<close>

definition sample_items :: "IssueSnapshot list" where
  "sample_items =
     [sample_issue 7 ''Bug'', (sample_issue 8 ''Story'')\<lparr>iss_sampled_work_time := 5\<rparr>]"

section \<open>Properties\<close>

lemma tick_schedule_sorted:
  assumes "opens_in_order (wh_zone w) (wh_start_hour w)" and "0 < delta_of_float HOUR_US h"
  shows "\<exists>q. compute_tick_wall_times w s n h = Some q \<and> (\<forall>ticks. q = Inr ticks \<longrightarrow> sorted ticks)"
proof (cases "compute_sprint_end w s n")
  case (Inr e)
  show ?thesis
  proof (cases "next_working_moment w s")
    case (Inr c)
    then show ?thesis using tick_loop_ends[OF assms, of e c "[]"] \<open>compute_sprint_end w s n = Inr e\<close>
      by (fastforce simp: compute_tick_wall_times_def strict_sorted_imp_sorted)
  qed (simp add: compute_tick_wall_times_def Inr)
qed (simp add: compute_tick_wall_times_def)

text \<open>(C30) With a tick that takes time, and in a time zone in which work opens in the order of time (the clock is not turned
  back across the opening hour), pre-computation always ends, and the events it returns are
  numbered from zero without gaps, in the order of the wall clock; when the sprint exists in Jira,
  a non-empty schedule holds exactly one \<open>COMPLETE_SPRINT\<close>, and it is the last event.\<close>

theorem precompute_sprint_events:
  assumes "opens_in_order (tm_zone team) (tm_working_hours_start team)" and "0 < delta_of_float HOUR_US (effective_tick_hours team)"
  shows "\<exists>r. precompute_sprint E team backlog steps configs mls members a = Some r \<and>
    (\<forall>res. r = Inr res \<longrightarrow>
       map sequence_order (pr_events res) = [0..<length (pr_events res)] \<and>
       sorted (map wall_clock_time (pr_events res)) \<and>
       (pr_events res \<noteq> [] \<and> truthy_int (sa_jira_sprint_id a) \<longrightarrow>
          length (filter (\<lambda>e. event_type e = ''COMPLETE_SPRINT'') (pr_events res)) = 1 \<and>
          event_type (last (pr_events res)) = ''COMPLETE_SPRINT''))"
proof (cases "parse_holidays (env_parse_date E) (tm_holidays team)")
  case (Inl e)
  then show ?thesis by (simp add: precompute_sprint_def)
next
  case (Inr holidays)
  let ?w = "team_hours team holidays"
  have z: "opens_in_order (wh_zone ?w) (wh_start_hour ?w)" using assms(1) by (simp add: team_hours_def)
  from tick_schedule_sorted[OF z assms(2)] obtain q where q: "compute_tick_wall_times ?w (sa_start a) (sa_length_days a)
      (effective_tick_hours team) = Some q" and sorted_q: "\<And>ticks. q = Inr ticks \<Longrightarrow> sorted ticks"
    by blast
  show ?thesis
  proof (cases q)
    case (Inl e)
    then show ?thesis using Inr q by (simp add: precompute_sprint_def)
  next
    case (Inr ticks)
    note s = sorted_q[OF this]
    have facts: "map sequence_order (pr_events res) = [0..<length (pr_events res)] \<and>
       sorted (map wall_clock_time (pr_events res)) \<and>
       (pr_events res \<noteq> [] \<and> truthy_int (sa_jira_sprint_id a) \<longrightarrow>
          length (filter (\<lambda>e. event_type e = ''COMPLETE_SPRINT'') (pr_events res)) = 1 \<and>
          event_type (last (pr_events res)) = ''COMPLETE_SPRINT'')"
      if r: "run_schedule E team a ?w backlog steps configs mls members ticks = Inr res" for res
      using run_schedule_ledger[OF r s] ledger_closed_facts[of "last ticks" "pr_events res"]
      by (auto simp: ledger_ok_def split: if_splits)
    show ?thesis using q Inr \<open>parse_holidays _ _ = Inr holidays\<close> facts
      by (simp add: precompute_sprint_def)
  qed
qed

text \<open>One member can work on two items in the same tick: an item that keeps its worker from
  an earlier tick is advanced although the member was just assigned to another item, because every
  tick starts from states in which all members are free.\<close>

theorem run_ticks_double_books:
  "\<exists>a1 b1 ev1 a2 b2 ev2.
    run_ticks sample_env sample_args sample_steps [((20, ''Bug'', 3), sample_work)] []
      [sample_dev] 1 1 [0] sample_items [] sample_rng = Inr ([a1, b1], ev1) \<and>
    run_ticks sample_env sample_args sample_steps [((20, ''Bug'', 3), sample_work)] []
      [sample_dev] 1 1 [0, HOUR_US] sample_items [] sample_rng
      = Inr ([a2, b2], ev2) \<and>
    iss_id a2 \<noteq> iss_id b2 \<and>
    iss_current_worker_id a2 = Some 1 \<and> iss_current_worker_id b2 = Some 1 \<and>
    iss_elapsed_work_time a2 = iss_elapsed_work_time a1 + 1 \<and>
    iss_elapsed_work_time b2 = iss_elapsed_work_time b1 + 1"
  by (simp add: sample_items_def sample_dev_def sample_env_def sample_args_def run_tick_def fresh_members_def
      tick_item_def sample_defs tick_eval Let_def float_simps add_events_def add_event_def)

section \<open>Witness\<close>

definition sample_team :: TeamSnapshot where
  "sample_team =
     \<lparr>tm_id = 1, tm_name = ''T'', tm_jira_project_key = ''P'', tm_jira_board_id = None,
      tm_sprint_length_days = 3, tm_sprint_capacity_min = 3, tm_sprint_capacity_max = 6, tm_priority_randomization = False,
      tm_tick_duration_hours = 1, tm_zone = fixed_zone 0, tm_working_hours_start = 9,
      tm_working_hours_end = 17, tm_holidays = None, tm_sprint_cadence_rule = None,
      tm_sprint_cadence_time = None, tm_sprint_auto_schedule = True\<rparr>"

theorem precompute_sprint_events_witness:
  "\<exists>r. precompute_sprint sample_env sample_team sample_items sample_steps [] []
      [sample_dev] sample_args = Some r"
proof -
  have "delta_of_float HOUR_US 1 = HOUR_US" using delta_of_int[of HOUR_US 1] by simp
  then have "0 < delta_of_float HOUR_US (effective_tick_hours sample_team)"
    by (simp add: effective_tick_hours_def sample_team_def HOUR_US_def)
  moreover have "opens_in_order (tm_zone sample_team) (tm_working_hours_start sample_team)" by (simp add: sample_team_def)
  ultimately show ?thesis using precompute_sprint_events by blast
qed

end
