(* ===== verification/Live_Slice.thy ===== *)
theory Live_Slice
  imports Prelude "HOL-Library.Word"
begin

text \<open>
  The contracts of one live slice (\<open>v2/domain/live_slice.py\<close>, \<open>v2/domain/team_runtime.py\<close>): drafts
  of activity events, ground-truth records and projection intents, the checks their constructors
  run, and the commit command. Datetimes are aware instants, so the checks that refuse naive
  values have nothing to do; payloads are decoded JSON. Canonical JSON text, SHA-256, UUIDv5
  and HMAC are the fields of a \<open>codec\<close>.
\<close>

type_synonym uuid = nat
type_synonym instant = int

record codec =
  cd_encode :: "json \<Rightarrow> string"
  cd_decode :: "string \<Rightarrow> json option"
  cd_sha :: "string \<Rightarrow> string"
  cd_uuid5 :: "string \<Rightarrow> uuid"
  cd_hmac :: "string \<Rightarrow> string \<Rightarrow> 256 word"

definition canonical_sha256 :: "codec \<Rightarrow> json \<Rightarrow> string" where
  "canonical_sha256 c j = cd_sha c (cd_encode c j)"

definition semantic_uuid :: "codec \<Rightarrow> string \<Rightarrow> uuid" where
  "semantic_uuid c path = cd_uuid5 c path"

section \<open>Field checks\<close>

text \<open>The characters \<open>str.strip\<close> removes, among the first 256 code points.\<close>

definition is_space :: "char \<Rightarrow> bool" where
  "is_space ch \<longleftrightarrow>
     (let k = (of_char ch :: nat) in 9 \<le> k \<and> k \<le> 13 \<or> 28 \<le> k \<and> k \<le> 32 \<or> k = 133 \<or> k = 160)"

definition blank :: "string \<Rightarrow> bool" where
  "blank s \<longleftrightarrow> (\<forall>ch \<in> set s. is_space ch)"

definition non_empty :: "string \<Rightarrow> string \<Rightarrow> string res" where
  "non_empty value field_name =
     (if blank value then Inl (Value_Error (field_name @ '' must be a non-empty string'')) else Inr value)"

definition non_negative :: "int \<Rightarrow> string \<Rightarrow> int res" where
  "non_negative value field_name =
     (if value < 0 then Inl (Value_Error (field_name @ '' must be a non-negative integer'')) else Inr value)"

definition canonical_document :: "codec \<Rightarrow> string \<Rightarrow> json res" where
  "canonical_document c encoded =
     (case cd_decode c encoded of
        None \<Rightarrow> Inl (Value_Error ''canonical_payload must contain valid JSON'')
      | Some document \<Rightarrow>
          if cd_encode c document \<noteq> encoded
          then Inl (Value_Error ''canonical_payload must use canonical JSON encoding'')
          else Inr document)"

section \<open>Envelopes and details\<close>

record DraftEnvelope =
  de_semantic_key :: string
  de_schema_version :: string
  de_occurred_at :: instant
  de_payload :: json
  de_supplied_id :: "uuid option"
  de_supplied_payload_sha256 :: "string option"

definition check_envelope :: "DraftEnvelope \<Rightarrow> unit res" where
  "check_envelope e =
     bindR (non_empty (de_semantic_key e) ''semantic key'') (\<lambda>_.
     bindR (non_empty (de_schema_version e) ''schema version'') (\<lambda>_. Inr ()))"

definition envelope_canonical :: "codec \<Rightarrow> DraftEnvelope \<Rightarrow> string \<times> string" where
  "envelope_canonical c e = (cd_encode c (de_payload e), canonical_sha256 c (de_payload e))"

record ActivityDetails =
  ad_event_type :: string
  ad_aggregate_type :: string
  ad_aggregate_id :: uuid
  ad_aggregate_version :: int

definition check_activity_details :: "ActivityDetails \<Rightarrow> unit res" where
  "check_activity_details d =
     bindR (non_empty (ad_event_type d) ''event type'') (\<lambda>_.
     bindR (non_empty (ad_aggregate_type d) ''aggregate type'') (\<lambda>_.
     bindR (non_negative (ad_aggregate_version d) ''aggregate_version'') (\<lambda>_. Inr ())))"

record GroundTruthDetails =
  gt_record_type :: string
  gt_provenance_type :: string

definition check_ground_truth_details :: "GroundTruthDetails \<Rightarrow> unit res" where
  "check_ground_truth_details d =
     bindR (non_empty (gt_record_type d) ''record type'') (\<lambda>_.
     bindR (non_empty (gt_provenance_type d) ''provenance type'') (\<lambda>_. Inr ()))"

record ProjectionDetails =
  pd_target_kind :: string
  pd_operation_type :: string
  pd_aggregate_id :: uuid
  pd_aggregate_version :: int
  pd_status :: string

definition check_projection_details :: "ProjectionDetails \<Rightarrow> unit res" where
  "check_projection_details d =
     bindR (non_empty (pd_target_kind d) ''target kind'') (\<lambda>_.
     bindR (non_empty (pd_operation_type d) ''operation type'') (\<lambda>_.
     bindR (non_negative (pd_aggregate_version d) ''aggregate_version'') (\<lambda>_.
       guardR (pd_status d = ''PENDING'') (Value_Error ''projection status must be PENDING''))))"

section \<open>Drafts\<close>

text \<open>
  The three drafts share their envelope and differ in the details. \<open>deduplication_content\<close> is
  everything but the identifier and the semantic key.
\<close>

record 'd draft =
  dr_id :: uuid
  dr_semantic_key :: string
  dr_schema_version :: string
  dr_occurred_at :: instant
  dr_canonical_payload :: string
  dr_payload_sha256 :: string
  dr_details :: 'd

type_synonym ActivityEventDraft = "ActivityDetails draft"
type_synonym GroundTruthRecordDraft = "GroundTruthDetails draft"
type_synonym ProjectionIntentDraft = "ProjectionDetails draft"

definition deduplication_content ::
  "'d draft \<Rightarrow> string \<times> instant \<times> string \<times> string \<times> 'd" where
  "deduplication_content d =
     (dr_schema_version d, dr_occurred_at d, dr_canonical_payload d, dr_payload_sha256 d, dr_details d)"

definition draft_identity :: "codec \<Rightarrow> string \<Rightarrow> DraftEnvelope \<Rightarrow> (uuid \<times> string \<times> string) res" where
  "draft_identity c path e =
     (let identifier = semantic_uuid c (path @ ''/'' @ de_semantic_key e);
          (payload, digest) = envelope_canonical c e
      in if de_supplied_id e \<noteq> None \<and> de_supplied_id e \<noteq> Some identifier
         then Inl (Value_Error ''supplied identifier does not match semantic key'')
         else if de_supplied_payload_sha256 e \<noteq> None \<and> de_supplied_payload_sha256 e \<noteq> Some digest
         then Inl (Value_Error ''supplied payload hash does not match canonical payload'')
         else Inr (identifier, payload, digest))"

definition validate_draft_envelope :: "codec \<Rightarrow> string \<Rightarrow> 'd draft \<Rightarrow> unit res" where
  "validate_draft_envelope c path d =
     bindR (non_empty (dr_semantic_key d) ''semantic key'') (\<lambda>key.
     bindR (non_empty (dr_schema_version d) ''schema version'') (\<lambda>_.
     bindR (canonical_document c (dr_canonical_payload d)) (\<lambda>document.
     bindR (guardR (dr_payload_sha256 d = canonical_sha256 c document)
              (Value_Error ''payload hash does not match canonical payload'')) (\<lambda>_.
       guardR (dr_id d = semantic_uuid c (path @ ''/'' @ key))
         (Value_Error ''identifier does not match semantic key'')))))"

definition validate_draft ::
  "codec \<Rightarrow> string \<Rightarrow> ('d \<Rightarrow> unit res) \<Rightarrow> 'd draft \<Rightarrow> unit res" where
  "validate_draft c path check d =
     bindR (validate_draft_envelope c path d) (\<lambda>_. check (dr_details d))"

abbreviation validate_activity :: "codec \<Rightarrow> ActivityEventDraft \<Rightarrow> unit res" where
  "validate_activity c \<equiv> validate_draft c ''activity'' check_activity_details"

abbreviation validate_ground_truth :: "codec \<Rightarrow> GroundTruthRecordDraft \<Rightarrow> unit res" where
  "validate_ground_truth c \<equiv> validate_draft c ''ground-truth'' check_ground_truth_details"

abbreviation validate_projection :: "codec \<Rightarrow> ProjectionIntentDraft \<Rightarrow> unit res" where
  "validate_projection c \<equiv> validate_draft c ''projection'' check_projection_details"

text \<open>\<open>create\<close>: the identity, then the checks of the constructor.\<close>

definition create_draft ::
  "codec \<Rightarrow> string \<Rightarrow> ('d \<Rightarrow> unit res) \<Rightarrow> DraftEnvelope \<Rightarrow> 'd \<Rightarrow> 'd draft res" where
  "create_draft c path check e details =
     bindR (draft_identity c path e) (\<lambda>(identifier, payload, digest).
       let d = \<lparr>dr_id = identifier, dr_semantic_key = de_semantic_key e,
                dr_schema_version = de_schema_version e, dr_occurred_at = de_occurred_at e,
                dr_canonical_payload = payload, dr_payload_sha256 = digest, dr_details = details\<rparr>
       in bindR (validate_draft c path check d) (\<lambda>_. Inr d))"

section \<open>The commit command\<close>

record RuntimeAdvance =
  ra_state :: string
  ra_simulation_time :: instant
  ra_next_wake_at :: "instant option"

definition check_runtime_advance :: "RuntimeAdvance \<Rightarrow> unit res" where
  "check_runtime_advance r = bindR (non_empty (ra_state r) ''runtime state'') (\<lambda>_. Inr ())"

text \<open>Drafts of one command may repeat a semantic key only with the same content.\<close>

fun validate_drafts ::
  "('d draft \<Rightarrow> unit res) \<Rightarrow> string \<Rightarrow> 'd draft list \<Rightarrow>
   (string, string \<times> instant \<times> string \<times> string \<times> 'd) dict \<Rightarrow> unit res" where
  "validate_drafts check field_name [] seen = Inr ()"
| "validate_drafts check field_name (d # ds) seen =
     bindR (check d) (\<lambda>_.
       if map_of seen (dr_semantic_key d) \<noteq> None \<and>
          map_of seen (dr_semantic_key d) \<noteq> Some (deduplication_content d)
       then Inl (Value_Error (''duplicate semantic key has conflicting '' @ field_name @ '' content''))
       else validate_drafts check field_name ds
              (dict_set (dr_semantic_key d) (deduplication_content d) seen))"

record TickSliceCommit =
  tc_commit_id :: uuid
  tc_team_id :: uuid
  tc_run_id :: uuid
  tc_expected_runtime_version :: int
  tc_runtime_after :: RuntimeAdvance
  tc_activity :: "ActivityEventDraft list"
  tc_ground_truth :: "GroundTruthRecordDraft list"
  tc_projection_intents :: "ProjectionIntentDraft list"
  tc_recorded_at :: instant

definition validate_commit :: "codec \<Rightarrow> TickSliceCommit \<Rightarrow> unit res" where
  "validate_commit c k =
     bindR (non_negative (tc_expected_runtime_version k) ''expected_runtime_version'') (\<lambda>_.
     bindR (check_runtime_advance (tc_runtime_after k)) (\<lambda>_.
     bindR (validate_drafts (validate_activity c) ''activity'' (tc_activity k) []) (\<lambda>_.
     bindR (validate_drafts (validate_ground_truth c) ''ground truth'' (tc_ground_truth k) []) (\<lambda>_.
       validate_drafts (validate_projection c) ''projection intents'' (tc_projection_intents k) []))))"

section \<open>Stored records, pages and the runtime\<close>

text \<open>A committed record is its draft with the coordinates the store adds.\<close>

record 'd stored =
  st_draft :: "'d draft"
  st_append_sequence :: nat
  st_team_id :: uuid
  st_run_id :: uuid
  st_commit_id :: uuid
  st_transaction_sequence :: nat
  st_recorded_at :: instant

type_synonym ActivityEvent = "ActivityDetails stored"
type_synonym GroundTruthRecord = "GroundTruthDetails stored"
type_synonym ProjectionIntent = "ProjectionDetails stored"

definition MAX_PAGE_SIZE :: int where "MAX_PAGE_SIZE = 100"

record LedgerPageQuery =
  lq_team_id :: uuid
  lq_run_id :: "uuid option"
  lq_after_sequence :: "int option"
  lq_limit :: int

definition validate_page_query :: "LedgerPageQuery \<Rightarrow> unit res" where
  "validate_page_query q =
     bindR (case lq_after_sequence q of None \<Rightarrow> Inr 0 | Some s \<Rightarrow> non_negative s ''after_sequence'')
       (\<lambda>_. guardR (1 \<le> lq_limit q \<and> lq_limit q \<le> MAX_PAGE_SIZE)
              (Value_Error ''limit must be between 1 and 100''))"

record 'd page =
  pg_items :: "'d stored list"
  pg_next_cursor :: "nat option"

record TeamRuntime =
  rt_id :: uuid
  rt_team_id :: uuid
  rt_run_id :: uuid
  rt_version :: int
  rt_state :: string
  rt_simulation_time :: instant
  rt_next_wake_at :: "instant option"
  rt_created_at :: instant
  rt_updated_at :: instant

record CommittedTickSlice =
  cs_runtime :: TeamRuntime
  cs_activity :: "ActivityEvent list"
  cs_ground_truth :: "GroundTruthRecord list"
  cs_projection_intents :: "ProjectionIntent list"

section \<open>What a valid draft is\<close>

text \<open>The identifier and the digest are functions of the key and the payload.\<close>

definition draft_coherent :: "codec \<Rightarrow> string \<Rightarrow> 'd draft \<Rightarrow> bool" where
  "draft_coherent c path d \<longleftrightarrow>
     \<not> blank (dr_semantic_key d) \<and> dr_id d = semantic_uuid c (path @ ''/'' @ dr_semantic_key d) \<and>
     (\<exists>j. dr_canonical_payload d = cd_encode c j \<and> dr_payload_sha256 d = canonical_sha256 c j)"

lemma validate_draft_coherent:
  "validate_draft c path check d = Inr () \<Longrightarrow> draft_coherent c path d \<and> check (dr_details d) = Inr ()"
  unfolding validate_draft_def validate_draft_envelope_def
  by (elim bindR_InrE)
    (auto simp: draft_coherent_def non_empty_def canonical_document_def res_simps
      split: if_splits option.splits, metis)

lemma validate_draft_unit: "validate_draft c path check d = Inr u \<Longrightarrow> validate_draft c path check d = Inr ()"
  by simp

text \<open>After the check, equal keys in one command mean equal content.\<close>

lemma validate_drafts_unique:
  assumes "validate_drafts check f ds seen = Inr ()"
  shows "(\<forall>d \<in> set ds. check d = Inr () \<and>
      (\<forall>x. map_of seen (dr_semantic_key d) = Some x \<longrightarrow> x = deduplication_content d)) \<and>
    (\<forall>d \<in> set ds. \<forall>e \<in> set ds. dr_semantic_key d = dr_semantic_key e \<longrightarrow>
       deduplication_content d = deduplication_content e)"
  using assms
proof (induction ds arbitrary: seen)
  case Nil
  then show ?case by simp
next
  case (Cons d ds)
  from Cons.prems obtain u where u: "check d = Inr u" and
    r: "(if map_of seen (dr_semantic_key d) \<noteq> None \<and>
          map_of seen (dr_semantic_key d) \<noteq> Some (deduplication_content d)
       then Inl (Value_Error (''duplicate semantic key has conflicting '' @ f @ '' content''))
       else validate_drafts check f ds (dict_set (dr_semantic_key d) (deduplication_content d) seen))
       = Inr ()"
    by (auto elim: bindR_InrE)
  have old: "\<forall>x. map_of seen (dr_semantic_key d) = Some x \<longrightarrow> x = deduplication_content d"
    using r by (auto split: if_splits)
  have "validate_drafts check f ds (dict_set (dr_semantic_key d) (deduplication_content d) seen) = Inr ()"
    using r by (simp split: if_splits)
  note ih = Cons.IH[OF this]
  have head: "deduplication_content d = deduplication_content e"
    if "e \<in> set ds" "dr_semantic_key e = dr_semantic_key d" for e
  proof -
    have "\<forall>x. map_of (dict_set (dr_semantic_key d) (deduplication_content d) seen) (dr_semantic_key e)
        = Some x \<longrightarrow> x = deduplication_content e" using ih that(1) by blast
    then show ?thesis unfolding that(2) by (simp add: map_of_dict_set)
  qed
  have tail: "x = deduplication_content e"
    if "e \<in> set ds" "map_of seen (dr_semantic_key e) = Some x" for e x
  proof (cases "dr_semantic_key e = dr_semantic_key d")
    case True
    then show ?thesis using that(2) old head[OF that(1) True] by simp
  next
    case False
    have "\<forall>x. map_of (dict_set (dr_semantic_key d) (deduplication_content d) seen) (dr_semantic_key e)
        = Some x \<longrightarrow> x = deduplication_content e" using ih that(1) by blast
    then show ?thesis using that(2) False by (simp add: map_of_dict_set)
  qed
  have "\<forall>e \<in> set (d # ds). check e = Inr () \<and>
      (\<forall>x. map_of seen (dr_semantic_key e) = Some x \<longrightarrow> x = deduplication_content e)"
  proof
    fix e assume "e \<in> set (d # ds)"
    then consider "e = d" | "e \<in> set ds" by auto
    then show "check e = Inr () \<and>
        (\<forall>x. map_of seen (dr_semantic_key e) = Some x \<longrightarrow> x = deduplication_content e)"
    proof cases
      case 1
      then show ?thesis using u old by simp
    next
      case 2
      then show ?thesis using ih tail by blast
    qed
  qed
  moreover have "deduplication_content a = deduplication_content b"
    if m: "a \<in> set (d # ds)" "b \<in> set (d # ds)" "dr_semantic_key a = dr_semantic_key b" for a b
  proof -
    consider "a = d" "b = d" | "a = d" "b \<in> set ds" | "a \<in> set ds" "b = d" | "a \<in> set ds" "b \<in> set ds"
      using m(1,2) by auto
    then show ?thesis
    proof cases
      case 2
      then show ?thesis using head[of b] m(3) by simp
    next
      case 3
      then show ?thesis using head[of a] m(3) by simp
    next
      case 4
      then show ?thesis using ih m(3) by blast
    qed simp
  qed
  ultimately show ?case by blast
qed

section \<open>A small codec\<close>

text \<open>One document, whose text is its own digest: enough to run the checks on examples.\<close>

definition toy_codec :: codec where
  "toy_codec = \<lparr>cd_encode = (\<lambda>_. ''{}''), cd_decode = (\<lambda>s. if s = ''{}'' then Some (JObj []) else None),
                cd_sha = (\<lambda>s. s), cd_uuid5 = (\<lambda>s. size s), cd_hmac = (\<lambda>_ _. 0)\<rparr>"

lemmas codec_eval = toy_codec_def validate_draft_def validate_draft_envelope_def
  canonical_document_def canonical_sha256_def semantic_uuid_def non_empty_def non_negative_def
  blank_def is_space_def check_projection_details_def

end
