(* ===== verification/Jira_Delivery.thy ===== *)
theory Jira_Delivery
  imports Live_Slice Py_Time
begin

text \<open>
  The contracts of Jira delivery (\<open>v2/domain/jira_delivery.py\<close>): what a store hands to the worker
  and what the worker hands back, with the checks their constructors run.
\<close>

section \<open>Contracts\<close>

record JiraResourceMapping =
  rm_team_id :: uuid
  rm_internal_kind :: string
  rm_internal_id :: uuid
  rm_jira_id :: string
  rm_jira_key :: "string option"

definition check_resource_mapping :: "JiraResourceMapping \<Rightarrow> unit res" where
  "check_resource_mapping m =
     bindR (non_empty (rm_internal_kind m) ''internal_kind'') (\<lambda>_.
     bindR (non_empty (rm_jira_id m) ''jira_id'') (\<lambda>_.
       case rm_jira_key m of
         None \<Rightarrow> Inr ()
       | Some key \<Rightarrow> guardR (\<not> blank key) (Value_Error ''jira_key must be null or a non-empty string'')))"

record PendingJiraIntent =
  pj_intent :: ProjectionIntent
  pj_dependency_keys :: "string list"
  pj_attempts :: int

definition check_pending_intent :: "PendingJiraIntent \<Rightarrow> unit res" where
  "check_pending_intent p =
     (if pj_attempts p < 0 then Inl (Value_Error ''attempts must be non-negative'')
      else guardR (\<forall>key \<in> set (pj_dependency_keys p). \<not> blank key)
             (Value_Error ''dependency keys must be non-empty strings''))"

record JiraDeliverySuccess =
  sx_intent_id :: uuid
  sx_mappings :: "JiraResourceMapping list"
  sx_delivered_at :: instant

record JiraDeliveryFailure =
  fx_intent_id :: uuid
  fx_retry_at :: instant
  fx_error :: string
  fx_failed_at :: instant

definition check_failure :: "JiraDeliveryFailure \<Rightarrow> unit res" where
  "check_failure f = guardR (\<not> blank (fx_error f)) (Value_Error ''error must be a non-empty string'')"

record DeliveryBatchResult =
  br_attempted :: int
  br_delivered :: int
  br_deferred :: int
  br_failed :: int

abbreviation intent_id :: "PendingJiraIntent \<Rightarrow> uuid" where
  "intent_id p \<equiv> dr_id (st_draft (pj_intent p))"

end
