(* ===== verification/Delivery_Worker.thy ===== *)
theory Delivery_Worker
  imports Jira_Delivery
begin

text \<open>
  The delivery worker (\<open>v2/application/jira_delivery.py\<close>) over an arbitrary store and adapter, the
  two protocols it is written against. The adapter talks to the outside world: it takes and
  returns a state \<open>'w\<close> of its own. An exception that escapes leaves the tables as the last
  completed transaction wrote them, so every step returns the store beside its result.
\<close>

section \<open>The protocols\<close>

record 's delivery_store =
  sto_pending :: "instant \<Rightarrow> int \<Rightarrow> 's \<Rightarrow> PendingJiraIntent list res"
  sto_success :: "JiraDeliverySuccess \<Rightarrow> 's \<Rightarrow> 's res"
  sto_failure :: "JiraDeliveryFailure \<Rightarrow> 's \<Rightarrow> 's res"

datatype adapter_error =
    Rate_Limited py_float string   \<comment> \<open>the retry time in seconds and the message\<close>
  | Provider_Error string
  | Other_Error py_exc

type_synonym 'w adapter = "PendingJiraIntent \<Rightarrow> 'w \<Rightarrow> (adapter_error + JiraDeliverySuccess) \<times> 'w"

definition BASE_RETRY_SECONDS :: int where "BASE_RETRY_SECONDS = 10"
definition MAX_RETRY_SECONDS :: int where "MAX_RETRY_SECONDS = 300"

definition retry_delay :: "int \<Rightarrow> int" where
  "retry_delay attempts = min (BASE_RETRY_SECONDS * 2 ^ nat attempts) MAX_RETRY_SECONDS"

section \<open>One intent\<close>

definition record_worker_failure ::
  "'s delivery_store \<Rightarrow> PendingJiraIntent \<Rightarrow> instant res \<Rightarrow> string \<Rightarrow> instant \<Rightarrow> 's \<Rightarrow> 's \<times> bool res" where
  "record_worker_failure S item retry_at error failed_at s =
     (case bindR retry_at (\<lambda>t.
         let f = \<lparr>fx_intent_id = intent_id item, fx_retry_at = t, fx_error = error,
                  fx_failed_at = failed_at\<rparr>
         in bindR (check_failure f) (\<lambda>_. sto_failure S f s)) of
        Inl e \<Rightarrow> (s, Inl e)
      | Inr s' \<Rightarrow> (s', Inr False))"

definition deliver_one ::
  "'s delivery_store \<Rightarrow> 'w adapter \<Rightarrow> PendingJiraIntent \<Rightarrow> instant \<Rightarrow> 's \<Rightarrow> 'w \<Rightarrow> ('s \<times> bool res) \<times> 'w" where
  "deliver_one S deliver item as_of s w =
     (let (outcome, w') = deliver item w;
          provider = (\<lambda>message. record_worker_failure S item
             (instant_add as_of (retry_delay (pj_attempts item) * 1000000)) message as_of s)
      in (case outcome of
            Inr success \<Rightarrow>
              if sx_intent_id success \<noteq> intent_id item
              then provider ''adapter returned the wrong intent identifier''
              else (case sto_success S success s of
                      Inl e \<Rightarrow> (s, Inl e)
                    | Inr s' \<Rightarrow> (s', Inr True))
          | Inl (Rate_Limited seconds message) \<Rightarrow>
              record_worker_failure S item
                (instant_add as_of (delta_of_float 1000000 (max 0 seconds))) message as_of s
          | Inl (Provider_Error message) \<Rightarrow> provider message
          | Inl (Other_Error e) \<Rightarrow> (s, Inl e), w'))"

section \<open>The loop\<close>

record ('s, 'w) drain_state =
  dn_store :: 's
  dn_world :: 'w
  dn_attempted :: int
  dn_delivered :: int
  dn_failed :: int
  dn_processed :: "uuid set"

fun deliver_batch ::
  "'s delivery_store \<Rightarrow> 'w adapter \<Rightarrow> instant \<Rightarrow> PendingJiraIntent list \<Rightarrow>
   ('s, 'w) drain_state \<Rightarrow> ('s, 'w) drain_state \<times> unit res" where
  "deliver_batch S deliver as_of [] d = (d, Inr ())"
| "deliver_batch S deliver as_of (item # items) d =
     (let ((s', r), w') = deliver_one S deliver item as_of (dn_store d) (dn_world d);
          d1 = d\<lparr>dn_store := s', dn_world := w', dn_attempted := dn_attempted d + 1,
                 dn_processed := insert (intent_id item) (dn_processed d)\<rparr>
      in case r of
           Inl e \<Rightarrow> (d1, Inl e)
         | Inr ok \<Rightarrow>
             deliver_batch S deliver as_of items
               (if ok then d1\<lparr>dn_delivered := dn_delivered d1 + 1\<rparr>
                else d1\<lparr>dn_failed := dn_failed d1 + 1\<rparr>))"

definition fresh_pending ::
  "'s delivery_store \<Rightarrow> instant \<Rightarrow> int \<Rightarrow> ('s, 'w) drain_state \<Rightarrow> PendingJiraIntent list res" where
  "fresh_pending S as_of limit d =
     bindR (sto_pending S as_of (limit - dn_attempted d) (dn_store d)) (\<lambda>items.
       Inr (filter (\<lambda>i. intent_id i \<notin> dn_processed d) items))"

lemma deliver_batch_attempted:
  "deliver_batch S deliver as_of items d = (d', Inr u) \<Longrightarrow>
   dn_attempted d' = dn_attempted d + int (length items)"
proof (induction items arbitrary: d)
  case (Cons item items)
  obtain s' r w' where o: "deliver_one S deliver item as_of (dn_store d) (dn_world d) = ((s', r), w')"
    by (metis prod.exhaust)
  then obtain ok where r: "r = Inr ok" using Cons.prems by (cases r) (auto simp: Let_def)
  show ?case using Cons.IH Cons.prems o r by (fastforce simp: Let_def split: if_splits)
qed simp

function drain_loop ::
  "'s delivery_store \<Rightarrow> 'w adapter \<Rightarrow> instant \<Rightarrow> int \<Rightarrow>
   ('s, 'w) drain_state \<Rightarrow> ('s, 'w) drain_state \<times> unit res" where
  "drain_loop S deliver as_of limit d =
     (if limit \<le> dn_attempted d then (d, Inr ())
      else case fresh_pending S as_of limit d of
        Inl e \<Rightarrow> (d, Inl e)
      | Inr [] \<Rightarrow> (d, Inr ())
      | Inr (item # items) \<Rightarrow>
          (case deliver_batch S deliver as_of (item # items) d of
             (d', Inl e) \<Rightarrow> (d', Inl e)
           | (d', Inr _) \<Rightarrow> drain_loop S deliver as_of limit d'))"
  by pat_completeness auto
termination
  by (relation "measure (\<lambda>(S, deliver, as_of, limit, d). nat (limit - dn_attempted d))")
    (auto simp del: deliver_batch.simps dest!: deliver_batch_attempted[OF sym])

declare drain_loop.simps [simp del]

definition drain_start :: "'s \<Rightarrow> 'w \<Rightarrow> ('s, 'w) drain_state" where
  "drain_start s w =
     \<lparr>dn_store = s, dn_world = w, dn_attempted = 0, dn_delivered = 0, dn_failed = 0, dn_processed = {}\<rparr>"

definition drain_once ::
  "'s delivery_store \<Rightarrow> 'w adapter \<Rightarrow> instant \<Rightarrow> int \<Rightarrow> 's \<Rightarrow> 'w \<Rightarrow>
   's \<times> 'w \<times> DeliveryBatchResult res" where
  "drain_once S deliver as_of limit s w =
     (case drain_loop S deliver as_of limit (drain_start s w) of
        (d, Inl e) \<Rightarrow> (dn_store d, dn_world d, Inl e)
      | (d, Inr _) \<Rightarrow>
          (dn_store d, dn_world d,
           Inr \<lparr>br_attempted = dn_attempted d, br_delivered = dn_delivered d, br_deferred = 0,
                br_failed = dn_failed d\<rparr>))"

section \<open>What the worker relies on\<close>

text \<open>
  \<open>delivered\<close> are the identifiers with a final receipt, \<open>ok\<close> is the store's own invariant and
  \<open>eligible\<close> says that an intent may be delivered now.
\<close>

locale delivery_protocol =
  fixes S :: "'s delivery_store"
    and delivered :: "'s \<Rightarrow> uuid set"
    and ok :: "'s \<Rightarrow> bool"
    and eligible :: "'s \<Rightarrow> uuid \<Rightarrow> bool"
  assumes pending_law: "ok s \<Longrightarrow> sto_pending S t n s = Inr ps \<Longrightarrow>
      int (length ps) \<le> n \<and> distinct (map intent_id ps) \<and> (\<forall>p \<in> set ps. eligible s (intent_id p))"
    and fresh_law: "ok s \<Longrightarrow> eligible s x \<Longrightarrow> x \<notin> delivered s"
    and success_law: "ok s \<Longrightarrow> eligible s (sx_intent_id r) \<Longrightarrow> sto_success S r s = Inr s' \<Longrightarrow>
      ok s' \<and> delivered s' = insert (sx_intent_id r) (delivered s) \<and>
      (\<forall>x. eligible s x \<and> x \<noteq> sx_intent_id r \<longrightarrow> eligible s' x)"
    and failure_law: "ok s \<Longrightarrow> sto_failure S f s = Inr s' \<Longrightarrow>
      ok s' \<and> delivered s' = delivered s \<and> (\<forall>x. eligible s x \<longrightarrow> eligible s' x)"
begin

lemma failure_step:
  assumes "ok s" and "record_worker_failure S item retry_at message t s = (s', r)"
  shows "ok s' \<and> delivered s' = delivered s \<and> (\<forall>x. eligible s x \<longrightarrow> eligible s' x) \<and> r \<noteq> Inr True"
proof (cases "bindR retry_at (\<lambda>u.
         let f = \<lparr>fx_intent_id = intent_id item, fx_retry_at = u, fx_error = message, fx_failed_at = t\<rparr>
         in bindR (check_failure f) (\<lambda>_. sto_failure S f s))")
  case (Inl e)
  then show ?thesis using assms by (auto simp: record_worker_failure_def)
next
  case (Inr u)
  then obtain f where "sto_failure S f s = Inr u" by (auto simp: Let_def elim!: bindR_InrE)
  then show ?thesis using failure_law[OF assms(1)] assms(2) Inr by (auto simp: record_worker_failure_def)
qed

lemma one_step:
  assumes "ok s" and "eligible s (intent_id item)"
    and "deliver_one S deliver item t s w = ((s', r), w')"
  shows "ok s' \<and> (\<forall>x. eligible s x \<and> x \<noteq> intent_id item \<longrightarrow> eligible s' x) \<and>
    delivered s' = (if r = Inr True then insert (intent_id item) (delivered s) else delivered s)"
proof -
  obtain outcome w1 where o: "deliver item w = (outcome, w1)" by fastforce
  show ?thesis
  proof (cases outcome)
    case (Inl err)
    then show ?thesis using assms o
      by (cases err) (auto simp: deliver_one_def Let_def dest!: failure_step[OF assms(1)])
  next
    case (Inr success)
    show ?thesis
    proof (cases "sx_intent_id success = intent_id item")
      case False
      then show ?thesis using assms o Inr
        by (auto simp: deliver_one_def Let_def dest!: failure_step[OF assms(1)])
    next
      case True
      show ?thesis
      proof (cases "sto_success S success s")
        case (Inl e)
        then show ?thesis using assms o Inr True by (auto simp: deliver_one_def Let_def)
      next
        case (Inr s1)
        have "s' = s1" "r = Inr True"
          using assms(3) o \<open>outcome = Inr success\<close> True Inr by (simp_all add: deliver_one_def Let_def)
        then show ?thesis using success_law[OF assms(1) _ Inr] assms(2) True by auto
      qed
    qed
  qed
qed

definition drained :: "'s \<Rightarrow> ('s, 'w) drain_state \<Rightarrow> bool" where
  "drained s d \<longleftrightarrow> ok (dn_store d) \<and>
     (\<exists>D. finite D \<and> D \<inter> delivered s = {} \<and> delivered (dn_store d) = delivered s \<union> D \<and>
        int (card D) = dn_delivered d) \<and>
     dn_attempted d = dn_delivered d + dn_failed d \<and>
     finite (dn_processed d) \<and> int (card (dn_processed d)) = dn_attempted d"

definition kept :: "'s \<Rightarrow> ('s, 'w) drain_state \<Rightarrow> bool" where
  "kept s d \<longleftrightarrow> ok (dn_store d) \<and> delivered s \<subseteq> delivered (dn_store d)"

lemma drained_kept: "drained s d \<Longrightarrow> kept s d"
  by (auto simp: drained_def kept_def)

lemma batch_step:
  assumes "drained s d" and "distinct (map intent_id items)"
    and "\<forall>p \<in> set items. eligible (dn_store d) (intent_id p) \<and> intent_id p \<notin> dn_processed d"
    and "deliver_batch S deliver t items d = (d', r)"
  shows "kept s d' \<and> (r = Inr () \<longrightarrow> drained s d')"
  using assms
proof (induction items arbitrary: d)
  case Nil
  then show ?case by (auto intro: drained_kept)
next
  case (Cons item items)
  let ?k = "intent_id item"
  obtain s1 x w1 where o: "deliver_one S deliver item t (dn_store d) (dn_world d) = ((s1, x), w1)"
    by (metis prod.exhaust)
  define d1 where "d1 = d\<lparr>dn_store := s1, dn_world := w1, dn_attempted := dn_attempted d + 1,
    dn_processed := insert ?k (dn_processed d)\<rparr>"
  have ok: "ok (dn_store d)" and el: "eligible (dn_store d) ?k"
    using Cons.prems(1,3) by (auto simp: drained_def)
  note step = one_step[OF ok el o]
  have kept1: "kept s d1" using step drained_kept[OF Cons.prems(1)] by (auto simp: kept_def d1_def)
  have rest: "eligible s1 (intent_id p) \<and> intent_id p \<notin> insert ?k (dn_processed d)"
    if p: "p \<in> set items" for p
  proof -
    have "intent_id p \<in> intent_id ` set items" using p by simp
    then have "intent_id p \<noteq> ?k" using Cons.prems(2) by fastforce
    then show ?thesis using Cons.prems(3) p step by simp
  qed
  show ?case
  proof (cases x)
    case (Inl e)
    then show ?thesis using Cons.prems(4) o kept1 by (auto simp: Let_def d1_def)
  next
    case (Inr b)
    define d2 where "d2 = (if b then d1\<lparr>dn_delivered := dn_delivered d1 + 1\<rparr>
                           else d1\<lparr>dn_failed := dn_failed d1 + 1\<rparr>)"
    obtain D where D: "finite D" "D \<inter> delivered s = {}" "delivered (dn_store d) = delivered s \<union> D"
      "int (card D) = dn_delivered d" using Cons.prems(1) by (auto simp: drained_def)
    have new: "?k \<notin> delivered s \<union> D" using fresh_law[OF ok el] D(3) by simp
    have "\<exists>D. finite D \<and> D \<inter> delivered s = {} \<and> delivered s1 = delivered s \<union> D \<and>
        int (card D) = dn_delivered d2"
    proof (cases b)
      case True
      then show ?thesis using D new step Inr
        by (intro exI[of _ "insert ?k D"]) (auto simp: d2_def d1_def)
    next
      case False
      then show ?thesis using D step Inr by (intro exI[of _ D]) (auto simp: d2_def d1_def)
    qed
    moreover have "finite (dn_processed d2)" "int (card (dn_processed d2)) = dn_attempted d2"
      "dn_attempted d2 = dn_delivered d2 + dn_failed d2" "dn_store d2 = s1"
      using Cons.prems(1,3) by (simp_all add: drained_def d2_def d1_def)
    ultimately have "drained s d2" using step unfolding drained_def by simp
    moreover have "\<forall>p \<in> set items. eligible (dn_store d2) (intent_id p) \<and> intent_id p \<notin> dn_processed d2"
      using rest by (simp add: d2_def d1_def)
    moreover have "deliver_batch S deliver t items d2 = (d', r)"
      using Cons.prems(4) o Inr by (cases b) (simp_all add: Let_def d2_def d1_def)
    ultimately show ?thesis using Cons.IH Cons.prems(2) by simp
  qed
qed


lemma pending_step:
  assumes "ok (dn_store d)" and "fresh_pending S t limit d = Inr items"
  shows "int (length items) \<le> limit - dn_attempted d \<and> distinct (map intent_id items) \<and>
    (\<forall>p \<in> set items. eligible (dn_store d) (intent_id p) \<and> intent_id p \<notin> dn_processed d)"
proof -
  obtain ps where ps: "sto_pending S t (limit - dn_attempted d) (dn_store d) = Inr ps"
    "items = filter (\<lambda>i. intent_id i \<notin> dn_processed d) ps"
    using assms(2) by (auto simp: fresh_pending_def elim!: bindR_InrE)
  note law = pending_law[OF assms(1) ps(1)]
  have "length items \<le> length ps" using ps(2) by simp
  then have "int (length items) \<le> limit - dn_attempted d" using law by linarith
  then show ?thesis using law ps(2) by (auto simp: distinct_map_filter_key)
qed

lemma loop_step:
  assumes "drained s d" and "drain_loop S deliver t limit d = (d', r)"
  shows "kept s d' \<and> (r = Inr () \<longrightarrow> drained s d') \<and>
    (r = Inr () \<and> dn_attempted d \<le> limit \<longrightarrow> dn_attempted d' \<le> limit)"
  using assms
proof (induction "nat (limit - dn_attempted d)" arbitrary: d rule: less_induct)
  case less
  show ?case
  proof (cases "limit \<le> dn_attempted d")
    case True
    then show ?thesis using less.prems
      by (subst (asm) drain_loop.simps) (auto intro: drained_kept)
  next
    case False
    show ?thesis
    proof (cases "fresh_pending S t limit d")
      case (Inl e)
      then show ?thesis using less.prems False
        by (subst (asm) drain_loop.simps) (auto intro: drained_kept)
    next
      case (Inr items)
      show ?thesis
      proof (cases items)
        case Nil
        then show ?thesis using less.prems False Inr
          by (subst (asm) drain_loop.simps) (auto intro: drained_kept)
      next
        case (Cons item rest)
        obtain d1 r1 where b: "deliver_batch S deliver t items d = (d1, r1)" by fastforce
        have "ok (dn_store d)" using less.prems(1) by (simp add: drained_def)
        note p = pending_step[OF this Inr]
        note batch = batch_step[OF less.prems(1) conjunct1[OF conjunct2[OF p]] conjunct2[OF conjunct2[OF p]] b]
        show ?thesis
        proof (cases r1)
          case (Inl e)
          then show ?thesis using less.prems False \<open>fresh_pending S t limit d = Inr items\<close> Cons b batch
            by (subst (asm) drain_loop.simps) (auto simp del: deliver_batch.simps)
        next
          case (Inr u)
          then have "drain_loop S deliver t limit d1 = (d', r)"
            using less.prems False \<open>fresh_pending S t limit d = Inr items\<close> Cons b
            by (subst (asm) drain_loop.simps) (auto simp del: deliver_batch.simps)
          moreover have "drained s d1" using batch Inr by simp
          moreover have n: "dn_attempted d1 = dn_attempted d + int (length items)"
            using deliver_batch_attempted[of S deliver t items d d1] b Inr by simp
          then have "nat (limit - dn_attempted d1) < nat (limit - dn_attempted d)"
            using False Cons by simp
          ultimately show ?thesis using less.hyps[of d1] n p by simp
        qed
      qed
    qed
  qed
qed

lemma drain_step:
  assumes "ok s" and "drain_once S deliver t limit s w = (s', w', r)"
  shows "ok s' \<and> delivered s \<subseteq> delivered s' \<and>
    (\<forall>b. r = Inr b \<longrightarrow> br_attempted b = br_delivered b + br_failed b \<and>
       (0 \<le> limit \<longrightarrow> br_attempted b \<le> limit) \<and>
       finite (delivered s' - delivered s) \<and>
       br_delivered b = int (card (delivered s' - delivered s)))"
proof -
  obtain d x where l: "drain_loop S deliver t limit (drain_start s w) = (d, x)" by fastforce
  have "drained s (drain_start s w)"
    using assms(1) unfolding drained_def drain_start_def by (intro conjI exI[of _ "{}"]) simp_all
  note step = loop_step[OF this l]
  show ?thesis
  proof (cases x)
    case (Inl e)
    then show ?thesis using assms(2) l step by (auto simp: drain_once_def kept_def)
  next
    case (Inr u)
    then have eq: "s' = dn_store d" "r = Inr \<lparr>br_attempted = dn_attempted d,
        br_delivered = dn_delivered d, br_deferred = 0, br_failed = dn_failed d\<rparr>"
      using assms(2) l by (auto simp: drain_once_def)
    have d: "drained s d" and lim: "0 \<le> limit \<Longrightarrow> dn_attempted d \<le> limit"
      using step Inr by (auto simp: drain_start_def)
    obtain D where D: "finite D" "D \<inter> delivered s = {}" "delivered s' = delivered s \<union> D"
      "int (card D) = dn_delivered d" using d eq(1) by (auto simp: drained_def)
    have diff: "delivered s' - delivered s = D" using D(2,3) by blast
    have "ok s'" "delivered s \<subseteq> delivered s'" "dn_attempted d = dn_delivered d + dn_failed d"
      using d D(3) by (auto simp: drained_def eq(1))
    then show ?thesis unfolding diff eq(2) using D(1,4) lim by simp
  qed
qed

end

end
