(* ===== verification/Delivery_Store.thy ===== *)
theory Delivery_Store
  imports Delivery_Worker
begin

text \<open>
  The persistent store of delivery receipts and resource mappings
  (\<open>v2/persistence/jira_delivery_store.py\<close>). A transaction is one function: it returns the new
  tables, or an exception with nothing changed. At the end the store is shown to keep the
  promises the worker relies on.
\<close>

section \<open>The tables\<close>

datatype receipt_state = RETRYABLE | DELIVERED

record receipt =
  rc_state :: receipt_state
  rc_attempts :: int
  rc_next_attempt_at :: "instant option"
  rc_last_attempt_at :: instant
  rc_delivered_at :: "instant option"
  rc_last_error :: "string option"

type_synonym mapping_key = "uuid \<times> string \<times> uuid"

record delivery_db =
  db_intents :: "ProjectionIntent list"
  db_receipts :: "(uuid, receipt) dict"
  db_mappings :: "(mapping_key, string \<times> string option) dict"

definition MAX_PENDING_LIMIT :: int where "MAX_PENDING_LIMIT = 50"

definition receipt_of :: "delivery_db \<Rightarrow> ProjectionIntent \<Rightarrow> receipt option" where
  "receipt_of db i = map_of (db_receipts db) (dr_id (st_draft i))"

definition outstanding :: "delivery_db \<Rightarrow> ProjectionIntent \<Rightarrow> bool" where
  "outstanding db i \<longleftrightarrow> (case receipt_of db i of None \<Rightarrow> True | Some r \<Rightarrow> rc_state r \<noteq> DELIVERED)"

text \<open>The first row of every team in append order, by a loop of \<open>setdefault\<close>.\<close>

definition first_outstanding_by_team :: "delivery_db \<Rightarrow> ProjectionIntent list" where
  "first_outstanding_by_team db =
     map snd (fold (\<lambda>i. dict_setdefault (st_team_id i) i)
       (sort_key st_append_sequence (filter (outstanding db) (db_intents db))) [])"

definition due :: "receipt option \<Rightarrow> instant \<Rightarrow> bool" where
  "due r as_of \<longleftrightarrow>
     (case r of
        None \<Rightarrow> True
      | Some r \<Rightarrow> rc_state r = RETRYABLE \<and>
          (case rc_next_attempt_at r of None \<Rightarrow> False | Some t \<Rightarrow> t \<le> as_of))"

fun strings_of :: "json list \<Rightarrow> string list option" where
  "strings_of [] = Some []"
| "strings_of (JStr s # js) = map_option ((#) s) (strings_of js)"
| "strings_of (_ # js) = None"

definition dependency_keys :: "codec \<Rightarrow> string \<Rightarrow> string list res" where
  "dependency_keys c payload =
     (let bad = Inl (Value_Error ''depends_on must be a list of semantic-key strings'') in
      case cd_decode c payload of
        None \<Rightarrow> Inl (Value_Error ''invalid JSON'')
      | Some (JObj kvs) \<Rightarrow>
          (case map_of kvs ''depends_on'' of
             None \<Rightarrow> Inr []
           | Some (JList js) \<Rightarrow> (case strings_of js of None \<Rightarrow> bad | Some ss \<Rightarrow> Inr ss)
           | Some _ \<Rightarrow> bad)
      | Some _ \<Rightarrow> Inl (Type_Error ''document has no attribute get''))"

definition delivered_keys :: "delivery_db \<Rightarrow> string set" where
  "delivered_keys db =
     (\<lambda>i. dr_semantic_key (st_draft i)) ` {i \<in> set (db_intents db). \<not> outstanding db i}"

definition dependencies_delivered :: "codec \<Rightarrow> delivery_db \<Rightarrow> ProjectionIntent \<Rightarrow> bool res" where
  "dependencies_delivered c db i =
     bindR (dependency_keys c (dr_canonical_payload (st_draft i))) (\<lambda>deps.
       Inr (delivered_keys db \<inter> set deps = set deps))"

definition pending_intent :: "codec \<Rightarrow> delivery_db \<Rightarrow> ProjectionIntent \<Rightarrow> PendingJiraIntent res" where
  "pending_intent c db i =
     bindR (validate_projection c (st_draft i)) (\<lambda>_.
     bindR (dependency_keys c (dr_canonical_payload (st_draft i))) (\<lambda>deps.
       let p = \<lparr>pj_intent = i, pj_dependency_keys = deps,
                pj_attempts = (case receipt_of db i of None \<Rightarrow> 0 | Some r \<Rightarrow> rc_attempts r)\<rparr>
       in bindR (check_pending_intent p) (\<lambda>_. Inr p)))"

definition pending :: "codec \<Rightarrow> instant \<Rightarrow> int \<Rightarrow> delivery_db \<Rightarrow> PendingJiraIntent list res" where
  "pending c as_of limit db =
     (if \<not> (1 \<le> limit \<and> limit \<le> MAX_PENDING_LIMIT)
      then Inl (Value_Error ''limit must be between 1 and 50'')
      else
        bindR (filterR (\<lambda>i. if due (receipt_of db i) as_of then dependencies_delivered c db i else Inr False)
                 (first_outstanding_by_team db)) (\<lambda>ready.
          mapR (pending_intent c db) (take (nat limit) ready)))"

section \<open>Recording outcomes\<close>

definition require_intent :: "delivery_db \<Rightarrow> uuid \<Rightarrow> unit res" where
  "require_intent db k =
     guardR (k \<in> (\<lambda>i. dr_id (st_draft i)) ` set (db_intents db))
       (Lookup_Error ''projection intent not found'')"

text \<open>The table refuses two internal resources with one Jira id, or with one Jira key.\<close>

definition mapping_collides :: "delivery_db \<Rightarrow> JiraResourceMapping \<Rightarrow> bool" where
  "mapping_collides db m \<longleftrightarrow>
     (\<exists>((team, kind, _), (jid, jkey)) \<in> set (db_mappings db).
        team = rm_team_id m \<and> kind = rm_internal_kind m \<and>
        (jid = rm_jira_id m \<or> jkey \<noteq> None \<and> jkey = rm_jira_key m))"

definition ensure_mapping :: "JiraResourceMapping \<Rightarrow> delivery_db \<Rightarrow> delivery_db res" where
  "ensure_mapping m db =
     (let key = (rm_team_id m, rm_internal_kind m, rm_internal_id m) in
      case map_of (db_mappings db) key of
        None \<Rightarrow>
          if mapping_collides db m then Inl Integrity_Error
          else Inr (db\<lparr>db_mappings := dict_set key (rm_jira_id m, rm_jira_key m) (db_mappings db)\<rparr>)
      | Some existing \<Rightarrow>
          if existing \<noteq> (rm_jira_id m, rm_jira_key m)
          then Inl (Value_Error ''resource mapping conflicts with its persisted Jira identity'')
          else Inr db)"

definition delivered_receipt :: "JiraDeliverySuccess \<Rightarrow> receipt" where
  "delivered_receipt r =
     \<lparr>rc_state = DELIVERED, rc_attempts = 1, rc_next_attempt_at = None,
      rc_last_attempt_at = sx_delivered_at r, rc_delivered_at = Some (sx_delivered_at r),
      rc_last_error = None\<rparr>"

definition retryable_receipt :: "JiraDeliveryFailure \<Rightarrow> receipt" where
  "retryable_receipt f =
     \<lparr>rc_state = RETRYABLE, rc_attempts = 1, rc_next_attempt_at = Some (fx_retry_at f),
      rc_last_attempt_at = fx_failed_at f, rc_delivered_at = None, rc_last_error = Some (fx_error f)\<rparr>"

definition record_success :: "JiraDeliverySuccess \<Rightarrow> delivery_db \<Rightarrow> delivery_db res" where
  "record_success r db =
     bindR (require_intent db (sx_intent_id r)) (\<lambda>_.
     bindR (foldR ensure_mapping (sx_mappings r) db) (\<lambda>db1.
       case map_of (db_receipts db1) (sx_intent_id r) of
         None \<Rightarrow> Inr (db1\<lparr>db_receipts := dict_set (sx_intent_id r) (delivered_receipt r) (db_receipts db1)\<rparr>)
       | Some rc \<Rightarrow>
           if rc_state rc \<noteq> DELIVERED then
             Inr (db1\<lparr>db_receipts := dict_set (sx_intent_id r)
               (rc\<lparr>rc_state := DELIVERED, rc_attempts := rc_attempts rc + 1, rc_next_attempt_at := None,
                   rc_last_attempt_at := sx_delivered_at r, rc_delivered_at := Some (sx_delivered_at r),
                   rc_last_error := None\<rparr>) (db_receipts db1)\<rparr>)
           else Inr db1))"

definition record_failure :: "JiraDeliveryFailure \<Rightarrow> delivery_db \<Rightarrow> delivery_db res" where
  "record_failure f db =
     bindR (require_intent db (fx_intent_id f)) (\<lambda>_.
       case map_of (db_receipts db) (fx_intent_id f) of
         None \<Rightarrow> Inr (db\<lparr>db_receipts := dict_set (fx_intent_id f) (retryable_receipt f) (db_receipts db)\<rparr>)
       | Some rc \<Rightarrow>
           if rc_state rc = DELIVERED then Inr db
           else Inr (db\<lparr>db_receipts := dict_set (fx_intent_id f)
             (rc\<lparr>rc_attempts := rc_attempts rc + 1, rc_next_attempt_at := Some (fx_retry_at f),
                 rc_last_attempt_at := fx_failed_at f, rc_last_error := Some (fx_error f)\<rparr>)
             (db_receipts db)\<rparr>))"

definition find_mapping :: "delivery_db \<Rightarrow> uuid \<Rightarrow> string \<Rightarrow> uuid \<Rightarrow> JiraResourceMapping option res" where
  "find_mapping db team kind internal =
     (case map_of (db_mappings db) (team, kind, internal) of
        None \<Rightarrow> Inr None
      | Some (jid, jkey) \<Rightarrow>
          (let m = \<lparr>rm_team_id = team, rm_internal_kind = kind, rm_internal_id = internal,
                    rm_jira_id = jid, rm_jira_key = jkey\<rparr>
           in bindR (check_resource_mapping m) (\<lambda>_. Inr (Some m))))"

section \<open>The promises of the store\<close>

definition sql_store :: "codec \<Rightarrow> delivery_db delivery_store" where
  "sql_store c =
     \<lparr>sto_pending = pending c, sto_success = record_success, sto_failure = record_failure\<rparr>"

definition delivered_ids :: "delivery_db \<Rightarrow> uuid set" where
  "delivered_ids db = {k. \<exists>r. map_of (db_receipts db) k = Some r \<and> rc_state r = DELIVERED}"

text \<open>\<open>i\<close> comes before \<open>j\<close> in the queue of one team.\<close>

definition earlier :: "ProjectionIntent \<Rightarrow> ProjectionIntent \<Rightarrow> bool" where
  "earlier i j \<longleftrightarrow> st_team_id i = st_team_id j \<and> st_append_sequence i < st_append_sequence j"

definition satisfied :: "codec \<Rightarrow> delivery_db \<Rightarrow> ProjectionIntent \<Rightarrow> bool" where
  "satisfied c db i \<longleftrightarrow>
     (\<exists>deps. dependency_keys c (dr_canonical_payload (st_draft i)) = Inr deps \<and>
        set deps \<subseteq> delivered_keys db)"

text \<open>
  The invariant: the primary keys are unique, the delivered intents of a team are a prefix of its
  queue, and what a delivered intent depends on has been delivered.
\<close>

definition store_ok :: "codec \<Rightarrow> delivery_db \<Rightarrow> bool" where
  "store_ok c db \<longleftrightarrow>
     distinct (map (\<lambda>i. dr_id (st_draft i)) (db_intents db)) \<and>
     distinct (map st_append_sequence (db_intents db)) \<and>
     (\<forall>j \<in> set (db_intents db). \<not> outstanding db j \<longrightarrow>
        satisfied c db j \<and> (\<forall>i \<in> set (db_intents db). earlier i j \<longrightarrow> \<not> outstanding db i))"

definition eligible :: "codec \<Rightarrow> delivery_db \<Rightarrow> uuid \<Rightarrow> bool" where
  "eligible c db k \<longleftrightarrow>
     (\<exists>j \<in> set (db_intents db). dr_id (st_draft j) = k \<and> outstanding db j \<and> satisfied c db j \<and>
        (\<forall>i \<in> set (db_intents db). earlier i j \<longrightarrow> \<not> outstanding db i))"

lemma outstanding_iff: "outstanding db i \<longleftrightarrow> dr_id (st_draft i) \<notin> delivered_ids db"
  by (auto simp: outstanding_def receipt_of_def delivered_ids_def split: option.splits)

lemma sorted_find_first:
  assumes "sorted (map f xs)" and "List.find P xs = Some x" and "y \<in> set xs" and "P y"
  shows "f x \<le> (f y :: nat)"
  using assms by (induction xs) (auto split: if_splits)

lemma first_outstanding:
  assumes "i \<in> set (first_outstanding_by_team db)"
  shows "i \<in> set (db_intents db) \<and> outstanding db i \<and>
    (\<forall>j \<in> set (db_intents db). earlier j i \<longrightarrow> \<not> outstanding db j)"
proof -
  define rows where "rows = sort_key st_append_sequence (filter (outstanding db) (db_intents db))"
  define d where "d = fold (\<lambda>i. dict_setdefault (st_team_id i) i) rows []"
  obtain t where "(t, i) \<in> set d"
    using assms by (auto simp: first_outstanding_by_team_def d_def rows_def)
  moreover have "distinct (map fst d)" unfolding d_def by (rule distinct_fold_setdefault) simp
  ultimately have "map_of d t = Some i" by simp
  then have f: "List.find (\<lambda>x. st_team_id x = t) rows = Some i"
    by (simp add: d_def map_of_fold_setdefault)
  then have i: "i \<in> set rows" "st_team_id i = t" by (auto dest: find_SomeD)
  have "st_append_sequence i \<le> st_append_sequence j" if "j \<in> set rows" "st_team_id j = t" for j
    using sorted_find_first[OF _ f that(1)] that(2) by (simp add: rows_def)
  then show ?thesis using i by (force simp: rows_def earlier_def)
qed

lemma distinct_first_teams: "distinct (map st_team_id (first_outstanding_by_team db))"
proof -
  define d where "d = fold (\<lambda>i. dict_setdefault (st_team_id i) i)
    (sort_key st_append_sequence (filter (outstanding db) (db_intents db))) []"
  have d: "distinct (map fst d)" unfolding d_def by (rule distinct_fold_setdefault) simp
  have "st_team_id i = t" if "(t, i) \<in> set d" for t i
  proof -
    have "map_of d t = Some i" using that d by simp
    then show ?thesis by (auto simp: d_def map_of_fold_setdefault dest: find_SomeD)
  qed
  then have e: "map (st_team_id \<circ> snd) d = map fst d" by (intro map_cong) auto
  show ?thesis unfolding first_outstanding_by_team_def d_def[symmetric] map_map e by (rule d)
qed

lemma pending_Inr:
  assumes "pending c t n db = Inr ps"
  obtains ready where
    "ready = filter (\<lambda>i. due (receipt_of db i) t \<and> satisfied c db i) (first_outstanding_by_team db)"
    "map pj_intent ps = take (nat n) ready" "1 \<le> n" "n \<le> 50"
proof -
  let ?p = "\<lambda>i. if due (receipt_of db i) t then dependencies_delivered c db i else Inr False"
  have n: "1 \<le> n" "n \<le> 50" using assms by (auto simp: pending_def MAX_PENDING_LIMIT_def split: if_splits)
  obtain ready where r: "filterR ?p (first_outstanding_by_team db) = Inr ready"
    "mapR (pending_intent c db) (take (nat n) ready) = Inr ps"
    using assms by (auto simp: pending_def split: if_splits elim: bindR_InrE)
  have "?p i = Inr True \<longleftrightarrow> due (receipt_of db i) t \<and> satisfied c db i" for i
    by (auto simp: dependencies_delivered_def satisfied_def res_simps)
  then have e: "ready = filter (\<lambda>i. due (receipt_of db i) t \<and> satisfied c db i) (first_outstanding_by_team db)"
    using filterR_Inr[OF r(1)] by simp
  have "pj_intent p = i" if "pending_intent c db i = Inr p" for i p
    using that by (auto simp: pending_intent_def Let_def elim!: bindR_InrE)
  with r(2)[unfolded mapR_eq_Inr_iff]
  have "list_all2 (\<lambda>i p. pj_intent p = i) (take (nat n) ready) ps" by (rule list_all2_mono)
  then have "map pj_intent ps = take (nat n) ready"
    by (induction rule: list_all2_induct) auto
  then show ?thesis using that e n by blast
qed

lemma pending_promise:
  assumes "store_ok c db" and "pending c t n db = Inr ps"
  shows "int (length ps) \<le> n \<and> distinct (map intent_id ps) \<and> (\<forall>p \<in> set ps. eligible c db (intent_id p))"
proof -
  obtain ready where r:
    "ready = filter (\<lambda>i. due (receipt_of db i) t \<and> satisfied c db i) (first_outstanding_by_team db)"
    "map pj_intent ps = take (nat n) ready" "1 \<le> n" using pending_Inr[OF assms(2)] by metis
  have "length ps = length (take (nat n) ready)" using arg_cong[OF r(2), of length] by simp
  then have len: "int (length ps) \<le> n" using r(3) by simp
  have mem: "i \<in> set (db_intents db) \<and> outstanding db i \<and> satisfied c db i \<and>
      (\<forall>j \<in> set (db_intents db). earlier j i \<longrightarrow> \<not> outstanding db j)"
    if "i \<in> set (map pj_intent ps)" for i
  proof -
    have "i \<in> set ready" using that unfolding r(2) by (rule in_set_takeD)
    then show ?thesis using first_outstanding[of i db] r(1) by auto
  qed
  have "distinct (map st_team_id ready)"
    unfolding r(1) by (rule distinct_map_filter_key[OF distinct_first_teams])
  then have "distinct (map st_team_id (map pj_intent ps))"
    unfolding r(2) by (simp add: take_map[symmetric])
  then have "distinct (map pj_intent ps)" by (rule distinct_map[THEN iffD1, THEN conjunct1])
  moreover have "inj_on (\<lambda>i. dr_id (st_draft i)) (set (map pj_intent ps))"
  proof (rule inj_on_subset)
    show "inj_on (\<lambda>i. dr_id (st_draft i)) (set (db_intents db))"
      using assms(1) by (simp add: store_ok_def distinct_map)
    show "set (map pj_intent ps) \<subseteq> set (db_intents db)" using mem by blast
  qed
  ultimately have "distinct (map (\<lambda>i. dr_id (st_draft i)) (map pj_intent ps))"
    by (subst distinct_map) blast
  then have "distinct (map intent_id ps)" by (simp add: comp_def)
  moreover have "eligible c db (intent_id p)" if "p \<in> set ps" for p
    using mem[of "pj_intent p"] that unfolding eligible_def by (intro bexI[of _ "pj_intent p"]) auto
  ultimately show ?thesis using len by blast
qed

lemma ensure_mapping_frame:
  "ensure_mapping m db = Inr db' \<Longrightarrow> db_intents db' = db_intents db \<and> db_receipts db' = db_receipts db"
  by (auto simp: ensure_mapping_def Let_def split: option.splits if_splits)

lemma ensure_mappings_frame:
  assumes "foldR ensure_mapping ms db = Inr db'"
  shows "db_intents db' = db_intents db \<and> db_receipts db' = db_receipts db"
  by (rule foldR_invariant[where P = "\<lambda>d. db_intents d = db_intents db \<and> db_receipts d = db_receipts db",
        OF assms]) (auto dest: ensure_mapping_frame)

lemma record_success_effect:
  assumes "record_success r db = Inr db'"
  shows "db_intents db' = db_intents db \<and>
    delivered_ids db' = insert (sx_intent_id r) (delivered_ids db) \<and>
    (\<forall>k. k \<noteq> sx_intent_id r \<longrightarrow> map_of (db_receipts db') k = map_of (db_receipts db) k)"
proof -
  obtain db1 where d: "foldR ensure_mapping (sx_mappings r) db = Inr db1"
    using assms unfolding record_success_def by (elim bindR_InrE) blast
  show ?thesis using assms d ensure_mappings_frame[OF d]
    by (auto simp: record_success_def delivered_ids_def dict_simps delivered_receipt_def
        elim!: bindR_InrE split: option.splits if_splits)
qed

lemma record_failure_effect:
  assumes "record_failure f db = Inr db'"
  shows "db_intents db' = db_intents db \<and> delivered_ids db' = delivered_ids db"
  using assms
  by (auto simp: record_failure_def delivered_ids_def dict_simps retryable_receipt_def
      elim!: bindR_InrE split: option.splits if_splits)

text \<open>A step that leaves the intents alone and only adds delivered identifiers.\<close>

lemma satisfied_mono:
  assumes "satisfied c db i" and "db_intents db' = db_intents db"
    and "delivered_ids db \<subseteq> delivered_ids db'"
  shows "satisfied c db' i"
proof -
  have "delivered_keys db \<subseteq> delivered_keys db'"
    using assms(2,3) by (auto simp: delivered_keys_def outstanding_iff)
  then show ?thesis using assms(1) by (auto simp: satisfied_def)
qed

lemma eligible_kept:
  assumes "store_ok c db" and "eligible c db x" and "x \<notin> delivered_ids db'"
    and "db_intents db' = db_intents db" and "delivered_ids db \<subseteq> delivered_ids db'"
  shows "eligible c db' x"
proof -
  obtain j where j: "j \<in> set (db_intents db)" "dr_id (st_draft j) = x" "satisfied c db j"
    "\<forall>i \<in> set (db_intents db). earlier i j \<longrightarrow> \<not> outstanding db i"
    using assms(2) by (auto simp: eligible_def)
  have "satisfied c db' j" by (rule satisfied_mono[OF j(3) assms(4,5)])
  moreover have "\<not> outstanding db' i" if "i \<in> set (db_intents db)" "earlier i j" for i
    using j(4) that assms(5) by (auto simp: outstanding_iff)
  ultimately show ?thesis using j(1,2) assms(3,4) by (auto simp: eligible_def outstanding_iff)
qed

lemma success_promise:
  assumes "store_ok c db" and "eligible c db (sx_intent_id r)" and "record_success r db = Inr db'"
  shows "store_ok c db' \<and> delivered_ids db' = insert (sx_intent_id r) (delivered_ids db) \<and>
    (\<forall>x. eligible c db x \<and> x \<noteq> sx_intent_id r \<longrightarrow> eligible c db' x)"
proof -
  let ?k = "sx_intent_id r"
  note eff = record_success_effect[OF assms(3)]
  then have same: "db_intents db' = db_intents db"
    and new: "delivered_ids db' = insert ?k (delivered_ids db)"
    and mono: "delivered_ids db \<subseteq> delivered_ids db'" by auto
  obtain e where e: "e \<in> set (db_intents db)" "dr_id (st_draft e) = ?k" "satisfied c db e"
    "\<forall>i \<in> set (db_intents db). earlier i e \<longrightarrow> \<not> outstanding db i"
    using assms(2) by (auto simp: eligible_def)
  have keys: "j = e" if "j \<in> set (db_intents db)" "dr_id (st_draft j) = ?k" for j
  proof (rule inj_onD[of "\<lambda>i. dr_id (st_draft i)"])
    show "inj_on (\<lambda>i. dr_id (st_draft i)) (set (db_intents db))"
      using assms(1) by (simp add: store_ok_def distinct_map)
  qed (use that e(1,2) in simp_all)
  have out: "outstanding db' i \<longleftrightarrow> outstanding db i \<and> dr_id (st_draft i) \<noteq> ?k" for i
    by (auto simp: outstanding_iff new)
  have "satisfied c db' j \<and> (\<forall>i \<in> set (db_intents db). earlier i j \<longrightarrow> \<not> outstanding db' i)"
    if j: "j \<in> set (db_intents db)" "\<not> outstanding db' j" for j
  proof (cases "dr_id (st_draft j) = ?k")
    case True
    then have "j = e" using keys j(1) by blast
    then show ?thesis using satisfied_mono[OF e(3) same mono] e(4) out by simp
  next
    case False
    then have "\<not> outstanding db j" using j(2) out by simp
    then have "satisfied c db j" "\<forall>i \<in> set (db_intents db). earlier i j \<longrightarrow> \<not> outstanding db i"
      using assms(1) j(1) by (simp_all add: store_ok_def)
    then show ?thesis using satisfied_mono[OF _ same mono] out by simp
  qed
  then have "store_ok c db'" using assms(1) same by (simp add: store_ok_def)
  moreover have "eligible c db' x" if "eligible c db x" "x \<noteq> ?k" for x
  proof -
    have "x \<notin> delivered_ids db" using that(1) by (auto simp: eligible_def outstanding_iff)
    then show ?thesis using eligible_kept[OF assms(1) that(1) _ same mono] that(2) new by simp
  qed
  ultimately show ?thesis using new by blast
qed

lemma failure_promise:
  assumes "store_ok c db" and "record_failure f db = Inr db'"
  shows "store_ok c db' \<and> delivered_ids db' = delivered_ids db \<and>
    (\<forall>x. eligible c db x \<longrightarrow> eligible c db' x)"
proof -
  note eff = record_failure_effect[OF assms(2)]
  have out: "outstanding db' i \<longleftrightarrow> outstanding db i" for i using eff by (simp add: outstanding_iff)
  then have "delivered_keys db' = delivered_keys db" using eff by (simp add: delivered_keys_def)
  then have sat: "satisfied c db' i \<longleftrightarrow> satisfied c db i" for i by (simp add: satisfied_def)
  have "store_ok c db' = store_ok c db" "eligible c db' = eligible c db"
    using eff by (simp_all add: store_ok_def eligible_def out sat fun_eq_iff)
  then show ?thesis using assms(1) eff by simp
qed

interpretation dlv: delivery_protocol "sql_store c" delivered_ids "store_ok c" "eligible c" for c
proof
  show "int (length ps) \<le> n \<and> distinct (map intent_id ps) \<and> (\<forall>p \<in> set ps. eligible c s (intent_id p))"
    if "store_ok c s" "sto_pending (sql_store c) t n s = Inr ps" for s t n ps
    using pending_promise that by (simp add: sql_store_def)
  show "x \<notin> delivered_ids s" if "eligible c s x" for s x
    using that by (auto simp: eligible_def outstanding_iff)
  show "store_ok c s' \<and> delivered_ids s' = insert (sx_intent_id r) (delivered_ids s) \<and>
      (\<forall>x. eligible c s x \<and> x \<noteq> sx_intent_id r \<longrightarrow> eligible c s' x)"
    if "store_ok c s" "eligible c s (sx_intent_id r)" "sto_success (sql_store c) r s = Inr s'" for s r s'
    using success_promise[OF that(1,2)] that(3) by (simp add: sql_store_def)
  show "store_ok c s' \<and> delivered_ids s' = delivered_ids s \<and> (\<forall>x. eligible c s x \<longrightarrow> eligible c s' x)"
    if "store_ok c s" "sto_failure (sql_store c) f s = Inr s'" for s f s'
    using failure_promise[OF that(1)] that(2) by (simp add: sql_store_def)
qed

section \<open>Properties\<close>

text \<open>(C38) Whatever the Jira adapter does, draining the store keeps its invariant: the delivered
  intents of every team are a prefix of its queue in append order, and nothing is delivered before
  what it depends on. Delivered intents stay delivered, also when an exception escapes.\<close>

theorem drain_once_in_order:
  assumes "store_ok c db" and "drain_once (sql_store c) deliver as_of limit db w = (db', w', r)"
    and "j \<in> set (db_intents db')" and "dr_id (st_draft j) \<in> delivered_ids db'"
  shows "satisfied c db' j \<and>
    (\<forall>i \<in> set (db_intents db'). earlier i j \<longrightarrow> dr_id (st_draft i) \<in> delivered_ids db') \<and>
    delivered_ids db \<subseteq> delivered_ids db'"
  using dlv.drain_step[OF assms(1,2)] assms(3,4) by (simp add: store_ok_def outstanding_iff)

text \<open>The counts a drain returns are exact: attempts are deliveries plus failures and stay
  within the limit, and the deliveries are the intents that became delivered.\<close>

theorem drain_once_counts:
  assumes "store_ok c db" and "0 \<le> limit"
    and "drain_once (sql_store c) deliver as_of limit db w = (db', w', Inr b)"
  shows "br_attempted b = br_delivered b + br_failed b \<and> br_attempted b \<le> limit \<and>
    br_delivered b = int (card (delivered_ids db' - delivered_ids db))"
  using dlv.drain_step[OF assms(1,3)] assms(2) by simp

text \<open>What the store offers for delivery: at most one intent per team, each of them the first
  outstanding one of its team, due, and with all its dependencies delivered.\<close>

theorem pending_first_per_team:
  assumes "pending c as_of n db = Inr ps"
  shows "int (length ps) \<le> n \<and> distinct (map (\<lambda>p. st_team_id (pj_intent p)) ps) \<and>
    (\<forall>p \<in> set ps. outstanding db (pj_intent p) \<and> due (receipt_of db (pj_intent p)) as_of \<and>
       satisfied c db (pj_intent p) \<and>
       (\<forall>j \<in> set (db_intents db). earlier j (pj_intent p) \<longrightarrow> \<not> outstanding db j))"
proof -
  obtain ready where r:
    "ready = filter (\<lambda>i. due (receipt_of db i) as_of \<and> satisfied c db i) (first_outstanding_by_team db)"
    "map pj_intent ps = take (nat n) ready" "1 \<le> n" using pending_Inr[OF assms] by metis
  have "length ps = length (take (nat n) ready)" using arg_cong[OF r(2), of length] by simp
  then have "int (length ps) \<le> n" using r(3) by simp
  moreover have "distinct (map st_team_id ready)"
    unfolding r(1) by (rule distinct_map_filter_key[OF distinct_first_teams])
  then have "distinct (map st_team_id (map pj_intent ps))"
    unfolding r(2) by (simp add: take_map[symmetric])
  then have "distinct (map (\<lambda>p. st_team_id (pj_intent p)) ps)" by (simp add: comp_def)
  moreover have "pj_intent p \<in> set ready" if "p \<in> set ps" for p
  proof -
    have "pj_intent p \<in> set (take (nat n) ready)" using that by (simp flip: r(2))
    then show ?thesis by (rule in_set_takeD)
  qed
  then have "\<forall>p \<in> set ps. outstanding db (pj_intent p) \<and> due (receipt_of db (pj_intent p)) as_of \<and>
       satisfied c db (pj_intent p) \<and>
       (\<forall>j \<in> set (db_intents db). earlier j (pj_intent p) \<longrightarrow> \<not> outstanding db j)"
    unfolding r(1) using first_outstanding by auto
  ultimately show ?thesis by blast
qed

text \<open>A provider failure backs off: the intent is not offered again before ten seconds times
  two to the number of earlier attempts, at most five minutes, have passed.\<close>

theorem provider_failure_backs_off:
  assumes "deliver item w = (Inl (Provider_Error message), w')"
    and "deliver_one (sql_store c) deliver item as_of db w = ((db', Inr success), w'')"
    and "intent_id item \<notin> delivered_ids db"
    and "pending c t n db' = Inr ps"
    and "t < as_of + min (10 * 2 ^ nat (pj_attempts item)) 300 * 1000000"
  shows "\<not> success \<and> intent_id item \<notin> set (map intent_id ps)"
proof -
  let ?at = "as_of + min (10 * 2 ^ nat (pj_attempts item)) 300 * 1000000"
  obtain u f where u: "instant_add as_of (retry_delay (pj_attempts item) * 1000000) = Inr u"
    "f = \<lparr>fx_intent_id = intent_id item, fx_retry_at = u, fx_error = message, fx_failed_at = as_of\<rparr>"
    "record_failure f db = Inr db'" "\<not> success"
    using assms(1,2)
    by (auto simp: deliver_one_def record_worker_failure_def Let_def sql_store_def
        elim!: bindR_InrE split: sum.splits)
  have at: "u = ?at"
    using u(1) by (auto simp: instant_add_def retry_delay_def BASE_RETRY_SECONDS_def
        MAX_RETRY_SECONDS_def split: if_splits)
  have "\<exists>rc. map_of (db_receipts db') (intent_id item) = Some rc \<and> rc_next_attempt_at rc = Some u"
    using u(2,3) assms(3)
    by (auto simp: record_failure_def delivered_ids_def dict_simps retryable_receipt_def
        elim!: bindR_InrE split: option.splits if_splits)
  then have late: "\<not> due (receipt_of db' i) t" if "dr_id (st_draft i) = intent_id item" for i
    using that assms(5) at by (auto simp: due_def receipt_of_def)
  obtain ready where r:
    "ready = filter (\<lambda>i. due (receipt_of db' i) t \<and> satisfied c db' i) (first_outstanding_by_team db')"
    "map pj_intent ps = take (nat n) ready" using pending_Inr[OF assms(4)] by metis
  have other: "intent_id p \<noteq> intent_id item" if "p \<in> set ps" for p
  proof -
    have "pj_intent p \<in> set (take (nat n) ready)" using that by (simp flip: r(2))
    then have "due (receipt_of db' (pj_intent p)) t" unfolding r(1) by (auto dest: in_set_takeD)
    then show ?thesis using late by blast
  qed
  have "intent_id item \<notin> set (map intent_id ps)"
  proof
    assume "intent_id item \<in> set (map intent_id ps)"
    then obtain p where "p \<in> set ps" "intent_id p = intent_id item" by auto
    then show False using other by blast
  qed
  then show ?thesis using u(4) by simp
qed

section \<open>Witnesses\<close>

definition sample_intent :: "uuid \<Rightarrow> nat \<Rightarrow> string \<Rightarrow> ProjectionIntent" where
  "sample_intent team sequence key =
     \<lparr>st_draft = \<lparr>dr_id = 11 + size key, dr_semantic_key = key, dr_schema_version = ''1'',
                 dr_occurred_at = 0, dr_canonical_payload = ''{}'', dr_payload_sha256 = ''{}'',
                 dr_details = \<lparr>pd_target_kind = ''ISSUE'', pd_operation_type = ''CREATE'',
                   pd_aggregate_id = 1, pd_aggregate_version = 0, pd_status = ''PENDING''\<rparr>\<rparr>,
      st_append_sequence = sequence, st_team_id = team, st_run_id = 1, st_commit_id = 1,
      st_transaction_sequence = 0, st_recorded_at = 0\<rparr>"

definition sample_db :: delivery_db where
  "sample_db = \<lparr>db_intents = [sample_intent 7 3 ''a''], db_receipts = [], db_mappings = []\<rparr>"

definition accept_all :: "unit adapter" where
  "accept_all p w = (Inr \<lparr>sx_intent_id = intent_id p, sx_mappings = [], sx_delivered_at = 0\<rparr>, w)"

lemmas delivery_eval = sample_db_def sample_intent_def toy_codec_def pending_def MAX_PENDING_LIMIT_def
  first_outstanding_by_team_def outstanding_def receipt_of_def due_def dependencies_delivered_def
  dependency_keys_def pending_intent_def validate_draft_def validate_draft_envelope_def
  canonical_document_def canonical_sha256_def semantic_uuid_def non_empty_def non_negative_def
  blank_def is_space_def check_projection_details_def check_pending_intent_def
  record_success_def require_intent_def delivered_receipt_def dict_setdefault_def sql_store_def

lemma sample_pending:
  "pending toy_codec 0 50 sample_db =
     Inr [\<lparr>pj_intent = sample_intent 7 3 ''a'', pj_dependency_keys = [], pj_attempts = 0\<rparr>]"
  by (simp add: delivery_eval Let_def)

definition sample_done :: delivery_db where
  "sample_done = sample_db\<lparr>db_receipts := [(12, \<lparr>rc_state = DELIVERED, rc_attempts = 1,
     rc_next_attempt_at = None, rc_last_attempt_at = 0, rc_delivered_at = Some 0, rc_last_error = None\<rparr>)]\<rparr>"

lemma sample_done_pending: "pending toy_codec 0 n sample_done = (if 1 \<le> n \<and> n \<le> 50 then Inr [] else
    Inl (Value_Error ''limit must be between 1 and 50''))"
  by (simp add: sample_done_def delivery_eval Let_def)

lemma sample_deliver:
  "deliver_one (sql_store toy_codec) accept_all
     \<lparr>pj_intent = sample_intent 7 3 ''a'', pj_dependency_keys = [], pj_attempts = 0\<rparr> 0 sample_db ()
   = ((sample_done, Inr True), ())"
  by (simp add: deliver_one_def accept_all_def sample_done_def delivery_eval Let_def)

lemma sample_drain:
  "drain_once (sql_store toy_codec) accept_all 0 50 sample_db () =
     (sample_done, (), Inr \<lparr>br_attempted = 1, br_delivered = 1, br_deferred = 0, br_failed = 0\<rparr>)"
proof -
  have "drain_loop (sql_store toy_codec) accept_all 0 50 (drain_start sample_db ()) =
    drain_loop (sql_store toy_codec) accept_all 0 50
      \<lparr>dn_store = sample_done, dn_world = (), dn_attempted = 1, dn_delivered = 1, dn_failed = 0,
       dn_processed = {12}\<rparr>"
    by (subst drain_loop.simps)
      (simp add: drain_start_def fresh_pending_def sql_store_def sample_pending
        sample_deliver[unfolded sql_store_def] Let_def, simp add: sample_intent_def)
  also have "\<dots> = (\<lparr>dn_store = sample_done, dn_world = (), dn_attempted = 1, dn_delivered = 1,
      dn_failed = 0, dn_processed = {12}\<rparr>, Inr ())"
    by (subst drain_loop.simps) (simp add: fresh_pending_def sql_store_def sample_done_pending)
  finally show ?thesis by (simp add: drain_once_def)
qed

lemma sample_ok: "store_ok toy_codec sample_db"
  by (simp add: store_ok_def sample_db_def outstanding_def receipt_of_def)

theorem drain_once_in_order_witness:
  "12 \<in> delivered_ids sample_done \<and> satisfied toy_codec sample_done (sample_intent 7 3 ''a'') \<and>
   delivered_ids sample_db \<subseteq> delivered_ids sample_done"
proof -
  have "sample_intent 7 3 ''a'' \<in> set (db_intents sample_done)"
    by (simp add: sample_done_def sample_db_def)
  moreover have "dr_id (st_draft (sample_intent 7 3 ''a'')) \<in> delivered_ids sample_done"
    by (simp add: delivered_ids_def sample_done_def sample_intent_def)
  ultimately show ?thesis using drain_once_in_order[OF sample_ok sample_drain]
    by (auto simp: sample_intent_def)
qed

theorem drain_once_counts_witness:
  "int (card (delivered_ids sample_done - delivered_ids sample_db)) = 1"
  using drain_once_counts[OF sample_ok _ sample_drain] by simp

theorem pending_first_per_team_witness:
  "outstanding sample_db (sample_intent 7 3 ''a'') \<and> satisfied toy_codec sample_db (sample_intent 7 3 ''a'')"
  using pending_first_per_team[OF sample_pending] by simp

definition failing :: "unit adapter" where
  "failing p w = (Inl (Provider_Error ''down''), w)"

theorem provider_failure_backs_off_witness:
  "\<exists>db' ps. deliver_one (sql_store toy_codec) failing
     \<lparr>pj_intent = sample_intent 7 3 ''a'', pj_dependency_keys = [], pj_attempts = 0\<rparr> 0 sample_db ()
       = ((db', Inr False), ()) \<and>
     pending toy_codec 9000000 50 db' = Inr ps \<and> 12 \<notin> set (map intent_id ps)"
proof -
  let ?p = "\<lparr>pj_intent = sample_intent 7 3 ''a'', pj_dependency_keys = [], pj_attempts = 0\<rparr>"
  obtain db' where d: "deliver_one (sql_store toy_codec) failing ?p 0 sample_db () = ((db', Inr False), ())"
    "pending toy_codec 9000000 50 db' = Inr []"
    by (simp add: deliver_one_def failing_def record_worker_failure_def instant_add_def valid_instant_def
        retry_delay_def BASE_RETRY_SECONDS_def MAX_RETRY_SECONDS_def MAX_ORDINAL_def DAY_US_def
        check_failure_def record_failure_def retryable_receipt_def delivery_eval Let_def)
  have "intent_id ?p = 12" by (simp add: sample_intent_def)
  moreover have "intent_id ?p \<notin> delivered_ids sample_db" by (simp add: delivered_ids_def sample_db_def)
  moreover have "failing ?p () = (Inl (Provider_Error ''down''), ())" by (simp add: failing_def)
  ultimately show ?thesis
    using provider_failure_backs_off[OF _ d(1) _ d(2)] d by fastforce
qed

end
