(* ===== verification/Unit_Of_Work.thy ===== *)
theory Unit_Of_Work
  imports Live_Slice
begin

text \<open>
  The atomic commit of a live slice (\<open>v2/persistence/unit_of_work.py\<close>): a compare-and-swap on the
  team runtime, then three append-only ledgers that recognise a semantic key they already hold.
  The session is rolled back on every exception, so a transaction is a function to the new tables
  or to an exception. A ledger numbers its rows by an autoincrement column.
\<close>

section \<open>Tables\<close>

record 'd ledger =
  lg_rows :: "'d stored list"
  lg_next :: nat

record live_db =
  ld_runtimes :: "TeamRuntime list"
  ld_activity :: "ActivityDetails ledger"
  ld_ground_truth :: "GroundTruthDetails ledger"
  ld_projection :: "ProjectionDetails ledger"

definition StaleRuntimeVersion :: py_exc where
  "StaleRuntimeVersion = Runtime_Error ''StaleRuntimeVersion''"

definition SemanticDeduplicationConflict :: py_exc where
  "SemanticDeduplicationConflict = Runtime_Error ''SemanticDeduplicationConflict''"

section \<open>The runtime compare-and-swap\<close>

definition cas_matches :: "TickSliceCommit \<Rightarrow> TeamRuntime \<Rightarrow> bool" where
  "cas_matches k rt \<longleftrightarrow>
     rt_team_id rt = tc_team_id k \<and> rt_run_id rt = tc_run_id k \<and>
     rt_version rt = tc_expected_runtime_version k"

definition cas_values :: "TickSliceCommit \<Rightarrow> TeamRuntime \<Rightarrow> TeamRuntime" where
  "cas_values k rt =
     rt\<lparr>rt_version := tc_expected_runtime_version k + 1, rt_state := ra_state (tc_runtime_after k),
        rt_simulation_time := ra_simulation_time (tc_runtime_after k),
        rt_next_wake_at := ra_next_wake_at (tc_runtime_after k), rt_updated_at := tc_recorded_at k\<rparr>"

definition get_runtime :: "TeamRuntime list \<Rightarrow> uuid \<Rightarrow> TeamRuntime res" where
  "get_runtime rts team =
     (case List.find (\<lambda>rt. rt_team_id rt = team) rts of
        None \<Rightarrow> Inl (Lookup_Error ''runtime not found for team'')
      | Some rt \<Rightarrow> Inr rt)"

definition advance_runtime ::
  "TickSliceCommit \<Rightarrow> TeamRuntime list \<Rightarrow> (TeamRuntime list \<times> TeamRuntime) res" where
  "advance_runtime k rts =
     (if length (filter (cas_matches k) rts) \<noteq> 1 then Inl StaleRuntimeVersion
      else
        (let rts' = map (\<lambda>rt. if cas_matches k rt then cas_values k rt else rt) rts in
         case get_runtime rts' (tc_team_id k) of
           Inl _ \<Rightarrow> Inl StaleRuntimeVersion
         | Inr rt \<Rightarrow> Inr (rts', rt)))"

section \<open>Appending to a ledger\<close>

definition by_key :: "'d ledger \<Rightarrow> string \<Rightarrow> 'd stored option" where
  "by_key l key = List.find (\<lambda>row. dr_semantic_key (st_draft row) = key) (lg_rows l)"

definition require_identical :: "TickSliceCommit \<Rightarrow> 'd draft \<Rightarrow> 'd stored \<Rightarrow> unit res" where
  "require_identical k d row =
     guardR (st_team_id row = tc_team_id k \<and> st_run_id row = tc_run_id k \<and>
             dr_id (st_draft row) = dr_id d \<and> dr_semantic_key (st_draft row) = dr_semantic_key d \<and>
             deduplication_content (st_draft row) = deduplication_content d)
       SemanticDeduplicationConflict"

definition new_row :: "TickSliceCommit \<Rightarrow> nat \<Rightarrow> nat \<Rightarrow> 'd draft \<Rightarrow> 'd stored" where
  "new_row k position sequence d =
     \<lparr>st_draft = d, st_append_sequence = sequence, st_team_id = tc_team_id k, st_run_id = tc_run_id k,
      st_commit_id = tc_commit_id k, st_transaction_sequence = position, st_recorded_at = tc_recorded_at k\<rparr>"

text \<open>
  \<open>_resolve_*\<close>: an existing row must be identical; a new one is inserted, which fails when its
  identifier belongs to another row. Mapping a row back to its record runs the record's checks.
\<close>

definition resolve_draft ::
  "('d draft \<Rightarrow> unit res) \<Rightarrow> TickSliceCommit \<Rightarrow> nat \<times> 'd draft \<Rightarrow> 'd ledger \<Rightarrow> ('d ledger \<times> 'd stored) res" where
  "resolve_draft check k positioned l =
     (let (position, d) = positioned in
      case by_key l (dr_semantic_key d) of
        Some row \<Rightarrow>
          bindR (check (st_draft row)) (\<lambda>_.
          bindR (require_identical k d row) (\<lambda>_. Inr (l, row)))
      | None \<Rightarrow>
          if dr_id d \<in> (\<lambda>row. dr_id (st_draft row)) ` set (lg_rows l) then Inl Integrity_Error
          else
            (let row = new_row k position (lg_next l) d in
             bindR (check (st_draft row)) (\<lambda>_.
             bindR (require_identical k d row) (\<lambda>_.
               Inr (\<lparr>lg_rows = lg_rows l @ [row], lg_next = Suc (lg_next l)\<rparr>, row)))))"

fun persist_drafts ::
  "('d draft \<Rightarrow> unit res) \<Rightarrow> TickSliceCommit \<Rightarrow> (nat \<times> 'd draft) list \<Rightarrow> 'd ledger \<Rightarrow>
   ('d ledger \<times> 'd stored list) res" where
  "persist_drafts check k [] l = Inr (l, [])"
| "persist_drafts check k (p # ps) l =
     bindR (resolve_draft check k p l) (\<lambda>(l1, row).
     bindR (persist_drafts check k ps l1) (\<lambda>(l2, rows). Inr (l2, row # rows)))"

abbreviation persist :: "('d draft \<Rightarrow> unit res) \<Rightarrow> TickSliceCommit \<Rightarrow> 'd draft list \<Rightarrow> 'd ledger \<Rightarrow>
   ('d ledger \<times> 'd stored list) res" where
  "persist check k drafts \<equiv> persist_drafts check k (enumerate 0 drafts)"

definition persist_ledgers ::
  "codec \<Rightarrow> TickSliceCommit \<Rightarrow> TeamRuntime \<Rightarrow> live_db \<Rightarrow> (live_db \<times> CommittedTickSlice) res" where
  "persist_ledgers c k rt db =
     bindR (persist (validate_activity c) k (tc_activity k) (ld_activity db)) (\<lambda>(la, activity).
     bindR (persist (validate_ground_truth c) k (tc_ground_truth k) (ld_ground_truth db)) (\<lambda>(lt, truth).
     bindR (persist (validate_projection c) k (tc_projection_intents k) (ld_projection db)) (\<lambda>(lp, proj).
       Inr (db\<lparr>ld_activity := la, ld_ground_truth := lt, ld_projection := lp\<rparr>,
            \<lparr>cs_runtime = rt, cs_activity = activity, cs_ground_truth = truth,
             cs_projection_intents = proj\<rparr>))))"

definition commit_tick_slice :: "codec \<Rightarrow> TickSliceCommit \<Rightarrow> live_db \<Rightarrow> (live_db \<times> CommittedTickSlice) res" where
  "commit_tick_slice c k db =
     bindR (validate_commit c k) (\<lambda>_.
     bindR (advance_runtime k (ld_runtimes db)) (\<lambda>(rts, rt).
       persist_ledgers c k rt (db\<lparr>ld_runtimes := rts\<rparr>)))"

definition append_projection_intents ::
  "codec \<Rightarrow> TickSliceCommit \<Rightarrow> live_db \<Rightarrow> (live_db \<times> ProjectionIntent list) res" where
  "append_projection_intents c k db =
     bindR (validate_commit c k) (\<lambda>_.
       if tc_activity k \<noteq> [] \<or> tc_ground_truth k \<noteq> []
       then Inl (Value_Error ''bootstrap projection slice must contain only projection intents'')
       else
         bindR (persist (validate_projection c) k (tc_projection_intents k) (ld_projection db))
           (\<lambda>(lp, proj). Inr (db\<lparr>ld_projection := lp\<rparr>, proj)))"

section \<open>Pages\<close>

definition visible :: "LedgerPageQuery \<Rightarrow> 'd stored \<Rightarrow> bool" where
  "visible q row \<longleftrightarrow>
     st_team_id row = lq_team_id q \<and>
     (case lq_run_id q of None \<Rightarrow> True | Some run \<Rightarrow> st_run_id row = run) \<and>
     (case lq_after_sequence q of None \<Rightarrow> True | Some n \<Rightarrow> n < int (st_append_sequence row))"

definition page_rows :: "LedgerPageQuery \<Rightarrow> 'd ledger \<Rightarrow> 'd page" where
  "page_rows q l =
     (let rows = take (nat (lq_limit q) + 1) (sort_key st_append_sequence (filter (visible q) (lg_rows l)));
          items = take (nat (lq_limit q)) rows
      in \<lparr>pg_items = items,
          pg_next_cursor = (if lq_limit q < int (length rows)
                            then Some (st_append_sequence (last items)) else None)\<rparr>)"

definition page_ledger ::
  "('d draft \<Rightarrow> unit res) \<Rightarrow> LedgerPageQuery \<Rightarrow> 'd ledger \<Rightarrow> 'd page res" where
  "page_ledger check q l =
     bindR (validate_page_query q) (\<lambda>_.
       let p = page_rows q l
       in bindR (mapR (\<lambda>row. check (st_draft row)) (pg_items p)) (\<lambda>_. Inr p))"

section \<open>Ledgers\<close>

text \<open>Keys and identifiers are unique, and the rows are numbered upwards.\<close>

definition ledger_ok :: "'d ledger \<Rightarrow> bool" where
  "ledger_ok l \<longleftrightarrow>
     distinct (map (\<lambda>r. dr_semantic_key (st_draft r)) (lg_rows l)) \<and>
     distinct (map (\<lambda>r. dr_id (st_draft r)) (lg_rows l)) \<and>
     sorted_wrt (<) (map st_append_sequence (lg_rows l)) \<and>
     (\<forall>r \<in> set (lg_rows l). st_append_sequence r < lg_next l)"

definition holds :: "('d draft \<Rightarrow> unit res) \<Rightarrow> uuid \<times> uuid \<Rightarrow> 'd ledger \<Rightarrow> 'd draft \<Rightarrow> 'd stored \<Rightarrow> bool" where
  "holds check owner l d row \<longleftrightarrow>
     row \<in> set (lg_rows l) \<and> check (st_draft row) = Inr () \<and>
     (st_team_id row, st_run_id row) = owner \<and> dr_id (st_draft row) = dr_id d \<and>
     dr_semantic_key (st_draft row) = dr_semantic_key d \<and>
     deduplication_content (st_draft row) = deduplication_content d"

abbreviation owner :: "TickSliceCommit \<Rightarrow> uuid \<times> uuid" where
  "owner k \<equiv> (tc_team_id k, tc_run_id k)"

lemma by_key_Some: "by_key l key = Some row \<Longrightarrow> row \<in> set (lg_rows l) \<and> dr_semantic_key (st_draft row) = key"
  by (auto simp: by_key_def dest: find_SomeD)

lemma by_key_None: "by_key l key = None \<Longrightarrow> key \<notin> (\<lambda>r. dr_semantic_key (st_draft r)) ` set (lg_rows l)"
  by (auto simp: by_key_def find_None_iff)

lemma by_key_unique:
  assumes "ledger_ok l" and "row \<in> set (lg_rows l)"
  shows "by_key l (dr_semantic_key (st_draft row)) = Some row"
proof (cases "by_key l (dr_semantic_key (st_draft row))")
  case None
  then show ?thesis using by_key_None assms(2) by blast
next
  case (Some r)
  have "inj_on (\<lambda>r. dr_semantic_key (st_draft r)) (set (lg_rows l))"
    using assms(1) by (simp add: ledger_ok_def distinct_map)
  then have "r = row" using by_key_Some[OF Some] assms(2) by (auto dest: inj_onD)
  then show ?thesis using Some by simp
qed

lemma resolve_draft_effect:
  assumes "ledger_ok l" and "resolve_draft check k (n, d) l = Inr (l', row)"
  shows "ledger_ok l' \<and> (\<exists>new. lg_rows l' = lg_rows l @ new) \<and> holds check (owner k) l' d row"
proof (cases "by_key l (dr_semantic_key d)")
  case (Some r)
  then have "l' = l" "row = r" "check (st_draft r) = Inr ()" "require_identical k d r = Inr ()"
    using assms(2) by (auto simp: resolve_draft_def elim!: bindR_InrE)
  then show ?thesis using assms(1) by_key_Some[OF Some]
    by (auto simp: holds_def require_identical_def guardR_eq_Inr)
next
  case None
  then have id: "dr_id d \<notin> (\<lambda>r. dr_id (st_draft r)) ` set (lg_rows l)"
    using assms(2) by (auto simp: resolve_draft_def split: if_splits)
  have r: "l' = \<lparr>lg_rows = lg_rows l @ [row], lg_next = Suc (lg_next l)\<rparr>" "check (st_draft row) = Inr ()"
    "row = new_row k n (lg_next l) d"
    using assms(2) None id by (auto simp: resolve_draft_def Let_def elim!: bindR_InrE)
  have "dr_semantic_key d \<notin> (\<lambda>r. dr_semantic_key (st_draft r)) ` set (lg_rows l)"
    by (rule by_key_None[OF None])
  then have "ledger_ok l'" using assms(1) id r(1,3)
    by (auto simp: ledger_ok_def new_row_def sorted_wrt_append less_Suc_eq)
  then show ?thesis using r by (auto simp: holds_def new_row_def)
qed

lemma holds_extends: "holds check ow l d row \<Longrightarrow> lg_rows l' = lg_rows l @ new \<Longrightarrow> holds check ow l' d row"
  by (auto simp: holds_def)

lemma persist_drafts_effect:
  assumes "ledger_ok l" and "persist_drafts check k ps l = Inr (l', rows)"
  shows "ledger_ok l' \<and> (\<exists>new. lg_rows l' = lg_rows l @ new) \<and>
    list_all2 (\<lambda>p row. holds check (owner k) l' (snd p) row) ps rows"
  using assms
proof (induction ps arbitrary: l rows)
  case Nil
  then show ?case by simp
next
  case (Cons p ps)
  obtain n d where p: "p = (n, d)" by fastforce
  from Cons.prems(2) obtain l1 row rows' where
    1: "resolve_draft check k p l = Inr (l1, row)" "persist_drafts check k ps l1 = Inr (l', rows')"
      "rows = row # rows'"
    by (auto elim!: bindR_Inr2E)
  note a = resolve_draft_effect[OF Cons.prems(1) 1(1)[unfolded p]]
  then obtain new where new: "lg_rows l1 = lg_rows l @ new" by blast
  from a have "ledger_ok l1" by blast
  note b = Cons.IH[OF this 1(2)]
  then obtain new' where new': "lg_rows l' = lg_rows l1 @ new'" by blast
  have "holds check (owner k) l' d row" using a holds_extends[OF _ new'] by blast
  then show ?case using b new new' 1(3) p by simp
qed

lemma list_all2_enumerate:
  "list_all2 (\<lambda>p. P (snd p)) (enumerate n xs) ys \<longleftrightarrow> list_all2 P xs ys"
  by (induction xs arbitrary: n ys) (auto simp: list_all2_Cons1)

lemma persist_effect:
  assumes "ledger_ok l" and "persist check k ds l = Inr (l', rows)"
  shows "ledger_ok l' \<and> (\<exists>new. lg_rows l' = lg_rows l @ new) \<and>
    list_all2 (holds check (owner k) l') ds rows"
  using persist_drafts_effect[OF assms] by (simp add: list_all2_enumerate)

text \<open>What a ledger holds is found again, by whatever later commit of the same owner.\<close>

lemma resolve_held:
  assumes "ledger_ok l" and "holds check (owner k) l d row"
  shows "resolve_draft check k (n, d) l = Inr (l, row)"
proof -
  have "by_key l (dr_semantic_key d) = Some row"
    using by_key_unique[OF assms(1)] assms(2) by (fastforce simp: holds_def)
  then show ?thesis using assms(2) by (simp add: resolve_draft_def holds_def require_identical_def)
qed

lemma persist_drafts_held:
  assumes "ledger_ok l" and "list_all2 (\<lambda>p row. holds check (owner k) l (snd p) row) ps rows"
  shows "persist_drafts check k ps l = Inr (l, rows)"
  using assms(2)
proof (induction ps arbitrary: rows)
  case Nil
  then show ?case by simp
next
  case (Cons p ps)
  obtain n d where p: "p = (n, d)" by fastforce
  obtain row rows' where r: "rows = row # rows'" "holds check (owner k) l d row"
    "list_all2 (\<lambda>p row. holds check (owner k) l (snd p) row) ps rows'"
    using Cons.prems p by (auto simp: list_all2_Cons1)
  show ?case using resolve_held[OF assms(1) r(2)] Cons.IH[OF r(3)] p r(1) by simp
qed

lemma persist_held:
  assumes "ledger_ok l" and "list_all2 (holds check (owner k) l) ds rows"
  shows "persist check k ds l = Inr (l, rows)"
  using assms by (intro persist_drafts_held) (simp_all add: list_all2_enumerate)

text \<open>In a strictly ascending list, what follows a prefix is what lies beyond its last element.\<close>

lemma filter_beyond_last:
  assumes "sorted_wrt (<) (map f (as @ bs))" and "as \<noteq> []"
  shows "filter (\<lambda>r. f (last as) < (f r :: nat)) (as @ bs) = bs"
proof -
  obtain as' a where a: "as = as' @ [a]" using assms(2) by (cases as rule: rev_cases) auto
  have "filter (\<lambda>r. f a < f r) as' = []" "filter (\<lambda>r. f a < f r) bs = bs"
    using assms(1) a by (auto simp: filter_empty_conv sorted_wrt_append filter_id_conv)
  then show ?thesis using a by simp
qed

lemma visible_beyond:
  assumes "visible q r0"
  shows "visible (q\<lparr>lq_after_sequence := Some (int (st_append_sequence r0))\<rparr>) r \<longleftrightarrow>
    visible q r \<and> st_append_sequence r0 < st_append_sequence r"
  using assms by (auto simp: visible_def split: option.splits)

section \<open>Commits\<close>

definition db_ok :: "live_db \<Rightarrow> bool" where
  "db_ok db \<longleftrightarrow>
     distinct (map rt_team_id (ld_runtimes db)) \<and> ledger_ok (ld_activity db) \<and>
     ledger_ok (ld_ground_truth db) \<and> ledger_ok (ld_projection db)"

lemma advance_runtime_effect:
  assumes "distinct (map rt_team_id rts)" and "advance_runtime k rts = Inr (rts', rt')"
  shows "rts' = map (\<lambda>rt. if cas_matches k rt then cas_values k rt else rt) rts \<and>
    (\<exists>rt \<in> set rts. cas_matches k rt \<and> rt' = cas_values k rt)"
proof -
  have r: "rts' = map (\<lambda>rt. if cas_matches k rt then cas_values k rt else rt) rts"
    "length (filter (cas_matches k) rts) = 1" "get_runtime rts' (tc_team_id k) = Inr rt'"
    using assms(2) by (auto simp: advance_runtime_def Let_def split: if_splits sum.splits)
  then obtain rt where rt: "rt \<in> set rts" "cas_matches k rt"
    by (metis filter_empty_conv list.size(3) zero_neq_one)
  have "rt' \<in> set rts'" "rt_team_id rt' = tc_team_id k"
    using r(3) by (auto simp: get_runtime_def split: option.splits dest: find_SomeD)
  then obtain old where old: "old \<in> set rts" "rt' = (if cas_matches k old then cas_values k old else old)"
    using r(1) by auto
  have "rt_team_id old = tc_team_id k"
    using old(2) \<open>rt_team_id rt' = tc_team_id k\<close> by (auto simp: cas_values_def split: if_splits)
  then have "rt_team_id old = rt_team_id rt" using rt(2) by (simp add: cas_matches_def)
  moreover have "inj_on rt_team_id (set rts)" using assms(1) by (simp add: distinct_map)
  ultimately have "old = rt" using rt(1) old(1) by (metis inj_onD)
  then show ?thesis using r(1) rt old by auto
qed

lemma advance_runtime_stale:
  assumes "\<forall>rt \<in> set rts. \<not> cas_matches k rt"
  shows "advance_runtime k rts = Inl StaleRuntimeVersion"
proof -
  have "filter (cas_matches k) rts = []" using assms by (simp add: filter_empty_conv)
  then show ?thesis by (simp add: advance_runtime_def)
qed

lemma commit_parts:
  assumes "commit_tick_slice c k db = Inr (db', out)"
  obtains rts rt where "validate_commit c k = Inr ()" "advance_runtime k (ld_runtimes db) = Inr (rts, rt)"
    "ld_runtimes db' = rts" "cs_runtime out = rt"
    "persist (validate_activity c) k (tc_activity k) (ld_activity db) = Inr (ld_activity db', cs_activity out)"
    "persist (validate_ground_truth c) k (tc_ground_truth k) (ld_ground_truth db)
       = Inr (ld_ground_truth db', cs_ground_truth out)"
    "persist (validate_projection c) k (tc_projection_intents k) (ld_projection db)
       = Inr (ld_projection db', cs_projection_intents out)"
proof -
  obtain u rts rt where a: "validate_commit c k = Inr u" "advance_runtime k (ld_runtimes db) = Inr (rts, rt)"
    "persist_ledgers c k rt (db\<lparr>ld_runtimes := rts\<rparr>) = Inr (db', out)"
    using assms unfolding commit_tick_slice_def by (elim bindR_InrE bindR_Inr2E) blast
  from a(3) obtain la ra lt rt2 lp rp where
    "persist (validate_activity c) k (tc_activity k) (ld_activity db) = Inr (la, ra)"
    "persist (validate_ground_truth c) k (tc_ground_truth k) (ld_ground_truth db) = Inr (lt, rt2)"
    "persist (validate_projection c) k (tc_projection_intents k) (ld_projection db) = Inr (lp, rp)"
    "db' = db\<lparr>ld_runtimes := rts, ld_activity := la, ld_ground_truth := lt, ld_projection := lp\<rparr>"
    "out = \<lparr>cs_runtime = rt, cs_activity = ra, cs_ground_truth = rt2, cs_projection_intents = rp\<rparr>"
    unfolding persist_ledgers_def by (elim bindR_Inr2E) auto
  then show ?thesis using that a(1,2) by simp
qed

section \<open>Properties\<close>

text \<open>A commit is one compare-and-swap and three appends: the team's runtime goes from the
  expected version to the next one with the values of the command, every other runtime is
  untouched, each ledger keeps its rows as a prefix, and the returned records are, in order, the
  stored rows of the drafts, unique by semantic key.\<close>

theorem commit_tick_slice_effect:
  assumes "db_ok db" and "commit_tick_slice c k db = Inr (db', out)"
  shows "db_ok db' \<and>
    ld_runtimes db' = map (\<lambda>rt. if cas_matches k rt then cas_values k rt else rt) (ld_runtimes db) \<and>
    (\<exists>rt \<in> set (ld_runtimes db). cas_matches k rt \<and> cs_runtime out = cas_values k rt) \<and>
    (\<exists>new. lg_rows (ld_activity db') = lg_rows (ld_activity db) @ new) \<and>
    (\<exists>new. lg_rows (ld_ground_truth db') = lg_rows (ld_ground_truth db) @ new) \<and>
    (\<exists>new. lg_rows (ld_projection db') = lg_rows (ld_projection db) @ new) \<and>
    list_all2 (holds (validate_activity c) (owner k) (ld_activity db')) (tc_activity k) (cs_activity out) \<and>
    list_all2 (holds (validate_ground_truth c) (owner k) (ld_ground_truth db'))
      (tc_ground_truth k) (cs_ground_truth out) \<and>
    list_all2 (holds (validate_projection c) (owner k) (ld_projection db'))
      (tc_projection_intents k) (cs_projection_intents out)"
proof -
  obtain rts rt where p: "advance_runtime k (ld_runtimes db) = Inr (rts, rt)"
    "ld_runtimes db' = rts" "cs_runtime out = rt"
    "persist (validate_activity c) k (tc_activity k) (ld_activity db) = Inr (ld_activity db', cs_activity out)"
    "persist (validate_ground_truth c) k (tc_ground_truth k) (ld_ground_truth db)
       = Inr (ld_ground_truth db', cs_ground_truth out)"
    "persist (validate_projection c) k (tc_projection_intents k) (ld_projection db)
       = Inr (ld_projection db', cs_projection_intents out)"
    by (rule commit_parts[OF assms(2)])
  have ok: "distinct (map rt_team_id (ld_runtimes db))" "ledger_ok (ld_activity db)"
    "ledger_ok (ld_ground_truth db)" "ledger_ok (ld_projection db)"
    using assms(1) by (simp_all add: db_ok_def)
  note r = advance_runtime_effect[OF ok(1) p(1)]
  note l = persist_effect[OF ok(2) p(4)] persist_effect[OF ok(3) p(5)] persist_effect[OF ok(4) p(6)]
  have "map rt_team_id rts = map rt_team_id (ld_runtimes db)"
    using r by (auto simp: cas_values_def)
  then have "db_ok db'" using ok(1) l p(2) by (simp add: db_ok_def)
  then show ?thesis using r l p(2,3) by simp
qed

text \<open>Of two commits that expect the same runtime version, the second one fails: after a commit
  no command for the same team, run and version is accepted.\<close>

theorem commit_tick_slice_no_lost_update:
  assumes "db_ok db" and "commit_tick_slice c k db = Inr (db', out)"
    and "tc_team_id k2 = tc_team_id k" and "tc_run_id k2 = tc_run_id k"
    and "tc_expected_runtime_version k2 = tc_expected_runtime_version k"
    and "validate_commit c k2 = Inr ()"
  shows "commit_tick_slice c k2 db' = Inl StaleRuntimeVersion"
proof -
  obtain rts rt where p: "advance_runtime k (ld_runtimes db) = Inr (rts, rt)" "ld_runtimes db' = rts"
    by (rule commit_parts[OF assms(2)])
  have "rts = map (\<lambda>rt. if cas_matches k rt then cas_values k rt else rt) (ld_runtimes db)"
    using advance_runtime_effect[OF _ p(1)] assms(1) by (simp add: db_ok_def)
  moreover have "cas_matches k2 rt \<longleftrightarrow> cas_matches k rt" for rt
    using assms(3-5) by (simp add: cas_matches_def)
  ultimately have "\<forall>rt \<in> set rts. \<not> cas_matches k2 rt"
    by (auto simp: cas_matches_def cas_values_def)
  then have "advance_runtime k2 (ld_runtimes db') = Inl StaleRuntimeVersion"
    using p(2) by (simp add: advance_runtime_stale)
  then show ?thesis using assms(6) by (simp add: commit_tick_slice_def)
qed

text \<open>Replaying the drafts of a commit in a later command of the same team and run adds nothing:
  the ledgers stay as they are and the records of the first commit are returned again.\<close>

theorem commit_tick_slice_replay:
  assumes "db_ok db" and "commit_tick_slice c k db = Inr (db', out)"
    and "owner k2 = owner k" and "tc_activity k2 = tc_activity k"
    and "tc_ground_truth k2 = tc_ground_truth k"
    and "tc_projection_intents k2 = tc_projection_intents k"
    and "commit_tick_slice c k2 db' = Inr (db2, out2)"
  shows "ld_activity db2 = ld_activity db' \<and> ld_ground_truth db2 = ld_ground_truth db' \<and>
    ld_projection db2 = ld_projection db' \<and> cs_activity out2 = cs_activity out \<and>
    cs_ground_truth out2 = cs_ground_truth out \<and>
    cs_projection_intents out2 = cs_projection_intents out"
proof -
  obtain rts rt where p:
    "persist (validate_activity c) k (tc_activity k) (ld_activity db) = Inr (ld_activity db', cs_activity out)"
    "persist (validate_ground_truth c) k (tc_ground_truth k) (ld_ground_truth db)
       = Inr (ld_ground_truth db', cs_ground_truth out)"
    "persist (validate_projection c) k (tc_projection_intents k) (ld_projection db)
       = Inr (ld_projection db', cs_projection_intents out)"
    by (rule commit_parts[OF assms(2)])
  obtain rts2 rt2 where q:
    "persist (validate_activity c) k2 (tc_activity k2) (ld_activity db') = Inr (ld_activity db2, cs_activity out2)"
    "persist (validate_ground_truth c) k2 (tc_ground_truth k2) (ld_ground_truth db')
       = Inr (ld_ground_truth db2, cs_ground_truth out2)"
    "persist (validate_projection c) k2 (tc_projection_intents k2) (ld_projection db')
       = Inr (ld_projection db2, cs_projection_intents out2)"
    by (rule commit_parts[OF assms(7)])
  have ok: "ledger_ok (ld_activity db)" "ledger_ok (ld_ground_truth db)" "ledger_ok (ld_projection db)"
    using assms(1) by (simp_all add: db_ok_def)
  note e = persist_effect[OF ok(1) p(1)] persist_effect[OF ok(2) p(2)] persist_effect[OF ok(3) p(3)]
  have "persist (validate_activity c) k2 (tc_activity k2) (ld_activity db') = Inr (ld_activity db', cs_activity out)"
    "persist (validate_ground_truth c) k2 (tc_ground_truth k2) (ld_ground_truth db')
       = Inr (ld_ground_truth db', cs_ground_truth out)"
    "persist (validate_projection c) k2 (tc_projection_intents k2) (ld_projection db')
       = Inr (ld_projection db', cs_projection_intents out)"
    using e assms(3-6) by (simp_all add: persist_held)
  then show ?thesis using q by simp
qed

text \<open>Pages are complete: what a query sees is, in append order, its page followed by what the
  same query sees after the returned cursor; without a cursor the page is everything.\<close>

theorem page_rows_complete:
  assumes "ledger_ok l" and "1 \<le> lq_limit q"
  shows "filter (visible q) (lg_rows l) =
    pg_items (page_rows q l) @
      (case pg_next_cursor (page_rows q l) of
         None \<Rightarrow> []
       | Some n \<Rightarrow> filter (visible (q\<lparr>lq_after_sequence := Some (int n)\<rparr>)) (lg_rows l))"
proof -
  define m where "m = nat (lq_limit q)"
  define vs where "vs = filter (visible q) (lg_rows l)"
  have m: "lq_limit q = int m" "1 \<le> m" using assms(2) by (simp_all add: m_def)
  have strict: "sorted_wrt (<) (map st_append_sequence (lg_rows l))"
    using assms(1) by (simp add: ledger_ok_def)
  have vs_strict: "sorted_wrt (<) (map st_append_sequence vs)"
    using strict unfolding vs_def by (simp add: sorted_wrt_map sorted_wrt_filter)
  then have sorted: "sort_key st_append_sequence vs = vs"
    by (simp add: sorted_sort_id sort_key_id_if_sorted strict_sorted_imp_sorted)
  have page: "pg_items (page_rows q l) = take m vs"
    "pg_next_cursor (page_rows q l) =
      (if m < length vs then Some (st_append_sequence (last (take m vs))) else None)"
    using m by (auto simp: page_rows_def vs_def[symmetric] sorted Let_def min_def)
  show ?thesis
  proof (cases "m < length vs")
    case False
    then show ?thesis using page by (simp flip: vs_def)
  next
    case True
    let ?r = "last (take m vs)"
    have seen: "\<forall>r \<in> set vs. visible q r" by (simp add: vs_def)
    have ne: "take m vs \<noteq> []" using True m(2) by auto
    have "?r \<in> set vs" by (rule in_set_takeD[OF last_in_set[OF ne]])
    then have v: "visible q ?r" using seen by blast
    have split: "filter (\<lambda>r. visible q r \<and> n < st_append_sequence r) (lg_rows l) =
        filter (\<lambda>r. n < st_append_sequence r) vs" for n
      unfolding vs_def filter_filter by (rule filter_cong) auto
    have "filter (visible (q\<lparr>lq_after_sequence := Some (int (st_append_sequence ?r))\<rparr>)) (lg_rows l) =
        filter (\<lambda>r. st_append_sequence ?r < st_append_sequence r) vs"
      by (subst split[symmetric], rule filter_cong) (simp_all only: visible_beyond[OF v])
    also have "\<dots> = drop m vs"
      using filter_beyond_last[of st_append_sequence "take m vs" "drop m vs"] vs_strict ne by simp
    finally show ?thesis using page True by (simp flip: vs_def)
  qed
qed

section \<open>Witnesses\<close>

definition sample_draft :: "string \<Rightarrow> ProjectionIntentDraft" where
  "sample_draft key =
     \<lparr>dr_id = 11 + size key, dr_semantic_key = key, dr_schema_version = ''1'', dr_occurred_at = 0,
      dr_canonical_payload = ''{}'', dr_payload_sha256 = ''{}'',
      dr_details = \<lparr>pd_target_kind = ''ISSUE'', pd_operation_type = ''CREATE'',
        pd_aggregate_id = 7, pd_aggregate_version = 0, pd_status = ''PENDING''\<rparr>\<rparr>"

definition sample_commit :: "int \<Rightarrow> TickSliceCommit" where
  "sample_commit v =
     \<lparr>tc_commit_id = 5, tc_team_id = 7, tc_run_id = 8, tc_expected_runtime_version = v,
      tc_runtime_after = \<lparr>ra_state = ''RUNNING'', ra_simulation_time = 9, ra_next_wake_at = None\<rparr>,
      tc_activity = [], tc_ground_truth = [], tc_projection_intents = [sample_draft ''a'', sample_draft ''bc''],
      tc_recorded_at = 9\<rparr>"

definition sample_live_db :: live_db where
  "sample_live_db =
     \<lparr>ld_runtimes = [\<lparr>rt_id = 4, rt_team_id = 7, rt_run_id = 8, rt_version = 3, rt_state = ''RUNNING'',
        rt_simulation_time = 0, rt_next_wake_at = Some 0, rt_created_at = 0, rt_updated_at = 0\<rparr>],
      ld_activity = \<lparr>lg_rows = [], lg_next = 1\<rparr>, ld_ground_truth = \<lparr>lg_rows = [], lg_next = 1\<rparr>,
      ld_projection = \<lparr>lg_rows = [], lg_next = 1\<rparr>\<rparr>"

lemmas commit_eval = sample_commit_def sample_live_db_def sample_draft_def commit_tick_slice_def
  validate_commit_def check_runtime_advance_def advance_runtime_def cas_matches_def cas_values_def
  get_runtime_def persist_ledgers_def resolve_draft_def by_key_def new_row_def require_identical_def
  deduplication_content_def codec_eval enumerate_eq_zip

lemma sample_live_db_ok: "db_ok sample_live_db"
  by (simp add: db_ok_def sample_live_db_def ledger_ok_def)

lemma sample_commit_valid: "validate_commit toy_codec (sample_commit 3) = Inr ()"
  by (simp add: commit_eval Let_def)

definition sample_rows :: "ProjectionIntent list" where
  "sample_rows = [new_row (sample_commit 3) 0 1 (sample_draft ''a''), new_row (sample_commit 3) 1 2 (sample_draft ''bc'')]"

lemma sample_commit_result:
  "\<exists>db' out. commit_tick_slice toy_codec (sample_commit 3) sample_live_db = Inr (db', out) \<and>
     lg_rows (ld_projection db') = sample_rows \<and>
     (\<exists>db2 out2. commit_tick_slice toy_codec (sample_commit 4) db' = Inr (db2, out2))"
  by (simp add: commit_eval sample_rows_def Let_def)

theorem commit_tick_slice_effect_witness:
  "\<exists>db' out. commit_tick_slice toy_codec (sample_commit 3) sample_live_db = Inr (db', out) \<and>
     rt_version (cs_runtime out) = 4 \<and> db_ok db'"
proof -
  obtain db' out where c: "commit_tick_slice toy_codec (sample_commit 3) sample_live_db = Inr (db', out)"
    using sample_commit_result by blast
  show ?thesis using commit_tick_slice_effect[OF sample_live_db_ok c] c
    by (auto simp: cas_values_def sample_commit_def)
qed

theorem commit_tick_slice_no_lost_update_witness:
  "\<exists>db' out. commit_tick_slice toy_codec (sample_commit 3) sample_live_db = Inr (db', out) \<and>
     commit_tick_slice toy_codec (sample_commit 3) db' = Inl StaleRuntimeVersion"
proof -
  obtain db' out where c: "commit_tick_slice toy_codec (sample_commit 3) sample_live_db = Inr (db', out)"
    using sample_commit_result by blast
  show ?thesis
    using commit_tick_slice_no_lost_update[OF sample_live_db_ok c refl refl refl sample_commit_valid] c by blast
qed

theorem commit_tick_slice_replay_witness:
  "\<exists>db' out db2 out2. commit_tick_slice toy_codec (sample_commit 3) sample_live_db = Inr (db', out) \<and>
     commit_tick_slice toy_codec (sample_commit 4) db' = Inr (db2, out2) \<and>
     ld_projection db2 = ld_projection db' \<and> cs_projection_intents out2 = cs_projection_intents out"
proof -
  obtain db' out db2 out2 where
    c: "commit_tick_slice toy_codec (sample_commit 3) sample_live_db = Inr (db', out)" and
    d: "commit_tick_slice toy_codec (sample_commit 4) db' = Inr (db2, out2)"
    using sample_commit_result by blast
  show ?thesis
    using commit_tick_slice_replay[OF sample_live_db_ok c _ _ _ _ d] c d by (auto simp: sample_commit_def)
qed

theorem page_rows_complete_witness:
  "filter (visible \<lparr>lq_team_id = 7, lq_run_id = None, lq_after_sequence = None, lq_limit = 1\<rparr>) sample_rows =
     pg_items (page_rows \<lparr>lq_team_id = 7, lq_run_id = None, lq_after_sequence = None, lq_limit = 1\<rparr>
       \<lparr>lg_rows = sample_rows, lg_next = 3\<rparr>) @
     filter (visible \<lparr>lq_team_id = 7, lq_run_id = None, lq_after_sequence = Some 1, lq_limit = 1\<rparr>) sample_rows"
proof -
  let ?q = "\<lparr>lq_team_id = 7, lq_run_id = None, lq_after_sequence = None, lq_limit = 1\<rparr>"
  let ?l = "\<lparr>lg_rows = sample_rows, lg_next = 3\<rparr>"
  have "ledger_ok ?l" by (simp add: ledger_ok_def sample_rows_def new_row_def sample_draft_def)
  moreover have "pg_next_cursor (page_rows ?q ?l) = Some 1"
    by (simp add: page_rows_def sample_rows_def new_row_def visible_def sample_commit_def Let_def eval_nat_numeral)
  ultimately show ?thesis using page_rows_complete[of ?l ?q] by simp
qed

end
