(* ===== verification/Business_Calendar.thy ===== *)
theory Business_Calendar
  imports Live_Slice Py_Time
begin

text \<open>
  Business time of the second engine (\<open>v2/domain/business_calendar.py\<close>): local boundaries that must
  exist and be unambiguous, working intervals within the holiday horizon, the next working instant,
  elapsed and added business time, and the sprint cadence. Durations and instants are microseconds;
  the zone data base is the record \<open>zone\<close> (with \<open>astimezone\<close> and \<open>fold\<close>), and the lookup of a zone
  by name is an argument. Loops that the code writes with \<open>while True\<close> end at the horizon or are
  partial functions.
\<close>

abbreviation range_error :: py_exc where
  "range_error \<equiv> Value_Error ''calendar operation exceeds the supported datetime range''"

definition convert_timezone :: "int res \<Rightarrow> int res" where
  "convert_timezone r = (case r of Inl _ \<Rightarrow> Inl range_error | Inr t \<Rightarrow> Inr t)"

section \<open>Values\<close>

record UtcInterval =
  iv_start :: instant
  iv_end :: instant

definition utc_interval :: "instant \<Rightarrow> instant \<Rightarrow> UtcInterval res" where
  "utc_interval s e =
     (if e < s then Inl (Value_Error ''UTC interval must not be reversed'')
      else Inr \<lparr>iv_start = s, iv_end = e\<rparr>)"

record DualElapsed =
  el_calendar :: int
  el_business :: int

definition dual_elapsed :: "int \<Rightarrow> int \<Rightarrow> DualElapsed res" where
  "dual_elapsed cal bus =
     (if cal < 0 \<or> bus < 0 \<or> cal < bus
      then Inl (Value_Error ''elapsed clocks must be non-negative and ordered'')
      else Inr \<lparr>el_calendar = cal, el_business = bus\<rparr>)"

record BusinessTimeAddition =
  ba_start :: instant
  ba_duration :: int

definition business_time_addition :: "instant \<Rightarrow> int \<Rightarrow> BusinessTimeAddition res" where
  "business_time_addition s d =
     (if d < 0 then Inl (Value_Error ''business duration must be non-negative'')
      else Inr \<lparr>ba_start = s, ba_duration = d\<rparr>)"

record CadenceRule =
  cr_anchor :: instant
  cr_cadence_days :: int

definition cadence_rule :: "instant \<Rightarrow> int \<Rightarrow> CadenceRule res" where
  "cadence_rule anchor days =
     (if days \<le> 0 then Inl (Value_Error ''cadence_days must be a positive integer'')
      else Inr \<lparr>cr_anchor = anchor, cr_cadence_days = days\<rparr>)"

section \<open>Configuration\<close>

record CalendarBlueprint =
  cb_working_weekdays :: "string list"
  cb_workday_start :: string
  cb_workday_end :: string
  cb_profile :: string
  cb_version :: string
  cb_horizon_end :: int
  cb_holidays :: "int list"

record CalendarConfiguration =
  cc_timezone_name :: string
  cc_zone :: zone
  cc_weekdays :: "int list"
  cc_workday_start :: int
  cc_workday_end :: int
  cc_profile :: string
  cc_version :: string
  cc_horizon_end :: int
  cc_holidays :: "int list"

definition WEEKDAYS :: "string list" where
  "WEEKDAYS = [''MON'', ''TUE'', ''WED'', ''THU'', ''FRI'', ''SAT'', ''SUN'']"

fun weekday_position :: "string list \<Rightarrow> string \<Rightarrow> int \<Rightarrow> int option" where
  "weekday_position [] d k = None"
| "weekday_position (w # ws) d k = (if w = d then Some k else weekday_position ws d (k + 1))"

definition weekday_indices :: "string list \<Rightarrow> int list res" where
  "weekday_indices names =
     (if names = [] then Inl (Value_Error ''working weekdays must be a non-empty ordered tuple'')
      else
        bindR (mapR (\<lambda>d. case weekday_position WEEKDAYS d 0 of
                           None \<Rightarrow> Inl (Value_Error ''working weekday is unknown'')
                         | Some k \<Rightarrow> Inr k) names) (\<lambda>ks.
          if sorted_wrt (<) ks then Inr ks
          else Inl (Value_Error ''working weekdays must be unique and ordered'')))"

definition digit :: "char \<Rightarrow> int option" where
  "digit ch = (let k = (of_char ch :: int) in if 48 \<le> k \<and> k \<le> 57 then Some (k - 48) else None)"

text \<open>\<open>HH:MM\<close>, as microseconds into the day.\<close>

definition local_time :: "string \<Rightarrow> int res" where
  "local_time s =
     (let bad = Inl (Value_Error ''local work time must use HH:MM'') in
      case s of
        [a, b, c, d, e] \<Rightarrow>
          (case (digit a, digit b, digit d, digit e) of
             (Some h1, Some h0, Some m1, Some m0) \<Rightarrow>
               if c = CHR '':'' \<and> (h1 \<le> 1 \<or> h1 = 2 \<and> h0 \<le> 3) \<and> m1 \<le> 5
               then Inr ((10 * h1 + h0) * HOUR_US + (10 * m1 + m0) * 60000000)
               else bad
           | _ \<Rightarrow> bad)
      | _ \<Rightarrow> bad)"

definition check_identifier :: "string \<Rightarrow> string \<Rightarrow> string res" where
  "check_identifier value label =
     (if value = [] \<or> is_space (hd value) \<or> is_space (last value)
      then Inl (Value_Error (label @ '' must be a non-empty identifier'')) else Inr value)"

definition holiday_dates :: "int list \<Rightarrow> int \<Rightarrow> int list res" where
  "holiday_dates days horizon =
     (if \<not> sorted_wrt (<) days then Inl (Value_Error ''holidays must be unique and ordered'')
      else if \<exists>d \<in> set days. horizon < d then Inl (Value_Error ''holiday exceeds configured horizon'')
      else Inr days)"

definition calendar_configuration ::
  "(string \<Rightarrow> zone res) \<Rightarrow> string \<Rightarrow> CalendarBlueprint \<Rightarrow> CalendarConfiguration res" where
  "calendar_configuration resolve_zone name b =
     bindR (local_time (cb_workday_start b)) (\<lambda>s.
     bindR (local_time (cb_workday_end b)) (\<lambda>e.
       if e \<le> s then Inl (Value_Error ''workday interval must be ordered'')
       else
         bindR (check_identifier name ''timezone_name'') (\<lambda>n.
         bindR (resolve_zone name) (\<lambda>z.
         bindR (weekday_indices (cb_working_weekdays b)) (\<lambda>ks.
         bindR (check_identifier (cb_profile b) ''holiday profile'') (\<lambda>p.
         bindR (check_identifier (cb_version b) ''holiday version'') (\<lambda>v.
         bindR (holiday_dates (cb_holidays b) (cb_horizon_end b)) (\<lambda>hs.
           Inr \<lparr>cc_timezone_name = n, cc_zone = z, cc_weekdays = ks, cc_workday_start = s,
                cc_workday_end = e, cc_profile = p, cc_version = v,
                cc_horizon_end = cb_horizon_end b, cc_holidays = hs\<rparr>))))))))"

section \<open>Local boundaries\<close>

definition roundtrip_candidate :: "zone \<Rightarrow> int \<Rightarrow> bool \<Rightarrow> instant option res" where
  "roundtrip_candidate z naive fd =
     bindR (convert_timezone (to_utc z naive fd)) (\<lambda>candidate.
     bindR (convert_timezone (to_local z candidate)) (\<lambda>l.
       Inr (if l \<noteq> naive \<or> z_fold z candidate \<noteq> fd then None else Some candidate)))"

definition resolve_local :: "zone \<Rightarrow> int \<Rightarrow> int \<Rightarrow> instant res" where
  "resolve_local z day clock =
     bindR (roundtrip_candidate z (combine day clock) False) (\<lambda>first.
     bindR (roundtrip_candidate z (combine day clock) True) (\<lambda>second.
       case (first, second) of
         (None, None) \<Rightarrow> Inl (Value_Error ''local boundary is nonexistent'')
       | (Some a, Some b) \<Rightarrow>
           if a \<noteq> b then Inl (Value_Error ''local boundary is ambiguous'') else Inr a
       | (Some a, None) \<Rightarrow> Inr a
       | (None, Some b) \<Rightarrow> Inr b))"

section \<open>Working time\<close>

definition business_date :: "CalendarConfiguration \<Rightarrow> instant \<Rightarrow> int res" where
  "business_date c t =
     bindR (convert_timezone (to_local (cc_zone c) t)) (\<lambda>l. Inr (local_date l))"

definition working_interval :: "CalendarConfiguration \<Rightarrow> int \<Rightarrow> UtcInterval option res" where
  "working_interval c day =
     (if cc_horizon_end c < day then Inl (Value_Error ''day exceeds the holiday horizon'')
      else if weekday day \<notin> set (cc_weekdays c) \<or> day \<in> set (cc_holidays c) then Inr None
      else
        bindR (resolve_local (cc_zone c) day (cc_workday_start c)) (\<lambda>s.
        bindR (resolve_local (cc_zone c) day (cc_workday_end c)) (\<lambda>e.
        bindR (utc_interval s e) (\<lambda>iv. Inr (Some iv)))))"

definition business_day_end :: "CalendarConfiguration \<Rightarrow> int \<Rightarrow> instant option res" where
  "business_day_end c day = bindR (working_interval c day) (\<lambda>iv. Inr (map_option iv_end iv))"

definition next_day_within_horizon :: "int \<Rightarrow> int \<Rightarrow> int res" where
  "next_day_within_horizon day horizon =
     (if horizon \<le> day then Inl (Value_Error ''no working instant exists within the holiday horizon'')
      else Inr (day + 1))"

function scan_working :: "CalendarConfiguration \<Rightarrow> instant \<Rightarrow> int \<Rightarrow> instant res" where
  "scan_working c t day =
     bindR (working_interval c day) (\<lambda>iv.
       case iv of
         Some i \<Rightarrow>
           if t < iv_start i then Inr (iv_start i)
           else if t < iv_end i then Inr t
           else bindR (next_day_within_horizon day (cc_horizon_end c)) (\<lambda>d. scan_working c t d)
       | None \<Rightarrow> bindR (next_day_within_horizon day (cc_horizon_end c)) (\<lambda>d. scan_working c t d))"
  by pat_completeness auto
termination
  by (relation "measure (\<lambda>(c, t, day). nat (cc_horizon_end c - day))")
    (auto simp: next_day_within_horizon_def split: if_splits)

declare scan_working.simps [simp del]

definition next_working_instant :: "CalendarConfiguration \<Rightarrow> instant \<Rightarrow> instant res" where
  "next_working_instant c t = bindR (business_date c t) (\<lambda>day. scan_working c t day)"

definition intersection :: "UtcInterval \<Rightarrow> UtcInterval \<Rightarrow> int" where
  "intersection a b = max 0 (min (iv_end a) (iv_end b) - max (iv_start a) (iv_start b))"

function sum_days :: "CalendarConfiguration \<Rightarrow> UtcInterval \<Rightarrow> int \<Rightarrow> int \<Rightarrow> int \<Rightarrow> int res" where
  "sum_days c interval day final acc =
     (if final < day then Inr acc
      else
        bindR (working_interval c day) (\<lambda>iv.
          let acc' = (case iv of None \<Rightarrow> acc | Some i \<Rightarrow> acc + intersection interval i)
          in if day = final then Inr acc' else sum_days c interval (day + 1) final acc'))"
  by pat_completeness auto
termination
  by (relation "measure (\<lambda>(c, interval, day, final, acc). nat (final + 1 - day))") auto

declare sum_days.simps [simp del]

definition elapsed :: "CalendarConfiguration \<Rightarrow> UtcInterval \<Rightarrow> DualElapsed res" where
  "elapsed c interval =
     (let cal = iv_end interval - iv_start interval in
      if cal = 0 then dual_elapsed 0 0
      else
        bindR (business_date c (iv_start interval)) (\<lambda>day.
        bindR (business_date c (iv_end interval - 1)) (\<lambda>final.
        bindR (sum_days c interval day final 0) (\<lambda>bus. dual_elapsed cal bus))))"

partial_function (option) add_loop ::
  "CalendarConfiguration \<Rightarrow> int \<Rightarrow> instant \<Rightarrow> instant res option" where
  "add_loop c remaining cursor =
     (case bindR (business_date c cursor) (working_interval c) of
        Inl e \<Rightarrow> Some (Inl e)
      | Inr None \<Rightarrow> Some (Inl (Runtime_Error ''next working instant has no working interval''))
      | Inr (Some iv) \<Rightarrow>
          (let available = iv_end iv - cursor in
           if remaining \<le> available then Some (Inr (cursor + remaining))
           else
             (case next_working_instant c (iv_end iv) of
                Inl e \<Rightarrow> Some (Inl e)
              | Inr next \<Rightarrow> add_loop c (remaining - available) next)))"

definition add_business_time :: "CalendarConfiguration \<Rightarrow> BusinessTimeAddition \<Rightarrow> instant res option" where
  "add_business_time c r =
     (if ba_duration r = 0 then Some (Inr (ba_start r))
      else
        (case next_working_instant c (ba_start r) of
           Inl e \<Rightarrow> Some (Inl e)
         | Inr cursor \<Rightarrow> add_loop c (ba_duration r) cursor))"

definition cadence_boundary :: "CalendarConfiguration \<Rightarrow> CadenceRule \<Rightarrow> int \<Rightarrow> instant res" where
  "cadence_boundary c rule ordinal =
     (if ordinal < 0 then Inl (Value_Error ''ordinal must be a non-negative integer'')
      else if ordinal = 0 then Inr (cr_anchor rule)
      else
        bindR (convert_timezone (to_local (cc_zone c) (cr_anchor rule))) (\<lambda>l.
        bindR (convert_timezone (date_add (local_date l) (cr_cadence_days rule * ordinal))) (\<lambda>day.
          resolve_local (cc_zone c) day (local_clock l))))"

section \<open>Boundaries\<close>

text \<open>
  \<open>zoneinfo\<close> lists every instant that shows a given local time: it is the conversion of that time
  with the fold the instant itself has.
\<close>

definition zone_complete :: "zone \<Rightarrow> bool" where
  "zone_complete z \<longleftrightarrow> (\<forall>u. z_utc z (z_local z u) (z_fold z u) = u)"

lemma convert_timezone_Inr: "convert_timezone r = Inr t \<longleftrightarrow> r = Inr t"
  by (simp add: convert_timezone_def split: sum.splits)

lemma to_utc_Inr_iff: "to_utc z l f = Inr t \<longleftrightarrow> t = z_utc z l f \<and> valid_instant t"
  by (auto simp: to_utc_def Let_def)

lemma to_local_Inr_iff: "to_local z t = Inr l \<longleftrightarrow> l = z_local z t \<and> valid_instant l"
  by (auto simp: to_local_def Let_def)

lemma roundtrip_candidate_Inr:
  "roundtrip_candidate z n f = Inr r \<Longrightarrow>
   valid_instant (z_utc z n f) \<and> valid_instant (z_local z (z_utc z n f)) \<and>
   r = (if z_local z (z_utc z n f) = n \<and> z_fold z (z_utc z n f) = f then Some (z_utc z n f) else None)"
  by (auto simp: roundtrip_candidate_def convert_timezone_Inr to_utc_Inr_iff to_local_Inr_iff elim!: bindR_InrE)

text \<open>A resolved boundary is an instant with that local time, and the only one.\<close>

lemma resolve_local_Inr:
  assumes "resolve_local z d c = Inr u"
  shows "valid_instant u \<and> z_local z u = combine d c \<and>
    (zone_complete z \<longrightarrow> (\<forall>v. z_local z v = combine d c \<longrightarrow> v = u))"
proof -
  let ?n = "combine d c"
  obtain a b where a: "roundtrip_candidate z ?n False = Inr a" and b: "roundtrip_candidate z ?n True = Inr b"
    and r: "(case (a, b) of
         (None, None) \<Rightarrow> Inl (Value_Error ''local boundary is nonexistent'')
       | (Some a, Some b) \<Rightarrow>
           if a \<noteq> b then Inl (Value_Error ''local boundary is ambiguous'') else Inr a
       | (Some a, None) \<Rightarrow> Inr a
       | (None, Some b) \<Rightarrow> Inr b) = Inr u"
    using assms unfolding resolve_local_def by (elim bindR_InrE) blast
  note ra = roundtrip_candidate_Inr[OF a] and rb = roundtrip_candidate_Inr[OF b]
  have only: "v = u" if "zone_complete z" "z_local z v = ?n" for v
  proof -
    have v: "z_utc z ?n (z_fold z v) = v" using that by (metis zone_complete_def)
    show ?thesis
    proof (cases "z_fold z v")
      case True
      then have "b = Some v" using rb v that(2) by simp
      then show ?thesis using r by (auto split: option.splits if_splits)
    next
      case False
      then have "a = Some v" using ra v that(2) by simp
      then show ?thesis using r by (auto split: option.splits if_splits)
    qed
  qed
  have "a = Some u \<or> b = Some u" using r by (auto split: option.splits if_splits)
  then have "valid_instant u \<and> z_local z u = ?n" using ra rb by (auto split: if_splits)
  then show ?thesis using only by blast
qed

section \<open>Working instants\<close>

text \<open>
  The abstract notion the algorithms implement: an instant is a working one if it lies in the
  working interval of some day.
\<close>

definition working_instant :: "CalendarConfiguration \<Rightarrow> instant \<Rightarrow> bool" where
  "working_instant c t \<longleftrightarrow>
     (\<exists>day iv. working_interval c day = Inr (Some iv) \<and> iv_start iv \<le> t \<and> t < iv_end iv)"

text \<open>
  A boundary the calendar accepts separates the local clock: earlier instants show an earlier
  local time, later ones a later one. (A zone whose clock is set back across an accepted boundary
  would break this; the changes of real zones make the skipped or repeated times inacceptable.)
\<close>

definition separating :: "zone \<Rightarrow> bool" where
  "separating z \<longleftrightarrow>
     (\<forall>d c u t. resolve_local z d c = Inr u \<longrightarrow> (z_local z t < combine d c \<longleftrightarrow> t < u))"

lemma separating_fixed: "separating (fixed_zone off)"
  by (auto simp: separating_def fixed_zone_def dest!: resolve_local_Inr)

lemma zone_complete_fixed: "zone_complete (fixed_zone off)"
  by (simp add: zone_complete_def fixed_zone_def)

definition clocks_ok :: "CalendarConfiguration \<Rightarrow> bool" where
  "clocks_ok c \<longleftrightarrow>
     separating (cc_zone c) \<and> 0 \<le> cc_workday_start c \<and> cc_workday_start c < cc_workday_end c \<and>
     cc_workday_end c < DAY_US"

lemma working_interval_Some:
  "working_interval c day = Inr (Some iv) \<Longrightarrow>
     day \<le> cc_horizon_end c \<and>
     resolve_local (cc_zone c) day (cc_workday_start c) = Inr (iv_start iv) \<and>
     resolve_local (cc_zone c) day (cc_workday_end c) = Inr (iv_end iv) \<and> iv_start iv \<le> iv_end iv"
  by (auto simp: working_interval_def utc_interval_def elim!: bindR_InrE split: if_splits)

lemma combine_day_less:
  "d < e \<Longrightarrow> c < DAY_US \<Longrightarrow> 0 \<le> c' \<Longrightarrow> combine d c < combine e c'"
proof -
  assume a: "d < e" "c < DAY_US" "0 \<le> c'"
  have "(d - 1) * DAY_US + DAY_US \<le> (e - 1) * DAY_US"
    using a(1) mult_right_mono[of d "e - 1" DAY_US] by (simp add: DAY_US_def algebra_simps)
  then show ?thesis using a by (simp add: combine_def)
qed

text \<open>The interval of a day against an instant whose local date is known.\<close>

lemma interval_vs_date:
  assumes "clocks_ok c" and "working_interval c day = Inr (Some iv)"
  shows "day < local_date (z_local (cc_zone c) t) \<Longrightarrow> iv_end iv \<le> t"
    and "local_date (z_local (cc_zone c) t) < day \<Longrightarrow> t < iv_start iv"
proof -
  let ?l = "z_local (cc_zone c) t"
  note w = working_interval_Some[OF assms(2)]
  have sep: "?l < combine day (cc_workday_start c) \<longleftrightarrow> t < iv_start iv"
    "?l < combine day (cc_workday_end c) \<longleftrightarrow> t < iv_end iv"
    using assms(1) w unfolding clocks_ok_def separating_def by blast+
  have l: "?l = combine (local_date ?l) (local_clock ?l)" by (simp add: local_split)
  have c: "0 \<le> local_clock ?l" "local_clock ?l < DAY_US" using local_clock_range[of ?l] by simp_all
  show "iv_end iv \<le> t" if "day < local_date ?l"
    using combine_day_less[OF that, of "cc_workday_end c" "local_clock ?l"] assms(1) c l sep(2)
    by (simp add: clocks_ok_def)
  show "t < iv_start iv" if "local_date ?l < day"
    using combine_day_less[OF that, of "local_clock ?l" "cc_workday_start c"] assms(1) c l sep(1)
    by (simp add: clocks_ok_def)
qed

lemma interval_date:
  assumes "clocks_ok c" and "working_interval c day = Inr (Some iv)"
    and "iv_start iv \<le> t" and "t < iv_end iv"
  shows "local_date (z_local (cc_zone c) t) = day"
  using interval_vs_date[OF assms(1,2), of t] assms(3,4) by fastforce

lemma business_date_Inr: "business_date c t = Inr d \<Longrightarrow> d = local_date (z_local (cc_zone c) t)"
  by (auto simp: business_date_def convert_timezone_Inr to_local_Inr_iff elim!: bindR_InrE)

lemma interval_nonempty:
  assumes "clocks_ok c" and "working_interval c day = Inr (Some iv)"
  shows "iv_start iv < iv_end iv"
proof -
  note w = working_interval_Some[OF assms(2)]
  have "z_local (cc_zone c) (iv_start iv) < combine day (cc_workday_end c)"
    using assms(1) w resolve_local_Inr[of "cc_zone c" day "cc_workday_start c" "iv_start iv"]
    by (simp add: clocks_ok_def combine_def)
  then show ?thesis using assms(1) w unfolding clocks_ok_def separating_def by blast
qed

section \<open>The next working instant\<close>

lemma scan_working_first:
  assumes "clocks_ok c" and "scan_working c t day = Inr u"
    and "\<forall>D iv. D < day \<and> working_interval c D = Inr (Some iv) \<longrightarrow> iv_end iv \<le> t"
  shows "t \<le> u \<and> working_instant c u \<and> (\<forall>v. t \<le> v \<and> v < u \<longrightarrow> \<not> working_instant c v)"
  using assms
proof (induction c t day rule: scan_working.induct)
  case (1 c t day)
  obtain iv where iv: "working_interval c day = Inr iv"
    using "1.prems"(2) by (subst (asm) scan_working.simps) (auto elim: bindR_InrE)
  show ?case
  proof (cases "\<exists>i. iv = Some i \<and> t < iv_end i")
    case True
    then obtain i where i: "iv = Some i" "t < iv_end i" by blast
    have w: "working_interval c day = Inr (Some i)" using iv i by simp
    have u: "u = (if t < iv_start i then iv_start i else t)"
      using "1.prems"(2) iv i by (subst (asm) scan_working.simps) (auto split: if_splits)
    then have "working_instant c u"
      unfolding working_instant_def using w i(2) interval_nonempty[OF "1.prems"(1) w]
      by (intro exI[of _ day] exI[of _ i]) auto
    moreover have "\<not> working_instant c v" if v: "t \<le> v" "v < u" for v
    proof
      assume "working_instant c v"
      then obtain D j where j: "working_interval c D = Inr (Some j)" "iv_start j \<le> v" "v < iv_end j"
        by (auto simp: working_instant_def)
      have "v < iv_start i" "u = iv_start i" using v u by (auto split: if_splits)
      have "D \<noteq> day" using j w \<open>v < iv_start i\<close> by auto
      moreover have "\<not> D < day" using "1.prems"(3) j v(1) by fastforce
      moreover have "\<not> day < D"
      proof
        assume "day < D"
        moreover have "local_date (z_local (cc_zone c) (iv_start i)) = day"
          using interval_date[OF "1.prems"(1) w] interval_nonempty[OF "1.prems"(1) w] by simp
        ultimately have "iv_start i < iv_start j" using interval_vs_date(2)[OF "1.prems"(1) j(1)] by simp
        then show False using j(2) \<open>v < iv_start i\<close> by simp
      qed
      ultimately show False by simp
    qed
    ultimately show ?thesis using u by auto
  next
    case False
    have past: "\<not> t < iv_start i" if "iv = Some i" for i
      using False that interval_nonempty[OF "1.prems"(1), of day i] iv by auto
    then have r: "bindR (next_day_within_horizon day (cc_horizon_end c)) (\<lambda>d. scan_working c t d) = Inr u"
      using "1.prems"(2) iv False by (subst (asm) scan_working.simps) (auto split: option.splits if_splits)
    then obtain d where d: "next_day_within_horizon day (cc_horizon_end c) = Inr d" "scan_working c t d = Inr u"
      by (rule bindR_InrE)
    then have d1: "d = day + 1" by (auto simp: next_day_within_horizon_def split: if_splits)
    have pre: "\<forall>D iv. D < d \<and> working_interval c D = Inr (Some iv) \<longrightarrow> iv_end iv \<le> t"
    proof (intro allI impI)
      fix D j assume a: "D < d \<and> working_interval c D = Inr (Some j)"
      show "iv_end j \<le> t"
      proof (cases "D = day")
        case True
        then show ?thesis using a iv False by auto
      next
        case False
        then have "D < day" using a d1 by simp
        then show ?thesis using a "1.prems"(3) by blast
      qed
    qed
    show ?thesis
    proof (cases iv)
      case None
      show ?thesis by (rule "1.IH"(1)[OF iv None d(1) "1.prems"(1) d(2) pre])
    next
      case (Some i)
      then have "\<not> t < iv_start i" "\<not> t < iv_end i" using False past by auto
      then show ?thesis using "1.IH" iv Some d "1.prems"(1) pre by blast
    qed
  qed
qed

lemma next_working_instant_spec:
  assumes "clocks_ok c" and "next_working_instant c t = Inr u"
  shows "t \<le> u \<and> working_instant c u \<and> (\<forall>v. t \<le> v \<and> v < u \<longrightarrow> \<not> working_instant c v)"
proof -
  obtain day where d: "business_date c t = Inr day" "scan_working c t day = Inr u"
    using assms(2) by (auto simp: next_working_instant_def elim: bindR_InrE)
  have "\<forall>D iv. D < day \<and> working_interval c D = Inr (Some iv) \<longrightarrow> iv_end iv \<le> t"
    using interval_vs_date(1)[OF assms(1)] business_date_Inr[OF d(1)] by blast
  then show ?thesis by (rule scan_working_first[OF assms(1) d(2)])
qed

section \<open>Elapsed business time\<close>

definition on_day :: "CalendarConfiguration \<Rightarrow> int \<Rightarrow> instant set" where
  "on_day c D = (case working_interval c D of Inr (Some iv) \<Rightarrow> {iv_start iv..<iv_end iv} | _ \<Rightarrow> {})"

definition worked :: "CalendarConfiguration \<Rightarrow> instant \<Rightarrow> instant \<Rightarrow> instant set" where
  "worked c a b = {v \<in> {a..<b}. working_instant c v}"

lemma finite_worked [simp]: "finite (worked c a b)"
  by (rule finite_subset[of _ "{a..<b}"]) (auto simp: worked_def)

lemma on_day_iff:
  "v \<in> on_day c D \<longleftrightarrow>
   (\<exists>iv. working_interval c D = Inr (Some iv) \<and> iv_start iv \<le> v \<and> v < iv_end iv)"
proof (cases "working_interval c D")
  case (Inr r)
  then show ?thesis by (cases r) (auto simp: on_day_def)
qed (simp add: on_day_def)

lemma working_on_day: "working_instant c v \<longleftrightarrow> (\<exists>D. v \<in> on_day c D)"
  by (simp add: working_instant_def on_day_iff)

lemma on_day_date:
  "clocks_ok c \<Longrightarrow> v \<in> on_day c D \<Longrightarrow> local_date (z_local (cc_zone c) v) = D"
  by (auto simp: on_day_iff intro: interval_date)

lemma max_0_nat: "max 0 x = int (nat x)"
  by simp

lemma card_intersection:
  "intersection i iv = int (card ({iv_start i..<iv_end i} \<inter> {iv_start iv..<iv_end iv}))"
proof -
  have "{iv_start i..<iv_end i} \<inter> {iv_start iv..<iv_end iv} =
      {max (iv_start i) (iv_start iv)..<min (iv_end i) (iv_end iv)}" by auto
  then show ?thesis by (simp only: card_atLeastLessThan_int intersection_def max_0_nat)
qed

lemma sum_days_counts:
  assumes "clocks_ok c" and "sum_days c i day final acc = Inr r"
  shows "r = acc + int (card {v \<in> {iv_start i..<iv_end i}. \<exists>D \<in> {day..final}. v \<in> on_day c D})"
  using assms
proof (induction c i day final acc rule: sum_days.induct)
  case (1 c i day final acc)
  let ?W = "\<lambda>d. {v \<in> {iv_start i..<iv_end i}. \<exists>D \<in> {d..final}. v \<in> on_day c D}"
  show ?case
  proof (cases "final < day")
    case True
    then show ?thesis using "1.prems"(2) by (subst (asm) sum_days.simps) auto
  next
    case False
    obtain iv where iv: "working_interval c day = Inr iv"
      using "1.prems"(2) False by (subst (asm) sum_days.simps) (auto elim: bindR_InrE)
    define acc' where "acc' = (case iv of None \<Rightarrow> acc | Some j \<Rightarrow> acc + intersection i j)"
    have here: "acc' = acc + int (card ({iv_start i..<iv_end i} \<inter> on_day c day))"
      by (simp add: acc'_def on_day_def iv card_intersection split: option.splits)
    have split: "?W day = ({iv_start i..<iv_end i} \<inter> on_day c day) \<union> ?W (day + 1)"
    proof -
      have "{day..final} = insert day {day + 1..final}" using False by auto
      then show ?thesis by auto
    qed
    have "({iv_start i..<iv_end i} \<inter> on_day c day) \<inter> ?W (day + 1) = {}"
    proof (rule ccontr)
      assume "({iv_start i..<iv_end i} \<inter> on_day c day) \<inter> ?W (day + 1) \<noteq> {}"
      then obtain v where v: "v \<in> on_day c day" "\<exists>D\<in>{day + 1..final}. v \<in> on_day c D" by blast
      then obtain D where "D \<in> {day + 1..final}" "v \<in> on_day c D" by blast
      then show False
        using on_day_date[OF "1.prems"(1) v(1)] on_day_date[OF "1.prems"(1), of v D] by simp
    qed
    moreover have "finite (?W (day + 1))"
      by (rule finite_subset[of _ "{iv_start i..<iv_end i}"]) auto
    moreover have "finite ({iv_start i..<iv_end i} \<inter> on_day c day)" by simp
    ultimately have card: "card (?W day) = card ({iv_start i..<iv_end i} \<inter> on_day c day) + card (?W (day + 1))"
      unfolding split by (intro card_Un_disjoint)
    show ?thesis
    proof (cases "day = final")
      case True
      then have "r = acc'" using "1.prems"(2) iv False
        by (subst (asm) sum_days.simps) (simp add: Let_def acc'_def)
      moreover have none: "?W (day + 1) = {}" using True by auto
      have "card (?W day) = card ({iv_start i..<iv_end i} \<inter> on_day c day)"
        using card unfolding none by simp
      ultimately show ?thesis using here by simp
    next
      case ne: False
      then have "sum_days c i (day + 1) final acc' = Inr r" using "1.prems"(2) iv False
        by (subst (asm) sum_days.simps) (simp add: Let_def acc'_def)
      then have "r = acc' + int (card (?W (day + 1)))"
        using "1.IH"[OF False iv acc'_def ne "1.prems"(1)] by simp
      then show ?thesis using here card by simp
    qed
  qed
qed

lemma elapsed_spec:
  assumes "clocks_ok c" and "iv_start i \<le> iv_end i" and "elapsed c i = Inr el"
  shows "el_calendar el = iv_end i - iv_start i \<and>
    el_business el = int (card (worked c (iv_start i) (iv_end i)))"
proof (cases "iv_end i - iv_start i = 0")
  case True
  then have "worked c (iv_start i) (iv_end i) = {}" by (auto simp: worked_def)
  then show ?thesis using assms(3) True by (auto simp: elapsed_def dual_elapsed_def)
next
  case False
  obtain day final bus where d: "business_date c (iv_start i) = Inr day"
    "business_date c (iv_end i - 1) = Inr final" "sum_days c i day final 0 = Inr bus"
    "dual_elapsed (iv_end i - iv_start i) bus = Inr el"
    using assms(3) False by (auto simp: elapsed_def Let_def elim!: bindR_InrE)
  have el: "el_calendar el = iv_end i - iv_start i" "el_business el = bus"
    using d(4) by (auto simp: dual_elapsed_def split: if_splits)
  have "D \<in> {day..final}" if v: "v \<in> {iv_start i..<iv_end i}" "v \<in> on_day c D" for v D
  proof -
    obtain iv where iv: "working_interval c D = Inr (Some iv)" "iv_start iv \<le> v" "v < iv_end iv"
      using v(2) by (auto simp: on_day_iff)
    have "\<not> D < day"
      using interval_vs_date(1)[OF assms(1) iv(1), of "iv_start i"] business_date_Inr[OF d(1)] iv v(1)
      by fastforce
    moreover have "\<not> final < D"
      using interval_vs_date(2)[OF assms(1) iv(1), of "iv_end i - 1"] business_date_Inr[OF d(2)] iv v(1)
      by fastforce
    ultimately show ?thesis by simp
  qed
  then have "worked c (iv_start i) (iv_end i) =
      {v \<in> {iv_start i..<iv_end i}. \<exists>D \<in> {day..final}. v \<in> on_day c D}"
    by (auto simp: worked_def working_on_day)
  then show ?thesis using sum_days_counts[OF assms(1) d(3)] el by simp
qed

section \<open>Adding business time\<close>

lemma worked_split: "a \<le> b \<Longrightarrow> b \<le> e \<Longrightarrow> worked c a e = worked c a b \<union> worked c b e"
  by (auto simp: worked_def)

lemma card_worked_split:
  assumes "a \<le> b" and "b \<le> e"
  shows "card (worked c a e) = card (worked c a b) + card (worked c b e)"
proof -
  have "worked c a b \<inter> worked c b e = {}" by (auto simp: worked_def)
  then have "card (worked c a b \<union> worked c b e) = card (worked c a b) + card (worked c b e)"
    by (intro card_Un_disjoint) simp_all
  then show ?thesis by (simp only: worked_split[OF assms])
qed

lemma worked_in_interval:
  assumes "working_interval c D = Inr (Some iv)" and "iv_start iv \<le> a" and "b \<le> iv_end iv"
  shows "worked c a b = {a..<b}"
proof -
  have "working_instant c v" if "a \<le> v" "v < b" for v
    unfolding working_instant_def using assms that by (intro exI[of _ D] exI[of _ iv]) simp
  then show ?thesis by (auto simp: worked_def)
qed

lemma worked_none: "\<forall>v. a \<le> v \<and> v < b \<longrightarrow> \<not> working_instant c v \<Longrightarrow> worked c a b = {}"
  by (auto simp: worked_def)

lemma add_loop_spec:
  assumes "clocks_ok c" and "working_instant c cursor" and "0 < remaining"
  shows "\<exists>r. add_loop c remaining cursor = Some r \<and>
    (\<forall>e. r = Inr e \<longrightarrow> cursor \<le> e \<and> int (card (worked c cursor e)) = remaining \<and> working_instant c (e - 1))"
  using assms(2,3)
proof (induction "nat remaining" arbitrary: remaining cursor rule: less_induct)
  case less
  obtain D iv where iv: "working_interval c D = Inr (Some iv)" "iv_start iv \<le> cursor" "cursor < iv_end iv"
    using less.prems(1) by (auto simp: working_instant_def)
  have date: "local_date (z_local (cc_zone c) cursor) = D" by (rule interval_date[OF assms(1) iv])
  show ?case
  proof (cases "business_date c cursor")
    case (Inl x)
    then show ?thesis by (subst add_loop.simps) simp
  next
    case (Inr d)
    then have w: "bindR (business_date c cursor) (working_interval c) = Inr (Some iv)"
      using business_date_Inr[OF Inr] date iv(1) by simp
    let ?avail = "iv_end iv - cursor"
    show ?thesis
    proof (cases "remaining \<le> ?avail")
      case True
      have "worked c cursor (cursor + remaining) = {cursor..<cursor + remaining}"
        using True iv by (intro worked_in_interval[OF iv(1)]) auto
      moreover have "working_instant c (cursor + remaining - 1)"
        unfolding working_instant_def using True iv less.prems(2)
        by (intro exI[of _ D] exI[of _ iv]) auto
      ultimately show ?thesis using True w less.prems(2) by (subst add_loop.simps) simp
    next
      case False
      show ?thesis
      proof (cases "next_working_instant c (iv_end iv)")
        case (Inl x)
        then show ?thesis using False w by (subst add_loop.simps) simp
      next
        case (Inr n)
        note spec = next_working_instant_spec[OF assms(1) Inr]
        have eq: "add_loop c remaining cursor = add_loop c (remaining - ?avail) n"
          using False w Inr by (subst add_loop.simps) simp
        have "nat (remaining - ?avail) < nat remaining" "0 < remaining - ?avail"
          using False iv(3) by simp_all
        then obtain r where r: "add_loop c (remaining - ?avail) n = Some r"
          "\<forall>e. r = Inr e \<longrightarrow> n \<le> e \<and> int (card (worked c n e)) = remaining - ?avail \<and> working_instant c (e - 1)"
          using less.hyps[of "remaining - ?avail" n] spec by blast
        have "cursor \<le> e \<and> int (card (worked c cursor e)) = remaining \<and> working_instant c (e - 1)"
          if e: "r = Inr e" for e
        proof -
          note re = r(2)[rule_format, OF e]
          have "card (worked c cursor e) =
              card (worked c cursor (iv_end iv)) + (card (worked c (iv_end iv) n) + card (worked c n e))"
            using re spec iv(3) by (subst card_worked_split[of _ "iv_end iv"], simp, simp)
              (subst card_worked_split[of _ n], simp_all)
          moreover have "worked c cursor (iv_end iv) = {cursor..<iv_end iv}"
            by (rule worked_in_interval[OF iv(1,2)]) simp
          moreover have "worked c (iv_end iv) n = {}" using spec by (intro worked_none) blast
          ultimately show ?thesis using re spec iv(3) by simp
        qed
        then show ?thesis using eq r(1) by auto
      qed
    qed
  qed
qed

lemma add_business_time_spec:
  assumes "clocks_ok c" and "0 \<le> ba_duration r"
  shows "\<exists>res. add_business_time c r = Some res \<and>
    (\<forall>e. res = Inr e \<longrightarrow> ba_start r \<le> e \<and> int (card (worked c (ba_start r) e)) = ba_duration r)"
proof (cases "ba_duration r = 0")
  case True
  moreover have "worked c (ba_start r) (ba_start r) = {}" by (auto simp: worked_def)
  ultimately show ?thesis by (simp add: add_business_time_def)
next
  case False
  show ?thesis
  proof (cases "next_working_instant c (ba_start r)")
    case (Inl x)
    then show ?thesis using False by (simp add: add_business_time_def)
  next
    case (Inr n)
    note spec = next_working_instant_spec[OF assms(1) Inr]
    obtain res where res: "add_loop c (ba_duration r) n = Some res"
      "\<forall>e. res = Inr e \<longrightarrow> n \<le> e \<and> int (card (worked c n e)) = ba_duration r \<and> working_instant c (e - 1)"
      using add_loop_spec[OF assms(1), of n "ba_duration r"] spec False assms(2) by auto
    have "worked c (ba_start r) n = {}" using spec by (intro worked_none) blast
    then have "card (worked c (ba_start r) e) = card (worked c n e)" if "n \<le> e" for e
      using card_worked_split[of "ba_start r" n e c] spec that by simp
    then have "\<forall>e. res = Inr e \<longrightarrow>
        ba_start r \<le> e \<and> int (card (worked c (ba_start r) e)) = ba_duration r"
      using res(2) spec by fastforce
    then show ?thesis using res(1) Inr False by (simp add: add_business_time_def)
  qed
qed

section \<open>Properties\<close>

text \<open>The local boundary \<open>_resolve_local\<close> returns is an instant that shows exactly this date and
  clock in the zone, and the only one: a time that a clock change skips or repeats is refused.\<close>

theorem resolve_local_unique:
  assumes "zone_complete z" and "resolve_local z d c = Inr u"
  shows "valid_instant u \<and> (\<forall>v. z_local z v = combine d c \<longleftrightarrow> v = u)"
  using resolve_local_Inr[OF assms(2)] assms(1) by blast

text \<open>\<open>next_working_instant\<close> returns the earliest instant, not before the given one, at which the
  team works: no working instant is skipped.\<close>

theorem next_working_instant_first:
  assumes "clocks_ok c" and "next_working_instant c t = Inr u"
  shows "t \<le> u \<and> working_instant c u \<and> (\<forall>v. t \<le> v \<and> v < u \<longrightarrow> \<not> working_instant c v)"
  by (rule next_working_instant_spec[OF assms])

text \<open>\<open>elapsed\<close> returns the length of the interval as calendar time and the number of its
  working instants (microseconds) as business time, whatever nights, weekends and holidays it
  spans.\<close>

theorem elapsed_counts_worked:
  assumes "clocks_ok c" and "iv_start i \<le> iv_end i" and "elapsed c i = Inr el"
  shows "el_calendar el = iv_end i - iv_start i \<and>
    el_business el = int (card (worked c (iv_start i) (iv_end i)))"
  by (rule elapsed_spec[OF assms])

text \<open>(C39) \<open>add\<close> always ends, and the instant it returns has exactly the requested duration of
  working instants between it and the start.\<close>

theorem add_business_time_exact:
  assumes "clocks_ok c" and "0 \<le> ba_duration r"
  shows "\<exists>res. add_business_time c r = Some res \<and>
    (\<forall>e. res = Inr e \<longrightarrow> ba_start r \<le> e \<and> int (card (worked c (ba_start r) e)) = ba_duration r)"
  by (rule add_business_time_spec[OF assms])

text \<open>(C40) \<open>elapsed\<close> and \<open>add\<close> agree: the business time measured from the start to the instant \<open>add\<close>
  returned is the duration that was added.\<close>

theorem elapsed_after_add:
  assumes "clocks_ok c" and "0 \<le> ba_duration r" and "add_business_time c r = Some (Inr e)"
    and "elapsed c \<lparr>iv_start = ba_start r, iv_end = e\<rparr> = Inr el"
  shows "el_business el = ba_duration r"
  using add_business_time_spec[OF assms(1,2)] elapsed_spec[OF assms(1) _ assms(4)] assms(3) by auto

section \<open>The configuration\<close>

lemma weekday_position_range: "weekday_position ws d k = Some j \<Longrightarrow> k \<le> j \<and> j < k + int (length ws)"
  by (induction ws d k rule: weekday_position.induct) (fastforce split: if_splits)+

lemma weekday_indices_Inr:
  assumes "weekday_indices names = Inr ks"
  shows "ks \<noteq> [] \<and> sorted_wrt (<) ks \<and> set ks \<subseteq> {0..6}"
proof -
  obtain n: "names \<noteq> []" and
    m: "mapR (\<lambda>d. case weekday_position WEEKDAYS d 0 of
        None \<Rightarrow> Inl (Value_Error ''working weekday is unknown'') | Some k \<Rightarrow> Inr k) names = Inr ks"
    and s: "sorted_wrt (<) ks"
    using assms by (auto simp: weekday_indices_def elim!: bindR_InrE split: if_splits)
  have "k \<in> {0..6}" if "weekday_position WEEKDAYS d 0 = Some k" for d k
    using weekday_position_range[OF that] by (simp add: WEEKDAYS_def)
  then have "set ks \<subseteq> {0..6} \<and> length ks = length names" using m
  proof (induction names arbitrary: ks)
    case (Cons d ds)
    then show ?case by (fastforce elim!: bindR_InrE split: option.splits)
  qed simp
  then show ?thesis using n s by auto
qed

lemma digit_range: "digit ch = Some k \<Longrightarrow> 0 \<le> k \<and> k \<le> 9"
  by (auto simp: digit_def Let_def split: if_splits)

lemma local_time_range: "local_time s = Inr t \<Longrightarrow> 0 \<le> t \<and> t < DAY_US"
proof -
  assume a: "local_time s = Inr t"
  then obtain h1 h0 m1 m0 where h: "h1 \<le> 1 \<or> h1 = 2 \<and> h0 \<le> 3" "m1 \<le> 5"
    "0 \<le> h1" "0 \<le> h0" "h0 \<le> 9" "0 \<le> m1" "0 \<le> m0" "m0 \<le> 9"
    "t = (10 * h1 + h0) * HOUR_US + (10 * m1 + m0) * 60000000"
    by (auto simp: local_time_def Let_def dest!: digit_range split: list.splits option.splits if_splits)
  then have "10 * h1 + h0 \<le> 23" "10 * m1 + m0 \<le> 59" by auto
  then have "(10 * h1 + h0) * HOUR_US \<le> 23 * HOUR_US" by (simp add: HOUR_US_def)
  then show ?thesis using h \<open>10 * m1 + m0 \<le> 59\<close> by (simp add: HOUR_US_def DAY_US_def)
qed

lemma calendar_configuration_Inr:
  assumes "calendar_configuration rz name b = Inr c"
  shows "rz name = Inr (cc_zone c) \<and> 0 \<le> cc_workday_start c \<and> cc_workday_start c < cc_workday_end c \<and>
    cc_workday_end c < DAY_US \<and> cc_weekdays c \<noteq> [] \<and> sorted_wrt (<) (cc_weekdays c) \<and>
    set (cc_weekdays c) \<subseteq> {0..6} \<and> sorted_wrt (<) (cc_holidays c) \<and>
    (\<forall>d \<in> set (cc_holidays c). d \<le> cc_horizon_end c)"
proof -
  obtain s e n z ks p v hs where c: "local_time (cb_workday_start b) = Inr s" "local_time (cb_workday_end b) = Inr e"
    "s < e" "rz name = Inr z" "weekday_indices (cb_working_weekdays b) = Inr ks"
    "holiday_dates (cb_holidays b) (cb_horizon_end b) = Inr hs"
    "c = \<lparr>cc_timezone_name = n, cc_zone = z, cc_weekdays = ks, cc_workday_start = s,
                cc_workday_end = e, cc_profile = p, cc_version = v,
                cc_horizon_end = cb_horizon_end b, cc_holidays = hs\<rparr>"
    using assms by (auto simp: calendar_configuration_def elim!: bindR_InrE split: if_splits)
  have "sorted_wrt (<) hs \<and> (\<forall>d \<in> set hs. d \<le> cb_horizon_end b)"
    using c(6) by (auto simp: holiday_dates_def not_less split: if_splits)
  then show ?thesis
    using c weekday_indices_Inr[OF c(5)] local_time_range[OF c(1)] local_time_range[OF c(2)] by simp
qed

text \<open>A calendar that \<open>from_blueprint\<close> builds has ordered work hours within one day, at least one
  weekday, weekdays strictly ascending between Monday (0) and Sunday (6), and strictly ascending
  holidays none of which exceeds the horizon; over a zone whose accepted boundaries separate the
  local clock it meets the assumptions of the other calendar properties.\<close>

theorem calendar_configuration_valid:
  assumes "calendar_configuration resolve_zone name b = Inr c"
  shows "cc_weekdays c \<noteq> [] \<and> sorted_wrt (<) (cc_weekdays c) \<and> set (cc_weekdays c) \<subseteq> {0..6} \<and>
    sorted_wrt (<) (cc_holidays c) \<and> (\<forall>d \<in> set (cc_holidays c). d \<le> cc_horizon_end c) \<and>
    (clocks_ok c \<longleftrightarrow> separating (cc_zone c))"
  using calendar_configuration_Inr[OF assms] by (simp add: clocks_ok_def)

section \<open>An office\<close>

text \<open>Monday to Friday, nine to five in UTC, one holiday on the second Tuesday.\<close>

definition office_blueprint :: CalendarBlueprint where
  "office_blueprint = \<lparr>cb_working_weekdays = [''MON'', ''TUE'', ''WED'', ''THU'', ''FRI''],
     cb_workday_start = ''09:00'', cb_workday_end = ''17:00'', cb_profile = ''office'',
     cb_version = ''1'', cb_horizon_end = 365, cb_holidays = [9]\<rparr>"

definition office :: CalendarConfiguration where
  "office = \<lparr>cc_timezone_name = ''UTC'', cc_zone = fixed_zone 0, cc_weekdays = [0, 1, 2, 3, 4],
     cc_workday_start = 9 * HOUR_US, cc_workday_end = 17 * HOUR_US, cc_profile = ''office'',
     cc_version = ''1'', cc_horizon_end = 365, cc_holidays = [9]\<rparr>"

lemma office_from_blueprint:
  "calendar_configuration (\<lambda>_. Inr (fixed_zone 0)) ''UTC'' office_blueprint = Inr office"
  by (simp add: calendar_configuration_def office_blueprint_def office_def local_time_def digit_def
      weekday_indices_def WEEKDAYS_def check_identifier_def is_space_def holiday_dates_def HOUR_US_def)

lemma office_clocks [simp]: "clocks_ok office"
  by (simp add: clocks_ok_def office_def separating_fixed HOUR_US_def DAY_US_def)

lemma resolve_local_utc:
  "valid_instant (combine d c) \<Longrightarrow> resolve_local (fixed_zone 0) d c = Inr (combine d c)"
  by (simp add: resolve_local_def roundtrip_candidate_def to_utc_def to_local_def fixed_zone_def
      convert_timezone_def Let_def)

lemma office_interval:
  assumes "1 \<le> d" and "d \<le> 365"
  shows "working_interval office d =
    Inr (if 4 < weekday d \<or> d = 9 then None
         else Some \<lparr>iv_start = combine d (9 * HOUR_US), iv_end = combine d (17 * HOUR_US)\<rparr>)"
proof -
  have w: "weekday d \<in> {0, 1, 2, 3, 4} \<longleftrightarrow> \<not> 4 < weekday d" using weekday_range[of d] by auto
  have v: "valid_instant (combine d (9 * HOUR_US))" "valid_instant (combine d (17 * HOUR_US))"
    "combine d (9 * HOUR_US) \<le> combine d (17 * HOUR_US)"
    using assms by (auto simp: valid_instant_def combine_def DAY_US_def HOUR_US_def MAX_ORDINAL_def)
  show ?thesis
  proof (cases "4 < weekday d \<or> d = 9")
    case True
    then show ?thesis using assms w by (auto simp: working_interval_def office_def)
  next
    case False
    then show ?thesis using assms w v
      by (simp add: working_interval_def office_def resolve_local_utc utc_interval_def not_less)
  qed
qed

lemma office_date: "valid_instant t \<Longrightarrow> business_date office t = Inr (local_date t)"
  by (simp add: business_date_def office_def to_local_def fixed_zone_def convert_timezone_def)

lemmas office_simps = weekday_def combine_def local_date_def HOUR_US_def DAY_US_def
  next_day_within_horizon_def MAX_ORDINAL_def valid_instant_def

lemma office_horizon [simp]: "cc_horizon_end office = 365"
  by (simp add: office_def)

text \<open>After work on Friday the next working instant is Monday at nine.\<close>

lemma office_days:
  "working_interval office 5 = Inr (Some \<lparr>iv_start = 378000000000, iv_end = 406800000000\<rparr>)"
  "working_interval office 6 = Inr None" "working_interval office 7 = Inr None"
  "working_interval office 8 = Inr (Some \<lparr>iv_start = 637200000000, iv_end = 666000000000\<rparr>)"
  by (subst office_interval; simp add: office_simps)+

lemma office_next: "next_working_instant office 410400000000 = Inr 637200000000"
proof -
  have "scan_working office 410400000000 8 = Inr 637200000000"
    by (subst scan_working.simps) (simp add: office_days)
  then have "scan_working office 410400000000 7 = Inr 637200000000"
    by (subst scan_working.simps) (simp add: office_days next_day_within_horizon_def)
  then have "scan_working office 410400000000 6 = Inr 637200000000"
    by (subst scan_working.simps) (simp add: office_days next_day_within_horizon_def)
  then have "scan_working office 410400000000 5 = Inr 637200000000"
    by (subst scan_working.simps) (simp add: office_days next_day_within_horizon_def)
  then show ?thesis by (simp add: next_working_instant_def office_date office_simps)
qed

text \<open>From Friday at four to Monday at ten: two hours of work.\<close>

lemma office_elapsed:
  "elapsed office \<lparr>iv_start = 403200000000, iv_end = 640800000000\<rparr> =
   Inr \<lparr>el_calendar = 237600000000, el_business = 7200000000\<rparr>"
proof -
  let ?i = "\<lparr>iv_start = 403200000000, iv_end = 640800000000\<rparr>"
  have "sum_days office ?i 8 8 3600000000 = Inr 7200000000"
    by (subst sum_days.simps) (simp add: office_days intersection_def)
  then have "sum_days office ?i 7 8 3600000000 = Inr 7200000000"
    by (subst sum_days.simps) (simp add: office_days)
  then have "sum_days office ?i 6 8 3600000000 = Inr 7200000000"
    by (subst sum_days.simps) (simp add: office_days)
  then have "sum_days office ?i 5 8 0 = Inr 7200000000"
    by (subst sum_days.simps) (simp add: office_days intersection_def)
  then show ?thesis
    by (simp add: elapsed_def Let_def office_date office_simps dual_elapsed_def)
qed

lemma office_add:
  "add_business_time office \<lparr>ba_start = 403200000000, ba_duration = 7200000000\<rparr> = Some (Inr 640800000000)"
proof -
  have "next_working_instant office 403200000000 = Inr 403200000000"
  proof -
    have "scan_working office 403200000000 5 = Inr 403200000000"
      by (subst scan_working.simps) (simp add: office_days)
    then show ?thesis by (simp add: next_working_instant_def office_date office_simps)
  qed
  moreover have "next_working_instant office 406800000000 = Inr 637200000000"
  proof -
    have "scan_working office 406800000000 8 = Inr 637200000000"
      by (subst scan_working.simps) (simp add: office_days)
    then have "scan_working office 406800000000 7 = Inr 637200000000"
      by (subst scan_working.simps) (simp add: office_days next_day_within_horizon_def)
    then have "scan_working office 406800000000 6 = Inr 637200000000"
      by (subst scan_working.simps) (simp add: office_days next_day_within_horizon_def)
    then have "scan_working office 406800000000 5 = Inr 637200000000"
      by (subst scan_working.simps) (simp add: office_days next_day_within_horizon_def)
    then show ?thesis by (simp add: next_working_instant_def office_date office_simps)
  qed
  moreover have "add_loop office 3600000000 637200000000 = Some (Inr 640800000000)"
    by (subst add_loop.simps) (simp add: office_date office_simps office_days[unfolded office_simps])
  ultimately have "add_loop office 7200000000 403200000000 = Some (Inr 640800000000)"
    by (subst add_loop.simps) (simp add: office_date office_simps office_days[unfolded office_simps])
  with \<open>next_working_instant office 403200000000 = Inr 403200000000\<close> show ?thesis
    by (simp add: add_business_time_def)
qed

section \<open>Witnesses\<close>

text \<open>Nine o'clock on day 2.\<close>

theorem resolve_local_unique_witness:
  "valid_instant 118800000000 \<and>
   (\<forall>v. z_local (fixed_zone 0) v = combine 2 32400000000 \<longleftrightarrow> v = 118800000000)"
proof (rule resolve_local_unique)
  show "zone_complete (fixed_zone 0)" by (rule zone_complete_fixed)
  show "resolve_local (fixed_zone 0) 2 32400000000 = Inr 118800000000"
    by (subst resolve_local_utc) (simp_all add: office_simps)
qed

theorem next_working_instant_first_witness:
  "(410400000000::int) \<le> 637200000000 \<and> working_instant office 637200000000 \<and>
   \<not> (\<exists>v. 410400000000 \<le> v \<and> v < 637200000000 \<and> working_instant office v)"
  using next_working_instant_first[OF office_clocks office_next] by blast

theorem elapsed_counts_worked_witness:
  "(7200000000::int) = int (card (worked office 403200000000 640800000000))"
  using elapsed_counts_worked[OF office_clocks _ office_elapsed] by simp

theorem add_business_time_exact_witness:
  "add_business_time office \<lparr>ba_start = 403200000000, ba_duration = 7200000000\<rparr> = Some (Inr 640800000000) \<and>
   int (card (worked office 403200000000 640800000000)) = 7200000000"
  using add_business_time_exact[OF office_clocks,
      of "\<lparr>ba_start = 403200000000, ba_duration = 7200000000\<rparr>"] office_add by simp

theorem elapsed_after_add_witness:
  "el_business \<lparr>el_calendar = 237600000000, el_business = 7200000000\<rparr> =
   ba_duration \<lparr>ba_start = 403200000000, ba_duration = 7200000000\<rparr>"
  by (rule elapsed_after_add[OF office_clocks _ office_add]) (simp_all add: office_elapsed)

theorem calendar_configuration_valid_witness:
  "cc_weekdays office \<noteq> [] \<and> sorted_wrt (<) (cc_weekdays office) \<and> set (cc_weekdays office) \<subseteq> {0..6} \<and>
   sorted_wrt (<) (cc_holidays office) \<and> (clocks_ok office \<longleftrightarrow> separating (cc_zone office))"
  using calendar_configuration_valid[OF office_from_blueprint] by blast

section \<open>Cadence\<close>

lemma cadence_boundary_local:
  assumes "cadence_boundary c rule n = Inr u"
  shows "z_local (cc_zone c) u =
    combine (local_date (z_local (cc_zone c) (cr_anchor rule)) + cr_cadence_days rule * n)
      (local_clock (z_local (cc_zone c) (cr_anchor rule)))"
proof (cases "n = 0")
  case True
  then show ?thesis using assms by (simp add: cadence_boundary_def local_split)
next
  case False
  obtain l day where l: "l = z_local (cc_zone c) (cr_anchor rule)"
    "day = local_date l + cr_cadence_days rule * n"
    "resolve_local (cc_zone c) day (local_clock l) = Inr u"
    using assms False
    by (auto simp: cadence_boundary_def convert_timezone_Inr to_local_Inr_iff date_add_Inr
        elim!: bindR_InrE split: if_splits)
  then show ?thesis using resolve_local_Inr[OF l(3)] by simp
qed

text \<open>The boundaries of a sprint cadence keep the anchor's local clock, a whole number of
  cadences of calendar days after it whatever the zone's clock changes, and a later boundary is a
  later instant.\<close>

theorem cadence_boundary_increasing:
  assumes "separating (cc_zone c)" and "cadence_rule anchor days = Inr rule"
    and "cadence_boundary c rule i = Inr u" and "cadence_boundary c rule j = Inr v" and "i < j"
  shows "local_clock (z_local (cc_zone c) u) = local_clock (z_local (cc_zone c) anchor) \<and>
    local_date (z_local (cc_zone c) u) = local_date (z_local (cc_zone c) anchor) + days * i \<and> u < v"
proof -
  let ?l = "z_local (cc_zone c) anchor"
  have r: "0 < days" "cr_anchor rule = anchor" "cr_cadence_days rule = days"
    using assms(2) by (auto simp: cadence_rule_def split: if_splits)
  note loc = cadence_boundary_local[OF assms(3)] cadence_boundary_local[OF assms(4)]
  have clk: "0 \<le> local_clock ?l" "local_clock ?l < DAY_US" using local_clock_range by simp_all
  have u: "z_local (cc_zone c) u = combine (local_date ?l + days * i) (local_clock ?l)"
    using loc(1) r by simp
  have i: "0 \<le> i" using assms(3) by (auto simp: cadence_boundary_def split: if_splits)
  then have "j \<noteq> 0" using assms(5) by simp
  then have "resolve_local (cc_zone c) (local_date ?l + days * j) (local_clock ?l) = Inr v"
    using assms(4) r
    by (auto simp: cadence_boundary_def convert_timezone_Inr to_local_Inr_iff date_add_Inr
        elim!: bindR_InrE split: if_splits)
  moreover have "days * i < days * j" using r(1) assms(5) by simp
  then have "combine (local_date ?l + days * i) (local_clock ?l) <
      combine (local_date ?l + days * j) (local_clock ?l)"
    by (intro combine_day_less clk) simp
  ultimately have "u < v" using assms(1) u unfolding separating_def by metis
  moreover have "local_date (z_local (cc_zone c) u) = local_date ?l + days * i \<and>
      local_clock (z_local (cc_zone c) u) = local_clock ?l"
    using clk unfolding u combine_def local_date_def local_clock_def
    by (simp add: mod_mult_self1 div_mult_self1 DAY_US_def)
  ultimately show ?thesis by blast
qed

lemma cadence_boundary_office:
  assumes "0 < n" and "valid_instant (cr_anchor r)"
    and "valid_ordinal (local_date (cr_anchor r) + cr_cadence_days r * n)"
    and "valid_instant (combine (local_date (cr_anchor r) + cr_cadence_days r * n) (local_clock (cr_anchor r)))"
  shows "cadence_boundary office r n =
    Inr (combine (local_date (cr_anchor r) + cr_cadence_days r * n) (local_clock (cr_anchor r)))"
proof -
  have "convert_timezone (to_local (cc_zone office) (cr_anchor r)) = Inr (cr_anchor r)"
    using assms(2) by (simp add: convert_timezone_def to_local_def office_def fixed_zone_def)
  moreover have "cc_zone office = fixed_zone 0" by (simp add: office_def)
  ultimately show ?thesis using assms
    by (simp add: cadence_boundary_def convert_timezone_def date_add_def resolve_local_utc)
qed

text \<open>Fortnights from Monday of the second week at nine.\<close>

theorem cadence_boundary_increasing_witness:
  "local_clock (z_local (cc_zone office) 1846800000000) = local_clock (z_local (cc_zone office) 637200000000) \<and>
   local_date (z_local (cc_zone office) 1846800000000) = local_date (z_local (cc_zone office) 637200000000) + 14 * 1 \<and>
   (1846800000000::int) < 3056400000000"
proof (rule cadence_boundary_increasing)
  let ?r = "\<lparr>cr_anchor = 637200000000, cr_cadence_days = 14\<rparr>"
  show "separating (cc_zone office)" by (simp add: office_def separating_fixed)
  show "cadence_rule 637200000000 14 = Inr ?r" by (simp add: cadence_rule_def)
  show "cadence_boundary office ?r 1 = Inr 1846800000000"
    by (subst cadence_boundary_office) (simp_all add: office_simps local_clock_def valid_ordinal_def)
  show "cadence_boundary office ?r 2 = Inr 3056400000000"
    by (subst cadence_boundary_office) (simp_all add: office_simps local_clock_def valid_ordinal_def)
qed simp

end
