(* ===== verification/Civil_Date.thy ===== *)
theory Civil_Date
  imports Py_Time
begin

text \<open>
  The proleptic Gregorian calendar of \<open>datetime.date\<close>: the ordinal of a year, month and day, and the
  year of an ordinal, as the standard library computes them, with the lemmas that make the two
  agree.
\<close>

section \<open>Years and months\<close>

definition is_leap :: "int \<Rightarrow> bool" where
  "is_leap y \<longleftrightarrow> y mod 4 = 0 \<and> (y mod 100 \<noteq> 0 \<or> y mod 400 = 0)"

definition days_before_year :: "int \<Rightarrow> int" where
  "days_before_year y = (y - 1) * 365 + (y - 1) div 4 - (y - 1) div 100 + (y - 1) div 400"

definition month_days :: "int list" where
  "month_days = [31, 28, 31, 30, 31, 30, 31, 31, 30, 31, 30, 31]"

definition days_in_month :: "int \<Rightarrow> nat \<Rightarrow> int" where
  "days_in_month y m = (if m = 2 \<and> is_leap y then 29 else month_days ! (m - 1))"

definition days_before_month :: "int \<Rightarrow> nat \<Rightarrow> int" where
  "days_before_month y m = sum_list (take (m - 1) month_days) + (if 2 < m \<and> is_leap y then 1 else 0)"

definition date_ord :: "int \<Rightarrow> nat \<Rightarrow> int \<Rightarrow> int" where
  "date_ord y m d = days_before_year y + days_before_month y m + d"

text \<open>The constructor; the months and days the code passes are always in range.\<close>

definition mk_date :: "int \<Rightarrow> nat \<Rightarrow> int \<Rightarrow> int res" where
  "mk_date y m d =
     (if 1 \<le> y \<and> y \<le> 9999 then Inr (date_ord y m d)
      else Inl (Value_Error ''year is out of range''))"

definition year_of :: "int \<Rightarrow> int" where
  "year_of n =
     (let n0 = n - 1; n400 = n0 div 146097; r1 = n0 mod 146097;
          n100 = r1 div 36524; r2 = r1 mod 36524;
          n4 = r2 div 1461; r3 = r2 mod 1461;
          n1 = r3 div 365;
          y = n400 * 400 + 1 + n100 * 100 + n4 * 4 + n1
      in if n1 = 4 \<or> n100 = 4 then y - 1 else y)"

section \<open>The two agree\<close>

lemma div_step: "0 < k \<Longrightarrow> (y::int) div k = (y - 1) div k + (if y mod k = 0 then 1 else 0)"
proof (cases "y mod k = 0")
  case True
  assume k: "0 < k"
  have "y - 1 = k * (y div k - 1) + (k - 1)" using True mult_div_mod_eq[of k y] by (simp add: right_diff_distrib)
  then have "(y - 1) div k = y div k - 1" using k by (intro int_div_pos_eq[of _ _ _ "k - 1"]) auto
  then show ?thesis using True by simp
next
  case False
  assume k: "0 < k"
  have "y - 1 = k * (y div k) + (y mod k - 1)" by (simp add: algebra_simps)
  moreover have "0 \<le> y mod k - 1" "y mod k - 1 < k"
    using False k pos_mod_bound[of k y] pos_mod_sign[of k y] by linarith+
  ultimately have "(y - 1) div k = y div k" using k by (intro int_div_pos_eq[of _ _ _ "y mod k - 1"]) auto
  then show ?thesis using False by simp
qed

lemma days_before_year_step: "days_before_year (y + 1) = days_before_year y + (if is_leap y then 366 else 365)"
proof -
  have m: "y mod 400 = 0 \<Longrightarrow> y mod 100 = 0" "y mod 100 = 0 \<Longrightarrow> y mod 4 = 0"
    using dvd_trans[of 100 400 y] dvd_trans[of 4 100 y] by (simp_all add: mod_eq_0_iff_dvd)
  have s: "y div 4 = (y - 1) div 4 + (if y mod 4 = 0 then 1 else 0)"
    "y div 100 = (y - 1) div 100 + (if y mod 100 = 0 then 1 else 0)"
    "y div 400 = (y - 1) div 400 + (if y mod 400 = 0 then 1 else 0)"
    by (rule div_step; simp)+
  have next_year: "days_before_year (y + 1) = y * 365 + y div 4 - y div 100 + y div 400"
    by (simp add: days_before_year_def)
  obtain a b c where p: "(y - 1) div 4 = a" "(y - 1) div 100 = b" "(y - 1) div 400 = c" by blast
  have this_year: "days_before_year y = (y - 1) * 365 + a - b + c"
    by (simp only: days_before_year_def p)
  have l: "is_leap y \<longleftrightarrow> y mod 4 = 0 \<and> (y mod 100 \<noteq> 0 \<or> y mod 400 = 0)" by (rule is_leap_def)
  obtain P Q R where q: "(y mod 4 = 0) = P" "(y mod 100 = 0) = Q" "(y mod 400 = 0) = R" by blast
  show ?thesis using m l unfolding next_year this_year s p q
    by (cases P; cases Q; cases R) simp_all
qed

lemma days_before_year_add: "days_before_year y + 365 * int n \<le> days_before_year (y + int n)"
proof (induction n)
  case (Suc n)
  have "y + int (Suc n) = (y + int n) + 1" by simp
  then have "days_before_year (y + int (Suc n)) =
      days_before_year (y + int n) + (if is_leap (y + int n) then 366 else 365)"
    by (simp only: days_before_year_step)
  then show ?case using Suc by (simp split: if_splits)
qed simp

lemma days_before_year_less: "y < z \<Longrightarrow> days_before_year y + 365 \<le> days_before_year z"
  using days_before_year_add[of y "nat (z - y)"] by simp

lemma days_before_year_parts:
  assumes "0 \<le> b" "b \<le> 3" "0 \<le> c" "c \<le> 24" "0 \<le> d" "d \<le> 3"
  shows "days_before_year (400 * a + 100 * b + 4 * c + d + 1) = 146097 * a + 36524 * b + 1461 * c + 365 * d"
proof -
  let ?p = "400 * a + 100 * b + 4 * c + d"
  have "?p div 4 = 100 * a + 25 * b + c" using assms by (intro int_div_pos_eq[of _ _ _ d]) auto
  moreover have "?p div 100 = 4 * a + b" using assms by (intro int_div_pos_eq[of _ _ _ "4 * c + d"]) auto
  moreover have "?p div 400 = a" using assms by (intro int_div_pos_eq[of _ _ _ "100 * b + 4 * c + d"]) auto
  ultimately show ?thesis by (simp add: days_before_year_def)
qed

lemma leap_parts:
  assumes "0 \<le> b" "b \<le> 3" "0 \<le> c" "c \<le> 24"
  shows "is_leap (400 * a + 100 * b + 4 * c + 4) \<longleftrightarrow> c \<noteq> 24 \<or> b = 3"
proof -
  let ?y = "400 * a + 100 * b + 4 * c + 4"
  have 4: "?y mod 4 = 0" by presburger
  have 100: "?y mod 100 = (4 * c + 4) mod 100"
  proof -
    have "?y = (4 * c + 4) + (4 * a + b) * 100" by simp
    then show ?thesis by (metis mod_mult_self1)
  qed
  have 400: "?y mod 400 = (100 * b + 4 * c + 4) mod 400"
  proof -
    have "?y = (100 * b + 4 * c + 4) + a * 400" by simp
    then show ?thesis by (metis mod_mult_self1)
  qed
  show ?thesis
  proof (cases "c = 24")
    case True
    then have "?y mod 100 = 0" "?y mod 400 = (100 * (b + 1)) mod 400" using 100 400 by (simp_all add: algebra_simps)
    moreover have "(100 * (b + 1)) mod 400 = (if b = 3 then 0 else 100 * (b + 1))" using assms by auto
    ultimately show ?thesis using True 4 assms by (auto simp: is_leap_def)
  next
    case False
    then have "(4 * c + 4) mod 100 = 4 * c + 4" using assms by (intro mod_pos_pos_trivial) auto
    then show ?thesis using False 4 100 assms by (auto simp: is_leap_def)
  qed
qed

lemma year_of_bounds: "days_before_year (year_of n) < n \<and> n \<le> days_before_year (year_of n + 1)"
proof -
  define a r1 where a: "a = (n - 1) div 146097" "r1 = (n - 1) mod 146097"
  define b r2 where b: "b = r1 div 36524" "r2 = r1 mod 36524"
  define c r3 where c: "c = r2 div 1461" "r3 = r2 mod 1461"
  define d r4 where d: "d = r3 div 365" "r4 = r3 mod 365"
  have n: "n - 1 = 146097 * a + r1" "0 \<le> r1" "r1 < 146097" unfolding a by simp_all
  have r1: "r1 = 36524 * b + r2" "0 \<le> r2" "r2 < 36524" unfolding b by simp_all
  have r2: "r2 = 1461 * c + r3" "0 \<le> r3" "r3 < 1461" unfolding c by simp_all
  have r3: "r3 = 365 * d + r4" "0 \<le> r4" "r4 < 365" unfolding d by simp_all
  have bs: "0 \<le> b" "b \<le> 4" "0 \<le> c" "c \<le> 24" "0 \<le> d" "d \<le> 4" using n r1 r2 r3 by linarith+
  have y: "year_of n = (if d = 4 \<or> b = 4 then 400 * a + 100 * b + 4 * c + d
      else 400 * a + 100 * b + 4 * c + d + 1)"
    by (simp only: year_of_def Let_def a[symmetric] b[symmetric] c[symmetric] d[symmetric]) simp
  note clear = a b c d
  consider (b4) "b = 4" | (d4) "b \<le> 3" "d = 4" | (d3) "b \<le> 3" "d = 3" | (low) "b \<le> 3" "d \<le> 2"
    using bs by linarith
  then show ?thesis
  proof cases
    case b4
    then have z: "r2 = 0" "c = 0" "r3 = 0" "d = 0" "r4 = 0" using n r1 r2 r3 bs by linarith+
    have 1: "days_before_year (400 * a + 400) = 146097 * a + 36524 * 3 + 1461 * 24 + 365 * 3"
      using days_before_year_parts[of 3 24 3 a] by (simp add: algebra_simps)
    have 2: "days_before_year (400 * a + 400 + 1) = days_before_year (400 * a + 400) + 366"
      unfolding days_before_year_step using leap_parts[of 3 24 a] by (simp add: algebra_simps)
    have "year_of n = 400 * a + 400" using y b4 z by simp
    then show ?thesis using 1 2 n(1) r1(1) b4 z(1) by simp
  next
    case d4
    then have z: "r4 = 0" using r3 r2 by linarith
    have c24: "c \<noteq> 24 \<or> b = 3" using d4 r1 r2 r3 bs by linarith
    have 1: "days_before_year (400 * a + 100 * b + 4 * c + 4) = 146097 * a + 36524 * b + 1461 * c + 365 * 3"
      using days_before_year_parts[of b c 3 a] bs d4 by (simp add: algebra_simps)
    have 2: "days_before_year (400 * a + 100 * b + 4 * c + 4 + 1) =
        days_before_year (400 * a + 100 * b + 4 * c + 4) + 366"
      unfolding days_before_year_step using leap_parts[of b c a] bs d4 c24 by simp
    have "year_of n = 400 * a + 100 * b + 4 * c + 4" using y d4 by simp
    then show ?thesis using 1 2 n(1) r1(1) r2(1) r3(1) z d4 by simp
  next
    case d3
    have 1: "days_before_year (400 * a + 100 * b + 4 * c + 4) = 146097 * a + 36524 * b + 1461 * c + 365 * 3"
      using days_before_year_parts[of b c 3 a] bs d3 by (simp add: algebra_simps)
    have "days_before_year (400 * a + 100 * b + 4 * c + 4) + 365 \<le>
        days_before_year (400 * a + 100 * b + 4 * c + 4 + 1)"
      by (rule days_before_year_less) simp
    moreover have "year_of n = 400 * a + 100 * b + 4 * c + 4" using y d3 by simp
    ultimately show ?thesis using 1 n(1) r1(1) r2(1) r3 d3 by simp
  next
    case low
    let ?y = "400 * a + 100 * b + 4 * c + d + 1"
    have 1: "days_before_year ?y = 146097 * a + 36524 * b + 1461 * c + 365 * d"
      using days_before_year_parts[of b c d a] bs low by simp
    have "days_before_year ?y + 365 \<le> days_before_year (?y + 1)"
      by (rule days_before_year_less) simp
    moreover have "year_of n = ?y" using y low by simp
    ultimately show ?thesis using 1 n(1) r1(1) r2(1) r3 by simp
  qed
qed

lemma days_before_year_mono: "y \<le> z \<Longrightarrow> days_before_year y \<le> days_before_year z"
  using days_before_year_less[of y z] by (cases "y = z") simp_all

lemma year_of_eq:
  assumes "days_before_year y < n" and "n \<le> days_before_year (y + 1)"
  shows "year_of n = y"
proof -
  have "\<not> year_of n < y"
    using assms(1) year_of_bounds[of n] days_before_year_mono[of "year_of n + 1" y] by linarith
  moreover have "\<not> y < year_of n"
    using assms(2) year_of_bounds[of n] days_before_year_mono[of "y + 1" "year_of n"] by linarith
  ultimately show ?thesis by linarith
qed

text \<open>A date of the year lies between the ends of the year.\<close>

definition valid_md :: "int \<Rightarrow> nat \<Rightarrow> int \<Rightarrow> bool" where
  "valid_md y m d \<longleftrightarrow> 1 \<le> m \<and> m \<le> 12 \<and> 1 \<le> d \<and> d \<le> days_in_month y m"

lemma month_cases:
  assumes "1 \<le> m" and "m \<le> (12::nat)"
  shows "m = 1 \<or> m = 2 \<or> m = 3 \<or> m = 4 \<or> m = 5 \<or> m = 6 \<or> m = 7 \<or> m = 8 \<or> m = 9 \<or> m = 10 \<or> m = 11 \<or> m = 12"
proof -
  have "m \<in> {1..12}" using assms by simp
  moreover have "{1..12::nat} = {1, 2, 3, 4, 5, 6, 7, 8, 9, 10, 11, 12}"
    by (simp add: atLeastAtMost_insertL[symmetric] numeral_eq_Suc del: atLeastAtMost_insertL)
  ultimately show ?thesis by blast
qed

lemmas month_simps = days_before_month_def days_in_month_def month_days_def

lemma month_within_year:
  assumes "1 \<le> m" and "m \<le> 12"
  shows "0 \<le> days_before_month y m \<and> days_before_month y m + days_in_month y m \<le> (if is_leap y then 366 else 365)
    \<and> 28 \<le> days_in_month y m"
  using month_cases[OF assms] by (elim disjE) (simp_all add: month_simps)

lemma date_ord_year:
  assumes "valid_md y m d"
  shows "days_before_year y < date_ord y m d \<and> date_ord y m d \<le> days_before_year (y + 1)"
proof -
  have m: "1 \<le> m" "m \<le> 12" "1 \<le> d" "d \<le> days_in_month y m" using assms by (simp_all add: valid_md_def)
  note w = month_within_year[OF m(1,2), of y]
  have "0 < days_before_month y m + d \<and> days_before_month y m + d \<le> (if is_leap y then 366 else 365)"
    using w m(3,4) by linarith
  then show ?thesis unfolding days_before_year_step date_ord_def by linarith
qed

lemma year_of_date_ord [simp]: "valid_md y m d \<Longrightarrow> year_of (date_ord y m d) = y"
  using date_ord_year year_of_eq by blast

lemma year_of_mono: "a \<le> b \<Longrightarrow> year_of a \<le> year_of b"
  using year_of_bounds[of a] year_of_bounds[of b] days_before_year_mono[of "year_of b + 1" "year_of a"]
  by (cases "year_of a \<le> year_of b") linarith+

lemma january_first: "valid_md y 1 1" and december_last: "valid_md y 12 31"
  by (simp_all add: valid_md_def month_simps)

lemma year_of_january [simp]: "year_of (date_ord y (Suc 0) 1) = y"
  and year_of_december [simp]: "year_of (date_ord y 12 31) = y"
  using year_of_date_ord[OF january_first] year_of_date_ord[OF december_last] by simp_all

lemma january_first_ord: "date_ord y (Suc 0) 1 = days_before_year y + 1"
  by (simp add: date_ord_def month_simps)

lemma december_last_ord: "date_ord y 12 31 = days_before_year (y + 1)"
  by (simp add: date_ord_def month_simps days_before_year_step)

lemma days_before_year_1 [simp]: "days_before_year 1 = 0"
  by (simp add: days_before_year_def)

lemma days_before_year_10000: "days_before_year 10000 = MAX_ORDINAL"
  by (simp add: days_before_year_def MAX_ORDINAL_def)

lemma mk_date_valid:
  assumes "1 \<le> y" and "y \<le> 9999" and "valid_md y m d"
  shows "valid_ordinal (date_ord y m d)"
proof -
  have "0 \<le> days_before_year y" using assms(1) days_before_year_less[of 1 y] by (cases "y = 1") auto
  moreover have "days_before_year (y + 1) \<le> MAX_ORDINAL"
    using assms(2) days_before_year_less[of "y + 1" 10000] days_before_year_10000 by (cases "y = 9999") auto
  ultimately show ?thesis using date_ord_year[OF assms(3)] by (simp add: valid_ordinal_def)
qed

end
