(* ===== verification/US_Federal.thy ===== *)
theory US_Federal
  imports Business_Calendar Civil_Date
begin

text \<open>
  The US federal holiday rules (\<open>v2/domain/us_federal_calendar.py\<close>): fixed holidays with their
  observed day, holidays on the nth or last weekday of a month, the holidays of a horizon, its
  materialisation for a team's first start and its extension as time passes. Dates are ordinals.
\<close>

section \<open>The rules\<close>

definition US_FEDERAL_PROFILE :: string where "US_FEDERAL_PROFILE = ''US_FEDERAL_V1''"
definition US_FEDERAL_VERSION :: string where "US_FEDERAL_VERSION = ''1''"
definition EXTENSION_YEARS :: int where "EXTENSION_YEARS = 10"

abbreviation (input) MONDAY :: int where "MONDAY \<equiv> 0"
abbreviation (input) THURSDAY :: int where "THURSDAY \<equiv> 3"
abbreviation (input) SATURDAY :: int where "SATURDAY \<equiv> 5"
abbreviation (input) SUNDAY :: int where "SUNDAY \<equiv> 6"

text \<open>New year, Juneteenth, Independence Day, Veterans Day, Christmas.\<close>

definition fixed_days :: "(nat \<times> int) list" where
  "fixed_days = [(1, 1), (6, 19), (7, 4), (11, 11), (12, 25)]"

definition observed :: "int \<Rightarrow> int res" where
  "observed day =
     (if weekday day = SATURDAY then date_add day (-1)
      else if weekday day = SUNDAY then date_add day 1
      else Inr day)"

definition nth_weekday :: "int \<Rightarrow> nat \<times> int \<times> int \<Rightarrow> int res" where
  "nth_weekday year rule =
     (case rule of (month, wd, ordinal) \<Rightarrow>
        bindR (mk_date year month 1) (\<lambda>first.
          date_add first ((wd - weekday first) mod 7 + (ordinal - 1) * 7)))"

definition last_weekday :: "int \<Rightarrow> nat \<times> int \<Rightarrow> int res" where
  "last_weekday year rule =
     (case rule of (month, wd) \<Rightarrow>
        bindR (mk_date year month (days_in_month year month)) (\<lambda>final.
          date_add final (- ((weekday final - wd) mod 7))))"

definition fixed_holidays :: "int \<Rightarrow> int list res" where
  "fixed_holidays year = mapR (\<lambda>(month, day). bindR (mk_date year month day) observed) fixed_days"

definition holidays_for_year :: "int \<Rightarrow> int list res" where
  "holidays_for_year year =
     bindR (fixed_holidays year) (\<lambda>fixed.
     bindR (nth_weekday year (1, MONDAY, 3)) (\<lambda>mlk.
     bindR (nth_weekday year (2, MONDAY, 3)) (\<lambda>washington.
     bindR (last_weekday year (5, MONDAY)) (\<lambda>memorial.
     bindR (nth_weekday year (9, MONDAY, 1)) (\<lambda>labor.
     bindR (nth_weekday year (10, MONDAY, 2)) (\<lambda>columbus.
     bindR (nth_weekday year (11, THURSDAY, 4)) (\<lambda>thanksgiving.
       Inr (fixed @ [mlk, washington, memorial, labor, columbus, thanksgiving]))))))))"

definition holidays_between :: "int \<Rightarrow> int \<Rightarrow> int list res" where
  "holidays_between starts_on ends_on =
     bindR (mapR holidays_for_year [year_of starts_on - 1..year_of ends_on + 1]) (\<lambda>years.
       Inr (sort (remdups (filter (\<lambda>h. starts_on \<le> h \<and> h \<le> ends_on) (concat years)))))"

section \<open>Horizons\<close>

record HolidayHorizon =
  hz_profile :: string
  hz_version :: string
  hz_starts_on :: int
  hz_ends_on :: int
  hz_holidays :: "int list"

definition holiday_tuple :: "int list \<Rightarrow> int \<Rightarrow> int \<Rightarrow> int list res" where
  "holiday_tuple days starts_on ends_on =
     (if \<not> sorted_wrt (<) days then Inl (Value_Error ''holidays must be unique and ordered'')
      else if \<exists>d \<in> set days. d < starts_on \<or> ends_on < d
      then Inl (Value_Error ''holiday falls outside its horizon'')
      else Inr days)"

definition holiday_horizon :: "string \<Rightarrow> string \<Rightarrow> int \<Rightarrow> int \<Rightarrow> int list \<Rightarrow> HolidayHorizon res" where
  "holiday_horizon profile version starts_on ends_on days =
     bindR (check_identifier profile ''profile'') (\<lambda>p.
     bindR (check_identifier version ''version'') (\<lambda>v.
       if ends_on < starts_on then Inl (Value_Error ''holiday horizon must be ordered'')
       else bindR (holiday_tuple days starts_on ends_on) (\<lambda>hs.
         Inr \<lparr>hz_profile = profile, hz_version = version, hz_starts_on = starts_on,
              hz_ends_on = ends_on, hz_holidays = days\<rparr>)))"

definition aware_local_year :: "(string \<Rightarrow> zone res) \<Rightarrow> instant \<Rightarrow> string \<Rightarrow> int res" where
  "aware_local_year resolve_zone first_start name =
     bindR (resolve_zone name) (\<lambda>z.
     bindR (to_local z first_start) (\<lambda>l. Inr (year_of (local_date l))))"

definition materialize_us_federal_horizon ::
  "(string \<Rightarrow> zone res) \<Rightarrow> instant \<Rightarrow> string \<Rightarrow> HolidayHorizon res" where
  "materialize_us_federal_horizon resolve_zone first_start name =
     bindR (aware_local_year resolve_zone first_start name) (\<lambda>first_year.
     bindR (mk_date (first_year - 1) 1 1) (\<lambda>starts_on.
     bindR (mk_date (first_year + 10) 12 31) (\<lambda>ends_on.
     bindR (holidays_between starts_on ends_on) (\<lambda>hs.
       holiday_horizon US_FEDERAL_PROFILE US_FEDERAL_VERSION starts_on ends_on hs))))"

definition authenticate_us_federal_horizon :: "HolidayHorizon \<Rightarrow> unit res" where
  "authenticate_us_federal_horizon h =
     (if hz_profile h \<noteq> US_FEDERAL_PROFILE \<or> hz_version h \<noteq> US_FEDERAL_VERSION
      then Inl (Value_Error ''horizon must use US_FEDERAL_V1 version 1'')
      else
        bindR (mk_date (year_of (hz_starts_on h)) 1 1) (\<lambda>first.
        bindR (mk_date (year_of (hz_ends_on h)) 12 31) (\<lambda>final.
        bindR (holidays_between (hz_starts_on h) (hz_ends_on h)) (\<lambda>expected.
          if hz_starts_on h \<noteq> first \<or> hz_ends_on h \<noteq> final \<or> hz_holidays h \<noteq> expected
          then Inl (Value_Error ''horizon must be a canonical US_FEDERAL_V1 horizon'')
          else Inr ()))))"

definition requires_extension :: "int \<Rightarrow> int \<Rightarrow> bool" where
  "requires_extension ends_on as_of \<longleftrightarrow>
     (if year_of ends_on = 1 then True else date_ord (year_of ends_on - 1) 1 1 < as_of)"

function catch_up_end :: "int \<Rightarrow> int \<Rightarrow> int res" where
  "catch_up_end ends_on as_of =
     (if requires_extension ends_on as_of then
        if 9999 - EXTENSION_YEARS < year_of ends_on
        then Inl (Value_Error ''holiday horizon cannot extend beyond the supported date range'')
        else catch_up_end (date_ord (year_of ends_on + EXTENSION_YEARS) 12 31) as_of
      else Inr ends_on)"
  by pat_completeness auto
termination
  by (relation "measure (\<lambda>(ends_on, as_of). nat (9999 - year_of ends_on))")
    (auto simp: december_last EXTENSION_YEARS_def)

declare catch_up_end.simps [simp del]

definition extend_us_federal_horizon :: "HolidayHorizon \<Rightarrow> int \<Rightarrow> HolidayHorizon res" where
  "extend_us_federal_horizon h as_of =
     bindR (authenticate_us_federal_horizon h) (\<lambda>_.
     bindR (catch_up_end (hz_ends_on h) as_of) (\<lambda>ends_on.
       if ends_on = hz_ends_on h then Inr h
       else bindR (holidays_between (hz_starts_on h) ends_on) (\<lambda>hs.
         holiday_horizon (hz_profile h) (hz_version h) (hz_starts_on h) ends_on hs)))"

section \<open>Single holidays\<close>

lemma weekday_shift: "weekday (d - 1) = (weekday d - 1) mod 7" "weekday (d + 1) = (weekday d + 1) mod 7"
  by (simp_all add: weekday_def mod_simps algebra_simps)

lemma observed_Inr: "observed d = Inr h \<Longrightarrow> weekday h < 5 \<and> d - 1 \<le> h \<and> h \<le> d + 1"
  using weekday_range[of d] weekday_shift[of d]
  by (auto simp: observed_def date_add_Inr split: if_splits)

lemma mk_date_Inr: "mk_date y m d = Inr t \<longleftrightarrow> 1 \<le> y \<and> y \<le> 9999 \<and> t = date_ord y m d"
  by (auto simp: mk_date_def)

lemma nth_weekday_Inr:
  assumes "nth_weekday y (m, wd, k) = Inr h" and "0 \<le> wd" and "wd < 7"
  shows "1 \<le> y \<and> y \<le> 9999 \<and> weekday h = wd \<and> date_ord y m (7 * (k - 1) + 1) \<le> h \<and> h \<le> date_ord y m (7 * k)"
proof -
  define first where "first = date_ord y m 1"
  define off where "off = (wd - weekday first) mod 7"
  have h: "h = first + (off + (k - 1) * 7)" and y: "1 \<le> y \<and> y \<le> 9999"
    using assms(1) by (auto simp: nth_weekday_def mk_date_Inr date_add_Inr first_def off_def elim!: bindR_InrE)
  have "weekday h = (first + off + 6 + (k - 1) * 7) mod 7" unfolding h weekday_def by (simp add: algebra_simps)
  also have "\<dots> = (first + 6 + off) mod 7" by (simp only: mod_mult_self1) (simp add: algebra_simps)
  also have "\<dots> = wd" using assms(2,3) by (simp add: off_def weekday_def mod_simps)
  finally have "weekday h = wd" .
  moreover have "0 \<le> off" "off < 7" by (simp_all add: off_def)
  ultimately show ?thesis using y by (simp add: h first_def date_ord_def)
qed

lemma last_weekday_Inr:
  assumes "last_weekday y (m, wd) = Inr h" and "0 \<le> wd" and "wd < 7"
  shows "1 \<le> y \<and> y \<le> 9999 \<and> weekday h = wd \<and>
    date_ord y m (days_in_month y m) - 7 < h \<and> h \<le> date_ord y m (days_in_month y m)"
proof -
  define final where "final = date_ord y m (days_in_month y m)"
  define off where "off = (weekday final - wd) mod 7"
  have h: "h = final - off" and y: "1 \<le> y \<and> y \<le> 9999"
    using assms(1) by (auto simp: last_weekday_def mk_date_Inr date_add_Inr final_def off_def elim!: bindR_InrE)
  have "weekday h = (final + 6 - off) mod 7" unfolding h weekday_def by (simp add: algebra_simps)
  also have "\<dots> = wd" using assms(2,3) by (simp add: off_def weekday_def mod_simps)
  finally have "weekday h = wd" .
  moreover have "0 \<le> off" "off < 7" by (simp_all add: off_def)
  ultimately show ?thesis using y by (simp add: h final_def)
qed

lemma fixed_days_range:
  "(m, d) \<in> set fixed_days \<Longrightarrow>
     valid_md y m d \<and> 1 \<le> days_before_month y m + d \<and> days_before_month y m + d + 1 \<le> 365"
  by (auto simp: fixed_days_def valid_md_def month_simps)

lemma ord_year:
  assumes "days_before_year y \<le> h" and "h \<le> days_before_year (y + 1)"
  shows "year_of h = y - 1 \<or> year_of h = y"
  using assms year_of_eq[of y h] year_of_eq[of "y - 1" h] days_before_year_less[of "y - 1" y]
  by (cases "days_before_year y = h") auto

lemma fixed_holiday_year:
  assumes "(m, d) \<in> set fixed_days" and "bindR (mk_date y m d) observed = Inr h"
  shows "weekday h < 5 \<and> (year_of h = y - 1 \<or> year_of h = y)"
proof -
  have o: "observed (date_ord y m d) = Inr h" using assms(2) by (auto simp: mk_date_Inr elim!: bindR_InrE)
  note b = observed_Inr[OF o] and r = fixed_days_range[OF assms(1), of y]
  have "days_before_year y \<le> h" "h \<le> days_before_year (y + 1)"
    using b r days_before_year_step[of y] by (auto simp: date_ord_def split: if_splits)
  then show ?thesis using b ord_year by blast
qed

lemma nth_weekday_year:
  assumes "nth_weekday y (m, wd, k) = Inr h" and "0 \<le> wd" and "wd < 7" and "1 \<le> m" and "m \<le> 12"
    and "1 \<le> k" and "k \<le> 4"
  shows "weekday h = wd \<and> year_of h = y"
proof -
  note b = nth_weekday_Inr[OF assms(1-3)] and w = month_within_year[OF assms(4,5), of y]
  have "days_before_year y < h" "h \<le> days_before_year (y + 1)"
    using b w assms(6,7) by (auto simp: days_before_year_step date_ord_def split: if_splits)
  then show ?thesis using b year_of_eq by blast
qed

lemma last_weekday_year:
  assumes "last_weekday y (m, wd) = Inr h" and "0 \<le> wd" and "wd < 7" and "1 \<le> m" and "m \<le> 12"
  shows "weekday h = wd \<and> year_of h = y"
proof -
  note b = last_weekday_Inr[OF assms(1-3)] and w = month_within_year[OF assms(4,5), of y]
  have "days_before_year y < h" "h \<le> days_before_year (y + 1)"
    using b w by (auto simp: days_before_year_step date_ord_def split: if_splits)
  then show ?thesis using b year_of_eq by blast
qed

text \<open>The holidays of a year fall on weekdays, in that year or on the last day before it.\<close>

lemma holidays_for_year_Inr:
  assumes "holidays_for_year y = Inr hs" and "h \<in> set hs"
  shows "weekday h < 5 \<and> (year_of h = y - 1 \<or> year_of h = y)"
proof -
  obtain fixed a b c d e f where r: "fixed_holidays y = Inr fixed"
    "nth_weekday y (1, MONDAY, 3) = Inr a" "nth_weekday y (2, MONDAY, 3) = Inr b"
    "last_weekday y (5, MONDAY) = Inr c" "nth_weekday y (9, MONDAY, 1) = Inr d"
    "nth_weekday y (10, MONDAY, 2) = Inr e" "nth_weekday y (11, THURSDAY, 4) = Inr f"
    "hs = fixed @ [a, b, c, d, e, f]"
    using assms(1) by (auto simp: holidays_for_year_def elim!: bindR_InrE)
  have "weekday h < 5 \<and> (year_of h = y - 1 \<or> year_of h = y)" if hf: "h \<in> set fixed"
  proof -
    obtain i where i: "i < length fixed" "h = fixed ! i" using hf by (metis in_set_conv_nth)
    have "list_all2 (\<lambda>x t. bindR (mk_date y (fst x) (snd x)) observed = Inr t) fixed_days fixed"
      using r(1) by (simp add: fixed_holidays_def mapR_eq_Inr_iff case_prod_beta)
    then have "length fixed = length fixed_days" "bindR (mk_date y (fst (fixed_days ! i)) (snd (fixed_days ! i))) observed = Inr h"
      using i by (auto dest: list_all2_lengthD list_all2_nthD2)
    then show ?thesis using i fixed_holiday_year[of "fst (fixed_days ! i)" "snd (fixed_days ! i)" y h]
      by (simp add: case_prod_beta)
  qed
  moreover have "weekday h < 5 \<and> year_of h = y" if "h \<in> {a, b, c, d, e, f}"
    using that nth_weekday_year[OF r(2)] nth_weekday_year[OF r(3)] last_weekday_year[OF r(4)]
      nth_weekday_year[OF r(5)] nth_weekday_year[OF r(6)] nth_weekday_year[OF r(7)] by auto
  ultimately show ?thesis using assms(2) r(8) by auto
qed

section \<open>Horizons\<close>

definition federal_holiday :: "int \<Rightarrow> bool" where
  "federal_holiday h \<longleftrightarrow> (\<exists>y hs. holidays_for_year y = Inr hs \<and> h \<in> set hs)"

lemma holidays_between_Inr:
  assumes "holidays_between s e = Inr hs"
  shows "sorted_wrt (<) hs \<and> set hs = {h. s \<le> h \<and> h \<le> e \<and> federal_holiday h}"
proof -
  obtain years where y: "mapR holidays_for_year [year_of s - 1..year_of e + 1] = Inr years"
    and hs: "hs = sort (remdups (filter (\<lambda>h. s \<le> h \<and> h \<le> e) (concat years)))"
    using assms by (auto simp: holidays_between_def elim!: bindR_InrE)
  have all: "list_all2 (\<lambda>y hs. holidays_for_year y = Inr hs) [year_of s - 1..year_of e + 1] years"
    using y by (simp add: mapR_eq_Inr_iff)
  have "\<exists>ys \<in> set years. h \<in> set ys" if h: "s \<le> h" "h \<le> e" "federal_holiday h" for h
  proof -
    obtain z zs where z: "holidays_for_year z = Inr zs" "h \<in> set zs" using h(3) by (auto simp: federal_holiday_def)
    then have "year_of s - 1 \<le> z" "z \<le> year_of e + 1"
      using holidays_for_year_Inr[OF z] year_of_mono[OF h(1)] year_of_mono[OF h(2)] by auto
    then have "z \<in> set [year_of s - 1..year_of e + 1]" by simp
    then obtain i where i: "i < length [year_of s - 1..year_of e + 1]" "[year_of s - 1..year_of e + 1] ! i = z"
      by (metis in_set_conv_nth)
    then have "i < length years" "holidays_for_year z = Inr (years ! i)"
      using all by (auto dest: list_all2_lengthD list_all2_nthD)
    then show ?thesis using z by auto
  qed
  moreover have "federal_holiday h" if ys: "ys \<in> set years" "h \<in> set ys" for h ys
  proof -
    obtain i where i: "i < length years" "ys = years ! i" using ys(1) by (metis in_set_conv_nth)
    then show ?thesis using all ys(2) by (auto simp: federal_holiday_def dest: list_all2_nthD2)
  qed
  ultimately have "set hs = {h. s \<le> h \<and> h \<le> e \<and> federal_holiday h}" by (auto simp: hs)
  moreover have "sorted_wrt (<) hs"
    unfolding hs by (simp add: strict_sorted_iff del: sorted_wrt_less_idx)
  ultimately show ?thesis by blast
qed

text \<open>Away from the first and last supported years every rule yields a date.\<close>

lemma inner_ordinal:
  assumes "2 \<le> y" and "y \<le> 9998" and "days_before_year y - 10 \<le> t" and "t \<le> days_before_year (y + 1) + 10"
  shows "valid_ordinal t"
proof -
  have "365 \<le> days_before_year y" using assms(1) days_before_year_less[of 1 y] by simp
  moreover have "days_before_year (y + 1) + 365 \<le> MAX_ORDINAL"
    using assms(2) days_before_year_less[of "y + 1" 10000] days_before_year_10000 by simp
  ultimately show ?thesis using assms(3,4) by (simp add: valid_ordinal_def)
qed

lemma nth_weekday_succeeds:
  assumes "2 \<le> y" "y \<le> 9998" "1 \<le> m" "m \<le> 12" "1 \<le> k" "k \<le> 4"
  shows "\<exists>h. nth_weekday y (m, wd, k) = Inr h"
proof -
  let ?t = "date_ord y m 1 + ((wd - weekday (date_ord y m 1)) mod 7 + (k - 1) * 7)"
  have o: "0 \<le> (wd - weekday (date_ord y m 1)) mod 7" "(wd - weekday (date_ord y m 1)) mod 7 < 7" by simp_all
  have "days_before_year y - 10 \<le> ?t"
    using month_within_year[OF assms(3,4), of y] assms(5) o(1) by (simp add: date_ord_def)
  moreover have "?t \<le> days_before_year (y + 1) + 10"
    using month_within_year[OF assms(3,4), of y] assms(6) o(2)
    unfolding days_before_year_step date_ord_def by (auto split: if_splits)
  ultimately have "valid_ordinal ?t" by (rule inner_ordinal[OF assms(1,2)])
  then show ?thesis using assms(1,2) by (simp add: nth_weekday_def mk_date_def date_add_def)
qed

lemma last_weekday_succeeds:
  assumes "2 \<le> y" "y \<le> 9998" "1 \<le> m" "m \<le> 12"
  shows "\<exists>h. last_weekday y (m, wd) = Inr h"
proof -
  let ?f = "date_ord y m (days_in_month y m)"
  obtain off where off: "off = (weekday ?f - wd) mod 7" "0 \<le> off" "off < 7" by simp
  have w: "0 \<le> days_before_month y m" "28 \<le> days_in_month y m"
    "days_before_month y m + days_in_month y m \<le> 366"
    using month_within_year[OF assms(3,4), of y] by (auto split: if_splits)
  have "days_before_year y - 10 \<le> ?f - off" using w off(2,3) by (simp add: date_ord_def)
  moreover have "?f - off \<le> days_before_year (y + 1) + 10"
    using w off(2) unfolding days_before_year_step date_ord_def by (auto split: if_splits)
  ultimately have "valid_ordinal (?f - off)" by (rule inner_ordinal[OF assms(1,2)])
  then show ?thesis using assms(1,2) off(1) by (simp add: last_weekday_def mk_date_def date_add_def)
qed

lemma fixed_holidays_succeed:
  assumes "2 \<le> y" "y \<le> 9998"
  shows "\<exists>hs. fixed_holidays y = Inr hs"
proof -
  have "\<exists>h. bindR (mk_date y m d) observed = Inr h" if md: "(m, d) \<in> set fixed_days" for m d
  proof -
    have "days_before_year y < date_ord y m d" "date_ord y m d \<le> days_before_year (y + 1)"
      using date_ord_year[of y m d] fixed_days_range[OF md, of y] by simp_all
    then have "valid_ordinal (date_ord y m d - 1)" "valid_ordinal (date_ord y m d + 1)"
      using inner_ordinal[OF assms] by simp_all
    then show ?thesis using assms by (auto simp: mk_date_def observed_def date_add_def)
  qed
  then show ?thesis unfolding fixed_holidays_def by (intro mapR_succeeds) auto
qed

lemma holidays_for_year_succeeds:
  assumes "2 \<le> y" "y \<le> 9998"
  shows "\<exists>hs. holidays_for_year y = Inr hs"
proof -
  note n = nth_weekday_succeeds[OF assms] and l = last_weekday_succeeds[OF assms]
  show ?thesis
    using fixed_holidays_succeed[OF assms] n[of 1 3 0] n[of 2 3 0] l[of 5 0] n[of 9 1 0] n[of 10 2 0] n[of 11 4 3]
    by (auto simp: holidays_for_year_def)
qed

lemma holidays_between_succeeds:
  assumes "3 \<le> year_of s" and "year_of e \<le> 9997"
  shows "\<exists>hs. holidays_between s e = Inr hs"
proof -
  have "\<exists>ys. mapR holidays_for_year [year_of s - 1..year_of e + 1] = Inr ys"
    using assms holidays_for_year_succeeds by (intro mapR_succeeds) auto
  then show ?thesis by (auto simp: holidays_between_def)
qed

text \<open>Building a horizon from its own holidays cannot fail.\<close>

lemma holiday_horizon_of_between:
  assumes "holidays_between s e = Inr hs" and "s \<le> e"
  shows "holiday_horizon US_FEDERAL_PROFILE US_FEDERAL_VERSION s e hs =
    Inr \<lparr>hz_profile = US_FEDERAL_PROFILE, hz_version = US_FEDERAL_VERSION, hz_starts_on = s,
         hz_ends_on = e, hz_holidays = hs\<rparr>"
  using holidays_between_Inr[OF assms(1)] assms(2)
  by (auto simp: holiday_horizon_def holiday_tuple_def check_identifier_def is_space_def
      US_FEDERAL_PROFILE_def US_FEDERAL_VERSION_def)

lemma authenticate_Inr:
  "authenticate_us_federal_horizon h = Inr u \<longleftrightarrow>
     hz_profile h = US_FEDERAL_PROFILE \<and> hz_version h = US_FEDERAL_VERSION \<and>
     hz_starts_on h = date_ord (year_of (hz_starts_on h)) 1 1 \<and>
     hz_ends_on h = date_ord (year_of (hz_ends_on h)) 12 31 \<and>
     1 \<le> year_of (hz_starts_on h) \<and> year_of (hz_starts_on h) \<le> 9999 \<and>
     1 \<le> year_of (hz_ends_on h) \<and> year_of (hz_ends_on h) \<le> 9999 \<and>
     holidays_between (hz_starts_on h) (hz_ends_on h) = Inr (hz_holidays h)"
  by (auto simp: authenticate_us_federal_horizon_def mk_date_def elim!: bindR_InrE split: if_splits)

lemma ord_le_december: "n \<le> date_ord (year_of n) 12 31"
  using year_of_bounds[of n] by (simp add: december_last_ord)

lemma catch_up_end_Inr:
  assumes "catch_up_end e as_of = Inr e'"
  shows "\<not> requires_extension e' as_of \<and>
    (e' = e \<or> e < e' \<and> e' = date_ord (year_of e') 12 31 \<and> year_of e' \<le> 9999)"
  using assms
proof (induction e as_of rule: catch_up_end.induct)
  case (1 e as_of)
  show ?case
  proof (cases "requires_extension e as_of")
    case False
    then show ?thesis using "1.prems" by (subst (asm) catch_up_end.simps) auto
  next
    case True
    let ?n = "date_ord (year_of e + EXTENSION_YEARS) 12 31"
    have y: "\<not> 9999 - EXTENSION_YEARS < year_of e" "catch_up_end ?n as_of = Inr e'"
      using "1.prems" True by (subst (asm) catch_up_end.simps, auto split: if_splits)+
    have n: "year_of ?n = year_of e + EXTENSION_YEARS" by (simp add: december_last)
    have "date_ord (year_of e) 12 31 < ?n"
      using days_before_year_less[of "year_of e + 1" "year_of e + EXTENSION_YEARS + 1"]
      by (simp add: december_last_ord EXTENSION_YEARS_def)
    then have "e < ?n" using ord_le_december[of e] by simp
    then show ?thesis using "1.IH"[OF True y] n y(1) by auto
  qed
qed

lemma extend_Inr:
  assumes "extend_us_federal_horizon h as_of = Inr h'"
  shows "authenticate_us_federal_horizon h' = Inr () \<and> hz_starts_on h' = hz_starts_on h \<and>
    hz_ends_on h \<le> hz_ends_on h' \<and> \<not> requires_extension (hz_ends_on h') as_of \<and>
    filter (\<lambda>d. d \<le> hz_ends_on h) (hz_holidays h') = hz_holidays h"
proof -
  have auth: "authenticate_us_federal_horizon h = Inr ()"
    using assms by (auto simp: extend_us_federal_horizon_def elim!: bindR_InrE)
  note a = auth[unfolded authenticate_Inr]
  obtain e where e: "catch_up_end (hz_ends_on h) as_of = Inr e"
    "(if e = hz_ends_on h then Inr h
       else bindR (holidays_between (hz_starts_on h) e) (\<lambda>hs.
         holiday_horizon (hz_profile h) (hz_version h) (hz_starts_on h) e hs)) = Inr h'"
    using assms by (auto simp: extend_us_federal_horizon_def elim!: bindR_InrE)
  note c = catch_up_end_Inr[OF e(1)]
  have old: "holidays_between (hz_starts_on h) (hz_ends_on h) = Inr (hz_holidays h)" using a by blast
  note old' = holidays_between_Inr[OF old]
  show ?thesis
  proof (cases "e = hz_ends_on h")
    case True
    have "filter (\<lambda>d. d \<le> hz_ends_on h) (hz_holidays h) = hz_holidays h"
      using old' by (auto simp: filter_id_conv)
    then show ?thesis using True e(2) auth c by auto
  next
    case False
    then obtain hs where hs: "holidays_between (hz_starts_on h) e = Inr hs"
      "holiday_horizon (hz_profile h) (hz_version h) (hz_starts_on h) e hs = Inr h'"
      using e(2) by (auto elim: bindR_InrE)
    have "hz_ends_on h < e" using c False by blast
    moreover have "hz_starts_on h \<le> e"
      using hs(2) by (auto simp: holiday_horizon_def elim!: bindR_InrE split: if_splits)
    ultimately have h': "h' = \<lparr>hz_profile = US_FEDERAL_PROFILE, hz_version = US_FEDERAL_VERSION,
        hz_starts_on = hz_starts_on h, hz_ends_on = e, hz_holidays = hs\<rparr>"
      using hs(2) a holiday_horizon_of_between[OF hs(1)] by simp
    note new = holidays_between_Inr[OF hs(1)]
    have "year_of (hz_ends_on h) \<le> year_of e" using year_of_mono[of "hz_ends_on h" e] \<open>hz_ends_on h < e\<close> by simp
    then have "authenticate_us_federal_horizon h' = Inr ()"
      unfolding authenticate_Inr using h' a c False hs(1) by auto
    moreover have "filter (\<lambda>d. d \<le> hz_ends_on h) hs = hz_holidays h"
    proof (rule strict_sorted_equal)
      show "sorted_wrt (<) (filter (\<lambda>d. d \<le> hz_ends_on h) hs)" using new by (intro sorted_wrt_filter) simp
      show "sorted_wrt (<) (hz_holidays h)" using old' by simp
      show "set (filter (\<lambda>d. d \<le> hz_ends_on h) hs) = set (hz_holidays h)"
        using old' new \<open>hz_ends_on h < e\<close> by auto
    qed
    ultimately show ?thesis using h' c \<open>hz_ends_on h < e\<close> False by auto
  qed
qed

lemma materialize_Inr:
  assumes "materialize_us_federal_horizon rz t name = Inr h" and "rz name = Inr z"
  shows "authenticate_us_federal_horizon h = Inr () \<and>
    hz_starts_on h \<le> local_date (z_local z t) \<and> local_date (z_local z t) \<le> hz_ends_on h"
proof -
  let ?d = "local_date (z_local z t)"
  let ?s = "date_ord (year_of ?d - 1) 1 1" and ?e = "date_ord (year_of ?d + 10) 12 31"
  obtain hs where y: "1 \<le> year_of ?d - 1" "year_of ?d + 10 \<le> 9999"
    and hs: "holidays_between ?s ?e = Inr hs"
    and h: "holiday_horizon US_FEDERAL_PROFILE US_FEDERAL_VERSION ?s ?e hs = Inr h"
    using assms by (auto simp: materialize_us_federal_horizon_def aware_local_year_def to_local_Inr_iff
        mk_date_Inr elim!: bindR_InrE)
  have s: "?s \<le> ?d"
    using year_of_bounds[of ?d] days_before_year_less[of "year_of ?d - 1" "year_of ?d"]
    by (simp add: january_first_ord)
  have e: "?d \<le> ?e"
    using year_of_bounds[of ?d] days_before_year_less[of "year_of ?d + 1" "11 + year_of ?d"]
    by (simp add: december_last_ord)
  have "h = \<lparr>hz_profile = US_FEDERAL_PROFILE, hz_version = US_FEDERAL_VERSION, hz_starts_on = ?s,
         hz_ends_on = ?e, hz_holidays = hs\<rparr>"
    using h holiday_horizon_of_between[OF hs] s e by simp
  then show ?thesis
    unfolding authenticate_Inr using y hs s e by simp
qed

section \<open>Properties\<close>

text \<open>The holidays of a horizon are strictly ascending and are exactly the federal holidays, of
  any year, whose observed date lies in the horizon: the years examined around it miss none, not even
  a New Year observed on the last day of the year before. All are Monday to Friday.\<close>

theorem holidays_between_exact:
  assumes "holidays_between starts_on ends_on = Inr hs"
  shows "sorted_wrt (<) hs \<and> (\<forall>h \<in> set hs. weekday h < 5) \<and>
    set hs = {h. starts_on \<le> h \<and> h \<le> ends_on \<and> (\<exists>y ys. holidays_for_year y = Inr ys \<and> h \<in> set ys)}"
  using holidays_between_Inr[OF assms] holidays_for_year_Inr by (fastforce simp: federal_holiday_def)

text \<open>The nth weekday of a month is that weekday, in the nth block of seven days of the month,
  and the last weekday of a month is that weekday among its last seven days.\<close>

theorem nth_and_last_weekday:
  assumes "nth_weekday y (m, wd, k) = Inr h" and "last_weekday y (m, wd) = Inr l" and "0 \<le> wd" and "wd < 7"
  shows "weekday h = wd \<and> date_ord y m (7 * (k - 1) + 1) \<le> h \<and> h \<le> date_ord y m (7 * k) \<and>
    weekday l = wd \<and> date_ord y m (days_in_month y m) - 7 < l \<and> l \<le> date_ord y m (days_in_month y m)"
  using nth_weekday_Inr[OF assms(1,3,4)] last_weekday_Inr[OF assms(2-4)] by blast

text \<open>A horizon materialised for a first start contains its local date and is canonical: the
  authentication that precedes every extension accepts it.\<close>

theorem materialized_horizon_authentic:
  assumes "resolve_zone name = Inr z" and "materialize_us_federal_horizon resolve_zone t name = Inr h"
  shows "authenticate_us_federal_horizon h = Inr () \<and>
    hz_starts_on h \<le> local_date (z_local z t) \<and> local_date (z_local z t) \<le> hz_ends_on h"
  by (rule materialize_Inr[OF assms(2,1)])

text \<open>Extending a horizon ends and keeps it canonical, keeps its start and every holiday already
  published, and reaches at least one full year beyond the given date.\<close>

theorem extend_horizon_preserves:
  assumes "extend_us_federal_horizon h as_of = Inr h'"
  shows "authenticate_us_federal_horizon h' = Inr () \<and> hz_starts_on h' = hz_starts_on h \<and>
    filter (\<lambda>d. d \<le> hz_ends_on h) (hz_holidays h') = hz_holidays h \<and>
    as_of \<le> date_ord (year_of (hz_ends_on h') - 1) 1 1"
  using extend_Inr[OF assms] by (auto simp: requires_extension_def split: if_splits)

section \<open>Witnesses\<close>

text \<open>The year 2000 starts on day 730120; Christmas 1999 falls on a Saturday.\<close>

definition y2k :: instant where "y2k = (730120 - 1) * DAY_US"

lemma y2k_year: "year_of 730120 = 2000"
  by (simp add: year_of_def)

lemma y2k_local: "to_local (fixed_zone 0) y2k = Inr y2k" "local_date y2k = 730120"
  by (simp_all add: to_local_def fixed_zone_def y2k_def valid_instant_def local_date_def
      DAY_US_def MAX_ORDINAL_def)

lemma y2k_horizon:
  "\<exists>h. materialize_us_federal_horizon (\<lambda>_. Inr (fixed_zone 0)) y2k ''UTC'' = Inr h"
proof -
  let ?s = "date_ord 1999 1 1" and ?e = "date_ord 2010 12 31"
  obtain hs where hs: "holidays_between ?s ?e = Inr hs"
    using holidays_between_succeeds[of ?s ?e] by auto
  have "?s \<le> ?e" by (simp add: date_ord_def days_before_year_def month_simps is_leap_def)
  then show ?thesis using holiday_horizon_of_between[OF hs] hs
    by (simp add: materialize_us_federal_horizon_def aware_local_year_def y2k_local y2k_year mk_date_def)
qed

theorem materialized_horizon_authentic_witness:
  "\<exists>h. materialize_us_federal_horizon (\<lambda>_. Inr (fixed_zone 0)) y2k ''UTC'' = Inr h \<and>
     authenticate_us_federal_horizon h = Inr () \<and> hz_starts_on h \<le> 730120"
proof -
  obtain h where h: "materialize_us_federal_horizon (\<lambda>_. Inr (fixed_zone 0)) y2k ''UTC'' = Inr h"
    using y2k_horizon by blast
  show ?thesis
    using materialized_horizon_authentic[OF _ h, of "fixed_zone 0"] h y2k_local
    by (auto simp: fixed_zone_def)
qed

theorem holidays_between_exact_witness:
  "\<exists>hs. holidays_between (date_ord 1999 1 1) (date_ord 2010 12 31) = Inr hs \<and> sorted_wrt (<) hs"
proof -
  obtain hs where hs: "holidays_between (date_ord 1999 1 1) (date_ord 2010 12 31) = Inr hs"
    using holidays_between_succeeds[of "date_ord 1999 1 1" "date_ord 2010 12 31"] by auto
  show ?thesis using holidays_between_exact[OF hs] hs by blast
qed

text \<open>Thanksgiving 2000 and the last Thursday of that November.\<close>

theorem nth_and_last_weekday_witness:
  "weekday 730447 = 3 \<and> date_ord 2000 11 22 \<le> 730447 \<and> 730447 \<le> date_ord 2000 11 28 \<and>
   weekday 730454 = 3 \<and> date_ord 2000 11 30 - 7 < 730454 \<and> 730454 \<le> date_ord 2000 11 30"
proof -
  have o: "date_ord 2000 11 1 = 730425" "date_ord 2000 11 30 = 730454"
    by (simp_all add: date_ord_def days_before_year_def month_simps is_leap_def)
  have n: "nth_weekday 2000 (11, 3, 4) = Inr 730447"
    by (simp add: nth_weekday_def mk_date_def o weekday_def date_add_def valid_ordinal_def MAX_ORDINAL_def)
  have l: "last_weekday 2000 (11, 3) = Inr 730454"
    by (simp add: last_weekday_def mk_date_def o weekday_def date_add_def valid_ordinal_def MAX_ORDINAL_def
        days_in_month_def month_days_def)
  show ?thesis using nth_and_last_weekday[OF n l] by (simp add: days_in_month_def month_days_def)
qed

text \<open>In 2012 the horizon of 2010 is extended by ten years.\<close>

theorem extend_horizon_preserves_witness:
  "\<exists>h h'. authenticate_us_federal_horizon h = Inr () \<and>
     extend_us_federal_horizon h (date_ord 2012 1 1) = Inr h' \<and>
     authenticate_us_federal_horizon h' = Inr () \<and> hz_ends_on h' = date_ord 2020 12 31"
proof -
  let ?s = "date_ord 1999 1 1" and ?e = "date_ord 2010 12 31" and ?n = "date_ord 2020 12 31"
  obtain hs where hs: "holidays_between ?s ?e = Inr hs"
    using holidays_between_succeeds[of ?s ?e] by auto
  obtain ns where ns: "holidays_between ?s ?n = Inr ns"
    using holidays_between_succeeds[of ?s ?n] by auto
  let ?h = "\<lparr>hz_profile = US_FEDERAL_PROFILE, hz_version = US_FEDERAL_VERSION, hz_starts_on = ?s,
    hz_ends_on = ?e, hz_holidays = hs\<rparr>"
  let ?h' = "\<lparr>hz_profile = US_FEDERAL_PROFILE, hz_version = US_FEDERAL_VERSION, hz_starts_on = ?s,
    hz_ends_on = ?n, hz_holidays = ns\<rparr>"
  have a: "authenticate_us_federal_horizon ?h = Inr ()" unfolding authenticate_Inr using hs by simp
  have lt: "?e < ?n" "?s \<le> ?n" by (simp_all add: date_ord_def days_before_year_def month_simps is_leap_def)
  have "date_ord 2009 1 1 < date_ord 2012 1 1" "\<not> date_ord 2019 1 1 < date_ord 2012 1 1"
    by (simp_all add: date_ord_def days_before_year_def month_simps is_leap_def)
  then have "catch_up_end ?n (date_ord 2012 1 1) = Inr ?n" "requires_extension ?e (date_ord 2012 1 1)"
    by (subst catch_up_end.simps, simp_all add: requires_extension_def)
  then have "catch_up_end ?e (date_ord 2012 1 1) = Inr ?n"
    by (subst catch_up_end.simps) (simp add: EXTENSION_YEARS_def)
  then have x: "extend_us_federal_horizon ?h (date_ord 2012 1 1) = Inr ?h'"
    using a lt ns holiday_horizon_of_between[OF ns] by (simp add: extend_us_federal_horizon_def)
  show ?thesis using extend_horizon_preserves[OF x] a x by (intro exI[of _ ?h] exI[of _ ?h']) simp
qed

end
