(* ===== verification/Team_Blueprint.thy ===== *)
theory Team_Blueprint
  imports Business_Calendar Py_Float
begin

text \<open>
  The resolved team blueprint (\<open>v2/domain/team_blueprint.py\<close>): its records, the constraints of their
  fields and their validators, and the checks across fields. A validation error of pydantic is a
  \<open>ValueError\<close>; the constraints on single fields share one message. Parsing a canonical document into
  the records is pydantic's and is not modelled; \<open>rb_canonical_document\<close> keeps the text.
\<close>

section \<open>Records\<close>

record TeamBlueprintTeam =
  tb_name :: string
  tb_purpose :: string
  tb_summary :: string
  tb_description :: string
  tb_methodology :: string
  tb_archetype :: string
  tb_timezone :: string
  tb_locale :: string

record JiraBlueprint =
  jb_project_name :: string
  jb_project_key :: string
  jb_board_name :: string
  jb_project_type :: string
  jb_topology_strategy :: string

record AvailabilityInterval =
  av_starts_at :: instant
  av_ends_at :: instant
  av_fraction :: py_float
  av_capacity_hours_override :: py_float
  av_reason :: string

record Responsibility =
  rs_activity :: string
  rs_proficiency :: py_float

record MemberBlueprint =
  mb_name :: string
  mb_roles :: "string list"
  mb_daily_capacity_hours :: py_float
  mb_max_concurrent_wip :: int
  mb_responsibilities :: "Responsibility list"
  mb_availability :: "AvailabilityInterval list"

record WorkflowStatus =
  ws_key :: string
  ws_jira_name :: string
  ws_category :: string
  ws_activities :: "string list"
  ws_consumes_capacity :: bool
  ws_pauses_service_clock :: bool

record WorkflowRouteStep =
  rp_status_key :: string
  rp_required_activity :: "string option"

record WorkflowRoute =
  ro_issue_type :: string
  ro_steps :: "WorkflowRouteStep list"

record WorkflowBlueprint =
  wf_statuses :: "WorkflowStatus list"
  wf_routes :: "WorkflowRoute list"

record TimingEntry =
  te_status_key :: string
  te_issue_type :: string
  te_story_points :: int
  te_min :: py_float
  te_p25 :: py_float
  te_p50 :: py_float
  te_p99 :: py_float
  te_max :: py_float
  te_touch_min :: py_float
  te_touch_max :: py_float

record TimingBlueprint =
  tm_profile_name :: string
  tm_profile_version :: int
  tm_algorithm_version :: string
  tm_entries :: "TimingEntry list"

record BacklogBlueprint =
  bl_target_depth :: int
  bl_issue_type_weights :: "(string, py_float) dict"
  bl_story_point_weights :: "(string, py_float) dict"
  bl_priority_weights :: "(string, py_float) dict"
  bl_import_issue_type :: string
  bl_import_story_points :: int
  bl_arrival_pattern :: string
  bl_replenishment_policy :: string

record ProbabilityClamp =
  pc_min :: py_float
  pc_max :: py_float

record RiskRule =
  rr_key :: string
  rr_trigger :: string
  rr_base_probability :: py_float
  rr_coefficients :: "(string, json) dict"
  rr_clamp :: ProbabilityClamp
  rr_mechanical_parameters :: "(string, json) dict"

record RisksBlueprint =
  rb_profile_name :: string
  rb_profile_version :: int
  rb_algorithm_version :: string
  rb_rules :: "RiskRule list"

record ContentBlueprint =
  co_generation_policy_version :: string
  co_transcript_policy_version :: string
  co_generation_enabled :: bool
  co_daily_transcript :: bool
  co_jira_comments :: bool

record ScrumBlueprint =
  sb_cadence_days :: int
  sb_first_boundary :: instant
  sb_capacity_min_points :: int
  sb_capacity_max_points :: int
  sb_planning_policy_version :: string
  sb_ranking_policy_version :: string
  sb_carryover_policy_version :: string

record ResolvedTeamBlueprint =
  bp_canonical_document :: string
  bp_team :: TeamBlueprintTeam
  bp_jira :: JiraBlueprint
  bp_calendar :: CalendarBlueprint
  bp_members :: "MemberBlueprint list"
  bp_workflow :: WorkflowBlueprint
  bp_timing :: TimingBlueprint
  bp_backlog :: BacklogBlueprint
  bp_risks :: RisksBlueprint
  bp_content :: ContentBlueprint
  bp_scrum :: ScrumBlueprint
  bp_seed :: string

definition ISSUE_TYPES :: "string list" where
  "ISSUE_TYPES = [''STORY'', ''BUG'', ''TASK'', ''SPIKE'', ''ENABLER'']"

definition STORY_POINTS :: "int list" where
  "STORY_POINTS = [1, 2, 3, 5, 8, 13]"

section \<open>Validators of single records\<close>

definition field_constraint :: "bool \<Rightarrow> unit res" where
  "field_constraint b = guardR b (Value_Error ''field constraint'')"

definition validate_calendar :: "CalendarBlueprint \<Rightarrow> unit res" where
  "validate_calendar b =
     bindR (weekday_indices (cb_working_weekdays b)) (\<lambda>_.
     bindR (local_time (cb_workday_start b)) (\<lambda>s.
     bindR (local_time (cb_workday_end b)) (\<lambda>e.
     bindR (guardR (s < e) (Value_Error ''workday interval must be ordered'')) (\<lambda>_.
     bindR (holiday_dates (cb_holidays b) (cb_horizon_end b)) (\<lambda>_. Inr ())))))"

definition validate_interval :: "AvailabilityInterval \<Rightarrow> unit res" where
  "validate_interval a =
     bindR (field_constraint (0 \<le> av_fraction a \<and> av_fraction a \<le> 1 \<and> 0 < av_capacity_hours_override a)) (\<lambda>_.
       guardR (av_starts_at a < av_ends_at a)
         (Value_Error ''availability interval must have positive duration''))"

definition validate_responsibility :: "Responsibility \<Rightarrow> unit res" where
  "validate_responsibility r = field_constraint (1 / 4 \<le> rs_proficiency r \<and> rs_proficiency r \<le> 2)"

fun ordered_intervals :: "AvailabilityInterval list \<Rightarrow> bool" where
  "ordered_intervals (a # b # rest) \<longleftrightarrow> av_ends_at a \<le> av_starts_at b \<and> ordered_intervals (b # rest)"
| "ordered_intervals _ \<longleftrightarrow> True"

definition validate_member :: "MemberBlueprint \<Rightarrow> unit res" where
  "validate_member m =
     bindR (field_constraint (0 < mb_daily_capacity_hours m \<and> mb_daily_capacity_hours m \<le> 24)) (\<lambda>_.
     bindR (field_constraint (1 \<le> mb_max_concurrent_wip m \<and> mb_max_concurrent_wip m \<le> 10)) (\<lambda>_.
     bindR (forR validate_responsibility (mb_responsibilities m)) (\<lambda>_.
     bindR (forR validate_interval (mb_availability m)) (\<lambda>_.
     bindR (guardR (mb_roles m \<noteq> [] \<and> distinct (mb_roles m))
              (Value_Error ''member roles must be non-empty and unique'')) (\<lambda>_.
     bindR (guardR (mb_responsibilities m \<noteq> [] \<and> distinct (map rs_activity (mb_responsibilities m)))
              (Value_Error ''responsibilities must be non-empty and unique'')) (\<lambda>_.
       guardR (ordered_intervals (mb_availability m))
         (Value_Error ''availability intervals must be ordered and non-overlapping'')))))))"

definition validate_timing_entry :: "TimingEntry \<Rightarrow> unit res" where
  "validate_timing_entry t =
     bindR (field_constraint (te_issue_type t \<in> set ISSUE_TYPES \<and> te_story_points t \<in> set STORY_POINTS)) (\<lambda>_.
     bindR (field_constraint (0 \<le> te_min t \<and> 0 \<le> te_p25 t \<and> 0 \<le> te_p50 t \<and> 0 \<le> te_p99 t \<and> 0 \<le> te_max t \<and>
              0 \<le> te_touch_min t \<and> 0 \<le> te_touch_max t)) (\<lambda>_.
     bindR (guardR (te_min t \<le> te_p25 t \<and> te_p25 t \<le> te_p50 t \<and> te_p50 t \<le> te_p99 t \<and> te_p99 t \<le> te_max t)
              (Value_Error ''timing anchors must be ordered'')) (\<lambda>_.
       guardR (te_touch_min t \<le> te_touch_max t) (Value_Error ''touch bounds must be ordered''))))"

definition validate_weights :: "(string, py_float) dict \<Rightarrow> unit res" where
  "validate_weights w =
     bindR (field_constraint (\<forall>(k, v) \<in> set w. 0 < v)) (\<lambda>_.
       guardR (w \<noteq> []) (Value_Error ''weight map must not be empty''))"

definition validate_backlog :: "BacklogBlueprint \<Rightarrow> unit res" where
  "validate_backlog b =
     bindR (field_constraint (1 \<le> bl_target_depth b \<and> bl_target_depth b \<le> 1000)) (\<lambda>_.
     bindR (validate_weights (bl_issue_type_weights b)) (\<lambda>_.
     bindR (validate_weights (bl_story_point_weights b)) (\<lambda>_.
     bindR (validate_weights (bl_priority_weights b)) (\<lambda>_.
       field_constraint (bl_import_issue_type b \<in> set ISSUE_TYPES \<and> bl_import_story_points b \<in> set STORY_POINTS)))))"

definition validate_clamp :: "ProbabilityClamp \<Rightarrow> unit res" where
  "validate_clamp c =
     bindR (field_constraint (0 \<le> pc_min c \<and> pc_min c \<le> 1 \<and> 0 \<le> pc_max c \<and> pc_max c \<le> 1)) (\<lambda>_.
       guardR (pc_min c \<le> pc_max c) (Value_Error ''probability clamp must be ordered''))"

definition validate_risk_rule :: "RiskRule \<Rightarrow> unit res" where
  "validate_risk_rule r =
     bindR (field_constraint (0 \<le> rr_base_probability r \<and> rr_base_probability r \<le> 1)) (\<lambda>_.
     bindR (validate_clamp (rr_clamp r)) (\<lambda>_.
       guardR (rr_mechanical_parameters r \<noteq> [])
         (Value_Error ''risk mechanical parameters must be materialized'')))"

definition validate_scrum :: "ScrumBlueprint \<Rightarrow> unit res" where
  "validate_scrum s =
     bindR (field_constraint (0 < sb_cadence_days s \<and> 0 \<le> sb_capacity_min_points s \<and> 0 \<le> sb_capacity_max_points s)) (\<lambda>_.
       guardR (sb_capacity_min_points s \<le> sb_capacity_max_points s)
         (Value_Error ''Scrum capacity range must be ordered''))"

section \<open>Checks across fields\<close>

definition unique_values :: "'a list \<Rightarrow> string \<Rightarrow> unit res" where
  "unique_values values label =
     guardR (values \<noteq> [] \<and> distinct values) (Value_Error (label @ '' must be non-empty and unique''))"

definition validate_unique_identity :: "ResolvedTeamBlueprint \<Rightarrow> unit res" where
  "validate_unique_identity b =
     bindR (unique_values (map mb_name (bp_members b)) ''member names'') (\<lambda>_.
     bindR (unique_values (map ws_key (wf_statuses (bp_workflow b))) ''status keys'') (\<lambda>_.
     bindR (unique_values (map ws_jira_name (wf_statuses (bp_workflow b))) ''Jira status names'') (\<lambda>_.
       unique_values (map ro_issue_type (wf_routes (bp_workflow b))) ''route issue types'')))"

definition staffed_activities :: "ResolvedTeamBlueprint \<Rightarrow> string list" where
  "staffed_activities b = concat (map (\<lambda>m. map rs_activity (mb_responsibilities m)) (bp_members b))"

definition validate_route_step ::
  "(string, WorkflowStatus) dict \<Rightarrow> string list \<Rightarrow> WorkflowRouteStep \<Rightarrow> unit res" where
  "validate_route_step status_by_key staffed step =
     (case map_of status_by_key (rp_status_key step) of
        None \<Rightarrow> Inl (Value_Error ''route references an unknown status'')
      | Some status \<Rightarrow>
          (case rp_required_activity step of
             None \<Rightarrow> Inr ()
           | Some activity \<Rightarrow>
               bindR (guardR (activity \<in> set (ws_activities status))
                        (Value_Error ''route activity is not mapped by its status'')) (\<lambda>_.
                 guardR (activity \<in> set staffed)
                   (Value_Error ''route activity has no proficient member''))))"

definition validate_routes :: "ResolvedTeamBlueprint \<Rightarrow> unit res" where
  "validate_routes b =
     (let status_by_key = dict_of ws_key (wf_statuses (bp_workflow b)) in
      forR (\<lambda>route.
        bindR (guardR (2 \<le> length (ro_steps route))
                 (Value_Error ''workflow routes require at least two steps'')) (\<lambda>_.
          forR (validate_route_step status_by_key (staffed_activities b)) (ro_steps route)))
        (wf_routes (bp_workflow b)))"

text \<open>\<open>int(text)\<close>: surrounding whitespace, a sign, and digits that single underscores may separate.\<close>

fun int_digits :: "string \<Rightarrow> int \<Rightarrow> int option" where
  "int_digits [] acc = Some acc"
| "int_digits (ch # rest) acc =
     (case digit ch of
        Some d \<Rightarrow> int_digits rest (10 * acc + d)
      | None \<Rightarrow>
          (case rest of
             [] \<Rightarrow> None
           | next # _ \<Rightarrow> if ch = CHR ''_'' \<and> digit next \<noteq> None then int_digits rest acc else None))"

definition int_of_text :: "string \<Rightarrow> int res" where
  "int_of_text text =
     (let core = rev (dropWhile is_space (rev (dropWhile is_space text)));
          (sign, ds) = (case core of [] \<Rightarrow> (1, [])
             | ch # rest \<Rightarrow> if ch = CHR ''-'' then (- 1, rest) else if ch = CHR ''+'' then (1, rest) else (1, core))
      in case ds of
           [] \<Rightarrow> Inl (Value_Error ''invalid literal for int()'')
         | ch # _ \<Rightarrow>
             (case (digit ch, int_digits ds 0) of
                (Some _, Some n) \<Rightarrow> Inr (sign * n)
              | _ \<Rightarrow> Inl (Value_Error ''invalid literal for int()'')))"

definition timing_cell :: "TimingEntry \<Rightarrow> string \<times> string \<times> int" where
  "timing_cell t = (te_status_key t, te_issue_type t, te_story_points t)"

definition expected_cells ::
  "(string, WorkflowStatus) dict \<Rightarrow> WorkflowRoute list \<Rightarrow> int list \<Rightarrow> (string \<times> string \<times> int) list" where
  "expected_cells statuses routes points =
     concat (map (\<lambda>route. concat (map (\<lambda>step.
       (case map_of statuses (rp_status_key step) of
          Some status \<Rightarrow>
            if ws_consumes_capacity status
            then map (\<lambda>point. (rp_status_key step, ro_issue_type route, point)) points else []
        | None \<Rightarrow> [])) (ro_steps route))) routes)"

definition validate_timing_grid :: "ResolvedTeamBlueprint \<Rightarrow> unit res" where
  "validate_timing_grid b =
     (let statuses = dict_of ws_key (wf_statuses (bp_workflow b));
          routes = wf_routes (bp_workflow b);
          actual = map timing_cell (tm_entries (bp_timing b))
      in bindR (mapR int_of_text (map fst (bl_story_point_weights (bp_backlog b)))) (\<lambda>points.
         bindR (guardR (distinct actual) (Value_Error ''timing grid cells must be unique'')) (\<lambda>_.
           let expected = expected_cells statuses routes points in
           bindR (guardR (expected \<noteq> [] \<and> set expected \<subseteq> set actual)
                    (Value_Error ''timing grid is not fully materialized'')) (\<lambda>_.
             guardR (\<forall>(status, issue_type, _) \<in> set actual.
                       map_of statuses status \<noteq> None \<and> issue_type \<in> set (map ro_issue_type routes))
               (Value_Error ''timing cell references unknown workflow data'')))))"

definition validate_risks :: "ResolvedTeamBlueprint \<Rightarrow> unit res" where
  "validate_risks b =
     (let keys = map rr_key (rb_rules (bp_risks b)) in
      bindR (guardR (keys \<noteq> [] \<and> distinct keys)
               (Value_Error ''risk rules must be materialized and unique'')) (\<lambda>_.
        guardR (set (map fst (bl_issue_type_weights (bp_backlog b))) \<subseteq>
                set (map ro_issue_type (wf_routes (bp_workflow b))))
          (Value_Error ''weighted issue type has no workflow route'')))"

definition validate_cross_fields :: "ResolvedTeamBlueprint \<Rightarrow> unit res" where
  "validate_cross_fields b =
     bindR (validate_unique_identity b) (\<lambda>_.
     bindR (validate_routes b) (\<lambda>_.
     bindR (validate_timing_grid b) (\<lambda>_. validate_risks b)))"

definition validate_workflow :: "WorkflowBlueprint \<Rightarrow> unit res" where
  "validate_workflow w =
     field_constraint ((\<forall>r \<in> set (wf_routes w). ro_issue_type r \<in> set ISSUE_TYPES) \<and>
       (\<forall>s \<in> set (wf_statuses w). ws_category s \<in> {''TODO'', ''IN_PROGRESS'', ''DONE''}))"

definition validate_blueprint :: "ResolvedTeamBlueprint \<Rightarrow> unit res" where
  "validate_blueprint b =
     bindR (validate_calendar (bp_calendar b)) (\<lambda>_.
     bindR (forR validate_member (bp_members b)) (\<lambda>_.
     bindR (validate_workflow (bp_workflow b)) (\<lambda>_.
     bindR (forR validate_timing_entry (tm_entries (bp_timing b))) (\<lambda>_.
     bindR (validate_backlog (bp_backlog b)) (\<lambda>_.
     bindR (forR validate_risk_rule (rb_rules (bp_risks b))) (\<lambda>_.
     bindR (validate_scrum (bp_scrum b)) (\<lambda>_. validate_cross_fields b)))))))"


section \<open>Lookups in a validated blueprint\<close>

lemma field_constraint_Inr [res_simps]: "field_constraint b = Inr u \<longleftrightarrow> b"
  by (simp add: field_constraint_def res_simps)

lemma unique_values_Inr [res_simps]: "unique_values xs l = Inr u \<longleftrightarrow> xs \<noteq> [] \<and> distinct xs"
  by (simp add: unique_values_def res_simps)

lemma validate_blueprint_parts:
  assumes "validate_blueprint b = Inr ()"
  shows "validate_unique_identity b = Inr () \<and> validate_routes b = Inr () \<and> validate_timing_grid b = Inr () \<and>
    validate_risks b = Inr () \<and> (\<forall>m \<in> set (bp_members b). validate_member m = Inr ()) \<and>
    (\<forall>t \<in> set (tm_entries (bp_timing b)). validate_timing_entry t = Inr ())"
  using assms unfolding validate_blueprint_def validate_cross_fields_def
  by (simp only: bindR_check forR_eq_Inr) blast

lemma status_found:
  assumes "map_of (dict_of ws_key xs) k = Some status"
  shows "status \<in> set xs \<and> ws_key status = k"
  using set_dict_of[OF assms] .

lemma find_or_stop_unique:
  assumes "distinct (map f xs)" and "x \<in> set xs"
  shows "find_or_stop (\<lambda>y. f y = f x) xs = Inr x"
proof -
  obtain y where y: "find_or_stop (\<lambda>y. f y = f x) xs = Inr y"
    using find_or_stop_total[of xs "\<lambda>y. f y = f x"] assms(2) by blast
  then have "y \<in> set xs" "f y = f x" using find_or_stop_Inr[OF y] by simp_all
  then have "y = x" using assms by (metis distinct_map inj_onD)
  then show ?thesis using y by simp
qed

lemma expected_cell:
  assumes "route \<in> set routes" and "step \<in> set (ro_steps route)"
    and "map_of statuses (rp_status_key step) = Some status" and "ws_consumes_capacity status"
    and "point \<in> set points"
  shows "(rp_status_key step, ro_issue_type route, point) \<in> set (expected_cells statuses routes points)"
  using assms unfolding expected_cells_def by (auto intro!: bexI[of _ route] bexI[of _ step])

text \<open>In a validated blueprint every lookup the engine makes by key succeeds: the status of a
  route step is found, its required activity belongs to that status and some member is proficient in
  it, and a step that consumes capacity has a timing entry for every
  story point value of the backlog.\<close>

theorem validated_blueprint_lookups:
  assumes "validate_blueprint b = Inr ()" and "route \<in> set (wf_routes (bp_workflow b))"
    and "step \<in> set (ro_steps route)"
    and "mapR int_of_text (map fst (bl_story_point_weights (bp_backlog b))) = Inr points"
  shows "\<exists>status. find_or_stop (\<lambda>s. ws_key s = rp_status_key step) (wf_statuses (bp_workflow b)) = Inr status \<and>
    (\<forall>activity. rp_required_activity step = Some activity \<longrightarrow>
       activity \<in> set (ws_activities status) \<and>
       (\<exists>m \<in> set (bp_members b). activity \<in> rs_activity ` set (mb_responsibilities m))) \<and>
    (ws_consumes_capacity status \<longrightarrow>
       (\<forall>point \<in> set points. \<exists>entry. find_or_stop
          (\<lambda>t. timing_cell t = (rp_status_key step, ro_issue_type route, point)) (tm_entries (bp_timing b)) = Inr entry))"
proof -
  note v = validate_blueprint_parts[OF assms(1)]
  let ?statuses = "wf_statuses (bp_workflow b)"
  have d: "distinct (map ws_key ?statuses)" using v by (auto simp: validate_unique_identity_def res_simps)
  have step: "validate_route_step (dict_of ws_key ?statuses) (staffed_activities b) step = Inr ()"
    using v assms(2,3) by (auto simp: validate_routes_def Let_def res_simps)
  then obtain status where s: "map_of (dict_of ws_key ?statuses) (rp_status_key step) = Some status"
    by (auto simp: validate_route_step_def split: option.splits)
  note f = status_found[OF s]
  have found: "find_or_stop (\<lambda>s. ws_key s = rp_status_key step) ?statuses = Inr status"
    using find_or_stop_unique[OF d, of status] f by simp
  have act: "activity \<in> set (ws_activities status) \<and>
      (\<exists>m \<in> set (bp_members b). activity \<in> rs_activity ` set (mb_responsibilities m))"
    if a: "rp_required_activity step = Some activity" for activity
    using step s a by (auto simp: validate_route_step_def staffed_activities_def res_simps)
  have grid: "\<exists>entry. find_or_stop (\<lambda>t. timing_cell t = (rp_status_key step, ro_issue_type route, point))
      (tm_entries (bp_timing b)) = Inr entry" if c: "ws_consumes_capacity status" "point \<in> set points" for point
  proof -
    have "(rp_status_key step, ro_issue_type route, point)
        \<in> set (expected_cells (dict_of ws_key ?statuses) (wf_routes (bp_workflow b)) points)"
      by (rule expected_cell[OF assms(2,3) s c])
    then have "(rp_status_key step, ro_issue_type route, point) \<in> timing_cell ` set (tm_entries (bp_timing b))"
      using v assms(4) by (auto simp: validate_timing_grid_def Let_def res_simps)
    then show ?thesis by (intro find_or_stop_total) auto
  qed
  show ?thesis using found act grid by blast
qed

section \<open>A small team\<close>

text \<open>One developer, one route from the backlog through development to done, three-point stories.\<close>

definition sample_member :: MemberBlueprint where
  "sample_member = \<lparr>mb_name = ''Ada'', mb_roles = [''DEV''], mb_daily_capacity_hours = 8,
     mb_max_concurrent_wip = 1, mb_responsibilities = [\<lparr>rs_activity = ''CODE'', rs_proficiency = 1\<rparr>],
     mb_availability = []\<rparr>"

definition sample_workflow :: WorkflowBlueprint where
  "sample_workflow = \<lparr>wf_statuses =
     [\<lparr>ws_key = ''READY'', ws_jira_name = ''Ready'', ws_category = ''TODO'', ws_activities = [],
       ws_consumes_capacity = False, ws_pauses_service_clock = False\<rparr>,
      \<lparr>ws_key = ''DEV'', ws_jira_name = ''In Development'', ws_category = ''IN_PROGRESS'', ws_activities = [''CODE''],
       ws_consumes_capacity = True, ws_pauses_service_clock = False\<rparr>,
      \<lparr>ws_key = ''DONE'', ws_jira_name = ''Done'', ws_category = ''DONE'', ws_activities = [],
       ws_consumes_capacity = False, ws_pauses_service_clock = False\<rparr>],
     wf_routes = [\<lparr>ro_issue_type = ''STORY'', ro_steps =
       [\<lparr>rp_status_key = ''READY'', rp_required_activity = None\<rparr>,
        \<lparr>rp_status_key = ''DEV'', rp_required_activity = Some ''CODE''\<rparr>,
        \<lparr>rp_status_key = ''DONE'', rp_required_activity = None\<rparr>]\<rparr>]\<rparr>"

definition sample_timing :: TimingEntry where
  "sample_timing = \<lparr>te_status_key = ''DEV'', te_issue_type = ''STORY'', te_story_points = 3, te_min = 0,
     te_p25 = 0, te_p50 = 0, te_p99 = 0, te_max = 0, te_touch_min = 1, te_touch_max = 1\<rparr>"

definition sample_blueprint :: ResolvedTeamBlueprint where
  "sample_blueprint = \<lparr>bp_canonical_document = ''{}'',
     bp_team = \<lparr>tb_name = ''A'', tb_purpose = ''p'', tb_summary = ''s'', tb_description = ''d'',
       tb_methodology = ''SCRUM'', tb_archetype = ''x'', tb_timezone = ''UTC'', tb_locale = ''en''\<rparr>,
     bp_jira = \<lparr>jb_project_name = ''P'', jb_project_key = ''PK'', jb_board_name = ''B'',
       jb_project_type = ''COMPANY_MANAGED'', jb_topology_strategy = ''OFFICIAL_PROJECT_SCOPED_V1''\<rparr>,
     bp_calendar = office_blueprint, bp_members = [sample_member], bp_workflow = sample_workflow,
     bp_timing = \<lparr>tm_profile_name = ''t'', tm_profile_version = 1, tm_algorithm_version = ''v1'',
       tm_entries = [sample_timing]\<rparr>,
     bp_backlog = \<lparr>bl_target_depth = 1, bl_issue_type_weights = [(''STORY'', 1)],
       bl_story_point_weights = [(''3'', 1)], bl_priority_weights = [(''HIGH'', 1)],
       bl_import_issue_type = ''STORY'', bl_import_story_points = 3, bl_arrival_pattern = ''a'',
       bl_replenishment_policy = ''r''\<rparr>,
     bp_risks = \<lparr>rb_profile_name = ''r'', rb_profile_version = 1, rb_algorithm_version = ''v1'',
       rb_rules = [\<lparr>rr_key = ''LONG_STAY'', rr_trigger = ''STATUS_AGED'', rr_base_probability = 0,
         rr_coefficients = [], rr_clamp = \<lparr>pc_min = 0, pc_max = 1\<rparr>,
         rr_mechanical_parameters = [(''threshold_multiplier'', JNum 2)]\<rparr>]\<rparr>,
     bp_content = \<lparr>co_generation_policy_version = ''1'', co_transcript_policy_version = ''1'',
       co_generation_enabled = False, co_daily_transcript = False, co_jira_comments = False\<rparr>,
     bp_scrum = \<lparr>sb_cadence_days = 14, sb_first_boundary = 637200000000, sb_capacity_min_points = 3,
       sb_capacity_max_points = 8, sb_planning_policy_version = ''1'', sb_ranking_policy_version = ''1'',
       sb_carryover_policy_version = ''1''\<rparr>,
     bp_seed = ''seed''\<rparr>"

lemmas sample_defs = sample_member_def sample_workflow_def sample_timing_def sample_blueprint_def

lemma sample_blueprint_valid: "validate_blueprint sample_blueprint = Inr ()"
proof -
  have "validate_calendar office_blueprint = Inr ()"
    by (simp add: validate_calendar_def office_blueprint_def local_time_def digit_def
      weekday_indices_def WEEKDAYS_def holiday_dates_def HOUR_US_def)
  moreover have "validate_member sample_member = Inr ()"
    by (simp add: sample_member_def validate_member_def validate_responsibility_def field_constraint_def)
  moreover have "validate_workflow sample_workflow = Inr ()"
    by (simp add: sample_workflow_def validate_workflow_def field_constraint_def ISSUE_TYPES_def)
  moreover have "validate_timing_entry sample_timing = Inr ()"
    by (simp add: sample_timing_def validate_timing_entry_def field_constraint_def ISSUE_TYPES_def STORY_POINTS_def)
  moreover have "validate_backlog (bp_backlog sample_blueprint) = Inr ()"
    by (simp add: sample_blueprint_def validate_backlog_def validate_weights_def field_constraint_def
        ISSUE_TYPES_def STORY_POINTS_def)
  moreover have "forR validate_risk_rule (rb_rules (bp_risks sample_blueprint)) = Inr ()"
    by (simp add: sample_blueprint_def validate_risk_rule_def validate_clamp_def field_constraint_def)
  moreover have "validate_scrum (bp_scrum sample_blueprint) = Inr ()"
    by (simp add: sample_blueprint_def validate_scrum_def field_constraint_def)
  moreover have "validate_unique_identity sample_blueprint = Inr ()"
    by (simp add: sample_defs validate_unique_identity_def unique_values_def)
  moreover have "validate_routes sample_blueprint = Inr ()"
    by (simp add: sample_defs validate_routes_def validate_route_step_def staffed_activities_def dict_of_def Let_def)
  moreover have "int_of_text ''3'' = Inr 3"
    by (simp add: int_of_text_def is_space_def digit_def Let_def)
  then have "validate_timing_grid sample_blueprint = Inr ()"
    by (simp add: sample_defs validate_timing_grid_def expected_cells_def timing_cell_def dict_of_def Let_def)
  moreover have "validate_risks sample_blueprint = Inr ()"
    by (simp add: sample_defs validate_risks_def Let_def)
  ultimately show ?thesis
    by (simp add: validate_blueprint_def validate_cross_fields_def) (simp add: sample_blueprint_def)
qed

theorem validated_blueprint_lookups_witness:
  "\<exists>status. find_or_stop (\<lambda>s. ws_key s = ''DEV'') (wf_statuses sample_workflow) = Inr status \<and>
     ''CODE'' \<in> set (ws_activities status)"
proof -
  let ?step = "\<lparr>rp_status_key = ''DEV'', rp_required_activity = Some ''CODE''\<rparr>"
  have "int_of_text ''3'' = Inr 3" by (simp add: int_of_text_def is_space_def digit_def Let_def)
  then have p: "mapR int_of_text (map fst (bl_story_point_weights (bp_backlog sample_blueprint))) = Inr [3]"
    by (simp add: sample_blueprint_def)
  have r: "hd (wf_routes sample_workflow) \<in> set (wf_routes (bp_workflow sample_blueprint))"
    "?step \<in> set (ro_steps (hd (wf_routes sample_workflow)))"
    by (simp_all add: sample_defs)
  show ?thesis using validated_blueprint_lookups[OF sample_blueprint_valid r p]
    by (auto simp: sample_blueprint_def)
qed

end
