(* ===== verification/Sampling.thy ===== *)
theory Sampling
  imports Team_Blueprint
begin

text \<open>
  Dwell and touch samplers (\<open>v2/domain/sampling.py\<close>): anchors and bounds with their checks, the
  log-interpolation between the anchors of a unit draw's segment, the linear touch sample, and the
  sample record that recomputes its own value. \<open>log1p\<close> and \<open>expm1\<close> are arguments. Values are finite
  floats, so of the number checks the one for negative values remains.
\<close>

section \<open>Parameters\<close>

definition finite_non_negative :: "py_float \<Rightarrow> string \<Rightarrow> py_float res" where
  "finite_non_negative value label =
     (if value < 0 then Inl (Value_Error (label @ '' must be non-negative'')) else Inr value)"

definition unit_draw :: "py_float \<Rightarrow> py_float res" where
  "unit_draw value =
     bindR (finite_non_negative value ''unit_draw'') (\<lambda>draw.
       if 1 < draw then Inl (Value_Error ''unit_draw must be in [0, 1]'') else Inr draw)"

record DwellAnchors =
  da_minimum :: py_float
  da_p25 :: py_float
  da_p50 :: py_float
  da_p99 :: py_float
  da_maximum :: py_float

definition anchor_values :: "DwellAnchors \<Rightarrow> py_float list" where
  "anchor_values a = [da_minimum a, da_p25 a, da_p50 a, da_p99 a, da_maximum a]"

definition check_dwell_anchors :: "DwellAnchors \<Rightarrow> DwellAnchors res" where
  "check_dwell_anchors a =
     bindR (finite_non_negative (da_minimum a) ''minimum'') (\<lambda>_.
     bindR (finite_non_negative (da_p25 a) ''p25'') (\<lambda>_.
     bindR (finite_non_negative (da_p50 a) ''p50'') (\<lambda>_.
     bindR (finite_non_negative (da_p99 a) ''p99'') (\<lambda>_.
     bindR (finite_non_negative (da_maximum a) ''maximum'') (\<lambda>_.
       if sorted (anchor_values a) then Inr a
       else Inl (Value_Error ''dwell anchors must be ordered''))))))"

record TouchBounds =
  to_minimum :: py_float
  to_maximum :: py_float

definition check_touch_bounds :: "TouchBounds \<Rightarrow> TouchBounds res" where
  "check_touch_bounds b =
     bindR (finite_non_negative (to_minimum b) ''minimum'') (\<lambda>_.
     bindR (finite_non_negative (to_maximum b) ''maximum'') (\<lambda>_.
       if to_maximum b < to_minimum b then Inl (Value_Error ''touch bounds must be ordered'') else Inr b))"

definition dwell_anchors :: "TimingEntry \<Rightarrow> DwellAnchors res" where
  "dwell_anchors e =
     check_dwell_anchors \<lparr>da_minimum = te_min e, da_p25 = te_p25 e, da_p50 = te_p50 e,
                          da_p99 = te_p99 e, da_maximum = te_max e\<rparr>"

definition touch_bounds :: "TimingEntry \<Rightarrow> TouchBounds res" where
  "touch_bounds e = check_touch_bounds \<lparr>to_minimum = te_touch_min e, to_maximum = te_touch_max e\<rparr>"

section \<open>Sampling\<close>

definition DWELL_PROBABILITIES :: "py_float list" where
  "DWELL_PROBABILITIES = [0, 1 / 4, 1 / 2, fl (99 / 100), 1]"

fun find_segment :: "(py_float \<times> py_float) list \<Rightarrow> nat \<Rightarrow> py_float \<Rightarrow> (nat \<times> py_float) res" where
  "find_segment [] k u = Inl (Value_Error ''interior unit draw did not match a dwell segment'')"
| "find_segment ((lower, upper) # rest) k u =
     (if u < upper
      then bindR (f_div (f_sub u lower) (f_sub upper lower)) (\<lambda>position. Inr (k, position))
      else find_segment rest (k + 1) u)"

definition dwell_segment :: "py_float \<Rightarrow> (nat \<times> py_float) res" where
  "dwell_segment u = find_segment (zip DWELL_PROBABILITIES (tl DWELL_PROBABILITIES)) 0 u"

type_synonym libm = "py_float \<Rightarrow> py_float"

definition interpolate_log_hours ::
  "libm \<Rightarrow> libm \<Rightarrow> py_float \<Rightarrow> py_float \<Rightarrow> py_float \<Rightarrow> py_float" where
  "interpolate_log_hours log1p expm1 lower upper position =
     (let lower_log = log1p lower;
          interpolated_log = f_add lower_log (f_mul (f_sub (log1p upper) lower_log) position)
      in min upper (max lower (expm1 interpolated_log)))"

definition probability_index :: "py_float \<Rightarrow> nat" where
  "probability_index u = length (takeWhile (\<lambda>p. p \<noteq> u) DWELL_PROBABILITIES)"

definition dwell_hours :: "libm \<Rightarrow> libm \<Rightarrow> DwellAnchors \<Rightarrow> py_float \<Rightarrow> py_float res" where
  "dwell_hours log1p expm1 a u =
     (let values = anchor_values a in
      if u \<in> set DWELL_PROBABILITIES then Inr (values ! probability_index u)
      else
        bindR (dwell_segment u) (\<lambda>(segment, position).
          Inr (interpolate_log_hours log1p expm1 (values ! segment) (values ! (segment + 1)) position)))"

definition touch_hours :: "TouchBounds \<Rightarrow> py_float \<Rightarrow> py_float" where
  "touch_hours b u =
     (if u = 0 \<or> to_minimum b = to_maximum b then to_minimum b
      else if u = 1 then to_maximum b
      else f_add (to_minimum b) (f_mul (f_sub (to_maximum b) (to_minimum b)) u))"

record 'p duration_sample =
  ds_parameters :: 'p
  ds_unit_draw :: py_float
  ds_sampled_hours :: py_float

text \<open>The constructor recomputes the sample; \<open>bounds\<close> are the parameters' minimum and maximum.\<close>

definition check_duration_sample ::
  "('p \<Rightarrow> py_float \<times> py_float) \<Rightarrow> ('p \<Rightarrow> py_float \<Rightarrow> py_float res) \<Rightarrow> 'p \<Rightarrow> py_float \<Rightarrow> py_float \<Rightarrow>
   'p duration_sample res" where
  "check_duration_sample bounds sampled p u hours =
     bindR (unit_draw u) (\<lambda>draw.
     bindR (finite_non_negative hours ''sampled_hours'') (\<lambda>h.
       if \<not> (fst (bounds p) \<le> h \<and> h \<le> snd (bounds p))
       then Inl (Value_Error ''sampled_hours must remain within the supplied parameters'')
       else bindR (sampled p draw) (\<lambda>expected.
         if h \<noteq> expected then Inl (Value_Error ''sampled_hours does not match the sampling formula'')
         else Inr \<lparr>ds_parameters = p, ds_unit_draw = draw, ds_sampled_hours = h\<rparr>)))"

definition sample_dwell :: "libm \<Rightarrow> libm \<Rightarrow> DwellAnchors \<Rightarrow> py_float \<Rightarrow> DwellAnchors duration_sample res" where
  "sample_dwell log1p expm1 a u =
     bindR (unit_draw u) (\<lambda>draw.
     bindR (dwell_hours log1p expm1 a draw) (\<lambda>hours.
       check_duration_sample (\<lambda>a. (da_minimum a, da_maximum a)) (dwell_hours log1p expm1) a draw hours))"

definition sample_touch :: "TouchBounds \<Rightarrow> py_float \<Rightarrow> TouchBounds duration_sample res" where
  "sample_touch b u =
     bindR (unit_draw u) (\<lambda>draw.
       check_duration_sample (\<lambda>b. (to_minimum b, to_maximum b)) (\<lambda>b u. Inr (touch_hours b u)) b draw
         (touch_hours b draw))"

section \<open>The dwell sample\<close>

lemma fl_dyadic: "fl (1 / 4) = 1 / 4" "fl (3 / 4) = 3 / 4" "fl (127 / 128) = 127 / 128" "fl (1 / 128) = 1 / 128"
  using fl_exact[of 1 "- 2"] fl_exact[of 3 "- 2"] fl_exact[of 127 "- 7"] fl_exact[of 1 "- 7"]
  by (simp_all add: power_int_def power_divide)

lemma p99_range: "3 / 4 \<le> fl (99 / 100)" "fl (99 / 100) \<le> 127 / 128"
  using fl_mono[of "3 / 4" "99 / 100"] fl_mono[of "99 / 100" "127 / 128"] by (simp_all add: fl_dyadic)

lemma segment_widths:
  "f_sub (1 / 4) 0 \<noteq> 0" "f_sub (1 / 2) (1 / 4) \<noteq> 0" "f_sub (fl (99 / 100)) (1 / 2) \<noteq> 0"
  "f_sub 1 (fl (99 / 100)) \<noteq> 0"
proof -
  have "fl (1 / 4) \<le> fl (fl (99 / 100) - 1 / 2)" using p99_range by (intro fl_mono) simp
  moreover have "fl (1 / 128) \<le> fl (1 - fl (99 / 100))" using p99_range by (intro fl_mono) simp
  ultimately show "f_sub (1 / 4) 0 \<noteq> 0" "f_sub (1 / 2) (1 / 4) \<noteq> 0" "f_sub (fl (99 / 100)) (1 / 2) \<noteq> 0"
    "f_sub 1 (fl (99 / 100)) \<noteq> 0"
    by (auto simp: f_sub_def fl_dyadic)
qed

lemma interpolate_between:
  "lower \<le> upper \<Longrightarrow> lower \<le> interpolate_log_hours log1p expm1 lower upper position \<and>
     interpolate_log_hours log1p expm1 lower upper position \<le> upper"
  by (simp add: interpolate_log_hours_def Let_def)

text \<open>The segment of the distribution function that a unit draw falls into.\<close>

definition within_segment :: "DwellAnchors \<Rightarrow> py_float \<Rightarrow> py_float \<Rightarrow> bool" where
  "within_segment a u h \<longleftrightarrow>
     (u < 1 / 4 \<longrightarrow> da_minimum a \<le> h \<and> h \<le> da_p25 a) \<and>
     (1 / 4 \<le> u \<and> u < 1 / 2 \<longrightarrow> da_p25 a \<le> h \<and> h \<le> da_p50 a) \<and>
     (1 / 2 \<le> u \<and> u < fl (99 / 100) \<longrightarrow> da_p50 a \<le> h \<and> h \<le> da_p99 a) \<and>
     (fl (99 / 100) \<le> u \<longrightarrow> da_p99 a \<le> h \<and> h \<le> da_maximum a)"

lemma dwell_segment_cases:
  assumes "0 \<le> u" "u < 1"
  shows "\<exists>p k. dwell_segment u = Inr (k, p) \<and>
    k = (if u < 1 / 4 then 0 else if u < 1 / 2 then 1 else if u < fl (99 / 100) then 2 else 3)"
  using assms p99_range segment_widths
  by (simp add: dwell_segment_def DWELL_PROBABILITIES_def f_div_def)

lemma dwell_hours_spec:
  assumes "sorted (anchor_values a)" and "0 \<le> u" and "u \<le> 1"
  shows "\<exists>h. dwell_hours log1p expm1 a u = Inr h \<and> within_segment a u h"
proof -
  have s: "da_minimum a \<le> da_p25 a" "da_p25 a \<le> da_p50 a" "da_p50 a \<le> da_p99 a" "da_p99 a \<le> da_maximum a"
    using assms(1) by (simp_all add: anchor_values_def)
  show ?thesis
  proof (cases "u \<in> set DWELL_PROBABILITIES")
    case True
    then consider "u = 0" | "u = 1 / 4" | "u = 1 / 2" | "u = fl (99 / 100)" | "u = 1"
      by (auto simp: DWELL_PROBABILITIES_def)
    then show ?thesis
      using True s p99_range
      by cases (auto simp: dwell_hours_def probability_index_def DWELL_PROBABILITIES_def anchor_values_def
          within_segment_def Let_def)
  next
    case False
    then have "u < 1" using assms(3) by (auto simp: DWELL_PROBABILITIES_def)
    then obtain p k where k: "dwell_segment u = Inr (k, p)"
      "k = (if u < 1 / 4 then 0 else if u < 1 / 2 then 1 else if u < fl (99 / 100) then 2 else 3)"
      using dwell_segment_cases[OF assms(2)] by blast
    note i = interpolate_between[of _ _ log1p expm1 p]
    have r: "dwell_hours log1p expm1 a u =
        Inr (interpolate_log_hours log1p expm1 (anchor_values a ! k) (anchor_values a ! (k + 1)) p)"
      using False k(1) by (simp add: dwell_hours_def Let_def)
    have "within_segment a u
        (interpolate_log_hours log1p expm1 (anchor_values a ! k) (anchor_values a ! (k + 1)) p)"
      using k(2) i[OF s(1)] i[OF s(2)] i[OF s(3)] i[OF s(4)] p99_range
      by (auto simp: within_segment_def anchor_values_def split: if_splits)
    then show ?thesis using r by blast
  qed
qed

lemma check_dwell_anchors_Inr:
  "check_dwell_anchors x = Inr a \<Longrightarrow> a = x \<and> sorted (anchor_values a) \<and> 0 \<le> da_minimum a"
  by (auto simp: check_dwell_anchors_def finite_non_negative_def elim!: bindR_InrE split: if_splits)

lemma within_segment_bounds:
  assumes "within_segment a u h" and "sorted (anchor_values a)"
  shows "da_minimum a \<le> h \<and> h \<le> da_maximum a"
proof -
  have "da_minimum a \<le> da_p25 a" "da_p25 a \<le> da_p50 a" "da_p50 a \<le> da_p99 a" "da_p99 a \<le> da_maximum a"
    using assms(2) by (simp_all add: anchor_values_def)
  moreover consider "u < 1 / 4" | "1 / 4 \<le> u" "u < 1 / 2" | "1 / 2 \<le> u" "u < fl (99 / 100)" | "fl (99 / 100) \<le> u"
    by linarith
  ultimately show ?thesis using assms(1) unfolding within_segment_def by cases fastforce+
qed

section \<open>Properties\<close>

text \<open>The dwell sample of ordered anchors always exists for a unit draw, and it lies in the segment
  of the anchors that the draw's probability selects: below p25 for a draw under a quarter, between
  p25 and p50 under a half, and so on; the libm functions can only move it within the segment.\<close>

theorem sample_dwell_in_segment:
  assumes "check_dwell_anchors x = Inr a" and "0 \<le> u" and "u \<le> 1"
  shows "\<exists>s. sample_dwell log1p expm1 a u = Inr s \<and> ds_unit_draw s = u \<and>
    within_segment a u (ds_sampled_hours s)"
proof -
  note a = check_dwell_anchors_Inr[OF assms(1)]
  obtain h where h: "dwell_hours log1p expm1 a u = Inr h" "within_segment a u h"
    using dwell_hours_spec a assms(2,3) by blast
  have b: "da_minimum a \<le> h \<and> h \<le> da_maximum a" using within_segment_bounds[OF h(2)] a by blast
  have u: "unit_draw u = Inr u" using assms(2,3) by (simp add: unit_draw_def finite_non_negative_def)
  have "0 \<le> h" using b a by auto
  then show ?thesis using u h b
    by (simp add: sample_dwell_def check_duration_sample_def finite_non_negative_def)
qed

text \<open>A touch sample lies within its bounds, and a larger draw never gives a shorter duration.\<close>

theorem sample_touch_monotone:
  assumes "check_touch_bounds x = Inr b" and "sample_touch b u = Inr s" and "sample_touch b v = Inr t" and "u \<le> v"
  shows "to_minimum b \<le> ds_sampled_hours s \<and> ds_sampled_hours s \<le> ds_sampled_hours t \<and>
    ds_sampled_hours t \<le> to_maximum b"
proof -
  have s: "ds_sampled_hours s = touch_hours b u" "to_minimum b \<le> touch_hours b u" "touch_hours b u \<le> to_maximum b" "0 \<le> u"
    using assms(2) by (auto simp: sample_touch_def check_duration_sample_def unit_draw_def finite_non_negative_def
        elim!: bindR_InrE split: if_splits)
  have t: "ds_sampled_hours t = touch_hours b v" "to_minimum b \<le> touch_hours b v" "touch_hours b v \<le> to_maximum b" "v \<le> 1"
    using assms(3) by (auto simp: sample_touch_def check_duration_sample_def unit_draw_def finite_non_negative_def
        elim!: bindR_InrE split: if_splits)
  have "to_minimum b \<le> to_maximum b"
    using assms(1) by (auto simp: check_touch_bounds_def elim!: bindR_InrE split: if_splits)
  then have w: "0 \<le> f_sub (to_maximum b) (to_minimum b)" by (simp add: f_sub_def fl_nonneg)
  have "touch_hours b u \<le> touch_hours b v"
  proof (cases "u = 0 \<or> to_minimum b = to_maximum b \<or> v = 1")
    case True
    then show ?thesis using s t by (auto simp: touch_hours_def)
  next
    case False
    then have "f_mul (f_sub (to_maximum b) (to_minimum b)) u \<le> f_mul (f_sub (to_maximum b) (to_minimum b)) v"
      using assms(4) w by (auto simp: f_mul_def intro!: fl_mono mult_left_mono)
    then show ?thesis using False assms(4) s(4) t(4)
      by (auto simp: touch_hours_def f_add_def intro!: fl_mono)
  qed
  then show ?thesis using s t by simp
qed

section \<open>Witnesses\<close>

theorem sample_dwell_in_segment_witness:
  "\<exists>s. sample_dwell (\<lambda>x. x) (\<lambda>x. x)
        \<lparr>da_minimum = 0, da_p25 = 1, da_p50 = 2, da_p99 = 3, da_maximum = 4\<rparr> (1 / 3) = Inr s \<and>
     ds_unit_draw s = 1 / 3"
  using sample_dwell_in_segment[of "\<lparr>da_minimum = 0, da_p25 = 1, da_p50 = 2, da_p99 = 3, da_maximum = 4\<rparr>"
      "\<lparr>da_minimum = 0, da_p25 = 1, da_p50 = 2, da_p99 = 3, da_maximum = 4\<rparr>" "1 / 3" "\<lambda>x. x" "\<lambda>x. x"]
  by (auto simp: check_dwell_anchors_def finite_non_negative_def anchor_values_def)

theorem sample_touch_monotone_witness:
  "(1 :: py_float) \<le> 1 \<and> (1 :: py_float) \<le> 3 \<and> (3 :: py_float) \<le> 3"
proof -
  let ?b = "\<lparr>to_minimum = 1, to_maximum = 3\<rparr>"
  have b: "check_touch_bounds ?b = Inr ?b" by (simp add: check_touch_bounds_def finite_non_negative_def)
  have "sample_touch ?b 0 = Inr \<lparr>ds_parameters = ?b, ds_unit_draw = 0, ds_sampled_hours = 1\<rparr>"
    "sample_touch ?b 1 = Inr \<lparr>ds_parameters = ?b, ds_unit_draw = 1, ds_sampled_hours = 3\<rparr>"
    by (simp_all add: sample_touch_def unit_draw_def finite_non_negative_def check_duration_sample_def touch_hours_def)
  from sample_touch_monotone[OF b this] show ?thesis by simp
qed

end
