(* ===== verification/Deterministic_Rng.thy ===== *)
theory Deterministic_Rng
  imports Live_Slice Py_Float
begin

text \<open>
  Semantic identifiers and decision draws (\<open>v2/domain/deterministic_rng.py\<close>): the path of every
  identifier, the coordinate of a decision, the canonical message and the draw with its checks.
  SHA-256 of the normalised seed and HMAC are one parameter \<open>cd_hmac\<close> that yields the 256-bit
  digest. Objects are written with sorted keys, as canonical JSON has them.
\<close>

section \<open>Text of integers and UUIDs\<close>

definition digit_char :: "nat \<Rightarrow> char" where
  "digit_char d = char_of (if d < 10 then 48 + d else 87 + d)"

fun nat_text :: "nat \<Rightarrow> string" where
  "nat_text n = (if n < 10 then [digit_char n] else nat_text (n div 10) @ [digit_char (n mod 10)])"

declare nat_text.simps [simp del]

definition int_text :: "int \<Rightarrow> string" where
  "int_text i = (if i < 0 then CHR ''-'' # nat_text (nat (- i)) else nat_text (nat i))"

fun hex_text :: "nat \<Rightarrow> nat \<Rightarrow> string" where
  "hex_text 0 n = []"
| "hex_text (Suc k) n = hex_text k (n div 16) @ [digit_char (n mod 16)]"

definition uuid_text :: "uuid \<Rightarrow> string" where
  "uuid_text u =
     (let h = hex_text 32 u in
      take 8 h @ ''-'' @ take 4 (drop 8 h) @ ''-'' @ take 4 (drop 12 h) @ ''-'' @
      take 4 (drop 16 h) @ ''-'' @ drop 20 h)"

definition hex_digit :: "char \<Rightarrow> nat option" where
  "hex_digit ch =
     (let k = (of_char ch :: nat) in
      if 48 \<le> k \<and> k \<le> 57 then Some (k - 48) else if 97 \<le> k \<and> k \<le> 102 then Some (k - 87) else None)"

text \<open>\<open>[0-9a-f]{64}\<close>, and the number it denotes.\<close>

definition lower_hex_64 :: "string \<Rightarrow> bool" where
  "lower_hex_64 s \<longleftrightarrow> length s = 64 \<and> (\<forall>ch \<in> set s. hex_digit ch \<noteq> None)"

definition hex_value :: "string \<Rightarrow> nat" where
  "hex_value s = foldl (\<lambda>acc ch. 16 * acc + (case hex_digit ch of None \<Rightarrow> 0 | Some d \<Rightarrow> d)) 0 s"

text \<open>Text that \<open>str(UUID(text))\<close> gives back: lower-case hexadecimal in groups of 8, 4, 4, 4 and 12.\<close>

definition canonical_uuid_text :: "string \<Rightarrow> bool" where
  "canonical_uuid_text s \<longleftrightarrow>
     length s = 36 \<and> (\<forall>i < 36. if i \<in> {8, 13, 18, 23} then s ! i = CHR ''-'' else hex_digit (s ! i) \<noteq> None)"

section \<open>Kinds\<close>

datatype CreationKind =
  INITIAL_BACKLOG | SCRUM_REPLENISHMENT | KANBAN_ARRIVAL | AGENT_CREATED | JIRA_IMPORTED

fun creation_value :: "CreationKind \<Rightarrow> string" where
  "creation_value INITIAL_BACKLOG = ''INITIAL_BACKLOG''"
| "creation_value SCRUM_REPLENISHMENT = ''SCRUM_REPLENISHMENT''"
| "creation_value KANBAN_ARRIVAL = ''KANBAN_ARRIVAL''"
| "creation_value AGENT_CREATED = ''AGENT_CREATED''"
| "creation_value JIRA_IMPORTED = ''JIRA_IMPORTED''"

datatype DecisionType =
    BACKLOG_ISSUE_TYPE | BACKLOG_STORY_POINTS | BACKLOG_PRIORITY | ITEM_DESCRIPTION_QUALITY
  | ITEM_LATENT_COMPLEXITY | STATUS_DWELL | STATUS_TOUCH | SCRUM_CAPACITY_TARGET
  | RISK_EXTERNAL_DEPENDENCY_OUTCOME | RISK_EXTERNAL_DEPENDENCY_DURATION
  | RISK_CANCELLATION_OUTCOME | RISK_REVIEW_REJECTION_OUTCOME | RISK_REWORK_DURATION
  | RISK_MEMBER_UNAVAILABLE_OUTCOME | RISK_MEMBER_UNAVAILABLE_DURATION | FORCED_REWORK_DURATION
  | KANBAN_ARRIVAL_GAP | KANBAN_CLASS_OF_SERVICE

fun decision_value :: "DecisionType \<Rightarrow> string" where
  "decision_value BACKLOG_ISSUE_TYPE = ''BACKLOG_ISSUE_TYPE''"
| "decision_value BACKLOG_STORY_POINTS = ''BACKLOG_STORY_POINTS''"
| "decision_value BACKLOG_PRIORITY = ''BACKLOG_PRIORITY''"
| "decision_value ITEM_DESCRIPTION_QUALITY = ''ITEM_DESCRIPTION_QUALITY''"
| "decision_value ITEM_LATENT_COMPLEXITY = ''ITEM_LATENT_COMPLEXITY''"
| "decision_value STATUS_DWELL = ''STATUS_DWELL''"
| "decision_value STATUS_TOUCH = ''STATUS_TOUCH''"
| "decision_value SCRUM_CAPACITY_TARGET = ''SCRUM_CAPACITY_TARGET''"
| "decision_value RISK_EXTERNAL_DEPENDENCY_OUTCOME = ''RISK_EXTERNAL_DEPENDENCY_OUTCOME''"
| "decision_value RISK_EXTERNAL_DEPENDENCY_DURATION = ''RISK_EXTERNAL_DEPENDENCY_DURATION''"
| "decision_value RISK_CANCELLATION_OUTCOME = ''RISK_CANCELLATION_OUTCOME''"
| "decision_value RISK_REVIEW_REJECTION_OUTCOME = ''RISK_REVIEW_REJECTION_OUTCOME''"
| "decision_value RISK_REWORK_DURATION = ''RISK_REWORK_DURATION''"
| "decision_value RISK_MEMBER_UNAVAILABLE_OUTCOME = ''RISK_MEMBER_UNAVAILABLE_OUTCOME''"
| "decision_value RISK_MEMBER_UNAVAILABLE_DURATION = ''RISK_MEMBER_UNAVAILABLE_DURATION''"
| "decision_value FORCED_REWORK_DURATION = ''FORCED_REWORK_DURATION''"
| "decision_value KANBAN_ARRIVAL_GAP = ''KANBAN_ARRIVAL_GAP''"
| "decision_value KANBAN_CLASS_OF_SERVICE = ''KANBAN_CLASS_OF_SERVICE''"

definition NONZERO_OCCURRENCE_DECISIONS :: "DecisionType set" where
  "NONZERO_OCCURRENCE_DECISIONS =
     {RISK_CANCELLATION_OUTCOME, RISK_MEMBER_UNAVAILABLE_OUTCOME, RISK_MEMBER_UNAVAILABLE_DURATION,
      FORCED_REWORK_DURATION, KANBAN_ARRIVAL_GAP}"

definition ALGORITHM_ID :: string where "ALGORITHM_ID = ''HMAC_SHA256_U53_V1''"
definition U53_DENOMINATOR :: int where "U53_DENOMINATOR = 2 ^ 53"
definition DISCARDED_LOW_BITS :: nat where "DISCARDED_LOW_BITS = 11"
definition MAX_SAFE_INTEGER :: int where "MAX_SAFE_INTEGER = U53_DENOMINATOR - 1"

definition CANONICAL_DECISION_KEYS :: "string set" where
  "CANONICAL_DECISION_KEYS =
     {''algorithm'', ''team_id'', ''run_id'', ''entity_id'', ''decision_type'', ''occurrence'', ''draw_index''}"

section \<open>Identifiers\<close>

definition safe_integer :: "int \<Rightarrow> string \<Rightarrow> int res" where
  "safe_integer value label =
     (if value < 0 then Inl (Value_Error (label @ '' must be non-negative''))
      else if MAX_SAFE_INTEGER < value then Inl (Value_Error (label @ '' must not exceed 2^53 - 1''))
      else Inr value)"

definition ordinal_path :: "string \<Rightarrow> uuid \<Rightarrow> int \<Rightarrow> string" where
  "ordinal_path prefix parent position = prefix @ ''/'' @ uuid_text parent @ ''/'' @ int_text position"

definition ordinal_uuid :: "codec \<Rightarrow> string \<Rightarrow> uuid \<Rightarrow> int \<Rightarrow> uuid res" where
  "ordinal_uuid c prefix parent ordinal =
     bindR (safe_integer ordinal ''ordinal'') (\<lambda>position.
       Inr (semantic_uuid c (ordinal_path prefix parent position)))"

definition team_rng_id :: "codec \<Rightarrow> string \<Rightarrow> uuid res" where
  "team_rng_id c blueprint_sha256 =
     (if lower_hex_64 blueprint_sha256 then Inr (semantic_uuid c (''team/'' @ blueprint_sha256))
      else Inl (Value_Error ''blueprint_sha256 must be 64 lower-case hexadecimal characters''))"

definition run_rng_id :: "codec \<Rightarrow> uuid \<Rightarrow> int \<Rightarrow> uuid res" where "run_rng_id c = ordinal_uuid c ''run''"
definition member_rng_id :: "codec \<Rightarrow> uuid \<Rightarrow> int \<Rightarrow> uuid res" where "member_rng_id c = ordinal_uuid c ''member''"
definition sprint_rng_id :: "codec \<Rightarrow> uuid \<Rightarrow> int \<Rightarrow> uuid res" where "sprint_rng_id c = ordinal_uuid c ''sprint''"
definition visit_rng_id :: "codec \<Rightarrow> uuid \<Rightarrow> int \<Rightarrow> uuid res" where "visit_rng_id c = ordinal_uuid c ''visit''"
definition dependency_rng_id :: "codec \<Rightarrow> uuid \<Rightarrow> int \<Rightarrow> uuid res" where "dependency_rng_id c = ordinal_uuid c ''dependency''"
definition rework_rng_id :: "codec \<Rightarrow> uuid \<Rightarrow> int \<Rightarrow> uuid res" where "rework_rng_id c = ordinal_uuid c ''rework''"

definition item_path :: "uuid \<Rightarrow> CreationKind \<Rightarrow> int \<Rightarrow> string" where
  "item_path team kind position =
     ''item/'' @ uuid_text team @ ''/'' @ creation_value kind @ ''/'' @ int_text position"

definition item_rng_id :: "codec \<Rightarrow> uuid \<Rightarrow> CreationKind \<Rightarrow> int \<Rightarrow> uuid res" where
  "item_rng_id c team kind sequence =
     bindR (safe_integer sequence ''sequence'') (\<lambda>position. Inr (semantic_uuid c (item_path team kind position)))"

section \<open>Decisions, streams and draws\<close>

record DecisionOccurrence =
  do_entity_id :: uuid
  do_decision_type :: DecisionType
  do_occurrence :: int

definition decision_occurrence :: "uuid \<Rightarrow> DecisionType \<Rightarrow> int \<Rightarrow> DecisionOccurrence res" where
  "decision_occurrence entity dt occ =
     bindR (safe_integer occ ''occurrence'') (\<lambda>n.
       if n \<noteq> 0 \<and> dt \<notin> NONZERO_OCCURRENCE_DECISIONS
       then Inl (Value_Error ''occurrence must be zero for this decision type'')
       else Inr \<lparr>do_entity_id = entity, do_decision_type = dt, do_occurrence = occ\<rparr>)"

record DeterministicRandomStream =
  rs_root_seed :: string
  rs_team_id :: uuid
  rs_run_id :: uuid

definition random_stream :: "string \<Rightarrow> uuid \<Rightarrow> uuid \<Rightarrow> DeterministicRandomStream res" where
  "random_stream seed team run =
     (if seed = [] then Inl (Value_Error ''root_seed must not be empty'')
      else Inr \<lparr>rs_root_seed = seed, rs_team_id = team, rs_run_id = run\<rparr>)"

definition message_document :: "DeterministicRandomStream \<Rightarrow> DecisionOccurrence \<Rightarrow> int \<Rightarrow> json" where
  "message_document s d index = JObj
     [(''algorithm'', JStr ALGORITHM_ID),
      (''decision_type'', JStr (decision_value (do_decision_type d))),
      (''draw_index'', JInt index),
      (''entity_id'', JStr (uuid_text (do_entity_id d))),
      (''occurrence'', JInt (do_occurrence d)),
      (''run_id'', JStr (uuid_text (rs_run_id s))),
      (''team_id'', JStr (uuid_text (rs_team_id s)))]"

definition decision_message ::
  "codec \<Rightarrow> DeterministicRandomStream \<Rightarrow> DecisionOccurrence \<Rightarrow> int \<Rightarrow> string" where
  "decision_message c s d index = cd_encode c (message_document s d index)"

definition high_u53 :: "256 word \<Rightarrow> int" where
  "high_u53 digest = int (unat (drop_bit DISCARDED_LOW_BITS (drop_bit 192 digest)))"

definition digest_hex :: "256 word \<Rightarrow> string" where
  "digest_hex digest = hex_text 64 (unat digest)"

record UniformDraw =
  ud_algorithm :: string
  ud_decision :: DecisionOccurrence
  ud_draw_index :: int
  ud_canonical_message :: string
  ud_hmac_sha256 :: string
  ud_u53_integer :: int
  ud_unit_value :: py_float

text \<open>Reading a field of a decoded object; the key sets have been compared before.\<close>

definition json_field :: "json \<Rightarrow> string \<Rightarrow> json res" where
  "json_field document key =
     (case document of
        JObj pairs \<Rightarrow> (case map_of pairs key of None \<Rightarrow> Inl Key_Error | Some v \<Rightarrow> Inr v)
      | _ \<Rightarrow> Inl (Type_Error ''not an object''))"

definition json_keys :: "json \<Rightarrow> string set option" where
  "json_keys document = (case document of JObj pairs \<Rightarrow> Some (set (map fst pairs)) | _ \<Rightarrow> None)"

definition uuid_field :: "json \<Rightarrow> string \<Rightarrow> string res" where
  "uuid_field document key =
     bindR (json_field document key) (\<lambda>v.
       case v of
         JStr t \<Rightarrow>
           if canonical_uuid_text t then Inr t
           else Inl (Value_Error (key @ '' must be lower-case hyphenated UUID text''))
       | _ \<Rightarrow> Inl (Value_Error (key @ '' must be canonical UUID text'')))"

definition safe_integer_field :: "json \<Rightarrow> string \<Rightarrow> int res" where
  "safe_integer_field document key =
     bindR (json_field document key) (\<lambda>v.
       case v of JInt n \<Rightarrow> safe_integer n key | _ \<Rightarrow> Inl (Type_Error (key @ '' must be an integer'')))"

definition validate_canonical_message :: "codec \<Rightarrow> string \<Rightarrow> DecisionOccurrence \<Rightarrow> int \<Rightarrow> unit res" where
  "validate_canonical_message c message d index =
     (case cd_decode c message of
        None \<Rightarrow> Inl (Value_Error ''canonical_message must be valid UTF-8 JSON'')
      | Some document \<Rightarrow>
          bindR (guardR (json_keys document = Some CANONICAL_DECISION_KEYS)
                   (Value_Error ''canonical_message has the wrong decision schema'')) (\<lambda>_.
          bindR (guardR (cd_encode c document = message)
                   (Value_Error ''canonical_message must use canonical JSON'')) (\<lambda>_.
          bindR (uuid_field document ''team_id'') (\<lambda>_.
          bindR (uuid_field document ''run_id'') (\<lambda>_.
          bindR (uuid_field document ''entity_id'') (\<lambda>entity.
          bindR (safe_integer_field document ''occurrence'') (\<lambda>occ.
          bindR (safe_integer_field document ''draw_index'') (\<lambda>idx.
          bindR (json_field document ''algorithm'') (\<lambda>algorithm.
          bindR (json_field document ''decision_type'') (\<lambda>dt.
          bindR (guardR (algorithm = JStr ALGORITHM_ID \<and> entity = uuid_text (do_entity_id d) \<and>
                         dt = JStr (decision_value (do_decision_type d)))
                   (Value_Error ''canonical_message does not match the decision'')) (\<lambda>_.
            guardR (occ = do_occurrence d \<and> idx = index)
              (Value_Error ''canonical_message does not match the decision coordinate''))))))))))))"

definition unit_of_u53 :: "int \<Rightarrow> py_float" where
  "unit_of_u53 n = fl (of_int n / of_int U53_DENOMINATOR)"

definition validate_digest_and_value :: "UniformDraw \<Rightarrow> unit res" where
  "validate_digest_and_value u =
     bindR (guardR (lower_hex_64 (ud_hmac_sha256 u))
              (Value_Error ''hmac_sha256 must be 64 lower-case hexadecimal characters'')) (\<lambda>_.
     bindR (guardR (ud_u53_integer u = high_u53 (of_nat (hex_value (ud_hmac_sha256 u))))
              (Value_Error ''u53_integer does not match the HMAC digest'')) (\<lambda>_.
       guardR (ud_unit_value u = unit_of_u53 (ud_u53_integer u))
         (Value_Error ''unit_value does not match u53_integer'')))"

definition validate_uniform_draw :: "codec \<Rightarrow> UniformDraw \<Rightarrow> unit res" where
  "validate_uniform_draw c u =
     bindR (guardR (ud_algorithm u = ALGORITHM_ID) (Value_Error ''algorithm must be HMAC_SHA256_U53_V1'')) (\<lambda>_.
     bindR (safe_integer (ud_draw_index u) ''draw_index'') (\<lambda>_.
     bindR (validate_canonical_message c (ud_canonical_message u) (ud_decision u) (ud_draw_index u)) (\<lambda>_.
       validate_digest_and_value u)))"

definition create_uniform_draw ::
  "codec \<Rightarrow> DeterministicRandomStream \<Rightarrow> DecisionOccurrence \<Rightarrow> int \<Rightarrow> UniformDraw res" where
  "create_uniform_draw c s d index =
     (let message = decision_message c s d index;
          digest = cd_hmac c (rs_root_seed s) message;
          n = high_u53 digest;
          u = \<lparr>ud_algorithm = ALGORITHM_ID, ud_decision = d, ud_draw_index = index,
               ud_canonical_message = message, ud_hmac_sha256 = digest_hex digest,
               ud_u53_integer = n, ud_unit_value = unit_of_u53 n\<rparr>
      in bindR (validate_uniform_draw c u) (\<lambda>_. Inr u))"

definition stream_draw ::
  "codec \<Rightarrow> DeterministicRandomStream \<Rightarrow> DecisionOccurrence \<Rightarrow> int \<Rightarrow> UniformDraw res" where
  "stream_draw c s d draw_index =
     bindR (safe_integer draw_index ''draw_index'') (\<lambda>index. create_uniform_draw c s d index)"

section \<open>Text determines the number\<close>

lemma of_char_digit: "d < 16 \<Longrightarrow> of_char (digit_char d) = (if d < 10 then 48 + d else 87 + d :: nat)"
  by (simp add: digit_char_def of_char_of)

lemma hex_digit_char [simp]: "d < 16 \<Longrightarrow> hex_digit (digit_char d) = Some d"
  by (simp add: hex_digit_def of_char_digit Let_def)

lemma digit_char_inj: "a < 16 \<Longrightarrow> b < 16 \<Longrightarrow> digit_char a = digit_char b \<longleftrightarrow> a = b"
  by (metis hex_digit_char option.inject)

lemma digit_mod [simp]: "\<exists>d<16. digit_char (n mod 16) = digit_char d" "\<exists>d<10. digit_char (n mod 10) = digit_char d"
  by (rule exI[of _ "n mod 16"], simp) (rule exI[of _ "n mod 10"], simp)

lemma hex_text_length [simp]: "length (hex_text k n) = k"
  by (induction k arbitrary: n) simp_all

lemma hex_text_digits: "ch \<in> set (hex_text k n) \<Longrightarrow> \<exists>d < 16. ch = digit_char d"
  by (induction k arbitrary: n) auto

lemma hex_value_snoc: "hex_value (xs @ [ch]) = 16 * hex_value xs + (case hex_digit ch of None \<Rightarrow> 0 | Some d \<Rightarrow> d)"
  by (simp add: hex_value_def)

lemma hex_value_text: "n < 16 ^ k \<Longrightarrow> hex_value (hex_text k n) = n"
proof (induction k arbitrary: n)
  case 0
  then show ?case by (simp add: hex_value_def)
next
  case (Suc k)
  then have "n div 16 < 16 ^ k" by (simp add: less_mult_imp_div_less mult.commute)
  then show ?case using Suc.IH by (simp add: hex_value_snoc)
qed

lemma lower_hex_text: "lower_hex_64 (hex_text 64 n)"
  using hex_text_digits by (fastforce simp: lower_hex_64_def)

lemma nat_text_digits: "ch \<in> set (nat_text n) \<Longrightarrow> \<exists>d < 10. ch = digit_char d"
proof (induction n rule: nat_text.induct)
  case (1 n)
  then show ?case by (subst (asm) (2) nat_text.simps) (auto split: if_splits)
qed

lemma nat_text_Nil [simp]: "nat_text n \<noteq> []"
  by (subst nat_text.simps) simp

definition dec_value :: "string \<Rightarrow> nat" where
  "dec_value s = foldl (\<lambda>acc ch. 10 * acc + (case hex_digit ch of None \<Rightarrow> 0 | Some d \<Rightarrow> d)) 0 s"

lemma dec_value_text: "dec_value (nat_text n) = n"
proof (induction n rule: nat_text.induct)
  case (1 n)
  then show ?case by (subst nat_text.simps) (simp add: dec_value_def)
qed

lemma nat_text_inj: "nat_text m = nat_text n \<longleftrightarrow> m = n"
  by (metis dec_value_text)

lemma int_text_inj: "0 \<le> a \<Longrightarrow> 0 \<le> b \<Longrightarrow> int_text a = int_text b \<longleftrightarrow> a = b"
  by (simp add: int_text_def nat_text_inj eq_nat_nat_iff)

lemma uuid_text_length [simp]: "length (uuid_text u) = 36"
  by (simp add: uuid_text_def Let_def)

lemma hyphen_no_digit: "d < 16 \<Longrightarrow> digit_char d \<noteq> CHR ''-''" "hex_digit (CHR ''-'') = None"
  "d < 16 \<Longrightarrow> digit_char d \<noteq> CHR ''/''"
  using hex_digit_char[of d] by (auto simp: hex_digit_def)

lemma uuid_text_hex: "filter (\<lambda>ch. ch \<noteq> CHR ''-'') (uuid_text u) = hex_text 32 u"
proof -
  have h: "filter (\<lambda>ch. ch \<noteq> CHR ''-'') xs = xs" if "set xs \<subseteq> set (hex_text 32 u)" for xs
    using that hex_text_digits hyphen_no_digit(1) by (fastforce simp: filter_id_conv)
  let ?h = "hex_text 32 u"
  have d: "drop 12 ?h = drop 4 (drop 8 ?h)" "drop 16 ?h = drop 4 (drop 12 ?h)" "drop 20 ?h = drop 4 (drop 16 ?h)"
    by simp_all
  have s: "set (take n (drop m ?h)) \<subseteq> set ?h" "set (take n ?h) \<subseteq> set ?h" "set (drop n ?h) \<subseteq> set ?h" for m n
    using set_take_subset set_drop_subset by (metis subset_trans)+
  have "filter (\<lambda>ch. ch \<noteq> CHR ''-'') (uuid_text u) =
      take 8 ?h @ take 4 (drop 8 ?h) @ take 4 (drop 12 ?h) @ take 4 (drop 16 ?h) @ drop 20 ?h"
    unfolding uuid_text_def Let_def by (simp add: h[OF s(1)] h[OF s(2)] h[OF s(3)])
  also have "\<dots> = ?h"
    by (simp only: d append_take_drop_id)
  finally show ?thesis .
qed

lemma uuid_text_inj:
  assumes "u < 2 ^ 128" and "v < 2 ^ 128" and "uuid_text u = uuid_text v"
  shows "u = v"
proof -
  have "hex_text 32 u = hex_text 32 v" using uuid_text_hex assms(3) by metis
  moreover have p: "(2::nat) ^ 128 = 16 ^ 32" by simp
  moreover have "hex_value (hex_text 32 u) = u" "hex_value (hex_text 32 v) = v"
    using assms(1,2) unfolding p by (simp_all only: hex_value_text)
  ultimately show ?thesis by metis
qed

lemma canonical_uuid_text_text: "canonical_uuid_text (uuid_text u)"
proof -
  let ?h = "hex_text 32 u"
  have h: "hex_digit (?h ! i) \<noteq> None" if i: "i < 32" for i
  proof -
    have "?h ! i \<in> set ?h" using i by (intro nth_mem) simp
    then obtain d where "d < 16" "?h ! i = digit_char d" using hex_text_digits by blast
    then show ?thesis by simp
  qed
  have n: "uuid_text u ! i =
      (if i < 8 then ?h ! i else if i = 8 then CHR ''-'' else if i < 13 then ?h ! (i - 1)
       else if i = 13 then CHR ''-'' else if i < 18 then ?h ! (i - 2) else if i = 18 then CHR ''-''
       else if i < 23 then ?h ! (i - 3) else if i = 23 then CHR ''-'' else ?h ! (i - 4))" if i: "i < 36" for i
    using i by (auto simp: uuid_text_def Let_def nth_append nth_Cons' intro!: arg_cong[of _ _ "(!) ?h"])
  have "if i \<in> {8, 13, 18, 23} then uuid_text u ! i = CHR ''-'' else hex_digit (uuid_text u ! i) \<noteq> None"
    if i: "i < 36" for i
    using h[of i] h[of "i - 1"] h[of "i - 2"] h[of "i - 3"] h[of "i - 4"] i
    unfolding n[OF i] by (simp split: if_splits)
  then show ?thesis by (simp add: canonical_uuid_text_def)
qed

section \<open>Draws\<close>

lemma unit_of_u53_exact: "0 \<le> n \<Longrightarrow> n < 2 ^ 53 \<Longrightarrow> unit_of_u53 n = of_int n / 2 ^ 53"
  using fl_exact[of n "- 53"] by (simp add: unit_of_u53_def U53_DENOMINATOR_def power_int_def field_simps)

lemma high_u53_range: "0 \<le> high_u53 w \<and> high_u53 w < 2 ^ 53"
proof -
  have "unat w < 2 ^ 256" using unsigned_less[of w, where 'a = nat] by simp
  then have "unat w div 2 ^ 192 < 2 ^ 64" by simp
  then have "unat w div 2 ^ 192 div 2 ^ 11 < 2 ^ 53" by simp
  then have "int (unat w div 2 ^ 192 div 2 ^ 11) < int (2 ^ 53)" by (simp only: of_nat_less_iff)
  then have "int (unat w div 2 ^ 192 div 2 ^ 11) < 2 ^ 53" by (simp only: of_nat_power of_nat_numeral)
  then show ?thesis
    unfolding high_u53_def DISCARDED_LOW_BITS_def unat_drop_bit_eq
    by (simp only: drop_bit_eq_div of_nat_0_le_iff simp_thms)
qed

lemma digest_hex_value: "(of_nat (hex_value (digest_hex w)) :: 256 word) = w"
proof -
  have "unat w < 2 ^ 256" using unsigned_less[of w, where 'a = nat] by simp
  then have "hex_value (digest_hex w) = unat w" unfolding digest_hex_def by (intro hex_value_text) simp
  then show ?thesis by simp
qed

lemma unit_range: "0 \<le> n \<Longrightarrow> n < 2 ^ 53 \<Longrightarrow> 0 \<le> (of_int n / 2 ^ 53 :: rat) \<and> (of_int n / 2 ^ 53 :: rat) < 1"
proof -
  assume n: "0 \<le> n" "n < 2 ^ 53"
  then have "(of_int n :: rat) < of_int (2 ^ 53)" by (simp only: of_int_less_iff)
  then show ?thesis using n(1) by simp
qed

lemma safe_integer_Inr: "safe_integer n l = Inr m \<longleftrightarrow> 0 \<le> n \<and> n \<le> MAX_SAFE_INTEGER \<and> m = n"
  by (auto simp: safe_integer_def)

lemma decision_occurrence_Inr:
  "decision_occurrence e dt occ = Inr d \<Longrightarrow>
     d = \<lparr>do_entity_id = e, do_decision_type = dt, do_occurrence = occ\<rparr> \<and> 0 \<le> occ \<and> occ \<le> MAX_SAFE_INTEGER"
  by (auto simp: decision_occurrence_def safe_integer_Inr elim!: bindR_InrE split: if_splits)

lemma message_validates:
  assumes "cd_decode c (cd_encode c (message_document s d index)) = Some (message_document s d index)"
    and "0 \<le> do_occurrence d" "do_occurrence d \<le> MAX_SAFE_INTEGER" "0 \<le> index" "index \<le> MAX_SAFE_INTEGER"
  shows "validate_canonical_message c (decision_message c s d index) d index = Inr ()"
proof -
  have "json_keys (message_document s d index) = Some CANONICAL_DECISION_KEYS"
    by (auto simp: json_keys_def message_document_def CANONICAL_DECISION_KEYS_def)
  moreover have "json_field (message_document s d index) ''team_id'' = Inr (JStr (uuid_text (rs_team_id s)))"
    "json_field (message_document s d index) ''run_id'' = Inr (JStr (uuid_text (rs_run_id s)))"
    "json_field (message_document s d index) ''entity_id'' = Inr (JStr (uuid_text (do_entity_id d)))"
    "json_field (message_document s d index) ''occurrence'' = Inr (JInt (do_occurrence d))"
    "json_field (message_document s d index) ''draw_index'' = Inr (JInt index)"
    "json_field (message_document s d index) ''algorithm'' = Inr (JStr ALGORITHM_ID)"
    "json_field (message_document s d index) ''decision_type'' = Inr (JStr (decision_value (do_decision_type d)))"
    by (simp_all add: json_field_def message_document_def)
  moreover have "safe_integer (do_occurrence d) ''occurrence'' = Inr (do_occurrence d)"
    "safe_integer index ''draw_index'' = Inr index"
    using assms(2-5) by (simp_all add: safe_integer_Inr)
  ultimately show ?thesis
    using assms(1) by (simp add: validate_canonical_message_def decision_message_def uuid_field_def
        safe_integer_field_def canonical_uuid_text_text)
qed

lemma stream_draw_spec:
  assumes "cd_decode c (cd_encode c (message_document s d index)) = Some (message_document s d index)"
    and "0 \<le> do_occurrence d" "do_occurrence d \<le> MAX_SAFE_INTEGER" "0 \<le> index" "index \<le> MAX_SAFE_INTEGER"
  shows "stream_draw c s d index =
    Inr \<lparr>ud_algorithm = ALGORITHM_ID, ud_decision = d, ud_draw_index = index,
         ud_canonical_message = decision_message c s d index,
         ud_hmac_sha256 = digest_hex (cd_hmac c (rs_root_seed s) (decision_message c s d index)),
         ud_u53_integer = high_u53 (cd_hmac c (rs_root_seed s) (decision_message c s d index)),
         ud_unit_value = unit_of_u53 (high_u53 (cd_hmac c (rs_root_seed s) (decision_message c s d index)))\<rparr>"
  using message_validates[OF assms] assms(4,5)
  by (simp add: stream_draw_def create_uniform_draw_def Let_def validate_uniform_draw_def
      validate_digest_and_value_def safe_integer_Inr[THEN iffD2] digest_hex_value lower_hex_text
      digest_hex_def[of "cd_hmac c (rs_root_seed s) (decision_message c s d index)", symmetric] safe_integer_def
      guardR_def) (simp add: digest_hex_def lower_hex_text)

lemma stream_draw_Inr:
  assumes "stream_draw c s d index = Inr u"
  shows "validate_uniform_draw c u = Inr () \<and> ud_decision u = d \<and> ud_draw_index u = index \<and>
    (\<exists>n. 0 \<le> n \<and> n < 2 ^ 53 \<and> ud_u53_integer u = n \<and> ud_unit_value u = of_int n / 2 ^ 53)"
  using assms unit_of_u53_exact high_u53_range
  by (auto simp: stream_draw_def create_uniform_draw_def Let_def safe_integer_Inr elim!: bindR_InrE)

section \<open>Coordinates\<close>

text \<open>What a draw is about: the team, the run, the entity, the decision, its occurrence and the index.\<close>

lemma decision_value_inj: "decision_value a = decision_value b \<longleftrightarrow> a = b"
  by (cases a; cases b; simp)

lemma message_document_inj:
  assumes "message_document s d i = message_document s' d' i'"
    and "rs_team_id s < 2 ^ 128" "rs_run_id s < 2 ^ 128" "do_entity_id d < 2 ^ 128"
    and "rs_team_id s' < 2 ^ 128" "rs_run_id s' < 2 ^ 128" "do_entity_id d' < 2 ^ 128"
  shows "rs_team_id s = rs_team_id s' \<and> rs_run_id s = rs_run_id s' \<and> d = d' \<and> i = i'"
proof -
  have "uuid_text (rs_team_id s) = uuid_text (rs_team_id s')" "uuid_text (rs_run_id s) = uuid_text (rs_run_id s')"
    "uuid_text (do_entity_id d) = uuid_text (do_entity_id d')"
    and r: "do_decision_type d = do_decision_type d'" "do_occurrence d = do_occurrence d'" "i = i'"
    using assms(1) by (simp_all add: message_document_def decision_value_inj)
  then have "rs_team_id s = rs_team_id s'" "rs_run_id s = rs_run_id s'" "do_entity_id d = do_entity_id d'"
    using uuid_text_inj assms(2-) by blast+
  then show ?thesis using r by simp
qed

lemma slash_free: "CHR ''/'' \<notin> set (uuid_text u)"
proof
  assume "CHR ''/'' \<in> set (uuid_text u)"
  then have "CHR ''/'' \<in> set (filter (\<lambda>ch. ch \<noteq> CHR ''-'') (uuid_text u))" by simp
  then show False using hex_text_digits[of "CHR ''/''" 32 u] hyphen_no_digit(3) unfolding uuid_text_hex by metis
qed

lemma ordinal_path_inj:
  assumes "ordinal_path p u i = ordinal_path q v j" and "CHR ''/'' \<notin> set p" "CHR ''/'' \<notin> set q"
    and "u < 2 ^ 128" "v < 2 ^ 128" "0 \<le> i" "0 \<le> j"
  shows "p = q \<and> u = v \<and> i = j"
proof -
  have "takeWhile (\<lambda>ch. ch \<noteq> CHR ''/'') (ordinal_path p u i) = p"
    "takeWhile (\<lambda>ch. ch \<noteq> CHR ''/'') (ordinal_path q v j) = q"
    using assms(2,3) by (auto simp: ordinal_path_def takeWhile_append2 takeWhile_append)
  then have pq: "p = q" using assms(1) by simp
  then have "uuid_text u @ ''/'' @ int_text i = uuid_text v @ ''/'' @ int_text j"
    using assms(1) by (simp add: ordinal_path_def)
  then have "uuid_text u = uuid_text v" "int_text i = int_text j" by simp_all
  then show ?thesis using pq uuid_text_inj assms(4-) int_text_inj by blast
qed

section \<open>Properties\<close>

text \<open>Every decision coordinate has a draw: whatever the HMAC, the draw passes its own checks, its
  unit value is exactly the 53-bit integer over 2^53, so it lies in [0, 1) and rounding loses nothing,
  and the draw depends on the seed and the message only.\<close>

theorem stream_draw_authentic:
  assumes "random_stream seed team run = Inr s" and "decision_occurrence e dt occ = Inr d"
    and "0 \<le> index" and "index \<le> MAX_SAFE_INTEGER"
    and "cd_decode c (cd_encode c (message_document s d index)) = Some (message_document s d index)"
  shows "\<exists>u. stream_draw c s d index = Inr u \<and> validate_uniform_draw c u = Inr () \<and>
    ud_u53_integer u = high_u53 (cd_hmac c seed (decision_message c s d index)) \<and>
    ud_unit_value u = of_int (ud_u53_integer u) / 2 ^ 53 \<and> 0 \<le> ud_unit_value u \<and> ud_unit_value u < 1"
proof -
  have s: "rs_root_seed s = seed" using assms(1) by (auto simp: random_stream_def split: if_splits)
  note d = decision_occurrence_Inr[OF assms(2)]
  let ?n = "high_u53 (cd_hmac c seed (decision_message c s d index))"
  obtain u where u: "stream_draw c s d index = Inr u" "ud_u53_integer u = ?n"
    using stream_draw_spec[OF assms(5)] d assms(3,4) s by simp
  then show ?thesis using stream_draw_Inr[OF u(1)] unit_range by (intro exI[of _ u]) force
qed

text \<open>Two draws read the same message only if they are about the same coordinate: the same team
  and run, the same entity, decision, occurrence and draw index.\<close>

theorem decision_message_separates:
  assumes "decision_message c s d i = decision_message c s' d' i'"
    and "cd_decode c (cd_encode c (message_document s d i)) = Some (message_document s d i)"
    and "cd_decode c (cd_encode c (message_document s' d' i')) = Some (message_document s' d' i')"
    and "rs_team_id s < 2 ^ 128" "rs_run_id s < 2 ^ 128" "do_entity_id d < 2 ^ 128"
    and "rs_team_id s' < 2 ^ 128" "rs_run_id s' < 2 ^ 128" "do_entity_id d' < 2 ^ 128"
  shows "rs_team_id s = rs_team_id s' \<and> rs_run_id s = rs_run_id s' \<and> d = d' \<and> i = i'"
proof -
  have "message_document s d i = message_document s' d' i'"
    using assms(1-3) by (metis decision_message_def option.inject)
  then show ?thesis using message_document_inj assms(4-) by blast
qed

section \<open>Witnesses\<close>

text \<open>A stream, and a codec that knows the message of one decision.\<close>

definition sample_stream :: DeterministicRandomStream where
  "sample_stream = \<lparr>rs_root_seed = ''seed'', rs_team_id = 1, rs_run_id = 2\<rparr>"

definition sample_decision :: DecisionOccurrence where
  "sample_decision = \<lparr>do_entity_id = 3, do_decision_type = STATUS_TOUCH, do_occurrence = 0\<rparr>"

definition message_codec :: codec where
  "message_codec = \<lparr>cd_encode = (\<lambda>_. ''{}''),
     cd_decode = (\<lambda>_. Some (message_document sample_stream sample_decision 0)),
     cd_sha = (\<lambda>s. s), cd_uuid5 = (\<lambda>s. size s), cd_hmac = (\<lambda>_ _. push_bit 255 1)\<rparr>"

theorem stream_draw_authentic_witness:
  "\<exists>u. stream_draw message_codec sample_stream sample_decision 0 = Inr u \<and>
     ud_unit_value u = of_int (ud_u53_integer u) / 2 ^ 53"
proof -
  have "random_stream ''seed'' 1 2 = Inr sample_stream" by (simp add: random_stream_def sample_stream_def)
  moreover have "decision_occurrence 3 STATUS_TOUCH 0 = Inr sample_decision"
    by (simp add: decision_occurrence_def sample_decision_def safe_integer_def MAX_SAFE_INTEGER_def U53_DENOMINATOR_def)
  ultimately show ?thesis
    using stream_draw_authentic[of "''seed''" 1 2 sample_stream 3 STATUS_TOUCH 0 sample_decision 0 message_codec]
    by (auto simp: MAX_SAFE_INTEGER_def U53_DENOMINATOR_def message_codec_def)
qed

theorem decision_message_separates_witness:
  "rs_team_id sample_stream = 1 \<and> sample_decision = sample_decision"
  using decision_message_separates[of message_codec sample_stream sample_decision 0 sample_stream sample_decision 0]
  by (simp add: message_codec_def sample_stream_def sample_decision_def)

end
