(* ===== verification/Scrum_State.thy ===== *)
theory Scrum_State
  imports Sampling Deterministic_Rng "HOL-Library.Product_Lexorder"
begin

text \<open>
  The authoritative Scrum state of the second engine (\<open>v2/domain/scrum_state.py\<close>): the records with
  the checks of their \<open>validate\<close> methods. Values have their declared types here and datetimes are
  aware instants, so the checks of types and of awareness have nothing to do; every check of a
  value is kept, in the order of the code. Status samples and whole states follow in
  \<open>Status_Sample\<close> and \<open>Scrum_Collections\<close>.
\<close>

section \<open>Kinds\<close>

datatype WorkItemLifecycle = WI_BACKLOG | WI_ACTIVE | WI_DONE | WI_CANCELLED
datatype SprintLifecycle = SP_PLANNED | SP_ACTIVE | SP_COMPLETED
datatype StatusVisitLifecycle = SV_OPEN | SV_CLOSED
datatype WorkPriority = PR_HIGHEST | PR_HIGH | PR_MEDIUM | PR_LOW | PR_LOWEST
datatype SemanticCounterKind = SPRINT_ORDINAL | ITEM_SEQUENCE | VISIT_ORDINAL | NATURAL_DECISION_OCCURRENCE
datatype FactorKind = DESCRIPTION_QUALITY | LATENT_COMPLEXITY

fun factor_value :: "FactorKind \<Rightarrow> string" where
  "factor_value DESCRIPTION_QUALITY = ''DESCRIPTION_QUALITY''"
| "factor_value LATENT_COMPLEXITY = ''LATENT_COMPLEXITY''"

text \<open>The position in \<open>WORK_PRIORITY_ORDER\<close>.\<close>

fun priority_index :: "WorkPriority \<Rightarrow> nat" where
  "priority_index PR_HIGHEST = 0"
| "priority_index PR_HIGH = 1"
| "priority_index PR_MEDIUM = 2"
| "priority_index PR_LOW = 3"
| "priority_index PR_LOWEST = 4"

definition ALL_DECISIONS :: "DecisionType list" where
  "ALL_DECISIONS =
     [BACKLOG_ISSUE_TYPE, BACKLOG_STORY_POINTS, BACKLOG_PRIORITY, ITEM_DESCRIPTION_QUALITY,
      ITEM_LATENT_COMPLEXITY, STATUS_DWELL, STATUS_TOUCH, SCRUM_CAPACITY_TARGET,
      RISK_EXTERNAL_DEPENDENCY_OUTCOME, RISK_EXTERNAL_DEPENDENCY_DURATION,
      RISK_CANCELLATION_OUTCOME, RISK_REVIEW_REJECTION_OUTCOME, RISK_REWORK_DURATION,
      RISK_MEMBER_UNAVAILABLE_OUTCOME, RISK_MEMBER_UNAVAILABLE_DURATION, FORCED_REWORK_DURATION,
      KANBAN_ARRIVAL_GAP, KANBAN_CLASS_OF_SERVICE]"

definition NATURAL_OWNER_DECISIONS :: "DecisionType set" where
  "NATURAL_OWNER_DECISIONS = {RISK_CANCELLATION_OUTCOME, RISK_MEMBER_UNAVAILABLE_OUTCOME}"

section \<open>Checks\<close>

definition MAX_COUNTER_NEXT_VALUE :: int where "MAX_COUNTER_NEXT_VALUE = MAX_SAFE_INTEGER + 1"
definition MAX_SQLITE_INTEGER :: int where "MAX_SQLITE_INTEGER = 2 ^ 63 - 1"

definition require_counter_value :: "int \<Rightarrow> unit res" where
  "require_counter_value v =
     guardR (0 \<le> v \<and> v \<le> MAX_COUNTER_NEXT_VALUE)
       (Value_Error ''next_value must be safe or the exact exhausted sentinel'')"

definition require_microseconds :: "int \<Rightarrow> string \<Rightarrow> int res" where
  "require_microseconds v label =
     (if 0 \<le> v \<and> v \<le> MAX_SQLITE_INTEGER then Inr v
      else Inl (Value_Error (label @ '' must fit the non-negative signed SQLite integer range'')))"

definition require_fraction :: "py_float \<Rightarrow> string \<Rightarrow> py_float res" where
  "require_fraction v label =
     (if 0 \<le> v \<and> v \<le> 1 then Inr v else Inl (Value_Error (label @ '' must be a finite fraction in [0, 1]'')))"

definition require_finite_float :: "py_float \<Rightarrow> string \<Rightarrow> py_float res" where
  "require_finite_float v label =
     (if v < 0 then Inl (Value_Error (label @ '' must be finite and non-negative'')) else Inr v)"

definition require_text :: "string \<Rightarrow> string \<Rightarrow> string res" where
  "require_text v label =
     (if v = [] \<or> is_space (hd v) \<or> is_space (last v)
      then Inl (Value_Error (label @ '' must be non-empty canonical text'')) else Inr v)"

definition require_optional_text :: "string option \<Rightarrow> string \<Rightarrow> string option res" where
  "require_optional_text v label =
     (case v of None \<Rightarrow> Inr None | Some t \<Rightarrow> bindR (require_text t label) (\<lambda>t. Inr (Some t)))"

definition require_lower_hex_digest :: "string \<Rightarrow> string \<Rightarrow> string res" where
  "require_lower_hex_digest v label =
     bindR (require_text v label) (\<lambda>digest.
       if lower_hex_64 digest then Inr digest
       else Inl (Value_Error (label @ '' must be a lower-case SHA-256 digest'')))"

definition canonical_object :: "codec \<Rightarrow> string \<Rightarrow> string \<Rightarrow> string \<Rightarrow> json res" where
  "canonical_object c text digest label =
     bindR (require_text text (label @ ''_json'')) (\<lambda>_.
     bindR (require_lower_hex_digest digest (label @ ''_sha256'')) (\<lambda>_.
       case cd_decode c text of
         None \<Rightarrow> Inl (Value_Error (label @ '' must be valid canonical JSON''))
       | Some document \<Rightarrow>
           if json_keys document = None \<or> cd_encode c document \<noteq> text
           then Inl (Value_Error (label @ '' must be a canonical JSON object''))
           else if canonical_sha256 c document \<noteq> digest
           then Inl (Value_Error (label @ '' digest does not match canonical JSON''))
           else Inr document))"

definition require_semantic_id :: "uuid \<Rightarrow> uuid \<Rightarrow> string \<Rightarrow> unit res" where
  "require_semantic_id actual expected label =
     guardR (actual = expected) (Value_Error (label @ '' does not match its semantic coordinates''))"

text \<open>Hours to microseconds through the exact integer ratio, rounding half to even.\<close>

definition hours_to_microseconds :: "py_float \<Rightarrow> int res" where
  "hours_to_microseconds hours =
     bindR (require_finite_float hours ''touch sampled hours'') (\<lambda>normalized.
       let (numerator, denominator) = quotient_of normalized;
           whole = numerator * 3600000000 div denominator;
           remainder = numerator * 3600000000 mod denominator;
           twice_remainder = remainder * 2
       in require_microseconds
            (if denominator < twice_remainder \<or> twice_remainder = denominator \<and> whole mod 2 = 1
             then whole + 1 else whole) ''required_work_microseconds'')"

section \<open>Ranks, members and overlays\<close>

record SimulatorRank =
  sr_priority :: WorkPriority
  sr_relative_rank :: int
  sr_work_item_id :: uuid

definition check_rank :: "SimulatorRank \<Rightarrow> unit res" where
  "check_rank r = bindR (safe_integer (sr_relative_rank r) ''relative_rank'') (\<lambda>_. Inr ())"

definition rank_sort_key :: "SimulatorRank \<Rightarrow> nat \<times> int \<times> uuid" where
  "rank_sort_key r = (priority_index (sr_priority r), sr_relative_rank r, sr_work_item_id r)"

record MemberIdentity =
  mi_id :: uuid
  mi_team_id :: uuid
  mi_blueprint_index :: int

definition check_member_identity :: "codec \<Rightarrow> MemberIdentity \<Rightarrow> unit res" where
  "check_member_identity c m =
     bindR (safe_integer (mi_blueprint_index m) ''blueprint_index'') (\<lambda>index.
     bindR (member_rng_id c (mi_team_id m) index) (\<lambda>expected.
       require_semantic_id (mi_id m) expected ''semantic member id''))"

record MemberAvailabilityOverlay =
  ov_id :: uuid
  ov_team_id :: uuid
  ov_run_id :: uuid
  ov_member_id :: uuid
  ov_source :: string
  ov_starts_at :: instant
  ov_ends_at :: instant
  ov_fraction :: py_float
  ov_ceiling :: "int option"
  ov_reason :: string
  ov_provenance_json :: string
  ov_provenance_sha256 :: string
  ov_created_at :: instant

definition check_overlay :: "codec \<Rightarrow> MemberAvailabilityOverlay \<Rightarrow> unit res" where
  "check_overlay c v =
     bindR (require_text (ov_source v) ''source'') (\<lambda>_.
     bindR (guardR (ov_starts_at v < ov_ends_at v)
              (Value_Error ''overlay interval must be half-open with starts_at before ends_at'')) (\<lambda>_.
     bindR (require_fraction (ov_fraction v) ''availability_fraction'') (\<lambda>_.
     bindR (case ov_ceiling v of None \<Rightarrow> Inr 0 | Some k \<Rightarrow> require_microseconds k ''capacity ceiling'') (\<lambda>_.
     bindR (require_text (ov_reason v) ''reason'') (\<lambda>_.
     bindR (canonical_object c (ov_provenance_json v) (ov_provenance_sha256 v) ''provenance'') (\<lambda>_.
       Inr ()))))))"

record MemberBusinessDateConsumption =
  mc_team_id :: uuid
  mc_run_id :: uuid
  mc_member_id :: uuid
  mc_business_date :: int
  mc_consumed :: int

definition check_consumption :: "MemberBusinessDateConsumption \<Rightarrow> unit res" where
  "check_consumption k =
     bindR (require_microseconds (mc_consumed k) ''consumed_labor_microseconds'') (\<lambda>_. Inr ())"

section \<open>Work items\<close>

record WorkItemState =
  wi_id :: uuid
  wi_team_id :: uuid
  wi_run_id :: uuid
  wi_creation_kind :: CreationKind
  wi_creation_sequence :: int
  wi_issue_type :: string
  wi_story_points :: int
  wi_priority :: WorkPriority
  wi_relative_rank :: int
  wi_lifecycle :: WorkItemLifecycle
  wi_current_status_key :: string
  wi_created_at :: instant
  wi_updated_at :: instant

definition simulator_rank :: "WorkItemState \<Rightarrow> SimulatorRank" where
  "simulator_rank w = \<lparr>sr_priority = wi_priority w, sr_relative_rank = wi_relative_rank w, sr_work_item_id = wi_id w\<rparr>"

definition check_classification :: "WorkItemState \<Rightarrow> unit res" where
  "check_classification w =
     bindR (guardR (wi_issue_type w \<in> set ISSUE_TYPES)
              (Value_Error ''issue_type must be a supported exact value'')) (\<lambda>_.
     bindR (guardR (wi_story_points w \<in> set STORY_POINTS)
              (Value_Error ''story_points must use the supported Fibonacci scale'')) (\<lambda>_.
     bindR (safe_integer (wi_relative_rank w) ''relative_rank'') (\<lambda>_.
     bindR (require_text (wi_current_status_key w) ''current_status_key'') (\<lambda>_. Inr ()))))"

definition check_work_item :: "codec \<Rightarrow> WorkItemState \<Rightarrow> unit res" where
  "check_work_item c w =
     bindR (safe_integer (wi_creation_sequence w) ''creation_sequence'') (\<lambda>sequence.
     bindR (item_rng_id c (wi_team_id w) (wi_creation_kind w) sequence) (\<lambda>expected.
     bindR (require_semantic_id (wi_id w) expected ''semantic work item id'') (\<lambda>_.
     bindR (check_classification w) (\<lambda>_.
       guardR (wi_created_at w \<le> wi_updated_at w)
         (Value_Error ''updated_at must not precede created_at'')))))"

record WorkItemFactor =
  fa_id :: uuid
  fa_team_id :: uuid
  fa_run_id :: uuid
  fa_work_item_id :: uuid
  fa_kind :: FactorKind
  fa_value :: py_float
  fa_provenance_json :: string
  fa_provenance_sha256 :: string
  fa_recorded_at :: instant

definition check_factor :: "codec \<Rightarrow> WorkItemFactor \<Rightarrow> unit res" where
  "check_factor c f =
     bindR (require_semantic_id (fa_id f)
              (semantic_uuid c (''factor/'' @ uuid_text (fa_work_item_id f) @ ''/'' @ factor_value (fa_kind f)))
              ''semantic factor id'') (\<lambda>_.
     bindR (require_fraction (fa_value f) ''factor value'') (\<lambda>_.
     bindR (canonical_object c (fa_provenance_json f) (fa_provenance_sha256 f) ''provenance'') (\<lambda>_. Inr ())))"

section \<open>Sprints and their scope\<close>

record SprintState =
  ss_id :: uuid
  ss_team_id :: uuid
  ss_run_id :: uuid
  ss_ordinal :: int
  ss_lifecycle :: SprintLifecycle
  ss_planned_start_at :: instant
  ss_planned_end_at :: instant
  ss_observed_start_at :: "instant option"
  ss_observed_end_at :: "instant option"
  ss_created_at :: instant
  ss_updated_at :: instant

fun expected_presence :: "SprintLifecycle \<Rightarrow> bool \<times> bool" where
  "expected_presence SP_PLANNED = (False, False)"
| "expected_presence SP_ACTIVE = (True, False)"
| "expected_presence SP_COMPLETED = (True, True)"

definition check_observed_times :: "SprintState \<Rightarrow> unit res" where
  "check_observed_times s =
     bindR (guardR ((ss_observed_start_at s \<noteq> None, ss_observed_end_at s \<noteq> None) = expected_presence (ss_lifecycle s))
              (Value_Error ''observed_start_at/observed_end_at do not match sprint lifecycle'')) (\<lambda>_.
       case (ss_observed_start_at s, ss_observed_end_at s) of
         (Some b, Some e) \<Rightarrow> guardR (b \<le> e) (Value_Error ''observed_end_at must not precede observed_start_at'')
       | _ \<Rightarrow> Inr ())"

definition check_sprint :: "codec \<Rightarrow> SprintState \<Rightarrow> unit res" where
  "check_sprint c s =
     bindR (safe_integer (ss_ordinal s) ''ordinal'') (\<lambda>ordinal.
     bindR (sprint_rng_id c (ss_team_id s) ordinal) (\<lambda>expected.
     bindR (require_semantic_id (ss_id s) expected ''semantic sprint id'') (\<lambda>_.
     bindR (guardR (ss_planned_start_at s < ss_planned_end_at s)
              (Value_Error ''planned sprint interval must be positive'')) (\<lambda>_.
     bindR (check_observed_times s) (\<lambda>_.
       guardR (ss_created_at s \<le> ss_updated_at s)
         (Value_Error ''updated_at must not precede created_at''))))))"

record SprintScopeEntry =
  sc_id :: uuid
  sc_team_id :: uuid
  sc_run_id :: uuid
  sc_sprint_id :: uuid
  sc_work_item_id :: uuid
  sc_added_at :: instant
  sc_removed_at :: "instant option"

definition check_scope_entry :: "codec \<Rightarrow> SprintScopeEntry \<Rightarrow> unit res" where
  "check_scope_entry c e =
     bindR (require_semantic_id (sc_id e)
              (semantic_uuid c (''sprint-scope/'' @ uuid_text (sc_sprint_id e) @ ''/'' @ uuid_text (sc_work_item_id e)))
              ''semantic sprint scope id'') (\<lambda>_.
       guardR (case sc_removed_at e of None \<Rightarrow> True | Some r \<Rightarrow> sc_added_at e \<le> r)
         (Value_Error ''removed_at must not precede added_at''))"

section \<open>Status visits\<close>

record StatusVisitState =
  sv_id :: uuid
  sv_team_id :: uuid
  sv_run_id :: uuid
  sv_work_item_id :: uuid
  sv_ordinal :: int
  sv_lifecycle :: StatusVisitLifecycle
  sv_status_key :: string
  sv_activity_key :: "string option"
  sv_member_id :: "uuid option"
  sv_entered_at :: instant
  sv_closed_at :: "instant option"
  sv_required :: int
  sv_elapsed :: int
  sv_remaining :: int
  sv_queue :: int
  sv_pause :: int
  sv_credited :: int

definition check_zero_touch :: "StatusVisitState \<Rightarrow> unit res" where
  "check_zero_touch v =
     (if sv_activity_key v \<noteq> None then Inr ()
      else if sv_member_id v \<noteq> None then Inl (Value_Error ''zero-touch visit must not have a member owner'')
      else guardR (sv_required v = 0 \<and> sv_elapsed v = 0 \<and> sv_remaining v = 0 \<and> sv_credited v = 0)
             (Value_Error ''zero-touch visit must have zero touch and labor clocks''))"

definition check_visit_times :: "StatusVisitState \<Rightarrow> unit res" where
  "check_visit_times v =
     (if sv_lifecycle v = SV_OPEN \<and> sv_closed_at v \<noteq> None
      then Inl (Value_Error ''open visit must not have closed_at'')
      else if sv_lifecycle v = SV_CLOSED \<and> sv_closed_at v = None
      then Inl (Value_Error ''closed visit must have closed_at'')
      else guardR (case sv_closed_at v of None \<Rightarrow> True | Some t \<Rightarrow> sv_entered_at v \<le> t)
             (Value_Error ''closed_at must not precede entered_at''))"

definition check_visit_microseconds :: "StatusVisitState \<Rightarrow> unit res" where
  "check_visit_microseconds v =
     bindR (forR (\<lambda>(x, label). bindR (require_microseconds x label) (\<lambda>_. Inr ()))
              [(sv_required v, ''required_work_microseconds''), (sv_elapsed v, ''elapsed_work_microseconds''),
               (sv_remaining v, ''remaining_work_microseconds''), (sv_queue v, ''queue_microseconds''),
               (sv_pause v, ''pause_microseconds''), (sv_credited v, ''credited_labor_microseconds'')]) (\<lambda>_.
     bindR (guardR (sv_required v = sv_elapsed v + sv_remaining v)
              (Value_Error ''required work must equal elapsed plus remaining'')) (\<lambda>_.
       guardR (\<not> (sv_lifecycle v = SV_CLOSED \<and> sv_remaining v \<noteq> 0))
         (Value_Error ''closed visit must have no remaining work'')))"

definition check_visit :: "codec \<Rightarrow> StatusVisitState \<Rightarrow> unit res" where
  "check_visit c v =
     bindR (safe_integer (sv_ordinal v) ''ordinal'') (\<lambda>ordinal.
     bindR (visit_rng_id c (sv_work_item_id v) ordinal) (\<lambda>expected.
     bindR (require_semantic_id (sv_id v) expected ''semantic visit id'') (\<lambda>_.
     bindR (require_text (sv_status_key v) ''status_key'') (\<lambda>_.
     bindR (require_optional_text (sv_activity_key v) ''activity_key'') (\<lambda>_.
     bindR (check_zero_touch v) (\<lambda>_.
     bindR (check_visit_times v) (\<lambda>_. check_visit_microseconds v)))))))"

section \<open>Counters and natural decisions\<close>

definition scope_keys :: "SemanticCounterKind \<Rightarrow> string list" where
  "scope_keys kind =
     (case kind of
        SPRINT_ORDINAL \<Rightarrow> [''SCRUM'']
      | ITEM_SEQUENCE \<Rightarrow> map creation_value
          [INITIAL_BACKLOG, SCRUM_REPLENISHMENT, KANBAN_ARRIVAL, AGENT_CREATED, JIRA_IMPORTED]
      | VISIT_ORDINAL \<Rightarrow> [''VISIT'']
      | NATURAL_DECISION_OCCURRENCE \<Rightarrow> map decision_value ALL_DECISIONS)"

record SemanticCounterScope =
  cs_kind :: SemanticCounterKind
  cs_scope_id :: uuid
  cs_scope_key :: string

definition check_counter_scope :: "SemanticCounterScope \<Rightarrow> unit res" where
  "check_counter_scope s =
     bindR (require_text (cs_scope_key s) ''scope_key'') (\<lambda>_.
       guardR (cs_scope_key s \<in> set (scope_keys (cs_kind s)))
         (Value_Error ''scope_key does not match the semantic counter kind''))"

record SemanticCounter =
  sn_team_id :: uuid
  sn_run_id :: uuid
  sn_scope :: SemanticCounterScope
  sn_next_value :: int

definition natural_owner_key :: "string \<Rightarrow> bool" where
  "natural_owner_key key \<longleftrightarrow> (\<exists>d \<in> NATURAL_OWNER_DECISIONS. decision_value d = key)"

definition check_counter :: "SemanticCounter \<Rightarrow> unit res" where
  "check_counter k =
     bindR (check_counter_scope (sn_scope k)) (\<lambda>_.
     bindR (require_counter_value (sn_next_value k)) (\<lambda>_.
     bindR (guardR (\<not> (cs_kind (sn_scope k) \<in> {SPRINT_ORDINAL, ITEM_SEQUENCE} \<and>
                       cs_scope_id (sn_scope k) \<noteq> sn_team_id k))
              (Value_Error ''team-scoped counter must use team_id as scope_id'')) (\<lambda>_.
       guardR (\<not> (cs_kind (sn_scope k) = NATURAL_DECISION_OCCURRENCE \<and>
                  \<not> natural_owner_key (cs_scope_key (sn_scope k))))
         (Value_Error ''counter decision type has no supported natural owner''))))"

record NaturalDecisionEvaluation =
  ne_id :: uuid
  ne_team_id :: uuid
  ne_run_id :: uuid
  ne_decision_type :: DecisionType
  ne_semantic_entity_id :: uuid
  ne_business_date :: int
  ne_occurrence :: int
  ne_commit_id :: uuid
  ne_recorded_at :: instant

text \<open>The text of a date is an argument: \<open>str(date)\<close>.\<close>

definition evaluation_path :: "(int \<Rightarrow> string) \<Rightarrow> NaturalDecisionEvaluation \<Rightarrow> string" where
  "evaluation_path date_text e =
     ''evaluation/'' @ uuid_text (ne_team_id e) @ ''/'' @ uuid_text (ne_run_id e) @ ''/'' @
     decision_value (ne_decision_type e) @ ''/'' @ uuid_text (ne_semantic_entity_id e) @ ''/'' @
     date_text (ne_business_date e)"

definition check_evaluation :: "codec \<Rightarrow> (int \<Rightarrow> string) \<Rightarrow> NaturalDecisionEvaluation \<Rightarrow> unit res" where
  "check_evaluation c date_text e =
     bindR (guardR (ne_decision_type e \<in> NATURAL_OWNER_DECISIONS)
              (Value_Error ''decision type has no supported natural owner'')) (\<lambda>_.
     bindR (safe_integer (ne_occurrence e) ''occurrence'') (\<lambda>_.
       require_semantic_id (ne_id e) (semantic_uuid c (evaluation_path date_text e)) ''semantic evaluation id''))"

section \<open>Exact hours\<close>

lemma half_even_ratio:
  assumes "0 < d"
  shows "round_half_even (of_int n / of_int d) =
    (if d < 2 * (n mod d) \<or> 2 * (n mod d) = d \<and> (n div d) mod 2 = 1 then n div d + 1 else n div d)"
proof -
  have f: "\<lfloor>of_int n / (of_int d :: rat)\<rfloor> = n div d" by (rule floor_divide_of_int_eq)
  have dpos: "(0::rat) < of_int d" using assms by simp
  have "n = d * (n div d) + n mod d" by simp
  then have "(of_int n :: rat) = of_int d * of_int (n div d) + of_int (n mod d)" by (metis of_int_add of_int_mult)
  then have r: "of_int n / of_int d - of_int (n div d) = (of_int (n mod d) / of_int d :: rat)"
    using dpos by (simp add: field_simps)
  have c1: "(of_int (n mod d) / of_int d :: rat) < 1 / 2 \<longleftrightarrow> 2 * (n mod d) < d"
  proof -
    have "(of_int (n mod d) / of_int d :: rat) < 1 / 2 \<longleftrightarrow> (of_int (2 * (n mod d)) :: rat) < of_int d"
      using dpos by (simp add: field_simps)
    then show ?thesis by (simp only: of_int_less_iff)
  qed
  have c2: "1 / 2 < (of_int (n mod d) / of_int d :: rat) \<longleftrightarrow> d < 2 * (n mod d)"
  proof -
    have "1 / 2 < (of_int (n mod d) / of_int d :: rat) \<longleftrightarrow> (of_int d :: rat) < of_int (2 * (n mod d))"
      using dpos by (simp add: field_simps)
    then show ?thesis by (simp only: of_int_less_iff)
  qed
  have e: "even (n div d) \<longleftrightarrow> (n div d) mod 2 \<noteq> 1" by presburger
  show ?thesis unfolding round_half_even_def f Let_def r c1 c2 e by auto
qed

lemma hours_to_microseconds_exact:
  assumes "0 \<le> h"
  shows "hours_to_microseconds h =
    require_microseconds (round_half_even (h * 3600000000)) ''required_work_microseconds''"
proof -
  obtain n d where q: "quotient_of h = (n, d)" by fastforce
  then have d: "0 < d" "h = of_int n / of_int d" using quotient_of_denom_pos quotient_of_div by blast+
  have p: "h * 3600000000 = of_int (n * 3600000000) / of_int d" by (simp add: d(2))
  show ?thesis
    using assms unfolding hours_to_microseconds_def p half_even_ratio[OF d(1)]
    by (simp add: require_finite_float_def q Let_def mult.commute)
qed

text \<open>
  The tick computes the same quantity as \<open>round(hours * 3600000000)\<close>, with a float product. For these
  hours (about 25.74) the product is rounded to a half first, and the two differ by a microsecond.
\<close>

definition unlucky_hours :: py_float where "unlucky_hours = 6910079833 / 2 ^ 28"

lemma half_even_values:
  "round_half_even (24293249412890625 / 262144) = 92671392109"
  "round_half_even (24293249412890625 / 4) = 6073312353222656"
  "round_half_even (6073312353222656 / 65536) = 92671392108"
  using half_even_ratio[of 262144 24293249412890625] half_even_ratio[of 4 24293249412890625]
    half_even_ratio[of 65536 6073312353222656] by simp_all

lemma unlucky_exact: "hours_to_microseconds unlucky_hours = Inr 92671392109"
proof -
  have p: "unlucky_hours * 3600000000 = 24293249412890625 / 262144" by (simp add: unlucky_hours_def)
  have "0 \<le> unlucky_hours" by (simp add: unlucky_hours_def)
  from hours_to_microseconds_exact[OF this] show ?thesis
    by (simp only: p half_even_values) (simp add: require_microseconds_def MAX_SQLITE_INTEGER_def)
qed

lemma unlucky_product: "round_half_even (f_mul unlucky_hours 3600000000) = 92671392108"
proof -
  have p: "(2::rat) powi (- 16) = 1 / 65536" by (simp add: power_int_def power_divide)
  have x: "unlucky_hours * 3600000000 / 2 powi (- 16) = 24293249412890625 / 4"
    by (simp only: p) (simp add: unlucky_hours_def)
  have "fl (unlucky_hours * 3600000000) =
      of_int (round_half_even (unlucky_hours * 3600000000 / 2 powi (- 16))) * 2 powi (- 16)"
  proof (rule fl_at)
    show "2 ^ 52 \<le> unlucky_hours * 3600000000 / 2 powi (- 16)" unfolding x by simp
    show "unlucky_hours * 3600000000 / 2 powi (- 16) < 2 ^ 53" unfolding x by simp
  qed simp
  then have "f_mul unlucky_hours 3600000000 = of_int 6073312353222656 * (1 / 65536)"
    by (simp only: x half_even_values f_mul_def p[symmetric])
  then have "f_mul unlucky_hours 3600000000 = 6073312353222656 / 65536" by simp
  then show ?thesis by (simp only: half_even_values)
qed

end
