(* ===== verification/Status_Sample.thy ===== *)
theory Status_Sample
  imports Scrum_State
begin

text \<open>
  The authenticated sample of a status visit (\<open>v2/domain/scrum_state.py\<close>): how it is created from the
  blueprint, the work item, the visit and two draws, how it checks its own documents, and how a
  persisted sample is authenticated by creating it again.
\<close>

section \<open>The environment\<close>

text \<open>
  What the engine takes from outside: canonical JSON, digests and HMAC, the mathematics library,
  the text of dates and instants, and time zones by name.
\<close>

record scrum_env =
  en_codec :: codec
  en_log1p :: libm
  en_expm1 :: libm
  en_date_text :: "int \<Rightarrow> string"
  en_instant_text :: "instant \<Rightarrow> string"
  en_zone :: "string \<Rightarrow> zone res"

section \<open>Sample inputs\<close>

record StatusVisitSampleInput =
  si_blueprint :: ResolvedTeamBlueprint
  si_work_item :: WorkItemState
  si_visit :: StatusVisitState
  si_dwell_draw :: UniformDraw
  si_touch_draw :: UniformDraw

definition timing_entry :: "ResolvedTeamBlueprint \<Rightarrow> WorkItemState \<Rightarrow> StatusVisitState \<Rightarrow> TimingEntry res" where
  "timing_entry b w v =
     (case filter (\<lambda>t. timing_cell t = (sv_status_key v, wi_issue_type w, wi_story_points w)) (tm_entries (bp_timing b)) of
        [entry] \<Rightarrow> Inr entry
      | _ \<Rightarrow> Inl (Value_Error ''status sample must resolve one exact blueprint timing cell''))"

definition blueprint_team :: "codec \<Rightarrow> ResolvedTeamBlueprint \<Rightarrow> uuid res" where
  "blueprint_team c b =
     (case cd_decode c (bp_canonical_document b) of
        None \<Rightarrow> Inl (Value_Error ''blueprint document must be JSON'')
      | Some document \<Rightarrow> team_rng_id c (canonical_sha256 c document))"

definition check_sample_links :: "codec \<Rightarrow> StatusVisitSampleInput \<Rightarrow> unit res" where
  "check_sample_links c i =
     (let work = si_work_item i; visit = si_visit i in
      bindR (guardR ((sv_team_id visit, sv_run_id visit, sv_work_item_id visit) =
                     (wi_team_id work, wi_run_id work, wi_id work))
               (Value_Error ''sample input work item and visit coordinates must match'')) (\<lambda>_.
      bindR (guardR (\<not> (sv_lifecycle visit = SV_OPEN \<and> sv_status_key visit \<noteq> wi_current_status_key work))
               (Value_Error ''open visit status must match current work status'')) (\<lambda>_.
      bindR (blueprint_team c (si_blueprint i)) (\<lambda>team.
      bindR (guardR (wi_team_id work = team)
               (Value_Error ''sample input team must match the canonical blueprint'')) (\<lambda>_.
      bindR (timing_entry (si_blueprint i) work visit) (\<lambda>_. Inr ()))))))"

definition check_draw_digest :: "UniformDraw \<Rightarrow> unit res" where
  "check_draw_digest u =
     bindR (require_lower_hex_digest (ud_hmac_sha256 u) ''draw hmac_sha256'') (\<lambda>digest.
     bindR (safe_integer (ud_u53_integer u) ''draw u53_integer'') (\<lambda>n.
     bindR (guardR (n = high_u53 (of_nat (hex_value digest)))
              (Value_Error ''draw u53_integer does not match its HMAC'')) (\<lambda>_.
     bindR (require_fraction (ud_unit_value u) ''draw unit_value'') (\<lambda>unit_value.
       guardR (unit_value = unit_of_u53 n) (Value_Error ''draw unit_value does not match its U53 integer'')))))"

definition check_draw_scalars :: "UniformDraw \<Rightarrow> unit res" where
  "check_draw_scalars u =
     bindR (require_text (ud_algorithm u) ''draw algorithm'') (\<lambda>algorithm.
     bindR (guardR (algorithm = ALGORITHM_ID) (Value_Error ''draw algorithm is not supported'')) (\<lambda>_.
     bindR (safe_integer (do_occurrence (ud_decision u)) ''draw decision occurrence'') (\<lambda>_.
     bindR (safe_integer (ud_draw_index u) ''draw_index'') (\<lambda>_. check_draw_digest u))))"

definition authenticate_draw ::
  "codec \<Rightarrow> StatusVisitSampleInput \<Rightarrow> UniformDraw \<Rightarrow> DecisionType \<Rightarrow> unit res" where
  "authenticate_draw c i draw dt =
     bindR (check_draw_scalars draw) (\<lambda>_.
     bindR (decision_occurrence (sv_id (si_visit i)) dt 0) (\<lambda>decision.
     bindR (random_stream (bp_seed (si_blueprint i)) (wi_team_id (si_work_item i)) (wi_run_id (si_work_item i))) (\<lambda>stream.
     bindR (stream_draw c stream decision 0) (\<lambda>expected.
       guardR (draw = expected)
         (Value_Error ''draw is not authenticated by the persisted blueprint seed'')))))"

definition check_sample_input :: "codec \<Rightarrow> StatusVisitSampleInput \<Rightarrow> unit res" where
  "check_sample_input c i =
     bindR (check_work_item c (si_work_item i)) (\<lambda>_.
     bindR (check_visit c (si_visit i)) (\<lambda>_.
     bindR (check_sample_links c i) (\<lambda>_.
     bindR (authenticate_draw c i (si_dwell_draw i) STATUS_DWELL) (\<lambda>_.
       authenticate_draw c i (si_touch_draw i) STATUS_TOUCH))))"

section \<open>Samples\<close>

record StatusVisitSample =
  vs_visit_id :: uuid
  vs_team_id :: uuid
  vs_run_id :: uuid
  vs_timing_profile :: string
  vs_timing_profile_version :: string
  vs_dwell_sampler_version :: string
  vs_touch_sampler_version :: string
  vs_dwell_parameters_json :: string
  vs_dwell_parameters_sha256 :: string
  vs_touch_parameters_json :: string
  vs_touch_parameters_sha256 :: string
  vs_dwell_draw_json :: string
  vs_dwell_draw_sha256 :: string
  vs_touch_draw_json :: string
  vs_touch_draw_sha256 :: string
  vs_dwell_unit_value :: py_float
  vs_touch_unit_value :: py_float
  vs_dwell_sampled_hours :: py_float
  vs_touch_sampled_hours :: py_float
  vs_required :: int
  vs_required_sha256 :: string

definition TOUCH_SAMPLER_VERSION :: string where "TOUCH_SAMPLER_VERSION = ''LINEAR_UNIFORM_TOUCH_V1''"

definition canonical_pair :: "codec \<Rightarrow> json \<Rightarrow> string \<times> string" where
  "canonical_pair c document = (cd_encode c document, canonical_sha256 c document)"

definition draw_document :: "UniformDraw \<Rightarrow> json" where
  "draw_document u = JObj
     [(''algorithm'', JStr (ud_algorithm u)),
      (''canonical_message'', JStr (ud_canonical_message u)),
      (''decision_type'', JStr (decision_value (do_decision_type (ud_decision u)))),
      (''draw_index'', JInt (ud_draw_index u)),
      (''entity_id'', JStr (uuid_text (do_entity_id (ud_decision u)))),
      (''hmac_sha256'', JStr (ud_hmac_sha256 u)),
      (''occurrence'', JInt (do_occurrence (ud_decision u))),
      (''u53_integer'', JInt (ud_u53_integer u)),
      (''unit_value'', JNum (ud_unit_value u))]"

definition dwell_document :: "TimingEntry \<Rightarrow> json" where
  "dwell_document e = JObj
     [(''maximum'', JNum (te_max e)), (''minimum'', JNum (te_min e)), (''p25'', JNum (te_p25 e)),
      (''p50'', JNum (te_p50 e)), (''p99'', JNum (te_p99 e))]"

definition touch_document :: "TimingEntry \<Rightarrow> json" where
  "touch_document e = JObj [(''maximum'', JNum (te_touch_max e)), (''minimum'', JNum (te_touch_min e))]"

definition required_document :: "int \<Rightarrow> json" where
  "required_document required = JObj [(''required_work_microseconds'', JInt required)]"

definition status_sample_values :: "scrum_env \<Rightarrow> StatusVisitSampleInput \<Rightarrow> StatusVisitSample res" where
  "status_sample_values env i =
     (let c = en_codec env; b = si_blueprint i; dwell_draw = si_dwell_draw i; touch_draw = si_touch_draw i in
      bindR (check_sample_input c i) (\<lambda>_.
      bindR (timing_entry b (si_work_item i) (si_visit i)) (\<lambda>entry.
      bindR (dwell_anchors entry) (\<lambda>anchors.
      bindR (sample_dwell (en_log1p env) (en_expm1 env) anchors (ud_unit_value dwell_draw)) (\<lambda>dwell.
      bindR (touch_bounds entry) (\<lambda>bounds.
      bindR (sample_touch bounds (ud_unit_value touch_draw)) (\<lambda>touch.
      bindR (hours_to_microseconds (ds_sampled_hours touch)) (\<lambda>required.
        if sv_required (si_visit i) \<noteq> required
        then Inl (Value_Error ''visit required work must equal the retained touch sample'')
        else Inr
          \<lparr>vs_visit_id = sv_id (si_visit i), vs_team_id = wi_team_id (si_work_item i),
           vs_run_id = wi_run_id (si_work_item i), vs_timing_profile = tm_profile_name (bp_timing b),
           vs_timing_profile_version = int_text (tm_profile_version (bp_timing b)),
           vs_dwell_sampler_version = tm_algorithm_version (bp_timing b),
           vs_touch_sampler_version = TOUCH_SAMPLER_VERSION,
           vs_dwell_parameters_json = fst (canonical_pair c (dwell_document entry)),
           vs_dwell_parameters_sha256 = snd (canonical_pair c (dwell_document entry)),
           vs_touch_parameters_json = fst (canonical_pair c (touch_document entry)),
           vs_touch_parameters_sha256 = snd (canonical_pair c (touch_document entry)),
           vs_dwell_draw_json = fst (canonical_pair c (draw_document dwell_draw)),
           vs_dwell_draw_sha256 = snd (canonical_pair c (draw_document dwell_draw)),
           vs_touch_draw_json = fst (canonical_pair c (draw_document touch_draw)),
           vs_touch_draw_sha256 = snd (canonical_pair c (draw_document touch_draw)),
           vs_dwell_unit_value = ud_unit_value dwell_draw, vs_touch_unit_value = ud_unit_value touch_draw,
           vs_dwell_sampled_hours = ds_sampled_hours dwell, vs_touch_sampled_hours = ds_sampled_hours touch,
           vs_required = required,
           vs_required_sha256 = canonical_sha256 c (required_document required)\<rparr>))))))))"

section \<open>The checks of a sample\<close>

definition DRAW_KEYS :: "string set" where
  "DRAW_KEYS = {''algorithm'', ''canonical_message'', ''decision_type'', ''draw_index'', ''entity_id'',
     ''hmac_sha256'', ''occurrence'', ''u53_integer'', ''unit_value''}"

definition parameter_documents :: "codec \<Rightarrow> StatusVisitSample \<Rightarrow> (json \<times> json) res" where
  "parameter_documents c s =
     bindR (canonical_object c (vs_dwell_parameters_json s) (vs_dwell_parameters_sha256 s) ''dwell parameters'') (\<lambda>dwell.
     bindR (canonical_object c (vs_touch_parameters_json s) (vs_touch_parameters_sha256 s) ''touch parameters'') (\<lambda>touch.
     bindR (guardR (json_keys dwell = Some {''minimum'', ''p25'', ''p50'', ''p99'', ''maximum''})
              (Value_Error ''dwell parameters have the wrong canonical schema'')) (\<lambda>_.
     bindR (guardR (json_keys touch = Some {''minimum'', ''maximum''})
              (Value_Error ''touch parameters have the wrong canonical schema'')) (\<lambda>_.
       Inr (dwell, touch)))))"

text \<open>The message inside a draw document.\<close>

definition inner_message :: "codec \<Rightarrow> json \<Rightarrow> string \<Rightarrow> json res" where
  "inner_message c document label =
     bindR (json_field document ''canonical_message'') (\<lambda>m.
       case m of
         JStr message \<Rightarrow>
           (case cd_decode c message of
              None \<Rightarrow> Inl (Value_Error (label @ '' canonical_message must be JSON''))
            | Some d \<Rightarrow>
                if json_keys d = None \<or> cd_encode c d \<noteq> message
                then Inl (Value_Error (label @ '' canonical_message must be canonical JSON''))
                else if json_keys d \<noteq> Some CANONICAL_DECISION_KEYS
                then Inl (Value_Error (label @ '' canonical_message has the wrong decision schema''))
                else Inr d)
       | _ \<Rightarrow> Inl (Type_Error (label @ '' canonical_message must be a string'')))"

text \<open>A field of a document with its type, and the label its errors carry.\<close>

definition text_field :: "json \<Rightarrow> string \<Rightarrow> string \<Rightarrow> string res" where
  "text_field document key label =
     bindR (json_field document key) (\<lambda>v.
       case v of JStr t \<Rightarrow> require_text t label | _ \<Rightarrow> Inl (Type_Error (label @ '' must be a string'')))"

definition fraction_field :: "json \<Rightarrow> string \<Rightarrow> string \<Rightarrow> py_float res" where
  "fraction_field document key label =
     bindR (json_field document key) (\<lambda>v.
       case v of JNum x \<Rightarrow> require_fraction x label | _ \<Rightarrow> Inl (Type_Error (label @ '' must be a float'')))"

definition integer_field :: "json \<Rightarrow> string \<Rightarrow> string \<Rightarrow> int res" where
  "integer_field document key label =
     bindR (json_field document key) (\<lambda>v.
       case v of JInt n \<Rightarrow> safe_integer n label | _ \<Rightarrow> Inl (Type_Error (label @ '' must be an integer'')))"

definition identifier_field :: "json \<Rightarrow> string \<Rightarrow> string \<Rightarrow> string res" where
  "identifier_field document key label =
     bindR (json_field document key) (\<lambda>v.
       case v of
         JStr t \<Rightarrow>
           if canonical_uuid_text t then Inr t
           else Inl (Value_Error (label @ '' must be lower-case hyphenated UUID text''))
       | _ \<Rightarrow> Inl (Type_Error (label @ '' must be canonical UUID text'')))"

definition check_draw_document :: "codec \<Rightarrow> string \<Rightarrow> string \<Rightarrow> string \<Rightarrow> json res" where
  "check_draw_document c text digest label =
     bindR (canonical_object c text digest label) (\<lambda>document.
     bindR (guardR (json_keys document = Some DRAW_KEYS \<and> json_field document ''algorithm'' = Inr (JStr ALGORITHM_ID))
              (Value_Error (label @ '' has the wrong Task 3 draw schema''))) (\<lambda>_.
     bindR (inner_message c document label) (\<lambda>_.
     bindR (text_field document ''hmac_sha256'' (label @ '' hmac_sha256'')) (\<lambda>digest_text.
     bindR (guardR (lower_hex_64 digest_text)
              (Value_Error (label @ '' hmac_sha256 must be lower-case hexadecimal''))) (\<lambda>_.
     bindR (integer_field document ''u53_integer'' (label @ '' u53_integer'')) (\<lambda>n.
     bindR (guardR (n = high_u53 (of_nat (hex_value digest_text)))
              (Value_Error (label @ '' u53_integer does not match HMAC provenance''))) (\<lambda>_.
     bindR (fraction_field document ''unit_value'' (label @ '' unit_value'')) (\<lambda>unit_value.
     bindR (guardR (unit_value = unit_of_u53 n)
              (Value_Error (label @ '' unit value does not match U53 provenance''))) (\<lambda>_.
       Inr document)))))))))"

text \<open>Entity, decision type, occurrence and index, as both documents hold them.\<close>

definition draw_coordinate :: "json \<Rightarrow> string \<Rightarrow> string \<Rightarrow> (string \<times> string \<times> int \<times> int) res" where
  "draw_coordinate document prefix index_label =
     bindR (identifier_field document ''entity_id'' (prefix @ ''entity_id'')) (\<lambda>entity.
     bindR (text_field document ''decision_type'' (prefix @ ''decision_type'')) (\<lambda>dt.
     bindR (integer_field document ''occurrence'' (prefix @ ''occurrence'')) (\<lambda>occ.
     bindR (integer_field document ''draw_index'' index_label) (\<lambda>index. Inr (entity, dt, occ, index)))))"

definition outer_draw_coordinate :: "json \<Rightarrow> (string \<times> string \<times> int \<times> int) res" where
  "outer_draw_coordinate document = draw_coordinate document ''draw '' ''draw_index''"

definition message_draw_coordinate ::
  "json \<Rightarrow> (string \<times> string \<times> string \<times> string \<times> string \<times> int \<times> int) res" where
  "message_draw_coordinate message =
     bindR (text_field message ''algorithm'' ''message algorithm'') (\<lambda>algorithm.
     bindR (identifier_field message ''team_id'' ''message team_id'') (\<lambda>team.
     bindR (identifier_field message ''run_id'' ''message run_id'') (\<lambda>run.
     bindR (draw_coordinate message ''message '' ''message draw_index'') (\<lambda>rest.
       Inr (algorithm, team, run, rest)))))"

definition check_draw_coordinate :: "codec \<Rightarrow> StatusVisitSample \<Rightarrow> json \<Rightarrow> DecisionType \<Rightarrow> unit res" where
  "check_draw_coordinate c s document expected_type =
     bindR (inner_message c document (decision_value expected_type)) (\<lambda>message.
     bindR (outer_draw_coordinate document) (\<lambda>(entity, dt, occ, index).
     bindR (guardR (entity = uuid_text (vs_visit_id s)) (Value_Error ''draw entity_id must match visit_id'')) (\<lambda>_.
     bindR (guardR (occ = 0 \<and> dt = decision_value expected_type)
              (Value_Error ''draw decision coordinate does not match the status sample'')) (\<lambda>_.
     bindR (message_draw_coordinate message) (\<lambda>coordinate.
       guardR (coordinate = (ALGORITHM_ID, uuid_text (vs_team_id s), uuid_text (vs_run_id s), entity, dt, occ, index))
         (Value_Error ''canonical message does not match the status sample coordinate''))))))"

definition json_number :: "json \<Rightarrow> string \<Rightarrow> py_float res" where
  "json_number document key =
     bindR (json_field document key) (\<lambda>v.
       case v of JNum x \<Rightarrow> Inr x | JInt n \<Rightarrow> Inr (f_of_int n)
       | _ \<Rightarrow> Inl (Type_Error (key @ '' must be a number'')))"

definition anchors_of :: "json \<Rightarrow> DwellAnchors res" where
  "anchors_of document =
     bindR (json_number document ''minimum'') (\<lambda>a.
     bindR (json_number document ''p25'') (\<lambda>b.
     bindR (json_number document ''p50'') (\<lambda>d.
     bindR (json_number document ''p99'') (\<lambda>e.
     bindR (json_number document ''maximum'') (\<lambda>f.
       check_dwell_anchors \<lparr>da_minimum = a, da_p25 = b, da_p50 = d, da_p99 = e, da_maximum = f\<rparr>)))))"

definition bounds_of :: "json \<Rightarrow> TouchBounds res" where
  "bounds_of document =
     bindR (json_number document ''minimum'') (\<lambda>a.
     bindR (json_number document ''maximum'') (\<lambda>b.
       check_touch_bounds \<lparr>to_minimum = a, to_maximum = b\<rparr>))"

definition check_sample_documents :: "scrum_env \<Rightarrow> StatusVisitSample \<Rightarrow> unit res" where
  "check_sample_documents env s =
     (let c = en_codec env in
      bindR (parameter_documents c s) (\<lambda>(dwell_parameters, touch_parameters).
      bindR (check_draw_document c (vs_dwell_draw_json s) (vs_dwell_draw_sha256 s) ''dwell draw'') (\<lambda>dwell_draw.
      bindR (check_draw_document c (vs_touch_draw_json s) (vs_touch_draw_sha256 s) ''touch draw'') (\<lambda>touch_draw.
      bindR (check_draw_coordinate c s dwell_draw STATUS_DWELL) (\<lambda>_.
      bindR (check_draw_coordinate c s touch_draw STATUS_TOUCH) (\<lambda>_.
      bindR (require_fraction (vs_dwell_unit_value s) ''dwell_unit_value'') (\<lambda>dwell_unit.
      bindR (require_fraction (vs_touch_unit_value s) ''touch_unit_value'') (\<lambda>touch_unit.
      bindR (guardR (json_field dwell_draw ''unit_value'' = Inr (JNum dwell_unit))
               (Value_Error ''dwell unit value does not match draw provenance'')) (\<lambda>_.
      bindR (guardR (json_field touch_draw ''unit_value'' = Inr (JNum touch_unit))
               (Value_Error ''touch unit value does not match draw provenance'')) (\<lambda>_.
      bindR (anchors_of dwell_parameters) (\<lambda>anchors.
      bindR (sample_dwell (en_log1p env) (en_expm1 env) anchors dwell_unit) (\<lambda>expected_dwell.
      bindR (bounds_of touch_parameters) (\<lambda>bounds.
      bindR (sample_touch bounds touch_unit) (\<lambda>expected_touch.
      bindR (require_finite_float (vs_dwell_sampled_hours s) ''dwell_sampled_hours'') (\<lambda>_.
      bindR (require_finite_float (vs_touch_sampled_hours s) ''touch_sampled_hours'') (\<lambda>_.
      bindR (guardR (vs_dwell_sampled_hours s = ds_sampled_hours expected_dwell)
               (Value_Error ''dwell sampled hours do not match parameters and unit draw'')) (\<lambda>_.
        guardR (vs_touch_sampled_hours s = ds_sampled_hours expected_touch)
          (Value_Error ''touch sampled hours do not match parameters and unit draw''))))))))))))))))))"

definition check_required_work :: "codec \<Rightarrow> StatusVisitSample \<Rightarrow> unit res" where
  "check_required_work c s =
     bindR (require_microseconds (vs_required s) ''required_work_microseconds'') (\<lambda>required.
     bindR (hours_to_microseconds (vs_touch_sampled_hours s)) (\<lambda>expected.
     bindR (guardR (required = expected)
              (Value_Error ''required work must equal retained touch sampled hours'')) (\<lambda>_.
     bindR (require_lower_hex_digest (vs_required_sha256 s) ''required_work_sha256'') (\<lambda>digest.
       guardR (digest = canonical_sha256 c (required_document required))
         (Value_Error ''required work digest does not match exact microseconds'')))))"

definition check_sample :: "scrum_env \<Rightarrow> StatusVisitSample \<Rightarrow> unit res" where
  "check_sample env s =
     bindR (require_text (vs_timing_profile s) ''timing_profile'') (\<lambda>_.
     bindR (require_text (vs_timing_profile_version s) ''timing_profile_version'') (\<lambda>_.
     bindR (require_text (vs_dwell_sampler_version s) ''dwell_sampler_version'') (\<lambda>_.
     bindR (require_text (vs_touch_sampler_version s) ''touch_sampler_version'') (\<lambda>_.
     bindR (check_sample_documents env s) (\<lambda>_. check_required_work (en_codec env) s)))))"

definition create_sample :: "scrum_env \<Rightarrow> StatusVisitSampleInput \<Rightarrow> StatusVisitSample res" where
  "create_sample env i =
     bindR (check_sample_input (en_codec env) i) (\<lambda>_.
     bindR (status_sample_values env i) (\<lambda>s.
     bindR (check_sample env s) (\<lambda>_. Inr s)))"

definition authenticate_sample :: "scrum_env \<Rightarrow> StatusVisitSample \<Rightarrow> StatusVisitSampleInput \<Rightarrow> unit res" where
  "authenticate_sample env s i =
     bindR (check_sample env s) (\<lambda>_.
     bindR (status_sample_values env i) (\<lambda>expected.
       guardR (s = expected)
         (Value_Error ''persisted status sample does not match authenticated provenance'')))"

section \<open>Properties\<close>

lemma check_twice: "bindR (a :: unit res) (\<lambda>_. bindR a f) = bindR a f"
  by (cases a) simp_all

lemma status_sample_values_checked:
  "status_sample_values env i = Inr s \<Longrightarrow> check_sample_input (en_codec env) i = Inr ()"
  by (auto simp: status_sample_values_def Let_def elim!: bindR_InrE)

lemma authenticate_created:
  "authenticate_sample env s i = Inr () \<longleftrightarrow> create_sample env i = Inr s"
proof
  assume "authenticate_sample env s i = Inr ()"
  then have "check_sample env s = Inr ()" "status_sample_values env i = Inr s"
    by (auto simp: authenticate_sample_def res_simps)
  then show "create_sample env i = Inr s" using status_sample_values_checked by (simp add: create_sample_def)
next
  assume "create_sample env i = Inr s"
  then show "authenticate_sample env s i = Inr ()"
    by (auto simp: create_sample_def authenticate_sample_def elim!: bindR_InrE)
qed

text \<open>A persisted sample is authenticated for an input exactly if creating a sample from that input
  gives this very sample: no field of it can be forged.\<close>

theorem authenticate_iff_created:
  "authenticate_sample env s i = Inr () \<longleftrightarrow> create_sample env i = Inr s"
  by (rule authenticate_created)

lemma timing_entry_Inr: "timing_entry b w v = Inr e \<Longrightarrow>
    e \<in> set (tm_entries (bp_timing b)) \<and> timing_cell e = (sv_status_key v, wi_issue_type w, wi_story_points w)"
proof -
  assume a: "timing_entry b w v = Inr e"
  have "filter (\<lambda>t. timing_cell t = (sv_status_key v, wi_issue_type w, wi_story_points w)) (tm_entries (bp_timing b)) = [e]"
    using a by (auto simp: timing_entry_def split: list.splits)
  then have "e \<in> set (filter (\<lambda>t. timing_cell t = (sv_status_key v, wi_issue_type w, wi_story_points w)) (tm_entries (bp_timing b)))"
    by simp
  then show ?thesis by simp
qed

lemma authenticate_draw_Inr:
  assumes "authenticate_draw c i u dt = Inr ()"
  shows "\<exists>d s. decision_occurrence (sv_id (si_visit i)) dt 0 = Inr d \<and>
    random_stream (bp_seed (si_blueprint i)) (wi_team_id (si_work_item i)) (wi_run_id (si_work_item i)) = Inr s \<and>
    stream_draw c s d 0 = Inr u \<and> 0 \<le> ud_unit_value u \<and> ud_unit_value u < 1"
proof -
  obtain d s where d: "decision_occurrence (sv_id (si_visit i)) dt 0 = Inr d"
    "random_stream (bp_seed (si_blueprint i)) (wi_team_id (si_work_item i)) (wi_run_id (si_work_item i)) = Inr s"
    "stream_draw c s d 0 = Inr u"
    using assms by (auto simp: authenticate_draw_def guardR_eq_Inr elim!: bindR_InrE)
  obtain n where "0 \<le> n" "n < 2 ^ 53" "ud_unit_value u = of_int n / 2 ^ 53" using stream_draw_Inr[OF d(3)] by blast
  then show ?thesis using d unit_range[of n] by auto
qed

lemma check_touch_bounds_Inr: "check_touch_bounds x = Inr b \<Longrightarrow> b = x \<and> to_minimum b \<le> to_maximum b"
  by (auto simp: check_touch_bounds_def elim!: bindR_InrE split: if_splits)

lemma sample_touch_Inr:
  "sample_touch b u = Inr s \<Longrightarrow> to_minimum b \<le> ds_sampled_hours s \<and> ds_sampled_hours s \<le> to_maximum b"
  by (auto simp: sample_touch_def check_duration_sample_def elim!: bindR_InrE split: if_splits)

lemma hours_to_microseconds_Inr:
  "hours_to_microseconds h = Inr n \<Longrightarrow> 0 \<le> h \<and> n = round_half_even (h * 3600000000) \<and> 0 \<le> n \<and> n \<le> MAX_SQLITE_INTEGER"
proof -
  assume a: "hours_to_microseconds h = Inr n"
  then have "0 \<le> h" by (auto simp: hours_to_microseconds_def require_finite_float_def split: if_splits)
  then show ?thesis using a hours_to_microseconds_exact
    by (auto simp: require_microseconds_def split: if_splits)
qed

text \<open>A created sample is what the blueprint and the seed determine: its draws are the stream's draws
  for the visit, its dwell hours lie in the segment of the cell's anchors that the draw selects, its
  touch hours lie between the cell's touch bounds, and the required work of the visit is the touch
  time in microseconds, rounded half to even without an intermediate float.\<close>

theorem created_sample_provenance:
  assumes "create_sample env i = Inr s"
  shows "\<exists>e a. timing_entry (si_blueprint i) (si_work_item i) (si_visit i) = Inr e \<and> dwell_anchors e = Inr a \<and>
    within_segment a (vs_dwell_unit_value s) (vs_dwell_sampled_hours s) \<and>
    te_touch_min e \<le> vs_touch_sampled_hours s \<and> vs_touch_sampled_hours s \<le> te_touch_max e \<and>
    vs_required s = sv_required (si_visit i) \<and>
    vs_required s = round_half_even (vs_touch_sampled_hours s * 3600000000) \<and>
    (\<exists>d st. decision_occurrence (sv_id (si_visit i)) STATUS_TOUCH 0 = Inr d \<and>
       random_stream (bp_seed (si_blueprint i)) (wi_team_id (si_work_item i)) (wi_run_id (si_work_item i)) = Inr st \<and>
       stream_draw (en_codec env) st d 0 = Inr (si_touch_draw i) \<and>
       vs_touch_unit_value s = ud_unit_value (si_touch_draw i))"
proof -
  have v: "status_sample_values env i = Inr s" using assms by (auto simp: create_sample_def elim!: bindR_InrE)
  have chk: "check_sample_input (en_codec env) i = Inr ()" by (rule status_sample_values_checked[OF v])
  then have auth: "authenticate_draw (en_codec env) i (si_dwell_draw i) STATUS_DWELL = Inr ()"
    "authenticate_draw (en_codec env) i (si_touch_draw i) STATUS_TOUCH = Inr ()"
    by (auto simp: check_sample_input_def bindR_check)
  obtain e a dw b t n where r: "timing_entry (si_blueprint i) (si_work_item i) (si_visit i) = Inr e"
    "dwell_anchors e = Inr a" "sample_dwell (en_log1p env) (en_expm1 env) a (ud_unit_value (si_dwell_draw i)) = Inr dw"
    "touch_bounds e = Inr b" "sample_touch b (ud_unit_value (si_touch_draw i)) = Inr t"
    "hours_to_microseconds (ds_sampled_hours t) = Inr n" "sv_required (si_visit i) = n"
    and s: "vs_dwell_unit_value s = ud_unit_value (si_dwell_draw i)" "vs_touch_unit_value s = ud_unit_value (si_touch_draw i)"
      "vs_dwell_sampled_hours s = ds_sampled_hours dw" "vs_touch_sampled_hours s = ds_sampled_hours t" "vs_required s = n"
    using v unfolding status_sample_values_def Let_def by (elim bindR_InrE) (auto split: if_splits)
  have u: "0 \<le> ud_unit_value (si_dwell_draw i)" "ud_unit_value (si_dwell_draw i) \<le> 1"
    using authenticate_draw_Inr[OF auth(1)] by auto
  obtain dw' where "sample_dwell (en_log1p env) (en_expm1 env) a (ud_unit_value (si_dwell_draw i)) = Inr dw'"
    "within_segment a (ud_unit_value (si_dwell_draw i)) (ds_sampled_hours dw')"
  proof -
    note an = check_dwell_anchors_Inr[OF r(2)[unfolded dwell_anchors_def]]
    obtain h where h: "dwell_hours (en_log1p env) (en_expm1 env) a (ud_unit_value (si_dwell_draw i)) = Inr h"
      "within_segment a (ud_unit_value (si_dwell_draw i)) h"
      using dwell_hours_spec an u by blast
    have "ds_sampled_hours dw = h"
      using r(3) h(1) by (auto simp: sample_dwell_def check_duration_sample_def unit_draw_def finite_non_negative_def
          elim!: bindR_InrE split: if_splits)
    then show ?thesis using that r(3) h(2) by blast
  qed
  then have seg: "within_segment a (vs_dwell_unit_value s) (vs_dwell_sampled_hours s)" using r(3) s by simp
  have "te_touch_min e \<le> vs_touch_sampled_hours s \<and> vs_touch_sampled_hours s \<le> te_touch_max e"
    using check_touch_bounds_Inr[OF r(4)[unfolded touch_bounds_def]] sample_touch_Inr[OF r(5)] s by auto
  moreover have "vs_required s = round_half_even (vs_touch_sampled_hours s * 3600000000)"
    using hours_to_microseconds_Inr[OF r(6)] s by simp
  ultimately show ?thesis using r(1,2,7) seg s(2,5) authenticate_draw_Inr[OF auth(2)] by blast
qed

section \<open>A sample\<close>

text \<open>The first visit of the first story of the sample team, with a codec that knows its documents.\<close>

definition demo_stream :: DeterministicRandomStream where
  "demo_stream = \<lparr>rs_root_seed = ''seed'', rs_team_id = 69, rs_run_id = 42\<rparr>"

definition demo_decision :: "DecisionType \<Rightarrow> DecisionOccurrence" where
  "demo_decision dt = \<lparr>do_entity_id = 44, do_decision_type = dt, do_occurrence = 0\<rparr>"

definition demo_draw :: "string \<Rightarrow> DecisionType \<Rightarrow> UniformDraw" where
  "demo_draw message dt = \<lparr>ud_algorithm = ALGORITHM_ID, ud_decision = demo_decision dt, ud_draw_index = 0,
     ud_canonical_message = message, ud_hmac_sha256 = hex_text 64 0, ud_u53_integer = 0, ud_unit_value = 0\<rparr>"

definition demo_documents :: "(string \<times> json) list" where
  "demo_documents =
     [(''{}'', JObj []),
      (''m1'', message_document demo_stream (demo_decision STATUS_DWELL) 0),
      (''m2'', message_document demo_stream (demo_decision STATUS_TOUCH) 0),
      (''d1'', draw_document (demo_draw ''m1'' STATUS_DWELL)),
      (''d2'', draw_document (demo_draw ''m2'' STATUS_TOUCH)),
      (''p1'', dwell_document sample_timing),
      (''p2'', touch_document sample_timing),
      (''x'', JNull)]"

definition demo_codec :: codec where
  "demo_codec = \<lparr>cd_encode = (\<lambda>j. case List.find (\<lambda>(s, d). d = j) demo_documents of Some (s, d) \<Rightarrow> s | None \<Rightarrow> ''x''),
     cd_decode = map_of demo_documents, cd_sha = (\<lambda>_. hex_text 64 0), cd_uuid5 = length, cd_hmac = (\<lambda>_ _. 0)\<rparr>"

definition demo_env :: scrum_env where
  "demo_env = \<lparr>en_codec = demo_codec, en_log1p = (\<lambda>x. x), en_expm1 = (\<lambda>x. x), en_date_text = (\<lambda>_. ''date''),
     en_instant_text = (\<lambda>_. ''instant''), en_zone = (\<lambda>_. Inr (fixed_zone 0))\<rparr>"

definition demo_work :: WorkItemState where
  "demo_work = \<lparr>wi_id = 59, wi_team_id = 69, wi_run_id = 42, wi_creation_kind = INITIAL_BACKLOG,
     wi_creation_sequence = 0, wi_issue_type = ''STORY'', wi_story_points = 3, wi_priority = PR_HIGH,
     wi_relative_rank = 0, wi_lifecycle = WI_ACTIVE, wi_current_status_key = ''DEV'', wi_created_at = 0,
     wi_updated_at = 0\<rparr>"

definition demo_visit :: StatusVisitState where
  "demo_visit = \<lparr>sv_id = 44, sv_team_id = 69, sv_run_id = 42, sv_work_item_id = 59, sv_ordinal = 0,
     sv_lifecycle = SV_OPEN, sv_status_key = ''DEV'', sv_activity_key = Some ''CODE'', sv_member_id = None,
     sv_entered_at = 637200000000, sv_closed_at = None, sv_required = 3600000000, sv_elapsed = 0,
     sv_remaining = 3600000000, sv_queue = 0, sv_pause = 0, sv_credited = 0\<rparr>"

definition demo_input :: StatusVisitSampleInput where
  "demo_input = \<lparr>si_blueprint = sample_blueprint, si_work_item = demo_work, si_visit = demo_visit,
     si_dwell_draw = demo_draw ''m1'' STATUS_DWELL, si_touch_draw = demo_draw ''m2'' STATUS_TOUCH\<rparr>"

lemma demo_distinct:
  "message_document demo_stream (demo_decision STATUS_DWELL) 0 \<noteq> message_document demo_stream (demo_decision STATUS_TOUCH) 0"
  "message_document demo_stream d i \<noteq> draw_document u" "draw_document u \<noteq> dwell_document e"
  "message_document demo_stream d i \<noteq> dwell_document e" "message_document demo_stream d i \<noteq> touch_document e"
  "draw_document u \<noteq> touch_document e" "dwell_document e \<noteq> touch_document e'"
  "draw_document (demo_draw ''m1'' STATUS_DWELL) \<noteq> draw_document (demo_draw ''m2'' STATUS_TOUCH)"
  "JObj [] \<noteq> message_document demo_stream d i" "JObj [] \<noteq> draw_document u"
  "JObj [] \<noteq> dwell_document e" "JObj [] \<noteq> touch_document e"
  by (simp_all add: message_document_def draw_document_def dwell_document_def touch_document_def demo_decision_def demo_draw_def)

lemmas demo_distinct' = demo_distinct demo_distinct[THEN not_sym]

lemma demo_encode:
  "cd_encode demo_codec (JObj []) = ''{}''"
  "cd_encode demo_codec (message_document demo_stream (demo_decision STATUS_DWELL) 0) = ''m1''"
  "cd_encode demo_codec (message_document demo_stream (demo_decision STATUS_TOUCH) 0) = ''m2''"
  "cd_encode demo_codec (draw_document (demo_draw ''m1'' STATUS_DWELL)) = ''d1''"
  "cd_encode demo_codec (draw_document (demo_draw ''m2'' STATUS_TOUCH)) = ''d2''"
  "cd_encode demo_codec (dwell_document sample_timing) = ''p1''"
  "cd_encode demo_codec (touch_document sample_timing) = ''p2''"
  by (simp_all add: demo_codec_def demo_documents_def demo_distinct')

lemma demo_decode:
  "cd_decode demo_codec ''{}'' = Some (JObj [])"
  "cd_decode demo_codec ''m1'' = Some (message_document demo_stream (demo_decision STATUS_DWELL) 0)"
  "cd_decode demo_codec ''m2'' = Some (message_document demo_stream (demo_decision STATUS_TOUCH) 0)"
  "cd_decode demo_codec ''d1'' = Some (draw_document (demo_draw ''m1'' STATUS_DWELL))"
  "cd_decode demo_codec ''d2'' = Some (draw_document (demo_draw ''m2'' STATUS_TOUCH))"
  "cd_decode demo_codec ''p1'' = Some (dwell_document sample_timing)"
  "cd_decode demo_codec ''p2'' = Some (touch_document sample_timing)"
  by (simp_all add: demo_codec_def demo_documents_def)

lemma demo_sha: "canonical_sha256 demo_codec j = hex_text 64 0" "cd_hmac demo_codec s m = 0" "cd_uuid5 demo_codec p = length p"
  by (simp_all add: canonical_sha256_def demo_codec_def)

lemma int_text_0: "int_text 0 = ''0''" and int_text_1: "int_text 1 = ''1''"
  by (simp_all add: int_text_def nat_text.simps digit_char_def char_of_def bit_0)

lemma safe_integer_0 [simp]: "safe_integer 0 l = Inr 0"
  by (simp add: safe_integer_def MAX_SAFE_INTEGER_def U53_DENOMINATOR_def)

lemma demo_ids:
  "item_rng_id demo_codec 69 INITIAL_BACKLOG 0 = Inr 59" "visit_rng_id demo_codec 59 0 = Inr 44"
  by (simp_all add: item_rng_id_def item_path_def visit_rng_id_def ordinal_uuid_def ordinal_path_def
      semantic_uuid_def demo_sha int_text_0)

lemma demo_draws:
  "stream_draw demo_codec demo_stream (demo_decision STATUS_DWELL) 0 = Inr (demo_draw ''m1'' STATUS_DWELL)"
  "stream_draw demo_codec demo_stream (demo_decision STATUS_TOUCH) 0 = Inr (demo_draw ''m2'' STATUS_TOUCH)"
proof -
  have z: "high_u53 0 = 0" "unit_of_u53 0 = 0" "digest_hex 0 = hex_text 64 0"
    by (simp_all add: high_u53_def unit_of_u53_def digest_hex_def)
  have o: "do_occurrence (demo_decision dt) = 0" for dt by (simp add: demo_decision_def)
  have m: "0 \<le> MAX_SAFE_INTEGER" by (simp add: MAX_SAFE_INTEGER_def U53_DENOMINATOR_def)
  show "stream_draw demo_codec demo_stream (demo_decision STATUS_DWELL) 0 = Inr (demo_draw ''m1'' STATUS_DWELL)"
    by (subst stream_draw_spec)
      (simp_all add: demo_encode demo_decode o m decision_message_def demo_sha z demo_draw_def)
  show "stream_draw demo_codec demo_stream (demo_decision STATUS_TOUCH) 0 = Inr (demo_draw ''m2'' STATUS_TOUCH)"
    by (subst stream_draw_spec)
      (simp_all add: demo_encode demo_decode o m decision_message_def demo_sha z demo_draw_def)
qed

lemma demo_checks:
  "check_work_item demo_codec demo_work = Inr ()" "check_visit demo_codec demo_visit = Inr ()"
  by (simp_all add: check_work_item_def demo_work_def demo_ids require_semantic_id_def check_classification_def
      ISSUE_TYPES_def STORY_POINTS_def require_text_def is_space_def check_visit_def demo_visit_def
      require_optional_text_def check_zero_touch_def check_visit_times_def check_visit_microseconds_def
      require_microseconds_def MAX_SQLITE_INTEGER_def)

lemma demo_entry: "timing_entry sample_blueprint demo_work demo_visit = Inr sample_timing"
  by (simp add: timing_entry_def sample_blueprint_def sample_timing_def timing_cell_def demo_work_def demo_visit_def)

lemma demo_links: "check_sample_links demo_codec demo_input = Inr ()"
proof -
  have "bp_canonical_document sample_blueprint = ''{}''" by (simp add: sample_blueprint_def)
  then have "blueprint_team demo_codec sample_blueprint = Inr 69"
    by (simp add: blueprint_team_def demo_decode team_rng_id_def demo_sha lower_hex_text semantic_uuid_def)
  then show ?thesis
    by (simp add: check_sample_links_def demo_input_def demo_entry Let_def) (simp add: demo_work_def demo_visit_def)
qed

lemma lower_hex_require: "lower_hex_64 s \<Longrightarrow> require_lower_hex_digest s l = Inr s"
proof -
  assume a: "lower_hex_64 s"
  then have n: "s \<noteq> []" and d: "\<forall>ch \<in> set s. hex_digit ch \<noteq> None" by (auto simp: lower_hex_64_def)
  have "\<not> is_space ch" if "hex_digit ch \<noteq> None" for ch
    using that by (auto simp: hex_digit_def is_space_def Let_def split: if_splits)
  then have "\<not> is_space (hd s)" "\<not> is_space (last s)" using n d by (metis list.set_sel(1), metis last_in_set)
  then show ?thesis using a n by (simp add: require_lower_hex_digest_def require_text_def)
qed

lemma demo_authentic:
  "authenticate_draw demo_codec demo_input (demo_draw ''m1'' STATUS_DWELL) STATUS_DWELL = Inr ()"
  "authenticate_draw demo_codec demo_input (demo_draw ''m2'' STATUS_TOUCH) STATUS_TOUCH = Inr ()"
proof -
  have r: "random_stream (bp_seed sample_blueprint) (wi_team_id demo_work) (wi_run_id demo_work) = Inr demo_stream"
    by (simp add: random_stream_def sample_blueprint_def demo_work_def demo_stream_def)
  have d: "decision_occurrence (sv_id demo_visit) dt 0 = Inr (demo_decision dt)" for dt
    by (simp add: decision_occurrence_def demo_visit_def demo_decision_def)
  have v: "hex_value (hex_text 64 0) = 0" by (rule hex_value_text) simp
  have c: "check_draw_scalars (demo_draw m dt) = Inr ()" for m dt
    by (simp add: check_draw_scalars_def demo_draw_def require_text_def ALGORITHM_ID_def is_space_def demo_decision_def
        check_draw_digest_def lower_hex_require lower_hex_text v require_fraction_def) (simp add: high_u53_def unit_of_u53_def)
  show "authenticate_draw demo_codec demo_input (demo_draw ''m1'' STATUS_DWELL) STATUS_DWELL = Inr ()"
    "authenticate_draw demo_codec demo_input (demo_draw ''m2'' STATUS_TOUCH) STATUS_TOUCH = Inr ()"
    by (simp_all add: authenticate_draw_def demo_input_def c d r demo_draws)
qed

lemma demo_input_ok: "check_sample_input demo_codec demo_input = Inr ()"
  using demo_checks demo_links demo_authentic by (simp add: check_sample_input_def) (simp add: demo_input_def)

definition demo_sample :: StatusVisitSample where
  "demo_sample = \<lparr>vs_visit_id = 44, vs_team_id = 69, vs_run_id = 42, vs_timing_profile = ''t'',
     vs_timing_profile_version = ''1'', vs_dwell_sampler_version = ''v1'',
     vs_touch_sampler_version = TOUCH_SAMPLER_VERSION,
     vs_dwell_parameters_json = ''p1'', vs_dwell_parameters_sha256 = hex_text 64 0,
     vs_touch_parameters_json = ''p2'', vs_touch_parameters_sha256 = hex_text 64 0,
     vs_dwell_draw_json = ''d1'', vs_dwell_draw_sha256 = hex_text 64 0,
     vs_touch_draw_json = ''d2'', vs_touch_draw_sha256 = hex_text 64 0,
     vs_dwell_unit_value = 0, vs_touch_unit_value = 0, vs_dwell_sampled_hours = 0, vs_touch_sampled_hours = 1,
     vs_required = 3600000000, vs_required_sha256 = hex_text 64 0\<rparr>"

lemma demo_anchors:
  "dwell_anchors sample_timing = Inr \<lparr>da_minimum = 0, da_p25 = 0, da_p50 = 0, da_p99 = 0, da_maximum = 0\<rparr>"
  "touch_bounds sample_timing = Inr \<lparr>to_minimum = 1, to_maximum = 1\<rparr>"
  by (simp_all add: dwell_anchors_def touch_bounds_def sample_timing_def check_dwell_anchors_def
      check_touch_bounds_def finite_non_negative_def anchor_values_def)

lemma demo_dwell: "sample_dwell l e \<lparr>da_minimum = 0, da_p25 = 0, da_p50 = 0, da_p99 = 0, da_maximum = 0\<rparr> 0 =
    Inr \<lparr>ds_parameters = \<lparr>da_minimum = 0, da_p25 = 0, da_p50 = 0, da_p99 = 0, da_maximum = 0\<rparr>,
         ds_unit_draw = 0, ds_sampled_hours = 0\<rparr>"
  by (simp add: sample_dwell_def unit_draw_def finite_non_negative_def dwell_hours_def DWELL_PROBABILITIES_def
      probability_index_def anchor_values_def check_duration_sample_def)

lemma demo_touch: "sample_touch \<lparr>to_minimum = 1, to_maximum = 1\<rparr> 0 =
    Inr \<lparr>ds_parameters = \<lparr>to_minimum = 1, to_maximum = 1\<rparr>, ds_unit_draw = 0, ds_sampled_hours = 1\<rparr>"
  by (simp add: sample_touch_def unit_draw_def finite_non_negative_def check_duration_sample_def touch_hours_def)

lemma demo_hours: "hours_to_microseconds 1 = Inr 3600000000"
  using hours_to_microseconds_exact[of 1] half_even_ratio[of 1 3600000000]
  by (simp add: require_microseconds_def MAX_SQLITE_INTEGER_def)

lemma demo_sel: "si_blueprint demo_input = sample_blueprint" "si_work_item demo_input = demo_work"
  "si_visit demo_input = demo_visit" "si_dwell_draw demo_input = demo_draw ''m1'' STATUS_DWELL"
  "si_touch_draw demo_input = demo_draw ''m2'' STATUS_TOUCH" "en_codec demo_env = demo_codec"
  by (simp_all add: demo_input_def demo_env_def)

lemma demo_values: "status_sample_values demo_env demo_input = Inr demo_sample"
proof -
  have u: "ud_unit_value (demo_draw m dt) = 0" for m dt by (simp add: demo_draw_def)
  have r: "sv_required demo_visit = 3600000000" "sv_id demo_visit = 44" "wi_team_id demo_work = 69" "wi_run_id demo_work = 42"
    "tm_profile_name (bp_timing sample_blueprint) = ''t''" "tm_profile_version (bp_timing sample_blueprint) = 1"
    "tm_algorithm_version (bp_timing sample_blueprint) = ''v1''"
    by (simp_all add: demo_visit_def demo_work_def sample_blueprint_def)
  show ?thesis
    by (simp add: status_sample_values_def demo_sel demo_input_ok demo_entry demo_anchors demo_dwell demo_touch demo_hours
        u r int_text_1 canonical_pair_def demo_sha demo_encode demo_sample_def)
qed

lemma demo_object:
  assumes "cd_decode demo_codec t = Some (JObj pairs)" "cd_encode demo_codec (JObj pairs) = t"
    "require_text t (l @ ''_json'') = Inr t"
  shows "canonical_object demo_codec t (hex_text 64 0) l = Inr (JObj pairs)"
  using assms by (simp add: canonical_object_def lower_hex_require lower_hex_text json_keys_def demo_sha)

lemma demo_parameters: "parameter_documents demo_codec demo_sample = Inr (dwell_document sample_timing, touch_document sample_timing)"
proof -
  have "canonical_object demo_codec ''p1'' (hex_text 64 0) l = Inr (dwell_document sample_timing)"
    "canonical_object demo_codec ''p2'' (hex_text 64 0) l = Inr (touch_document sample_timing)" for l
    using demo_decode(6,7) demo_encode(6,7) unfolding dwell_document_def touch_document_def
    by (intro demo_object; simp add: require_text_def is_space_def)+
  then show ?thesis
    by (simp add: parameter_documents_def demo_sample_def dwell_document_def touch_document_def json_keys_def)
      (simp add: insert_commute)
qed

lemma draw_fields:
  "json_keys (draw_document u) = Some DRAW_KEYS"
  "json_field (draw_document u) ''algorithm'' = Inr (JStr (ud_algorithm u))"
  "json_field (draw_document u) ''canonical_message'' = Inr (JStr (ud_canonical_message u))"
  "json_field (draw_document u) ''decision_type'' = Inr (JStr (decision_value (do_decision_type (ud_decision u))))"
  "json_field (draw_document u) ''draw_index'' = Inr (JInt (ud_draw_index u))"
  "json_field (draw_document u) ''entity_id'' = Inr (JStr (uuid_text (do_entity_id (ud_decision u))))"
  "json_field (draw_document u) ''hmac_sha256'' = Inr (JStr (ud_hmac_sha256 u))"
  "json_field (draw_document u) ''occurrence'' = Inr (JInt (do_occurrence (ud_decision u)))"
  "json_field (draw_document u) ''u53_integer'' = Inr (JInt (ud_u53_integer u))"
  "json_field (draw_document u) ''unit_value'' = Inr (JNum (ud_unit_value u))"
  by (auto simp: draw_document_def json_keys_def json_field_def DRAW_KEYS_def)

lemma message_fields:
  "json_keys (message_document s d i) = Some CANONICAL_DECISION_KEYS"
  "json_field (message_document s d i) ''algorithm'' = Inr (JStr ALGORITHM_ID)"
  "json_field (message_document s d i) ''team_id'' = Inr (JStr (uuid_text (rs_team_id s)))"
  "json_field (message_document s d i) ''run_id'' = Inr (JStr (uuid_text (rs_run_id s)))"
  "json_field (message_document s d i) ''entity_id'' = Inr (JStr (uuid_text (do_entity_id d)))"
  "json_field (message_document s d i) ''decision_type'' = Inr (JStr (decision_value (do_decision_type d)))"
  "json_field (message_document s d i) ''occurrence'' = Inr (JInt (do_occurrence d))"
  "json_field (message_document s d i) ''draw_index'' = Inr (JInt i)"
  by (auto simp: message_document_def json_keys_def json_field_def CANONICAL_DECISION_KEYS_def)

lemma demo_draw_object:
  "canonical_object demo_codec ''d1'' (hex_text 64 0) l = Inr (draw_document (demo_draw ''m1'' STATUS_DWELL))"
  "canonical_object demo_codec ''d2'' (hex_text 64 0) l = Inr (draw_document (demo_draw ''m2'' STATUS_TOUCH))"
  using demo_decode(4,5) demo_encode(4,5) unfolding draw_document_def
  by (intro demo_object; simp add: require_text_def is_space_def)+

lemma demo_inner:
  "inner_message demo_codec (draw_document (demo_draw ''m1'' STATUS_DWELL)) l =
     Inr (message_document demo_stream (demo_decision STATUS_DWELL) 0)"
  "inner_message demo_codec (draw_document (demo_draw ''m2'' STATUS_TOUCH)) l =
     Inr (message_document demo_stream (demo_decision STATUS_TOUCH) 0)"
proof -
  have "ud_canonical_message (demo_draw m dt) = m" for m dt by (simp add: demo_draw_def)
  then show "inner_message demo_codec (draw_document (demo_draw ''m1'' STATUS_DWELL)) l =
     Inr (message_document demo_stream (demo_decision STATUS_DWELL) 0)"
    "inner_message demo_codec (draw_document (demo_draw ''m2'' STATUS_TOUCH)) l =
     Inr (message_document demo_stream (demo_decision STATUS_TOUCH) 0)"
    by (simp_all add: inner_message_def draw_fields demo_decode demo_encode message_fields)
qed

lemma demo_draw_checked:
  "check_draw_document demo_codec ''d1'' (hex_text 64 0) l = Inr (draw_document (demo_draw ''m1'' STATUS_DWELL))"
  "check_draw_document demo_codec ''d2'' (hex_text 64 0) l = Inr (draw_document (demo_draw ''m2'' STATUS_TOUCH))"
proof -
  have v: "hex_value (hex_text 64 0) = 0" by (rule hex_value_text) simp
  have h: "lower_hex_64 (hex_text 64 0)" by (simp add: lower_hex_text)
  then have t: "require_text (hex_text 64 0) k = Inr (hex_text 64 0)" for k
    using lower_hex_require[OF h, of k] by (auto simp: require_lower_hex_digest_def elim!: bindR_InrE split: if_splits)
  have u: "ud_algorithm (demo_draw m dt) = ALGORITHM_ID" "ud_hmac_sha256 (demo_draw m dt) = hex_text 64 0"
    "ud_u53_integer (demo_draw m dt) = 0" "ud_unit_value (demo_draw m dt) = 0" for m dt by (simp_all add: demo_draw_def)
  show "check_draw_document demo_codec ''d1'' (hex_text 64 0) l = Inr (draw_document (demo_draw ''m1'' STATUS_DWELL))"
    "check_draw_document demo_codec ''d2'' (hex_text 64 0) l = Inr (draw_document (demo_draw ''m2'' STATUS_TOUCH))"
    by (simp_all add: check_draw_document_def demo_draw_object demo_inner draw_fields u text_field_def integer_field_def
        fraction_field_def require_fraction_def t h v) (simp_all add: high_u53_def unit_of_u53_def)
qed

lemma demo_coordinate:
  "check_draw_coordinate demo_codec demo_sample (draw_document (demo_draw ''m1'' STATUS_DWELL)) STATUS_DWELL = Inr ()"
  "check_draw_coordinate demo_codec demo_sample (draw_document (demo_draw ''m2'' STATUS_TOUCH)) STATUS_TOUCH = Inr ()"
proof -
  have t: "require_text ''STATUS_DWELL'' l = Inr ''STATUS_DWELL''" "require_text ''STATUS_TOUCH'' l = Inr ''STATUS_TOUCH''"
    "require_text ALGORITHM_ID l = Inr ALGORITHM_ID" for l
    by (simp_all add: require_text_def is_space_def ALGORITHM_ID_def)
  have u: "ud_decision (demo_draw m dt) = demo_decision dt" "ud_draw_index (demo_draw m dt) = 0" for m dt
    by (simp_all add: demo_draw_def)
  have d: "do_entity_id (demo_decision dt) = 44" "do_decision_type (demo_decision dt) = dt" "do_occurrence (demo_decision dt) = 0"
    "rs_team_id demo_stream = 69" "rs_run_id demo_stream = 42" for dt
    by (simp_all add: demo_decision_def demo_stream_def)
  have s: "vs_visit_id demo_sample = 44" "vs_team_id demo_sample = 69" "vs_run_id demo_sample = 42"
    by (simp_all add: demo_sample_def)
  show "check_draw_coordinate demo_codec demo_sample (draw_document (demo_draw ''m1'' STATUS_DWELL)) STATUS_DWELL = Inr ()"
    "check_draw_coordinate demo_codec demo_sample (draw_document (demo_draw ''m2'' STATUS_TOUCH)) STATUS_TOUCH = Inr ()"
    by (simp_all add: check_draw_coordinate_def demo_inner outer_draw_coordinate_def draw_coordinate_def identifier_field_def
        text_field_def integer_field_def draw_fields message_fields canonical_uuid_text_text u d s t message_draw_coordinate_def)
qed

lemma demo_documents_checked: "check_sample_documents demo_env demo_sample = Inr ()"
proof -
  have a: "anchors_of (dwell_document sample_timing) =
      Inr \<lparr>da_minimum = 0, da_p25 = 0, da_p50 = 0, da_p99 = 0, da_maximum = 0\<rparr>"
    "bounds_of (touch_document sample_timing) = Inr \<lparr>to_minimum = 1, to_maximum = 1\<rparr>"
    by (simp_all add: anchors_of_def bounds_of_def json_number_def json_field_def dwell_document_def touch_document_def
        sample_timing_def check_dwell_anchors_def check_touch_bounds_def finite_non_negative_def anchor_values_def)
  have s: "vs_dwell_draw_json demo_sample = ''d1''" "vs_touch_draw_json demo_sample = ''d2''"
    "vs_dwell_draw_sha256 demo_sample = hex_text 64 0" "vs_touch_draw_sha256 demo_sample = hex_text 64 0"
    "vs_dwell_unit_value demo_sample = 0" "vs_touch_unit_value demo_sample = 0"
    "vs_dwell_sampled_hours demo_sample = 0" "vs_touch_sampled_hours demo_sample = 1"
    by (simp_all add: demo_sample_def)
  have u: "ud_unit_value (demo_draw m dt) = 0" for m dt by (simp add: demo_draw_def)
  show ?thesis
    by (simp add: check_sample_documents_def demo_sel demo_parameters s demo_draw_checked demo_coordinate draw_fields u a
        demo_dwell demo_touch require_fraction_def require_finite_float_def)
qed

lemma demo_sample_created: "create_sample demo_env demo_input = Inr demo_sample"
proof -
  have "check_required_work demo_codec demo_sample = Inr ()"
    using lower_hex_require[of "hex_text 64 0"]
    by (simp add: check_required_work_def demo_sample_def demo_hours require_microseconds_def MAX_SQLITE_INTEGER_def
        lower_hex_text demo_sha)
  then have "check_sample demo_env demo_sample = Inr ()"
    by (simp add: check_sample_def demo_documents_checked demo_sel)
      (simp add: demo_sample_def require_text_def is_space_def TOUCH_SAMPLER_VERSION_def)
  then show ?thesis by (simp add: create_sample_def demo_values demo_input_ok demo_sel)
qed

theorem created_sample_provenance_witness:
  "vs_required demo_sample = round_half_even (vs_touch_sampled_hours demo_sample * 3600000000)"
  using created_sample_provenance[OF demo_sample_created] by blast

end
