(* ===== verification/Scrum_Collections.thy ===== *)
theory Scrum_Collections
  imports Status_Sample
begin

text \<open>
  Whole Scrum states (\<open>v2/domain/scrum_state.py\<close>): the eleven collections that write sets and
  snapshots share, the checks of \<open>_ScrumCollections.validate\<close> and of \<open>ScrumStateSnapshot.validate\<close>
  (unique identities, partial uniqueness, one team and run, references, sample cardinality), and the
  comparison of a state with the persisted blueprint, which authenticates every sample.
\<close>

section \<open>Collections\<close>

record ScrumCollections =
  st_member_identities :: "MemberIdentity list"
  st_overlays :: "MemberAvailabilityOverlay list"
  st_consumption :: "MemberBusinessDateConsumption list"
  st_work_items :: "WorkItemState list"
  st_factors :: "WorkItemFactor list"
  st_sprints :: "SprintState list"
  st_scope :: "SprintScopeEntry list"
  st_visits :: "StatusVisitState list"
  st_samples :: "StatusVisitSample list"
  st_counters :: "SemanticCounter list"
  st_evaluations :: "NaturalDecisionEvaluation list"

text \<open>Both classes hold these collections; they differ in what \<open>validate\<close> checks.\<close>

type_synonym ScrumStateWriteSet = ScrumCollections
type_synonym ScrumStateSnapshot = ScrumCollections

definition empty_state :: ScrumCollections where
  "empty_state = \<lparr>st_member_identities = [], st_overlays = [], st_consumption = [], st_work_items = [],
     st_factors = [], st_sprints = [], st_scope = [], st_visits = [], st_samples = [], st_counters = [],
     st_evaluations = []\<rparr>"

text \<open>Every record of every collection passes its own \<open>validate\<close>, collection by collection.\<close>

definition validate_collections :: "scrum_env \<Rightarrow> ScrumCollections \<Rightarrow> unit res" where
  "validate_collections env st =
     (let c = en_codec env in
      bindR (forR (check_member_identity c) (st_member_identities st)) (\<lambda>_.
      bindR (forR (check_overlay c) (st_overlays st)) (\<lambda>_.
      bindR (forR check_consumption (st_consumption st)) (\<lambda>_.
      bindR (forR (check_work_item c) (st_work_items st)) (\<lambda>_.
      bindR (forR (check_factor c) (st_factors st)) (\<lambda>_.
      bindR (forR (check_sprint c) (st_sprints st)) (\<lambda>_.
      bindR (forR (check_scope_entry c) (st_scope st)) (\<lambda>_.
      bindR (forR (check_visit c) (st_visits st)) (\<lambda>_.
      bindR (forR (check_sample env) (st_samples st)) (\<lambda>_.
      bindR (forR check_counter (st_counters st)) (\<lambda>_.
        forR (check_evaluation c (en_date_text env)) (st_evaluations st))))))))))))"

section \<open>Identities\<close>

definition counter_identity :: "SemanticCounter \<Rightarrow> uuid \<times> uuid \<times> SemanticCounterScope" where
  "counter_identity k = (sn_team_id k, sn_run_id k, sn_scope k)"

definition consumption_identity :: "MemberBusinessDateConsumption \<Rightarrow> uuid \<times> uuid \<times> uuid \<times> int" where
  "consumption_identity k = (mc_team_id k, mc_run_id k, mc_member_id k, mc_business_date k)"

definition unique_identities :: "ScrumCollections \<Rightarrow> bool" where
  "unique_identities st \<longleftrightarrow>
     distinct (map mi_id (st_member_identities st)) \<and> distinct (map ov_id (st_overlays st)) \<and>
     distinct (map consumption_identity (st_consumption st)) \<and> distinct (map wi_id (st_work_items st)) \<and>
     distinct (map fa_id (st_factors st)) \<and> distinct (map ss_id (st_sprints st)) \<and>
     distinct (map sc_id (st_scope st)) \<and> distinct (map sv_id (st_visits st)) \<and>
     distinct (map vs_visit_id (st_samples st)) \<and> distinct (map counter_identity (st_counters st)) \<and>
     distinct (map ne_id (st_evaluations st))"

definition validate_uniqueness :: "ScrumCollections \<Rightarrow> unit res" where
  "validate_uniqueness st =
     guardR (unique_identities st) (Value_Error ''Scrum state collections must not contain duplicate identities'')"

definition require_unique_coordinates :: "'a list \<Rightarrow> ('a \<Rightarrow> 'k) \<Rightarrow> string \<Rightarrow> unit res" where
  "require_unique_coordinates records coordinate label =
     guardR (distinct (map coordinate records)) (Value_Error (''Scrum state must contain at most one '' @ label))"

definition validate_partial_uniqueness :: "ScrumCollections \<Rightarrow> unit res" where
  "validate_partial_uniqueness st =
     bindR (require_unique_coordinates (filter (\<lambda>s. ss_lifecycle s = SP_ACTIVE) (st_sprints st))
              (\<lambda>s. (ss_team_id s, ss_run_id s)) ''active sprint'') (\<lambda>_.
     bindR (require_unique_coordinates (filter (\<lambda>e. sc_removed_at e = None) (st_scope st))
              (\<lambda>e. (sc_team_id e, sc_run_id e, sc_work_item_id e)) ''current sprint scope'') (\<lambda>_.
     bindR (require_unique_coordinates (filter (\<lambda>v. sv_lifecycle v = SV_OPEN) (st_visits st))
              (\<lambda>v. (sv_team_id v, sv_run_id v, sv_work_item_id v)) ''open status visit'') (\<lambda>_.
       require_unique_coordinates (st_evaluations st)
         (\<lambda>e. (ne_team_id e, ne_run_id e, ne_decision_type e, ne_semantic_entity_id e, ne_occurrence e))
         ''natural evaluation occurrence'')))"

section \<open>One team and run\<close>

definition state_runs :: "ScrumCollections \<Rightarrow> uuid list" where
  "state_runs st =
     map ov_run_id (st_overlays st) @ map mc_run_id (st_consumption st) @ map wi_run_id (st_work_items st) @
     map fa_run_id (st_factors st) @ map ss_run_id (st_sprints st) @ map sc_run_id (st_scope st) @
     map sv_run_id (st_visits st) @ map vs_run_id (st_samples st) @ map sn_run_id (st_counters st) @
     map ne_run_id (st_evaluations st)"

definition state_teams :: "ScrumCollections \<Rightarrow> uuid list" where
  "state_teams st =
     map mi_team_id (st_member_identities st) @
     map ov_team_id (st_overlays st) @ map mc_team_id (st_consumption st) @ map wi_team_id (st_work_items st) @
     map fa_team_id (st_factors st) @ map ss_team_id (st_sprints st) @ map sc_team_id (st_scope st) @
     map sv_team_id (st_visits st) @ map vs_team_id (st_samples st) @ map sn_team_id (st_counters st) @
     map ne_team_id (st_evaluations st)"

definition validate_one_team_run :: "ScrumCollections \<Rightarrow> unit res" where
  "validate_one_team_run st =
     guardR (\<not> (1 < card (set (state_teams st)) \<or> 1 < card (set (state_runs st))))
       (Value_Error ''Scrum state collections must use one team/run'')"

section \<open>Open visits and samples\<close>

definition validate_open_visit_status :: "ScrumCollections \<Rightarrow> unit res" where
  "validate_open_visit_status st =
     (let work_items = dict_of wi_id (st_work_items st) in
      forR (\<lambda>v. case map_of work_items (sv_work_item_id v) of
                  None \<Rightarrow> Inr ()
                | Some work \<Rightarrow>
                    guardR (\<not> (sv_lifecycle v = SV_OPEN \<and> sv_status_key v \<noteq> wi_current_status_key work))
                      (Value_Error ''open visit status must match current work status''))
        (st_visits st))"

definition validate_sample_links :: "StatusVisitState list \<Rightarrow> StatusVisitSample list \<Rightarrow> unit res" where
  "validate_sample_links visits samples =
     (let by_id = dict_of sv_id visits in
      forR (\<lambda>s. case map_of by_id (vs_visit_id s) of
                  None \<Rightarrow> Inr ()
                | Some v \<Rightarrow>
                    bindR (guardR ((vs_team_id s, vs_run_id s) = (sv_team_id v, sv_run_id v))
                             (Value_Error ''status sample team/run must match its visit'')) (\<lambda>_.
                      guardR (vs_required s = sv_required v)
                        (Value_Error ''status sample must match visit required work'')))
        samples)"

definition validate_state :: "scrum_env \<Rightarrow> ScrumCollections \<Rightarrow> unit res" where
  "validate_state env st =
     bindR (validate_collections env st) (\<lambda>_.
     bindR (validate_uniqueness st) (\<lambda>_.
     bindR (validate_partial_uniqueness st) (\<lambda>_.
     bindR (validate_one_team_run st) (\<lambda>_.
     bindR (validate_open_visit_status st) (\<lambda>_.
       validate_sample_links (st_visits st) (st_samples st))))))"

text \<open>The constructor of a write set.\<close>

definition write_set :: "scrum_env \<Rightarrow> ScrumCollections \<Rightarrow> ScrumStateWriteSet res" where
  "write_set env st = bindR (validate_state env st) (\<lambda>_. Inr st)"

section \<open>References\<close>

definition require_reference :: "uuid \<Rightarrow> (uuid, 'a) dict \<Rightarrow> string \<Rightarrow> unit res" where
  "require_reference i owners label =
     guardR (map_of owners i \<noteq> None) (Value_Error (label @ '' must reference a state owner''))"

definition validate_member_references :: "ScrumCollections \<Rightarrow> unit res" where
  "validate_member_references st =
     (let members = dict_of mi_id (st_member_identities st) in
      bindR (forR (\<lambda>m. require_reference m members ''member child'')
               (map ov_member_id (st_overlays st) @ map mc_member_id (st_consumption st))) (\<lambda>_.
        forR (\<lambda>v. case sv_member_id v of
                    None \<Rightarrow> Inr () | Some m \<Rightarrow> require_reference m members ''visit member'') (st_visits st)))"

definition validate_work_references :: "ScrumCollections \<Rightarrow> unit res" where
  "validate_work_references st =
     (let work_items = dict_of wi_id (st_work_items st);
          sprints = dict_of ss_id (st_sprints st);
          visits = dict_of sv_id (st_visits st)
      in
      bindR (forR (\<lambda>f. require_reference (fa_work_item_id f) work_items ''factor work item'') (st_factors st)) (\<lambda>_.
      bindR (forR (\<lambda>e. bindR (require_reference (sc_work_item_id e) work_items ''scope work item'') (\<lambda>_.
                         require_reference (sc_sprint_id e) sprints ''scope sprint'')) (st_scope st)) (\<lambda>_.
      bindR (forR (\<lambda>v. require_reference (sv_work_item_id v) work_items ''visit work item'') (st_visits st)) (\<lambda>_.
        forR (\<lambda>s. require_reference (vs_visit_id s) visits ''sample visit'') (st_samples st)))))"

definition validate_natural_owner :: "string \<Rightarrow> uuid \<Rightarrow> uuid set \<Rightarrow> uuid set \<Rightarrow> unit res" where
  "validate_natural_owner key owner work_ids member_ids =
     (case filter (\<lambda>d. decision_value d = key) ALL_DECISIONS of
        [] \<Rightarrow> Inl (Value_Error (key @ '' is not a valid DecisionType''))
      | decision # _ \<Rightarrow>
          let owners = (if decision = RISK_MEMBER_UNAVAILABLE_OUTCOME then member_ids else work_ids)
          in guardR (decision \<in> NATURAL_OWNER_DECISIONS \<and> owner \<in> owners)
               (Value_Error ''natural decision must reference its supported state owner''))"

definition validate_counter_references :: "ScrumCollections \<Rightarrow> unit res" where
  "validate_counter_references st =
     (let work_ids = set (map wi_id (st_work_items st)); member_ids = set (map mi_id (st_member_identities st)) in
      bindR (forR (\<lambda>k. let scope = sn_scope k in
                bindR (guardR (\<not> (cs_kind scope = VISIT_ORDINAL \<and> cs_scope_id scope \<notin> work_ids))
                         (Value_Error ''visit ordinal counter must reference a work item'')) (\<lambda>_.
                  if cs_kind scope = NATURAL_DECISION_OCCURRENCE
                  then validate_natural_owner (cs_scope_key scope) (cs_scope_id scope) work_ids member_ids
                  else Inr ())) (st_counters st)) (\<lambda>_.
        forR (\<lambda>e. validate_natural_owner (decision_value (ne_decision_type e)) (ne_semantic_entity_id e)
                    work_ids member_ids) (st_evaluations st)))"

definition validate_sample_cardinality :: "ScrumCollections \<Rightarrow> unit res" where
  "validate_sample_cardinality st =
     guardR (set (map sv_id (st_visits st)) = set (map vs_visit_id (st_samples st)))
       (Value_Error ''complete Scrum state requires exactly one sample per visit'')"

definition validate_snapshot :: "scrum_env \<Rightarrow> ScrumCollections \<Rightarrow> unit res" where
  "validate_snapshot env st =
     bindR (validate_state env st) (\<lambda>_.
     bindR (validate_member_references st) (\<lambda>_.
     bindR (validate_work_references st) (\<lambda>_.
     bindR (validate_counter_references st) (\<lambda>_.
     bindR (validate_open_visit_status st) (\<lambda>_. validate_sample_cardinality st)))))"

definition snapshot :: "scrum_env \<Rightarrow> ScrumCollections \<Rightarrow> ScrumStateSnapshot res" where
  "snapshot env st = bindR (validate_snapshot env st) (\<lambda>_. Inr st)"

definition from_write_set :: "scrum_env \<Rightarrow> ScrumStateWriteSet \<Rightarrow> ScrumStateSnapshot res" where
  "from_write_set env st = bindR (validate_state env st) (\<lambda>_. snapshot env st)"

section \<open>A state against its blueprint\<close>

definition validate_blueprint_team :: "codec \<Rightarrow> ScrumCollections \<Rightarrow> ResolvedTeamBlueprint \<Rightarrow> unit res" where
  "validate_blueprint_team c st b =
     bindR (blueprint_team c b) (\<lambda>expected.
       guardR (\<not> (set (state_teams st) \<noteq> {} \<and> set (state_teams st) \<noteq> {expected}))
         (Value_Error ''Scrum state team must match the persisted blueprint''))"

definition validate_blueprint_members :: "ScrumCollections \<Rightarrow> ResolvedTeamBlueprint \<Rightarrow> unit res" where
  "validate_blueprint_members st b =
     forR (\<lambda>m. guardR (\<not> int (length (bp_members b)) \<le> mi_blueprint_index m)
                 (Value_Error ''member blueprint_index is outside the persisted blueprint'')) (st_member_identities st)"

definition route_for :: "ResolvedTeamBlueprint \<Rightarrow> string \<Rightarrow> WorkflowRoute res" where
  "route_for b issue_type =
     (case filter (\<lambda>r. ro_issue_type r = issue_type) (wf_routes (bp_workflow b)) of
        [route] \<Rightarrow> Inr route
      | _ \<Rightarrow> Inl (Value_Error ''work item issue type must have one blueprint route''))"

definition validate_blueprint_work :: "ScrumCollections \<Rightarrow> ResolvedTeamBlueprint \<Rightarrow> unit res" where
  "validate_blueprint_work st b =
     forR (\<lambda>w. bindR (route_for b (wi_issue_type w)) (\<lambda>route.
                 guardR (wi_current_status_key w \<in> set (map rp_status_key (ro_steps route)))
                   (Value_Error ''work current status must belong to its blueprint route''))) (st_work_items st)"

definition status_for :: "ResolvedTeamBlueprint \<Rightarrow> string \<Rightarrow> WorkflowStatus res" where
  "status_for b key =
     (case filter (\<lambda>s. ws_key s = key) (wf_statuses (bp_workflow b)) of
        [status] \<Rightarrow> Inr status
      | _ \<Rightarrow> Inl (Value_Error ''visit status must exist in the persisted blueprint''))"

text \<open>Indexing a tuple, as Python does it: a negative index counts from the end.\<close>

definition py_index :: "'a list \<Rightarrow> int \<Rightarrow> 'a res" where
  "py_index xs i =
     (if 0 \<le> i \<and> i < int (length xs) then Inr (xs ! nat i)
      else if - int (length xs) \<le> i \<and> i < 0 then Inr (xs ! nat (int (length xs) + i))
      else Inl Index_Error)"

definition validate_member_activity ::
  "StatusVisitState \<Rightarrow> (uuid, MemberIdentity) dict \<Rightarrow> ResolvedTeamBlueprint \<Rightarrow> unit res" where
  "validate_member_activity v identities b =
     (case sv_member_id v of
        None \<Rightarrow> Inr ()
      | Some m \<Rightarrow>
          bindR (dict_get identities m) (\<lambda>identity.
          bindR (py_index (bp_members b) (mi_blueprint_index identity)) (\<lambda>member.
            guardR (sv_activity_key v \<in> Some ` set (map rs_activity (mb_responsibilities member)))
              (Value_Error ''visit member must own the blueprint activity''))))"

definition validate_blueprint_visit ::
  "(uuid, WorkItemState) dict \<Rightarrow> (uuid, MemberIdentity) dict \<Rightarrow> ResolvedTeamBlueprint \<Rightarrow> StatusVisitState \<Rightarrow> unit res" where
  "validate_blueprint_visit work_items identities b v =
     bindR (dict_get work_items (sv_work_item_id v)) (\<lambda>work.
     bindR (route_for b (wi_issue_type work)) (\<lambda>route.
     bindR (status_for b (sv_status_key v)) (\<lambda>status.
     bindR (guardR (\<exists>p \<in> set (ro_steps route).
                      (rp_status_key p, rp_required_activity p) = (sv_status_key v, sv_activity_key v))
              (Value_Error ''visit activity must match the blueprint route step'')) (\<lambda>_.
       case sv_activity_key v of
         None \<Rightarrow> guardR (sv_member_id v = None) (Value_Error ''zero-touch visit must not have a member owner'')
       | Some activity \<Rightarrow>
           bindR (guardR (activity \<in> set (ws_activities status))
                    (Value_Error ''visit activity must belong to the blueprint status'')) (\<lambda>_.
             validate_member_activity v identities b)))))"

definition validate_blueprint_visits :: "ScrumCollections \<Rightarrow> ResolvedTeamBlueprint \<Rightarrow> unit res" where
  "validate_blueprint_visits st b =
     (let work_items = dict_of wi_id (st_work_items st); identities = dict_of mi_id (st_member_identities st)
      in forR (validate_blueprint_visit work_items identities b) (st_visits st))"

definition authenticated_sample_input ::
  "codec \<Rightarrow> ResolvedTeamBlueprint \<Rightarrow> WorkItemState \<Rightarrow> StatusVisitState \<Rightarrow> StatusVisitSampleInput res" where
  "authenticated_sample_input c b w v =
     bindR (random_stream (bp_seed b) (wi_team_id w) (wi_run_id w)) (\<lambda>stream.
     bindR (decision_occurrence (sv_id v) STATUS_DWELL 0) (\<lambda>d1.
     bindR (stream_draw c stream d1 0) (\<lambda>dwell.
     bindR (decision_occurrence (sv_id v) STATUS_TOUCH 0) (\<lambda>d2.
     bindR (stream_draw c stream d2 0) (\<lambda>touch.
       Inr \<lparr>si_blueprint = b, si_work_item = w, si_visit = v, si_dwell_draw = dwell, si_touch_draw = touch\<rparr>)))))"

definition authenticate_samples :: "scrum_env \<Rightarrow> ScrumCollections \<Rightarrow> ResolvedTeamBlueprint \<Rightarrow> unit res" where
  "authenticate_samples env st b =
     (let work_items = dict_of wi_id (st_work_items st); visits = dict_of sv_id (st_visits st) in
      forR (\<lambda>s. bindR (dict_get visits (vs_visit_id s)) (\<lambda>v.
                bindR (dict_get work_items (sv_work_item_id v)) (\<lambda>w.
                bindR (authenticated_sample_input (en_codec env) b w v) (authenticate_sample env s))))
        (st_samples st))"

definition validate_against :: "scrum_env \<Rightarrow> ScrumCollections \<Rightarrow> ResolvedTeamBlueprint \<Rightarrow> unit res" where
  "validate_against env st b =
     bindR (validate_blueprint_team (en_codec env) st b) (\<lambda>_.
     bindR (validate_blueprint_members st b) (\<lambda>_.
     bindR (validate_blueprint_work st b) (\<lambda>_.
     bindR (validate_blueprint_visits st b) (\<lambda>_. authenticate_samples env st b))))"

section \<open>What a valid snapshot guarantees\<close>

lemma validate_state_parts:
  assumes "validate_state env st = Inr ()"
  shows "validate_collections env st = Inr ()" "unique_identities st" "validate_partial_uniqueness st = Inr ()"
    "card (set (state_teams st)) \<le> 1" "card (set (state_runs st)) \<le> 1" "validate_open_visit_status st = Inr ()"
    "validate_sample_links (st_visits st) (st_samples st) = Inr ()"
  using assms
  by (auto simp: validate_state_def validate_uniqueness_def validate_one_team_run_def bindR_check guardR_eq_Inr)

lemma validate_snapshot_parts:
  assumes "validate_snapshot env st = Inr ()"
  shows "validate_state env st = Inr ()" "validate_member_references st = Inr ()"
    "validate_work_references st = Inr ()" "validate_counter_references st = Inr ()"
    "sv_id ` set (st_visits st) = vs_visit_id ` set (st_samples st)"
  using assms by (auto simp: validate_snapshot_def validate_sample_cardinality_def bindR_check guardR_eq_Inr)

lemma collections_checked:
  assumes "validate_collections env st = Inr ()"
  shows "\<And>v. v \<in> set (st_visits st) \<Longrightarrow> check_visit (en_codec env) v = Inr ()"
    "\<And>w. w \<in> set (st_work_items st) \<Longrightarrow> check_work_item (en_codec env) w = Inr ()"
    "\<And>s. s \<in> set (st_samples st) \<Longrightarrow> check_sample env s = Inr ()"
    "\<And>m. m \<in> set (st_member_identities st) \<Longrightarrow> check_member_identity (en_codec env) m = Inr ()"
    "\<And>k. k \<in> set (st_consumption st) \<Longrightarrow> check_consumption k = Inr ()"
    "\<And>v. v \<in> set (st_overlays st) \<Longrightarrow> check_overlay (en_codec env) v = Inr ()"
    "\<And>s. s \<in> set (st_sprints st) \<Longrightarrow> check_sprint (en_codec env) s = Inr ()"
  using assms unfolding validate_collections_def Let_def bindR_check forR_eq_Inr by blast+

lemma same_team_run:
  assumes "card (set (xs :: uuid list)) \<le> 1" "a \<in> set xs" "b \<in> set xs"
  shows "a = b"
  using assms by (metis One_nat_def card_le_Suc0_iff_eq List.finite_set)

lemma same_visit_run:
  assumes "validate_state env st = Inr ()" "v \<in> set (st_visits st)" "v' \<in> set (st_visits st)"
  shows "sv_team_id v = sv_team_id v'" "sv_run_id v = sv_run_id v'"
proof -
  have "set (map sv_team_id (st_visits st)) \<subseteq> set (state_teams st)" "set (map sv_run_id (st_visits st)) \<subseteq> set (state_runs st)"
    by (simp_all only: state_teams_def state_runs_def set_append) blast+
  then have "sv_team_id v \<in> set (state_teams st)" "sv_team_id v' \<in> set (state_teams st)"
    "sv_run_id v \<in> set (state_runs st)" "sv_run_id v' \<in> set (state_runs st)" using assms(2,3) by auto
  then show "sv_team_id v = sv_team_id v'" "sv_run_id v = sv_run_id v'"
    using same_team_run validate_state_parts(4,5)[OF assms(1)] by blast+
qed

lemma open_visit_unique:
  assumes "validate_state env st = Inr ()" "v \<in> set (st_visits st)" "v' \<in> set (st_visits st)"
    "sv_lifecycle v = SV_OPEN" "sv_lifecycle v' = SV_OPEN" "sv_work_item_id v = sv_work_item_id v'"
  shows "v = v'"
proof -
  have "distinct (map (\<lambda>v. (sv_team_id v, sv_run_id v, sv_work_item_id v))
      (filter (\<lambda>v. sv_lifecycle v = SV_OPEN) (st_visits st)))"
    using validate_state_parts(3)[OF assms(1)]
    by (simp add: validate_partial_uniqueness_def require_unique_coordinates_def bindR_check guardR_eq_Inr)
  from distinct_map_eq[OF this] show ?thesis using assms(2-) same_visit_run[OF assms(1-3)] by simp
qed

lemma active_sprint_unique:
  assumes "validate_state env st = Inr ()" "s \<in> set (st_sprints st)" "s' \<in> set (st_sprints st)"
    "ss_lifecycle s = SP_ACTIVE" "ss_lifecycle s' = SP_ACTIVE"
  shows "s = s'"
proof -
  have "distinct (map (\<lambda>s. (ss_team_id s, ss_run_id s)) (filter (\<lambda>s. ss_lifecycle s = SP_ACTIVE) (st_sprints st)))"
    using validate_state_parts(3)[OF assms(1)]
    by (simp add: validate_partial_uniqueness_def require_unique_coordinates_def bindR_check guardR_eq_Inr)
  note d = distinct_map_eq[OF this]
  have "set (map ss_team_id (st_sprints st)) \<subseteq> set (state_teams st)" "set (map ss_run_id (st_sprints st)) \<subseteq> set (state_runs st)"
    by (simp_all only: state_teams_def state_runs_def set_append) blast+
  then have "ss_team_id s \<in> set (state_teams st)" "ss_team_id s' \<in> set (state_teams st)"
    "ss_run_id s \<in> set (state_runs st)" "ss_run_id s' \<in> set (state_runs st)" using assms(2,3) by auto
  then have "ss_team_id s = ss_team_id s'" "ss_run_id s = ss_run_id s'"
    using same_team_run validate_state_parts(4,5)[OF assms(1)] by blast+
  then show ?thesis using d assms(2-) by simp
qed

lemma visit_work:
  assumes "validate_snapshot env st = Inr ()" "v \<in> set (st_visits st)"
  shows "\<exists>w. map_of (dict_of wi_id (st_work_items st)) (sv_work_item_id v) = Some w \<and> w \<in> set (st_work_items st) \<and>
    wi_id w = sv_work_item_id v \<and> (sv_lifecycle v = SV_OPEN \<longrightarrow> wi_current_status_key w = sv_status_key v)"
proof -
  note p = validate_snapshot_parts[OF assms(1)]
  have "map_of (dict_of wi_id (st_work_items st)) (sv_work_item_id v) \<noteq> None"
    using p(3) assms(2) by (simp add: validate_work_references_def require_reference_def Let_def bindR_check forR_eq_Inr guardR_eq_Inr)
  then obtain w where w: "map_of (dict_of wi_id (st_work_items st)) (sv_work_item_id v) = Some w" by blast
  have "\<forall>v \<in> set (st_visits st).
      (case map_of (dict_of wi_id (st_work_items st)) (sv_work_item_id v) of None \<Rightarrow> Inr ()
       | Some work \<Rightarrow> guardR (\<not> (sv_lifecycle v = SV_OPEN \<and> sv_status_key v \<noteq> wi_current_status_key work))
           (Value_Error ''open visit status must match current work status'')) = Inr ()"
    using validate_state_parts(6)[OF p(1)] by (simp only: validate_open_visit_status_def Let_def forR_eq_Inr)
  from bspec[OF this assms(2)] show ?thesis using set_dict_of[OF w] w by (auto simp: guardR_eq_Inr)
qed

lemma visit_sample_required:
  assumes "validate_snapshot env st = Inr ()" "v \<in> set (st_visits st)"
    "s \<in> set (st_samples st)" "vs_visit_id s = sv_id v"
  shows "vs_required s = sv_required v"
proof -
  note p = validate_snapshot_parts[OF assms(1)]
  have u: "distinct (map sv_id (st_visits st))"
    using validate_state_parts(2)[OF p(1)] by (simp add: unique_identities_def)
  have "map_of (dict_of sv_id (st_visits st)) (sv_id v) = Some v" using dict_of_distinct[OF u] assms(2) by simp
  then show ?thesis
    using validate_state_parts(7)[OF p(1)] assms(3,4)
    by (auto simp: validate_sample_links_def Let_def bindR_check forR_eq_Inr guardR_eq_Inr dest!: bspec[OF _ assms(3)])
qed

lemma visit_sample:
  assumes "validate_snapshot env st = Inr ()" "v \<in> set (st_visits st)"
  shows "\<exists>!s. s \<in> set (st_samples st) \<and> vs_visit_id s = sv_id v"
proof -
  note p = validate_snapshot_parts[OF assms(1)]
  have u: "distinct (map vs_visit_id (st_samples st))"
    using validate_state_parts(2)[OF p(1)] by (simp add: unique_identities_def)
  have "sv_id v \<in> vs_visit_id ` set (st_samples st)" using p(5) assms(2) by blast
  then obtain s where "s \<in> set (st_samples st)" "vs_visit_id s = sv_id v" by auto
  then show ?thesis using distinct_map_eq[OF u] by metis
qed

lemma visit_member:
  assumes "validate_snapshot env st = Inr ()" "v \<in> set (st_visits st)" "sv_member_id v = Some m"
  shows "\<exists>i. i \<in> set (st_member_identities st) \<and> mi_id i = m"
proof -
  have "map_of (dict_of mi_id (st_member_identities st)) m \<noteq> None"
    using validate_snapshot_parts(2)[OF assms(1)] assms(2,3)
    by (auto simp: validate_member_references_def require_reference_def Let_def bindR_check forR_eq_Inr guardR_eq_Inr
        dest!: bspec[OF _ assms(2)])
  then show ?thesis by (auto simp: dict_of_None)
qed

text \<open>(C34) A snapshot that its constructor accepts is closed and unambiguous. No two records of a collection
  have the same identity; every visit has exactly one work item, whose status it shares while it is
  open, and exactly one sample, which retains its required work; its clocks satisfy required =
  elapsed + remaining; its member exists. No work item has two open visits and no run has two active
  sprints.\<close>

theorem snapshot_closed:
  assumes "snapshot env st = Inr st'"
  shows "st' = st \<and> unique_identities st \<and>
    (\<forall>v \<in> set (st_visits st).
       (\<exists>w. map_of (dict_of wi_id (st_work_items st)) (sv_work_item_id v) = Some w \<and>
            (sv_lifecycle v = SV_OPEN \<longrightarrow> wi_current_status_key w = sv_status_key v)) \<and>
       (\<exists>!s. s \<in> set (st_samples st) \<and> vs_visit_id s = sv_id v) \<and>
       (\<forall>s \<in> set (st_samples st). vs_visit_id s = sv_id v \<longrightarrow> vs_required s = sv_required v) \<and>
       sv_required v = sv_elapsed v + sv_remaining v \<and> 0 \<le> sv_remaining v \<and>
       (\<forall>m. sv_member_id v = Some m \<longrightarrow> (\<exists>i \<in> set (st_member_identities st). mi_id i = m)) \<and>
       (\<forall>v' \<in> set (st_visits st). sv_lifecycle v = SV_OPEN \<longrightarrow> sv_lifecycle v' = SV_OPEN \<longrightarrow>
          sv_work_item_id v = sv_work_item_id v' \<longrightarrow> v = v')) \<and>
    (\<forall>s \<in> set (st_sprints st). \<forall>s' \<in> set (st_sprints st).
       ss_lifecycle s = SP_ACTIVE \<longrightarrow> ss_lifecycle s' = SP_ACTIVE \<longrightarrow> s = s')"
proof -
  have v: "validate_snapshot env st = Inr ()" and e: "st' = st"
    using assms by (auto simp: snapshot_def bindR_check)
  note p = validate_snapshot_parts[OF v] validate_state_parts[OF validate_snapshot_parts(1)[OF v]]
  have clocks: "sv_required x = sv_elapsed x + sv_remaining x \<and> 0 \<le> sv_remaining x" if "x \<in> set (st_visits st)" for x
    using collections_checked(1)[OF p(6) that]
    by (auto simp: check_visit_def check_visit_microseconds_def require_microseconds_def bindR_check guardR_eq_Inr
        elim!: bindR_InrE split: if_splits)
  show ?thesis
    using e p(7) clocks visit_work[OF v] visit_sample[OF v] visit_sample_required[OF v] visit_member[OF v]
      open_visit_unique[OF p(1)] active_sprint_unique[OF p(1)] by blast
qed

lemma authenticated_input_Inr:
  "authenticated_sample_input c b w v = Inr i \<Longrightarrow> si_blueprint i = b \<and> si_work_item i = w \<and> si_visit i = v"
  by (auto simp: authenticated_sample_input_def elim!: bindR_InrE)

text \<open>A snapshot that is accepted against its blueprint follows it: every visit is a step of the route of
  its item's issue type, its owner is a member whose blueprint has the activity of the step, and its
  sample is the one that creation gives for the draws of the seed, so neither durations nor required
  work can differ from what the seed determines.\<close>

theorem validated_state_follows_blueprint:
  assumes "validate_snapshot env st = Inr ()" and "validate_against env st b = Inr ()"
    and "v \<in> set (st_visits st)"
  shows "\<exists>w route s i. w \<in> set (st_work_items st) \<and> wi_id w = sv_work_item_id v \<and>
    route_for b (wi_issue_type w) = Inr route \<and>
    (\<exists>p \<in> set (ro_steps route). rp_status_key p = sv_status_key v \<and> rp_required_activity p = sv_activity_key v) \<and>
    (\<forall>m. sv_member_id v = Some m \<longrightarrow>
       (\<exists>identity \<in> set (st_member_identities st). mi_id identity = m \<and>
          mi_blueprint_index identity < int (length (bp_members b)) \<and>
          (\<exists>activity. sv_activity_key v = Some activity \<and>
             activity \<in> rs_activity ` set (mb_responsibilities (bp_members b ! nat (mi_blueprint_index identity)))))) \<and>
    s \<in> set (st_samples st) \<and> vs_visit_id s = sv_id v \<and>
    authenticated_sample_input (en_codec env) b w v = Inr i \<and> create_sample env i = Inr s"
proof -
  note p = validate_snapshot_parts[OF assms(1)]
  have coll: "validate_collections env st = Inr ()" by (rule validate_state_parts(1)[OF p(1)])
  have against: "validate_blueprint_members st b = Inr ()" "validate_blueprint_visits st b = Inr ()"
    "authenticate_samples env st b = Inr ()"
    using assms(2) by (simp_all add: validate_against_def bindR_check)
  obtain w where w: "map_of (dict_of wi_id (st_work_items st)) (sv_work_item_id v) = Some w"
    "w \<in> set (st_work_items st)" "wi_id w = sv_work_item_id v" using visit_work[OF assms(1,3)] by blast
  let ?identities = "dict_of mi_id (st_member_identities st)"
  have visit: "validate_blueprint_visit (dict_of wi_id (st_work_items st)) ?identities b v = Inr ()"
    using against(2) assms(3) by (simp add: validate_blueprint_visits_def Let_def forR_eq_Inr)
  then obtain route where route: "route_for b (wi_issue_type w) = Inr route"
    and step: "\<exists>p \<in> set (ro_steps route). rp_status_key p = sv_status_key v \<and> rp_required_activity p = sv_activity_key v"
    and owner: "case sv_activity_key v of None \<Rightarrow> sv_member_id v = None
      | Some activity \<Rightarrow> validate_member_activity v ?identities b = Inr ()"
    using w(1) by (auto simp: validate_blueprint_visit_def dict_get_def bindR_check guardR_eq_Inr
        elim!: bindR_InrE split: option.splits)
  have member: "\<exists>identity \<in> set (st_member_identities st). mi_id identity = m \<and>
      mi_blueprint_index identity < int (length (bp_members b)) \<and>
      (\<exists>activity. sv_activity_key v = Some activity \<and>
         activity \<in> rs_activity ` set (mb_responsibilities (bp_members b ! nat (mi_blueprint_index identity))))"
    if m: "sv_member_id v = Some m" for m
  proof -
    obtain activity where a: "sv_activity_key v = Some activity" "validate_member_activity v ?identities b = Inr ()"
      using owner m by (auto split: option.splits)
    then obtain identity member where i: "map_of ?identities m = Some identity"
      "py_index (bp_members b) (mi_blueprint_index identity) = Inr member"
      "activity \<in> rs_activity ` set (mb_responsibilities member)"
      using m by (auto simp: validate_member_activity_def dict_get_Inr guardR_eq_Inr elim!: bindR_InrE)
    note s = set_dict_of[OF i(1)]
    have "0 \<le> mi_blueprint_index identity"
      using collections_checked(4)[OF coll conjunct1[OF s]]
      by (auto simp: check_member_identity_def safe_integer_def elim!: bindR_InrE split: if_splits)
    then have "mi_blueprint_index identity < int (length (bp_members b))"
      "member = bp_members b ! nat (mi_blueprint_index identity)"
      using i(2) by (auto simp: py_index_def split: if_splits)
    then show ?thesis using s i(3) a(1) by blast
  qed
  obtain s where s: "s \<in> set (st_samples st)" "vs_visit_id s = sv_id v" using visit_sample[OF assms(1,3)] by blast
  have "distinct (map sv_id (st_visits st))"
    using validate_state_parts(2)[OF p(1)] by (simp add: unique_identities_def)
  then have "map_of (dict_of sv_id (st_visits st)) (vs_visit_id s) = Some v"
    using dict_of_distinct[of sv_id "st_visits st"] assms(3) s(2) by simp
  then obtain i where "authenticated_sample_input (en_codec env) b w v = Inr i" "authenticate_sample env s i = Inr ()"
    using against(3) s(1) w(1)
    by (auto simp: authenticate_samples_def Let_def forR_eq_Inr dict_get_def elim!: bindR_InrE dest!: bspec[OF _ s(1)])
  then have i: "authenticated_sample_input (en_codec env) b w v = Inr i" "create_sample env i = Inr s"
    using authenticate_created by blast+
  show ?thesis using w(2,3) route step member s i by blast
qed

section \<open>A snapshot\<close>

definition demo_identity :: MemberIdentity where
  "demo_identity = \<lparr>mi_id = 45, mi_team_id = 69, mi_blueprint_index = 0\<rparr>"

definition demo_counter :: SemanticCounter where
  "demo_counter = \<lparr>sn_team_id = 69, sn_run_id = 42,
     sn_scope = \<lparr>cs_kind = VISIT_ORDINAL, cs_scope_id = 59, cs_scope_key = ''VISIT''\<rparr>, sn_next_value = 1\<rparr>"

definition demo_state :: ScrumCollections where
  "demo_state = empty_state\<lparr>st_member_identities := [demo_identity], st_work_items := [demo_work],
     st_visits := [demo_visit], st_samples := [demo_sample], st_counters := [demo_counter]\<rparr>"

lemma demo_collections:
  "st_member_identities demo_state = [demo_identity]" "st_overlays demo_state = []" "st_consumption demo_state = []"
  "st_work_items demo_state = [demo_work]" "st_factors demo_state = []" "st_sprints demo_state = []"
  "st_scope demo_state = []" "st_visits demo_state = [demo_visit]" "st_samples demo_state = [demo_sample]"
  "st_counters demo_state = [demo_counter]" "st_evaluations demo_state = []"
  by (simp_all add: demo_state_def empty_state_def)

lemma demo_coordinates:
  "mi_team_id demo_identity = 69" "mi_id demo_identity = 45" "wi_team_id demo_work = 69" "wi_run_id demo_work = 42"
  "wi_id demo_work = 59" "sv_team_id demo_visit = 69" "sv_run_id demo_visit = 42" "sv_id demo_visit = 44"
  "sv_work_item_id demo_visit = 59" "sv_member_id demo_visit = None" "sv_required demo_visit = 3600000000"
  "sv_status_key demo_visit = ''DEV''" "sv_activity_key demo_visit = Some ''CODE''" "wi_current_status_key demo_work = ''DEV''"
  "wi_issue_type demo_work = ''STORY''" "mi_blueprint_index demo_identity = 0"
  "vs_team_id demo_sample = 69" "vs_run_id demo_sample = 42" "vs_visit_id demo_sample = 44"
  "vs_required demo_sample = 3600000000" "sn_team_id demo_counter = 69" "sn_run_id demo_counter = 42"
  by (simp_all add: demo_identity_def demo_work_def demo_visit_def demo_sample_def demo_counter_def)

lemma demo_sample_ok: "check_sample demo_env demo_sample = Inr ()"
  using demo_sample_created by (auto simp: create_sample_def bindR_check elim!: bindR_InrE)

lemma demo_identity_ok: "check_member_identity demo_codec demo_identity = Inr ()"
  by (simp add: check_member_identity_def demo_identity_def member_rng_id_def ordinal_uuid_def ordinal_path_def
      semantic_uuid_def demo_sha int_text_0 require_semantic_id_def)

lemma demo_counter_ok: "check_counter demo_counter = Inr ()"
  by (simp add: check_counter_def demo_counter_def check_counter_scope_def require_text_def is_space_def scope_keys_def
      require_counter_value_def MAX_COUNTER_NEXT_VALUE_def MAX_SAFE_INTEGER_def U53_DENOMINATOR_def)

lemma demo_snapshot: "validate_snapshot demo_env demo_state = Inr ()"
proof -
  have "validate_collections demo_env demo_state = Inr ()"
    by (simp add: validate_collections_def demo_collections demo_sel demo_identity_ok demo_checks demo_sample_ok demo_counter_ok)
  moreover have "validate_uniqueness demo_state = Inr ()" "validate_partial_uniqueness demo_state = Inr ()"
    by (simp_all add: validate_uniqueness_def unique_identities_def demo_collections validate_partial_uniqueness_def
        require_unique_coordinates_def)
  moreover have "validate_one_team_run demo_state = Inr ()"
    by (simp add: validate_one_team_run_def state_teams_def state_runs_def demo_collections demo_coordinates)
  moreover have "validate_open_visit_status demo_state = Inr ()"
    "validate_sample_links (st_visits demo_state) (st_samples demo_state) = Inr ()"
    "validate_member_references demo_state = Inr ()" "validate_work_references demo_state = Inr ()"
    "validate_sample_cardinality demo_state = Inr ()"
    by (simp_all add: validate_open_visit_status_def validate_sample_links_def validate_member_references_def
        validate_work_references_def validate_sample_cardinality_def require_reference_def demo_collections
        demo_coordinates dict_of_def)
  moreover have "validate_counter_references demo_state = Inr ()"
    by (simp add: validate_counter_references_def demo_collections demo_coordinates) (simp add: demo_counter_def)
  ultimately show ?thesis by (simp add: validate_snapshot_def validate_state_def)
qed

lemma demo_against: "validate_against demo_env demo_state sample_blueprint = Inr ()"
proof -
  have "bp_canonical_document sample_blueprint = ''{}''" by (simp add: sample_blueprint_def)
  then have "blueprint_team demo_codec sample_blueprint = Inr 69"
    by (simp add: blueprint_team_def demo_decode team_rng_id_def demo_sha lower_hex_text semantic_uuid_def)
  then have "validate_blueprint_team demo_codec demo_state sample_blueprint = Inr ()"
    by (simp add: validate_blueprint_team_def state_teams_def demo_collections demo_coordinates)
  moreover have "validate_blueprint_members demo_state sample_blueprint = Inr ()"
    "validate_blueprint_work demo_state sample_blueprint = Inr ()"
    "validate_blueprint_visits demo_state sample_blueprint = Inr ()"
    by (simp_all add: validate_blueprint_members_def validate_blueprint_work_def validate_blueprint_visits_def
        validate_blueprint_visit_def validate_member_activity_def demo_collections demo_coordinates dict_of_def
        dict_get_def route_for_def status_for_def sample_blueprint_def sample_workflow_def)
  moreover have "authenticated_sample_input demo_codec sample_blueprint demo_work demo_visit = Inr demo_input"
  proof -
    have "random_stream (bp_seed sample_blueprint) (wi_team_id demo_work) (wi_run_id demo_work) = Inr demo_stream"
      by (simp add: random_stream_def sample_blueprint_def demo_work_def demo_stream_def)
    moreover have "decision_occurrence (sv_id demo_visit) dt 0 = Inr (demo_decision dt)" for dt
      by (simp add: decision_occurrence_def demo_visit_def demo_decision_def)
    ultimately show ?thesis by (simp add: authenticated_sample_input_def demo_draws demo_input_def)
  qed
  then have "authenticate_samples demo_env demo_state sample_blueprint = Inr ()"
    using demo_sample_created
    by (simp add: authenticate_samples_def demo_collections demo_coordinates dict_of_def dict_get_def demo_sel
        bindR_check authenticate_created)
  ultimately show ?thesis by (simp add: validate_against_def demo_sel)
qed

theorem snapshot_closed_witness: "\<exists>!s. s \<in> set (st_samples demo_state) \<and> vs_visit_id s = 44"
proof -
  have "snapshot demo_env demo_state = Inr demo_state" by (simp add: snapshot_def demo_snapshot)
  from snapshot_closed[OF this] show ?thesis by (simp add: demo_collections demo_coordinates)
qed

theorem validated_state_follows_blueprint_witness:
  "\<exists>i. authenticated_sample_input demo_codec sample_blueprint demo_work demo_visit = Inr i \<and>
     create_sample demo_env i = Inr demo_sample"
  using validated_state_follows_blueprint[OF demo_snapshot demo_against, of demo_visit]
  by (auto simp: demo_collections demo_sel)

end
