(* ===== verification/Tick_Allocation.thy ===== *)
theory Tick_Allocation
  imports Scrum_Collections Live_Slice
begin

text \<open>
  How a tick spends one business segment (\<open>v2/domain/scrum_tick.py\<close>): which member owns which visit,
  how much labour a member has left in the segment and on the day, and what the segment does to the
  clocks of every open visit. The dictionary of consumed labour that the code mutates is threaded
  through. Sets of visit identifiers come as lists, in the order in which the code iterates them.
\<close>

section \<open>The live state\<close>

record V2Team =
  vt_id :: uuid
  vt_idempotency_key :: string
  vt_blueprint_sha256 :: string
  vt_name :: string
  vt_methodology :: string
  vt_created_at :: instant

record V2Run =
  vr_id :: uuid
  vr_team_id :: uuid
  vr_ordinal :: int
  vr_state :: string
  vr_created_at :: instant

record PersistedTeamAggregate =
  pa_team :: V2Team
  pa_blueprint_id :: uuid
  pa_blueprint :: ResolvedTeamBlueprint
  pa_blueprint_sha256 :: string
  pa_blueprint_recorded_at :: instant
  pa_run :: V2Run
  pa_runtime :: TeamRuntime

record LiveTeamState =
  lt_aggregate :: PersistedTeamAggregate
  lt_scrum :: ScrumStateSnapshot

abbreviation lt_blueprint :: "LiveTeamState \<Rightarrow> ResolvedTeamBlueprint" where
  "lt_blueprint st \<equiv> pa_blueprint (lt_aggregate st)"

abbreviation lt_runtime :: "LiveTeamState \<Rightarrow> TeamRuntime" where
  "lt_runtime st \<equiv> pa_runtime (lt_aggregate st)"

definition MICROSECONDS_PER_HOUR :: py_float where "MICROSECONDS_PER_HOUR = 3600000000"

record BusinessSegment =
  sg_business_date :: int
  sg_start :: instant
  sg_end :: instant

definition sg_microseconds :: "BusinessSegment \<Rightarrow> int" where
  "sg_microseconds g = sg_end g - sg_start g"

record QueueCause =
  qc_visit_id :: uuid
  qc_reason :: string
  qc_delta :: int

record AssignedVisit =
  as_visit :: StatusVisitState
  as_denied_reason :: "string option"

type_synonym consumption = "(uuid \<times> int, int) dict"

definition consumption_map :: "LiveTeamState \<Rightarrow> consumption" where
  "consumption_map st =
     fold (\<lambda>k. dict_set (mc_member_id k, mc_business_date k) (mc_consumed k)) (st_consumption (lt_scrum st)) []"

section \<open>What a member can do in a segment\<close>

definition member_blueprint :: "LiveTeamState \<Rightarrow> MemberIdentity \<Rightarrow> MemberBlueprint res" where
  "member_blueprint st i = py_index (bp_members (lt_blueprint st)) (mi_blueprint_index i)"

definition active_in :: "BusinessSegment \<Rightarrow> instant \<Rightarrow> instant \<Rightarrow> bool" where
  "active_in g a b \<longleftrightarrow> a \<le> sg_start g \<and> sg_start g < b"

definition member_overlays :: "LiveTeamState \<Rightarrow> uuid \<Rightarrow> MemberAvailabilityOverlay list" where
  "member_overlays st m = filter (\<lambda>v. ov_member_id v = m) (st_overlays (lt_scrum st))"

definition min_of :: "'a::linorder \<Rightarrow> 'a list \<Rightarrow> 'a" where
  "min_of x xs = fold min xs x"

definition fraction_of :: "LiveTeamState \<Rightarrow> MemberIdentity \<Rightarrow> BusinessSegment \<Rightarrow> MemberBlueprint \<Rightarrow> py_float" where
  "fraction_of st i g m =
     min_of 1
       (map av_fraction (filter (\<lambda>a. active_in g (av_starts_at a) (av_ends_at a)) (mb_availability m)) @
        map ov_fraction (filter (\<lambda>v. active_in g (ov_starts_at v) (ov_ends_at v)) (member_overlays st (mi_id i))))"

definition effective_fraction :: "LiveTeamState \<Rightarrow> MemberIdentity \<Rightarrow> BusinessSegment \<Rightarrow> py_float res" where
  "effective_fraction st i g = bindR (member_blueprint st i) (\<lambda>m. Inr (fraction_of st i g m))"

definition available_microseconds :: "LiveTeamState \<Rightarrow> MemberIdentity \<Rightarrow> BusinessSegment \<Rightarrow> int res" where
  "available_microseconds st i g =
     bindR (effective_fraction st i g) (\<lambda>fraction.
       Inr (round_half_even (f_mul (f_of_int (sg_microseconds g)) fraction)))"

definition hours_us :: "py_float \<Rightarrow> int" where
  "hours_us h = round_half_even (f_mul h MICROSECONDS_PER_HOUR)"

definition daily_ceiling :: "LiveTeamState \<Rightarrow> MemberIdentity \<Rightarrow> BusinessSegment \<Rightarrow> int res" where
  "daily_ceiling st i g =
     bindR (member_blueprint st i) (\<lambda>m.
     let ceiling = min_of (hours_us (mb_daily_capacity_hours m))
           (map (\<lambda>a. hours_us (av_capacity_hours_override a))
              (filter (\<lambda>a. active_in g (av_starts_at a) (av_ends_at a)) (mb_availability m)) @
            List.map_filter (\<lambda>v. if active_in g (ov_starts_at v) (ov_ends_at v) then ov_ceiling v else None)
              (member_overlays st (mi_id i)))
     in bindR (effective_fraction st i g) (\<lambda>fraction.
          Inr (round_half_even (f_mul (f_of_int ceiling) fraction))))"

definition remaining_capacity ::
  "LiveTeamState \<Rightarrow> MemberIdentity \<Rightarrow> BusinessSegment \<Rightarrow> consumption \<Rightarrow> int res" where
  "remaining_capacity st i g c =
     bindR (available_microseconds st i g) (\<lambda>available.
     bindR (daily_ceiling st i g) (\<lambda>ceiling.
       Inr (max 0 (min available (ceiling - dict_get_default c (mi_id i, sg_business_date g) 0)))))"

record Capacity =
  ca_microseconds :: int
  ca_constraint :: string

definition segment_capacity ::
  "LiveTeamState \<Rightarrow> BusinessSegment \<Rightarrow> consumption \<Rightarrow> consumption \<Rightarrow> MemberIdentity \<Rightarrow> Capacity res" where
  "segment_capacity st g c0 c i =
     (let key = (mi_id i, sg_business_date g);
          consumed = dict_get_default c key 0;
          used = consumed - dict_get_default c0 key 0
      in
      bindR (available_microseconds st i g) (\<lambda>available.
      bindR (daily_ceiling st i g) (\<lambda>ceiling.
        let segment_remaining = max 0 (available - used); daily_remaining = max 0 (ceiling - consumed) in
        Inr (if segment_remaining \<le> daily_remaining
             then \<lparr>ca_microseconds = segment_remaining,
                   ca_constraint = (if used \<noteq> 0 then ''CONTENTION'' else ''UNAVAILABLE'')\<rparr>
             else \<lparr>ca_microseconds = daily_remaining, ca_constraint = ''DAILY_CAPACITY''\<rparr>))))"

definition proficiency :: "MemberBlueprint \<Rightarrow> string option \<Rightarrow> py_float option" where
  "proficiency m activity =
     map_option rs_proficiency (List.find (\<lambda>r. Some (rs_activity r) = activity) (mb_responsibilities m))"

section \<open>Owners\<close>

definition can_retain ::
  "LiveTeamState \<Rightarrow> MemberIdentity \<Rightarrow> StatusVisitState \<Rightarrow> BusinessSegment \<Rightarrow> (uuid, int) dict \<Rightarrow> bool res" where
  "can_retain st i v g retained =
     bindR (member_blueprint st i) (\<lambda>m.
     bindR (available_microseconds st i g) (\<lambda>available.
       Inr (proficiency m (sv_activity_key v) \<noteq> None \<and> 0 < available \<and>
            dict_get_default retained (mi_id i) 0 < mb_max_concurrent_wip m)))"

definition count_retained :: "uuid \<Rightarrow> (uuid, int) dict \<Rightarrow> (uuid, int) dict" where
  "count_retained m retained = dict_set m (dict_get_default retained m 0 + 1) retained"

definition keeps_owner ::
  "LiveTeamState \<Rightarrow> (uuid, MemberIdentity) dict \<Rightarrow> BusinessSegment \<Rightarrow> StatusVisitState \<Rightarrow> (uuid, int) dict \<Rightarrow> bool res" where
  "keeps_owner st members g v retained =
     (case sv_member_id v of
        None \<Rightarrow> Inr False
      | Some owner \<Rightarrow> bindR (dict_get members owner) (\<lambda>i. can_retain st i v g retained))"

text \<open>\<open>replace\<close> builds a new visit, so its constructor checks it again.\<close>

definition replaced :: "codec \<Rightarrow> StatusVisitState \<Rightarrow> StatusVisitState res" where
  "replaced cd v = bindR (check_visit cd v) (\<lambda>_. Inr v)"

fun retain_owners ::
  "codec \<Rightarrow> LiveTeamState \<Rightarrow> (uuid, MemberIdentity) dict \<Rightarrow> BusinessSegment \<Rightarrow> StatusVisitState list \<Rightarrow>
   (uuid, int) dict \<Rightarrow> (StatusVisitState list \<times> (uuid, int) dict) res" where
  "retain_owners cd st members g [] retained = Inr ([], retained)"
| "retain_owners cd st members g (v # vs) retained =
     bindR (keeps_owner st members g v retained) (\<lambda>keep.
     bindR (if keep then Inr v else replaced cd (v\<lparr>sv_member_id := None\<rparr>)) (\<lambda>kept.
     bindR (retain_owners cd st members g vs
              (if keep then count_retained (the (sv_member_id v)) retained else retained)) (\<lambda>(assigned, final).
       Inr (kept # assigned, final))))"

text \<open>The loop over the members collects the candidates and what the others lacked.\<close>

record candidates =
  cn_capable :: bool
  cn_available :: bool
  cn_has_capacity :: bool
  cn_candidates :: "(py_float \<times> int \<times> MemberIdentity) list"

definition consider_member ::
  "LiveTeamState \<Rightarrow> StatusVisitState \<Rightarrow> BusinessSegment \<Rightarrow> consumption \<Rightarrow> (uuid, int) dict \<Rightarrow>
   MemberIdentity \<Rightarrow> candidates \<Rightarrow> candidates res" where
  "consider_member st v g c retained i acc =
     bindR (member_blueprint st i) (\<lambda>m.
       case proficiency m (sv_activity_key v) of
         None \<Rightarrow> Inr acc
       | Some p \<Rightarrow>
           bindR (effective_fraction st i g) (\<lambda>fraction.
             let acc1 = acc\<lparr>cn_capable := True\<rparr> in
             if fraction = 0 then Inr acc1
             else bindR (remaining_capacity st i g c) (\<lambda>capacity.
               let acc2 = acc1\<lparr>cn_available := True\<rparr> in
               if capacity = 0 then Inr acc2
               else let acc3 = acc2\<lparr>cn_has_capacity := True\<rparr> in
                 Inr (if dict_get_default retained (mi_id i) 0 < mb_max_concurrent_wip m
                      then acc3\<lparr>cn_candidates := cn_candidates acc3 @ [(p, - mi_blueprint_index i, i)]\<rparr>
                      else acc3))))"

definition assignment_denial_reason :: "bool \<Rightarrow> bool \<Rightarrow> bool \<Rightarrow> string" where
  "assignment_denial_reason capable available has_capacity =
     (if \<not> capable then ''NO_CAPABLE_MEMBER''
      else if \<not> available then ''UNAVAILABLE''
      else if \<not> has_capacity then ''DAILY_CAPACITY''
      else ''WIP_LIMIT'')"

text \<open>\<open>max(candidates, key=...)\<close>: the first candidate with the largest key.\<close>

fun best_candidate :: "(py_float \<times> int \<times> MemberIdentity) list \<Rightarrow> MemberIdentity option" where
  "best_candidate [] = None"
| "best_candidate (x # xs) =
     Some (snd (snd (fold (\<lambda>y best. if (fst best, fst (snd best)) < (fst y, fst (snd y)) then y else best) xs x)))"

definition assign_owner ::
  "codec \<Rightarrow> LiveTeamState \<Rightarrow> (uuid, MemberIdentity) dict \<Rightarrow> StatusVisitState \<Rightarrow> BusinessSegment \<Rightarrow> consumption \<Rightarrow>
   (uuid, int) dict \<Rightarrow> (AssignedVisit \<times> (uuid, int) dict) res" where
  "assign_owner cd st members v g c retained =
     bindR (foldR (consider_member st v g c retained) (map snd members)
              \<lparr>cn_capable = False, cn_available = False, cn_has_capacity = False, cn_candidates = []\<rparr>) (\<lambda>acc.
       case best_candidate (cn_candidates acc) of
         None \<Rightarrow>
           Inr (\<lparr>as_visit = v, as_denied_reason =
                   Some (assignment_denial_reason (cn_capable acc) (cn_available acc) (cn_has_capacity acc))\<rparr>, retained)
       | Some i \<Rightarrow>
           bindR (replaced cd (v\<lparr>sv_member_id := Some (mi_id i)\<rparr>)) (\<lambda>owned.
             Inr (\<lparr>as_visit = owned, as_denied_reason = None\<rparr>, count_retained (mi_id i) retained)))"

fun assign_unowned ::
  "codec \<Rightarrow> LiveTeamState \<Rightarrow> (uuid, MemberIdentity) dict \<Rightarrow> BusinessSegment \<Rightarrow> consumption \<Rightarrow> StatusVisitState list \<Rightarrow>
   (uuid, int) dict \<Rightarrow> AssignedVisit list res" where
  "assign_unowned cd st members g c [] retained = Inr []"
| "assign_unowned cd st members g c (v # vs) retained =
     bindR (if sv_member_id v = None then assign_owner cd st members v g c retained
            else Inr (\<lparr>as_visit = v, as_denied_reason = None\<rparr>, retained)) (\<lambda>(a, retained').
     bindR (assign_unowned cd st members g c vs retained') (\<lambda>rest. Inr (a # rest)))"

definition assign_owners ::
  "codec \<Rightarrow> LiveTeamState \<Rightarrow> StatusVisitState list \<Rightarrow> BusinessSegment \<Rightarrow> consumption \<Rightarrow> AssignedVisit list res" where
  "assign_owners cd st visits g c =
     (let members = dict_of mi_id (st_member_identities (lt_scrum st)) in
      bindR (retain_owners cd st members g visits []) (\<lambda>(assigned, retained).
        assign_unowned cd st members g c assigned retained))"

section \<open>Visits\<close>

definition queue_cause :: "uuid \<Rightarrow> string option \<Rightarrow> int \<Rightarrow> QueueCause option res" where
  "queue_cause visit_id reason delta =
     (if delta = 0 then Inr None
      else case reason of
        None \<Rightarrow> Inl (Runtime_Error ''queued labor must have a limiting constraint'')
      | Some r \<Rightarrow> Inr (Some \<lparr>qc_visit_id = visit_id, qc_reason = r, qc_delta = delta\<rparr>))"

definition status_named :: "LiveTeamState \<Rightarrow> string \<Rightarrow> WorkflowStatus res" where
  "status_named st key = find_or_stop (\<lambda>s. ws_key s = key) (wf_statuses (bp_workflow (lt_blueprint st)))"

definition credit_visit :: "StatusVisitState \<Rightarrow> int \<Rightarrow> int \<Rightarrow> StatusVisitState" where
  "credit_visit v credited queue = v\<lparr>sv_elapsed := sv_elapsed v + credited, sv_remaining := sv_remaining v - credited,
     sv_queue := sv_queue v + max 0 queue, sv_credited := sv_credited v + credited\<rparr>"

definition advance_visit ::
  "codec \<Rightarrow> LiveTeamState \<Rightarrow> BusinessSegment \<Rightarrow> consumption \<Rightarrow> AssignedVisit \<Rightarrow> consumption \<Rightarrow>
   (StatusVisitState \<times> QueueCause option \<times> consumption) res" where
  "advance_visit cd st g c0 a c =
     (let v = as_visit a in
      bindR (status_named st (sv_status_key v)) (\<lambda>status.
        if ws_pauses_service_clock status
        then bindR (replaced cd (v\<lparr>sv_pause := sv_pause v + sg_microseconds g\<rparr>)) (\<lambda>updated. Inr (updated, None, c))
        else if sv_member_id v = None \<or> sv_remaining v = 0
        then let queue = (if sv_remaining v \<noteq> 0 then sg_microseconds g else 0) in
             bindR (replaced cd (v\<lparr>sv_queue := sv_queue v + queue\<rparr>)) (\<lambda>updated.
             bindR (queue_cause (sv_id v) (as_denied_reason a) queue) (\<lambda>cause. Inr (updated, cause, c)))
        else
          bindR (find_or_stop (\<lambda>i. Some (mi_id i) = sv_member_id v) (st_member_identities (lt_scrum st))) (\<lambda>i.
          bindR (segment_capacity st g c0 c i) (\<lambda>capacity.
            let credited = min (ca_microseconds capacity) (sv_remaining v);
                key = (mi_id i, sg_business_date g);
                queue = (if sv_remaining v - credited = 0 then 0 else sg_microseconds g - credited)
            in bindR (replaced cd (credit_visit v credited queue)) (\<lambda>updated.
               bindR (queue_cause (sv_id v) (Some (ca_constraint capacity)) queue) (\<lambda>cause.
                 Inr (updated, cause, dict_set key (dict_get_default c key 0 + credited) c)))))))"

section \<open>A segment\<close>

fun advance_assigned ::
  "codec \<Rightarrow> LiveTeamState \<Rightarrow> BusinessSegment \<Rightarrow> consumption \<Rightarrow> AssignedVisit list \<Rightarrow>
   (uuid, StatusVisitState) dict \<Rightarrow> QueueCause list \<Rightarrow> consumption \<Rightarrow>
   ((uuid, StatusVisitState) dict \<times> QueueCause list \<times> consumption) res" where
  "advance_assigned cd st g c0 [] advanced causes c = Inr (advanced, causes, c)"
| "advance_assigned cd st g c0 (a # as) advanced causes c =
     bindR (advance_visit cd st g c0 a c) (\<lambda>(updated, cause, c').
       advance_assigned cd st g c0 as (dict_set (sv_id updated) updated advanced)
         (causes @ (case cause of None \<Rightarrow> [] | Some q \<Rightarrow> [q])) c')"

definition ranked ::
  "(uuid, WorkItemState) dict \<Rightarrow> StatusVisitState list \<Rightarrow> StatusVisitState list res" where
  "ranked works visits =
     bindR (mapR (\<lambda>v. bindR (dict_get works (sv_work_item_id v)) (\<lambda>w.
                      bindR (check_rank (simulator_rank w)) (\<lambda>_. Inr (rank_sort_key (simulator_rank w), v)))) visits)
       (\<lambda>keyed. Inr (map snd (sort_key fst keyed)))"

definition blocked_visits ::
  "uuid list \<Rightarrow> (uuid, StatusVisitState) dict \<Rightarrow> (uuid, StatusVisitState) dict" where
  "blocked_visits blocked visits =
     fold (\<lambda>i d. case map_of visits i of None \<Rightarrow> d | Some v \<Rightarrow> dict_set i v d) blocked []"

definition advance_segment ::
  "codec \<Rightarrow> LiveTeamState \<Rightarrow> (uuid, WorkItemState) dict \<Rightarrow> (uuid, StatusVisitState) dict \<Rightarrow> consumption \<Rightarrow>
   BusinessSegment \<Rightarrow> uuid list \<Rightarrow> ((uuid, StatusVisitState) dict \<times> QueueCause list \<times> consumption) res" where
  "advance_segment cd st works visits c g blocked =
     bindR (ranked works (filter (\<lambda>v. sv_id v \<notin> set blocked) (map snd visits))) (\<lambda>ordered.
     bindR (assign_owners cd st ordered g c) (\<lambda>assignments.
       advance_assigned cd st g c assignments (blocked_visits blocked visits) [] c))"

end
