(* ===== verification/Tick_Labor.thy ===== *)
theory Tick_Labor
  imports Tick_Allocation "HOL-Library.Multiset"
begin

text \<open>
  What a segment can do: a visit only makes progress, a member is never credited more labour than the
  segment and the day leave, the consumed labour that is recorded is exactly the labour that was
  credited, and the work in progress of a member stays within its limit.
\<close>

section \<open>Progress of a visit\<close>

definition credit :: "StatusVisitState \<Rightarrow> StatusVisitState \<Rightarrow> int" where
  "credit v v' = sv_credited v' - sv_credited v"

text \<open>Only the owner and the clocks change; labour moves from remaining to elapsed.\<close>

definition progressed :: "StatusVisitState \<Rightarrow> StatusVisitState \<Rightarrow> bool" where
  "progressed v v' \<longleftrightarrow>
     sv_id v' = sv_id v \<and> sv_team_id v' = sv_team_id v \<and> sv_run_id v' = sv_run_id v \<and>
     sv_work_item_id v' = sv_work_item_id v \<and> sv_ordinal v' = sv_ordinal v \<and> sv_lifecycle v' = sv_lifecycle v \<and>
     sv_status_key v' = sv_status_key v \<and> sv_activity_key v' = sv_activity_key v \<and>
     sv_entered_at v' = sv_entered_at v \<and> sv_closed_at v' = sv_closed_at v \<and> sv_required v' = sv_required v \<and>
     sv_elapsed v' = sv_elapsed v + credit v v' \<and> sv_remaining v' = sv_remaining v - credit v v' \<and>
     0 \<le> credit v v' \<and> credit v v' \<le> sv_remaining v \<and>
     sv_queue v \<le> sv_queue v' \<and> sv_pause v \<le> sv_pause v'"

lemma progressed_refl: "0 \<le> sv_remaining v \<Longrightarrow> progressed v v"
  by (simp add: progressed_def credit_def)

lemma progressed_parts:
  assumes "progressed v v'"
  shows "sv_id v' = sv_id v" "sv_work_item_id v' = sv_work_item_id v" "sv_status_key v' = sv_status_key v"
    "sv_activity_key v' = sv_activity_key v" "sv_lifecycle v' = sv_lifecycle v" "sv_required v' = sv_required v"
    "sv_elapsed v' + sv_remaining v' = sv_elapsed v + sv_remaining v" "0 \<le> sv_remaining v'"
    "0 \<le> credit v v'" "credit v v' \<le> sv_remaining v"
  using assms by (simp_all add: progressed_def)

lemma progressed_trans: "progressed a b \<Longrightarrow> progressed b c \<Longrightarrow> progressed a c"
  by (simp add: progressed_def credit_def)

lemma credit_add: "credit a c = credit a b + credit b c"
  by (simp add: credit_def)

lemma replaced_Inr: "replaced cd v = Inr v' \<longleftrightarrow> check_visit cd v = Inr () \<and> v' = v"
  by (auto simp: replaced_def bindR_check)

lemma check_visit_clocks:
  "check_visit cd v = Inr () \<Longrightarrow> sv_required v = sv_elapsed v + sv_remaining v \<and> 0 \<le> sv_remaining v \<and>
     0 \<le> sv_elapsed v \<and> 0 \<le> sv_credited v \<and> 0 \<le> sv_queue v \<and> 0 \<le> sv_pause v"
  by (auto simp: check_visit_def check_visit_microseconds_def require_microseconds_def bindR_check guardR_eq_Inr
      elim!: bindR_InrE split: if_splits)

section \<open>Capacity\<close>

lemma min_of_le: "min_of x xs \<le> (x :: 'a::linorder)" "y \<in> set xs \<Longrightarrow> min_of x xs \<le> y"
proof -
  have "fold min xs x \<le> x \<and> (\<forall>y \<in> set xs. fold min xs x \<le> y)" for x
  proof (induction xs arbitrary: x)
    case (Cons z zs)
    from Cons[of "min z x"] show ?case by auto
  qed simp
  then show "min_of x xs \<le> x" "y \<in> set xs \<Longrightarrow> min_of x xs \<le> y" by (auto simp: min_of_def)
qed

lemma available_within_segment:
  assumes "available_microseconds st i g = Inr a" "\<bar>sg_microseconds g\<bar> \<le> 2 ^ 53" "0 \<le> sg_microseconds g"
  shows "a \<le> sg_microseconds g"
proof -
  obtain m where a: "a = round_half_even (f_mul (f_of_int (sg_microseconds g)) (fraction_of st i g m))"
    using assms(1) by (auto simp: available_microseconds_def effective_fraction_def elim!: bindR_InrE)
  have f: "f_of_int (sg_microseconds g) = of_int (sg_microseconds g)"
    using assms(2) by (simp add: f_of_int_def fl_of_int)
  have "f_mul (f_of_int (sg_microseconds g)) (fraction_of st i g m) \<le> f_of_int (sg_microseconds g)"
    unfolding f using assms(2,3) by (intro f_mul_shrink) (simp_all add: fraction_of_def min_of_le)
  then show ?thesis unfolding a f by (intro round_half_even_le_int) simp
qed

lemma segment_capacity_bounds:
  assumes "segment_capacity st g c0 c i = Inr cap" "available_microseconds st i g = Inr a" "daily_ceiling st i g = Inr d"
  shows "0 \<le> ca_microseconds cap"
    "ca_microseconds cap \<le> max 0 (a - (dict_get_default c (mi_id i, sg_business_date g) 0 -
                                          dict_get_default c0 (mi_id i, sg_business_date g) 0))"
    "ca_microseconds cap \<le> max 0 (d - dict_get_default c (mi_id i, sg_business_date g) 0)"
  using assms by (auto simp: segment_capacity_def Let_def)

lemma dict_get_default_set [dict_simps]:
  "dict_get_default (dict_set k v d) k' x = (if k' = k then v else dict_get_default d k' x)"
  by (simp add: dict_get_default_def dict_simps)

section \<open>One visit\<close>

text \<open>The labour of a visit goes to the account of its owner on the business date of the segment.\<close>

lemma advance_visit_cases:
  assumes "advance_visit cd st g c0 a c = Inr (v', q, c')" and "0 \<le> sv_remaining (as_visit a)"
    and "0 \<le> sg_microseconds g"
  shows "progressed (as_visit a) v'" "sv_member_id v' = sv_member_id (as_visit a)" "check_visit cd v' = Inr ()"
    "(c' = c \<and> credit (as_visit a) v' = 0) \<or>
     (\<exists>i cap. i \<in> set (st_member_identities (lt_scrum st)) \<and> sv_member_id v' = Some (mi_id i) \<and>
        segment_capacity st g c0 c i = Inr cap \<and> credit (as_visit a) v' = min (ca_microseconds cap) (sv_remaining (as_visit a)) \<and>
        c' = dict_set (mi_id i, sg_business_date g)
               (dict_get_default c (mi_id i, sg_business_date g) 0 + credit (as_visit a) v') c)"
proof -
  define v where "v = as_visit a"
  obtain status where st: "status_named st (sv_status_key v) = Inr status"
    using assms(1) by (auto simp: advance_visit_def Let_def v_def elim!: bindR_InrE)
  consider (paused) "ws_pauses_service_clock status"
    | (queued) "\<not> ws_pauses_service_clock status" "sv_member_id v = None \<or> sv_remaining v = 0"
    | (worked) "\<not> ws_pauses_service_clock status" "\<not> (sv_member_id v = None \<or> sv_remaining v = 0)" by blast
  then have "progressed v v' \<and> sv_member_id v' = sv_member_id v \<and> check_visit cd v' = Inr () \<and>
    ((c' = c \<and> credit v v' = 0) \<or>
     (\<exists>i cap. i \<in> set (st_member_identities (lt_scrum st)) \<and> sv_member_id v' = Some (mi_id i) \<and>
        segment_capacity st g c0 c i = Inr cap \<and> credit v v' = min (ca_microseconds cap) (sv_remaining v) \<and>
        c' = dict_set (mi_id i, sg_business_date g)
               (dict_get_default c (mi_id i, sg_business_date g) 0 + credit v v') c))"
  proof cases
    case paused
    then have "v' = v\<lparr>sv_pause := sv_pause v + sg_microseconds g\<rparr>" "check_visit cd v' = Inr ()" "c' = c"
      using assms(1) st by (auto simp: advance_visit_def Let_def v_def[symmetric] replaced_Inr elim!: bindR_InrE)
    then show ?thesis using assms(2,3) by (simp add: progressed_def credit_def v_def)
  next
    case queued
    define q' where "q' = (if sv_remaining v \<noteq> 0 then sg_microseconds g else 0)"
    have "v' = v\<lparr>sv_queue := sv_queue v + q'\<rparr> \<and> check_visit cd v' = Inr () \<and> c' = c"
      using assms(1) st queued
      by (auto simp: advance_visit_def Let_def v_def[symmetric] q'_def[symmetric] replaced_Inr elim!: bindR_InrE)
    moreover have "0 \<le> q'" using assms(3) by (simp add: q'_def)
    ultimately show ?thesis using assms(2) v_def[symmetric] by (auto simp: progressed_def credit_def)
  next
    case worked
    obtain i cap where i: "find_or_stop (\<lambda>i. Some (mi_id i) = sv_member_id v) (st_member_identities (lt_scrum st)) = Inr i"
      "segment_capacity st g c0 c i = Inr cap"
      and r: "check_visit cd v' = Inr ()"
        "v' = credit_visit v (min (ca_microseconds cap) (sv_remaining v))
                (if sv_remaining v - min (ca_microseconds cap) (sv_remaining v) = 0 then 0
                 else sg_microseconds g - min (ca_microseconds cap) (sv_remaining v))"
        "c' = dict_set (mi_id i, sg_business_date g)
                (dict_get_default c (mi_id i, sg_business_date g) 0 + min (ca_microseconds cap) (sv_remaining v)) c"
      using assms(1) st worked
      by (auto simp: advance_visit_def Let_def v_def[symmetric] replaced_Inr elim!: bindR_InrE)
    have f: "i \<in> set (st_member_identities (lt_scrum st))" "Some (mi_id i) = sv_member_id v"
      using find_or_stop_Inr[OF i(1)] by simp_all
    have cr: "credit v v' = min (ca_microseconds cap) (sv_remaining v)" by (simp add: r(2) credit_visit_def credit_def)
    have "0 \<le> ca_microseconds cap" using i(2) by (auto simp: segment_capacity_def Let_def elim!: bindR_InrE)
    then have "progressed v v'" "sv_member_id v' = sv_member_id v"
      using assms(2) unfolding progressed_def cr by (simp_all add: r(2) credit_visit_def v_def)
    then show ?thesis using f i(2) r(1,3) cr by auto
  qed
  then show "progressed (as_visit a) v'" "sv_member_id v' = sv_member_id (as_visit a)" "check_visit cd v' = Inr ()"
    "(c' = c \<and> credit (as_visit a) v' = 0) \<or>
     (\<exists>i cap. i \<in> set (st_member_identities (lt_scrum st)) \<and> sv_member_id v' = Some (mi_id i) \<and>
        segment_capacity st g c0 c i = Inr cap \<and> credit (as_visit a) v' = min (ca_microseconds cap) (sv_remaining (as_visit a)) \<and>
        c' = dict_set (mi_id i, sg_business_date g)
               (dict_get_default c (mi_id i, sg_business_date g) 0 + credit (as_visit a) v') c)"
    unfolding v_def by blast+
qed

section \<open>The visits of a segment\<close>

definition labour_for :: "uuid \<Rightarrow> (StatusVisitState \<times> StatusVisitState) list \<Rightarrow> int" where
  "labour_for m pairs = (\<Sum>(v, v')\<leftarrow>pairs. if sv_member_id v' = Some m then credit v v' else 0)"

lemma labour_for_simps [simp]:
  "labour_for m [] = 0"
  "labour_for m ((v, v') # rest) = (if sv_member_id v' = Some m then credit v v' else 0) + labour_for m rest"
  by (simp_all add: labour_for_def)

definition worked_on :: "codec \<Rightarrow> StatusVisitState \<Rightarrow> StatusVisitState \<Rightarrow> bool" where
  "worked_on cd v v' \<longleftrightarrow> progressed v v' \<and> sv_member_id v' = sv_member_id v \<and> check_visit cd v' = Inr ()"

abbreviation account :: "consumption \<Rightarrow> uuid \<Rightarrow> BusinessSegment \<Rightarrow> int" where
  "account c m g \<equiv> dict_get_default c (m, sg_business_date g) 0"

lemma advance_assigned_spec:
  assumes "advance_assigned cd st g c0 as adv qs c = Inr (adv', qs', c')"
    and "\<forall>a \<in> set as. 0 \<le> sv_remaining (as_visit a)" and "0 \<le> sg_microseconds g"
  shows "\<exists>vs'. list_all2 (worked_on cd) (map as_visit as) vs' \<and>
    adv' = fold (\<lambda>v. dict_set (sv_id v) v) vs' adv \<and>
    (\<forall>m. account c' m g = account c m g + labour_for m (zip (map as_visit as) vs')) \<and>
    (\<forall>k. snd k \<noteq> sg_business_date g \<longrightarrow> dict_get_default c' k 0 = dict_get_default c k 0)"
  using assms
proof (induction cd st g c0 as adv qs c rule: advance_assigned.induct)
  case (1 cd st g c0 adv qs c)
  then show ?case by simp
next
  case (2 cd st g c0 a as adv qs c)
  obtain v1 q1 c1 where v: "advance_visit cd st g c0 a c = Inr (v1, q1, c1)"
    and rest: "advance_assigned cd st g c0 as (dict_set (sv_id v1) v1 adv)
      (qs @ (case q1 of None \<Rightarrow> [] | Some q \<Rightarrow> [q])) c1 = Inr (adv', qs', c')"
    using "2.prems"(1) by (auto elim!: bindR_Inr3E)
  have r0: "0 \<le> sv_remaining (as_visit a)" using "2.prems"(2) by simp
  note w = advance_visit_cases[OF v r0 "2.prems"(3)]
  have acc: "account c1 m g = account c m g + (if sv_member_id v1 = Some m then credit (as_visit a) v1 else 0)" for m
    using w(4) by (auto simp: dict_simps)
  have other: "dict_get_default c1 k 0 = dict_get_default c k 0" if "snd k \<noteq> sg_business_date g" for k
    using w(4) that by (auto simp: dict_simps)
  obtain vs' where vs': "list_all2 (worked_on cd) (map as_visit as) vs'"
    "adv' = fold (\<lambda>v. dict_set (sv_id v) v) vs' (dict_set (sv_id v1) v1 adv)"
    "\<forall>m. account c' m g = account c1 m g + labour_for m (zip (map as_visit as) vs')"
    "\<forall>k. snd k \<noteq> sg_business_date g \<longrightarrow> dict_get_default c' k 0 = dict_get_default c1 k 0"
    using "2.IH"[OF v refl refl rest] "2.prems"(2,3) by auto
  have "worked_on cd (as_visit a) v1" using w by (simp add: worked_on_def)
  then show ?case using vs' acc other by (intro exI[of _ "v1 # vs'"]) simp
qed

lemma identity_unique:
  assumes "distinct (map mi_id ids)" "i \<in> set ids" "j \<in> set ids" "mi_id i = mi_id j"
  shows "i = j"
  using distinct_map_eq[OF assms(1-3)] assms(4) by simp

text \<open>The invariant of the loop over the visits: no account passes what the segment and the day leave.\<close>

definition within_capacity :: "consumption \<Rightarrow> consumption \<Rightarrow> uuid \<Rightarrow> BusinessSegment \<Rightarrow> int \<Rightarrow> int \<Rightarrow> bool" where
  "within_capacity c0 c m g available day_limit \<longleftrightarrow>
     account c0 m g \<le> account c m g \<and> account c m g - account c0 m g \<le> max 0 available \<and>
     account c m g \<le> max (account c0 m g) day_limit"

lemma advance_visit_capacity:
  assumes "advance_visit cd st g c0 a c = Inr (v', q, c')" and "0 \<le> sv_remaining (as_visit a)"
    and "0 \<le> sg_microseconds g"
    and "distinct (map mi_id (st_member_identities (lt_scrum st)))" and "i \<in> set (st_member_identities (lt_scrum st))"
    and "available_microseconds st i g = Inr available" and "daily_ceiling st i g = Inr day_limit"
    and "within_capacity c0 c (mi_id i) g available day_limit"
  shows "within_capacity c0 c' (mi_id i) g available day_limit"
  using advance_visit_cases(4)[OF assms(1-3)]
proof (elim disjE exE conjE)
  assume "c' = c"
  then show ?thesis using assms(8) by simp
next
  fix j cap
  assume j: "j \<in> set (st_member_identities (lt_scrum st))" "segment_capacity st g c0 c j = Inr cap"
    "credit (as_visit a) v' = min (ca_microseconds cap) (sv_remaining (as_visit a))"
    "c' = dict_set (mi_id j, sg_business_date g) (account c (mi_id j) g + credit (as_visit a) v') c"
  show ?thesis
  proof (cases "mi_id j = mi_id i")
    case True
    then have "j = i" using identity_unique[OF assms(4) j(1) assms(5)] by simp
    note cap = segment_capacity_bounds[OF j(2)[unfolded this] assms(6,7)]
    have k: "0 \<le> credit (as_visit a) v'" "credit (as_visit a) v' \<le> ca_microseconds cap" using j(3) cap(1) assms(2) by auto
    have "account c' (mi_id i) g = account c (mi_id i) g + credit (as_visit a) v'" by (simp add: j(4) \<open>j = i\<close> dict_simps)
    then show ?thesis using assms(8) k cap by (auto simp: within_capacity_def)
  next
    case False
    then have "account c' (mi_id i) g = account c (mi_id i) g" by (simp add: j(4) dict_simps)
    then show ?thesis using assms(8) by (simp add: within_capacity_def)
  qed
qed

lemma advance_assigned_capacity:
  assumes "advance_assigned cd st g c0 as adv qs c = Inr (adv', qs', c')"
    and "\<forall>a \<in> set as. 0 \<le> sv_remaining (as_visit a)" and "0 \<le> sg_microseconds g"
    and "distinct (map mi_id (st_member_identities (lt_scrum st)))" and "i \<in> set (st_member_identities (lt_scrum st))"
    and "available_microseconds st i g = Inr available" and "daily_ceiling st i g = Inr day_limit"
    and "within_capacity c0 c (mi_id i) g available day_limit"
  shows "within_capacity c0 c' (mi_id i) g available day_limit"
  using assms
proof (induction cd st g c0 as adv qs c rule: advance_assigned.induct)
  case (1 cd st g c0 adv qs c)
  then show ?case by simp
next
  case (2 cd st g c0 a as adv qs c)
  obtain v1 q1 c1 where v: "advance_visit cd st g c0 a c = Inr (v1, q1, c1)"
    and rest: "advance_assigned cd st g c0 as (dict_set (sv_id v1) v1 adv)
      (qs @ (case q1 of None \<Rightarrow> [] | Some q \<Rightarrow> [q])) c1 = Inr (adv', qs', c')"
    using "2.prems"(1) by (auto elim!: bindR_Inr3E)
  have r0: "0 \<le> sv_remaining (as_visit a)" using "2.prems"(2) by simp
  have "within_capacity c0 c1 (mi_id i) g available day_limit"
    by (rule advance_visit_capacity[OF v r0 "2.prems"(3-8)])
  with "2.IH"[OF v refl refl rest] "2.prems"(2-7) show ?case by simp
qed

section \<open>Owners\<close>

definition same_but_owner :: "StatusVisitState \<Rightarrow> StatusVisitState \<Rightarrow> bool" where
  "same_but_owner v w \<longleftrightarrow> v\<lparr>sv_member_id := None\<rparr> = w\<lparr>sv_member_id := None\<rparr>"

lemma same_but_owner_refl [simp]: "same_but_owner v v"
  by (simp add: same_but_owner_def)

lemma same_but_owner_update [simp]: "same_but_owner v (v\<lparr>sv_member_id := m\<rparr>)"
  by (simp add: same_but_owner_def)

lemma same_but_owner_trans: "same_but_owner a b \<Longrightarrow> same_but_owner b c \<Longrightarrow> same_but_owner a c"
  by (simp add: same_but_owner_def)

lemma same_but_owner_progressed:
  assumes "same_but_owner v w" "progressed w x"
  shows "progressed v x" "credit v x = credit w x"
proof -
  have "v\<lparr>sv_member_id := None\<rparr> = w\<lparr>sv_member_id := None\<rparr>" using assms(1) by (simp add: same_but_owner_def)
  note arg_cong[OF this]
  from this[of sv_id] this[of sv_team_id] this[of sv_run_id] this[of sv_work_item_id] this[of sv_ordinal]
    this[of sv_lifecycle] this[of sv_status_key] this[of sv_activity_key] this[of sv_entered_at] this[of sv_closed_at]
    this[of sv_required] this[of sv_elapsed] this[of sv_remaining] this[of sv_queue] this[of sv_pause] this[of sv_credited]
  have f: "sv_id v = sv_id w" "sv_team_id v = sv_team_id w" "sv_run_id v = sv_run_id w" "sv_work_item_id v = sv_work_item_id w"
    "sv_ordinal v = sv_ordinal w" "sv_lifecycle v = sv_lifecycle w" "sv_status_key v = sv_status_key w"
    "sv_activity_key v = sv_activity_key w" "sv_entered_at v = sv_entered_at w" "sv_closed_at v = sv_closed_at w"
    "sv_required v = sv_required w" "sv_elapsed v = sv_elapsed w" "sv_remaining v = sv_remaining w"
    "sv_queue v = sv_queue w" "sv_pause v = sv_pause w" "sv_credited v = sv_credited w" by simp_all
  show c: "credit v x = credit w x" by (simp add: credit_def f)
  show "progressed v x" using assms(2) unfolding progressed_def c by (simp add: f)
qed

lemma same_but_owner_fields:
  assumes "same_but_owner v w"
  shows "sv_id w = sv_id v" "sv_remaining w = sv_remaining v" "sv_work_item_id w = sv_work_item_id v"
    "sv_status_key w = sv_status_key v" "sv_activity_key w = sv_activity_key v"
proof -
  have "v\<lparr>sv_member_id := None\<rparr> = w\<lparr>sv_member_id := None\<rparr>" using assms by (simp add: same_but_owner_def)
  note arg_cong[OF this]
  from this[of sv_id] this[of sv_remaining] this[of sv_work_item_id] this[of sv_status_key] this[of sv_activity_key]
  show "sv_id w = sv_id v" "sv_remaining w = sv_remaining v" "sv_work_item_id w = sv_work_item_id v"
    "sv_status_key w = sv_status_key v" "sv_activity_key w = sv_activity_key v" by simp_all
qed

definition owned_by :: "uuid \<Rightarrow> StatusVisitState list \<Rightarrow> int" where
  "owned_by m vs = int (length (filter (\<lambda>v. sv_member_id v = Some m) vs))"

lemma owned_by_simps [simp]:
  "owned_by m [] = 0"
  "owned_by m (v # vs) = (if sv_member_id v = Some m then 1 else 0) + owned_by m vs"
  by (simp_all add: owned_by_def)

lemma count_retained_get: "dict_get_default (count_retained m r) k 0 =
    (if k = m then dict_get_default r m 0 + 1 else dict_get_default r k 0)"
  by (simp add: count_retained_def dict_simps)

text \<open>The dictionary \<open>retained\<close> counts the owners so far and stays below the limit of each member.\<close>

definition wip_limit :: "LiveTeamState \<Rightarrow> (uuid, MemberIdentity) dict \<Rightarrow> uuid \<Rightarrow> int \<Rightarrow> bool" where
  "wip_limit st members m limit \<longleftrightarrow>
     (\<forall>i b. (m, i) \<in> set members \<longrightarrow> member_blueprint st i = Inr b \<longrightarrow> mb_max_concurrent_wip b \<le> limit)"

lemma keeps_owner_Inr:
  assumes "keeps_owner st members g v retained = Inr True"
  shows "\<exists>m i b. sv_member_id v = Some m \<and> (m, i) \<in> set members \<and> member_blueprint st i = Inr b \<and>
    dict_get_default retained (mi_id i) 0 < mb_max_concurrent_wip b"
  using assms
  by (auto simp: keeps_owner_def can_retain_def dict_get_Inr elim!: bindR_InrE split: option.splits dest!: map_of_SomeD)

lemma retain_owners_spec:
  assumes "retain_owners cd st members g vs retained = Inr (assigned, final)"
    and "\<forall>(k, i) \<in> set members. mi_id i = k"
  shows "list_all2 same_but_owner vs assigned \<and>
    (\<forall>m. dict_get_default final m 0 = dict_get_default retained m 0 + owned_by m assigned) \<and>
    (\<forall>m limit. wip_limit st members m limit \<longrightarrow> dict_get_default retained m 0 \<le> limit \<longrightarrow> dict_get_default final m 0 \<le> limit)"
  using assms(1)
proof (induction vs arbitrary: retained assigned)
  case Nil
  then show ?case by simp
next
  case (Cons v vs)
  obtain keep where keep: "keeps_owner st members g v retained = Inr keep"
    using Cons.prems by (auto elim!: bindR_InrE)
  obtain rest where rest: "retain_owners cd st members g vs
      (if keep then count_retained (the (sv_member_id v)) retained else retained) = Inr (rest, final)"
    and kept: "assigned = (if keep then v else v\<lparr>sv_member_id := None\<rparr>) # rest"
    using Cons.prems keep by (auto simp: replaced_Inr elim!: bindR_InrE bindR_Inr2E split: if_splits)
  note ih = Cons.IH[OF rest]
  show ?case
  proof (cases keep)
    case False
    then show ?thesis using ih kept by auto
  next
    case True
    then have "keeps_owner st members g v retained = Inr True" using keep by simp
    then obtain m i b where o: "sv_member_id v = Some m" "(m, i) \<in> set members" "member_blueprint st i = Inr b"
      "dict_get_default retained (mi_id i) 0 < mb_max_concurrent_wip b" using keeps_owner_Inr by blast
    have "mi_id i = m" using assms(2) o(2) by auto
    then have counted: "dict_get_default (count_retained m retained) m 0 \<le> limit" if "wip_limit st members m limit" for limit
      using that o(2-4) by (fastforce simp: wip_limit_def count_retained_get)
    have f: "list_all2 same_but_owner vs rest"
      "\<And>k. dict_get_default final k 0 = dict_get_default (count_retained m retained) k 0 + owned_by k rest"
      "\<And>k limit. wip_limit st members k limit \<Longrightarrow> dict_get_default (count_retained m retained) k 0 \<le> limit \<Longrightarrow>
         dict_get_default final k 0 \<le> limit" using ih True o(1) by auto
    show ?thesis
    proof (intro conjI allI impI)
      fix k limit
      assume k: "wip_limit st members k limit" "dict_get_default retained k 0 \<le> limit"
      then have "dict_get_default (count_retained m retained) k 0 \<le> limit"
        using counted by (cases "k = m") (simp_all add: count_retained_get)
      then show "dict_get_default final k 0 \<le> limit" using f(3) k(1) by blast
    qed (use f(1,2) kept True o(1) in \<open>auto simp: count_retained_get\<close>)
  qed
qed

section \<open>The choice of an owner\<close>

text \<open>What the loop over the members asks of each of them, in its order.\<close>

definition is_capable :: "LiveTeamState \<Rightarrow> StatusVisitState \<Rightarrow> MemberIdentity \<Rightarrow> bool" where
  "is_capable st v i \<longleftrightarrow> (\<exists>m. member_blueprint st i = Inr m \<and> proficiency m (sv_activity_key v) \<noteq> None)"

definition is_present :: "LiveTeamState \<Rightarrow> BusinessSegment \<Rightarrow> MemberIdentity \<Rightarrow> bool" where
  "is_present st g i \<longleftrightarrow> effective_fraction st i g \<noteq> Inr 0"

definition has_labour :: "LiveTeamState \<Rightarrow> BusinessSegment \<Rightarrow> consumption \<Rightarrow> MemberIdentity \<Rightarrow> bool" where
  "has_labour st g c i \<longleftrightarrow> remaining_capacity st i g c \<noteq> Inr 0"

definition has_room :: "LiveTeamState \<Rightarrow> (uuid, int) dict \<Rightarrow> MemberIdentity \<Rightarrow> bool" where
  "has_room st retained i \<longleftrightarrow>
     (\<exists>m. member_blueprint st i = Inr m \<and> dict_get_default retained (mi_id i) 0 < mb_max_concurrent_wip m)"

definition skill :: "LiveTeamState \<Rightarrow> StatusVisitState \<Rightarrow> MemberIdentity \<Rightarrow> py_float" where
  "skill st v i = (case member_blueprint st i of Inr m \<Rightarrow> the (proficiency m (sv_activity_key v)) | Inl _ \<Rightarrow> 0)"

definition eligible ::
  "LiveTeamState \<Rightarrow> StatusVisitState \<Rightarrow> BusinessSegment \<Rightarrow> consumption \<Rightarrow> (uuid, int) dict \<Rightarrow> MemberIdentity \<Rightarrow> bool" where
  "eligible st v g c retained i \<longleftrightarrow>
     is_capable st v i \<and> is_present st g i \<and> has_labour st g c i \<and> has_room st retained i"

definition ranking :: "LiveTeamState \<Rightarrow> StatusVisitState \<Rightarrow> MemberIdentity \<Rightarrow> py_float \<times> int \<times> MemberIdentity" where
  "ranking st v i = (skill st v i, - mi_blueprint_index i, i)"

lemma consider_member_spec:
  assumes "consider_member st v g c retained i acc = Inr acc'"
  shows "acc' =
    \<lparr>cn_capable = (cn_capable acc \<or> is_capable st v i),
     cn_available = (cn_available acc \<or> is_capable st v i \<and> is_present st g i),
     cn_has_capacity = (cn_has_capacity acc \<or> is_capable st v i \<and> is_present st g i \<and> has_labour st g c i),
     cn_candidates = cn_candidates acc @ (if eligible st v g c retained i then [ranking st v i] else [])\<rparr>"
proof -
  obtain m where m: "member_blueprint st i = Inr m"
    using assms by (auto simp: consider_member_def elim!: bindR_InrE)
  have e: "effective_fraction st i g = Inr (fraction_of st i g m)" by (simp add: effective_fraction_def m)
  show ?thesis
  proof (cases "proficiency m (sv_activity_key v)")
    case None
    then show ?thesis
      using assms by (simp add: consider_member_def m is_capable_def eligible_def)
  next
    case (Some p)
    then have cap: "is_capable st v i" "skill st v i = p" by (simp_all add: is_capable_def skill_def m)
    show ?thesis
    proof (cases "fraction_of st i g m = 0")
      case True
      then show ?thesis
        using assms cap Some by (cases acc) (auto simp: consider_member_def m e is_present_def eligible_def Let_def)
    next
      case False
      then obtain k where k: "remaining_capacity st i g c = Inr k"
        using assms Some by (auto simp: consider_member_def m e Let_def elim!: bindR_InrE)
      show ?thesis
        using assms cap Some False k
        by (cases acc; cases "k = 0") (auto simp: consider_member_def m e is_present_def has_labour_def has_room_def eligible_def ranking_def Let_def)
    qed
  qed
qed

lemma consider_members_spec:
  assumes "foldR (consider_member st v g c retained) ids acc = Inr acc'"
  shows "acc' =
    \<lparr>cn_capable = (cn_capable acc \<or> (\<exists>i \<in> set ids. is_capable st v i)),
     cn_available = (cn_available acc \<or> (\<exists>i \<in> set ids. is_capable st v i \<and> is_present st g i)),
     cn_has_capacity = (cn_has_capacity acc \<or> (\<exists>i \<in> set ids. is_capable st v i \<and> is_present st g i \<and> has_labour st g c i)),
     cn_candidates = cn_candidates acc @ map (ranking st v) (filter (eligible st v g c retained) ids)\<rparr>"
  using assms
proof (induction ids arbitrary: acc)
  case (Cons i ids)
  then obtain acc1 where a: "consider_member st v g c retained i acc = Inr acc1"
    "foldR (consider_member st v g c retained) ids acc1 = Inr acc'" by (auto elim!: bindR_InrE)
  show ?case using Cons.IH[OF a(2)] consider_member_spec[OF a(1)] by auto
qed simp

lemma best_candidate_Some:
  assumes "best_candidate xs = Some i"
  shows "\<exists>x \<in> set xs. snd (snd x) = i \<and> (\<forall>y \<in> set xs. (fst y, fst (snd y)) \<le> (fst x, fst (snd x)))"
proof -
  define key where "key = (\<lambda>y :: py_float \<times> int \<times> MemberIdentity. (fst y, fst (snd y)))"
  define pick where "pick = (\<lambda>y best. if key best < key y then y else best)"
  have p: "fold pick ys x \<in> set (x # ys) \<and> (\<forall>y \<in> set (x # ys). key y \<le> key (fold pick ys x))" for ys x
  proof (induction ys arbitrary: x)
    case (Cons z zs)
    have "key x \<le> key (pick z x)" "key z \<le> key (pick z x)" "pick z x \<in> {x, z}"
      unfolding pick_def by (auto simp del: less_eq_prod_simp less_prod_simp)
    with Cons[of "pick z x"] show ?case by (auto intro: order_trans)
  qed simp
  obtain x ys where xs: "xs = x # ys" using assms by (cases xs) auto
  have "i = snd (snd (fold pick ys x))" using assms by (simp add: xs pick_def key_def)
  then show ?thesis using p[of ys x] unfolding xs key_def by blast
qed

lemma best_candidate_None: "best_candidate xs = None \<longleftrightarrow> xs = []"
  by (cases xs) auto

lemma assign_owner_cases:
  assumes "assign_owner cd st members v g c retained = Inr (a, retained')"
  obtains (denied) "as_visit a = v" "as_denied_reason a \<noteq> None" "retained' = retained"
      "\<forall>i \<in> snd ` set members. \<not> eligible st v g c retained i"
      "as_denied_reason a = Some (
         if \<not> (\<exists>i \<in> snd ` set members. is_capable st v i) then ''NO_CAPABLE_MEMBER''
         else if \<not> (\<exists>i \<in> snd ` set members. is_capable st v i \<and> is_present st g i) then ''UNAVAILABLE''
         else if \<not> (\<exists>i \<in> snd ` set members. is_capable st v i \<and> is_present st g i \<and> has_labour st g c i)
         then ''DAILY_CAPACITY'' else ''WIP_LIMIT'')"
    | (owned) i where "i \<in> snd ` set members" "eligible st v g c retained i" "as_visit a = v\<lparr>sv_member_id := Some (mi_id i)\<rparr>"
      "check_visit cd (as_visit a) = Inr ()" "as_denied_reason a = None" "retained' = count_retained (mi_id i) retained"
      "\<forall>j \<in> snd ` set members. eligible st v g c retained j \<longrightarrow>
         skill st v j < skill st v i \<or> skill st v j = skill st v i \<and> mi_blueprint_index i \<le> mi_blueprint_index j"
proof -
  obtain acc where acc: "foldR (consider_member st v g c retained) (map snd members)
      \<lparr>cn_capable = False, cn_available = False, cn_has_capacity = False, cn_candidates = []\<rparr> = Inr acc"
    using assms by (auto simp: assign_owner_def elim!: bindR_InrE)
  define M where "M = snd ` set members"
  have s: "cn_capable acc = (\<exists>i \<in> M. is_capable st v i)"
    "cn_available acc = (\<exists>i \<in> M. is_capable st v i \<and> is_present st g i)"
    "cn_has_capacity acc = (\<exists>i \<in> M. is_capable st v i \<and> is_present st g i \<and> has_labour st g c i)"
    "set (cn_candidates acc) = ranking st v ` {i \<in> M. eligible st v g c retained i}"
    unfolding M_def using arg_cong[OF consider_members_spec[OF acc], of cn_capable]
      arg_cong[OF consider_members_spec[OF acc], of cn_available] arg_cong[OF consider_members_spec[OF acc], of cn_has_capacity]
      arg_cong[OF consider_members_spec[OF acc], of cn_candidates] by auto
  show ?thesis
  proof (cases "best_candidate (cn_candidates acc)")
    case None
    then have "\<forall>i \<in> M. \<not> eligible st v g c retained i"
      using s(4) by (auto simp: best_candidate_None)
    moreover have "as_visit a = v" "retained' = retained" "as_denied_reason a =
        Some (assignment_denial_reason (cn_capable acc) (cn_available acc) (cn_has_capacity acc))"
      using assms acc None by (auto simp: assign_owner_def)
    ultimately show ?thesis
      by (intro denied) (simp_all only: s(1-3) assignment_denial_reason_def M_def[symmetric] option.distinct not_False_eq_True)
  next
    case (Some i)
    obtain x where x: "x \<in> set (cn_candidates acc)" "snd (snd x) = i"
      "\<forall>y \<in> set (cn_candidates acc). (fst y, fst (snd y)) \<le> (fst x, fst (snd x))"
      using best_candidate_Some[OF Some] by blast
    then have i: "i \<in> M" "eligible st v g c retained i" "x = ranking st v i"
      by (auto simp: s ranking_def)
    have "\<forall>j \<in> M. eligible st v g c retained j \<longrightarrow>
        skill st v j < skill st v i \<or> skill st v j = skill st v i \<and> mi_blueprint_index i \<le> mi_blueprint_index j"
      using x(3) by (auto simp: s i(3) ranking_def)
    moreover have "as_visit a = v\<lparr>sv_member_id := Some (mi_id i)\<rparr>" "check_visit cd (as_visit a) = Inr ()"
      "as_denied_reason a = None" "retained' = count_retained (mi_id i) retained"
      using assms acc Some by (auto simp: assign_owner_def replaced_Inr elim!: bindR_InrE)
    ultimately show ?thesis using i(1,2) unfolding M_def by (intro owned[of i]) simp_all
  qed
qed

lemma assign_unowned_spec:
  assumes "assign_unowned cd st members g c vs retained = Inr as" and "\<forall>(k, i) \<in> set members. mi_id i = k"
  shows "list_all2 same_but_owner vs (map as_visit as) \<and>
    (\<forall>m limit. wip_limit st members m limit \<longrightarrow> 0 \<le> dict_get_default retained m 0 \<longrightarrow>
       owned_by m (map as_visit as) \<le> owned_by m vs + max 0 (limit - dict_get_default retained m 0))"
  using assms(1)
proof (induction vs arbitrary: retained as)
  case Nil
  then show ?case by simp
next
  case (Cons v vs)
  obtain a retained' rest where a: "(if sv_member_id v = None then assign_owner cd st members v g c retained
      else Inr (\<lparr>as_visit = v, as_denied_reason = None\<rparr>, retained)) = Inr (a, retained')"
    and rest: "assign_unowned cd st members g c vs retained' = Inr rest" and as: "as = a # rest"
    using Cons.prems by (auto elim!: bindR_Inr2E bindR_InrE)
  note ih = Cons.IH[OF rest]
  consider (same) "as_visit a = v" "retained' = retained"
    | (owned) i b where "sv_member_id v = None" "(mi_id i, i) \<in> set members" "member_blueprint st i = Inr b"
        "dict_get_default retained (mi_id i) 0 < mb_max_concurrent_wip b"
        "as_visit a = v\<lparr>sv_member_id := Some (mi_id i)\<rparr>" "retained' = count_retained (mi_id i) retained"
  proof (cases "sv_member_id v = None")
    case True
    then have "assign_owner cd st members v g c retained = Inr (a, retained')" using a by simp
    then show ?thesis
    proof (cases rule: assign_owner_cases)
      case denied
      then show ?thesis by (intro that(1))
    next
      case (owned i)
      then obtain b where "member_blueprint st i = Inr b" "dict_get_default retained (mi_id i) 0 < mb_max_concurrent_wip b"
        by (auto simp: eligible_def has_room_def)
      moreover have "(mi_id i, i) \<in> set members" using owned(1) assms(2) by auto
      ultimately show ?thesis using True owned by (intro that(2)) simp_all
    qed
  next
    case False
    then show ?thesis using a by (intro that(1)) auto
  qed
  then show ?case
  proof cases
    case same
    then show ?thesis using ih as by auto
  next
    case owned
    show ?thesis
    proof (intro conjI allI impI)
      show "list_all2 same_but_owner (v # vs) (map as_visit as)" using ih as owned(5) by simp
      fix m limit
      assume m: "wip_limit st members m limit" "0 \<le> dict_get_default retained m 0"
      have nn: "0 \<le> dict_get_default retained' m 0" using m(2) by (auto simp: owned(6) count_retained_get)
      have ih': "owned_by m (map as_visit rest) \<le> owned_by m vs + max 0 (limit - dict_get_default retained' m 0)"
        using ih m(1) nn by blast
      show "owned_by m (map as_visit as) \<le> owned_by m (v # vs) + max 0 (limit - dict_get_default retained m 0)"
      proof (cases "mi_id i = m")
        case True
        then have "mb_max_concurrent_wip b \<le> limit" using m(1) owned(2,3) by (auto simp: wip_limit_def)
        then show ?thesis using ih' owned(1,4,5,6) True as by (simp add: count_retained_get)
      next
        case False
        then show ?thesis using ih' owned(1,5,6) as by (simp add: count_retained_get)
      qed
    qed
  qed
qed

lemma assign_owners_spec:
  assumes "assign_owners cd st vs g c = Inr as"
  shows "list_all2 same_but_owner vs (map as_visit as)"
    "wip_limit st (dict_of mi_id (st_member_identities (lt_scrum st))) m limit \<Longrightarrow> 0 \<le> limit \<Longrightarrow>
       owned_by m (map as_visit as) \<le> limit"
proof -
  let ?members = "dict_of mi_id (st_member_identities (lt_scrum st))"
  have keyed: "\<forall>(k, i) \<in> set ?members. mi_id i = k"
    using well_keyed_dict_of[of mi_id "st_member_identities (lt_scrum st)"] by (simp add: well_keyed_def)
  obtain mid retained where mid: "retain_owners cd st ?members g vs [] = Inr (mid, retained)"
    and fin: "assign_unowned cd st ?members g c mid retained = Inr as"
    using assms by (auto simp: assign_owners_def Let_def elim!: bindR_Inr2E)
  note r = retain_owners_spec[OF mid keyed] and u = assign_unowned_spec[OF fin keyed]
  show "list_all2 same_but_owner vs (map as_visit as)"
    using r u by (blast intro: list_all2_trans[of same_but_owner same_but_owner same_but_owner] same_but_owner_trans)
  assume w: "wip_limit st ?members m limit" "0 \<le> limit"
  have z: "dict_get_default [] m 0 = (0 :: int)" by (simp add: dict_get_default_def)
  have "dict_get_default retained m 0 = dict_get_default [] m 0 + owned_by m mid"
    "dict_get_default [] m 0 \<le> limit \<longrightarrow> dict_get_default retained m 0 \<le> limit" using r w(1) by blast+
  then have g: "dict_get_default retained m 0 = owned_by m mid" "dict_get_default retained m 0 \<le> limit" using z w(2) by simp_all
  have n: "0 \<le> dict_get_default retained m 0" using g(1) by (simp add: owned_by_def)
  have "owned_by m (map as_visit as) \<le> owned_by m mid + max 0 (limit - dict_get_default retained m 0)"
    using u w(1) n by blast
  then show "owned_by m (map as_visit as) \<le> limit" using g by simp
qed

section \<open>A segment\<close>

lemma fold_dict_set_fresh:
  assumes "distinct (map key vs)" "key ` set vs \<inter> fst ` set d = {}"
  shows "fold (\<lambda>v. dict_set (key v) v) vs d = d @ map (\<lambda>v. (key v, v)) vs"
  using assms
proof (induction vs arbitrary: d)
  case (Cons v vs)
  have "AList.update (key v) v d = d @ [(key v, v)]" if "key v \<notin> fst ` set d" for d
    using that by (induction d) auto
  then have "dict_set (key v) v d = d @ [(key v, v)]" using Cons.prems(2) by auto
  moreover have "key ` set vs \<inter> fst ` set (d @ [(key v, v)]) = {}" using Cons.prems by auto
  ultimately show ?case using Cons.IH[of "d @ [(key v, v)]"] Cons.prems(1) by simp
qed simp

lemma map_of_blocked:
  "map_of (blocked_visits blocked visits) i = (if i \<in> set blocked then map_of visits i else None)"
proof -
  have "map_of (fold (\<lambda>i d. case map_of visits i of None \<Rightarrow> d | Some v \<Rightarrow> dict_set i v d) blocked d) i =
      (if i \<in> set blocked \<and> map_of visits i \<noteq> None then map_of visits i else map_of d i)" for d
    by (induction blocked arbitrary: d) (auto simp: dict_simps split: option.splits)
  from this[of "[]"] show ?thesis by (auto simp: blocked_visits_def)
qed

lemma distinct_blocked: "distinct (map fst (blocked_visits blocked visits))"
proof -
  have "distinct (map fst d) \<Longrightarrow>
    distinct (map fst (fold (\<lambda>i d. case map_of visits i of None \<Rightarrow> d | Some v \<Rightarrow> dict_set i v d) blocked d))" for d
    by (induction blocked arbitrary: d) (auto simp: distinct_dict_set split: option.splits)
  then show ?thesis by (simp add: blocked_visits_def)
qed

lemma ranked_spec:
  assumes "ranked works vs = Inr os"
  shows "mset os = mset vs"
proof -
  obtain keyed where k: "mapR (\<lambda>v. bindR (dict_get works (sv_work_item_id v)) (\<lambda>w.
      bindR (check_rank (simulator_rank w)) (\<lambda>_. Inr (rank_sort_key (simulator_rank w), v)))) vs = Inr keyed"
    "os = map snd (sort_key fst keyed)" using assms by (auto simp: ranked_def elim!: bindR_InrE)
  have "map snd keyed = vs"
    using k(1) by (induction vs arbitrary: keyed) (auto elim!: bindR_InrE)
  then show ?thesis by (metis k(2) mset_map mset_sort)
qed

text \<open>The result of a segment: the blocked visits as they were, then the others in rank order.\<close>

lemma advance_segment_shape:
  assumes "advance_segment cd st works visits c g blocked = Inr (visits', qs, c')"
    and "well_keyed sv_id visits" and "\<forall>(i, v) \<in> set visits. 0 \<le> sv_remaining v" and "0 \<le> sg_microseconds g"
  obtains os as vs' where
    "mset os = mset (filter (\<lambda>v. sv_id v \<notin> set blocked) (map snd visits))"
    "assign_owners cd st os g c = Inr as" "advance_assigned cd st g c as (blocked_visits blocked visits) [] c = Inr (visits', qs, c')"
    "list_all2 same_but_owner os (map as_visit as)"
    "list_all2 (worked_on cd) (map as_visit as) vs'" "list_all2 (\<lambda>v v'. progressed v v') os vs'"
    "map sv_id os = map sv_id vs'" "distinct (map sv_id os)"
    "visits' = blocked_visits blocked visits @ map (\<lambda>v. (sv_id v, v)) vs'"
    "\<And>m. account c' m g = account c m g + labour_for m (zip os vs')"
    "\<And>k. snd k \<noteq> sg_business_date g \<Longrightarrow> dict_get_default c' k 0 = dict_get_default c k 0"
proof -
  obtain os as where o: "ranked works (filter (\<lambda>v. sv_id v \<notin> set blocked) (map snd visits)) = Inr os"
    "assign_owners cd st os g c = Inr as" "advance_assigned cd st g c as (blocked_visits blocked visits) [] c = Inr (visits', qs, c')"
    using assms(1) by (auto simp: advance_segment_def elim!: bindR_InrE)
  have ms: "mset os = mset (filter (\<lambda>v. sv_id v \<notin> set blocked) (map snd visits))" by (rule ranked_spec[OF o(1)])
  have so: "list_all2 same_but_owner os (map as_visit as)" by (rule assign_owners_spec(1)[OF o(2)])
  have set_os: "set os = {v \<in> snd ` set visits. sv_id v \<notin> set blocked}" using arg_cong[OF ms, of set_mset] by auto
  have nn: "\<forall>a \<in> set as. 0 \<le> sv_remaining (as_visit a)"
  proof
    fix a assume "a \<in> set as"
    then obtain v where "v \<in> set os" "same_but_owner v (as_visit a)"
      using so by (auto simp: list_all2_map2 list_all2_conv_all_nth in_set_conv_nth) metis
    moreover have "0 \<le> sv_remaining v" using \<open>v \<in> set os\<close> set_os assms(3) by auto
    ultimately show "0 \<le> sv_remaining (as_visit a)" by (simp add: same_but_owner_fields)
  qed
  obtain vs' where vs': "list_all2 (worked_on cd) (map as_visit as) vs'"
    "visits' = fold (\<lambda>v. dict_set (sv_id v) v) vs' (blocked_visits blocked visits)"
    "\<forall>m. account c' m g = account c m g + labour_for m (zip (map as_visit as) vs')"
    "\<forall>k. snd k \<noteq> sg_business_date g \<longrightarrow> dict_get_default c' k 0 = dict_get_default c k 0"
    using advance_assigned_spec[OF o(3) nn assms(4)] by blast
  have pr: "list_all2 progressed os vs'"
    by (rule list_all2_trans[OF _ so vs'(1)]) (auto simp: worked_on_def dest: same_but_owner_progressed(1))
  have ids: "map sv_id os = map sv_id vs'"
    using pr by (auto simp: list_all2_conv_all_nth progressed_parts intro!: nth_equalityI)
  have "map sv_id (map snd visits) = map fst visits"
    using assms(2) by (auto simp: well_keyed_def)
  then have d: "distinct (map sv_id (map snd visits))" using assms(2) by (simp only: well_keyed_def)
  then have "distinct (map sv_id (filter (\<lambda>v. sv_id v \<notin> set blocked) (map snd visits)))"
    by (rule distinct_map_filter_key)
  then have dos: "distinct (map sv_id os)" using ms by (metis mset_eq_imp_distinct_iff mset_map)
  have fresh: "sv_id ` set vs' \<inter> fst ` set (blocked_visits blocked visits) = {}"
  proof -
    have "fst ` set (blocked_visits blocked visits) \<subseteq> set blocked"
      by (metis (no_types, lifting) map_of_blocked map_of_eq_None_iff subsetI)
    moreover have "sv_id ` set vs' = sv_id ` set os" using ids by (metis list.set_map)
    ultimately show ?thesis using set_os by auto
  qed
  have shape: "visits' = blocked_visits blocked visits @ map (\<lambda>v. (sv_id v, v)) vs'"
    using fold_dict_set_fresh[OF _ fresh] dos ids vs'(2) by simp
  have lab: "labour_for m (zip (map as_visit as) vs') = labour_for m (zip os vs')" for m
    using so vs'(1)
  proof (induction os "map as_visit as" arbitrary: as vs' rule: list_all2_induct)
    case Nil
    then show ?case by simp
  next
    case (Cons v vs w ws)
    then obtain x xs where x: "vs' = x # xs" "worked_on cd w x" by (auto simp: list_all2_Cons1)
    then have "credit v x = credit w x" using Cons(1) by (auto simp: worked_on_def same_but_owner_progressed)
    then show ?case using Cons x by (cases as) (auto simp: list_all2_Cons1)
  qed
  show thesis
    using that[OF ms o(2,3) so vs'(1) pr ids dos shape] vs'(3,4) lab by simp
qed

text \<open>Labour of a member between two dictionaries of visits.\<close>

definition labour_between ::
  "uuid \<Rightarrow> (uuid, StatusVisitState) dict \<Rightarrow> (uuid, StatusVisitState) dict \<Rightarrow> int" where
  "labour_between m visits visits' =
     (\<Sum>v'\<leftarrow>map snd visits'. if sv_member_id v' = Some m
        then sv_credited v' - sv_credited (the (map_of visits (sv_id v'))) else 0)"

lemma sum_list_zero: "(\<And>x. x \<in> set xs \<Longrightarrow> f x = 0) \<Longrightarrow> (\<Sum>x\<leftarrow>xs. f x) = (0 :: int)"
  by (induction xs) auto

lemma labour_between_shape:
  assumes "well_keyed sv_id visits" and "list_all2 progressed os vs'" and "set os \<subseteq> snd ` set visits"
  shows "labour_between m visits (blocked_visits blocked visits @ map (\<lambda>v. (sv_id v, v)) vs') = labour_for m (zip os vs')"
proof -
  have dk: "distinct (map fst visits)" "\<And>i v. (i, v) \<in> set visits \<Longrightarrow> sv_id v = i"
    using assms(1) by (auto simp: well_keyed_def)
  have b: "the (map_of visits (sv_id v)) = v" if iv: "(i, v) \<in> set (blocked_visits blocked visits)" for i v
  proof -
    have "map_of (blocked_visits blocked visits) i = Some v" by (rule map_of_is_SomeI[OF distinct_blocked iv])
    then have "map_of visits i = Some v" by (simp add: map_of_blocked split: if_splits)
    then show ?thesis using dk(2) map_of_SomeD by fastforce
  qed
  have z: "(\<Sum>v'\<leftarrow>map snd (blocked_visits blocked visits). if sv_member_id v' = Some m
        then sv_credited v' - sv_credited (the (map_of visits (sv_id v'))) else 0) = 0"
    using b by (intro sum_list_zero) auto
  have o: "the (map_of visits (sv_id v)) = v" if v: "v \<in> snd ` set visits" for v
  proof -
    obtain k where k: "(k, v) \<in> set visits" using v by auto
    then have "map_of visits (sv_id v) = Some v" using dk by (simp add: map_of_is_SomeI)
    then show ?thesis by simp
  qed
  have "(\<Sum>v'\<leftarrow>vs'. if sv_member_id v' = Some m
        then sv_credited v' - sv_credited (the (map_of visits (sv_id v'))) else 0) = labour_for m (zip os vs')"
    using assms(2,3)
  proof (induction os vs' rule: list_all2_induct)
    case (Cons v os v' vs')
    have "sv_id v' = sv_id v" using Cons(1) by (rule progressed_parts)
    then show ?case using Cons o[of v] by (simp add: credit_def)
  qed simp
  then show ?thesis using z by (simp add: labour_between_def comp_def)
qed

text \<open>(C15) In a business segment a member is credited exactly the labour that the consumption record gains:
  never more than the member's available share of the segment, never more than the segment is long,
  and never past the daily ceiling (unless the day was past it already).\<close>

theorem advance_segment_labour:
  assumes "advance_segment cd st works visits c g blocked = Inr (visits', qs, c')"
    and "well_keyed sv_id visits" and "\<forall>(k, v) \<in> set visits. 0 \<le> sv_remaining v"
    and "0 \<le> sg_microseconds g" and "sg_microseconds g \<le> 2 ^ 53"
    and "distinct (map mi_id (st_member_identities (lt_scrum st)))" and "i \<in> set (st_member_identities (lt_scrum st))"
    and "available_microseconds st i g = Inr available" and "daily_ceiling st i g = Inr day_limit"
  shows "account c' (mi_id i) g = account c (mi_id i) g + labour_between (mi_id i) visits visits' \<and>
    0 \<le> labour_between (mi_id i) visits visits' \<and> labour_between (mi_id i) visits visits' \<le> max 0 available \<and>
    available \<le> sg_microseconds g \<and> account c' (mi_id i) g \<le> max (account c (mi_id i) g) day_limit"
proof -
  obtain os as vs' where s: "mset os = mset (filter (\<lambda>v. sv_id v \<notin> set blocked) (map snd visits))"
    "advance_assigned cd st g c as (blocked_visits blocked visits) [] c = Inr (visits', qs, c')"
    "list_all2 same_but_owner os (map as_visit as)" "list_all2 progressed os vs'"
    "visits' = blocked_visits blocked visits @ map (\<lambda>v. (sv_id v, v)) vs'"
    "\<And>m. account c' m g = account c m g + labour_for m (zip os vs')"
    by (rule advance_segment_shape[OF assms(1-4)]) blast
  have sub: "set os \<subseteq> snd ` set visits" using arg_cong[OF s(1), of set_mset] by auto
  have nn: "\<forall>a \<in> set as. 0 \<le> sv_remaining (as_visit a)"
  proof
    fix a assume "a \<in> set as"
    then obtain v where "v \<in> set os" "same_but_owner v (as_visit a)"
      using s(3) by (auto simp: list_all2_map2 list_all2_conv_all_nth in_set_conv_nth) metis
    moreover have "0 \<le> sv_remaining v" using \<open>v \<in> set os\<close> sub assms(3) by fastforce
    ultimately show "0 \<le> sv_remaining (as_visit a)" by (simp add: same_but_owner_fields)
  qed
  have "within_capacity c c (mi_id i) g available day_limit" by (simp add: within_capacity_def)
  from advance_assigned_capacity[OF s(2) nn assms(4,6-9) this]
  have w: "within_capacity c c' (mi_id i) g available day_limit" .
  have l: "labour_between (mi_id i) visits visits' = labour_for (mi_id i) (zip os vs')"
    unfolding s(5) by (rule labour_between_shape[OF assms(2) s(4) sub])
  have "available \<le> sg_microseconds g" using available_within_segment[OF assms(8)] assms(4,5) by simp
  then show ?thesis using w s(6)[of "mi_id i"] l by (simp add: within_capacity_def)
qed

lemma owned_by_worked: "list_all2 (worked_on cd) vs ws \<Longrightarrow> owned_by m vs = owned_by m ws"
  by (induction vs ws rule: list_all2_induct) (auto simp: worked_on_def)

lemma list_all2_find_element: "list_all2 P xs ys \<Longrightarrow> x \<in> set xs \<Longrightarrow> \<exists>y \<in> set ys. P x y"
  by (induction rule: list_all2_induct) auto

lemma advance_segment_keeps:
  assumes "advance_segment cd st works visits c g blocked = Inr (visits', qs, c')"
    and "well_keyed sv_id visits" and "\<forall>(k, v) \<in> set visits. 0 \<le> sv_remaining v" and "0 \<le> sg_microseconds g"
  shows "well_keyed sv_id visits'" "fst ` set visits' = fst ` set visits"
    "\<And>k v. map_of visits k = Some v \<Longrightarrow> \<exists>v'. map_of visits' k = Some v' \<and> progressed v v' \<and>
       (if k \<in> set blocked then v' = v else check_visit cd v' = Inr ())"
    "\<exists>os as. assign_owners cd st os g c = Inr as \<and>
       owned_by m (filter (\<lambda>v. sv_id v \<notin> set blocked) (map snd visits')) = owned_by m (map as_visit as)"
proof -
  obtain os as vs' where s: "mset os = mset (filter (\<lambda>v. sv_id v \<notin> set blocked) (map snd visits))"
    "assign_owners cd st os g c = Inr as" "list_all2 (worked_on cd) (map as_visit as) vs'" "list_all2 progressed os vs'"
    "map sv_id os = map sv_id vs'" "distinct (map sv_id os)"
    "visits' = blocked_visits blocked visits @ map (\<lambda>v. (sv_id v, v)) vs'"
    by (rule advance_segment_shape[OF assms(1-4)]) blast
  have dk: "distinct (map fst visits)" "\<And>i v. (i, v) \<in> set visits \<Longrightarrow> sv_id v = i"
    using assms(2) by (auto simp: well_keyed_def)
  have set_os: "set os = {v \<in> snd ` set visits. sv_id v \<notin> set blocked}" using arg_cong[OF s(1), of set_mset] by auto
  have ids: "sv_id ` set vs' = sv_id ` set os" using s(5) by (metis list.set_map)
  have bl: "fst ` set (blocked_visits blocked visits) \<subseteq> set blocked"
    by (metis (no_types, lifting) map_of_blocked map_of_eq_None_iff subsetI)
  have bk: "sv_id v = k" if "(k, v) \<in> set (blocked_visits blocked visits)" for k v
    using that distinct_blocked[of blocked visits] dk(2)
    by (metis (no_types, lifting) distinct_keys_map_of map_of_SomeD map_of_blocked option.distinct(1))
  have keyed: "well_keyed sv_id visits'"
    using distinct_blocked[of blocked visits] s(5,6) bl ids set_os bk unfolding s(7) well_keyed_def
    by (auto simp: comp_def)
  have checked: "\<forall>v' \<in> set vs'. check_visit cd v' = Inr ()"
    using s(3) by (auto simp: list_all2_conv_all_nth worked_on_def in_set_conv_nth)
  have each: "\<exists>v'. map_of visits' k = Some v' \<and> progressed v v' \<and>
      (if k \<in> set blocked then v' = v else check_visit cd v' = Inr ())" if v: "map_of visits k = Some v" for k v
  proof (cases "k \<in> set blocked")
    case True
    then have "map_of visits' k = Some v" by (simp add: s(7) map_of_blocked v)
    moreover have "0 \<le> sv_remaining v" using assms(3) map_of_SomeD[OF v] by auto
    ultimately show ?thesis using True progressed_refl by auto
  next
    case False
    have "v \<in> set os" using False map_of_SomeD[OF v] dk(2) set_os by force
    then obtain v' where v': "v' \<in> set vs'" "progressed v v'" using s(4) by (metis list_all2_find_element)
    have "sv_id v' = k" using progressed_parts(1)[OF v'(2)] map_of_SomeD[OF v] dk(2) by simp
    then have "(k, v') \<in> set visits'" using v'(1) by (auto simp: s(7))
    then have "map_of visits' k = Some v'" using keyed by (simp add: well_keyed_def map_of_is_SomeI)
    then show ?thesis using False v' checked by auto
  qed
  have keys: "fst ` set visits' = fst ` set visits"
  proof -
    have "fst ` set (blocked_visits blocked visits) = set blocked \<inter> fst ` set visits"
    proof -
      have "k \<in> fst ` set (blocked_visits blocked visits) \<longleftrightarrow> k \<in> set blocked \<inter> fst ` set visits" for k
        using map_of_eq_None_iff[of "blocked_visits blocked visits" k] map_of_eq_None_iff[of visits k]
        by (simp add: map_of_blocked split: if_splits)
      then show ?thesis by blast
    qed
    moreover have "sv_id ` set os = fst ` set visits - set blocked" using set_os dk(2) by force
    ultimately show ?thesis using ids by (auto simp: s(7) image_Un image_image)
  qed
  have "owned_by m vs' = owned_by m (map as_visit as)" using s(3) by (rule owned_by_worked[symmetric])
  moreover have "filter (\<lambda>v. sv_id v \<notin> set blocked) (map snd visits') = vs'"
  proof -
    have "filter (\<lambda>v. sv_id v \<notin> set blocked) (map snd (blocked_visits blocked visits)) = []"
    proof -
      have "sv_id (snd x) \<in> set blocked" if "x \<in> set (blocked_visits blocked visits)" for x
        using bk[of "fst x" "snd x"] bl that by auto
      then show ?thesis by (auto simp: filter_empty_conv)
    qed
    moreover have "filter (\<lambda>v. sv_id v \<notin> set blocked) vs' = vs'"
    proof (rule filter_True, rule ballI)
      fix x assume "x \<in> set vs'"
      then have "sv_id x \<in> sv_id ` set os" using ids by blast
      then show "sv_id x \<notin> set blocked" using set_os by auto
    qed
    ultimately show ?thesis by (simp add: s(7) comp_def)
  qed
  ultimately have owned: "\<exists>os as. assign_owners cd st os g c = Inr as \<and>
       owned_by m (filter (\<lambda>v. sv_id v \<notin> set blocked) (map snd visits')) = owned_by m (map as_visit as)"
    using s(2) by auto
  show "well_keyed sv_id visits'" by (rule keyed)
  show "fst ` set visits' = fst ` set visits" by (rule keys)
  show "\<And>k v. map_of visits k = Some v \<Longrightarrow> \<exists>v'. map_of visits' k = Some v' \<and> progressed v v' \<and>
       (if k \<in> set blocked then v' = v else check_visit cd v' = Inr ())" by (rule each)
  show "\<exists>os as. assign_owners cd st os g c = Inr as \<and>
       owned_by m (filter (\<lambda>v. sv_id v \<notin> set blocked) (map snd visits')) = owned_by m (map as_visit as)" by (rule owned)
qed

text \<open>A segment keeps every open visit, changes nothing but its owner and its clocks, and moves labour
  from remaining to elapsed; visits that a risk blocks are left alone. Every other visit passes the
  checks of its constructor, and no member owns more of them than the limit of work in progress.\<close>

theorem advance_segment_progress:
  assumes "advance_segment cd st works visits c g blocked = Inr (visits', qs, c')"
    and "well_keyed sv_id visits" and "\<forall>(k, v) \<in> set visits. 0 \<le> sv_remaining v" and "0 \<le> sg_microseconds g"
    and "wip_limit st (dict_of mi_id (st_member_identities (lt_scrum st))) m limit" and "0 \<le> limit"
  shows "well_keyed sv_id visits' \<and> fst ` set visits' = fst ` set visits \<and>
    (\<forall>k v. map_of visits k = Some v \<longrightarrow> (\<exists>v'. map_of visits' k = Some v' \<and> progressed v v' \<and>
       (if k \<in> set blocked then v' = v else check_visit cd v' = Inr ()))) \<and>
    owned_by m (filter (\<lambda>v. sv_id v \<notin> set blocked) (map snd visits')) \<le> limit"
proof -
  note keeps = advance_segment_keeps[OF assms(1-4)]
  obtain os as where a: "assign_owners cd st os g c = Inr as"
    "owned_by m (filter (\<lambda>v. sv_id v \<notin> set blocked) (map snd visits')) = owned_by m (map as_visit as)"
    using keeps(4) by blast
  have "owned_by m (filter (\<lambda>v. sv_id v \<notin> set blocked) (map snd visits')) \<le> limit"
    using assign_owners_spec(2)[OF a(1) assms(5,6)] a(2) by simp
  then show ?thesis using keeps(1-3) by blast
qed

end
