(* ===== verification/Tick_Progress.thy ===== *)
theory Tick_Progress
  imports Tick_Labor
begin

text \<open>
  The choice of an owner, the accounting of the time of a visit, and the proof that a segment never
  fails: on the visits of a valid state no lookup misses, no constructor rejects a new visit, and
  queued labour always has a reason.
\<close>

section \<open>The choice of an owner\<close>

text \<open>A visit without an owner gets the most proficient of the members who can do its activity, are
  available in the segment, have labour left and room for another item; of equally proficient ones the
  first in the blueprint. When nobody can take it, the reason names the first of these that no member
  satisfied.\<close>

theorem assign_owner_choice:
  assumes "assign_owner cd st members v g c retained = Inr (a, retained')"
  shows "(\<exists>i \<in> snd ` set members. eligible st v g c retained i \<and>
      as_visit a = v\<lparr>sv_member_id := Some (mi_id i)\<rparr> \<and> as_denied_reason a = None \<and>
      retained' = count_retained (mi_id i) retained \<and>
      (\<forall>j \<in> snd ` set members. eligible st v g c retained j \<longrightarrow>
         skill st v j < skill st v i \<or> skill st v j = skill st v i \<and> mi_blueprint_index i \<le> mi_blueprint_index j)) \<or>
    ((\<forall>i \<in> snd ` set members. \<not> eligible st v g c retained i) \<and> as_visit a = v \<and> retained' = retained \<and>
      as_denied_reason a = Some (
         if \<not> (\<exists>i \<in> snd ` set members. is_capable st v i) then ''NO_CAPABLE_MEMBER''
         else if \<not> (\<exists>i \<in> snd ` set members. is_capable st v i \<and> is_present st g i) then ''UNAVAILABLE''
         else if \<not> (\<exists>i \<in> snd ` set members. is_capable st v i \<and> is_present st g i \<and> has_labour st g c i)
         then ''DAILY_CAPACITY'' else ''WIP_LIMIT''))"
proof (cases rule: assign_owner_cases[OF assms, case_names denied owned])
  case denied
  then show ?thesis by blast
next
  case (owned i)
  then show ?thesis by blast
qed

section \<open>The time of a visit\<close>

text \<open>
  The time of a segment for one visit: a pausing status adds the whole segment to the pause;
  otherwise work that remains was credited or queued for exactly the length of the segment, and a
  visit without remaining work does not queue. A cause is reported exactly for queued time, with the
  visit and the amount.
\<close>

definition time_accounted ::
  "BusinessSegment \<Rightarrow> WorkflowStatus \<Rightarrow> StatusVisitState \<Rightarrow> StatusVisitState \<Rightarrow> QueueCause option \<Rightarrow> bool" where
  "time_accounted g status v v' q \<longleftrightarrow>
     (if ws_pauses_service_clock status
      then sv_pause v' = sv_pause v + sg_microseconds g \<and> sv_queue v' = sv_queue v \<and> credit v v' = 0 \<and> q = None
      else sv_pause v' = sv_pause v \<and>
        (if sv_remaining v' = 0 then sv_queue v' = sv_queue v
         else credit v v' + (sv_queue v' - sv_queue v) = sg_microseconds g) \<and>
        (if sv_queue v' = sv_queue v then q = None
         else \<exists>reason. q = Some \<lparr>qc_visit_id = sv_id v, qc_reason = reason, qc_delta = sv_queue v' - sv_queue v\<rparr>))"

text \<open>In a segment the time of every visit is accounted for: it is paused, credited or queued for exactly
  the length of the segment (unless its work is finished), and queued time is reported with its cause.\<close>

theorem advance_visit_accounts_time:
  assumes "advance_visit cd st g c0 a c = Inr (v', q, c')" and "check_visit cd (as_visit a) = Inr ()"
    and "0 \<le> sg_microseconds g" and "sg_microseconds g \<le> 2 ^ 53"
    and "\<forall>m. account c0 m g \<le> account c m g"
    and "status_named st (sv_status_key (as_visit a)) = Inr status"
  shows "time_accounted g status (as_visit a) v' q"
proof -
  define v where "v = as_visit a"
  have nn: "0 \<le> sv_remaining v" using check_visit_clocks[OF assms(2)] by (simp add: v_def)
  have q: "queue_cause i r d = Inr x \<Longrightarrow>
      (if d = 0 then x = None else \<exists>reason. x = Some \<lparr>qc_visit_id = i, qc_reason = reason, qc_delta = d\<rparr>)" for i r d x
    by (auto simp: queue_cause_def split: if_splits option.splits)
  consider (paused) "ws_pauses_service_clock status"
    | (queued) "\<not> ws_pauses_service_clock status" "sv_member_id v = None \<or> sv_remaining v = 0"
    | (worked) "\<not> ws_pauses_service_clock status" "\<not> (sv_member_id v = None \<or> sv_remaining v = 0)" by blast
  then have "time_accounted g status v v' q"
  proof cases
    case paused
    then have "v' = v\<lparr>sv_pause := sv_pause v + sg_microseconds g\<rparr>" "q = None"
      using assms(1,6) by (auto simp: advance_visit_def Let_def v_def[symmetric] replaced_Inr elim!: bindR_InrE)
    then show ?thesis using paused by (simp add: time_accounted_def credit_def)
  next
    case queued
    define d where "d = (if sv_remaining v \<noteq> 0 then sg_microseconds g else 0)"
    have r: "v' = v\<lparr>sv_queue := sv_queue v + d\<rparr> \<and> queue_cause (sv_id v) (as_denied_reason a) d = Inr q"
      using assms(1,6) queued
      by (auto simp: advance_visit_def Let_def v_def[symmetric] d_def[symmetric] replaced_Inr elim!: bindR_InrE)
    have v': "sv_queue v' = sv_queue v + d" "sv_pause v' = sv_pause v" "sv_remaining v' = sv_remaining v" "credit v v' = 0"
      using r by (simp_all add: credit_def)
    show ?thesis using queued(1) q[OF conjunct2[OF r]] by (auto simp: time_accounted_def v' d_def)
  next
    case worked
    obtain i cap where i: "segment_capacity st g c0 c i = Inr cap"
      and r: "v' = credit_visit v (min (ca_microseconds cap) (sv_remaining v))
                (if sv_remaining v - min (ca_microseconds cap) (sv_remaining v) = 0 then 0
                 else sg_microseconds g - min (ca_microseconds cap) (sv_remaining v))"
        "queue_cause (sv_id v) (Some (ca_constraint cap))
           (if sv_remaining v - min (ca_microseconds cap) (sv_remaining v) = 0 then 0
            else sg_microseconds g - min (ca_microseconds cap) (sv_remaining v)) = Inr q"
      using assms(1,6) worked
      by (auto simp: advance_visit_def Let_def v_def[symmetric] replaced_Inr elim!: bindR_InrE)
    obtain av d where av: "available_microseconds st i g = Inr av" "daily_ceiling st i g = Inr d"
      using i by (auto simp: segment_capacity_def Let_def elim!: bindR_InrE)
    define k where "k = min (ca_microseconds cap) (sv_remaining v)"
    have "av \<le> sg_microseconds g" using available_within_segment[OF av(1)] assms(3,4) by simp
    moreover have "ca_microseconds cap \<le> max 0 (av - (account c (mi_id i) g - account c0 (mi_id i) g))"
      by (rule segment_capacity_bounds(2)[OF i av])
    moreover have "account c0 (mi_id i) g \<le> account c (mi_id i) g" using assms(5) by blast
    ultimately have "ca_microseconds cap \<le> sg_microseconds g" using assms(3) by linarith
    then have k: "k \<le> sg_microseconds g" "0 \<le> k" "k \<le> sv_remaining v"
      using segment_capacity_bounds(1)[OF i av] nn by (auto simp: k_def)
    have v': "sv_queue v' = sv_queue v + (if sv_remaining v - k = 0 then 0 else sg_microseconds g - k)"
      "sv_pause v' = sv_pause v" "sv_remaining v' = sv_remaining v - k" "credit v v' = k"
      using k by (auto simp: r(1) credit_visit_def credit_def k_def[symmetric])
    show ?thesis using worked(1) q[OF r(2)] by (auto simp: time_accounted_def v' k_def[symmetric])
  qed
  then show ?thesis by (simp add: v_def)
qed

section \<open>A segment succeeds\<close>

definition members_ready :: "LiveTeamState \<Rightarrow> bool" where
  "members_ready st \<longleftrightarrow> (\<forall>i \<in> set (st_member_identities (lt_scrum st)). \<exists>m. member_blueprint st i = Inr m)"

text \<open>The checks leave room in the 63-bit clocks for the time of the segment.\<close>

definition visit_ready :: "codec \<Rightarrow> LiveTeamState \<Rightarrow> BusinessSegment \<Rightarrow> StatusVisitState \<Rightarrow> bool" where
  "visit_ready cd st g v \<longleftrightarrow>
     check_visit cd v = Inr () \<and> (\<exists>status. status_named st (sv_status_key v) = Inr status) \<and>
     (\<forall>m. sv_member_id v = Some m \<longrightarrow> m \<in> mi_id ` set (st_member_identities (lt_scrum st))) \<and>
     sv_queue v + sg_microseconds g \<le> MAX_SQLITE_INTEGER \<and> sv_pause v + sg_microseconds g \<le> MAX_SQLITE_INTEGER \<and>
     sv_credited v + sv_remaining v \<le> MAX_SQLITE_INTEGER"

lemma check_microseconds_iff:
  "check_visit_microseconds v = Inr () \<longleftrightarrow>
     (\<forall>x \<in> {sv_required v, sv_elapsed v, sv_remaining v, sv_queue v, sv_pause v, sv_credited v}.
        0 \<le> x \<and> x \<le> MAX_SQLITE_INTEGER) \<and>
     sv_required v = sv_elapsed v + sv_remaining v \<and> (sv_lifecycle v = SV_CLOSED \<longrightarrow> sv_remaining v = 0)"
  by (auto simp: check_visit_microseconds_def bindR_check guardR_eq_Inr require_microseconds_def split: if_splits)

lemma check_times_iff:
  "check_visit_times v = Inr () \<longleftrightarrow>
     (sv_lifecycle v = SV_OPEN \<longrightarrow> sv_closed_at v = None) \<and> (sv_lifecycle v = SV_CLOSED \<longrightarrow> sv_closed_at v \<noteq> None) \<and>
     (\<forall>t. sv_closed_at v = Some t \<longrightarrow> sv_entered_at v \<le> t)"
  by (auto simp: check_visit_times_def guardR_eq_Inr split: option.splits)

lemma check_zero_touch_iff:
  "check_zero_touch v = Inr () \<longleftrightarrow>
     (sv_activity_key v = None \<longrightarrow> sv_member_id v = None \<and> sv_required v = 0 \<and> sv_elapsed v = 0 \<and>
        sv_remaining v = 0 \<and> sv_credited v = 0)"
  by (auto simp: check_zero_touch_def guardR_eq_Inr)

lemma capable_activity: "is_capable st v i \<Longrightarrow> sv_activity_key v \<noteq> None"
  by (cases "sv_activity_key v") (auto simp: is_capable_def proficiency_def find_Some_iff)

lemma check_visit_parts:
  assumes "check_visit cd v = Inr ()"
  shows "check_zero_touch v = Inr ()" "check_visit_times v = Inr ()" "check_visit_microseconds v = Inr ()"
  using assms by (auto simp: check_visit_def bindR_check elim!: bindR_InrE)

lemma check_visit_changed:
  assumes "check_visit cd v = Inr ()"
    and "sv_id v' = sv_id v" "sv_work_item_id v' = sv_work_item_id v" "sv_ordinal v' = sv_ordinal v"
      "sv_status_key v' = sv_status_key v" "sv_activity_key v' = sv_activity_key v"
    and "check_zero_touch v' = Inr ()" "check_visit_times v' = Inr ()" "check_visit_microseconds v' = Inr ()"
  shows "check_visit cd v' = Inr ()"
  using assms by (auto simp: check_visit_def bindR_check elim!: bindR_InrE)

lemma check_visit_owner:
  assumes "check_visit cd v = Inr ()" and "m \<noteq> None \<longrightarrow> sv_activity_key v \<noteq> None"
  shows "check_visit cd (v\<lparr>sv_member_id := m\<rparr>) = Inr ()"
proof (rule check_visit_changed[OF assms(1)])
  note p = check_visit_parts[OF assms(1)]
  show "check_zero_touch (v\<lparr>sv_member_id := m\<rparr>) = Inr ()"
    using p(1) assms(2) by (auto simp: check_zero_touch_iff)
  show "check_visit_times (v\<lparr>sv_member_id := m\<rparr>) = Inr ()" using p(2) by (simp add: check_times_iff)
  show "check_visit_microseconds (v\<lparr>sv_member_id := m\<rparr>) = Inr ()" using p(3) by (simp add: check_microseconds_iff)
qed simp_all

lemma visit_ready_owner:
  assumes "visit_ready cd st g v" and "m \<noteq> None \<longrightarrow> sv_activity_key v \<noteq> None"
    and "\<And>k. m = Some k \<Longrightarrow> k \<in> mi_id ` set (st_member_identities (lt_scrum st))"
  shows "visit_ready cd st g (v\<lparr>sv_member_id := m\<rparr>)"
  using assms check_visit_owner[of cd v m] by (simp add: visit_ready_def)

lemma member_functions:
  assumes "member_blueprint st i = Inr m"
  shows "\<exists>f. effective_fraction st i g = Inr f" "\<exists>k. available_microseconds st i g = Inr k"
    "\<exists>k. daily_ceiling st i g = Inr k" "\<exists>k. remaining_capacity st i g c = Inr k"
    "\<exists>k. segment_capacity st g c0 c i = Inr k"
  using assms by (simp_all add: effective_fraction_def available_microseconds_def daily_ceiling_def
      remaining_capacity_def segment_capacity_def Let_def)

lemma keeps_owner_succeeds:
  assumes "members_ready st" "visit_ready cd st g v"
  shows "\<exists>b. keeps_owner st (dict_of mi_id (st_member_identities (lt_scrum st))) g v retained = Inr b"
proof (cases "sv_member_id v")
  case (Some m)
  then have "map_of (dict_of mi_id (st_member_identities (lt_scrum st))) m \<noteq> None"
    using assms(2) by (auto simp: visit_ready_def dict_of_None)
  then obtain i where i: "map_of (dict_of mi_id (st_member_identities (lt_scrum st))) m = Some i" by blast
  then have "i \<in> set (st_member_identities (lt_scrum st))" using set_dict_of by fastforce
  then obtain b where b: "member_blueprint st i = Inr b" using assms(1) by (auto simp: members_ready_def)
  obtain k where "available_microseconds st i g = Inr k" using member_functions(2)[OF b] by blast
  then show ?thesis using Some i b by (simp add: keeps_owner_def dict_get_def can_retain_def)
qed (simp add: keeps_owner_def exI[of _ False])

lemma retain_owners_succeeds:
  assumes "members_ready st" "\<forall>v \<in> set vs. visit_ready cd st g v"
  shows "\<exists>as r. retain_owners cd st (dict_of mi_id (st_member_identities (lt_scrum st))) g vs retained = Inr (as, r) \<and>
    (\<forall>a \<in> set as. visit_ready cd st g a)"
  using assms(2)
proof (induction vs arbitrary: retained)
  case (Cons v vs)
  obtain keep where k: "keeps_owner st (dict_of mi_id (st_member_identities (lt_scrum st))) g v retained = Inr keep"
    using keeps_owner_succeeds[OF assms(1), of cd g v retained] Cons.prems by auto
  have none: "visit_ready cd st g (v\<lparr>sv_member_id := None\<rparr>)" using Cons.prems by (intro visit_ready_owner) auto
  then have "replaced cd (v\<lparr>sv_member_id := None\<rparr>) = Inr (v\<lparr>sv_member_id := None\<rparr>)"
    by (simp add: replaced_Inr visit_ready_def)
  moreover obtain as r where "retain_owners cd st (dict_of mi_id (st_member_identities (lt_scrum st))) g vs
      (if keep then count_retained (the (sv_member_id v)) retained else retained) = Inr (as, r)"
    "\<forall>a \<in> set as. visit_ready cd st g a" using Cons.IH Cons.prems by (meson list.set_intros(2))
  ultimately show ?case using k none Cons.prems by auto
qed simp

lemma consider_members_succeed:
  assumes "\<forall>i \<in> set ids. \<exists>m. member_blueprint st i = Inr m"
  shows "\<exists>acc'. foldR (consider_member st v g c retained) ids acc = Inr acc'"
  using assms
proof (induction ids arbitrary: acc)
  case (Cons i ids)
  then obtain m where m: "member_blueprint st i = Inr m" by auto
  obtain f k where "effective_fraction st i g = Inr f" "remaining_capacity st i g c = Inr k"
    using member_functions(1,4)[OF m] by blast
  then have "\<exists>acc1. consider_member st v g c retained i acc = Inr acc1"
    by (auto simp: consider_member_def m Let_def split: option.splits)
  then obtain acc1 where "consider_member st v g c retained i acc = Inr acc1" by blast
  then show ?case using Cons by auto
qed simp

lemma dict_of_values: "set (map snd (dict_of key xs)) \<subseteq> set xs"
proof
  fix x assume "x \<in> set (map snd (dict_of key xs))"
  then obtain k where k: "(k, x) \<in> set (dict_of key xs)" by auto
  have "distinct (map fst (dict_of key xs))" using well_keyed_dict_of[of key xs] by (simp add: well_keyed_def)
  from map_of_is_SomeI[OF this k] show "x \<in> set xs" using set_dict_of by fast
qed

lemma assign_owner_succeeds:
  assumes "members_ready st" "visit_ready cd st g v"
  shows "\<exists>a r. assign_owner cd st (dict_of mi_id (st_member_identities (lt_scrum st))) v g c retained = Inr (a, r)"
proof -
  let ?members = "dict_of mi_id (st_member_identities (lt_scrum st))"
  have sub: "set (map snd ?members) \<subseteq> set (st_member_identities (lt_scrum st))"
    by (rule dict_of_values)
  then have "\<forall>i \<in> set (map snd ?members). \<exists>m. member_blueprint st i = Inr m" using assms(1) by (auto simp: members_ready_def)
  then obtain acc where acc: "foldR (consider_member st v g c retained) (map snd ?members)
      \<lparr>cn_capable = False, cn_available = False, cn_has_capacity = False, cn_candidates = []\<rparr> = Inr acc"
    using consider_members_succeed by blast
  show ?thesis
  proof (cases "best_candidate (cn_candidates acc)")
    case None
    then show ?thesis by (simp add: assign_owner_def acc)
  next
    case (Some i)
    then obtain x where "x \<in> set (cn_candidates acc)" "snd (snd x) = i" using best_candidate_Some by blast
    then have "i \<in> set (map snd ?members)" "is_capable st v i"
      using arg_cong[OF consider_members_spec[OF acc], of cn_candidates] by (auto simp: ranking_def eligible_def intro: rev_image_eqI)
    then have "sv_activity_key v \<noteq> None" using capable_activity by blast
    then have "check_visit cd (v\<lparr>sv_member_id := Some (mi_id i)\<rparr>) = Inr ()"
      using assms(2) by (intro check_visit_owner) (simp_all add: visit_ready_def)
    then have "replaced cd (v\<lparr>sv_member_id := Some (mi_id i)\<rparr>) = Inr (v\<lparr>sv_member_id := Some (mi_id i)\<rparr>)"
      by (simp add: replaced_Inr)
    then show ?thesis by (simp add: assign_owner_def acc Some)
  qed
qed

lemma assign_unowned_succeeds:
  assumes "members_ready st" "\<forall>v \<in> set vs. visit_ready cd st g v"
  shows "\<exists>as. assign_unowned cd st (dict_of mi_id (st_member_identities (lt_scrum st))) g c vs retained = Inr as \<and>
    (\<forall>a \<in> set as. visit_ready cd st g (as_visit a) \<and> (sv_member_id (as_visit a) = None \<longrightarrow> as_denied_reason a \<noteq> None))"
  using assms(2)
proof (induction vs arbitrary: retained)
  case (Cons v vs)
  let ?members = "dict_of mi_id (st_member_identities (lt_scrum st))"
  have v: "visit_ready cd st g v" using Cons.prems by simp
  have "\<exists>a r. (if sv_member_id v = None then assign_owner cd st ?members v g c retained
      else Inr (\<lparr>as_visit = v, as_denied_reason = None\<rparr>, retained)) = Inr (a, r) \<and>
      visit_ready cd st g (as_visit a) \<and> (sv_member_id (as_visit a) = None \<longrightarrow> as_denied_reason a \<noteq> None)"
  proof (cases "sv_member_id v = None")
    case True
    obtain a r where a: "assign_owner cd st ?members v g c retained = Inr (a, r)"
      using assign_owner_succeeds[OF assms(1) v] by blast
    then show ?thesis
    proof (cases rule: assign_owner_cases)
      case denied
      then show ?thesis using a True v by auto
    next
      case (owned i)
      then have "sv_activity_key v \<noteq> None" by (intro capable_activity[of st v i]) (simp add: eligible_def)
      moreover have "mi_id i \<in> mi_id ` set (st_member_identities (lt_scrum st))"
        using owned(1) dict_of_values[of mi_id "st_member_identities (lt_scrum st)"] by auto
      ultimately have "visit_ready cd st g (as_visit a)" unfolding owned(3) using v by (intro visit_ready_owner) auto
      then show ?thesis using a True owned(3) by simp
    qed
  qed (use v in auto)
  then obtain a r where a: "(if sv_member_id v = None then assign_owner cd st ?members v g c retained
      else Inr (\<lparr>as_visit = v, as_denied_reason = None\<rparr>, retained)) = Inr (a, r)"
    "visit_ready cd st g (as_visit a)" "sv_member_id (as_visit a) = None \<longrightarrow> as_denied_reason a \<noteq> None"
    by (elim exE conjE) (rule that)
  obtain as where "assign_unowned cd st ?members g c vs r = Inr as"
    "\<forall>a \<in> set as. visit_ready cd st g (as_visit a) \<and> (sv_member_id (as_visit a) = None \<longrightarrow> as_denied_reason a \<noteq> None)"
    using Cons.IH[of r] Cons.prems by auto
  then show ?case using a by auto
qed simp

lemma assign_owners_succeeds:
  assumes "members_ready st" "\<forall>v \<in> set vs. visit_ready cd st g v"
  shows "\<exists>as. assign_owners cd st vs g c = Inr as \<and>
    (\<forall>a \<in> set as. visit_ready cd st g (as_visit a) \<and> (sv_member_id (as_visit a) = None \<longrightarrow> as_denied_reason a \<noteq> None))"
proof -
  obtain mid r where m: "retain_owners cd st (dict_of mi_id (st_member_identities (lt_scrum st))) g vs [] = Inr (mid, r)"
    "\<forall>a \<in> set mid. visit_ready cd st g a" using retain_owners_succeeds[OF assms] by blast
  from assign_unowned_succeeds[OF assms(1) m(2)] show ?thesis using m(1) by (simp add: assign_owners_def Let_def)
qed

lemma advance_visit_succeeds:
  assumes "members_ready st" "visit_ready cd st g (as_visit a)" "0 \<le> sg_microseconds g"
    and "sv_member_id (as_visit a) = None \<longrightarrow> as_denied_reason a \<noteq> None"
  shows "\<exists>r. advance_visit cd st g c0 a c = Inr r"
proof -
  define v where "v = as_visit a"
  obtain status where st: "status_named st (sv_status_key v) = Inr status" using assms(2) by (auto simp: visit_ready_def v_def)
  have ok: "check_visit cd v = Inr ()" and room: "sv_queue v + sg_microseconds g \<le> MAX_SQLITE_INTEGER"
    "sv_pause v + sg_microseconds g \<le> MAX_SQLITE_INTEGER" "sv_credited v + sv_remaining v \<le> MAX_SQLITE_INTEGER"
    using assms(2) by (simp_all add: visit_ready_def v_def)
  note p = check_visit_parts[OF ok]
  consider (paused) "ws_pauses_service_clock status"
    | (queued) "\<not> ws_pauses_service_clock status" "sv_member_id v = None \<or> sv_remaining v = 0"
    | (worked) "\<not> ws_pauses_service_clock status" "\<not> (sv_member_id v = None \<or> sv_remaining v = 0)" by blast
  then show ?thesis
  proof cases
    case paused
    have "check_visit cd (v\<lparr>sv_pause := sv_pause v + sg_microseconds g\<rparr>) = Inr ()"
      using p room assms(3) by (intro check_visit_changed[OF ok]) (auto simp: check_zero_touch_iff check_times_iff check_microseconds_iff)
    then show ?thesis using paused st by (simp add: advance_visit_def v_def[symmetric] replaced_def)
  next
    case queued
    define d where "d = (if sv_remaining v \<noteq> 0 then sg_microseconds g else 0)"
    have "0 \<le> d" "d \<le> sg_microseconds g" using assms(3) by (auto simp: d_def)
    then have "check_visit cd (v\<lparr>sv_queue := sv_queue v + d\<rparr>) = Inr ()"
      using p room by (intro check_visit_changed[OF ok]) (auto simp: check_zero_touch_iff check_times_iff check_microseconds_iff)
    moreover have "\<exists>q. queue_cause (sv_id v) (as_denied_reason a) d = Inr q"
      using queued(2) assms(4) by (auto simp: queue_cause_def d_def v_def split: option.splits)
    ultimately show ?thesis
      using queued st by (auto simp: advance_visit_def v_def[symmetric] replaced_def d_def[symmetric] Let_def)
  next
    case worked
    then obtain m where m: "sv_member_id v = Some m" by auto
    have "\<exists>i \<in> set (st_member_identities (lt_scrum st)). Some (mi_id i) = sv_member_id v"
      using assms(2) m by (auto simp: visit_ready_def v_def)
    from find_or_stop_total[OF this] obtain i where
      i: "find_or_stop (\<lambda>i. Some (mi_id i) = sv_member_id v) (st_member_identities (lt_scrum st)) = Inr i" ..
    then have "i \<in> set (st_member_identities (lt_scrum st))" using find_or_stop_Inr[OF i] by simp
    then obtain b where "member_blueprint st i = Inr b" using assms(1) by (auto simp: members_ready_def)
    then obtain cap where cap: "segment_capacity st g c0 c i = Inr cap" using member_functions(5) by blast
    have n: "0 \<le> ca_microseconds cap" using cap by (auto simp: segment_capacity_def Let_def elim!: bindR_InrE)
    define k where "k = min (ca_microseconds cap) (sv_remaining v)"
    define d where "d = (if sv_remaining v = k then 0 else sg_microseconds g - k)"
    have kk: "min (ca_microseconds cap) k = k" by (simp add: k_def)
    have k: "0 \<le> k" "k \<le> sv_remaining v" using n check_visit_clocks[OF ok] by (auto simp: k_def)
    have "sv_activity_key v \<noteq> None" using p(1) m by (auto simp: check_zero_touch_iff)
    then have "check_visit cd (credit_visit v k d) = Inr ()"
      using p room k assms(3)
      by (intro check_visit_changed[OF ok])
        (auto simp: credit_visit_def check_zero_touch_iff check_times_iff check_microseconds_iff d_def)
    moreover have "\<exists>q. queue_cause (sv_id v) (Some (ca_constraint cap)) d = Inr q" by (simp add: queue_cause_def)
    then obtain q where "queue_cause (sv_id v) (Some (ca_constraint cap)) d = Inr q" by blast
    ultimately show ?thesis
      using worked st i cap m kk
      by (cases "sv_remaining v = k")
        (simp_all add: advance_visit_def v_def[symmetric] replaced_def k_def[symmetric] d_def Let_def)
  qed
qed

lemma advance_assigned_succeeds:
  assumes "members_ready st" "0 \<le> sg_microseconds g"
    and "\<forall>a \<in> set as. visit_ready cd st g (as_visit a) \<and> (sv_member_id (as_visit a) = None \<longrightarrow> as_denied_reason a \<noteq> None)"
  shows "\<exists>r. advance_assigned cd st g c0 as adv qs c = Inr r"
  using assms(3)
proof (induction as arbitrary: adv qs c)
  case (Cons a as)
  obtain v q c1 where "advance_visit cd st g c0 a c = Inr (v, q, c1)"
    using advance_visit_succeeds[OF assms(1) _ assms(2), of cd a c0 c] Cons.prems by auto
  then show ?case using Cons by simp
qed simp

definition works_ready :: "(uuid, WorkItemState) dict \<Rightarrow> StatusVisitState \<Rightarrow> bool" where
  "works_ready works v \<longleftrightarrow>
     (\<exists>w. map_of works (sv_work_item_id v) = Some w \<and> 0 \<le> wi_relative_rank w \<and> wi_relative_rank w \<le> MAX_SAFE_INTEGER)"

lemma ranked_succeeds:
  assumes "\<forall>v \<in> set vs. works_ready works v"
  shows "\<exists>os. ranked works vs = Inr os"
proof -
  have "\<forall>v \<in> set vs. \<exists>y. bindR (dict_get works (sv_work_item_id v)) (\<lambda>w.
      bindR (check_rank (simulator_rank w)) (\<lambda>_. Inr (rank_sort_key (simulator_rank w), v))) = Inr y"
  proof
    fix v assume "v \<in> set vs"
    then obtain w where "map_of works (sv_work_item_id v) = Some w" "0 \<le> wi_relative_rank w" "wi_relative_rank w \<le> MAX_SAFE_INTEGER"
      using assms by (auto simp: works_ready_def)
    then show "\<exists>y. bindR (dict_get works (sv_work_item_id v)) (\<lambda>w.
        bindR (check_rank (simulator_rank w)) (\<lambda>_. Inr (rank_sort_key (simulator_rank w), v))) = Inr y"
      by (simp add: dict_get_def check_rank_def simulator_rank_def safe_integer_def rank_sort_key_def)
  qed
  from mapR_succeeds[OF this] show ?thesis by (auto simp: ranked_def)
qed

lemma advance_segment_total:
  assumes "members_ready st" "0 \<le> sg_microseconds g"
    and "\<forall>v \<in> snd ` set visits. visit_ready cd st g v \<and> works_ready works v"
  shows "\<exists>r. advance_segment cd st works visits c g blocked = Inr r"
proof -
  let ?vs = "filter (\<lambda>v. sv_id v \<notin> set blocked) (map snd visits)"
  obtain os where os: "ranked works ?vs = Inr os" using ranked_succeeds[of ?vs works] assms(3) by auto
  have "set os = set ?vs" by (metis ranked_spec[OF os] set_mset_mset)
  then have "\<forall>v \<in> set os. visit_ready cd st g v" using assms(3) by auto
  from assign_owners_succeeds[OF assms(1) this] obtain as where as: "assign_owners cd st os g c = Inr as"
    "\<forall>a \<in> set as. visit_ready cd st g (as_visit a) \<and> (sv_member_id (as_visit a) = None \<longrightarrow> as_denied_reason a \<noteq> None)"
    by blast
  from advance_assigned_succeeds[OF assms(1,2) as(2)] show ?thesis by (simp add: advance_segment_def os as(1))
qed

text \<open>The visits a tick starts from: the open ones, by identifier.\<close>

definition open_visits :: "LiveTeamState \<Rightarrow> (uuid, StatusVisitState) dict" where
  "open_visits st = dict_of sv_id (filter (\<lambda>v. sv_lifecycle v = SV_OPEN) (st_visits (lt_scrum st)))"

lemma valid_members_ready:
  assumes "validate_snapshot env (lt_scrum st) = Inr ()" "validate_against env (lt_scrum st) (lt_blueprint st) = Inr ()"
  shows "members_ready st"
proof -
  have c: "validate_collections env (lt_scrum st) = Inr ()"
    by (rule validate_state_parts(1)[OF validate_snapshot_parts(1)[OF assms(1)]])
  have "\<exists>m. member_blueprint st i = Inr m" if i: "i \<in> set (st_member_identities (lt_scrum st))" for i
  proof -
    have "0 \<le> mi_blueprint_index i"
      using collections_checked(4)[OF c i] by (auto simp: check_member_identity_def safe_integer_def elim!: bindR_InrE split: if_splits)
    moreover have "mi_blueprint_index i < int (length (bp_members (lt_blueprint st)))"
      using assms(2) i by (auto simp: validate_against_def validate_blueprint_members_def bindR_check forR_eq_Inr guardR_eq_Inr)
    ultimately show ?thesis by (simp add: member_blueprint_def py_index_def)
  qed
  then show ?thesis by (simp add: members_ready_def)
qed

lemma valid_visit_status:
  assumes "validate_against env (lt_scrum st) (lt_blueprint st) = Inr ()" "v \<in> set (st_visits (lt_scrum st))"
  shows "\<exists>status. status_named st (sv_status_key v) = Inr status"
proof -
  obtain status where "status_for (lt_blueprint st) (sv_status_key v) = Inr status"
    using assms by (auto simp: validate_against_def validate_blueprint_visits_def validate_blueprint_visit_def
        Let_def bindR_check forR_eq_Inr elim!: bindR_InrE dest!: bspec[OF _ assms(2)])
  then have "filter (\<lambda>s. ws_key s = sv_status_key v) (wf_statuses (bp_workflow (lt_blueprint st))) = [status]"
    by (auto simp: status_for_def split: list.splits)
  then have "status \<in> set (filter (\<lambda>s. ws_key s = sv_status_key v) (wf_statuses (bp_workflow (lt_blueprint st))))" by simp
  then show ?thesis unfolding status_named_def by (intro find_or_stop_total) auto
qed

text \<open>On a valid state, a segment whose time fits into the 63-bit clocks is always computed: no lookup of
  a status, a member or a work item misses, no constructor rejects a new visit, and no labour is queued
  without a limiting constraint, whatever was consumed before and whatever a risk blocks.\<close>

theorem advance_segment_succeeds:
  assumes "validate_snapshot env (lt_scrum st) = Inr ()"
    and "validate_against env (lt_scrum st) (lt_blueprint st) = Inr ()" and "0 \<le> sg_microseconds g"
    and "\<forall>v \<in> set (st_visits (lt_scrum st)).
      sv_queue v + sg_microseconds g \<le> MAX_SQLITE_INTEGER \<and> sv_pause v + sg_microseconds g \<le> MAX_SQLITE_INTEGER \<and>
      sv_credited v + sv_remaining v \<le> MAX_SQLITE_INTEGER"
  shows "\<exists>visits' causes c'. advance_segment (en_codec env) st (dict_of wi_id (st_work_items (lt_scrum st)))
    (open_visits st) c g blocked = Inr (visits', causes, c')"
proof -
  have c: "validate_collections env (lt_scrum st) = Inr ()"
    by (rule validate_state_parts(1)[OF validate_snapshot_parts(1)[OF assms(1)]])
  have "visit_ready (en_codec env) st g v \<and> works_ready (dict_of wi_id (st_work_items (lt_scrum st))) v"
    if v: "v \<in> set (st_visits (lt_scrum st))" for v
  proof -
    have "m \<in> mi_id ` set (st_member_identities (lt_scrum st))" if "sv_member_id v = Some m" for m
      using visit_member[OF assms(1) v that] by blast
    then have "visit_ready (en_codec env) st g v"
      using collections_checked(1)[OF c v] valid_visit_status[OF assms(2) v] assms(4) v by (simp add: visit_ready_def)
    moreover obtain w where w: "map_of (dict_of wi_id (st_work_items (lt_scrum st))) (sv_work_item_id v) = Some w"
      "w \<in> set (st_work_items (lt_scrum st))" using visit_work[OF assms(1) v] by blast
    have "check_work_item (en_codec env) w = Inr ()" by (rule collections_checked(2)[OF c w(2)])
    then have "0 \<le> wi_relative_rank w \<and> wi_relative_rank w \<le> MAX_SAFE_INTEGER"
      by (auto simp: check_work_item_def check_classification_def safe_integer_def bindR_check elim!: bindR_InrE split: if_splits)
    ultimately show ?thesis using w(1) by (auto simp: works_ready_def)
  qed
  moreover have "snd ` set (open_visits st) \<subseteq> set (st_visits (lt_scrum st))"
    using dict_of_values[of sv_id "filter (\<lambda>v. sv_lifecycle v = SV_OPEN) (st_visits (lt_scrum st))"]
    by (auto simp: open_visits_def)
  ultimately have "\<forall>v \<in> snd ` set (open_visits st).
      visit_ready (en_codec env) st g v \<and> works_ready (dict_of wi_id (st_work_items (lt_scrum st))) v" by blast
  from advance_segment_total[OF valid_members_ready[OF assms(1,2)] assms(3) this] show ?thesis by simp
qed

section \<open>A segment of the sample team\<close>

definition demo_live :: LiveTeamState where
  "demo_live = \<lparr>lt_aggregate =
     \<lparr>pa_team = \<lparr>vt_id = 69, vt_idempotency_key = ''k'', vt_blueprint_sha256 = hex_text 64 0, vt_name = ''A'',
        vt_methodology = ''SCRUM'', vt_created_at = 0\<rparr>,
      pa_blueprint_id = 1, pa_blueprint = sample_blueprint, pa_blueprint_sha256 = hex_text 64 0,
      pa_blueprint_recorded_at = 0,
      pa_run = \<lparr>vr_id = 42, vr_team_id = 69, vr_ordinal = 0, vr_state = ''ACTIVE'', vr_created_at = 0\<rparr>,
      pa_runtime = \<lparr>rt_id = 44, rt_team_id = 69, rt_run_id = 42, rt_version = 3, rt_state = ''RUNNING'',
        rt_simulation_time = 637200000000, rt_next_wake_at = Some 637200000000, rt_created_at = 0, rt_updated_at = 637200000000\<rparr>\<rparr>,
     lt_scrum = demo_state\<rparr>"

text \<open>One hour from nine o'clock on the day of the visit.\<close>

definition demo_segment :: BusinessSegment where
  "demo_segment = \<lparr>sg_business_date = 8, sg_start = 637200000000, sg_end = 640800000000\<rparr>"

definition demo_worked :: StatusVisitState where
  "demo_worked = demo_visit\<lparr>sv_member_id := Some 45, sv_elapsed := 3600000000, sv_remaining := 0, sv_credited := 3600000000\<rparr>"

lemma demo_live_sel: "lt_scrum demo_live = demo_state" "lt_blueprint demo_live = sample_blueprint"
  "rt_simulation_time (lt_runtime demo_live) = 637200000000"
  by (simp_all add: demo_live_def)

lemma demo_segment_us: "sg_microseconds demo_segment = 3600000000" "sg_business_date demo_segment = 8"
  by (simp_all add: sg_microseconds_def demo_segment_def)

lemma demo_member: "member_blueprint demo_live demo_identity = Inr sample_member"
  by (simp add: member_blueprint_def py_index_def demo_live_sel demo_coordinates) (simp add: sample_blueprint_def)

lemma demo_open: "open_visits demo_live = [(44, demo_visit)]"
  by (simp add: open_visits_def demo_live_sel demo_collections dict_of_def demo_coordinates) (simp add: demo_visit_def)

lemma demo_capacity:
  "effective_fraction demo_live demo_identity demo_segment = Inr 1"
  "available_microseconds demo_live demo_identity demo_segment = Inr 3600000000"
  "daily_ceiling demo_live demo_identity demo_segment = Inr 28800000000"
proof -
  have f: "fraction_of demo_live demo_identity demo_segment sample_member = 1"
    by (simp add: fraction_of_def sample_member_def member_overlays_def demo_live_sel demo_collections min_of_def)
  then show e: "effective_fraction demo_live demo_identity demo_segment = Inr 1"
    by (simp add: effective_fraction_def demo_member)
  have r: "round_half_even 3600000000 = 3600000000" "round_half_even 28800000000 = 28800000000"
    using round_half_even_of_int[of 3600000000] round_half_even_of_int[of 28800000000] by simp_all
  show "available_microseconds demo_live demo_identity demo_segment = Inr 3600000000"
    by (simp add: available_microseconds_def e demo_segment_us f_of_int_def f_mul_def fl_numeral r)
  have "hours_us 8 = 28800000000" by (simp add: hours_us_def f_mul_def MICROSECONDS_PER_HOUR_def fl_numeral r)
  then show "daily_ceiling demo_live demo_identity demo_segment = Inr 28800000000"
    by (simp add: daily_ceiling_def demo_member e sample_member_def member_overlays_def demo_live_sel demo_collections
        min_of_def List.map_filter_def Let_def f_of_int_def f_mul_def fl_numeral r)
qed

lemma demo_status: "status_named demo_live ''DEV'' = Inr (wf_statuses sample_workflow ! 1)"
  by (simp add: status_named_def demo_live_sel find_or_stop_def sample_blueprint_def sample_workflow_def)

lemma demo_assign_owner:
  "assign_owner demo_codec demo_live [(45, demo_identity)] demo_visit demo_segment [] [] =
     Inr (\<lparr>as_visit = demo_visit\<lparr>sv_member_id := Some 45\<rparr>, as_denied_reason = None\<rparr>, count_retained 45 [])"
proof -
  have c: "check_visit demo_codec (demo_visit\<lparr>sv_member_id := m\<rparr>) = Inr ()" for m
    using demo_checks(2) by (rule check_visit_owner) (simp add: demo_coordinates)
  have p: "proficiency sample_member (Some ''CODE'') = Some 1" by (simp add: proficiency_def sample_member_def)
  have w: "mb_max_concurrent_wip sample_member = 1" by (simp add: sample_member_def)
  have "foldR (consider_member demo_live demo_visit demo_segment [] []) [demo_identity]
      \<lparr>cn_capable = False, cn_available = False, cn_has_capacity = False, cn_candidates = []\<rparr> =
    Inr \<lparr>cn_capable = True, cn_available = True, cn_has_capacity = True, cn_candidates = [(1, 0, demo_identity)]\<rparr>"
    by (simp add: consider_member_def demo_member demo_coordinates p w demo_capacity remaining_capacity_def
        dict_get_default_def)
  then show ?thesis by (simp add: assign_owner_def demo_coordinates replaced_def c)
qed

lemma demo_assigned:
  "assign_owners demo_codec demo_live [demo_visit] demo_segment [] =
     Inr [\<lparr>as_visit = demo_visit\<lparr>sv_member_id := Some 45\<rparr>, as_denied_reason = None\<rparr>]"
proof -
  have n: "demo_visit\<lparr>sv_member_id := None\<rparr> = demo_visit" by (simp add: demo_visit_def)
  show ?thesis
    by (simp add: assign_owners_def demo_live_sel demo_collections dict_of_def demo_coordinates keeps_owner_def
        replaced_def n demo_checks demo_assign_owner)
qed

lemma demo_advanced:
  "advance_segment demo_codec demo_live [(59, demo_work)] (open_visits demo_live) [] demo_segment [] =
     Inr ([(44, demo_worked)], [], [((45, 8), 3600000000)])"
proof -
  let ?a = "\<lparr>as_visit = demo_visit\<lparr>sv_member_id := Some 45\<rparr>, as_denied_reason = None\<rparr>"
  have r: "ranked [(59, demo_work)] [demo_visit] = Inr [demo_visit]"
    by (simp add: ranked_def dict_get_def demo_coordinates check_rank_def simulator_rank_def)
      (simp add: demo_work_def)
  have cap: "segment_capacity demo_live demo_segment [] [] demo_identity =
      Inr \<lparr>ca_microseconds = 3600000000, ca_constraint = ''UNAVAILABLE''\<rparr>"
    by (simp add: segment_capacity_def demo_capacity dict_get_default_def Let_def)
  have w: "credit_visit (demo_visit\<lparr>sv_member_id := Some 45\<rparr>) 3600000000 0 = demo_worked"
    by (simp add: credit_visit_def demo_worked_def demo_visit_def)
  have "check_visit demo_codec demo_worked = Inr ()"
    by (rule check_visit_changed[OF demo_checks(2)])
      (simp_all add: demo_worked_def demo_visit_def check_zero_touch_iff check_times_iff check_microseconds_iff MAX_SQLITE_INTEGER_def)
  moreover have "sv_remaining demo_visit = 3600000000" by (simp add: demo_visit_def)
  moreover have running: "\<not> ws_pauses_service_clock (wf_statuses sample_workflow ! 1)" by (simp add: sample_workflow_def)
  ultimately have "advance_visit demo_codec demo_live demo_segment [] ?a [] =
      Inr (demo_worked, None, [((45, 8), 3600000000)])"
    by (simp add: advance_visit_def demo_coordinates demo_status find_or_stop_def demo_live_sel demo_collections cap w
        replaced_def demo_segment_us queue_cause_def dict_get_default_def running)
  then show ?thesis
    by (simp add: advance_segment_def demo_open demo_coordinates r demo_assigned blocked_visits_def)
      (simp add: demo_worked_def demo_coordinates)
qed

lemma demo_open_keyed: "well_keyed sv_id (open_visits demo_live)" "\<forall>(k, v) \<in> set (open_visits demo_live). 0 \<le> sv_remaining v"
  by (simp_all add: demo_open well_keyed_def demo_coordinates) (simp add: demo_visit_def)

theorem advance_segment_labour_witness:
  "account [((45, 8), 3600000000)] 45 demo_segment = account [] 45 demo_segment + labour_between 45 (open_visits demo_live) [(44, demo_worked)] \<and>
   labour_between 45 (open_visits demo_live) [(44, demo_worked)] \<le> 3600000000"
proof -
  have "distinct (map mi_id (st_member_identities (lt_scrum demo_live)))"
    "demo_identity \<in> set (st_member_identities (lt_scrum demo_live))"
    by (simp_all add: demo_live_sel demo_collections)
  from advance_segment_labour[OF demo_advanced demo_open_keyed _ _ this demo_capacity(2,3)]
  show ?thesis by (simp add: demo_segment_us demo_coordinates)
qed

theorem advance_segment_progress_witness:
  "\<exists>v'. map_of [(44 :: uuid, demo_worked)] 44 = Some v' \<and> progressed demo_visit v' \<and> check_visit demo_codec v' = Inr ()"
proof -
  have "wip_limit demo_live (dict_of mi_id (st_member_identities (lt_scrum demo_live))) 45 1"
    by (simp add: wip_limit_def demo_live_sel demo_collections dict_of_def demo_coordinates)
      (metis Inr_inject MemberBlueprint.select_convs(4) demo_member order_refl sample_member_def)
  from advance_segment_progress[OF demo_advanced demo_open_keyed _ this]
  have "\<And>k v. map_of (open_visits demo_live) k = Some v \<Longrightarrow>
      \<exists>v'. map_of [(44, demo_worked)] k = Some v' \<and> progressed v v' \<and> check_visit demo_codec v' = Inr ()"
    by (simp add: demo_segment_us)
  from this[of 44 demo_visit] show ?thesis by (simp add: demo_open)
qed

theorem assign_owner_choice_witness:
  "\<exists>i \<in> {demo_identity}. eligible demo_live demo_visit demo_segment [] [] i"
  using assign_owner_choice[OF demo_assign_owner] by auto

theorem advance_visit_accounts_time_witness:
  "\<exists>v' q c'. advance_visit demo_codec demo_live demo_segment [] \<lparr>as_visit = demo_visit, as_denied_reason = Some ''WIP_LIMIT''\<rparr> [] = Inr (v', q, c') \<and>
     time_accounted demo_segment (wf_statuses sample_workflow ! 1) demo_visit v' q"
proof -
  let ?a = "\<lparr>as_visit = demo_visit, as_denied_reason = Some ''WIP_LIMIT''\<rparr>"
  have ready: "visit_ready demo_codec demo_live demo_segment demo_visit"
    using demo_checks(2) demo_status
    by (simp add: visit_ready_def demo_segment_us demo_coordinates) (simp add: demo_visit_def MAX_SQLITE_INTEGER_def)
  have "members_ready demo_live" by (simp add: members_ready_def demo_live_sel demo_collections demo_member)
  then obtain v' q c' where r: "advance_visit demo_codec demo_live demo_segment [] ?a [] = Inr (v', q, c')"
    using advance_visit_succeeds[of demo_live demo_codec demo_segment ?a "[]" "[]"] ready
    by (auto simp: demo_segment_us)
  have "time_accounted demo_segment (wf_statuses sample_workflow ! 1) demo_visit v' q"
    using advance_visit_accounts_time[OF r, of "wf_statuses sample_workflow ! 1"] demo_checks(2) demo_status
    by (simp add: demo_segment_us demo_coordinates)
  then show ?thesis using r by blast
qed

theorem advance_segment_succeeds_witness:
  "\<exists>visits' causes c'. advance_segment demo_codec demo_live (dict_of wi_id [demo_work]) (open_visits demo_live) [] demo_segment [59] =
     Inr (visits', causes, c')"
proof -
  have "validate_snapshot demo_env (lt_scrum demo_live) = Inr ()"
    "validate_against demo_env (lt_scrum demo_live) (lt_blueprint demo_live) = Inr ()"
    by (simp_all add: demo_live_sel demo_snapshot demo_against)
  from advance_segment_succeeds[OF this, of demo_segment "[]" "[59]"] show ?thesis
    by (simp add: demo_segment_us demo_live_sel demo_collections demo_sel)
      (simp add: demo_visit_def MAX_SQLITE_INTEGER_def)
qed

end
