(* ===== verification/Tick_Visits.thy ===== *)
theory Tick_Visits
  imports Tick_Progress Business_Calendar "HOL-Library.List_Lexorder" "HOL-Library.Char_ord"
begin

text \<open>
  From the business segments of a tick to its result (\<open>v2/domain/scrum_tick.py\<close>): where the tick may
  end, the segments between two instants, the instant at which the first visit completes, the loop over
  the segments that stops there, and the visits that are closed, with the ones that follow them.
  Draws come from an argument, the \<open>DrawSource\<close> of the code.
\<close>

section \<open>Segments\<close>

definition live_calendar :: "scrum_env \<Rightarrow> LiveTeamState \<Rightarrow> CalendarConfiguration res" where
  "live_calendar env st =
     calendar_configuration (en_zone env) (tb_timezone (bp_team (lt_blueprint st))) (bp_calendar (lt_blueprint st))"

function risk_boundary_scan ::
  "CalendarConfiguration \<Rightarrow> instant \<Rightarrow> instant \<Rightarrow> int \<Rightarrow> int \<Rightarrow> instant res" where
  "risk_boundary_scan cal cursor ends_at day final =
     (if final < day then Inr ends_at
      else bindR (working_interval cal day) (\<lambda>interval.
        if (case interval of None \<Rightarrow> False | Some iv \<Rightarrow> cursor < iv_start iv \<and> iv_start iv < ends_at)
        then Inr (iv_start (the interval))
        else bindR (date_add day 1) (\<lambda>next. risk_boundary_scan cal cursor ends_at next final)))"
  by pat_completeness auto
termination
  by (relation "measure (\<lambda>(cal, cursor, ends_at, day, final). nat (final + 1 - day))") (auto simp: date_add_Inr)

declare risk_boundary_scan.simps [simp del]

definition next_workday_risk_boundary :: "scrum_env \<Rightarrow> LiveTeamState \<Rightarrow> instant \<Rightarrow> instant res" where
  "next_workday_risk_boundary env st ends_at =
     (let rules = rb_rules (bp_risks (lt_blueprint st));
          has_trigger = (\<exists>r \<in> set rules. rr_trigger r = ''WORKDAY_STARTED'');
          has_active_work = (\<exists>w \<in> set (st_work_items (lt_scrum st)). wi_lifecycle w = WI_ACTIVE)
      in
      if \<not> has_trigger \<or> \<not> has_active_work then Inr ends_at
      else
        let cursor = rt_simulation_time (lt_runtime st) in
        bindR (live_calendar env st) (\<lambda>cal.
        bindR (business_date cal cursor) (\<lambda>day.
        bindR (business_date cal ends_at) (\<lambda>final. risk_boundary_scan cal cursor ends_at day final))))"

definition effective_end :: "scrum_env \<Rightarrow> LiveTeamState \<Rightarrow> instant \<Rightarrow> instant res" where
  "effective_end env st requested_end =
     (let cursor = rt_simulation_time (lt_runtime st);
          planned = filter (\<lambda>s. ss_lifecycle s = SP_PLANNED \<and> cursor < ss_planned_start_at s) (st_sprints (lt_scrum st));
          active = filter (\<lambda>s. ss_lifecycle s = SP_ACTIVE) (st_sprints (lt_scrum st));
          bounded =
            (case planned of
               p # _ \<Rightarrow> min requested_end (ss_planned_start_at p)
             | [] \<Rightarrow> (case active of [] \<Rightarrow> requested_end | a # _ \<Rightarrow> min requested_end (ss_planned_end_at a)))
      in next_workday_risk_boundary env st (max cursor bounded))"

text \<open>The instants inside a working interval at which somebody's availability changes.\<close>

definition availability_instants :: "LiveTeamState \<Rightarrow> instant list" where
  "availability_instants st =
     concat (map (\<lambda>a. [av_starts_at a, av_ends_at a]) (concat (map mb_availability (bp_members (lt_blueprint st))))) @
     concat (map (\<lambda>v. [ov_starts_at v, ov_ends_at v]) (st_overlays (lt_scrum st)))"

definition availability_boundaries :: "LiveTeamState \<Rightarrow> instant \<Rightarrow> instant \<Rightarrow> instant list" where
  "availability_boundaries st starts_at ends_at =
     sort (remdups (starts_at # ends_at # filter (\<lambda>t. starts_at < t \<and> t < ends_at) (availability_instants st)))"

definition day_segments :: "LiveTeamState \<Rightarrow> int \<Rightarrow> instant \<Rightarrow> instant \<Rightarrow> UtcInterval \<Rightarrow> BusinessSegment list" where
  "day_segments st day starts_at ends_at working =
     (let start = max starts_at (iv_start working); stop = min ends_at (iv_end working) in
      if start < stop
      then let boundaries = availability_boundaries st start stop in
        map (\<lambda>(left, right). \<lparr>sg_business_date = day, sg_start = left, sg_end = right\<rparr>) (zip boundaries (tl boundaries))
      else [])"

function segments_from ::
  "LiveTeamState \<Rightarrow> CalendarConfiguration \<Rightarrow> instant \<Rightarrow> instant \<Rightarrow> int \<Rightarrow> int \<Rightarrow> BusinessSegment list res" where
  "segments_from st cal starts_at ends_at day final =
     (if final < day then Inr []
      else bindR (working_interval cal day) (\<lambda>working.
           bindR (date_add day 1) (\<lambda>next.
           bindR (segments_from st cal starts_at ends_at next final) (\<lambda>rest.
             Inr ((case working of None \<Rightarrow> [] | Some iv \<Rightarrow> day_segments st day starts_at ends_at iv) @ rest)))))"
  by pat_completeness auto
termination
  by (relation "measure (\<lambda>(st, cal, starts_at, ends_at, day, final). nat (final + 1 - day))") (auto simp: date_add_Inr)

declare segments_from.simps [simp del]

definition business_segments ::
  "LiveTeamState \<Rightarrow> CalendarConfiguration \<Rightarrow> instant \<Rightarrow> instant \<Rightarrow> BusinessSegment list res" where
  "business_segments st cal starts_at ends_at =
     (if starts_at = ends_at then Inr []
      else bindR (business_date cal starts_at) (\<lambda>first_day.
           bindR (instant_add ends_at (- 1)) (\<lambda>last.
           bindR (business_date cal last) (\<lambda>final_day.
             segments_from st cal starts_at ends_at first_day final_day))))"

section \<open>Completion\<close>

definition business_elapsed :: "CalendarConfiguration \<Rightarrow> instant \<Rightarrow> instant \<Rightarrow> int res" where
  "business_elapsed cal a b =
     bindR (utc_interval a b) (\<lambda>iv. bindR (elapsed cal iv) (\<lambda>e. Inr (el_business e)))"

definition touch_completion ::
  "LiveTeamState \<Rightarrow> BusinessSegment \<Rightarrow> StatusVisitState \<Rightarrow> StatusVisitState \<Rightarrow> (uuid, int) dict \<Rightarrow> instant option res" where
  "touch_completion st g before after used =
     (if sv_remaining after \<noteq> 0 then Inr None
      else if sv_remaining before = 0 then Inr (Some (sg_start g))
      else case sv_member_id after of
        None \<Rightarrow> Inr None
      | Some m \<Rightarrow>
          bindR (find_or_stop (\<lambda>i. mi_id i = m) (st_member_identities (lt_scrum st))) (\<lambda>i.
          bindR (effective_fraction st i g) (\<lambda>fraction.
          bindR (f_div (f_of_int (dict_get_default used (mi_id i) 0 + sv_remaining before)) fraction) (\<lambda>labour.
          bindR (instant_add (sg_start g) \<lceil>labour\<rceil>) (\<lambda>at_instant. Inr (Some at_instant))))))"

definition dwell_completion ::
  "CalendarConfiguration \<Rightarrow> BusinessSegment \<Rightarrow> StatusVisitState \<Rightarrow> StatusVisitSample \<Rightarrow> instant res" where
  "dwell_completion cal g v s =
     bindR (business_elapsed cal (sv_entered_at v) (sg_start g)) (\<lambda>business.
       let service = max 0 (business - sv_pause v); required = hours_us (vs_dwell_sampled_hours s) in
       instant_add (sg_start g) (max 0 (required - service)))"

fun completion_candidates ::
  "LiveTeamState \<Rightarrow> CalendarConfiguration \<Rightarrow> BusinessSegment \<Rightarrow> (uuid, StatusVisitState) dict \<Rightarrow>
   (uuid, StatusVisitSample) dict \<Rightarrow> StatusVisitState list \<Rightarrow> (uuid, int) dict \<Rightarrow> instant list res" where
  "completion_candidates st cal g after samples [] used = Inr []"
| "completion_candidates st cal g after samples (v # vs) used =
     bindR (dict_get after (sv_id v)) (\<lambda>updated.
     bindR (touch_completion st g v updated used) (\<lambda>touch_at.
       let used' = (case sv_member_id updated of
                      None \<Rightarrow> used
                    | Some m \<Rightarrow> dict_set m (dict_get_default used m 0 + (sv_credited updated - sv_credited v)) used)
       in case touch_at of
            None \<Rightarrow> completion_candidates st cal g after samples vs used'
          | Some touched \<Rightarrow>
              bindR (dict_get samples (sv_id v)) (\<lambda>s.
              bindR (dwell_completion cal g v s) (\<lambda>dwell_at.
              bindR (completion_candidates st cal g after samples vs used') (\<lambda>rest.
                Inr (if max touched dwell_at \<le> sg_end g then max touched dwell_at # rest else rest))))))"

definition completion_boundary ::
  "LiveTeamState \<Rightarrow> CalendarConfiguration \<Rightarrow> BusinessSegment \<Rightarrow> (uuid, StatusVisitState) dict \<Rightarrow>
   (uuid, StatusVisitState) dict \<Rightarrow> (uuid, WorkItemState) dict \<Rightarrow> instant option res" where
  "completion_boundary st cal g before after works =
     bindR (ranked works (map snd before)) (\<lambda>ordered.
     bindR (completion_candidates st cal g after (dict_of vs_visit_id (st_samples (lt_scrum st))) ordered []) (\<lambda>candidates.
       Inr (case candidates of [] \<Rightarrow> None | t # ts \<Rightarrow> Some (min_of t ts))))"

definition is_complete ::
  "StatusVisitState \<Rightarrow> StatusVisitSample \<Rightarrow> instant \<Rightarrow> CalendarConfiguration \<Rightarrow> bool res" where
  "is_complete v s at_end cal =
     (if sv_remaining v \<noteq> 0 then Inr False
      else bindR (business_elapsed cal (sv_entered_at v) at_end) (\<lambda>business.
        Inr (hours_us (vs_dwell_sampled_hours s) \<le> max 0 (business - sv_pause v))))"

section \<open>The loop over the segments\<close>

fun advance_segments ::
  "codec \<Rightarrow> LiveTeamState \<Rightarrow> CalendarConfiguration \<Rightarrow> (uuid, WorkItemState) dict \<Rightarrow> uuid list \<Rightarrow>
   BusinessSegment list \<Rightarrow> (uuid, StatusVisitState) dict \<Rightarrow> consumption \<Rightarrow> QueueCause list \<Rightarrow> instant \<Rightarrow>
   ((uuid, StatusVisitState) dict \<times> consumption \<times> QueueCause list \<times> instant) res" where
  "advance_segments cd st cal works blocked [] visits c causes committed_end = Inr (visits, c, causes, committed_end)"
| "advance_segments cd st cal works blocked (g # gs) visits c causes committed_end =
     bindR (advance_segment cd st works visits c g blocked) (\<lambda>(probe, probe_causes, probe_consumption).
     bindR (completion_boundary st cal g visits probe works) (\<lambda>boundary.
       case boundary of
         None \<Rightarrow> advance_segments cd st cal works blocked gs probe probe_consumption (causes @ probe_causes) committed_end
       | Some t \<Rightarrow>
           bindR (advance_segment cd st works visits c (g\<lparr>sg_end := t\<rparr>) blocked) (\<lambda>(advanced, new_causes, c').
             Inr (advanced, c', causes @ new_causes, t))))"

definition aggregate_queue_causes :: "QueueCause list \<Rightarrow> QueueCause list" where
  "aggregate_queue_causes causes =
     (let totals = fold (\<lambda>q d. dict_set (qc_visit_id q, qc_reason q)
                    (dict_get_default d (qc_visit_id q, qc_reason q) 0 + qc_delta q) d) causes []
      in map (\<lambda>((i, reason), delta). \<lparr>qc_visit_id = i, qc_reason = reason, qc_delta = delta\<rparr>)
           (sort_key (\<lambda>((i, reason), delta). (uuid_text i, reason)) totals))"

section \<open>Transitions\<close>

type_synonym draw_source = "DecisionOccurrence \<Rightarrow> UniformDraw res"

text \<open>The source the scheduler uses: the stream of the blueprint's seed and the run.\<close>

definition seeded_draws :: "codec \<Rightarrow> PersistedTeamAggregate \<Rightarrow> draw_source" where
  "seeded_draws cd a decision =
     bindR (random_stream (bp_seed (pa_blueprint a)) (vt_id (pa_team a)) (rt_run_id (pa_runtime a))) (\<lambda>stream.
       stream_draw cd stream decision 0)"

record SemanticCounterClaim =
  cl_scope :: SemanticCounterScope
  cl_expected_next :: int
  cl_count :: int

definition check_claim :: "SemanticCounterClaim \<Rightarrow> unit res" where
  "check_claim k =
     bindR (check_counter_scope (cl_scope k)) (\<lambda>_.
     bindR (safe_integer (cl_expected_next k) ''expected_next'') (\<lambda>start.
     bindR (safe_integer (cl_count k) ''count'') (\<lambda>n.
     bindR (guardR (n \<noteq> 0) (Value_Error ''count must be positive'')) (\<lambda>_.
       guardR (start + n - 1 \<le> MAX_SAFE_INTEGER)
         (Value_Error ''claimed ordinal range exceeds the safe integer domain'')))))"

definition is_timed :: "LiveTeamState \<Rightarrow> WorkflowRouteStep \<Rightarrow> bool res" where
  "is_timed st step =
     bindR (status_named st (rp_status_key step)) (\<lambda>status.
       Inr (ws_consumes_capacity status \<and> rp_required_activity step \<noteq> None))"

text \<open>\<open>next((step for step in later_steps if _timed(state, step)), None)\<close>.\<close>

fun first_timed :: "LiveTeamState \<Rightarrow> WorkflowRouteStep list \<Rightarrow> WorkflowRouteStep option res" where
  "first_timed st [] = Inr None"
| "first_timed st (step # steps) =
     bindR (is_timed st step) (\<lambda>timed. if timed then Inr (Some step) else first_timed st steps)"

definition required_from_draw :: "TimingEntry \<Rightarrow> UniformDraw \<Rightarrow> int res" where
  "required_from_draw entry draw =
     bindR (touch_bounds entry) (\<lambda>bounds.
     bindR (sample_touch bounds (ud_unit_value draw)) (\<lambda>touch. Inr (hours_us (ds_sampled_hours touch))))"

definition new_timed_visit ::
  "scrum_env \<Rightarrow> LiveTeamState \<Rightarrow> WorkItemState \<Rightarrow> WorkflowRouteStep \<Rightarrow> int \<Rightarrow> draw_source \<Rightarrow>
   (StatusVisitState \<times> StatusVisitSample) res" where
  "new_timed_visit env st work step ordinal draws =
     bindR (visit_rng_id (en_codec env) (wi_id work) ordinal) (\<lambda>visit_id.
     bindR (decision_occurrence visit_id STATUS_TOUCH 0) (\<lambda>touch_decision.
     bindR (draws touch_decision) (\<lambda>touch_draw.
     bindR (find_or_stop (\<lambda>t. timing_cell t = (rp_status_key step, wi_issue_type work, wi_story_points work))
              (tm_entries (bp_timing (lt_blueprint st)))) (\<lambda>entry.
     bindR (required_from_draw entry touch_draw) (\<lambda>required.
     let v = \<lparr>sv_id = visit_id, sv_team_id = wi_team_id work, sv_run_id = wi_run_id work, sv_work_item_id = wi_id work,
              sv_ordinal = ordinal, sv_lifecycle = SV_OPEN, sv_status_key = rp_status_key step,
              sv_activity_key = rp_required_activity step, sv_member_id = None, sv_entered_at = wi_updated_at work,
              sv_closed_at = None, sv_required = required, sv_elapsed = 0, sv_remaining = required, sv_queue = 0,
              sv_pause = 0, sv_credited = 0\<rparr>
     in bindR (replaced (en_codec env) v) (\<lambda>visit.
        bindR (decision_occurrence visit_id STATUS_DWELL 0) (\<lambda>dwell_decision.
        bindR (draws dwell_decision) (\<lambda>dwell_draw.
        bindR (create_sample env \<lparr>si_blueprint = lt_blueprint st, si_work_item = work, si_visit = visit,
                                   si_dwell_draw = dwell_draw, si_touch_draw = touch_draw\<rparr>) (\<lambda>sample.
          Inr (visit, sample))))))))))"

definition replaced_work :: "codec \<Rightarrow> WorkItemState \<Rightarrow> WorkItemState res" where
  "replaced_work cd w = bindR (check_work_item cd w) (\<lambda>_. Inr w)"

record Transition =
  tr_work :: WorkItemState
  tr_next :: "(StatusVisitState \<times> StatusVisitSample \<times> SemanticCounterClaim) option"

text \<open>
  The visit has been closed, so its \<open>closed_at\<close> is set. The position is that of the first step with a
  status; \<open>next\<close> raises when there is none.
\<close>

fun step_position :: "string \<Rightarrow> WorkflowRouteStep list \<Rightarrow> nat \<Rightarrow> nat res" where
  "step_position key [] k = Inl Stop_Iteration"
| "step_position key (p # ps) k = (if rp_status_key p = key then Inr k else step_position key ps (k + 1))"

definition transition ::
  "scrum_env \<Rightarrow> LiveTeamState \<Rightarrow> WorkItemState \<Rightarrow> StatusVisitState \<Rightarrow> draw_source \<Rightarrow> Transition res" where
  "transition env st work closed_visit draws =
     bindR (find_or_stop (\<lambda>r. ro_issue_type r = wi_issue_type work) (wf_routes (bp_workflow (lt_blueprint st)))) (\<lambda>route.
     bindR (step_position (sv_status_key closed_visit) (ro_steps route) 0) (\<lambda>position.
     let later_steps = drop (position + 1) (ro_steps route) in
     bindR (first_timed st later_steps) (\<lambda>timed.
       case timed of
         None \<Rightarrow>
           bindR (py_index later_steps (- 1)) (\<lambda>terminal.
           bindR (replaced_work (en_codec env) (work\<lparr>wi_lifecycle := WI_DONE,
                    wi_current_status_key := rp_status_key terminal, wi_updated_at := the (sv_closed_at closed_visit)\<rparr>)) (\<lambda>done_work.
             Inr \<lparr>tr_work = done_work, tr_next = None\<rparr>))
       | Some step \<Rightarrow>
           bindR (find_or_stop (\<lambda>k. cs_kind (sn_scope k) = VISIT_ORDINAL \<and> cs_scope_id (sn_scope k) = wi_id work)
                    (st_counters (lt_scrum st))) (\<lambda>counter.
           bindR (replaced_work (en_codec env) (work\<lparr>wi_current_status_key := rp_status_key step,
                    wi_updated_at := the (sv_closed_at closed_visit)\<rparr>)) (\<lambda>next_work.
           bindR (new_timed_visit env st next_work step (sn_next_value counter) draws) (\<lambda>(visit, sample).
           let claim = \<lparr>cl_scope = sn_scope counter, cl_expected_next = sn_next_value counter, cl_count = 1\<rparr> in
           bindR (check_claim claim) (\<lambda>_.
             Inr \<lparr>tr_work = next_work, tr_next = Some (visit, sample, claim)\<rparr>)))))))"

section \<open>The result of a tick\<close>

record TickResult =
  tk_ends_at :: instant
  tk_visits :: "StatusVisitState list"
  tk_work_items :: "WorkItemState list"
  tk_samples :: "StatusVisitSample list"
  tk_consumption :: "MemberBusinessDateConsumption list"
  tk_claims :: "SemanticCounterClaim list"
  tk_queue_causes :: "QueueCause list"

definition consumption_changes :: "LiveTeamState \<Rightarrow> consumption \<Rightarrow> MemberBusinessDateConsumption list res" where
  "consumption_changes st values =
     (let original = consumption_map st in
      mapR (\<lambda>((m, d), consumed).
             let k = \<lparr>mc_team_id = rt_team_id (lt_runtime st), mc_run_id = rt_run_id (lt_runtime st), mc_member_id = m,
                      mc_business_date = d, mc_consumed = consumed\<rparr>
             in bindR (check_consumption k) (\<lambda>_. Inr k))
        (filter (\<lambda>(key, consumed). map_of original key \<noteq> Some consumed)
           (sort_key (\<lambda>((m, d), consumed). (d, uuid_text m)) values)))"

fun finish_loop ::
  "scrum_env \<Rightarrow> LiveTeamState \<Rightarrow> CalendarConfiguration \<Rightarrow> (uuid, WorkItemState) dict \<Rightarrow> (uuid, StatusVisitState) dict \<Rightarrow>
   (uuid, StatusVisitSample) dict \<Rightarrow> instant \<Rightarrow> draw_source \<Rightarrow> StatusVisitState list \<Rightarrow> TickResult \<Rightarrow> TickResult res" where
  "finish_loop env st cal works original samples at_end draws [] acc = Inr acc"
| "finish_loop env st cal works original samples at_end draws (v # vs) acc =
     bindR (dict_get samples (sv_id v)) (\<lambda>s.
     bindR (is_complete v s at_end cal) (\<lambda>complete.
       if complete
       then bindR (replaced (en_codec env) (v\<lparr>sv_lifecycle := SV_CLOSED, sv_closed_at := Some at_end\<rparr>)) (\<lambda>closed_visit.
            bindR (dict_get works (sv_work_item_id v)) (\<lambda>work.
            bindR (transition env st work closed_visit draws) (\<lambda>t.
              finish_loop env st cal works original samples at_end draws vs
                (case tr_next t of
                   None \<Rightarrow> acc\<lparr>tk_visits := tk_visits acc @ [closed_visit], tk_work_items := tk_work_items acc @ [tr_work t]\<rparr>
                 | Some (visit, sample, claim) \<Rightarrow>
                     acc\<lparr>tk_visits := tk_visits acc @ [closed_visit, visit], tk_work_items := tk_work_items acc @ [tr_work t],
                         tk_samples := tk_samples acc @ [sample], tk_claims := tk_claims acc @ [claim]\<rparr>))))
       else bindR (dict_get original (sv_id v)) (\<lambda>o_visit.
              finish_loop env st cal works original samples at_end draws vs
                (if v \<noteq> o_visit then acc\<lparr>tk_visits := tk_visits acc @ [v]\<rparr> else acc))))"

definition finish_visits ::
  "scrum_env \<Rightarrow> LiveTeamState \<Rightarrow> CalendarConfiguration \<Rightarrow> (uuid, WorkItemState) dict \<Rightarrow> (uuid, StatusVisitState) dict \<Rightarrow>
   (uuid, StatusVisitState) dict \<Rightarrow> consumption \<Rightarrow> instant \<Rightarrow> draw_source \<Rightarrow> TickResult res" where
  "finish_visits env st cal works original visits c at_end draws =
     bindR (finish_loop env st cal works original (dict_of vs_visit_id (st_samples (lt_scrum st))) at_end draws
              (map snd visits)
              \<lparr>tk_ends_at = at_end, tk_visits = [], tk_work_items = [], tk_samples = [], tk_consumption = [],
               tk_claims = [], tk_queue_causes = []\<rparr>) (\<lambda>r.
     bindR (consumption_changes st c) (\<lambda>changes. Inr (r\<lparr>tk_consumption := changes\<rparr>)))"

definition advance_visits ::
  "scrum_env \<Rightarrow> LiveTeamState \<Rightarrow> instant \<Rightarrow> BusinessSegment list \<Rightarrow> CalendarConfiguration \<Rightarrow> draw_source \<Rightarrow> uuid list \<Rightarrow>
   TickResult res" where
  "advance_visits env st at_end segments cal draws blocked =
     (let works = dict_of wi_id (st_work_items (lt_scrum st)) in
      bindR (advance_segments (en_codec env) st cal works blocked segments (open_visits st) (consumption_map st) [] at_end)
        (\<lambda>(visits, c, causes, committed_end).
      bindR (finish_visits env st cal works (open_visits st) visits c committed_end draws) (\<lambda>r.
        Inr (r\<lparr>tk_queue_causes := aggregate_queue_causes causes\<rparr>))))"

end
