(* ===== verification/Tick_Time.thy ===== *)
theory Tick_Time
  imports Tick_Visits
begin

text \<open>
  The segments of a tick: they lie inside the tick and inside working intervals, in order and without
  overlap, nobody's availability changes inside one, and together they are exactly the business time
  that the calendar measures. The boundary at which a tick stops lies inside its segment.
\<close>

section \<open>Chains of boundaries\<close>

definition chain_segments :: "int \<Rightarrow> instant list \<Rightarrow> BusinessSegment list" where
  "chain_segments day bs =
     map (\<lambda>(left, right). \<lparr>sg_business_date = day, sg_start = left, sg_end = right\<rparr>) (zip bs (tl bs))"

lemma chain_segments_simps [simp]:
  "chain_segments day [] = []" "chain_segments day [b] = []"
  "chain_segments day (a # b # bs) = \<lparr>sg_business_date = day, sg_start = a, sg_end = b\<rparr> # chain_segments day (b # bs)"
  by (simp_all add: chain_segments_def)

lemma chain_segments_total:
  "bs \<noteq> [] \<Longrightarrow> (\<Sum>g\<leftarrow>chain_segments day bs. sg_microseconds g) = last bs - hd bs"
proof (induction bs rule: induct_list012)
  case (3 a b bs)
  then show ?case by (simp add: sg_microseconds_def)
qed simp_all

lemma chain_segments_sorted:
  assumes "sorted_wrt (<) bs"
  shows "\<forall>g \<in> set (chain_segments day bs). sg_business_date g = day \<and> sg_start g < sg_end g \<and>
      hd bs \<le> sg_start g \<and> sg_end g \<le> last bs \<and> \<not> (\<exists>t \<in> set bs. sg_start g < t \<and> t < sg_end g)"
    and "sorted_wrt (\<lambda>g h. sg_end g \<le> sg_start h) (chain_segments day bs)"
  using assms
proof (induction bs rule: induct_list012)
  case (3 a b bs)
  {
    case 1
    have IH: "\<forall>g \<in> set (chain_segments day (b # bs)). sg_business_date g = day \<and> sg_start g < sg_end g \<and>
      b \<le> sg_start g \<and> sg_end g \<le> last (b # bs) \<and> \<not> (\<exists>t \<in> set (b # bs). sg_start g < t \<and> t < sg_end g)"
      using 3 1 by simp
    have "b \<le> last (b # bs)" using 1 by (cases bs rule: rev_cases) auto
    then show ?case using IH 1 by fastforce
  next
    case 2
    have IH: "\<forall>g \<in> set (chain_segments day (b # bs)). b \<le> sg_start g" using 3 2 by simp
    then show ?case using 3 2 by auto
  }
qed simp_all

lemma availability_boundaries_sorted:
  assumes "a < b"
  shows "sorted_wrt (<) (availability_boundaries st a b)" "hd (availability_boundaries st a b) = a"
    "last (availability_boundaries st a b) = b" "availability_boundaries st a b \<noteq> []"
    "set (availability_boundaries st a b) = {a, b} \<union> {t \<in> set (availability_instants st). a < t \<and> t < b}"
proof -
  let ?bs = "availability_boundaries st a b"
  show s: "set ?bs = {a, b} \<union> {t \<in> set (availability_instants st). a < t \<and> t < b}"
    by (auto simp: availability_boundaries_def)
  then show n: "?bs \<noteq> []" by auto
  have d: "distinct ?bs" "sorted ?bs" by (simp_all add: availability_boundaries_def)
  then show w: "sorted_wrt (<) ?bs" by (simp add: strict_sorted_iff)
  have bounds: "\<forall>t \<in> set ?bs. a \<le> t \<and> t \<le> b" using s assms by auto
  have "hd ?bs \<in> set ?bs" "last ?bs \<in> set ?bs" using n by simp_all
  moreover have "hd ?bs \<le> a"
  proof -
    have "a \<in> set ?bs" using s by simp
    then show ?thesis using d(2) by (cases ?bs) auto
  qed
  moreover have "b \<le> last ?bs"
  proof -
    have "b \<in> set ?bs" using s by simp
    then show ?thesis using d(2) by (cases ?bs rule: rev_cases) (auto simp: sorted_append)
  qed
  ultimately show "hd ?bs = a" "last ?bs = b" using bounds by force+
qed

section \<open>Segments of a day\<close>

text \<open>Nobody's availability interval starts or ends strictly inside a segment.\<close>

definition steady :: "LiveTeamState \<Rightarrow> BusinessSegment \<Rightarrow> bool" where
  "steady st g \<longleftrightarrow> \<not> (\<exists>t \<in> set (availability_instants st). sg_start g < t \<and> t < sg_end g)"

definition in_working_day :: "CalendarConfiguration \<Rightarrow> BusinessSegment \<Rightarrow> bool" where
  "in_working_day cal g \<longleftrightarrow>
     (\<exists>iv. working_interval cal (sg_business_date g) = Inr (Some iv) \<and> iv_start iv \<le> sg_start g \<and> sg_end g \<le> iv_end iv)"

lemma day_segments_spec:
  "\<forall>g \<in> set (day_segments st day a b iv). sg_business_date g = day \<and> sg_start g < sg_end g \<and> a \<le> sg_start g \<and>
     sg_end g \<le> b \<and> iv_start iv \<le> sg_start g \<and> sg_end g \<le> iv_end iv \<and> steady st g"
  "sorted_wrt (\<lambda>g h. sg_end g \<le> sg_start h) (day_segments st day a b iv)"
  "(\<Sum>g\<leftarrow>day_segments st day a b iv. sg_microseconds g) = intersection \<lparr>iv_start = a, iv_end = b\<rparr> iv"
proof -
  let ?s = "max a (iv_start iv)" and ?e = "min b (iv_end iv)"
  have "(\<forall>g \<in> set (day_segments st day a b iv). sg_business_date g = day \<and> sg_start g < sg_end g \<and> a \<le> sg_start g \<and>
     sg_end g \<le> b \<and> iv_start iv \<le> sg_start g \<and> sg_end g \<le> iv_end iv \<and> steady st g) \<and>
    sorted_wrt (\<lambda>g h. sg_end g \<le> sg_start h) (day_segments st day a b iv) \<and>
    (\<Sum>g\<leftarrow>day_segments st day a b iv. sg_microseconds g) = intersection \<lparr>iv_start = a, iv_end = b\<rparr> iv"
  proof (cases "?s < ?e")
    case False
    then have "day_segments st day a b iv = []" unfolding day_segments_def Let_def by (simp only: if_False)
    then show ?thesis using False unfolding intersection_def by (simp add: not_less del: max_less_iff_conj min_less_iff_conj)
  next
    case True
    then have d: "day_segments st day a b iv = chain_segments day (availability_boundaries st ?s ?e)"
      unfolding day_segments_def Let_def chain_segments_def by (simp only: if_True)
    note b = availability_boundaries_sorted[OF True, of st]
    note c = chain_segments_sorted[OF b(1), of day]
    have st: "steady st g" if "g \<in> set (chain_segments day (availability_boundaries st ?s ?e))" for g
    proof -
      have g: "?s \<le> sg_start g" "sg_end g \<le> ?e" "\<not> (\<exists>t \<in> set (availability_boundaries st ?s ?e). sg_start g < t \<and> t < sg_end g)"
        using bspec[OF c(1) that] b(2,3) by simp_all
      have "t \<in> set (availability_boundaries st ?s ?e)"
        if "t \<in> set (availability_instants st)" "sg_start g < t" "t < sg_end g" for t
      proof -
        have "?s < t" "t < ?e" using that g(1,2) by linarith+
        then show ?thesis using that(1) unfolding b(5) by blast
      qed
      then show ?thesis using g(3) by (auto simp: steady_def)
    qed
    have "?s \<le> sg_start g \<and> sg_end g \<le> ?e" if "g \<in> set (chain_segments day (availability_boundaries st ?s ?e))" for g
      using bspec[OF c(1) that] b(2,3) by simp
    then have m: "a \<le> sg_start g \<and> iv_start iv \<le> sg_start g \<and> sg_end g \<le> b \<and> sg_end g \<le> iv_end iv"
      if "g \<in> set (chain_segments day (availability_boundaries st ?s ?e))" for g
      using that by fastforce
    have "(\<Sum>g\<leftarrow>chain_segments day (availability_boundaries st ?s ?e). sg_microseconds g) = ?e - ?s"
      using chain_segments_total[OF b(4), of day] b(2,3) by simp
    then have t: "(\<Sum>g\<leftarrow>day_segments st day a b iv. sg_microseconds g) = intersection \<lparr>iv_start = a, iv_end = b\<rparr> iv"
      using True unfolding d by (simp add: intersection_def)
    show ?thesis using c st m t unfolding d by blast
  qed
  then show "\<forall>g \<in> set (day_segments st day a b iv). sg_business_date g = day \<and> sg_start g < sg_end g \<and> a \<le> sg_start g \<and>
     sg_end g \<le> b \<and> iv_start iv \<le> sg_start g \<and> sg_end g \<le> iv_end iv \<and> steady st g"
    "sorted_wrt (\<lambda>g h. sg_end g \<le> sg_start h) (day_segments st day a b iv)"
    "(\<Sum>g\<leftarrow>day_segments st day a b iv. sg_microseconds g) = intersection \<lparr>iv_start = a, iv_end = b\<rparr> iv"
    by blast+
qed

section \<open>The segments of a tick\<close>

lemma segments_from_spec:
  assumes "segments_from st cal a b day final = Inr gs"
  shows "(\<forall>g \<in> set gs. day \<le> sg_business_date g \<and> sg_start g < sg_end g \<and> a \<le> sg_start g \<and> sg_end g \<le> b \<and>
      in_working_day cal g \<and> steady st g) \<and>
    (\<forall>acc. sum_days cal \<lparr>iv_start = a, iv_end = b\<rparr> day final acc = Inr (acc + (\<Sum>g\<leftarrow>gs. sg_microseconds g)))"
  using assms
proof (induction st cal a b day final arbitrary: gs rule: segments_from.induct)
  case (1 st cal a b day final)
  show ?case
  proof (cases "final < day")
    case True
    then show ?thesis using "1.prems" by (simp add: segments_from.simps[of _ _ _ _ day] sum_days.simps[of _ _ day])
  next
    case False
    obtain working rest where w: "working_interval cal day = Inr working"
      and rest: "date_add day 1 = Inr (day + 1)" "segments_from st cal a b (day + 1) final = Inr rest"
      and gs: "gs = (case working of None \<Rightarrow> [] | Some iv \<Rightarrow> day_segments st day a b iv) @ rest"
      using "1.prems" False by (subst (asm) segments_from.simps) (auto simp: date_add_Inr elim!: bindR_InrE)
    note ih = "1.IH"[OF False w rest]
    have sum: "sum_days cal \<lparr>iv_start = a, iv_end = b\<rparr> day final acc =
        sum_days cal \<lparr>iv_start = a, iv_end = b\<rparr> (day + 1) final
          (acc + (case working of None \<Rightarrow> 0 | Some iv \<Rightarrow> intersection \<lparr>iv_start = a, iv_end = b\<rparr> iv))" for acc
    proof (cases "day = final")
      case True
      then show ?thesis
        using False by (subst sum_days.simps) (simp add: w[unfolded True] sum_days.simps[of _ _ "final + 1"] split: option.splits)
    next
      case n: False
      then show ?thesis using False by (subst sum_days.simps) (simp add: w split: option.splits)
    qed
    show ?thesis
    proof (cases working)
      case None
      then show ?thesis using ih sum gs by fastforce
    next
      case (Some iv)
      have "in_working_day cal g" if "g \<in> set (day_segments st day a b iv)" for g
        using bspec[OF day_segments_spec(1) that] w Some by (auto simp: in_working_day_def)
      then have "\<forall>g \<in> set gs. day \<le> sg_business_date g \<and> sg_start g < sg_end g \<and> a \<le> sg_start g \<and> sg_end g \<le> b \<and>
          in_working_day cal g \<and> steady st g"
        using ih day_segments_spec(1)[of st day a b iv] gs Some by fastforce
      moreover have "sum_days cal \<lparr>iv_start = a, iv_end = b\<rparr> day final acc = Inr (acc + (\<Sum>g\<leftarrow>gs. sg_microseconds g))" for acc
        using ih sum[of acc] gs Some day_segments_spec(3)[of st day a b iv] by simp
      ultimately show ?thesis by blast
    qed
  qed
qed

text \<open>The segments of a tick are its business time, cut where somebody's availability changes: each lies
  inside the tick and inside the working interval of its business date, none contains a change of
  availability, and their lengths add up to the business time that the calendar measures for the tick.\<close>

theorem business_segments_are_business_time:
  assumes "business_segments st cal a b = Inr gs" and "elapsed cal \<lparr>iv_start = a, iv_end = b\<rparr> = Inr e"
  shows "(\<forall>g \<in> set gs. sg_start g < sg_end g \<and> a \<le> sg_start g \<and> sg_end g \<le> b \<and> in_working_day cal g \<and> steady st g) \<and>
    (\<Sum>g\<leftarrow>gs. sg_microseconds g) = el_business e"
proof (cases "a = b")
  case True
  then show ?thesis using assms by (auto simp: business_segments_def elapsed_def dual_elapsed_def)
next
  case False
  then obtain day final where d: "business_date cal a = Inr day" "business_date cal (b - 1) = Inr final"
    and s: "segments_from st cal a b day final = Inr gs"
    using assms(1) by (auto simp: business_segments_def instant_add_def elim!: bindR_InrE split: if_splits)
  note spec = segments_from_spec[OF s]
  have "sum_days cal \<lparr>iv_start = a, iv_end = b\<rparr> day final 0 = Inr (\<Sum>g\<leftarrow>gs. sg_microseconds g)"
    using spec by simp
  then have "el_business e = (\<Sum>g\<leftarrow>gs. sg_microseconds g)"
    using assms(2) False d by (auto simp: elapsed_def dual_elapsed_def Let_def split: if_splits)
  then show ?thesis using spec by auto
qed

section \<open>The boundary\<close>

lemma dwell_completion_bounds:
  "dwell_completion cal g v s = Inr t \<Longrightarrow> sg_start g \<le> t"
  by (auto simp: dwell_completion_def Let_def instant_add_def elim!: bindR_InrE split: if_splits)

lemma completion_candidates_bounds:
  "completion_candidates st cal g after samples vs used = Inr ts \<Longrightarrow> \<forall>t \<in> set ts. sg_start g \<le> t \<and> t \<le> sg_end g"
proof (induction st cal g after samples vs used arbitrary: ts rule: completion_candidates.induct)
  case (2 st cal g after samples v vs used)
  obtain updated touch where u: "dict_get after (sv_id v) = Inr updated" "touch_completion st g v updated used = Inr touch"
    using "2.prems" by (auto elim!: bindR_InrE)
  show ?case
  proof (cases touch)
    case None
    then show ?thesis using 2 u by (simp add: Let_def)
  next
    case (Some touched)
    let ?used = "case sv_member_id updated of None \<Rightarrow> used
      | Some m \<Rightarrow> dict_set m (dict_get_default used m 0 + (sv_credited updated - sv_credited v)) used"
    obtain s dwell_at rest where s: "dict_get samples (sv_id v) = Inr s" and d: "dwell_completion cal g v s = Inr dwell_at"
      and rest: "completion_candidates st cal g after samples vs ?used = Inr rest"
      and ts: "ts = (if max touched dwell_at \<le> sg_end g then max touched dwell_at # rest else rest)"
      using "2.prems" u Some by (auto simp: Let_def elim!: bindR_InrE)
    have "\<forall>t \<in> set rest. sg_start g \<le> t \<and> t \<le> sg_end g"
      using "2.IH"(2)[OF u(1) _ refl refl s d rest] u(2) Some by simp
    moreover have "sg_start g \<le> max touched dwell_at"
      using dwell_completion_bounds[OF d] by simp
    ultimately show ?thesis unfolding ts by auto
  qed
qed simp

lemma min_of_in: "min_of x xs \<in> set (x # xs)"
proof -
  have "fold min xs x \<in> set (x # xs)"
  proof (induction xs arbitrary: x)
    case (Cons y ys)
    have "min y x \<in> {x, y}" by (auto simp: min_def)
    with Cons[of "min y x"] show ?case by auto
  qed simp
  then show ?thesis by (simp add: min_of_def)
qed

lemma completion_boundary_bounds:
  assumes "completion_boundary st cal g before after works = Inr (Some t)"
  shows "sg_start g \<le> t \<and> t \<le> sg_end g"
proof -
  obtain ordered ts where ts: "completion_candidates st cal g after (dict_of vs_visit_id (st_samples (lt_scrum st))) ordered [] = Inr ts"
    "(case ts of [] \<Rightarrow> None | t # ts \<Rightarrow> Some (min_of t ts)) = Some t"
    using assms by (auto simp: completion_boundary_def elim!: bindR_InrE)
  then obtain x xs where x: "ts = x # xs" "t = min_of x xs" by (cases ts) auto
  have "min_of x xs \<in> set (x # xs)" by (rule min_of_in)
  then show ?thesis using completion_candidates_bounds[OF ts(1)] x by auto
qed

section \<open>Labour over all segments\<close>

definition total_credit :: "(uuid, StatusVisitState) dict \<Rightarrow> (uuid, StatusVisitState) dict \<Rightarrow> int" where
  "total_credit visits visits' = (\<Sum>v'\<leftarrow>map snd visits'. sv_credited v') - (\<Sum>v\<leftarrow>map snd visits. sv_credited v)"

lemma total_credit_add: "total_credit a d = total_credit a b + total_credit b d"
  by (simp add: total_credit_def)

lemma total_set_add:
  "(\<Sum>x\<leftarrow>map snd (dict_set k (dict_get_default d k 0 + n) d). x) = (\<Sum>x\<leftarrow>map snd d. x) + (n :: int)"
proof (induction d)
  case (Cons kv d)
  then show ?case by (cases kv) (auto simp: dict_get_default_def)
qed (simp add: dict_get_default_def)

lemma advance_assigned_total:
  assumes "advance_assigned cd st g c0 as adv qs c = Inr (adv', qs', c')"
    and "\<forall>a \<in> set as. 0 \<le> sv_remaining (as_visit a)" and "0 \<le> sg_microseconds g"
    and "distinct (map (\<lambda>a. sv_id (as_visit a)) as)" and "(\<lambda>a. sv_id (as_visit a)) ` set as \<inter> fst ` set adv = {}"
  shows "(\<Sum>x\<leftarrow>map snd c'. x) - (\<Sum>x\<leftarrow>map snd c. x) =
    (\<Sum>v\<leftarrow>map snd adv'. sv_credited v) - (\<Sum>v\<leftarrow>map snd adv. sv_credited v) - (\<Sum>a\<leftarrow>as. sv_credited (as_visit a))"
  using assms
proof (induction cd st g c0 as adv qs c rule: advance_assigned.induct)
  case (2 cd st g c0 a as adv qs c)
  obtain v1 q1 c1 where v: "advance_visit cd st g c0 a c = Inr (v1, q1, c1)"
    and rest: "advance_assigned cd st g c0 as (dict_set (sv_id v1) v1 adv)
      (qs @ (case q1 of None \<Rightarrow> [] | Some q \<Rightarrow> [q])) c1 = Inr (adv', qs', c')"
    using "2.prems"(1) by (auto elim!: bindR_Inr3E)
  have r0: "0 \<le> sv_remaining (as_visit a)" using "2.prems"(2) by simp
  note w = advance_visit_cases[OF v r0 "2.prems"(3)]
  have id: "sv_id v1 = sv_id (as_visit a)" by (rule progressed_parts(1)[OF w(1)])
  have c1: "(\<Sum>x\<leftarrow>map snd c1. x) = (\<Sum>x\<leftarrow>map snd c. x) + credit (as_visit a) v1"
    using w(4)
  proof (elim disjE exE conjE)
    fix i cap
    assume "c1 = dict_set (mi_id i, sg_business_date g) (account c (mi_id i) g + credit (as_visit a) v1) c"
    then show ?thesis using total_set_add[of "(mi_id i, sg_business_date g)" c "credit (as_visit a) v1"] by simp
  qed simp
  have adv: "dict_set (sv_id v1) v1 adv = adv @ [(sv_id v1, v1)]"
    using fold_dict_set_fresh[of sv_id "[v1]" adv] "2.prems"(5) id by auto
  have "(\<lambda>a. sv_id (as_visit a)) ` set as \<inter> fst ` set (dict_set (sv_id v1) v1 adv) = {}"
    unfolding adv using "2.prems"(4,5) id by auto
  then have "(\<Sum>x\<leftarrow>map snd c'. x) - (\<Sum>x\<leftarrow>map snd c1. x) =
      (\<Sum>v\<leftarrow>map snd adv'. sv_credited v) - (\<Sum>v\<leftarrow>map snd (dict_set (sv_id v1) v1 adv). sv_credited v) -
      (\<Sum>a\<leftarrow>as. sv_credited (as_visit a))"
    using "2.IH"[OF v refl refl rest] "2.prems"(2-4) by simp
  then show ?case using c1 unfolding adv by (simp add: credit_def)
qed simp

lemma blocked_partition:
  assumes "well_keyed sv_id visits"
  shows "mset (map snd visits) = mset (map snd (blocked_visits blocked visits)) +
    mset (filter (\<lambda>v. sv_id v \<notin> set blocked) (map snd visits))"
proof -
  have dk: "distinct (map fst visits)" "\<And>i v. (i, v) \<in> set visits \<Longrightarrow> sv_id v = i"
    using assms by (auto simp: well_keyed_def)
  have ids: "map sv_id (map snd visits) = map fst visits" using dk(2) by auto
  have b: "(i, v) \<in> set (blocked_visits blocked visits) \<longleftrightarrow> i \<in> set blocked \<and> (i, v) \<in> set visits" for i v
  proof -
    have "(i, v) \<in> set (blocked_visits blocked visits) \<longleftrightarrow> map_of (blocked_visits blocked visits) i = Some v"
      using distinct_blocked by (metis map_of_SomeD map_of_is_SomeI)
    also have "\<dots> \<longleftrightarrow> i \<in> set blocked \<and> map_of visits i = Some v" by (simp add: map_of_blocked)
    also have "\<dots> \<longleftrightarrow> i \<in> set blocked \<and> (i, v) \<in> set visits" using dk(1) by (metis map_of_SomeD map_of_is_SomeI)
    finally show ?thesis .
  qed
  have "map sv_id (map snd (blocked_visits blocked visits)) = map fst (blocked_visits blocked visits)"
    using b dk(2) by auto
  then have "distinct (map sv_id (map snd (blocked_visits blocked visits)))" using distinct_blocked by metis
  then have d1: "distinct (map snd (blocked_visits blocked visits))" by (simp only: distinct_map)
  have "distinct (map sv_id (map snd visits))" unfolding ids by (rule dk(1))
  then have d2: "distinct (map snd visits)" by (simp only: distinct_map)
  have "set (map snd (blocked_visits blocked visits)) = set (filter (\<lambda>v. sv_id v \<in> set blocked) (map snd visits))"
    using b dk(2) by force
  then have "mset (map snd (blocked_visits blocked visits)) = mset (filter (\<lambda>v. sv_id v \<in> set blocked) (map snd visits))"
    using d1 d2 by (metis distinct_filter set_eq_iff_mset_eq_distinct)
  then show ?thesis by (simp add: multiset_partition[symmetric])
qed

lemma sum_same_but_owner:
  "list_all2 same_but_owner os (map as_visit as) \<Longrightarrow>
     (\<Sum>a\<leftarrow>as. sv_credited (as_visit a)) = (\<Sum>v\<leftarrow>os. sv_credited v)"
proof (induction os "map as_visit as" arbitrary: as rule: list_all2_induct)
  case (Cons v os w ws)
  have "sv_credited v = sv_credited w"
    using arg_cong[of _ _ sv_credited, OF Cons(1)[unfolded same_but_owner_def]] by simp
  then show ?case using Cons by (cases as) auto
qed simp

text \<open>Labour is conserved: what a segment adds to the consumption is what it credits to the visits.\<close>

lemma advance_segment_conserves:
  assumes "advance_segment cd st works visits c g blocked = Inr (visits', qs, c')"
    and "well_keyed sv_id visits" and "\<forall>(k, v) \<in> set visits. 0 \<le> sv_remaining v" and "0 \<le> sg_microseconds g"
  shows "(\<Sum>x\<leftarrow>map snd c'. x) - (\<Sum>x\<leftarrow>map snd c. x) = total_credit visits visits'"
proof -
  let ?in = "blocked_visits blocked visits"
  obtain os as vs' where s: "mset os = mset (filter (\<lambda>v. sv_id v \<notin> set blocked) (map snd visits))"
    "advance_assigned cd st g c as ?in [] c = Inr (visits', qs, c')"
    "list_all2 same_but_owner os (map as_visit as)" "distinct (map sv_id os)"
    by (rule advance_segment_shape[OF assms]) blast
  have set_os: "set os = {v \<in> snd ` set visits. sv_id v \<notin> set blocked}" using arg_cong[OF s(1), of set_mset] by auto
  have ids: "map (\<lambda>a. sv_id (as_visit a)) as = map sv_id os"
    using s(3) by (auto simp: list_all2_conv_all_nth same_but_owner_fields intro!: nth_equalityI)
  have "0 \<le> sv_remaining (as_visit a)" if a: "a \<in> set as" for a
  proof -
    obtain k where k: "k < length as" "a = as ! k" using a by (auto simp: in_set_conv_nth)
    then have v: "k < length os" "same_but_owner (os ! k) (as_visit a)" using s(3) by (auto simp: list_all2_conv_all_nth)
    then have "0 \<le> sv_remaining (os ! k)" using set_os assms(3) nth_mem[OF v(1)] by auto
    then show ?thesis using v(2) by (simp add: same_but_owner_fields)
  qed
  moreover have "(\<lambda>a. sv_id (as_visit a)) ` set as \<inter> fst ` set ?in = {}"
  proof -
    have "(\<lambda>a. sv_id (as_visit a)) ` set as = sv_id ` set os" using arg_cong[OF ids, of set] by simp
    moreover have "fst ` set ?in \<subseteq> set blocked"
      by (metis (no_types, lifting) map_of_blocked map_of_eq_None_iff subsetI)
    ultimately show ?thesis using set_os by auto
  qed
  ultimately have "(\<Sum>x\<leftarrow>map snd c'. x) - (\<Sum>x\<leftarrow>map snd c. x) =
      (\<Sum>v\<leftarrow>map snd visits'. sv_credited v) - (\<Sum>v\<leftarrow>map snd ?in. sv_credited v) - (\<Sum>a\<leftarrow>as. sv_credited (as_visit a))"
    using advance_assigned_total[OF s(2) _ assms(4)] s(4) ids by simp
  moreover have "(\<Sum>v\<leftarrow>map snd visits. sv_credited v) = (\<Sum>v\<leftarrow>map snd ?in. sv_credited v) + (\<Sum>v\<leftarrow>os. sv_credited v)"
  proof -
    have "mset (map snd visits) = mset (map snd ?in @ os)" using blocked_partition[OF assms(2)] s(1) by simp
    then have "mset (map sv_credited (map snd visits)) = mset (map sv_credited (map snd ?in @ os))" by (simp only: mset_map)
    then have "sum_list (map sv_credited (map snd visits)) = sum_list (map sv_credited (map snd ?in @ os))"
      by (metis sum_mset_sum_list)
    then show ?thesis by simp
  qed
  ultimately show ?thesis using sum_same_but_owner[OF s(3)] by (simp add: total_credit_def)
qed

text \<open>
  Over all segments: the open visits stay the same and only progress, labour is conserved, and the tick
  ends at its end, or inside one of its segments when a visit completes there.
\<close>

lemma advance_segments_keep:
  assumes "advance_segments cd st cal works blocked gs visits c causes e = Inr (visits', c', causes', e')"
    and "well_keyed sv_id visits" and "\<forall>(k, v) \<in> set visits. 0 \<le> sv_remaining v"
    and "\<forall>g \<in> set gs. sg_start g \<le> sg_end g"
  shows "well_keyed sv_id visits' \<and> fst ` set visits' = fst ` set visits \<and>
    (\<forall>k v. map_of visits k = Some v \<longrightarrow> (\<exists>v'. map_of visits' k = Some v' \<and> progressed v v' \<and> (k \<in> set blocked \<longrightarrow> v' = v))) \<and>
    (\<Sum>x\<leftarrow>map snd c'. x) - (\<Sum>x\<leftarrow>map snd c. x) = total_credit visits visits' \<and>
    (e' = e \<or> (\<exists>g \<in> set gs. sg_start g \<le> e' \<and> e' \<le> sg_end g))"
  using assms
proof (induction cd st cal works blocked gs visits c causes e rule: advance_segments.induct)
  case (1 cd st cal works blocked visits c causes e)
  have "progressed v v" if "map_of visits k = Some v" for k v
    using "1.prems"(3) map_of_SomeD[OF that] by (auto intro: progressed_refl)
  then show ?case using 1 by (auto simp: total_credit_def)
next
  case (2 cd st cal works blocked g gs visits c causes e)
  obtain probe pc cp boundary where p: "advance_segment cd st works visits c g blocked = Inr (probe, pc, cp)"
    and b: "completion_boundary st cal g visits probe works = Inr boundary"
    and rest: "(case boundary of
         None \<Rightarrow> advance_segments cd st cal works blocked gs probe cp (causes @ pc) e
       | Some t \<Rightarrow>
           bindR (advance_segment cd st works visits c (g\<lparr>sg_end := t\<rparr>) blocked) (\<lambda>(advanced, new_causes, c').
             Inr (advanced, c', causes @ new_causes, t))) = Inr (visits', c', causes', e')"
    using "2.prems"(1) by (auto elim!: bindR_InrE bindR_Inr3E)
  show ?case
  proof (cases boundary)
    case (Some t)
    have t: "sg_start g \<le> t" "t \<le> sg_end g" using completion_boundary_bounds b Some by blast+
    obtain nc where a: "advance_segment cd st works visits c (g\<lparr>sg_end := t\<rparr>) blocked = Inr (visits', nc, c')" "e' = t"
      using rest Some by (auto elim!: bindR_InrE)
    have us: "0 \<le> sg_microseconds (g\<lparr>sg_end := t\<rparr>)" using t by (simp add: sg_microseconds_def)
    show ?thesis
      using advance_segment_keeps(1-3)[OF a(1) "2.prems"(2,3) us] advance_segment_conserves[OF a(1) "2.prems"(2,3) us] t a(2)
      by (fastforce split: if_splits)
  next
    case None
    have us: "0 \<le> sg_microseconds g" using "2.prems"(4) by (simp add: sg_microseconds_def)
    note k = advance_segment_keeps(1-3)[OF p "2.prems"(2,3) us]
    have dv: "distinct (map fst visits)" using "2.prems"(2) by (simp add: well_keyed_def)
    have "0 \<le> sv_remaining v'" if m: "(i, v') \<in> set probe" for i v'
    proof -
      have "i \<in> fst ` set visits" using k(2) m by force
      then obtain v where "map_of visits i = Some v" by (cases "map_of visits i") (auto simp: map_of_eq_None_iff)
      from k(3)[OF this] obtain v'' where "map_of probe i = Some v''" "progressed v v''" by blast
      moreover have "map_of probe i = Some v'" using k(1) m by (auto simp: well_keyed_def intro: map_of_is_SomeI)
      ultimately show ?thesis using progressed_parts(8) by simp
    qed
    then have nn: "\<forall>(i, v) \<in> set probe. 0 \<le> sv_remaining v" by blast
    have r: "advance_segments cd st cal works blocked gs probe cp (causes @ pc) e = Inr (visits', c', causes', e')"
      using rest None by simp
    note "2.IH"[OF p refl refl b None r k(1) nn]
    moreover have "\<forall>g \<in> set gs. sg_start g \<le> sg_end g" using "2.prems"(4) by simp
    ultimately have ih: "well_keyed sv_id visits'" "fst ` set visits' = fst ` set probe"
      "\<And>k v. map_of probe k = Some v \<Longrightarrow> \<exists>v'. map_of visits' k = Some v' \<and> progressed v v' \<and> (k \<in> set blocked \<longrightarrow> v' = v)"
      "(\<Sum>x\<leftarrow>map snd c'. x) - (\<Sum>x\<leftarrow>map snd cp. x) = total_credit probe visits'"
      "e' = e \<or> (\<exists>g \<in> set gs. sg_start g \<le> e' \<and> e' \<le> sg_end g)"
      by blast+
    have "\<exists>v'. map_of visits' i = Some v' \<and> progressed v v' \<and> (i \<in> set blocked \<longrightarrow> v' = v)"
      if m: "map_of visits i = Some v" for i v
    proof -
      obtain w where w: "map_of probe i = Some w" "progressed v w" "i \<in> set blocked \<longrightarrow> w = v"
        using k(3)[OF m] by (auto split: if_splits)
      then show ?thesis using ih(3)[OF w(1)] by (blast intro: progressed_trans)
    qed
    moreover have "(\<Sum>x\<leftarrow>map snd c'. x) - (\<Sum>x\<leftarrow>map snd c. x) = total_credit visits visits'"
      using ih(4) advance_segment_conserves[OF p "2.prems"(2,3) us] total_credit_add[of visits visits' probe] by simp
    ultimately show ?thesis using ih(1,2,5) k(2) by auto
  qed
qed

text \<open>(C17) Over the segments of a tick no visit is lost or invented: every open visit is kept under its
  identifier and only makes progress, a blocked visit is left as it was, the labour that the consumption
  record gains is the labour that the visits are credited, and the tick commits an instant inside itself.\<close>

theorem advance_segments_conserve:
  assumes "business_segments st cal a b = Inr gs" and "a \<le> b"
    and "advance_segments cd st cal works blocked gs visits c [] b = Inr (visits', c', causes, committed_end)"
    and "well_keyed sv_id visits" and "\<forall>(k, v) \<in> set visits. 0 \<le> sv_remaining v"
  shows "a \<le> committed_end \<and> committed_end \<le> b \<and> well_keyed sv_id visits' \<and> fst ` set visits' = fst ` set visits \<and>
    (\<forall>k v. map_of visits k = Some v \<longrightarrow>
       (\<exists>v'. map_of visits' k = Some v' \<and> progressed v v' \<and> (k \<in> set blocked \<longrightarrow> v' = v))) \<and>
    (\<Sum>x\<leftarrow>map snd c'. x) - (\<Sum>x\<leftarrow>map snd c. x) = total_credit visits visits'"
proof -
  have g: "\<forall>g \<in> set gs. a \<le> sg_start g \<and> sg_start g \<le> sg_end g \<and> sg_end g \<le> b"
  proof (cases "a = b")
    case True
    then show ?thesis using assms(1) by (simp add: business_segments_def)
  next
    case False
    then obtain day final where "segments_from st cal a b day final = Inr gs"
      using assms(1) by (auto simp: business_segments_def elim!: bindR_InrE split: if_splits)
    from segments_from_spec[OF this] show ?thesis by fastforce
  qed
  then have "\<forall>g \<in> set gs. sg_start g \<le> sg_end g" by blast
  from advance_segments_keep[OF assms(3-5) this] g assms(2) show ?thesis by fastforce
qed

section \<open>The hour of the sample team\<close>

lemma demo_availability: "availability_instants demo_live = []"
  by (simp add: availability_instants_def demo_live_sel demo_collections)
    (simp add: sample_blueprint_def sample_member_def)

lemma demo_segments: "business_segments demo_live office 637200000000 640800000000 = Inr [demo_segment]"
proof -
  have "segments_from demo_live office 637200000000 640800000000 9 8 = Inr []"
    by (subst segments_from.simps) simp
  then have "segments_from demo_live office 637200000000 640800000000 8 8 = Inr [demo_segment]"
    by (subst segments_from.simps)
      (simp add: office_days date_add_def valid_ordinal_def MAX_ORDINAL_def day_segments_def Let_def availability_boundaries_def
        demo_availability demo_segment_def)
  then show ?thesis by (simp add: business_segments_def office_date office_simps instant_add_def)
qed

lemma demo_elapsed: "elapsed office \<lparr>iv_start = 637200000000, iv_end = 640800000000\<rparr> =
   Inr \<lparr>el_calendar = 3600000000, el_business = 3600000000\<rparr>"
proof -
  have "sum_days office \<lparr>iv_start = 637200000000, iv_end = 640800000000\<rparr> 8 8 0 = Inr 3600000000"
    by (subst sum_days.simps) (simp add: office_days intersection_def)
  then show ?thesis by (simp add: elapsed_def Let_def office_date office_simps dual_elapsed_def)
qed

theorem business_segments_are_business_time_witness:
  "(\<Sum>g\<leftarrow>[demo_segment]. sg_microseconds g) = 3600000000 \<and> steady demo_live demo_segment"
  using business_segments_are_business_time[OF demo_segments demo_elapsed] by simp

lemma demo_boundary:
  "completion_boundary demo_live office demo_segment (open_visits demo_live) [(44, demo_worked)] [(59, demo_work)] =
     Inr (Some 640800000000)"
proof -
  have r: "ranked [(59, demo_work)] [demo_visit] = Inr [demo_visit]"
    by (simp add: ranked_def dict_get_def demo_coordinates check_rank_def simulator_rank_def)
      (simp add: demo_work_def)
  have "f_div 3600000000 1 = Inr 3600000000" by (simp add: f_div_def fl_numeral)
  then have t: "touch_completion demo_live demo_segment demo_visit demo_worked [] = Inr (Some 640800000000)"
    by (simp add: touch_completion_def demo_live_sel demo_collections demo_capacity demo_worked_def demo_coordinates find_or_stop_def
        dict_get_default_def f_of_int_def fl_numeral instant_add_def valid_instant_def)
      (simp add: demo_visit_def demo_segment_def fl_numeral MAX_ORDINAL_def DAY_US_def)
  have z: "round_half_even (f_mul 0 MICROSECONDS_PER_HOUR) = 0"
    using round_half_even_of_int[of 0] by (simp add: f_mul_def)
  have "dwell_completion office demo_segment demo_visit demo_sample = Inr 637200000000"
    by (simp add: dwell_completion_def business_elapsed_def utc_interval_def elapsed_def dual_elapsed_def demo_segment_def
        demo_visit_def demo_sample_def hours_us_def z instant_add_def valid_instant_def MAX_ORDINAL_def DAY_US_def)
  then have "completion_candidates demo_live office demo_segment [(44, demo_worked)] [(44, demo_sample)] [demo_visit] [] =
      Inr [640800000000]"
    by (simp add: demo_coordinates dict_get_def t) (simp add: demo_segment_def)
  then show ?thesis
    by (simp add: completion_boundary_def demo_open r demo_live_sel demo_collections dict_of_def demo_coordinates min_of_def)
qed

lemma demo_advance_segments:
  "advance_segments demo_codec demo_live office [(59, demo_work)] [] [demo_segment] (open_visits demo_live) [] [] 640800000000 =
     Inr ([(44, demo_worked)], [((45, 8), 3600000000)], [], 640800000000)"
proof -
  have "demo_segment\<lparr>sg_end := 640800000000\<rparr> = demo_segment" by (simp add: demo_segment_def)
  then show ?thesis by (simp add: demo_advanced demo_boundary)
qed

theorem advance_segments_conserve_witness:
  "total_credit (open_visits demo_live) [(44, demo_worked)] = 3600000000"
  using advance_segments_conserve[OF demo_segments _ demo_advance_segments demo_open_keyed] by simp

end
