(* ===== verification/Tick_Finish.thy ===== *)
theory Tick_Finish
  imports Tick_Time
begin

text \<open>
  How a tick ends for a visit: when it is closed, which step of the route its work item moves to, and
  what the visit that follows it must satisfy.
\<close>

section \<open>The visit that follows\<close>

lemma created_sample_parts:
  assumes "create_sample env i = Inr s"
  obtains e b t where "check_sample_input (en_codec env) i = Inr ()"
    "timing_entry (si_blueprint i) (si_work_item i) (si_visit i) = Inr e"
    "touch_bounds e = Inr b" "sample_touch b (ud_unit_value (si_touch_draw i)) = Inr t"
    "hours_to_microseconds (ds_sampled_hours t) = Inr (sv_required (si_visit i))"
    "vs_touch_sampled_hours s = ds_sampled_hours t" "vs_required s = sv_required (si_visit i)" "vs_visit_id s = sv_id (si_visit i)"
    "check_sample env s = Inr ()"
proof -
  have v: "status_sample_values env i = Inr s" "check_sample env s = Inr ()"
    using assms by (auto simp: create_sample_def bindR_check elim!: bindR_InrE)
  have c: "check_sample_input (en_codec env) i = Inr ()" by (rule status_sample_values_checked[OF v(1)])
  from v(1) obtain e b t n where r: "timing_entry (si_blueprint i) (si_work_item i) (si_visit i) = Inr e"
    "touch_bounds e = Inr b" "sample_touch b (ud_unit_value (si_touch_draw i)) = Inr t"
    "hours_to_microseconds (ds_sampled_hours t) = Inr n" "sv_required (si_visit i) = n"
    "vs_touch_sampled_hours s = ds_sampled_hours t" "vs_required s = n" "vs_visit_id s = sv_id (si_visit i)"
    unfolding status_sample_values_def Let_def by (elim bindR_InrE) (auto split: if_splits)
  then show thesis using that[OF c] v(2) by metis
qed

lemma timing_entry_first:
  assumes "timing_entry b w v = Inr e"
    and "find_or_stop (\<lambda>t. timing_cell t = (sv_status_key v, wi_issue_type w, wi_story_points w)) (tm_entries (bp_timing b)) = Inr e'"
  shows "e' = e"
proof -
  let ?P = "\<lambda>t. timing_cell t = (sv_status_key v, wi_issue_type w, wi_story_points w)"
  have f: "filter ?P (tm_entries (bp_timing b)) = [e]"
    using assms(1) by (auto simp: timing_entry_def split: list.splits)
  have "find_or_stop ?P xs = Inr e' \<Longrightarrow> filter ?P xs = [e] \<Longrightarrow> e' = e" for xs
    by (induction xs) (auto simp: find_or_stop_def split: if_splits)
  then show ?thesis using assms(2) f by blast
qed

lemma hours_differ: "hours_us unlucky_hours = 92671392108"
  using unlucky_product by (simp add: hours_us_def MICROSECONDS_PER_HOUR_def)

lemma new_timed_visit_parts:
  assumes "new_timed_visit env st work step ordinal draws = Inr (v, s)"
  obtains touch_draw dwell_draw entry where
    "visit_rng_id (en_codec env) (wi_id work) ordinal = Inr (sv_id v)"
    "find_or_stop (\<lambda>t. timing_cell t = (rp_status_key step, wi_issue_type work, wi_story_points work))
       (tm_entries (bp_timing (lt_blueprint st))) = Inr entry"
    "required_from_draw entry touch_draw = Inr (sv_required v)"
    "v = \<lparr>sv_id = sv_id v, sv_team_id = wi_team_id work, sv_run_id = wi_run_id work, sv_work_item_id = wi_id work,
              sv_ordinal = ordinal, sv_lifecycle = SV_OPEN, sv_status_key = rp_status_key step,
              sv_activity_key = rp_required_activity step, sv_member_id = None, sv_entered_at = wi_updated_at work,
              sv_closed_at = None, sv_required = sv_required v, sv_elapsed = 0, sv_remaining = sv_required v, sv_queue = 0,
              sv_pause = 0, sv_credited = 0\<rparr>"
    "check_visit (en_codec env) v = Inr ()"
    "create_sample env \<lparr>si_blueprint = lt_blueprint st, si_work_item = work, si_visit = v,
       si_dwell_draw = dwell_draw, si_touch_draw = touch_draw\<rparr> = Inr s"
proof -
  obtain visit_id touch_draw dwell_draw entry required where r:
    "visit_rng_id (en_codec env) (wi_id work) ordinal = Inr visit_id"
    "find_or_stop (\<lambda>t. timing_cell t = (rp_status_key step, wi_issue_type work, wi_story_points work))
       (tm_entries (bp_timing (lt_blueprint st))) = Inr entry"
    "required_from_draw entry touch_draw = Inr required"
    "v = \<lparr>sv_id = visit_id, sv_team_id = wi_team_id work, sv_run_id = wi_run_id work, sv_work_item_id = wi_id work,
              sv_ordinal = ordinal, sv_lifecycle = SV_OPEN, sv_status_key = rp_status_key step,
              sv_activity_key = rp_required_activity step, sv_member_id = None, sv_entered_at = wi_updated_at work,
              sv_closed_at = None, sv_required = required, sv_elapsed = 0, sv_remaining = required, sv_queue = 0,
              sv_pause = 0, sv_credited = 0\<rparr>"
    "check_visit (en_codec env) v = Inr ()"
    "create_sample env \<lparr>si_blueprint = lt_blueprint st, si_work_item = work, si_visit = v,
       si_dwell_draw = dwell_draw, si_touch_draw = touch_draw\<rparr> = Inr s"
    using assms unfolding new_timed_visit_def Let_def by (auto simp: replaced_Inr elim!: bindR_InrE)
  have "sv_id v = visit_id" "sv_required v = required" unfolding r(4) by simp_all
  then show thesis using that[of entry touch_draw dwell_draw] r by simp
qed

text \<open>(C35) The required labour of a new visit is computed by a floating-point product and checked against the
  exact conversion of the sampled hours: a new visit is only created when the two agree. For some sampled
  hours they do not agree, and the tick that draws them fails.\<close>

theorem new_timed_visit_rounding:
  assumes "new_timed_visit env st work step ordinal draws = Inr (v, s)"
  shows "sv_required v = hours_us (vs_touch_sampled_hours s) \<and>
    hours_to_microseconds (vs_touch_sampled_hours s) = Inr (sv_required v) \<and>
    sv_required v = round_half_even (vs_touch_sampled_hours s * 3600000000) \<and>
    vs_touch_sampled_hours s \<noteq> unlucky_hours"
proof -
  obtain u d entry where n: "find_or_stop (\<lambda>t. timing_cell t = (rp_status_key step, wi_issue_type work, wi_story_points work))
       (tm_entries (bp_timing (lt_blueprint st))) = Inr entry"
    "required_from_draw entry u = Inr (sv_required v)" "sv_status_key v = rp_status_key step"
    and c: "create_sample env \<lparr>si_blueprint = lt_blueprint st, si_work_item = work, si_visit = v,
       si_dwell_draw = d, si_touch_draw = u\<rparr> = Inr s"
    by (rule new_timed_visit_parts[OF assms]) (metis StatusVisitState.select_convs(7))
  obtain e b t where t: "timing_entry (lt_blueprint st) work v = Inr e" "touch_bounds e = Inr b"
    "sample_touch b (ud_unit_value u) = Inr t" "hours_to_microseconds (ds_sampled_hours t) = Inr (sv_required v)"
    "vs_touch_sampled_hours s = ds_sampled_hours t"
    by (rule created_sample_parts[OF c]) simp
  have "entry = e" using timing_entry_first[OF t(1)] n(1,3) by simp
  then have h: "sv_required v = hours_us (ds_sampled_hours t)"
    using n(2) t(2,3) by (auto simp: required_from_draw_def)
  have "ds_sampled_hours t \<noteq> unlucky_hours"
    using t(4) h unlucky_exact hours_differ by auto
  then show ?thesis using h t(4,5) hours_to_microseconds_Inr[OF t(4)] by simp
qed

section \<open>The step that follows\<close>

lemma step_position_spec:
  "step_position key ps k = Inr n \<Longrightarrow>
     k \<le> n \<and> n - k < length ps \<and> rp_status_key (ps ! (n - k)) = key \<and> (\<forall>j < n - k. rp_status_key (ps ! j) \<noteq> key)"
proof (induction key ps k rule: step_position.induct)
  case (2 key p ps k)
  show ?case
  proof (cases "rp_status_key p = key")
    case True
    then show ?thesis using "2.prems" by simp
  next
    case False
    then have "k + 1 \<le> n \<and> n - (k + 1) < length ps \<and> rp_status_key (ps ! (n - (k + 1))) = key \<and>
        (\<forall>j < n - (k + 1). rp_status_key (ps ! j) \<noteq> key)" using 2 by simp
    moreover from this have "n - k = Suc (n - (k + 1))" by linarith
    ultimately show ?thesis using False by (auto simp: nth_Cons split: nat.splits)
  qed
qed simp

lemma first_timed_spec:
  "first_timed st steps = Inr timed \<Longrightarrow>
     (case timed of
        None \<Rightarrow> \<forall>p \<in> set steps. is_timed st p = Inr False
      | Some p \<Rightarrow> \<exists>j < length steps. steps ! j = p \<and> is_timed st p = Inr True \<and> (\<forall>i < j. is_timed st (steps ! i) = Inr False))"
proof (induction st steps arbitrary: timed rule: first_timed.induct)
  case (2 st step steps)
  obtain b where b: "is_timed st step = Inr b" using "2.prems" by (auto elim!: bindR_InrE)
  show ?case
  proof (cases b)
    case True
    then show ?thesis using "2.prems" b by (auto intro!: exI[of _ 0])
  next
    case False
    then have r: "first_timed st steps = Inr timed" using "2.prems" b by simp
    note ih = "2.IH"[OF b False r]
    show ?thesis
    proof (cases timed)
      case None
      then show ?thesis using ih b False by simp
    next
      case (Some p)
      then obtain j where j: "j < length steps" "steps ! j = p" "is_timed st p = Inr True" "\<forall>i < j. is_timed st (steps ! i) = Inr False"
        using ih by auto
      have "\<forall>i < Suc j. is_timed st ((step # steps) ! i) = Inr False"
        using j(4) b False by (auto simp: nth_Cons split: nat.splits)
      then show ?thesis using j Some by (auto intro!: exI[of _ "Suc j"])
    qed
  qed
qed simp

text \<open>What a closed visit leads to, at step \<open>k\<close> of the route of its work item.\<close>

definition ends_route :: "LiveTeamState \<Rightarrow> WorkflowRouteStep list \<Rightarrow> nat \<Rightarrow> WorkItemState \<Rightarrow> bool" where
  "ends_route st steps k work' \<longleftrightarrow>
     k + 1 < length steps \<and> (\<forall>j. k < j \<and> j < length steps \<longrightarrow> is_timed st (steps ! j) = Inr False) \<and>
     wi_lifecycle work' = WI_DONE \<and> wi_current_status_key work' = rp_status_key (last steps)"

definition enters_step ::
  "codec \<Rightarrow> LiveTeamState \<Rightarrow> WorkflowRouteStep list \<Rightarrow> nat \<Rightarrow> WorkItemState \<Rightarrow> StatusVisitState \<Rightarrow> StatusVisitSample \<Rightarrow>
   SemanticCounterClaim \<Rightarrow> bool" where
  "enters_step cd st steps k work' v s claim \<longleftrightarrow>
     (\<exists>j. k < j \<and> j < length steps \<and> is_timed st (steps ! j) = Inr True \<and>
        (\<forall>i. k < i \<and> i < j \<longrightarrow> is_timed st (steps ! i) = Inr False) \<and>
        sv_status_key v = rp_status_key (steps ! j) \<and> sv_activity_key v = rp_required_activity (steps ! j)) \<and>
     wi_current_status_key work' = sv_status_key v \<and> sv_entered_at v = wi_updated_at work' \<and> sv_lifecycle v = SV_OPEN \<and>
     sv_work_item_id v = wi_id work' \<and> sv_remaining v = sv_required v \<and> sv_elapsed v = 0 \<and> sv_member_id v = None \<and>
     visit_rng_id cd (wi_id work') (sv_ordinal v) = Inr (sv_id v) \<and> check_visit cd v = Inr () \<and>
     vs_visit_id s = sv_id v \<and> vs_required s = sv_required v \<and> cl_expected_next claim = sv_ordinal v \<and> cl_count claim = 1 \<and>
     check_claim claim = Inr ()"

lemma route_ended:
  assumes "py_index (drop (k + 1) steps) (- 1) = Inr terminal" and "first_timed st (drop (k + 1) steps) = Inr None"
    and "wi_lifecycle work' = WI_DONE" "wi_current_status_key work' = rp_status_key terminal"
  shows "ends_route st steps k work'"
proof -
  have ne: "drop (k + 1) steps \<noteq> []" using assms(1) by (auto simp: py_index_def split: if_splits)
  have "terminal = last (drop (k + 1) steps)"
    using assms(1) ne by (auto simp: py_index_def last_conv_nth nat_diff_distrib' split: if_splits)
  moreover have "is_timed st (steps ! j) = Inr False" if "k < j" "j < length steps" for j
  proof -
    have "steps ! j = drop (k + 1) steps ! (j - (k + 1))" "j - (k + 1) < length (drop (k + 1) steps)" using that by simp_all
    then have "steps ! j \<in> set (drop (k + 1) steps)" by (metis nth_mem)
    then show ?thesis using first_timed_spec[OF assms(2)] by auto
  qed
  ultimately show ?thesis using assms(3,4) ne by (simp add: ends_route_def)
qed

lemma timed_step_ahead:
  assumes "first_timed st (drop (k + 1) steps) = Inr (Some step)"
  shows "\<exists>j. k < j \<and> j < length steps \<and> steps ! j = step \<and> is_timed st step = Inr True \<and>
    (\<forall>i. k < i \<and> i < j \<longrightarrow> is_timed st (steps ! i) = Inr False)"
proof -
  obtain j where j: "j < length (drop (k + 1) steps)" "drop (k + 1) steps ! j = step" "is_timed st step = Inr True"
    "\<forall>i < j. is_timed st (drop (k + 1) steps ! i) = Inr False" using first_timed_spec[OF assms] by auto
  have "is_timed st (steps ! i) = Inr False" if "k < i" "i < k + 1 + j" for i
  proof -
    have "i - (k + 1) < j" "steps ! i = drop (k + 1) steps ! (i - (k + 1))" using that j(1) by simp_all
    then show ?thesis using j(4) by metis
  qed
  then show ?thesis using j(1-3) by (intro exI[of _ "k + 1 + j"]) simp
qed

lemma step_entered:
  assumes "first_timed st (drop (k + 1) steps) = Inr (Some step)" and "new_timed_visit env st work' step n draws = Inr (v, s)"
    and "wi_current_status_key work' = rp_status_key step" and "check_claim claim = Inr ()" "cl_expected_next claim = n" "cl_count claim = 1"
  shows "enters_step (en_codec env) st steps k work' v s claim \<and> sv_ordinal v = n"
proof -
  obtain u d where v: "visit_rng_id (en_codec env) (wi_id work') n = Inr (sv_id v)" "check_visit (en_codec env) v = Inr ()"
    "sv_work_item_id v = wi_id work'" "sv_ordinal v = n" "sv_lifecycle v = SV_OPEN"
    "sv_status_key v = rp_status_key step" "sv_activity_key v = rp_required_activity step" "sv_member_id v = None"
    "sv_entered_at v = wi_updated_at work'" "sv_elapsed v = 0" "sv_remaining v = sv_required v"
    and s: "create_sample env \<lparr>si_blueprint = lt_blueprint st, si_work_item = work', si_visit = v,
       si_dwell_draw = d, si_touch_draw = u\<rparr> = Inr s"
    by (rule new_timed_visit_parts[OF assms(2)]) (metis StatusVisitState.select_convs)
  have sp: "vs_visit_id s = sv_id v" "vs_required s = sv_required v" by (rule created_sample_parts[OF s]; simp)+
  show ?thesis unfolding enters_step_def using timed_step_ahead[OF assms(1)] v sp assms(3-6) by auto
qed

text \<open>(C24) A closed visit moves its work item along its route: to the next step that consumes capacity, with a
  fresh visit and its sample under the identifier of its next ordinal; or, when no such
  step is left, to the last step of the route, where it is done. No timed step is skipped and no step
  before the closed one is entered again. The ordinal of the fresh visit is the next value of the item's own
  stored visit counter, and the claim is for this counter, this value and one visit.\<close>

theorem transition_follows_route:
  assumes "transition env st work closed_visit draws = Inr t" and "sv_closed_at closed_visit = Some at_end"
  shows "wi_id (tr_work t) = wi_id work \<and> wi_updated_at (tr_work t) = at_end \<and> check_work_item (en_codec env) (tr_work t) = Inr () \<and>
    (\<exists>route \<in> set (wf_routes (bp_workflow (lt_blueprint st))). \<exists>k < length (ro_steps route).
       ro_issue_type route = wi_issue_type work \<and> rp_status_key (ro_steps route ! k) = sv_status_key closed_visit \<and>
       (case tr_next t of
          None \<Rightarrow> ends_route st (ro_steps route) k (tr_work t)
        | Some (v, s, claim) \<Rightarrow>
            wi_lifecycle (tr_work t) = wi_lifecycle work \<and> enters_step (en_codec env) st (ro_steps route) k (tr_work t) v s claim \<and>
            (\<exists>n \<in> set (st_counters (lt_scrum st)). cs_kind (sn_scope n) = VISIT_ORDINAL \<and> cs_scope_id (sn_scope n) = wi_id work \<and>
               sv_ordinal v = sn_next_value n \<and> cl_scope claim = sn_scope n \<and> cl_expected_next claim = sn_next_value n \<and>
               cl_count claim = 1)))"
proof -
  let ?ended = "\<lambda>step. work\<lparr>wi_lifecycle := WI_DONE, wi_current_status_key := rp_status_key step, wi_updated_at := at_end\<rparr>"
  let ?entered = "\<lambda>step. work\<lparr>wi_current_status_key := rp_status_key step, wi_updated_at := at_end\<rparr>"
  let ?claim = "\<lambda>n. \<lparr>cl_scope = sn_scope n, cl_expected_next = sn_next_value n, cl_count = 1\<rparr>"
  obtain route k timed where r: "find_or_stop (\<lambda>r. ro_issue_type r = wi_issue_type work) (wf_routes (bp_workflow (lt_blueprint st))) = Inr route"
    and k: "step_position (sv_status_key closed_visit) (ro_steps route) 0 = Inr k"
    and f: "first_timed st (drop (k + 1) (ro_steps route)) = Inr timed"
    and rest: "(case timed of
         None \<Rightarrow>
           bindR (py_index (drop (k + 1) (ro_steps route)) (- 1)) (\<lambda>terminal.
           bindR (replaced_work (en_codec env) (?ended terminal)) (\<lambda>done_work. Inr \<lparr>tr_work = done_work, tr_next = None\<rparr>))
       | Some step \<Rightarrow>
           bindR (find_or_stop (\<lambda>k. cs_kind (sn_scope k) = VISIT_ORDINAL \<and> cs_scope_id (sn_scope k) = wi_id work)
                    (st_counters (lt_scrum st))) (\<lambda>counter.
           bindR (replaced_work (en_codec env) (?entered step)) (\<lambda>next_work.
           bindR (new_timed_visit env st next_work step (sn_next_value counter) draws) (\<lambda>(visit, sample).
           bindR (check_claim (?claim counter)) (\<lambda>_.
             Inr \<lparr>tr_work = next_work, tr_next = Some (visit, sample, ?claim counter)\<rparr>))))) = Inr t"
    using assms(1) unfolding transition_def Let_def assms(2) option.sel by (elim bindR_InrE) (rule that; assumption)
  have route: "route \<in> set (wf_routes (bp_workflow (lt_blueprint st)))" "ro_issue_type route = wi_issue_type work"
    "k < length (ro_steps route)" "rp_status_key (ro_steps route ! k) = sv_status_key closed_visit"
    using find_or_stop_Inr[OF r] step_position_spec[OF k] by auto
  show ?thesis
  proof (cases timed)
    case None
    obtain terminal where e: "py_index (drop (k + 1) (ro_steps route)) (- 1) = Inr terminal" "t = \<lparr>tr_work = ?ended terminal, tr_next = None\<rparr>"
      "check_work_item (en_codec env) (?ended terminal) = Inr ()"
      using rest None by (auto simp: replaced_work_def bindR_check elim!: bindR_InrE)
    have "ends_route st (ro_steps route) k (?ended terminal)"
      using f unfolding None by (rule route_ended[OF e(1)]) simp_all
    then show ?thesis using route e(2,3) by auto
  next
    case (Some step)
    obtain counter where c: "find_or_stop (\<lambda>k. cs_kind (sn_scope k) = VISIT_ORDINAL \<and> cs_scope_id (sn_scope k) = wi_id work)
        (st_counters (lt_scrum st)) = Inr counter"
      using rest Some by (auto elim!: bindR_InrE)
    obtain v s where t: "check_work_item (en_codec env) (?entered step) = Inr ()" "check_claim (?claim counter) = Inr ()"
      "new_timed_visit env st (?entered step) step (sn_next_value counter) draws = Inr (v, s)"
      "t = \<lparr>tr_work = ?entered step, tr_next = Some (v, s, ?claim counter)\<rparr>"
      using rest Some c by (auto simp: replaced_work_def bindR_check elim!: bindR_InrE bindR_Inr2E)
    have "enters_step (en_codec env) st (ro_steps route) k (?entered step) v s (?claim counter) \<and> sv_ordinal v = sn_next_value counter"
      using f unfolding Some by (rule step_entered[OF _ t(3) _ t(2)]) simp_all
    moreover have "counter \<in> set (st_counters (lt_scrum st)) \<and> cs_kind (sn_scope counter) = VISIT_ORDINAL \<and>
        cs_scope_id (sn_scope counter) = wi_id work" using find_or_stop_Inr[OF c] by auto
    ultimately show ?thesis using route t(1) unfolding t(4) by auto
  qed
qed

section \<open>Closing visits\<close>

definition served :: "CalendarConfiguration \<Rightarrow> StatusVisitState \<Rightarrow> StatusVisitSample \<Rightarrow> instant \<Rightarrow> bool" where
  "served cal v s at_end \<longleftrightarrow>
     (\<exists>business. business_elapsed cal (sv_entered_at v) at_end = Inr business \<and>
        hours_us (vs_dwell_sampled_hours s) \<le> max 0 (business - sv_pause v))"

definition close_visit :: "instant \<Rightarrow> StatusVisitState \<Rightarrow> StatusVisitState" where
  "close_visit at_end v = v\<lparr>sv_lifecycle := SV_CLOSED, sv_closed_at := Some at_end\<rparr>"

lemma is_complete_Inr:
  "is_complete v s at_end cal = Inr b \<Longrightarrow> b \<longleftrightarrow> sv_remaining v = 0 \<and> served cal v s at_end"
  by (auto simp: is_complete_def served_def elim!: bindR_InrE split: if_splits)

definition closes :: "CalendarConfiguration \<Rightarrow> (uuid, StatusVisitSample) dict \<Rightarrow> instant \<Rightarrow> StatusVisitState \<Rightarrow> bool" where
  "closes cal samples at_end v \<longleftrightarrow>
     sv_remaining v = 0 \<and> (\<exists>s. map_of samples (sv_id v) = Some s \<and> served cal v s at_end)"

text \<open>What one visit adds to the result: visits, work items, samples and claims.\<close>

type_synonym outcome = "StatusVisitState list \<times> WorkItemState list \<times> StatusVisitSample list \<times> SemanticCounterClaim list"

definition transition_outcome :: "StatusVisitState \<Rightarrow> Transition \<Rightarrow> outcome" where
  "transition_outcome closed_visit t =
     (case tr_next t of
        None \<Rightarrow> ([closed_visit], [tr_work t], [], [])
      | Some (visit, sample, claim) \<Rightarrow> ([closed_visit, visit], [tr_work t], [sample], [claim]))"

definition visit_outcome ::
  "scrum_env \<Rightarrow> LiveTeamState \<Rightarrow> CalendarConfiguration \<Rightarrow> (uuid, WorkItemState) dict \<Rightarrow> (uuid, StatusVisitState) dict \<Rightarrow>
   (uuid, StatusVisitSample) dict \<Rightarrow> instant \<Rightarrow> draw_source \<Rightarrow> StatusVisitState \<Rightarrow> outcome res" where
  "visit_outcome env st cal works original samples at_end draws v =
     bindR (dict_get samples (sv_id v)) (\<lambda>s.
     bindR (is_complete v s at_end cal) (\<lambda>complete.
       if complete
       then bindR (replaced (en_codec env) (close_visit at_end v)) (\<lambda>closed_visit.
            bindR (dict_get works (sv_work_item_id v)) (\<lambda>work.
            bindR (transition env st work closed_visit draws) (\<lambda>t. Inr (transition_outcome closed_visit t))))
       else bindR (dict_get original (sv_id v)) (\<lambda>o_visit. Inr (if v \<noteq> o_visit then [v] else [], [], [], []))))"

definition add_outcomes :: "TickResult \<Rightarrow> outcome list \<Rightarrow> TickResult" where
  "add_outcomes r ps = r\<lparr>tk_visits := tk_visits r @ concat (map fst ps), tk_work_items := tk_work_items r @ concat (map (fst \<circ> snd) ps),
     tk_samples := tk_samples r @ concat (map (fst \<circ> snd \<circ> snd) ps), tk_claims := tk_claims r @ concat (map (snd \<circ> snd \<circ> snd) ps)\<rparr>"

lemma add_outcomes_Nil [simp]: "add_outcomes r [] = r"
  by (simp add: add_outcomes_def)

lemma add_outcomes_Cons: "add_outcomes r (p # ps) = add_outcomes (add_outcomes r [p]) ps"
  by (simp add: add_outcomes_def)

lemma bindR_assoc: "bindR (bindR a f) g = bindR a (\<lambda>x. bindR (f x) g)"
  by (cases a) simp_all

text \<open>The loop computes the outcome of every visit and appends them in order.\<close>

lemma finish_loop_outcomes:
  "finish_loop env st cal works original samples at_end draws vs acc =
     bindR (mapR (visit_outcome env st cal works original samples at_end draws) vs) (\<lambda>ps. Inr (add_outcomes acc ps))"
proof (induction vs arbitrary: acc)
  case (Cons v vs)
  have o: "add_outcomes a [([], [], [], [])] = a" "add_outcomes a [([v], [], [], [])] = a\<lparr>tk_visits := tk_visits a @ [v]\<rparr>" for a
    by (simp_all add: add_outcomes_def)
  have t: "(case tr_next t of
         None \<Rightarrow> acc\<lparr>tk_visits := tk_visits acc @ [c], tk_work_items := tk_work_items acc @ [tr_work t]\<rparr>
       | Some (visit, sample, claim) \<Rightarrow>
           acc\<lparr>tk_visits := tk_visits acc @ [c, visit], tk_work_items := tk_work_items acc @ [tr_work t],
               tk_samples := tk_samples acc @ [sample], tk_claims := tk_claims acc @ [claim]\<rparr>) =
     add_outcomes acc [transition_outcome c t]" for c t
    by (simp add: add_outcomes_def transition_outcome_def split: option.splits prod.splits)
  note rest = Cons[of "add_outcomes acc [p]" for p]
  have step: "finish_loop env st cal works original samples at_end draws (v # vs) acc =
      bindR (visit_outcome env st cal works original samples at_end draws v) (\<lambda>p.
        finish_loop env st cal works original samples at_end draws vs (add_outcomes acc [p]))"
  proof (cases "bindR (dict_get samples (sv_id v)) (\<lambda>s. is_complete v s at_end cal)")
    case (Inl e)
    then show ?thesis by (auto simp: visit_outcome_def bindR_eq_Inl bindR_eq_Inr)
  next
    case (Inr complete)
    then obtain s where s: "dict_get samples (sv_id v) = Inr s" "is_complete v s at_end cal = Inr complete"
      by (rule bindR_InrE)
    show ?thesis
    proof (cases complete)
      case False
      then show ?thesis
        by (cases "dict_get original (sv_id v)") (simp_all add: visit_outcome_def s o)
    next
      case True
      have "finish_loop env st cal works original samples at_end draws (v # vs) acc =
          bindR (replaced (en_codec env) (close_visit at_end v)) (\<lambda>closed_visit.
          bindR (dict_get works (sv_work_item_id v)) (\<lambda>work.
          bindR (transition env st work closed_visit draws) (\<lambda>t.
            finish_loop env st cal works original samples at_end draws vs (add_outcomes acc [transition_outcome closed_visit t]))))"
        using True by (simp only: finish_loop.simps s bindR_Inr if_True t close_visit_def)
      moreover have "visit_outcome env st cal works original samples at_end draws v =
          bindR (replaced (en_codec env) (close_visit at_end v)) (\<lambda>closed_visit.
          bindR (dict_get works (sv_work_item_id v)) (\<lambda>work.
          bindR (transition env st work closed_visit draws) (\<lambda>t. Inr (transition_outcome closed_visit t))))"
        using True by (simp only: visit_outcome_def s bindR_Inr if_True)
      ultimately show ?thesis by (simp only: bindR_assoc bindR_Inr)
    qed
  qed
  show ?case unfolding step mapR.simps bindR_assoc bindR_Inr rest add_outcomes_Cons[symmetric] ..
qed simp

text \<open>The outcome of a visit, spelled out: closed and moved along its route, or reported if it changed.\<close>

definition settled ::
  "scrum_env \<Rightarrow> LiveTeamState \<Rightarrow> CalendarConfiguration \<Rightarrow> (uuid, WorkItemState) dict \<Rightarrow> (uuid, StatusVisitState) dict \<Rightarrow>
   instant \<Rightarrow> draw_source \<Rightarrow> StatusVisitState \<Rightarrow> outcome \<Rightarrow> bool" where
  "settled env st cal works original at_end draws v p \<longleftrightarrow>
     (if closes cal (dict_of vs_visit_id (st_samples (lt_scrum st))) at_end v
      then check_visit (en_codec env) (close_visit at_end v) = Inr () \<and>
        (\<exists>work t. map_of works (sv_work_item_id v) = Some work \<and>
           transition env st work (close_visit at_end v) draws = Inr t \<and> p = transition_outcome (close_visit at_end v) t)
      else p = (if map_of original (sv_id v) = Some v then [] else [v], [], [], []))"

lemma visit_outcome_settled:
  assumes "visit_outcome env st cal works original (dict_of vs_visit_id (st_samples (lt_scrum st))) at_end draws v = Inr p"
  shows "settled env st cal works original at_end draws v p"
proof -
  let ?samples = "dict_of vs_visit_id (st_samples (lt_scrum st))"
  obtain s complete where s: "map_of ?samples (sv_id v) = Some s" "is_complete v s at_end cal = Inr complete"
    using assms by (auto simp: visit_outcome_def dict_get_def elim!: bindR_InrE split: option.splits)
  have c: "complete = closes cal ?samples at_end v" using is_complete_Inr[OF s(2)] s(1) by (simp add: closes_def)
  have g: "dict_get ?samples (sv_id v) = Inr s" using s(1) by (simp add: dict_get_def)
  show ?thesis
  proof (cases complete)
    case False
    then obtain o_visit where "map_of original (sv_id v) = Some o_visit" "p = (if v \<noteq> o_visit then [v] else [], [], [], [])"
      using assms s by (auto simp: visit_outcome_def g dict_get_def elim!: bindR_InrE split: option.splits)
    then show ?thesis using False c by (auto simp: settled_def)
  next
    case True
    then have "bindR (replaced (en_codec env) (close_visit at_end v)) (\<lambda>closed_visit.
            bindR (dict_get works (sv_work_item_id v)) (\<lambda>work.
            bindR (transition env st work closed_visit draws) (\<lambda>t. Inr (transition_outcome closed_visit t)))) = Inr p"
      using assms by (simp only: visit_outcome_def g s bindR_Inr if_True)
    then show ?thesis
      using True c by (elim bindR_InrE) (auto simp: settled_def replaced_Inr dict_get_def split: option.splits)
  qed
qed

text \<open>(C25) A tick closes an open visit exactly if its work is finished and its dwell time served: then the visit
  is closed at the end of the tick and its work item moves along its route; any other visit stays open and
  is reported only if the tick changed it. The result lists these outcomes in the order of the visits,
  and the consumption entries are exactly the accounts that changed.\<close>

theorem finish_visits_settles:
  assumes "finish_visits env st cal works original visits c at_end draws = Inr r"
  shows "tk_ends_at r = at_end \<and>
    (\<exists>outcomes. list_all2 (settled env st cal works original at_end draws) (map snd visits) outcomes \<and>
       tk_visits r = concat (map fst outcomes) \<and> tk_work_items r = concat (map (fst \<circ> snd) outcomes) \<and>
       tk_samples r = concat (map (fst \<circ> snd \<circ> snd) outcomes) \<and> tk_claims r = concat (map (snd \<circ> snd \<circ> snd) outcomes)) \<and>
    (\<lambda>k. ((mc_member_id k, mc_business_date k), mc_consumed k)) ` set (tk_consumption r) =
      {((m, d), n). ((m, d), n) \<in> set c \<and> map_of (consumption_map st) (m, d) \<noteq> Some n}"
proof -
  let ?empty = "\<lparr>tk_ends_at = at_end, tk_visits = [], tk_work_items = [], tk_samples = [], tk_consumption = [],
               tk_claims = [], tk_queue_causes = []\<rparr>"
  obtain ps changes where ps: "mapR (visit_outcome env st cal works original (dict_of vs_visit_id (st_samples (lt_scrum st))) at_end draws)
      (map snd visits) = Inr ps"
    and ch: "consumption_changes st c = Inr changes" and r: "r = (add_outcomes ?empty ps)\<lparr>tk_consumption := changes\<rparr>"
    using assms by (auto simp: finish_visits_def finish_loop_outcomes elim!: bindR_InrE)
  have "list_all2 (settled env st cal works original at_end draws) (map snd visits) ps"
    using ps visit_outcome_settled by (auto simp: mapR_eq_Inr_iff elim!: list_all2_mono)
  moreover have "(\<lambda>k. ((mc_member_id k, mc_business_date k), mc_consumed k)) ` set changes =
      {((m, d), n). ((m, d), n) \<in> set c \<and> map_of (consumption_map st) (m, d) \<noteq> Some n}"
  proof -
    let ?row = "\<lambda>((m, d), consumed). \<lparr>mc_team_id = rt_team_id (lt_runtime st), mc_run_id = rt_run_id (lt_runtime st),
        mc_member_id = m, mc_business_date = d, mc_consumed = consumed\<rparr>"
    let ?changed = "filter (\<lambda>(key, consumed). map_of (consumption_map st) key \<noteq> Some consumed)
           (sort_key (\<lambda>((m, d), consumed). (d, uuid_text m)) c)"
    have "list_all2 (\<lambda>x k. k = ?row x) ?changed changes"
      using ch unfolding consumption_changes_def Let_def mapR_eq_Inr_iff
      by (rule list_all2_mono) (auto simp: bindR_check)
    then have "changes = map ?row ?changed" by (auto simp: list_all2_conv_all_nth intro!: nth_equalityI)
    then show ?thesis by (force simp: image_iff)
  qed
  ultimately show ?thesis unfolding r by (auto simp: add_outcomes_def)
qed

section \<open>The story of the sample team\<close>

definition demo_draw_source :: draw_source where
  "demo_draw_source d =
     Inr (if do_decision_type d = STATUS_DWELL then demo_draw ''m1'' STATUS_DWELL else demo_draw ''m2'' STATUS_TOUCH)"

definition entered_work :: WorkItemState where
  "entered_work = demo_work\<lparr>wi_updated_at := 637200000000\<rparr>"

lemma entered_sample:
  "create_sample demo_env (demo_input\<lparr>si_work_item := entered_work\<rparr>) = Inr demo_sample"
proof -
  have w: "wi_id entered_work = wi_id demo_work" "wi_team_id entered_work = wi_team_id demo_work"
    "wi_run_id entered_work = wi_run_id demo_work" "wi_issue_type entered_work = wi_issue_type demo_work"
    "wi_story_points entered_work = wi_story_points demo_work" "wi_current_status_key entered_work = wi_current_status_key demo_work"
    by (simp_all add: entered_work_def)
  have e: "timing_entry b entered_work v = timing_entry b demo_work v" for b v
    by (simp add: timing_entry_def w)
  have "check_work_item demo_codec entered_work = Inr ()"
    using demo_checks(1) by (simp add: check_work_item_def entered_work_def check_classification_def bindR_check) (simp add: demo_work_def)
  then have "check_sample_input demo_codec (demo_input\<lparr>si_work_item := entered_work\<rparr>) = check_sample_input demo_codec demo_input"
    using demo_checks(1)
    by (simp add: check_sample_input_def check_sample_links_def authenticate_draw_def demo_sel w e Let_def)
  then have "status_sample_values demo_env (demo_input\<lparr>si_work_item := entered_work\<rparr>) = status_sample_values demo_env demo_input"
    by (simp add: status_sample_values_def demo_sel w e Let_def cong: if_cong)
  then show ?thesis
    using demo_sample_created \<open>check_sample_input demo_codec _ = _\<close> by (simp add: create_sample_def demo_sel)
qed

lemma demo_new_visit:
  "new_timed_visit demo_env demo_live entered_work \<lparr>rp_status_key = ''DEV'', rp_required_activity = Some ''CODE''\<rparr> 0 demo_draw_source =
     Inr (demo_visit, demo_sample)"
proof -
  have d: "decision_occurrence 44 dt 0 = Inr (demo_decision dt)" for dt
    by (simp add: decision_occurrence_def demo_decision_def)
  have "f_mul 1 MICROSECONDS_PER_HOUR = 3600000000" by (simp add: f_mul_def MICROSECONDS_PER_HOUR_def fl_numeral)
  then have r: "required_from_draw sample_timing (demo_draw ''m2'' STATUS_TOUCH) = Inr 3600000000"
    using round_half_even_of_int[of 3600000000]
    by (simp add: required_from_draw_def demo_anchors demo_draw_def demo_touch hours_us_def)
  have f: "find_or_stop (\<lambda>t. timing_cell t = (''DEV'', wi_issue_type entered_work, wi_story_points entered_work))
      (tm_entries (bp_timing (lt_blueprint demo_live))) = Inr sample_timing"
    by (simp add: find_or_stop_def demo_live_sel sample_blueprint_def sample_timing_def timing_cell_def entered_work_def demo_work_def)
  have v: "\<lparr>sv_id = 44, sv_team_id = wi_team_id entered_work, sv_run_id = wi_run_id entered_work, sv_work_item_id = wi_id entered_work,
      sv_ordinal = 0, sv_lifecycle = SV_OPEN, sv_status_key = ''DEV'', sv_activity_key = Some ''CODE'', sv_member_id = None,
      sv_entered_at = wi_updated_at entered_work, sv_closed_at = None, sv_required = 3600000000, sv_elapsed = 0,
      sv_remaining = 3600000000, sv_queue = 0, sv_pause = 0, sv_credited = 0\<rparr> = demo_visit"
    by (simp add: demo_visit_def entered_work_def demo_work_def)
  have i: "\<lparr>si_blueprint = lt_blueprint demo_live, si_work_item = entered_work, si_visit = demo_visit,
      si_dwell_draw = demo_draw ''m1'' STATUS_DWELL, si_touch_draw = demo_draw ''m2'' STATUS_TOUCH\<rparr> =
      demo_input\<lparr>si_work_item := entered_work\<rparr>"
    by (simp add: demo_input_def demo_live_sel)
  have "visit_rng_id demo_codec (wi_id entered_work) 0 = Inr 44" using demo_ids by (simp add: entered_work_def demo_coordinates)
  then show ?thesis
    by (simp add: new_timed_visit_def demo_sel d demo_draw_source_def demo_decision_def f r v replaced_def demo_checks i entered_sample)
qed

theorem new_timed_visit_rounding_witness:
  "hours_us (vs_touch_sampled_hours demo_sample) = 3600000000 \<and> unlucky_hours \<noteq> vs_touch_sampled_hours demo_sample"
  using new_timed_visit_rounding[OF demo_new_visit] by (auto simp: demo_coordinates)

definition done_work :: WorkItemState where
  "done_work = demo_work\<lparr>wi_lifecycle := WI_DONE, wi_current_status_key := ''DONE'', wi_updated_at := 640800000000\<rparr>"

lemma demo_transition:
  "transition demo_env demo_live demo_work (close_visit 640800000000 demo_worked) draws =
     Inr \<lparr>tr_work = done_work, tr_next = None\<rparr>"
proof -
  let ?steps = "[\<lparr>rp_status_key = ''READY'', rp_required_activity = None\<rparr>,
        \<lparr>rp_status_key = ''DEV'', rp_required_activity = Some ''CODE''\<rparr>, \<lparr>rp_status_key = ''DONE'', rp_required_activity = None\<rparr>]"
  have r: "find_or_stop (\<lambda>r. ro_issue_type r = wi_issue_type demo_work) (wf_routes (bp_workflow (lt_blueprint demo_live))) =
      Inr \<lparr>ro_issue_type = ''STORY'', ro_steps = ?steps\<rparr>"
    by (simp add: find_or_stop_def demo_live_sel sample_blueprint_def sample_workflow_def demo_coordinates)
  have p: "step_position (sv_status_key (close_visit 640800000000 demo_worked)) ?steps 0 = Inr 1"
    by (simp add: close_visit_def demo_worked_def demo_coordinates)
  have f: "first_timed demo_live [\<lparr>rp_status_key = ''DONE'', rp_required_activity = None\<rparr>] = Inr None"
    by (simp add: is_timed_def status_named_def find_or_stop_def demo_live_sel sample_blueprint_def sample_workflow_def)
  have "check_work_item demo_codec done_work = Inr ()"
    using demo_checks(1)
    by (simp add: check_work_item_def done_work_def check_classification_def bindR_check require_text_def is_space_def)
      (simp add: demo_work_def)
  then show ?thesis
    using r p f by (simp add: transition_def py_index_def replaced_work_def demo_sel done_work_def close_visit_def)
qed

theorem transition_follows_route_witness:
  "wi_updated_at done_work = 640800000000 \<and>
   (\<exists>route \<in> set (wf_routes (bp_workflow (lt_blueprint demo_live))). \<exists>k. ends_route demo_live (ro_steps route) k done_work)"
  using transition_follows_route[OF demo_transition[of demo_draw_source], of 640800000000] by (auto simp: close_visit_def)

lemma demo_closes: "visit_outcome demo_env demo_live office [(59, demo_work)] [(44, demo_visit)] [(44, demo_sample)] 640800000000
    draws demo_worked = Inr ([close_visit 640800000000 demo_worked], [done_work], [], [])"
proof -
  have z: "hours_us 0 = 0" using round_half_even_of_int[of 0] by (simp add: hours_us_def f_mul_def)
  have "is_complete demo_worked demo_sample 640800000000 office = Inr True"
    by (simp add: is_complete_def business_elapsed_def utc_interval_def demo_worked_def demo_visit_def demo_sample_def demo_elapsed z)
  moreover have "check_visit demo_codec (close_visit 640800000000 demo_worked) = Inr ()"
    by (simp add: close_visit_def demo_worked_def demo_visit_def check_visit_def demo_ids require_semantic_id_def require_text_def
        is_space_def require_optional_text_def check_zero_touch_def check_visit_times_def check_visit_microseconds_def
        require_microseconds_def MAX_SQLITE_INTEGER_def)
  moreover have "sv_id demo_worked = 44" "sv_work_item_id demo_worked = 59" by (simp_all add: demo_worked_def demo_coordinates)
  ultimately show ?thesis
    by (simp add: visit_outcome_def dict_get_def replaced_def demo_sel demo_transition transition_outcome_def)
qed

lemma demo_finish:
  "finish_visits demo_env demo_live office [(59, demo_work)] [(44, demo_visit)] [(44, demo_worked)] [((45, 8), 3600000000)]
     640800000000 draws =
   Inr \<lparr>tk_ends_at = 640800000000, tk_visits = [close_visit 640800000000 demo_worked], tk_work_items = [done_work],
     tk_samples = [], tk_consumption = [\<lparr>mc_team_id = 69, mc_run_id = 42, mc_member_id = 45, mc_business_date = 8,
       mc_consumed = 3600000000\<rparr>], tk_claims = [], tk_queue_causes = []\<rparr>"
  by (simp add: finish_visits_def finish_loop_outcomes demo_live_sel demo_collections dict_of_def demo_coordinates demo_closes
      add_outcomes_def consumption_changes_def consumption_map_def check_consumption_def require_microseconds_def
      MAX_SQLITE_INTEGER_def Let_def) (simp add: demo_live_def)

theorem finish_visits_settles_witness:
  "settled demo_env demo_live office [(59, demo_work)] [(44, demo_visit)] 640800000000 demo_draw_source demo_worked
     ([close_visit 640800000000 demo_worked], [done_work], [], [])"
proof -
  obtain p where "settled demo_env demo_live office [(59, demo_work)] [(44, demo_visit)] 640800000000 demo_draw_source demo_worked p"
    "fst p = [close_visit 640800000000 demo_worked]" "fst (snd p) = [done_work]" "fst (snd (snd p)) = []" "snd (snd (snd p)) = []"
    using finish_visits_settles[OF demo_finish[of demo_draw_source]] by (auto simp: list_all2_Cons1)
  then show ?thesis by (metis prod.collapse)
qed

text \<open>The whole tick of the hour: the story is done.\<close>

lemma demo_advance_visits:
  "advance_visits demo_env demo_live 640800000000 [demo_segment] office draws [] =
   Inr \<lparr>tk_ends_at = 640800000000, tk_visits = [close_visit 640800000000 demo_worked], tk_work_items = [done_work],
     tk_samples = [], tk_consumption = [\<lparr>mc_team_id = 69, mc_run_id = 42, mc_member_id = 45, mc_business_date = 8,
       mc_consumed = 3600000000\<rparr>], tk_claims = [], tk_queue_causes = []\<rparr>"
proof -
  have "dict_of wi_id (st_work_items (lt_scrum demo_live)) = [(59, demo_work)]" "consumption_map demo_live = []"
    by (simp_all add: demo_live_sel demo_collections dict_of_def demo_coordinates consumption_map_def)
  then show ?thesis
    using demo_advance_segments demo_finish
    by (simp add: advance_visits_def demo_sel demo_open aggregate_queue_causes_def)
qed

end
