(* ===== verification/Scrum_Bootstrap.thy ===== *)
theory Scrum_Bootstrap
  imports Tick_Finish Py_Time
begin

text \<open>
  The first state of a run (\<open>v2/domain/scrum_bootstrap.py\<close>): the ranked backlog drawn from the weights of
  the blueprint, the sprint that contains the start, the work selected for it, its first visits with
  their samples, and the counters. Draws come from an argument.
\<close>

text \<open>A constructor: the checks of \<open>__post_init__\<close>, then the value.\<close>

definition built :: "('a \<Rightarrow> unit res) \<Rightarrow> 'a \<Rightarrow> 'a res" where
  "built check x = bindR (check x) (\<lambda>_. Inr x)"

lemma built_Inr: "built check x = Inr y \<longleftrightarrow> check x = Inr () \<and> y = x"
  by (auto simp: built_def bindR_check)

section \<open>The backlog\<close>

definition member_identities :: "codec \<Rightarrow> PersistedTeamAggregate \<Rightarrow> MemberIdentity list res" where
  "member_identities cd a =
     mapR (\<lambda>index. bindR (member_rng_id cd (vt_id (pa_team a)) index) (\<lambda>i.
             built (check_member_identity cd) \<lparr>mi_id = i, mi_team_id = vt_id (pa_team a), mi_blueprint_index = index\<rparr>))
       (map int [0..<length (bp_members (pa_blueprint a))])"

text \<open>
  \<open>sum\<close> of floats compensates its rounding errors (Neumaier): \<open>c\<close> collects what each addition loses
  and is added at the end.
\<close>

fun float_sum :: "py_float \<Rightarrow> py_float \<Rightarrow> py_float list \<Rightarrow> py_float" where
  "float_sum s c [] = (if c = 0 then s else f_add s c)"
| "float_sum s c (x # xs) =
     (let t = f_add s x;
          lost = (if \<bar>x\<bar> \<le> \<bar>s\<bar> then f_add (f_sub s t) x else f_add (f_sub x t) s)
      in float_sum t (f_add c lost) xs)"

fun pick_weight :: "py_float \<Rightarrow> py_float \<Rightarrow> (string \<times> py_float) list \<Rightarrow> string option" where
  "pick_weight threshold cumulative [] = None"
| "pick_weight threshold cumulative ((key, value) # rest) =
     (let next = f_add cumulative value in if threshold < next then Some key else pick_weight threshold next rest)"

definition weighted_value :: "(string, py_float) dict \<Rightarrow> py_float \<Rightarrow> string res" where
  "weighted_value pairs unit_value =
     (case pick_weight (f_mul unit_value (float_sum 0 0 (map snd pairs))) 0 pairs of
        Some key \<Rightarrow> Inr key
      | None \<Rightarrow> bindR (py_index pairs (- 1)) (\<lambda>p. Inr (fst p)))"

definition work_priority :: "string \<Rightarrow> WorkPriority res" where
  "work_priority t =
     (if t = ''HIGHEST'' then Inr PR_HIGHEST else if t = ''HIGH'' then Inr PR_HIGH
      else if t = ''MEDIUM'' then Inr PR_MEDIUM else if t = ''LOW'' then Inr PR_LOW
      else if t = ''LOWEST'' then Inr PR_LOWEST
      else Inl (Value_Error (t @ '' is not a valid WorkPriority'')))"

definition drawn :: "draw_source \<Rightarrow> uuid \<Rightarrow> DecisionType \<Rightarrow> UniformDraw res" where
  "drawn draws entity dt = bindR (decision_occurrence entity dt 0) draws"

definition bootstrap_route :: "ResolvedTeamBlueprint \<Rightarrow> string \<Rightarrow> WorkflowRoute res" where
  "bootstrap_route b issue_type = find_or_stop (\<lambda>r. ro_issue_type r = issue_type) (wf_routes (bp_workflow b))"

definition backlog_item ::
  "codec \<Rightarrow> PersistedTeamAggregate \<Rightarrow> instant \<Rightarrow> draw_source \<Rightarrow> int \<Rightarrow> WorkItemState res" where
  "backlog_item cd a started_at draws sequence =
     (let b = pa_blueprint a; backlog = bp_backlog b; team = vt_id (pa_team a) in
      bindR (item_rng_id cd team INITIAL_BACKLOG sequence) (\<lambda>item_id.
      bindR (drawn draws item_id BACKLOG_ISSUE_TYPE) (\<lambda>type_draw.
      bindR (weighted_value (bl_issue_type_weights backlog) (ud_unit_value type_draw)) (\<lambda>issue_type.
      bindR (drawn draws item_id BACKLOG_STORY_POINTS) (\<lambda>points_draw.
      bindR (weighted_value (bl_story_point_weights backlog) (ud_unit_value points_draw)) (\<lambda>points_text.
      bindR (int_of_text points_text) (\<lambda>story_points.
      bindR (drawn draws item_id BACKLOG_PRIORITY) (\<lambda>priority_draw.
      bindR (weighted_value (bl_priority_weights backlog) (ud_unit_value priority_draw)) (\<lambda>priority_text.
      bindR (work_priority priority_text) (\<lambda>priority.
      bindR (bootstrap_route b issue_type) (\<lambda>route.
      bindR (py_index (ro_steps route) 0) (\<lambda>step.
        built (check_work_item cd)
          \<lparr>wi_id = item_id, wi_team_id = team, wi_run_id = rt_run_id (pa_runtime a),
           wi_creation_kind = INITIAL_BACKLOG, wi_creation_sequence = sequence, wi_issue_type = issue_type,
           wi_story_points = story_points, wi_priority = priority, wi_relative_rank = sequence,
           wi_lifecycle = WI_BACKLOG, wi_current_status_key = rp_status_key step,
           wi_created_at = started_at, wi_updated_at = started_at\<rparr>))))))))))))"

definition ranked_backlog ::
  "codec \<Rightarrow> PersistedTeamAggregate \<Rightarrow> instant \<Rightarrow> draw_source \<Rightarrow> WorkItemState list res" where
  "ranked_backlog cd a started_at draws =
     mapR (backlog_item cd a started_at draws) (map int [0..<nat (bl_target_depth (bp_backlog (pa_blueprint a)))])"

section \<open>The sprint\<close>

text \<open>\<open>None\<close>: the search does not end.\<close>

partial_function (option) containing_from ::
  "CalendarConfiguration \<Rightarrow> CadenceRule \<Rightarrow> instant \<Rightarrow> int \<Rightarrow> int res option" where
  "containing_from cal cadence started_at ordinal =
     (case cadence_boundary cal cadence (ordinal + 1) of
        Inl e \<Rightarrow> Some (Inl e)
      | Inr boundary \<Rightarrow>
          if boundary \<le> started_at then containing_from cal cadence started_at (ordinal + 1)
          else Some (Inr ordinal))"

definition containing_sprint_ordinal ::
  "CalendarConfiguration \<Rightarrow> CadenceRule \<Rightarrow> instant \<Rightarrow> int res option" where
  "containing_sprint_ordinal cal cadence started_at =
     (if started_at < cr_anchor cadence then Some (Inr 0) else containing_from cal cadence started_at 0)"

definition aggregate_calendar :: "scrum_env \<Rightarrow> PersistedTeamAggregate \<Rightarrow> CalendarConfiguration res" where
  "aggregate_calendar env a =
     calendar_configuration (en_zone env) (tb_timezone (bp_team (pa_blueprint a))) (bp_calendar (pa_blueprint a))"

definition sprint_at ::
  "codec \<Rightarrow> PersistedTeamAggregate \<Rightarrow> CalendarConfiguration \<Rightarrow> CadenceRule \<Rightarrow> instant \<Rightarrow> int \<Rightarrow> SprintState res" where
  "sprint_at cd a cal cadence started_at ordinal =
     bindR (cadence_boundary cal cadence ordinal) (\<lambda>planned_start.
     bindR (cadence_boundary cal cadence (ordinal + 1)) (\<lambda>planned_end.
     let lifecycle = (if planned_start \<le> started_at then SP_ACTIVE else SP_PLANNED) in
     bindR (sprint_rng_id cd (vt_id (pa_team a)) ordinal) (\<lambda>sprint_id.
       built (check_sprint cd)
         \<lparr>ss_id = sprint_id, ss_team_id = vt_id (pa_team a), ss_run_id = rt_run_id (pa_runtime a), ss_ordinal = ordinal,
          ss_lifecycle = lifecycle, ss_planned_start_at = planned_start, ss_planned_end_at = planned_end,
          ss_observed_start_at = (if lifecycle = SP_ACTIVE then Some started_at else None),
          ss_observed_end_at = None, ss_created_at = started_at, ss_updated_at = started_at\<rparr>)))"

definition initial_sprint :: "scrum_env \<Rightarrow> PersistedTeamAggregate \<Rightarrow> instant \<Rightarrow> SprintState res option" where
  "initial_sprint env a started_at =
     (let scrum = bp_scrum (pa_blueprint a) in
      case bindR (aggregate_calendar env a) (\<lambda>cal.
           bindR (cadence_rule (sb_first_boundary scrum) (sb_cadence_days scrum)) (\<lambda>cadence. Inr (cal, cadence))) of
        Inl e \<Rightarrow> Some (Inl e)
      | Inr (cal, cadence) \<Rightarrow>
          map_option (\<lambda>r. bindR r (sprint_at (en_codec env) a cal cadence started_at))
            (containing_sprint_ordinal cal cadence started_at))"

section \<open>Selection\<close>

text \<open>The capacity drawn for a sprint.\<close>

definition capacity_target :: "ScrumBlueprint \<Rightarrow> py_float \<Rightarrow> int" where
  "capacity_target scrum unit_value =
     sb_capacity_min_points scrum +
     py_trunc (f_mul unit_value (f_of_int (sb_capacity_max_points scrum - sb_capacity_min_points scrum + 1)))"

definition ranked_work :: "WorkItemState list \<Rightarrow> WorkItemState list res" where
  "ranked_work items =
     bindR (mapR (\<lambda>w. bindR (check_rank (simulator_rank w)) (\<lambda>_. Inr (rank_sort_key (simulator_rank w), w))) items)
       (\<lambda>keyed. Inr (map snd (sort_key fst keyed)))"

fun take_scope :: "int \<Rightarrow> int \<Rightarrow> int \<Rightarrow> WorkItemState list \<Rightarrow> WorkItemState list" where
  "take_scope min_points capacity used [] = []"
| "take_scope min_points capacity used (w # ws) =
     (if min_points \<le> used \<and> capacity < used + wi_story_points w then []
      else w # take_scope min_points capacity (used + wi_story_points w) ws)"

definition selected_scope_ids ::
  "PersistedTeamAggregate \<Rightarrow> uuid \<Rightarrow> WorkItemState list \<Rightarrow> draw_source \<Rightarrow> uuid list res" where
  "selected_scope_ids a sprint_id items draws =
     (let scrum = bp_scrum (pa_blueprint a) in
      bindR (drawn draws sprint_id SCRUM_CAPACITY_TARGET) (\<lambda>draw.
      bindR (ranked_work items) (\<lambda>ordered.
        Inr (map wi_id (take_scope (sb_capacity_min_points scrum) (capacity_target scrum (ud_unit_value draw)) 0 ordered)))))"

section \<open>Activation\<close>

definition is_timed_step :: "ResolvedTeamBlueprint \<Rightarrow> WorkflowRouteStep \<Rightarrow> bool res" where
  "is_timed_step b step =
     bindR (find_or_stop (\<lambda>s. ws_key s = rp_status_key step) (wf_statuses (bp_workflow b))) (\<lambda>status.
       Inr (ws_consumes_capacity status \<and> rp_required_activity step \<noteq> None))"

fun first_timed_step :: "ResolvedTeamBlueprint \<Rightarrow> WorkflowRouteStep list \<Rightarrow> WorkflowRouteStep option res" where
  "first_timed_step b [] = Inr None"
| "first_timed_step b (step # steps) =
     bindR (is_timed_step b step) (\<lambda>timed. if timed then Inr (Some step) else first_timed_step b steps)"

definition active_item ::
  "codec \<Rightarrow> WorkItemState \<Rightarrow> string \<Rightarrow> WorkItemLifecycle \<Rightarrow> instant \<Rightarrow> WorkItemState res" where
  "active_item cd w status_key lifecycle started_at =
     built (check_work_item cd)
       (w\<lparr>wi_lifecycle := lifecycle, wi_current_status_key := status_key, wi_updated_at := started_at\<rparr>)"

text \<open>Sampled hours in microseconds, through the exact integer ratio.\<close>

definition exact_microseconds :: "py_float \<Rightarrow> int" where
  "exact_microseconds hours =
     (let (numerator, denominator) = quotient_of hours;
          rounded = numerator * 3600000000 div denominator;
          remainder = numerator * 3600000000 mod denominator
      in if denominator < remainder * 2 \<or> remainder * 2 = denominator \<and> rounded mod 2 \<noteq> 0
         then rounded + 1 else rounded)"

definition sampled_microseconds ::
  "ResolvedTeamBlueprint \<Rightarrow> WorkItemState \<Rightarrow> string \<Rightarrow> py_float \<Rightarrow> int res" where
  "sampled_microseconds b w status_key unit_value =
     bindR (find_or_stop (\<lambda>t. timing_cell t = (status_key, wi_issue_type w, wi_story_points w))
              (tm_entries (bp_timing b))) (\<lambda>entry.
     bindR (touch_bounds entry) (\<lambda>bounds.
     bindR (sample_touch bounds unit_value) (\<lambda>touch. Inr (exact_microseconds (ds_sampled_hours touch)))))"

fun member_for_activity :: "ResolvedTeamBlueprint \<Rightarrow> string \<Rightarrow> MemberIdentity list \<Rightarrow> uuid res" where
  "member_for_activity b activity [] = Inl (Value_Error ''timed route activity must have a persisted member'')"
| "member_for_activity b activity (i # rest) =
     bindR (py_index (bp_members b) (mi_blueprint_index i)) (\<lambda>m.
       if activity \<in> set (map rs_activity (mb_responsibilities m)) then Inr (mi_id i)
       else member_for_activity b activity rest)"

definition timed_visit ::
  "codec \<Rightarrow> PersistedTeamAggregate \<Rightarrow> instant \<Rightarrow> MemberIdentity list \<Rightarrow> WorkItemState \<Rightarrow> WorkflowRouteStep \<Rightarrow>
   draw_source \<Rightarrow> StatusVisitState res" where
  "timed_visit cd a started_at members w step draws =
     bindR (visit_rng_id cd (wi_id w) 0) (\<lambda>visit_id.
     bindR (drawn draws visit_id STATUS_TOUCH) (\<lambda>touch_draw.
     bindR (sampled_microseconds (pa_blueprint a) w (rp_status_key step) (ud_unit_value touch_draw)) (\<lambda>required.
     bindR (case rp_required_activity step of
              None \<Rightarrow> Inl (Value_Error ''timed route steps must require an activity'')
            | Some activity \<Rightarrow> member_for_activity (pa_blueprint a) activity members) (\<lambda>member.
       built (check_visit cd)
         \<lparr>sv_id = visit_id, sv_team_id = wi_team_id w, sv_run_id = wi_run_id w, sv_work_item_id = wi_id w,
          sv_ordinal = 0, sv_lifecycle = SV_OPEN, sv_status_key = rp_status_key step,
          sv_activity_key = rp_required_activity step, sv_member_id = Some member, sv_entered_at = started_at,
          sv_closed_at = None, sv_required = required, sv_elapsed = 0, sv_remaining = required, sv_queue = 0,
          sv_pause = 0, sv_credited = 0\<rparr>))))"

definition status_sample ::
  "scrum_env \<Rightarrow> ResolvedTeamBlueprint \<Rightarrow> WorkItemState \<Rightarrow> StatusVisitState \<Rightarrow> draw_source \<Rightarrow> StatusVisitSample res" where
  "status_sample env b w v draws =
     bindR (drawn draws (sv_id v) STATUS_DWELL) (\<lambda>dwell.
     bindR (drawn draws (sv_id v) STATUS_TOUCH) (\<lambda>touch.
       create_sample env \<lparr>si_blueprint = b, si_work_item = w, si_visit = v, si_dwell_draw = dwell, si_touch_draw = touch\<rparr>))"

definition activate_item ::
  "scrum_env \<Rightarrow> PersistedTeamAggregate \<Rightarrow> instant \<Rightarrow> MemberIdentity list \<Rightarrow> draw_source \<Rightarrow> WorkItemState \<Rightarrow>
   (WorkItemState \<times> (StatusVisitState \<times> StatusVisitSample) option) res" where
  "activate_item env a started_at members draws w =
     (let b = pa_blueprint a; cd = en_codec env in
      bindR (bootstrap_route b (wi_issue_type w)) (\<lambda>route.
      bindR (first_timed_step b (ro_steps route)) (\<lambda>timed.
        case timed of
          None \<Rightarrow>
            bindR (py_index (ro_steps route) (- 1)) (\<lambda>terminal.
            bindR (active_item cd w (rp_status_key terminal) WI_DONE started_at) (\<lambda>w'. Inr (w', None)))
        | Some step \<Rightarrow>
            bindR (active_item cd w (rp_status_key step) WI_ACTIVE started_at) (\<lambda>w'.
            bindR (timed_visit cd a started_at members w' step draws) (\<lambda>v.
            bindR (status_sample env b w' v draws) (\<lambda>s. Inr (w', Some (v, s))))))))"

definition activate_selected ::
  "scrum_env \<Rightarrow> PersistedTeamAggregate \<Rightarrow> instant \<Rightarrow> MemberIdentity list \<Rightarrow> uuid list \<Rightarrow> draw_source \<Rightarrow>
   WorkItemState \<Rightarrow> (WorkItemState \<times> (StatusVisitState \<times> StatusVisitSample) option) res" where
  "activate_selected env a started_at members selected draws w =
     (if wi_id w \<in> set selected then activate_item env a started_at members draws w else Inr (w, None))"

definition activate_selected_work ::
  "scrum_env \<Rightarrow> PersistedTeamAggregate \<Rightarrow> instant \<Rightarrow> MemberIdentity list \<Rightarrow> WorkItemState list \<Rightarrow> uuid list \<Rightarrow>
   draw_source \<Rightarrow> (WorkItemState list \<times> StatusVisitState list \<times> StatusVisitSample list) res" where
  "activate_selected_work env a started_at members items selected draws =
     bindR (mapR (activate_selected env a started_at members selected draws) items) (\<lambda>results.
       let entered = List.map_filter snd results in Inr (map fst results, map fst entered, map snd entered))"

section \<open>Scope and counters\<close>

definition scope_entry ::
  "codec \<Rightarrow> uuid \<Rightarrow> uuid \<Rightarrow> uuid \<Rightarrow> instant \<Rightarrow> uuid \<Rightarrow> SprintScopeEntry res" where
  "scope_entry cd team run sprint_id at_instant item_id =
     built (check_scope_entry cd)
       \<lparr>sc_id = semantic_uuid cd (''sprint-scope/'' @ uuid_text sprint_id @ ''/'' @ uuid_text item_id),
        sc_team_id = team, sc_run_id = run, sc_sprint_id = sprint_id, sc_work_item_id = item_id,
        sc_added_at = at_instant, sc_removed_at = None\<rparr>"

text \<open>The selection is a set of identifiers, listed in their order.\<close>

definition initial_scope :: "codec \<Rightarrow> PersistedTeamAggregate \<Rightarrow> uuid \<Rightarrow> uuid list \<Rightarrow> instant \<Rightarrow> SprintScopeEntry list res" where
  "initial_scope cd a sprint_id selected started_at =
     mapR (scope_entry cd (vt_id (pa_team a)) (rt_run_id (pa_runtime a)) sprint_id started_at) (sort (remdups selected))"

definition new_counter :: "PersistedTeamAggregate \<Rightarrow> SemanticCounterKind \<Rightarrow> uuid \<Rightarrow> string \<Rightarrow> int \<Rightarrow> SemanticCounter res" where
  "new_counter a kind scope_id key next_value =
     bindR (built check_counter_scope \<lparr>cs_kind = kind, cs_scope_id = scope_id, cs_scope_key = key\<rparr>) (\<lambda>scope.
       built check_counter \<lparr>sn_team_id = vt_id (pa_team a), sn_run_id = rt_run_id (pa_runtime a), sn_scope = scope,
         sn_next_value = next_value\<rparr>)"

definition sprint_counter :: "PersistedTeamAggregate \<Rightarrow> SprintState \<Rightarrow> SemanticCounter res" where
  "sprint_counter a sprint = new_counter a SPRINT_ORDINAL (vt_id (pa_team a)) ''SCRUM'' (ss_ordinal sprint + 1)"

definition visit_counters ::
  "PersistedTeamAggregate \<Rightarrow> WorkItemState list \<Rightarrow> StatusVisitState list \<Rightarrow> SemanticCounter list res" where
  "visit_counters a items visits =
     (let by_item = dict_of sv_work_item_id visits in
      mapR (\<lambda>w. new_counter a VISIT_ORDINAL (wi_id w) ''VISIT''
                 (case map_of by_item (wi_id w) of None \<Rightarrow> 0 | Some v \<Rightarrow> sv_ordinal v + 1)) items)"

definition natural_counters :: "PersistedTeamAggregate \<Rightarrow> uuid list \<Rightarrow> DecisionType \<Rightarrow> SemanticCounter list res" where
  "natural_counters a entities dt =
     mapR (\<lambda>i. new_counter a NATURAL_DECISION_OCCURRENCE i (decision_value dt) 0) entities"

definition initial_counters ::
  "codec \<Rightarrow> PersistedTeamAggregate \<Rightarrow> WorkItemState list \<Rightarrow> StatusVisitState list \<Rightarrow> SemanticCounter list res" where
  "initial_counters cd a items visits =
     bindR (member_identities cd a) (\<lambda>members.
     bindR (visit_counters a items visits) (\<lambda>vs.
     bindR (natural_counters a (map wi_id items) RISK_CANCELLATION_OUTCOME) (\<lambda>ws.
     bindR (natural_counters a (map mi_id members) RISK_MEMBER_UNAVAILABLE_OUTCOME) (\<lambda>ms.
       Inr (vs @ ws @ ms)))))"

section \<open>The first state\<close>

definition planned_initial_state ::
  "scrum_env \<Rightarrow> PersistedTeamAggregate \<Rightarrow> MemberIdentity list \<Rightarrow> WorkItemState list \<Rightarrow> SprintState \<Rightarrow> ScrumStateWriteSet res" where
  "planned_initial_state env a members items sprint =
     bindR (sprint_counter a sprint) (\<lambda>first.
     bindR (initial_counters (en_codec env) a items []) (\<lambda>counters.
       write_set env (empty_state\<lparr>st_member_identities := members, st_work_items := items, st_sprints := [sprint],
         st_counters := first # counters\<rparr>)))"

definition active_initial_state ::
  "scrum_env \<Rightarrow> PersistedTeamAggregate \<Rightarrow> instant \<Rightarrow> MemberIdentity list \<Rightarrow> WorkItemState list \<Rightarrow> SprintState \<Rightarrow>
   draw_source \<Rightarrow> ScrumStateWriteSet res" where
  "active_initial_state env a started_at members items sprint draws =
     (let cd = en_codec env in
      bindR (selected_scope_ids a (ss_id sprint) items draws) (\<lambda>selected.
      bindR (activate_selected_work env a started_at members items selected draws) (\<lambda>(work, visits, samples).
      bindR (initial_scope cd a (ss_id sprint) selected started_at) (\<lambda>scope.
      bindR (sprint_counter a sprint) (\<lambda>first.
      bindR (initial_counters cd a work visits) (\<lambda>counters.
        write_set env (empty_state\<lparr>st_member_identities := members, st_work_items := work, st_sprints := [sprint],
          st_scope := scope, st_visits := visits, st_samples := samples, st_counters := first # counters\<rparr>)))))))"

definition build_initial_scrum_state ::
  "scrum_env \<Rightarrow> PersistedTeamAggregate \<Rightarrow> instant \<Rightarrow> draw_source \<Rightarrow> ScrumStateWriteSet res option" where
  "build_initial_scrum_state env a started_at draws =
     (case bindR (member_identities (en_codec env) a) (\<lambda>members.
           bindR (ranked_backlog (en_codec env) a started_at draws) (\<lambda>items. Inr (members, items))) of
        Inl e \<Rightarrow> Some (Inl e)
      | Inr (members, items) \<Rightarrow>
          map_option (\<lambda>r. bindR r (\<lambda>sprint.
              if ss_lifecycle sprint = SP_PLANNED then planned_initial_state env a members items sprint
              else active_initial_state env a started_at members items sprint draws))
            (initial_sprint env a started_at))"

section \<open>The sprint that contains the start\<close>

definition sprint_contains :: "CalendarConfiguration \<Rightarrow> CadenceRule \<Rightarrow> instant \<Rightarrow> int \<Rightarrow> bool" where
  "sprint_contains cal cadence t n =
     (case (cadence_boundary cal cadence n, cadence_boundary cal cadence (n + 1)) of
        (Inr left, Inr right) \<Rightarrow> left \<le> t \<and> t < right
      | _ \<Rightarrow> False)"

text \<open>Boundaries past the last day of the calendar are errors, so a search upwards ends.\<close>

lemma cadence_boundary_in_range:
  assumes "cadence_boundary c rule n = Inr u" and "0 < n"
  shows "local_date (z_local (cc_zone c) (cr_anchor rule)) + cr_cadence_days rule * n \<le> MAX_ORDINAL"
  using assms
  by (auto simp: cadence_boundary_def convert_timezone_Inr to_local_Inr_iff date_add_Inr valid_ordinal_def
      elim!: bindR_InrE split: if_splits)

lemma containing_from_ends:
  assumes "0 < cr_cadence_days cadence" and "0 \<le> n"
    and "cadence_boundary cal cadence n = Inr u" "u \<le> t"
  shows "case containing_from cal cadence t n of
           None \<Rightarrow> False
         | Some (Inl e) \<Rightarrow> \<exists>k > n. cadence_boundary cal cadence k = Inl e
         | Some (Inr m) \<Rightarrow> n \<le> m \<and> sprint_contains cal cadence t m"
  using assms(2-4)
proof (induction "nat (MAX_ORDINAL - local_date (z_local (cc_zone cal) (cr_anchor cadence)) -
    cr_cadence_days cadence * n)" arbitrary: n u rule: less_induct)
  case less
  show ?case
  proof (cases "cadence_boundary cal cadence (n + 1)")
    case (Inl e)
    then have "containing_from cal cadence t n = Some (Inl e)" by (simp add: containing_from.simps)
    then show ?thesis using Inl by (auto intro!: exI[of _ "n + 1"])
  next
    case (Inr v)
    show ?thesis
    proof (cases "v \<le> t")
      case False
      then have "containing_from cal cadence t n = Some (Inr n)" using Inr by (simp add: containing_from.simps)
      then show ?thesis using Inr False less.prems by (simp add: sprint_contains_def)
    next
      case True
      have step: "containing_from cal cadence t n = containing_from cal cadence t (n + 1)"
        using Inr True by (subst containing_from.simps) simp
      have "cr_cadence_days cadence * (n + 1) = cr_cadence_days cadence * n + cr_cadence_days cadence"
        by (simp add: algebra_simps)
      then have "nat (MAX_ORDINAL - local_date (z_local (cc_zone cal) (cr_anchor cadence)) - cr_cadence_days cadence * (n + 1))
          < nat (MAX_ORDINAL - local_date (z_local (cc_zone cal) (cr_anchor cadence)) - cr_cadence_days cadence * n)"
        using cadence_boundary_in_range[OF Inr] less.prems(1) assms(1) by simp
      from less.hyps[OF this _ Inr True] less.prems(1)
      show ?thesis unfolding step by (auto split: option.splits sum.splits intro: add_lessD1 less_trans[OF less_add_one])
    qed
  qed
qed

lemma sprint_contains_unique:
  assumes "separating (cc_zone cal)" and "cadence_rule anchor days = Inr cadence"
    and "sprint_contains cal cadence t n" and "sprint_contains cal cadence t m"
  shows "n = m"
proof (rule ccontr)
  have no: "\<not> i < j" if i: "sprint_contains cal cadence t i" and j: "sprint_contains cal cadence t j" for i j
  proof
    assume "i < j"
    obtain v where v: "cadence_boundary cal cadence (i + 1) = Inr v" "t < v"
      using i by (auto simp: sprint_contains_def split: sum.splits)
    obtain u where u: "cadence_boundary cal cadence j = Inr u" "u \<le> t"
      using j by (auto simp: sprint_contains_def split: sum.splits)
    have "v \<le> u"
    proof (cases "i + 1 = j")
      case True
      then show ?thesis using u v by simp
    next
      case False
      then show ?thesis
        using cadence_boundary_increasing[OF assms(1,2) v(1) u(1)] \<open>i < j\<close> by simp
    qed
    then show False using u v by simp
  qed
  assume "n \<noteq> m"
  then show False using no[OF assms(3,4)] no[OF assms(4,3)] by linarith
qed

text \<open>(C33) The search for the sprint that contains the start of a run always ends. Before the anchor of the
  cadence the answer is the first sprint; from the anchor on it is the one sprint whose boundaries
  enclose the start, unless a boundary leaves the calendar.\<close>

theorem containing_sprint_found:
  assumes "separating (cc_zone cal)" and "cadence_rule anchor days = Inr cadence"
  shows "case containing_sprint_ordinal cal cadence t of
           None \<Rightarrow> False
         | Some (Inl e) \<Rightarrow> anchor \<le> t \<and> (\<exists>k > 0. cadence_boundary cal cadence k = Inl e)
         | Some (Inr n) \<Rightarrow> if t < anchor then n = 0 else 0 \<le> n \<and> (\<forall>m. sprint_contains cal cadence t m = (m = n))"
proof -
  have r: "0 < cr_cadence_days cadence" "cr_anchor cadence = anchor"
    using assms(2) by (auto simp: cadence_rule_def split: if_splits)
  show ?thesis
  proof (cases "t < anchor")
    case True
    then show ?thesis by (simp add: containing_sprint_ordinal_def r)
  next
    case False
    then have start: "containing_sprint_ordinal cal cadence t = containing_from cal cadence t 0"
      by (simp add: containing_sprint_ordinal_def r)
    have "cadence_boundary cal cadence 0 = Inr anchor" by (simp add: cadence_boundary_def r)
    from containing_from_ends[OF r(1) order_refl this, of t] False
    show ?thesis unfolding start using sprint_contains_unique[OF assms]
      by (auto split: option.splits sum.splits)
  qed
qed

section \<open>The capacity of a sprint\<close>

text \<open>
  A draw below one times an integer rounds to a float below that integer: the exact product is at
  least half a unit in the last place away from it.
\<close>

lemma fl_unit_product_less:
  assumes "0 \<le> k" "k < 2 ^ 53" "0 < n" "n \<le> (2 ^ 53 :: int)"
  shows "fl (of_int k / 2 ^ 53 * of_int n) < of_int n"
proof -
  define x :: rat where "x = of_int k / 2 ^ 53 * of_int n"
  define e where "e = ilog2 (of_int n)"
  have n1: "1 \<le> (of_int n :: rat)" using assms(3) by simp
  have e: "2 powi e \<le> (of_int n :: rat)" "(of_int n :: rat) < 2 powi (e + 1)"
    using ilog2_bounds[of "of_int n"] assms(3) unfolding e_def by simp_all
  have e0: "0 \<le> e" using bits_pos[of "nat \<lfloor>of_int n :: rat\<rfloor>"] n1 assms(3) by (simp add: e_def ilog2_def)
  have "of_int k \<le> (2 ^ 53 - 1 :: rat)"
    using assms(2) of_int_le_iff[where 'a = rat, of k "2 ^ 53 - 1"] by simp
  then have "of_int k * of_int n \<le> (2 ^ 53 - 1) * (of_int n :: rat)"
    using n1 by (intro mult_right_mono) simp_all
  then have x: "x \<le> of_int n - of_int n / 2 ^ 53" by (simp add: x_def field_simps)
  then have xn: "x < of_int n" using n1 by (simp add: field_simps)
  show ?thesis unfolding x_def[symmetric]
  proof (cases "x \<le> 2 powi e")
    case True
    show "fl x < of_int n"
    proof (cases "2 powi e = (of_int n :: rat)")
      case True
      have p: "(2 :: rat) powi (e - 53) = 2 powi e / 2 ^ 53"
        using power_int_diff[of "2 :: rat" e 53] by simp
      have "x \<le> of_int (2 ^ 53 - 1) * 2 powi (e - 53)" using x True p by (simp add: field_simps)
      then have "fl x \<le> of_int (2 ^ 53 - 1) * 2 powi (e - 53)"
        using fl_mono fl_exact[of "2 ^ 53 - 1" "e - 53"] e0 by fastforce
      also have "\<dots> < of_int n" using p True n1 by (simp add: field_simps)
      finally show ?thesis .
    next
      case False
      have "fl x \<le> 2 powi e"
        using fl_mono[OF \<open>x \<le> 2 powi e\<close>] fl_exact[of 1 e] e0 by simp
      then show ?thesis using False e(1) by linarith
    qed
  next
    case False
    then have pos: "0 < x" using powi_2_pos[of e] by linarith
    have "ilog2 x = e"
    proof (rule antisym)
      show "ilog2 x \<le> e" unfolding e_def using pos x n1 by (intro ilog2_mono) (simp_all add: field_simps)
      have "2 powi e < (2 :: rat) powi (ilog2 x + 1)" using ilog2_bounds[OF pos] False by linarith
      then have "e < ilog2 x + 1" using powi_mono_2 by (metis linorder_not_less)
      then show "e \<le> ilog2 x" by simp
    qed
    then have u: "ulp_exp x = e - 52" using e0 by (simp add: ulp_exp_def)
    have p: "(2 :: rat) powi (e - 52) = 2 powi e / 2 ^ 52"
      using power_int_diff[of "2 :: rat" e 52] by simp
    have "x / 2 powi (e - 52) \<le> of_int n / 2 powi (e - 52) - of_int n / 2 ^ 53 / 2 powi (e - 52)"
      using divide_right_mono[OF x, of "2 powi (e - 52)"] by (simp add: diff_divide_distrib)
    moreover have "1 / 2 < of_int n / 2 ^ 53 / (2 :: rat) powi (e - 52)"
      using False xn p powi_2_pos[of e] by (simp add: field_simps)
    ultimately have "x / 2 powi (e - 52) + 1 / 2 < of_int n / 2 powi (e - 52)" by linarith
    then have "of_int (round_half_even (x / 2 powi (e - 52))) < of_int n / (2 :: rat) powi (e - 52)"
      using round_half_even_near[of "x / 2 powi (e - 52)"] by linarith
    then have "of_int (round_half_even (x / 2 powi (e - 52))) * (2 :: rat) powi (e - 52) < of_int n"
      using powi_2_pos[of "e - 52"] by (simp add: pos_less_divide_eq)
    then show "fl x < of_int n" using pos by (simp add: fl_def fl_pos_def u)
  qed
qed

definition unit_draw_value :: "py_float \<Rightarrow> bool" where
  "unit_draw_value v \<longleftrightarrow> (\<exists>k \<in> {0..<2 ^ 53}. v = of_int k / 2 ^ 53)"

lemma capacity_target_bounds:
  assumes "unit_draw_value v" and "sb_capacity_min_points s \<le> sb_capacity_max_points s"
    and "sb_capacity_max_points s - sb_capacity_min_points s < 2 ^ 53"
  shows "sb_capacity_min_points s \<le> capacity_target s v \<and> capacity_target s v \<le> sb_capacity_max_points s"
proof -
  define n where "n = sb_capacity_max_points s - sb_capacity_min_points s + 1"
  have n: "0 < n" "n \<le> 2 ^ 53" using assms(2,3) by (simp_all add: n_def)
  obtain k where k: "0 \<le> k" "k < 2 ^ 53" "v = of_int k / 2 ^ 53"
    using assms(1) by (auto simp: unit_draw_value_def)
  have f: "f_of_int n = of_int n" using n by (simp add: f_of_int_def fl_of_int)
  have "0 \<le> f_mul v (f_of_int n)" using n k unfolding f by (intro f_mul_nonneg) simp_all
  moreover have "f_mul v (f_of_int n) < of_int n"
    using fl_unit_product_less[OF k(1,2) n] unfolding f_mul_def f k(3) .
  ultimately have "0 \<le> py_trunc (f_mul v (f_of_int n))" "py_trunc (f_mul v (f_of_int n)) < n"
    by (simp_all add: py_trunc_def floor_less_iff)
  then show ?thesis by (simp add: capacity_target_def n_def)
qed

lemma take_scope_prefix:
  "\<exists>n \<le> length ws. take_scope m c u ws = take n ws \<and>
     (\<forall>k < n. u + sum_list (map wi_story_points (take k ws)) < m \<or>
        u + sum_list (map wi_story_points (take (Suc k) ws)) \<le> c) \<and>
     (n < length ws \<longrightarrow> m \<le> u + sum_list (map wi_story_points (take n ws)) \<and>
        c < u + sum_list (map wi_story_points (take (Suc n) ws)))"
proof (induction ws arbitrary: u)
  case Nil
  show ?case by simp
next
  case (Cons w ws)
  show ?case
  proof (cases "m \<le> u \<and> c < u + wi_story_points w")
    case True
    then show ?thesis by (intro exI[of _ 0]) simp
  next
    case False
    obtain n where n: "n \<le> length ws" "take_scope m c (u + wi_story_points w) ws = take n ws"
      "\<forall>k < n. u + wi_story_points w + sum_list (map wi_story_points (take k ws)) < m \<or>
         u + wi_story_points w + sum_list (map wi_story_points (take (Suc k) ws)) \<le> c"
      "n < length ws \<longrightarrow> m \<le> u + wi_story_points w + sum_list (map wi_story_points (take n ws)) \<and>
         c < u + wi_story_points w + sum_list (map wi_story_points (take (Suc n) ws))"
      using Cons.IH[of "u + wi_story_points w"] by blast
    have "u + sum_list (map wi_story_points (take k (w # ws))) < m \<or>
        u + sum_list (map wi_story_points (take (Suc k) (w # ws))) \<le> c" if "k < Suc n" for k
      using that n(3) False by (cases k) (auto simp: add.assoc)
    with n False show ?thesis
      by (intro exI[of _ "Suc n"]) (simp add: add.assoc)
  qed
qed

lemma ranked_work_sorted:
  assumes "ranked_work items = Inr ordered"
  shows "mset ordered = mset items" "sorted (map (rank_sort_key \<circ> simulator_rank) ordered)"
proof -
  obtain keyed where k: "mapR (\<lambda>w. bindR (check_rank (simulator_rank w)) (\<lambda>_. Inr (rank_sort_key (simulator_rank w), w)))
      items = Inr keyed" and o: "ordered = map snd (sort_key fst keyed)"
    using assms by (auto simp: ranked_work_def elim!: bindR_InrE)
  have keyed: "keyed = map (\<lambda>w. (rank_sort_key (simulator_rank w), w)) items"
    using k by (induction items arbitrary: keyed) (auto elim!: bindR_InrE)
  then show "mset ordered = mset items"
    by (simp add: o multiset.map_comp comp_def)
  have "\<forall>p \<in> set (sort_key fst keyed). (rank_sort_key \<circ> simulator_rank) (snd p) = fst p"
    by (auto simp: keyed)
  then have "map (rank_sort_key \<circ> simulator_rank) ordered = map fst (sort_key fst keyed)"
    by (simp add: o)
  then show "sorted (map (rank_sort_key \<circ> simulator_rank) ordered)" by simp
qed

text \<open>The work selected for a sprint is the front of the ranked backlog. The drawn capacity lies within
  the bounds of the blueprint in spite of the rounding of floats; items are taken while the points
  are below the minimum or still fit into the capacity, and the first item left out would exceed it.\<close>

theorem selected_scope_greedy:
  assumes "selected_scope_ids a sprint_id items draws = Inr ids"
    and "drawn draws sprint_id SCRUM_CAPACITY_TARGET = Inr draw" and "unit_draw_value (ud_unit_value draw)"
    and "validate_scrum (bp_scrum (pa_blueprint a)) = Inr ()"
    and "sb_capacity_max_points (bp_scrum (pa_blueprint a)) < 2 ^ 53"
  shows "\<exists>ordered capacity n. mset ordered = mset items \<and>
      sorted (map (rank_sort_key \<circ> simulator_rank) ordered) \<and> n \<le> length ordered \<and>
      ids = map wi_id (take n ordered) \<and>
      capacity = capacity_target (bp_scrum (pa_blueprint a)) (ud_unit_value draw) \<and>
      sb_capacity_min_points (bp_scrum (pa_blueprint a)) \<le> capacity \<and>
      capacity \<le> sb_capacity_max_points (bp_scrum (pa_blueprint a)) \<and>
      (\<forall>k < n. sum_list (map wi_story_points (take k ordered)) < sb_capacity_min_points (bp_scrum (pa_blueprint a)) \<or>
         sum_list (map wi_story_points (take (Suc k) ordered)) \<le> capacity) \<and>
      (n < length ordered \<longrightarrow> capacity < sum_list (map wi_story_points (take (Suc n) ordered)))"
proof -
  let ?s = "bp_scrum (pa_blueprint a)"
  obtain ordered where o: "ranked_work items = Inr ordered"
    "ids = map wi_id (take_scope (sb_capacity_min_points ?s) (capacity_target ?s (ud_unit_value draw)) 0 ordered)"
    using assms(1,2) by (auto simp: selected_scope_ids_def Let_def elim!: bindR_InrE)
  have "0 \<le> sb_capacity_min_points ?s \<and> sb_capacity_min_points ?s \<le> sb_capacity_max_points ?s"
    using assms(4) by (auto simp: validate_scrum_def field_constraint_def bindR_check guardR_eq_Inr)
  then have "sb_capacity_min_points ?s \<le> capacity_target ?s (ud_unit_value draw) \<and>
      capacity_target ?s (ud_unit_value draw) \<le> sb_capacity_max_points ?s"
    using assms(5) by (intro capacity_target_bounds assms(3)) auto
  moreover obtain n where "n \<le> length ordered"
    "take_scope (sb_capacity_min_points ?s) (capacity_target ?s (ud_unit_value draw)) 0 ordered = take n ordered"
    "\<forall>k < n. sum_list (map wi_story_points (take k ordered)) < sb_capacity_min_points ?s \<or>
       sum_list (map wi_story_points (take (Suc k) ordered)) \<le> capacity_target ?s (ud_unit_value draw)"
    "n < length ordered \<longrightarrow> capacity_target ?s (ud_unit_value draw) < sum_list (map wi_story_points (take (Suc n) ordered))"
    using take_scope_prefix[of ordered "sb_capacity_min_points ?s" "capacity_target ?s (ud_unit_value draw)" 0] by auto
  ultimately show ?thesis
    using o(2) ranked_work_sorted[OF o(1)] by (intro exI[of _ ordered] exI[of _ n] exI conjI) auto
qed

section \<open>The first state is complete\<close>

lemma built_InrD: "built check x = Inr y \<Longrightarrow> y = x"
  by (simp add: built_Inr)

lemma member_for_activity_in: "member_for_activity b activity members = Inr i \<Longrightarrow> i \<in> mi_id ` set members"
  by (induction members) (auto elim!: bindR_InrE split: if_splits)

lemma timed_visit_parts:
  assumes "timed_visit cd a t members w step draws = Inr v"
  shows "sv_work_item_id v = wi_id w" "sv_member_id v \<in> Some ` mi_id ` set members" "sv_lifecycle v = SV_OPEN"
  using assms
  by (auto simp: timed_visit_def dest!: built_InrD member_for_activity_in elim!: bindR_InrE split: option.splits)

lemma activate_item_parts:
  assumes "activate_item env a t members draws w = Inr (w', r)"
  shows "wi_id w' = wi_id w"
    and "r = None \<Longrightarrow> wi_lifecycle w' = WI_DONE"
    and "r = Some (v, s) \<Longrightarrow> wi_lifecycle w' = WI_ACTIVE \<and> sv_work_item_id v = wi_id w \<and> vs_visit_id s = sv_id v \<and>
      sv_member_id v \<in> Some ` mi_id ` set members"
proof -
  obtain route :: WorkflowRoute and timed where t: "first_timed_step (pa_blueprint a) (ro_steps route) = Inr timed"
    "(case timed of
          None \<Rightarrow>
            bindR (py_index (ro_steps route) (- 1)) (\<lambda>terminal.
            bindR (active_item (en_codec env) w (rp_status_key terminal) WI_DONE t) (\<lambda>w'. Inr (w', None)))
        | Some step \<Rightarrow>
            bindR (active_item (en_codec env) w (rp_status_key step) WI_ACTIVE t) (\<lambda>w'.
            bindR (timed_visit (en_codec env) a t members w' step draws) (\<lambda>v.
            bindR (status_sample env (pa_blueprint a) w' v draws) (\<lambda>s. Inr (w', Some (v, s)))))) = Inr (w', r)"
    using assms unfolding activate_item_def Let_def by (elim bindR_InrE) (rule that; assumption)
  have i: "wi_id w' = wi_id w \<and> (r = None \<longrightarrow> wi_lifecycle w' = WI_DONE) \<and> (r \<noteq> None \<longrightarrow> wi_lifecycle w' = WI_ACTIVE)"
    using t(2) by (auto simp: active_item_def dest!: built_InrD elim!: bindR_InrE split: option.splits)
  then show "wi_id w' = wi_id w" and "r = None \<Longrightarrow> wi_lifecycle w' = WI_DONE" by simp_all
  assume r: "r = Some (v, s)"
  then obtain step where v: "timed_visit (en_codec env) a t members w' step draws = Inr v"
    and s: "status_sample env (pa_blueprint a) w' v draws = Inr s"
    using t(2) by (auto elim!: bindR_InrE split: option.splits)
  have "vs_visit_id s = sv_id v"
    using s by (auto simp: status_sample_def elim!: bindR_InrE created_sample_parts)
  then show "wi_lifecycle w' = WI_ACTIVE \<and> sv_work_item_id v = wi_id w \<and> vs_visit_id s = sv_id v \<and>
      sv_member_id v \<in> Some ` mi_id ` set members"
    using i r timed_visit_parts[OF v] by simp
qed

text \<open>What activation does to one item, and to the list of items.\<close>

definition activated :: "uuid set \<Rightarrow> uuid list \<Rightarrow> WorkItemState \<Rightarrow>
    WorkItemState \<times> (StatusVisitState \<times> StatusVisitSample) option \<Rightarrow> bool" where
  "activated members selected w r \<longleftrightarrow>
     wi_id (fst r) = wi_id w \<and>
     (wi_id w \<notin> set selected \<longrightarrow> r = (w, None)) \<and>
     (wi_id w \<in> set selected \<longrightarrow> wi_lifecycle (fst r) = (if snd r = None then WI_DONE else WI_ACTIVE)) \<and>
     (\<forall>v s. snd r = Some (v, s) \<longrightarrow>
        sv_work_item_id v = wi_id w \<and> vs_visit_id s = sv_id v \<and> sv_member_id v \<in> Some ` members)"

lemma activatedD:
  assumes "activated members selected w r"
  shows "wi_id (fst r) = wi_id w" and "wi_id w \<notin> set selected \<Longrightarrow> r = (w, None)"
    and "wi_id w \<in> set selected \<Longrightarrow> wi_lifecycle (fst r) = (if snd r = None then WI_DONE else WI_ACTIVE)"
    and "snd r = Some (v, s) \<Longrightarrow> sv_work_item_id v = wi_id w"
    and "snd r = Some (v, s) \<Longrightarrow> vs_visit_id s = sv_id v"
    and "snd r = Some (v, s) \<Longrightarrow> sv_member_id v \<in> Some ` members"
  using assms unfolding activated_def by blast+

lemma activate_selected_activated:
  assumes "activate_selected env a t members selected draws w = Inr r"
  shows "activated (mi_id ` set members) selected w r"
proof (cases "wi_id w \<in> set selected")
  case True
  then have "activate_item env a t members draws w = Inr (fst r, snd r)"
    using assms by (simp add: activate_selected_def)
  note parts = activate_item_parts[OF this]
  show ?thesis unfolding activated_def
  proof (intro conjI impI allI)
    show "wi_lifecycle (fst r) = (if snd r = None then WI_DONE else WI_ACTIVE)"
      using parts(2,3) by (cases "snd r") auto
  qed (use parts True in blast)+
next
  case False
  then have "r = (w, None)" using assms by (simp add: activate_selected_def)
  then show ?thesis using False by (simp add: activated_def)
qed

lemma activate_selected_work_parts:
  assumes "activate_selected_work env a t members items selected draws = Inr (work, visits, samples)"
  obtains results where "list_all2 (activated (mi_id ` set members) selected) items results"
    "work = map fst results" "visits = map fst (List.map_filter snd results)"
    "samples = map snd (List.map_filter snd results)"
proof -
  obtain results where r: "mapR (activate_selected env a t members selected draws) items = Inr results"
    "work = map fst results" "visits = map fst (List.map_filter snd results)"
    "samples = map snd (List.map_filter snd results)"
    using assms by (auto simp: activate_selected_work_def Let_def elim!: bindR_InrE)
  have "list_all2 (activated (mi_id ` set members) selected) items results"
    using r(1) unfolding mapR_eq_Inr_iff by (rule list_all2_mono) (rule activate_selected_activated)
  then show thesis using r(2-4) that by blast
qed

lemma activated_list:
  assumes "list_all2 (activated members selected) items results"
  shows "map (wi_id \<circ> fst) results = map wi_id items"
    and "\<forall>r \<in> set results. \<exists>w \<in> set items. activated members selected w r"
proof -
  show "map (wi_id \<circ> fst) results = map wi_id items"
    using assms by (induction rule: list_all2_induct) (simp_all add: activatedD(1))
  show "\<forall>r \<in> set results. \<exists>w \<in> set items. activated members selected w r"
    using assms by (induction rule: list_all2_induct) auto
qed

lemma activated_entered:
  assumes "list_all2 (activated members selected) items results" and "(v, s) \<in> set (List.map_filter snd results)"
  obtains w r where "w \<in> set items" "r \<in> set results" "activated members selected w r" "snd r = Some (v, s)"
    "sv_work_item_id v = wi_id (fst r)" "vs_visit_id s = sv_id v" "sv_member_id v \<in> Some ` members"
proof -
  obtain r where r: "r \<in> set results" "snd r = Some (v, s)"
    using assms(2) by (auto simp: map_filter_def)
  obtain w where w: "w \<in> set items" "activated members selected w r"
    using r(1) activated_list(2)[OF assms(1)] by blast
  show thesis
    by (rule that[OF w(1) r(1) w(2) r(2)]) (simp_all only: activatedD(1)[OF w(2)] activatedD(4-6)[OF w(2) r(2)])
qed

text \<open>The first visit of an item: open, not yet worked on, and given to the first member who may do its activity.\<close>

definition holds_activity :: "ResolvedTeamBlueprint \<Rightarrow> string \<Rightarrow> MemberIdentity \<Rightarrow> bool" where
  "holds_activity b activity i \<longleftrightarrow>
     (\<exists>m. py_index (bp_members b) (mi_blueprint_index i) = Inr m \<and> activity \<in> rs_activity ` set (mb_responsibilities m))"

definition first_visit ::
  "codec \<Rightarrow> ResolvedTeamBlueprint \<Rightarrow> instant \<Rightarrow> MemberIdentity list \<Rightarrow> WorkItemState \<Rightarrow> StatusVisitState \<Rightarrow> bool" where
  "first_visit cd b t members w v \<longleftrightarrow>
     visit_rng_id cd (wi_id w) 0 = Inr (sv_id v) \<and> sv_work_item_id v = wi_id w \<and> sv_ordinal v = 0 \<and> sv_lifecycle v = SV_OPEN \<and>
     sv_status_key v = wi_current_status_key w \<and> sv_entered_at v = t \<and> sv_closed_at v = None \<and>
     sv_elapsed v = 0 \<and> sv_remaining v = sv_required v \<and> sv_credited v = 0 \<and>
     (\<exists>activity k. sv_activity_key v = Some activity \<and> k < length members \<and> sv_member_id v = Some (mi_id (members ! k)) \<and>
        holds_activity b activity (members ! k) \<and> (\<forall>j < k. \<not> holds_activity b activity (members ! j)))"

definition created_as :: "WorkItemState \<Rightarrow> uuid \<times> CreationKind \<times> int" where
  "created_as w = (wi_id w, wi_creation_kind w, wi_creation_sequence w)"

lemma member_for_activity_first:
  "member_for_activity b activity members = Inr m \<Longrightarrow>
     \<exists>k < length members. m = mi_id (members ! k) \<and> holds_activity b activity (members ! k) \<and>
       (\<forall>j < k. \<not> holds_activity b activity (members ! j))"
proof (induction members)
  case (Cons i rest)
  obtain x where x: "py_index (bp_members b) (mi_blueprint_index i) = Inr x" using Cons.prems by (auto elim!: bindR_InrE)
  show ?case
  proof (cases "activity \<in> rs_activity ` set (mb_responsibilities x)")
    case True
    then show ?thesis using Cons.prems x by (intro exI[of _ 0]) (auto simp: holds_activity_def)
  next
    case False
    then have "member_for_activity b activity rest = Inr m" "\<not> holds_activity b activity i"
      using Cons.prems x by (auto simp: holds_activity_def)
    from Cons.IH[OF this(1)] obtain k where "k < length rest" "m = mi_id (rest ! k)" "holds_activity b activity (rest ! k)"
      "\<forall>j < k. \<not> holds_activity b activity (rest ! j)" by blast
    then show ?thesis using \<open>\<not> holds_activity b activity i\<close>
      by (intro exI[of _ "Suc k"]) (auto simp: nth_Cons' less_Suc_eq_0_disj)
  qed
qed simp

lemma timed_visit_first:
  assumes "timed_visit cd a t members w step draws = Inr v" and "wi_current_status_key w = rp_status_key step"
  shows "first_visit cd (pa_blueprint a) t members w v"
proof -
  obtain i activity m required where "visit_rng_id cd (wi_id w) 0 = Inr i" "rp_required_activity step = Some activity"
    "member_for_activity (pa_blueprint a) activity members = Inr m"
    "v = \<lparr>sv_id = i, sv_team_id = wi_team_id w, sv_run_id = wi_run_id w, sv_work_item_id = wi_id w,
          sv_ordinal = 0, sv_lifecycle = SV_OPEN, sv_status_key = rp_status_key step,
          sv_activity_key = rp_required_activity step, sv_member_id = Some m, sv_entered_at = t,
          sv_closed_at = None, sv_required = required, sv_elapsed = 0, sv_remaining = required, sv_queue = 0,
          sv_pause = 0, sv_credited = 0\<rparr>"
    using assms(1) by (auto simp: timed_visit_def dest!: built_InrD elim!: bindR_InrE split: option.splits)
  then show ?thesis using assms(2) member_for_activity_first by (fastforce simp: first_visit_def)
qed

lemma activate_selected_first:
  assumes "activate_selected env a t members selected draws w = Inr r"
  shows "created_as (fst r) = created_as w"
    "snd r = Some (v, s) \<Longrightarrow> wi_lifecycle (fst r) = WI_ACTIVE \<and> first_visit (en_codec env) (pa_blueprint a) t members (fst r) v"
proof -
  have "created_as (fst r) = created_as w \<and> (\<forall>v s. snd r = Some (v, s) \<longrightarrow>
      wi_lifecycle (fst r) = WI_ACTIVE \<and> first_visit (en_codec env) (pa_blueprint a) t members (fst r) v)"
  proof (cases "wi_id w \<in> set selected")
    case True
    then have i: "activate_item env a t members draws w = Inr r" using assms by (simp add: activate_selected_def)
    obtain route :: WorkflowRoute and timed where x: "first_timed_step (pa_blueprint a) (ro_steps route) = Inr timed"
      "(case timed of
          None \<Rightarrow>
            bindR (py_index (ro_steps route) (- 1)) (\<lambda>terminal.
            bindR (active_item (en_codec env) w (rp_status_key terminal) WI_DONE t) (\<lambda>w'. Inr (w', None)))
        | Some step \<Rightarrow>
            bindR (active_item (en_codec env) w (rp_status_key step) WI_ACTIVE t) (\<lambda>w'.
            bindR (timed_visit (en_codec env) a t members w' step draws) (\<lambda>v.
            bindR (status_sample env (pa_blueprint a) w' v draws) (\<lambda>s. Inr (w', Some (v, s)))))) = Inr r"
      using i unfolding activate_item_def Let_def by (elim bindR_InrE) (rule that; assumption)
    show ?thesis
    proof (cases timed)
      case None
      then show ?thesis using x(2) by (auto simp: active_item_def created_as_def elim!: bindR_InrE dest!: built_InrD)
    next
      case (Some step)
      then obtain w' v s where "active_item (en_codec env) w (rp_status_key step) WI_ACTIVE t = Inr w'"
        "timed_visit (en_codec env) a t members w' step draws = Inr v" "r = (w', Some (v, s))"
        using x(2) by (auto elim!: bindR_InrE)
      then show ?thesis using timed_visit_first[of "en_codec env" a t members w' step draws v]
        by (auto simp: active_item_def created_as_def dest!: built_InrD)
    qed
  next
    case False
    then show ?thesis using assms by (auto simp: activate_selected_def)
  qed
  then show "created_as (fst r) = created_as w"
    "snd r = Some (v, s) \<Longrightarrow> wi_lifecycle (fst r) = WI_ACTIVE \<and> first_visit (en_codec env) (pa_blueprint a) t members (fst r) v"
    by blast+
qed

lemma mapR_from: "mapR f xs = Inr ys \<Longrightarrow> y \<in> set ys \<Longrightarrow> \<exists>x \<in> set xs. f x = Inr y"
proof (induction xs arbitrary: ys)
  case (Cons x xs)
  then obtain z zs where "f x = Inr z" "mapR f xs = Inr zs" "ys = z # zs" by (auto elim!: bindR_InrE)
  then show ?case using Cons by auto
qed simp

lemma activate_selected_work_first:
  assumes "activate_selected_work env a t members items selected draws = Inr (work, visits, samples)"
  shows "map created_as work = map created_as items"
    "v \<in> set visits \<Longrightarrow> \<exists>w \<in> set work. wi_lifecycle w = WI_ACTIVE \<and> first_visit (en_codec env) (pa_blueprint a) t members w v"
proof -
  obtain results where r: "mapR (activate_selected env a t members selected draws) items = Inr results"
    "work = map fst results" "visits = map fst (List.map_filter snd results)"
    using assms by (auto simp: activate_selected_work_def Let_def elim!: bindR_InrE)
  have "list_all2 (\<lambda>w r. created_as (fst r) = created_as w) items results"
    using r(1) unfolding mapR_eq_Inr_iff by (rule list_all2_mono) (rule activate_selected_first(1))
  then show "map created_as work = map created_as items"
    unfolding r(2) by (induction rule: list_all2_induct) simp_all
  assume "v \<in> set visits"
  then obtain q s where q: "q \<in> set results" "snd q = Some (v, s)" unfolding r(3) by (force simp: map_filter_def)
  obtain w where "activate_selected env a t members selected draws w = Inr q" using mapR_from[OF r(1) q(1)] by blast
  from activate_selected_first(2)[OF this q(2)] q(1)
  show "\<exists>w \<in> set work. wi_lifecycle w = WI_ACTIVE \<and> first_visit (en_codec env) (pa_blueprint a) t members w v"
    unfolding r(2) by auto
qed

lemma new_counter_parts:
  "new_counter a kind i key n = Inr k \<Longrightarrow> cs_kind (sn_scope k) = kind \<and> cs_scope_id (sn_scope k) = i \<and> cs_scope_key (sn_scope k) = key"
  by (auto simp: new_counter_def dest!: built_InrD elim!: bindR_InrE)

lemma natural_counters_from:
  assumes "natural_counters a ids dt = Inr ks" and "k \<in> set ks"
  shows "cs_kind (sn_scope k) = NATURAL_DECISION_OCCURRENCE \<and> cs_scope_key (sn_scope k) = decision_value dt \<and>
    cs_scope_id (sn_scope k) \<in> set ids"
  using mapR_from[OF assms(1)[unfolded natural_counters_def] assms(2)] by (auto dest!: new_counter_parts)

definition counter_owned :: "uuid set \<Rightarrow> uuid set \<Rightarrow> SemanticCounter \<Rightarrow> bool" where
  "counter_owned works members k \<longleftrightarrow>
     (case cs_kind (sn_scope k) of
        VISIT_ORDINAL \<Rightarrow> cs_scope_id (sn_scope k) \<in> works
      | NATURAL_DECISION_OCCURRENCE \<Rightarrow>
          cs_scope_key (sn_scope k) = decision_value RISK_CANCELLATION_OUTCOME \<and> cs_scope_id (sn_scope k) \<in> works \<or>
          cs_scope_key (sn_scope k) = decision_value RISK_MEMBER_UNAVAILABLE_OUTCOME \<and> cs_scope_id (sn_scope k) \<in> members
      | _ \<Rightarrow> True)"

lemma initial_counters_owned:
  assumes "initial_counters cd a items visits = Inr counters" and "member_identities cd a = Inr members"
    and "k \<in> set counters"
  shows "counter_owned (wi_id ` set items) (mi_id ` set members) k"
proof -
  obtain vs ws ms where c: "visit_counters a items visits = Inr vs"
    "natural_counters a (map wi_id items) RISK_CANCELLATION_OUTCOME = Inr ws"
    "natural_counters a (map mi_id members) RISK_MEMBER_UNAVAILABLE_OUTCOME = Inr ms" "counters = vs @ ws @ ms"
    using assms(1,2) by (auto simp: initial_counters_def elim!: bindR_InrE)
  consider "k \<in> set vs" | "k \<in> set ws" | "k \<in> set ms" using assms(3) c(4) by auto
  then show ?thesis
  proof cases
    case 1
    then obtain w n where "w \<in> set items" "new_counter a VISIT_ORDINAL (wi_id w) ''VISIT'' n = Inr k"
      using mapR_from[OF c(1)[unfolded visit_counters_def Let_def]] by blast
    then show ?thesis using new_counter_parts by (fastforce simp: counter_owned_def)
  next
    case 2
    then show ?thesis using natural_counters_from[OF c(2)] by (simp add: counter_owned_def)
  next
    case 3
    then show ?thesis using natural_counters_from[OF c(3)] by (simp add: counter_owned_def)
  qed
qed

lemma natural_owner_ok:
  "i \<in> works \<Longrightarrow> validate_natural_owner (decision_value RISK_CANCELLATION_OUTCOME) i works members = Inr ()"
  "i \<in> members \<Longrightarrow> validate_natural_owner (decision_value RISK_MEMBER_UNAVAILABLE_OUTCOME) i works members = Inr ()"
proof -
  have "filter (\<lambda>d. decision_value d = decision_value RISK_CANCELLATION_OUTCOME) ALL_DECISIONS = [RISK_CANCELLATION_OUTCOME]"
    "filter (\<lambda>d. decision_value d = decision_value RISK_MEMBER_UNAVAILABLE_OUTCOME) ALL_DECISIONS =
      [RISK_MEMBER_UNAVAILABLE_OUTCOME]"
    by (simp_all add: ALL_DECISIONS_def)
  then show "i \<in> works \<Longrightarrow> validate_natural_owner (decision_value RISK_CANCELLATION_OUTCOME) i works members = Inr ()"
    "i \<in> members \<Longrightarrow> validate_natural_owner (decision_value RISK_MEMBER_UNAVAILABLE_OUTCOME) i works members = Inr ()"
    unfolding validate_natural_owner_def by (simp_all add: NATURAL_OWNER_DECISIONS_def del: decision_value.simps)
qed

lemma owned_counter_valid:
  assumes "counter_owned works members k"
  shows "\<not> (cs_kind (sn_scope k) = VISIT_ORDINAL \<and> cs_scope_id (sn_scope k) \<notin> works)"
    and "cs_kind (sn_scope k) = NATURAL_DECISION_OCCURRENCE \<Longrightarrow>
      validate_natural_owner (cs_scope_key (sn_scope k)) (cs_scope_id (sn_scope k)) works members = Inr ()"
proof -
  show "\<not> (cs_kind (sn_scope k) = VISIT_ORDINAL \<and> cs_scope_id (sn_scope k) \<notin> works)"
    using assms by (auto simp: counter_owned_def)
  assume "cs_kind (sn_scope k) = NATURAL_DECISION_OCCURRENCE"
  then consider "cs_scope_key (sn_scope k) = decision_value RISK_CANCELLATION_OUTCOME" "cs_scope_id (sn_scope k) \<in> works"
    | "cs_scope_key (sn_scope k) = decision_value RISK_MEMBER_UNAVAILABLE_OUTCOME" "cs_scope_id (sn_scope k) \<in> members"
    using assms unfolding counter_owned_def by fastforce
  then show "validate_natural_owner (cs_scope_key (sn_scope k)) (cs_scope_id (sn_scope k)) works members = Inr ()"
    by cases (simp_all only: natural_owner_ok)
qed

lemma require_reference_dict_of:
  "i \<in> key ` set xs \<Longrightarrow> require_reference i (dict_of key xs) label = Inr ()"
  using dict_of_None[of key xs i] by (simp add: require_reference_def)

lemma snapshot_of_write_set:
  assumes "write_set env st = Inr st'"
    and "st_overlays st = []" "st_consumption st = []" "st_factors st = []" "st_evaluations st = []"
    and "\<forall>v \<in> set (st_visits st). sv_member_id v \<in> Some ` mi_id ` set (st_member_identities st) \<and>
      sv_work_item_id v \<in> wi_id ` set (st_work_items st)"
    and "\<forall>e \<in> set (st_scope st). sc_work_item_id e \<in> wi_id ` set (st_work_items st) \<and> sc_sprint_id e \<in> ss_id ` set (st_sprints st)"
    and "map sv_id (st_visits st) = map vs_visit_id (st_samples st)"
    and "\<forall>k \<in> set (st_counters st). counter_owned (wi_id ` set (st_work_items st)) (mi_id ` set (st_member_identities st)) k"
  shows "snapshot env st = Inr st \<and> st' = st"
proof -
  have v: "validate_state env st = Inr ()" "st' = st" using assms(1) by (auto simp: write_set_def bindR_check)
  have "validate_member_references st = Inr ()"
  proof -
    have "(case sv_member_id v of None \<Rightarrow> Inr ()
        | Some m \<Rightarrow> require_reference m (dict_of mi_id (st_member_identities st)) ''visit member'') = Inr ()"
      if v: "v \<in> set (st_visits st)" for v
    proof -
      obtain m where m: "sv_member_id v = Some m" "m \<in> mi_id ` set (st_member_identities st)"
        using bspec[OF assms(6) v] by auto
      show ?thesis unfolding m(1) option.case(2) by (rule require_reference_dict_of[OF m(2)])
    qed
    then show ?thesis using assms(2,3) by (simp add: validate_member_references_def forR_eq_Inr)
  qed
  moreover have "validate_work_references st = Inr ()"
  proof -
    have "\<forall>s \<in> set (st_samples st). vs_visit_id s \<in> sv_id ` set (st_visits st)"
      using arg_cong[OF assms(8), of set] by auto
    moreover have "\<forall>v \<in> set (st_visits st). sv_work_item_id v \<in> wi_id ` set (st_work_items st)" using assms(6) by blast
    ultimately show ?thesis using assms(7)
      unfolding validate_work_references_def Let_def bindR_check forR_eq_Inr assms(4)
      by (intro conjI ballI require_reference_dict_of) simp_all
  qed
  moreover have "validate_counter_references st = Inr ()"
    using owned_counter_valid[OF bspec[OF assms(9)]]
    by (auto simp: validate_counter_references_def assms(5) forR_eq_Inr bindR_check guardR_eq_Inr Let_def)
  moreover have "validate_sample_cardinality st = Inr ()"
    by (simp only: validate_sample_cardinality_def assms(8) guardR_eq_Inr)
  ultimately show ?thesis
    using v validate_state_parts(6)[OF v(1)] by (simp add: snapshot_def validate_snapshot_def)
qed

lemma ranked_backlog_waiting:
  assumes "ranked_backlog cd a t draws = Inr items" and "w \<in> set items"
  shows "wi_lifecycle w = WI_BACKLOG"
proof -
  obtain n where "backlog_item cd a t draws n = Inr w"
    using mapR_from[OF assms(1)[unfolded ranked_backlog_def] assms(2)] by blast
  then show ?thesis
    unfolding backlog_item_def Let_def by (elim bindR_InrE) (drule built_InrD, simp)
qed

text \<open>The backlog holds one item for every sequence number, under its identifier, and the team an identity for
  every member of the blueprint.\<close>

definition whole_backlog :: "codec \<Rightarrow> PersistedTeamAggregate \<Rightarrow> WorkItemState list \<Rightarrow> bool" where
  "whole_backlog cd a items \<longleftrightarrow>
     map wi_creation_sequence items = map int [0..<nat (bl_target_depth (bp_backlog (pa_blueprint a)))] \<and>
     (\<forall>w \<in> set items. wi_creation_kind w = INITIAL_BACKLOG \<and>
        item_rng_id cd (vt_id (pa_team a)) INITIAL_BACKLOG (wi_creation_sequence w) = Inr (wi_id w))"

definition whole_team :: "codec \<Rightarrow> PersistedTeamAggregate \<Rightarrow> MemberIdentity list \<Rightarrow> bool" where
  "whole_team cd a members \<longleftrightarrow>
     map mi_blueprint_index members = map int [0..<length (bp_members (pa_blueprint a))] \<and>
     (\<forall>i \<in> set members. member_rng_id cd (vt_id (pa_team a)) (mi_blueprint_index i) = Inr (mi_id i))"

lemma whole_backlog_as:
  assumes "whole_backlog cd a items" and "map created_as work = map created_as items"
  shows "whole_backlog cd a work"
proof -
  have s: "map wi_creation_sequence work = map wi_creation_sequence items"
    using arg_cong[OF assms(2), of "map (snd \<circ> snd)"] by (simp add: created_as_def comp_def)
  have "created_as ` set work = created_as ` set items" using arg_cong[OF assms(2), of set] by simp
  then have "\<exists>u \<in> set items. created_as w = created_as u" if "w \<in> set work" for w using that by (metis image_iff)
  then show ?thesis using assms(1) s by (fastforce simp: whole_backlog_def created_as_def)
qed

lemma ranked_backlog_whole:
  assumes "ranked_backlog cd a t draws = Inr items"
  shows "whole_backlog cd a items"
proof -
  have one: "wi_creation_sequence w = n \<and> wi_creation_kind w = INITIAL_BACKLOG \<and>
      item_rng_id cd (vt_id (pa_team a)) INITIAL_BACKLOG n = Inr (wi_id w)" if "backlog_item cd a t draws n = Inr w" for n w
    using that unfolding backlog_item_def Let_def by (elim bindR_InrE) (drule built_InrD, simp)
  have "list_all2 (\<lambda>n w. wi_creation_sequence w = n \<and> wi_creation_kind w = INITIAL_BACKLOG \<and>
      item_rng_id cd (vt_id (pa_team a)) INITIAL_BACKLOG n = Inr (wi_id w))
      (map int [0..<nat (bl_target_depth (bp_backlog (pa_blueprint a)))]) items"
    using assms unfolding ranked_backlog_def mapR_eq_Inr_iff by (rule list_all2_mono) (rule one)
  then have "map wi_creation_sequence items = map int [0..<nat (bl_target_depth (bp_backlog (pa_blueprint a)))] \<and>
      (\<forall>w \<in> set items. wi_creation_kind w = INITIAL_BACKLOG \<and>
        item_rng_id cd (vt_id (pa_team a)) INITIAL_BACKLOG (wi_creation_sequence w) = Inr (wi_id w))"
    by (induction rule: list_all2_induct) auto
  then show ?thesis by (simp add: whole_backlog_def)
qed

lemma member_identities_whole:
  assumes "member_identities cd a = Inr members"
  shows "whole_team cd a members"
proof -
  have one: "mi_blueprint_index i = n \<and> member_rng_id cd (vt_id (pa_team a)) n = Inr (mi_id i)"
    if "bindR (member_rng_id cd (vt_id (pa_team a)) n) (\<lambda>i.
             built (check_member_identity cd) \<lparr>mi_id = i, mi_team_id = vt_id (pa_team a), mi_blueprint_index = n\<rparr>) = Inr i" for n i
    using that by (auto elim!: bindR_InrE dest!: built_InrD)
  have "list_all2 (\<lambda>n i. mi_blueprint_index i = n \<and> member_rng_id cd (vt_id (pa_team a)) n = Inr (mi_id i))
      (map int [0..<length (bp_members (pa_blueprint a))]) members"
    using assms unfolding member_identities_def mapR_eq_Inr_iff by (rule list_all2_mono) (rule one)
  then have "map mi_blueprint_index members = map int [0..<length (bp_members (pa_blueprint a))] \<and>
      (\<forall>i \<in> set members. member_rng_id cd (vt_id (pa_team a)) (mi_blueprint_index i) = Inr (mi_id i))"
    by (induction rule: list_all2_induct) auto
  then show ?thesis by (simp add: whole_team_def)
qed

lemma selected_scope_from_items:
  assumes "selected_scope_ids a sprint_id items draws = Inr ids"
  shows "set ids \<subseteq> wi_id ` set items"
proof -
  obtain ordered m c where o: "ranked_work items = Inr ordered" "ids = map wi_id (take_scope m c 0 ordered)"
    using assms by (auto simp: selected_scope_ids_def Let_def elim!: bindR_InrE)
  obtain n where "take_scope m c 0 ordered = take n ordered" using take_scope_prefix by blast
  then have "set ids \<subseteq> wi_id ` set ordered" using o(2) by (auto dest: in_set_takeD)
  then show ?thesis using ranked_work_sorted(1)[OF o(1)] by (metis mset_eq_setD)
qed

lemma initial_scope_entries:
  assumes "initial_scope cd a sprint_id selected t = Inr scope"
  shows "sc_work_item_id ` set scope = set selected" and "\<forall>e \<in> set scope. sc_sprint_id e = sprint_id"
proof -
  have e: "scope_entry cd x y sprint_id t i = Inr e \<Longrightarrow> sc_work_item_id e = i \<and> sc_sprint_id e = sprint_id" for x y i e
    by (auto simp: scope_entry_def dest!: built_InrD)
  have "map sc_work_item_id scope = sort (remdups selected) \<and> (\<forall>e \<in> set scope. sc_sprint_id e = sprint_id)"
    using assms unfolding initial_scope_def mapR_eq_Inr_iff
    by (induction rule: list_all2_induct) (auto dest: e)
  then show "sc_work_item_id ` set scope = set selected" "\<forall>e \<in> set scope. sc_sprint_id e = sprint_id"
    by (metis list.set_map set_remdups set_sort, blast)
qed

lemma activated_lifecycle:
  assumes a: "list_all2 (activated members selected) items results" and "distinct (map (wi_id \<circ> fst) results)"
    and b: "\<forall>w \<in> set items. wi_lifecycle w = WI_BACKLOG" and w: "w \<in> set (map fst results)"
  shows "(wi_lifecycle w = WI_BACKLOG) = (wi_id w \<notin> set selected)"
    and "(wi_lifecycle w = WI_ACTIVE) = (wi_id w \<in> sv_work_item_id ` set (map fst (List.map_filter snd results)))"
proof -
  obtain r where r: "r \<in> set results" "w = fst r" using w by auto
  obtain u where u: "u \<in> set items" "activated members selected u r" using r(1) activated_list(2)[OF a] by blast
  note d = activatedD[OF u(2)]
  have sel: "wi_id w \<in> set selected \<longleftrightarrow> wi_id u \<in> set selected" using d(1) r(2) by simp
  have life: "wi_lifecycle w = (if wi_id u \<notin> set selected then WI_BACKLOG else if snd r = None then WI_DONE else WI_ACTIVE)"
    and none: "wi_id u \<notin> set selected \<Longrightarrow> snd r = None"
    using d(2,3) r(2) u(1) b by auto
  show "(wi_lifecycle w = WI_BACKLOG) = (wi_id w \<notin> set selected)" using life sel by simp
  have "(wi_lifecycle w = WI_ACTIVE) = (snd r \<noteq> None)" using life none by auto
  also have "\<dots> = (wi_id w \<in> sv_work_item_id ` set (map fst (List.map_filter snd results)))"
  proof
    assume "snd r \<noteq> None"
    then obtain v s where v: "snd r = Some (v, s)" by auto
    then have "(v, s) \<in> set (List.map_filter snd results)" using r(1) by (force simp: map_filter_def)
    then have "v \<in> set (map fst (List.map_filter snd results))" by force
    moreover have "sv_work_item_id v = wi_id w" using d(1) d(4)[OF v] r(2) by simp
    ultimately show "wi_id w \<in> sv_work_item_id ` set (map fst (List.map_filter snd results))" by (metis imageI)
  next
    assume "wi_id w \<in> sv_work_item_id ` set (map fst (List.map_filter snd results))"
    then obtain v s where v: "(v, s) \<in> set (List.map_filter snd results)" "wi_id w = sv_work_item_id v" by auto
    obtain q where q: "q \<in> set results" "snd q = Some (v, s)" "sv_work_item_id v = wi_id (fst q)"
      using activated_entered[OF a v(1)] by metis
    have "q = r" using distinct_map_eq[OF assms(2) q(1) r(1)] v(2) q(3) r(2) by simp
    then show "snd r \<noteq> None" using q(2) by simp
  qed
  finally show "(wi_lifecycle w = WI_ACTIVE) = (wi_id w \<in> sv_work_item_id ` set (map fst (List.map_filter snd results)))" .
qed

definition scope_matches_lifecycle :: "ScrumCollections \<Rightarrow> bool" where
  "scope_matches_lifecycle st \<longleftrightarrow>
     (\<forall>w \<in> set (st_work_items st).
        (wi_lifecycle w = WI_BACKLOG) = (wi_id w \<notin> sc_work_item_id ` set (st_scope st)) \<and>
        (wi_lifecycle w = WI_ACTIVE) = (wi_id w \<in> sv_work_item_id ` set (st_visits st)))"

lemma sprint_counter_owned: "sprint_counter a sprint = Inr k \<Longrightarrow> counter_owned works members k"
  by (auto simp: sprint_counter_def counter_owned_def dest!: new_counter_parts)

lemma planned_state_complete:
  assumes "planned_initial_state env a members items sprint = Inr st"
    and "member_identities (en_codec env) a = Inr members" and "\<forall>w \<in> set items. wi_lifecycle w = WI_BACKLOG"
  shows "snapshot env st = Inr st \<and> scope_matches_lifecycle st \<and> st_sprints st = [sprint] \<and> st_scope st = [] \<and>
    st_work_items st = items \<and> st_member_identities st = members \<and> st_visits st = []"
proof -
  obtain first counters where c: "sprint_counter a sprint = Inr first" "initial_counters (en_codec env) a items [] = Inr counters"
    "write_set env (empty_state\<lparr>st_member_identities := members, st_work_items := items, st_sprints := [sprint],
         st_counters := first # counters\<rparr>) = Inr st"
    using assms(1) by (auto simp: planned_initial_state_def elim!: bindR_InrE)
  have "snapshot env (empty_state\<lparr>st_member_identities := members, st_work_items := items, st_sprints := [sprint],
         st_counters := first # counters\<rparr>) = Inr (empty_state\<lparr>st_member_identities := members, st_work_items := items,
         st_sprints := [sprint], st_counters := first # counters\<rparr>) \<and>
    st = empty_state\<lparr>st_member_identities := members, st_work_items := items, st_sprints := [sprint],
         st_counters := first # counters\<rparr>"
    by (rule snapshot_of_write_set[OF c(3)])
      (use initial_counters_owned[OF c(2) assms(2)] sprint_counter_owned[OF c(1)] in \<open>simp_all add: empty_state_def\<close>)
  then show ?thesis using assms(3) by (auto simp: scope_matches_lifecycle_def empty_state_def)
qed

lemma active_state_complete:
  assumes "active_initial_state env a t members items sprint draws = Inr st"
    and "member_identities (en_codec env) a = Inr members" and "\<forall>w \<in> set items. wi_lifecycle w = WI_BACKLOG"
  shows "snapshot env st = Inr st \<and> scope_matches_lifecycle st \<and> st_sprints st = [sprint] \<and>
    map created_as (st_work_items st) = map created_as items \<and> st_member_identities st = members \<and>
    (\<forall>v \<in> set (st_visits st). \<exists>w \<in> set (st_work_items st). wi_lifecycle w = WI_ACTIVE \<and>
       first_visit (en_codec env) (pa_blueprint a) t members w v) \<and> distinct (map wi_id (st_work_items st))"
proof -
  obtain selected work visits samples scope first counters where c:
    "selected_scope_ids a (ss_id sprint) items draws = Inr selected"
    "activate_selected_work env a t members items selected draws = Inr (work, visits, samples)"
    "initial_scope (en_codec env) a (ss_id sprint) selected t = Inr scope"
    "sprint_counter a sprint = Inr first" "initial_counters (en_codec env) a work visits = Inr counters"
    "write_set env (empty_state\<lparr>st_member_identities := members, st_work_items := work, st_sprints := [sprint],
          st_scope := scope, st_visits := visits, st_samples := samples, st_counters := first # counters\<rparr>) = Inr st"
    using assms(1) by (auto simp: active_initial_state_def Let_def elim!: bindR_InrE bindR_Inr3E)
  let ?st = "empty_state\<lparr>st_member_identities := members, st_work_items := work, st_sprints := [sprint],
          st_scope := scope, st_visits := visits, st_samples := samples, st_counters := first # counters\<rparr>"
  obtain results where r: "list_all2 (activated (mi_id ` set members) selected) items results"
    "work = map fst results" "visits = map fst (List.map_filter snd results)" "samples = map snd (List.map_filter snd results)"
    by (rule activate_selected_work_parts[OF c(2)])
  have ids: "map wi_id work = map wi_id items" using activated_list(1)[OF r(1)] r(2) by simp
  note scope = initial_scope_entries[OF c(3)] selected_scope_from_items[OF c(1)]
  have v: "sv_member_id v \<in> Some ` mi_id ` set members \<and> sv_work_item_id v \<in> wi_id ` set work" if v: "v \<in> set visits" for v
  proof -
    obtain s where s: "(v, s) \<in> set (List.map_filter snd results)" using v r(3) by auto
    obtain q where "q \<in> set results" "sv_work_item_id v = wi_id (fst q)" "sv_member_id v \<in> Some ` mi_id ` set members"
      using activated_entered[OF r(1) s] by metis
    then show ?thesis using r(2) by auto
  qed
  have samples: "map sv_id visits = map vs_visit_id samples"
  proof -
    have "\<forall>p \<in> set (List.map_filter snd results). sv_id (fst p) = vs_visit_id (snd p)"
      using activated_entered[OF r(1)] by (metis prod.collapse)
    then show ?thesis by (simp add: r(3,4))
  qed
  have st: "snapshot env ?st = Inr ?st \<and> st = ?st"
  proof (rule snapshot_of_write_set[OF c(6)])
    show "\<forall>e \<in> set (st_scope ?st). sc_work_item_id e \<in> wi_id ` set (st_work_items ?st) \<and> sc_sprint_id e \<in> ss_id ` set (st_sprints ?st)"
      using scope arg_cong[OF ids, of set] by auto
  qed (use v samples initial_counters_owned[OF c(5) assms(2)] sprint_counter_owned[OF c(4)] in \<open>simp_all add: empty_state_def\<close>)
  have "unique_identities ?st"
    by (rule validate_state_parts(2)[OF c(6)[unfolded write_set_def bindR_check, THEN conjunct1]])
  then have d: "distinct (map (wi_id \<circ> fst) results)" by (simp add: unique_identities_def empty_state_def r(2))
  have "scope_matches_lifecycle ?st"
    unfolding scope_matches_lifecycle_def
    using activated_lifecycle[OF r(1) d assms(3)] scope(1) by (simp add: r(2,3) empty_state_def)
  moreover have "distinct (map wi_id work)" using d by (simp add: r(2))
  ultimately show ?thesis using st activate_selected_work_first[OF c(2)] by (simp add: empty_state_def)
qed

text \<open>(C23) The first state of a run is a complete snapshot: every reference resolves, every visit has its
  sample, every counter its owner. It has one sprint, for every member of
  the blueprint the identity of its index, and the whole backlog: one item for every sequence number below the target
  depth, under the identifier of that number. The items in the scope of the sprint are exactly those that left the
  backlog. Every active item has a visit and every visit is of an active item: it has ordinal zero and its
  identifier, is open in the status of the item since the start, has all its work left, and is assigned to the first
  member who may do its activity. A sprint that is only planned has no scope.\<close>

theorem initial_state_complete:
  assumes "build_initial_scrum_state env a started_at draws = Some (Inr st)"
  shows "snapshot env st = Inr st \<and> scope_matches_lifecycle st \<and>
    whole_backlog (en_codec env) a (st_work_items st) \<and> whole_team (en_codec env) a (st_member_identities st) \<and>
    (\<forall>w \<in> set (st_work_items st). wi_lifecycle w = WI_ACTIVE \<longrightarrow>
       (\<exists>v \<in> set (st_visits st). first_visit (en_codec env) (pa_blueprint a) started_at (st_member_identities st) w v)) \<and>
    (\<forall>v \<in> set (st_visits st). \<exists>w \<in> set (st_work_items st). wi_lifecycle w = WI_ACTIVE \<and>
       first_visit (en_codec env) (pa_blueprint a) started_at (st_member_identities st) w v) \<and>
    (\<exists>sprint. st_sprints st = [sprint] \<and> (ss_planned_start_at sprint \<le> started_at \<or> st_scope st = []))"
proof -
  obtain members items where b: "member_identities (en_codec env) a = Inr members"
    "ranked_backlog (en_codec env) a started_at draws = Inr items"
    using assms by (auto simp: build_initial_scrum_state_def elim!: bindR_InrE split: sum.splits)
  then obtain sprint where s: "initial_sprint env a started_at = Some (Inr sprint)"
    "(if ss_lifecycle sprint = SP_PLANNED then planned_initial_state env a members items sprint
      else active_initial_state env a started_at members items sprint draws) = Inr st"
    using assms by (auto simp: build_initial_scrum_state_def elim!: bindR_InrE)
  have w: "\<forall>w \<in> set items. wi_lifecycle w = WI_BACKLOG" using ranked_backlog_waiting[OF b(2)] by blast
  note whole = ranked_backlog_whole[OF b(2)] member_identities_whole[OF b(1)]
  have sprint: "ss_lifecycle sprint \<noteq> SP_PLANNED \<Longrightarrow> ss_planned_start_at sprint \<le> started_at"
    using s(1) by (auto simp: initial_sprint_def sprint_at_def Let_def dest!: built_InrD elim!: bindR_InrE
        split: sum.splits option.splits if_splits)
  show ?thesis
  proof (cases "ss_lifecycle sprint = SP_PLANNED")
    case True
    then have "planned_initial_state env a members items sprint = Inr st" using s(2) by simp
    then show ?thesis using planned_state_complete[OF _ b(1) w] whole w by fastforce
  next
    case False
    then have "active_initial_state env a started_at members items sprint draws = Inr st" using s(2) by simp
    note c = active_state_complete[OF this b(1) w]
    have "\<exists>v \<in> set (st_visits st). first_visit (en_codec env) (pa_blueprint a) started_at members w v"
      if w: "w \<in> set (st_work_items st)" "wi_lifecycle w = WI_ACTIVE" for w
    proof -
      obtain v where v: "v \<in> set (st_visits st)" "sv_work_item_id v = wi_id w"
        using c w unfolding scope_matches_lifecycle_def by force
      obtain u where u: "u \<in> set (st_work_items st)" "first_visit (en_codec env) (pa_blueprint a) started_at members u v"
        using c v(1) by blast
      have "u = w" using c u w(1) v(2) by (auto simp: first_visit_def dest: distinct_map_eq)
      then show ?thesis using u(2) v(1) by blast
    qed
    then show ?thesis using c sprint[OF False] whole whole_backlog_as by blast
  qed
qed

section \<open>The first state of the sample team\<close>

lemma containing_sprint_found_demo:
  "containing_sprint_ordinal office \<lparr>cr_anchor = 637200000000, cr_cadence_days = 14\<rparr> 637200000000 = Some (Inr 0)"
  "cadence_boundary office \<lparr>cr_anchor = 637200000000, cr_cadence_days = 14\<rparr> 0 = Inr 637200000000"
  "cadence_boundary office \<lparr>cr_anchor = 637200000000, cr_cadence_days = 14\<rparr> 1 = Inr 1846800000000"
proof -
  let ?r = "\<lparr>cr_anchor = 637200000000, cr_cadence_days = 14\<rparr>"
  show z: "cadence_boundary office ?r 0 = Inr 637200000000" by (simp add: cadence_boundary_def)
  show o: "cadence_boundary office ?r 1 = Inr 1846800000000"
    by (subst cadence_boundary_office) (simp_all add: office_simps local_clock_def valid_ordinal_def)
  then have "containing_from office ?r 637200000000 0 = Some (Inr 0)" by (simp add: containing_from.simps)
  then show "containing_sprint_ordinal office ?r 637200000000 = Some (Inr 0)" by (simp add: containing_sprint_ordinal_def)
qed

theorem containing_sprint_found_witness:
  "\<not> sprint_contains office \<lparr>cr_anchor = 637200000000, cr_cadence_days = 14\<rparr> 637200000000 1"
proof -
  have "separating (cc_zone office)" by (simp add: office_def separating_fixed)
  moreover have "cadence_rule 637200000000 14 = Inr \<lparr>cr_anchor = 637200000000, cr_cadence_days = 14\<rparr>"
    by (simp add: cadence_rule_def)
  ultimately show ?thesis
    using containing_sprint_found[of office 637200000000 14 "\<lparr>cr_anchor = 637200000000, cr_cadence_days = 14\<rparr>" 637200000000]
    by (simp add: containing_sprint_found_demo(1))
qed

definition demo_aggregate :: PersistedTeamAggregate where
  "demo_aggregate = lt_aggregate demo_live"

lemma demo_aggregate_sel:
  "pa_blueprint demo_aggregate = sample_blueprint" "vt_id (pa_team demo_aggregate) = 69"
  "rt_run_id (pa_runtime demo_aggregate) = 42"
  by (simp_all add: demo_aggregate_def demo_live_def)

definition waiting_work :: WorkItemState where
  "waiting_work = demo_work\<lparr>wi_lifecycle := WI_BACKLOG, wi_current_status_key := ''READY'',
     wi_created_at := 637200000000, wi_updated_at := 637200000000\<rparr>"

definition started_work :: WorkItemState where
  "started_work = demo_work\<lparr>wi_created_at := 637200000000, wi_updated_at := 637200000000\<rparr>"

definition started_visit :: StatusVisitState where
  "started_visit = demo_visit\<lparr>sv_member_id := Some 45\<rparr>"

definition first_sprint :: SprintState where
  "first_sprint = \<lparr>ss_id = 45, ss_team_id = 69, ss_run_id = 42, ss_ordinal = 0, ss_lifecycle = SP_ACTIVE,
     ss_planned_start_at = 637200000000, ss_planned_end_at = 1846800000000,
     ss_observed_start_at = Some 637200000000, ss_observed_end_at = None, ss_created_at = 637200000000,
     ss_updated_at = 637200000000\<rparr>"

lemma demo_members: "member_identities demo_codec demo_aggregate = Inr [demo_identity]"
proof -
  have "length (bp_members sample_blueprint) = 1" by (simp add: sample_blueprint_def)
  moreover have "member_rng_id demo_codec 69 0 = Inr 45"
    by (simp add: member_rng_id_def ordinal_uuid_def ordinal_path_def semantic_uuid_def demo_sha int_text_0)
  moreover have "built (check_member_identity demo_codec) \<lparr>mi_id = 45, mi_team_id = 69, mi_blueprint_index = 0\<rparr> = Inr demo_identity"
    using demo_identity_ok by (simp add: built_def demo_identity_def)
  ultimately show ?thesis by (simp add: member_identities_def demo_aggregate_sel)
qed

lemma weighted_single: "0 < x \<Longrightarrow> is_float x \<Longrightarrow> weighted_value [(k, x)] 0 = Inr k"
  by (simp add: weighted_value_def f_mul_def f_add_def is_float_def)

lemma demo_backlog: "ranked_backlog demo_codec demo_aggregate 637200000000 demo_draw_source = Inr [waiting_work]"
proof -
  have d: "drawn demo_draw_source i dt = Inr (if dt = STATUS_DWELL then demo_draw ''m1'' STATUS_DWELL else demo_draw ''m2'' STATUS_TOUCH)" for i dt
    by (simp add: drawn_def decision_occurrence_def demo_draw_source_def)
  have u: "ud_unit_value (demo_draw m dt) = 0" for m dt by (simp add: demo_draw_def)
  have b: "bl_target_depth (bp_backlog sample_blueprint) = 1" "bl_issue_type_weights (bp_backlog sample_blueprint) = [(''STORY'', 1)]"
    "bl_story_point_weights (bp_backlog sample_blueprint) = [(''3'', 1)]" "bl_priority_weights (bp_backlog sample_blueprint) = [(''HIGH'', 1)]"
    by (simp_all add: sample_blueprint_def)
  have i: "int_of_text ''3'' = Inr 3" by (simp add: int_of_text_def is_space_def digit_def Let_def)
  have r: "bootstrap_route sample_blueprint ''STORY'' = Inr (hd (wf_routes sample_workflow))"
    "py_index (ro_steps (hd (wf_routes sample_workflow))) 0 = Inr \<lparr>rp_status_key = ''READY'', rp_required_activity = None\<rparr>"
    by (simp_all add: bootstrap_route_def find_or_stop_def py_index_def) (simp_all add: sample_blueprint_def sample_workflow_def)
  have "check_work_item demo_codec waiting_work = Inr ()"
    by (simp add: waiting_work_def demo_work_def check_work_item_def demo_ids require_semantic_id_def check_classification_def
        ISSUE_TYPES_def STORY_POINTS_def require_text_def is_space_def)
  then have "backlog_item demo_codec demo_aggregate 637200000000 demo_draw_source 0 = Inr waiting_work"
    by (simp add: backlog_item_def demo_aggregate_sel demo_ids d u b weighted_single i work_priority_def r)
      (simp add: built_def waiting_work_def demo_work_def)
  then show ?thesis by (simp add: ranked_backlog_def demo_aggregate_sel b)
qed

lemma demo_first_sprint: "initial_sprint demo_env demo_aggregate 637200000000 = Some (Inr first_sprint)"
proof -
  have s: "sb_first_boundary (bp_scrum sample_blueprint) = 637200000000" "sb_cadence_days (bp_scrum sample_blueprint) = 14"
    "tb_timezone (bp_team sample_blueprint) = ''UTC''" "bp_calendar sample_blueprint = office_blueprint"
    by (simp_all add: sample_blueprint_def)
  have c: "aggregate_calendar demo_env demo_aggregate = Inr office"
    using office_from_blueprint by (simp add: aggregate_calendar_def demo_aggregate_sel s demo_env_def)
  have i: "sprint_rng_id demo_codec 69 0 = Inr 45"
    by (simp add: sprint_rng_id_def ordinal_uuid_def ordinal_path_def semantic_uuid_def demo_sha int_text_0)
  have "check_sprint demo_codec first_sprint = Inr ()"
    by (simp add: check_sprint_def first_sprint_def i require_semantic_id_def check_observed_times_def)
  then show ?thesis
    by (simp add: initial_sprint_def demo_aggregate_sel s c cadence_rule_def containing_sprint_found_demo sprint_at_def demo_sel i)
      (simp add: built_def first_sprint_def)
qed

lemma demo_drawn:
  "drawn demo_draw_source i dt = Inr (if dt = STATUS_DWELL then demo_draw ''m1'' STATUS_DWELL else demo_draw ''m2'' STATUS_TOUCH)"
  by (simp add: drawn_def decision_occurrence_def demo_draw_source_def)

lemma demo_selected: "selected_scope_ids demo_aggregate 45 [waiting_work] demo_draw_source = Inr [59]"
proof -
  have "check_rank (simulator_rank waiting_work) = Inr ()"
    by (simp add: check_rank_def simulator_rank_def waiting_work_def demo_work_def)
  then have "ranked_work [waiting_work] = Inr [waiting_work]" by (simp add: ranked_work_def)
  moreover have "sb_capacity_min_points (bp_scrum sample_blueprint) = 3" by (simp add: sample_blueprint_def)
  moreover have "wi_id waiting_work = 59" by (simp add: waiting_work_def demo_work_def)
  ultimately show ?thesis by (simp add: selected_scope_ids_def demo_aggregate_sel demo_drawn)
qed

lemma selected_scope_greedy_demo:
  "unit_draw_value (ud_unit_value (demo_draw m dt))" "validate_scrum (bp_scrum sample_blueprint) = Inr ()"
  "sb_capacity_max_points (bp_scrum sample_blueprint) < 2 ^ 53"
  by (simp_all add: unit_draw_value_def demo_draw_def sample_blueprint_def validate_scrum_def field_constraint_def)

theorem selected_scope_greedy_witness:
  "\<exists>n \<le> 1. [59] = map wi_id (take n [waiting_work])"
proof -
  from selected_scope_greedy[OF demo_selected demo_drawn] selected_scope_greedy_demo
  obtain ordered n where o: "mset ordered = mset [waiting_work]" "n \<le> length ordered" "[59] = map wi_id (take n ordered)"
    by (simp add: demo_aggregate_sel) metis
  then have "ordered = [waiting_work]" by simp
  then show ?thesis using o by auto
qed

lemma started_checks:
  "check_work_item demo_codec started_work = Inr ()" "check_visit demo_codec started_visit = Inr ()"
  using demo_checks
  by (simp_all add: check_work_item_def started_work_def check_classification_def bindR_check check_visit_def started_visit_def
      check_zero_touch_def check_visit_times_def check_visit_microseconds_def)
    (simp_all add: demo_work_def demo_visit_def)

lemma started_sample:
  "create_sample demo_env (demo_input\<lparr>si_work_item := started_work, si_visit := started_visit\<rparr>) = Inr demo_sample"
proof -
  have w: "wi_id started_work = wi_id demo_work" "wi_team_id started_work = wi_team_id demo_work"
    "wi_run_id started_work = wi_run_id demo_work" "wi_issue_type started_work = wi_issue_type demo_work"
    "wi_story_points started_work = wi_story_points demo_work" "wi_current_status_key started_work = wi_current_status_key demo_work"
    "sv_id started_visit = sv_id demo_visit" "sv_team_id started_visit = sv_team_id demo_visit"
    "sv_run_id started_visit = sv_run_id demo_visit" "sv_work_item_id started_visit = sv_work_item_id demo_visit"
    "sv_status_key started_visit = sv_status_key demo_visit" "sv_required started_visit = sv_required demo_visit"
    "sv_lifecycle started_visit = sv_lifecycle demo_visit"
    by (simp_all add: started_work_def started_visit_def)
  have e: "timing_entry b started_work started_visit = timing_entry b demo_work demo_visit" for b
    by (simp add: timing_entry_def w)
  have "check_sample_input demo_codec (demo_input\<lparr>si_work_item := started_work, si_visit := started_visit\<rparr>) = check_sample_input demo_codec demo_input"
    using demo_checks
    by (simp add: check_sample_input_def check_sample_links_def authenticate_draw_def demo_sel w e started_checks Let_def)
  then show ?thesis
    using demo_sample_created
    by (simp add: create_sample_def status_sample_values_def demo_sel w e Let_def cong: if_cong)
qed

lemma demo_activated:
  "activate_selected_work demo_env demo_aggregate 637200000000 [demo_identity] [waiting_work] [59] demo_draw_source =
     Inr ([started_work], [started_visit], [demo_sample])"
proof -
  let ?route = "hd (wf_routes sample_workflow)"
  let ?step = "\<lparr>rp_status_key = ''DEV'', rp_required_activity = Some ''CODE''\<rparr>"
  have w: "wi_id waiting_work = 59" "wi_issue_type waiting_work = ''STORY''" by (simp_all add: waiting_work_def demo_work_def)
  have r: "bootstrap_route sample_blueprint ''STORY'' = Inr ?route"
    "first_timed_step sample_blueprint (ro_steps ?route) = Inr (Some ?step)"
    by (simp_all add: bootstrap_route_def find_or_stop_def is_timed_step_def sample_blueprint_def sample_workflow_def)
  have a: "active_item demo_codec waiting_work ''DEV'' WI_ACTIVE 637200000000 = Inr started_work"
    using started_checks(1) by (simp add: active_item_def built_def waiting_work_def started_work_def) (simp add: demo_work_def)
  have x: "exact_microseconds 1 = 3600000000" by (simp add: exact_microseconds_def)
  have s: "sampled_microseconds sample_blueprint started_work ''DEV'' 0 = Inr 3600000000"
    by (simp add: sampled_microseconds_def find_or_stop_def started_work_def demo_work_def sample_blueprint_def)
      (simp add: sample_timing_def timing_cell_def demo_anchors[unfolded sample_timing_def] demo_touch x)
  have m: "member_for_activity sample_blueprint ''CODE'' [demo_identity] = Inr 45"
    by (simp add: py_index_def demo_coordinates) (simp add: sample_blueprint_def sample_member_def)
  have u: "ud_unit_value (demo_draw m dt) = 0" for m dt by (simp add: demo_draw_def)
  have i: "wi_id started_work = 59" "wi_team_id started_work = 69" "wi_run_id started_work = 42"
    by (simp_all add: started_work_def demo_work_def)
  have v: "timed_visit demo_codec demo_aggregate 637200000000 [demo_identity] started_work ?step demo_draw_source = Inr started_visit"
    using started_checks(2)
    by (simp add: timed_visit_def i demo_ids demo_drawn u demo_aggregate_sel s m del: member_for_activity.simps)
      (simp add: built_def started_visit_def demo_visit_def)
  have "\<lparr>si_blueprint = sample_blueprint, si_work_item = started_work, si_visit = started_visit,
      si_dwell_draw = demo_draw ''m1'' STATUS_DWELL, si_touch_draw = demo_draw ''m2'' STATUS_TOUCH\<rparr> =
    demo_input\<lparr>si_work_item := started_work, si_visit := started_visit\<rparr>" by (simp add: demo_input_def)
  then have t: "status_sample demo_env sample_blueprint started_work started_visit demo_draw_source = Inr demo_sample"
    by (simp add: status_sample_def demo_drawn started_sample)
  show ?thesis
    by (simp add: activate_selected_work_def activate_selected_def activate_item_def w demo_aggregate_sel r demo_sel a v t
        map_filter_simps)
qed

definition first_scope :: SprintScopeEntry where
  "first_scope = \<lparr>sc_id = 86, sc_team_id = 69, sc_run_id = 42, sc_sprint_id = 45, sc_work_item_id = 59,
     sc_added_at = 637200000000, sc_removed_at = None\<rparr>"

definition first_counters :: "SemanticCounter list" where
  "first_counters = map (\<lambda>(kind, i, key, n). \<lparr>sn_team_id = 69, sn_run_id = 42,
       sn_scope = \<lparr>cs_kind = kind, cs_scope_id = i, cs_scope_key = key\<rparr>, sn_next_value = n\<rparr>)
     [(SPRINT_ORDINAL, 69, ''SCRUM'', 1), (VISIT_ORDINAL, 59, ''VISIT'', 1),
      (NATURAL_DECISION_OCCURRENCE, 59, ''RISK_CANCELLATION_OUTCOME'', 0),
      (NATURAL_DECISION_OCCURRENCE, 45, ''RISK_MEMBER_UNAVAILABLE_OUTCOME'', 0)]"

definition first_state :: ScrumCollections where
  "first_state = empty_state\<lparr>st_member_identities := [demo_identity], st_work_items := [started_work],
     st_sprints := [first_sprint], st_scope := [first_scope], st_visits := [started_visit],
     st_samples := [demo_sample], st_counters := first_counters\<rparr>"

lemma natural_keys:
  "decision_value d \<in> decision_value ` set ALL_DECISIONS" "d \<in> NATURAL_OWNER_DECISIONS \<Longrightarrow> natural_owner_key (decision_value d)"
  by (cases d; simp add: ALL_DECISIONS_def) (auto simp: natural_owner_key_def)

lemma first_counters_ok: "\<forall>k \<in> set first_counters. check_counter k = Inr ()"
proof -
  have "''RISK_CANCELLATION_OUTCOME'' \<in> decision_value ` set ALL_DECISIONS"
    "''RISK_MEMBER_UNAVAILABLE_OUTCOME'' \<in> decision_value ` set ALL_DECISIONS"
    "natural_owner_key ''RISK_CANCELLATION_OUTCOME''" "natural_owner_key ''RISK_MEMBER_UNAVAILABLE_OUTCOME''"
    using natural_keys[of RISK_CANCELLATION_OUTCOME] natural_keys[of RISK_MEMBER_UNAVAILABLE_OUTCOME]
    by (simp_all add: NATURAL_OWNER_DECISIONS_def)
  then show ?thesis
    by (simp add: first_counters_def check_counter_def check_counter_scope_def require_text_def is_space_def scope_keys_def
      require_counter_value_def MAX_COUNTER_NEXT_VALUE_def MAX_SAFE_INTEGER_def U53_DENOMINATOR_def)
qed

lemma first_scope_ok: "check_scope_entry demo_codec first_scope = Inr ()"
  by (simp add: check_scope_entry_def first_scope_def semantic_uuid_def demo_sha require_semantic_id_def)

lemma first_state_sel:
  "st_member_identities first_state = [demo_identity]" "st_overlays first_state = []" "st_consumption first_state = []"
  "st_work_items first_state = [started_work]" "st_factors first_state = []" "st_sprints first_state = [first_sprint]"
  "st_scope first_state = [first_scope]" "st_visits first_state = [started_visit]" "st_samples first_state = [demo_sample]"
  "st_counters first_state = first_counters" "st_evaluations first_state = []"
  by (simp_all add: first_state_def empty_state_def)

lemma first_sprint_ok: "check_sprint demo_codec first_sprint = Inr ()"
  by (simp add: check_sprint_def first_sprint_def sprint_rng_id_def ordinal_uuid_def ordinal_path_def semantic_uuid_def demo_sha
      int_text_0 require_semantic_id_def check_observed_times_def)

lemma started_coordinates:
  "wi_id started_work = 59" "wi_team_id started_work = 69" "wi_run_id started_work = 42" "wi_current_status_key started_work = ''DEV''"
  "sv_id started_visit = 44" "sv_team_id started_visit = 69" "sv_run_id started_visit = 42" "sv_work_item_id started_visit = 59"
  "sv_status_key started_visit = ''DEV''" "sv_required started_visit = 3600000000" "sv_member_id started_visit = Some 45"
  "ss_team_id first_sprint = 69" "ss_run_id first_sprint = 42" "sc_team_id first_scope = 69" "sc_run_id first_scope = 42"
  "map sn_team_id first_counters = [69, 69, 69, 69]" "map sn_run_id first_counters = [42, 42, 42, 42]"
  "sv_ordinal started_visit = 0"
  by (simp_all add: started_work_def started_visit_def demo_work_def demo_visit_def first_sprint_def first_scope_def first_counters_def)

lemma first_write_set: "write_set demo_env first_state = Inr first_state"
proof -
  have "validate_collections demo_env first_state = Inr ()"
    by (simp add: validate_collections_def first_state_sel demo_sel demo_identity_ok started_checks demo_sample_ok
        first_sprint_ok first_scope_ok forR_eq_Inr first_counters_ok bindR_check)
  moreover have "validate_uniqueness first_state = Inr ()"
    by (simp add: validate_uniqueness_def unique_identities_def first_state_sel)
      (simp add: first_counters_def counter_identity_def)
  moreover have "validate_partial_uniqueness first_state = Inr ()"
    by (simp add: validate_partial_uniqueness_def first_state_sel require_unique_coordinates_def)
  moreover have "set (map sn_team_id first_counters) = {69}" "set (map sn_run_id first_counters) = {42}"
    unfolding started_coordinates by simp_all
  then have "validate_one_team_run first_state = Inr ()"
    by (simp add: validate_one_team_run_def state_teams_def state_runs_def first_state_sel started_coordinates demo_coordinates)
  moreover have "validate_open_visit_status first_state = Inr ()"
    "validate_sample_links (st_visits first_state) (st_samples first_state) = Inr ()"
    by (simp_all add: validate_open_visit_status_def validate_sample_links_def first_state_sel started_coordinates
        demo_coordinates dict_of_def)
  ultimately show ?thesis by (simp add: write_set_def validate_state_def)
qed

lemma demo_initial_state:
  "build_initial_scrum_state demo_env demo_aggregate 637200000000 demo_draw_source = Some (Inr first_state)"
proof -
  have e: "en_codec demo_env = demo_codec" by (simp add: demo_sel)
  have s: "ss_lifecycle first_sprint = SP_ACTIVE" "ss_id first_sprint = 45" "ss_ordinal first_sprint = 0"
    by (simp_all add: first_sprint_def)
  have scope: "initial_scope demo_codec demo_aggregate 45 [59] 637200000000 = Inr [first_scope]"
    using first_scope_ok
    by (simp add: initial_scope_def demo_aggregate_sel scope_entry_def semantic_uuid_def demo_sha)
      (simp add: built_def first_scope_def)
  obtain k1 k2 k3 k4 where k: "first_counters = [k1, k2, k3, k4]" by (simp add: first_counters_def)
  have ok: "check_counter k = Inr () \<and> check_counter_scope (sn_scope k) = Inr ()" if "k \<in> set first_counters" for k
    using first_counters_ok that by (auto simp: check_counter_def bindR_check)
  have c: "new_counter demo_aggregate (cs_kind (sn_scope k)) (cs_scope_id (sn_scope k)) (cs_scope_key (sn_scope k)) (sn_next_value k) = Inr k"
    if k: "k \<in> set first_counters" for k
  proof -
    obtain kind i key n where "k = \<lparr>sn_team_id = 69, sn_run_id = 42,
        sn_scope = \<lparr>cs_kind = kind, cs_scope_id = i, cs_scope_key = key\<rparr>, sn_next_value = n\<rparr>"
      using k by (auto simp: first_counters_def)
    then show ?thesis using ok[OF k] by (simp add: new_counter_def built_def demo_aggregate_sel)
  qed
  have k': "sn_scope k1 = \<lparr>cs_kind = SPRINT_ORDINAL, cs_scope_id = 69, cs_scope_key = ''SCRUM''\<rparr>" "sn_next_value k1 = 1"
    "sn_scope k2 = \<lparr>cs_kind = VISIT_ORDINAL, cs_scope_id = 59, cs_scope_key = ''VISIT''\<rparr>" "sn_next_value k2 = 1"
    "sn_scope k3 = \<lparr>cs_kind = NATURAL_DECISION_OCCURRENCE, cs_scope_id = 59, cs_scope_key = ''RISK_CANCELLATION_OUTCOME''\<rparr>"
    "sn_next_value k3 = 0" "sn_next_value k4 = 0"
    "sn_scope k4 = \<lparr>cs_kind = NATURAL_DECISION_OCCURRENCE, cs_scope_id = 45, cs_scope_key = ''RISK_MEMBER_UNAVAILABLE_OUTCOME''\<rparr>"
    using k by (auto simp: first_counters_def)
  have n: "new_counter demo_aggregate SPRINT_ORDINAL 69 ''SCRUM'' 1 = Inr k1" "new_counter demo_aggregate VISIT_ORDINAL 59 ''VISIT'' 1 = Inr k2"
    "new_counter demo_aggregate NATURAL_DECISION_OCCURRENCE 59 ''RISK_CANCELLATION_OUTCOME'' 0 = Inr k3"
    "new_counter demo_aggregate NATURAL_DECISION_OCCURRENCE 45 ''RISK_MEMBER_UNAVAILABLE_OUTCOME'' 0 = Inr k4"
    using c[of k1] c[of k2] c[of k3] c[of k4] by (simp_all add: k k')
  have first: "sprint_counter demo_aggregate first_sprint = Inr k1" by (simp add: sprint_counter_def demo_aggregate_sel s n)
  have counters: "initial_counters demo_codec demo_aggregate [started_work] [started_visit] = Inr [k2, k3, k4]"
    by (simp add: initial_counters_def demo_members visit_counters_def natural_counters_def dict_of_def started_coordinates
        demo_coordinates n)
  have "active_initial_state demo_env demo_aggregate 637200000000 [demo_identity] [waiting_work] first_sprint demo_draw_source = Inr first_state"
    using first_write_set
    by (simp add: active_initial_state_def e s demo_selected demo_activated scope first counters) (simp add: first_state_def k)
  then show ?thesis
    by (simp add: build_initial_scrum_state_def e demo_members demo_backlog demo_first_sprint s)
qed

theorem initial_state_complete_witness:
  "snapshot demo_env first_state = Inr first_state \<and> scope_matches_lifecycle first_state \<and>
   first_visit demo_codec sample_blueprint 637200000000 [demo_identity] started_work started_visit"
  using initial_state_complete[OF demo_initial_state] by (simp add: first_state_sel demo_sel demo_aggregate_sel)

end
