(* ===== verification/Authoritative_Slice.thy ===== *)
theory Authoritative_Slice
  imports Scrum_Bootstrap
begin

text \<open>
  The command that commits one tick of a Scrum team (\<open>v2/domain/authoritative_slice.py\<close>): the slice of
  the ledgers, the rows of the Scrum state that change, the claims on semantic counters and on natural
  decisions, the checks that bind the claims to the rows, and the checks of the committed result.
  Conversions of instants to UTC and checks of Python types have no counterpart.
\<close>

section \<open>Claims\<close>

record EligibleNaturalDecisionClaim =
  nc_decision :: DecisionOccurrence
  nc_business_date :: int

definition validate_decision :: "DecisionOccurrence \<Rightarrow> unit res" where
  "validate_decision d =
     bindR (safe_integer (do_occurrence d) ''decision occurrence'') (\<lambda>_.
     bindR (decision_occurrence (do_entity_id d) (do_decision_type d) (do_occurrence d)) (\<lambda>_. Inr ()))"

definition check_natural_claim :: "EligibleNaturalDecisionClaim \<Rightarrow> unit res" where
  "check_natural_claim e =
     bindR (validate_decision (nc_decision e)) (\<lambda>_.
       guardR (do_decision_type (nc_decision e) \<in> NATURAL_OWNER_DECISIONS)
         (Value_Error ''decision type is not a supported natural decision''))"

definition natural_scope :: "EligibleNaturalDecisionClaim \<Rightarrow> SemanticCounterScope" where
  "natural_scope e = \<lparr>cs_kind = NATURAL_DECISION_OCCURRENCE, cs_scope_id = do_entity_id (nc_decision e),
     cs_scope_key = decision_value (do_decision_type (nc_decision e))\<rparr>"

definition natural_key :: "EligibleNaturalDecisionClaim \<Rightarrow> DecisionType \<times> uuid \<times> int" where
  "natural_key e = (do_decision_type (nc_decision e), do_entity_id (nc_decision e), nc_business_date e)"

definition unique_claims ::
  "SemanticCounterClaim list \<Rightarrow> (SemanticCounterScope, SemanticCounterClaim) dict res" where
  "unique_claims claims =
     (let result = dict_of cl_scope claims
      in if length result \<noteq> length claims
         then Inl (Value_Error ''counter claims must use unique semantic scopes'') else Inr result)"

definition unique_natural_claims ::
  "EligibleNaturalDecisionClaim list \<Rightarrow> (DecisionType \<times> uuid \<times> int, EligibleNaturalDecisionClaim) dict res" where
  "unique_natural_claims claims =
     (let result = dict_of natural_key claims
      in if length result \<noteq> length claims
         then Inl (Value_Error ''natural decision claims must use unique eligibility keys'') else Inr result)"

section \<open>Bindings\<close>

definition validate_coordinates :: "ScrumCollections \<Rightarrow> uuid \<Rightarrow> uuid \<Rightarrow> unit res" where
  "validate_coordinates st team run =
     bindR (guardR (\<forall>t \<in> set (state_teams st). t = team)
              (Value_Error ''Scrum state rows must match the live-slice team/run'')) (\<lambda>_.
       guardR (\<forall>r \<in> set (state_runs st). r = run)
         (Value_Error ''Scrum state rows must match the live-slice team/run''))"

definition coordinates_for_scope :: "ScrumCollections \<Rightarrow> SemanticCounterScope \<Rightarrow> int list" where
  "coordinates_for_scope st scope =
     (case cs_kind scope of
        SPRINT_ORDINAL \<Rightarrow> map ss_ordinal (filter (\<lambda>s. ss_team_id s = cs_scope_id scope) (st_sprints st))
      | ITEM_SEQUENCE \<Rightarrow>
          map wi_creation_sequence
            (filter (\<lambda>w. wi_team_id w = cs_scope_id scope \<and> creation_value (wi_creation_kind w) = cs_scope_key scope)
              (st_work_items st))
      | _ \<Rightarrow> map sv_ordinal (filter (\<lambda>v. sv_work_item_id v = cs_scope_id scope) (st_visits st)))"

text \<open>\<open>any\<close> over the pairs of actual and expected identifiers.\<close>

definition identities_match :: "('a \<Rightarrow> uuid) \<Rightarrow> ('a \<Rightarrow> uuid res) \<Rightarrow> 'a list \<Rightarrow> unit res" where
  "identities_match actual expected rows =
     forR (\<lambda>x. bindR (expected x) (\<lambda>e.
             guardR (actual x = e) (Value_Error ''allocated row has the wrong semantic identity''))) rows"

definition validate_allocated_ids ::
  "codec \<Rightarrow> ScrumCollections \<Rightarrow> SemanticCounterScope \<Rightarrow> SemanticCounterClaim \<Rightarrow> unit res" where
  "validate_allocated_ids cd st scope k =
     (let claimed = (\<lambda>n. cl_expected_next k \<le> n \<and> n < cl_expected_next k + cl_count k) in
      case cs_kind scope of
        SPRINT_ORDINAL \<Rightarrow>
          identities_match ss_id (\<lambda>s. sprint_rng_id cd (ss_team_id s) (ss_ordinal s))
            (filter (\<lambda>s. ss_team_id s = cs_scope_id scope \<and> claimed (ss_ordinal s)) (st_sprints st))
      | ITEM_SEQUENCE \<Rightarrow>
          identities_match wi_id (\<lambda>w. item_rng_id cd (wi_team_id w) (wi_creation_kind w) (wi_creation_sequence w))
            (filter (\<lambda>w. wi_team_id w = cs_scope_id scope \<and> creation_value (wi_creation_kind w) = cs_scope_key scope \<and>
                         claimed (wi_creation_sequence w)) (st_work_items st))
      | _ \<Rightarrow>
          identities_match sv_id (\<lambda>v. visit_rng_id cd (sv_work_item_id v) (sv_ordinal v))
            (filter (\<lambda>v. sv_work_item_id v = cs_scope_id scope \<and> claimed (sv_ordinal v)) (st_visits st)))"

definition validate_allocation_range ::
  "codec \<Rightarrow> ScrumCollections \<Rightarrow> SemanticCounterScope \<Rightarrow> SemanticCounterClaim \<Rightarrow> unit res" where
  "validate_allocation_range cd st scope k =
     (if cs_kind scope = NATURAL_DECISION_OCCURRENCE then Inr ()
      else
        let covered = filter (\<lambda>n. cl_expected_next k \<le> n \<and> n < cl_expected_next k + cl_count k)
                        (sort (coordinates_for_scope st scope));
            contiguous = (\<forall>(i, n) \<in> set (enumerate 0 covered). n = cl_expected_next k + int i)
        in bindR (guardR (int (length covered) = cl_count k \<and> contiguous)
                    (Value_Error ''allocated coordinates must equal one contiguous claimed range'')) (\<lambda>_.
             validate_allocated_ids cd st scope k))"

definition validate_allocation_ranges ::
  "codec \<Rightarrow> ScrumCollections \<Rightarrow> (SemanticCounterScope, SemanticCounterClaim) dict \<Rightarrow> unit res" where
  "validate_allocation_ranges cd st claims = forR (\<lambda>(scope, k). validate_allocation_range cd st scope k) claims"

definition validate_natural_bindings ::
  "(SemanticCounterScope, SemanticCounterClaim) dict \<Rightarrow> EligibleNaturalDecisionClaim list \<Rightarrow> unit res" where
  "validate_natural_bindings claims natural =
     forR (\<lambda>e. case map_of claims (natural_scope e) of
                 None \<Rightarrow> Inl (Value_Error ''eligible decision requires one matching natural counter claim'')
               | Some k \<Rightarrow>
                   bindR (guardR (cl_count k = 1) (Value_Error ''natural counter claim count must be exactly one'')) (\<lambda>_.
                     guardR (do_occurrence (nc_decision e) = cl_expected_next k)
                       (Value_Error ''natural decision occurrence must equal counter expected_next''))) natural"

definition validate_visible_natural_owners ::
  "ScrumCollections \<Rightarrow> EligibleNaturalDecisionClaim list \<Rightarrow> unit res" where
  "validate_visible_natural_owners st natural =
     (let member_ids = set (map mi_id (st_member_identities st)); work_ids = set (map wi_id (st_work_items st)) in
      forR (\<lambda>e. let wrong_ids = (if do_decision_type (nc_decision e) = RISK_CANCELLATION_OUTCOME then member_ids else work_ids)
                 in guardR (do_entity_id (nc_decision e) \<notin> wrong_ids)
                      (Value_Error ''natural decision is visibly bound to the wrong owner kind'')) natural)"

definition validate_claim_bindings ::
  "codec \<Rightarrow> ScrumCollections \<Rightarrow> SemanticCounterClaim list \<Rightarrow> EligibleNaturalDecisionClaim list \<Rightarrow> unit res" where
  "validate_claim_bindings cd st claims natural =
     bindR (guardR (st_counters st = [] \<and> st_evaluations st = [])
              (Value_Error ''counter and evaluation rows are owned by claims'')) (\<lambda>_.
     bindR (unique_claims claims) (\<lambda>claim_map.
     bindR (unique_natural_claims natural) (\<lambda>natural_map.
     let natural_scopes = map natural_scope natural in
     bindR (guardR (distinct natural_scopes) (Value_Error ''natural counter scopes must be unique per command'')) (\<lambda>_.
     bindR (validate_natural_bindings claim_map (map snd natural_map)) (\<lambda>_.
     bindR (validate_visible_natural_owners st natural) (\<lambda>_.
     let claimed_natural = {scope \<in> set (map fst claim_map). cs_kind scope = NATURAL_DECISION_OCCURRENCE} in
     bindR (guardR (claimed_natural = set natural_scopes)
              (Value_Error ''missing, extra, or unrelated natural counter claim'')) (\<lambda>_.
       validate_allocation_ranges cd st claim_map)))))))"

section \<open>The command\<close>

record AuthoritativeTickSliceCommit =
  au_live :: TickSliceCommit
  au_state :: ScrumStateWriteSet
  au_claims :: "SemanticCounterClaim list"
  au_natural :: "EligibleNaturalDecisionClaim list"

definition validate_authoritative :: "scrum_env \<Rightarrow> AuthoritativeTickSliceCommit \<Rightarrow> unit res" where
  "validate_authoritative env k =
     bindR (validate_commit (en_codec env) (au_live k)) (\<lambda>_.
     bindR (validate_state env (au_state k)) (\<lambda>_.
     bindR (forR check_claim (au_claims k)) (\<lambda>_.
     bindR (forR check_natural_claim (au_natural k)) (\<lambda>_.
     bindR (validate_coordinates (au_state k) (tc_team_id (au_live k)) (tc_run_id (au_live k))) (\<lambda>_.
       validate_claim_bindings (en_codec env) (au_state k) (au_claims k) (au_natural k))))))"

section \<open>The committed result\<close>

record CommittedAuthoritativeTickSlice =
  ca_live :: CommittedTickSlice
  ca_state :: ScrumStateSnapshot
  ca_counters :: "SemanticCounter list"
  ca_evaluations :: "NaturalDecisionEvaluation list"

definition validate_runtime :: "codec \<Rightarrow> TeamRuntime \<Rightarrow> unit res" where
  "validate_runtime cd rt =
     bindR (guardR (0 \<le> rt_version rt) (Value_Error ''runtime version must be non-negative'')) (\<lambda>_.
     bindR (require_text (rt_state rt) ''runtime state'') (\<lambda>_.
     bindR (guardR (rt_id rt = semantic_uuid cd (''runtime/'' @ uuid_text (rt_team_id rt)))
              (Value_Error ''runtime id must match its semantic team coordinate'')) (\<lambda>_.
       guardR (rt_created_at rt \<le> rt_updated_at rt)
         (Value_Error ''runtime updated_at must not precede created_at''))))"

definition validate_ledger_metadata :: "'d stored \<Rightarrow> TeamRuntime \<Rightarrow> unit res" where
  "validate_ledger_metadata row rt =
     bindR (guardR (st_append_sequence row \<noteq> 0) (Value_Error ''append_sequence must be positive'')) (\<lambda>_.
       guardR ((Live_Slice.st_team_id row, Live_Slice.st_run_id row) = (rt_team_id rt, rt_run_id rt))
         (Value_Error ''committed ledger row must match the runtime team/run''))"

definition validate_committed_collection ::
  "('d draft \<Rightarrow> unit res) \<Rightarrow> 'd stored list \<Rightarrow> TeamRuntime \<Rightarrow> unit res" where
  "validate_committed_collection check rows rt =
     forR (\<lambda>row. bindR (check (st_draft row)) (\<lambda>_. validate_ledger_metadata row rt)) rows"

definition validate_committed_live :: "codec \<Rightarrow> CommittedTickSlice \<Rightarrow> unit res" where
  "validate_committed_live cd s =
     bindR (validate_runtime cd (cs_runtime s)) (\<lambda>_.
     bindR (validate_committed_collection (validate_activity cd) (cs_activity s) (cs_runtime s)) (\<lambda>_.
     bindR (validate_committed_collection (validate_ground_truth cd) (cs_ground_truth s) (cs_runtime s)) (\<lambda>_.
       validate_committed_collection (validate_projection cd) (cs_projection_intents s) (cs_runtime s))))"

definition validate_result_coordinates ::
  "SemanticCounter list \<Rightarrow> NaturalDecisionEvaluation list \<Rightarrow> TeamRuntime \<Rightarrow> unit res" where
  "validate_result_coordinates counters evaluations rt =
     guardR (\<forall>c \<in> set (map (\<lambda>k. (sn_team_id k, sn_run_id k)) counters @
                        map (\<lambda>e. (ne_team_id e, ne_run_id e)) evaluations). c = (rt_team_id rt, rt_run_id rt))
       (Value_Error ''committed claims must match the committed runtime'')"

definition validate_snapshot_members :: "('a \<Rightarrow> 'k) \<Rightarrow> 'a list \<Rightarrow> 'a list \<Rightarrow> string \<Rightarrow> unit res" where
  "validate_snapshot_members identity returned rows label =
     bindR (guardR (distinct (map identity returned))
              (Value_Error (''returned '' @ label @ '' values must be unique snapshot members''))) (\<lambda>_.
     let by_identity = dict_of identity rows in
       guardR (\<forall>x \<in> set returned. map_of by_identity (identity x) = Some x)
         (Value_Error (''returned '' @ label @ '' must be an exact snapshot member'')))"

definition validate_committed :: "scrum_env \<Rightarrow> CommittedAuthoritativeTickSlice \<Rightarrow> unit res" where
  "validate_committed env s =
     bindR (validate_committed_live (en_codec env) (ca_live s)) (\<lambda>_.
     bindR (validate_snapshot env (ca_state s)) (\<lambda>_.
     bindR (forR check_counter (ca_counters s)) (\<lambda>_.
     bindR (forR (check_evaluation (en_codec env) (en_date_text env)) (ca_evaluations s)) (\<lambda>_.
     let rt = cs_runtime (ca_live s) in
     bindR (validate_coordinates (ca_state s) (rt_team_id rt) (rt_run_id rt)) (\<lambda>_.
     bindR (validate_result_coordinates (ca_counters s) (ca_evaluations s) rt) (\<lambda>_.
     bindR (validate_snapshot_members counter_identity (ca_counters s) (st_counters (ca_state s)) ''counter'') (\<lambda>_.
       validate_snapshot_members ne_id (ca_evaluations s) (st_evaluations (ca_state s)) ''natural evaluation'')))))))"

section \<open>Claims own the rows they allocate\<close>

lemma bindR_unitE:
  assumes "bindR (m :: unit res) f = Inr y"
  obtains "m = Inr ()" "f () = Inr y"
  using assms by (cases m) auto

lemma natural_scope_valid: "check_counter_scope (natural_scope e) = Inr ()"
proof -
  have "decision_value d \<in> decision_value ` set ALL_DECISIONS" for d
    by (cases d) (simp_all add: ALL_DECISIONS_def)
  moreover have "require_text (decision_value d) l = Inr (decision_value d)" for d l
    by (cases d) (simp_all add: require_text_def is_space_def)
  ultimately show ?thesis by (simp add: check_counter_scope_def natural_scope_def scope_keys_def)
qed

text \<open>The rows of a scope: the ordinal, the identifier, and the identifier the ordinal stands for.\<close>

definition allocated :: "codec \<Rightarrow> ScrumCollections \<Rightarrow> SemanticCounterScope \<Rightarrow> (int \<times> uuid \<times> uuid res) list" where
  "allocated cd st scope =
     (case cs_kind scope of
        SPRINT_ORDINAL \<Rightarrow>
          map (\<lambda>s. (ss_ordinal s, ss_id s, sprint_rng_id cd (ss_team_id s) (ss_ordinal s)))
            (filter (\<lambda>s. ss_team_id s = cs_scope_id scope) (st_sprints st))
      | ITEM_SEQUENCE \<Rightarrow>
          map (\<lambda>w. (wi_creation_sequence w, wi_id w, item_rng_id cd (wi_team_id w) (wi_creation_kind w) (wi_creation_sequence w)))
            (filter (\<lambda>w. wi_team_id w = cs_scope_id scope \<and> creation_value (wi_creation_kind w) = cs_scope_key scope)
              (st_work_items st))
      | _ \<Rightarrow>
          map (\<lambda>v. (sv_ordinal v, sv_id v, visit_rng_id cd (sv_work_item_id v) (sv_ordinal v)))
            (filter (\<lambda>v. sv_work_item_id v = cs_scope_id scope) (st_visits st)))"

lemma coordinates_allocated: "coordinates_for_scope st scope = map fst (allocated cd st scope)"
  by (cases "cs_kind scope") (simp_all add: coordinates_for_scope_def allocated_def)

lemma identities_match_Inr:
  "identities_match actual expected rows = Inr () \<longleftrightarrow> (\<forall>x \<in> set rows. expected x = Inr (actual x))"
  by (auto simp: identities_match_def forR_eq_Inr bindR_eq_Inr guardR_eq_Inr)

lemma allocated_ids_match:
  assumes "validate_allocated_ids cd st scope k = Inr ()" and "(n, i, e) \<in> set (allocated cd st scope)"
    and "cl_expected_next k \<le> n" "n < cl_expected_next k + cl_count k"
  shows "e = Inr i"
  using assms
  by (cases "cs_kind scope") (auto simp: validate_allocated_ids_def allocated_def identities_match_Inr)

text \<open>A sorted list that covers a range contiguously has every number of the range once.\<close>

lemma contiguous_once:
  assumes c: "\<forall>(i, n) \<in> set (enumerate 0 covered). n = start + int i" and "int (length covered) = m"
    and "start \<le> n" "n < start + m"
  shows "filter (\<lambda>x. x = n) covered = [n]"
proof -
  have at: "covered ! i = start + int i" if "i < length covered" for i
  proof -
    have "(i, covered ! i) \<in> set (enumerate 0 covered)" using that by (simp add: in_set_enumerate_eq)
    then show ?thesis using c by auto
  qed
  have "covered = map (\<lambda>i. start + int i) [0..<length covered]"
    by (rule nth_equalityI) (simp_all add: at)
  then have "distinct covered" by (metis (mono_tags, lifting) distinct_map distinct_upt inj_onI add_left_cancel of_nat_eq_iff)
  moreover have "n \<in> set covered"
  proof -
    have i: "nat (n - start) < length covered" using assms by linarith
    then have "covered ! nat (n - start) = n" using at[OF i] assms(3) by simp
    then show ?thesis using i nth_mem by metis
  qed
  ultimately show ?thesis
    by (induction covered) (auto simp: filter_empty_conv)
qed

lemma filter_fst_single:
  assumes "filter (\<lambda>x. x = n) (map fst rows) = [n]"
  obtains r where "filter (\<lambda>p. fst p = n) rows = [r]" "fst r = n"
proof -
  have "map fst (filter (\<lambda>p. fst p = n) rows) = [n]" using assms by (simp add: filter_map comp_def)
  then show thesis using that by (auto simp: map_eq_Cons_conv)
qed

lemma allocation_range_once:
  assumes "validate_allocation_range cd st scope k = Inr ()" and "cs_kind scope \<noteq> NATURAL_DECISION_OCCURRENCE"
    and n: "cl_expected_next k \<le> n" "n < cl_expected_next k + cl_count k"
  shows "\<exists>i. filter (\<lambda>p. fst p = n) (allocated cd st scope) = [(n, i, Inr i)]"
proof -
  define covered where "covered = filter (\<lambda>n. cl_expected_next k \<le> n \<and> n < cl_expected_next k + cl_count k)
      (sort (coordinates_for_scope st scope))"
  have v: "int (length covered) = cl_count k" "\<forall>(i, n) \<in> set (enumerate 0 covered). n = cl_expected_next k + int i"
    "validate_allocated_ids cd st scope k = Inr ()"
    using assms(1,2) by (simp_all add: validate_allocation_range_def Let_def bindR_check guardR_eq_Inr covered_def)
  have "filter (\<lambda>x. x = n) covered = filter (\<lambda>x. x = n) (sort (coordinates_for_scope st scope))"
    using n by (auto simp: covered_def intro!: filter_cong)
  then have "mset (filter (\<lambda>x. x = n) (coordinates_for_scope st scope)) = {#n#}"
    using contiguous_once[OF v(2,1) n] by (metis mset_filter mset_single_iff mset_sort)
  then have "filter (\<lambda>x. x = n) (map fst (allocated cd st scope)) = [n]"
    unfolding coordinates_allocated[of st scope cd] mset_single_iff .
  then obtain r where r: "filter (\<lambda>p. fst p = n) (allocated cd st scope) = [r]" "fst r = n"
    by (rule filter_fst_single)
  then obtain i e where ie: "r = (n, i, e)" by (cases r) auto
  have "r \<in> set (filter (\<lambda>p. fst p = n) (allocated cd st scope))" using r(1) by simp
  then have "e = Inr i" using allocated_ids_match[OF v(3) _ n] ie by auto
  then show ?thesis using r(1) ie by simp
qed

lemma dict_of_length:
  assumes "length (dict_of key xs) = length xs"
  shows "distinct (map key xs)"
proof -
  have d: "distinct (map fst (dict_of key xs))" using well_keyed_dict_of[of key xs] by (simp add: well_keyed_def)
  have "fst ` set (dict_of key xs) = key ` set xs"
    by (induction xs rule: rev_induct) (auto simp: dict_of_def[of _ "[]"] dict_of_snoc keys_dict_set)
  then have "card (set (map key xs)) = length (dict_of key xs)"
    using distinct_card[OF d] by simp
  then show ?thesis using assms by (simp add: card_distinct)
qed

lemma unique_claims_Inr:
  assumes "unique_claims claims = Inr result" and "k \<in> set claims"
  shows "map_of result (cl_scope k) = Some k"
proof -
  have "result = dict_of cl_scope claims" "length (dict_of cl_scope claims) = length claims"
    using assms(1) by (auto simp: unique_claims_def Let_def split: if_splits)
  then show ?thesis using dict_of_distinct[OF dict_of_length, of cl_scope claims] assms(2) by simp
qed

lemma unique_natural_Inr:
  assumes "unique_natural_claims natural = Inr result" and "e \<in> set natural"
  shows "e \<in> set (map snd result)"
proof -
  have r: "result = dict_of natural_key natural" "length (dict_of natural_key natural) = length natural"
    using assms(1) by (auto simp: unique_natural_claims_def Let_def split: if_splits)
  then have "map_of result (natural_key e) = Some e"
    using dict_of_distinct[OF dict_of_length, of natural_key natural] assms(2) by simp
  then show ?thesis by (force dest: map_of_SomeD)
qed

lemma natural_bindings_Inr:
  assumes "validate_natural_bindings claims natural = Inr ()" and "e \<in> set natural"
  shows "\<exists>k. map_of claims (natural_scope e) = Some k \<and> cl_count k = 1 \<and> do_occurrence (nc_decision e) = cl_expected_next k"
  using assms
  by (auto simp: validate_natural_bindings_def forR_eq_Inr bindR_check guardR_eq_Inr split: option.splits)

lemma unique_claims_from:
  assumes "unique_claims claims = Inr result" and "map_of result scope = Some c"
  shows "c \<in> set claims" "cl_scope c = scope"
  using assms by (auto simp: unique_claims_def Let_def dest: set_dict_of split: if_splits)

text \<open>(C18) No claim of a valid command is idle: each ordinal of a claimed range is
  the ordinal of exactly one row of the command, whose identifier is the one the ordinal stands for,
  and each claim on natural decisions has count one and exactly one decision, whose occurrence is the
  next value of its counter. Conversely every natural decision of the command is claimed; that a row is claimed is not a
  matter of the command's own checks, the store refuses an unclaimed new row. Claims have different scopes, and the command writes no counter itself.\<close>

theorem claims_own_allocations:
  assumes "validate_authoritative env k = Inr ()" and "claim \<in> set (au_claims k)"
  shows "(if cs_kind (cl_scope claim) = NATURAL_DECISION_OCCURRENCE
      then cl_count claim = 1 \<and>
        (\<exists>!e. e \<in> set (au_natural k) \<and> natural_scope e = cl_scope claim) \<and>
        (\<exists>e \<in> set (au_natural k). natural_scope e = cl_scope claim \<and> do_occurrence (nc_decision e) = cl_expected_next claim)
      else \<forall>n. cl_expected_next claim \<le> n \<and> n < cl_expected_next claim + cl_count claim \<longrightarrow>
        (\<exists>i. filter (\<lambda>p. fst p = n) (allocated (en_codec env) (au_state k) (cl_scope claim)) = [(n, i, Inr i)])) \<and>
    (\<forall>e \<in> set (au_natural k). \<exists>c \<in> set (au_claims k). cl_scope c = natural_scope e \<and> cl_count c = 1 \<and>
       cl_expected_next c = do_occurrence (nc_decision e)) \<and>
    (\<forall>other \<in> set (au_claims k). cl_scope other = cl_scope claim \<longrightarrow> other = claim) \<and>
    st_counters (au_state k) = []"
proof -
  obtain claim_map natural_map where b: "unique_claims (au_claims k) = Inr claim_map"
    "unique_natural_claims (au_natural k) = Inr natural_map"
    "distinct (map natural_scope (au_natural k))"
    "validate_natural_bindings claim_map (map snd natural_map) = Inr ()"
    "{scope \<in> set (map fst claim_map). cs_kind scope = NATURAL_DECISION_OCCURRENCE} = set (map natural_scope (au_natural k))"
    "validate_allocation_ranges (en_codec env) (au_state k) claim_map = Inr ()" "st_counters (au_state k) = []"
  proof -
    have "validate_claim_bindings (en_codec env) (au_state k) (au_claims k) (au_natural k) = Inr ()"
      using assms(1) by (simp add: validate_authoritative_def bindR_check)
    then show thesis
      unfolding validate_claim_bindings_def Let_def by (elim bindR_unitE bindR_InrE) (rule that; (assumption | (unfold guardR_eq_Inr, blast)))
  qed
  have m: "map_of claim_map (cl_scope claim) = Some claim" by (rule unique_claims_Inr[OF b(1) assms(2)])
  have unique: "\<forall>other \<in> set (au_claims k). cl_scope other = cl_scope claim \<longrightarrow> other = claim"
    using unique_claims_Inr[OF b(1)] m by (metis option.inject)
  have claimed: "\<forall>e \<in> set (au_natural k). \<exists>c \<in> set (au_claims k). cl_scope c = natural_scope e \<and> cl_count c = 1 \<and>
      cl_expected_next c = do_occurrence (nc_decision e)"
  proof
    fix e assume "e \<in> set (au_natural k)"
    then obtain c where c: "map_of claim_map (natural_scope e) = Some c" "cl_count c = 1" "do_occurrence (nc_decision e) = cl_expected_next c"
      using natural_bindings_Inr[OF b(4)] unique_natural_Inr[OF b(2)] by blast
    then show "\<exists>c \<in> set (au_claims k). cl_scope c = natural_scope e \<and> cl_count c = 1 \<and> cl_expected_next c = do_occurrence (nc_decision e)"
      using unique_claims_from[OF b(1) c(1)] by auto
  qed
  show ?thesis
  proof (cases "cs_kind (cl_scope claim) = NATURAL_DECISION_OCCURRENCE")
    case True
    have "cl_scope claim \<in> set (map fst claim_map)" using m by (metis image_eqI map_of_SomeD fst_conv list.set_map)
    then have "cl_scope claim \<in> set (map natural_scope (au_natural k))" using b(5) True by blast
    then obtain e where e: "e \<in> set (au_natural k)" "natural_scope e = cl_scope claim" by auto
    then obtain c where "map_of claim_map (natural_scope e) = Some c" "cl_count c = 1" "do_occurrence (nc_decision e) = cl_expected_next c"
      using natural_bindings_Inr[OF b(4)] unique_natural_Inr[OF b(2)] by blast
    then have "cl_count claim = 1" "do_occurrence (nc_decision e) = cl_expected_next claim" using e(2) m by simp_all
    moreover have "\<exists>!e. e \<in> set (au_natural k) \<and> natural_scope e = cl_scope claim"
      using e distinct_map_eq[OF b(3)] by metis
    ultimately show ?thesis using True e unique claimed b(7) by auto
  next
    case False
    have "validate_allocation_range (en_codec env) (au_state k) (cl_scope claim) claim = Inr ()"
      using b(6) map_of_SomeD[OF m] by (auto simp: validate_allocation_ranges_def forR_eq_Inr)
    from allocation_range_once[OF this False] show ?thesis using False unique claimed b(7) by simp
  qed
qed

section \<open>A command of the sample team\<close>

text \<open>The command that would store the first visit of the sample team, with its claim.\<close>

definition visit_claim_demo :: SemanticCounterClaim where
  "visit_claim_demo = \<lparr>cl_scope = \<lparr>cs_kind = VISIT_ORDINAL, cs_scope_id = 59, cs_scope_key = ''VISIT''\<rparr>,
     cl_expected_next = 0, cl_count = 1\<rparr>"

definition cancellation_claim_demo :: SemanticCounterClaim where
  "cancellation_claim_demo = \<lparr>cl_scope = \<lparr>cs_kind = NATURAL_DECISION_OCCURRENCE, cs_scope_id = 59,
       cs_scope_key = ''RISK_CANCELLATION_OUTCOME''\<rparr>, cl_expected_next = 0, cl_count = 1\<rparr>"

definition cancellation_demo :: EligibleNaturalDecisionClaim where
  "cancellation_demo = \<lparr>nc_decision = \<lparr>do_entity_id = 59, do_decision_type = RISK_CANCELLATION_OUTCOME, do_occurrence = 0\<rparr>,
     nc_business_date = 8\<rparr>"

definition demo_command :: AuthoritativeTickSliceCommit where
  "demo_command = \<lparr>au_live = \<lparr>tc_commit_id = 9, tc_team_id = 69, tc_run_id = 42, tc_expected_runtime_version = 3,
       tc_runtime_after = \<lparr>ra_state = ''RUNNING'', ra_simulation_time = 640800000000, ra_next_wake_at = None\<rparr>,
       tc_activity = [], tc_ground_truth = [], tc_projection_intents = [], tc_recorded_at = 640800000000\<rparr>,
     au_state = first_state\<lparr>st_counters := []\<rparr>,
     au_claims = [visit_claim_demo, cancellation_claim_demo], au_natural = [cancellation_demo]\<rparr>"

lemma bare_state_valid: "validate_state demo_env (first_state\<lparr>st_counters := []\<rparr>) = Inr ()"
proof -
  have v: "validate_state demo_env first_state = Inr ()" using first_write_set by (auto simp: write_set_def bindR_check)
  have "validate_collections demo_env (first_state\<lparr>st_counters := []\<rparr>) = Inr ()"
    "validate_uniqueness (first_state\<lparr>st_counters := []\<rparr>) = Inr ()"
    using validate_state_parts(1,2)[OF v]
    by (simp_all add: validate_collections_def validate_uniqueness_def unique_identities_def bindR_check forR_eq_Inr guardR_eq_Inr Let_def)
  moreover have "validate_partial_uniqueness (first_state\<lparr>st_counters := []\<rparr>) = Inr ()"
    "validate_open_visit_status (first_state\<lparr>st_counters := []\<rparr>) = Inr ()"
    "validate_sample_links (st_visits first_state) (st_samples first_state) = Inr ()"
    using validate_state_parts(3,6,7)[OF v] by (simp_all add: validate_partial_uniqueness_def validate_open_visit_status_def)
  moreover have "validate_one_team_run (first_state\<lparr>st_counters := []\<rparr>) = Inr ()"
    by (simp add: validate_one_team_run_def state_teams_def state_runs_def first_state_sel started_coordinates demo_coordinates)
  ultimately show ?thesis by (simp add: validate_state_def)
qed

lemma demo_command_valid: "validate_authoritative demo_env demo_command = Inr ()"
proof -
  have live: "validate_commit demo_codec (au_live demo_command) = Inr ()"
    by (simp add: demo_command_def validate_commit_def non_negative_def check_runtime_advance_def non_empty_def blank_def is_space_def)
  have claims: "check_claim visit_claim_demo = Inr ()" "check_claim cancellation_claim_demo = Inr ()"
    using natural_scope_valid[of cancellation_demo]
    by (simp_all add: check_claim_def visit_claim_demo_def cancellation_claim_demo_def cancellation_demo_def natural_scope_def
        check_counter_scope_def[of "\<lparr>cs_kind = VISIT_ORDINAL, cs_scope_id = 59, cs_scope_key = ''VISIT''\<rparr>"]
        require_text_def is_space_def scope_keys_def safe_integer_def MAX_SAFE_INTEGER_def U53_DENOMINATOR_def)
  have natural: "check_natural_claim cancellation_demo = Inr ()"
    by (simp add: check_natural_claim_def validate_decision_def cancellation_demo_def decision_occurrence_def NATURAL_OWNER_DECISIONS_def)
  have coordinates: "validate_coordinates (first_state\<lparr>st_counters := []\<rparr>) 69 42 = Inr ()"
    by (simp add: validate_coordinates_def state_teams_def state_runs_def first_state_sel started_coordinates demo_coordinates)
  have ids: "visit_rng_id demo_codec 59 0 = Inr 44" by (rule demo_ids)
  have "validate_claim_bindings demo_codec (first_state\<lparr>st_counters := []\<rparr>) [visit_claim_demo, cancellation_claim_demo]
      [cancellation_demo] = Inr ()"
    by (simp add: validate_claim_bindings_def first_state_sel unique_claims_def unique_natural_claims_def dict_of_def Let_def
        visit_claim_demo_def cancellation_claim_demo_def cancellation_demo_def natural_scope_def natural_key_def
        validate_natural_bindings_def validate_visible_natural_owners_def started_coordinates demo_coordinates
        validate_allocation_ranges_def validate_allocation_range_def coordinates_for_scope_def validate_allocated_ids_def
        identities_match_def ids conj_commute)
      (auto simp: guardR_eq_Inr bindR_check)
  then show ?thesis
    using live claims natural coordinates bare_state_valid
    by (simp add: validate_authoritative_def demo_sel) (simp add: demo_command_def)
qed

theorem claims_own_allocations_witness:
  "filter (\<lambda>p. fst p = 0) (allocated demo_codec (first_state\<lparr>st_counters := []\<rparr>) (cl_scope visit_claim_demo)) = [(0, 44, Inr 44)] \<and>
   cl_count cancellation_claim_demo = 1"
proof -
  have c: "visit_claim_demo \<in> set (au_claims demo_command)" "cancellation_claim_demo \<in> set (au_claims demo_command)"
    "au_state demo_command = first_state\<lparr>st_counters := []\<rparr>"
    by (simp_all add: demo_command_def)
  have k: "cs_kind (cl_scope visit_claim_demo) \<noteq> NATURAL_DECISION_OCCURRENCE" "cl_expected_next visit_claim_demo = 0"
    "cl_count visit_claim_demo = 1" by (simp_all add: visit_claim_demo_def)
  from claims_own_allocations[OF demo_command_valid c(1)]
  have "\<exists>i. filter (\<lambda>p. fst p = 0) (allocated demo_codec (first_state\<lparr>st_counters := []\<rparr>) (cl_scope visit_claim_demo)) = [(0, i, Inr i)]"
    using k unfolding c(3) demo_sel by simp
  moreover have "map (\<lambda>(n, i, e). i) (allocated demo_codec (first_state\<lparr>st_counters := []\<rparr>) (cl_scope visit_claim_demo)) = [44]"
    by (simp add: allocated_def visit_claim_demo_def first_state_sel started_coordinates)
  ultimately show ?thesis
    using claims_own_allocations[OF demo_command_valid c(2)]
    by (auto simp: allocated_def visit_claim_demo_def first_state_sel started_coordinates cancellation_claim_demo_def split: if_splits)
qed

end
