(* ===== verification/Sprint_Boundary.thy ===== *)
theory Sprint_Boundary
  imports Authoritative_Slice
begin

text \<open>
  What happens at the fixed boundary of a sprint (\<open>v2/domain/sprint_lifecycle.py\<close>): a planned sprint
  starts with the work selected for it, an active sprint is completed and its successor takes over the
  active items and fills up from the backlog; and the drafts for the ledgers and for Jira.
\<close>

section \<open>Drafts\<close>

text \<open>An envelope of schema version 1.0 with nothing supplied, and the three kinds of draft over it.\<close>

definition make_envelope :: "string \<Rightarrow> instant \<Rightarrow> json \<Rightarrow> DraftEnvelope res" where
  "make_envelope key occurred_at payload =
     built check_envelope
       \<lparr>de_semantic_key = key, de_schema_version = ''1.0'', de_occurred_at = occurred_at, de_payload = payload,
        de_supplied_id = None, de_supplied_payload_sha256 = None\<rparr>"

definition activity_draft :: "codec \<Rightarrow> DraftEnvelope res \<Rightarrow> ActivityDetails \<Rightarrow> ActivityEventDraft res" where
  "activity_draft cd envelope details =
     bindR envelope (\<lambda>e. bindR (built check_activity_details details) (create_draft cd ''activity'' check_activity_details e))"

definition ground_truth_draft :: "codec \<Rightarrow> DraftEnvelope res \<Rightarrow> GroundTruthDetails \<Rightarrow> GroundTruthRecordDraft res" where
  "ground_truth_draft cd envelope details =
     bindR envelope (\<lambda>e. bindR (built check_ground_truth_details details)
       (create_draft cd ''ground-truth'' check_ground_truth_details e))"

definition projection_draft :: "codec \<Rightarrow> DraftEnvelope res \<Rightarrow> ProjectionDetails \<Rightarrow> ProjectionIntentDraft res" where
  "projection_draft cd envelope details =
     bindR envelope (\<lambda>e. bindR (built check_projection_details details)
       (create_draft cd ''projection'' check_projection_details e))"

text \<open>\<open>str.lower\<close> on ASCII text.\<close>

definition lower_char :: "char \<Rightarrow> char" where
  "lower_char ch = (let n = of_char ch :: nat in if 65 \<le> n \<and> n \<le> 90 then char_of (n + 32) else ch)"

abbreviation lower :: "string \<Rightarrow> string" where
  "lower \<equiv> map lower_char"

section \<open>Transitions\<close>

record SprintTransition =
  tn_state :: ScrumStateWriteSet
  tn_activity :: "ActivityEventDraft list"
  tn_ground_truth :: "GroundTruthRecordDraft list"
  tn_intents :: "ProjectionIntentDraft list"
  tn_claims :: "SemanticCounterClaim list"
  tn_natural :: "EligibleNaturalDecisionClaim list"

record PlannedScope =
  pl_work_items :: "WorkItemState list"
  pl_scope :: "SprintScopeEntry list"
  pl_visits :: "StatusVisitState list"
  pl_samples :: "StatusVisitSample list"
  pl_claims :: "SemanticCounterClaim list"

record TransitionContext =
  tx_state :: LiveTeamState
  tx_write_set :: ScrumStateWriteSet
  tx_claims :: "SemanticCounterClaim list"
  tx_previous :: SprintState
  tx_current :: SprintState
  tx_boundary :: instant

definition boundary_key :: "LiveTeamState \<Rightarrow> int \<Rightarrow> string \<Rightarrow> string" where
  "boundary_key st ordinal suffix =
     ''sprint-boundary/'' @ uuid_text (rt_team_id (lt_runtime st)) @ ''/'' @ uuid_text (rt_run_id (lt_runtime st)) @
     ''/'' @ int_text ordinal @ ''/'' @ suffix"

definition boundary_activity :: "codec \<Rightarrow> TransitionContext \<Rightarrow> string \<Rightarrow> ActivityEventDraft res" where
  "boundary_activity cd x event_type =
     (let sprint = tx_current x in
      activity_draft cd
        (make_envelope (boundary_key (tx_state x) (ss_ordinal sprint) ''activity'') (tx_boundary x)
          (JObj [(''sprint_id'', JStr (uuid_text (ss_id sprint)))]))
        \<lparr>ad_event_type = event_type, ad_aggregate_type = ''SPRINT'', ad_aggregate_id = ss_id sprint,
         ad_aggregate_version = rt_version (lt_runtime (tx_state x)) + 1\<rparr>)"

definition boundary_ground_truth :: "scrum_env \<Rightarrow> TransitionContext \<Rightarrow> GroundTruthRecordDraft res" where
  "boundary_ground_truth env x =
     ground_truth_draft (en_codec env)
       (make_envelope (boundary_key (tx_state x) (ss_ordinal (tx_current x)) ''ground-truth'') (tx_boundary x)
         (JObj [(''boundary'', JStr (en_instant_text env (tx_boundary x))),
                (''previous_sprint_id'', JStr (uuid_text (ss_id (tx_previous x)))),
                (''current_sprint_id'', JStr (uuid_text (ss_id (tx_current x)))),
                (''carryover_policy'', JStr (sb_carryover_policy_version (bp_scrum (lt_blueprint (tx_state x)))))]))
       \<lparr>gt_record_type = ''SPRINT_BOUNDARY'', gt_provenance_type = ''SIMULATOR_V2''\<rparr>"

definition operation_sprint :: "TransitionContext \<Rightarrow> string \<Rightarrow> SprintState" where
  "operation_sprint x operation = (if operation = ''COMPLETE_SPRINT'' then tx_previous x else tx_current x)"

definition projection_payload :: "scrum_env \<Rightarrow> TransitionContext \<Rightarrow> string \<Rightarrow> string list \<Rightarrow> json" where
  "projection_payload env x operation dependency =
     (let sprint = operation_sprint x operation; b = lt_blueprint (tx_state x) in
      JObj ([(''sprint_id'', JStr (uuid_text (ss_id sprint))), (''depends_on'', JList (map JStr dependency))] @
        (if operation = ''CREATE_SPRINT''
         then [(''board_id'', JStr (uuid_text (vt_id (pa_team (lt_aggregate (tx_state x)))))),
               (''name'', JStr (''SIM-'' @ jb_project_key (bp_jira b) @ ''-'' @ take 12 (hex_text 32 (ss_id sprint)))),
               (''start_at'', JStr (en_instant_text env (ss_planned_start_at sprint))),
               (''end_at'', JStr (en_instant_text env (ss_planned_end_at sprint)))]
         else []) @
        (if operation = ''SCOPE_SPRINT''
         then [(''issue_ids'', JList (map (\<lambda>e. JStr (uuid_text (sc_work_item_id e)))
                  (filter (\<lambda>e. sc_sprint_id e = ss_id sprint \<and> sc_removed_at e = None) (st_scope (tx_write_set x)))))]
         else [])))"

text \<open>Every intent depends on the one before it.\<close>

fun projection_intents ::
  "scrum_env \<Rightarrow> TransitionContext \<Rightarrow> string list \<Rightarrow> string list \<Rightarrow> ProjectionIntentDraft list res" where
  "projection_intents env x dependency [] = Inr []"
| "projection_intents env x dependency (operation # operations) =
     bindR (projection_draft (en_codec env)
              (make_envelope (boundary_key (tx_state x) (ss_ordinal (tx_current x)) (lower operation)) (tx_boundary x)
                (projection_payload env x operation dependency))
              \<lparr>pd_target_kind = ''JIRA'', pd_operation_type = operation, pd_aggregate_id = ss_id (operation_sprint x operation),
               pd_aggregate_version = rt_version (lt_runtime (tx_state x)) + 1, pd_status = ''PENDING''\<rparr>) (\<lambda>intent.
     bindR (projection_intents env x [dr_semantic_key intent] operations) (\<lambda>rest. Inr (intent # rest)))"

definition boundary_transition ::
  "scrum_env \<Rightarrow> TransitionContext \<Rightarrow> string \<Rightarrow> string list \<Rightarrow> SprintTransition res" where
  "boundary_transition env x event_type operations =
     bindR (boundary_activity (en_codec env) x event_type) (\<lambda>activity.
     bindR (boundary_ground_truth env x) (\<lambda>truth.
     bindR (projection_intents env x [] operations) (\<lambda>intents.
       Inr \<lparr>tn_state = tx_write_set x, tn_activity = [activity], tn_ground_truth = [truth], tn_intents = intents,
            tn_claims = tx_claims x, tn_natural = []\<rparr>)))"

definition activation_transition :: "scrum_env \<Rightarrow> TransitionContext \<Rightarrow> SprintTransition res" where
  "activation_transition env x =
     boundary_transition env x ''SPRINT_STARTED'' [''CREATE_SPRINT'', ''SCOPE_SPRINT'', ''START_SPRINT'']"

definition rollover_transition :: "scrum_env \<Rightarrow> TransitionContext \<Rightarrow> SprintTransition res" where
  "rollover_transition env x =
     boundary_transition env x ''SPRINT_ROLLED_OVER''
       [''COMPLETE_SPRINT'', ''CREATE_SPRINT'', ''SCOPE_SPRINT'', ''START_SPRINT'']"

section \<open>Planning\<close>

definition visit_claim :: "LiveTeamState \<Rightarrow> uuid \<Rightarrow> SemanticCounterClaim res" where
  "visit_claim st work_item_id =
     bindR (built check_counter_scope \<lparr>cs_kind = VISIT_ORDINAL, cs_scope_id = work_item_id, cs_scope_key = ''VISIT''\<rparr>) (\<lambda>scope.
     bindR (find_or_stop (\<lambda>k. sn_scope k = scope) (st_counters (lt_scrum st))) (\<lambda>counter.
       built check_claim \<lparr>cl_scope = scope, cl_expected_next = sn_next_value counter, cl_count = 1\<rparr>))"

definition boundary_scope :: "codec \<Rightarrow> LiveTeamState \<Rightarrow> uuid \<Rightarrow> uuid list \<Rightarrow> instant \<Rightarrow> SprintScopeEntry list res" where
  "boundary_scope cd st sprint_id ids boundary =
     mapR (scope_entry cd (rt_team_id (lt_runtime st)) (rt_run_id (lt_runtime st)) sprint_id boundary) ids"

definition planned_scope :: "scrum_env \<Rightarrow> LiveTeamState \<Rightarrow> uuid \<Rightarrow> uuid list \<Rightarrow> instant \<Rightarrow> draw_source \<Rightarrow> PlannedScope res" where
  "planned_scope env st sprint_id selected boundary draws =
     bindR (activate_selected_work env (lt_aggregate st) boundary (st_member_identities (lt_scrum st))
              (st_work_items (lt_scrum st)) selected draws) (\<lambda>(work, visits, samples).
     let changed = filter (\<lambda>w. wi_id w \<in> set selected) work in
     bindR (boundary_scope (en_codec env) st sprint_id selected boundary) (\<lambda>scope.
     bindR (mapR (\<lambda>v. visit_claim st (sv_work_item_id v)) visits) (\<lambda>claims.
       Inr \<lparr>pl_work_items = changed, pl_scope = scope, pl_visits = visits, pl_samples = samples, pl_claims = claims\<rparr>)))"

definition carryover_ids :: "LiveTeamState \<Rightarrow> uuid \<Rightarrow> uuid list res" where
  "carryover_ids st sprint_id =
     (let work_by_id = dict_of wi_id (st_work_items (lt_scrum st)) in
      bindR (filterR (\<lambda>e. if sc_sprint_id e = sprint_id \<and> sc_removed_at e = None
                          then bindR (dict_get work_by_id (sc_work_item_id e)) (\<lambda>w. Inr (wi_lifecycle w = WI_ACTIVE))
                          else Inr False) (st_scope (lt_scrum st))) (\<lambda>entries.
        Inr (map sc_work_item_id entries)))"

definition ranked_backlog_ids :: "codec \<Rightarrow> LiveTeamState \<Rightarrow> uuid \<Rightarrow> uuid list \<Rightarrow> uuid list res" where
  "ranked_backlog_ids cd st sprint_id carry_ids =
     (let work_by_id = dict_of wi_id (st_work_items (lt_scrum st)); scrum = bp_scrum (lt_blueprint st) in
      bindR (mapR (\<lambda>i. bindR (dict_get work_by_id i) (\<lambda>w. Inr (wi_story_points w))) carry_ids) (\<lambda>carried.
      bindR (drawn (seeded_draws cd (lt_aggregate st)) sprint_id SCRUM_CAPACITY_TARGET) (\<lambda>draw.
      bindR (ranked_work (st_work_items (lt_scrum st))) (\<lambda>ordered.
        Inr (map wi_id (take_scope (sb_capacity_min_points scrum) (capacity_target scrum (ud_unit_value draw))
               (sum_list carried) (filter (\<lambda>w. wi_lifecycle w = WI_BACKLOG) ordered)))))))"

definition successor :: "scrum_env \<Rightarrow> LiveTeamState \<Rightarrow> SprintState \<Rightarrow> instant \<Rightarrow> (SprintState \<times> SemanticCounterClaim) res" where
  "successor env st sprint boundary =
     bindR (built check_counter_scope \<lparr>cs_kind = SPRINT_ORDINAL, cs_scope_id = ss_team_id sprint, cs_scope_key = ''SCRUM''\<rparr>) (\<lambda>scope.
     bindR (find_or_stop (\<lambda>k. sn_scope k = scope) (st_counters (lt_scrum st))) (\<lambda>counter.
     bindR (aggregate_calendar env (lt_aggregate st)) (\<lambda>cal.
     bindR (cadence_rule (sb_first_boundary (bp_scrum (lt_blueprint st))) (sb_cadence_days (bp_scrum (lt_blueprint st)))) (\<lambda>rule.
     let ordinal = sn_next_value counter in
     bindR (sprint_rng_id (en_codec env) (ss_team_id sprint) ordinal) (\<lambda>sprint_id.
     bindR (cadence_boundary cal rule ordinal) (\<lambda>planned_start.
     bindR (cadence_boundary cal rule (ordinal + 1)) (\<lambda>planned_end.
     bindR (built (check_sprint (en_codec env))
              \<lparr>ss_id = sprint_id, ss_team_id = ss_team_id sprint, ss_run_id = ss_run_id sprint, ss_ordinal = ordinal,
               ss_lifecycle = SP_ACTIVE, ss_planned_start_at = planned_start, ss_planned_end_at = planned_end,
               ss_observed_start_at = Some boundary, ss_observed_end_at = None, ss_created_at = boundary,
               ss_updated_at = boundary\<rparr>) (\<lambda>next.
     bindR (built check_claim \<lparr>cl_scope = scope, cl_expected_next = ordinal, cl_count = 1\<rparr>) (\<lambda>claim.
       Inr (next, claim))))))))))"

section \<open>Crossing a boundary\<close>

definition completed_sprint :: "codec \<Rightarrow> SprintState \<Rightarrow> instant \<Rightarrow> SprintState res" where
  "completed_sprint cd sprint boundary =
     built (check_sprint cd)
       (sprint\<lparr>ss_lifecycle := SP_COMPLETED, ss_observed_end_at := Some boundary, ss_updated_at := boundary\<rparr>)"

definition activate_planned_sprint :: "scrum_env \<Rightarrow> LiveTeamState \<Rightarrow> SprintState \<Rightarrow> instant \<Rightarrow> SprintTransition res" where
  "activate_planned_sprint env st sprint boundary =
     (let draws = seeded_draws (en_codec env) (lt_aggregate st) in
      bindR (selected_scope_ids (lt_aggregate st) (ss_id sprint) (st_work_items (lt_scrum st)) draws) (\<lambda>selected.
      bindR (ranked_work (st_work_items (lt_scrum st))) (\<lambda>ranked.
      let ordered = map wi_id (filter (\<lambda>w. wi_id w \<in> set selected) ranked) in
      bindR (planned_scope env st (ss_id sprint) ordered boundary draws) (\<lambda>plan.
      bindR (built (check_sprint (en_codec env))
               (sprint\<lparr>ss_lifecycle := SP_ACTIVE, ss_observed_start_at := Some boundary, ss_updated_at := boundary\<rparr>)) (\<lambda>activated.
      bindR (write_set env (empty_state\<lparr>st_work_items := pl_work_items plan, st_sprints := [activated],
               st_scope := pl_scope plan, st_visits := pl_visits plan, st_samples := pl_samples plan\<rparr>)) (\<lambda>ws.
        activation_transition env
          \<lparr>tx_state = st, tx_write_set = ws, tx_claims = pl_claims plan, tx_previous = sprint,
           tx_current = activated, tx_boundary = boundary\<rparr>))))))"

definition rolled_context :: "scrum_env \<Rightarrow> LiveTeamState \<Rightarrow> SprintState \<Rightarrow> instant \<Rightarrow> TransitionContext res" where
  "rolled_context env st sprint boundary =
     (let cd = en_codec env in
      bindR (successor env st sprint boundary) (\<lambda>(next, sprint_claim).
      bindR (carryover_ids st (ss_id sprint)) (\<lambda>carry_ids.
      bindR (ranked_backlog_ids cd st (ss_id next) carry_ids) (\<lambda>backlog_ids.
      bindR (planned_scope env st (ss_id next) backlog_ids boundary (seeded_draws cd (lt_aggregate st))) (\<lambda>plan.
      bindR (completed_sprint cd sprint boundary) (\<lambda>completed.
      bindR (mapR (\<lambda>e. built (check_scope_entry cd) (e\<lparr>sc_removed_at := Some boundary\<rparr>))
               (filter (\<lambda>e. sc_sprint_id e = ss_id sprint \<and> sc_removed_at e = None) (st_scope (lt_scrum st)))) (\<lambda>closed_scope.
      bindR (boundary_scope cd st (ss_id next) (carry_ids @ backlog_ids) boundary) (\<lambda>successor_scope.
      bindR (write_set env (empty_state\<lparr>st_work_items := pl_work_items plan, st_sprints := [completed, next],
               st_scope := closed_scope @ successor_scope, st_visits := pl_visits plan, st_samples := pl_samples plan\<rparr>)) (\<lambda>ws.
        Inr \<lparr>tx_state = st, tx_write_set = ws, tx_claims = sprint_claim # pl_claims plan, tx_previous = sprint,
             tx_current = next, tx_boundary = boundary\<rparr>)))))))))"

definition roll_active_sprint :: "scrum_env \<Rightarrow> LiveTeamState \<Rightarrow> SprintState \<Rightarrow> instant \<Rightarrow> SprintTransition res" where
  "roll_active_sprint env st sprint boundary =
     bindR (rolled_context env st sprint boundary) (rollover_transition env)"

definition empty_transition :: SprintTransition where
  "empty_transition = \<lparr>tn_state = empty_state, tn_activity = [], tn_ground_truth = [], tn_intents = [], tn_claims = [],
     tn_natural = []\<rparr>"

definition cross_sprint_boundary :: "scrum_env \<Rightarrow> LiveTeamState \<Rightarrow> instant \<Rightarrow> SprintTransition res" where
  "cross_sprint_boundary env st t =
     (case List.find (\<lambda>s. ss_lifecycle s = SP_PLANNED \<and> ss_planned_start_at s = t) (st_sprints (lt_scrum st)) of
        Some planned \<Rightarrow> activate_planned_sprint env st planned t
      | None \<Rightarrow>
          (case List.find (\<lambda>s. ss_lifecycle s = SP_ACTIVE \<and> ss_planned_end_at s = t) (st_sprints (lt_scrum st)) of
             Some active \<Rightarrow> roll_active_sprint env st active t
           | None \<Rightarrow> Inr empty_transition))"

section \<open>What a rollover does\<close>

definition current_entries :: "LiveTeamState \<Rightarrow> SprintState \<Rightarrow> SprintScopeEntry list" where
  "current_entries st sprint =
     filter (\<lambda>e. sc_sprint_id e = ss_id sprint \<and> sc_removed_at e = None) (st_scope (lt_scrum st))"

definition item_of :: "LiveTeamState \<Rightarrow> uuid \<Rightarrow> WorkItemState option" where
  "item_of st = map_of (dict_of wi_id (st_work_items (lt_scrum st)))"

definition still_active :: "LiveTeamState \<Rightarrow> uuid \<Rightarrow> bool" where
  "still_active st i = (case item_of st i of None \<Rightarrow> False | Some w \<Rightarrow> wi_lifecycle w = WI_ACTIVE)"

definition item_points :: "LiveTeamState \<Rightarrow> uuid \<Rightarrow> int" where
  "item_points st i = (case item_of st i of None \<Rightarrow> 0 | Some w \<Rightarrow> wi_story_points w)"

lemma carryover_ids_Inr:
  assumes "carryover_ids st (ss_id sprint) = Inr ids"
  shows "ids = map sc_work_item_id (filter (\<lambda>e. still_active st (sc_work_item_id e)) (current_entries st sprint))"
proof -
  define p :: "SprintScopeEntry \<Rightarrow> bool res" where "p = (\<lambda>e. if sc_sprint_id e = ss_id sprint \<and> sc_removed_at e = None
      then bindR (dict_get (dict_of wi_id (st_work_items (lt_scrum st))) (sc_work_item_id e)) (\<lambda>w. Inr (wi_lifecycle w = WI_ACTIVE))
      else Inr False)"
  obtain entries where e: "filterR p (st_scope (lt_scrum st)) = Inr entries" "ids = map sc_work_item_id entries"
    using assms by (auto simp: carryover_ids_def Let_def p_def elim!: bindR_InrE)
  have "(p e = Inr True) = ((sc_sprint_id e = ss_id sprint \<and> sc_removed_at e = None) \<and> still_active st (sc_work_item_id e))" for e
    by (auto simp: p_def still_active_def item_of_def dict_get_def split: option.splits)
  then have "entries = filter (\<lambda>e. (sc_sprint_id e = ss_id sprint \<and> sc_removed_at e = None) \<and>
      still_active st (sc_work_item_id e)) (st_scope (lt_scrum st))"
    using filterR_Inr[OF e(1)] by simp
  then show ?thesis using e(2) by (simp add: current_entries_def conj_commute)
qed

lemma carried_points:
  assumes "mapR (\<lambda>i. bindR (dict_get (dict_of wi_id (st_work_items (lt_scrum st))) i) (\<lambda>w. Inr (wi_story_points w))) ids = Inr carried"
  shows "carried = map (item_points st) ids"
  using assms
proof (induction ids arbitrary: carried)
  case (Cons i ids)
  then show ?case by (auto simp: item_points_def item_of_def dict_get_def elim!: bindR_InrE split: option.splits)
qed simp

lemma seeded_draws_unit: "seeded_draws cd a d = Inr u \<Longrightarrow> unit_draw_value (ud_unit_value u)"
  using stream_draw_Inr by (fastforce simp: seeded_draws_def unit_draw_value_def elim!: bindR_InrE)

text \<open>The backlog items that join: the front of the ranked backlog, by the points of what is carried over.\<close>

lemma ranked_backlog_ids_Inr:
  assumes "ranked_backlog_ids cd st sprint_id carry = Inr ids"
    and "validate_scrum (bp_scrum (lt_blueprint st)) = Inr ()" "sb_capacity_max_points (bp_scrum (lt_blueprint st)) < 2 ^ 53"
  obtains ranked target n where
    "mset ranked = mset (filter (\<lambda>w. wi_lifecycle w = WI_BACKLOG) (st_work_items (lt_scrum st)))"
    "sorted (map (rank_sort_key \<circ> simulator_rank) ranked)"
    "sb_capacity_min_points (bp_scrum (lt_blueprint st)) \<le> target" "target \<le> sb_capacity_max_points (bp_scrum (lt_blueprint st))"
    "n \<le> length ranked" "ids = map wi_id (take n ranked)"
    "\<forall>k < n. sum_list (map (item_points st) carry) + sum_list (map wi_story_points (take k ranked)) <
         sb_capacity_min_points (bp_scrum (lt_blueprint st)) \<or>
       sum_list (map (item_points st) carry) + sum_list (map wi_story_points (take (Suc k) ranked)) \<le> target"
    "n < length ranked \<longrightarrow>
       target < sum_list (map (item_points st) carry) + sum_list (map wi_story_points (take (Suc n) ranked))"
proof -
  let ?s = "bp_scrum (lt_blueprint st)"
  obtain carried draw ordered where r:
    "mapR (\<lambda>i. bindR (dict_get (dict_of wi_id (st_work_items (lt_scrum st))) i) (\<lambda>w. Inr (wi_story_points w))) carry = Inr carried"
    "drawn (seeded_draws cd (lt_aggregate st)) sprint_id SCRUM_CAPACITY_TARGET = Inr draw"
    "ranked_work (st_work_items (lt_scrum st)) = Inr ordered"
    "ids = map wi_id (take_scope (sb_capacity_min_points ?s) (capacity_target ?s (ud_unit_value draw)) (sum_list carried)
       (filter (\<lambda>w. wi_lifecycle w = WI_BACKLOG) ordered))"
    using assms(1) by (auto simp: ranked_backlog_ids_def Let_def elim!: bindR_InrE)
  have u: "unit_draw_value (ud_unit_value draw)" using r(2) seeded_draws_unit by (auto simp: drawn_def elim!: bindR_InrE)
  have "0 \<le> sb_capacity_min_points ?s \<and> sb_capacity_min_points ?s \<le> sb_capacity_max_points ?s"
    using assms(2) by (auto simp: validate_scrum_def field_constraint_def bindR_check guardR_eq_Inr)
  then have t: "sb_capacity_min_points ?s \<le> capacity_target ?s (ud_unit_value draw)"
    "capacity_target ?s (ud_unit_value draw) \<le> sb_capacity_max_points ?s"
    using capacity_target_bounds[OF u, of ?s] assms(3) by auto
  let ?ranked = "filter (\<lambda>w. wi_lifecycle w = WI_BACKLOG) ordered"
  obtain n where n: "n \<le> length ?ranked"
    "take_scope (sb_capacity_min_points ?s) (capacity_target ?s (ud_unit_value draw)) (sum_list carried) ?ranked = take n ?ranked"
    "\<forall>k < n. sum_list carried + sum_list (map wi_story_points (take k ?ranked)) < sb_capacity_min_points ?s \<or>
        sum_list carried + sum_list (map wi_story_points (take (Suc k) ?ranked)) \<le> capacity_target ?s (ud_unit_value draw)"
    "n < length ?ranked \<longrightarrow> capacity_target ?s (ud_unit_value draw) <
        sum_list carried + sum_list (map wi_story_points (take (Suc n) ?ranked))"
    using take_scope_prefix[of ?ranked "sb_capacity_min_points ?s" "capacity_target ?s (ud_unit_value draw)" "sum_list carried"]
    by blast
  have m: "mset ?ranked = mset (filter (\<lambda>w. wi_lifecycle w = WI_BACKLOG) (st_work_items (lt_scrum st)))"
    using ranked_work_sorted(1)[OF r(3)] by (metis mset_filter)
  have s: "sorted (map (rank_sort_key \<circ> simulator_rank) ?ranked)" by (rule sorted_filter[OF ranked_work_sorted(2)[OF r(3)]])
  show thesis
    by (rule that[OF m s t n(1)]) (use r(4) n(2-4) carried_points[OF r(1)] in simp_all)
qed

lemma boundary_scope_entries:
  assumes "boundary_scope cd st sprint_id ids t = Inr scope"
  shows "map sc_work_item_id scope = ids" and "\<forall>e \<in> set scope. sc_sprint_id e = sprint_id \<and> sc_removed_at e = None \<and> sc_added_at e = t"
proof -
  have e: "scope_entry cd x y sprint_id t i = Inr e \<Longrightarrow>
      sc_work_item_id e = i \<and> sc_sprint_id e = sprint_id \<and> sc_removed_at e = None \<and> sc_added_at e = t" for x y i e
    by (auto simp: scope_entry_def dest!: built_InrD)
  have "map sc_work_item_id scope = ids \<and> (\<forall>e \<in> set scope. sc_sprint_id e = sprint_id \<and> sc_removed_at e = None \<and> sc_added_at e = t)"
    using assms unfolding boundary_scope_def mapR_eq_Inr_iff by (induction rule: list_all2_induct) (auto dest: e)
  then show "map sc_work_item_id scope = ids" "\<forall>e \<in> set scope. sc_sprint_id e = sprint_id \<and> sc_removed_at e = None \<and> sc_added_at e = t"
    by blast+
qed

text \<open>A claim on one value of a counter that is stored, the next one of it.\<close>

definition claims_next_of :: "LiveTeamState \<Rightarrow> SemanticCounterScope \<Rightarrow> SemanticCounterClaim \<Rightarrow> bool" where
  "claims_next_of st scope c \<longleftrightarrow> cl_scope c = scope \<and> cl_count c = 1 \<and>
     (\<exists>n \<in> set (st_counters (lt_scrum st)). sn_scope n = scope \<and> cl_expected_next c = sn_next_value n)"

definition claims_next_visit :: "LiveTeamState \<Rightarrow> SemanticCounterClaim \<Rightarrow> StatusVisitState \<Rightarrow> bool" where
  "claims_next_visit st c v \<longleftrightarrow>
     claims_next_of st \<lparr>cs_kind = VISIT_ORDINAL, cs_scope_id = sv_work_item_id v, cs_scope_key = ''VISIT''\<rparr> c"

lemma visit_claim_of_visit: "visit_claim st (sv_work_item_id v) = Inr c \<Longrightarrow> claims_next_visit st c v"
  by (auto simp: visit_claim_def claims_next_visit_def claims_next_of_def elim!: bindR_InrE dest!: built_InrD find_or_stop_Inr)

lemma planned_scope_work:
  assumes "planned_scope env st sprint_id ids t draws = Inr plan" and "set ids \<subseteq> wi_id ` set (st_work_items (lt_scrum st))"
  shows "wi_id ` set (pl_work_items plan) = set ids"
    and "\<forall>w \<in> set (pl_work_items plan). wi_lifecycle w \<in> {WI_ACTIVE, WI_DONE}"
    and "list_all2 (claims_next_visit st) (pl_claims plan) (pl_visits plan)" and "sv_work_item_id ` set (pl_visits plan) \<subseteq> set ids"
    and "v \<in> set (pl_visits plan) \<Longrightarrow> \<exists>w \<in> set (pl_work_items plan). wi_lifecycle w = WI_ACTIVE \<and>
      first_visit (en_codec env) (lt_blueprint st) t (st_member_identities (lt_scrum st)) w v"
proof -
  obtain work visits samples claims where a:
    "activate_selected_work env (lt_aggregate st) t (st_member_identities (lt_scrum st)) (st_work_items (lt_scrum st)) ids draws =
       Inr (work, visits, samples)"
    "mapR (\<lambda>v. visit_claim st (sv_work_item_id v)) visits = Inr claims"
    "pl_work_items plan = filter (\<lambda>w. wi_id w \<in> set ids) work" "pl_visits plan = visits" "pl_claims plan = claims"
    using assms(1) by (auto simp: planned_scope_def Let_def elim!: bindR_InrE bindR_Inr3E)
  obtain results where r: "list_all2 (activated (mi_id ` set (st_member_identities (lt_scrum st))) ids) (st_work_items (lt_scrum st)) results"
    "work = map fst results" "visits = map fst (List.map_filter snd results)" "samples = map snd (List.map_filter snd results)"
    by (rule activate_selected_work_parts[OF a(1)])
  have ids: "map wi_id work = map wi_id (st_work_items (lt_scrum st))" using activated_list(1)[OF r(1)] r(2) by simp
  have "list_all2 (\<lambda>v c. claims_next_visit st c v) visits claims"
    using a(2) unfolding mapR_eq_Inr_iff by (rule list_all2_mono) (rule visit_claim_of_visit)
  then show "list_all2 (claims_next_visit st) (pl_claims plan) (pl_visits plan)"
    unfolding a(4,5) by (subst list_all2_conv_all_nth) (simp add: list_all2_conv_all_nth)
  have "wi_id ` set work = wi_id ` set (st_work_items (lt_scrum st))" using arg_cong[OF ids, of set] by simp
  then show "wi_id ` set (pl_work_items plan) = set ids" using assms(2) a(3) by auto
  show "\<forall>w \<in> set (pl_work_items plan). wi_lifecycle w \<in> {WI_ACTIVE, WI_DONE}"
  proof
    fix w assume "w \<in> set (pl_work_items plan)"
    then obtain q where q: "q \<in> set results" "w = fst q" "wi_id w \<in> set ids" using a(3) r(2) by auto
    obtain u where u: "activated (mi_id ` set (st_member_identities (lt_scrum st))) ids u q"
      using q(1) activated_list(2)[OF r(1)] by blast
    then show "wi_lifecycle w \<in> {WI_ACTIVE, WI_DONE}"
      using activatedD(1)[OF u] activatedD(3)[OF u] q(2,3) by simp
  qed
  show vs: "sv_work_item_id ` set (pl_visits plan) \<subseteq> set ids"
  proof
    fix i assume "i \<in> sv_work_item_id ` set (pl_visits plan)"
    then obtain v s where v: "(v, s) \<in> set (List.map_filter snd results)" "i = sv_work_item_id v" using a(4) r(3) by auto
    obtain u q where q: "activated (mi_id ` set (st_member_identities (lt_scrum st))) ids u q" "snd q = Some (v, s)"
      using activated_entered[OF r(1) v(1)] by metis
    have "wi_id u \<in> set ids"
    proof (rule ccontr)
      assume "wi_id u \<notin> set ids"
      then have "q = (u, None)" by (rule activatedD(2)[OF q(1)])
      then show False using q(2) by simp
    qed
    then show "i \<in> set ids" using activatedD(4)[OF q] v(2) by simp
  qed
  assume v: "v \<in> set (pl_visits plan)"
  then obtain w where w: "w \<in> set work" "wi_lifecycle w = WI_ACTIVE"
    "first_visit (en_codec env) (lt_blueprint st) t (st_member_identities (lt_scrum st)) w v"
    using activate_selected_work_first(2)[OF a(1)] unfolding a(4) by blast
  have "wi_id w \<in> set ids" using vs v w(3) by (auto simp: first_visit_def)
  then show "\<exists>w \<in> set (pl_work_items plan). wi_lifecycle w = WI_ACTIVE \<and>
      first_visit (en_codec env) (lt_blueprint st) t (st_member_identities (lt_scrum st)) w v"
    using w unfolding a(3) by auto
qed

lemma closed_entries:
  assumes "mapR (\<lambda>e. built (check_scope_entry cd) (e\<lparr>sc_removed_at := Some t\<rparr>)) es = Inr ended"
  shows "ended = map (\<lambda>e. e\<lparr>sc_removed_at := Some t\<rparr>) es"
  using assms by (induction es arbitrary: ended) (auto dest: built_InrD elim!: bindR_InrE)

lemma successor_starts:
  assumes "successor env st sprint t = Inr (follower, claim)"
  shows "ss_lifecycle follower = SP_ACTIVE" "ss_observed_start_at follower = Some t"
    "claim = \<lparr>cl_scope = \<lparr>cs_kind = SPRINT_ORDINAL, cs_scope_id = ss_team_id sprint, cs_scope_key = ''SCRUM''\<rparr>,
       cl_expected_next = ss_ordinal follower, cl_count = 1\<rparr>"
    "claims_next_of st \<lparr>cs_kind = SPRINT_ORDINAL, cs_scope_id = ss_team_id sprint, cs_scope_key = ''SCRUM''\<rparr> claim"
    "cl_expected_next claim = ss_ordinal follower"
  using assms
  by (auto simp: successor_def claims_next_of_def Let_def dest!: built_InrD find_or_stop_Inr elim!: bindR_InrE)


section \<open>A rollover of the sample team\<close>

text \<open>The tenth sprint ends with one active item in its scope and one item waiting.\<close>

definition rolling_decision :: DecisionOccurrence where
  "rolling_decision = \<lparr>do_entity_id = 46, do_decision_type = SCRUM_CAPACITY_TARGET, do_occurrence = 0\<rparr>"

definition rolling_codec :: codec where
  "rolling_codec = \<lparr>cd_encode = (\<lambda>_. ''m3''), cd_decode = (\<lambda>_. Some (message_document demo_stream rolling_decision 0)),
     cd_sha = (\<lambda>_. hex_text 64 0),
     cd_uuid5 = (\<lambda>p. if p = ''sprint-scope/'' @ uuid_text 45 @ ''/'' @ uuid_text 59 then 1 else length p), cd_hmac = (\<lambda>_ _. 0)\<rparr>"

definition rolling_env :: scrum_env where
  "rolling_env = demo_env\<lparr>en_codec := rolling_codec\<rparr>"

definition rolling_sprint :: SprintState where
  "rolling_sprint = \<lparr>ss_id = 45, ss_team_id = 69, ss_run_id = 42, ss_ordinal = 9, ss_lifecycle = SP_ACTIVE,
     ss_planned_start_at = 11523600000000, ss_planned_end_at = 12733200000000, ss_observed_start_at = Some 11523600000000,
     ss_observed_end_at = None, ss_created_at = 11523600000000, ss_updated_at = 11523600000000\<rparr>"

definition rolling_follower :: SprintState where
  "rolling_follower = \<lparr>ss_id = 46, ss_team_id = 69, ss_run_id = 42, ss_ordinal = 10, ss_lifecycle = SP_ACTIVE,
     ss_planned_start_at = 12733200000000, ss_planned_end_at = 13942800000000, ss_observed_start_at = Some 12733200000000,
     ss_observed_end_at = None, ss_created_at = 12733200000000, ss_updated_at = 12733200000000\<rparr>"

definition rolling_entry :: SprintScopeEntry where
  "rolling_entry = \<lparr>sc_id = 1, sc_team_id = 69, sc_run_id = 42, sc_sprint_id = 45, sc_work_item_id = 59,
     sc_added_at = 11523600000000, sc_removed_at = None\<rparr>"

definition carried_entry :: SprintScopeEntry where
  "carried_entry = \<lparr>sc_id = 86, sc_team_id = 69, sc_run_id = 42, sc_sprint_id = 46, sc_work_item_id = 59,
     sc_added_at = 12733200000000, sc_removed_at = None\<rparr>"

definition rolling_counter :: SemanticCounter where
  "rolling_counter = \<lparr>sn_team_id = 69, sn_run_id = 42,
     sn_scope = \<lparr>cs_kind = SPRINT_ORDINAL, cs_scope_id = 69, cs_scope_key = ''SCRUM''\<rparr>, sn_next_value = 10\<rparr>"

definition rolling_live :: LiveTeamState where
  "rolling_live = demo_live\<lparr>lt_scrum := empty_state\<lparr>st_member_identities := [demo_identity],
     st_work_items := [started_work, waiting_work\<lparr>wi_id := 60, wi_creation_sequence := 10, wi_relative_rank := 10\<rparr>],
     st_sprints := [rolling_sprint], st_scope := [rolling_entry], st_counters := [rolling_counter]\<rparr>\<rparr>"

lemma rolling_sel:
  "lt_aggregate rolling_live = demo_aggregate" "lt_blueprint rolling_live = sample_blueprint"
  "st_work_items (lt_scrum rolling_live) = [started_work, waiting_work\<lparr>wi_id := 60, wi_creation_sequence := 10, wi_relative_rank := 10\<rparr>]"
  "st_scope (lt_scrum rolling_live) = [rolling_entry]" "st_counters (lt_scrum rolling_live) = [rolling_counter]"
  "st_member_identities (lt_scrum rolling_live) = [demo_identity]"
  "rt_team_id (lt_runtime rolling_live) = 69" "rt_run_id (lt_runtime rolling_live) = 42" "en_codec rolling_env = rolling_codec"
  by (simp_all add: rolling_live_def demo_aggregate_def demo_live_sel empty_state_def rolling_env_def) (simp_all add: demo_live_def)

lemma int_text_small: "length (int_text 9) = 1" "length (int_text 10) = 2"
  by (simp_all add: int_text_def nat_text.simps)

lemma rolling_ids:
  "sprint_rng_id rolling_codec 69 9 = Inr 45" "sprint_rng_id rolling_codec 69 10 = Inr 46"
  "semantic_uuid rolling_codec (''sprint-scope/'' @ uuid_text 45 @ ''/'' @ uuid_text 59) = 1"
  "semantic_uuid rolling_codec (''sprint-scope/'' @ uuid_text 46 @ ''/'' @ uuid_text 59) = 86"
proof -
  have "uuid_text 46 \<noteq> uuid_text 45" using uuid_text_inj[of 46 45] by auto
  then show "semantic_uuid rolling_codec (''sprint-scope/'' @ uuid_text 46 @ ''/'' @ uuid_text 59) = 86"
    by (simp add: semantic_uuid_def rolling_codec_def)
qed (simp_all add: semantic_uuid_def rolling_codec_def sprint_rng_id_def ordinal_uuid_def ordinal_path_def int_text_small
    safe_integer_def MAX_SAFE_INTEGER_def U53_DENOMINATOR_def)

lemma rolling_draw: "drawn (seeded_draws rolling_codec demo_aggregate) 46 SCRUM_CAPACITY_TARGET =
    Inr \<lparr>ud_algorithm = ALGORITHM_ID, ud_decision = rolling_decision, ud_draw_index = 0, ud_canonical_message = ''m3'',
      ud_hmac_sha256 = digest_hex 0, ud_u53_integer = 0, ud_unit_value = 0\<rparr>"
proof -
  have d: "decision_occurrence 46 SCRUM_CAPACITY_TARGET 0 = Inr rolling_decision"
    by (simp add: decision_occurrence_def rolling_decision_def)
  have r: "random_stream (bp_seed sample_blueprint) 69 42 = Inr demo_stream"
    by (simp add: random_stream_def sample_blueprint_def demo_stream_def)
  have o: "do_occurrence rolling_decision = 0" by (simp add: rolling_decision_def)
  have m: "0 \<le> MAX_SAFE_INTEGER" by (simp add: MAX_SAFE_INTEGER_def U53_DENOMINATOR_def)
  have "stream_draw rolling_codec demo_stream rolling_decision 0 =
     Inr \<lparr>ud_algorithm = ALGORITHM_ID, ud_decision = rolling_decision, ud_draw_index = 0, ud_canonical_message = ''m3'',
      ud_hmac_sha256 = digest_hex 0, ud_u53_integer = 0, ud_unit_value = 0\<rparr>"
    by (subst stream_draw_spec)
      (simp_all add: o m rolling_codec_def decision_message_def high_u53_def unit_of_u53_def)
  then show ?thesis by (simp add: drawn_def d seeded_draws_def demo_aggregate_sel r)
qed

lemma rolled_demo:
  "rolled_context rolling_env rolling_live rolling_sprint 12733200000000 = Inr
     \<lparr>tx_state = rolling_live,
      tx_write_set = empty_state\<lparr>st_sprints := [rolling_sprint\<lparr>ss_lifecycle := SP_COMPLETED, ss_observed_end_at := Some 12733200000000,
          ss_updated_at := 12733200000000\<rparr>, rolling_follower],
        st_scope := [rolling_entry\<lparr>sc_removed_at := Some 12733200000000\<rparr>, carried_entry]\<rparr>,
      tx_claims = [\<lparr>cl_scope = sn_scope rolling_counter, cl_expected_next = 10, cl_count = 1\<rparr>],
      tx_previous = rolling_sprint, tx_current = rolling_follower, tx_boundary = 12733200000000\<rparr>"
proof -
  let ?r = "\<lparr>cr_anchor = 637200000000, cr_cadence_days = 14\<rparr>"
  have s: "sb_first_boundary (bp_scrum sample_blueprint) = 637200000000" "sb_cadence_days (bp_scrum sample_blueprint) = 14"
    "tb_timezone (bp_team sample_blueprint) = ''UTC''" "bp_calendar sample_blueprint = office_blueprint"
    by (simp_all add: sample_blueprint_def)
  have cal: "aggregate_calendar rolling_env demo_aggregate = Inr office"
    using office_from_blueprint by (simp add: aggregate_calendar_def demo_aggregate_sel s demo_env_def rolling_env_def)
  have b: "cadence_boundary office ?r 10 = Inr 12733200000000" "cadence_boundary office ?r 11 = Inr 13942800000000"
    by (subst cadence_boundary_office; simp add: office_simps local_clock_def valid_ordinal_def)+
  have scope: "check_counter_scope \<lparr>cs_kind = SPRINT_ORDINAL, cs_scope_id = 69, cs_scope_key = ''SCRUM''\<rparr> = Inr ()"
    by (simp add: check_counter_scope_def require_text_def is_space_def scope_keys_def)
  have follower: "check_sprint rolling_codec rolling_follower = Inr ()"
    by (simp add: check_sprint_def rolling_follower_def rolling_ids require_semantic_id_def check_observed_times_def
        safe_integer_def MAX_SAFE_INTEGER_def U53_DENOMINATOR_def)
  have claim: "check_claim \<lparr>cl_scope = \<lparr>cs_kind = SPRINT_ORDINAL, cs_scope_id = 69, cs_scope_key = ''SCRUM''\<rparr>,
      cl_expected_next = 10, cl_count = 1\<rparr> = Inr ()"
    by (simp add: check_claim_def scope safe_integer_def MAX_SAFE_INTEGER_def U53_DENOMINATOR_def)
  have succ: "successor rolling_env rolling_live rolling_sprint 12733200000000 =
      Inr (rolling_follower, \<lparr>cl_scope = sn_scope rolling_counter, cl_expected_next = 10, cl_count = 1\<rparr>)"
    using follower claim
    by (simp add: successor_def built_def scope rolling_sel find_or_stop_def rolling_counter_def cal s demo_aggregate_sel cadence_rule_def b rolling_ids
        rolling_sprint_def rolling_follower_def)
  have f: "ss_id rolling_follower = 46" "ss_id rolling_sprint = 45" by (simp_all add: rolling_follower_def rolling_sprint_def)
  have e: "sc_sprint_id rolling_entry = 45" "sc_removed_at rolling_entry = None" "sc_work_item_id rolling_entry = 59"
    by (simp_all add: rolling_entry_def)
  have w: "wi_id started_work = 59" "wi_lifecycle started_work = WI_ACTIVE" "wi_story_points started_work = 3"
    "wi_lifecycle waiting_work = WI_BACKLOG" "wi_story_points waiting_work = 3"
    by (simp_all add: started_work_def waiting_work_def demo_work_def)
  have carry: "carryover_ids rolling_live 45 = Inr [59]"
    by (simp add: carryover_ids_def rolling_sel e w dict_of_def dict_get_def)
  have ranked: "ranked_work [started_work, waiting_work\<lparr>wi_id := 60, wi_creation_sequence := 10, wi_relative_rank := 10\<rparr>] =
      Inr [started_work, waiting_work\<lparr>wi_id := 60, wi_creation_sequence := 10, wi_relative_rank := 10\<rparr>]"
    by (simp add: ranked_work_def check_rank_def simulator_rank_def rank_sort_key_def started_work_def waiting_work_def demo_work_def
        safe_integer_def MAX_SAFE_INTEGER_def U53_DENOMINATOR_def)
  have m: "sb_capacity_min_points (bp_scrum sample_blueprint) = 3" "sb_capacity_max_points (bp_scrum sample_blueprint) = 8"
    by (simp_all add: sample_blueprint_def)
  have backlog: "ranked_backlog_ids rolling_codec rolling_live 46 [59] = Inr []"
    by (simp add: ranked_backlog_ids_def rolling_sel w dict_of_def dict_get_def demo_aggregate_sel rolling_draw ranked m
        capacity_target_def f_mul_def py_trunc_def)
  have plan: "planned_scope rolling_env rolling_live 46 [] 12733200000000 (seeded_draws rolling_codec demo_aggregate) =
      Inr \<lparr>pl_work_items = [], pl_scope = [], pl_visits = [], pl_samples = [], pl_claims = []\<rparr>"
    by (simp add: planned_scope_def rolling_sel activate_selected_work_def activate_selected_def map_filter_simps boundary_scope_def)
  have completed: "completed_sprint rolling_codec rolling_sprint 12733200000000 =
      Inr (rolling_sprint\<lparr>ss_lifecycle := SP_COMPLETED, ss_observed_end_at := Some 12733200000000, ss_updated_at := 12733200000000\<rparr>)"
    by (simp add: completed_sprint_def built_Inr check_sprint_def rolling_sprint_def rolling_ids require_semantic_id_def
        check_observed_times_def safe_integer_def MAX_SAFE_INTEGER_def U53_DENOMINATOR_def)
  have ended: "check_scope_entry rolling_codec (rolling_entry\<lparr>sc_removed_at := Some 12733200000000\<rparr>) = Inr ()"
    using rolling_ids(3) by (simp add: check_scope_entry_def rolling_entry_def require_semantic_id_def)
  have runtime: "rt_team_id (pa_runtime demo_aggregate) = 69" "rt_run_id (pa_runtime demo_aggregate) = 42"
    by (simp_all add: demo_aggregate_def demo_live_def)
  have opened: "boundary_scope rolling_codec rolling_live 46 [59] 12733200000000 = Inr [carried_entry]"
    using rolling_ids(4)
    by (simp add: boundary_scope_def scope_entry_def rolling_sel runtime)
      (simp add: built_def carried_entry_def check_scope_entry_def require_semantic_id_def)
  let ?ws = "empty_state\<lparr>st_sprints := [rolling_sprint\<lparr>ss_lifecycle := SP_COMPLETED, ss_observed_end_at := Some 12733200000000,
          ss_updated_at := 12733200000000\<rparr>, rolling_follower],
        st_scope := [rolling_entry\<lparr>sc_removed_at := Some 12733200000000\<rparr>, carried_entry]\<rparr>"
  have ws: "write_set rolling_env ?ws = Inr ?ws"
  proof -
    have "check_sprint rolling_codec (rolling_sprint\<lparr>ss_lifecycle := SP_COMPLETED, ss_observed_end_at := Some 12733200000000,
          ss_updated_at := 12733200000000\<rparr>) = Inr ()" "check_scope_entry rolling_codec carried_entry = Inr ()"
      using completed rolling_ids(4)
      by (simp_all add: completed_sprint_def built_Inr check_scope_entry_def require_semantic_id_def carried_entry_def)
    then have "validate_collections rolling_env ?ws = Inr ()"
      using follower ended by (simp add: validate_collections_def empty_state_def rolling_sel)
    moreover have "validate_uniqueness ?ws = Inr ()" "validate_partial_uniqueness ?ws = Inr ()" "validate_one_team_run ?ws = Inr ()"
      "validate_open_visit_status ?ws = Inr ()" "validate_sample_links (st_visits ?ws) (st_samples ?ws) = Inr ()"
      by (simp_all add: validate_uniqueness_def unique_identities_def validate_partial_uniqueness_def require_unique_coordinates_def
          validate_one_team_run_def state_teams_def state_runs_def validate_open_visit_status_def validate_sample_links_def
          empty_state_def rolling_sprint_def rolling_follower_def rolling_entry_def carried_entry_def dict_of_def)
    ultimately show ?thesis by (simp add: write_set_def validate_state_def)
  qed
  have same: "empty_state\<lparr>st_work_items := [], st_sprints := sprints, st_scope := scope, st_visits := [], st_samples := []\<rparr> =
      empty_state\<lparr>st_sprints := sprints, st_scope := scope\<rparr>" for sprints scope
    by (simp add: empty_state_def)
  show ?thesis
    using ws ended
    by (simp add: same rolled_context_def succ f carry rolling_sel backlog plan completed e built_def opened)
qed


end
