(* ===== verification/State_Merge.thy ===== *)
theory State_Merge
  imports Scrum_Collections Tick_Allocation
begin

text \<open>
  Changes laid over a Scrum state, collection by collection: rows with a known identity are replaced in
  place, new rows are appended (\<open>_merge_write_sets\<close> and \<open>_with_write_set\<close> of \<open>v2/domain/risks.py\<close> and
  \<open>v2/domain/scrum_tick.py\<close>). Laying changes one after the other is laying their merge.
\<close>

section \<open>Merging rows by identity\<close>

definition merged :: "('a \<Rightarrow> 'k) \<Rightarrow> 'a list \<Rightarrow> 'a list \<Rightarrow> 'a list" where
  "merged key old new = map snd (fold (\<lambda>(k, x). dict_set k x) (dict_of key new) (dict_of key old))"

definition consumption_key :: "MemberBusinessDateConsumption \<Rightarrow> uuid \<times> int" where
  "consumption_key k = (mc_member_id k, mc_business_date k)"

definition merge_state :: "ScrumCollections \<Rightarrow> ScrumCollections \<Rightarrow> ScrumCollections" where
  "merge_state old new =
     \<lparr>st_member_identities = merged mi_id (st_member_identities old) (st_member_identities new),
      st_overlays = merged ov_id (st_overlays old) (st_overlays new),
      st_consumption = merged consumption_key (st_consumption old) (st_consumption new),
      st_work_items = merged wi_id (st_work_items old) (st_work_items new),
      st_factors = merged fa_id (st_factors old) (st_factors new),
      st_sprints = merged ss_id (st_sprints old) (st_sprints new),
      st_scope = merged sc_id (st_scope old) (st_scope new),
      st_visits = merged sv_id (st_visits old) (st_visits new),
      st_samples = merged vs_visit_id (st_samples old) (st_samples new),
      st_counters = merged sn_scope (st_counters old) (st_counters new),
      st_evaluations = merged ne_id (st_evaluations old) (st_evaluations new)\<rparr>"

definition merge_write_sets :: "scrum_env \<Rightarrow> ScrumStateWriteSet \<Rightarrow> ScrumStateWriteSet \<Rightarrow> ScrumStateWriteSet res" where
  "merge_write_sets env left right = write_set env (merge_state left right)"

definition with_write_set :: "scrum_env \<Rightarrow> LiveTeamState \<Rightarrow> ScrumStateWriteSet \<Rightarrow> LiveTeamState res" where
  "with_write_set env st ws =
     bindR (snapshot env (merge_state (lt_scrum st) ws)) (\<lambda>scrum.
       Inr \<lparr>lt_aggregate = lt_aggregate st, lt_scrum = scrum\<rparr>)"

section \<open>Laws of merging\<close>

abbreviation put :: "('a \<Rightarrow> 'k) \<Rightarrow> 'a \<Rightarrow> ('k, 'a) dict \<Rightarrow> ('k, 'a) dict" where
  "put key x \<equiv> dict_set (key x) x"

lemma dict_set_same: "dict_set k y (dict_set k x d) = dict_set k y d"
  by (induction d) auto

lemma dict_set_swap: "k \<in> fst ` set d \<Longrightarrow> k' \<noteq> k \<Longrightarrow> dict_set k y (dict_set k' z d) = dict_set k' z (dict_set k y d)"
  by (induction d) auto

lemma fold_put_swap:
  assumes "k \<in> fst ` set d" and "k \<notin> key ` set vs"
  shows "dict_set k y (fold (put key) vs d) = fold (put key) vs (dict_set k y d)"
  using assms
proof (induction vs arbitrary: d)
  case (Cons v vs)
  have "dict_set k y (put key v d) = put key v (dict_set k y d)"
    by (rule dict_set_swap) (use Cons.prems in auto)
  then show ?case using Cons by (simp add: dict_simps)
qed simp

lemma fold_put_set:
  assumes "distinct (map fst e)" and "\<forall>(j, x) \<in> set e. key x = j" and "key y = k"
  shows "fold (put key) (map snd (dict_set k y e)) d = dict_set k y (fold (put key) (map snd e) d)"
  using assms
proof (induction e arbitrary: d)
  case Nil
  then show ?case by simp
next
  case (Cons p e)
  obtain j x where p: "p = (j, x)" by (cases p)
  have x: "key x = j" using Cons.prems(2) p by simp
  show ?case
  proof (cases "j = k")
    case True
    have "k \<notin> key ` set (map snd e)" using Cons.prems True p by force
    then have "dict_set k y (fold (put key) (map snd e) (dict_set k x d)) =
        fold (put key) (map snd e) (dict_set k y (dict_set k x d))"
      by (intro fold_put_swap) (simp_all add: dict_simps)
    then show ?thesis using True p x Cons.prems(3) by (simp add: dict_set_same)
  next
    case False
    then show ?thesis using Cons p x by simp
  qed
qed

lemma fold_put_values: "fold (put key) (map snd (dict_of key ys)) d = fold (put key) ys d"
proof (induction ys rule: rev_induct)
  case Nil
  then show ?case by (simp add: dict_of_def)
next
  case (snoc y ys)
  have w: "well_keyed key (dict_of key ys)" by simp
  have "fold (put key) (map snd (dict_set (key y) y (dict_of key ys))) d =
      dict_set (key y) y (fold (put key) (map snd (dict_of key ys)) d)"
    by (rule fold_put_set) (use w in \<open>auto simp: well_keyed_def\<close>)
  then show ?case using snoc by (simp add: dict_of_snoc)
qed

lemma dict_of_fold: "fold (put key) ys (dict_of key xs) = dict_of key (xs @ ys)"
  by (simp add: dict_of_def)

lemma dict_of_put_values: "dict_of key (map snd (dict_of key xs)) = dict_of key xs"
  using fold_put_values[of key xs "[]"] by (simp add: dict_of_def)

lemma merged_dict: "merged key old new = map snd (dict_of key (old @ new))"
proof -
  have w: "\<forall>(k, x) \<in> set (dict_of key new). key x = k"
    using well_keyed_dict_of[of key new] by (simp add: well_keyed_def)
  have "fold (\<lambda>(k, x). dict_set k x) e d = fold (put key) (map snd e) d" if "\<forall>(k, x) \<in> set e. key x = k" for e d
    using that by (induction e arbitrary: d) auto
  from this[OF w] show ?thesis by (simp add: merged_def fold_put_values dict_of_fold)
qed

lemma merged_assoc: "merged key (merged key a b) c = merged key a (merged key b c)"
proof -
  have "dict_of key (map snd (dict_of key (a @ b)) @ c) = dict_of key ((a @ b) @ c)"
    unfolding dict_of_fold[symmetric] by (simp only: dict_of_fold dict_of_put_values)
  moreover have "dict_of key (a @ map snd (dict_of key (b @ c))) = dict_of key (a @ (b @ c))"
    by (rule trans[OF dict_of_fold[symmetric]], rule trans[OF fold_put_values], rule dict_of_fold)
  ultimately show ?thesis by (simp add: merged_dict)
qed

lemma dict_set_new: "k \<notin> fst ` set d \<Longrightarrow> dict_set k y d = d @ [(k, y)]"
  by (induction d) auto

lemma find_append: "List.find P (as @ bs) = (case List.find P as of None \<Rightarrow> List.find P bs | Some y \<Rightarrow> Some y)"
  by (induction as) auto

lemma dict_of_distinct_list: "distinct (map key xs) \<Longrightarrow> dict_of key xs = map (\<lambda>x. (key x, x)) xs"
proof (induction xs rule: rev_induct)
  case (snoc x xs)
  have "key x \<notin> fst ` set (map (\<lambda>x. (key x, x)) xs)" using snoc.prems by (force simp: image_iff)
  then show ?case using snoc by (simp add: dict_of_snoc dict_set_new)
qed (simp add: dict_of_def)

lemma merged_Nil [simp]: "distinct (map key xs) \<Longrightarrow> merged key xs [] = xs"
  by (simp add: merged_dict dict_of_distinct_list comp_def)

lemma merged_disjoint: "distinct (map key (xs @ ys)) \<Longrightarrow> merged key xs ys = xs @ ys"
  by (simp add: merged_dict dict_of_distinct_list comp_def)

lemma distinct_merged: "distinct (map key (merged key xs ys))"
proof -
  have "map fst (dict_of key zs) = map key (map snd (dict_of key zs))" for zs
    using well_keyed_dict_of[of key zs] by (auto simp: well_keyed_def)
  from this[of "xs @ ys"] have "map key (merged key xs ys) = map fst (dict_of key (xs @ ys))"
    by (simp only: merged_dict)
  then show ?thesis using well_keyed_dict_of[of key "xs @ ys"] by (simp only: well_keyed_def)
qed

lemma merged_mem: "x \<in> set (merged key xs ys) \<Longrightarrow> x \<in> set xs \<or> x \<in> set ys"
proof -
  assume "x \<in> set (merged key xs ys)"
  then obtain k where "(k, x) \<in> set (dict_of key (xs @ ys))" by (auto simp: merged_dict)
  then have "map_of (dict_of key (xs @ ys)) k = Some x"
    using well_keyed_dict_of[of key "xs @ ys"] by (simp add: well_keyed_def)
  then show ?thesis using set_dict_of by fastforce
qed

text \<open>A row is in the merge if it is new, or old and not replaced.\<close>

lemma set_merged:
  assumes "distinct (map key xs)" and "distinct (map key ys)"
  shows "set (merged key xs ys) = {x \<in> set xs. key x \<notin> key ` set ys} \<union> set ys"
proof -
  have "x \<in> set (merged key xs ys) \<longleftrightarrow> map_of (dict_of key (xs @ ys)) (key x) = Some x" for x
  proof -
    have w: "well_keyed key (dict_of key (xs @ ys))" by simp
    then have "x \<in> set (merged key xs ys) \<longleftrightarrow> (key x, x) \<in> set (dict_of key (xs @ ys))"
      by (force simp: merged_dict well_keyed_def)
    then show ?thesis using w by (simp add: well_keyed_def)
  qed
  moreover have "map_of (dict_of key (xs @ ys)) k =
      (case map_of (dict_of key ys) k of None \<Rightarrow> map_of (dict_of key xs) k | Some y \<Rightarrow> Some y)" for k
    by (simp add: map_of_dict_of find_append cong: option.case_cong)
  moreover have "map_of (dict_of key xs) k = Some x \<longleftrightarrow> x \<in> set xs \<and> key x = k"
    "map_of (dict_of key ys) k = Some x \<longleftrightarrow> x \<in> set ys \<and> key x = k" for k x
    using assms by (simp_all add: dict_of_distinct)
  moreover have "map_of (dict_of key ys) k = None \<longleftrightarrow> k \<notin> key ` set ys" for k by (simp add: dict_of_None)
  ultimately show ?thesis
    by (auto split: option.splits) (metis option.distinct(1) option.sel image_eqI)+
qed

lemma merge_state_assoc: "merge_state (merge_state a b) c = merge_state a (merge_state b c)"
  by (simp add: merge_state_def merged_assoc)

end
