(* ===== verification/Risks.thy ===== *)
theory Risks
  imports Sprint_Boundary State_Merge
begin

text \<open>
  The causal risks of a live tick (\<open>v2/domain/risks.py\<close>): every configured rule whose trigger is due is
  evaluated on the state that the rules before it left, its outcome is recorded as evidence in the ledgers,
  and its effects are rows of the Scrum state. What holds of the outcomes is in \<open>Risk_Outcomes\<close>.
\<close>

section \<open>Environment and records\<close>

text \<open>The logarithm and the exponential, which may overflow, and the parser of floats.\<close>

record risk_env =
  re_scrum :: scrum_env
  re_log :: "py_float \<Rightarrow> py_float"
  re_exp :: "py_float \<Rightarrow> py_float res"
  re_float_of_text :: "string \<Rightarrow> py_float res"

abbreviation risk_codec :: "risk_env \<Rightarrow> codec" where
  "risk_codec renv \<equiv> en_codec (re_scrum renv)"

definition SUPPORTED_REVIEW_STATUSES :: "string list" where
  "SUPPORTED_REVIEW_STATUSES = [''CODE_REVIEW'', ''QA'', ''PO_REVIEW'']"

record RiskRecords =
  rk_state :: ScrumStateWriteSet
  rk_activity :: "ActivityEventDraft list"
  rk_ground_truth :: "GroundTruthRecordDraft list"
  rk_intents :: "ProjectionIntentDraft list"
  rk_claims :: "SemanticCounterClaim list"
  rk_natural :: "EligibleNaturalDecisionClaim list"

type_synonym RiskEvaluation = RiskRecords

definition no_records :: RiskRecords where
  "no_records = \<lparr>rk_state = empty_state, rk_activity = [], rk_ground_truth = [], rk_intents = [], rk_claims = [],
     rk_natural = []\<rparr>"

record DecisionEvidence =
  ev_rule :: RiskRule
  ev_entity_id :: uuid
  ev_occurred_at :: instant
  ev_factors :: "(string, py_float) dict"
  ev_probability :: py_float
  ev_draw :: "py_float option"
  ev_outcome :: bool
  ev_eligible_people :: "uuid list"
  ev_wait_delta :: int
  ev_progress_delta :: int
  ev_cause :: string
  ev_jira_intent :: "json option"

record RiskContext =
  rc_state :: LiveTeamState
  rc_as_of :: instant
  rc_draws :: draw_source
  rc_rule :: RiskRule

record EvidenceBatch =
  eb_evidence :: DecisionEvidence
  eb_event_type :: string
  eb_projection :: "ProjectionIntentDraft option"
  eb_state :: ScrumStateWriteSet
  eb_claims :: "SemanticCounterClaim list"
  eb_natural :: "EligibleNaturalDecisionClaim list"

record NaturalDecisionRequest =
  nr_state :: LiveTeamState
  nr_entity_id :: uuid
  nr_decision_type :: DecisionType
  nr_business_date :: int

record ReviewDecision =
  rd_evidence :: DecisionEvidence
  rd_target :: string
  rd_projection :: "ProjectionIntentDraft option"

record CancellationDecision =
  cd_evidence :: DecisionEvidence
  cd_target :: string
  cd_projection :: "ProjectionIntentDraft option"
  cd_claim :: SemanticCounterClaim
  cd_eligible :: EligibleNaturalDecisionClaim
  cd_visit :: StatusVisitState

record UnavailabilityDecision =
  ua_evidence :: DecisionEvidence
  ua_overlay :: "MemberAvailabilityOverlay option"
  ua_claim :: SemanticCounterClaim
  ua_eligible :: EligibleNaturalDecisionClaim

record DependencyDecision =
  dd_evidence :: DecisionEvidence
  dd_delta :: int

section \<open>Lookups\<close>

definition risk_open_visits :: "LiveTeamState \<Rightarrow> StatusVisitState list" where
  "risk_open_visits st = filter (\<lambda>v. sv_lifecycle v = SV_OPEN) (st_visits (lt_scrum st))"

definition work_named :: "LiveTeamState \<Rightarrow> uuid \<Rightarrow> WorkItemState res" where
  "work_named st i = find_or_stop (\<lambda>w. wi_id w = i) (st_work_items (lt_scrum st))"

definition work_visit :: "LiveTeamState \<Rightarrow> uuid \<Rightarrow> StatusVisitState res" where
  "work_visit st i =
     find_or_stop (\<lambda>v. sv_work_item_id v = i \<and> sv_lifecycle v = SV_OPEN) (st_visits (lt_scrum st))"

definition closed_visit_count :: "LiveTeamState \<Rightarrow> uuid \<Rightarrow> int" where
  "closed_visit_count st i =
     int (length (filter (\<lambda>v. sv_work_item_id v = i \<and> sv_lifecycle v = SV_CLOSED) (st_visits (lt_scrum st))))"

definition aggregate_version :: "LiveTeamState \<Rightarrow> int" where
  "aggregate_version st = rt_version (lt_runtime st) + 1"

text \<open>A time difference in microseconds, by way of \<open>total_seconds\<close>, which is a float.\<close>

definition risk_microseconds :: "int \<Rightarrow> int" where
  "risk_microseconds d = round_half_even (f_mul (fl (of_int d / 1000000)) 1000000)"

definition rule_number :: "RiskRule \<Rightarrow> string \<Rightarrow> py_float option \<Rightarrow> py_float res" where
  "rule_number rule key fallback =
     (let bad = Inl (Value_Error (key @ '' must be a non-negative number'')) in
      case map_of (rr_mechanical_parameters rule) key of
        None \<Rightarrow> (case fallback of None \<Rightarrow> bad | Some x \<Rightarrow> if x < 0 then bad else Inr x)
      | Some (JInt n) \<Rightarrow> if n < 0 then bad else Inr (f_of_int n)
      | Some (JNum x) \<Rightarrow> if x < 0 then bad else Inr x
      | Some _ \<Rightarrow> bad)"

definition rule_text :: "RiskRule \<Rightarrow> string \<Rightarrow> string res" where
  "rule_text rule key =
     (case map_of (rr_mechanical_parameters rule) key of
        Some (JStr t) \<Rightarrow> if t = [] then Inl (Value_Error (key @ '' must be configured'')) else Inr t
      | _ \<Rightarrow> Inl (Value_Error (key @ '' must be configured'')))"

definition work_route :: "LiveTeamState \<Rightarrow> WorkItemState \<Rightarrow> WorkflowRoute res" where
  "work_route st work = find_or_stop (\<lambda>r. ro_issue_type r = wi_issue_type work) (wf_routes (bp_workflow (lt_blueprint st)))"

definition route_step :: "LiveTeamState \<Rightarrow> WorkItemState \<Rightarrow> string \<Rightarrow> WorkflowRouteStep res" where
  "route_step st work status_key =
     bindR (work_route st work) (\<lambda>route. find_or_stop (\<lambda>p. rp_status_key p = status_key) (ro_steps route))"

text \<open>The position of every status of a route; a later step of the same status wins.\<close>

definition step_positions :: "WorkflowRouteStep list \<Rightarrow> (string, nat) dict" where
  "step_positions steps = fold (\<lambda>(k, p). dict_set (rp_status_key p) k) (enumerate 0 steps) []"

definition require_earlier_step :: "LiveTeamState \<Rightarrow> WorkItemState \<Rightarrow> string \<Rightarrow> string \<Rightarrow> unit res" where
  "require_earlier_step st work source target =
     bindR (work_route st work) (\<lambda>route.
       let positions = step_positions (ro_steps route);
           bad = Inl (Value_Error ''review return status must be an earlier configured route step'')
       in case map_of positions target of
            None \<Rightarrow> bad
          | Some t \<Rightarrow> bindR (dict_get positions source) (\<lambda>s. if s \<le> t then bad else Inr ()))"

definition eligible_people_for_activity :: "LiveTeamState \<Rightarrow> WorkflowRouteStep \<Rightarrow> uuid list res" where
  "eligible_people_for_activity st step =
     (case rp_required_activity step of
        None \<Rightarrow> Inr []
      | Some activity \<Rightarrow>
          bindR (filterR (\<lambda>i. bindR (member_blueprint st i) (\<lambda>m. Inr (activity \<in> set (map rs_activity (mb_responsibilities m)))))
                   (st_member_identities (lt_scrum st))) (\<lambda>people. Inr (map mi_id people)))"

definition eligible_people :: "LiveTeamState \<Rightarrow> StatusVisitState \<Rightarrow> uuid list res" where
  "eligible_people st v =
     eligible_people_for_activity st \<lparr>rp_status_key = sv_status_key v, rp_required_activity = sv_activity_key v\<rparr>"

section \<open>Probabilities\<close>

definition py_true_div :: "int \<Rightarrow> int \<Rightarrow> py_float res" where
  "py_true_div a b = (if b = 0 then Inl Zero_Division_Error else Inr (fl (of_int a / of_int b)))"

definition risk_factors :: "LiveTeamState \<Rightarrow> WorkItemState \<Rightarrow> StatusVisitState \<Rightarrow> (string, py_float) dict res" where
  "risk_factors st work v =
     (let factor_values = fold (\<lambda>f. dict_set (fa_kind f) (fa_value f))
            (filter (\<lambda>f. fa_work_item_id f = wi_id work) (st_factors (lt_scrum st))) [];
          quality = dict_get_default factor_values DESCRIPTION_QUALITY 1;
          complexity = dict_get_default factor_values LATENT_COMPLEXITY 0;
          prior_rework = max 0 (closed_visit_count st (wi_id work) - 1)
      in bindR (py_true_div (wi_story_points work) 13) (\<lambda>size.
         bindR (py_true_div prior_rework 3) (\<lambda>rework.
           Inr [(''size'', min 1 size), (''story_points'', min 1 size), (''poor_description'', f_sub 1 quality),
                (''complexity'', complexity), (''dependency'', if sv_pause v \<noteq> 0 then 1 else 0),
                (''prior_rework'', min 1 rework), (''availability'', if sv_member_id v \<noteq> None then 1 else 0)])))"

definition member_factors :: "LiveTeamState \<Rightarrow> uuid \<Rightarrow> (string, py_float) dict res" where
  "member_factors st member_id =
     bindR (find_or_stop (\<lambda>i. mi_id i = member_id) (st_member_identities (lt_scrum st))) (\<lambda>identity.
     bindR (member_blueprint st identity) (\<lambda>member.
     let owned = int (length (filter (\<lambda>v. sv_member_id v = Some member_id \<and> sv_lifecycle v = SV_OPEN) (st_visits (lt_scrum st))))
     in bindR (py_true_div owned (mb_max_concurrent_wip member)) (\<lambda>ratio.
          Inr [(''availability'', 1), (''utilization'', min 1 ratio), (''wip_ratio'', min 1 ratio)])))"

definition py_float_of :: "risk_env \<Rightarrow> json \<Rightarrow> py_float res" where
  "py_float_of renv j =
     (case j of
        JInt n \<Rightarrow> Inr (f_of_int n)
      | JNum x \<Rightarrow> Inr x
      | JBool b \<Rightarrow> Inr (if b then 1 else 0)
      | JStr t \<Rightarrow> re_float_of_text renv t
      | _ \<Rightarrow> Inl (Type_Error ''float() argument must be a string or a real number''))"

definition logistic :: "risk_env \<Rightarrow> py_float \<Rightarrow> py_float \<Rightarrow> py_float res" where
  "logistic renv odds weighted =
     (let logit = f_add (re_log renv odds) weighted in
      bindR (re_exp renv (- logit)) (\<lambda>e. f_div 1 (f_add 1 e)))"

definition risk_probability :: "risk_env \<Rightarrow> RiskRule \<Rightarrow> (string, py_float) dict \<Rightarrow> py_float res" where
  "risk_probability renv rule factors =
     (let base = rr_base_probability rule in
      bindR (if base \<le> 0 then Inr 0
             else if 1 \<le> base then Inr 1
             else bindR (f_div base (f_sub 1 base)) (\<lambda>odds.
                  bindR (mapR (\<lambda>(key, value). bindR (py_float_of renv value) (\<lambda>c. Inr (f_mul c (dict_get_default factors key 0))))
                           (rr_coefficients rule)) (\<lambda>terms.
                    logistic renv odds (float_sum 0 0 terms)))) (\<lambda>probability.
        Inr (min (pc_max (rr_clamp rule)) (max (pc_min (rr_clamp rule)) probability))))"

section \<open>Evidence\<close>

definition upper_char :: "char \<Rightarrow> char" where
  "upper_char ch = (let n = of_char ch :: nat in if 97 \<le> n \<and> n \<le> 122 then char_of (n - 32) else ch)"

definition is_letter :: "char \<Rightarrow> bool" where
  "is_letter ch \<longleftrightarrow> (let n = of_char ch :: nat in 65 \<le> n \<and> n \<le> 90 \<or> 97 \<le> n \<and> n \<le> 122)"

fun title_from :: "bool \<Rightarrow> string \<Rightarrow> string" where
  "title_from after_letter [] = []"
| "title_from after_letter (ch # rest) =
     (if after_letter then lower_char ch else upper_char ch) # title_from (is_letter ch) rest"

abbreviation title :: "string \<Rightarrow> string" where
  "title \<equiv> title_from False"

definition spaced :: "string \<Rightarrow> string" where
  "spaced = map (\<lambda>ch. if ch = CHR ''_'' then CHR '' '' else ch)"

definition fallback_summary :: "DecisionEvidence \<Rightarrow> string" where
  "fallback_summary e =
     title (spaced (rr_key (ev_rule e))) @ '' '' @ (if ev_outcome e then ''occurred'' else ''did not occur'') @ '': '' @
     ev_cause e @ ''.''"

definition risk_key :: "scrum_env \<Rightarrow> LiveTeamState \<Rightarrow> DecisionEvidence \<Rightarrow> string" where
  "risk_key env st e =
     (let rt = lt_runtime st in
      ''risk/'' @ uuid_text (rt_team_id rt) @ ''/'' @ uuid_text (rt_run_id rt) @ ''/'' @ int_text (rt_version rt) @ ''/'' @
      rr_key (ev_rule e) @ ''/'' @ uuid_text (ev_entity_id e) @ ''/'' @ en_instant_text env (ev_occurred_at e))"

definition evidence_payload :: "LiveTeamState \<Rightarrow> DecisionEvidence \<Rightarrow> json" where
  "evidence_payload st e =
     (let rule = ev_rule e; risks = bp_risks (lt_blueprint st) in
      JObj [(''risk'', JStr (rr_key rule)),
        (''configuration'', JObj
           [(''algorithm'', JStr (rb_algorithm_version risks)), (''profile'', JStr (rb_profile_name risks)),
            (''profile_version'', JInt (rb_profile_version risks)), (''trigger'', JStr (rr_trigger rule)),
            (''base_probability'', JNum (rr_base_probability rule)), (''coefficients'', JObj (rr_coefficients rule)),
            (''clamp'', JObj [(''min'', JNum (pc_min (rr_clamp rule))), (''max'', JNum (pc_max (rr_clamp rule)))]),
            (''mechanical_parameters'', JObj (rr_mechanical_parameters rule))]),
        (''factors'', JObj (map (\<lambda>(k, x). (k, JNum x)) (ev_factors e))),
        (''probability'', JNum (ev_probability e)), (''draw'', json_opt JNum (ev_draw e)),
        (''outcome'', JBool (ev_outcome e)),
        (''eligible_people'', JList (map (\<lambda>i. JStr (uuid_text i)) (ev_eligible_people e))),
        (''wait_delta_microseconds'', JInt (ev_wait_delta e)),
        (''progress_delta_microseconds'', JInt (ev_progress_delta e)), (''cause'', JStr (ev_cause e)),
        (''jira_intent'', json_opt (\<lambda>j. j) (ev_jira_intent e))])"

definition evidence_records :: "scrum_env \<Rightarrow> LiveTeamState \<Rightarrow> EvidenceBatch \<Rightarrow> RiskRecords res" where
  "evidence_records env st batch =
     (let e = eb_evidence batch; key = risk_key env st e; cd = en_codec env in
      bindR (make_envelope key (ev_occurred_at e) (evidence_payload st e)) (\<lambda>envelope.
      bindR (activity_draft cd
               (make_envelope key (ev_occurred_at e) (JObj [(''summary'', JStr (fallback_summary e))]))
               \<lparr>ad_event_type = eb_event_type batch, ad_aggregate_type = ''RISK'', ad_aggregate_id = ev_entity_id e,
                ad_aggregate_version = aggregate_version st\<rparr>) (\<lambda>activity.
      bindR (ground_truth_draft cd (Inr envelope)
               \<lparr>gt_record_type = ''RISK_EVALUATION'', gt_provenance_type = ''SIMULATOR_V2''\<rparr>) (\<lambda>truth.
        Inr \<lparr>rk_state = eb_state batch,
             rk_activity = (if eb_event_type batch = ''RISK_EVALUATED'' then [] else [activity]),
             rk_ground_truth = [truth],
             rk_intents = (case eb_projection batch of None \<Rightarrow> [] | Some p \<Rightarrow> [p]),
             rk_claims = eb_claims batch, rk_natural = eb_natural batch\<rparr>))))"

definition merge_records :: "scrum_env \<Rightarrow> RiskRecords \<Rightarrow> RiskRecords \<Rightarrow> RiskRecords res" where
  "merge_records env left right =
     bindR (merge_write_sets env (rk_state left) (rk_state right)) (\<lambda>ws.
       Inr \<lparr>rk_state = ws, rk_activity = rk_activity left @ rk_activity right,
            rk_ground_truth = rk_ground_truth left @ rk_ground_truth right,
            rk_intents = rk_intents left @ rk_intents right, rk_claims = rk_claims left @ rk_claims right,
            rk_natural = rk_natural left @ rk_natural right\<rparr>)"

text \<open>A loop that merges the records of every element.\<close>

definition collect_records :: "scrum_env \<Rightarrow> ('a \<Rightarrow> RiskRecords res) \<Rightarrow> 'a list \<Rightarrow> RiskRecords res" where
  "collect_records env f xs = foldR (\<lambda>x acc. bindR (f x) (merge_records env acc)) xs no_records"

definition transition_intent :: "scrum_env \<Rightarrow> RiskContext \<Rightarrow> uuid \<Rightarrow> string \<Rightarrow> ProjectionIntentDraft res" where
  "transition_intent env x work_id status_key =
     (let st = rc_state x in
      bindR (find_or_stop (\<lambda>s. ws_key s = status_key) (wf_statuses (bp_workflow (lt_blueprint st)))) (\<lambda>status.
      let payload = JObj [(''depends_on'', JList []), (''issue_id'', JStr (uuid_text work_id)),
                          (''status'', JStr (ws_jira_name status))];
          key = ''risk/'' @ uuid_text (rt_run_id (lt_runtime st)) @ ''/'' @ uuid_text work_id @ ''/'' @ status_key @ ''/'' @
                en_instant_text env (rc_as_of x)
      in projection_draft (en_codec env) (make_envelope key (rc_as_of x) payload)
           \<lparr>pd_target_kind = ''JIRA'', pd_operation_type = ''TRANSITION_ISSUE'', pd_aggregate_id = work_id,
            pd_aggregate_version = aggregate_version st, pd_status = ''PENDING''\<rparr>))"

definition optional_intent ::
  "scrum_env \<Rightarrow> RiskContext \<Rightarrow> uuid \<Rightarrow> string \<Rightarrow> bool \<Rightarrow> ProjectionIntentDraft option res" where
  "optional_intent env x work_id status_key outcome =
     (if outcome then bindR (transition_intent env x work_id status_key) (\<lambda>p. Inr (Some p)) else Inr None)"

definition intent_payload :: "codec \<Rightarrow> ProjectionIntentDraft option \<Rightarrow> json option res" where
  "intent_payload cd intent =
     (case intent of
        None \<Rightarrow> Inr None
      | Some p \<Rightarrow>
          (case cd_decode cd (dr_canonical_payload p) of
             None \<Rightarrow> Inl (Value_Error ''payload must be JSON'')
           | Some document \<Rightarrow>
               Inr (Some (JObj [(''operation'', JStr (pd_operation_type (dr_details p))), (''payload'', document)]))))"

section \<open>Long stays\<close>

definition risk_elapsed :: "CalendarConfiguration \<Rightarrow> StatusVisitState \<Rightarrow> instant \<Rightarrow> int res" where
  "risk_elapsed cal v until =
     (if until \<le> sv_entered_at v then Inr 0
      else bindR (business_elapsed cal (sv_entered_at v) until) (\<lambda>business.
             Inr (max 0 (risk_microseconds business - sv_pause v))))"

definition threshold_crossed :: "scrum_env \<Rightarrow> RiskContext \<Rightarrow> StatusVisitState \<Rightarrow> int \<Rightarrow> bool res" where
  "threshold_crossed env x v threshold =
     bindR (live_calendar env (rc_state x)) (\<lambda>cal.
     bindR (risk_elapsed cal v (rt_simulation_time (lt_runtime (rc_state x)))) (\<lambda>before.
     bindR (risk_elapsed cal v (rc_as_of x)) (\<lambda>after. Inr (before < threshold \<and> threshold \<le> after))))"

definition long_stay_record :: "scrum_env \<Rightarrow> RiskContext \<Rightarrow> StatusVisitState \<Rightarrow> StatusVisitSample \<Rightarrow> RiskRecords res" where
  "long_stay_record env x v s =
     bindR (rule_number (rc_rule x) ''threshold_multiplier'' (Some 1)) (\<lambda>multiplier.
     let threshold = hours_us (f_mul (vs_dwell_sampled_hours s) multiplier) in
     bindR (threshold_crossed env x v threshold) (\<lambda>crossed.
       if \<not> crossed then Inr no_records
       else bindR (eligible_people (rc_state x) v) (\<lambda>people.
         evidence_records env (rc_state x)
           \<lparr>eb_evidence = \<lparr>ev_rule = rc_rule x, ev_entity_id = sv_work_item_id v, ev_occurred_at = rc_as_of x,
              ev_factors = [], ev_probability = 1, ev_draw = None, ev_outcome = True, ev_eligible_people = people,
              ev_wait_delta = 0, ev_progress_delta = 0, ev_cause = ''sampled dwell threshold crossed'',
              ev_jira_intent = None\<rparr>,
            eb_event_type = ''LONG_STAY_DETECTED'', eb_projection = None, eb_state = empty_state, eb_claims = [],
            eb_natural = []\<rparr>)))"

definition long_stay :: "scrum_env \<Rightarrow> RiskContext \<Rightarrow> RiskRecords res" where
  "long_stay env x =
     (if rr_trigger (rc_rule x) \<noteq> ''STATUS_AGED'' then Inr no_records
      else let samples = dict_of vs_visit_id (st_samples (lt_scrum (rc_state x))) in
        collect_records env (\<lambda>v. bindR (dict_get samples (sv_id v)) (long_stay_record env x v))
          (risk_open_visits (rc_state x)))"

section \<open>Review rejections\<close>

definition review_due :: "LiveTeamState \<Rightarrow> StatusVisitState \<Rightarrow> instant \<Rightarrow> bool" where
  "review_due st v as_of \<longleftrightarrow>
     sv_lifecycle v = SV_CLOSED \<and> sv_status_key v \<in> set SUPPORTED_REVIEW_STATUSES \<and>
     sv_closed_at v = Some (rt_simulation_time (lt_runtime st)) \<and> rt_simulation_time (lt_runtime st) \<le> as_of"

definition review_decision ::
  "risk_env \<Rightarrow> RiskContext \<Rightarrow> WorkItemState \<Rightarrow> StatusVisitState \<Rightarrow> ReviewDecision res" where
  "review_decision renv x work review =
     (let st = rc_state x; rule = rc_rule x; env = re_scrum renv in
      bindR (bindR (decision_occurrence (sv_id review) RISK_REVIEW_REJECTION_OUTCOME 0) (rc_draws x)) (\<lambda>draw.
      bindR (risk_factors st work review) (\<lambda>factors.
      bindR (risk_probability renv rule factors) (\<lambda>probability.
      let outcome = ud_unit_value draw < probability in
      bindR (rule_text rule ''return_status'') (\<lambda>target.
      bindR (require_earlier_step st work (sv_status_key review) target) (\<lambda>_.
      bindR (route_step st work target) (\<lambda>step.
      bindR (eligible_people_for_activity st step) (\<lambda>people.
      bindR (optional_intent env x (wi_id work) target outcome) (\<lambda>projection.
      bindR (intent_payload (en_codec env) projection) (\<lambda>payload.
        Inr \<lparr>rd_evidence = \<lparr>ev_rule = rule, ev_entity_id = sv_id review, ev_occurred_at = rc_as_of x,
               ev_factors = factors, ev_probability = probability, ev_draw = Some (ud_unit_value draw),
               ev_outcome = outcome, ev_eligible_people = people, ev_wait_delta = 0, ev_progress_delta = 0,
               ev_cause = ''configured review rejection decision'', ev_jira_intent = payload\<rparr>,
             rd_target = target, rd_projection = projection\<rparr>))))))))))"

definition returned_visit ::
  "scrum_env \<Rightarrow> RiskContext \<Rightarrow> WorkItemState \<Rightarrow> (StatusVisitState \<times> StatusVisitSample \<times> SemanticCounterClaim) res" where
  "returned_visit env x work =
     (let st = rc_state x; cd = en_codec env in
      bindR (find_or_stop (\<lambda>k. cs_kind (sn_scope k) = VISIT_ORDINAL \<and> cs_scope_id (sn_scope k) = wi_id work)
               (st_counters (lt_scrum st))) (\<lambda>counter.
      bindR (route_step st work (wi_current_status_key work)) (\<lambda>step.
      bindR (visit_rng_id cd (wi_id work) (sn_next_value counter)) (\<lambda>visit_id.
      bindR (bindR (decision_occurrence visit_id STATUS_TOUCH 0) (rc_draws x)) (\<lambda>touch.
      bindR (find_or_stop (\<lambda>t. timing_cell t = (rp_status_key step, wi_issue_type work, wi_story_points work))
               (tm_entries (bp_timing (lt_blueprint st)))) (\<lambda>entry.
      bindR (required_from_draw entry touch) (\<lambda>required.
      bindR (built (check_visit cd)
               \<lparr>sv_id = visit_id, sv_team_id = wi_team_id work, sv_run_id = wi_run_id work, sv_work_item_id = wi_id work,
                sv_ordinal = sn_next_value counter, sv_lifecycle = SV_OPEN, sv_status_key = rp_status_key step,
                sv_activity_key = rp_required_activity step, sv_member_id = None, sv_entered_at = rc_as_of x,
                sv_closed_at = None, sv_required = required, sv_elapsed = 0, sv_remaining = required, sv_queue = 0,
                sv_pause = 0, sv_credited = 0\<rparr>) (\<lambda>visit.
      bindR (bindR (decision_occurrence visit_id STATUS_DWELL 0) (rc_draws x)) (\<lambda>dwell.
      bindR (create_sample env \<lparr>si_blueprint = lt_blueprint st, si_work_item = work, si_visit = visit,
                                 si_dwell_draw = dwell, si_touch_draw = touch\<rparr>) (\<lambda>sample.
      bindR (built check_claim \<lparr>cl_scope = sn_scope counter, cl_expected_next = sn_next_value counter, cl_count = 1\<rparr>) (\<lambda>claim.
        Inr (visit, sample, claim))))))))))))"

definition review_records ::
  "risk_env \<Rightarrow> RiskContext \<Rightarrow> WorkItemState \<Rightarrow> StatusVisitState \<Rightarrow> RiskRecords res" where
  "review_records renv x work review =
     (let env = re_scrum renv; cd = en_codec env in
      bindR (review_decision renv x work review) (\<lambda>decision.
        if \<not> ev_outcome (rd_evidence decision)
        then evidence_records env (rc_state x)
               \<lparr>eb_evidence = rd_evidence decision, eb_event_type = ''RISK_EVALUATED'', eb_projection = None,
                eb_state = empty_state, eb_claims = [], eb_natural = []\<rparr>
        else
          bindR (replaced_work cd (work\<lparr>wi_lifecycle := WI_ACTIVE, wi_current_status_key := rd_target decision,
                   wi_updated_at := rc_as_of x\<rparr>)) (\<lambda>returned.
          bindR (returned_visit env x returned) (\<lambda>(visit, sample, claim).
          bindR (write_set env (empty_state\<lparr>st_work_items := [returned], st_visits := [visit], st_samples := [sample]\<rparr>)) (\<lambda>ws.
            evidence_records env (rc_state x)
              \<lparr>eb_evidence = rd_evidence decision, eb_event_type = ''REVIEW_REJECTED'',
               eb_projection = rd_projection decision, eb_state = ws, eb_claims = [claim], eb_natural = []\<rparr>)))))"

definition review_rejection :: "risk_env \<Rightarrow> RiskContext \<Rightarrow> RiskRecords res" where
  "review_rejection renv x =
     (let st = rc_state x in
      if rr_trigger (rc_rule x) \<noteq> ''STATUS_EXITED'' then Inr no_records
      else collect_records (re_scrum renv)
             (\<lambda>v. bindR (work_named st (sv_work_item_id v)) (\<lambda>work.
                    review_records renv (x\<lparr>rc_as_of := the (sv_closed_at v)\<rparr>) work v))
             (filter (\<lambda>v. review_due st v (rc_as_of x)) (st_visits (lt_scrum st))))"

section \<open>Workdays and natural decisions\<close>

function workday_scan :: "CalendarConfiguration \<Rightarrow> instant \<Rightarrow> instant \<Rightarrow> int \<Rightarrow> int \<Rightarrow> instant option res" where
  "workday_scan cal cursor as_of day final =
     (if final < day then Inr None
      else bindR (working_interval cal day) (\<lambda>interval.
        if (case interval of None \<Rightarrow> False | Some iv \<Rightarrow> cursor \<le> iv_start iv \<and> iv_start iv < as_of)
        then Inr (map_option iv_start interval)
        else bindR (date_add day 1) (\<lambda>next. workday_scan cal cursor as_of next final)))"
  by pat_completeness auto
termination
  by (relation "measure (\<lambda>(cal, cursor, as_of, day, final). nat (final + 1 - day))") (auto simp: date_add_Inr)

definition workday_boundary :: "scrum_env \<Rightarrow> LiveTeamState \<Rightarrow> instant \<Rightarrow> instant option res" where
  "workday_boundary env st as_of =
     (let cursor = rt_simulation_time (lt_runtime st) in
      if as_of \<le> cursor then Inr None
      else
        bindR (live_calendar env st) (\<lambda>cal.
        bindR (business_date cal cursor) (\<lambda>day.
        bindR (instant_add as_of (- 1)) (\<lambda>last.
        bindR (business_date cal last) (\<lambda>final. workday_scan cal cursor as_of day final)))))"

definition natural_claim ::
  "NaturalDecisionRequest \<Rightarrow> (SemanticCounterClaim \<times> EligibleNaturalDecisionClaim) res" where
  "natural_claim r =
     bindR (find_or_stop (\<lambda>k. cs_kind (sn_scope k) = NATURAL_DECISION_OCCURRENCE \<and>
                              cs_scope_id (sn_scope k) = nr_entity_id r \<and>
                              cs_scope_key (sn_scope k) = decision_value (nr_decision_type r))
              (st_counters (lt_scrum (nr_state r)))) (\<lambda>counter.
     bindR (decision_occurrence (nr_entity_id r) (nr_decision_type r) (sn_next_value counter)) (\<lambda>decision.
     bindR (built check_claim \<lparr>cl_scope = sn_scope counter, cl_expected_next = sn_next_value counter, cl_count = 1\<rparr>) (\<lambda>claim.
     bindR (built check_natural_claim \<lparr>nc_decision = decision, nc_business_date = nr_business_date r\<rparr>) (\<lambda>eligible.
       Inr (claim, eligible)))))"

section \<open>Cancellations\<close>

definition cancellation_decision :: "risk_env \<Rightarrow> RiskContext \<Rightarrow> WorkItemState \<Rightarrow> CancellationDecision res" where
  "cancellation_decision renv x work =
     (let st = rc_state x; rule = rc_rule x; env = re_scrum renv in
      bindR (natural_claim \<lparr>nr_state = st, nr_entity_id = wi_id work, nr_decision_type = RISK_CANCELLATION_OUTCOME,
                            nr_business_date = local_date (rc_as_of x)\<rparr>) (\<lambda>(claim, eligible).
      bindR (rc_draws x (nc_decision eligible)) (\<lambda>draw.
      bindR (work_visit st (wi_id work)) (\<lambda>visit.
      bindR (risk_factors st work visit) (\<lambda>factors.
      bindR (risk_probability renv rule factors) (\<lambda>probability.
      let outcome = ud_unit_value draw < probability in
      bindR (rule_text rule ''target_status'') (\<lambda>target.
      bindR (optional_intent env x (wi_id work) target outcome) (\<lambda>projection.
      bindR (eligible_people st visit) (\<lambda>people.
      bindR (intent_payload (en_codec env) projection) (\<lambda>payload.
        Inr \<lparr>cd_evidence = \<lparr>ev_rule = rule, ev_entity_id = wi_id work, ev_occurred_at = rc_as_of x,
               ev_factors = factors, ev_probability = probability, ev_draw = Some (ud_unit_value draw),
               ev_outcome = outcome, ev_eligible_people = people, ev_wait_delta = 0, ev_progress_delta = 0,
               ev_cause = ''workday cancellation decision'', ev_jira_intent = payload\<rparr>,
             cd_target = target, cd_projection = projection, cd_claim = claim, cd_eligible = eligible,
             cd_visit = visit\<rparr>))))))))))"

definition cancelled_state :: "scrum_env \<Rightarrow> RiskContext \<Rightarrow> WorkItemState \<Rightarrow> CancellationDecision \<Rightarrow> ScrumStateWriteSet res" where
  "cancelled_state env x work decision =
     bindR (replaced_work (en_codec env) (work\<lparr>wi_lifecycle := WI_CANCELLED, wi_current_status_key := cd_target decision,
              wi_updated_at := rc_as_of x\<rparr>)) (\<lambda>cancelled.
     bindR (replaced (en_codec env) ((cd_visit decision)\<lparr>sv_lifecycle := SV_CLOSED, sv_member_id := None,
              sv_closed_at := Some (rc_as_of x), sv_elapsed := sv_required (cd_visit decision), sv_remaining := 0\<rparr>)) (\<lambda>closed_visit.
       write_set env (empty_state\<lparr>st_work_items := [cancelled], st_visits := [closed_visit]\<rparr>)))"

definition cancellation_records :: "risk_env \<Rightarrow> RiskContext \<Rightarrow> WorkItemState \<Rightarrow> RiskRecords res" where
  "cancellation_records renv x work =
     (let env = re_scrum renv in
      bindR (cancellation_decision renv x work) (\<lambda>decision.
        if \<not> ev_outcome (cd_evidence decision)
        then evidence_records env (rc_state x)
               \<lparr>eb_evidence = cd_evidence decision, eb_event_type = ''RISK_EVALUATED'', eb_projection = None,
                eb_state = empty_state, eb_claims = [cd_claim decision], eb_natural = [cd_eligible decision]\<rparr>
        else
          bindR (cancelled_state env x work decision) (\<lambda>ws.
            evidence_records env (rc_state x)
              \<lparr>eb_evidence = cd_evidence decision, eb_event_type = ''ISSUE_CANCELLED'',
               eb_projection = cd_projection decision, eb_state = ws, eb_claims = [cd_claim decision],
               eb_natural = [cd_eligible decision]\<rparr>)))"

definition cancellation :: "risk_env \<Rightarrow> RiskContext \<Rightarrow> RiskRecords res" where
  "cancellation renv x =
     bindR (workday_boundary (re_scrum renv) (rc_state x) (rc_as_of x)) (\<lambda>boundary.
       if rr_trigger (rc_rule x) \<noteq> ''WORKDAY_STARTED'' then Inr no_records
       else case boundary of
         None \<Rightarrow> Inr no_records
       | Some t \<Rightarrow>
           collect_records (re_scrum renv) (cancellation_records renv (x\<lparr>rc_as_of := t\<rparr>))
             (filter (\<lambda>w. wi_lifecycle w = WI_ACTIVE) (st_work_items (lt_scrum (rc_state x)))))"

section \<open>External dependencies\<close>

definition paused_visit :: "codec \<Rightarrow> StatusVisitState \<Rightarrow> int \<Rightarrow> StatusVisitState res" where
  "paused_visit cd v delta =
     replaced cd (v\<lparr>sv_member_id := None, sv_queue := sv_queue v + delta, sv_pause := sv_pause v + delta\<rparr>)"

definition dependency_decision ::
  "risk_env \<Rightarrow> RiskContext \<Rightarrow> StatusVisitState \<Rightarrow> int \<Rightarrow> DependencyDecision res" where
  "dependency_decision renv x v remaining =
     (let st = rc_state x; cursor = rt_simulation_time (lt_runtime st) in
      bindR (bindR (decision_occurrence (sv_id v) RISK_EXTERNAL_DEPENDENCY_OUTCOME 0) (rc_draws x)) (\<lambda>draw.
      bindR (work_named st (sv_work_item_id v)) (\<lambda>work.
      bindR (risk_factors st work v) (\<lambda>factors.
      bindR (risk_probability renv (rc_rule x) factors) (\<lambda>probability.
      let outcome = ud_unit_value draw < probability;
          delta = (if outcome then min remaining (risk_microseconds (rc_as_of x - cursor)) else 0)
      in bindR (eligible_people st v) (\<lambda>people.
           Inr \<lparr>dd_evidence = \<lparr>ev_rule = rc_rule x, ev_entity_id = sv_id v, ev_occurred_at = cursor,
                  ev_factors = factors, ev_probability = probability, ev_draw = Some (ud_unit_value draw),
                  ev_outcome = outcome, ev_eligible_people = people, ev_wait_delta = delta, ev_progress_delta = 0,
                  ev_cause = ''external dependency paused visit progress'', ev_jira_intent = None\<rparr>,
                dd_delta = delta\<rparr>))))))"

definition dependency_entry :: "risk_env \<Rightarrow> RiskContext \<Rightarrow> StatusVisitState \<Rightarrow> int \<Rightarrow> RiskRecords res" where
  "dependency_entry renv x v remaining =
     (let env = re_scrum renv in
      bindR (dependency_decision renv x v remaining) (\<lambda>decision.
        if \<not> ev_outcome (dd_evidence decision) \<or> dd_delta decision = 0
        then evidence_records env (rc_state x)
               \<lparr>eb_evidence = dd_evidence decision, eb_event_type = ''RISK_EVALUATED'', eb_projection = None,
                eb_state = empty_state, eb_claims = [], eb_natural = []\<rparr>
        else
          bindR (paused_visit (en_codec env) v (dd_delta decision)) (\<lambda>blocked.
          bindR (write_set env (empty_state\<lparr>st_visits := [blocked]\<rparr>)) (\<lambda>ws.
            evidence_records env (rc_state x)
              \<lparr>eb_evidence = dd_evidence decision, eb_event_type = ''EXTERNAL_DEPENDENCY_STARTED'',
               eb_projection = None, eb_state = ws, eb_claims = [], eb_natural = []\<rparr>))))"

definition dependency_continuation_evidence ::
  "RiskContext \<Rightarrow> StatusVisitState \<Rightarrow> int \<Rightarrow> DecisionEvidence res" where
  "dependency_continuation_evidence x v delta =
     (let st = rc_state x in
      bindR (work_named st (sv_work_item_id v)) (\<lambda>work.
      bindR (risk_factors st work v) (\<lambda>factors.
      bindR (eligible_people st v) (\<lambda>people.
        Inr \<lparr>ev_rule = rc_rule x, ev_entity_id = sv_id v, ev_occurred_at = rt_simulation_time (lt_runtime st),
             ev_factors = factors, ev_probability = 1, ev_draw = None, ev_outcome = True,
             ev_eligible_people = people, ev_wait_delta = delta, ev_progress_delta = 0,
             ev_cause = ''external dependency pause continuation'', ev_jira_intent = None\<rparr>))))"

definition dependency_continuation :: "scrum_env \<Rightarrow> RiskContext \<Rightarrow> StatusVisitState \<Rightarrow> int \<Rightarrow> RiskRecords res" where
  "dependency_continuation env x v remaining =
     (let cursor = rt_simulation_time (lt_runtime (rc_state x));
          delta = min remaining (risk_microseconds (rc_as_of x - cursor))
      in if delta = 0 then Inr no_records
         else
           bindR (paused_visit (en_codec env) v delta) (\<lambda>blocked.
           bindR (dependency_continuation_evidence x v delta) (\<lambda>evidence.
           bindR (write_set env (empty_state\<lparr>st_visits := [blocked]\<rparr>)) (\<lambda>ws.
             evidence_records env (rc_state x)
               \<lparr>eb_evidence = evidence, eb_event_type = ''RISK_EVALUATED'', eb_projection = None, eb_state = ws,
                eb_claims = [], eb_natural = []\<rparr>))))"

definition intrinsically_paused :: "LiveTeamState \<Rightarrow> StatusVisitState \<Rightarrow> bool res" where
  "intrinsically_paused st v =
     bindR (find_or_stop (\<lambda>s. ws_key s = sv_status_key v) (wf_statuses (bp_workflow (lt_blueprint st)))) (\<lambda>status.
       Inr (ws_pauses_service_clock status))"

definition dependency_records :: "risk_env \<Rightarrow> RiskContext \<Rightarrow> StatusVisitState \<Rightarrow> RiskRecords res" where
  "dependency_records renv x v =
     bindR (intrinsically_paused (rc_state x) v) (\<lambda>paused.
       if paused then Inr no_records
       else
         bindR (rule_number (rc_rule x) ''wait_hours'' None) (\<lambda>hours.
         let remaining = max 0 (hours_us hours - sv_pause v);
             cursor = rt_simulation_time (lt_runtime (rc_state x))
         in if remaining = 0 \<or> rc_as_of x \<le> cursor then Inr no_records
            else if sv_pause v \<noteq> 0 then dependency_continuation (re_scrum renv) x v remaining
            else if sv_entered_at v \<noteq> cursor then Inr no_records
            else dependency_entry renv x v remaining))"

definition external_dependency :: "risk_env \<Rightarrow> RiskContext \<Rightarrow> RiskRecords res" where
  "external_dependency renv x =
     (if rr_trigger (rc_rule x) \<noteq> ''STATUS_ENTERED'' then Inr no_records
      else collect_records (re_scrum renv) (dependency_records renv x) (risk_open_visits (rc_state x)))"

section \<open>Unavailable members\<close>

definition duration_days :: "RiskContext \<Rightarrow> uuid \<Rightarrow> int \<Rightarrow> int res" where
  "duration_days x member_id occurrence =
     (let drawn_days =
        bindR (bindR (decision_occurrence member_id RISK_MEMBER_UNAVAILABLE_DURATION occurrence) (rc_draws x)) (\<lambda>draw.
          Inr (1 + min 2 (py_trunc (f_mul (ud_unit_value draw) 3))))
      in case map_of (rr_mechanical_parameters (rc_rule x)) ''duration_days'' of
           Some (JInt n) \<Rightarrow> if 0 < n then Inr n else drawn_days
         | _ \<Rightarrow> drawn_days)"

definition unavailability_overlay :: "scrum_env \<Rightarrow> RiskContext \<Rightarrow> uuid \<Rightarrow> int \<Rightarrow> MemberAvailabilityOverlay res" where
  "unavailability_overlay env x member_id days =
     (let st = rc_state x; rt = lt_runtime st; risks = bp_risks (lt_blueprint st); cd = en_codec env;
          boundary = rc_as_of x;
          provenance = JObj [(''risk'', JStr (rr_key (rc_rule x))), (''profile'', JStr (rb_profile_name risks)),
                             (''profile_version'', JInt (rb_profile_version risks))]
      in bindR (instant_add boundary (days * DAY_US)) (\<lambda>ends_at.
           built (check_overlay cd)
             \<lparr>ov_id = semantic_uuid cd (''risk-overlay/'' @ uuid_text (rt_team_id rt) @ ''/'' @ uuid_text (rt_run_id rt) @ ''/'' @
                       uuid_text member_id @ ''/'' @ en_date_text env (local_date boundary)),
              ov_team_id = rt_team_id rt, ov_run_id = rt_run_id rt, ov_member_id = member_id, ov_source = ''RISK'',
              ov_starts_at = boundary, ov_ends_at = ends_at, ov_fraction = 0, ov_ceiling = Some 0,
              ov_reason = ''Simulated teammate unavailability'', ov_provenance_json = cd_encode cd provenance,
              ov_provenance_sha256 = canonical_sha256 cd provenance, ov_created_at = boundary\<rparr>))"

definition unavailability_decision :: "risk_env \<Rightarrow> RiskContext \<Rightarrow> uuid \<Rightarrow> UnavailabilityDecision res" where
  "unavailability_decision renv x member_id =
     (let st = rc_state x; rule = rc_rule x; boundary = rc_as_of x in
      bindR (natural_claim \<lparr>nr_state = st, nr_entity_id = member_id, nr_decision_type = RISK_MEMBER_UNAVAILABLE_OUTCOME,
                            nr_business_date = local_date boundary\<rparr>) (\<lambda>(claim, eligible).
      bindR (rc_draws x (nc_decision eligible)) (\<lambda>draw.
      bindR (member_factors st member_id) (\<lambda>factors.
      bindR (risk_probability renv rule factors) (\<lambda>probability.
      let outcome = ud_unit_value draw < probability in
      bindR (duration_days x member_id (do_occurrence (nc_decision eligible))) (\<lambda>days.
      bindR (if outcome then bindR (unavailability_overlay (re_scrum renv) x member_id days) (\<lambda>o_verlay. Inr (Some o_verlay))
             else Inr None) (\<lambda>overlay.
        Inr \<lparr>ua_evidence = \<lparr>ev_rule = rule, ev_entity_id = member_id, ev_occurred_at = boundary,
               ev_factors = factors, ev_probability = probability, ev_draw = Some (ud_unit_value draw),
               ev_outcome = outcome, ev_eligible_people = [member_id], ev_wait_delta = 0, ev_progress_delta = 0,
               ev_cause = ''member availability decision'', ev_jira_intent = None\<rparr>,
             ua_overlay = overlay, ua_claim = claim, ua_eligible = eligible\<rparr>)))))))"

definition unavailability_records :: "risk_env \<Rightarrow> RiskContext \<Rightarrow> uuid \<Rightarrow> RiskRecords res" where
  "unavailability_records renv x member_id =
     (let env = re_scrum renv in
      bindR (unavailability_decision renv x member_id) (\<lambda>decision.
      bindR (case ua_overlay decision of
               None \<Rightarrow> Inr empty_state
             | Some v \<Rightarrow> write_set env (empty_state\<lparr>st_overlays := [v]\<rparr>)) (\<lambda>ws.
        evidence_records env (rc_state x)
          \<lparr>eb_evidence = ua_evidence decision,
           eb_event_type = (if ev_outcome (ua_evidence decision) then ''MEMBER_BECAME_UNAVAILABLE'' else ''RISK_EVALUATED''),
           eb_projection = None, eb_state = ws, eb_claims = [ua_claim decision], eb_natural = [ua_eligible decision]\<rparr>)))"

definition owners_in_order :: "LiveTeamState \<Rightarrow> uuid list" where
  "owners_in_order st = sort_key uuid_text (remdups (List.map_filter sv_member_id (risk_open_visits st)))"

definition member_unavailability :: "risk_env \<Rightarrow> RiskContext \<Rightarrow> RiskRecords res" where
  "member_unavailability renv x =
     bindR (workday_boundary (re_scrum renv) (rc_state x) (rc_as_of x)) (\<lambda>boundary.
       if rr_trigger (rc_rule x) \<noteq> ''WORKDAY_STARTED'' then Inr no_records
       else case boundary of
         None \<Rightarrow> Inr no_records
       | Some t \<Rightarrow>
           collect_records (re_scrum renv) (unavailability_records renv (x\<lparr>rc_as_of := t\<rparr>)) (owners_in_order (rc_state x)))"

section \<open>Due risks\<close>

definition risk_handler :: "risk_env \<Rightarrow> string \<Rightarrow> (RiskContext \<Rightarrow> RiskRecords res) option" where
  "risk_handler renv key =
     (if key = ''LONG_STAY'' then Some (long_stay (re_scrum renv))
      else if key = ''REVIEW_REJECTION'' then Some (review_rejection renv)
      else if key = ''CANCELLATION'' then Some (cancellation renv)
      else if key = ''EXTERNAL_DEPENDENCY'' then Some (external_dependency renv)
      else if key = ''MEMBER_UNAVAILABLE'' then Some (member_unavailability renv)
      else None)"

definition evaluate_rule ::
  "risk_env \<Rightarrow> instant \<Rightarrow> draw_source \<Rightarrow> RiskRule \<Rightarrow> RiskRecords \<times> LiveTeamState \<Rightarrow> (RiskRecords \<times> LiveTeamState) res" where
  "evaluate_rule renv as_of draws rule acc =
     (case risk_handler renv (rr_key rule) of
        None \<Rightarrow> Inr acc
      | Some handler \<Rightarrow>
          bindR (handler \<lparr>rc_state = snd acc, rc_as_of = as_of, rc_draws = draws, rc_rule = rule\<rparr>) (\<lambda>outcome.
          bindR (merge_records (re_scrum renv) (fst acc) outcome) (\<lambda>records.
          bindR (with_write_set (re_scrum renv) (snd acc) (rk_state outcome)) (\<lambda>working. Inr (records, working)))))"

definition evaluate_due_risks :: "risk_env \<Rightarrow> LiveTeamState \<Rightarrow> instant \<Rightarrow> draw_source \<Rightarrow> RiskEvaluation res" where
  "evaluate_due_risks renv st as_of draws =
     bindR (foldR (evaluate_rule renv as_of draws) (rb_rules (bp_risks (lt_blueprint st))) (no_records, st)) (\<lambda>(records, working).
       Inr records)"

end
