(* ===== verification/Risk_Outcomes.thy ===== *)
theory Risk_Outcomes
  imports Risks
begin

text \<open>
  What the evaluation of the due risks guarantees: its changes compose, its claims bind, its pauses are
  bounded, long stays are reported once, and what a rejection does.
\<close>

section \<open>Shape of the records\<close>

lemma evidence_records_Inr:
  assumes "evidence_records env st batch = Inr r"
  shows "rk_state r = eb_state batch" "rk_claims r = eb_claims batch" "rk_natural r = eb_natural batch"
    "length (rk_ground_truth r) = 1" "rk_intents r = (case eb_projection batch of None \<Rightarrow> [] | Some p \<Rightarrow> [p])"
    "rk_activity r = [] \<longleftrightarrow> eb_event_type batch = ''RISK_EVALUATED''"
  using assms by (auto simp: evidence_records_def Let_def split: if_splits elim!: bindR_InrE)

lemma write_set_Inr: "write_set env ws = Inr ws' \<Longrightarrow> ws' = ws \<and> validate_state env ws = Inr ()"
  by (auto simp: write_set_def elim!: bindR_InrE)

lemma snapshot_Inr: "snapshot env ws = Inr ws' \<Longrightarrow> ws' = ws \<and> validate_snapshot env ws = Inr ()"
  by (auto simp: snapshot_def elim!: bindR_InrE)

lemma merge_records_Inr:
  assumes "merge_records env a b = Inr r"
  shows "rk_state r = merge_state (rk_state a) (rk_state b)" "rk_claims r = rk_claims a @ rk_claims b"
    "rk_natural r = rk_natural a @ rk_natural b"
  using assms by (auto simp: merge_records_def merge_write_sets_def dest: write_set_Inr elim!: bindR_InrE)

lemma with_write_set_Inr:
  assumes "with_write_set env st ws = Inr st'"
  shows "lt_scrum st' = merge_state (lt_scrum st) ws" "lt_aggregate st' = lt_aggregate st"
    "validate_snapshot env (lt_scrum st') = Inr ()"
  using assms by (auto simp: with_write_set_def dest: snapshot_Inr elim!: bindR_InrE)

text \<open>Induction over a loop that merges records.\<close>

lemma collect_records_induct:
  assumes "collect_records env f xs = Inr r" and "P no_records"
    and "\<And>x q. x \<in> set xs \<Longrightarrow> f x = Inr q \<Longrightarrow> P q"
    and "\<And>a b q. P a \<Longrightarrow> P b \<Longrightarrow> merge_records env a b = Inr q \<Longrightarrow> P q"
  shows "P r"
  using assms(1) unfolding collect_records_def
  by (rule foldR_invariant) (auto intro: assms elim!: bindR_InrE)

section \<open>Changes compose\<close>

text \<open>Within one team and one run the identities of a state are distinct, so an empty change changes nothing.\<close>

lemma distinct_map_pair:
  assumes "distinct (map (\<lambda>x. (f x, g x)) xs)" and "\<And>x y. x \<in> set xs \<Longrightarrow> y \<in> set xs \<Longrightarrow> f x = f y"
  shows "distinct (map g xs)"
  unfolding distinct_map
proof
  show "distinct xs" using assms(1) by (simp add: distinct_map)
  show "inj_on g (set xs)"
  proof (rule inj_onI)
    fix x y assume xy: "x \<in> set xs" "y \<in> set xs" "g x = g y"
    then have "(f x, g x) = (f y, g y)" by (simp add: assms(2)[OF xy(1,2)])
    then show "x = y" by (rule distinct_map_eq[OF assms(1) xy(1,2)])
  qed
qed

lemma card_le_1_eq: "\<not> 1 < card S \<Longrightarrow> finite S \<Longrightarrow> x \<in> S \<Longrightarrow> y \<in> S \<Longrightarrow> x = y"
  by (metis One_nat_def card_le_Suc0_iff_eq not_less)

lemma merge_state_empty:
  assumes "validate_state env st = Inr ()"
  shows "merge_state st empty_state = st"
proof -
  have u: "unique_identities st" and one: "validate_one_team_run st = Inr ()"
    using assms by (auto simp: validate_state_def validate_uniqueness_def bindR_check guardR_eq_Inr)
  have t: "x = y" if "x \<in> set (state_teams st)" "y \<in> set (state_teams st)" for x y
    using one card_le_1_eq[OF _ finite_set that] by (auto simp: validate_one_team_run_def guardR_eq_Inr)
  have r: "x = y" if "x \<in> set (state_runs st)" "y \<in> set (state_runs st)" for x y
    using one card_le_1_eq[OF _ finite_set that] by (auto simp: validate_one_team_run_def guardR_eq_Inr)
  have c: "distinct (map sn_scope (st_counters st))"
  proof (rule distinct_map_pair[of "\<lambda>k. (sn_team_id k, sn_run_id k)"])
    show "distinct (map (\<lambda>k. ((sn_team_id k, sn_run_id k), sn_scope k)) (st_counters st))"
      using u by (simp add: unique_identities_def counter_identity_def distinct_map inj_on_def)
    show "(sn_team_id x, sn_run_id x) = (sn_team_id y, sn_run_id y)" if "x \<in> set (st_counters st)" "y \<in> set (st_counters st)" for x y
      using t[of "sn_team_id x" "sn_team_id y"] r[of "sn_run_id x" "sn_run_id y"] that
      by (simp add: state_teams_def state_runs_def)
  qed
  have m: "distinct (map consumption_key (st_consumption st))"
  proof (rule distinct_map_pair[of "\<lambda>k. (mc_team_id k, mc_run_id k)"])
    show "distinct (map (\<lambda>k. ((mc_team_id k, mc_run_id k), consumption_key k)) (st_consumption st))"
      using u by (simp add: unique_identities_def consumption_identity_def consumption_key_def distinct_map inj_on_def)
    show "(mc_team_id x, mc_run_id x) = (mc_team_id y, mc_run_id y)" if "x \<in> set (st_consumption st)" "y \<in> set (st_consumption st)" for x y
      using t[of "mc_team_id x" "mc_team_id y"] r[of "mc_run_id x" "mc_run_id y"] that
      by (simp add: state_teams_def state_runs_def)
  qed
  show ?thesis using u c m by (simp add: merge_state_def empty_state_def unique_identities_def)
qed

lemma validate_snapshot_state: "validate_snapshot env st = Inr () \<Longrightarrow> validate_state env st = Inr ()"
  by (simp add: validate_snapshot_def bindR_check)

lemma evaluate_rule_composes:
  assumes "evaluate_rule renv as_of draws rule acc = Inr acc'"
    and "lt_scrum (snd acc) = merge_state s0 (rk_state (fst acc))" and "lt_aggregate (snd acc) = agg"
  shows "lt_scrum (snd acc') = merge_state s0 (rk_state (fst acc'))" "lt_aggregate (snd acc') = agg"
proof -
  have "lt_scrum (snd acc') = merge_state s0 (rk_state (fst acc')) \<and> lt_aggregate (snd acc') = agg"
  proof (cases "risk_handler renv (rr_key rule)")
    case None
    then show ?thesis using assms by (simp add: evaluate_rule_def)
  next
    case (Some handler)
    then obtain outcome records working where "merge_records (re_scrum renv) (fst acc) outcome = Inr records"
      "with_write_set (re_scrum renv) (snd acc) (rk_state outcome) = Inr working" "acc' = (records, working)"
      using assms(1) by (auto simp: evaluate_rule_def elim!: bindR_InrE)
    then show ?thesis
      using merge_records_Inr(1) with_write_set_Inr(1,2) assms(2,3) by (fastforce simp: merge_state_assoc)
  qed
  then show "lt_scrum (snd acc') = merge_state s0 (rk_state (fst acc'))" "lt_aggregate (snd acc') = agg" by simp_all
qed

text \<open>(C26) The rules are evaluated one after the other, each on the state that the outcomes before it left.
  Laying the merged changes of the evaluation over the starting state in one step gives exactly that last
  state, with the same aggregate, so the tick that goes on from the merged changes sees what the rules saw.\<close>

theorem risk_changes_compose:
  assumes "validate_snapshot (re_scrum renv) (lt_scrum st) = Inr ()"
    and "foldR (evaluate_rule renv as_of draws) (rb_rules (bp_risks (lt_blueprint st))) (no_records, st) = Inr (r, working)"
  shows "evaluate_due_risks renv st as_of draws = Inr r \<and> lt_aggregate working = lt_aggregate st \<and>
    lt_scrum working = merge_state (lt_scrum st) (rk_state r)"
proof -
  have "(\<lambda>acc. lt_scrum (snd acc) = merge_state (lt_scrum st) (rk_state (fst acc)) \<and> lt_aggregate (snd acc) = lt_aggregate st)
      (r, working)"
    by (rule foldR_invariant[OF assms(2)])
      (use evaluate_rule_composes merge_state_empty[OF validate_snapshot_state[OF assms(1)]] in \<open>auto simp: no_records_def\<close>)
  then show ?thesis using assms(2) by (simp add: evaluate_due_risks_def)
qed

section \<open>Claims bind\<close>

text \<open>A claim on the next value of a counter of the state, and a natural decision bound to such a claim.\<close>

definition next_of_counter :: "SemanticCounter list \<Rightarrow> SemanticCounterClaim \<Rightarrow> bool" where
  "next_of_counter counters k \<longleftrightarrow>
     (\<exists>c \<in> set counters. cl_scope k = sn_scope c \<and> cl_expected_next k = sn_next_value c \<and> cl_count k = 1)"

definition claims_sound :: "SemanticCounter list \<Rightarrow> RiskRecords \<Rightarrow> bool" where
  "claims_sound counters r \<longleftrightarrow>
     st_counters (rk_state r) = [] \<and> st_evaluations (rk_state r) = [] \<and>
     (\<forall>k \<in> set (rk_claims r). next_of_counter counters k) \<and>
     (\<forall>e \<in> set (rk_natural r). \<exists>k \<in> set (rk_claims r).
        cl_scope k = natural_scope e \<and> cl_expected_next k = do_occurrence (nc_decision e))"

lemma claims_sound_none [simp]: "claims_sound cs no_records"
  by (simp add: claims_sound_def no_records_def empty_state_def)

lemma merged_Nil_Nil [simp]: "merged key [] [] = []"
  by (simp add: merged_def dict_of_def)

lemma claims_sound_merge:
  "claims_sound cs a \<Longrightarrow> claims_sound cs b \<Longrightarrow> merge_records env a b = Inr r \<Longrightarrow> claims_sound cs r"
  by (auto simp: claims_sound_def merge_records_Inr merge_state_def)

lemma claims_sound_collect:
  assumes "collect_records env f xs = Inr r" and "\<And>x q. x \<in> set xs \<Longrightarrow> f x = Inr q \<Longrightarrow> claims_sound cs q"
  shows "claims_sound cs r"
  using assms(1) by (rule collect_records_induct) (auto intro: assms(2) claims_sound_merge)

lemma claims_sound_evidence:
  assumes "evidence_records env st batch = Inr r" and "st_counters (eb_state batch) = []" and "st_evaluations (eb_state batch) = []"
    and "\<forall>k \<in> set (eb_claims batch). next_of_counter cs k"
    and "\<forall>e \<in> set (eb_natural batch). \<exists>k \<in> set (eb_claims batch).
        cl_scope k = natural_scope e \<and> cl_expected_next k = do_occurrence (nc_decision e)"
  shows "claims_sound cs r"
  using assms evidence_records_Inr[OF assms(1)] by (simp add: claims_sound_def)

lemma natural_claim_Inr:
  assumes "natural_claim r = Inr (k, e)"
  shows "next_of_counter (st_counters (lt_scrum (nr_state r))) k" "cl_scope k = natural_scope e"
    "cl_expected_next k = do_occurrence (nc_decision e)"
    "nc_decision e = \<lparr>do_entity_id = nr_entity_id r, do_decision_type = nr_decision_type r, do_occurrence = cl_expected_next k\<rparr>"
    "nc_business_date e = nr_business_date r" "cl_count k = 1"
proof -
  obtain c d where c: "find_or_stop (\<lambda>k. cs_kind (sn_scope k) = NATURAL_DECISION_OCCURRENCE \<and>
        cs_scope_id (sn_scope k) = nr_entity_id r \<and> cs_scope_key (sn_scope k) = decision_value (nr_decision_type r))
        (st_counters (lt_scrum (nr_state r))) = Inr c"
    and d: "decision_occurrence (nr_entity_id r) (nr_decision_type r) (sn_next_value c) = Inr d"
    and k: "k = \<lparr>cl_scope = sn_scope c, cl_expected_next = sn_next_value c, cl_count = 1\<rparr>"
    and e: "e = \<lparr>nc_decision = d, nc_business_date = nr_business_date r\<rparr>"
    using assms unfolding natural_claim_def by (auto dest: built_InrD elim!: bindR_InrE)
  have dd: "d = \<lparr>do_entity_id = nr_entity_id r, do_decision_type = nr_decision_type r, do_occurrence = sn_next_value c\<rparr>"
    using d by (auto simp: decision_occurrence_def split: if_splits elim!: bindR_InrE)
  note f = find_or_stop_Inr[OF c]
  show "next_of_counter (st_counters (lt_scrum (nr_state r))) k" using f by (auto simp: next_of_counter_def k)
  show "cl_scope k = natural_scope e" using f by (simp add: k e dd natural_scope_def)
  show "cl_expected_next k = do_occurrence (nc_decision e)" "nc_business_date e = nr_business_date r" "cl_count k = 1"
    "nc_decision e = \<lparr>do_entity_id = nr_entity_id r, do_decision_type = nr_decision_type r, do_occurrence = cl_expected_next k\<rparr>"
    by (simp_all add: k e dd)
qed

lemma returned_visit_Inr:
  assumes "returned_visit env x work = Inr (v, s, k)"
  obtains counter step where "counter \<in> set (st_counters (lt_scrum (rc_state x)))" "cs_kind (sn_scope counter) = VISIT_ORDINAL"
    "cs_scope_id (sn_scope counter) = wi_id work"
    "k = \<lparr>cl_scope = sn_scope counter, cl_expected_next = sn_next_value counter, cl_count = 1\<rparr>"
    "route_step (rc_state x) work (wi_current_status_key work) = Inr step"
    "sv_status_key v = rp_status_key step" "sv_activity_key v = rp_required_activity step"
    "sv_ordinal v = sn_next_value counter" "sv_lifecycle v = SV_OPEN" "sv_work_item_id v = wi_id work"
    "sv_team_id v = wi_team_id work" "sv_run_id v = wi_run_id work" "sv_entered_at v = rc_as_of x" "sv_member_id v = None"
    "sv_remaining v = sv_required v" "sv_elapsed v = 0" "sv_pause v = 0"
    "visit_rng_id (en_codec env) (wi_id work) (sn_next_value counter) = Inr (sv_id v)" "check_visit (en_codec env) v = Inr ()"
    "\<exists>dwell touch. create_sample env \<lparr>si_blueprint = lt_blueprint (rc_state x), si_work_item = work, si_visit = v,
        si_dwell_draw = dwell, si_touch_draw = touch\<rparr> = Inr s"
proof -
  obtain c step visit_id touch entry required dwell where
    a: "find_or_stop (\<lambda>k. cs_kind (sn_scope k) = VISIT_ORDINAL \<and> cs_scope_id (sn_scope k) = wi_id work)
          (st_counters (lt_scrum (rc_state x))) = Inr c"
      "route_step (rc_state x) work (wi_current_status_key work) = Inr step"
      "visit_rng_id (en_codec env) (wi_id work) (sn_next_value c) = Inr visit_id"
    and b: "built (check_visit (en_codec env))
               \<lparr>sv_id = visit_id, sv_team_id = wi_team_id work, sv_run_id = wi_run_id work, sv_work_item_id = wi_id work,
                sv_ordinal = sn_next_value c, sv_lifecycle = SV_OPEN, sv_status_key = rp_status_key step,
                sv_activity_key = rp_required_activity step, sv_member_id = None, sv_entered_at = rc_as_of x,
                sv_closed_at = None, sv_required = required, sv_elapsed = 0, sv_remaining = required, sv_queue = 0,
                sv_pause = 0, sv_credited = 0\<rparr> = Inr v"
    and s: "create_sample env \<lparr>si_blueprint = lt_blueprint (rc_state x), si_work_item = work, si_visit = v,
        si_dwell_draw = dwell, si_touch_draw = touch\<rparr> = Inr s"
    and k: "built check_claim \<lparr>cl_scope = sn_scope c, cl_expected_next = sn_next_value c, cl_count = 1\<rparr> = Inr k"
    using assms unfolding returned_visit_def Let_def by (elim bindR_InrE) auto
  show thesis
    by (rule that[of c step]) (use find_or_stop_Inr[OF a(1)] a(2,3) iffD1[OF built_Inr b] built_InrD[OF k] s in auto)
qed

lemma claims_sound_quiet:
  "evidence_records env st \<lparr>eb_evidence = e, eb_event_type = ty, eb_projection = p, eb_state = empty_state, eb_claims = [],
     eb_natural = []\<rparr> = Inr r \<Longrightarrow> claims_sound cs r"
  by (erule claims_sound_evidence) (simp_all add: empty_state_def)

lemma claims_sound_long_stay_record:
  assumes "long_stay_record env x v s = Inr r"
  shows "claims_sound cs r"
  using assms unfolding long_stay_record_def Let_def
  by (elim bindR_InrE) (auto split: if_splits elim!: bindR_InrE claims_sound_quiet)

lemma claims_sound_long_stay: "long_stay env x = Inr r \<Longrightarrow> claims_sound cs r"
  by (auto simp: long_stay_def Let_def elim!: claims_sound_collect bindR_InrE claims_sound_long_stay_record split: if_splits)

lemma claims_sound_review_records:
  assumes "review_records renv x work review = Inr r"
  shows "claims_sound (st_counters (lt_scrum (rc_state x))) r"
proof -
  obtain d where d: "review_decision renv x work review = Inr d" using assms by (auto simp: review_records_def Let_def elim!: bindR_InrE)
  show ?thesis
  proof (cases "ev_outcome (rd_evidence d)")
    case False
    then show ?thesis using assms d by (auto simp: review_records_def intro: claims_sound_quiet)
  next
    case True
    then obtain returned visit sample k ws where v: "returned_visit (re_scrum renv) x returned = Inr (visit, sample, k)"
      and ws: "write_set (re_scrum renv) (empty_state\<lparr>st_work_items := [returned], st_visits := [visit], st_samples := [sample]\<rparr>) = Inr ws"
      and r: "evidence_records (re_scrum renv) (rc_state x) \<lparr>eb_evidence = rd_evidence d, eb_event_type = ''REVIEW_REJECTED'',
               eb_projection = rd_projection d, eb_state = ws, eb_claims = [k], eb_natural = []\<rparr> = Inr r"
      using assms d unfolding review_records_def Let_def by (auto elim!: bindR_InrE)
    have "next_of_counter (st_counters (lt_scrum (rc_state x))) k"
      using v by (rule returned_visit_Inr) (auto simp: next_of_counter_def)
    then show ?thesis
      using r by (elim claims_sound_evidence) (use write_set_Inr[OF ws] in \<open>simp_all add: empty_state_def\<close>)
  qed
qed

lemma claims_sound_review: "review_rejection renv x = Inr r \<Longrightarrow> claims_sound (st_counters (lt_scrum (rc_state x))) r"
  by (auto simp: review_rejection_def Let_def elim!: claims_sound_collect bindR_InrE dest: claims_sound_review_records
      split: if_splits)

lemma cancellation_decision_Inr:
  assumes "cancellation_decision renv x work = Inr d"
  shows "natural_claim \<lparr>nr_state = rc_state x, nr_entity_id = wi_id work, nr_decision_type = RISK_CANCELLATION_OUTCOME,
      nr_business_date = local_date (rc_as_of x)\<rparr> = Inr (cd_claim d, cd_eligible d)"
    "work_visit (rc_state x) (wi_id work) = Inr (cd_visit d)"
    "rule_text (rc_rule x) ''target_status'' = Inr (cd_target d)"
  using assms unfolding cancellation_decision_def Let_def by (auto elim!: bindR_InrE)

lemma claims_sound_cancellation_records:
  assumes "cancellation_records renv x work = Inr r"
  shows "claims_sound (st_counters (lt_scrum (rc_state x))) r"
proof -
  obtain d where d: "cancellation_decision renv x work = Inr d" using assms by (auto simp: cancellation_records_def Let_def elim!: bindR_InrE)
  note n = natural_claim_Inr[OF cancellation_decision_Inr(1)[OF d]]
  obtain ws p ty where r: "evidence_records (re_scrum renv) (rc_state x) \<lparr>eb_evidence = cd_evidence d, eb_event_type = ty,
        eb_projection = p, eb_state = ws, eb_claims = [cd_claim d], eb_natural = [cd_eligible d]\<rparr> = Inr r"
    and ws: "ws = empty_state \<or> cancelled_state (re_scrum renv) x work d = Inr ws"
    using assms d unfolding cancellation_records_def Let_def by (auto elim!: bindR_InrE split: if_splits)
  have "st_counters ws = [] \<and> st_evaluations ws = []"
    using ws by (auto simp: cancelled_state_def empty_state_def dest!: write_set_Inr elim!: bindR_InrE)
  then show ?thesis using r by (elim claims_sound_evidence) (use n in simp_all)
qed

lemma claims_sound_cancellation: "cancellation renv x = Inr r \<Longrightarrow> claims_sound (st_counters (lt_scrum (rc_state x))) r"
  by (auto simp: cancellation_def elim!: claims_sound_collect bindR_InrE dest!: claims_sound_cancellation_records
      split: if_splits option.splits)

lemma claims_sound_dependency_records:
  assumes "dependency_records renv x v = Inr r"
  shows "claims_sound cs r"
proof -
  have one: "claims_sound cs q" if "evidence_records env st \<lparr>eb_evidence = e, eb_event_type = ty, eb_projection = p, eb_state = ws,
      eb_claims = [], eb_natural = []\<rparr> = Inr q" "write_set env (empty_state\<lparr>st_visits := [b]\<rparr>) = Inr ws" for env st e ty p ws b q
    using that(1) by (elim claims_sound_evidence) (use write_set_Inr[OF that(2)] in \<open>simp_all add: empty_state_def\<close>)
  have "claims_sound cs q" if "dependency_entry renv x v n = Inr q" for q n
    using that unfolding dependency_entry_def Let_def by (auto elim!: bindR_InrE intro: one claims_sound_quiet split: if_splits)
  moreover have "claims_sound cs q" if "dependency_continuation (re_scrum renv) x v n = Inr q" for q n
    using that unfolding dependency_continuation_def Let_def by (auto elim!: bindR_InrE intro: one split: if_splits)
  ultimately show ?thesis
    using assms unfolding dependency_records_def Let_def by (auto elim!: bindR_InrE split: if_splits)
qed

lemma claims_sound_dependency: "external_dependency renv x = Inr r \<Longrightarrow> claims_sound cs r"
  by (auto simp: external_dependency_def elim!: claims_sound_collect dest: claims_sound_dependency_records split: if_splits)

lemma claims_sound_unavailability_records:
  assumes "unavailability_records renv x m = Inr r"
  shows "claims_sound (st_counters (lt_scrum (rc_state x))) r"
proof -
  obtain d where d: "unavailability_decision renv x m = Inr d" using assms by (auto simp: unavailability_records_def Let_def elim!: bindR_InrE)
  have n: "natural_claim \<lparr>nr_state = rc_state x, nr_entity_id = m, nr_decision_type = RISK_MEMBER_UNAVAILABLE_OUTCOME,
      nr_business_date = local_date (rc_as_of x)\<rparr> = Inr (ua_claim d, ua_eligible d)"
    using d unfolding unavailability_decision_def Let_def by (auto elim!: bindR_InrE)
  obtain ws ty where r: "evidence_records (re_scrum renv) (rc_state x) \<lparr>eb_evidence = ua_evidence d, eb_event_type = ty,
        eb_projection = None, eb_state = ws, eb_claims = [ua_claim d], eb_natural = [ua_eligible d]\<rparr> = Inr r"
    and ws: "ws = empty_state \<or> (\<exists>v. write_set (re_scrum renv) (empty_state\<lparr>st_overlays := [v]\<rparr>) = Inr ws)"
    using assms d unfolding unavailability_records_def Let_def by (auto elim!: bindR_InrE split: option.splits)
  have "st_counters ws = [] \<and> st_evaluations ws = []" using ws by (auto simp: empty_state_def dest!: write_set_Inr)
  then show ?thesis using r by (elim claims_sound_evidence) (use natural_claim_Inr[OF n] in simp_all)
qed

lemma claims_sound_unavailability: "member_unavailability renv x = Inr r \<Longrightarrow> claims_sound (st_counters (lt_scrum (rc_state x))) r"
  by (auto simp: member_unavailability_def elim!: claims_sound_collect bindR_InrE dest!: claims_sound_unavailability_records
      split: if_splits option.splits)

lemma claims_sound_handler:
  assumes "risk_handler renv key = Some handler" and "handler x = Inr r"
  shows "claims_sound (st_counters (lt_scrum (rc_state x))) r"
  using assms by (auto simp: risk_handler_def split: if_splits intro: claims_sound_long_stay claims_sound_review
      claims_sound_cancellation claims_sound_dependency claims_sound_unavailability)

lemma evaluate_rule_sound:
  assumes "evaluate_rule renv as_of draws rule acc = Inr acc'" and "claims_sound cs (fst acc)"
    and "st_counters (lt_scrum (snd acc)) = cs" and "distinct (map sn_scope cs)"
  shows "claims_sound cs (fst acc')" "st_counters (lt_scrum (snd acc')) = cs"
proof -
  have "claims_sound cs (fst acc') \<and> st_counters (lt_scrum (snd acc')) = cs"
  proof (cases "risk_handler renv (rr_key rule)")
    case None
    then show ?thesis using assms by (simp add: evaluate_rule_def)
  next
    case (Some handler)
    then obtain outcome records working where h: "handler \<lparr>rc_state = snd acc, rc_as_of = as_of, rc_draws = draws, rc_rule = rule\<rparr> = Inr outcome"
      and m: "merge_records (re_scrum renv) (fst acc) outcome = Inr records"
      and w: "with_write_set (re_scrum renv) (snd acc) (rk_state outcome) = Inr working" and a: "acc' = (records, working)"
      using assms(1) by (auto simp: evaluate_rule_def elim!: bindR_InrE)
    have o: "claims_sound cs outcome" using claims_sound_handler[OF Some h] assms(3) by simp
    then have "st_counters (lt_scrum working) = cs"
      using with_write_set_Inr(1)[OF w] assms(3,4) by (simp add: merge_state_def claims_sound_def)
    then show ?thesis using claims_sound_merge[OF assms(2) o m] by (simp add: a)
  qed
  then show "claims_sound cs (fst acc')" "st_counters (lt_scrum (snd acc')) = cs" by simp_all
qed

lemma evaluate_due_risks_sound:
  assumes "evaluate_due_risks renv st as_of draws = Inr r" and "distinct (map sn_scope (st_counters (lt_scrum st)))"
  shows "claims_sound (st_counters (lt_scrum st)) r"
proof -
  obtain working where f: "foldR (evaluate_rule renv as_of draws) (rb_rules (bp_risks (lt_blueprint st))) (no_records, st) = Inr (r, working)"
    using assms(1) by (auto simp: evaluate_due_risks_def elim!: bindR_InrE)
  have "(\<lambda>acc. claims_sound (st_counters (lt_scrum st)) (fst acc) \<and> st_counters (lt_scrum (snd acc)) = st_counters (lt_scrum st)) (r, working)"
    by (rule foldR_invariant[OF f]) (use evaluate_rule_sound assms(2) in auto)
  then show ?thesis by simp
qed

text \<open>Every claim of an evaluation is for the next value of one counter of the state, one value at a time, and
  every natural decision is bound to such a claim: the check that the command makes of its bindings succeeds.
  The changes of the evaluation touch neither counters nor recorded evaluations.\<close>

theorem risk_claims_bind:
  assumes "evaluate_due_risks renv st as_of draws = Inr r" and "distinct (map sn_scope (st_counters (lt_scrum st)))"
  shows "(\<forall>k \<in> set (rk_claims r). next_of_counter (st_counters (lt_scrum st)) k) \<and>
    validate_natural_bindings (dict_of cl_scope (rk_claims r)) (rk_natural r) = Inr () \<and>
    st_counters (rk_state r) = [] \<and> st_evaluations (rk_state r) = []"
proof -
  note s = evaluate_due_risks_sound[OF assms]
  have "case map_of (dict_of cl_scope (rk_claims r)) (natural_scope e) of
          None \<Rightarrow> False | Some k \<Rightarrow> cl_count k = 1 \<and> do_occurrence (nc_decision e) = cl_expected_next k"
    if e: "e \<in> set (rk_natural r)" for e
  proof -
    obtain k where k: "k \<in> set (rk_claims r)" "cl_scope k = natural_scope e" "cl_expected_next k = do_occurrence (nc_decision e)"
      using s e by (auto simp: claims_sound_def)
    then obtain j where j: "map_of (dict_of cl_scope (rk_claims r)) (natural_scope e) = Some j"
      by (metis dict_of_None image_eqI not_None_eq)
    then have "j \<in> set (rk_claims r)" "cl_scope j = natural_scope e" using set_dict_of by fastforce+
    then obtain c d where "c \<in> set (st_counters (lt_scrum st))" "d \<in> set (st_counters (lt_scrum st))" "sn_scope c = natural_scope e"
      "sn_scope d = natural_scope e" "cl_expected_next k = sn_next_value c" "cl_expected_next j = sn_next_value d" "cl_count j = 1"
      using s k by (auto simp: claims_sound_def next_of_counter_def) metis
    moreover from this have "c = d" using distinct_map_eq[OF assms(2)] by metis
    ultimately show ?thesis using j k by simp
  qed
  then have "validate_natural_bindings (dict_of cl_scope (rk_claims r)) (rk_natural r) = Inr ()"
    by (fastforce simp: validate_natural_bindings_def forR_eq_Inr guardR_eq_Inr bindR_check split: option.splits)
  then show ?thesis using s by (simp add: claims_sound_def)
qed

section \<open>Durations by way of floats\<close>

text \<open>A double is within half a unit in the last place, so a span below 35 years survives \<open>total_seconds\<close>.\<close>

lemma fl_error:
  assumes "2 powi (- 1022) \<le> x"
  shows "\<bar>fl x - x\<bar> \<le> x / 2 ^ 53"
proof -
  let ?u = "2 powi ulp_exp x :: rat"
  have x: "0 < x" using assms powi_2_pos[of "- 1022"] by linarith
  have u: "0 < ?u" by (rule powi_2_pos)
  have "- 1022 < ilog2 x + 1"
  proof (rule ccontr)
    assume "\<not> - 1022 < ilog2 x + 1"
    then have "(2::rat) powi (ilog2 x + 1) \<le> 2 powi (- 1022)" by (intro powi_mono_2) simp
    then show False using ilog2_bounds[OF x] assms by linarith
  qed
  then have "ilog2 x = ulp_exp x + int 52" by (simp add: ulp_exp_def)
  then have "?u * 2 ^ 52 \<le> x" using ilog2_bounds[OF x] by (metis powi_add_2 powi_int_nat)
  moreover have "\<bar>fl x - x\<bar> \<le> ?u / 2"
  proof -
    have "fl x - x = (of_int (round_half_even (x / ?u)) - x / ?u) * ?u"
      using x u by (simp add: fl_def fl_pos_def field_simps)
    then have "\<bar>fl x - x\<bar> = \<bar>of_int (round_half_even (x / ?u)) - x / ?u\<bar> * ?u" using u by (simp add: abs_mult)
    also have "\<dots> \<le> 1 / 2 * ?u" using u round_half_even_near[of "x / ?u"] by (intro mult_right_mono) simp_all
    finally show ?thesis by simp
  qed
  ultimately show ?thesis by simp
qed

lemma round_half_even_close: "\<bar>x - of_int n\<bar> < 1 / 2 \<Longrightarrow> round_half_even x = n"
proof -
  assume x: "\<bar>x - of_int n\<bar> < 1 / 2"
  have "\<bar>of_int (round_half_even x) - x\<bar> \<le> (1 / 2 :: rat)" by (rule round_half_even_near)
  then have "\<bar>of_int (round_half_even x) - of_int n\<bar> < (1::rat)" using x by linarith
  then have "\<bar>round_half_even x - n\<bar> < 1" by (metis of_int_abs of_int_diff of_int_less_1_iff)
  then show ?thesis by simp
qed

lemma risk_microseconds_exact:
  assumes "0 \<le> d" and "d \<le> 2 ^ 50"
  shows "risk_microseconds d = d"
proof (cases "d = 0")
  case True
  then show ?thesis using round_half_even_of_int[of 0] by (simp add: risk_microseconds_def f_mul_def)
next
  case False
  let ?x = "of_int d / 1000000 :: rat"
  let ?z = "fl ?x * 1000000"
  have d: "(1::rat) \<le> of_int d" "of_int d \<le> (2::rat) ^ 50"
    using assms False by simp (metis assms(2) of_int_le_iff of_int_numeral of_int_power)
  have small: "2 powi (- 1022) \<le> (1 / 1000000 :: rat)"
  proof -
    have "(2::rat) powi (- 1022) \<le> 2 powi (- 20)" by (rule powi_mono_2) simp
    then show ?thesis by (simp add: power_int_minus)
  qed
  have "\<bar>fl ?x - ?x\<bar> \<le> ?x / 2 ^ 53" by (rule fl_error) (use small d in linarith)
  then have z: "\<bar>?z - of_int d\<bar> \<le> of_int d / 2 ^ 53" by (simp add: abs_le_iff field_simps)
  have "of_int d / 2 ^ 53 \<le> (of_int d / 2 :: rat)" using d by simp
  then have "\<bar>?z - of_int d\<bar> \<le> of_int d / 2" by (rule order_trans[OF z])
  then have zd: "of_int d / 2 \<le> ?z" "?z \<le> 2 * of_int d" using d unfolding abs_le_iff by linarith+
  have tri: "\<bar>a - e\<bar> \<le> 3 * e / 2 ^ 53" if "\<bar>a - b\<bar> \<le> b / 2 ^ 53" "\<bar>b - e\<bar> \<le> e / 2 ^ 53" "b \<le> 2 * e" for a b e :: rat
    using abs_le_D1[OF that(1)] abs_le_D2[OF that(1)] abs_le_D1[OF that(2)] abs_le_D2[OF that(2)] that(3)
    by (intro abs_leI) (simp_all add: field_simps)
  have "\<bar>fl ?z - ?z\<bar> \<le> ?z / 2 ^ 53" by (rule fl_error) (use small zd d in linarith)
  then have "\<bar>fl ?z - of_int d\<bar> \<le> 3 * of_int d / 2 ^ 53" using z zd(2) by (rule tri)
  also have "\<dots> < 1 / 2" using d by simp
  finally show ?thesis by (simp add: risk_microseconds_def f_mul_def round_half_even_close)
qed

lemma risk_microseconds_mono: "d \<le> e \<Longrightarrow> risk_microseconds d \<le> risk_microseconds e"
  unfolding risk_microseconds_def f_mul_def by (intro round_half_even_mono fl_mono mult_right_mono divide_right_mono) simp_all

section \<open>Pauses are bounded\<close>

text \<open>What an external dependency may do to a visit: the owner is released and the pause grows by a positive part of
  the tick, up to the configured wait, and a first pause starts at the entry of the visit.\<close>

definition paused_by :: "int \<Rightarrow> instant \<Rightarrow> int \<Rightarrow> StatusVisitState \<Rightarrow> StatusVisitState \<Rightarrow> bool" where
  "paused_by wait cursor len v w \<longleftrightarrow>
     (\<exists>delta. 0 < delta \<and> delta \<le> len \<and> sv_pause v + delta \<le> wait \<and> (sv_pause v = 0 \<longrightarrow> sv_entered_at v = cursor) \<and>
        w = v\<lparr>sv_member_id := None, sv_queue := sv_queue v + delta, sv_pause := sv_pause v + delta\<rparr>)"

lemma evidence_quiet_visits:
  "evidence_records env st \<lparr>eb_evidence = e, eb_event_type = ty, eb_projection = p, eb_state = empty_state, eb_claims = k,
     eb_natural = n\<rparr> = Inr r \<Longrightarrow> st_visits (rk_state r) = []"
  by (drule evidence_records_Inr(1)) (simp add: empty_state_def)

lemma evidence_one_visit:
  assumes "evidence_records env st \<lparr>eb_evidence = e, eb_event_type = ty, eb_projection = p, eb_state = ws, eb_claims = k,
     eb_natural = n\<rparr> = Inr r" and "write_set env (empty_state\<lparr>st_visits := [b]\<rparr>) = Inr ws"
  shows "st_visits (rk_state r) = [b]"
  using evidence_records_Inr(1)[OF assms(1)] write_set_Inr[OF assms(2)] by simp

lemma paused_visit_Inr: "paused_visit cd v delta = Inr b \<Longrightarrow>
    b = v\<lparr>sv_member_id := None, sv_queue := sv_queue v + delta, sv_pause := sv_pause v + delta\<rparr> \<and> check_visit cd b = Inr ()"
  by (auto simp: paused_visit_def replaced_def elim!: bindR_InrE)

lemma dependency_entry_visits:
  assumes "dependency_entry renv x v n = Inr r" and "w \<in> set (st_visits (rk_state r))"
  shows "\<exists>delta. delta \<noteq> 0 \<and> delta = min n (risk_microseconds (rc_as_of x - rt_simulation_time (lt_runtime (rc_state x)))) \<and>
    w = v\<lparr>sv_member_id := None, sv_queue := sv_queue v + delta, sv_pause := sv_pause v + delta\<rparr>"
proof -
  obtain d where d: "dependency_decision renv x v n = Inr d" using assms(1) by (auto simp: dependency_entry_def Let_def elim!: bindR_InrE)
  have delta: "dd_delta d = (if ev_outcome (dd_evidence d)
      then min n (risk_microseconds (rc_as_of x - rt_simulation_time (lt_runtime (rc_state x)))) else 0)"
    using d unfolding dependency_decision_def Let_def by (auto elim!: bindR_InrE)
  show ?thesis
  proof (cases "\<not> ev_outcome (dd_evidence d) \<or> dd_delta d = 0")
    case True
    then have "evidence_records (re_scrum renv) (rc_state x) \<lparr>eb_evidence = dd_evidence d, eb_event_type = ''RISK_EVALUATED'',
        eb_projection = None, eb_state = empty_state, eb_claims = [], eb_natural = []\<rparr> = Inr r"
      using assms(1) d by (simp add: dependency_entry_def Let_def)
    then have "st_visits (rk_state r) = []" by (rule evidence_quiet_visits)
    then show ?thesis using assms(2) by simp
  next
    case False
    then obtain b ws ty where "paused_visit (risk_codec renv) v (dd_delta d) = Inr b"
      "write_set (re_scrum renv) (empty_state\<lparr>st_visits := [b]\<rparr>) = Inr ws"
      "evidence_records (re_scrum renv) (rc_state x) \<lparr>eb_evidence = dd_evidence d, eb_event_type = ty, eb_projection = None,
         eb_state = ws, eb_claims = [], eb_natural = []\<rparr> = Inr r"
      using assms(1) d unfolding dependency_entry_def Let_def by (auto elim!: bindR_InrE)
    then show ?thesis using assms(2) delta False evidence_one_visit paused_visit_Inr by fastforce
  qed
qed

lemma dependency_continuation_visits:
  assumes "dependency_continuation env x v n = Inr r" and "w \<in> set (st_visits (rk_state r))"
  shows "\<exists>delta. delta \<noteq> 0 \<and> delta = min n (risk_microseconds (rc_as_of x - rt_simulation_time (lt_runtime (rc_state x)))) \<and>
    w = v\<lparr>sv_member_id := None, sv_queue := sv_queue v + delta, sv_pause := sv_pause v + delta\<rparr>"
proof -
  let ?d = "min n (risk_microseconds (rc_as_of x - rt_simulation_time (lt_runtime (rc_state x))))"
  have "?d \<noteq> 0" using assms by (auto simp: dependency_continuation_def Let_def no_records_def empty_state_def)
  then obtain b e ws where "paused_visit (en_codec env) v ?d = Inr b"
    "write_set env (empty_state\<lparr>st_visits := [b]\<rparr>) = Inr ws"
    "evidence_records env (rc_state x) \<lparr>eb_evidence = e, eb_event_type = ''RISK_EVALUATED'', eb_projection = None,
         eb_state = ws, eb_claims = [], eb_natural = []\<rparr> = Inr r"
    using assms(1) unfolding dependency_continuation_def Let_def by (auto elim!: bindR_InrE)
  then show ?thesis using assms(2) \<open>?d \<noteq> 0\<close> evidence_one_visit paused_visit_Inr by fastforce
qed

lemma dependency_records_visits:
  assumes "dependency_records renv x v = Inr r" and "w \<in> set (st_visits (rk_state r))"
    and "rule_number (rc_rule x) ''wait_hours'' None = Inr hours"
    and "rc_as_of x - rt_simulation_time (lt_runtime (rc_state x)) \<le> 2 ^ 50"
  shows "paused_by (hours_us hours) (rt_simulation_time (lt_runtime (rc_state x)))
    (rc_as_of x - rt_simulation_time (lt_runtime (rc_state x))) v w"
proof -
  let ?cursor = "rt_simulation_time (lt_runtime (rc_state x))"
  let ?n = "max 0 (hours_us hours - sv_pause v)"
  have n: "\<not> (?n = 0 \<or> rc_as_of x \<le> ?cursor)"
    using assms(1,2,3) by (auto simp: dependency_records_def Let_def no_records_def empty_state_def elim!: bindR_InrE split: if_splits)
  have e: "risk_microseconds (rc_as_of x - ?cursor) = rc_as_of x - ?cursor"
    using n assms(4) by (intro risk_microseconds_exact) simp_all
  have c: "(sv_pause v \<noteq> 0 \<and> dependency_continuation (re_scrum renv) x v ?n = Inr r) \<or>
      (sv_pause v = 0 \<and> sv_entered_at v = ?cursor \<and> dependency_entry renv x v ?n = Inr r)"
    using assms(1,2,3) n
    by (auto simp: dependency_records_def Let_def no_records_def empty_state_def elim!: bindR_InrE split: if_splits)
  then obtain delta where "delta \<noteq> 0" "delta = min ?n (rc_as_of x - ?cursor)"
    "w = v\<lparr>sv_member_id := None, sv_queue := sv_queue v + delta, sv_pause := sv_pause v + delta\<rparr>"
    using dependency_entry_visits[OF _ assms(2)] dependency_continuation_visits[OF _ assms(2)] e by metis
  then show ?thesis using n c unfolding paused_by_def by (intro exI[of _ delta]) auto
qed

text \<open>An external dependency releases the owner of an open visit and pauses it by a positive time that is at most
  the tick; over all ticks the pause never exceeds the configured wait, and a first pause starts exactly when
  the visit is entered.\<close>

theorem dependency_pause_bounded:
  assumes "external_dependency renv x = Inr r" and "rule_number (rc_rule x) ''wait_hours'' None = Inr hours"
    and "rc_as_of x - rt_simulation_time (lt_runtime (rc_state x)) \<le> 2 ^ 50" and "w \<in> set (st_visits (rk_state r))"
  shows "\<exists>v \<in> set (risk_open_visits (rc_state x)).
    paused_by (hours_us hours) (rt_simulation_time (lt_runtime (rc_state x)))
      (rc_as_of x - rt_simulation_time (lt_runtime (rc_state x))) v w"
proof -
  let ?P = "\<lambda>r. \<forall>w \<in> set (st_visits (rk_state r)). \<exists>v \<in> set (risk_open_visits (rc_state x)).
    paused_by (hours_us hours) (rt_simulation_time (lt_runtime (rc_state x)))
      (rc_as_of x - rt_simulation_time (lt_runtime (rc_state x))) v w"
  have none: "?P no_records" by (simp add: no_records_def empty_state_def)
  have "?P r"
  proof (cases "rr_trigger (rc_rule x) = ''STATUS_ENTERED''")
    case True
    then have "collect_records (re_scrum renv) (dependency_records renv x) (risk_open_visits (rc_state x)) = Inr r"
      using assms(1) by (simp add: external_dependency_def)
    then show ?thesis
    proof (rule collect_records_induct)
      show "?P no_records" by (rule none)
      show "?P q" if "v \<in> set (risk_open_visits (rc_state x))" "dependency_records renv x v = Inr q" for v q
        using dependency_records_visits[OF that(2) _ assms(2,3)] that(1) by blast
      show "?P q" if "?P a" "?P b" "merge_records (re_scrum renv) a b = Inr q" for a b q
        using that(1,2) merge_records_Inr(1)[OF that(3)] by (auto simp: merge_state_def dest!: merged_mem)
    qed
  next
    case False
    then have "r = no_records" using assms(1) by (simp add: external_dependency_def)
    then show ?thesis using none by simp
  qed
  then show ?thesis using assms(4) by blast
qed

section \<open>Long stays are reported once\<close>

lemma risk_elapsed_mono:
  assumes "clocks_ok cal" and "risk_elapsed cal v a = Inr m" and "risk_elapsed cal v b = Inr n" and "a \<le> b"
  shows "m \<le> n"
proof (cases "a \<le> sv_entered_at v")
  case True
  then show ?thesis using assms(2,3) by (auto simp: risk_elapsed_def elim!: bindR_InrE split: if_splits)
next
  case False
  let ?e = "sv_entered_at v"
  obtain j k where jk: "elapsed cal \<lparr>iv_start = ?e, iv_end = a\<rparr> = Inr j" "elapsed cal \<lparr>iv_start = ?e, iv_end = b\<rparr> = Inr k"
    "m = max 0 (risk_microseconds (el_business j) - sv_pause v)" "n = max 0 (risk_microseconds (el_business k) - sv_pause v)"
    using assms(2-4) False by (auto simp: risk_elapsed_def business_elapsed_def utc_interval_def elim!: bindR_InrE split: if_splits)
  have "el_business j = int (card (worked cal ?e a))" "el_business k = int (card (worked cal ?e b))"
    using elapsed_spec[OF assms(1) _ jk(1)] elapsed_spec[OF assms(1) _ jk(2)] False assms(4) by simp_all
  then have "el_business j \<le> el_business k" using card_worked_split[of ?e a b cal] False assms(4) by simp
  then show ?thesis using risk_microseconds_mono[of "el_business j" "el_business k"] unfolding jk(3,4) by (simp add: max_def)
qed

text \<open>The context of the same rule in a tick from one instant to another.\<close>

definition tick_context :: "RiskContext \<Rightarrow> instant \<times> instant \<Rightarrow> RiskContext" where
  "tick_context x ab = x\<lparr>rc_state := (rc_state x)\<lparr>lt_aggregate := (lt_aggregate (rc_state x))
       \<lparr>pa_runtime := (lt_runtime (rc_state x))\<lparr>rt_simulation_time := fst ab\<rparr>\<rparr>\<rparr>, rc_as_of := snd ab\<rparr>"

lemma threshold_crossed_at:
  assumes "live_calendar env (rc_state x) = Inr cal" and "threshold_crossed env (tick_context x (a, b)) v h = Inr c"
  shows "\<exists>m n. risk_elapsed cal v a = Inr m \<and> risk_elapsed cal v b = Inr n \<and> c = (m < h \<and> h \<le> n)"
  using assms by (auto simp: threshold_crossed_def tick_context_def live_calendar_def elim!: bindR_InrE)

text \<open>Over any sequence of adjacent ticks in which a visit stays as it is, its long stay is reported in exactly one
  tick if the sampled threshold lies in the business time that passed, and in none otherwise.\<close>

theorem long_stay_reported_once:
  assumes "live_calendar env (rc_state x) = Inr cal" and "clocks_ok cal" and "sorted (t # ts)"
    and "mapR (\<lambda>ab. threshold_crossed env (tick_context x ab) v h) (zip (t # ts) ts) = Inr crossings"
    and "risk_elapsed cal v t = Inr before" and "risk_elapsed cal v (last (t # ts)) = Inr after"
  shows "length (filter (\<lambda>c. c) crossings) = (if before < h \<and> h \<le> after then 1 else 0)"
  using assms(3-6)
proof (induction ts arbitrary: t before crossings)
  case Nil
  then show ?case by auto
next
  case (Cons u us)
  obtain c cs where c: "threshold_crossed env (tick_context x (t, u)) v h = Inr c" "crossings = c # cs"
    "mapR (\<lambda>ab. threshold_crossed env (tick_context x ab) v h) (zip (u # us) us) = Inr cs"
    using Cons.prems(2) by (auto elim!: bindR_InrE)
  obtain e where e: "risk_elapsed cal v u = Inr e" "c = (before < h \<and> h \<le> e)"
    using threshold_crossed_at[OF assms(1) c(1)] Cons.prems(3) by auto
  have "length (filter (\<lambda>c. c) cs) = (if e < h \<and> h \<le> after then 1 else 0)"
    by (rule Cons.IH[OF _ c(3) e(1)]) (use Cons.prems(1,4) in auto)
  moreover have "before \<le> e" using risk_elapsed_mono[OF assms(2) Cons.prems(3) e(1)] Cons.prems(1) by simp
  moreover have "e \<le> after"
    by (rule risk_elapsed_mono[OF assms(2) e(1)]) (use Cons.prems(1,4) last_in_set[of "u # us"] in auto)
  ultimately show ?case using e(2) c(2) by auto
qed

section \<open>Rejected reviews\<close>

text \<open>What a rejection makes of an item: it is active again at an earlier step of its route, in a fresh visit there
  that enters when the review closed, under the next ordinal, which the claim takes.\<close>

definition returned_to ::
  "codec \<Rightarrow> RiskContext \<Rightarrow> StatusVisitState \<Rightarrow> WorkItemState \<Rightarrow> RiskRecords \<Rightarrow> bool" where
  "returned_to cd x review work r \<longleftrightarrow>
     (\<exists>target route i j work' v s k.
        rule_text (rc_rule x) ''return_status'' = Inr target \<and> work_route (rc_state x) work = Inr route \<and>
        i < j \<and> j < length (ro_steps route) \<and> rp_status_key (ro_steps route ! i) = target \<and>
        rp_status_key (ro_steps route ! j) = sv_status_key review \<and>
        work' = work\<lparr>wi_lifecycle := WI_ACTIVE, wi_current_status_key := target, wi_updated_at := rc_as_of x\<rparr> \<and>
        rk_state r = empty_state\<lparr>st_work_items := [work'], st_visits := [v], st_samples := [s]\<rparr> \<and> rk_claims r = [k] \<and>
        sv_lifecycle v = SV_OPEN \<and> sv_status_key v = target \<and> sv_work_item_id v = wi_id work \<and>
        sv_team_id v = wi_team_id work \<and> sv_run_id v = wi_run_id work \<and>
        sv_entered_at v = rc_as_of x \<and> sv_member_id v = None \<and> sv_remaining v = sv_required v \<and> sv_pause v = 0 \<and>
        vs_visit_id s = sv_id v \<and> visit_rng_id cd (wi_id work) (sv_ordinal v) = Inr (sv_id v) \<and>
        cl_expected_next k = sv_ordinal v \<and> next_of_counter (st_counters (lt_scrum (rc_state x))) k \<and>
        cs_kind (cl_scope k) = VISIT_ORDINAL \<and> cs_scope_id (cl_scope k) = wi_id work)"

lemma step_positions_aux:
  "map_of (fold (\<lambda>(k, p). dict_set (rp_status_key p) k) (enumerate n ps) d) key = Some i \<Longrightarrow>
    (n \<le> i \<and> i < n + length ps \<and> rp_status_key (ps ! (i - n)) = key) \<or> map_of d key = Some i"
proof (induction ps arbitrary: n d)
  case (Cons p ps)
  from Cons.IH[of "Suc n" "dict_set (rp_status_key p) n d"] Cons.prems
  show ?case by (auto simp: dict_simps nth_Cons' split: if_splits)
qed simp

lemma step_positions_nth:
  "map_of (step_positions ps) key = Some i \<Longrightarrow> i < length ps \<and> rp_status_key (ps ! i) = key"
  using step_positions_aux[of 0 ps "[]" key i] by (simp add: step_positions_def)

lemma require_earlier_step_Inr:
  assumes "require_earlier_step st work source target = Inr ()"
  obtains route i j where "work_route st work = Inr route" "i < j" "j < length (ro_steps route)"
    "rp_status_key (ro_steps route ! i) = target" "rp_status_key (ro_steps route ! j) = source"
proof -
  obtain route where r: "work_route st work = Inr route" using assms by (auto simp: require_earlier_step_def elim!: bindR_InrE)
  then obtain i where i: "map_of (step_positions (ro_steps route)) target = Some i"
    using assms by (auto simp: require_earlier_step_def Let_def split: option.splits)
  then obtain j where j: "map_of (step_positions (ro_steps route)) source = Some j" "\<not> j \<le> i"
    using assms r by (auto simp: require_earlier_step_def dict_get_Inr Let_def elim!: bindR_InrE split: if_splits)
  show thesis by (rule that[OF r, of i j]) (use step_positions_nth[OF i] step_positions_nth[OF j(1)] j(2) in auto)
qed

lemma review_decision_Inr:
  assumes "review_decision renv x work review = Inr d"
  shows "rule_text (rc_rule x) ''return_status'' = Inr (rd_target d)"
    "require_earlier_step (rc_state x) work (sv_status_key review) (rd_target d) = Inr ()"
  using assms unfolding review_decision_def Let_def by (auto elim!: bindR_InrE)

lemma rejected_records:
  assumes "review_records renv x work review = Inr r" and "review_decision renv x work review = Inr d" and "ev_outcome (rd_evidence d)"
  shows "returned_to (risk_codec renv) x review work r"
proof -
  let ?work = "work\<lparr>wi_lifecycle := WI_ACTIVE, wi_current_status_key := rd_target d, wi_updated_at := rc_as_of x\<rparr>"
  obtain v s k ws where w: "replaced_work (risk_codec renv) ?work = Inr ?work"
    and v: "returned_visit (re_scrum renv) x ?work = Inr (v, s, k)"
    and ws: "write_set (re_scrum renv) (empty_state\<lparr>st_work_items := [?work], st_visits := [v], st_samples := [s]\<rparr>) = Inr ws"
    and r: "evidence_records (re_scrum renv) (rc_state x) \<lparr>eb_evidence = rd_evidence d, eb_event_type = ''REVIEW_REJECTED'',
               eb_projection = rd_projection d, eb_state = ws, eb_claims = [k], eb_natural = []\<rparr> = Inr r"
    using assms unfolding review_records_def Let_def by (auto simp: replaced_work_def elim!: bindR_InrE)
  obtain route i j where route: "work_route (rc_state x) work = Inr route" "i < j" "j < length (ro_steps route)"
    "rp_status_key (ro_steps route ! i) = rd_target d" "rp_status_key (ro_steps route ! j) = sv_status_key review"
    by (rule require_earlier_step_Inr[OF review_decision_Inr(2)[OF assms(2)]])
  have e: "rk_state r = empty_state\<lparr>st_work_items := [?work], st_visits := [v], st_samples := [s]\<rparr>" "rk_claims r = [k]"
    using evidence_records_Inr[OF r] write_set_Inr[OF ws] by simp_all
  show ?thesis
    using v
  proof (rule returned_visit_Inr)
    fix counter step
    assume c: "counter \<in> set (st_counters (lt_scrum (rc_state x)))" "cs_kind (sn_scope counter) = VISIT_ORDINAL"
      "cs_scope_id (sn_scope counter) = wi_id ?work"
      "k = \<lparr>cl_scope = sn_scope counter, cl_expected_next = sn_next_value counter, cl_count = 1\<rparr>"
      and step: "route_step (rc_state x) ?work (wi_current_status_key ?work) = Inr step"
      and p: "sv_status_key v = rp_status_key step" "sv_ordinal v = sn_next_value counter" "sv_lifecycle v = SV_OPEN"
      "sv_work_item_id v = wi_id ?work" "sv_entered_at v = rc_as_of x" "sv_member_id v = None" "sv_remaining v = sv_required v"
      "sv_team_id v = wi_team_id ?work" "sv_run_id v = wi_run_id ?work"
      "sv_pause v = 0" "visit_rng_id (risk_codec renv) (wi_id ?work) (sn_next_value counter) = Inr (sv_id v)"
      and smp: "\<exists>dwell touch. create_sample (re_scrum renv) \<lparr>si_blueprint = lt_blueprint (rc_state x), si_work_item = ?work, si_visit = v,
        si_dwell_draw = dwell, si_touch_draw = touch\<rparr> = Inr s"
    have "rp_status_key step = rd_target d" using step by (auto simp: route_step_def dest!: find_or_stop_Inr elim!: bindR_InrE)
    moreover have "vs_visit_id s = sv_id v" using smp by (auto elim!: created_sample_parts)
    moreover have "next_of_counter (st_counters (lt_scrum (rc_state x))) k" using c by (auto simp: next_of_counter_def)
    ultimately show ?thesis
      unfolding returned_to_def
      by (intro exI[of _ "rd_target d"] exI[of _ route] exI[of _ i] exI[of _ j] exI[of _ ?work] exI[of _ v] exI[of _ s]
          exI[of _ k] conjI) (use c p e route review_decision_Inr(1)[OF assms(2)] in simp_all)
  qed
qed

text \<open>A review is rejected exactly if the draw of its decision lies below the probability of the rule. Then its
  item is active again at an earlier step of its route, in a fresh unowned visit under the next ordinal of the
  item; if not, no row changes and no ordinal is claimed.\<close>

theorem review_outcome:
  assumes "review_records renv x work review = Inr r"
  shows "\<exists>draw factors probability.
    bindR (decision_occurrence (sv_id review) RISK_REVIEW_REJECTION_OUTCOME 0) (rc_draws x) = Inr draw \<and>
    risk_factors (rc_state x) work review = Inr factors \<and>
    risk_probability renv (rc_rule x) factors = Inr probability \<and>
    (if ud_unit_value draw < probability then returned_to (risk_codec renv) x review work r
     else rk_state r = empty_state \<and> rk_claims r = [])"
proof -
  obtain d where d: "review_decision renv x work review = Inr d" using assms by (auto simp: review_records_def Let_def elim!: bindR_InrE)
  then obtain draw factors probability where p:
    "bindR (decision_occurrence (sv_id review) RISK_REVIEW_REJECTION_OUTCOME 0) (rc_draws x) = Inr draw"
    "risk_factors (rc_state x) work review = Inr factors" "risk_probability renv (rc_rule x) factors = Inr probability"
    "ev_outcome (rd_evidence d) = (ud_unit_value draw < probability)"
    unfolding review_decision_def Let_def by (elim bindR_InrE) (rule that, auto)
  have "rk_state r = empty_state \<and> rk_claims r = []" if "\<not> ev_outcome (rd_evidence d)"
  proof -
    have "evidence_records (re_scrum renv) (rc_state x) \<lparr>eb_evidence = rd_evidence d, eb_event_type = ''RISK_EVALUATED'',
        eb_projection = None, eb_state = empty_state, eb_claims = [], eb_natural = []\<rparr> = Inr r"
      using assms d that by (simp add: review_records_def Let_def)
    then show ?thesis using evidence_records_Inr(1,2) by fastforce
  qed
  then show ?thesis using rejected_records[OF assms d] p by auto
qed

lemma collect_one: "collect_records env f [y] = Inr r \<Longrightarrow> \<exists>q. f y = Inr q \<and> merge_records env no_records q = Inr r"
  by (auto simp: collect_records_def elim!: bindR_InrE)

lemma merged_single: "merged key [] [y] = [y]"
  by (simp add: merged_dict dict_of_def)

text \<open>A snapshot never has two open visits of one item.\<close>

lemma snapshot_one_open_visit:
  assumes "validate_snapshot env st = Inr ()" and "v \<in> set (st_visits st)" and "w \<in> set (st_visits st)"
    and "sv_lifecycle v = SV_OPEN" and "sv_lifecycle w = SV_OPEN"
    and "(sv_team_id v, sv_run_id v, sv_work_item_id v) = (sv_team_id w, sv_run_id w, sv_work_item_id w)"
  shows "v = w"
proof -
  have "validate_partial_uniqueness st = Inr ()"
    using validate_snapshot_state[OF assms(1)] by (simp add: validate_state_def bindR_check)
  then have d: "distinct (map (\<lambda>v. (sv_team_id v, sv_run_id v, sv_work_item_id v)) (filter (\<lambda>v. sv_lifecycle v = SV_OPEN) (st_visits st)))"
    by (simp add: validate_partial_uniqueness_def require_unique_coordinates_def bindR_check guardR_eq_Inr)
  show ?thesis by (rule distinct_map_eq[OF d]) (use assms in auto)
qed

text \<open>(C27) A rejection is decided one tick after the review was closed, when the item may already be in its next
  timed step. The evaluation does not close that visit. Take a rejection rule on exits under which exactly one closed review is
  due and is rejected, while the item has an open visit; let the visits have different identifiers, and let the
  identifier that the item's own visit counter stands for not be that of the open visit. Then evaluating the rule raises,
  because the state would hold two open visits of one item; and so does the evaluation of all due risks, in
  whichever place of the blueprint's list the rule stands, if the rules before it led to this state.\<close>

theorem rejection_after_next_step_raises:
  assumes rule: "rr_key rule = ''REVIEW_REJECTION''" "rr_trigger rule = ''STATUS_EXITED''"
    and due: "filter (\<lambda>v. review_due st v as_of) (st_visits (lt_scrum st)) = [review]"
    and work: "work_named st (sv_work_item_id review) = Inr work"
    and d: "review_decision renv \<lparr>rc_state = st, rc_as_of = rt_simulation_time (lt_runtime st), rc_draws = draws, rc_rule = rule\<rparr>
        work review = Inr d" "ev_outcome (rd_evidence d)"
    and ids: "distinct (map sv_id (st_visits (lt_scrum st)))"
    and v: "v \<in> set (st_visits (lt_scrum st))" "sv_lifecycle v = SV_OPEN"
      "(sv_team_id v, sv_run_id v, sv_work_item_id v) = (wi_team_id work, wi_run_id work, wi_id work)"
    and fresh: "\<forall>k \<in> set (st_counters (lt_scrum st)). cs_kind (sn_scope k) = VISIT_ORDINAL \<and> cs_scope_id (sn_scope k) = wi_id work \<longrightarrow>
      visit_rng_id (risk_codec renv) (wi_id work) (sn_next_value k) \<noteq> Inr (sv_id v)"
  shows "\<exists>e. evaluate_rule renv as_of draws rule (records, st) = Inl e \<and>
    (\<forall>start before after. rb_rules (bp_risks (lt_blueprint start)) = before @ rule # after \<and>
       foldR (evaluate_rule renv as_of draws) before (no_records, start) = Inr (records, st) \<longrightarrow>
       evaluate_due_risks renv start as_of draws = Inl e)"
proof (cases "evaluate_rule renv as_of draws rule (records, st)")
  case (Inl e)
  then show ?thesis by (auto simp: evaluate_due_risks_def foldR_append)
next
  case ok: (Inr acc')
  let ?x = "\<lparr>rc_state = st, rc_as_of = as_of, rc_draws = draws, rc_rule = rule\<rparr>"
  let ?due = "\<lparr>rc_state = st, rc_as_of = rt_simulation_time (lt_runtime st), rc_draws = draws, rc_rule = rule\<rparr>"
  have h: "risk_handler renv (rr_key rule) = Some (review_rejection renv)" by (simp add: risk_handler_def rule)
  obtain outcome st' where o: "review_rejection renv ?x = Inr outcome" and w: "with_write_set (re_scrum renv) st (rk_state outcome) = Inr st'"
    using ok by (auto simp: evaluate_rule_def h elim!: bindR_InrE)
  have closed: "sv_closed_at review = Some (rt_simulation_time (lt_runtime st))"
  proof -
    have "review \<in> set (filter (\<lambda>v. review_due st v as_of) (st_visits (lt_scrum st)))" by (simp only: due) simp
    then show ?thesis by (simp add: review_due_def)
  qed
  have "collect_records (re_scrum renv) (\<lambda>v. bindR (work_named st (sv_work_item_id v)) (\<lambda>work.
          review_records renv (?x\<lparr>rc_as_of := the (sv_closed_at v)\<rparr>) work v)) [review] = Inr outcome"
    using o by (simp add: review_rejection_def Let_def rule due)
  then obtain q where q: "review_records renv ?due work review = Inr q" and m: "merge_records (re_scrum renv) no_records q = Inr outcome"
    using collect_one by (fastforce simp: work closed)
  obtain work' n s where n: "rk_state q = empty_state\<lparr>st_work_items := [work'], st_visits := [n], st_samples := [s]\<rparr>"
    "sv_lifecycle n = SV_OPEN" "sv_work_item_id n = wi_id work" "sv_team_id n = wi_team_id work" "sv_run_id n = wi_run_id work"
    "\<exists>k \<in> set (st_counters (lt_scrum st)). cs_kind (sn_scope k) = VISIT_ORDINAL \<and> cs_scope_id (sn_scope k) = wi_id work \<and>
       visit_rng_id (risk_codec renv) (wi_id work) (sn_next_value k) = Inr (sv_id n)"
    using rejected_records[OF q d] by (auto simp: returned_to_def next_of_counter_def) metis
  have "rk_state outcome = rk_state q"
    using merge_records_Inr(1)[OF m] by (simp add: n(1) no_records_def merge_state_def empty_state_def merged_single)
  then have "st_visits (lt_scrum st') = merged sv_id (st_visits (lt_scrum st)) [n]"
    using with_write_set_Inr(1)[OF w] by (simp add: merge_state_def n(1) empty_state_def)
  then have vs: "set (st_visits (lt_scrum st')) = {u \<in> set (st_visits (lt_scrum st)). sv_id u \<noteq> sv_id n} \<union> {n}"
    using set_merged[OF ids, of "[n]"] by simp
  have "sv_id v \<noteq> sv_id n" using fresh n(6) by metis
  moreover have "v = n"
    by (rule snapshot_one_open_visit[OF with_write_set_Inr(3)[OF w]]) (use v n vs \<open>sv_id v \<noteq> sv_id n\<close> in auto)
  ultimately show ?thesis by simp
qed

end
