(* ===== verification/Tick_Commit.thy ===== *)
theory Tick_Commit
  imports Risk_Outcomes
begin

text \<open>
  The tick of a Scrum team as a whole (\<open>v2/domain/scrum_tick.py\<close>): the request, the loop that repeats the
  evaluation of the risks until it fits the end of the tick, the ledger drafts of every changed visit, and
  the authoritative command that a tick or a sprint boundary produces.
\<close>

section \<open>Requests and the advance of a tick\<close>

record TickRequest =
  tq_team_id :: uuid
  tq_ends_at :: instant
  tq_recorded_at :: instant

record RiskAdvance =
  av_state :: LiveTeamState
  av_risks :: RiskEvaluation
  av_result :: TickResult

definition validate_request :: "LiveTeamState \<Rightarrow> TickRequest \<Rightarrow> unit res" where
  "validate_request st request =
     bindR (guardR (tq_team_id request = rt_team_id (lt_runtime st))
              (Value_Error ''tick request must identify the loaded team'')) (\<lambda>_.
       guardR (rt_simulation_time (lt_runtime st) \<le> tq_ends_at request)
         (Value_Error ''tick end must not precede persisted simulation time''))"

definition risk_blocked_visits :: "LiveTeamState \<Rightarrow> RiskEvaluation \<Rightarrow> uuid list" where
  "risk_blocked_visits st risks =
     (let original = dict_of sv_id (st_visits (lt_scrum st)) in
      map sv_id (filter (\<lambda>v. case map_of original (sv_id v) of
                               None \<Rightarrow> False | Some o_visit \<Rightarrow> sv_pause o_visit < sv_pause v) (st_visits (rk_state risks))))"

definition advance_for_risks ::
  "risk_env \<Rightarrow> LiveTeamState \<Rightarrow> CalendarConfiguration \<Rightarrow> draw_source \<Rightarrow> instant \<Rightarrow> RiskAdvance res" where
  "advance_for_risks renv st cal draws ends_at =
     (let env = re_scrum renv in
      bindR (evaluate_due_risks renv st ends_at draws) (\<lambda>risks.
      bindR (with_write_set env st (rk_state risks)) (\<lambda>working.
      bindR (business_segments working cal (rt_simulation_time (lt_runtime st)) ends_at) (\<lambda>segments.
      bindR (advance_visits env working ends_at segments cal draws (risk_blocked_visits st risks)) (\<lambda>result.
        Inr \<lparr>av_state = working, av_risks = risks, av_result = result\<rparr>)))))"

text \<open>The end of a tick never lies before the instant at which it starts, whatever the state: this is what ends the loop.\<close>

lemma advance_segments_end:
  "advance_segments cd st cal works blocked gs visits c causes t = Inr (visits', c', causes', u) \<Longrightarrow>
     (u = t \<or> (\<exists>g \<in> set gs. sg_start g \<le> u \<and> u \<le> sg_end g))"
proof (induction gs arbitrary: visits c causes)
  case (Cons g gs)
  obtain probe pc pcs boundary where b: "advance_segment cd st works visits c g blocked = Inr (probe, pc, pcs)"
    "completion_boundary st cal g visits probe works = Inr boundary"
    using Cons.prems by (auto elim!: bindR_InrE)
  show ?case
  proof (cases boundary)
    case None
    then show ?thesis using Cons.prems Cons.IH b by fastforce
  next
    case (Some s)
    then have "u = s" using Cons.prems b by (auto elim!: bindR_InrE)
    then show ?thesis using completion_boundary_bounds b Some by fastforce
  qed
qed simp

lemma finish_loop_end:
  "finish_loop env st cal works original samples at_end draws vs acc = Inr r \<Longrightarrow> tk_ends_at r = tk_ends_at acc"
proof (induction vs arbitrary: acc)
  case (Cons v vs)
  then show ?case by (force elim!: bindR_InrE split: if_splits option.splits)
qed simp

lemma advance_visits_end:
  assumes "advance_visits env st e gs cal draws blocked = Inr r"
  shows "tk_ends_at r = e \<or> (\<exists>g \<in> set gs. sg_start g \<le> tk_ends_at r \<and> tk_ends_at r \<le> sg_end g)"
proof -
  obtain visits c causes u q where a: "advance_segments (en_codec env) st cal (dict_of wi_id (st_work_items (lt_scrum st))) blocked gs
      (open_visits st) (consumption_map st) [] e = Inr (visits, c, causes, u)"
    and f: "finish_visits env st cal (dict_of wi_id (st_work_items (lt_scrum st))) (open_visits st) visits c u draws = Inr q"
    and r: "r = q\<lparr>tk_queue_causes := aggregate_queue_causes causes\<rparr>"
    using assms by (auto simp: advance_visits_def Let_def elim!: bindR_InrE)
  have "tk_ends_at q = u" using f finish_loop_end by (fastforce simp: finish_visits_def elim!: bindR_InrE)
  then show ?thesis using advance_segments_end[OF a] r by simp
qed

lemma business_segments_inside:
  assumes "business_segments st cal a b = Inr gs"
  shows "\<forall>g \<in> set gs. a \<le> sg_start g \<and> sg_start g < sg_end g \<and> sg_end g \<le> b"
proof (cases "a = b")
  case False
  then obtain day final where "segments_from st cal a b day final = Inr gs"
    using assms by (auto simp: business_segments_def elim!: bindR_InrE)
  from segments_from_spec[OF this] show ?thesis by blast
qed (use assms in \<open>simp add: business_segments_def\<close>)

lemma advance_for_risks_end:
  assumes "advance_for_risks renv st cal draws e = Inr a"
  shows "tk_ends_at (av_result a) = e \<or>
    rt_simulation_time (lt_runtime st) \<le> tk_ends_at (av_result a) \<and> tk_ends_at (av_result a) \<le> e"
proof -
  obtain risks working gs r where "business_segments working cal (rt_simulation_time (lt_runtime st)) e = Inr gs"
    "advance_visits (re_scrum renv) working e gs cal draws (risk_blocked_visits st risks) = Inr r" "av_result a = r"
    using assms by (auto simp: advance_for_risks_def Let_def elim!: bindR_InrE)
  from business_segments_inside[OF this(1)] advance_visits_end[OF this(2)] this(3) show ?thesis by fastforce
qed

function risk_aware_advance ::
  "risk_env \<Rightarrow> LiveTeamState \<Rightarrow> CalendarConfiguration \<Rightarrow> draw_source \<Rightarrow> instant \<Rightarrow> RiskAdvance res" where
  "risk_aware_advance renv st cal draws ends_at =
     bindR (advance_for_risks renv st cal draws ends_at) (\<lambda>advance.
       if tk_ends_at (av_result advance) < ends_at
       then risk_aware_advance renv st cal draws (tk_ends_at (av_result advance)) else Inr advance)"
  by pat_completeness auto
termination
  by (relation "measure (\<lambda>(renv, st, cal, draws, ends_at). nat (ends_at - rt_simulation_time (lt_runtime st)))")
    (auto dest!: advance_for_risks_end)

declare risk_aware_advance.simps [simp del]

section \<open>Ledger drafts\<close>

record LedgerItem =
  li_state :: LiveTeamState
  li_request :: TickRequest
  li_work :: WorkItemState
  li_visit :: StatusVisitState
  li_original_visit :: StatusVisitState
  li_queue_causes :: "QueueCause list"
  li_semantic_key :: string
  li_summary :: string

definition ledger_key :: "scrum_env \<Rightarrow> LiveTeamState \<Rightarrow> StatusVisitState \<Rightarrow> instant \<Rightarrow> string" where
  "ledger_key env st v ends_at =
     (let rt = lt_runtime st in
      ''scrum-tick/'' @ uuid_text (rt_team_id rt) @ ''/'' @ uuid_text (rt_run_id rt) @ ''/'' @ int_text (rt_version rt) @ ''/'' @
      uuid_text (sv_work_item_id v) @ ''/'' @ int_text (sv_ordinal v) @ ''/'' @ en_instant_text env ends_at)"

definition current_status :: "LiveTeamState \<Rightarrow> WorkItemState \<Rightarrow> WorkflowStatus res" where
  "current_status st w =
     find_or_stop (\<lambda>s. ws_key s = wi_current_status_key w) (wf_statuses (bp_workflow (lt_blueprint st)))"

definition ledger_summary :: "LiveTeamState \<Rightarrow> WorkItemState \<Rightarrow> StatusVisitState \<Rightarrow> string res" where
  "ledger_summary st w v =
     (if wi_current_status_key w \<noteq> sv_status_key v
      then bindR (current_status st w) (\<lambda>status.
             Inr (title (wi_issue_type w) @ '' moved to '' @ ws_jira_name status))
      else if sv_member_id v = None
      then Inr (title (wi_issue_type w) @ '' is queued for '' @
                (case sv_activity_key v of None \<Rightarrow> ''None'' | Some activity \<Rightarrow> activity))
      else Inr (title (wi_issue_type w) @ '' progressed in '' @ sv_status_key v))"

definition ledger_activity :: "codec \<Rightarrow> LedgerItem \<Rightarrow> ActivityEventDraft res" where
  "ledger_activity cd item =
     activity_draft cd
       (make_envelope (li_semantic_key item) (tq_ends_at (li_request item)) (JObj [(''summary'', JStr (li_summary item))]))
       \<lparr>ad_event_type = ''ISSUE_UPDATED'', ad_aggregate_type = ''ISSUE'', ad_aggregate_id = wi_id (li_work item),
        ad_aggregate_version = rt_version (lt_runtime (li_state item)) + 1\<rparr>"

definition touch_delta :: "LedgerItem \<Rightarrow> int" where
  "touch_delta item = sv_credited (li_visit item) - sv_credited (li_original_visit item)"

definition causal_member :: "LedgerItem \<Rightarrow> uuid option" where
  "causal_member item =
     (case sv_member_id (li_visit item) of None \<Rightarrow> sv_member_id (li_original_visit item) | Some m \<Rightarrow> Some m)"

definition causal_reason :: "LedgerItem \<Rightarrow> string" where
  "causal_reason item =
     (if wi_current_status_key (li_work item) \<noteq> sv_status_key (li_visit item) then ''TRANSITIONED''
      else if sv_remaining (li_visit item) = 0 then ''DWELLING''
      else if touch_delta item \<noteq> 0 then ''PROGRESSED''
      else case li_queue_causes item of cause # _ \<Rightarrow> qc_reason cause | [] \<Rightarrow> ''DWELLING'')"

definition causal_segment :: "scrum_env \<Rightarrow> LedgerItem \<Rightarrow> BusinessSegment res" where
  "causal_segment env item =
     (let st = li_state item; ends_at = tq_ends_at (li_request item) in
      bindR (live_calendar env st) (\<lambda>cal.
      bindR (instant_add ends_at (- 1)) (\<lambda>last.
      bindR (business_date cal last) (\<lambda>day.
      bindR (working_interval cal day) (\<lambda>working.
        Inr (case working of
               None \<Rightarrow> \<lparr>sg_business_date = day, sg_start = last, sg_end = ends_at\<rparr>
             | Some iv \<Rightarrow> \<lparr>sg_business_date = day, sg_start = max (rt_simulation_time (lt_runtime st)) (iv_start iv),
                           sg_end = ends_at\<rparr>))))))"

definition timing_context :: "scrum_env \<Rightarrow> LedgerItem \<Rightarrow> json res" where
  "timing_context env item =
     (let st = li_state item; original = li_original_visit item in
      bindR (find_or_stop (\<lambda>s. vs_visit_id s = sv_id original) (st_samples (lt_scrum st))) (\<lambda>sample.
      bindR (case causal_member item of
               None \<Rightarrow> Inr None
             | Some m \<Rightarrow>
                 bindR (find_or_stop (\<lambda>i. mi_id i = m) (st_member_identities (lt_scrum st))) (\<lambda>identity.
                 bindR (member_blueprint st identity) (\<lambda>member. Inr (Some (identity, member))))) (\<lambda>owner.
      bindR (causal_segment env item) (\<lambda>segment.
      bindR (case owner of
               None \<Rightarrow> Inr (JNull, JNull)
             | Some (identity, _) \<Rightarrow>
                 bindR (effective_fraction st identity segment) (\<lambda>fraction.
                 bindR (daily_ceiling st identity segment) (\<lambda>ceiling. Inr (JNum fraction, JInt ceiling)))) (\<lambda>(fraction, ceiling).
        Inr (JObj [(''activity'', json_opt JStr (sv_activity_key original)),
          (''dwell_sampled_hours'', JNum (vs_dwell_sampled_hours sample)),
          (''touch_sampled_hours'', JNum (vs_touch_sampled_hours sample)),
          (''required_work_microseconds'', JInt (vs_required sample)),
          (''daily_capacity_hours'', json_opt (\<lambda>(_, member). JNum (mb_daily_capacity_hours member)) owner),
          (''max_concurrent_wip'', json_opt (\<lambda>(_, member). JInt (mb_max_concurrent_wip member)) owner),
          (''availability_fraction'', fraction), (''effective_daily_capacity_microseconds'', ceiling)]))))))"

definition ledger_ground_truth :: "scrum_env \<Rightarrow> LedgerItem \<Rightarrow> GroundTruthRecordDraft res" where
  "ledger_ground_truth env item =
     (let st = li_state item; v = li_visit item; original = li_original_visit item; ends_at = tq_ends_at (li_request item) in
      bindR (live_calendar env st) (\<lambda>cal.
      bindR (business_elapsed cal (rt_simulation_time (lt_runtime st)) ends_at) (\<lambda>business.
      bindR (timing_context env item) (\<lambda>timing.
        ground_truth_draft (en_codec env)
          (make_envelope (li_semantic_key item) ends_at
            (JObj [(''work_item_id'', JStr (uuid_text (wi_id (li_work item)))), (''reason'', JStr (causal_reason item)),
              (''member_id'', json_opt (\<lambda>m. JStr (uuid_text m)) (causal_member item)),
              (''status'', JStr (wi_current_status_key (li_work item))), (''business_delta_microseconds'', JInt business),
              (''queue_delta_microseconds'', JInt (sv_queue v - sv_queue original)),
              (''queue_causes'', JList (map (\<lambda>c. JObj [(''reason'', JStr (qc_reason c)),
                                                        (''queue_delta_microseconds'', JInt (qc_delta c))]) (li_queue_causes item))),
              (''pause_delta_microseconds'', JInt (sv_pause v - sv_pause original)),
              (''touch_delta_microseconds'', JInt (touch_delta item)),
              (''remaining_before_microseconds'', JInt (sv_remaining original)),
              (''remaining_after_microseconds'', JInt (sv_remaining v)), (''timing_context'', timing)]))
          \<lparr>gt_record_type = ''ISSUE_STATE'', gt_provenance_type = ''SIMULATOR_V2''\<rparr>))))"

definition ledger_projection :: "codec \<Rightarrow> LedgerItem \<Rightarrow> ProjectionIntentDraft res" where
  "ledger_projection cd item =
     bindR (current_status (li_state item) (li_work item)) (\<lambda>status.
       projection_draft cd
         (make_envelope (li_semantic_key item) (tq_ends_at (li_request item))
           (JObj [(''depends_on'', JList []), (''issue_id'', JStr (uuid_text (wi_id (li_work item)))),
                  (''status'', JStr (ws_jira_name status))]))
         \<lparr>pd_target_kind = ''JIRA'', pd_operation_type = ''TRANSITION_ISSUE'', pd_aggregate_id = wi_id (li_work item),
          pd_aggregate_version = rt_version (lt_runtime (li_state item)) + 1, pd_status = ''PENDING''\<rparr>)"

record LedgerDrafts =
  ld_activity :: "ActivityEventDraft list"
  ld_ground_truth :: "GroundTruthRecordDraft list"
  ld_intents :: "ProjectionIntentDraft list"

definition ledger_item :: "scrum_env \<Rightarrow> LiveTeamState \<Rightarrow> TickRequest \<Rightarrow> TickResult \<Rightarrow> StatusVisitState \<Rightarrow> LedgerItem res" where
  "ledger_item env st request result v =
     (let work_changes = dict_of wi_id (tk_work_items result);
          work_by_id = dict_of wi_id (st_work_items (lt_scrum st));
          original_visits = dict_of sv_id (st_visits (lt_scrum st))
      in bindR (dict_get work_by_id (sv_work_item_id v)) (\<lambda>stored.
         let work = dict_get_default work_changes (sv_work_item_id v) stored in
         bindR (dict_get original_visits (sv_id v)) (\<lambda>original.
         bindR (ledger_summary st work v) (\<lambda>summary.
           Inr \<lparr>li_state = st, li_request = request, li_work = work, li_visit = v, li_original_visit = original,
                li_queue_causes = filter (\<lambda>c. qc_visit_id c = sv_id v) (tk_queue_causes result),
                li_semantic_key = ledger_key env st v (tq_ends_at request), li_summary = summary\<rparr>))))"

definition record_visit ::
  "scrum_env \<Rightarrow> LiveTeamState \<Rightarrow> TickRequest \<Rightarrow> TickResult \<Rightarrow> StatusVisitState \<Rightarrow> LedgerDrafts \<Rightarrow> LedgerDrafts res" where
  "record_visit env st request result v acc =
     (if 0 < sv_ordinal v \<and> sv_lifecycle v = SV_OPEN then Inr acc
      else
        bindR (ledger_item env st request result v) (\<lambda>item.
        bindR (ledger_activity (en_codec env) item) (\<lambda>activity.
        bindR (ledger_ground_truth env item) (\<lambda>truth.
        bindR (if wi_id (li_work item) \<in> wi_id ` set (tk_work_items result)
               then bindR (ledger_projection (en_codec env) item) (\<lambda>p. Inr [p]) else Inr []) (\<lambda>intents.
          Inr \<lparr>ld_activity = ld_activity acc @ [activity], ld_ground_truth = ld_ground_truth acc @ [truth],
               ld_intents = ld_intents acc @ intents\<rparr>)))))"

definition ledger_drafts :: "scrum_env \<Rightarrow> LiveTeamState \<Rightarrow> TickRequest \<Rightarrow> TickResult \<Rightarrow> LedgerDrafts res" where
  "ledger_drafts env st request result =
     foldR (record_visit env st request result) (tk_visits result)
       \<lparr>ld_activity = [], ld_ground_truth = [], ld_intents = []\<rparr>"

section \<open>The command\<close>

definition live_slice :: "scrum_env \<Rightarrow> LiveTeamState \<Rightarrow> TickRequest \<Rightarrow> instant \<Rightarrow> TickResult \<Rightarrow> TickSliceCommit res" where
  "live_slice env st request end_at result =
     (let rt = lt_runtime st in
      bindR (ledger_drafts env st (request\<lparr>tq_ends_at := end_at\<rparr>) result) (\<lambda>drafts.
      bindR (built check_runtime_advance
               \<lparr>ra_state = rt_state rt, ra_simulation_time = end_at, ra_next_wake_at = Some end_at\<rparr>) (\<lambda>advance.
        built (validate_commit (en_codec env))
          \<lparr>tc_commit_id = semantic_uuid (en_codec env)
             (''scrum-tick/'' @ uuid_text (rt_team_id rt) @ ''/'' @ uuid_text (rt_run_id rt) @ ''/'' @ int_text (rt_version rt) @
              ''/'' @ en_instant_text env end_at),
           tc_team_id = rt_team_id rt, tc_run_id = rt_run_id rt, tc_expected_runtime_version = rt_version rt,
           tc_runtime_after = advance, tc_activity = ld_activity drafts, tc_ground_truth = ld_ground_truth drafts,
           tc_projection_intents = ld_intents drafts, tc_recorded_at = tq_recorded_at request\<rparr>)))"

definition with_risk_ledgers :: "codec \<Rightarrow> TickSliceCommit \<Rightarrow> RiskEvaluation \<Rightarrow> TickSliceCommit res" where
  "with_risk_ledgers cd s risks =
     built (validate_commit cd)
       (s\<lparr>tc_activity := tc_activity s @ rk_activity risks, tc_ground_truth := tc_ground_truth s @ rk_ground_truth risks,
          tc_projection_intents := tc_projection_intents s @ rk_intents risks\<rparr>)"

definition progress_of :: "TickResult \<Rightarrow> ScrumCollections" where
  "progress_of result =
     empty_state\<lparr>st_consumption := tk_consumption result, st_work_items := tk_work_items result,
       st_visits := tk_visits result, st_samples := tk_samples result\<rparr>"

definition finalize_tick :: "scrum_env \<Rightarrow> TickRequest \<Rightarrow> RiskAdvance \<Rightarrow> AuthoritativeTickSliceCommit res" where
  "finalize_tick env request advance =
     (let result = av_result advance; risks = av_risks advance in
      bindR (live_slice env (av_state advance) request (tk_ends_at result) result) (\<lambda>slice.
      bindR (with_risk_ledgers (en_codec env) slice risks) (\<lambda>live.
      bindR (write_set env (progress_of result)) (\<lambda>progress.
      bindR (merge_write_sets env (rk_state risks) progress) (\<lambda>ws.
        built (validate_authoritative env)
          \<lparr>au_live = live, au_state = ws, au_claims = rk_claims risks @ tk_claims result, au_natural = rk_natural risks\<rparr>)))))"

definition lifecycle_commit ::
  "scrum_env \<Rightarrow> LiveTeamState \<Rightarrow> TickRequest \<Rightarrow> SprintTransition \<Rightarrow> AuthoritativeTickSliceCommit res" where
  "lifecycle_commit env st request boundary_change =
     (let rt = lt_runtime st; boundary = rt_simulation_time rt in
      bindR (built check_runtime_advance
               \<lparr>ra_state = rt_state rt, ra_simulation_time = boundary, ra_next_wake_at = Some boundary\<rparr>) (\<lambda>advance.
      bindR (built (validate_commit (en_codec env))
          \<lparr>tc_commit_id = semantic_uuid (en_codec env)
             (''sprint-lifecycle/'' @ uuid_text (rt_team_id rt) @ ''/'' @ uuid_text (rt_run_id rt) @ ''/'' @ int_text (rt_version rt) @
              ''/'' @ en_instant_text env boundary),
           tc_team_id = rt_team_id rt, tc_run_id = rt_run_id rt, tc_expected_runtime_version = rt_version rt,
           tc_runtime_after = advance, tc_activity = tn_activity boundary_change,
           tc_ground_truth = tn_ground_truth boundary_change, tc_projection_intents = tn_intents boundary_change,
           tc_recorded_at = tq_recorded_at request\<rparr>) (\<lambda>live.
        built (validate_authoritative env)
          \<lparr>au_live = live, au_state = tn_state boundary_change, au_claims = tn_claims boundary_change,
           au_natural = tn_natural boundary_change\<rparr>)))"

definition calculate_scrum_tick ::
  "risk_env \<Rightarrow> LiveTeamState \<Rightarrow> TickRequest \<Rightarrow> draw_source \<Rightarrow> AuthoritativeTickSliceCommit res" where
  "calculate_scrum_tick renv st request draws =
     (let env = re_scrum renv in
      bindR (validate_request st request) (\<lambda>_.
      bindR (cross_sprint_boundary env st (rt_simulation_time (lt_runtime st))) (\<lambda>boundary_change.
        if tn_activity boundary_change \<noteq> [] then lifecycle_commit env st request boundary_change
        else
          bindR (live_calendar env st) (\<lambda>cal.
          bindR (effective_end env st (tq_ends_at request)) (\<lambda>end_at.
          bindR (risk_aware_advance renv st cal draws end_at) (\<lambda>advance.
            finalize_tick env request advance))))))"

end
