(* ===== verification/Tick_Outcomes.thy ===== *)
theory Tick_Outcomes
  imports Tick_Commit
begin

text \<open>
  What the command of a tick guarantees: its risks fit the instant at which the tick ends, the clock moves
  forwards and across no boundary, every claim is for the next value of its counter, committing it gives the
  state that the tick computed, and the ledgers hold exactly one record of every visit that is reported.
\<close>

section \<open>The loop\<close>

text \<open>(C13) The end of a tick and its risks depend on each other, so the risks are evaluated again for every
  earlier end that a completion imposes. The loop always ends. When it returns, the risks and the visits are
  those of one evaluation for exactly the instant at which the tick ends; when it raises, an evaluation
  for an instant of the tick raised.\<close>

theorem risk_loop_settles:
  "case risk_aware_advance renv st cal draws e of
     Inr a \<Rightarrow> advance_for_risks renv st cal draws (tk_ends_at (av_result a)) = Inr a \<and>
       min (rt_simulation_time (lt_runtime st)) e \<le> tk_ends_at (av_result a) \<and> tk_ends_at (av_result a) \<le> e
   | Inl x \<Rightarrow> \<exists>t. min (rt_simulation_time (lt_runtime st)) e \<le> t \<and> t \<le> e \<and> advance_for_risks renv st cal draws t = Inl x"
proof (induction renv st cal draws e rule: risk_aware_advance.induct)
  case (1 renv st cal draws e)
  show ?case
  proof (cases "advance_for_risks renv st cal draws e")
    case (Inl x)
    then show ?thesis by (subst risk_aware_advance.simps) (auto intro!: exI[of _ e])
  next
    case (Inr a)
    show ?thesis
    proof (cases "tk_ends_at (av_result a) < e")
      case True
      note IH = 1[OF Inr True]
      have "risk_aware_advance renv st cal draws e = risk_aware_advance renv st cal draws (tk_ends_at (av_result a))"
        using Inr True by (subst risk_aware_advance.simps) simp
      then show ?thesis using IH True advance_for_risks_end[OF Inr] by (auto split: sum.splits intro: order.trans)
    next
      case False
      then have "tk_ends_at (av_result a) = e" using advance_for_risks_end[OF Inr] by linarith
      then show ?thesis using Inr by (subst risk_aware_advance.simps) simp
    qed
  qed
qed

section \<open>The clock\<close>

lemma risk_boundary_scan_spec:
  "risk_boundary_scan cal cursor e day final = Inr t \<Longrightarrow> t = e \<or> cursor < t \<and> t < e"
proof (induction cal cursor e day final rule: risk_boundary_scan.induct)
  case (1 cal cursor e day final)
  note step = 1 risk_boundary_scan.simps[of cal cursor e day final]
  show ?case
  proof (cases "final < day")
    case False
    then obtain interval where i: "working_interval cal day = Inr interval" using step by (auto elim!: bindR_InrE)
    show ?thesis
    proof (cases "case interval of None \<Rightarrow> False | Some iv \<Rightarrow> cursor < iv_start iv \<and> iv_start iv < e")
      case True
      then show ?thesis using step False i by (auto split: option.splits)
    next
      case no: False
      then obtain n where "date_add day 1 = Inr n" "risk_boundary_scan cal cursor e n final = Inr t"
        using step False i by (auto elim!: bindR_InrE)
      then show ?thesis using step(1)[OF False i no] by blast
    qed
  qed (use step in simp)
qed

lemma risk_boundary_scan_bounds:
  "risk_boundary_scan cal cursor e day final = Inr t \<Longrightarrow> cursor \<le> e \<Longrightarrow> cursor \<le> t \<and> t \<le> e"
  using risk_boundary_scan_spec by fastforce

lemma risk_boundary_scan_after: "risk_boundary_scan cal cursor e day final = Inr t \<Longrightarrow> cursor < e \<Longrightarrow> cursor < t"
  using risk_boundary_scan_spec by blast

text \<open>The next boundary of a sprint: the start of a planned one, or else the end of the active one.\<close>

definition next_boundary :: "LiveTeamState \<Rightarrow> instant option" where
  "next_boundary st =
     (case filter (\<lambda>s. ss_lifecycle s = SP_PLANNED \<and> rt_simulation_time (lt_runtime st) < ss_planned_start_at s) (st_sprints (lt_scrum st)) of
        p # _ \<Rightarrow> Some (ss_planned_start_at p)
      | [] \<Rightarrow> map_option ss_planned_end_at (List.find (\<lambda>s. ss_lifecycle s = SP_ACTIVE) (st_sprints (lt_scrum st))))"

lemma find_filter: "List.find p xs = (case filter p xs of [] \<Rightarrow> None | x # _ \<Rightarrow> Some x)"
  by (induction xs) auto

lemma effective_end_bounds:
  assumes "effective_end env st e = Inr t" and "rt_simulation_time (lt_runtime st) \<le> e"
  shows "rt_simulation_time (lt_runtime st) \<le> t" "t \<le> e"
    "next_boundary st = Some b \<Longrightarrow> t \<le> max (rt_simulation_time (lt_runtime st)) b"
proof -
  let ?c = "rt_simulation_time (lt_runtime st)"
  let ?b = "case next_boundary st of None \<Rightarrow> e | Some b \<Rightarrow> min e b"
  have n: "next_workday_risk_boundary env st (max ?c ?b) = Inr t"
    using assms(1) by (simp add: effective_end_def Let_def next_boundary_def find_filter split: list.splits)
  then have "?c \<le> t \<and> t \<le> max ?c ?b"
    by (auto simp: next_workday_risk_boundary_def Let_def elim!: bindR_InrE dest!: risk_boundary_scan_bounds split: if_splits)
  moreover have "max ?c ?b \<le> e" using assms(2) by (auto split: option.splits)
  ultimately show "?c \<le> t" "t \<le> e" "next_boundary st = Some b \<Longrightarrow> t \<le> max ?c b" by auto
qed

text \<open>The instant at which the clock stands, and what a tick finds ahead of it.\<close>

definition sprints_ahead :: "LiveTeamState \<Rightarrow> SprintState list" where
  "sprints_ahead st =
     filter (\<lambda>s. ss_lifecycle s = SP_PLANNED \<and> rt_simulation_time (lt_runtime st) < ss_planned_start_at s) (st_sprints (lt_scrum st))"

definition active_sprints :: "LiveTeamState \<Rightarrow> SprintState list" where
  "active_sprints st = filter (\<lambda>s. ss_lifecycle s = SP_ACTIVE) (st_sprints (lt_scrum st))"

lemma next_boundary_ahead:
  "next_boundary st =
     (case sprints_ahead st of p # _ \<Rightarrow> Some (ss_planned_start_at p)
      | [] \<Rightarrow> (case active_sprints st of [] \<Rightarrow> None | a # _ \<Rightarrow> Some (ss_planned_end_at a)))"
  by (simp add: next_boundary_def sprints_ahead_def active_sprints_def find_filter split: list.splits)

lemma sprints_ahead_later: "s \<in> set (sprints_ahead st) \<Longrightarrow> rt_simulation_time (lt_runtime st) < ss_planned_start_at s"
  by (simp add: sprints_ahead_def)

text \<open>A boundary at the clock is crossed: a sprint that is planned to start there is started, or an active one
  that is planned to end there is completed.\<close>

definition crosses_at_clock :: "LiveTeamState \<Rightarrow> ScrumCollections \<Rightarrow> bool" where
  "crosses_at_clock st changes \<longleftrightarrow>
     (\<exists>s \<in> set (st_sprints (lt_scrum st)). \<exists>s' \<in> set (st_sprints changes). ss_id s' = ss_id s \<and>
        (ss_lifecycle s = SP_PLANNED \<and> ss_planned_start_at s = rt_simulation_time (lt_runtime st) \<and> ss_lifecycle s' = SP_ACTIVE \<or>
         ss_lifecycle s = SP_ACTIVE \<and> ss_planned_end_at s = rt_simulation_time (lt_runtime st) \<and> ss_lifecycle s' = SP_COMPLETED))"

lemma boundary_transition_parts:
  "boundary_transition env x event operations = Inr change \<Longrightarrow> tn_state change = tx_write_set x \<and> tn_activity change \<noteq> []"
  by (auto simp: boundary_transition_def elim!: bindR_InrE)

lemma activate_planned_sprint_crosses:
  assumes "activate_planned_sprint env st s t = Inr change"
  shows "tn_activity change \<noteq> [] \<and> (\<exists>s' \<in> set (st_sprints (tn_state change)). ss_id s' = ss_id s \<and> ss_lifecycle s' = SP_ACTIVE)"
  using assms
  by (fastforce simp: activate_planned_sprint_def activation_transition_def Let_def built_Inr
      elim!: bindR_InrE dest!: boundary_transition_parts write_set_Inr)

lemma roll_active_sprint_crosses:
  assumes "roll_active_sprint env st s t = Inr change"
  shows "tn_activity change \<noteq> [] \<and> (\<exists>s' \<in> set (st_sprints (tn_state change)). ss_id s' = ss_id s \<and> ss_lifecycle s' = SP_COMPLETED)"
  using assms
  by (fastforce simp: roll_active_sprint_def rollover_transition_def rolled_context_def completed_sprint_def Let_def built_Inr
      elim!: bindR_InrE bindR_Inr2E dest!: boundary_transition_parts write_set_Inr)

lemma cross_sprint_boundary_at_clock:
  assumes "cross_sprint_boundary env st (rt_simulation_time (lt_runtime st)) = Inr change"
  shows "tn_activity change \<noteq> [] \<Longrightarrow> crosses_at_clock st (tn_state change)"
    "tn_activity change = [] \<Longrightarrow> s \<in> set (active_sprints st) \<Longrightarrow> ss_planned_end_at s \<noteq> rt_simulation_time (lt_runtime st)"
proof -
  let ?c = "rt_simulation_time (lt_runtime st)"
  consider (start) s where "s \<in> set (st_sprints (lt_scrum st))" "ss_lifecycle s = SP_PLANNED" "ss_planned_start_at s = ?c"
      "activate_planned_sprint env st s ?c = Inr change"
    | (finish) s where "s \<in> set (st_sprints (lt_scrum st))" "ss_lifecycle s = SP_ACTIVE" "ss_planned_end_at s = ?c"
      "roll_active_sprint env st s ?c = Inr change"
    | (none) "change = empty_transition" "\<forall>s \<in> set (st_sprints (lt_scrum st)). \<not> (ss_lifecycle s = SP_ACTIVE \<and> ss_planned_end_at s = ?c)"
    using assms by (auto simp: cross_sprint_boundary_def find_None_iff dest!: find_SomeD split: option.splits)
  then have "(tn_activity change \<noteq> [] \<longrightarrow> crosses_at_clock st (tn_state change)) \<and>
    (tn_activity change = [] \<longrightarrow> (\<forall>s \<in> set (active_sprints st). ss_planned_end_at s \<noteq> ?c))"
  proof cases
    case start
    then show ?thesis using activate_planned_sprint_crosses[OF start(4)] unfolding crosses_at_clock_def by blast
  next
    case finish
    then show ?thesis using roll_active_sprint_crosses[OF finish(4)] unfolding crosses_at_clock_def by blast
  next
    case none
    then show ?thesis by (auto simp: empty_transition_def active_sprints_def)
  qed
  then show "tn_activity change \<noteq> [] \<Longrightarrow> crosses_at_clock st (tn_state change)"
    "tn_activity change = [] \<Longrightarrow> s \<in> set (active_sprints st) \<Longrightarrow> ss_planned_end_at s \<noteq> ?c" by blast+
qed

lemma cross_sprint_boundary_idle:
  assumes "cross_sprint_boundary env st t = Inr change" and "tn_activity change = []"
  shows "change = empty_transition"
  using assms activate_planned_sprint_crosses roll_active_sprint_crosses
  by (fastforce simp: cross_sprint_boundary_def split: option.splits)

lemma effective_end_later:
  assumes "effective_end env st e = Inr t" and "rt_simulation_time (lt_runtime st) < e"
    and "sprints_ahead st = [] \<Longrightarrow> \<forall>a \<in> set (active_sprints st). rt_simulation_time (lt_runtime st) < ss_planned_end_at a"
  shows "rt_simulation_time (lt_runtime st) < t"
proof -
  let ?c = "rt_simulation_time (lt_runtime st)"
  let ?b = "case next_boundary st of None \<Rightarrow> e | Some b \<Rightarrow> min e b"
  have n: "next_workday_risk_boundary env st (max ?c ?b) = Inr t"
    using assms(1) by (simp add: effective_end_def Let_def next_boundary_def find_filter split: list.splits)
  have "?c < ?b"
    using assms(2,3) sprints_ahead_later[of _ st] by (auto simp: next_boundary_ahead split: list.splits)
  then show ?thesis using n
    by (auto simp: next_workday_risk_boundary_def Let_def elim!: bindR_InrE dest!: risk_boundary_scan_after split: if_splits)
qed

text \<open>The end of a tick was cut back to its start: an evaluation for a later instant found that a visit is completed there.\<close>

definition cut_back_to_clock :: "risk_env \<Rightarrow> LiveTeamState \<Rightarrow> draw_source \<Rightarrow> instant \<Rightarrow> bool" where
  "cut_back_to_clock renv st draws requested_end \<longleftrightarrow>
     (\<exists>cal e a. live_calendar (re_scrum renv) st = Inr cal \<and> rt_simulation_time (lt_runtime st) < e \<and> e \<le> requested_end \<and>
        advance_for_risks renv st cal draws e = Inr a \<and> tk_ends_at (av_result a) = rt_simulation_time (lt_runtime st))"

lemma risk_loop_cut_back:
  assumes "risk_aware_advance renv st cal draws e = Inr a" and "rt_simulation_time (lt_runtime st) < e"
    and "tk_ends_at (av_result a) = rt_simulation_time (lt_runtime st)"
  shows "\<exists>e' b. rt_simulation_time (lt_runtime st) < e' \<and> e' \<le> e \<and> advance_for_risks renv st cal draws e' = Inr b \<and>
    tk_ends_at (av_result b) = rt_simulation_time (lt_runtime st)"
  using assms
proof (induction renv st cal draws e rule: risk_aware_advance.induct)
  case (1 renv st cal draws e)
  let ?c = "rt_simulation_time (lt_runtime st)"
  obtain b where b: "advance_for_risks renv st cal draws e = Inr b"
    and r: "(if tk_ends_at (av_result b) < e then risk_aware_advance renv st cal draws (tk_ends_at (av_result b)) else Inr b) = Inr a"
    using "1.prems"(1) by (subst (asm) risk_aware_advance.simps) (auto elim!: bindR_InrE)
  consider (again) "tk_ends_at (av_result b) < e" "?c < tk_ends_at (av_result b)" | (stood) "tk_ends_at (av_result b) = ?c"
    using advance_for_risks_end[OF b] r "1.prems"(2,3) by (fastforce split: if_splits)
  then show ?case
  proof cases
    case again
    then have "risk_aware_advance renv st cal draws (tk_ends_at (av_result b)) = Inr a" using r by simp
    from "1.IH"[OF b again(1) this again(2) "1.prems"(3)] show ?thesis using again(1) by (meson order.trans less_imp_le)
  qed (use b "1.prems"(2) in blast)
qed

text \<open>The two ways in which a tick produces its command.\<close>

lemma calculate_scrum_tick_cases:
  assumes "calculate_scrum_tick renv st request draws = Inr k"
  obtains (Boundary) change where "cross_sprint_boundary (re_scrum renv) st (rt_simulation_time (lt_runtime st)) = Inr change"
      "tn_activity change \<noteq> []" "lifecycle_commit (re_scrum renv) st request change = Inr k"
      "rt_simulation_time (lt_runtime st) \<le> tq_ends_at request"
  | (Work) cal end_at advance where "effective_end (re_scrum renv) st (tq_ends_at request) = Inr end_at"
      "rt_simulation_time (lt_runtime st) \<le> tq_ends_at request"
      "risk_aware_advance renv st cal draws end_at = Inr advance" "finalize_tick (re_scrum renv) request advance = Inr k"
      "live_calendar (re_scrum renv) st = Inr cal" "cross_sprint_boundary (re_scrum renv) st (rt_simulation_time (lt_runtime st)) = Inr empty_transition"
proof -
  obtain change where c: "cross_sprint_boundary (re_scrum renv) st (rt_simulation_time (lt_runtime st)) = Inr change"
    and v: "rt_simulation_time (lt_runtime st) \<le> tq_ends_at request"
    using assms by (auto simp: calculate_scrum_tick_def validate_request_def Let_def guardR_eq_Inr elim!: bindR_InrE)
  show ?thesis
  proof (cases "tn_activity change = []")
    case False
    then have "lifecycle_commit (re_scrum renv) st request change = Inr k"
      using assms c by (auto simp: calculate_scrum_tick_def Let_def elim!: bindR_InrE)
    then show ?thesis using Boundary c False v by blast
  next
    case True
    then have "change = empty_transition" using c cross_sprint_boundary_idle by blast
    then show ?thesis using assms c v Work True by (auto simp: calculate_scrum_tick_def Let_def elim!: bindR_InrE)
  qed
qed

lemma advance_for_risks_parts:
  assumes "advance_for_risks renv st cal draws t = Inr a"
  obtains gs where "evaluate_due_risks renv st t draws = Inr (av_risks a)"
    "with_write_set (re_scrum renv) st (rk_state (av_risks a)) = Inr (av_state a)"
    "advance_visits (re_scrum renv) (av_state a) t gs cal draws (risk_blocked_visits st (av_risks a)) = Inr (av_result a)"
  using assms by (auto simp: advance_for_risks_def Let_def elim!: bindR_InrE)

lemma risk_loop_last:
  assumes "risk_aware_advance renv st cal draws e = Inr a" and "rt_simulation_time (lt_runtime st) \<le> e"
  shows "advance_for_risks renv st cal draws (tk_ends_at (av_result a)) = Inr a"
    "rt_simulation_time (lt_runtime st) \<le> tk_ends_at (av_result a)" "tk_ends_at (av_result a) \<le> e"
proof -
  have "advance_for_risks renv st cal draws (tk_ends_at (av_result a)) = Inr a \<and>
      min (rt_simulation_time (lt_runtime st)) e \<le> tk_ends_at (av_result a) \<and> tk_ends_at (av_result a) \<le> e"
    using assms(1)
  proof (induction renv st cal draws e arbitrary: a rule: risk_aware_advance.induct)
    case (1 renv st cal draws e)
    obtain b where b: "advance_for_risks renv st cal draws e = Inr b"
      and r: "(if tk_ends_at (av_result b) < e then risk_aware_advance renv st cal draws (tk_ends_at (av_result b)) else Inr b) = Inr a"
      using "1.prems" by (subst (asm) risk_aware_advance.simps) (auto elim!: bindR_InrE)
    then show ?case using "1.IH"[OF b] advance_for_risks_end[OF b] by (fastforce split: if_splits)
  qed
  then show "advance_for_risks renv st cal draws (tk_ends_at (av_result a)) = Inr a"
    "rt_simulation_time (lt_runtime st) \<le> tk_ends_at (av_result a)" "tk_ends_at (av_result a) \<le> e"
    using assms(2) by auto
qed

lemma finalize_tick_parts:
  assumes "finalize_tick env request a = Inr k"
  shows "tc_team_id (au_live k) = rt_team_id (lt_runtime (av_state a))" "tc_run_id (au_live k) = rt_run_id (lt_runtime (av_state a))"
    "tc_expected_runtime_version (au_live k) = rt_version (lt_runtime (av_state a))"
    "ra_simulation_time (tc_runtime_after (au_live k)) = tk_ends_at (av_result a)"
    "ra_next_wake_at (tc_runtime_after (au_live k)) = Some (tk_ends_at (av_result a))"
    "validate_authoritative env k = Inr ()" "au_claims k = rk_claims (av_risks a) @ tk_claims (av_result a)"
    "au_state k = merge_state (rk_state (av_risks a)) (progress_of (av_result a))" "au_natural k = rk_natural (av_risks a)"
  using assms by (auto simp: finalize_tick_def live_slice_def with_risk_ledgers_def merge_write_sets_def Let_def built_Inr
      elim!: bindR_InrE dest!: write_set_Inr)

lemma lifecycle_commit_parts:
  assumes "lifecycle_commit env st request change = Inr k"
  shows "tc_team_id (au_live k) = rt_team_id (lt_runtime st)" "tc_run_id (au_live k) = rt_run_id (lt_runtime st)"
    "tc_expected_runtime_version (au_live k) = rt_version (lt_runtime st)"
    "ra_simulation_time (tc_runtime_after (au_live k)) = rt_simulation_time (lt_runtime st)"
    "ra_next_wake_at (tc_runtime_after (au_live k)) = Some (rt_simulation_time (lt_runtime st))"
    "validate_authoritative env k = Inr ()" "au_claims k = tn_claims change" "au_state k = tn_state change"
  using assms by (auto simp: lifecycle_commit_def Let_def built_Inr elim!: bindR_InrE)

lemma tick_clock:
  assumes "calculate_scrum_tick renv st request draws = Inr k"
  shows "rt_simulation_time (lt_runtime st) \<le> ra_simulation_time (tc_runtime_after (au_live k))"
    "ra_simulation_time (tc_runtime_after (au_live k)) \<le> tq_ends_at request"
    "\<forall>b. next_boundary st = Some b \<longrightarrow> ra_simulation_time (tc_runtime_after (au_live k)) \<le> max (rt_simulation_time (lt_runtime st)) b"
    "ra_next_wake_at (tc_runtime_after (au_live k)) = Some (ra_simulation_time (tc_runtime_after (au_live k)))"
    "tc_expected_runtime_version (au_live k) = rt_version (lt_runtime st)"
    "tc_team_id (au_live k) = rt_team_id (lt_runtime st)" "tc_run_id (au_live k) = rt_run_id (lt_runtime st)"
    "validate_authoritative (re_scrum renv) k = Inr ()"
proof -
  have "rt_simulation_time (lt_runtime st) \<le> ra_simulation_time (tc_runtime_after (au_live k)) \<and>
    ra_simulation_time (tc_runtime_after (au_live k)) \<le> tq_ends_at request \<and>
    (\<forall>b. next_boundary st = Some b \<longrightarrow> ra_simulation_time (tc_runtime_after (au_live k)) \<le> max (rt_simulation_time (lt_runtime st)) b) \<and>
    ra_next_wake_at (tc_runtime_after (au_live k)) = Some (ra_simulation_time (tc_runtime_after (au_live k))) \<and>
    tc_expected_runtime_version (au_live k) = rt_version (lt_runtime st) \<and>
    tc_team_id (au_live k) = rt_team_id (lt_runtime st) \<and> tc_run_id (au_live k) = rt_run_id (lt_runtime st) \<and>
    validate_authoritative (re_scrum renv) k = Inr ()"
    using assms(1)
  proof (cases rule: calculate_scrum_tick_cases)
    case (Boundary change)
    then show ?thesis using lifecycle_commit_parts[OF Boundary(3)] by simp
  next
    case (Work cal end_at advance)
    note e = effective_end_bounds[OF Work(1,2)]
    note l = risk_loop_last[OF Work(3) e(1)]
    obtain gs where "with_write_set (re_scrum renv) st (rk_state (av_risks advance)) = Inr (av_state advance)"
      using advance_for_risks_parts[OF l(1)] by blast
    then have "lt_runtime (av_state advance) = lt_runtime st" using with_write_set_Inr(2) by metis
    then show ?thesis using finalize_tick_parts[OF Work(4)] l(2,3) e by (auto intro: order.trans)
  qed
  then show "rt_simulation_time (lt_runtime st) \<le> ra_simulation_time (tc_runtime_after (au_live k))"
    "ra_simulation_time (tc_runtime_after (au_live k)) \<le> tq_ends_at request"
    "\<forall>b. next_boundary st = Some b \<longrightarrow> ra_simulation_time (tc_runtime_after (au_live k)) \<le> max (rt_simulation_time (lt_runtime st)) b"
    "ra_next_wake_at (tc_runtime_after (au_live k)) = Some (ra_simulation_time (tc_runtime_after (au_live k)))"
    "tc_expected_runtime_version (au_live k) = rt_version (lt_runtime st)"
    "tc_team_id (au_live k) = rt_team_id (lt_runtime st)" "tc_run_id (au_live k) = rt_run_id (lt_runtime st)"
    "validate_authoritative (re_scrum renv) k = Inr ()" by simp_all
qed

lemma tick_clock_ahead:
  assumes "calculate_scrum_tick renv st request draws = Inr k" and "rt_simulation_time (lt_runtime st) < tq_ends_at request"
    and "\<not> crosses_at_clock st (au_state k)"
    and "sprints_ahead st = [] \<Longrightarrow> \<forall>a \<in> set (active_sprints st). rt_simulation_time (lt_runtime st) \<le> ss_planned_end_at a"
    and "\<not> cut_back_to_clock renv st draws (tq_ends_at request)"
  shows "rt_simulation_time (lt_runtime st) < ra_simulation_time (tc_runtime_after (au_live k))"
  using assms(1)
proof (cases rule: calculate_scrum_tick_cases)
  case (Boundary change)
  then show ?thesis using cross_sprint_boundary_at_clock(1)[OF Boundary(1,2)] lifecycle_commit_parts(8)[OF Boundary(3)] assms(3) by simp
next
  case (Work cal end_at advance)
  have "\<forall>a \<in> set (active_sprints st). ss_planned_end_at a \<noteq> rt_simulation_time (lt_runtime st)"
    using cross_sprint_boundary_at_clock(2)[OF Work(6)] by (simp add: empty_transition_def)
  then have "rt_simulation_time (lt_runtime st) < end_at"
    using effective_end_later[OF Work(1) assms(2)] assms(4) by fastforce
  moreover have "tk_ends_at (av_result advance) \<noteq> rt_simulation_time (lt_runtime st)"
  proof
    assume "tk_ends_at (av_result advance) = rt_simulation_time (lt_runtime st)"
    from risk_loop_cut_back[OF Work(3) calculation this] assms(5) Work(5) effective_end_bounds(2)[OF Work(1,2)]
    show False unfolding cut_back_to_clock_def by (meson order.trans)
  qed
  moreover note risk_loop_last(2)[OF Work(3)] finalize_tick_parts(4)[OF Work(4)]
  ultimately show ?thesis by simp
qed

lemma next_boundary_bounds:
  assumes "\<forall>b. next_boundary st = Some b \<longrightarrow> t \<le> max (rt_simulation_time (lt_runtime st)) b"
  shows "sorted (map ss_planned_start_at (sprints_ahead st)) \<Longrightarrow> s \<in> set (sprints_ahead st) \<Longrightarrow> t \<le> ss_planned_start_at s"
    "sprints_ahead st = [] \<Longrightarrow> length (active_sprints st) \<le> 1 \<Longrightarrow> a \<in> set (active_sprints st) \<Longrightarrow>
       rt_simulation_time (lt_runtime st) \<le> ss_planned_end_at a \<Longrightarrow> t \<le> ss_planned_end_at a"
proof -
  assume o: "sorted (map ss_planned_start_at (sprints_ahead st))" and s: "s \<in> set (sprints_ahead st)"
  then obtain p ps where p: "sprints_ahead st = p # ps" by (cases "sprints_ahead st") auto
  then have "t \<le> ss_planned_start_at p"
    using assms sprints_ahead_later[of p st] by (auto simp: next_boundary_ahead)
  then show "t \<le> ss_planned_start_at s" using o s p by fastforce
next
  assume "sprints_ahead st = []" "length (active_sprints st) \<le> 1" "a \<in> set (active_sprints st)"
    "rt_simulation_time (lt_runtime st) \<le> ss_planned_end_at a"
  then show "t \<le> ss_planned_end_at a"
    using assms by (cases "active_sprints st") (auto simp: next_boundary_ahead)
qed


section \<open>Claims\<close>

lemma next_of_counterI:
  "n \<in> set counters \<Longrightarrow> cl_scope k = sn_scope n \<Longrightarrow> cl_expected_next k = sn_next_value n \<Longrightarrow> cl_count k = 1 \<Longrightarrow>
     next_of_counter counters k"
  by (auto simp: next_of_counter_def)

lemma transition_claims_next:
  assumes "transition env st work v draws = Inr t" and "tr_next t = Some (visit, sample, c)"
  shows "next_of_counter (st_counters (lt_scrum st)) c"
proof -
  obtain counter where "find_or_stop (\<lambda>k. cs_kind (sn_scope k) = VISIT_ORDINAL \<and> cs_scope_id (sn_scope k) = wi_id work)
      (st_counters (lt_scrum st)) = Inr counter" "c = \<lparr>cl_scope = sn_scope counter, cl_expected_next = sn_next_value counter, cl_count = 1\<rparr>"
    using assms by (auto simp: transition_def Let_def elim!: bindR_InrE split: option.splits)
  then show ?thesis by (auto simp: next_of_counter_def dest!: find_or_stop_Inr)
qed

lemma finish_loop_claims_next:
  assumes "finish_loop env st cal works original samples at_end draws vs acc = Inr r"
    and "\<forall>c \<in> set (tk_claims acc). next_of_counter (st_counters (lt_scrum st)) c"
  shows "\<forall>c \<in> set (tk_claims r). next_of_counter (st_counters (lt_scrum st)) c"
  using assms
proof (induction vs arbitrary: acc)
  case (Cons v vs)
  obtain s complete where s: "dict_get samples (sv_id v) = Inr s" "is_complete v s at_end cal = Inr complete"
    using Cons.prems(1) by (auto elim!: bindR_InrE)
  show ?case
  proof (cases complete)
    case True
    then obtain closed_visit work t where "transition env st work closed_visit draws = Inr t"
      "finish_loop env st cal works original samples at_end draws vs
         (case tr_next t of
            None \<Rightarrow> acc\<lparr>tk_visits := tk_visits acc @ [closed_visit], tk_work_items := tk_work_items acc @ [tr_work t]\<rparr>
          | Some (visit, sample, claim) \<Rightarrow>
              acc\<lparr>tk_visits := tk_visits acc @ [closed_visit, visit], tk_work_items := tk_work_items acc @ [tr_work t],
                  tk_samples := tk_samples acc @ [sample], tk_claims := tk_claims acc @ [claim]\<rparr>) = Inr r"
      using Cons.prems(1) s by (auto elim!: bindR_InrE)
    note IH = Cons.IH[OF this(2)] and new = transition_claims_next[OF this(1)]
    show ?thesis
    proof (cases "tr_next t")
      case None
      then show ?thesis using IH Cons.prems(2) by simp
    next
      case (Some p)
      obtain visit sample c where "p = (visit, sample, c)" by (cases p)
      then show ?thesis using IH Cons.prems(2) new Some by simp
    qed
  next
    case False
    then obtain o_visit where "finish_loop env st cal works original samples at_end draws vs
        (if v \<noteq> o_visit then acc\<lparr>tk_visits := tk_visits acc @ [v]\<rparr> else acc) = Inr r"
      using Cons.prems(1) s by (auto elim!: bindR_InrE)
    from Cons.IH[OF this] Cons.prems(2) show ?thesis by (simp split: if_splits)
  qed
qed simp

lemma advance_visits_claims_next:
  assumes "advance_visits env st e gs cal draws blocked = Inr r"
  shows "\<forall>c \<in> set (tk_claims r). next_of_counter (st_counters (lt_scrum st)) c"
  using assms finish_loop_claims_next by (fastforce simp: advance_visits_def finish_visits_def Let_def elim!: bindR_InrE)

lemma visit_claim_next: "visit_claim st i = Inr c \<Longrightarrow> next_of_counter (st_counters (lt_scrum st)) c"
  by (auto simp: visit_claim_def built_Inr elim!: bindR_InrE dest!: find_or_stop_Inr intro!: next_of_counterI)

lemma planned_scope_claims_next:
  assumes "planned_scope env st i selected boundary draws = Inr plan"
  shows "\<forall>c \<in> set (pl_claims plan). next_of_counter (st_counters (lt_scrum st)) c"
proof -
  have "\<exists>visits :: StatusVisitState list. mapR (\<lambda>v. visit_claim st (sv_work_item_id v)) visits = Inr (pl_claims plan)"
    using assms by (auto simp: planned_scope_def Let_def elim!: bindR_InrE)
  then show ?thesis using visit_claim_next by (fastforce simp: mapR_eq_Inr_iff list_all2_conv_all_nth in_set_conv_nth)
qed

lemma boundary_transition_claims: "boundary_transition env x event operations = Inr change \<Longrightarrow> tn_claims change = tx_claims x"
  by (auto simp: boundary_transition_def elim!: bindR_InrE)

lemma cross_sprint_boundary_claims_next:
  assumes "cross_sprint_boundary env st t = Inr change"
  shows "\<forall>c \<in> set (tn_claims change). next_of_counter (st_counters (lt_scrum st)) c"
proof -
  have "(\<exists>s. activate_planned_sprint env st s t = Inr change) \<or> (\<exists>s. roll_active_sprint env st s t = Inr change) \<or>
      change = empty_transition"
    using assms unfolding cross_sprint_boundary_def by (simp split: option.split_asm) blast+
  then consider (planned) s where "activate_planned_sprint env st s t = Inr change"
    | (active) s where "roll_active_sprint env st s t = Inr change" | (none) "change = empty_transition" by blast
  then show ?thesis
  proof cases
    case planned
    then show ?thesis
      by (auto simp: activate_planned_sprint_def activation_transition_def Let_def elim!: bindR_InrE
          dest!: planned_scope_claims_next boundary_transition_claims)
  next
    case active
    then obtain x where x: "rolled_context env st s t = Inr x" "rollover_transition env x = Inr change"
      by (auto simp: roll_active_sprint_def elim!: bindR_InrE)
    obtain n c i ids plan where n: "successor env st s t = Inr (n, c)"
      and p: "planned_scope env st i ids t (seeded_draws (en_codec env) (lt_aggregate st)) = Inr plan"
      and c: "tx_claims x = c # pl_claims plan"
      using x(1) by (auto simp: rolled_context_def Let_def elim!: bindR_InrE)
    have "next_of_counter (st_counters (lt_scrum st)) c"
      using n by (auto simp: successor_def built_Inr Let_def elim!: bindR_InrE dest!: find_or_stop_Inr intro!: next_of_counterI)
    then show ?thesis using planned_scope_claims_next[OF p] c boundary_transition_claims x(2) by (simp add: rollover_transition_def)
  next
    case none
    then show ?thesis by (simp add: empty_transition_def)
  qed
qed

text \<open>(C2) A tick advances every counter at most once: the claims of its command are for different counters, and each is for one
  value, the next one that was stored. This holds for the claims of the risks, of the visits that were
  entered and of a sprint boundary alike. A rejected review whose new visit is finished within the same tick would
  need the same counter twice; no tick returns a command for it.\<close>

theorem tick_claims_next:
  assumes "calculate_scrum_tick renv st request draws = Inr k" and "distinct (map sn_scope (st_counters (lt_scrum st)))"
  shows "distinct (map cl_scope (au_claims k)) \<and> (\<forall>c \<in> set (au_claims k). next_of_counter (st_counters (lt_scrum st)) c)"
proof -
  have "\<forall>c \<in> set (au_claims k). next_of_counter (st_counters (lt_scrum st)) c" using assms(1)
  proof (cases rule: calculate_scrum_tick_cases)
    case (Boundary change)
    then show ?thesis using lifecycle_commit_parts(7) cross_sprint_boundary_claims_next by metis
  next
    case (Work cal end_at a)
    obtain gs where r: "evaluate_due_risks renv st (tk_ends_at (av_result a)) draws = Inr (av_risks a)"
      "with_write_set (re_scrum renv) st (rk_state (av_risks a)) = Inr (av_state a)"
      "advance_visits (re_scrum renv) (av_state a) (tk_ends_at (av_result a)) gs cal draws (risk_blocked_visits st (av_risks a)) =
         Inr (av_result a)"
      using advance_for_risks_parts[OF risk_loop_last(1)[OF Work(3) effective_end_bounds(1)[OF Work(1,2)]]] by blast
    have s: "claims_sound (st_counters (lt_scrum st)) (av_risks a)" using evaluate_due_risks_sound[OF r(1) assms(2)] .
    have "st_counters (lt_scrum (av_state a)) = st_counters (lt_scrum st)"
      using with_write_set_Inr(1)[OF r(2)] s assms(2) by (simp add: merge_state_def claims_sound_def)
    then show ?thesis using s advance_visits_claims_next[OF r(3)] finalize_tick_parts(7)[OF Work(4)] by (auto simp: claims_sound_def)
  qed
  moreover have "distinct (map cl_scope (au_claims k))"
  proof -
    have "validate_authoritative (re_scrum renv) k = Inr ()"
      using assms(1) by (cases rule: calculate_scrum_tick_cases) (auto dest: lifecycle_commit_parts(6) finalize_tick_parts(6))
    then have "\<exists>m. unique_claims (au_claims k) = Inr m"
      by (auto simp: validate_authoritative_def validate_claim_bindings_def elim!: bindR_InrE)
    then show ?thesis using dict_of_length by (auto simp: unique_claims_def Let_def split: if_splits)
  qed
  ultimately show ?thesis by blast
qed

section \<open>The committed state\<close>

text \<open>A collection as the map that a store keeps: the row of every identity.\<close>

definition rows_of :: "('a \<Rightarrow> 'k) \<Rightarrow> 'a list \<Rightarrow> 'k \<rightharpoonup> 'a" where
  "rows_of key xs = map_of (dict_of key xs)"

lemma rows_of_append: "rows_of key (xs @ ys) = rows_of key xs ++ rows_of key ys"
  by (rule ext) (simp add: rows_of_def map_of_dict_of find_append map_add_def split: option.splits)

lemma rows_of_merged: "rows_of key (merged key xs ys) = rows_of key xs ++ rows_of key ys"
  by (simp only: rows_of_append[symmetric]) (simp add: rows_of_def merged_dict dict_of_put_values)

text \<open>(C1) The changes of a command, laid over the state that was loaded, give the state that the tick computed: the state
  after its risks with the progress of its visits on top. Row by row, a visit or a work item that the tick
  advanced is the advanced one, otherwise the one that a risk left, otherwise the stored one; a row that
  neither touched is unchanged.\<close>

theorem tick_command_composes:
  assumes "advance_for_risks renv st cal draws t = Inr a" and "finalize_tick (re_scrum renv) request a = Inr k"
  defines "committed \<equiv> merge_state (lt_scrum st) (au_state k)"
  shows "committed = merge_state (lt_scrum (av_state a)) (progress_of (av_result a)) \<and>
    rows_of sv_id (st_visits committed) =
      rows_of sv_id (st_visits (lt_scrum st)) ++ rows_of sv_id (st_visits (rk_state (av_risks a))) ++
      rows_of sv_id (tk_visits (av_result a)) \<and>
    rows_of wi_id (st_work_items committed) =
      rows_of wi_id (st_work_items (lt_scrum st)) ++ rows_of wi_id (st_work_items (rk_state (av_risks a))) ++
      rows_of wi_id (tk_work_items (av_result a))"
proof -
  have w: "lt_scrum (av_state a) = merge_state (lt_scrum st) (rk_state (av_risks a))"
    using advance_for_risks_parts[OF assms(1)] with_write_set_Inr(1) by metis
  have k: "committed = merge_state (merge_state (lt_scrum st) (rk_state (av_risks a))) (progress_of (av_result a))"
    using finalize_tick_parts(8)[OF assms(2)] by (simp add: committed_def merge_state_assoc)
  have "st_visits committed = merged sv_id (merged sv_id (st_visits (lt_scrum st)) (st_visits (rk_state (av_risks a)))) (tk_visits (av_result a))"
    "st_work_items committed =
       merged wi_id (merged wi_id (st_work_items (lt_scrum st)) (st_work_items (rk_state (av_risks a)))) (tk_work_items (av_result a))"
    unfolding k by (simp_all add: merge_state_def progress_of_def empty_state_def)
  then show ?thesis using k w by (simp add: rows_of_merged)
qed

section \<open>The ledgers\<close>

text \<open>The visits that a tick reports: closed ones, and open ones of the first step.\<close>

definition reported :: "StatusVisitState \<Rightarrow> bool" where
  "reported v \<longleftrightarrow> \<not> (0 < sv_ordinal v \<and> sv_lifecycle v = SV_OPEN)"

lemma create_draft_key: "create_draft cd path check e details = Inr d \<Longrightarrow> dr_semantic_key d = de_semantic_key e"
  by (auto simp: create_draft_def Let_def elim!: bindR_InrE)

lemma draft_keys:
  "activity_draft cd (make_envelope key t payload) ad = Inr d1 \<Longrightarrow> dr_semantic_key d1 = key"
  "ground_truth_draft cd (make_envelope key t payload) gt = Inr d2 \<Longrightarrow> dr_semantic_key d2 = key"
  "projection_draft cd (make_envelope key t payload) pd = Inr d3 \<Longrightarrow> dr_semantic_key d3 = key"
  by (auto simp: activity_draft_def ground_truth_draft_def projection_draft_def make_envelope_def built_Inr elim!: bindR_InrE
      dest!: create_draft_key)

lemma ledger_item_parts:
  assumes "ledger_item env st request result v = Inr item"
  shows "li_semantic_key item = ledger_key env st v (tq_ends_at request)" "wi_id (li_work item) = sv_work_item_id v"
proof -
  obtain stored original summary where s: "dict_get (dict_of wi_id (st_work_items (lt_scrum st))) (sv_work_item_id v) = Inr stored"
    and i: "item = \<lparr>li_state = st, li_request = request,
        li_work = dict_get_default (dict_of wi_id (tk_work_items result)) (sv_work_item_id v) stored, li_visit = v,
        li_original_visit = original, li_queue_causes = filter (\<lambda>c. qc_visit_id c = sv_id v) (tk_queue_causes result),
        li_semantic_key = ledger_key env st v (tq_ends_at request), li_summary = summary\<rparr>"
    using assms by (auto simp: ledger_item_def Let_def elim!: bindR_InrE)
  have "wi_id stored = sv_work_item_id v" using s set_dict_of by (fastforce simp: dict_get_def split: option.splits)
  then show "li_semantic_key item = ledger_key env st v (tq_ends_at request)" "wi_id (li_work item) = sv_work_item_id v"
    using set_dict_of by (fastforce simp: i dict_get_default_def split: option.splits)+
qed

lemma record_visit_parts:
  assumes "record_visit env st request result v acc = Inr d"
  shows "\<not> reported v \<Longrightarrow> d = acc"
    and "reported v \<Longrightarrow> \<exists>a g ps. d = \<lparr>ld_activity = ld_activity acc @ [a], ld_ground_truth = ld_ground_truth acc @ [g],
          ld_intents = ld_intents acc @ ps\<rparr> \<and> dr_semantic_key a = ledger_key env st v (tq_ends_at request) \<and>
        dr_semantic_key g = ledger_key env st v (tq_ends_at request) \<and>
        map dr_semantic_key ps = (if sv_work_item_id v \<in> wi_id ` set (tk_work_items result)
          then [ledger_key env st v (tq_ends_at request)] else [])"
proof -
  show "\<not> reported v \<Longrightarrow> d = acc" using assms by (auto simp: record_visit_def reported_def)
  assume r: "reported v"
  obtain item a g ps where i: "ledger_item env st request result v = Inr item"
    and d: "ledger_activity (en_codec env) item = Inr a" "ledger_ground_truth env item = Inr g"
    and p: "(if wi_id (li_work item) \<in> wi_id ` set (tk_work_items result)
               then bindR (ledger_projection (en_codec env) item) (\<lambda>p. Inr [p]) else Inr []) = Inr ps"
    and e: "d = \<lparr>ld_activity = ld_activity acc @ [a], ld_ground_truth = ld_ground_truth acc @ [g], ld_intents = ld_intents acc @ ps\<rparr>"
    using assms r by (auto simp: record_visit_def reported_def elim!: bindR_InrE)
  note key = ledger_item_parts[OF i]
  have "dr_semantic_key a = li_semantic_key item" "dr_semantic_key g = li_semantic_key item"
    using d by (auto simp: ledger_activity_def ledger_ground_truth_def Let_def elim!: bindR_InrE dest!: draft_keys)
  moreover have "map dr_semantic_key ps = (if wi_id (li_work item) \<in> wi_id ` set (tk_work_items result) then [li_semantic_key item] else [])"
    using p by (auto simp: ledger_projection_def elim!: bindR_InrE dest!: draft_keys split: if_splits)
  ultimately show "\<exists>a g ps. d = \<lparr>ld_activity = ld_activity acc @ [a], ld_ground_truth = ld_ground_truth acc @ [g],
          ld_intents = ld_intents acc @ ps\<rparr> \<and> dr_semantic_key a = ledger_key env st v (tq_ends_at request) \<and>
        dr_semantic_key g = ledger_key env st v (tq_ends_at request) \<and>
        map dr_semantic_key ps = (if sv_work_item_id v \<in> wi_id ` set (tk_work_items result)
          then [ledger_key env st v (tq_ends_at request)] else [])"
    using e key by auto
qed

text \<open>(C14) The drafts that a tick writes about its own work (those of its risks are added later and are not meant
  here): one activity and one ground-truth record of every visit that is reported, in the order of the visits and
  under the same key, and one Jira intent for those whose work item moved. Reported are the closed visits and
  the visits with ordinal zero; a visit with a later ordinal gets no such draft while it is open.\<close>

theorem ledger_one_record:
  assumes "ledger_drafts env st request result = Inr d"
  defines "key \<equiv> (\<lambda>v. ledger_key env st v (tq_ends_at request))"
  shows "map dr_semantic_key (ld_activity d) = map key (filter reported (tk_visits result)) \<and>
    map dr_semantic_key (ld_ground_truth d) = map key (filter reported (tk_visits result)) \<and>
    map dr_semantic_key (ld_intents d) =
      map key (filter (\<lambda>v. reported v \<and> sv_work_item_id v \<in> wi_id ` set (tk_work_items result)) (tk_visits result))"
proof -
  let ?moved = "\<lambda>v. reported v \<and> sv_work_item_id v \<in> wi_id ` set (tk_work_items result)"
  have "foldR (record_visit env st request result) vs acc = Inr d \<Longrightarrow>
      map dr_semantic_key (ld_activity d) = map dr_semantic_key (ld_activity acc) @ map key (filter reported vs) \<and>
      map dr_semantic_key (ld_ground_truth d) = map dr_semantic_key (ld_ground_truth acc) @ map key (filter reported vs) \<and>
      map dr_semantic_key (ld_intents d) = map dr_semantic_key (ld_intents acc) @ map key (filter ?moved vs)" for vs acc
  proof (induction vs arbitrary: acc)
    case (Cons v vs)
    then obtain b where b: "record_visit env st request result v acc = Inr b" "foldR (record_visit env st request result) vs b = Inr d"
      by (auto elim!: bindR_InrE)
    show ?case
    proof (cases "reported v")
      case True
      then show ?thesis using Cons.IH[OF b(2)] record_visit_parts(2)[OF b(1)] by (auto simp: key_def)
    next
      case False
      then show ?thesis using Cons.IH[OF b(2)] record_visit_parts(1)[OF b(1)] by simp
    qed
  qed simp
  from this[of "tk_visits result"] show ?thesis using assms(1) by (simp add: ledger_drafts_def)
qed

end
