(* ===== verification/Risk_Examples.thy ===== *)
theory Risk_Examples
  imports Risk_Outcomes
begin

text \<open>
  The due risks of the sample team, on the hour after nine: the witnesses of the theorems in \<open>Risk_Outcomes\<close>.
\<close>

section \<open>Drafts of the sample codec\<close>

lemma demo_none: "cd_encode demo_codec JNull = ''x''" "cd_decode demo_codec ''x'' = Some JNull"
  by (simp_all add: demo_codec_def demo_documents_def message_document_def draw_document_def dwell_document_def touch_document_def)

lemma demo_stable: "\<exists>d. cd_decode demo_codec (cd_encode demo_codec j) = Some d \<and> cd_encode demo_codec d = cd_encode demo_codec j"
proof (cases "j \<in> snd ` set demo_documents")
  case True
  then show ?thesis using demo_encode demo_decode demo_none by (auto simp: demo_documents_def)
next
  case False
  then have "cd_encode demo_codec j = ''x''"
    by (force simp: demo_codec_def split: option.splits dest: find_SomeD)
  then show ?thesis using demo_none by auto
qed

lemma demo_draft_created:
  assumes "\<not> blank (de_semantic_key e)" and "de_schema_version e = ''1.0''" and "de_supplied_id e = None"
    and "de_supplied_payload_sha256 e = None" and "check details = Inr ()"
  shows "\<exists>d. create_draft demo_codec path check e details = Inr d \<and> dr_details d = details \<and>
    dr_canonical_payload d = cd_encode demo_codec (de_payload e) \<and> dr_semantic_key d = de_semantic_key e"
proof -
  obtain d where d: "cd_decode demo_codec (cd_encode demo_codec (de_payload e)) = Some d"
    "cd_encode demo_codec d = cd_encode demo_codec (de_payload e)" using demo_stable by blast
  have v: "\<not> blank ''1.0''" by (simp add: blank_def is_space_def)
  show ?thesis
    using assms d v
    by (simp add: create_draft_def draft_identity_def envelope_canonical_def Let_def validate_draft_def validate_draft_envelope_def
        non_empty_def canonical_document_def demo_sha)
qed

lemma demo_envelope: "\<not> blank key \<Longrightarrow> make_envelope key t payload =
    Inr \<lparr>de_semantic_key = key, de_schema_version = ''1.0'', de_occurred_at = t, de_payload = payload, de_supplied_id = None,
      de_supplied_payload_sha256 = None\<rparr>"
  by (simp add: make_envelope_def built_def check_envelope_def non_empty_def) (simp add: blank_def is_space_def)

lemma demo_activity:
  assumes "\<not> blank key" and "check_activity_details details = Inr ()"
  shows "\<exists>d. activity_draft demo_codec (make_envelope key t payload) details = Inr d"
  using demo_draft_created[of "\<lparr>de_semantic_key = key, de_schema_version = ''1.0'', de_occurred_at = t, de_payload = payload,
      de_supplied_id = None, de_supplied_payload_sha256 = None\<rparr>" check_activity_details details "''activity''"] assms
  by (auto simp: activity_draft_def demo_envelope built_def)

lemma demo_ground_truth:
  assumes "\<not> blank key" and "check_ground_truth_details details = Inr ()"
  shows "\<exists>d. ground_truth_draft demo_codec (make_envelope key t payload) details = Inr d"
  using demo_draft_created[of "\<lparr>de_semantic_key = key, de_schema_version = ''1.0'', de_occurred_at = t, de_payload = payload,
      de_supplied_id = None, de_supplied_payload_sha256 = None\<rparr>" check_ground_truth_details details "''ground-truth''"] assms
  by (auto simp: ground_truth_draft_def demo_envelope built_def)

lemma demo_projection:
  assumes "\<not> blank key" and "check_projection_details details = Inr ()"
  shows "\<exists>d. projection_draft demo_codec (make_envelope key t payload) details = Inr d \<and>
    dr_canonical_payload d = cd_encode demo_codec payload"
  using demo_draft_created[of "\<lparr>de_semantic_key = key, de_schema_version = ''1.0'', de_occurred_at = t, de_payload = payload,
      de_supplied_id = None, de_supplied_payload_sha256 = None\<rparr>" check_projection_details details "''projection''"] assms
  by (auto simp: projection_draft_def demo_envelope built_def)

lemma slash_not_blank: "\<not> blank (''risk/'' @ rest)" "\<not> blank (''scrum-tick/'' @ rest)"
  by (simp_all add: blank_def is_space_def)

text \<open>Evidence with a named event and a non-negative version is always recorded.\<close>

lemma demo_evidence:
  assumes "\<not> blank (eb_event_type batch)" and "0 \<le> aggregate_version st"
  shows "\<exists>r. evidence_records demo_env st batch = Inr r"
proof -
  let ?key = "risk_key demo_env st (eb_evidence batch)"
  have key: "\<not> blank ?key" unfolding risk_key_def Let_def by (rule slash_not_blank)
  have a: "check_activity_details \<lparr>ad_event_type = eb_event_type batch, ad_aggregate_type = ''RISK'',
      ad_aggregate_id = ev_entity_id (eb_evidence batch), ad_aggregate_version = aggregate_version st\<rparr> = Inr ()"
    using assms by (simp add: check_activity_details_def non_empty_def non_negative_def) (simp add: blank_def is_space_def)
  have g: "check_ground_truth_details \<lparr>gt_record_type = ''RISK_EVALUATION'', gt_provenance_type = ''SIMULATOR_V2''\<rparr> = Inr ()"
    by (simp add: check_ground_truth_details_def non_empty_def) (simp add: blank_def is_space_def)
  let ?e = "eb_evidence batch"
  from demo_activity[OF key a, of "ev_occurred_at ?e" "JObj [(''summary'', JStr (fallback_summary ?e))]"]
    demo_ground_truth[OF key g, of "ev_occurred_at ?e" "evidence_payload st ?e"]
  show ?thesis by (auto simp: evidence_records_def Let_def demo_sel demo_envelope[OF key])
qed

section \<open>A dependency in the sample hour\<close>

definition demo_risk_env :: risk_env where
  "demo_risk_env = \<lparr>re_scrum = demo_env, re_log = (\<lambda>x. x), re_exp = Inr,
     re_float_of_text = (\<lambda>_. Inl (Value_Error ''could not convert string to float''))\<rparr>"

definition certain_rule :: "string \<Rightarrow> string \<Rightarrow> (string, json) dict \<Rightarrow> RiskRule" where
  "certain_rule key trigger parameters = \<lparr>rr_key = key, rr_trigger = trigger, rr_base_probability = 1, rr_coefficients = [],
     rr_clamp = \<lparr>pc_min = 0, pc_max = 1\<rparr>, rr_mechanical_parameters = parameters\<rparr>"

lemma certain_probability [simp]: "risk_probability renv (certain_rule key trigger parameters) factors = Inr 1"
  by (simp add: risk_probability_def certain_rule_def)

lemma certain_sel: "rr_key (certain_rule k t ps) = k" "rr_trigger (certain_rule k t ps) = t"
  "rr_mechanical_parameters (certain_rule k t ps) = ps"
  by (simp_all add: certain_rule_def)

definition waiting_context :: RiskContext where
  "waiting_context = \<lparr>rc_state = demo_live, rc_as_of = 640800000000, rc_draws = demo_draw_source,
     rc_rule = certain_rule ''EXTERNAL_DEPENDENCY'' ''STATUS_ENTERED'' [(''wait_hours'', JInt 2)]\<rparr>"

lemma waiting_sel: "rc_state waiting_context = demo_live" "rc_as_of waiting_context = 640800000000"
  "rc_draws waiting_context = demo_draw_source"
  "rc_rule waiting_context = certain_rule ''EXTERNAL_DEPENDENCY'' ''STATUS_ENTERED'' [(''wait_hours'', JInt 2)]"
  by (simp_all add: waiting_context_def)

lemma demo_unit_draw: "\<exists>u. demo_draw_source d = Inr u \<and> ud_unit_value u = 0"
  by (auto simp: demo_draw_source_def demo_draw_def)

lemma demo_risk_factors:
  "0 \<le> wi_story_points w \<Longrightarrow> \<exists>f. risk_factors st w v = Inr f"
  by (simp add: risk_factors_def py_true_div_def Let_def)

lemma two_hours: "rule_number (rc_rule waiting_context) ''wait_hours'' None = Inr 2" "hours_us 2 = 7200000000"
  using round_half_even_of_int[of 7200000000]
  by (simp_all add: waiting_sel rule_number_def certain_sel f_of_int_def hours_us_def f_mul_def MICROSECONDS_PER_HOUR_def fl_numeral)

definition blocked_visit :: StatusVisitState where
  "blocked_visit = demo_visit\<lparr>sv_member_id := None, sv_queue := 3600000000, sv_pause := 3600000000\<rparr>"

lemma blocked_ok: "check_visit demo_codec blocked_visit = Inr ()"
  by (simp add: blocked_visit_def demo_visit_def check_visit_def demo_ids require_semantic_id_def require_text_def
      is_space_def require_optional_text_def check_zero_touch_def check_visit_times_def check_visit_microseconds_def
      require_microseconds_def MAX_SQLITE_INTEGER_def)

lemma blocked_write_set: "write_set demo_env (empty_state\<lparr>st_visits := [blocked_visit]\<rparr>) = Inr (empty_state\<lparr>st_visits := [blocked_visit]\<rparr>)"
proof -
  have v: "sv_team_id blocked_visit = 69" "sv_run_id blocked_visit = 42" by (simp_all add: blocked_visit_def demo_coordinates)
  show ?thesis
    by (simp add: write_set_def validate_state_def validate_collections_def empty_state_def demo_sel blocked_ok validate_uniqueness_def
        unique_identities_def validate_partial_uniqueness_def require_unique_coordinates_def validate_one_team_run_def state_teams_def
        state_runs_def v validate_open_visit_status_def validate_sample_links_def dict_of_def)
qed

lemma demo_version: "0 \<le> aggregate_version demo_live"
  by (simp add: aggregate_version_def demo_live_def)

lemma waiting_dependency: "\<exists>r. external_dependency demo_risk_env waiting_context = Inr r \<and> st_visits (rk_state r) = [blocked_visit]"
proof -
  have o: "risk_open_visits demo_live = [demo_visit]"
    by (simp add: risk_open_visits_def demo_live_sel demo_collections) (simp add: demo_visit_def)
  have i: "intrinsically_paused demo_live demo_visit = Inr False"
    by (simp add: intrinsically_paused_def find_or_stop_def demo_live_sel sample_blueprint_def sample_workflow_def demo_coordinates)
  have w: "work_named demo_live 59 = Inr demo_work"
    by (simp add: work_named_def find_or_stop_def demo_live_sel demo_collections demo_coordinates)
  have p: "eligible_people demo_live demo_visit = Inr [45]"
    by (simp add: eligible_people_def eligible_people_for_activity_def demo_coordinates demo_live_sel demo_collections demo_member)
      (simp add: sample_member_def)
  obtain u where u: "demo_draw_source \<lparr>do_entity_id = 44, do_decision_type = RISK_EXTERNAL_DEPENDENCY_OUTCOME, do_occurrence = 0\<rparr> = Inr u"
    "ud_unit_value u = 0" using demo_unit_draw by blast
  have d: "decision_occurrence 44 RISK_EXTERNAL_DEPENDENCY_OUTCOME 0 =
      Inr \<lparr>do_entity_id = 44, do_decision_type = RISK_EXTERNAL_DEPENDENCY_OUTCOME, do_occurrence = 0\<rparr>"
    by (simp add: decision_occurrence_def)
  obtain f where f: "risk_factors demo_live demo_work demo_visit = Inr f"
    using demo_risk_factors[of demo_work] by (auto simp: demo_work_def)
  have us: "risk_microseconds 3600000000 = 3600000000" by (rule risk_microseconds_exact) simp_all
  have env: "re_scrum demo_risk_env = demo_env" by (simp add: demo_risk_env_def)
  obtain e where e: "dependency_decision demo_risk_env waiting_context demo_visit 7200000000 = Inr e" "ev_outcome (dd_evidence e)"
    "dd_delta e = 3600000000"
    using d u w f p us by (simp add: dependency_decision_def waiting_sel demo_live_sel demo_coordinates)
  have b: "paused_visit demo_codec demo_visit 3600000000 = Inr blocked_visit"
  proof -
    have "demo_visit\<lparr>sv_member_id := None, sv_queue := sv_queue demo_visit + 3600000000, sv_pause := sv_pause demo_visit + 3600000000\<rparr> =
        blocked_visit" by (simp add: blocked_visit_def demo_visit_def)
    then show ?thesis by (simp add: paused_visit_def replaced_def blocked_ok)
  qed
  obtain q where q: "evidence_records demo_env demo_live \<lparr>eb_evidence = dd_evidence e, eb_event_type = ''EXTERNAL_DEPENDENCY_STARTED'',
      eb_projection = None, eb_state = empty_state\<lparr>st_visits := [blocked_visit]\<rparr>, eb_claims = [], eb_natural = []\<rparr> = Inr q"
    using demo_evidence[OF _ demo_version, of "\<lparr>eb_evidence = dd_evidence e, eb_event_type = ''EXTERNAL_DEPENDENCY_STARTED'',
      eb_projection = None, eb_state = empty_state\<lparr>st_visits := [blocked_visit]\<rparr>, eb_claims = [], eb_natural = []\<rparr>"]
    by (auto simp: blank_def is_space_def)
  have v: "sv_pause demo_visit = 0" "sv_entered_at demo_visit = 637200000000" by (simp_all add: demo_visit_def)
  have entry: "dependency_entry demo_risk_env waiting_context demo_visit 7200000000 = Inr q"
    using e b blocked_write_set q by (simp add: dependency_entry_def env demo_sel waiting_sel)
  have "dependency_records demo_risk_env waiting_context demo_visit = Inr q"
    using entry two_hours v i by (simp add: dependency_records_def waiting_sel demo_live_sel env)
  moreover have "rk_state q = empty_state\<lparr>st_visits := [blocked_visit]\<rparr>" using evidence_records_Inr(1)[OF q] by simp
  moreover from this have "merge_state (rk_state no_records) (rk_state q) = rk_state q"
    by (simp add: merge_state_def no_records_def empty_state_def merged_single)
  ultimately have "merge_records demo_env no_records q = Inr \<lparr>rk_state = rk_state q, rk_activity = rk_activity q,
      rk_ground_truth = rk_ground_truth q, rk_intents = rk_intents q, rk_claims = rk_claims q, rk_natural = rk_natural q\<rparr>"
    using blocked_write_set by (simp add: merge_records_def merge_write_sets_def) (simp add: no_records_def)
  then show ?thesis
    using \<open>dependency_records demo_risk_env waiting_context demo_visit = Inr q\<close> \<open>rk_state q = _\<close>
    by (simp add: external_dependency_def waiting_sel certain_sel o collect_records_def env)
qed

theorem dependency_pause_bounded_witness:
  "paused_by 7200000000 637200000000 3600000000 demo_visit blocked_visit"
proof -
  obtain r where r: "external_dependency demo_risk_env waiting_context = Inr r" "st_visits (rk_state r) = [blocked_visit]"
    using waiting_dependency by blast
  have "risk_open_visits demo_live = [demo_visit]"
    by (simp add: risk_open_visits_def demo_live_sel demo_collections) (simp add: demo_visit_def)
  then show ?thesis
    using dependency_pause_bounded[OF r(1) two_hours(1), of blocked_visit] r(2) two_hours(2) by (simp add: waiting_sel demo_live_sel)
qed

section \<open>A long stay in the sample hour\<close>

lemma demo_calendar: "live_calendar demo_env demo_live = Inr office"
  using office_from_blueprint by (simp add: live_calendar_def demo_live_sel demo_env_def) (simp add: sample_blueprint_def)

lemma demo_risk_elapsed:
  "risk_elapsed office demo_visit 637200000000 = Inr 0" "risk_elapsed office demo_visit 640800000000 = Inr 3600000000"
proof -
  have v: "sv_entered_at demo_visit = 637200000000" "sv_pause demo_visit = 0" by (simp_all add: demo_visit_def)
  have us: "risk_microseconds 3600000000 = 3600000000" by (rule risk_microseconds_exact) simp_all
  show "risk_elapsed office demo_visit 637200000000 = Inr 0" by (simp add: risk_elapsed_def v)
  show "risk_elapsed office demo_visit 640800000000 = Inr 3600000000"
    by (simp add: risk_elapsed_def v business_elapsed_def utc_interval_def demo_elapsed us)
qed

theorem long_stay_reported_once_witness: "length (filter (\<lambda>c. c) [True]) = 1"
proof -
  let ?x = "waiting_context"
  have c: "live_calendar demo_env (rc_state (tick_context ?x ab)) = Inr office" for ab
    using demo_calendar by (simp add: live_calendar_def tick_context_def waiting_sel)
  have "threshold_crossed demo_env (tick_context ?x (637200000000, 640800000000)) demo_visit 3600000000 = Inr True"
    using demo_risk_elapsed by (simp add: threshold_crossed_def c) (simp add: tick_context_def)
  then have "mapR (\<lambda>ab. threshold_crossed demo_env (tick_context ?x ab) demo_visit 3600000000)
      (zip [637200000000, 640800000000] [640800000000]) = Inr [True]" by simp
  from long_stay_reported_once[OF _ office_clocks _ this, where before = 0 and after = 3600000000] show ?thesis
    using demo_calendar demo_risk_elapsed by (simp add: waiting_sel)
qed

section \<open>A rejected review\<close>

definition reviewing_workflow :: WorkflowBlueprint where
  "reviewing_workflow = \<lparr>wf_statuses =
     [\<lparr>ws_key = ''DEV'', ws_jira_name = ''In Development'', ws_category = ''IN_PROGRESS'', ws_activities = [''CODE''],
       ws_consumes_capacity = True, ws_pauses_service_clock = False\<rparr>,
      \<lparr>ws_key = ''CODE_REVIEW'', ws_jira_name = ''In Review'', ws_category = ''IN_PROGRESS'', ws_activities = [''CODE''],
       ws_consumes_capacity = True, ws_pauses_service_clock = False\<rparr>],
     wf_routes = [\<lparr>ro_issue_type = ''STORY'', ro_steps =
       [\<lparr>rp_status_key = ''DEV'', rp_required_activity = Some ''CODE''\<rparr>,
        \<lparr>rp_status_key = ''CODE_REVIEW'', rp_required_activity = Some ''CODE''\<rparr>]\<rparr>]\<rparr>"

definition reviewing_blueprint :: ResolvedTeamBlueprint where
  "reviewing_blueprint = sample_blueprint\<lparr>bp_workflow := reviewing_workflow\<rparr>"

definition reviewed_work :: WorkItemState where
  "reviewed_work = demo_work\<lparr>wi_lifecycle := WI_DONE, wi_current_status_key := ''CODE_REVIEW''\<rparr>"

definition review_visit :: StatusVisitState where
  "review_visit = demo_visit\<lparr>sv_id := 43, sv_status_key := ''CODE_REVIEW'', sv_lifecycle := SV_CLOSED,
     sv_closed_at := Some 637200000000\<rparr>"

definition next_visit :: StatusVisitState where
  "next_visit = demo_visit\<lparr>sv_id := 45, sv_status_key := ''QA''\<rparr>"

definition reviewing_live :: "StatusVisitState list \<Rightarrow> LiveTeamState" where
  "reviewing_live visits = \<lparr>lt_aggregate = demo_aggregate\<lparr>pa_blueprint := reviewing_blueprint\<rparr>,
     lt_scrum = empty_state\<lparr>st_member_identities := [demo_identity], st_work_items := [reviewed_work], st_visits := visits,
       st_counters := [demo_counter\<lparr>sn_next_value := 0\<rparr>]\<rparr>\<rparr>"

definition rejecting_rule :: RiskRule where
  "rejecting_rule = certain_rule ''REVIEW_REJECTION'' ''STATUS_EXITED'' [(''return_status'', JStr ''DEV'')]"

definition reviewing_context :: "StatusVisitState list \<Rightarrow> RiskContext" where
  "reviewing_context visits = \<lparr>rc_state = reviewing_live visits, rc_as_of = 637200000000, rc_draws = demo_draw_source,
     rc_rule = rejecting_rule\<rparr>"

lemma reviewing_sel:
  "rc_state (reviewing_context vs) = reviewing_live vs" "rc_as_of (reviewing_context vs) = 637200000000"
  "rc_draws (reviewing_context vs) = demo_draw_source" "rc_rule (reviewing_context vs) = rejecting_rule"
  "lt_blueprint (reviewing_live vs) = reviewing_blueprint" "bp_workflow reviewing_blueprint = reviewing_workflow"
  "st_work_items (lt_scrum (reviewing_live vs)) = [reviewed_work]" "st_visits (lt_scrum (reviewing_live vs)) = vs"
  "st_member_identities (lt_scrum (reviewing_live vs)) = [demo_identity]" "bp_members reviewing_blueprint = [sample_member]"
  "st_counters (lt_scrum (reviewing_live vs)) = [demo_counter\<lparr>sn_next_value := 0\<rparr>]"
  "rt_simulation_time (lt_runtime (reviewing_live vs)) = 637200000000" "aggregate_version (reviewing_live vs) = 4"
  by (simp_all add: reviewing_context_def reviewing_live_def reviewing_blueprint_def empty_state_def demo_aggregate_def
      demo_live_sel sample_blueprint_def aggregate_version_def) (simp add: demo_live_def)

lemma reviewed_sel: "wi_id reviewed_work = 59" "wi_team_id reviewed_work = 69" "wi_run_id reviewed_work = 42"
  "wi_issue_type reviewed_work = ''STORY''" "wi_story_points reviewed_work = 3"
  "sv_id review_visit = 43" "sv_status_key review_visit = ''CODE_REVIEW''" "sv_work_item_id review_visit = 59"
  by (simp_all add: reviewed_work_def demo_work_def review_visit_def demo_coordinates)

lemma reviewing_decision:
  "\<exists>d. review_decision demo_risk_env (reviewing_context vs) reviewed_work review_visit = Inr d \<and> ev_outcome (rd_evidence d) \<and>
     rd_target d = ''DEV''"
proof -
  have route: "work_route (reviewing_live vs) reviewed_work = Inr \<lparr>ro_issue_type = ''STORY'', ro_steps =
       [\<lparr>rp_status_key = ''DEV'', rp_required_activity = Some ''CODE''\<rparr>,
        \<lparr>rp_status_key = ''CODE_REVIEW'', rp_required_activity = Some ''CODE''\<rparr>]\<rparr>"
    by (simp add: work_route_def find_or_stop_def reviewing_sel reviewing_workflow_def reviewed_sel)
  have target: "rule_text rejecting_rule ''return_status'' = Inr ''DEV''"
    by (simp add: rule_text_def rejecting_rule_def certain_sel)
  have earlier: "require_earlier_step (reviewing_live vs) reviewed_work ''CODE_REVIEW'' ''DEV'' = Inr ()"
    by (simp add: require_earlier_step_def route step_positions_def dict_get_def)
  have step: "route_step (reviewing_live vs) reviewed_work ''DEV'' =
      Inr \<lparr>rp_status_key = ''DEV'', rp_required_activity = Some ''CODE''\<rparr>"
    by (simp add: route_step_def route find_or_stop_def)
  have people: "\<exists>p. eligible_people_for_activity (reviewing_live vs) \<lparr>rp_status_key = ''DEV'', rp_required_activity = Some ''CODE''\<rparr> = Inr p"
    by (simp add: eligible_people_for_activity_def reviewing_sel member_blueprint_def py_index_def demo_coordinates)
  have env: "re_scrum demo_risk_env = demo_env" by (simp add: demo_risk_env_def)
  have status: "find_or_stop (\<lambda>s. ws_key s = ''DEV'') (wf_statuses reviewing_workflow) = Inr
      \<lparr>ws_key = ''DEV'', ws_jira_name = ''In Development'', ws_category = ''IN_PROGRESS'', ws_activities = [''CODE''],
       ws_consumes_capacity = True, ws_pauses_service_clock = False\<rparr>"
    by (simp add: find_or_stop_def reviewing_workflow_def)
  have details: "check_projection_details \<lparr>pd_target_kind = ''JIRA'', pd_operation_type = ''TRANSITION_ISSUE'',
      pd_aggregate_id = 59, pd_aggregate_version = 4, pd_status = ''PENDING''\<rparr> = Inr ()"
    by (simp add: check_projection_details_def non_empty_def non_negative_def) (simp add: blank_def is_space_def)
  obtain intent where intent: "transition_intent demo_env (reviewing_context vs) 59 ''DEV'' = Inr intent"
    "\<exists>j. dr_canonical_payload intent = cd_encode demo_codec j"
    using demo_projection[OF slash_not_blank(1) details]
    by (simp add: transition_intent_def reviewing_sel status demo_sel Let_def) metis
  obtain j where j: "intent_payload demo_codec (Some intent) = Inr j"
    using intent(2) demo_stable by (auto simp: intent_payload_def) (metis option.simps(5))
  obtain u where u: "demo_draw_source \<lparr>do_entity_id = 43, do_decision_type = RISK_REVIEW_REJECTION_OUTCOME, do_occurrence = 0\<rparr> = Inr u"
    "ud_unit_value u = 0" using demo_unit_draw by blast
  have d: "decision_occurrence 43 RISK_REVIEW_REJECTION_OUTCOME 0 =
      Inr \<lparr>do_entity_id = 43, do_decision_type = RISK_REVIEW_REJECTION_OUTCOME, do_occurrence = 0\<rparr>"
    by (simp add: decision_occurrence_def)
  obtain f where f: "risk_factors (reviewing_live vs) reviewed_work review_visit = Inr f"
    using demo_risk_factors[of reviewed_work] by (auto simp: reviewed_sel)
  have p: "risk_probability demo_risk_env rejecting_rule f = Inr 1" by (simp add: rejecting_rule_def)
  from people obtain ps where ps: "eligible_people_for_activity (reviewing_live vs)
      \<lparr>rp_status_key = ''DEV'', rp_required_activity = Some ''CODE''\<rparr> = Inr ps" by blast
  show ?thesis
    by (simp add: review_decision_def reviewing_sel reviewed_sel d u f p target earlier step ps optional_intent_def env intent(1) demo_sel j)
qed

theorem rejection_after_next_step_raises_witness:
  "\<exists>e. evaluate_rule demo_risk_env 640800000000 demo_draw_source rejecting_rule
     (no_records, reviewing_live [review_visit, next_visit]) = Inl e"
proof -
  let ?st = "reviewing_live [review_visit, next_visit]"
  obtain d where d: "review_decision demo_risk_env (reviewing_context [review_visit, next_visit]) reviewed_work review_visit = Inr d"
    "ev_outcome (rd_evidence d)" using reviewing_decision by blast
  have x: "reviewing_context [review_visit, next_visit] =
      \<lparr>rc_state = ?st, rc_as_of = rt_simulation_time (lt_runtime ?st), rc_draws = demo_draw_source, rc_rule = rejecting_rule\<rparr>"
    by (simp add: reviewing_sel(12)) (simp add: reviewing_context_def)
  have v: "sv_lifecycle review_visit = SV_CLOSED" "sv_closed_at review_visit = Some 637200000000" "sv_lifecycle next_visit = SV_OPEN"
    "sv_id next_visit = 45" "sv_team_id next_visit = 69" "sv_run_id next_visit = 42" "sv_work_item_id next_visit = 59"
    by (simp_all add: review_visit_def next_visit_def demo_coordinates) (simp add: demo_visit_def)
  have "\<exists>e. evaluate_rule demo_risk_env 640800000000 demo_draw_source rejecting_rule (no_records, ?st) = Inl e \<and>
    (\<forall>start before after. rb_rules (bp_risks (lt_blueprint start)) = before @ rejecting_rule # after \<and>
       foldR (evaluate_rule demo_risk_env 640800000000 demo_draw_source) before (no_records, start) = Inr (no_records, ?st) \<longrightarrow>
       evaluate_due_risks demo_risk_env start 640800000000 demo_draw_source = Inl e)"
  proof (rule rejection_after_next_step_raises[where v = next_visit and work = reviewed_work and d = d])
    show "rr_key rejecting_rule = ''REVIEW_REJECTION''" "rr_trigger rejecting_rule = ''STATUS_EXITED''"
      by (simp_all add: rejecting_rule_def certain_sel)
    show "filter (\<lambda>v. review_due ?st v 640800000000) (st_visits (lt_scrum ?st)) = [review_visit]"
      by (simp add: reviewing_sel review_due_def v reviewed_sel SUPPORTED_REVIEW_STATUSES_def)
    show "work_named ?st (sv_work_item_id review_visit) = Inr reviewed_work"
      by (simp add: work_named_def find_or_stop_def reviewing_sel reviewed_sel)
    show "review_decision demo_risk_env \<lparr>rc_state = ?st, rc_as_of = rt_simulation_time (lt_runtime ?st), rc_draws = demo_draw_source,
        rc_rule = rejecting_rule\<rparr> reviewed_work review_visit = Inr d" "ev_outcome (rd_evidence d)"
      using d by (simp_all only: x)
    show "distinct (map sv_id (st_visits (lt_scrum ?st)))" by (simp add: reviewing_sel reviewed_sel v)
    show "next_visit \<in> set (st_visits (lt_scrum ?st))" by (simp add: reviewing_sel)
    show "sv_lifecycle next_visit = SV_OPEN"
      "(sv_team_id next_visit, sv_run_id next_visit, sv_work_item_id next_visit) = (wi_team_id reviewed_work, wi_run_id reviewed_work, wi_id reviewed_work)"
      by (simp_all add: v reviewed_sel)
    show "\<forall>k \<in> set (st_counters (lt_scrum ?st)). cs_kind (sn_scope k) = VISIT_ORDINAL \<and> cs_scope_id (sn_scope k) = wi_id reviewed_work \<longrightarrow>
        visit_rng_id (risk_codec demo_risk_env) (wi_id reviewed_work) (sn_next_value k) \<noteq> Inr (sv_id next_visit)"
      by (simp add: reviewing_sel reviewed_sel v demo_risk_env_def demo_sel demo_ids)
  qed
  then show ?thesis by blast
qed

lemma reviewing_sample:
  "create_sample demo_env \<lparr>si_blueprint = reviewing_blueprint, si_work_item = entered_work, si_visit = demo_visit,
     si_dwell_draw = demo_draw ''m1'' STATUS_DWELL, si_touch_draw = demo_draw ''m2'' STATUS_TOUCH\<rparr> = Inr demo_sample"
proof -
  let ?i = "demo_input\<lparr>si_work_item := entered_work\<rparr>"
  have i: "\<lparr>si_blueprint = reviewing_blueprint, si_work_item = entered_work, si_visit = demo_visit,
     si_dwell_draw = demo_draw ''m1'' STATUS_DWELL, si_touch_draw = demo_draw ''m2'' STATUS_TOUCH\<rparr> = ?i\<lparr>si_blueprint := reviewing_blueprint\<rparr>"
    by (simp add: demo_input_def)
  have b: "bp_timing reviewing_blueprint = bp_timing sample_blueprint" "bp_seed reviewing_blueprint = bp_seed sample_blueprint"
    "bp_canonical_document reviewing_blueprint = bp_canonical_document sample_blueprint" by (simp_all add: reviewing_blueprint_def)
  have e: "timing_entry reviewing_blueprint w v = timing_entry sample_blueprint w v"
    "blueprint_team c reviewing_blueprint = blueprint_team c sample_blueprint" for w v c
    by (simp_all add: timing_entry_def blueprint_team_def b)
  define j where "j = ?i\<lparr>si_blueprint := reviewing_blueprint\<rparr>"
  have c: "check_sample_input demo_codec j = check_sample_input demo_codec ?i"
    by (simp add: j_def check_sample_input_def check_sample_links_def authenticate_draw_def demo_sel e b Let_def)
  have j: "si_blueprint j = reviewing_blueprint" "si_work_item j = entered_work" "si_visit j = si_visit ?i"
    "si_dwell_draw j = si_dwell_draw ?i" "si_touch_draw j = si_touch_draw ?i"
    "si_blueprint ?i = sample_blueprint" "si_work_item ?i = entered_work"
    by (simp_all add: j_def demo_input_def)
  have v: "status_sample_values demo_env j = status_sample_values demo_env ?i"
    unfolding status_sample_values_def j Let_def by (simp add: demo_sel e b c cong: if_cong)
  have "create_sample demo_env j = create_sample demo_env ?i" by (simp add: create_sample_def demo_sel c v)
  then show ?thesis using entered_sample by (simp add: i j_def)
qed

lemma reviewing_rejected: "\<exists>r. review_records demo_risk_env (reviewing_context [review_visit]) reviewed_work review_visit = Inr r"
proof -
  let ?x = "reviewing_context [review_visit]"
  have env: "re_scrum demo_risk_env = demo_env" by (simp add: demo_risk_env_def)
  obtain d where d: "review_decision demo_risk_env ?x reviewed_work review_visit = Inr d" "ev_outcome (rd_evidence d)" "rd_target d = ''DEV''"
    using reviewing_decision by blast
  have w: "reviewed_work\<lparr>wi_lifecycle := WI_ACTIVE, wi_current_status_key := ''DEV'', wi_updated_at := 637200000000\<rparr> = entered_work"
    by (simp add: reviewed_work_def entered_work_def demo_work_def)
  have ok: "check_work_item demo_codec entered_work = Inr ()"
    using demo_checks(1) by (simp add: check_work_item_def entered_work_def check_classification_def bindR_check) (simp add: demo_work_def)
  have ew: "wi_id entered_work = 59" "wi_team_id entered_work = 69" "wi_run_id entered_work = 42" "wi_issue_type entered_work = ''STORY''"
    "wi_story_points entered_work = 3" "wi_current_status_key entered_work = ''DEV''"
    by (simp_all add: entered_work_def demo_work_def)
  have step: "route_step (reviewing_live [review_visit]) entered_work ''DEV'' =
      Inr \<lparr>rp_status_key = ''DEV'', rp_required_activity = Some ''CODE''\<rparr>"
    by (simp add: route_step_def work_route_def find_or_stop_def reviewing_sel reviewing_workflow_def ew)
  have draws: "decision_occurrence 44 dt 0 = Inr (demo_decision dt)"
    "demo_draw_source (demo_decision STATUS_TOUCH) = Inr (demo_draw ''m2'' STATUS_TOUCH)"
    "demo_draw_source (demo_decision STATUS_DWELL) = Inr (demo_draw ''m1'' STATUS_DWELL)" for dt
    by (simp_all add: decision_occurrence_def demo_decision_def demo_draw_source_def)
  have "f_mul 1 MICROSECONDS_PER_HOUR = 3600000000" by (simp add: f_mul_def MICROSECONDS_PER_HOUR_def fl_numeral)
  then have q: "required_from_draw sample_timing (demo_draw ''m2'' STATUS_TOUCH) = Inr 3600000000"
    using round_half_even_of_int[of 3600000000]
    by (simp add: required_from_draw_def demo_anchors demo_draw_def demo_touch hours_us_def)
  have f: "find_or_stop (\<lambda>t. timing_cell t = (''DEV'', ''STORY'', 3)) (tm_entries (bp_timing reviewing_blueprint)) = Inr sample_timing"
    by (simp add: find_or_stop_def reviewing_blueprint_def sample_blueprint_def sample_timing_def timing_cell_def)
  have v: "\<lparr>sv_id = 44, sv_team_id = 69, sv_run_id = 42, sv_work_item_id = 59, sv_ordinal = 0, sv_lifecycle = SV_OPEN,
      sv_status_key = ''DEV'', sv_activity_key = Some ''CODE'', sv_member_id = None, sv_entered_at = 637200000000, sv_closed_at = None,
      sv_required = 3600000000, sv_elapsed = 0, sv_remaining = 3600000000, sv_queue = 0, sv_pause = 0, sv_credited = 0\<rparr> = demo_visit"
    by (simp add: demo_visit_def)
  have c: "sn_scope demo_counter = \<lparr>cs_kind = VISIT_ORDINAL, cs_scope_id = 59, cs_scope_key = ''VISIT''\<rparr>" by (simp add: demo_counter_def)
  have claim: "check_claim \<lparr>cl_scope = \<lparr>cs_kind = VISIT_ORDINAL, cs_scope_id = 59, cs_scope_key = ''VISIT''\<rparr>, cl_expected_next = 0, cl_count = 1\<rparr> = Inr ()"
    by (simp add: check_claim_def check_counter_scope_def require_text_def is_space_def scope_keys_def safe_integer_def
        MAX_SAFE_INTEGER_def U53_DENOMINATOR_def)
  have r: "returned_visit demo_env ?x entered_work = Inr (demo_visit, demo_sample,
      \<lparr>cl_scope = sn_scope demo_counter, cl_expected_next = 0, cl_count = 1\<rparr>)"
    using claim by (simp add: returned_visit_def reviewing_sel find_or_stop_def c ew step demo_sel demo_ids draws f[unfolded find_or_stop_def] q v built_def demo_checks reviewing_sample)
  let ?ws = "empty_state\<lparr>st_work_items := [entered_work], st_visits := [demo_visit], st_samples := [demo_sample]\<rparr>"
  have ws: "write_set demo_env ?ws = Inr ?ws"
    by (simp add: write_set_def validate_state_def validate_collections_def empty_state_def demo_sel ok demo_checks demo_sample_ok
        validate_uniqueness_def unique_identities_def validate_partial_uniqueness_def require_unique_coordinates_def
        validate_one_team_run_def state_teams_def state_runs_def demo_coordinates ew validate_open_visit_status_def
        validate_sample_links_def dict_of_def)
  obtain q where "evidence_records demo_env (reviewing_live [review_visit]) \<lparr>eb_evidence = rd_evidence d, eb_event_type = ''REVIEW_REJECTED'',
      eb_projection = rd_projection d, eb_state = ?ws, eb_claims = [\<lparr>cl_scope = sn_scope demo_counter, cl_expected_next = 0, cl_count = 1\<rparr>],
      eb_natural = []\<rparr> = Inr q"
    using demo_evidence[of "\<lparr>eb_evidence = rd_evidence d, eb_event_type = ''REVIEW_REJECTED'',
      eb_projection = rd_projection d, eb_state = ?ws, eb_claims = [\<lparr>cl_scope = sn_scope demo_counter, cl_expected_next = 0, cl_count = 1\<rparr>],
      eb_natural = []\<rparr>" "reviewing_live [review_visit]"] by (auto simp: blank_def is_space_def reviewing_sel)
  then show ?thesis using d r ws ok by (simp add: review_records_def env demo_sel reviewing_sel w replaced_work_def)
qed

theorem review_outcome_witness:
  "\<exists>r. review_records demo_risk_env (reviewing_context [review_visit]) reviewed_work review_visit = Inr r \<and>
     returned_to demo_codec (reviewing_context [review_visit]) review_visit reviewed_work r"
proof -
  obtain r where r: "review_records demo_risk_env (reviewing_context [review_visit]) reviewed_work review_visit = Inr r"
    using reviewing_rejected by blast
  have d: "decision_occurrence 43 RISK_REVIEW_REJECTION_OUTCOME 0 =
      Inr \<lparr>do_entity_id = 43, do_decision_type = RISK_REVIEW_REJECTION_OUTCOME, do_occurrence = 0\<rparr>"
    by (simp add: decision_occurrence_def)
  obtain u where u: "demo_draw_source \<lparr>do_entity_id = 43, do_decision_type = RISK_REVIEW_REJECTION_OUTCOME, do_occurrence = 0\<rparr> = Inr u"
    "ud_unit_value u = 0" using demo_unit_draw by blast
  have env: "re_scrum demo_risk_env = demo_env" by (simp add: demo_risk_env_def)
  show ?thesis
    using review_outcome[OF r] r u by (auto simp: reviewed_sel reviewing_sel d rejecting_rule_def env demo_sel)
qed

section \<open>The start of a working day\<close>

text \<open>The first state of the sample run, with a cancellation rule that never fires, in the hour after nine.\<close>

definition calm_rule :: RiskRule where
  "calm_rule = certain_rule ''CANCELLATION'' ''WORKDAY_STARTED'' [(''target_status'', JStr ''CANCELLED'')]
     \<lparr>rr_base_probability := 0\<rparr>"

definition calm_live :: LiveTeamState where
  "calm_live = \<lparr>lt_aggregate = demo_aggregate\<lparr>pa_blueprint := sample_blueprint
       \<lparr>bp_risks := (bp_risks sample_blueprint)\<lparr>rb_rules := [calm_rule]\<rparr>\<rparr>\<rparr>, lt_scrum = first_state\<rparr>"

definition calm_context :: "instant \<Rightarrow> RiskContext" where
  "calm_context t = \<lparr>rc_state = calm_live, rc_as_of = t, rc_draws = demo_draw_source, rc_rule = calm_rule\<rparr>"

lemma calm_sel:
  "lt_scrum calm_live = first_state" "rb_rules (bp_risks (lt_blueprint calm_live)) = [calm_rule]"
  "rt_simulation_time (lt_runtime calm_live) = 637200000000" "bp_members (lt_blueprint calm_live) = [sample_member]"
  "rc_state (calm_context t) = calm_live" "rc_as_of (calm_context t) = t" "rc_draws (calm_context t) = demo_draw_source"
  "rc_rule (calm_context t) = calm_rule" "rr_key calm_rule = ''CANCELLATION''" "rr_trigger calm_rule = ''WORKDAY_STARTED''"
  "(calm_context t)\<lparr>rc_as_of := u\<rparr> = calm_context u" "aggregate_version calm_live = 4"
  by (simp_all add: calm_context_def calm_live_def calm_rule_def certain_sel aggregate_version_def)
    (simp_all add: demo_aggregate_def demo_live_def sample_blueprint_def)

lemma calm_calendar: "live_calendar demo_env calm_live = Inr office"
  using demo_calendar by (simp add: live_calendar_def calm_live_def demo_live_sel)

lemma calm_boundary: "workday_boundary demo_env calm_live 640800000000 = Inr (Some 637200000000)"
proof -
  have "workday_scan office 637200000000 640800000000 8 8 = Inr (Some 637200000000)"
    by (subst workday_scan.simps) (simp add: office_days)
  then show ?thesis
    by (simp add: workday_boundary_def calm_sel calm_calendar office_date office_simps instant_add_def)
qed

definition calm_claim :: SemanticCounterClaim where
  "calm_claim = \<lparr>cl_scope = \<lparr>cs_kind = NATURAL_DECISION_OCCURRENCE, cs_scope_id = 59, cs_scope_key = ''RISK_CANCELLATION_OUTCOME''\<rparr>,
     cl_expected_next = 0, cl_count = 1\<rparr>"

lemma empty_write_set: "write_set demo_env empty_state = Inr empty_state"
  by (simp add: write_set_def validate_state_def validate_collections_def empty_state_def validate_uniqueness_def unique_identities_def
      validate_partial_uniqueness_def require_unique_coordinates_def validate_one_team_run_def state_teams_def state_runs_def
      validate_open_visit_status_def validate_sample_links_def dict_of_def)

lemma merge_empty_empty: "merge_state empty_state empty_state = empty_state"
  using merge_state_empty[OF conjunct2[OF write_set_Inr[OF empty_write_set]]] .

lemma calm_cancellation:
  "\<exists>r. cancellation demo_risk_env (calm_context 640800000000) = Inr r \<and> rk_claims r = [calm_claim] \<and> rk_state r = empty_state"
proof -
  let ?x = "calm_context 637200000000"
  let ?d = "\<lparr>do_entity_id = 59, do_decision_type = RISK_CANCELLATION_OUTCOME, do_occurrence = 0\<rparr>"
  have env: "re_scrum demo_risk_env = demo_env" by (simp add: demo_risk_env_def)
  obtain k where k: "find_or_stop (\<lambda>k. cs_kind (sn_scope k) = NATURAL_DECISION_OCCURRENCE \<and> cs_scope_id (sn_scope k) = 59 \<and>
      cs_scope_key (sn_scope k) = ''RISK_CANCELLATION_OUTCOME'') first_counters = Inr k" "sn_scope k = cl_scope calm_claim" "sn_next_value k = 0"
    by (simp add: find_or_stop_def first_counters_def calm_claim_def)
  have ok: "check_claim calm_claim = Inr ()"
    using natural_keys[of RISK_CANCELLATION_OUTCOME]
    by (simp add: calm_claim_def check_claim_def check_counter_scope_def require_text_def is_space_def scope_keys_def safe_integer_def
        MAX_SAFE_INTEGER_def U53_DENOMINATOR_def NATURAL_OWNER_DECISIONS_def)
  have claim: "\<lparr>cl_scope = cl_scope calm_claim, cl_expected_next = 0, cl_count = 1\<rparr> = calm_claim" by (simp add: calm_claim_def)
  have natural: "natural_claim \<lparr>nr_state = calm_live, nr_entity_id = 59, nr_decision_type = RISK_CANCELLATION_OUTCOME,
      nr_business_date = local_date 637200000000\<rparr> = Inr (calm_claim, \<lparr>nc_decision = ?d, nc_business_date = local_date 637200000000\<rparr>)"
    by (simp add: natural_claim_def calm_sel first_state_sel k decision_occurrence_def built_def ok claim check_natural_claim_def
        NATURAL_OWNER_DECISIONS_def validate_decision_def)
  obtain u where u: "demo_draw_source ?d = Inr u" "ud_unit_value u = 0" using demo_unit_draw by blast
  have visit: "work_visit calm_live 59 = Inr started_visit"
    by (simp add: work_visit_def find_or_stop_def calm_sel first_state_sel started_coordinates) (simp add: started_visit_def demo_visit_def)
  have work: "wi_id started_work = 59" "wi_lifecycle started_work = WI_ACTIVE" by (simp_all add: started_work_def demo_work_def)
  obtain f where f: "risk_factors calm_live started_work started_visit = Inr f"
    using demo_risk_factors[of started_work] by (auto simp: started_work_def demo_work_def)
  have p: "risk_probability demo_risk_env calm_rule f = Inr 0"
    by (simp add: risk_probability_def calm_rule_def certain_rule_def)
  have target: "rule_text calm_rule ''target_status'' = Inr ''CANCELLED''"
    by (simp add: rule_text_def calm_rule_def certain_rule_def dict_get_def)
  have people: "\<exists>ps. eligible_people calm_live started_visit = Inr ps"
    by (simp add: eligible_people_def eligible_people_for_activity_def calm_sel first_state_sel member_blueprint_def py_index_def
        demo_coordinates split: option.splits)
  then obtain ps where ps: "eligible_people calm_live started_visit = Inr ps" by blast
  obtain d where d: "cancellation_decision demo_risk_env ?x started_work = Inr d" "\<not> ev_outcome (cd_evidence d)"
      "cd_claim d = calm_claim"
    by (simp add: cancellation_decision_def calm_sel work natural u visit f p target ps env optional_intent_def intent_payload_def)
  obtain r where r: "evidence_records demo_env calm_live \<lparr>eb_evidence = cd_evidence d, eb_event_type = ''RISK_EVALUATED'', eb_projection = None,
      eb_state = empty_state, eb_claims = [cd_claim d], eb_natural = [cd_eligible d]\<rparr> = Inr r"
    using demo_evidence[of "\<lparr>eb_evidence = cd_evidence d, eb_event_type = ''RISK_EVALUATED'', eb_projection = None,
      eb_state = empty_state, eb_claims = [cd_claim d], eb_natural = [cd_eligible d]\<rparr>" calm_live]
    by (auto simp: blank_def is_space_def calm_sel)
  have c: "cancellation_records demo_risk_env ?x started_work = Inr r"
    using d r by (simp add: cancellation_records_def env calm_sel)
  have e: "rk_state r = empty_state" "rk_claims r = [calm_claim]" using evidence_records_Inr[OF r] d by simp_all
  obtain q where q: "merge_records demo_env no_records r = Inr q" using e by (auto simp: merge_records_def merge_write_sets_def no_records_def empty_write_set merge_empty_empty)
  have "collect_records demo_env (cancellation_records demo_risk_env ?x) [started_work] = Inr q"
    using c q by (simp add: collect_records_def)
  then have "cancellation demo_risk_env (calm_context 640800000000) = Inr q"
    by (simp add: cancellation_def env calm_sel calm_boundary first_state_sel work)
  moreover have "rk_claims q = [calm_claim]" "rk_state q = empty_state"
    using merge_records_Inr[OF q] e by (simp_all add: no_records_def merge_empty_empty)
  ultimately show ?thesis by blast
qed

lemma first_valid: "validate_snapshot demo_env first_state = Inr ()"
proof -
  have "snapshot demo_env first_state = Inr first_state \<and> first_state = first_state"
    by (rule snapshot_of_write_set[OF first_write_set])
      (simp_all add: first_state_sel started_coordinates demo_coordinates,
       simp_all add: first_scope_def first_sprint_def first_counters_def counter_owned_def started_visit_def)
  then show ?thesis by (auto dest: snapshot_Inr)
qed

lemma calm_rules:
  "\<exists>r. foldR (evaluate_rule demo_risk_env 640800000000 demo_draw_source) (rb_rules (bp_risks (lt_blueprint calm_live))) (no_records, calm_live) =
     Inr (r, calm_live) \<and> rk_claims r = [calm_claim] \<and> rk_state r = empty_state"
proof -
  obtain c where c: "cancellation demo_risk_env (calm_context 640800000000) = Inr c" "rk_claims c = [calm_claim]" "rk_state c = empty_state"
    using calm_cancellation by blast
  obtain r where r: "merge_records demo_env no_records c = Inr r"
    using c by (auto simp: merge_records_def merge_write_sets_def no_records_def empty_write_set merge_empty_empty)
  have env: "re_scrum demo_risk_env = demo_env" by (simp add: demo_risk_env_def)
  have "with_write_set demo_env calm_live empty_state = Inr calm_live"
    by (simp add: with_write_set_def calm_sel merge_state_empty[OF validate_snapshot_state[OF first_valid]] snapshot_def first_valid)
  moreover have x: "\<lparr>rc_state = calm_live, rc_as_of = 640800000000, rc_draws = demo_draw_source, rc_rule = calm_rule\<rparr> = calm_context 640800000000"
    by (simp add: calm_context_def)
  ultimately have "evaluate_rule demo_risk_env 640800000000 demo_draw_source calm_rule (no_records, calm_live) = Inr (r, calm_live)"
    using c r by (simp add: evaluate_rule_def risk_handler_def calm_sel env x)
  then show ?thesis using merge_records_Inr[OF r] c by (simp add: calm_sel no_records_def merge_empty_empty)
qed

theorem risk_changes_compose_witness:
  "\<exists>r. evaluate_due_risks demo_risk_env calm_live 640800000000 demo_draw_source = Inr r \<and> rk_claims r = [calm_claim] \<and>
     first_state = merge_state first_state (rk_state r)"
proof -
  obtain r where r: "foldR (evaluate_rule demo_risk_env 640800000000 demo_draw_source) (rb_rules (bp_risks (lt_blueprint calm_live)))
      (no_records, calm_live) = Inr (r, calm_live)" "rk_claims r = [calm_claim]" using calm_rules by blast
  have env: "re_scrum demo_risk_env = demo_env" by (simp add: demo_risk_env_def)
  show ?thesis using risk_changes_compose[OF _ r(1)] r(2) first_valid by (auto simp: env calm_sel)
qed

theorem risk_claims_bind_witness:
  "\<exists>r. evaluate_due_risks demo_risk_env calm_live 640800000000 demo_draw_source = Inr r \<and>
     next_of_counter first_counters calm_claim \<and>
     validate_natural_bindings (dict_of cl_scope (rk_claims r)) (rk_natural r) = Inr ()"
proof -
  obtain r where r: "evaluate_due_risks demo_risk_env calm_live 640800000000 demo_draw_source = Inr r" "rk_claims r = [calm_claim]"
    using calm_rules by (auto simp: evaluate_due_risks_def)
  have "distinct (map sn_scope first_counters)" by (simp add: first_counters_def)
  then show ?thesis using risk_claims_bind[OF r(1)] r by (simp add: calm_sel first_state_sel)
qed

end
