(* ===== verification/Tick_Examples.thy ===== *)
theory Tick_Examples
  imports Tick_Outcomes Risk_Examples
begin

text \<open>
  The hour after nine of the sample team as a whole tick: the story is done, and the command that says so passes
  every check. The witnesses of the theorems in \<open>Tick_Outcomes\<close>.
\<close>

definition demo_request :: TickRequest where
  "demo_request = \<lparr>tq_team_id = 69, tq_ends_at = 640800000000, tq_recorded_at = 640800000000\<rparr>"

definition demo_result :: TickResult where
  "demo_result = \<lparr>tk_ends_at = 640800000000, tk_visits = [close_visit 640800000000 demo_worked], tk_work_items = [done_work],
     tk_samples = [], tk_consumption = [\<lparr>mc_team_id = 69, mc_run_id = 42, mc_member_id = 45, mc_business_date = 8,
       mc_consumed = 3600000000\<rparr>], tk_claims = [], tk_queue_causes = []\<rparr>"

lemma demo_result_sel: "tk_ends_at demo_result = 640800000000" "tk_visits demo_result = [close_visit 640800000000 demo_worked]"
  "tk_work_items demo_result = [done_work]" "tk_samples demo_result = []" "tk_claims demo_result = []"
  "tk_queue_causes demo_result = []"
  "tk_consumption demo_result = [\<lparr>mc_team_id = 69, mc_run_id = 42, mc_member_id = 45, mc_business_date = 8, mc_consumed = 3600000000\<rparr>]"
  by (simp_all add: demo_result_def)

lemma demo_runtime: "rt_team_id (lt_runtime demo_live) = 69" "rt_run_id (lt_runtime demo_live) = 42" "rt_version (lt_runtime demo_live) = 3"
  "rt_state (lt_runtime demo_live) = ''RUNNING''"
  by (simp_all add: demo_live_def)

lemma closed_sel: "sv_id (close_visit t demo_worked) = 44" "sv_work_item_id (close_visit t demo_worked) = 59"
  "sv_ordinal (close_visit t demo_worked) = 0" "sv_status_key (close_visit t demo_worked) = ''DEV''"
  "sv_member_id (close_visit t demo_worked) = Some 45" "sv_lifecycle (close_visit t demo_worked) = SV_CLOSED"
  "sv_team_id (close_visit t demo_worked) = 69" "sv_run_id (close_visit t demo_worked) = 42"
  by (simp_all add: close_visit_def demo_worked_def demo_visit_def)

lemma done_sel: "wi_id done_work = 59" "wi_team_id done_work = 69" "wi_run_id done_work = 42" "wi_current_status_key done_work = ''DONE''"
  "wi_issue_type done_work = ''STORY''"
  by (simp_all add: done_work_def demo_coordinates)

lemma demo_env_sel: "re_scrum demo_risk_env = demo_env" by (simp add: demo_risk_env_def)

lemma demo_no_boundary: "cross_sprint_boundary demo_env demo_live t = Inr empty_transition"
  by (simp add: cross_sprint_boundary_def demo_live_sel demo_collections)

lemma demo_effective_end: "effective_end demo_env demo_live 640800000000 = Inr 640800000000"
  by (simp add: effective_end_def next_workday_risk_boundary_def demo_live_sel demo_collections Let_def) (simp add: sample_blueprint_def)

section \<open>No risk is due\<close>

lemma demo_valid: "validate_snapshot demo_env (lt_scrum demo_live) = Inr ()" by (simp add: demo_live_sel demo_snapshot)

lemma demo_unchanged: "with_write_set demo_env demo_live empty_state = Inr demo_live"
  by (simp add: with_write_set_def merge_state_empty[OF validate_snapshot_state[OF demo_valid]] snapshot_def demo_valid)

definition quiet_rule :: RiskRule where
  "quiet_rule = hd (rb_rules (bp_risks sample_blueprint))"

lemma quiet_sel: "rb_rules (bp_risks sample_blueprint) = [quiet_rule]" "rr_key quiet_rule = ''LONG_STAY''"
  "rr_mechanical_parameters quiet_rule = [(''threshold_multiplier'', JNum 2)]"
  by (simp_all add: quiet_rule_def sample_blueprint_def)

lemma merged_no_records: "merge_records demo_env no_records no_records = Inr no_records"
  by (simp add: merge_records_def merge_write_sets_def no_records_def merge_empty_empty empty_write_set)

lemma quiet_long_stay:
  "long_stay demo_env \<lparr>rc_state = demo_live, rc_as_of = 640800000000, rc_draws = draws, rc_rule = quiet_rule\<rparr> = Inr no_records"
proof -
  let ?x = "\<lparr>rc_state = demo_live, rc_as_of = 640800000000, rc_draws = draws, rc_rule = quiet_rule\<rparr>"
  have o: "risk_open_visits demo_live = [demo_visit]"
    by (simp add: risk_open_visits_def demo_live_sel demo_collections) (simp add: demo_visit_def)
  have z: "hours_us 0 = 0" using round_half_even_of_int[of 0] by (simp add: hours_us_def f_mul_def)
  have s: "vs_dwell_sampled_hours demo_sample = 0" by (simp add: demo_sample_def)
  have "\<exists>m. rule_number quiet_rule ''threshold_multiplier'' (Some 1) = Inr m"
    by (simp add: rule_number_def quiet_sel)
  then obtain m where m: "rule_number quiet_rule ''threshold_multiplier'' (Some 1) = Inr m" by blast
  have "threshold_crossed demo_env ?x demo_visit 0 = Inr False"
    by (simp add: threshold_crossed_def demo_calendar demo_risk_elapsed demo_live_sel)
  then have "long_stay_record demo_env ?x demo_visit demo_sample = Inr no_records"
    by (simp add: long_stay_record_def m s f_mul_def z Let_def)
  then show ?thesis
    by (simp add: long_stay_def o demo_live_sel demo_collections dict_of_def demo_coordinates collect_records_def merged_no_records
        dict_get_def Let_def)
qed

lemma demo_risks: "evaluate_due_risks demo_risk_env demo_live 640800000000 draws = Inr no_records"
  by (simp add: evaluate_due_risks_def demo_live_sel quiet_sel evaluate_rule_def risk_handler_def demo_env_sel quiet_long_stay
      merged_no_records) (simp add: no_records_def demo_unchanged)

lemma demo_advance:
  "advance_for_risks demo_risk_env demo_live office draws 640800000000 =
     Inr \<lparr>av_state = demo_live, av_risks = no_records, av_result = demo_result\<rparr>"
proof -
  have "rk_state no_records = empty_state" "risk_blocked_visits demo_live no_records = []"
    by (simp_all add: no_records_def risk_blocked_visits_def empty_state_def)
  then show ?thesis
    by (simp add: advance_for_risks_def demo_risks demo_env_sel demo_unchanged demo_live_sel demo_segments demo_advance_visits demo_result_def)
qed

lemma demo_loop:
  "risk_aware_advance demo_risk_env demo_live office draws 640800000000 =
     Inr \<lparr>av_state = demo_live, av_risks = no_records, av_result = demo_result\<rparr>"
  by (subst risk_aware_advance.simps) (simp add: demo_advance demo_result_sel)

section \<open>The command\<close>

lemma demo_draft_valid:
  assumes "create_draft cd path check e details = Inr d" shows "validate_draft cd path check d = Inr ()"
  using assms by (auto simp: create_draft_def Let_def elim!: bindR_InrE)

lemma demo_timing:
  "\<exists>j. timing_context demo_env \<lparr>li_state = demo_live, li_request = demo_request, li_work = done_work,
     li_visit = close_visit 640800000000 demo_worked, li_original_visit = demo_visit, li_queue_causes = [], li_semantic_key = key,
     li_summary = summary\<rparr> = Inr j"
proof -
  let ?i = "\<lparr>li_state = demo_live, li_request = demo_request, li_work = done_work,
     li_visit = close_visit 640800000000 demo_worked, li_original_visit = demo_visit, li_queue_causes = [], li_semantic_key = key,
     li_summary = summary\<rparr>"
  have "causal_member ?i = Some 45" by (simp add: causal_member_def closed_sel)
  moreover have "causal_segment demo_env ?i = Inr demo_segment"
    by (simp add: causal_segment_def demo_calendar demo_request_def instant_add_def office_date office_simps office_days demo_segment_def
        demo_live_sel)
  ultimately show ?thesis
    by (simp add: timing_context_def Let_def find_or_stop_def demo_live_sel demo_collections demo_coordinates demo_member demo_capacity)
qed

lemma demo_ledger:
  "\<exists>d. ledger_drafts demo_env demo_live demo_request demo_result = Inr d \<and> length (ld_activity d) = 1 \<and>
     length (ld_ground_truth d) = 1 \<and> length (ld_intents d) = 1 \<and>
     (\<forall>x \<in> set (ld_activity d). validate_activity demo_codec x = Inr ()) \<and>
     (\<forall>x \<in> set (ld_ground_truth d). validate_ground_truth demo_codec x = Inr ()) \<and>
     (\<forall>x \<in> set (ld_intents d). validate_projection demo_codec x = Inr ())"
proof -
  let ?v = "close_visit 640800000000 demo_worked"
  let ?key = "ledger_key demo_env demo_live ?v 640800000000"
  have key: "\<not> blank ?key" unfolding ledger_key_def Let_def by (rule slash_not_blank)
  have status: "current_status demo_live done_work = Inr (wf_statuses sample_workflow ! 2)"
    by (simp add: current_status_def find_or_stop_def demo_live_sel done_sel sample_blueprint_def sample_workflow_def)
  obtain summary where "ledger_summary demo_live done_work ?v = Inr summary"
    by (simp add: ledger_summary_def done_sel closed_sel status)
  then have item: "ledger_item demo_env demo_live demo_request demo_result ?v =
      Inr \<lparr>li_state = demo_live, li_request = demo_request, li_work = done_work, li_visit = ?v, li_original_visit = demo_visit,
        li_queue_causes = [], li_semantic_key = ?key, li_summary = summary\<rparr>"
    by (simp add: ledger_item_def Let_def demo_result_sel demo_live_sel demo_collections dict_of_def closed_sel demo_coordinates
        done_sel dict_get_def dict_get_default_def demo_request_def)
  let ?item = "\<lparr>li_state = demo_live, li_request = demo_request, li_work = done_work, li_visit = ?v, li_original_visit = demo_visit,
        li_queue_causes = [], li_semantic_key = ?key, li_summary = summary\<rparr>"
  obtain j where j: "timing_context demo_env ?item = Inr j" using demo_timing by blast
  have ad: "check_activity_details \<lparr>ad_event_type = ''ISSUE_UPDATED'', ad_aggregate_type = ''ISSUE'', ad_aggregate_id = 59,
      ad_aggregate_version = 4\<rparr> = Inr ()"
    by (simp add: check_activity_details_def non_empty_def non_negative_def) (simp add: blank_def is_space_def)
  have gd: "check_ground_truth_details \<lparr>gt_record_type = ''ISSUE_STATE'', gt_provenance_type = ''SIMULATOR_V2''\<rparr> = Inr ()"
    by (simp add: check_ground_truth_details_def non_empty_def) (simp add: blank_def is_space_def)
  have pd: "check_projection_details \<lparr>pd_target_kind = ''JIRA'', pd_operation_type = ''TRANSITION_ISSUE'', pd_aggregate_id = 59,
      pd_aggregate_version = 4, pd_status = ''PENDING''\<rparr> = Inr ()"
    by (simp add: check_projection_details_def non_empty_def non_negative_def) (simp add: blank_def is_space_def)
  have be: "business_elapsed office 637200000000 640800000000 = Inr 3600000000"
    by (simp add: business_elapsed_def utc_interval_def demo_elapsed)
  obtain a where a: "ledger_activity demo_codec ?item = Inr a"
    using demo_activity[OF key ad] by (auto simp: ledger_activity_def done_sel demo_runtime)
  obtain g where g: "ledger_ground_truth demo_env ?item = Inr g"
    using demo_ground_truth[OF key gd] j be
    by (auto simp: ledger_ground_truth_def Let_def demo_calendar demo_live_sel demo_request_def demo_sel)
  obtain p where p: "ledger_projection demo_codec ?item = Inr p"
    using demo_projection[OF key pd] by (auto simp: ledger_projection_def status done_sel demo_runtime)
  have "validate_activity demo_codec a = Inr ()" "validate_ground_truth demo_codec g = Inr ()" "validate_projection demo_codec p = Inr ()"
    using a g p by (auto simp: ledger_activity_def ledger_ground_truth_def ledger_projection_def activity_draft_def ground_truth_draft_def
        projection_draft_def Let_def demo_sel elim!: bindR_InrE dest!: demo_draft_valid)
  then show ?thesis
    using a g p item
    by (simp add: ledger_drafts_def record_visit_def demo_result_sel closed_sel demo_sel done_sel)
qed

lemma done_checks: "check_work_item demo_codec done_work = Inr ()" "check_visit demo_codec (close_visit 640800000000 demo_worked) = Inr ()"
proof -
  show "check_work_item demo_codec done_work = Inr ()"
    using demo_checks(1)
    by (simp add: check_work_item_def done_work_def check_classification_def bindR_check require_text_def is_space_def)
      (simp add: demo_work_def)
  show "check_visit demo_codec (close_visit 640800000000 demo_worked) = Inr ()"
    by (simp add: close_visit_def demo_worked_def demo_visit_def check_visit_def demo_ids require_semantic_id_def require_text_def
        is_space_def require_optional_text_def check_zero_touch_def check_visit_times_def check_visit_microseconds_def
        require_microseconds_def MAX_SQLITE_INTEGER_def)
qed

lemma demo_progress: "write_set demo_env (progress_of demo_result) = Inr (progress_of demo_result)"
proof -
  have "check_consumption \<lparr>mc_team_id = 69, mc_run_id = 42, mc_member_id = 45, mc_business_date = 8, mc_consumed = 3600000000\<rparr> = Inr ()"
    by (simp add: check_consumption_def require_microseconds_def MAX_SQLITE_INTEGER_def)
  then show ?thesis
    by (simp add: write_set_def validate_state_def validate_collections_def progress_of_def demo_result_sel empty_state_def demo_sel
        done_checks validate_uniqueness_def unique_identities_def validate_partial_uniqueness_def require_unique_coordinates_def
        validate_one_team_run_def state_teams_def state_runs_def closed_sel done_sel validate_open_visit_status_def
        validate_sample_links_def dict_of_def)
qed

lemma merged_into_Nil: "distinct (map key xs) \<Longrightarrow> merged key [] xs = xs"
  using merged_disjoint[of key "[]" xs] by simp

lemma demo_merge: "merge_state empty_state (progress_of demo_result) = progress_of demo_result"
  by (simp add: merge_state_def progress_of_def demo_result_sel empty_state_def merged_into_Nil)

lemma validate_drafts_short:
  "length ds = 1 \<Longrightarrow> \<forall>x \<in> set ds. check x = Inr () \<Longrightarrow> validate_drafts check name ds [] = Inr ()"
  by (cases ds) auto

lemmas validate_short = validate_drafts_short[of _ "validate_activity demo_codec"]
  validate_drafts_short[of _ "validate_ground_truth demo_codec"] validate_drafts_short[of _ "validate_projection demo_codec"]

lemma demo_finalized:
  "\<exists>k. finalize_tick demo_env demo_request \<lparr>av_state = demo_live, av_risks = no_records, av_result = demo_result\<rparr> = Inr k \<and>
     au_claims k = [] \<and> length (tc_activity (au_live k)) = 1 \<and> length (tc_ground_truth (au_live k)) = 1 \<and>
     length (tc_projection_intents (au_live k)) = 1 \<and> ra_state (tc_runtime_after (au_live k)) = ''RUNNING'' \<and>
     tc_recorded_at (au_live k) = 640800000000"
proof -
  obtain d where d: "ledger_drafts demo_env demo_live demo_request demo_result = Inr d" "length (ld_activity d) = 1"
     "length (ld_ground_truth d) = 1" "length (ld_intents d) = 1"
     "\<forall>x \<in> set (ld_activity d). validate_activity demo_codec x = Inr ()"
     "\<forall>x \<in> set (ld_ground_truth d). validate_ground_truth demo_codec x = Inr ()"
     "\<forall>x \<in> set (ld_intents d). validate_projection demo_codec x = Inr ()" using demo_ledger by blast
  have q: "demo_request\<lparr>tq_ends_at := 640800000000\<rparr> = demo_request" by (simp add: demo_request_def)
  have n: "\<not> blank ''RUNNING''" by (simp add: blank_def is_space_def)
  define s where "s = \<lparr>tc_commit_id = semantic_uuid demo_codec
             (''scrum-tick/'' @ uuid_text 69 @ ''/'' @ uuid_text 42 @ ''/'' @ int_text 3 @ ''/'' @ en_instant_text demo_env 640800000000),
           tc_team_id = 69, tc_run_id = 42, tc_expected_runtime_version = 3,
           tc_runtime_after = \<lparr>ra_state = ''RUNNING'', ra_simulation_time = 640800000000, ra_next_wake_at = Some 640800000000\<rparr>,
           tc_activity = ld_activity d, tc_ground_truth = ld_ground_truth d,
           tc_projection_intents = ld_intents d, tc_recorded_at = tq_recorded_at demo_request\<rparr>"
  have c: "validate_commit demo_codec s = Inr ()"
    using d n
    by (simp add: validate_short s_def validate_commit_def non_negative_def check_runtime_advance_def non_empty_def)
  have l: "live_slice demo_env demo_live demo_request 640800000000 demo_result = Inr s"
    using c d(1) n
    by (simp add: live_slice_def Let_def demo_runtime q built_Inr check_runtime_advance_def non_empty_def demo_sel s_def built_def)
  have r: "with_risk_ledgers demo_codec s no_records = Inr s"
    using c by (simp add: with_risk_ledgers_def no_records_def built_Inr)
  let ?k = "\<lparr>au_live = s, au_state = progress_of demo_result, au_claims = [], au_natural = []\<rparr>"
  have "validate_state demo_env (progress_of demo_result) = Inr ()" using demo_progress write_set_Inr by blast
  moreover have "validate_coordinates (progress_of demo_result) 69 42 = Inr ()"
    by (simp add: validate_coordinates_def progress_of_def demo_result_sel empty_state_def state_teams_def state_runs_def closed_sel done_sel)
  moreover have "validate_claim_bindings demo_codec (progress_of demo_result) [] [] = Inr ()"
    by (simp add: validate_claim_bindings_def progress_of_def empty_state_def unique_claims_def unique_natural_claims_def dict_of_def
        validate_natural_bindings_def validate_visible_natural_owners_def validate_allocation_ranges_def Let_def)
  ultimately have v: "validate_authoritative demo_env ?k = Inr ()"
    using c by (simp add: validate_authoritative_def demo_sel) (simp add: s_def)
  have "rk_state no_records = empty_state" "rk_claims no_records = []" "rk_natural no_records = []" by (simp_all add: no_records_def)
  then have "finalize_tick demo_env demo_request \<lparr>av_state = demo_live, av_risks = no_records, av_result = demo_result\<rparr> = Inr ?k"
    using v by (simp add: finalize_tick_def demo_result_sel l demo_sel r demo_progress merge_write_sets_def demo_merge built_Inr)
  then show ?thesis using d(2-4) by (auto simp: s_def demo_request_def)
qed

lemma demo_tick_finalizes:
  "calculate_scrum_tick demo_risk_env demo_live demo_request draws =
     finalize_tick demo_env demo_request \<lparr>av_state = demo_live, av_risks = no_records, av_result = demo_result\<rparr>"
proof -
  have "validate_request demo_live demo_request = Inr ()"
    by (simp add: validate_request_def demo_runtime demo_request_def demo_live_sel)
  moreover have "tq_ends_at demo_request = 640800000000" by (simp add: demo_request_def)
  ultimately show ?thesis
    by (simp add: calculate_scrum_tick_def demo_env_sel demo_no_boundary demo_calendar empty_transition_def demo_effective_end demo_loop)
qed

lemma demo_tick: "\<exists>k. calculate_scrum_tick demo_risk_env demo_live demo_request draws = Inr k \<and> length (tc_activity (au_live k)) = 1"
  using demo_finalized by (auto simp: demo_tick_finalizes)

section \<open>Witnesses\<close>


theorem tick_claims_next_witness:
  "\<exists>k. calculate_scrum_tick demo_risk_env demo_live demo_request demo_draw_source = Inr k \<and> distinct (map cl_scope (au_claims k))"
proof -
  obtain k where k: "calculate_scrum_tick demo_risk_env demo_live demo_request demo_draw_source = Inr k" using demo_tick by blast
  have "distinct (map sn_scope (st_counters (lt_scrum demo_live)))" by (simp add: demo_live_sel demo_collections)
  from tick_claims_next[OF k this] show ?thesis using k by blast
qed

theorem tick_command_composes_witness:
  "\<exists>k. finalize_tick demo_env demo_request \<lparr>av_state = demo_live, av_risks = no_records, av_result = demo_result\<rparr> = Inr k \<and>
     merge_state demo_state (au_state k) = merge_state demo_state (progress_of demo_result) \<and>
     rows_of wi_id (st_work_items (merge_state demo_state (au_state k))) 59 = Some done_work"
proof -
  obtain k where k: "finalize_tick demo_env demo_request \<lparr>av_state = demo_live, av_risks = no_records, av_result = demo_result\<rparr> = Inr k"
    using demo_finalized by blast
  have "rows_of wi_id [done_work] (59 :: uuid) = Some done_work" by (simp add: rows_of_def dict_of_def done_sel)
  moreover have "merge_state demo_state (au_state k) = merge_state demo_state (progress_of demo_result) \<and>
      rows_of wi_id (st_work_items (merge_state demo_state (au_state k))) =
        rows_of wi_id (st_work_items demo_state) ++ rows_of wi_id (st_work_items (rk_state no_records)) ++ rows_of wi_id [done_work]"
    using tick_command_composes[OF demo_advance, of demo_request k, unfolded demo_env_sel, OF k]
    unfolding demo_live_sel demo_result_sel RiskAdvance.select_convs by (elim conjE) (intro conjI)
  ultimately have "rows_of wi_id (st_work_items (merge_state demo_state (au_state k))) 59 = Some done_work"
    "merge_state demo_state (au_state k) = merge_state demo_state (progress_of demo_result)"
    by (metis map_add_find_right)+
  then show ?thesis using k by blast
qed

theorem ledger_one_record_witness:
  "\<exists>d. ledger_drafts demo_env demo_live demo_request demo_result = Inr d \<and>
     map dr_semantic_key (ld_intents d) = [ledger_key demo_env demo_live (close_visit 640800000000 demo_worked) 640800000000]"
proof -
  obtain d where d: "ledger_drafts demo_env demo_live demo_request demo_result = Inr d" using demo_ledger by blast
  show ?thesis using ledger_one_record[OF d] d
    by (simp add: demo_result_sel reported_def closed_sel done_sel) (simp add: demo_request_def)
qed

end
