(* ===== verification/Scrum_Rows.thy ===== *)
theory Scrum_Rows
  imports Unit_Of_Work Authoritative_Slice State_Merge "HOL-Library.List_Lexorder" "HOL-Library.Char_ord"
begin

text \<open>
  The stored rows of the Scrum state (\<open>v2/persistence/scrum_state_mapper.py\<close>): loading and checking a snapshot,
  applying after-images, compare-and-swap on the semantic counters, and the evaluations of natural decisions.

  Every table is a list of the records its rows are read back as. A row is found by its primary key; reading a row
  runs the record's checks again. The unique indexes and foreign keys of the tables repeat checks of the snapshot
  and are not modelled beyond the primary keys; neither are the pending changes of the ORM session.
\<close>

section \<open>The data base\<close>

record team_row =
  tr_id :: uuid
  tr_idempotency_key :: string
  tr_blueprint_sha256 :: string
  tr_name :: string
  tr_methodology :: string
  tr_created_at :: instant

record blueprint_row =
  br_id :: uuid
  br_team_id :: uuid
  br_schema_version :: string
  br_canonical_json :: string
  br_sha256 :: string
  br_recorded_at :: instant

record run_row =
  rn_id :: uuid
  rn_team_id :: uuid
  rn_ordinal :: int
  rn_state :: string
  rn_created_at :: instant

record scrum_db =
  db_teams :: "team_row list"
  db_blueprints :: "blueprint_row list"
  db_runs :: "run_row list"
  db_rows :: ScrumCollections
  db_live :: live_db

text \<open>The environment: the domain's parameters, and the typed parsing of a blueprint document (pydantic).\<close>

record store_env =
  se_scrum :: scrum_env
  se_parse :: "string \<Rightarrow> ResolvedTeamBlueprint res"

abbreviation se_codec :: "store_env \<Rightarrow> codec" where
  "se_codec env \<equiv> en_codec (se_scrum env)"

definition ScrumStateConflict :: py_exc where "ScrumStateConflict = Runtime_Error ''ScrumStateConflictError''"
definition CounterClaimStale :: py_exc where "CounterClaimStale = Runtime_Error ''CounterClaimStaleError''"
definition NaturalClaimConflict :: py_exc where "NaturalClaimConflict = Runtime_Error ''NaturalClaimConflictError''"

definition row_at :: "('a \<Rightarrow> 'k) \<Rightarrow> 'a list \<Rightarrow> 'k \<Rightarrow> 'a option" where
  "row_at key rows k = List.find (\<lambda>r. key r = k) rows"

definition write_row :: "('a \<Rightarrow> 'k) \<Rightarrow> 'a \<Rightarrow> 'a list \<Rightarrow> 'a list" where
  "write_row key x rows = map (\<lambda>r. if key r = key x then x else r) rows"

fun counter_kind_value :: "SemanticCounterKind \<Rightarrow> string" where
  "counter_kind_value SPRINT_ORDINAL = ''SPRINT_ORDINAL''"
| "counter_kind_value ITEM_SEQUENCE = ''ITEM_SEQUENCE''"
| "counter_kind_value VISIT_ORDINAL = ''VISIT_ORDINAL''"
| "counter_kind_value NATURAL_DECISION_OCCURRENCE = ''NATURAL_DECISION_OCCURRENCE''"

section \<open>Loading\<close>

text \<open>The order of \<open>LOAD_SPECS\<close>; the text of a UUID orders as its number.\<close>

definition ordered :: "ScrumCollections \<Rightarrow> ScrumCollections" where
  "ordered st =
     \<lparr>st_member_identities = sort_key (\<lambda>m. (mi_blueprint_index m, mi_id m)) (st_member_identities st),
      st_overlays = sort_key (\<lambda>v. (ov_starts_at v, ov_id v)) (st_overlays st),
      st_consumption = sort_key (\<lambda>k. (mc_business_date k, mc_member_id k)) (st_consumption st),
      st_work_items = sort_key (\<lambda>w. (creation_value (wi_creation_kind w), wi_creation_sequence w, wi_id w)) (st_work_items st),
      st_factors = sort_key (\<lambda>f. (fa_work_item_id f, factor_value (fa_kind f), fa_id f)) (st_factors st),
      st_sprints = sort_key (\<lambda>s. (ss_ordinal s, ss_id s)) (st_sprints st),
      st_scope = sort_key (\<lambda>e. (sc_sprint_id e, sc_work_item_id e, sc_id e)) (st_scope st),
      st_visits = sort_key (\<lambda>v. (sv_work_item_id v, sv_ordinal v, sv_id v)) (st_visits st),
      st_samples = sort_key vs_visit_id (st_samples st),
      st_counters = sort_key (\<lambda>k. (counter_kind_value (cs_kind (sn_scope k)), cs_scope_id (sn_scope k), cs_scope_key (sn_scope k)))
        (st_counters st),
      st_evaluations = sort_key (\<lambda>e. (decision_value (ne_decision_type e), ne_semantic_entity_id e, ne_business_date e, ne_id e))
        (st_evaluations st)\<rparr>"

definition of_team_run :: "uuid \<Rightarrow> uuid \<Rightarrow> ScrumCollections \<Rightarrow> ScrumCollections" where
  "of_team_run team run st =
     \<lparr>st_member_identities = filter (\<lambda>m. mi_team_id m = team) (st_member_identities st),
      st_overlays = filter (\<lambda>v. ov_team_id v = team \<and> ov_run_id v = run) (st_overlays st),
      st_consumption = filter (\<lambda>k. mc_team_id k = team \<and> mc_run_id k = run) (st_consumption st),
      st_work_items = filter (\<lambda>w. wi_team_id w = team \<and> wi_run_id w = run) (st_work_items st),
      st_factors = filter (\<lambda>f. fa_team_id f = team \<and> fa_run_id f = run) (st_factors st),
      st_sprints = filter (\<lambda>s. ss_team_id s = team \<and> ss_run_id s = run) (st_sprints st),
      st_scope = filter (\<lambda>e. sc_team_id e = team \<and> sc_run_id e = run) (st_scope st),
      st_visits = filter (\<lambda>v. sv_team_id v = team \<and> sv_run_id v = run) (st_visits st),
      st_samples = filter (\<lambda>s. vs_team_id s = team \<and> vs_run_id s = run) (st_samples st),
      st_counters = filter (\<lambda>k. sn_team_id k = team \<and> sn_run_id k = run) (st_counters st),
      st_evaluations = filter (\<lambda>e. ne_team_id e = team \<and> ne_run_id e = run) (st_evaluations st)\<rparr>"

definition from_canonical_json :: "store_env \<Rightarrow> string \<Rightarrow> ResolvedTeamBlueprint res" where
  "from_canonical_json env document =
     (let c = se_codec env in
      case cd_decode c document of
        None \<Rightarrow> Inl (Value_Error ''blueprint must be valid finite JSON'')
      | Some raw_document \<Rightarrow>
          if cd_encode c raw_document \<noteq> document then Inl (Value_Error ''blueprint JSON is not canonical'')
          else
            (case raw_document of
               JObj fs \<Rightarrow>
                 if ''canonical_document'' \<in> set (map fst fs) then Inl (Value_Error ''blueprint root is invalid'')
                 else
                   bindR (se_parse env (cd_encode c (JObj (fs @ [(''canonical_document'', JStr document)])))) (\<lambda>b.
                   bindR (validate_blueprint b) (\<lambda>_. Inr b))
             | _ \<Rightarrow> Inl (Value_Error ''blueprint root is invalid'')))"

text \<open>\<open>schema_version\<close> of a blueprint is the literal \<open>2.0\<close>.\<close>

definition validated_blueprint :: "store_env \<Rightarrow> team_row \<Rightarrow> blueprint_row \<Rightarrow> ResolvedTeamBlueprint res" where
  "validated_blueprint env team row =
     bindR (from_canonical_json env (br_canonical_json row)) (\<lambda>b.
       case cd_decode (se_codec env) (br_canonical_json row) of
         None \<Rightarrow> Inl (Value_Error ''json'')
       | Some document \<Rightarrow>
           let digest = canonical_sha256 (se_codec env) document in
           bindR (guardR (br_sha256 row = digest \<and> tr_blueprint_sha256 team = digest)
                    (Value_Error ''persisted blueprint digest does not match its canonical document'')) (\<lambda>_.
           bindR (team_rng_id (se_codec env) digest) (\<lambda>expected.
           bindR (guardR (tr_id team = expected \<and> br_schema_version row = ''2.0'')
                    (Value_Error ''persisted team does not match its canonical blueprint'')) (\<lambda>_. Inr b))))"

definition validate_run :: "store_env \<Rightarrow> scrum_db \<Rightarrow> uuid \<Rightarrow> uuid \<Rightarrow> unit res" where
  "validate_run env db team run =
     (case row_at rn_id (db_runs db) run of
        None \<Rightarrow> Inl (Value_Error ''persisted team/run ownership does not match'')
      | Some row \<Rightarrow>
          bindR (guardR (rn_team_id row = team) (Value_Error ''persisted team/run ownership does not match'')) (\<lambda>_.
          bindR (run_rng_id (se_codec env) team (rn_ordinal row)) (\<lambda>expected.
            guardR (rn_id row = expected) (Value_Error ''persisted team/run semantic identity does not match''))))"

definition load_authority :: "store_env \<Rightarrow> scrum_db \<Rightarrow> uuid \<Rightarrow> uuid option \<Rightarrow> ResolvedTeamBlueprint res" where
  "load_authority env db team run =
     (case (row_at tr_id (db_teams db) team, row_at br_team_id (db_blueprints db) team) of
        (Some team_row, Some blueprint_row) \<Rightarrow>
          bindR (validated_blueprint env team_row blueprint_row) (\<lambda>b.
          bindR (case run of None \<Rightarrow> Inr () | Some r \<Rightarrow> validate_run env db team r) (\<lambda>_. Inr b))
      | _ \<Rightarrow> Inl (Value_Error ''persisted team/run blueprint authority is incomplete''))"

text \<open>A loaded state is rebuilt row by row, then as a snapshot, then held against the blueprint.\<close>

definition load_validated_snapshot ::
  "store_env \<Rightarrow> ScrumCollections \<Rightarrow> uuid \<Rightarrow> uuid \<Rightarrow> ResolvedTeamBlueprint \<Rightarrow> ScrumStateSnapshot res" where
  "load_validated_snapshot env rows team run b =
     (let st = ordered (of_team_run team run rows) in
      bindR (validate_collections (se_scrum env) st) (\<lambda>_.
      bindR (snapshot (se_scrum env) st) (\<lambda>s.
      bindR (validate_against (se_scrum env) s b) (\<lambda>_. Inr s))))"

definition load_state :: "store_env \<Rightarrow> scrum_db \<Rightarrow> uuid \<Rightarrow> uuid \<Rightarrow> ScrumStateSnapshot res" where
  "load_state env db team run =
     bindR (load_authority env db team (Some run)) (\<lambda>b. load_validated_snapshot env (db_rows db) team run b)"

definition load_current_snapshot ::
  "store_env \<Rightarrow> ScrumCollections \<Rightarrow> uuid \<Rightarrow> uuid option \<Rightarrow> ResolvedTeamBlueprint \<Rightarrow> ScrumStateSnapshot res" where
  "load_current_snapshot env rows team run b =
     (case run of
        Some r \<Rightarrow> load_validated_snapshot env rows team r b
      | None \<Rightarrow>
          let members = sort_key mi_blueprint_index (filter (\<lambda>m. mi_team_id m = team) (st_member_identities rows)) in
          bindR (forR (check_member_identity (se_codec env)) members) (\<lambda>_.
          bindR (snapshot (se_scrum env) (empty_state\<lparr>st_member_identities := members\<rparr>)) (\<lambda>s.
          bindR (validate_against (se_scrum env) s b) (\<lambda>_. Inr s))))"

section \<open>Candidates\<close>

definition state_coordinates :: "ScrumStateWriteSet \<Rightarrow> (uuid \<times> uuid option) res" where
  "state_coordinates st =
     (case state_teams st of
        [] \<Rightarrow> Inl (Value_Error ''Scrum state write set must not be empty'')
      | team # _ \<Rightarrow> Inr (team, case state_runs st of [] \<Rightarrow> None | run # _ \<Rightarrow> Some run))"

definition merged_snapshot :: "ScrumCollections \<Rightarrow> ScrumCollections \<Rightarrow> ScrumCollections" where
  "merged_snapshot current touched = ordered
     \<lparr>st_member_identities = merged mi_id (st_member_identities current) (st_member_identities touched),
      st_overlays = merged ov_id (st_overlays current) (st_overlays touched),
      st_consumption = merged consumption_identity (st_consumption current) (st_consumption touched),
      st_work_items = merged wi_id (st_work_items current) (st_work_items touched),
      st_factors = merged fa_id (st_factors current) (st_factors touched),
      st_sprints = merged ss_id (st_sprints current) (st_sprints touched),
      st_scope = merged sc_id (st_scope current) (st_scope touched),
      st_visits = merged sv_id (st_visits current) (st_visits touched),
      st_samples = merged vs_visit_id (st_samples current) (st_samples touched),
      st_counters = merged counter_identity (st_counters current) (st_counters touched),
      st_evaluations = merged ne_id (st_evaluations current) (st_evaluations touched)\<rparr>"

definition candidate_snapshot :: "store_env \<Rightarrow> scrum_db \<Rightarrow> ScrumStateWriteSet \<Rightarrow> ScrumStateSnapshot res" where
  "candidate_snapshot env db st =
     bindR (state_coordinates st) (\<lambda>(team, run).
     bindR (load_authority env db team run) (\<lambda>b.
     bindR (load_current_snapshot env (db_rows db) team run b) (\<lambda>current.
     bindR (snapshot (se_scrum env) (merged_snapshot current st)) (\<lambda>candidate.
     bindR (validate_against (se_scrum env) candidate b) (\<lambda>_. Inr candidate)))))"

section \<open>Bootstrap\<close>

definition insert_rows :: "('a \<Rightarrow> 'k) \<Rightarrow> 'a list \<Rightarrow> 'a list \<Rightarrow> 'a list res" where
  "insert_rows key items rows =
     (if distinct (map key items) \<and> (\<forall>x \<in> set items. row_at key rows (key x) = None) then Inr (rows @ items)
      else Inl Integrity_Error)"

definition upsert_visit :: "StatusVisitState \<Rightarrow> StatusVisitState list \<Rightarrow> StatusVisitState list" where
  "upsert_visit v rows = (if row_at sv_id rows (sv_id v) = None then rows @ [v] else write_row sv_id v rows)"

definition add_state :: "store_env \<Rightarrow> scrum_db \<Rightarrow> ScrumStateWriteSet \<Rightarrow> (scrum_db \<times> ScrumStateSnapshot) res" where
  "add_state env db st =
     bindR (validate_state (se_scrum env) st) (\<lambda>_.
     bindR (candidate_snapshot env db st) (\<lambda>candidate.
     let rows = db_rows db in
     bindR (insert_rows mi_id (st_member_identities st) (st_member_identities rows)) (\<lambda>members.
     bindR (insert_rows ov_id (st_overlays st) (st_overlays rows)) (\<lambda>overlays.
     bindR (insert_rows consumption_identity (st_consumption st) (st_consumption rows)) (\<lambda>consumption.
     bindR (insert_rows wi_id (st_work_items st) (st_work_items rows)) (\<lambda>work_items.
     bindR (insert_rows fa_id (st_factors st) (st_factors rows)) (\<lambda>factors.
     bindR (insert_rows ss_id (st_sprints st) (st_sprints rows)) (\<lambda>sprints.
     bindR (insert_rows sc_id (st_scope st) (st_scope rows)) (\<lambda>scope.
     bindR (insert_rows vs_visit_id (st_samples st) (st_samples rows)) (\<lambda>samples.
     bindR (insert_rows counter_identity (st_counters st) (st_counters rows)) (\<lambda>counters.
     bindR (insert_rows ne_id (st_evaluations st) (st_evaluations rows)) (\<lambda>evaluations.
       Inr (db\<lparr>db_rows := \<lparr>st_member_identities = members, st_overlays = overlays, st_consumption = consumption,
              st_work_items = work_items, st_factors = factors, st_sprints = sprints, st_scope = scope,
              st_visits = fold upsert_visit (st_visits st) (st_visits rows), st_samples = samples,
              st_counters = counters, st_evaluations = evaluations\<rparr>\<rparr>, candidate)))))))))))))"

section \<open>After-images\<close>

text \<open>
  \<open>_apply_after_image\<close> by the kind of table: a row with immutable fields is inserted or updated in place, an immutable
  row is inserted or must be the same, a member is never inserted. The flag tells that the row is new.
\<close>

definition after_image :: "('a \<Rightarrow> 'k) \<Rightarrow> ('a \<Rightarrow> 'f) \<Rightarrow> 'a \<Rightarrow> 'a list \<Rightarrow> ('a list \<times> bool) res" where
  "after_image key fixed x rows =
     (case row_at key rows (key x) of
        None \<Rightarrow> Inr (rows @ [x], True)
      | Some old \<Rightarrow> if fixed old \<noteq> fixed x then Inl ScrumStateConflict else Inr (write_row key x rows, False))"

definition immutable_image :: "('a \<Rightarrow> 'k) \<Rightarrow> ('a \<Rightarrow> unit res) \<Rightarrow> 'a \<Rightarrow> 'a list \<Rightarrow> ('a list \<times> bool) res" where
  "immutable_image key check x rows =
     (case row_at key rows (key x) of
        None \<Rightarrow> Inr (rows @ [x], True)
      | Some old \<Rightarrow> bindR (check old) (\<lambda>_. if old \<noteq> x then Inl ScrumStateConflict else Inr (rows, False)))"

definition member_image :: "codec \<Rightarrow> MemberIdentity \<Rightarrow> MemberIdentity list \<Rightarrow> (MemberIdentity list \<times> bool) res" where
  "member_image c x rows =
     (if row_at mi_id rows (mi_id x) = None then Inl ScrumStateConflict
      else immutable_image mi_id (check_member_identity c) x rows)"

definition require_allocation_claim ::
  "SemanticCounterClaim list \<Rightarrow> SemanticCounterScope \<Rightarrow> int \<Rightarrow> unit res" where
  "require_allocation_claim claims scope coordinate =
     (case List.find (\<lambda>k. cl_scope k = scope) claims of
        None \<Rightarrow> Inl CounterClaimStale
      | Some k \<Rightarrow> guardR (cl_expected_next k \<le> coordinate \<and> coordinate < cl_expected_next k + cl_count k) CounterClaimStale)"

fun apply_images ::
  "('a \<Rightarrow> 'a list \<Rightarrow> ('a list \<times> bool) res) \<Rightarrow> ('a \<Rightarrow> unit res) \<Rightarrow> 'a list \<Rightarrow> 'a list \<Rightarrow> ('a list \<times> 'a list) res" where
  "apply_images img require [] rows = Inr (rows, [])"
| "apply_images img require (x # xs) rows =
     bindR (img x rows) (\<lambda>(rows1, new).
     bindR (if new then require x else Inr ()) (\<lambda>_.
     bindR (apply_images img require xs rows1) (\<lambda>(rows2, news). Inr (rows2, if new then x # news else news))))"

definition sprint_scope :: "SprintState \<Rightarrow> SemanticCounterScope" where
  "sprint_scope s = \<lparr>cs_kind = SPRINT_ORDINAL, cs_scope_id = ss_team_id s, cs_scope_key = ''SCRUM''\<rparr>"

definition item_scope :: "WorkItemState \<Rightarrow> SemanticCounterScope" where
  "item_scope w = \<lparr>cs_kind = ITEM_SEQUENCE, cs_scope_id = wi_team_id w, cs_scope_key = creation_value (wi_creation_kind w)\<rparr>"

definition visit_scope :: "StatusVisitState \<Rightarrow> SemanticCounterScope" where
  "visit_scope v = \<lparr>cs_kind = VISIT_ORDINAL, cs_scope_id = sv_work_item_id v, cs_scope_key = ''VISIT''\<rparr>"

definition free_row :: "'a \<Rightarrow> unit res" where "free_row x = Inr ()"

definition owner_counter_scopes :: "uuid list \<Rightarrow> SemanticCounterScope list" where
  "owner_counter_scopes work_items =
     concat (map (\<lambda>owner.
       [\<lparr>cs_kind = VISIT_ORDINAL, cs_scope_id = owner, cs_scope_key = ''VISIT''\<rparr>,
        \<lparr>cs_kind = NATURAL_DECISION_OCCURRENCE, cs_scope_id = owner, cs_scope_key = decision_value RISK_CANCELLATION_OUTCOME\<rparr>])
       (sort work_items))"

definition seed_owner_counters :: "uuid \<Rightarrow> uuid \<Rightarrow> uuid list \<Rightarrow> SemanticCounter list \<Rightarrow> SemanticCounter list res" where
  "seed_owner_counters team run work_items rows =
     insert_rows counter_identity
       (map (\<lambda>scope. \<lparr>sn_team_id = team, sn_run_id = run, sn_scope = scope, sn_next_value = 0\<rparr>) (owner_counter_scopes work_items))
       rows"

text \<open>\<open>IMMUTABLE_AFTER_IMAGE_FIELDS\<close>: the fields an update must keep.\<close>

definition overlay_fixed :: "MemberAvailabilityOverlay \<Rightarrow> uuid \<times> uuid \<times> uuid \<times> uuid" where
  "overlay_fixed v = (ov_id v, ov_team_id v, ov_run_id v, ov_member_id v)"

definition item_fixed :: "WorkItemState \<Rightarrow> uuid \<times> uuid \<times> uuid \<times> CreationKind \<times> int \<times> instant" where
  "item_fixed w = (wi_id w, wi_team_id w, wi_run_id w, wi_creation_kind w, wi_creation_sequence w, wi_created_at w)"

definition sprint_fixed :: "SprintState \<Rightarrow> uuid \<times> uuid \<times> uuid \<times> int \<times> instant \<times> instant \<times> instant" where
  "sprint_fixed s = (ss_id s, ss_team_id s, ss_run_id s, ss_ordinal s, ss_planned_start_at s, ss_planned_end_at s, ss_created_at s)"

definition scope_fixed :: "SprintScopeEntry \<Rightarrow> uuid \<times> uuid \<times> uuid \<times> uuid \<times> uuid \<times> instant" where
  "scope_fixed e = (sc_id e, sc_team_id e, sc_run_id e, sc_sprint_id e, sc_work_item_id e, sc_added_at e)"

definition visit_fixed ::
  "StatusVisitState \<Rightarrow> uuid \<times> uuid \<times> uuid \<times> uuid \<times> int \<times> string \<times> string option \<times> instant" where
  "visit_fixed v = (sv_id v, sv_team_id v, sv_run_id v, sv_work_item_id v, sv_ordinal v, sv_status_key v,
     sv_activity_key v, sv_entered_at v)"

abbreviation overlay_image :: "MemberAvailabilityOverlay \<Rightarrow> MemberAvailabilityOverlay list \<Rightarrow> (MemberAvailabilityOverlay list \<times> bool) res" where
  "overlay_image \<equiv> after_image ov_id overlay_fixed"

abbreviation consumption_image ::
  "MemberBusinessDateConsumption \<Rightarrow> MemberBusinessDateConsumption list \<Rightarrow> (MemberBusinessDateConsumption list \<times> bool) res" where
  "consumption_image \<equiv> after_image consumption_identity consumption_identity"

abbreviation item_image :: "WorkItemState \<Rightarrow> WorkItemState list \<Rightarrow> (WorkItemState list \<times> bool) res" where
  "item_image \<equiv> after_image wi_id item_fixed"

abbreviation factor_image :: "codec \<Rightarrow> WorkItemFactor \<Rightarrow> WorkItemFactor list \<Rightarrow> (WorkItemFactor list \<times> bool) res" where
  "factor_image c \<equiv> immutable_image fa_id (check_factor c)"

abbreviation sprint_image :: "SprintState \<Rightarrow> SprintState list \<Rightarrow> (SprintState list \<times> bool) res" where
  "sprint_image \<equiv> after_image ss_id sprint_fixed"

abbreviation scope_image :: "SprintScopeEntry \<Rightarrow> SprintScopeEntry list \<Rightarrow> (SprintScopeEntry list \<times> bool) res" where
  "scope_image \<equiv> after_image sc_id scope_fixed"

abbreviation visit_image :: "StatusVisitState \<Rightarrow> StatusVisitState list \<Rightarrow> (StatusVisitState list \<times> bool) res" where
  "visit_image \<equiv> after_image sv_id visit_fixed"

abbreviation sample_image :: "scrum_env \<Rightarrow> StatusVisitSample \<Rightarrow> StatusVisitSample list \<Rightarrow> (StatusVisitSample list \<times> bool) res" where
  "sample_image env \<equiv> immutable_image vs_visit_id (check_sample env)"

text \<open>The nine collections of \<open>LOAD_SPECS[:9]\<close>, in order.\<close>

definition apply_after_images ::
  "store_env \<Rightarrow> scrum_db \<Rightarrow> AuthoritativeTickSliceCommit \<Rightarrow> (ScrumCollections \<times> SemanticCounterScope set) res" where
  "apply_after_images env db k =
     (let st = au_state k; rows = db_rows db; c = se_codec env; claims = au_claims k in
      bindR (validate_state (se_scrum env) st) (\<lambda>_.
      bindR (guardR (st_counters st = [] \<and> st_evaluations st = [])
               (Value_Error ''counter and evaluation rows must be applied through claims'')) (\<lambda>_.
      bindR (candidate_snapshot env db st) (\<lambda>candidate.
      bindR (apply_images (member_image c) free_row (st_member_identities st) (st_member_identities rows)) (\<lambda>(members, _).
      bindR (apply_images overlay_image free_row (st_overlays st) (st_overlays rows)) (\<lambda>(overlays, _).
      bindR (apply_images consumption_image free_row (st_consumption st) (st_consumption rows)) (\<lambda>(consumption, _).
      bindR (apply_images item_image (\<lambda>w. require_allocation_claim claims (item_scope w) (wi_creation_sequence w))
               (st_work_items st) (st_work_items rows)) (\<lambda>(work_items, new_items).
      bindR (apply_images (factor_image c) free_row (st_factors st) (st_factors rows)) (\<lambda>(factors, _).
      bindR (apply_images sprint_image (\<lambda>s. require_allocation_claim claims (sprint_scope s) (ss_ordinal s))
               (st_sprints st) (st_sprints rows)) (\<lambda>(sprints, new_sprints).
      bindR (apply_images scope_image free_row (st_scope st) (st_scope rows)) (\<lambda>(scope, _).
      bindR (apply_images visit_image (\<lambda>v. require_allocation_claim claims (visit_scope v) (sv_ordinal v))
               (st_visits st) (st_visits rows)) (\<lambda>(visits, new_visits).
      bindR (apply_images (sample_image (se_scrum env)) free_row (st_samples st) (st_samples rows)) (\<lambda>(samples, _).
      bindR (seed_owner_counters (tc_team_id (au_live k)) (tc_run_id (au_live k)) (map wi_id new_items)
               (st_counters rows)) (\<lambda>counters.
        Inr (\<lparr>st_member_identities = members, st_overlays = overlays, st_consumption = consumption,
              st_work_items = work_items, st_factors = factors, st_sprints = sprints, st_scope = scope,
              st_visits = visits, st_samples = samples, st_counters = counters,
              st_evaluations = st_evaluations rows\<rparr>,
             set (map item_scope new_items @ map sprint_scope new_sprints @ map visit_scope new_visits))))))))))))))))"

section \<open>Counters and natural decisions\<close>

abbreviation claim_identity :: "TickSliceCommit \<Rightarrow> SemanticCounterClaim \<Rightarrow> uuid \<times> uuid \<times> SemanticCounterScope" where
  "claim_identity live k \<equiv> (tc_team_id live, tc_run_id live, cl_scope k)"

definition load_counter ::
  "TickSliceCommit \<Rightarrow> SemanticCounterClaim \<Rightarrow> SemanticCounter list \<Rightarrow> SemanticCounter option res" where
  "load_counter live k rows =
     (case row_at counter_identity rows (claim_identity live k) of
        None \<Rightarrow> Inr None
      | Some counter \<Rightarrow> bindR (check_counter counter) (\<lambda>_. Inr (Some counter)))"

definition claim_is_advanced :: "SemanticCounter option \<Rightarrow> SemanticCounterClaim \<Rightarrow> bool" where
  "claim_is_advanced counter k =
     (case counter of None \<Rightarrow> False | Some n \<Rightarrow> cl_expected_next k + cl_count k \<le> sn_next_value n)"

definition allocation_claims :: "SemanticCounterClaim list \<Rightarrow> SemanticCounterClaim list" where
  "allocation_claims claims = filter (\<lambda>k. cs_kind (cl_scope k) \<noteq> NATURAL_DECISION_OCCURRENCE) claims"

fun contains_advanced_claim ::
  "TickSliceCommit \<Rightarrow> SemanticCounter list \<Rightarrow> SemanticCounterClaim list \<Rightarrow> bool res" where
  "contains_advanced_claim live rows [] = Inr False"
| "contains_advanced_claim live rows (k # ks) =
     bindR (load_counter live k rows) (\<lambda>counter.
       if claim_is_advanced counter k then Inr True else contains_advanced_claim live rows ks)"

definition require_allocation_replay ::
  "TickSliceCommit \<Rightarrow> SemanticCounter list \<Rightarrow> SemanticCounterClaim list \<Rightarrow> unit res" where
  "require_allocation_replay live rows claims =
     forR (\<lambda>k. bindR (load_counter live k rows) (\<lambda>counter.
             guardR (claim_is_advanced counter k) CounterClaimStale)) claims"

definition replayed_rows :: "('a \<Rightarrow> 'k) \<Rightarrow> ('a \<Rightarrow> unit res) \<Rightarrow> 'a list \<Rightarrow> 'a list \<Rightarrow> unit res" where
  "replayed_rows key check items rows =
     forR (\<lambda>x. case row_at key rows (key x) of
             None \<Rightarrow> Inl CounterClaimStale
           | Some old \<Rightarrow> bindR (check old) (\<lambda>_. guardR (old = x) ScrumStateConflict)) items"

definition require_replayed_after_images :: "store_env \<Rightarrow> ScrumCollections \<Rightarrow> ScrumStateWriteSet \<Rightarrow> unit res" where
  "require_replayed_after_images env rows st =
     (let c = se_codec env in
      bindR (replayed_rows mi_id (check_member_identity c) (st_member_identities st) (st_member_identities rows)) (\<lambda>_.
      bindR (replayed_rows ov_id (check_overlay c) (st_overlays st) (st_overlays rows)) (\<lambda>_.
      bindR (replayed_rows consumption_identity check_consumption (st_consumption st) (st_consumption rows)) (\<lambda>_.
      bindR (replayed_rows wi_id (check_work_item c) (st_work_items st) (st_work_items rows)) (\<lambda>_.
      bindR (replayed_rows fa_id (check_factor c) (st_factors st) (st_factors rows)) (\<lambda>_.
      bindR (replayed_rows ss_id (check_sprint c) (st_sprints st) (st_sprints rows)) (\<lambda>_.
      bindR (replayed_rows sc_id (check_scope_entry c) (st_scope st) (st_scope rows)) (\<lambda>_.
      bindR (replayed_rows sv_id (check_visit c) (st_visits st) (st_visits rows)) (\<lambda>_.
        replayed_rows vs_visit_id (check_sample (se_scrum env)) (st_samples st) (st_samples rows))))))))))"

definition mapped_evaluation ::
  "scrum_env \<Rightarrow> NaturalDecisionEvaluation option \<Rightarrow> NaturalDecisionEvaluation option res" where
  "mapped_evaluation env row =
     (case row of
        None \<Rightarrow> Inr None
      | Some e \<Rightarrow> (case check_evaluation (en_codec env) (en_date_text env) e of
                   Inl _ \<Rightarrow> Inl NaturalClaimConflict | Inr _ \<Rightarrow> Inr (Some e)))"

definition natural_row_of :: "TickSliceCommit \<Rightarrow> EligibleNaturalDecisionClaim \<Rightarrow> NaturalDecisionEvaluation \<Rightarrow> bool" where
  "natural_row_of live claim e \<longleftrightarrow>
     ne_team_id e = tc_team_id live \<and> ne_run_id e = tc_run_id live \<and>
     ne_decision_type e = do_decision_type (nc_decision claim) \<and> ne_semantic_entity_id e = do_entity_id (nc_decision claim)"

definition natural_rows ::
  "scrum_env \<Rightarrow> TickSliceCommit \<Rightarrow> NaturalDecisionEvaluation list \<Rightarrow> EligibleNaturalDecisionClaim \<Rightarrow>
   (NaturalDecisionEvaluation option \<times> NaturalDecisionEvaluation option) res" where
  "natural_rows env live rows claim =
     (let base = filter (natural_row_of live claim) rows in
      bindR (mapped_evaluation env (List.find (\<lambda>e. ne_business_date e = nc_business_date claim) base)) (\<lambda>eligibility.
      bindR (mapped_evaluation env (List.find (\<lambda>e. ne_occurrence e = do_occurrence (nc_decision claim)) base)) (\<lambda>occurrence.
        Inr (eligibility, occurrence))))"

definition require_replayed_natural_claims ::
  "scrum_env \<Rightarrow> TickSliceCommit \<Rightarrow> NaturalDecisionEvaluation list \<Rightarrow> EligibleNaturalDecisionClaim list \<Rightarrow> unit res" where
  "require_replayed_natural_claims env live rows claims =
     forR (\<lambda>claim. bindR (natural_rows env live rows claim) (\<lambda>(eligibility, occurrence).
             guardR (\<not> (eligibility = None \<or> occurrence = None)) CounterClaimStale)) claims"

definition preflight_replay :: "store_env \<Rightarrow> ScrumCollections \<Rightarrow> AuthoritativeTickSliceCommit \<Rightarrow> bool res" where
  "preflight_replay env rows k =
     (let claims = allocation_claims (au_claims k) in
      bindR (contains_advanced_claim (au_live k) (st_counters rows) claims) (\<lambda>advanced.
        if \<not> advanced then Inr False
        else
          bindR (require_allocation_replay (au_live k) (st_counters rows) claims) (\<lambda>_.
          bindR (require_replayed_after_images env rows (au_state k)) (\<lambda>_.
          bindR (require_replayed_natural_claims (se_scrum env) (au_live k) (st_evaluations rows) (au_natural k)) (\<lambda>_.
            Inr True)))))"

definition preflight_natural_claims ::
  "scrum_env \<Rightarrow> TickSliceCommit \<Rightarrow> NaturalDecisionEvaluation list \<Rightarrow> EligibleNaturalDecisionClaim list \<Rightarrow> unit res" where
  "preflight_natural_claims env live rows claims =
     forR (\<lambda>claim. bindR (natural_rows env live rows claim) (\<lambda>(eligibility, occurrence).
             bindR (guardR (case eligibility of None \<Rightarrow> True | Some e \<Rightarrow> ne_occurrence e = do_occurrence (nc_decision claim))
                      NaturalClaimConflict) (\<lambda>_.
               guardR (case occurrence of None \<Rightarrow> True | Some e \<Rightarrow> ne_business_date e = nc_business_date claim)
                 NaturalClaimConflict))) claims"

definition natural_replay ::
  "scrum_env \<Rightarrow> TickSliceCommit \<Rightarrow> NaturalDecisionEvaluation list \<Rightarrow> EligibleNaturalDecisionClaim list \<Rightarrow>
   SemanticCounterClaim \<Rightarrow> bool res" where
  "natural_replay env live evaluations natural k =
     (if cs_kind (cl_scope k) \<noteq> NATURAL_DECISION_OCCURRENCE then Inr False
      else bindR (find_or_stop (\<lambda>item. natural_scope item = cl_scope k) natural) (\<lambda>claim.
           bindR (natural_rows env live evaluations claim) (\<lambda>(eligibility, _). Inr (eligibility \<noteq> None))))"

definition require_advanced_counter :: "SemanticCounter option \<Rightarrow> SemanticCounterClaim \<Rightarrow> bool \<Rightarrow> SemanticCounter res" where
  "require_advanced_counter counter k newly_inserted =
     (case counter of
        None \<Rightarrow> Inl CounterClaimStale
      | Some n \<Rightarrow> if newly_inserted \<or> sn_next_value n < cl_expected_next k + cl_count k then Inl CounterClaimStale else Inr n)"

definition require_counter ::
  "TickSliceCommit \<Rightarrow> SemanticCounterClaim \<Rightarrow> SemanticCounter list \<Rightarrow> SemanticCounter res" where
  "require_counter live k rows =
     bindR (load_counter live k rows) (\<lambda>counter. case counter of None \<Rightarrow> Inl CounterClaimStale | Some n \<Rightarrow> Inr n)"

text \<open>The compare-and-swap: the row of the scope is updated where it still holds the expected value.\<close>

definition swap_matches :: "TickSliceCommit \<Rightarrow> SemanticCounterClaim \<Rightarrow> SemanticCounter \<Rightarrow> bool" where
  "swap_matches live k n \<longleftrightarrow> counter_identity n = claim_identity live k \<and> sn_next_value n = cl_expected_next k"

definition advance_counter_row ::
  "TickSliceCommit \<Rightarrow> SemanticCounterClaim \<Rightarrow> SemanticCounter list \<Rightarrow> SemanticCounter list \<times> nat" where
  "advance_counter_row live k rows =
     (map (\<lambda>n. if swap_matches live k n then n\<lparr>sn_next_value := cl_expected_next k + cl_count k\<rparr> else n) rows,
      length (filter (swap_matches live k) rows))"

definition apply_counter_claim ::
  "scrum_env \<Rightarrow> TickSliceCommit \<Rightarrow> NaturalDecisionEvaluation list \<Rightarrow> EligibleNaturalDecisionClaim list \<Rightarrow>
   SemanticCounterScope set \<Rightarrow> SemanticCounterClaim \<Rightarrow> SemanticCounter list \<Rightarrow> (SemanticCounter list \<times> SemanticCounter) res" where
  "apply_counter_claim env live evaluations natural new_scopes k rows =
     bindR (load_counter live k rows) (\<lambda>current.
     bindR (natural_replay env live evaluations natural k) (\<lambda>replay.
       if replay then bindR (require_advanced_counter current k False) (\<lambda>n. Inr (rows, n))
       else
         (let (rows1, rowcount) = advance_counter_row live k rows in
          if rowcount = 1 then bindR (require_counter live k rows1) (\<lambda>n. Inr (rows1, n))
          else
            bindR (require_counter live k rows1) (\<lambda>n.
              if cs_kind (cl_scope k) \<noteq> NATURAL_DECISION_OCCURRENCE
              then bindR (require_advanced_counter (Some n) k (cl_scope k \<in> new_scopes)) (\<lambda>n. Inr (rows1, n))
              else Inl CounterClaimStale))))"

definition ordered_claims :: "SemanticCounterClaim list \<Rightarrow> SemanticCounterClaim list" where
  "ordered_claims claims =
     sort_key (\<lambda>k. (counter_kind_value (cs_kind (cl_scope k)), cs_scope_id (cl_scope k), cs_scope_key (cl_scope k))) claims"

fun apply_claims ::
  "(SemanticCounterClaim \<Rightarrow> SemanticCounter list \<Rightarrow> (SemanticCounter list \<times> SemanticCounter) res) \<Rightarrow>
   SemanticCounterClaim list \<Rightarrow> SemanticCounter list \<Rightarrow> (SemanticCounter list \<times> SemanticCounter list) res" where
  "apply_claims step [] rows = Inr (rows, [])"
| "apply_claims step (k # ks) rows =
     bindR (step k rows) (\<lambda>(rows1, n).
     bindR (apply_claims step ks rows1) (\<lambda>(rows2, ns). Inr (rows2, n # ns)))"

definition apply_counter_claims ::
  "store_env \<Rightarrow> AuthoritativeTickSliceCommit \<Rightarrow> SemanticCounterScope set \<Rightarrow> ScrumCollections \<Rightarrow>
   (SemanticCounter list \<times> SemanticCounter list) res" where
  "apply_counter_claims env k new_scopes rows =
     bindR (preflight_natural_claims (se_scrum env) (au_live k) (st_evaluations rows) (au_natural k)) (\<lambda>_.
       apply_claims (apply_counter_claim (se_scrum env) (au_live k) (st_evaluations rows) (au_natural k) new_scopes)
         (ordered_claims (au_claims k)) (st_counters rows))"

definition evaluation_from_claim ::
  "scrum_env \<Rightarrow> TickSliceCommit \<Rightarrow> EligibleNaturalDecisionClaim \<Rightarrow> NaturalDecisionEvaluation res" where
  "evaluation_from_claim env live claim =
     (let d = nc_decision claim;
          e = \<lparr>ne_id = 0, ne_team_id = tc_team_id live, ne_run_id = tc_run_id live, ne_decision_type = do_decision_type d,
               ne_semantic_entity_id = do_entity_id d, ne_business_date = nc_business_date claim,
               ne_occurrence = do_occurrence d, ne_commit_id = tc_commit_id live, ne_recorded_at = tc_recorded_at live\<rparr>;
          e' = e\<lparr>ne_id := semantic_uuid (en_codec env) (evaluation_path (en_date_text env) e)\<rparr>
      in bindR (check_evaluation (en_codec env) (en_date_text env) e') (\<lambda>_. Inr e'))"

definition resolve_natural_claim ::
  "scrum_env \<Rightarrow> TickSliceCommit \<Rightarrow> EligibleNaturalDecisionClaim \<Rightarrow> NaturalDecisionEvaluation list \<Rightarrow>
   (NaturalDecisionEvaluation list \<times> NaturalDecisionEvaluation) res" where
  "resolve_natural_claim env live claim rows =
     bindR (natural_rows env live rows claim) (\<lambda>(eligibility, occurrence).
       case eligibility of
         Some e \<Rightarrow> if ne_occurrence e \<noteq> do_occurrence (nc_decision claim) then Inl NaturalClaimConflict else Inr (rows, e)
       | None \<Rightarrow>
           if occurrence \<noteq> None then Inl NaturalClaimConflict
           else bindR (evaluation_from_claim env live claim) (\<lambda>e.
                  if row_at ne_id rows (ne_id e) \<noteq> None then Inl NaturalClaimConflict else Inr (rows @ [e], e)))"

definition ordered_natural_claims :: "EligibleNaturalDecisionClaim list \<Rightarrow> EligibleNaturalDecisionClaim list" where
  "ordered_natural_claims claims =
     sort_key (\<lambda>k. (decision_value (do_decision_type (nc_decision k)), do_entity_id (nc_decision k), nc_business_date k)) claims"

fun resolve_natural_claims ::
  "scrum_env \<Rightarrow> TickSliceCommit \<Rightarrow> EligibleNaturalDecisionClaim list \<Rightarrow> NaturalDecisionEvaluation list \<Rightarrow>
   (NaturalDecisionEvaluation list \<times> NaturalDecisionEvaluation list) res" where
  "resolve_natural_claims env live [] rows = Inr (rows, [])"
| "resolve_natural_claims env live (k # ks) rows =
     bindR (resolve_natural_claim env live k rows) (\<lambda>(rows1, e).
     bindR (resolve_natural_claims env live ks rows1) (\<lambda>(rows2, es). Inr (rows2, e # es)))"

section \<open>The transaction\<close>

text \<open>\<open>commit_authoritative_slice\<close> of \<open>v2/persistence/unit_of_work.py\<close>: one transaction, so an exception leaves the
  data base as it was.\<close>

definition StaleSemanticCounter :: py_exc where "StaleSemanticCounter = Runtime_Error ''StaleSemanticCounter''"
definition NaturalEligibilityConflict :: py_exc where "NaturalEligibilityConflict = Runtime_Error ''NaturalEligibilityConflict''"

definition raise_authoritative_error :: "py_exc \<Rightarrow> py_exc" where
  "raise_authoritative_error e =
     (if e = CounterClaimStale then StaleSemanticCounter
      else if e = NaturalClaimConflict then NaturalEligibilityConflict
      else if e = ScrumStateConflict then SemanticDeduplicationConflict
      else e)"

definition replayed_ledger :: "('d draft \<Rightarrow> unit res) \<Rightarrow> TickSliceCommit \<Rightarrow> 'd draft list \<Rightarrow> 'd ledger \<Rightarrow> unit res" where
  "replayed_ledger check live drafts l =
     forR (\<lambda>d. case by_key l (dr_semantic_key d) of
             None \<Rightarrow> Inl CounterClaimStale
           | Some row \<Rightarrow> bindR (check (st_draft row)) (\<lambda>_. require_identical live d row)) drafts"

definition require_replayed_ledgers :: "codec \<Rightarrow> TickSliceCommit \<Rightarrow> live_db \<Rightarrow> unit res" where
  "require_replayed_ledgers c live db =
     bindR (replayed_ledger (validate_activity c) live (tc_activity live) (ld_activity db)) (\<lambda>_.
     bindR (replayed_ledger (validate_ground_truth c) live (tc_ground_truth live) (ld_ground_truth db)) (\<lambda>_.
       replayed_ledger (validate_projection c) live (tc_projection_intents live) (ld_projection db)))"

definition commit_authoritative_in_session ::
  "store_env \<Rightarrow> AuthoritativeTickSliceCommit \<Rightarrow> scrum_db \<Rightarrow> (scrum_db \<times> CommittedAuthoritativeTickSlice) res" where
  "commit_authoritative_in_session env k db =
     (let live = au_live k in
      bindR (advance_runtime live (ld_runtimes (db_live db))) (\<lambda>(runtimes, runtime).
      bindR (preflight_replay env (db_rows db) k) (\<lambda>replay.
      bindR (if replay then require_replayed_ledgers (se_codec env) live (db_live db) else Inr ()) (\<lambda>_.
      bindR (if au_state k \<noteq> empty_state then apply_after_images env db k else Inr (db_rows db, {})) (\<lambda>(rows, new_scopes).
      bindR (apply_counter_claims env k new_scopes rows) (\<lambda>(counter_rows, counters).
      bindR (resolve_natural_claims (se_scrum env) live (ordered_natural_claims (au_natural k)) (st_evaluations rows))
        (\<lambda>(evaluation_rows, evaluations).
      let db1 = db\<lparr>db_rows := rows\<lparr>st_counters := counter_rows, st_evaluations := evaluation_rows\<rparr>\<rparr> in
      bindR (load_state env db1 (tc_team_id live) (tc_run_id live)) (\<lambda>state.
      bindR (persist_ledgers (se_codec env) live runtime ((db_live db)\<lparr>ld_runtimes := runtimes\<rparr>)) (\<lambda>(live_rows, committed).
      let s = \<lparr>ca_live = committed, ca_state = state, ca_counters = counters, ca_evaluations = evaluations\<rparr> in
      bindR (validate_committed (se_scrum env) s) (\<lambda>_.
        Inr (db1\<lparr>db_live := live_rows\<rparr>, s)))))))))))"

definition commit_authoritative_slice ::
  "store_env \<Rightarrow> AuthoritativeTickSliceCommit \<Rightarrow> scrum_db \<Rightarrow> (scrum_db \<times> CommittedAuthoritativeTickSlice) res" where
  "commit_authoritative_slice env k db =
     bindR (validate_authoritative (se_scrum env) k) (\<lambda>_.
       case commit_authoritative_in_session env k db of
         Inl e \<Rightarrow> Inl (raise_authoritative_error e)
       | Inr result \<Rightarrow> Inr result)"

end
