(* ===== verification/Scrum_Store.thy ===== *)
theory Scrum_Store
  imports Scrum_Rows Tick_Outcomes
begin

text \<open>
  What a committed command does to the stored Scrum state: the after-images are laid over the stored rows, the
  counters move by their claims alone, a new row takes a coordinate that no row had, and a replayed command
  changes nothing but the runtime row.
\<close>

section \<open>Tables as maps\<close>

lemma row_at_None: "row_at key rows k = None \<longleftrightarrow> k \<notin> key ` set rows"
  by (auto simp: row_at_def find_None_iff)

lemma row_at_Some: "row_at key rows k = Some x \<Longrightarrow> x \<in> set rows \<and> key x = k"
  by (auto simp: row_at_def dest: find_SomeD)

lemma row_at_iff: "distinct (map key rows) \<Longrightarrow> row_at key rows k = Some x \<longleftrightarrow> x \<in> set rows \<and> key x = k"
proof
  assume d: "distinct (map key rows)" and x: "x \<in> set rows \<and> key x = k"
  then have "row_at key rows k \<noteq> None" by (auto simp: row_at_None)
  then obtain y where y: "row_at key rows k = Some y" by blast
  then have "y = x" using row_at_Some[OF y] x distinct_map_eq[OF d, of y x] by simp
  then show "row_at key rows k = Some x" using y by simp
qed (rule row_at_Some)

lemma option_eqI: "(\<And>x. a = Some x \<longleftrightarrow> b = Some x) \<Longrightarrow> a = b"
  by (cases a) (auto, metis not_Some_eq)

lemma rows_of_iff: "distinct (map key rows) \<Longrightarrow> rows_of key rows k = Some x \<longleftrightarrow> x \<in> set rows \<and> key x = k"
  by (simp add: rows_of_def dict_of_distinct)

lemma rows_of_row_at: "distinct (map key rows) \<Longrightarrow> rows_of key rows = row_at key rows"
  by (intro ext option_eqI) (simp add: row_at_iff rows_of_iff)

lemma rows_of_None: "rows_of key rows k = None \<longleftrightarrow> k \<notin> key ` set rows"
  by (simp add: rows_of_def dict_of_None)

lemma rows_of_Nil [simp]: "rows_of key [] = Map.empty"
  by (simp add: rows_of_def dict_of_def)

lemma rows_of_singleton [simp]: "rows_of key [x] = [key x \<mapsto> x]"
  by (rule ext) (simp add: rows_of_def dict_of_def)

lemma rows_of_same_set:
  assumes "distinct (map key xs)" and "distinct (map key ys)" and "set xs = set ys"
  shows "rows_of key xs = rows_of key ys"
  using assms by (intro ext option_eqI) (simp add: rows_of_iff)

lemma write_row_keys [simp]: "map key (write_row key x rows) = map key rows"
  by (simp add: write_row_def)

lemma rows_of_write_row:
  assumes "distinct (map key rows)" and "row_at key rows (key x) \<noteq> None"
  shows "rows_of key (write_row key x rows) = (rows_of key rows)(key x \<mapsto> x)"
proof
  fix k
  have d: "distinct (map key (write_row key x rows))" using assms(1) by simp
  have "y \<in> set (write_row key x rows) \<and> key y = k \<longleftrightarrow> (if k = key x then y = x else y \<in> set rows \<and> key y = k)" for y
    using assms(2) by (auto simp: write_row_def row_at_None)
  then show "rows_of key (write_row key x rows) k = ((rows_of key rows)(key x \<mapsto> x)) k"
    by (intro option_eqI) (simp add: rows_of_iff[OF d] rows_of_iff[OF assms(1)] eq_commute[of x])
qed

lemma write_row_same:
  assumes "row_at key rows (key x) = Some x" and "distinct (map key rows)"
  shows "write_row key x rows = rows"
proof -
  have "r = x" if "r \<in> set rows" "key r = key x" for r
    using that row_at_Some[OF assms(1)] distinct_map_eq[OF assms(2)] by simp
  then show ?thesis unfolding write_row_def by (intro map_idI) auto
qed

lemma rows_of_filter:
  assumes "distinct (map key rows)"
  shows "rows_of key (filter P rows) k = (case rows_of key rows k of Some x \<Rightarrow> if P x then Some x else None | None \<Rightarrow> None)"
proof -
  have d: "distinct (map key (filter P rows))" by (rule distinct_map_filter_key[OF assms])
  show ?thesis
  proof (cases "rows_of key rows k")
    case None
    then have "rows_of key (filter P rows) k = None" unfolding rows_of_None by auto
    then show ?thesis using None by simp
  next
    case (Some x)
    then have x: "x \<in> set rows" "key x = k" using rows_of_iff[OF assms] by simp_all
    show ?thesis
    proof (cases "P x")
      case True
      then show ?thesis using Some x rows_of_iff[OF d, of k x] by simp
    next
      case False
      then have "k \<notin> key ` set (filter P rows)" using x distinct_map_eq[OF assms] by auto
      then show ?thesis using Some False by (simp add: rows_of_None[THEN iffD2])
    qed
  qed
qed

lemma rows_of_loaded:
  assumes "distinct (map key rows)"
  shows "rows_of key (sort_key f (filter P rows)) = rows_of key (filter P rows)"
proof (rule rows_of_same_set)
  have d: "distinct (map key (filter P rows))" by (rule distinct_map_filter_key[OF assms])
  then show "distinct (map key (filter P rows))" .
  have "mset (map key (sort_key f (filter P rows))) = mset (map key (filter P rows))" by simp
  then show "distinct (map key (sort_key f (filter P rows)))" using d mset_eq_imp_distinct_iff by blast
qed simp

text \<open>Rows that all belong to the team and run that is loaded are seen through the filter.\<close>

lemma rows_of_overlay_filter:
  assumes "distinct (map key rows)" and "distinct (map key rows')" and "rows_of key rows' = rows_of key rows ++ rows_of key xs"
    and "\<forall>x \<in> set xs. P x"
  shows "rows_of key (filter P rows') = rows_of key (filter P rows) ++ rows_of key xs"
proof
  fix k
  have x: "P x" if "rows_of key xs k = Some x" for x
    using that assms(4) set_dict_of[of key xs k x] by (auto simp: rows_of_def)
  show "rows_of key (filter P rows') k = (rows_of key (filter P rows) ++ rows_of key xs) k"
    using x by (simp add: rows_of_filter[OF assms(1)] rows_of_filter[OF assms(2)] assms(3) map_add_def split: option.split)
qed

section \<open>After-images\<close>

text \<open>
  The contract of one after-image: the row is written under its key and no other row changes, the flag tells
  whether it was missing, and writing what is already there changes nothing.
\<close>

locale row_image =
  fixes key :: "'a \<Rightarrow> 'k" and img :: "'a \<Rightarrow> 'a list \<Rightarrow> ('a list \<times> bool) res"
  assumes writes: "img x rows = Inr (rows', new) \<Longrightarrow> distinct (map key rows) \<Longrightarrow>
      distinct (map key rows') \<and> rows_of key rows' = (rows_of key rows)(key x \<mapsto> x) \<and> (new \<longleftrightarrow> key x \<notin> key ` set rows)"
    and keeps: "img x rows = Inr (rows', new) \<Longrightarrow> distinct (map key rows) \<Longrightarrow> row_at key rows (key x) = Some x \<Longrightarrow> rows' = rows"
begin

lemma images_overlay:
  assumes "apply_images img require xs rows = Inr (rows', news)" and "distinct (map key rows)"
  shows "distinct (map key rows') \<and> rows_of key rows' = rows_of key rows ++ rows_of key xs"
  using assms
proof (induction xs arbitrary: rows rows' news)
  case (Cons x xs)
  then obtain rows1 new news1 where s: "img x rows = Inr (rows1, new)" "apply_images img require xs rows1 = Inr (rows', news1)"
    by (auto elim!: bindR_InrE)
  note w = writes[OF s(1) Cons.prems(2)]
  have "rows_of key (x # xs) = rows_of key [x] ++ rows_of key xs" using rows_of_append[of key "[x]" xs] by simp
  then show ?case using Cons.IH[OF s(2)] w by (simp add: map_add_assoc[symmetric] map_add_upd_left del: fun_upd_apply)
qed simp

lemma images_new:
  assumes "apply_images img require xs rows = Inr (rows', news)" and "distinct (map key rows)" and "distinct (map key xs)"
  shows "set news = {x \<in> set xs. key x \<notin> key ` set rows} \<and> (\<forall>x \<in> set news. require x = Inr ())"
  using assms
proof (induction xs arbitrary: rows rows' news)
  case (Cons x xs)
  then obtain rows1 new news1 where s: "img x rows = Inr (rows1, new)" "apply_images img require xs rows1 = Inr (rows', news1)"
    "if new then require x = Inr () else True" "news = (if new then x # news1 else news1)"
    by (auto elim!: bindR_InrE split: if_splits)
  note w = writes[OF s(1) Cons.prems(2)]
  have "key ` set rows1 = insert (key x) (key ` set rows)"
    using w by (intro set_eqI) (metis fun_upd_apply insertCI insertE option.discI rows_of_None)
  moreover have "key y \<noteq> key x" if "y \<in> set xs" for y using that Cons.prems(3) by (metis distinct.simps(2) imageI list.simps(9) set_map)
  ultimately show ?case using Cons.IH[OF s(2)] w s(3,4) Cons.prems(3) by (auto split: if_splits)
qed simp

lemma images_replayed:
  assumes "apply_images img require xs rows = Inr (rows', news)" and "distinct (map key rows)"
    and "\<forall>x \<in> set xs. row_at key rows (key x) = Some x"
  shows "rows' = rows \<and> news = []"
  using assms
proof (induction xs arbitrary: rows' news)
  case (Cons x xs)
  then obtain rows1 new news1 where s: "img x rows = Inr (rows1, new)" "apply_images img require xs rows1 = Inr (rows', news1)"
    "news = (if new then x # news1 else news1)"
    by (auto elim!: bindR_InrE split: if_splits)
  have "rows1 = rows" using keeps[OF s(1)] Cons.prems(2,3) by simp
  moreover have "\<not> new" using writes[OF s(1) Cons.prems(2)] Cons.prems(3) row_at_Some by fastforce
  ultimately show ?case using Cons.IH s Cons.prems(2,3) by simp
qed simp

end

lemma insert_row:
  assumes "row_at key rows (key x) = None" and "distinct (map key rows)"
  shows "distinct (map key (rows @ [x])) \<and> rows_of key (rows @ [x]) = (rows_of key rows)(key x \<mapsto> x) \<and> key x \<notin> key ` set rows"
  using assms by (auto simp: row_at_None rows_of_append)

lemma found_row: "row_at key rows (key x) = Some y \<Longrightarrow> key x \<in> key ` set rows"
  by (drule row_at_Some) (metis imageI)

interpretation mutable: row_image key "after_image key fixed" for key fixed
proof
  fix x rows rows' new
  assume r: "after_image key fixed x rows = Inr (rows', new)" "distinct (map key rows)"
  show "distinct (map key rows') \<and> rows_of key rows' = (rows_of key rows)(key x \<mapsto> x) \<and> (new \<longleftrightarrow> key x \<notin> key ` set rows)"
    using r insert_row[of key rows x] found_row[of key rows x] rows_of_write_row[of key rows x]
    by (auto simp: after_image_def split: option.splits if_splits)
  show "rows' = rows" if "row_at key rows (key x) = Some x"
    using r that write_row_same[of key rows x] by (simp add: after_image_def)
qed

interpretation immutable: row_image key "immutable_image key check" for key check
proof
  fix x rows rows' new
  assume r: "immutable_image key check x rows = Inr (rows', new)" "distinct (map key rows)"
  show "distinct (map key rows') \<and> rows_of key rows' = (rows_of key rows)(key x \<mapsto> x) \<and> (new \<longleftrightarrow> key x \<notin> key ` set rows)"
  proof (cases "row_at key rows (key x)")
    case None
    then show ?thesis using r insert_row[of key rows x] by (auto simp: immutable_image_def)
  next
    case (Some y)
    then have "y = x" "rows' = rows" "\<not> new" using r by (auto simp: immutable_image_def elim!: bindR_InrE split: if_splits)
    moreover have "rows_of key rows (key x) = Some x" using Some \<open>y = x\<close> rows_of_row_at[OF r(2)] by simp
    then have "(rows_of key rows)(key x \<mapsto> x) = rows_of key rows" by (rule fun_upd_idem)
    ultimately show ?thesis using r(2) found_row[OF Some] by simp
  qed
  show "rows' = rows" if "row_at key rows (key x) = Some x"
    using r that by (auto simp: immutable_image_def elim!: bindR_InrE)
qed

interpretation members: row_image mi_id "member_image c" for c
proof
  fix x rows rows' new
  assume "member_image c x rows = Inr (rows', new)" and d: "distinct (map mi_id rows)"
  then have r: "immutable_image mi_id (check_member_identity c) x rows = Inr (rows', new)"
    by (simp add: member_image_def split: if_splits)
  show "distinct (map mi_id rows') \<and> rows_of mi_id rows' = (rows_of mi_id rows)(mi_id x \<mapsto> x) \<and> (new \<longleftrightarrow> mi_id x \<notin> mi_id ` set rows)"
    by (rule immutable.writes[OF r d])
  show "rows' = rows" if "row_at mi_id rows (mi_id x) = Some x" by (rule immutable.keeps[OF r d that])
qed


section \<open>The after-images of a command\<close>

text \<open>The abstract store: every table but the counters and the evaluations as a map from primary keys to rows.\<close>

record scrum_tables =
  ta_members :: "uuid \<rightharpoonup> MemberIdentity"
  ta_overlays :: "uuid \<rightharpoonup> MemberAvailabilityOverlay"
  ta_consumption :: "uuid \<times> uuid \<times> uuid \<times> int \<rightharpoonup> MemberBusinessDateConsumption"
  ta_work_items :: "uuid \<rightharpoonup> WorkItemState"
  ta_factors :: "uuid \<rightharpoonup> WorkItemFactor"
  ta_sprints :: "uuid \<rightharpoonup> SprintState"
  ta_scope :: "uuid \<rightharpoonup> SprintScopeEntry"
  ta_visits :: "uuid \<rightharpoonup> StatusVisitState"
  ta_samples :: "uuid \<rightharpoonup> StatusVisitSample"

definition tables_of :: "ScrumCollections \<Rightarrow> scrum_tables" where
  "tables_of st =
     \<lparr>ta_members = rows_of mi_id (st_member_identities st), ta_overlays = rows_of ov_id (st_overlays st),
      ta_consumption = rows_of consumption_identity (st_consumption st), ta_work_items = rows_of wi_id (st_work_items st),
      ta_factors = rows_of fa_id (st_factors st), ta_sprints = rows_of ss_id (st_sprints st),
      ta_scope = rows_of sc_id (st_scope st), ta_visits = rows_of sv_id (st_visits st),
      ta_samples = rows_of vs_visit_id (st_samples st)\<rparr>"

definition overlay_tables :: "scrum_tables \<Rightarrow> scrum_tables \<Rightarrow> scrum_tables" where
  "overlay_tables t u =
     \<lparr>ta_members = ta_members t ++ ta_members u, ta_overlays = ta_overlays t ++ ta_overlays u,
      ta_consumption = ta_consumption t ++ ta_consumption u, ta_work_items = ta_work_items t ++ ta_work_items u,
      ta_factors = ta_factors t ++ ta_factors u, ta_sprints = ta_sprints t ++ ta_sprints u,
      ta_scope = ta_scope t ++ ta_scope u, ta_visits = ta_visits t ++ ta_visits u, ta_samples = ta_samples t ++ ta_samples u\<rparr>"

lemma Inr_pairE:
  assumes "Inr (a, b) = Inr (c, d)" obtains "c = a" and "d = b"
  using assms by simp

lemma apply_after_images_parts:
  assumes "apply_after_images env db k = Inr (rows', scopes)"
  defines "st \<equiv> au_state k" and "rows \<equiv> db_rows db" and "c \<equiv> se_codec env" and "claims \<equiv> au_claims k"
  shows "\<exists>n1 n2 n3 new_items n5 new_sprints n7 new_visits n9.
    apply_images (member_image c) free_row (st_member_identities st) (st_member_identities rows) = Inr (st_member_identities rows', n1) \<and>
    apply_images overlay_image free_row (st_overlays st) (st_overlays rows) = Inr (st_overlays rows', n2) \<and>
    apply_images consumption_image free_row (st_consumption st) (st_consumption rows) = Inr (st_consumption rows', n3) \<and>
    apply_images item_image (\<lambda>w. require_allocation_claim claims (item_scope w) (wi_creation_sequence w))
      (st_work_items st) (st_work_items rows) = Inr (st_work_items rows', new_items) \<and>
    apply_images (factor_image c) free_row (st_factors st) (st_factors rows) = Inr (st_factors rows', n5) \<and>
    apply_images sprint_image (\<lambda>s. require_allocation_claim claims (sprint_scope s) (ss_ordinal s))
      (st_sprints st) (st_sprints rows) = Inr (st_sprints rows', new_sprints) \<and>
    apply_images scope_image free_row (st_scope st) (st_scope rows) = Inr (st_scope rows', n7) \<and>
    apply_images visit_image (\<lambda>v. require_allocation_claim claims (visit_scope v) (sv_ordinal v))
      (st_visits st) (st_visits rows) = Inr (st_visits rows', new_visits) \<and>
    apply_images (sample_image (se_scrum env)) free_row (st_samples st) (st_samples rows) = Inr (st_samples rows', n9) \<and>
    seed_owner_counters (tc_team_id (au_live k)) (tc_run_id (au_live k)) (map wi_id new_items) (st_counters rows) = Inr (st_counters rows') \<and>
    st_evaluations rows' = st_evaluations rows \<and>
    scopes = set (map item_scope new_items @ map sprint_scope new_sprints @ map visit_scope new_visits)"
  using assms(1) unfolding apply_after_images_def Let_def assms(2-5)
  by (elim bindR_Inr2E bindR_InrE)
    (erule Inr_pairE, hypsubst, simp only: ScrumCollections.simps, (rule exI conjI refl | assumption)+)

lemma insert_rows_distinct:
  assumes "insert_rows key items rows = Inr rows'" and "distinct (map key rows)"
  shows "distinct (map key rows') \<and> rows' = rows @ items \<and> (\<forall>x \<in> set items. key x \<notin> key ` set rows)"
proof -
  have i: "distinct (map key items)" "\<forall>x \<in> set items. key x \<notin> key ` set rows" "rows' = rows @ items"
    using assms(1) by (auto simp: insert_rows_def row_at_None split: if_splits)
  then have "set (map key rows) \<inter> set (map key items) = {}" unfolding disjoint_iff by (metis imageE set_map)
  then show ?thesis using i assms(2) by simp
qed

lemma after_images_overlay:
  assumes "apply_after_images env db k = Inr (rows', scopes)" and "unique_identities (db_rows db)"
  shows "tables_of rows' = overlay_tables (tables_of (db_rows db)) (tables_of (au_state k))"
    and "unique_identities rows'"
proof -
  note p = apply_after_images_parts[OF assms(1)]
  have d: "unique_identities (db_rows db)" by (rule assms(2))
  obtain n1 n2 n3 n4 n5 n6 n7 n8 n9 where i:
    "apply_images (member_image (se_codec env)) free_row (st_member_identities (au_state k)) (st_member_identities (db_rows db)) =
       Inr (st_member_identities rows', n1)"
    "apply_images overlay_image free_row (st_overlays (au_state k)) (st_overlays (db_rows db)) = Inr (st_overlays rows', n2)"
    "apply_images consumption_image free_row (st_consumption (au_state k)) (st_consumption (db_rows db)) = Inr (st_consumption rows', n3)"
    "apply_images item_image (\<lambda>w. require_allocation_claim (au_claims k) (item_scope w) (wi_creation_sequence w))
       (st_work_items (au_state k)) (st_work_items (db_rows db)) = Inr (st_work_items rows', n4)"
    "apply_images (factor_image (se_codec env)) free_row (st_factors (au_state k)) (st_factors (db_rows db)) = Inr (st_factors rows', n5)"
    "apply_images sprint_image (\<lambda>s. require_allocation_claim (au_claims k) (sprint_scope s) (ss_ordinal s))
       (st_sprints (au_state k)) (st_sprints (db_rows db)) = Inr (st_sprints rows', n6)"
    "apply_images scope_image free_row (st_scope (au_state k)) (st_scope (db_rows db)) = Inr (st_scope rows', n7)"
    "apply_images visit_image (\<lambda>v. require_allocation_claim (au_claims k) (visit_scope v) (sv_ordinal v))
       (st_visits (au_state k)) (st_visits (db_rows db)) = Inr (st_visits rows', n8)"
    "apply_images (sample_image (se_scrum env)) free_row (st_samples (au_state k)) (st_samples (db_rows db)) = Inr (st_samples rows', n9)"
    "seed_owner_counters (tc_team_id (au_live k)) (tc_run_id (au_live k)) (map wi_id n4) (st_counters (db_rows db)) = Inr (st_counters rows')"
    "st_evaluations rows' = st_evaluations (db_rows db)"
    using p by blast
  note d = assms(2)[unfolded unique_identities_def]
  note o = members.images_overlay[OF i(1)] mutable.images_overlay[OF i(2)] mutable.images_overlay[OF i(3)]
    mutable.images_overlay[OF i(4)] immutable.images_overlay[OF i(5)] mutable.images_overlay[OF i(6)]
    mutable.images_overlay[OF i(7)] mutable.images_overlay[OF i(8)] immutable.images_overlay[OF i(9)]
  show "tables_of rows' = overlay_tables (tables_of (db_rows db)) (tables_of (au_state k))"
    using o d by (simp add: tables_of_def overlay_tables_def)
  have "distinct (map counter_identity (st_counters rows'))"
    using insert_rows_distinct[OF i(10)[unfolded seed_owner_counters_def]] d by blast
  then show "unique_identities rows'"
    using o d i(11) by (simp add: unique_identities_def)
qed


section \<open>Counters\<close>

text \<open>What a counter row holds: the next free coordinate of a scope.\<close>

definition stored_next :: "SemanticCounter list \<Rightarrow> uuid \<times> uuid \<times> SemanticCounterScope \<Rightarrow> int option" where
  "stored_next rows i = map_option sn_next_value (row_at counter_identity rows i)"

text \<open>A counter moves by a claim from the expected value to the end of the claimed range, or the claim is a replay.\<close>

definition counter_moved :: "SemanticCounterClaim \<Rightarrow> int option \<Rightarrow> int option \<Rightarrow> bool" where
  "counter_moved k before after \<longleftrightarrow>
     before = Some (cl_expected_next k) \<and> after = Some (cl_expected_next k + cl_count k) \<or>
     after = before \<and> (\<exists>n. after = Some n \<and> cl_expected_next k + cl_count k \<le> n)"

lemma row_at_map_update:
  assumes "\<And>r. key (f r) = key r"
  shows "row_at key (map f rows) i = map_option f (row_at key rows i)"
  unfolding row_at_def by (induction rows) (auto simp: assms)

lemma identity_update [simp]: "counter_identity (n\<lparr>sn_next_value := v\<rparr>) = counter_identity n"
  by (simp add: counter_identity_def)

lemma load_counter_Inr: "load_counter live k rows = Inr c \<Longrightarrow> c = row_at counter_identity rows (claim_identity live k)"
  by (auto simp: load_counter_def split: option.splits elim!: bindR_InrE)

lemma require_counter_Inr: "require_counter live k rows = Inr n \<Longrightarrow> row_at counter_identity rows (claim_identity live k) = Some n"
  by (auto simp: require_counter_def split: option.splits elim!: bindR_InrE dest!: load_counter_Inr)

lemma require_advanced_Inr:
  "require_advanced_counter c k new = Inr n \<Longrightarrow> c = Some n \<and> \<not> new \<and> cl_expected_next k + cl_count k \<le> sn_next_value n"
  by (auto simp: require_advanced_counter_def split: option.splits if_splits)

lemma swap_row:
  "stored_next (fst (advance_counter_row live k rows)) i =
     (if i = claim_identity live k \<and> stored_next rows i = Some (cl_expected_next k) then Some (cl_expected_next k + cl_count k)
      else stored_next rows i)"
proof -
  let ?f = "\<lambda>n. if swap_matches live k n then n\<lparr>sn_next_value := cl_expected_next k + cl_count k\<rparr> else n"
  have "row_at counter_identity (map ?f rows) i = map_option ?f (row_at counter_identity rows i)"
    by (rule row_at_map_update) simp
  then show ?thesis
    by (cases "row_at counter_identity rows i")
      (auto simp: stored_next_def advance_counter_row_def swap_matches_def dest: row_at_Some)
qed

lemma swap_identities: "map counter_identity (fst (advance_counter_row live k rows)) = map counter_identity rows"
  by (simp add: advance_counter_row_def)

lemma swap_none:
  assumes "snd (advance_counter_row live k rows) \<noteq> 1" and "distinct (map counter_identity rows)"
  shows "fst (advance_counter_row live k rows) = rows \<and> stored_next rows (claim_identity live k) \<noteq> Some (cl_expected_next k)"
proof -
  have "\<not> swap_matches live k n" if n: "n \<in> set rows" for n
  proof
    assume m: "swap_matches live k n"
    have "filter (swap_matches live k) rows = [n]"
    proof -
      have "filter (\<lambda>r. counter_identity r = counter_identity n) rows = [n]"
        using assms(2) n by (induction rows) (auto simp: filter_empty_conv, metis imageI)
      moreover have "filter (swap_matches live k) rows =
          filter (swap_matches live k) (filter (\<lambda>r. counter_identity r = counter_identity n) rows)"
        using m by (auto simp: swap_matches_def intro!: filter_cong)
      ultimately show ?thesis using m by simp
    qed
    then show False using assms(1) by (simp add: advance_counter_row_def)
  qed
  then show ?thesis
    by (auto simp: advance_counter_row_def stored_next_def swap_matches_def intro!: map_idI dest!: row_at_Some)
qed

lemma swap_one: "snd (advance_counter_row live k rows) = 1 \<Longrightarrow> distinct (map counter_identity rows) \<Longrightarrow>
  stored_next rows (claim_identity live k) = Some (cl_expected_next k)"
proof -
  assume "snd (advance_counter_row live k rows) = 1" and d: "distinct (map counter_identity rows)"
  then have "filter (swap_matches live k) rows \<noteq> []" by (auto simp: advance_counter_row_def)
  then obtain n where "n \<in> set rows" "swap_matches live k n" by (auto simp: filter_empty_conv)
  then show ?thesis using row_at_iff[OF d, of "claim_identity live k" n] by (simp add: swap_matches_def stored_next_def)
qed

text \<open>One claim: its own counter moves, the others stay, and the returned row is the stored one.\<close>

lemma counter_claim_effect:
  assumes "apply_counter_claim env live evaluations natural new_scopes k rows = Inr (rows', n)"
    and "distinct (map counter_identity rows)"
  shows "map counter_identity rows' = map counter_identity rows"
    and "\<And>i. i \<noteq> claim_identity live k \<Longrightarrow> stored_next rows' i = stored_next rows i"
    and "counter_moved k (stored_next rows (claim_identity live k)) (stored_next rows' (claim_identity live k))"
    and "row_at counter_identity rows' (claim_identity live k) = Some n"
    and "cl_scope k \<in> new_scopes \<Longrightarrow> cs_kind (cl_scope k) \<noteq> NATURAL_DECISION_OCCURRENCE \<Longrightarrow>
      stored_next rows (claim_identity live k) = Some (cl_expected_next k) \<and>
      stored_next rows' (claim_identity live k) = Some (cl_expected_next k + cl_count k)"
proof -
  let ?i = "claim_identity live k"
  obtain c replay where c: "load_counter live k rows = Inr c" "natural_replay env live evaluations natural k = Inr replay"
    "(if replay then bindR (require_advanced_counter c k False) (\<lambda>n. Inr (rows, n))
       else
         (let (rows1, rowcount) = advance_counter_row live k rows in
          if rowcount = 1 then bindR (require_counter live k rows1) (\<lambda>n. Inr (rows1, n))
          else
            bindR (require_counter live k rows1) (\<lambda>n.
              if cs_kind (cl_scope k) \<noteq> NATURAL_DECISION_OCCURRENCE
              then bindR (require_advanced_counter (Some n) k (cl_scope k \<in> new_scopes)) (\<lambda>n. Inr (rows1, n))
              else Inl CounterClaimStale))) = Inr (rows', n)"
    using assms(1) unfolding apply_counter_claim_def by (elim bindR_InrE) blast
  have cr: "c = row_at counter_identity rows ?i" by (rule load_counter_Inr[OF c(1)])
  define rows1 where "rows1 = fst (advance_counter_row live k rows)"
  have nr: "replay \<Longrightarrow> cs_kind (cl_scope k) = NATURAL_DECISION_OCCURRENCE" using c(2) by (auto simp: natural_replay_def split: if_splits)
  consider (replay) "replay" "rows' = rows" "row_at counter_identity rows ?i = Some n" "cl_expected_next k + cl_count k \<le> sn_next_value n"
    | (swapped) "snd (advance_counter_row live k rows) = 1" "rows' = rows1" "row_at counter_identity rows1 ?i = Some n"
    | (advanced) "\<not> replay" "snd (advance_counter_row live k rows) \<noteq> 1" "rows' = rows1" "row_at counter_identity rows1 ?i = Some n"
        "cl_scope k \<notin> new_scopes" "cl_expected_next k + cl_count k \<le> sn_next_value n"
  proof (cases replay)
    case True
    then show ?thesis using c(3) cr that(1) by (auto elim!: bindR_InrE dest!: require_advanced_Inr)
  next
    case False
    then show ?thesis
      using c(3) that(2,3) unfolding rows1_def
      by (auto simp: case_prod_beta Let_def elim!: bindR_InrE dest!: require_advanced_Inr require_counter_Inr split: if_splits)
  qed
  then have "map counter_identity rows' = map counter_identity rows \<and>
    (\<forall>i. i \<noteq> ?i \<longrightarrow> stored_next rows' i = stored_next rows i) \<and>
    counter_moved k (stored_next rows ?i) (stored_next rows' ?i) \<and> row_at counter_identity rows' ?i = Some n \<and>
    (cl_scope k \<in> new_scopes \<longrightarrow> cs_kind (cl_scope k) \<noteq> NATURAL_DECISION_OCCURRENCE \<longrightarrow>
      stored_next rows ?i = Some (cl_expected_next k) \<and> stored_next rows' ?i = Some (cl_expected_next k + cl_count k))"
  proof cases
    case replay
    then show ?thesis using nr by (auto simp: counter_moved_def stored_next_def)
  next
    case swapped
    then show ?thesis
      using swap_identities swap_row[of live k rows] swap_one[OF swapped(1) assms(2)] unfolding rows1_def
      by (simp add: counter_moved_def)
  next
    case advanced
    then have "rows' = rows" using swap_none[OF advanced(2) assms(2)] by (simp add: rows1_def)
    then show ?thesis using advanced by (auto simp: counter_moved_def stored_next_def)
  qed
  then show "map counter_identity rows' = map counter_identity rows"
    and "\<And>i. i \<noteq> ?i \<Longrightarrow> stored_next rows' i = stored_next rows i"
    and "counter_moved k (stored_next rows ?i) (stored_next rows' ?i)"
    and "row_at counter_identity rows' ?i = Some n"
    and "cl_scope k \<in> new_scopes \<Longrightarrow> cs_kind (cl_scope k) \<noteq> NATURAL_DECISION_OCCURRENCE \<Longrightarrow>
      stored_next rows ?i = Some (cl_expected_next k) \<and> stored_next rows' ?i = Some (cl_expected_next k + cl_count k)"
    by blast+
qed

lemma counter_claims_effect:
  assumes "apply_claims (apply_counter_claim env live evaluations natural new_scopes) ks rows = Inr (rows', ns)"
    and "distinct (map counter_identity rows)" and "distinct (map cl_scope ks)"
  shows "map counter_identity rows' = map counter_identity rows \<and>
    (\<forall>i. i \<notin> claim_identity live ` set ks \<longrightarrow> stored_next rows' i = stored_next rows i) \<and>
    (\<forall>k \<in> set ks. counter_moved k (stored_next rows (claim_identity live k)) (stored_next rows' (claim_identity live k)) \<and>
       (cl_scope k \<in> new_scopes \<and> cs_kind (cl_scope k) \<noteq> NATURAL_DECISION_OCCURRENCE \<longrightarrow>
          stored_next rows (claim_identity live k) = Some (cl_expected_next k) \<and>
          stored_next rows' (claim_identity live k) = Some (cl_expected_next k + cl_count k)))"
  using assms
proof (induction ks arbitrary: rows ns)
  case (Cons k ks)
  then obtain rows1 n ns1 where s: "apply_counter_claim env live evaluations natural new_scopes k rows = Inr (rows1, n)"
    "apply_claims (apply_counter_claim env live evaluations natural new_scopes) ks rows1 = Inr (rows', ns1)"
    by (auto elim!: bindR_InrE)
  note e = counter_claim_effect[OF s(1) Cons.prems(2)]
  have d: "distinct (map counter_identity rows1)" using e(1) Cons.prems(2) by simp
  have "distinct (map cl_scope ks)" using Cons.prems(3) by simp
  note ih = Cons.IH[OF s(2) d this]
  have new: "claim_identity live k \<notin> claim_identity live ` set ks" "\<And>j. j \<in> set ks \<Longrightarrow> claim_identity live j \<noteq> claim_identity live k"
    using Cons.prems(3) by (auto, metis imageI)
  show ?case
  proof (intro conjI allI impI ballI)
    show "map counter_identity rows' = map counter_identity rows" using ih e(1) by simp
    show "stored_next rows' i = stored_next rows i" if "i \<notin> claim_identity live ` set (k # ks)" for i
    proof -
      have i: "i \<notin> claim_identity live ` set ks" "i \<noteq> claim_identity live k" using that by auto
      have "stored_next rows' i = stored_next rows1 i" using conjunct1[OF conjunct2[OF ih]] i(1) by blast
      then show ?thesis using e(2)[OF i(2)] by simp
    qed
    fix j assume "j \<in> set (k # ks)"
    then have j: "j = k \<or> j \<in> set ks" by simp
    then consider "j = k" | "j \<in> set ks" by auto
    then show "counter_moved j (stored_next rows (claim_identity live j)) (stored_next rows' (claim_identity live j))"
      using ih e(2,3) new by cases auto
    assume "cl_scope j \<in> new_scopes \<and> cs_kind (cl_scope j) \<noteq> NATURAL_DECISION_OCCURRENCE"
    then show "stored_next rows (claim_identity live j) = Some (cl_expected_next j)"
      "stored_next rows' (claim_identity live j) = Some (cl_expected_next j + cl_count j)"
      using j ih e(2,5) new by auto
  qed
qed simp


section \<open>The transaction\<close>

lemma authoritative_parts:
  assumes "commit_authoritative_slice env k db = Inr (db', s)"
  obtains runtimes runtime replay rows scopes where
    "validate_authoritative (se_scrum env) k = Inr ()"
    "advance_runtime (au_live k) (ld_runtimes (db_live db)) = Inr (runtimes, runtime)"
    "preflight_replay env (db_rows db) k = Inr replay"
    "replay \<Longrightarrow> require_replayed_ledgers (se_codec env) (au_live k) (db_live db) = Inr ()"
    "if au_state k \<noteq> empty_state then apply_after_images env db k = Inr (rows, scopes) else rows = db_rows db \<and> scopes = {}"
    "apply_claims (apply_counter_claim (se_scrum env) (au_live k) (st_evaluations rows) (au_natural k) scopes)
       (ordered_claims (au_claims k)) (st_counters rows) = Inr (st_counters (db_rows db'), ca_counters s)"
    "preflight_natural_claims (se_scrum env) (au_live k) (st_evaluations rows) (au_natural k) = Inr ()"
    "resolve_natural_claims (se_scrum env) (au_live k) (ordered_natural_claims (au_natural k)) (st_evaluations rows) =
       Inr (st_evaluations (db_rows db'), ca_evaluations s)"
    "load_state env db' (tc_team_id (au_live k)) (tc_run_id (au_live k)) = Inr (ca_state s)"
    "persist_ledgers (se_codec env) (au_live k) runtime ((db_live db)\<lparr>ld_runtimes := runtimes\<rparr>) = Inr (db_live db', ca_live s)"
    "db_rows db' = rows\<lparr>st_counters := st_counters (db_rows db'), st_evaluations := st_evaluations (db_rows db')\<rparr>"
    "db' = db\<lparr>db_rows := db_rows db', db_live := db_live db'\<rparr>"
proof -
  have v: "validate_authoritative (se_scrum env) k = Inr ()" and c: "commit_authoritative_in_session env k db = Inr (db', s)"
    using assms by (auto simp: commit_authoritative_slice_def bindR_check split: sum.splits)
  have load: "load_state env (x\<lparr>db_live := l\<rparr>) t r = load_state env x t r" for x l t r
    by (auto simp: load_state_def load_authority_def validate_run_def split: option.split)
  obtain runtimes runtime replay u rows scopes counter_rows counters evaluation_rows evaluations state live committed
    where f: "advance_runtime (au_live k) (ld_runtimes (db_live db)) = Inr (runtimes, runtime)"
      "preflight_replay env (db_rows db) k = Inr replay"
      "(if replay then require_replayed_ledgers (se_codec env) (au_live k) (db_live db) else Inr ()) = Inr u"
      "(if au_state k \<noteq> empty_state then apply_after_images env db k else Inr (db_rows db, {})) = Inr (rows, scopes)"
      "apply_counter_claims env k scopes rows = Inr (counter_rows, counters)"
      "resolve_natural_claims (se_scrum env) (au_live k) (ordered_natural_claims (au_natural k)) (st_evaluations rows) =
         Inr (evaluation_rows, evaluations)"
      "load_state env (db\<lparr>db_rows := rows\<lparr>st_counters := counter_rows, st_evaluations := evaluation_rows\<rparr>\<rparr>)
         (tc_team_id (au_live k)) (tc_run_id (au_live k)) = Inr state"
      "persist_ledgers (se_codec env) (au_live k) runtime ((db_live db)\<lparr>ld_runtimes := runtimes\<rparr>) = Inr (live, committed)"
      "db' = db\<lparr>db_rows := rows\<lparr>st_counters := counter_rows, st_evaluations := evaluation_rows\<rparr>, db_live := live\<rparr>"
      "s = \<lparr>ca_live = committed, ca_state = state, ca_counters = counters, ca_evaluations = evaluations\<rparr>"
    using c unfolding commit_authoritative_in_session_def Let_def
    by (elim bindR_Inr2E bindR_InrE) (erule Inr_pairE, rule that, assumption+)
  show ?thesis
  proof (rule that[of runtimes runtime replay rows scopes, OF v f(1,2)])
    show "require_replayed_ledgers (se_codec env) (au_live k) (db_live db) = Inr ()" if replay using f(3) that by simp
    show "if au_state k \<noteq> empty_state then apply_after_images env db k = Inr (rows, scopes) else rows = db_rows db \<and> scopes = {}"
      using f(4) by (simp split: if_splits)
  qed (use f(5-10) load in \<open>simp_all add: apply_counter_claims_def bindR_check\<close>)
qed

text \<open>The evaluations are only extended, each under a new key.\<close>

lemma natural_claims_extend:
  assumes "resolve_natural_claims env live ks rows = Inr (rows', es)" and "distinct (map ne_id rows)"
  shows "distinct (map ne_id rows') \<and> (\<exists>new. rows' = rows @ new)"
  using assms
proof (induction ks arbitrary: rows es)
  case (Cons k ks)
  then obtain rows1 e es1 where s: "resolve_natural_claim env live k rows = Inr (rows1, e)"
    "resolve_natural_claims env live ks rows1 = Inr (rows', es1)"
    by (auto elim!: bindR_InrE)
  have "rows1 = rows \<or> rows1 = rows @ [e] \<and> row_at ne_id rows (ne_id e) = None"
    using s(1) by (auto simp: resolve_natural_claim_def elim!: bindR_InrE split: option.split_asm if_splits)
  then have "distinct (map ne_id rows1)" "\<exists>new. rows1 = rows @ new"
    using Cons.prems(2) by (auto simp: row_at_None)
  then show ?case using Cons.IH[OF s(2)] by auto
qed simp

lemma sorted_claims: "set (ordered_claims ks) = set ks" "distinct (map cl_scope ks) \<Longrightarrow> distinct (map cl_scope (ordered_claims ks))"
proof -
  show "set (ordered_claims ks) = set ks" by (simp add: ordered_claims_def)
  have "mset (map cl_scope (ordered_claims ks)) = mset (map cl_scope ks)" by (simp add: ordered_claims_def)
  then show "distinct (map cl_scope ks) \<Longrightarrow> distinct (map cl_scope (ordered_claims ks))" using mset_eq_imp_distinct_iff by blast
qed

lemma authoritative_claims:
  assumes "validate_authoritative env k = Inr ()"
  shows "distinct (map cl_scope (au_claims k))" and "\<forall>c \<in> set (au_claims k). check_claim c = Inr ()"
    and "validate_coordinates (au_state k) (tc_team_id (au_live k)) (tc_run_id (au_live k)) = Inr ()"
    and "validate_state env (au_state k) = Inr ()"
proof -
  have "\<exists>m. unique_claims (au_claims k) = Inr m"
    using assms by (auto simp: validate_authoritative_def bindR_check validate_claim_bindings_def elim!: bindR_InrE)
  then show "distinct (map cl_scope (au_claims k))" using dict_of_length by (auto simp: unique_claims_def Let_def split: if_splits)
  show "\<forall>c \<in> set (au_claims k). check_claim c = Inr ()"
    "validate_coordinates (au_state k) (tc_team_id (au_live k)) (tc_run_id (au_live k)) = Inr ()"
    "validate_state env (au_state k) = Inr ()"
    using assms by (simp_all add: validate_authoritative_def bindR_check forR_eq_Inr)
qed

lemma commit_overlay:
  assumes "commit_authoritative_slice env k db = Inr (db', s)" and "unique_identities (db_rows db)"
  shows "tables_of (db_rows db') = overlay_tables (tables_of (db_rows db)) (tables_of (au_state k)) \<and> unique_identities (db_rows db')"
proof -
  obtain runtimes runtime replay rows scopes where p: "validate_authoritative (se_scrum env) k = Inr ()"
    "if au_state k \<noteq> empty_state then apply_after_images env db k = Inr (rows, scopes) else rows = db_rows db \<and> scopes = {}"
    "apply_claims (apply_counter_claim (se_scrum env) (au_live k) (st_evaluations rows) (au_natural k) scopes)
       (ordered_claims (au_claims k)) (st_counters rows) = Inr (st_counters (db_rows db'), ca_counters s)"
    "resolve_natural_claims (se_scrum env) (au_live k) (ordered_natural_claims (au_natural k)) (st_evaluations rows) =
       Inr (st_evaluations (db_rows db'), ca_evaluations s)"
    "db_rows db' = rows\<lparr>st_counters := st_counters (db_rows db'), st_evaluations := st_evaluations (db_rows db')\<rparr>"
    using authoritative_parts[OF assms(1)] by metis
  have r: "tables_of rows = overlay_tables (tables_of (db_rows db)) (tables_of (au_state k)) \<and> unique_identities rows"
  proof (cases "au_state k = empty_state")
    case True
    then show ?thesis using p(2) assms(2) by (simp add: tables_of_def overlay_tables_def empty_state_def)
  next
    case False
    then show ?thesis using p(2) after_images_overlay[OF _ assms(2)] by simp
  qed
  have d: "distinct (map cl_scope (au_claims k))"
    by (rule authoritative_claims(1)[OF p(1)])
  note c = counter_claims_effect[OF p(3) _ sorted_claims(2)[OF d]]
  have "distinct (map counter_identity (st_counters rows))" "distinct (map ne_id (st_evaluations rows))"
    using r by (simp_all add: unique_identities_def)
  then have "distinct (map counter_identity (st_counters (db_rows db')))" "distinct (map ne_id (st_evaluations (db_rows db')))"
    using c natural_claims_extend[OF p(4)] by simp_all
  then have "unique_identities (db_rows db')" using r by (subst p(5)) (simp add: unique_identities_def)
  moreover have "tables_of (db_rows db') = tables_of rows" by (subst p(5)) (simp add: tables_of_def)
  ultimately show ?thesis using r by simp
qed


section \<open>The committed state\<close>

lemma load_state_Inr:
  assumes "load_state env db team run = Inr st"
  shows "st = ordered (of_team_run team run (db_rows db))"
  using assms by (auto simp: load_state_def load_validated_snapshot_def snapshot_def Let_def elim!: bindR_InrE)

lemma coordinates_hold:
  assumes "validate_coordinates st team run = Inr ()"
  shows "\<forall>x \<in> set (st_member_identities st). mi_team_id x = team" "\<forall>x \<in> set (st_overlays st). ov_team_id x = team \<and> ov_run_id x = run"
    "\<forall>x \<in> set (st_consumption st). mc_team_id x = team \<and> mc_run_id x = run"
    "\<forall>x \<in> set (st_work_items st). wi_team_id x = team \<and> wi_run_id x = run"
    "\<forall>x \<in> set (st_factors st). fa_team_id x = team \<and> fa_run_id x = run"
    "\<forall>x \<in> set (st_sprints st). ss_team_id x = team \<and> ss_run_id x = run"
    "\<forall>x \<in> set (st_scope st). sc_team_id x = team \<and> sc_run_id x = run"
    "\<forall>x \<in> set (st_visits st). sv_team_id x = team \<and> sv_run_id x = run"
    "\<forall>x \<in> set (st_samples st). vs_team_id x = team \<and> vs_run_id x = run"
  using assms by (auto simp: validate_coordinates_def state_teams_def state_runs_def res_simps)

text \<open>Loading commutes with laying the rows of one team and run over the tables.\<close>

lemma loaded_overlay:
  assumes "unique_identities rows" and "unique_identities rows'" and "tables_of rows' = overlay_tables (tables_of rows) (tables_of st)"
    and "validate_coordinates st team run = Inr ()"
  shows "tables_of (ordered (of_team_run team run rows')) = overlay_tables (tables_of (ordered (of_team_run team run rows))) (tables_of st)"
proof -
  note d = assms(1)[unfolded unique_identities_def] assms(2)[unfolded unique_identities_def]
  note c = coordinates_hold[OF assms(4)]
  have t: "rows_of mi_id (st_member_identities rows') = rows_of mi_id (st_member_identities rows) ++ rows_of mi_id (st_member_identities st)"
    "rows_of ov_id (st_overlays rows') = rows_of ov_id (st_overlays rows) ++ rows_of ov_id (st_overlays st)"
    "rows_of consumption_identity (st_consumption rows') =
       rows_of consumption_identity (st_consumption rows) ++ rows_of consumption_identity (st_consumption st)"
    "rows_of wi_id (st_work_items rows') = rows_of wi_id (st_work_items rows) ++ rows_of wi_id (st_work_items st)"
    "rows_of fa_id (st_factors rows') = rows_of fa_id (st_factors rows) ++ rows_of fa_id (st_factors st)"
    "rows_of ss_id (st_sprints rows') = rows_of ss_id (st_sprints rows) ++ rows_of ss_id (st_sprints st)"
    "rows_of sc_id (st_scope rows') = rows_of sc_id (st_scope rows) ++ rows_of sc_id (st_scope st)"
    "rows_of sv_id (st_visits rows') = rows_of sv_id (st_visits rows) ++ rows_of sv_id (st_visits st)"
    "rows_of vs_visit_id (st_samples rows') = rows_of vs_visit_id (st_samples rows) ++ rows_of vs_visit_id (st_samples st)"
    using assms(3) by (simp_all add: tables_of_def overlay_tables_def)
  show ?thesis
    using d c
    by (simp add: tables_of_def overlay_tables_def ordered_def of_team_run_def rows_of_loaded
        rows_of_overlay_filter[OF _ _ t(1)] rows_of_overlay_filter[OF _ _ t(2)] rows_of_overlay_filter[OF _ _ t(3)]
        rows_of_overlay_filter[OF _ _ t(4)] rows_of_overlay_filter[OF _ _ t(5)] rows_of_overlay_filter[OF _ _ t(6)]
        rows_of_overlay_filter[OF _ _ t(7)] rows_of_overlay_filter[OF _ _ t(8)] rows_of_overlay_filter[OF _ _ t(9)])
qed

lemma committed_overlay:
  assumes "unique_identities (db_rows db)" and "commit_authoritative_slice env k db = Inr (db', s)"
    and "load_state env db (tc_team_id (au_live k)) (tc_run_id (au_live k)) = Inr st"
  shows "tables_of (ca_state s) = overlay_tables (tables_of st) (tables_of (au_state k)) \<and>
    load_state env db' (tc_team_id (au_live k)) (tc_run_id (au_live k)) = Inr (ca_state s)"
proof -
  have v: "validate_authoritative (se_scrum env) k = Inr ()"
    and l: "load_state env db' (tc_team_id (au_live k)) (tc_run_id (au_live k)) = Inr (ca_state s)"
    using authoritative_parts[OF assms(2)] by metis+
  have o: "tables_of (db_rows db') = overlay_tables (tables_of (db_rows db)) (tables_of (au_state k))"
    "unique_identities (db_rows db')" using commit_overlay[OF assms(2,1)] by simp_all
  have "tables_of (ca_state s) = overlay_tables (tables_of st) (tables_of (au_state k))"
    unfolding load_state_Inr[OF l] load_state_Inr[OF assms(3)]
    by (rule loaded_overlay[OF assms(1) o(2) o(1) authoritative_claims(3)[OF v]])
  with l show ?thesis by blast
qed

text \<open>(C4) The store refines the merge of the domain. After a command is committed, the keys of every table are still
  unique, every table of rows that a command replaces (counters and evaluations have commands of their own) holds the rows of
  the command laid over the rows it held, and nothing else: no other row of any team changes. The returned state is what loading the team returns from now on, and as maps its tables are
  those that were loaded before with the command's rows on top.\<close>

theorem commit_refines_overlay:
  assumes "unique_identities (db_rows db)" and "commit_authoritative_slice env k db = Inr (db', s)"
    and "load_state env db (tc_team_id (au_live k)) (tc_run_id (au_live k)) = Inr st"
  shows "unique_identities (db_rows db') \<and>
    tables_of (db_rows db') = overlay_tables (tables_of (db_rows db)) (tables_of (au_state k)) \<and>
    load_state env db' (tc_team_id (au_live k)) (tc_run_id (au_live k)) = Inr (ca_state s) \<and>
    tables_of (ca_state s) = overlay_tables (tables_of st) (tables_of (au_state k))"
  using committed_overlay[OF assms] commit_overlay[OF assms(2,1)] by blast

text \<open>A tick that is committed is stored as it was computed: a visit, a work item or a member's consumption of the
  state returned by the store is the one the tick advanced, otherwise the one its risks left, otherwise the one that
  was loaded.\<close>

theorem committed_tick_rows:
  assumes "unique_identities (db_rows db)"
    and "load_state env db (tc_team_id (au_live k)) (tc_run_id (au_live k)) = Inr st"
    and "finalize_tick (se_scrum env) request a = Inr k"
    and "commit_authoritative_slice env k db = Inr (db', s)"
  shows "rows_of sv_id (st_visits (ca_state s)) =
      rows_of sv_id (st_visits st) ++ rows_of sv_id (st_visits (rk_state (av_risks a))) ++ rows_of sv_id (tk_visits (av_result a)) \<and>
    rows_of wi_id (st_work_items (ca_state s)) =
      rows_of wi_id (st_work_items st) ++ rows_of wi_id (st_work_items (rk_state (av_risks a))) ++
      rows_of wi_id (tk_work_items (av_result a))"
proof -
  have k: "au_state k = merge_state (rk_state (av_risks a)) (progress_of (av_result a))" by (rule finalize_tick_parts(8)[OF assms(3)])
  have "tables_of (ca_state s) = overlay_tables (tables_of st) (tables_of (au_state k))"
    using committed_overlay[OF assms(1,4,2)] by simp
  then have "rows_of sv_id (st_visits (ca_state s)) = rows_of sv_id (st_visits st) ++ rows_of sv_id (st_visits (au_state k))"
    "rows_of wi_id (st_work_items (ca_state s)) = rows_of wi_id (st_work_items st) ++ rows_of wi_id (st_work_items (au_state k))"
    by (simp_all add: tables_of_def overlay_tables_def)
  then show ?thesis by (simp add: k merge_state_def rows_of_merged progress_of_def)
qed

section \<open>No coordinate is given out twice\<close>

lemma seeded_next:
  assumes "seed_owner_counters team run work_items rows = Inr rows'"
  shows "stored_next rows' i = stored_next rows i \<or> stored_next rows i = None \<and> stored_next rows' i = Some 0"
proof -
  let ?seeds = "map (\<lambda>scope. \<lparr>sn_team_id = team, sn_run_id = run, sn_scope = scope, sn_next_value = 0\<rparr>) (owner_counter_scopes work_items)"
  have r: "rows' = rows @ ?seeds" using assms by (auto simp: seed_owner_counters_def insert_rows_def split: if_splits)
  have z: "stored_next ?seeds i = None \<or> stored_next ?seeds i = Some 0"
    by (cases "row_at counter_identity ?seeds i") (auto simp: stored_next_def dest!: row_at_Some)
  have "stored_next rows' i = (case stored_next rows i of None \<Rightarrow> stored_next ?seeds i | Some n \<Rightarrow> Some n)"
    by (simp add: r stored_next_def row_at_def find_append split: option.split)
  then show ?thesis using z by (cases "stored_next rows i") auto
qed

text \<open>The counter rows between the after-images and the claims.\<close>

lemma claims_after_images:
  assumes "unique_identities (db_rows db)" and "commit_authoritative_slice env k db = Inr (db', s)"
  obtains rows scopes where
    "if au_state k \<noteq> empty_state then apply_after_images env db k = Inr (rows, scopes) else rows = db_rows db \<and> scopes = {}"
    "\<And>i. stored_next (st_counters rows) i = stored_next (st_counters (db_rows db)) i \<or>
       stored_next (st_counters (db_rows db)) i = None \<and> stored_next (st_counters rows) i = Some 0"
    "\<And>i. i \<notin> claim_identity (au_live k) ` set (au_claims k) \<Longrightarrow>
       stored_next (st_counters (db_rows db')) i = stored_next (st_counters rows) i"
    "\<And>c. c \<in> set (au_claims k) \<Longrightarrow> counter_moved c (stored_next (st_counters rows) (claim_identity (au_live k) c))
       (stored_next (st_counters (db_rows db')) (claim_identity (au_live k) c))"
    "\<And>c. c \<in> set (au_claims k) \<Longrightarrow> cl_scope c \<in> scopes \<Longrightarrow> cs_kind (cl_scope c) \<noteq> NATURAL_DECISION_OCCURRENCE \<Longrightarrow>
       stored_next (st_counters rows) (claim_identity (au_live k) c) = Some (cl_expected_next c) \<and>
       stored_next (st_counters (db_rows db')) (claim_identity (au_live k) c) = Some (cl_expected_next c + cl_count c)"
proof -
  obtain rows scopes where p: "validate_authoritative (se_scrum env) k = Inr ()"
    "if au_state k \<noteq> empty_state then apply_after_images env db k = Inr (rows, scopes) else rows = db_rows db \<and> scopes = {}"
    "apply_claims (apply_counter_claim (se_scrum env) (au_live k) (st_evaluations rows) (au_natural k) scopes)
       (ordered_claims (au_claims k)) (st_counters rows) = Inr (st_counters (db_rows db'), ca_counters s)"
    using authoritative_parts[OF assms(2)] by metis
  have seeded: "stored_next (st_counters rows) i = stored_next (st_counters (db_rows db)) i \<or>
      stored_next (st_counters (db_rows db)) i = None \<and> stored_next (st_counters rows) i = Some 0" for i
  proof (cases "au_state k = empty_state")
    case False
    then have "apply_after_images env db k = Inr (rows, scopes)" using p(2) by simp
    then show ?thesis using apply_after_images_parts seeded_next by metis
  qed (use p(2) in simp)
  have d: "distinct (map counter_identity (st_counters rows))"
  proof (cases "au_state k = empty_state")
    case True
    then show ?thesis using p(2) assms(1) by (simp add: unique_identities_def)
  next
    case False
    then have "apply_after_images env db k = Inr (rows, scopes)" using p(2) by simp
    from after_images_overlay(2)[OF this assms(1)] show ?thesis by (simp add: unique_identities_def)
  qed
  note e = counter_claims_effect[OF p(3) d sorted_claims(2)[OF authoritative_claims(1)[OF p(1)]], unfolded sorted_claims(1)]
  show ?thesis by (rule that[OF p(2) seeded]) (use e in blast)+
qed

lemma positive_count: "c \<in> set claims \<Longrightarrow> \<forall>c \<in> set claims. check_claim c = Inr () \<Longrightarrow> 0 < cl_count c"
  by (force simp: check_claim_def safe_integer_def bindR_check guardR_eq_Inr elim!: bindR_InrE split: if_splits)

text \<open>(C6) Counters never lose an update. A counter of a committed claim either moved from exactly the claimed value (zero for
  the counter of a new work item) to the end of the claimed range, or was left alone because it is already past that
  range; every other counter keeps its value, except that the counters of new work items start at zero. So no counter
  ever moves backwards.\<close>

theorem counters_move_by_claims:
  assumes "unique_identities (db_rows db)" and "commit_authoritative_slice env k db = Inr (db', s)"
  defines "before \<equiv> stored_next (st_counters (db_rows db))" and "after \<equiv> stored_next (st_counters (db_rows db'))"
  shows "(\<forall>c \<in> set (au_claims k).
      counter_moved c (before (claim_identity (au_live k) c)) (after (claim_identity (au_live k) c)) \<or>
      before (claim_identity (au_live k) c) = None \<and> counter_moved c (Some 0) (after (claim_identity (au_live k) c))) \<and>
    (\<forall>i. i \<notin> claim_identity (au_live k) ` set (au_claims k) \<longrightarrow> after i = before i \<or> before i = None \<and> after i = Some 0) \<and>
    (\<forall>i n. before i = Some n \<longrightarrow> (\<exists>m. after i = Some m \<and> n \<le> m))"
proof -
  have v: "\<forall>c \<in> set (au_claims k). check_claim c = Inr ()"
    using authoritative_parts[OF assms(2)] authoritative_claims(2) by metis
  have pos: "0 < cl_count c" if "c \<in> set (au_claims k)" for c using that v by (rule positive_count)
  obtain rows scopes where
    "if au_state k \<noteq> empty_state then apply_after_images env db k = Inr (rows, scopes) else rows = db_rows db \<and> scopes = {}"
    and r: "\<And>i. stored_next (st_counters rows) i = before i \<or> before i = None \<and> stored_next (st_counters rows) i = Some 0"
    "\<And>i. i \<notin> claim_identity (au_live k) ` set (au_claims k) \<Longrightarrow> after i = stored_next (st_counters rows) i"
    "\<And>c. c \<in> set (au_claims k) \<Longrightarrow> counter_moved c (stored_next (st_counters rows) (claim_identity (au_live k) c))
       (after (claim_identity (au_live k) c))"
    unfolding before_def after_def by (rule claims_after_images[OF assms(1,2)]) blast
  have "\<exists>m. after i = Some m \<and> n \<le> m" if b: "before i = Some n" for i n
  proof (cases "i \<in> claim_identity (au_live k) ` set (au_claims k)")
    case True
    then obtain c where c: "c \<in> set (au_claims k)" "i = claim_identity (au_live k) c" by blast
    have "counter_moved c (Some n) (after i)" using r(1)[of i] r(3)[OF c(1)] b c(2) by auto
    then show ?thesis using pos[OF c(1)] by (auto simp: counter_moved_def)
  next
    case False
    then show ?thesis using r(1)[of i] r(2)[OF False] b by auto
  qed
  moreover have "counter_moved c (before (claim_identity (au_live k) c)) (after (claim_identity (au_live k) c)) \<or>
      before (claim_identity (au_live k) c) = None \<and> counter_moved c (Some 0) (after (claim_identity (au_live k) c))"
    if "c \<in> set (au_claims k)" for c
    using r(1)[of "claim_identity (au_live k) c"] r(3)[OF that] by auto
  moreover have "after i = before i \<or> before i = None \<and> after i = Some 0" if "i \<notin> claim_identity (au_live k) ` set (au_claims k)" for i
    using r(1)[of i] r(2)[OF that] by simp
  ultimately show ?thesis by (intro conjI ballI allI impI)
qed


text \<open>What a new row's coordinate must be: one of a claimed range that starts where the stored counter stood and ends
  where it stands afterwards.\<close>

definition takes_fresh ::
  "SemanticCounterClaim list \<Rightarrow> int option \<Rightarrow> int option \<Rightarrow> SemanticCounterScope \<Rightarrow> int \<Rightarrow> bool" where
  "takes_fresh claims before after scope n \<longleftrightarrow>
     (\<exists>c \<in> set claims. cl_scope c = scope \<and> cl_expected_next c \<le> n \<and> n < cl_expected_next c + cl_count c \<and>
        (before = Some (cl_expected_next c) \<or> before = None \<and> cl_expected_next c = 0) \<and>
        after = Some (cl_expected_next c + cl_count c))"

lemma require_allocation_claim_Inr:
  "require_allocation_claim claims scope n = Inr () \<Longrightarrow>
   \<exists>c \<in> set claims. cl_scope c = scope \<and> cl_expected_next c \<le> n \<and> n < cl_expected_next c + cl_count c"
  by (auto simp: require_allocation_claim_def guardR_eq_Inr split: option.split_asm dest!: find_SomeD)

text \<open>(C5) No ordinal, and so no semantic identity, is given out twice. A visit, a work item or a sprint that is not yet
  stored is only inserted with a coordinate that its counter had not passed, inside a range that the counter passes in
  the same transaction. Since counters never move backwards, two commits never allocate one coordinate.\<close>

theorem new_rows_take_fresh_coordinates:
  assumes "unique_identities (db_rows db)" and "commit_authoritative_slice env k db = Inr (db', s)"
  defines "fresh \<equiv> \<lambda>scope. takes_fresh (au_claims k)
      (stored_next (st_counters (db_rows db)) (tc_team_id (au_live k), tc_run_id (au_live k), scope))
      (stored_next (st_counters (db_rows db')) (tc_team_id (au_live k), tc_run_id (au_live k), scope)) scope"
  shows "(\<forall>v \<in> set (st_visits (au_state k)). sv_id v \<notin> sv_id ` set (st_visits (db_rows db)) \<longrightarrow> fresh (visit_scope v) (sv_ordinal v)) \<and>
    (\<forall>w \<in> set (st_work_items (au_state k)). wi_id w \<notin> wi_id ` set (st_work_items (db_rows db)) \<longrightarrow>
       fresh (item_scope w) (wi_creation_sequence w)) \<and>
    (\<forall>p \<in> set (st_sprints (au_state k)). ss_id p \<notin> ss_id ` set (st_sprints (db_rows db)) \<longrightarrow> fresh (sprint_scope p) (ss_ordinal p))"
proof -
  have v: "validate_authoritative (se_scrum env) k = Inr ()" using authoritative_parts[OF assms(2)] by metis
  have u: "unique_identities (au_state k)"
    using authoritative_claims(4)[OF v] by (simp add: validate_state_def validate_uniqueness_def bindR_check guardR_eq_Inr)
  obtain rows scopes where r:
    "if au_state k \<noteq> empty_state then apply_after_images env db k = Inr (rows, scopes) else rows = db_rows db \<and> scopes = {}"
    "\<And>i. stored_next (st_counters rows) i = stored_next (st_counters (db_rows db)) i \<or>
       stored_next (st_counters (db_rows db)) i = None \<and> stored_next (st_counters rows) i = Some 0"
    "\<And>c. c \<in> set (au_claims k) \<Longrightarrow> cl_scope c \<in> scopes \<Longrightarrow> cs_kind (cl_scope c) \<noteq> NATURAL_DECISION_OCCURRENCE \<Longrightarrow>
       stored_next (st_counters rows) (claim_identity (au_live k) c) = Some (cl_expected_next c) \<and>
       stored_next (st_counters (db_rows db')) (claim_identity (au_live k) c) = Some (cl_expected_next c + cl_count c)"
    by (rule claims_after_images[OF assms(1,2)]) blast
  have new: "fresh scope n" if n: "scope \<in> scopes" "require_allocation_claim (au_claims k) scope n = Inr ()"
    "cs_kind scope \<noteq> NATURAL_DECISION_OCCURRENCE" for scope n
  proof -
    obtain c where c: "c \<in> set (au_claims k)" "cl_scope c = scope" "cl_expected_next c \<le> n" "n < cl_expected_next c + cl_count c"
      using require_allocation_claim_Inr[OF n(2)] by blast
    have "stored_next (st_counters rows) (claim_identity (au_live k) c) = Some (cl_expected_next c) \<and>
       stored_next (st_counters (db_rows db')) (claim_identity (au_live k) c) = Some (cl_expected_next c + cl_count c)"
      using r(3)[OF c(1)] n(1,3) c(2) by simp
    then show ?thesis using c r(2)[of "claim_identity (au_live k) c"] unfolding fresh_def takes_fresh_def by force
  qed
  show ?thesis
  proof (cases "au_state k = empty_state")
    case True
    then show ?thesis by (simp add: empty_state_def)
  next
    case False
    then have a: "apply_after_images env db k = Inr (rows, scopes)" using r(1) by simp
    obtain new_items new_sprints new_visits where i:
      "apply_images item_image (\<lambda>w. require_allocation_claim (au_claims k) (item_scope w) (wi_creation_sequence w))
         (st_work_items (au_state k)) (st_work_items (db_rows db)) = Inr (st_work_items rows, new_items)"
      "apply_images sprint_image (\<lambda>s. require_allocation_claim (au_claims k) (sprint_scope s) (ss_ordinal s))
         (st_sprints (au_state k)) (st_sprints (db_rows db)) = Inr (st_sprints rows, new_sprints)"
      "apply_images visit_image (\<lambda>v. require_allocation_claim (au_claims k) (visit_scope v) (sv_ordinal v))
         (st_visits (au_state k)) (st_visits (db_rows db)) = Inr (st_visits rows, new_visits)"
      "scopes = set (map item_scope new_items @ map sprint_scope new_sprints @ map visit_scope new_visits)"
      using apply_after_images_parts[OF a] by blast
    note d = assms(1)[unfolded unique_identities_def] u[unfolded unique_identities_def]
    note n = mutable.images_new[OF i(1)] mutable.images_new[OF i(2)] mutable.images_new[OF i(3)]
    have "fresh (visit_scope v) (sv_ordinal v)" if "v \<in> set new_visits" for v
      using that n(3) d i(4) by (intro new) (auto simp: visit_scope_def)
    moreover have "fresh (item_scope w) (wi_creation_sequence w)" if "w \<in> set new_items" for w
      using that n(1) d i(4) by (intro new) (auto simp: item_scope_def)
    moreover have "fresh (sprint_scope p) (ss_ordinal p)" if "p \<in> set new_sprints" for p
      using that n(2) d i(4) by (intro new) (auto simp: sprint_scope_def)
    ultimately show ?thesis using n d by simp
  qed
qed

section \<open>Replays\<close>

lemma replayed_rows_Inr:
  "replayed_rows key check items rows = Inr () \<Longrightarrow> x \<in> set items \<Longrightarrow> row_at key rows (key x) = Some x"
  by (fastforce simp: replayed_rows_def forR_eq_Inr bindR_check guardR_eq_Inr split: option.split_asm)

context row_image
begin

lemma replayed_images:
  assumes "apply_images img require xs rows = Inr (rows', news)" and "distinct (map key rows)"
    and "replayed_rows key check xs rows = Inr ()"
  shows "rows' = rows \<and> news = []"
  using images_replayed[OF assms(1,2)] replayed_rows_Inr[OF assms(3)] by blast

end

lemma replay_keeps_rows:
  assumes "require_replayed_after_images env (db_rows db) (au_state k) = Inr ()"
    and "apply_after_images env db k = Inr (rows, scopes)" and "unique_identities (db_rows db)"
  shows "rows = db_rows db \<and> scopes = {}"
proof -
  have q: "replayed_rows mi_id (check_member_identity (se_codec env)) (st_member_identities (au_state k)) (st_member_identities (db_rows db)) = Inr ()"
    "replayed_rows ov_id (check_overlay (se_codec env)) (st_overlays (au_state k)) (st_overlays (db_rows db)) = Inr ()"
    "replayed_rows consumption_identity check_consumption (st_consumption (au_state k)) (st_consumption (db_rows db)) = Inr ()"
    "replayed_rows wi_id (check_work_item (se_codec env)) (st_work_items (au_state k)) (st_work_items (db_rows db)) = Inr ()"
    "replayed_rows fa_id (check_factor (se_codec env)) (st_factors (au_state k)) (st_factors (db_rows db)) = Inr ()"
    "replayed_rows ss_id (check_sprint (se_codec env)) (st_sprints (au_state k)) (st_sprints (db_rows db)) = Inr ()"
    "replayed_rows sc_id (check_scope_entry (se_codec env)) (st_scope (au_state k)) (st_scope (db_rows db)) = Inr ()"
    "replayed_rows sv_id (check_visit (se_codec env)) (st_visits (au_state k)) (st_visits (db_rows db)) = Inr ()"
    "replayed_rows vs_visit_id (check_sample (se_scrum env)) (st_samples (au_state k)) (st_samples (db_rows db)) = Inr ()"
    using assms(1) by (simp_all add: require_replayed_after_images_def Let_def bindR_check)
  have d: "distinct (map mi_id (st_member_identities (db_rows db)))" "distinct (map ov_id (st_overlays (db_rows db)))"
    "distinct (map consumption_identity (st_consumption (db_rows db)))" "distinct (map wi_id (st_work_items (db_rows db)))"
    "distinct (map fa_id (st_factors (db_rows db)))" "distinct (map ss_id (st_sprints (db_rows db)))"
    "distinct (map sc_id (st_scope (db_rows db)))" "distinct (map sv_id (st_visits (db_rows db)))"
    "distinct (map vs_visit_id (st_samples (db_rows db)))"
    using assms(3) by (simp_all add: unique_identities_def)
  obtain n1 n2 n3 n4 n5 n6 n7 n8 n9 where i:
    "apply_images (member_image (se_codec env)) free_row (st_member_identities (au_state k)) (st_member_identities (db_rows db)) =
       Inr (st_member_identities rows, n1)"
    "apply_images overlay_image free_row (st_overlays (au_state k)) (st_overlays (db_rows db)) = Inr (st_overlays rows, n2)"
    "apply_images consumption_image free_row (st_consumption (au_state k)) (st_consumption (db_rows db)) = Inr (st_consumption rows, n3)"
    "apply_images item_image (\<lambda>w. require_allocation_claim (au_claims k) (item_scope w) (wi_creation_sequence w))
       (st_work_items (au_state k)) (st_work_items (db_rows db)) = Inr (st_work_items rows, n4)"
    "apply_images (factor_image (se_codec env)) free_row (st_factors (au_state k)) (st_factors (db_rows db)) = Inr (st_factors rows, n5)"
    "apply_images sprint_image (\<lambda>s. require_allocation_claim (au_claims k) (sprint_scope s) (ss_ordinal s))
       (st_sprints (au_state k)) (st_sprints (db_rows db)) = Inr (st_sprints rows, n6)"
    "apply_images scope_image free_row (st_scope (au_state k)) (st_scope (db_rows db)) = Inr (st_scope rows, n7)"
    "apply_images visit_image (\<lambda>v. require_allocation_claim (au_claims k) (visit_scope v) (sv_ordinal v))
       (st_visits (au_state k)) (st_visits (db_rows db)) = Inr (st_visits rows, n8)"
    "apply_images (sample_image (se_scrum env)) free_row (st_samples (au_state k)) (st_samples (db_rows db)) = Inr (st_samples rows, n9)"
    "seed_owner_counters (tc_team_id (au_live k)) (tc_run_id (au_live k)) (map wi_id n4) (st_counters (db_rows db)) = Inr (st_counters rows)"
    "st_evaluations rows = st_evaluations (db_rows db)"
    "scopes = set (map item_scope n4 @ map sprint_scope n6 @ map visit_scope n8)"
    using apply_after_images_parts[OF assms(2)] by blast
  note e = members.replayed_images[OF i(1) d(1) q(1)] mutable.replayed_images[OF i(2) d(2) q(2)]
    mutable.replayed_images[OF i(3) d(3) q(3)] mutable.replayed_images[OF i(4) d(4) q(4)]
    immutable.replayed_images[OF i(5) d(5) q(5)] mutable.replayed_images[OF i(6) d(6) q(6)]
    mutable.replayed_images[OF i(7) d(7) q(7)] mutable.replayed_images[OF i(8) d(8) q(8)]
    immutable.replayed_images[OF i(9) d(9) q(9)]
  have "st_counters rows = st_counters (db_rows db)"
    using i(10) e(4) by (simp add: seed_owner_counters_def owner_counter_scopes_def insert_rows_def)
  then show ?thesis using e i(11,12) by (intro conjI ScrumCollections.equality) simp_all
qed

lemma replayed_ledger_kept:
  assumes "replayed_ledger check live ds l = Inr ()" and "persist_drafts check live ps l = Inr (l', rows)" and "map snd ps = ds"
  shows "l' = l"
  using assms
proof (induction ps arbitrary: ds rows)
  case (Cons p ps)
  obtain n d where p: "p = (n, d)" by fastforce
  then obtain ds' where ds: "ds = d # ds'" "map snd ps = ds'" using Cons.prems(3) by auto
  then obtain row where row: "by_key l (dr_semantic_key d) = Some row" "check (st_draft row) = Inr ()" "require_identical live d row = Inr ()"
    using Cons.prems(1) by (auto simp: replayed_ledger_def bindR_check split: option.split_asm)
  then have "resolve_draft check live p l = Inr (l, row)" by (simp add: resolve_draft_def p)
  then obtain rows1 where "persist_drafts check live ps l = Inr (l', rows1)"
    using Cons.prems(2) by (auto elim!: bindR_InrE)
  moreover have "replayed_ledger check live ds' l = Inr ()" using Cons.prems(1) ds by (simp add: replayed_ledger_def bindR_check)
  ultimately show ?case using Cons.IH ds(2) by simp
qed simp

lemma require_allocation_replay_Inr:
  assumes "require_allocation_replay live rows claims = Inr ()" and "c \<in> set claims"
  shows "\<exists>n. stored_next rows (claim_identity live c) = Some n \<and> cl_expected_next c + cl_count c \<le> n"
proof -
  obtain counter where c: "load_counter live c rows = Inr counter" "claim_is_advanced counter c"
    using assms by (auto simp: require_allocation_replay_def forR_eq_Inr guardR_eq_Inr elim!: bindR_InrE)
  then show ?thesis using load_counter_Inr[OF c(1)] by (auto simp: claim_is_advanced_def stored_next_def split: option.split_asm)
qed

lemma natural_replay_defined:
  assumes "apply_claims (apply_counter_claim env live evaluations natural scopes) ks rows = Inr (rows', ns)" and "c \<in> set ks"
  shows "\<exists>b. natural_replay env live evaluations natural c = Inr b"
  using assms
proof (induction ks arbitrary: rows ns)
  case (Cons k ks)
  then obtain rows1 n ns1 where s: "apply_counter_claim env live evaluations natural scopes k rows = Inr (rows1, n)"
    "apply_claims (apply_counter_claim env live evaluations natural scopes) ks rows1 = Inr (rows', ns1)"
    by (auto elim!: bindR_InrE)
  then show ?case using Cons.IH[OF s(2)] Cons.prems(2) by (auto simp: apply_counter_claim_def elim!: bindR_InrE)
qed simp

lemma replayed_claims_keep:
  assumes "apply_claims (apply_counter_claim env live evaluations natural scopes) ks rows = Inr (rows', ns)"
    and "distinct (map counter_identity rows)"
    and "\<And>c. c \<in> set ks \<Longrightarrow> natural_replay env live evaluations natural c = Inr True \<or>
      (\<exists>n. stored_next rows (claim_identity live c) = Some n \<and> cl_expected_next c < n)"
  shows "rows' = rows"
  using assms
proof (induction ks arbitrary: ns)
  case (Cons k ks)
  then obtain rows1 n ns1 where s: "apply_counter_claim env live evaluations natural scopes k rows = Inr (rows1, n)"
    "apply_claims (apply_counter_claim env live evaluations natural scopes) ks rows1 = Inr (rows', ns1)"
    by (auto elim!: bindR_InrE)
  have "rows1 = rows"
  proof (cases "natural_replay env live evaluations natural k = Inr True")
    case True
    then show ?thesis using s(1) by (auto simp: apply_counter_claim_def elim!: bindR_InrE)
  next
    case False
    then have ne: "stored_next rows (claim_identity live k) \<noteq> Some (cl_expected_next k)" using Cons.prems(3)[of k] by auto
    then have "snd (advance_counter_row live k rows) \<noteq> 1" using swap_one[OF _ Cons.prems(2)] by blast
    then have "fst (advance_counter_row live k rows) = rows" using swap_none[OF _ Cons.prems(2)] by blast
    then show ?thesis
      using s(1) \<open>snd _ \<noteq> 1\<close> by (auto simp: apply_counter_claim_def case_prod_beta Let_def elim!: bindR_InrE split: if_splits)
  qed
  then show ?case using Cons.IH[OF _ Cons.prems(2)] s(2) Cons.prems(3) by (metis list.set_intros(2))
qed simp


lemma mapped_evaluation_Inr: "mapped_evaluation env row = Inr e \<Longrightarrow> e = row"
  by (auto simp: mapped_evaluation_def split: option.split_asm sum.split_asm)

lemma natural_rows_Inr:
  "natural_rows env live rows claim = Inr (e, o') \<Longrightarrow>
   e = List.find (\<lambda>e. ne_business_date e = nc_business_date claim) (filter (natural_row_of live claim) rows)"
  by (auto simp: natural_rows_def Let_def elim!: bindR_InrE dest: mapped_evaluation_Inr)

text \<open>A claim whose eligibility is stored is found again.\<close>

lemma resolved_again:
  assumes "require_replayed_natural_claims env live rows claims = Inr ()" and "set ks \<subseteq> set claims"
    and "resolve_natural_claims env live ks rows = Inr (rows', es)"
  shows "rows' = rows"
  using assms(2,3)
proof (induction ks arbitrary: es)
  case (Cons k ks)
  then obtain rows1 e es1 where s: "resolve_natural_claim env live k rows = Inr (rows1, e)"
    "resolve_natural_claims env live ks rows1 = Inr (rows', es1)"
    by (auto elim!: bindR_InrE)
  have "\<exists>e o'. natural_rows env live rows k = Inr (Some e, o')"
    using assms(1) Cons.prems(1) by (fastforce simp: require_replayed_natural_claims_def forR_eq_Inr guardR_eq_Inr elim!: bindR_InrE)
  then have "rows1 = rows" using s(1) by (auto simp: resolve_natural_claim_def split: if_splits)
  then show ?case using Cons.IH s(2) Cons.prems(1) by simp
qed simp

lemma natural_replay_True:
  assumes "require_replayed_natural_claims env live rows claims = Inr ()" and "natural_replay env live rows claims k = Inr b"
    and "cs_kind (cl_scope k) = NATURAL_DECISION_OCCURRENCE"
  shows b
proof -
  obtain claim where c: "claim \<in> set claims" "bindR (natural_rows env live rows claim) (\<lambda>(eligibility, _). Inr (eligibility \<noteq> None)) = Inr b"
    using assms(2,3) by (auto simp: natural_replay_def elim!: bindR_InrE dest: find_or_stop_Inr)
  moreover have "\<exists>e o'. natural_rows env live rows claim = Inr (Some e, o')"
    using assms(1) c(1) by (fastforce simp: require_replayed_natural_claims_def forR_eq_Inr guardR_eq_Inr elim!: bindR_InrE)
  ultimately show b by auto
qed

text \<open>(C7) A replay is idempotent. When a committed claim of the command on an ordinal or a sequence is already advanced and the command is accepted, then
  every row it carries is stored with that content and every record of its ledgers is on file, so nothing is written
  but the runtime row: no Scrum row, no counter, no evaluation and no ledger record of any team changes.\<close>

theorem replay_changes_only_runtime:
  assumes "unique_identities (db_rows db)" and "preflight_replay env (db_rows db) k = Inr True"
    and "commit_authoritative_slice env k db = Inr (db', s)"
  shows "\<exists>runtimes. db' = db\<lparr>db_live := (db_live db)\<lparr>ld_runtimes := runtimes\<rparr>\<rparr>"
proof -
  obtain runtimes runtime replay rows scopes where p: "validate_authoritative (se_scrum env) k = Inr ()"
    "preflight_replay env (db_rows db) k = Inr replay"
    "replay \<Longrightarrow> require_replayed_ledgers (se_codec env) (au_live k) (db_live db) = Inr ()"
    "if au_state k \<noteq> empty_state then apply_after_images env db k = Inr (rows, scopes) else rows = db_rows db \<and> scopes = {}"
    "apply_claims (apply_counter_claim (se_scrum env) (au_live k) (st_evaluations rows) (au_natural k) scopes)
       (ordered_claims (au_claims k)) (st_counters rows) = Inr (st_counters (db_rows db'), ca_counters s)"
    "resolve_natural_claims (se_scrum env) (au_live k) (ordered_natural_claims (au_natural k)) (st_evaluations rows) =
       Inr (st_evaluations (db_rows db'), ca_evaluations s)"
    "persist_ledgers (se_codec env) (au_live k) runtime ((db_live db)\<lparr>ld_runtimes := runtimes\<rparr>) = Inr (db_live db', ca_live s)"
    "db_rows db' = rows\<lparr>st_counters := st_counters (db_rows db'), st_evaluations := st_evaluations (db_rows db')\<rparr>"
    "db' = db\<lparr>db_rows := db_rows db', db_live := db_live db'\<rparr>"
    by (rule authoritative_parts[OF assms(3)]) (rule that; (assumption | blast))
  have ledgers: "require_replayed_ledgers (se_codec env) (au_live k) (db_live db) = Inr ()" using p(2,3) assms(2) by simp
  have q: "require_allocation_replay (au_live k) (st_counters (db_rows db)) (allocation_claims (au_claims k)) = Inr ()"
    "require_replayed_after_images env (db_rows db) (au_state k) = Inr ()"
    "require_replayed_natural_claims (se_scrum env) (au_live k) (st_evaluations (db_rows db)) (au_natural k) = Inr ()"
    using assms(2) by (auto simp: preflight_replay_def Let_def elim!: bindR_InrE split: if_splits)
  have rows: "rows = db_rows db \<and> scopes = {}"
    using p(4) replay_keeps_rows[OF q(2) _ assms(1)] by (cases "au_state k = empty_state") simp_all
  have "set (ordered_natural_claims (au_natural k)) \<subseteq> set (au_natural k)" by (simp add: ordered_natural_claims_def)
  then have evaluations: "st_evaluations (db_rows db') = st_evaluations (db_rows db)"
    using resolved_again[OF q(3)] p(6) rows by simp
  have pos: "0 < cl_count c" if "c \<in> set (au_claims k)" for c
    using that authoritative_claims(2)[OF p(1)] by (rule positive_count)
  have "st_counters (db_rows db') = st_counters rows"
  proof (rule replayed_claims_keep[OF p(5)])
    show "distinct (map counter_identity (st_counters rows))" using rows assms(1) by (simp add: unique_identities_def)
    fix c assume "c \<in> set (ordered_claims (au_claims k))"
    then have c: "c \<in> set (au_claims k)" by (simp add: sorted_claims(1))
    show "natural_replay (se_scrum env) (au_live k) (st_evaluations rows) (au_natural k) c = Inr True \<or>
      (\<exists>n. stored_next (st_counters rows) (claim_identity (au_live k) c) = Some n \<and> cl_expected_next c < n)"
    proof (cases "cs_kind (cl_scope c) = NATURAL_DECISION_OCCURRENCE")
      case True
      obtain b where b: "natural_replay (se_scrum env) (au_live k) (st_evaluations (db_rows db)) (au_natural k) c = Inr b"
        using natural_replay_defined[OF p(5)] c sorted_claims(1) rows by blast
      then show ?thesis using natural_replay_True[OF q(3) b True] rows by simp
    next
      case False
      then have "c \<in> set (allocation_claims (au_claims k))" using c by (simp add: allocation_claims_def)
      from require_allocation_replay_Inr[OF q(1) this] show ?thesis using pos[OF c] rows by force
    qed
  qed
  then have "db_rows db' = db_rows db" using p(8) rows evaluations by simp
  moreover have "db_live db' = (db_live db)\<lparr>ld_runtimes := runtimes\<rparr>"
    using p(7) ledgers unfolding require_replayed_ledgers_def bindR_check persist_ledgers_def
    by (auto elim!: bindR_Inr2E dest!: replayed_ledger_kept[where ps = "enumerate 0 _"])
  ultimately show ?thesis using p(9) by (intro exI[of _ runtimes]) simp
qed

end
