(* ===== verification/Store_Examples.thy ===== *)
theory Store_Examples
  imports Scrum_Store Tick_Examples
begin

text \<open>
  The store of the sample team: the command that brings in its first visit, the same command replayed, and the
  whole tick of \<open>Tick_Examples\<close> committed. The witnesses of the theorems in \<open>Scrum_Store\<close>.
\<close>

definition demo_store :: store_env where
  "demo_store = \<lparr>se_scrum = demo_env, se_parse = (\<lambda>_. Inr sample_blueprint)\<rparr>"

definition stored_runtime :: TeamRuntime where
  "stored_runtime = \<lparr>rt_id = 44, rt_team_id = 69, rt_run_id = 42, rt_version = 3, rt_state = ''RUNNING'',
     rt_simulation_time = 637200000000, rt_next_wake_at = Some 637200000000, rt_created_at = 0, rt_updated_at = 637200000000\<rparr>"

definition demo_live_db :: live_db where
  "demo_live_db = \<lparr>ld_runtimes = [stored_runtime], ld_activity = \<lparr>lg_rows = [], lg_next = 1\<rparr>,
     ld_ground_truth = \<lparr>lg_rows = [], lg_next = 1\<rparr>, ld_projection = \<lparr>lg_rows = [], lg_next = 1\<rparr>\<rparr>"

definition demo_db :: "ScrumCollections \<Rightarrow> scrum_db" where
  "demo_db rows = \<lparr>db_teams = [\<lparr>tr_id = 69, tr_idempotency_key = ''k'', tr_blueprint_sha256 = hex_text 64 0, tr_name = ''A'',
        tr_methodology = ''SCRUM'', tr_created_at = 0\<rparr>],
     db_blueprints = [\<lparr>br_id = 1, br_team_id = 69, br_schema_version = ''2.0'', br_canonical_json = ''{}'', br_sha256 = hex_text 64 0,
        br_recorded_at = 0\<rparr>],
     db_runs = [\<lparr>rn_id = 42, rn_team_id = 69, rn_ordinal = 0, rn_state = ''ACTIVE'', rn_created_at = 0\<rparr>], db_rows = rows, db_live = demo_live_db\<rparr>"

text \<open>The state before the first visit, with the visit counter at zero, and the state with the visit.\<close>

definition counted :: "int \<Rightarrow> ScrumCollections" where
  "counted n = demo_state\<lparr>st_counters := [demo_counter\<lparr>sn_next_value := n\<rparr>]\<rparr>"

definition unvisited :: ScrumCollections where
  "unvisited = (counted 0)\<lparr>st_visits := [], st_samples := []\<rparr>"

lemma counter_1: "demo_counter\<lparr>sn_next_value := 1\<rparr> = demo_counter"
  by (simp add: demo_counter_def)

lemma counted_1: "counted 1 = demo_state"
  unfolding counted_def counter_1 by (simp add: demo_state_def)

lemma store_sel: "se_scrum demo_store = demo_env" "se_parse demo_store t = Inr sample_blueprint"
  "db_rows (demo_db rows) = rows" "db_live (demo_db rows) = demo_live_db" "ld_runtimes demo_live_db = [stored_runtime]"
  by (simp_all add: demo_store_def demo_db_def demo_live_db_def)

lemma counted_sel:
  "st_member_identities (counted n) = [demo_identity]" "st_overlays (counted n) = []" "st_consumption (counted n) = []"
  "st_work_items (counted n) = [demo_work]" "st_factors (counted n) = []" "st_sprints (counted n) = []"
  "st_scope (counted n) = []" "st_visits (counted n) = [demo_visit]" "st_samples (counted n) = [demo_sample]"
  "st_counters (counted n) = [demo_counter\<lparr>sn_next_value := n\<rparr>]" "st_evaluations (counted n) = []"
  by (simp_all add: counted_def demo_collections)

lemma unvisited_sel:
  "st_member_identities unvisited = [demo_identity]" "st_overlays unvisited = []" "st_consumption unvisited = []"
  "st_work_items unvisited = [demo_work]" "st_factors unvisited = []" "st_sprints unvisited = []"
  "st_scope unvisited = []" "st_visits unvisited = []" "st_samples unvisited = []"
  "st_counters unvisited = [demo_counter\<lparr>sn_next_value := 0\<rparr>]" "st_evaluations unvisited = []"
  by (simp_all add: unvisited_def counted_sel)

lemma demo_authority: "load_authority demo_store (demo_db rows) 69 (Some 42) = Inr sample_blueprint"
proof -
  have "from_canonical_json demo_store ''{}'' = Inr sample_blueprint"
    by (simp add: from_canonical_json_def store_sel demo_sel demo_decode demo_encode sample_blueprint_valid)
  moreover have "team_rng_id demo_codec (hex_text 64 0) = Inr 69"
    by (simp add: team_rng_id_def lower_hex_text semantic_uuid_def demo_sha)
  moreover have "run_rng_id demo_codec 69 0 = Inr 42"
    by (simp add: run_rng_id_def ordinal_uuid_def ordinal_path_def semantic_uuid_def demo_sha int_text_0)
  ultimately show ?thesis
    by (simp add: load_authority_def row_at_def demo_db_def validated_blueprint_def validate_run_def store_sel demo_sel demo_decode demo_sha)
qed

lemma counter_ok: "n \<in> {0, 1} \<Longrightarrow> check_counter (demo_counter\<lparr>sn_next_value := n\<rparr>) = Inr ()"
  by (auto simp: check_counter_def demo_counter_def check_counter_scope_def require_text_def is_space_def scope_keys_def
      require_counter_value_def MAX_COUNTER_NEXT_VALUE_def MAX_SAFE_INTEGER_def U53_DENOMINATOR_def)

lemma ordered_demo: "ordered (of_team_run 69 42 (counted n)) = counted n" "ordered (of_team_run 69 42 unvisited) = unvisited"
  by (rule ScrumCollections.equality; simp add: ordered_def of_team_run_def counted_sel unvisited_sel demo_coordinates)+

lemma counted_snapshot:
  assumes "n \<in> {0, 1}" shows "validate_snapshot demo_env (counted n) = Inr ()"
proof -
  have p: "validate_open_visit_status demo_state = Inr ()"
    "validate_sample_links (st_visits demo_state) (st_samples demo_state) = Inr ()" "validate_member_references demo_state = Inr ()"
    "validate_work_references demo_state = Inr ()" "validate_sample_cardinality demo_state = Inr ()"
    using demo_snapshot by (simp_all add: validate_snapshot_def validate_state_def bindR_check)
  have "validate_collections demo_env (counted n) = Inr ()"
    using counter_ok[OF assms] by (simp add: validate_collections_def counted_sel demo_sel demo_identity_ok demo_checks demo_sample_ok)
  moreover have "validate_uniqueness (counted n) = Inr ()" "validate_partial_uniqueness (counted n) = Inr ()"
    "validate_one_team_run (counted n) = Inr ()"
    by (simp_all add: validate_uniqueness_def unique_identities_def counted_sel validate_partial_uniqueness_def
        require_unique_coordinates_def validate_one_team_run_def state_teams_def state_runs_def demo_coordinates)
  moreover have "validate_open_visit_status (counted n) = Inr ()"
    "validate_sample_links (st_visits (counted n)) (st_samples (counted n)) = Inr ()" "validate_member_references (counted n) = Inr ()"
    "validate_work_references (counted n) = Inr ()" "validate_sample_cardinality (counted n) = Inr ()"
    using p by (simp_all add: counted_def validate_open_visit_status_def validate_member_references_def
        validate_work_references_def validate_sample_cardinality_def)
  moreover have "validate_counter_references (counted n) = Inr ()"
    by (simp add: validate_counter_references_def counted_sel demo_coordinates) (simp add: demo_counter_def)
  ultimately show ?thesis by (simp add: validate_snapshot_def validate_state_def)
qed

lemma demo_team: "blueprint_team demo_codec sample_blueprint = Inr 69"
proof -
  have "bp_canonical_document sample_blueprint = ''{}''" by (simp add: sample_blueprint_def)
  then show ?thesis by (simp add: blueprint_team_def demo_decode team_rng_id_def demo_sha lower_hex_text semantic_uuid_def)
qed

lemma counted_against: "validate_against demo_env (counted n) sample_blueprint = Inr ()"
proof -
  have "validate_blueprint_team demo_codec (counted n) sample_blueprint = Inr ()"
    by (simp add: validate_blueprint_team_def demo_team state_teams_def counted_sel demo_coordinates)
  then show ?thesis
    using demo_against
    by (simp add: validate_against_def bindR_check demo_sel counted_def validate_blueprint_members_def validate_blueprint_work_def
        validate_blueprint_visits_def authenticate_samples_def)
qed

lemma unvisited_valid:
  "validate_snapshot demo_env unvisited = Inr ()" "validate_against demo_env unvisited sample_blueprint = Inr ()"
proof -
  have "validate_collections demo_env unvisited = Inr ()"
    using counter_ok[of 0] by (simp add: validate_collections_def unvisited_sel demo_sel demo_identity_ok demo_checks)
  moreover have "validate_counter_references unvisited = Inr ()"
    by (simp add: validate_counter_references_def unvisited_sel demo_coordinates) (simp add: demo_counter_def)
  ultimately show "validate_snapshot demo_env unvisited = Inr ()"
    by (simp add: validate_snapshot_def validate_state_def validate_uniqueness_def unique_identities_def unvisited_sel
        validate_partial_uniqueness_def require_unique_coordinates_def validate_one_team_run_def state_teams_def state_runs_def
        demo_coordinates validate_open_visit_status_def validate_sample_links_def validate_member_references_def
        validate_work_references_def validate_sample_cardinality_def)
  show "validate_against demo_env unvisited sample_blueprint = Inr ()"
    using counted_against[of 0]
    by (simp add: validate_against_def bindR_check demo_sel unvisited_def validate_blueprint_members_def validate_blueprint_work_def
        validate_blueprint_visits_def authenticate_samples_def counted_sel validate_blueprint_team_def demo_team state_teams_def
        demo_coordinates)
qed

lemma load_valid:
  assumes "ordered (of_team_run 69 42 rows) = st" and "validate_snapshot demo_env st = Inr ()"
    and "validate_against demo_env st sample_blueprint = Inr ()"
  shows "load_validated_snapshot demo_store rows 69 42 sample_blueprint = Inr st"
proof -
  have "validate_collections demo_env st = Inr ()" using assms(2) by (simp add: validate_snapshot_def validate_state_def bindR_check)
  then show ?thesis using assms by (simp add: load_validated_snapshot_def store_sel snapshot_def)
qed

section \<open>The first visit\<close>

definition visit_command :: AuthoritativeTickSliceCommit where
  "visit_command = demo_command\<lparr>au_state := demo_state\<lparr>st_counters := []\<rparr>, au_claims := [visit_claim_demo], au_natural := []\<rparr>"

lemma command_sel: "au_state visit_command = demo_state\<lparr>st_counters := []\<rparr>" "au_claims visit_command = [visit_claim_demo]"
  "au_natural visit_command = []" "au_live visit_command = au_live demo_command" "tc_team_id (au_live demo_command) = 69"
  "tc_run_id (au_live demo_command) = 42" "tc_activity (au_live demo_command) = []" "tc_ground_truth (au_live demo_command) = []"
  "tc_projection_intents (au_live demo_command) = []" "tc_expected_runtime_version (au_live demo_command) = 3"
  by (simp_all add: visit_command_def demo_command_def)

lemma visit_command_state: "validate_state demo_env (demo_state\<lparr>st_counters := []\<rparr>) = Inr ()"
proof -
  have "validate_collections demo_env (demo_state\<lparr>st_counters := []\<rparr>) = Inr ()"
    by (simp add: validate_collections_def demo_collections demo_sel demo_identity_ok demo_checks demo_sample_ok)
  then show ?thesis
    by (simp add: validate_state_def validate_uniqueness_def unique_identities_def demo_collections
        validate_partial_uniqueness_def require_unique_coordinates_def validate_one_team_run_def state_teams_def state_runs_def
        demo_coordinates validate_open_visit_status_def validate_sample_links_def dict_of_def)
qed

lemma visit_command_valid: "validate_authoritative demo_env visit_command = Inr ()"
proof -
  have live: "validate_commit demo_codec (au_live demo_command) = Inr ()" "check_claim visit_claim_demo = Inr ()"
    using demo_command_valid by (simp_all add: validate_authoritative_def demo_sel bindR_check forR_eq_Inr) (simp add: demo_command_def)
  have coordinates: "validate_coordinates (demo_state\<lparr>st_counters := []\<rparr>) 69 42 = Inr ()"
    by (simp add: validate_coordinates_def state_teams_def state_runs_def demo_collections demo_coordinates)
  have o: "sv_ordinal demo_visit = 0" by (simp add: demo_visit_def)
  have "validate_claim_bindings demo_codec (demo_state\<lparr>st_counters := []\<rparr>) [visit_claim_demo] [] = Inr ()"
    by (simp add: validate_claim_bindings_def demo_collections unique_claims_def unique_natural_claims_def dict_of_def Let_def
        visit_claim_demo_def validate_natural_bindings_def validate_visible_natural_owners_def demo_coordinates
        validate_allocation_ranges_def validate_allocation_range_def coordinates_for_scope_def validate_allocated_ids_def
        identities_match_def demo_ids o)
  then show ?thesis
    using live coordinates visit_command_state
    by (simp add: validate_authoritative_def demo_sel command_sel)
qed

lemma demo_current: "load_current_snapshot demo_store unvisited 69 (Some 42) sample_blueprint = Inr unvisited"
  "load_current_snapshot demo_store demo_state 69 (Some 42) sample_blueprint = Inr demo_state"
  using load_valid[OF ordered_demo(2) unvisited_valid] load_valid[OF ordered_demo(1)[of 1] counted_snapshot counted_against]
  by (simp_all add: load_current_snapshot_def counted_1)

lemma ordered_counted: "ordered (counted n) = counted n"
  by (rule ScrumCollections.equality) (simp_all add: ordered_def counted_sel)

lemma merged_demo: "merged_snapshot unvisited (demo_state\<lparr>st_counters := []\<rparr>) = counted 0"
  "merged_snapshot demo_state (demo_state\<lparr>st_counters := []\<rparr>) = counted 1"
  by (rule ScrumCollections.equality;
      simp add: merged_snapshot_def ordered_def unvisited_sel demo_collections counted_sel merged_def dict_of_def counter_1)+

lemma demo_candidate: "candidate_snapshot demo_store (demo_db unvisited) (demo_state\<lparr>st_counters := []\<rparr>) = Inr (counted 0)"
  "candidate_snapshot demo_store (demo_db demo_state) (demo_state\<lparr>st_counters := []\<rparr>) = Inr (counted 1)"
  by (simp_all add: candidate_snapshot_def state_coordinates_def state_teams_def state_runs_def demo_collections demo_coordinates
      demo_authority store_sel demo_current merged_demo snapshot_def counted_snapshot counted_against)

lemma free_row_ok [simp]: "free_row x = Inr ()" by (simp add: free_row_def)

lemma demo_images:
  "apply_after_images demo_store (demo_db unvisited) visit_command =
     Inr (counted 0, {visit_scope demo_visit})"
  "apply_after_images demo_store (demo_db demo_state) visit_command = Inr (demo_state, {})"
proof -
  have o: "sv_ordinal demo_visit = 0" "vs_visit_id demo_sample = 44" by (simp_all add: demo_visit_def demo_coordinates)
  have m: "member_image demo_codec demo_identity [demo_identity] = Inr ([demo_identity], False)"
    by (simp add: member_image_def immutable_image_def row_at_def demo_identity_ok)
  have w: "item_image demo_work [demo_work] = Inr ([demo_work], False)"
    by (simp add: after_image_def row_at_def write_row_def)
  have v: "visit_image demo_visit [] = Inr ([demo_visit], True)" "visit_image demo_visit [demo_visit] = Inr ([demo_visit], False)"
    by (simp_all add: after_image_def row_at_def write_row_def)
  have s: "sample_image demo_env demo_sample [] = Inr ([demo_sample], True)"
    "sample_image demo_env demo_sample [demo_sample] = Inr ([demo_sample], False)"
    by (simp_all add: immutable_image_def row_at_def demo_sample_ok)
  have c: "require_allocation_claim [visit_claim_demo] (visit_scope demo_visit) 0 = Inr ()"
    by (simp add: require_allocation_claim_def visit_claim_demo_def visit_scope_def demo_coordinates)
  have seed: "seed_owner_counters t r [] rows = Inr rows" for t r rows
    by (simp add: seed_owner_counters_def owner_counter_scopes_def insert_rows_def)
  show "apply_after_images demo_store (demo_db unvisited) visit_command = Inr (counted 0, {visit_scope demo_visit})"
    by (simp add: apply_after_images_def command_sel store_sel demo_sel visit_command_state demo_candidate demo_collections unvisited_sel
        m w v s c seed o) (simp add: counted_def demo_state_def empty_state_def)
  show "apply_after_images demo_store (demo_db demo_state) visit_command = Inr (demo_state, {})"
    by (simp add: apply_after_images_def command_sel store_sel demo_sel visit_command_state demo_candidate demo_collections
        m w v s c seed o)
qed


lemma claim_demo_sel: "cl_scope visit_claim_demo = \<lparr>cs_kind = VISIT_ORDINAL, cs_scope_id = 59, cs_scope_key = ''VISIT''\<rparr>"
  "cl_expected_next visit_claim_demo = 0" "cl_count visit_claim_demo = 1"
  by (simp_all add: visit_claim_demo_def)

lemma demo_counter_at:
  "row_at counter_identity [demo_counter\<lparr>sn_next_value := n\<rparr>] (claim_identity (au_live demo_command) visit_claim_demo) =
     Some (demo_counter\<lparr>sn_next_value := n\<rparr>)"
  by (simp add: row_at_def counter_identity_def command_sel claim_demo_sel) (simp add: demo_counter_def)

lemma demo_load_counter:
  "n \<in> {0, 1} \<Longrightarrow> load_counter (au_live demo_command) visit_claim_demo [demo_counter\<lparr>sn_next_value := n\<rparr>] =
     Inr (Some (demo_counter\<lparr>sn_next_value := n\<rparr>))"
  using counter_ok by (simp add: load_counter_def demo_counter_at)

lemma demo_preflight: "preflight_replay demo_store unvisited visit_command = Inr False"
  "preflight_replay demo_store demo_state visit_command = Inr True"
proof -
  have a: "allocation_claims [visit_claim_demo] = [visit_claim_demo]" by (simp add: allocation_claims_def claim_demo_sel)
  show "preflight_replay demo_store unvisited visit_command = Inr False"
    by (simp add: preflight_replay_def command_sel a unvisited_sel demo_load_counter claim_is_advanced_def claim_demo_sel)
  have "load_counter (au_live demo_command) visit_claim_demo [demo_counter] = Inr (Some demo_counter)" "sn_next_value demo_counter = 1"
    using demo_load_counter[of 1] by (simp_all add: counter_1) (simp add: demo_counter_def)
  then show "preflight_replay demo_store demo_state visit_command = Inr True"
    by (simp add: preflight_replay_def command_sel a demo_collections claim_is_advanced_def claim_demo_sel
        require_allocation_replay_def require_replayed_after_images_def replayed_rows_def row_at_def store_sel demo_sel demo_identity_ok
        demo_checks demo_sample_ok require_replayed_natural_claims_def)
qed

lemma demo_runtime_advanced: "advance_runtime (au_live demo_command) [stored_runtime] =
    Inr ([cas_values (au_live demo_command) stored_runtime], cas_values (au_live demo_command) stored_runtime)"
proof -
  have "cas_matches (au_live demo_command) stored_runtime" "rt_team_id (cas_values (au_live demo_command) stored_runtime) = 69"
    by (simp_all add: cas_matches_def command_sel cas_values_def) (simp_all add: stored_runtime_def)
  then show ?thesis by (simp add: advance_runtime_def get_runtime_def command_sel)
qed

lemma demo_claims_applied:
  "apply_counter_claims demo_store visit_command {visit_scope demo_visit} (counted 0) = Inr ([demo_counter], [demo_counter])"
  "apply_counter_claims demo_store visit_command {} demo_state = Inr ([demo_counter], [demo_counter])"
proof -
  have o: "ordered_claims [visit_claim_demo] = [visit_claim_demo]" by (simp add: ordered_claims_def)
  have n: "natural_replay e l ev [] visit_claim_demo = Inr False" for e l ev by (simp add: natural_replay_def claim_demo_sel)
  have c: "load_counter (au_live demo_command) visit_claim_demo [demo_counter] = Inr (Some demo_counter)" "sn_next_value demo_counter = 1"
    using demo_load_counter[of 1] by (simp_all add: counter_1) (simp add: demo_counter_def)
  have s: "advance_counter_row (au_live demo_command) visit_claim_demo [demo_counter\<lparr>sn_next_value := 0\<rparr>] = ([demo_counter], 1)"
    "advance_counter_row (au_live demo_command) visit_claim_demo [demo_counter] = ([demo_counter], 0)"
    by (simp_all add: advance_counter_row_def swap_matches_def counter_identity_def command_sel claim_demo_sel demo_counter_def)
  show "apply_counter_claims demo_store visit_command {visit_scope demo_visit} (counted 0) = Inr ([demo_counter], [demo_counter])"
    by (simp add: apply_counter_claims_def command_sel preflight_natural_claims_def o counted_sel apply_counter_claim_def demo_load_counter
        n s require_counter_def c)
  show "apply_counter_claims demo_store visit_command {} demo_state = Inr ([demo_counter], [demo_counter])"
    by (simp add: apply_counter_claims_def command_sel preflight_natural_claims_def o demo_collections apply_counter_claim_def
        n s require_counter_def c claim_demo_sel require_advanced_counter_def)
qed

lemma demo_loaded: "load_state demo_store (demo_db demo_state) 69 42 = Inr demo_state"
  "load_state demo_store (demo_db unvisited) 69 42 = Inr unvisited"
  using load_valid[OF ordered_demo(2) unvisited_valid] load_valid[OF ordered_demo(1)[of 1] counted_snapshot counted_against]
  by (simp_all add: load_state_def demo_authority store_sel counted_1)

abbreviation advanced_runtime :: TeamRuntime where
  "advanced_runtime \<equiv> cas_values (au_live demo_command) stored_runtime"

definition visit_result :: CommittedAuthoritativeTickSlice where
  "visit_result = \<lparr>ca_live = \<lparr>cs_runtime = advanced_runtime, cs_activity = [], cs_ground_truth = [], cs_projection_intents = []\<rparr>,
     ca_state = demo_state, ca_counters = [demo_counter], ca_evaluations = []\<rparr>"

definition advanced_db :: scrum_db where
  "advanced_db = (demo_db demo_state)\<lparr>db_live := demo_live_db\<lparr>ld_runtimes := [advanced_runtime]\<rparr>\<rparr>"

lemma visit_persisted: "persist_ledgers demo_codec (au_live demo_command) advanced_runtime (demo_live_db\<lparr>ld_runtimes := [advanced_runtime]\<rparr>) =
    Inr (demo_live_db\<lparr>ld_runtimes := [advanced_runtime]\<rparr>, ca_live visit_result)"
  by (simp add: persist_ledgers_def command_sel visit_result_def)

lemma visit_result_valid: "validate_committed demo_env visit_result = Inr ()"
proof -
  have r: "rt_team_id advanced_runtime = 69" "rt_run_id advanced_runtime = 42" by (simp_all add: cas_values_def stored_runtime_def)
  have "validate_runtime demo_codec advanced_runtime = Inr ()"
    by (simp add: validate_runtime_def cas_values_def stored_runtime_def demo_command_def require_text_def is_space_def
        semantic_uuid_def demo_sha)
  moreover have "validate_coordinates demo_state 69 42 = Inr ()"
    by (simp add: validate_coordinates_def state_teams_def state_runs_def demo_collections demo_coordinates)
  ultimately show ?thesis
    by (simp add: validate_committed_def validate_committed_live_def validate_committed_collection_def visit_result_def demo_sel demo_snapshot
        demo_counter_ok r validate_result_coordinates_def demo_coordinates demo_collections validate_snapshot_members_def
        dict_of_def)
qed

lemma visit_committed:
  "commit_authoritative_slice demo_store visit_command (demo_db unvisited) = Inr (advanced_db, visit_result)"
  "commit_authoritative_slice demo_store visit_command (demo_db demo_state) = Inr (advanced_db, visit_result)"
proof -
  have ne: "demo_state\<lparr>st_counters := []\<rparr> \<noteq> empty_state" by (simp add: demo_state_def empty_state_def)
  have l: "require_replayed_ledgers demo_codec (au_live demo_command) demo_live_db = Inr ()"
    by (simp add: require_replayed_ledgers_def replayed_ledger_def command_sel)
  have rows: "(counted 0)\<lparr>st_counters := [demo_counter], st_evaluations := []\<rparr> = demo_state"
    "(counted 0)\<lparr>st_counters := [demo_counter]\<rparr> = demo_state" "demo_state\<lparr>st_counters := [demo_counter]\<rparr> = demo_state"
    "demo_state\<lparr>st_counters := [demo_counter], st_evaluations := []\<rparr> = demo_state"
    by (simp_all add: counted_def demo_state_def empty_state_def)
  have db: "(demo_db x)\<lparr>db_rows := y\<rparr> = demo_db y" for x y by (simp add: demo_db_def)
  have on: "ordered_natural_claims [] = []" by (simp add: ordered_natural_claims_def)
  have r: "\<lparr>ca_live = ca_live visit_result, ca_state = demo_state, ca_counters = [demo_counter], ca_evaluations = []\<rparr> = visit_result"
    by (simp add: visit_result_def)
  have "commit_authoritative_in_session demo_store visit_command (demo_db unvisited) = Inr (advanced_db, visit_result)"
    by (simp add: commit_authoritative_in_session_def command_sel store_sel demo_sel demo_runtime_advanced demo_preflight ne demo_images
        demo_claims_applied counted_sel rows db on demo_loaded visit_persisted r visit_result_valid advanced_db_def)
  then show "commit_authoritative_slice demo_store visit_command (demo_db unvisited) = Inr (advanced_db, visit_result)"
    by (simp add: commit_authoritative_slice_def store_sel visit_command_valid)
  have "commit_authoritative_in_session demo_store visit_command (demo_db demo_state) = Inr (advanced_db, visit_result)"
    by (simp add: commit_authoritative_in_session_def command_sel store_sel demo_sel demo_runtime_advanced demo_preflight ne demo_images
        demo_claims_applied demo_collections rows db on demo_loaded visit_persisted r visit_result_valid advanced_db_def l)
  then show "commit_authoritative_slice demo_store visit_command (demo_db demo_state) = Inr (advanced_db, visit_result)"
    by (simp add: commit_authoritative_slice_def store_sel visit_command_valid)
qed

section \<open>The tick\<close>

text \<open>The stored state after the tick of the sample team: the story is done.\<close>

abbreviation closed_demo :: StatusVisitState where
  "closed_demo \<equiv> close_visit 640800000000 demo_worked"

definition demo_consumption :: MemberBusinessDateConsumption where
  "demo_consumption = \<lparr>mc_team_id = 69, mc_run_id = 42, mc_member_id = 45, mc_business_date = 8, mc_consumed = 3600000000\<rparr>"

definition done_state :: ScrumCollections where
  "done_state = demo_state\<lparr>st_consumption := [demo_consumption], st_work_items := [done_work], st_visits := [closed_demo]\<rparr>"

lemma done_state_sel:
  "st_member_identities done_state = [demo_identity]" "st_overlays done_state = []" "st_consumption done_state = [demo_consumption]"
  "st_work_items done_state = [done_work]" "st_factors done_state = []" "st_sprints done_state = []"
  "st_scope done_state = []" "st_visits done_state = [closed_demo]" "st_samples done_state = [demo_sample]"
  "st_counters done_state = [demo_counter]" "st_evaluations done_state = []"
  by (simp_all add: done_state_def demo_collections)

lemma done_more: "sv_required closed_demo = 3600000000" "sv_activity_key closed_demo = Some ''CODE''" "wi_story_points done_work = 3"
  "mc_team_id demo_consumption = 69" "mc_run_id demo_consumption = 42" "mc_member_id demo_consumption = 45"
  "check_consumption demo_consumption = Inr ()" "mc_business_date demo_consumption = 8"
  by (simp_all add: close_visit_def demo_worked_def demo_visit_def done_work_def demo_work_def demo_consumption_def check_consumption_def
      require_microseconds_def MAX_SQLITE_INTEGER_def)

lemma done_snapshot: "validate_snapshot demo_env done_state = Inr ()"
proof -
  have "validate_collections demo_env done_state = Inr ()"
    by (simp add: validate_collections_def done_state_sel demo_sel demo_identity_ok done_checks demo_sample_ok demo_counter_ok done_more)
  moreover have "validate_counter_references done_state = Inr ()"
    by (simp add: validate_counter_references_def done_state_sel done_sel demo_coordinates) (simp add: demo_counter_def)
  ultimately show ?thesis
    by (simp add: validate_snapshot_def validate_state_def validate_uniqueness_def unique_identities_def done_state_sel
        validate_partial_uniqueness_def require_unique_coordinates_def validate_one_team_run_def state_teams_def state_runs_def
        closed_sel done_sel done_more demo_coordinates validate_open_visit_status_def validate_sample_links_def
        validate_member_references_def validate_work_references_def validate_sample_cardinality_def require_reference_def dict_of_def)
qed

lemma done_against: "validate_against demo_env done_state sample_blueprint = Inr ()"
proof -
  let ?i = "\<lparr>si_blueprint = sample_blueprint, si_work_item = done_work, si_visit = closed_demo,
     si_dwell_draw = demo_draw ''m1'' STATUS_DWELL, si_touch_draw = demo_draw ''m2'' STATUS_TOUCH\<rparr>"
  have r: "random_stream (bp_seed sample_blueprint) 69 42 = Inr demo_stream"
    by (simp add: random_stream_def sample_blueprint_def demo_stream_def)
  have d: "decision_occurrence 44 dt 0 = Inr (demo_decision dt)" for dt by (simp add: decision_occurrence_def demo_decision_def)
  have authentic: "authenticate_draw demo_codec ?i (demo_draw ''m1'' STATUS_DWELL) STATUS_DWELL = Inr ()"
    "authenticate_draw demo_codec ?i (demo_draw ''m2'' STATUS_TOUCH) STATUS_TOUCH = Inr ()"
    using demo_authentic by (simp_all add: authenticate_draw_def demo_sel demo_coordinates closed_sel done_sel)
  have entry: "timing_entry sample_blueprint done_work closed_demo = Inr sample_timing"
    using demo_entry by (simp add: timing_entry_def closed_sel done_sel done_more demo_coordinates) (simp add: demo_work_def)
  have links: "check_sample_links demo_codec ?i = Inr ()"
    by (simp add: check_sample_links_def closed_sel done_sel demo_team entry)
  have inp: "check_sample_input demo_codec ?i = Inr ()"
    by (simp add: check_sample_input_def done_checks links authentic)
  have u: "ud_unit_value (demo_draw m dt) = 0" for m dt by (simp add: demo_draw_def)
  have b: "tm_profile_name (bp_timing sample_blueprint) = ''t''" "tm_profile_version (bp_timing sample_blueprint) = 1"
    "tm_algorithm_version (bp_timing sample_blueprint) = ''v1''" by (simp_all add: sample_blueprint_def)
  have "status_sample_values demo_env ?i = Inr demo_sample"
    by (simp add: status_sample_values_def demo_sel inp entry demo_anchors demo_dwell demo_touch demo_hours u b closed_sel done_sel done_more
        int_text_1 canonical_pair_def demo_sha demo_encode demo_sample_def)
  then have auth: "authenticate_sample demo_env demo_sample ?i = Inr ()"
    by (simp add: authenticate_sample_def demo_sample_ok)
  have "authenticated_sample_input demo_codec sample_blueprint done_work closed_demo = Inr ?i"
    by (simp add: authenticated_sample_input_def closed_sel done_sel r d demo_draws)
  then have "authenticate_samples demo_env done_state sample_blueprint = Inr ()"
    using auth by (simp add: authenticate_samples_def done_state_sel dict_of_def dict_get_def demo_coordinates closed_sel done_sel demo_sel)
  moreover have "validate_blueprint_team demo_codec done_state sample_blueprint = Inr ()"
    by (simp add: validate_blueprint_team_def demo_team state_teams_def done_state_sel demo_coordinates closed_sel done_sel done_more)
  moreover have "validate_blueprint_members done_state sample_blueprint = Inr ()"
    "validate_blueprint_work done_state sample_blueprint = Inr ()"
    "validate_blueprint_visits done_state sample_blueprint = Inr ()"
    by (simp_all add: validate_blueprint_members_def validate_blueprint_work_def validate_blueprint_visits_def
        validate_blueprint_visit_def validate_member_activity_def done_state_sel demo_coordinates closed_sel done_sel done_more dict_of_def
        dict_get_def route_for_def status_for_def sample_blueprint_def sample_workflow_def sample_member_def py_index_def)
  ultimately show ?thesis by (simp add: validate_against_def demo_sel)
qed

lemma ordered_done: "ordered (of_team_run 69 42 done_state) = done_state"
  by (rule ScrumCollections.equality)
    (simp_all add: ordered_def of_team_run_def done_state_sel demo_coordinates closed_sel done_sel done_more)

lemma progress_sel:
  "st_member_identities (progress_of demo_result) = []" "st_overlays (progress_of demo_result) = []"
  "st_consumption (progress_of demo_result) = [demo_consumption]" "st_work_items (progress_of demo_result) = [done_work]"
  "st_factors (progress_of demo_result) = []" "st_sprints (progress_of demo_result) = []" "st_scope (progress_of demo_result) = []"
  "st_visits (progress_of demo_result) = [closed_demo]" "st_samples (progress_of demo_result) = []"
  "st_counters (progress_of demo_result) = []" "st_evaluations (progress_of demo_result) = []"
  by (simp_all add: progress_of_def demo_result_sel empty_state_def demo_consumption_def)

lemma done_candidate: "candidate_snapshot demo_store (demo_db demo_state) (progress_of demo_result) = Inr done_state"
proof -
  have "merged_snapshot demo_state (progress_of demo_result) = done_state"
    by (rule ScrumCollections.equality)
      (simp_all add: merged_snapshot_def ordered_def demo_collections progress_sel done_state_sel merged_def dict_of_def closed_sel done_sel
        demo_coordinates)
  then show ?thesis
    by (simp add: candidate_snapshot_def state_coordinates_def state_teams_def state_runs_def progress_sel done_more demo_authority store_sel
        demo_current snapshot_def done_snapshot done_against)
qed

lemma done_images:
  assumes "au_state k = progress_of demo_result"
  shows "apply_after_images demo_store (demo_db demo_state) k = Inr (done_state, {})"
proof -
  have v: "validate_state demo_env (progress_of demo_result) = Inr ()" using demo_progress write_set_Inr by blast
  have i: "item_image done_work [demo_work] = Inr ([done_work], False)" "visit_image closed_demo [demo_visit] = Inr ([closed_demo], False)"
    "consumption_image demo_consumption [] = Inr ([demo_consumption], True)"
    by (simp_all add: after_image_def row_at_def write_row_def done_sel closed_sel demo_coordinates item_fixed_def visit_fixed_def)
      (simp_all add: done_work_def close_visit_def demo_worked_def demo_visit_def)
  have seed: "seed_owner_counters t r [] rows = Inr rows" for t r rows
    by (simp add: seed_owner_counters_def owner_counter_scopes_def insert_rows_def)
  show ?thesis
    by (simp add: apply_after_images_def assms store_sel demo_sel v progress_sel done_candidate demo_collections i seed)
      (simp add: done_state_def demo_state_def empty_state_def)
qed

lemma persist_single:
  assumes "length ds = 1" and "\<forall>d \<in> set ds. check d = Inr ()"
  shows "\<exists>row. persist check live ds \<lparr>lg_rows = [], lg_next = 1\<rparr> = Inr (\<lparr>lg_rows = [row], lg_next = 2\<rparr>, [row]) \<and>
    check (st_draft row) = Inr () \<and> st_append_sequence row = 1 \<and> Live_Slice.st_team_id row = tc_team_id live \<and>
    Live_Slice.st_run_id row = tc_run_id live"
proof -
  obtain d where d: "ds = [d]" using assms(1) by (cases ds) auto
  have "resolve_draft check live (0, d) \<lparr>lg_rows = [], lg_next = 1\<rparr> =
      Inr (\<lparr>lg_rows = [new_row live 0 1 d], lg_next = 2\<rparr>, new_row live 0 1 d)"
    using assms(2) d by (simp add: resolve_draft_def by_key_def new_row_def require_identical_def Let_def numeral_2_eq_2)
  then show ?thesis
    using assms(2) d by (intro exI[of _ "new_row live 0 1 d"]) (simp add: new_row_def)
qed

lemma drafts_checked: "validate_drafts check name ds seen = Inr () \<Longrightarrow> \<forall>d \<in> set ds. check d = Inr ()"
  by (induction ds arbitrary: seen) (auto elim!: bindR_InrE split: if_splits)

definition tick_advance :: RiskAdvance where
  "tick_advance = \<lparr>av_state = demo_live, av_risks = no_records, av_result = demo_result\<rparr>"

lemma demo_tick_committed:
  assumes "finalize_tick demo_env demo_request tick_advance = Inr k" and "au_claims k = []"
    and "length (tc_activity (au_live k)) = 1" "length (tc_ground_truth (au_live k)) = 1" "length (tc_projection_intents (au_live k)) = 1"
    and "ra_state (tc_runtime_after (au_live k)) = ''RUNNING''" "tc_recorded_at (au_live k) = 640800000000"
  shows "\<exists>db' s. commit_authoritative_slice demo_store k (demo_db demo_state) = Inr (db', s) \<and> ca_state s = done_state"
proof -
  let ?live = "au_live k" and ?rt = "cas_values (au_live k) stored_runtime"
  note p = finalize_tick_parts[OF assms(1), unfolded tick_advance_def RiskAdvance.select_convs demo_runtime]
  have empty: "rk_state no_records = empty_state" "rk_natural no_records = []" by (simp_all add: no_records_def)
  have st: "au_state k = progress_of demo_result" "au_natural k = []" using p(8,9) empty by (simp_all add: demo_merge)
  have v: "validate_commit demo_codec ?live = Inr ()" using p(6) by (simp add: validate_authoritative_def demo_sel bindR_check)
  have m: "cas_matches ?live stored_runtime" "rt_team_id ?rt = 69" "rt_run_id ?rt = 42"
    using p(1-3) by (simp_all add: cas_matches_def cas_values_def stored_runtime_def)
  have adv: "advance_runtime ?live [stored_runtime] = Inr ([?rt], ?rt)"
    using m p(1) by (simp add: advance_runtime_def get_runtime_def)
  have pre: "preflight_replay demo_store demo_state k = Inr False"
    by (simp add: preflight_replay_def assms(2) allocation_claims_def)
  have ne: "progress_of demo_result \<noteq> empty_state"
    using progress_sel(8) by (metis ScrumCollections.select_convs(8) empty_state_def list.distinct(1))
  have claims: "apply_counter_claims demo_store k {} done_state = Inr ([demo_counter], [])"
    by (simp add: apply_counter_claims_def preflight_natural_claims_def st assms(2) ordered_claims_def done_state_sel)
  have rows: "done_state\<lparr>st_counters := [demo_counter], st_evaluations := []\<rparr> = done_state"
    "done_state\<lparr>st_counters := [demo_counter]\<rparr> = done_state"
    by (simp_all add: done_state_def demo_state_def empty_state_def)
  have db: "(demo_db x)\<lparr>db_rows := y\<rparr> = demo_db y" for x y by (simp add: demo_db_def)
  have load: "load_state demo_store (demo_db done_state) 69 42 = Inr done_state"
    using load_valid[OF ordered_done done_snapshot done_against] by (simp add: load_state_def demo_authority store_sel)
  have dv: "validate_drafts (validate_activity demo_codec) ''activity'' (tc_activity ?live) [] = Inr ()"
    "validate_drafts (validate_ground_truth demo_codec) ''ground truth'' (tc_ground_truth ?live) [] = Inr ()"
    "validate_drafts (validate_projection demo_codec) ''projection intents'' (tc_projection_intents ?live) [] = Inr ()"
    using v by (simp_all add: validate_commit_def bindR_check non_negative_def split: if_splits)
  obtain a g i where l:
    "persist (validate_activity demo_codec) ?live (tc_activity ?live) \<lparr>lg_rows = [], lg_next = 1\<rparr> = Inr (\<lparr>lg_rows = [a], lg_next = 2\<rparr>, [a])"
    "validate_activity demo_codec (st_draft a) = Inr ()" "st_append_sequence a = 1" "Live_Slice.st_team_id a = 69" "Live_Slice.st_run_id a = 42"
    "persist (validate_ground_truth demo_codec) ?live (tc_ground_truth ?live) \<lparr>lg_rows = [], lg_next = 1\<rparr> = Inr (\<lparr>lg_rows = [g], lg_next = 2\<rparr>, [g])"
    "validate_ground_truth demo_codec (st_draft g) = Inr ()" "st_append_sequence g = 1" "Live_Slice.st_team_id g = 69" "Live_Slice.st_run_id g = 42"
    "persist (validate_projection demo_codec) ?live (tc_projection_intents ?live) \<lparr>lg_rows = [], lg_next = 1\<rparr> = Inr (\<lparr>lg_rows = [i], lg_next = 2\<rparr>, [i])"
    "validate_projection demo_codec (st_draft i) = Inr ()" "st_append_sequence i = 1" "Live_Slice.st_team_id i = 69" "Live_Slice.st_run_id i = 42"
    using persist_single[OF assms(3) drafts_checked[OF dv(1)], of ?live] persist_single[OF assms(4) drafts_checked[OF dv(2)], of ?live]
      persist_single[OF assms(5) drafts_checked[OF dv(3)], of ?live] p(1,2) by metis
  let ?c = "\<lparr>cs_runtime = ?rt, cs_activity = [a], cs_ground_truth = [g], cs_projection_intents = [i]\<rparr>"
  let ?ldb = "\<lparr>ld_runtimes = [?rt], ld_activity = \<lparr>lg_rows = [a], lg_next = 2\<rparr>, ld_ground_truth = \<lparr>lg_rows = [g], lg_next = 2\<rparr>,
     ld_projection = \<lparr>lg_rows = [i], lg_next = 2\<rparr>\<rparr>"
  have persisted: "persist_ledgers demo_codec ?live ?rt (demo_live_db\<lparr>ld_runtimes := [?rt]\<rparr>) = Inr (?ldb, ?c)"
    using l(1,6,11) by (simp add: persist_ledgers_def demo_live_db_def)
  let ?s = "\<lparr>ca_live = ?c, ca_state = done_state, ca_counters = [], ca_evaluations = []\<rparr>"
  have "validate_runtime demo_codec ?rt = Inr ()"
    using assms(6,7) p(3)
    by (simp add: validate_runtime_def cas_values_def stored_runtime_def require_text_def is_space_def semantic_uuid_def demo_sha)
  then have valid: "validate_committed demo_env ?s = Inr ()"
    using l m
    by (simp add: validate_committed_def validate_committed_live_def validate_committed_collection_def validate_ledger_metadata_def demo_sel
        done_snapshot validate_coordinates_def state_teams_def state_runs_def done_state_sel demo_coordinates closed_sel done_sel done_more
        validate_result_coordinates_def validate_snapshot_members_def)
  have on: "ordered_natural_claims [] = []" by (simp add: ordered_natural_claims_def)
  have "commit_authoritative_in_session demo_store k (demo_db demo_state) = Inr ((demo_db done_state)\<lparr>db_live := ?ldb\<rparr>, ?s)"
    using p(1,2)
    by (simp add: commit_authoritative_in_session_def store_sel demo_sel adv pre ne st done_images[OF st(1)] claims on done_state_sel rows db
        load persisted valid Let_def)
  then show ?thesis
    using p(6) by (auto simp: commit_authoritative_slice_def store_sel)
qed

section \<open>Witnesses\<close>

lemma demo_rows_unique: "unique_identities unvisited" "unique_identities demo_state"
  by (simp_all add: unique_identities_def unvisited_sel demo_collections)

theorem commit_refines_overlay_witness:
  "ta_visits (tables_of (ca_state visit_result)) 44 = Some demo_visit \<and> ta_visits (tables_of unvisited) 44 = None \<and>
   load_state demo_store advanced_db 69 42 = Inr demo_state"
proof -
  have "load_state demo_store (demo_db unvisited) (tc_team_id (au_live visit_command)) (tc_run_id (au_live visit_command)) = Inr unvisited"
    by (simp add: command_sel demo_loaded)
  from commit_refines_overlay[OF _ visit_committed(1) this]
  have "tables_of (ca_state visit_result) = overlay_tables (tables_of unvisited) (tables_of (demo_state\<lparr>st_counters := []\<rparr>))"
    "load_state demo_store advanced_db 69 42 = Inr (ca_state visit_result)"
    by (simp_all add: demo_rows_unique store_sel command_sel)
  then show ?thesis
    by (simp add: overlay_tables_def tables_of_def unvisited_sel demo_collections demo_coordinates visit_result_def)
qed

theorem counters_move_by_claims_witness:
  "stored_next (st_counters (db_rows advanced_db)) (69, 42, cl_scope visit_claim_demo) = Some 1 \<and>
   counter_moved visit_claim_demo (Some 0) (Some 1)"
proof -
  have a: "stored_next (st_counters (db_rows advanced_db)) (69, 42, cl_scope visit_claim_demo) = Some 1"
    "stored_next (st_counters (db_rows (demo_db unvisited))) (69, 42, cl_scope visit_claim_demo) = Some 0"
    by (simp_all add: stored_next_def advanced_db_def store_sel demo_collections unvisited_sel row_at_def counter_identity_def claim_demo_sel)
      (simp_all add: demo_counter_def)
  have "unique_identities (db_rows (demo_db unvisited))" by (simp add: store_sel demo_rows_unique)
  from counters_move_by_claims[OF this visit_committed(1)] a show ?thesis by (simp add: command_sel)
qed

theorem new_rows_take_fresh_coordinates_witness:
  "takes_fresh [visit_claim_demo] (Some 0) (Some 1) (visit_scope demo_visit) 0"
proof -
  have o: "sv_ordinal demo_visit = 0" by (simp add: demo_visit_def)
  have a: "stored_next (st_counters (db_rows advanced_db)) (69, 42, visit_scope demo_visit) = Some 1"
    "stored_next (st_counters (db_rows (demo_db unvisited))) (69, 42, visit_scope demo_visit) = Some 0"
    by (simp_all add: stored_next_def advanced_db_def store_sel demo_collections unvisited_sel row_at_def counter_identity_def visit_scope_def
        demo_coordinates) (simp_all add: demo_counter_def)
  have "unique_identities (db_rows (demo_db unvisited))" by (simp add: store_sel demo_rows_unique)
  from new_rows_take_fresh_coordinates[OF this visit_committed(1)] a show ?thesis
    by (simp add: command_sel demo_collections store_sel unvisited_sel o)
qed

theorem replay_changes_only_runtime_witness:
  "\<exists>runtimes. advanced_db = (demo_db demo_state)\<lparr>db_live := (db_live (demo_db demo_state))\<lparr>ld_runtimes := runtimes\<rparr>\<rparr>"
  by (rule replay_changes_only_runtime[OF _ _ visit_committed(2)]) (simp_all add: store_sel demo_rows_unique demo_preflight)

theorem committed_tick_rows_witness:
  "\<exists>k db' s. finalize_tick demo_env demo_request tick_advance = Inr k \<and>
     commit_authoritative_slice demo_store k (demo_db demo_state) = Inr (db', s) \<and>
     rows_of wi_id (st_work_items (ca_state s)) = [59 \<mapsto> done_work]"
proof -
  obtain k where k: "finalize_tick demo_env demo_request tick_advance = Inr k" "au_claims k = []"
    "length (tc_activity (au_live k)) = 1" "length (tc_ground_truth (au_live k)) = 1" "length (tc_projection_intents (au_live k)) = 1"
    "ra_state (tc_runtime_after (au_live k)) = ''RUNNING''" "tc_recorded_at (au_live k) = 640800000000"
    using demo_finalized unfolding tick_advance_def by blast
  obtain db' s where c: "commit_authoritative_slice demo_store k (demo_db demo_state) = Inr (db', s)"
    using demo_tick_committed[OF k] by blast
  have f: "finalize_tick (se_scrum demo_store) demo_request tick_advance = Inr k" using k(1) by (simp add: store_sel)
  have team: "tc_team_id (au_live k) = 69" "tc_run_id (au_live k) = 42"
    using finalize_tick_parts(1,2)[OF k(1)] demo_runtime by (simp_all add: tick_advance_def)
  have u: "unique_identities (db_rows (demo_db demo_state))" by (simp add: store_sel demo_rows_unique)
  have l: "load_state demo_store (demo_db demo_state) (tc_team_id (au_live k)) (tc_run_id (au_live k)) = Inr demo_state"
    by (simp add: team demo_loaded)
  have "rk_state no_records = empty_state" by (simp add: no_records_def)
  then have "rows_of wi_id (st_work_items (ca_state s)) = [59 \<mapsto> done_work]"
    using committed_tick_rows[OF u l f c]
    by (simp add: demo_collections tick_advance_def demo_result_sel demo_coordinates done_sel empty_state_def)
  then show ?thesis using k(1) c by blast
qed

end
