(* ===== verification/Provisioning.thy ===== *)
theory Provisioning
  imports Risks Delivery_Store Scrum_Rows "HOL-Library.Countable"
begin

text \<open>
  The first intents of a team (\<open>v2/application/jira_provisioning.py\<close>): the project, its board, one issue per work
  item and, at bootstrap, the sprint that is already active. Every intent names the semantic keys it waits for;
  \<open>Delivery_Store\<close> reads them back when it looks for work.
\<close>

section \<open>Composition\<close>

record ProvisioningContext =
  pc_state :: LiveTeamState
  pc_recorded_at :: instant

record IntentSpecification =
  is_suffix :: string
  is_operation :: string
  is_aggregate_id :: uuid
  is_payload :: json

definition provisioning_context :: "LiveTeamState \<Rightarrow> ProvisioningContext res" where
  "provisioning_context st =
     (case map wi_created_at (st_work_items (lt_scrum st)) of
        [] \<Rightarrow> Inl (Value_Error ''min() iterable argument is empty'')
      | t # ts \<Rightarrow> Inr \<lparr>pc_state = st, pc_recorded_at = foldl min t ts\<rparr>)"

definition provisioning_key :: "ProvisioningContext \<Rightarrow> string \<Rightarrow> string" where
  "provisioning_key x suffix =
     (let a = lt_aggregate (pc_state x) in
      ''jira-provisioning/'' @ uuid_text (vt_id (pa_team a)) @ ''/'' @ uuid_text (rt_run_id (pa_runtime a)) @ ''/'' @ suffix)"

definition provisioning_intent :: "codec \<Rightarrow> ProvisioningContext \<Rightarrow> IntentSpecification \<Rightarrow> ProjectionIntentDraft res" where
  "provisioning_intent cd x s =
     projection_draft cd (make_envelope (provisioning_key x (is_suffix s)) (pc_recorded_at x) (is_payload s))
       \<lparr>pd_target_kind = ''JIRA'', pd_operation_type = is_operation s, pd_aggregate_id = is_aggregate_id s,
        pd_aggregate_version = 1, pd_status = ''PENDING''\<rparr>"

abbreviation pc_jira :: "ProvisioningContext \<Rightarrow> JiraBlueprint" where
  "pc_jira x \<equiv> bp_jira (lt_blueprint (pc_state x))"

abbreviation pc_team_id :: "ProvisioningContext \<Rightarrow> uuid" where
  "pc_team_id x \<equiv> vt_id (pa_team (lt_aggregate (pc_state x)))"

abbreviation keys_json :: "string list \<Rightarrow> json" where
  "keys_json ks \<equiv> JList (map JStr ks)"

definition project_intent :: "codec \<Rightarrow> ProvisioningContext \<Rightarrow> ProjectionIntentDraft res" where
  "project_intent cd x = provisioning_intent cd x
     \<lparr>is_suffix = ''project'', is_operation = ''CREATE_PROJECT'', is_aggregate_id = pc_team_id x,
      is_payload = JObj [(''board_type'', JStr ''SCRUM''), (''depends_on'', keys_json []),
        (''name'', JStr (jb_project_name (pc_jira x))), (''project_key'', JStr (jb_project_key (pc_jira x)))]\<rparr>"

definition board_intent :: "codec \<Rightarrow> ProvisioningContext \<Rightarrow> string \<Rightarrow> ProjectionIntentDraft res" where
  "board_intent cd x project_key = provisioning_intent cd x
     \<lparr>is_suffix = ''board'', is_operation = ''CREATE_BOARD'', is_aggregate_id = pc_team_id x,
      is_payload = JObj [(''board_type'', JStr ''SCRUM''), (''depends_on'', keys_json [project_key]),
        (''project_key'', JStr (jb_project_key (pc_jira x))), (''project_name'', JStr (jb_project_name (pc_jira x)))]\<rparr>"

definition issue_intent :: "codec \<Rightarrow> ProvisioningContext \<Rightarrow> string \<Rightarrow> WorkItemState \<Rightarrow> ProjectionIntentDraft res" where
  "issue_intent cd x board_key w = provisioning_intent cd x
     \<lparr>is_suffix = ''issue/'' @ uuid_text (wi_id w), is_operation = ''CREATE_ISSUE'', is_aggregate_id = wi_id w,
      is_payload = JObj [(''depends_on'', keys_json [board_key]), (''fields'', JObj []),
        (''issue_id'', JStr (uuid_text (wi_id w))), (''issue_type'', JStr (title (wi_issue_type w))),
        (''project_key'', JStr (jb_project_key (pc_jira x))),
        (''summary'', JStr (''Simulated '' @ title (wi_issue_type w) @ '' '' @ int_text (wi_creation_sequence w + 1)))]\<rparr>"

definition create_sprint_intent ::
  "scrum_env \<Rightarrow> ProvisioningContext \<Rightarrow> SprintState \<Rightarrow> string list \<Rightarrow> ProjectionIntentDraft res" where
  "create_sprint_intent env x sprint dependencies = provisioning_intent (en_codec env) x
     \<lparr>is_suffix = ''sprint/'' @ uuid_text (ss_id sprint) @ ''/create'', is_operation = ''CREATE_SPRINT'',
      is_aggregate_id = ss_id sprint,
      is_payload = JObj [(''board_id'', JStr (uuid_text (pc_team_id x))), (''depends_on'', keys_json dependencies),
        (''end_at'', JStr (en_instant_text env (ss_planned_end_at sprint))),
        (''name'', JStr (''SIM-'' @ jb_project_key (pc_jira x) @ ''-'' @ take 12 (hex_text 32 (ss_id sprint)))),
        (''sprint_id'', JStr (uuid_text (ss_id sprint))),
        (''start_at'', JStr (en_instant_text env (ss_planned_start_at sprint)))]\<rparr>"

definition scope_sprint_intent ::
  "codec \<Rightarrow> ProvisioningContext \<Rightarrow> SprintState \<Rightarrow> string \<Rightarrow> ProjectionIntentDraft res" where
  "scope_sprint_intent cd x sprint dependency = provisioning_intent cd x
     \<lparr>is_suffix = ''sprint/'' @ uuid_text (ss_id sprint) @ ''/scope'', is_operation = ''SCOPE_SPRINT'',
      is_aggregate_id = ss_id sprint,
      is_payload = JObj [(''depends_on'', keys_json [dependency]),
        (''issue_ids'', keys_json (map (\<lambda>e. uuid_text (sc_work_item_id e))
           (filter (\<lambda>e. sc_sprint_id e = ss_id sprint \<and> sc_removed_at e = None) (st_scope (lt_scrum (pc_state x)))))),
        (''sprint_id'', JStr (uuid_text (ss_id sprint)))]\<rparr>"

definition start_sprint_intent ::
  "codec \<Rightarrow> ProvisioningContext \<Rightarrow> SprintState \<Rightarrow> string \<Rightarrow> ProjectionIntentDraft res" where
  "start_sprint_intent cd x sprint dependency = provisioning_intent cd x
     \<lparr>is_suffix = ''sprint/'' @ uuid_text (ss_id sprint) @ ''/start'', is_operation = ''START_SPRINT'',
      is_aggregate_id = ss_id sprint,
      is_payload = JObj [(''depends_on'', keys_json [dependency]), (''sprint_id'', JStr (uuid_text (ss_id sprint)))]\<rparr>"

definition provisioning_intents :: "codec \<Rightarrow> ProvisioningContext \<Rightarrow> ProjectionIntentDraft list res" where
  "provisioning_intents cd x =
     bindR (project_intent cd x) (\<lambda>project.
     bindR (board_intent cd x (dr_semantic_key project)) (\<lambda>board.
     bindR (mapR (issue_intent cd x (dr_semantic_key board)) (st_work_items (lt_scrum (pc_state x)))) (\<lambda>issues.
       Inr (project # board # issues))))"

definition active_sprint_intents ::
  "scrum_env \<Rightarrow> ProvisioningContext \<Rightarrow> SprintState \<Rightarrow> ProjectionIntentDraft list \<Rightarrow> ProjectionIntentDraft list res" where
  "active_sprint_intents env x sprint predecessors =
     bindR (create_sprint_intent env x sprint (map dr_semantic_key predecessors)) (\<lambda>created.
     bindR (scope_sprint_intent (en_codec env) x sprint (dr_semantic_key created)) (\<lambda>scoped.
     bindR (start_sprint_intent (en_codec env) x sprint (dr_semantic_key scoped)) (\<lambda>started.
       Inr [created, scoped, started])))"

definition initial_provisioning_intents :: "scrum_env \<Rightarrow> ProvisioningContext \<Rightarrow> ProjectionIntentDraft list res" where
  "initial_provisioning_intents env x =
     bindR (provisioning_intents (en_codec env) x) (\<lambda>basics.
       case List.find (\<lambda>s. ss_lifecycle s = SP_ACTIVE) (st_sprints (lt_scrum (pc_state x))) of
         None \<Rightarrow> Inr basics
       | Some active \<Rightarrow> bindR (active_sprint_intents env x active (drop 1 basics)) (\<lambda>more. Inr (basics @ more)))"

definition provisioning_commit :: "codec \<Rightarrow> ProvisioningContext \<Rightarrow> ProjectionIntentDraft list \<Rightarrow> TickSliceCommit res" where
  "provisioning_commit cd x intents =
     (let rt = lt_runtime (pc_state x) in
      bindR (built check_runtime_advance
               \<lparr>ra_state = rt_state rt, ra_simulation_time = rt_simulation_time rt, ra_next_wake_at = rt_next_wake_at rt\<rparr>) (\<lambda>advance.
        built (validate_commit cd)
          \<lparr>tc_commit_id = semantic_uuid cd
             (''jira-provisioning/'' @ uuid_text (rt_team_id rt) @ ''/'' @ uuid_text (rt_run_id rt)),
           tc_team_id = rt_team_id rt, tc_run_id = rt_run_id rt, tc_expected_runtime_version = rt_version rt,
           tc_runtime_after = advance, tc_activity = [], tc_ground_truth = [], tc_projection_intents = intents,
           tc_recorded_at = pc_recorded_at x\<rparr>))"

definition compose_jira_provisioning :: "scrum_env \<Rightarrow> LiveTeamState \<Rightarrow> TickSliceCommit res" where
  "compose_jira_provisioning env st =
     bindR (provisioning_context st) (\<lambda>x.
     bindR (provisioning_intents (en_codec env) x) (provisioning_commit (en_codec env) x))"

definition compose_initial_jira_provisioning :: "scrum_env \<Rightarrow> LiveTeamState \<Rightarrow> TickSliceCommit res" where
  "compose_initial_jira_provisioning env st =
     bindR (provisioning_context st) (\<lambda>x.
     bindR (initial_provisioning_intents env x) (provisioning_commit (en_codec env) x))"

section \<open>The drafts\<close>

text \<open>JSON without floats and with the keys of every object in ascending order, and a codec that reads it back.\<close>

fun plain_json :: "json \<Rightarrow> bool" where
  "plain_json (JNum q) = False"
| "plain_json (JList js) = (\<forall>j \<in> set js. plain_json j)"
| "plain_json (JObj kvs) = (sorted_wrt (<) (map fst kvs) \<and> (\<forall>p \<in> set kvs. plain_json (snd p)))"
| "plain_json j = True"

definition reads_back :: "codec \<Rightarrow> bool" where
  "reads_back c \<longleftrightarrow> (\<forall>j. plain_json j \<longrightarrow> cd_decode c (cd_encode c j) = Some j)"

definition drafted :: "codec \<Rightarrow> ProvisioningContext \<Rightarrow> IntentSpecification \<Rightarrow> ProjectionIntentDraft" where
  "drafted cd x s =
     \<lparr>dr_id = semantic_uuid cd (''projection/'' @ provisioning_key x (is_suffix s)),
      dr_semantic_key = provisioning_key x (is_suffix s), dr_schema_version = ''1.0'', dr_occurred_at = pc_recorded_at x,
      dr_canonical_payload = cd_encode cd (is_payload s), dr_payload_sha256 = canonical_sha256 cd (is_payload s),
      dr_details = \<lparr>pd_target_kind = ''JIRA'', pd_operation_type = is_operation s, pd_aggregate_id = is_aggregate_id s,
        pd_aggregate_version = 1, pd_status = ''PENDING''\<rparr>\<rparr>"

lemma provisioning_intent_Inr: "provisioning_intent cd x s = Inr d \<Longrightarrow> d = drafted cd x s"
  unfolding provisioning_intent_def projection_draft_def make_envelope_def create_draft_def draft_identity_def drafted_def
  by (elim bindR_InrE) (auto simp: built_Inr envelope_canonical_def Let_def elim!: bindR_InrE)

lemma provisioning_key_text: "\<not> blank (provisioning_key x suffix)"
proof -
  have "CHR ''j'' \<in> set (provisioning_key x suffix)" by (simp add: provisioning_key_def Let_def)
  then show ?thesis unfolding blank_def by (rule contrapos_pn) (auto simp: is_space_def)
qed

lemma drafted_valid:
  assumes "reads_back cd" and "plain_json (is_payload s)" and "\<not> blank (is_operation s)"
  shows "provisioning_intent cd x s = Inr (drafted cd x s)" "validate_projection cd (drafted cd x s) = Inr ()"
proof -
  have d: "cd_decode cd (cd_encode cd (is_payload s)) = Some (is_payload s)" using assms(1,2) by (simp add: reads_back_def)
  have t: "\<not> blank ''1.0''" "\<not> blank ''JIRA''" by (simp_all add: blank_def is_space_def)
  show v: "validate_projection cd (drafted cd x s) = Inr ()"
    using d t assms(3) provisioning_key_text[of x "is_suffix s"]
    by (simp add: validate_draft_def validate_draft_envelope_def drafted_def non_empty_def canonical_document_def guardR_def
        check_projection_details_def non_negative_def)
  show "provisioning_intent cd x s = Inr (drafted cd x s)"
    using v t assms(3) provisioning_key_text[of x "is_suffix s"]
    by (simp add: provisioning_intent_def projection_draft_def make_envelope_def built_def check_envelope_def create_draft_def
        draft_identity_def envelope_canonical_def Let_def drafted_def non_empty_def check_projection_details_def non_negative_def guardR_def)
qed

lemma validate_drafts_distinct:
  "\<forall>d \<in> set ds. check d = Inr () \<Longrightarrow> distinct (map dr_semantic_key ds) \<Longrightarrow>
   \<forall>d \<in> set ds. map_of seen (dr_semantic_key d) = None \<Longrightarrow> validate_drafts check field_name ds seen = Inr ()"
proof (induction ds arbitrary: seen)
  case (Cons d ds)
  have "\<forall>e \<in> set ds. map_of (dict_set (dr_semantic_key d) (deduplication_content d) seen) (dr_semantic_key e) = None"
    using Cons.prems by (auto simp: map_of_dict_set) (metis image_eqI)
  then show ?case using Cons by simp
qed simp

text \<open>A valid draft that waits for the given semantic keys, and drafts each of which waits for earlier ones only.\<close>

definition waits :: "codec \<Rightarrow> ProjectionIntentDraft \<Rightarrow> string list \<Rightarrow> bool" where
  "waits cd d keys \<longleftrightarrow> validate_projection cd d = Inr () \<and> dependency_keys cd (dr_canonical_payload d) = Inr keys"

fun in_order :: "codec \<Rightarrow> string set \<Rightarrow> ProjectionIntentDraft list \<Rightarrow> bool" where
  "in_order cd seen [] = True"
| "in_order cd seen (d # ds) =
     ((\<exists>keys. waits cd d keys \<and> set keys \<subseteq> seen) \<and> in_order cd (insert (dr_semantic_key d) seen) ds)"

lemma in_order_append:
  "in_order cd seen (ds @ es) \<longleftrightarrow> in_order cd seen ds \<and> in_order cd (seen \<union> dr_semantic_key ` set ds) es"
  by (induction ds arbitrary: seen) auto

lemma in_order_valid: "in_order cd seen ds \<Longrightarrow> d \<in> set ds \<Longrightarrow> validate_projection cd d = Inr ()"
  by (induction ds arbitrary: seen) (auto simp: waits_def)

lemma in_order_all: "\<forall>d \<in> set ds. waits cd d keys \<Longrightarrow> set keys \<subseteq> seen \<Longrightarrow> in_order cd seen ds"
proof (induction ds arbitrary: seen)
  case (Cons d ds)
  have "in_order cd (insert (dr_semantic_key d) seen) ds" using Cons.prems by (intro Cons.IH) auto
  then show ?case using Cons.prems by auto
qed simp

lemma strings_of_keys: "strings_of (map JStr ks) = Some ks"
  by (induction ks) simp_all

lemma drafted_waits:
  assumes "reads_back cd" and "is_payload s = JObj kvs" and "plain_json (JObj kvs)" and "\<not> blank (is_operation s)"
    and "map_of kvs ''depends_on'' = Some (keys_json keys)"
  shows "\<exists>d. provisioning_intent cd x s = Inr d \<and> dr_semantic_key d = provisioning_key x (is_suffix s) \<and> waits cd d keys"
proof -
  have p: "plain_json (is_payload s)" using assms(2,3) by simp
  have "cd_decode cd (cd_encode cd (JObj kvs)) = Some (JObj kvs)" using assms(1,3) unfolding reads_back_def by blast
  then have "dependency_keys cd (cd_encode cd (JObj kvs)) = Inr keys"
    using assms(5) by (simp add: dependency_keys_def strings_of_keys)
  then have "waits cd (drafted cd x s) keys"
    using drafted_valid(2)[OF assms(1) p assms(4)] assms(2) by (simp add: waits_def drafted_def)
  then show ?thesis using drafted_valid(1)[OF assms(1) p assms(4)] by (auto simp: drafted_def)
qed

lemma operations_text: "\<not> blank ''CREATE_PROJECT''" "\<not> blank ''CREATE_BOARD''" "\<not> blank ''CREATE_ISSUE''"
  "\<not> blank ''CREATE_SPRINT''" "\<not> blank ''SCOPE_SPRINT''" "\<not> blank ''START_SPRINT''"
  by (simp_all add: blank_def is_space_def)

lemma key_order: "''board_type'' < ''depends_on''" "''depends_on'' < ''name''" "''name'' < ''project_key''"
  "''depends_on'' < ''project_key''" "''project_key'' < ''project_name''" "''depends_on'' < ''fields''" "''fields'' < ''issue_id''"
  "''issue_id'' < ''issue_type''" "''issue_type'' < ''project_key''" "''project_key'' < ''summary''" "''board_id'' < ''depends_on''"
  "''depends_on'' < ''end_at''" "''end_at'' < ''name''" "''name'' < ''sprint_id''" "''sprint_id'' < ''start_at''"
  "''depends_on'' < ''issue_ids''" "''issue_ids'' < ''sprint_id''" "''depends_on'' < ''sprint_id''"
  by (simp_all add: less_char_def)

lemmas made_simps = operations_text key_order order.strict_trans

lemma project_made:
  "reads_back cd \<Longrightarrow> \<exists>d. project_intent cd x = Inr d \<and> dr_semantic_key d = provisioning_key x ''project'' \<and> waits cd d []"
  unfolding project_intent_def by (rule drafted_waits[THEN exE]) (auto simp: made_simps)

lemma board_made:
  "reads_back cd \<Longrightarrow> \<exists>d. board_intent cd x k = Inr d \<and> dr_semantic_key d = provisioning_key x ''board'' \<and> waits cd d [k]"
  unfolding board_intent_def by (rule drafted_waits[THEN exE]) (auto simp: made_simps)

lemma issue_made:
  "reads_back cd \<Longrightarrow> \<exists>d. issue_intent cd x k w = Inr d \<and>
     dr_semantic_key d = provisioning_key x (''issue/'' @ uuid_text (wi_id w)) \<and> waits cd d [k]"
  unfolding issue_intent_def by (rule drafted_waits[THEN exE]) (auto simp: made_simps)

lemma create_sprint_made:
  "reads_back (en_codec env) \<Longrightarrow> \<exists>d. create_sprint_intent env x sp ks = Inr d \<and>
     dr_semantic_key d = provisioning_key x (''sprint/'' @ uuid_text (ss_id sp) @ ''/create'') \<and> waits (en_codec env) d ks"
  unfolding create_sprint_intent_def by (rule drafted_waits[THEN exE]) (auto simp: made_simps)

lemma scope_sprint_made:
  "reads_back cd \<Longrightarrow> \<exists>d. scope_sprint_intent cd x sp k = Inr d \<and>
     dr_semantic_key d = provisioning_key x (''sprint/'' @ uuid_text (ss_id sp) @ ''/scope'') \<and> waits cd d [k]"
  unfolding scope_sprint_intent_def by (rule drafted_waits[THEN exE]) (auto simp: made_simps)

lemma start_sprint_made:
  "reads_back cd \<Longrightarrow> \<exists>d. start_sprint_intent cd x sp k = Inr d \<and>
     dr_semantic_key d = provisioning_key x (''sprint/'' @ uuid_text (ss_id sp) @ ''/start'') \<and> waits cd d [k]"
  unfolding start_sprint_intent_def by (rule drafted_waits[THEN exE]) (auto simp: made_simps)

lemma issues_made:
  assumes "reads_back cd"
  shows "\<exists>ds. mapR (issue_intent cd x k) ws = Inr ds \<and> (\<forall>d \<in> set ds. waits cd d [k]) \<and>
    map dr_semantic_key ds = map (\<lambda>w. provisioning_key x (''issue/'' @ uuid_text (wi_id w))) ws"
proof (induction ws)
  case (Cons w ws)
  obtain d where "issue_intent cd x k w = Inr d" "waits cd d [k]"
    "dr_semantic_key d = provisioning_key x (''issue/'' @ uuid_text (wi_id w))" using issue_made[OF assms] by blast
  with Cons show ?case by auto
qed simp

text \<open>What has to be delivered first always stands first, and no two intents share a key.\<close>

definition suffixes :: "ProvisioningContext \<Rightarrow> string list" where
  "suffixes x = ''project'' # ''board'' # map (\<lambda>w. ''issue/'' @ uuid_text (wi_id w)) (st_work_items (lt_scrum (pc_state x)))"

lemma basics_made:
  assumes "reads_back cd"
  shows "\<exists>ds. provisioning_intents cd x = Inr ds \<and> in_order cd {} ds \<and> map dr_semantic_key ds = map (provisioning_key x) (suffixes x)"
proof -
  obtain p where p: "project_intent cd x = Inr p" "dr_semantic_key p = provisioning_key x ''project''" "waits cd p []"
    using project_made[OF assms] by blast
  obtain b where b: "board_intent cd x (dr_semantic_key p) = Inr b" "dr_semantic_key b = provisioning_key x ''board''"
    "waits cd b [dr_semantic_key p]" using board_made[OF assms] by blast
  obtain ds where d: "mapR (issue_intent cd x (dr_semantic_key b)) (st_work_items (lt_scrum (pc_state x))) = Inr ds"
    "\<forall>d \<in> set ds. waits cd d [dr_semantic_key b]"
    "map dr_semantic_key ds = map (\<lambda>w. provisioning_key x (''issue/'' @ uuid_text (wi_id w))) (st_work_items (lt_scrum (pc_state x)))"
    using issues_made[OF assms] by blast
  have "in_order cd (insert (dr_semantic_key b) (insert (dr_semantic_key p) {})) ds"
    by (rule in_order_all[OF d(2)]) simp
  then have "in_order cd {} (p # b # ds)" using p(3) b(3) by auto
  moreover have "map dr_semantic_key (p # b # ds) = map (provisioning_key x) (suffixes x)"
    using p(2) b(2) d(3) by (simp add: suffixes_def)
  ultimately show ?thesis using p(1) b(1) d(1) by (simp add: provisioning_intents_def)
qed

definition sprint_suffixes :: "SprintState \<Rightarrow> string list" where
  "sprint_suffixes sp = map (\<lambda>step. ''sprint/'' @ uuid_text (ss_id sp) @ step) [''/create'', ''/scope'', ''/start'']"

definition first_active :: "LiveTeamState \<Rightarrow> SprintState option" where
  "first_active st = List.find (\<lambda>s. ss_lifecycle s = SP_ACTIVE) (st_sprints (lt_scrum st))"

lemma initial_made:
  assumes "reads_back (en_codec env)"
  shows "\<exists>ds. initial_provisioning_intents env x = Inr ds \<and> in_order (en_codec env) {} ds \<and> map dr_semantic_key ds =
    map (provisioning_key x) (suffixes x @ (case first_active (pc_state x) of None \<Rightarrow> [] | Some sp \<Rightarrow> sprint_suffixes sp))"
proof -
  obtain ds where ds: "provisioning_intents (en_codec env) x = Inr ds" "in_order (en_codec env) {} ds"
    "map dr_semantic_key ds = map (provisioning_key x) (suffixes x)" using basics_made[OF assms] by blast
  show ?thesis
  proof (cases "first_active (pc_state x)")
    case None
    then show ?thesis using ds by (simp add: initial_provisioning_intents_def first_active_def)
  next
    case (Some sp)
    let ?key = "\<lambda>step. provisioning_key x (''sprint/'' @ uuid_text (ss_id sp) @ step)"
    obtain c where c: "create_sprint_intent env x sp (map dr_semantic_key (drop 1 ds)) = Inr c" "dr_semantic_key c = ?key ''/create''"
      "waits (en_codec env) c (map dr_semantic_key (drop 1 ds))" using create_sprint_made[OF assms] by blast
    obtain s where s: "scope_sprint_intent (en_codec env) x sp (dr_semantic_key c) = Inr s" "dr_semantic_key s = ?key ''/scope''"
      "waits (en_codec env) s [dr_semantic_key c]" using scope_sprint_made[OF assms] by blast
    obtain t where t: "start_sprint_intent (en_codec env) x sp (dr_semantic_key s) = Inr t" "dr_semantic_key t = ?key ''/start''"
      "waits (en_codec env) t [dr_semantic_key s]" using start_sprint_made[OF assms] by blast
    have "set (map dr_semantic_key (drop 1 ds)) \<subseteq> {} \<union> dr_semantic_key ` set ds" using set_drop_subset by fastforce
    then have "in_order (en_codec env) {} (ds @ [c, s, t])"
      unfolding in_order_append using ds(2) c(3) s(3) t(3) by fastforce
    moreover have "map dr_semantic_key (ds @ [c, s, t]) = map (provisioning_key x) (suffixes x @ sprint_suffixes sp)"
      using ds(3) c(2) s(2) t(2) by (simp add: sprint_suffixes_def)
    moreover have "initial_provisioning_intents env x = Inr (ds @ [c, s, t])"
      using ds(1) c(1) s(1) t(1) Some by (simp add: initial_provisioning_intents_def first_active_def active_sprint_intents_def)
    ultimately show ?thesis using Some by auto
  qed
qed

lemma provisioning_key_inj: "provisioning_key x a = provisioning_key x b \<longleftrightarrow> a = b"
  by (simp add: provisioning_key_def Let_def)

lemma suffixes_distinct:
  assumes "distinct (map wi_id (st_work_items (lt_scrum (pc_state x))))"
    and "\<forall>w \<in> set (st_work_items (lt_scrum (pc_state x))). wi_id w < 2 ^ 128"
  shows "distinct (suffixes x @ sprint_suffixes sp)"
proof -
  have "inj_on (\<lambda>w. ''issue/'' @ uuid_text (wi_id w)) (set (st_work_items (lt_scrum (pc_state x))))"
    using assms uuid_text_inj by (auto simp: inj_on_def distinct_map)
  then show ?thesis using assms(1) by (auto simp: suffixes_def sprint_suffixes_def distinct_map)
qed

text \<open>The first row of an ordered list that is still outstanding waits for nothing that is.\<close>

lemma in_order_progress:
  assumes "in_order cd seen (map st_draft rows)" and "seen \<subseteq> delivered_keys db" and "set rows \<subseteq> set (db_intents db)"
    and "List.find (outstanding db) rows = Some i"
  shows "dependencies_delivered cd db i = Inr True"
  using assms
proof (induction rows arbitrary: seen)
  case (Cons r rows)
  obtain keys where k: "waits cd (st_draft r) keys" "set keys \<subseteq> seen" using Cons.prems(1) by auto
  show ?case
  proof (cases "outstanding db r")
    case True
    have "delivered_keys db \<inter> set keys = set keys" using k(2) Cons.prems(2) by blast
    then have "dependencies_delivered cd db r = Inr True" using k(1) by (simp add: dependencies_delivered_def waits_def)
    then show ?thesis using True Cons.prems(4) by simp
  next
    case False
    then have "dr_semantic_key (st_draft r) \<in> delivered_keys db" using Cons.prems(3) unfolding delivered_keys_def by auto
    then have "insert (dr_semantic_key (st_draft r)) seen \<subseteq> delivered_keys db" using Cons.prems(2) by blast
    then show ?thesis using Cons.IH[of "insert (dr_semantic_key (st_draft r)) seen"] Cons.prems False by simp
  qed
qed simp

lemma provisioning_commit_valid:
  assumes "in_order cd {} ds" and "distinct (map dr_semantic_key ds)" and "\<not> blank (rt_state (lt_runtime (pc_state x)))"
    and "0 \<le> rt_version (lt_runtime (pc_state x))"
  shows "\<exists>k. provisioning_commit cd x ds = Inr k \<and> tc_projection_intents k = ds"
proof -
  have "validate_drafts (validate_projection cd) ''projection intents'' ds [] = Inr ()"
    using in_order_valid[OF assms(1)] assms(2) by (intro validate_drafts_distinct) auto
  then show ?thesis using assms(3,4)
    by (simp add: provisioning_commit_def built_def validate_commit_def check_runtime_advance_def non_empty_def
        non_negative_def Let_def)
qed

section \<open>Properties\<close>

text \<open>(C19) The bootstrap of a team with work always composes its provisioning, and its delivery cannot stall: of its
  stored rows, the first one that is still outstanding (the one the store looks at) has every dependency delivered.\<close>

theorem provisioning_never_stalls:
  assumes "reads_back (en_codec env)" and "st_work_items (lt_scrum st) \<noteq> []" and "distinct (map wi_id (st_work_items (lt_scrum st)))"
    and "\<forall>w \<in> set (st_work_items (lt_scrum st)). wi_id w < 2 ^ 128"
    and "\<not> blank (rt_state (lt_runtime st))" and "0 \<le> rt_version (lt_runtime st)"
  shows "\<exists>k. compose_initial_jira_provisioning env st = Inr k \<and>
    (\<forall>db rows i. map st_draft rows = tc_projection_intents k \<longrightarrow> set rows \<subseteq> set (db_intents db) \<longrightarrow>
      List.find (outstanding db) rows = Some i \<longrightarrow> dependencies_delivered (en_codec env) db i = Inr True)"
proof -
  obtain t ts where "map wi_created_at (st_work_items (lt_scrum st)) = t # ts"
    using assms(2) by (cases "st_work_items (lt_scrum st)") auto
  then obtain x where x: "provisioning_context st = Inr x" "pc_state x = st" by (simp add: provisioning_context_def)
  obtain ds where ds: "initial_provisioning_intents env x = Inr ds" "in_order (en_codec env) {} ds"
    "map dr_semantic_key ds =
      map (provisioning_key x) (suffixes x @ (case first_active st of None \<Rightarrow> [] | Some sp \<Rightarrow> sprint_suffixes sp))"
    using initial_made[OF assms(1), of x] x(2) by auto
  have "distinct (suffixes x @ (case first_active st of None \<Rightarrow> [] | Some sp \<Rightarrow> sprint_suffixes sp))"
    using suffixes_distinct[of x] assms(3,4) x(2) by (fastforce split: option.split)
  then have "distinct (map dr_semantic_key ds)"
    unfolding ds(3) distinct_map by (simp add: inj_on_def provisioning_key_inj del: distinct_append)
  then obtain k where k: "provisioning_commit (en_codec env) x ds = Inr k" "tc_projection_intents k = ds"
    using provisioning_commit_valid[OF ds(2)] assms(5,6) x(2) by blast
  then have "compose_initial_jira_provisioning env st = Inr k" using x(1) ds(1) by (simp add: compose_initial_jira_provisioning_def)
  moreover have "dependencies_delivered (en_codec env) db i = Inr True"
    if "map st_draft rows = tc_projection_intents k" "set rows \<subseteq> set (db_intents db)" "List.find (outstanding db) rows = Some i"
    for db rows i
    by (rule in_order_progress[of _ "{}" rows]) (use that ds(2) k(2) in simp_all)
  ultimately show ?thesis by blast
qed

text \<open>What a second composition depends on.\<close>

definition provisioned_as :: "LiveTeamState \<Rightarrow> LiveTeamState \<Rightarrow> bool" where
  "provisioned_as st st' \<longleftrightarrow>
     vt_id (pa_team (lt_aggregate st')) = vt_id (pa_team (lt_aggregate st)) \<and> bp_jira (lt_blueprint st') = bp_jira (lt_blueprint st) \<and>
     rt_team_id (lt_runtime st') = rt_team_id (lt_runtime st) \<and> rt_run_id (lt_runtime st') = rt_run_id (lt_runtime st) \<and>
     map (\<lambda>w. (wi_id w, wi_issue_type w, wi_creation_sequence w, wi_created_at w)) (st_work_items (lt_scrum st')) =
     map (\<lambda>w. (wi_id w, wi_issue_type w, wi_creation_sequence w, wi_created_at w)) (st_work_items (lt_scrum st))"

lemma mapR_map_cong: "map f xs = map g ys \<Longrightarrow> mapR f xs = mapR g ys"
proof (induction xs arbitrary: ys)
  case (Cons x xs)
  then show ?case by (cases ys) auto
qed simp

lemma provisioned_as_intents:
  assumes "provisioned_as st st'" and "provisioning_context st = Inr x" and "provisioning_context st' = Inr x'"
  shows "provisioning_intents cd x' = provisioning_intents cd x"
proof -
  let ?t = "\<lambda>w. (wi_id w, wi_issue_type w, wi_creation_sequence w, wi_created_at w)"
  have m: "map ?t (st_work_items (lt_scrum st')) = map ?t (st_work_items (lt_scrum st))" using assms(1) by (simp add: provisioned_as_def)
  have s: "pc_state x = st" "pc_state x' = st'"
    using assms(2,3) by (auto simp: provisioning_context_def split: list.splits)
  have "map (\<lambda>(i, t, n, c). c) (map ?t (st_work_items (lt_scrum st'))) = map (\<lambda>(i, t, n, c). c) (map ?t (st_work_items (lt_scrum st)))"
    using m by simp
  then have "map wi_created_at (st_work_items (lt_scrum st')) = map wi_created_at (st_work_items (lt_scrum st))" by (simp add: comp_def)
  then have r: "pc_recorded_at x' = pc_recorded_at x"
    using assms(2,3) by (auto simp: provisioning_context_def split: list.splits)
  have i: "provisioning_intent cd x' = provisioning_intent cd x"
    using assms(1) r by (intro ext) (simp add: provisioning_intent_def provisioning_key_def provisioned_as_def s Let_def)
  have j: "bp_jira (lt_blueprint st') = bp_jira (lt_blueprint st)"
    "vt_id (pa_team (lt_aggregate st')) = vt_id (pa_team (lt_aggregate st))" using assms(1) by (simp_all add: provisioned_as_def)
  have "map (issue_intent cd x' key) (st_work_items (lt_scrum st')) = map (issue_intent cd x key) (st_work_items (lt_scrum st))" for key
  proof -
    let ?g = "\<lambda>(identity, t, n, c :: instant). provisioning_intent cd x
      \<lparr>is_suffix = ''issue/'' @ uuid_text identity, is_operation = ''CREATE_ISSUE'', is_aggregate_id = identity,
       is_payload = JObj [(''depends_on'', keys_json [key]), (''fields'', JObj []), (''issue_id'', JStr (uuid_text identity)),
         (''issue_type'', JStr (title t)), (''project_key'', JStr (jb_project_key (pc_jira x))),
         (''summary'', JStr (''Simulated '' @ title t @ '' '' @ int_text (n + 1)))]\<rparr>"
    have "issue_intent cd x key w = ?g (?t w)" "issue_intent cd x' key w = ?g (?t w)" for w
      by (simp_all add: issue_intent_def i j s)
    then have "map (issue_intent cd x' key) (st_work_items (lt_scrum st')) = map ?g (map ?t (st_work_items (lt_scrum st')))"
      "map (issue_intent cd x key) (st_work_items (lt_scrum st)) = map ?g (map ?t (st_work_items (lt_scrum st)))" by simp_all
    then show ?thesis unfolding m by simp
  qed
  then have "mapR (issue_intent cd x' key) (st_work_items (lt_scrum st')) = mapR (issue_intent cd x key) (st_work_items (lt_scrum st))" for key
    by (rule mapR_map_cong)
  then show ?thesis by (simp add: provisioning_intents_def project_intent_def board_intent_def i j s)
qed

lemma validate_drafts_prefix:
  "validate_drafts check f (ds @ es) seen = Inr () \<Longrightarrow> validate_drafts check f ds seen = Inr ()"
  by (induction ds arbitrary: seen) (auto simp: bindR_check split: if_splits)

lemma persist_prefix:
  assumes "ledger_ok l" and "persist check k (ds @ es) l = Inr (l', rows)" and "(tc_team_id k', tc_run_id k') = (tc_team_id k, tc_run_id k)"
  shows "persist check k' ds l' = Inr (l', take (length ds) rows)"
proof -
  have l: "ledger_ok l'" "list_all2 (holds check (owner k) l') (ds @ es) rows" using persist_effect[OF assms(1,2)] by simp_all
  then have "list_all2 (holds check (owner k') l') (take (length ds) (ds @ es)) (take (length ds) rows)"
    using assms(3) by (simp del: take_append)
  then show ?thesis by (intro persist_held[OF l(1)]) simp
qed

text \<open>(C22) Provisioning again after a restart writes nothing: for the same team, run, project and work items the
  composed intents, of the project, the board and every work item, are the first ones of the bootstrap, and appending them to the
  ledger that the bootstrap left returns the stored rows.\<close>

theorem provisioning_replayed:
  assumes "compose_initial_jira_provisioning env st = Inr k"
    and "append_projection_intents (en_codec env) k db = Inr (db', rows)" and "ledger_ok (ld_projection db)"
    and "provisioned_as st st'" and "compose_jira_provisioning env st' = Inr k'"
  shows "append_projection_intents (en_codec env) k' db' = Inr (db', take (2 + length (st_work_items (lt_scrum st))) rows)"
proof -
  obtain x ds more where x: "provisioning_context st = Inr x" "provisioning_intents (en_codec env) x = Inr ds"
    "provisioning_commit (en_codec env) x (ds @ more) = Inr k"
    using assms(1) unfolding compose_initial_jira_provisioning_def initial_provisioning_intents_def
    by (elim bindR_InrE) (auto split: option.splits elim!: bindR_InrE, metis append_Nil2)
  obtain x' where x': "provisioning_context st' = Inr x'" "provisioning_commit (en_codec env) x' ds = Inr k'"
    using assms(5) x(2) provisioned_as_intents[OF assms(4) x(1)]
    by (auto simp: compose_jira_provisioning_def elim!: bindR_InrE)
  have s: "pc_state x = st" "pc_state x' = st'"
    using x(1) x'(1) by (auto simp: provisioning_context_def split: list.splits)
  have k: "tc_projection_intents k = ds @ more" "tc_team_id k = rt_team_id (lt_runtime st)" "tc_run_id k = rt_run_id (lt_runtime st)"
    using x(3) by (auto simp: provisioning_commit_def Let_def built_Inr s elim!: bindR_InrE)
  have k': "tc_projection_intents k' = ds" "tc_team_id k' = rt_team_id (lt_runtime st')" "tc_run_id k' = rt_run_id (lt_runtime st')"
    "tc_activity k' = []" "tc_ground_truth k' = []" "validate_commit (en_codec env) k' = Inr ()"
    using x'(2) by (auto simp: provisioning_commit_def Let_def built_Inr s elim!: bindR_InrE)
  obtain lp where p: "persist (validate_projection (en_codec env)) k (ds @ more) (ld_projection db) = Inr (lp, rows)"
    "db' = db\<lparr>ld_projection := lp\<rparr>"
    using assms(2) k(1) by (auto simp: append_projection_intents_def split: if_splits elim!: bindR_InrE bindR_Inr2E)
  have o: "(tc_team_id k', tc_run_id k') = (tc_team_id k, tc_run_id k)" using assms(4) k k' by (simp add: provisioned_as_def)
  have "length ds = 2 + length (st_work_items (lt_scrum st))"
    using x(2) s by (auto simp: provisioning_intents_def elim!: bindR_InrE dest: mapR_length)
  then have "persist (validate_projection (en_codec env)) k' ds lp = Inr (lp, take (2 + length (st_work_items (lt_scrum st))) rows)"
    using persist_prefix[OF assms(3) p(1) o] by simp
  then show ?thesis using k' p(2) by (simp add: append_projection_intents_def)
qed

end
