(* ===== verification/Live_Team.thy ===== *)
theory Live_Team
  imports Scrum_Store Scrum_Bootstrap Provisioning
begin

text \<open>
  A team's life in the store: creating it (\<open>v2/application/create_team.py\<close>, \<open>v2/persistence/team_repository.py\<close>),
  reading it together with its Scrum state, and its bootstrap (\<open>v2/persistence/live_team_store.py\<close>).

  Instants are aware UTC datetimes, so normalising the time of a request changes nothing. What other sessions commit
  between two transactions of one call is a function \<open>others\<close> on the data base.
\<close>

section \<open>Creating a team\<close>

record CreateTeamCommand =
  ct_idempotency_key :: string
  ct_blueprint_json :: string
  ct_requested_at :: instant

definition InvalidResolvedBlueprint :: "string \<Rightarrow> py_exc" where
  "InvalidResolvedBlueprint message = Value_Error (''InvalidResolvedBlueprint: '' @ message)"

definition TeamCreationConflict :: py_exc where
  "TeamCreationConflict = Value_Error ''TeamCreationConflict: idempotency key is already associated with a different blueprint''"

definition new_runtime :: "codec \<Rightarrow> uuid \<Rightarrow> uuid \<Rightarrow> instant \<Rightarrow> TeamRuntime" where
  "new_runtime cd team run requested_at =
     \<lparr>rt_id = semantic_uuid cd (''runtime/'' @ uuid_text team), rt_team_id = team, rt_run_id = run, rt_version = 0,
      rt_state = ''CREATED'', rt_simulation_time = requested_at, rt_next_wake_at = None, rt_created_at = requested_at,
      rt_updated_at = requested_at\<rparr>"

definition new_aggregate :: "codec \<Rightarrow> string \<Rightarrow> ResolvedTeamBlueprint \<Rightarrow> instant \<Rightarrow> PersistedTeamAggregate res" where
  "new_aggregate cd key b requested_at =
     (case cd_decode cd (bp_canonical_document b) of
        None \<Rightarrow> Inl (Value_Error ''invalid JSON'')
      | Some document \<Rightarrow>
          let digest = canonical_sha256 cd document;
              team = semantic_uuid cd (''team/'' @ digest);
              run = semantic_uuid cd (''run/'' @ uuid_text team @ ''/0'')
          in Inr
            \<lparr>pa_team = \<lparr>vt_id = team, vt_idempotency_key = key, vt_blueprint_sha256 = digest, vt_name = tb_name (bp_team b),
               vt_methodology = tb_methodology (bp_team b), vt_created_at = requested_at\<rparr>,
             pa_blueprint_id = semantic_uuid cd (''blueprint/'' @ uuid_text team @ ''/0''), pa_blueprint = b,
             pa_blueprint_sha256 = digest, pa_blueprint_recorded_at = requested_at,
             pa_run = \<lparr>vr_id = run, vr_team_id = team, vr_ordinal = 0, vr_state = ''CREATED'', vr_created_at = requested_at\<rparr>,
             pa_runtime = new_runtime cd team run requested_at\<rparr>)"

section \<open>The repository\<close>

abbreviation db_runtimes :: "scrum_db \<Rightarrow> TeamRuntime list" where
  "db_runtimes db \<equiv> ld_runtimes (db_live db)"

definition map_team :: "team_row \<Rightarrow> V2Team" where
  "map_team t = \<lparr>vt_id = tr_id t, vt_idempotency_key = tr_idempotency_key t, vt_blueprint_sha256 = tr_blueprint_sha256 t,
     vt_name = tr_name t, vt_methodology = tr_methodology t, vt_created_at = tr_created_at t\<rparr>"

definition map_run :: "run_row \<Rightarrow> V2Run" where
  "map_run r = \<lparr>vr_id = rn_id r, vr_team_id = rn_team_id r, vr_ordinal = rn_ordinal r, vr_state = rn_state r,
     vr_created_at = rn_created_at r\<rparr>"

definition stored_parts ::
  "store_env \<Rightarrow> team_row \<Rightarrow> blueprint_row \<Rightarrow> run_row \<Rightarrow> TeamRuntime \<Rightarrow> PersistedTeamAggregate res" where
  "stored_parts env t b r rt =
     bindR (from_canonical_json env (br_canonical_json b)) (\<lambda>blueprint. Inr
       \<lparr>pa_team = map_team t, pa_blueprint_id = br_id b, pa_blueprint = blueprint, pa_blueprint_sha256 = br_sha256 b,
        pa_blueprint_recorded_at = br_recorded_at b, pa_run = map_run r, pa_runtime = rt\<rparr>)"

definition repository_aggregate :: "store_env \<Rightarrow> scrum_db \<Rightarrow> team_row \<Rightarrow> PersistedTeamAggregate res" where
  "repository_aggregate env db t =
     (case (row_at br_team_id (db_blueprints db) (tr_id t), row_at rn_team_id (db_runs db) (tr_id t),
            row_at rt_team_id (db_runtimes db) (tr_id t)) of
        (Some b, Some r, Some rt) \<Rightarrow> stored_parts env t b r rt
      | _ \<Rightarrow> Inl (Runtime_Error ''persisted v2 team aggregate is incomplete''))"

definition optional_aggregate :: "store_env \<Rightarrow> scrum_db \<Rightarrow> team_row option \<Rightarrow> PersistedTeamAggregate option res" where
  "optional_aggregate env db row =
     (case row of None \<Rightarrow> Inr None | Some t \<Rightarrow> bindR (repository_aggregate env db t) (\<lambda>a. Inr (Some a)))"

definition get_by_id :: "store_env \<Rightarrow> scrum_db \<Rightarrow> uuid \<Rightarrow> PersistedTeamAggregate option res" where
  "get_by_id env db team = optional_aggregate env db (row_at tr_id (db_teams db) team)"

definition get_by_idempotency_key :: "store_env \<Rightarrow> scrum_db \<Rightarrow> string \<Rightarrow> PersistedTeamAggregate option res" where
  "get_by_idempotency_key env db key = optional_aggregate env db (row_at tr_idempotency_key (db_teams db) key)"

definition resolve_existing :: "PersistedTeamAggregate \<Rightarrow> PersistedTeamAggregate \<Rightarrow> PersistedTeamAggregate res" where
  "resolve_existing existing submitted =
     (if pa_blueprint_sha256 existing \<noteq> pa_blueprint_sha256 submitted then Inl TeamCreationConflict else Inr existing)"

text \<open>
  The rows of a new team. The primary keys and unique constraints of the four tables; the foreign keys of one aggregate
  point to its own rows. The schema version of a blueprint is the literal \<open>2.0\<close>.
\<close>

definition team_rows_clash :: "PersistedTeamAggregate \<Rightarrow> scrum_db \<Rightarrow> bool" where
  "team_rows_clash a db \<longleftrightarrow>
     (\<exists>t \<in> set (db_teams db). tr_id t = vt_id (pa_team a) \<or> tr_idempotency_key t = vt_idempotency_key (pa_team a)) \<or>
     (\<exists>b \<in> set (db_blueprints db). br_id b = pa_blueprint_id a \<or> br_team_id b = vt_id (pa_team a)) \<or>
     (\<exists>r \<in> set (db_runs db). rn_id r = vr_id (pa_run a) \<or>
        rn_team_id r = vr_team_id (pa_run a) \<and> rn_ordinal r = vr_ordinal (pa_run a)) \<or>
     (\<exists>rt \<in> set (db_runtimes db). rt_id rt = rt_id (pa_runtime a) \<or> rt_team_id rt = rt_team_id (pa_runtime a) \<or>
        rt_run_id rt = rt_run_id (pa_runtime a))"

definition add_models :: "PersistedTeamAggregate \<Rightarrow> scrum_db \<Rightarrow> scrum_db res" where
  "add_models a db =
     (let t = pa_team a; r = pa_run a in
      if team_rows_clash a db then Inl Integrity_Error
      else Inr (db
        \<lparr>db_teams := db_teams db @
           [\<lparr>tr_id = vt_id t, tr_idempotency_key = vt_idempotency_key t, tr_blueprint_sha256 = vt_blueprint_sha256 t,
             tr_name = vt_name t, tr_methodology = vt_methodology t, tr_created_at = vt_created_at t\<rparr>],
         db_blueprints := db_blueprints db @
           [\<lparr>br_id = pa_blueprint_id a, br_team_id = vt_id t, br_schema_version = ''2.0'',
             br_canonical_json = bp_canonical_document (pa_blueprint a), br_sha256 = pa_blueprint_sha256 a,
             br_recorded_at = pa_blueprint_recorded_at a\<rparr>],
         db_runs := db_runs db @
           [\<lparr>rn_id = vr_id r, rn_team_id = vr_team_id r, rn_ordinal = vr_ordinal r, rn_state = vr_state r,
             rn_created_at = vr_created_at r\<rparr>],
         db_live := (db_live db)\<lparr>ld_runtimes := db_runtimes db @ [pa_runtime a]\<rparr>\<rparr>))"

definition repository_create ::
  "store_env \<Rightarrow> (scrum_db \<Rightarrow> scrum_db) \<Rightarrow> PersistedTeamAggregate \<Rightarrow> scrum_db \<Rightarrow> scrum_db \<times> PersistedTeamAggregate res" where
  "repository_create env others a db =
     (let key = vt_idempotency_key (pa_team a); db1 = others db in
      case row_at tr_idempotency_key (db_teams db) key of
        Some t \<Rightarrow> (db1, bindR (repository_aggregate env db t) (\<lambda>existing. resolve_existing existing a))
      | None \<Rightarrow>
          (case add_models a db1 of
             Inr db2 \<Rightarrow> (db2, Inr a)
           | Inl e \<Rightarrow>
               if e \<noteq> Integrity_Error then (db1, Inl e)
               else (db1, bindR (get_by_idempotency_key env db1 key) (\<lambda>existing.
                      case existing of Some x \<Rightarrow> resolve_existing x a | None \<Rightarrow> Inl Integrity_Error))))"

definition create_team ::
  "store_env \<Rightarrow> (scrum_db \<Rightarrow> scrum_db) \<Rightarrow> CreateTeamCommand \<Rightarrow> scrum_db \<Rightarrow> scrum_db \<times> PersistedTeamAggregate res" where
  "create_team env others command db =
     (case from_canonical_json env (ct_blueprint_json command) of
        Inl (Value_Error message) \<Rightarrow> (others db, Inl (InvalidResolvedBlueprint message))
      | Inl e \<Rightarrow> (others db, Inl e)
      | Inr b \<Rightarrow>
          (case new_aggregate (se_codec env) (ct_idempotency_key command) b (ct_requested_at command) of
             Inl e \<Rightarrow> (others db, Inl e)
           | Inr a \<Rightarrow> repository_create env others a db))"

section \<open>The live team\<close>

definition live_aggregate :: "store_env \<Rightarrow> scrum_db \<Rightarrow> uuid \<Rightarrow> PersistedTeamAggregate res" where
  "live_aggregate env db team =
     (case row_at tr_id (db_teams db) team of
        None \<Rightarrow> Inl (Value_Error ''persisted live team does not exist'')
      | Some t \<Rightarrow>
          (case (row_at br_team_id (db_blueprints db) (tr_id t), row_at rt_team_id (db_runtimes db) (tr_id t)) of
             (Some b, Some rt) \<Rightarrow>
               (case row_at rn_id (db_runs db) (rt_run_id rt) of
                  None \<Rightarrow> Inl (Runtime_Error ''runtime does not reference a team run'')
                | Some r \<Rightarrow>
                    if rn_team_id r \<noteq> tr_id t then Inl (Runtime_Error ''runtime does not reference a team run'')
                    else stored_parts env t b r rt)
           | _ \<Rightarrow> Inl (Runtime_Error ''persisted live team aggregate is incomplete'')))"

definition live_load :: "store_env \<Rightarrow> scrum_db \<Rightarrow> uuid \<Rightarrow> LiveTeamState res" where
  "live_load env db team =
     bindR (live_aggregate env db team) (\<lambda>a.
     bindR (load_state env db team (rt_run_id (pa_runtime a))) (\<lambda>scrum. Inr \<lparr>lt_aggregate = a, lt_scrum = scrum\<rparr>))"

definition first_wake_at :: "PersistedTeamAggregate \<Rightarrow> instant \<Rightarrow> instant" where
  "first_wake_at a started_at =
     (let boundary = sb_first_boundary (bp_scrum (pa_blueprint a)) in if started_at < boundary then boundary else started_at)"

definition running_runtime :: "PersistedTeamAggregate \<Rightarrow> instant \<Rightarrow> TeamRuntime list \<Rightarrow> (TeamRuntime list \<times> TeamRuntime) res" where
  "running_runtime a started_at rts =
     (case row_at rt_id rts (rt_id (pa_runtime a)) of
        None \<Rightarrow> Inl (Runtime_Error ''persisted runtime disappeared during bootstrap'')
      | Some rt \<Rightarrow>
          let rt' = rt\<lparr>rt_state := ''RUNNING'', rt_simulation_time := started_at,
                       rt_next_wake_at := Some (first_wake_at a started_at), rt_updated_at := started_at\<rparr>
          in Inr (write_row rt_id rt' rts, rt'))"

definition append_provisioning :: "store_env \<Rightarrow> TickSliceCommit res \<Rightarrow> LiveTeamState \<Rightarrow> scrum_db \<Rightarrow> (scrum_db \<times> LiveTeamState) res" where
  "append_provisioning env provisioning st db =
     bindR provisioning (\<lambda>k.
     bindR (append_projection_intents (se_codec env) k (db_live db)) (\<lambda>(live, rows). Inr (db\<lparr>db_live := live\<rparr>, st)))"

definition bootstrap ::
  "store_env \<Rightarrow> scrum_db \<Rightarrow> PersistedTeamAggregate \<Rightarrow> instant \<Rightarrow> ScrumStateWriteSet \<Rightarrow> (scrum_db \<times> LiveTeamState) res" where
  "bootstrap env db a started_at state =
     bindR (add_state env db state) (\<lambda>(db1, scrum).
     bindR (running_runtime a started_at (db_runtimes db1)) (\<lambda>(rts, rt).
     let db2 = db1\<lparr>db_live := (db_live db1)\<lparr>ld_runtimes := rts\<rparr>\<rparr>;
         st = \<lparr>lt_aggregate = a\<lparr>pa_runtime := rt\<rparr>, lt_scrum = scrum\<rparr>
     in append_provisioning env (compose_initial_jira_provisioning (se_scrum env) st) st db2))"

text \<open>\<open>None\<close>: the search for the first sprint of the bootstrap does not end.\<close>

definition ensure_bootstrapped :: "store_env \<Rightarrow> scrum_db \<Rightarrow> uuid \<Rightarrow> instant \<Rightarrow> (scrum_db \<times> LiveTeamState) res option" where
  "ensure_bootstrapped env db team started_at =
     (case live_load env db team of
        Inl e \<Rightarrow> Some (Inl e)
      | Inr st \<Rightarrow>
          let a = lt_aggregate st in
          if rt_state (pa_runtime a) \<noteq> ''CREATED''
          then Some (append_provisioning env (compose_jira_provisioning (se_scrum env) st) st db)
          else map_option (\<lambda>state. bindR state (bootstrap env db a started_at))
                 (build_initial_scrum_state (se_scrum env) a started_at (seeded_draws (se_codec env) a)))"

section \<open>Rows\<close>

lemma row_at_append: "row_at key (xs @ ys) k = (case row_at key xs k of None \<Rightarrow> row_at key ys k | Some r \<Rightarrow> Some r)"
  by (induction xs) (simp_all add: row_at_def)

lemma row_at_single: "row_at key [x] k = (if key x = k then Some x else None)"
  by (simp add: row_at_def)

lemma row_at_unused: "row_at key xs k = None \<longleftrightarrow> (\<forall>x \<in> set xs. key x \<noteq> k)"
  by (auto simp: row_at_None)

lemmas row_lookups = row_at_append row_at_single

lemma new_aggregate_Inr:
  assumes "new_aggregate cd key b t = Inr a"
  shows "pa_blueprint a = b" "vt_idempotency_key (pa_team a) = key" "vt_blueprint_sha256 (pa_team a) = pa_blueprint_sha256 a"
    "vr_team_id (pa_run a) = vt_id (pa_team a)" "rt_team_id (pa_runtime a) = vt_id (pa_team a)"
    "rt_run_id (pa_runtime a) = vr_id (pa_run a)"
  using assms by (auto simp: new_aggregate_def new_runtime_def Let_def split: option.splits)

lemma add_models_Inr:
  assumes "add_models a db = Inr db'"
  shows "\<not> team_rows_clash a db"
    "db_teams db' = db_teams db @ [\<lparr>tr_id = vt_id (pa_team a), tr_idempotency_key = vt_idempotency_key (pa_team a),
       tr_blueprint_sha256 = vt_blueprint_sha256 (pa_team a), tr_name = vt_name (pa_team a),
       tr_methodology = vt_methodology (pa_team a), tr_created_at = vt_created_at (pa_team a)\<rparr>]"
    "db_blueprints db' = db_blueprints db @ [\<lparr>br_id = pa_blueprint_id a, br_team_id = vt_id (pa_team a), br_schema_version = ''2.0'',
       br_canonical_json = bp_canonical_document (pa_blueprint a), br_sha256 = pa_blueprint_sha256 a,
       br_recorded_at = pa_blueprint_recorded_at a\<rparr>]"
    "db_runs db' = db_runs db @ [\<lparr>rn_id = vr_id (pa_run a), rn_team_id = vr_team_id (pa_run a), rn_ordinal = vr_ordinal (pa_run a),
       rn_state = vr_state (pa_run a), rn_created_at = vr_created_at (pa_run a)\<rparr>]"
    "db_runtimes db' = db_runtimes db @ [pa_runtime a]"
  using assms by (auto simp: add_models_def Let_def split: if_splits)

text \<open>
  What was written is read back, by its key, by its identifier and by the live store; and the rows of another team are
  found as before. The rows hold one run, one blueprint and one runtime of the new team, because none was there.
\<close>

definition team_rows_sound :: "scrum_db \<Rightarrow> bool" where
  "team_rows_sound db \<longleftrightarrow> (\<forall>r \<in> set (db_runs db). rn_team_id r \<in> tr_id ` set (db_teams db))"

lemma added_team_reads_back:
  assumes "add_models a db = Inr db'" and "team_rows_sound db"
    and "vr_team_id (pa_run a) = vt_id (pa_team a)" and "rt_team_id (pa_runtime a) = vt_id (pa_team a)"
    and "rt_run_id (pa_runtime a) = vr_id (pa_run a)"
    and "from_canonical_json env (bp_canonical_document (pa_blueprint a)) = Inr (pa_blueprint a)"
  shows "get_by_idempotency_key env db' (vt_idempotency_key (pa_team a)) = Inr (Some a)"
    and "get_by_id env db' (vt_id (pa_team a)) = Inr (Some a)" and "live_aggregate env db' (vt_id (pa_team a)) = Inr a"
proof -
  note d = add_models_Inr[OF assms(1)]
  have n: "row_at tr_id (db_teams db) (vt_id (pa_team a)) = None" "row_at br_team_id (db_blueprints db) (vt_id (pa_team a)) = None"
    "row_at tr_idempotency_key (db_teams db) (vt_idempotency_key (pa_team a)) = None"
    "row_at rn_id (db_runs db) (vr_id (pa_run a)) = None" "row_at rt_team_id (db_runtimes db) (vt_id (pa_team a)) = None"
    using d(1) assms(4) by (auto simp: row_at_unused team_rows_clash_def)
  then have r: "row_at rn_team_id (db_runs db) (vt_id (pa_team a)) = None"
    using assms(2) by (fastforce simp: row_at_unused team_rows_sound_def)
  show "get_by_idempotency_key env db' (vt_idempotency_key (pa_team a)) = Inr (Some a)"
    "get_by_id env db' (vt_id (pa_team a)) = Inr (Some a)" "live_aggregate env db' (vt_id (pa_team a)) = Inr a"
    using n r assms(3-6) by (simp_all add: get_by_idempotency_key_def get_by_id_def optional_aggregate_def live_aggregate_def
        repository_aggregate_def row_lookups d(2-5) stored_parts_def map_team_def map_run_def)
qed

lemma create_team_parts:
  assumes "create_team env others command db = (db', Inr a)"
  obtains b a' where "from_canonical_json env (ct_blueprint_json command) = Inr b"
    "new_aggregate (se_codec env) (ct_idempotency_key command) b (ct_requested_at command) = Inr a'"
    "repository_create env others a' db = (db', Inr a)"
  using assms by (auto simp: create_team_def split: sum.splits py_exc.splits)

section \<open>Properties of creation\<close>

text \<open>(C20) A created team reads back: once a call for a new idempotency key has returned, the key, the team's identifier
  and the live store give exactly the returned aggregate, and every other team is found as before.\<close>

theorem created_team_reads_back:
  assumes "create_team env id command db = (db', Inr a)" and "row_at tr_idempotency_key (db_teams db) (ct_idempotency_key command) = None"
    and "team_rows_sound db"
    and "\<And>b. from_canonical_json env (ct_blueprint_json command) = Inr b \<Longrightarrow> bp_canonical_document b = ct_blueprint_json command"
  shows "get_by_idempotency_key env db' (ct_idempotency_key command) = Inr (Some a) \<and>
    get_by_id env db' (vt_id (pa_team a)) = Inr (Some a) \<and> live_aggregate env db' (vt_id (pa_team a)) = Inr a \<and>
    (\<forall>team. team \<noteq> vt_id (pa_team a) \<longrightarrow> live_aggregate env db' team = live_aggregate env db team \<and> get_by_id env db' team = get_by_id env db team)"
proof -
  obtain b a' where p: "from_canonical_json env (ct_blueprint_json command) = Inr b"
    "new_aggregate (se_codec env) (ct_idempotency_key command) b (ct_requested_at command) = Inr a'"
    "repository_create env id a' db = (db', Inr a)" by (rule create_team_parts[OF assms(1)])
  note n = new_aggregate_Inr[OF p(2)]
  have add: "add_models a' db = Inr db'" "a = a'"
    using p(3) assms(2) by (auto simp: repository_create_def n Let_def get_by_idempotency_key_def optional_aggregate_def split: sum.splits if_splits)
  note d = add_models_Inr[OF add(1)]
  have "from_canonical_json env (bp_canonical_document (pa_blueprint a')) = Inr (pa_blueprint a')"
    using p(1) assms(4) by (simp add: n)
  note r = added_team_reads_back[OF add(1) assms(3) n(4,5,6) this]
  have "live_aggregate env db' team = live_aggregate env db team \<and> get_by_id env db' team = get_by_id env db team"
    if t: "team \<noteq> vt_id (pa_team a')" for team
  proof (cases "row_at tr_id (db_teams db) team")
    case None
    then show ?thesis using t by (simp add: live_aggregate_def get_by_id_def optional_aggregate_def d(2) row_lookups)
  next
    case (Some row)
    have i: "tr_id row = team" using row_at_Some[OF Some] by simp
    have runs: "row_at rn_id (db_runs db') k = row_at rn_id (db_runs db) k" if "k \<noteq> vr_id (pa_run a')" for k
      using that by (simp add: d(4) row_lookups split: option.split)
    have "rt_run_id rt \<noteq> vr_id (pa_run a')" if "row_at rt_team_id (db_runtimes db) team = Some rt" for rt
      using row_at_Some[OF that] d(1) n(6) by (auto simp: team_rows_clash_def)
    then show ?thesis using t i Some n(4,5) runs
      by (auto simp: live_aggregate_def get_by_id_def optional_aggregate_def repository_aggregate_def d(2,3,5) row_lookups
          split: option.splits) (auto simp: d(4) row_lookups split: option.splits)
  qed
  then show ?thesis using r n(2) add(2) by simp
qed

text \<open>(C21) An idempotency key creates one team: when the key is already there, or another session takes it while the call
  runs, the call writes nothing and returns the stored aggregate, or a conflict when the blueprints differ.\<close>

theorem taken_key_returns_stored_team:
  assumes "from_canonical_json env (ct_blueprint_json command) = Inr b"
    and "new_aggregate (se_codec env) (ct_idempotency_key command) b (ct_requested_at command) = Inr a"
    and "get_by_idempotency_key env (others db) (ct_idempotency_key command) = Inr (Some winner)"
    and "others = id \<or> row_at tr_idempotency_key (db_teams db) (ct_idempotency_key command) = None"
  shows "create_team env others command db =
    (others db, if pa_blueprint_sha256 winner = pa_blueprint_sha256 a then Inr winner else Inl TeamCreationConflict)"
proof -
  let ?key = "ct_idempotency_key command"
  note n = new_aggregate_Inr[OF assms(2)]
  obtain t where t: "row_at tr_idempotency_key (db_teams (others db)) ?key = Some t"
    "repository_aggregate env (others db) t = Inr winner"
    using assms(3) by (auto simp: get_by_idempotency_key_def optional_aggregate_def split: option.splits elim!: bindR_InrE)
  have "team_rows_clash a (others db)" using row_at_Some[OF t(1)] n(2) by (auto simp: team_rows_clash_def)
  then have clash: "add_models a (others db) = Inl Integrity_Error" by (simp add: add_models_def Let_def)
  show ?thesis
  proof (cases "row_at tr_idempotency_key (db_teams db) ?key")
    case None
    then show ?thesis using clash assms(1-3) n(2)
      by (simp add: create_team_def repository_create_def resolve_existing_def Let_def)
  next
    case (Some row)
    then have "others = id" using assms(4) by simp
    then show ?thesis using Some t assms(1,2) n(2)
      by (simp add: create_team_def repository_create_def resolve_existing_def Let_def)
  qed
qed

section \<open>Properties of the bootstrap\<close>

lemma live_aggregate_Inr:
  assumes "live_aggregate env db team = Inr a"
  shows "pa_runtime a \<in> set (db_runtimes db)" "rt_team_id (pa_runtime a) = team" "vt_id (pa_team a) = team"
    "row_at rt_team_id (db_runtimes db) team = Some (pa_runtime a)"
proof -
  obtain t b rt r where l: "row_at tr_id (db_teams db) team = Some t" "row_at rt_team_id (db_runtimes db) (tr_id t) = Some rt"
    "stored_parts env t b r rt = Inr a"
    using assms by (auto simp: live_aggregate_def split: option.splits if_splits)
  have "pa_runtime a = rt" "pa_team a = map_team t" using l(3) by (auto simp: stored_parts_def elim!: bindR_InrE)
  then show "pa_runtime a \<in> set (db_runtimes db)" "rt_team_id (pa_runtime a) = team" "vt_id (pa_team a) = team"
    "row_at rt_team_id (db_runtimes db) team = Some (pa_runtime a)"
    using row_at_Some[OF l(1)] row_at_Some[OF l(2)] l(2) by (simp_all add: map_team_def)
qed

lemma live_aggregate_runtime:
  assumes "live_aggregate env db team = Inr a" and "db_teams db' = db_teams db" and "db_blueprints db' = db_blueprints db"
    and "db_runs db' = db_runs db" and "row_at rt_team_id (db_runtimes db') team = Some rt" and "rt_run_id rt = rt_run_id (pa_runtime a)"
  shows "live_aggregate env db' team = Inr (a\<lparr>pa_runtime := rt\<rparr>)"
proof -
  obtain t b rt0 r where l: "row_at tr_id (db_teams db) team = Some t" "row_at br_team_id (db_blueprints db) (tr_id t) = Some b"
    "row_at rt_team_id (db_runtimes db) (tr_id t) = Some rt0" "row_at rn_id (db_runs db) (rt_run_id rt0) = Some r" "rn_team_id r = tr_id t"
    "stored_parts env t b r rt0 = Inr a"
    using assms(1) by (auto simp: live_aggregate_def split: option.splits if_splits)
  have "stored_parts env t b r rt = Inr (a\<lparr>pa_runtime := rt\<rparr>)" "pa_runtime a = rt0"
    using l(6) by (auto simp: stored_parts_def elim!: bindR_InrE)
  then show ?thesis using l row_at_Some[OF l(1)] assms(2-6) by (simp add: live_aggregate_def)
qed

lemma row_at_distinct: "distinct (map key xs) \<Longrightarrow> x \<in> set xs \<Longrightarrow> row_at key xs (key x) = Some x"
  by (induction xs) (auto simp: row_at_def)

lemma add_state_live:
  assumes "add_state env db st = Inr (db', s)"
  shows "db_live db' = db_live db" "db_teams db' = db_teams db" "db_blueprints db' = db_blueprints db" "db_runs db' = db_runs db"
  using assms unfolding add_state_def Let_def by (elim bindR_InrE; auto)+

lemma append_provisioning_Inr:
  assumes "append_provisioning env k st db = Inr (db', st')" and "ledger_ok (ld_projection (db_live db))"
  shows "st' = st" "db_runtimes db' = db_runtimes db" "db_teams db' = db_teams db" "db_blueprints db' = db_blueprints db"
    "db_runs db' = db_runs db" "db_rows db' = db_rows db" "live_db.ld_activity (db_live db') = live_db.ld_activity (db_live db)"
    "live_db.ld_ground_truth (db_live db') = live_db.ld_ground_truth (db_live db)"
    "\<exists>new. lg_rows (ld_projection (db_live db')) = lg_rows (ld_projection (db_live db)) @ new"
proof -
  obtain k' lp rows where p: "persist (validate_projection (se_codec env)) k' (tc_projection_intents k') (ld_projection (db_live db)) = Inr (lp, rows)"
    "db' = db\<lparr>db_live := (db_live db)\<lparr>ld_projection := lp\<rparr>\<rparr>" "st' = st"
    using assms(1) by (auto simp: append_provisioning_def append_projection_intents_def split: if_splits elim!: bindR_InrE bindR_Inr2E)
  show "st' = st" "db_runtimes db' = db_runtimes db" "db_teams db' = db_teams db" "db_blueprints db' = db_blueprints db"
    "db_runs db' = db_runs db" "db_rows db' = db_rows db" "live_db.ld_activity (db_live db') = live_db.ld_activity (db_live db)"
    "live_db.ld_ground_truth (db_live db') = live_db.ld_ground_truth (db_live db)"
    "\<exists>new. lg_rows (ld_projection (db_live db')) = lg_rows (ld_projection (db_live db)) @ new"
    using p persist_effect[OF assms(2) p(1)] by simp_all
qed

text \<open>The bootstrap of a created team starts its clock and nothing else's: its runtime is \<open>RUNNING\<close> at the given instant
  with the version it had, wakes at the first boundary or, if that has passed, at once, and is what the live store reads from
  then on; every other runtime, the activity and the ground truth stay, and intents are only appended.\<close>

theorem bootstrap_starts_clock:
  assumes "ensure_bootstrapped env db team started_at = Some (Inr (db', st))" and "live_aggregate env db team = Inr a"
    and "rt_state (pa_runtime a) = ''CREATED''" and "distinct (map rt_id (db_runtimes db))" and "distinct (map rt_team_id (db_runtimes db))"
    and "ledger_ok (ld_projection (db_live db))"
  shows "lt_aggregate st = a\<lparr>pa_runtime := (pa_runtime a)\<lparr>rt_state := ''RUNNING'', rt_simulation_time := started_at,
      rt_next_wake_at := Some (max started_at (sb_first_boundary (bp_scrum (pa_blueprint a)))), rt_updated_at := started_at\<rparr>\<rparr> \<and>
    live_aggregate env db' team = Inr (lt_aggregate st) \<and>
    db_runtimes db' = map (\<lambda>rt. if rt_team_id rt = team then lt_runtime st else rt) (db_runtimes db) \<and>
    live_db.ld_activity (db_live db') = live_db.ld_activity (db_live db) \<and> live_db.ld_ground_truth (db_live db') = live_db.ld_ground_truth (db_live db) \<and>
    (\<exists>new. lg_rows (ld_projection (db_live db')) = lg_rows (ld_projection (db_live db)) @ new)"
proof -
  note a = live_aggregate_Inr[OF assms(2)]
  obtain scrum state where b: "bootstrap env db a started_at state = Inr (db', st)"
    "live_load env db team = Inr \<lparr>lt_aggregate = a, lt_scrum = scrum\<rparr>"
  proof -
    obtain st0 where "live_load env db team = Inr st0" using assms(1) by (auto simp: ensure_bootstrapped_def split: sum.splits)
    moreover from this obtain scrum where "st0 = \<lparr>lt_aggregate = a, lt_scrum = scrum\<rparr>"
      using assms(2) by (auto simp: live_load_def elim!: bindR_InrE)
    ultimately show ?thesis using assms(1,3) that
      by (auto simp: ensure_bootstrapped_def Let_def elim!: bindR_InrE)
  qed
  define rt where "rt = (pa_runtime a)\<lparr>rt_state := ''RUNNING'', rt_simulation_time := started_at,
      rt_next_wake_at := Some (first_wake_at a started_at), rt_updated_at := started_at\<rparr>"
  have stored: "row_at rt_id (db_runtimes db) (rt_id (pa_runtime a)) = Some (pa_runtime a)"
    by (rule row_at_distinct[OF assms(4) a(1)])
  obtain db1 scrum1 k where p: "add_state env db state = Inr (db1, scrum1)"
    "append_provisioning env k \<lparr>lt_aggregate = a\<lparr>pa_runtime := rt\<rparr>, lt_scrum = scrum1\<rparr>
       (db1\<lparr>db_live := (db_live db1)\<lparr>ld_runtimes := write_row rt_id rt (db_runtimes db1)\<rparr>\<rparr>) = Inr (db', st)"
  proof -
    obtain db1 scrum1 rts rt1 where "add_state env db state = Inr (db1, scrum1)" "running_runtime a started_at (db_runtimes db1) = Inr (rts, rt1)"
      "append_provisioning env (compose_initial_jira_provisioning (se_scrum env) \<lparr>lt_aggregate = a\<lparr>pa_runtime := rt1\<rparr>, lt_scrum = scrum1\<rparr>)
         \<lparr>lt_aggregate = a\<lparr>pa_runtime := rt1\<rparr>, lt_scrum = scrum1\<rparr> (db1\<lparr>db_live := (db_live db1)\<lparr>ld_runtimes := rts\<rparr>\<rparr>) = Inr (db', st)"
      using b(1) by (auto simp: bootstrap_def Let_def elim!: bindR_Inr2E)
    moreover from this(2) have "rt1 = rt" "rts = write_row rt_id rt (db_runtimes db1)"
      using stored add_state_live(1)[OF calculation(1)] by (auto simp: running_runtime_def rt_def Let_def)
    ultimately show ?thesis using that by simp
  qed
  note l = add_state_live[OF p(1)]
  have "ledger_ok (ld_projection (db_live (db1\<lparr>db_live := (db_live db1)\<lparr>ld_runtimes := write_row rt_id rt (db_runtimes db1)\<rparr>\<rparr>)))"
    using assms(6) l(1) by simp
  note q = append_provisioning_Inr[OF p(2) this]
  have same: "rt_id r = rt_id rt \<longleftrightarrow> rt_team_id r = team" if "r \<in> set (db_runtimes db)" for r
    using that a(1,2) assms(4,5) by (auto simp: rt_def distinct_map dest: inj_onD)
  have rts: "db_runtimes db' = map (\<lambda>r. if rt_team_id r = team then rt else r) (db_runtimes db)"
    using q(2) l(1) same by (auto simp: write_row_def)
  have "distinct (map rt_team_id (db_runtimes db'))"
    using assms(5) a(2) by (simp add: rts comp_def rt_def if_distrib cong: map_cong if_cong)
  moreover have "rt \<in> set (db_runtimes db')" using a(1,2) by (force simp: rts)
  ultimately have "row_at rt_team_id (db_runtimes db') (rt_team_id rt) = Some rt" by (rule row_at_distinct)
  then have "row_at rt_team_id (db_runtimes db') team = Some rt" using a(2) by (simp add: rt_def)
  moreover have "db_teams db' = db_teams db" "db_blueprints db' = db_blueprints db" "db_runs db' = db_runs db" using q l by simp_all
  ultimately have "live_aggregate env db' team = Inr (a\<lparr>pa_runtime := rt\<rparr>)"
    by (intro live_aggregate_runtime[OF assms(2)]) (simp_all add: rt_def)
  moreover have "lt_aggregate st = a\<lparr>pa_runtime := rt\<rparr>" "lt_runtime st = rt" using q(1) by simp_all
  moreover have "rt = (pa_runtime a)\<lparr>rt_state := ''RUNNING'', rt_simulation_time := started_at,
      rt_next_wake_at := Some (max started_at (sb_first_boundary (bp_scrum (pa_blueprint a)))), rt_updated_at := started_at\<rparr>"
    by (simp add: rt_def first_wake_at_def max_def Let_def)
  moreover have "live_db.ld_activity (db_live db') = live_db.ld_activity (db_live db)" "live_db.ld_ground_truth (db_live db') = live_db.ld_ground_truth (db_live db)"
    "\<exists>new. lg_rows (ld_projection (db_live db')) = lg_rows (ld_projection (db_live db)) @ new" using q(7-9) l(1) by simp_all
  ultimately show ?thesis using rts by simp
qed

end
