(* ===== verification/Live_Scheduler.thy ===== *)
theory Live_Scheduler
  imports Live_Team Tick_Outcomes
begin

text \<open>
  Who runs when. The teams that are due (\<open>v2/persistence/due_team_store.py\<close>), one tick as load, calculate and commit
  with one retry (\<open>v2/application/team_tick.py\<close>), and the scheduler that drains the due teams page by page and resumes the
  running ones after a restart (\<open>v2/application/live_scheduler.py\<close>), composed as \<open>v2/runtime.py\<close> does.

  The data base survives an exception: an operation returns it together with its outcome. A loop that may run for ever is a
  partial function, and \<open>None\<close> means that it does.
\<close>

section \<open>Due teams\<close>

definition is_due :: "instant \<Rightarrow> TeamRuntime \<Rightarrow> bool" where
  "is_due as_of rt \<longleftrightarrow> rt_state rt = ''RUNNING'' \<and> (case rt_next_wake_at rt of None \<Rightarrow> False | Some t \<Rightarrow> t \<le> as_of)"

definition due_team_ids :: "scrum_db \<Rightarrow> instant \<Rightarrow> int \<Rightarrow> uuid option \<Rightarrow> uuid list res" where
  "due_team_ids db as_of limit after_team_id =
     (if \<not> (1 \<le> limit \<and> limit \<le> 100) then Inl (Value_Error ''limit must be between 1 and 100'')
      else Inr (take (nat limit) (sort (map rt_team_id (filter
             (\<lambda>rt. is_due as_of rt \<and> (case after_team_id of None \<Rightarrow> True | Some cursor \<Rightarrow> cursor < rt_team_id rt))
             (db_runtimes db))))))"

definition running_team_ids :: "scrum_db \<Rightarrow> uuid list" where
  "running_team_ids db = sort (map rt_team_id (filter (\<lambda>rt. rt_state rt = ''RUNNING'') (db_runtimes db)))"

section \<open>One tick\<close>

text \<open>
  The environment of the scheduler: the store's, and the parameters of the risk rules over the same domain. Between the load
  and the commit of attempt \<open>i\<close> other sessions commit what the \<open>i\<close>-th element of \<open>others\<close> does to the data base.
\<close>

definition tick_command :: "risk_env \<Rightarrow> LiveTeamState \<Rightarrow> TickRequest \<Rightarrow> AuthoritativeTickSliceCommit res" where
  "tick_command renv st request =
     calculate_scrum_tick renv st request (seeded_draws (en_codec (re_scrum renv)) (lt_aggregate st))"

fun tick_attempts ::
  "store_env \<Rightarrow> risk_env \<Rightarrow> TickRequest \<Rightarrow> (scrum_db \<Rightarrow> scrum_db) list \<Rightarrow> scrum_db \<Rightarrow>
   scrum_db \<times> CommittedAuthoritativeTickSlice res" where
  "tick_attempts env renv request [] db = (db, Inl (Runtime_Error ''unreachable tick retry state''))"
| "tick_attempts env renv request (other # others) db =
     (case bindR (live_load env db (tq_team_id request)) (\<lambda>st. tick_command renv st request) of
        Inl e \<Rightarrow> (db, Inl e)
      | Inr command \<Rightarrow>
          (case commit_authoritative_slice env command (other db) of
             Inr (db', committed) \<Rightarrow> (db', Inr committed)
           | Inl e \<Rightarrow>
               if e = StaleRuntimeVersion \<and> others \<noteq> [] then tick_attempts env renv request others (other db)
               else (other db, Inl e)))"

definition advance_tick ::
  "store_env \<Rightarrow> risk_env \<Rightarrow> (scrum_db \<Rightarrow> scrum_db) \<Rightarrow> (scrum_db \<Rightarrow> scrum_db) \<Rightarrow> TickRequest \<Rightarrow> scrum_db \<Rightarrow>
   scrum_db \<times> CommittedAuthoritativeTickSlice res" where
  "advance_tick env renv first second request db = tick_attempts env renv request [first, second] db"

section \<open>The scheduler\<close>

record SchedulerRunResult =
  sr_attempted :: "uuid list"
  sr_succeeded :: "uuid list"
  sr_failed :: "uuid list"

type_synonym 'w team_operation = "uuid \<Rightarrow> 'w \<Rightarrow> ('w \<times> unit res) option"

fun run_each :: "'w team_operation \<Rightarrow> uuid list \<Rightarrow> 'w \<Rightarrow> ('w \<times> uuid list \<times> uuid list) option" where
  "run_each operation [] w = Some (w, [], [])"
| "run_each operation (team # teams) w =
     Option.bind (operation team w) (\<lambda>(w1, outcome).
     Option.bind (run_each operation teams w1) (\<lambda>(w2, succeeded, failed).
       Some (w2, case outcome of Inr _ \<Rightarrow> (team # succeeded, failed) | Inl _ \<Rightarrow> (succeeded, team # failed))))"

definition run_teams :: "'w team_operation \<Rightarrow> uuid list \<Rightarrow> 'w \<Rightarrow> ('w \<times> SchedulerRunResult) option" where
  "run_teams operation teams w =
     map_option (\<lambda>(w', succeeded, failed). (w', \<lparr>sr_attempted = teams, sr_succeeded = succeeded, sr_failed = failed\<rparr>))
       (run_each operation teams w)"

definition extend_result :: "SchedulerRunResult \<Rightarrow> SchedulerRunResult \<Rightarrow> SchedulerRunResult" where
  "extend_result r page =
     \<lparr>sr_attempted = sr_attempted r @ sr_attempted page, sr_succeeded = sr_succeeded r @ sr_succeeded page,
      sr_failed = sr_failed r @ sr_failed page\<rparr>"

definition empty_run :: SchedulerRunResult where
  "empty_run = \<lparr>sr_attempted = [], sr_succeeded = [], sr_failed = []\<rparr>"

text \<open>The loop over the pages, for any source of pages and any operation on a team.\<close>

partial_function (option) drain_pages ::
  "('w \<Rightarrow> uuid option \<Rightarrow> uuid list res) \<Rightarrow> 'w team_operation \<Rightarrow> uuid option \<Rightarrow> SchedulerRunResult \<Rightarrow> 'w \<Rightarrow>
   ('w \<times> SchedulerRunResult res) option" where
  "drain_pages page operation cursor result w =
     (case page w cursor of
        Inl e \<Rightarrow> Some (w, Inl e)
      | Inr teams \<Rightarrow>
          if teams = [] then Some (w, Inr result)
          else Option.bind (run_teams operation teams w) (\<lambda>(w', r).
                 drain_pages page operation (Some (last teams)) (extend_result result r) w'))"

definition boundary_for :: "SprintState \<Rightarrow> instant option" where
  "boundary_for sprint =
     (if ss_lifecycle sprint = SP_PLANNED then Some (ss_planned_start_at sprint)
      else if ss_lifecycle sprint = SP_ACTIVE then Some (ss_planned_end_at sprint) else None)"

definition open_boundaries :: "LiveTeamState \<Rightarrow> instant \<Rightarrow> instant list" where
  "open_boundaries st as_of =
     filter (\<lambda>t. rt_simulation_time (lt_runtime st) \<le> t \<and> t \<le> as_of) (List.map_filter boundary_for (st_sprints (lt_scrum st)))"

definition first_boundary_until :: "LiveTeamState \<Rightarrow> instant \<Rightarrow> instant option" where
  "first_boundary_until st as_of = (case open_boundaries st as_of of [] \<Rightarrow> None | t # ts \<Rightarrow> Some (foldl min t ts))"

definition caught_up :: "LiveTeamState \<Rightarrow> instant \<Rightarrow> bool" where
  "caught_up st as_of \<longleftrightarrow> as_of \<le> rt_simulation_time (lt_runtime st) \<and> first_boundary_until st as_of = None"

text \<open>The loop of one due team. The scheduler is the only writer of its teams' runtimes.\<close>

definition tick_alone :: "store_env \<Rightarrow> risk_env \<Rightarrow> uuid \<Rightarrow> instant \<Rightarrow> scrum_db \<Rightarrow> scrum_db \<times> CommittedAuthoritativeTickSlice res" where
  "tick_alone env renv team as_of db =
     advance_tick env renv id id \<lparr>tq_team_id = team, tq_ends_at = as_of, tq_recorded_at = as_of\<rparr> db"

partial_function (option) advance_team ::
  "store_env \<Rightarrow> risk_env \<Rightarrow> instant \<Rightarrow> uuid \<Rightarrow> scrum_db \<Rightarrow> (scrum_db \<times> unit res) option" where
  "advance_team env renv as_of team db =
     (case live_load env db team of
        Inl e \<Rightarrow> Some (db, Inl e)
      | Inr before \<Rightarrow>
          (case tick_alone env renv team as_of db of
             (db1, outcome) \<Rightarrow>
               (case outcome of
                  Inl e \<Rightarrow> Some (db1, Inl e)
                | Inr committed \<Rightarrow>
                    (case live_load env db1 team of
                       Inl e \<Rightarrow> Some (db1, Inl e)
                     | Inr now \<Rightarrow>
                         if rt_version (lt_runtime now) \<le> rt_version (lt_runtime before)
                         then Some (db1, Inl (Runtime_Error ''team tick did not advance the persisted runtime version''))
                         else if caught_up now as_of then Some (db1, Inr ())
                         else advance_team env renv as_of team db1))))"

definition run_due :: "store_env \<Rightarrow> risk_env \<Rightarrow> instant \<Rightarrow> scrum_db \<Rightarrow> (scrum_db \<times> SchedulerRunResult res) option" where
  "run_due env renv as_of db =
     drain_pages (\<lambda>w. due_team_ids w as_of 100) (advance_team env renv as_of) None empty_run db"

section \<open>Restart\<close>

definition downtime_key :: "scrum_env \<Rightarrow> LiveTeamState \<Rightarrow> instant \<Rightarrow> string" where
  "downtime_key env st ends_at =
     (let rt = lt_runtime st in
      ''restart/'' @ uuid_text (rt_team_id rt) @ ''/'' @ uuid_text (rt_run_id rt) @ ''/'' @ int_text (rt_version rt) @ ''/'' @
      en_instant_text env ends_at)"

definition downtime_evidence_key :: "scrum_env \<Rightarrow> LiveTeamState \<Rightarrow> instant \<Rightarrow> instant \<Rightarrow> string" where
  "downtime_evidence_key env st starts_at ends_at =
     (let rt = lt_runtime st in
      ''restart-gap/'' @ uuid_text (rt_team_id rt) @ ''/'' @ uuid_text (rt_run_id rt) @ ''/'' @ en_instant_text env starts_at @ ''/'' @
      en_instant_text env ends_at)"

definition downtime_records ::
  "scrum_env \<Rightarrow> LiveTeamState \<Rightarrow> string \<Rightarrow> instant \<Rightarrow> instant \<Rightarrow> (ActivityEventDraft list \<times> GroundTruthRecordDraft list) res" where
  "downtime_records env st key starts_at ends_at =
     (let envelope = make_envelope (key @ ''/downtime'') ends_at
            (JObj [(''starts_at'', JStr (en_instant_text env starts_at)), (''ends_at'', JStr (en_instant_text env ends_at))])
      in bindR (activity_draft (en_codec env) envelope
                  \<lparr>ad_event_type = ''DOWNTIME_SKIPPED'', ad_aggregate_type = ''RUNTIME'', ad_aggregate_id = rt_id (lt_runtime st),
                   ad_aggregate_version = 0\<rparr>) (\<lambda>activity.
         bindR (ground_truth_draft (en_codec env) envelope
                  \<lparr>gt_record_type = ''DOWNTIME_SKIPPED'', gt_provenance_type = ''SIMULATOR_V2''\<rparr>) (\<lambda>truth.
           Inr ([activity], [truth]))))"

definition downtime_command ::
  "scrum_env \<Rightarrow> LiveTeamState \<Rightarrow> RuntimeAdvance \<Rightarrow> instant \<Rightarrow> ActivityEventDraft list \<Rightarrow> GroundTruthRecordDraft list \<Rightarrow>
   AuthoritativeTickSliceCommit res" where
  "downtime_command env st after recorded_at activity truth =
     (let rt = lt_runtime st in
      bindR (built (validate_commit (en_codec env))
        \<lparr>tc_commit_id = semantic_uuid (en_codec env) (''commit/'' @ downtime_key env st (ra_simulation_time after)),
         tc_team_id = rt_team_id rt, tc_run_id = rt_run_id rt, tc_expected_runtime_version = rt_version rt, tc_runtime_after = after,
         tc_activity = activity, tc_ground_truth = truth, tc_projection_intents = [], tc_recorded_at = recorded_at\<rparr>) (\<lambda>live.
      bindR (write_set env empty_state) (\<lambda>ws.
        built (validate_authoritative env) \<lparr>au_live = live, au_state = ws, au_claims = [], au_natural = []\<rparr>)))"

definition downtime_evidence :: "scrum_env \<Rightarrow> LiveTeamState \<Rightarrow> instant \<Rightarrow> instant \<Rightarrow> AuthoritativeTickSliceCommit res" where
  "downtime_evidence env st starts_at ends_at =
     (let rt = lt_runtime st in
      bindR (downtime_records env st (downtime_evidence_key env st starts_at ends_at) starts_at ends_at) (\<lambda>(activity, truth).
      bindR (built check_runtime_advance
               \<lparr>ra_state = rt_state rt, ra_simulation_time = rt_simulation_time rt, ra_next_wake_at = rt_next_wake_at rt\<rparr>) (\<lambda>after.
        downtime_command env st after ends_at activity truth)))"

definition silent_skip :: "scrum_env \<Rightarrow> LiveTeamState \<Rightarrow> instant \<Rightarrow> instant \<Rightarrow> AuthoritativeTickSliceCommit res" where
  "silent_skip env st ends_at recorded_at =
     bindR (built check_runtime_advance
              \<lparr>ra_state = rt_state (lt_runtime st), ra_simulation_time = ends_at, ra_next_wake_at = Some ends_at\<rparr>) (\<lambda>after.
       downtime_command env st after recorded_at [] [])"

definition lifecycle_command ::
  "scrum_env \<Rightarrow> LiveTeamState \<Rightarrow> SprintTransition \<Rightarrow> instant \<Rightarrow> instant \<Rightarrow> AuthoritativeTickSliceCommit res" where
  "lifecycle_command env st change boundary recorded_at =
     (let rt = lt_runtime st in
      bindR (built check_runtime_advance
               \<lparr>ra_state = rt_state rt, ra_simulation_time = rt_simulation_time rt, ra_next_wake_at = rt_next_wake_at rt\<rparr>) (\<lambda>after.
      bindR (built (validate_commit (en_codec env))
        \<lparr>tc_commit_id = semantic_uuid (en_codec env) (''restart-lifecycle/'' @ uuid_text (rt_team_id rt) @ ''/'' @
           uuid_text (rt_run_id rt) @ ''/'' @ int_text (rt_version rt) @ ''/'' @ en_instant_text env boundary),
         tc_team_id = rt_team_id rt, tc_run_id = rt_run_id rt, tc_expected_runtime_version = rt_version rt, tc_runtime_after = after,
         tc_activity = tn_activity change, tc_ground_truth = tn_ground_truth change, tc_projection_intents = tn_intents change,
         tc_recorded_at = recorded_at\<rparr>) (\<lambda>live.
        built (validate_authoritative env)
          \<lparr>au_live = live, au_state = tn_state change, au_claims = tn_claims change, au_natural = tn_natural change\<rparr>)))"

definition commit_boundary :: "scrum_env \<Rightarrow> LiveTeamState \<Rightarrow> instant \<Rightarrow> instant \<Rightarrow> AuthoritativeTickSliceCommit res" where
  "commit_boundary env st boundary recorded_at =
     bindR (cross_sprint_boundary env st boundary) (\<lambda>change. lifecycle_command env st change boundary recorded_at)"

definition submit :: "store_env \<Rightarrow> AuthoritativeTickSliceCommit res \<Rightarrow> scrum_db \<Rightarrow> scrum_db \<times> unit res" where
  "submit env command db =
     (case bindR command (\<lambda>k. commit_authoritative_slice env k db) of Inl e \<Rightarrow> (db, Inl e) | Inr (db', s) \<Rightarrow> (db', Inr ()))"

partial_function (option) resume_loop ::
  "store_env \<Rightarrow> instant \<Rightarrow> uuid \<Rightarrow> scrum_db \<Rightarrow> (scrum_db \<times> unit res) option" where
  "resume_loop env as_of team db =
     (case live_load env db team of
        Inl e \<Rightarrow> Some (db, Inl e)
      | Inr st \<Rightarrow>
          (case first_boundary_until st as_of of
             None \<Rightarrow> Some (submit env (silent_skip (se_scrum env) st as_of as_of) db)
           | Some boundary \<Rightarrow>
               (case submit env (commit_boundary (se_scrum env) st boundary as_of) db of
                  (db1, outcome) \<Rightarrow>
                    (case outcome of Inl e \<Rightarrow> Some (db1, Inl e) | Inr _ \<Rightarrow> resume_loop env as_of team db1))))"

text \<open>The reconciliation before a resume is the one the runtime builds: it does nothing.\<close>

definition reconcile :: "uuid \<Rightarrow> instant \<Rightarrow> unit res" where "reconcile team as_of = Inr ()"

definition resume_team :: "store_env \<Rightarrow> instant \<Rightarrow> uuid \<Rightarrow> scrum_db \<Rightarrow> (scrum_db \<times> unit res) option" where
  "resume_team env as_of team db =
     (case bindR (reconcile team as_of) (\<lambda>_. live_load env db team) of
        Inl e \<Rightarrow> Some (db, Inl e)
      | Inr st \<Rightarrow>
          let start = rt_simulation_time (lt_runtime st) in
          if as_of \<le> start then Some (db, Inr ())
          else
            (case submit env (downtime_evidence (se_scrum env) st start as_of) db of
               (db1, Inl e) \<Rightarrow> Some (db1, Inl e)
             | (db1, Inr _) \<Rightarrow> resume_loop env as_of team db1))"

definition resume_after_restart :: "store_env \<Rightarrow> instant \<Rightarrow> scrum_db \<Rightarrow> (scrum_db \<times> SchedulerRunResult) option" where
  "resume_after_restart env as_of db = run_teams (resume_team env as_of) (sort (running_team_ids db)) db"

section \<open>Draining pages\<close>

definition beyond :: "uuid option \<Rightarrow> uuid \<Rightarrow> bool" where
  "beyond cursor t \<longleftrightarrow> (case cursor of None \<Rightarrow> True | Some c \<Rightarrow> c < t)"

lemma sorted_rest:
  fixes xs :: "uuid list"
  assumes "sorted xs" and "distinct xs" and "take n xs \<noteq> []"
  shows "drop n xs = sorted_list_of_set {t \<in> set xs. last (take n xs) < t}"
proof -
  have x: "sorted (take n xs @ drop n xs)" "distinct (take n xs @ drop n xs)" using assms(1,2) by simp_all
  have l: "last (take n xs) \<in> set (take n xs)" using assms(3) by simp
  have "last (take n xs) < t" if "t \<in> set (drop n xs)" for t
  proof -
    have "last (take n xs) \<le> t" using iffD1[OF sorted_append x(1)] l that by blast
    moreover have "last (take n xs) \<noteq> t" using x(2) l that by (metis disjoint_iff distinct_append)
    ultimately show ?thesis by simp
  qed
  moreover have "\<not> last (take n xs) < t" if "t \<in> set (take n xs)" for t
  proof -
    have "sorted (butlast (take n xs) @ [last (take n xs)])" using sorted_wrt_take[OF assms(1)] assms(3) by simp
    then have "t \<le> last (take n xs)" using that assms(3)
      by (metis Un_iff append_butlast_last_id empty_iff insert_iff list.set(1) list.simps(15) order_refl set_append sorted_append)
    then show ?thesis by simp
  qed
  ultimately have "{t \<in> set xs. last (take n xs) < t} = set (drop n xs)"
    by (subst append_take_drop_id[of n xs, symmetric], unfold set_append) blast
  then show ?thesis using x by (simp add: sorted_append sorted_list_of_set.idem_if_sorted_distinct)
qed

text \<open>
  What the loop needs of a source of pages and of an operation: a page is the first of the teams that are due beyond the
  cursor, in order, and running a team leaves every other team as due as it was.
\<close>

locale team_runs =
  fixes inv :: "'w \<Rightarrow> bool" and due :: "'w \<Rightarrow> uuid set" and operation :: "'w team_operation"
  assumes runs: "inv w \<Longrightarrow> operation t w = Some (w', r) \<Longrightarrow> inv w' \<and> due w' - {t} = due w - {t}"
begin

lemma run_each_runs:
  assumes "run_each operation ts w = Some (w', ok, bad)" and "inv w"
  shows "inv w' \<and> due w' - set ts = due w - set ts \<and> mset ok + mset bad = mset ts"
  using assms
proof (induction ts arbitrary: w ok bad)
  case (Cons t ts)
  obtain w1 r ok1 bad1 where s: "operation t w = Some (w1, r)" "run_each operation ts w1 = Some (w', ok1, bad1)"
    "(ok, bad) = (case r of Inr _ \<Rightarrow> (t # ok1, bad1) | Inl _ \<Rightarrow> (ok1, t # bad1))"
    using Cons.prems(1) by (auto simp: bind_eq_Some_conv)
  note o = runs[OF Cons.prems(2) s(1)]
  have i: "inv w' \<and> due w' - set ts = due w1 - set ts \<and> mset ok1 + mset bad1 = mset ts"
    using Cons.IH[OF s(2)] o by blast
  have "due w' - set (t # ts) = due w - set (t # ts)" using i o by auto
  then show ?case using i s(3) by (auto split: sum.splits)
qed simp

end

locale paged_teams = team_runs inv due operation
  for inv :: "'w \<Rightarrow> bool" and due :: "'w \<Rightarrow> uuid set" and operation :: "'w team_operation" +
  fixes page :: "'w \<Rightarrow> uuid option \<Rightarrow> uuid list res" and page_size :: nat
  assumes finite_due: "finite (due w)"
    and page: "inv w \<Longrightarrow> page w cursor = Inr (take page_size (sorted_list_of_set {t \<in> due w. beyond cursor t}))"
    and page_size: "0 < page_size"
begin

lemma next_pages:
  assumes "inv w" and "page w cursor = Inr ts" and "ts \<noteq> []" and "due w' - set ts = due w - set ts"
  shows "sorted_list_of_set {t \<in> due w. beyond cursor t} = ts @ sorted_list_of_set {t \<in> due w'. beyond (Some (last ts)) t}"
    "{t \<in> due w'. beyond (Some (last ts)) t} \<subset> {t \<in> due w. beyond cursor t}"
proof -
  let ?S = "sorted_list_of_set {t \<in> due w. beyond cursor t}"
  have f: "finite {t \<in> due w. beyond cursor t}" using finite_due by simp
  have t: "ts = take page_size ?S" using page[OF assms(1)] assms(2) by simp
  have d: "drop page_size ?S = sorted_list_of_set {t \<in> set ?S. last ts < t}" using sorted_rest[of ?S page_size] assms(3) t by simp
  have above: "t \<le> last ts" if "t \<in> set ts" for t
  proof -
    have "sorted (butlast ts @ [last ts])" using t assms(3) sorted_wrt_take[of "(\<le>)" ?S page_size] by simp
    then show ?thesis using that assms(3)
      by (metis Un_iff append_butlast_last_id empty_iff insert_iff list.set(1) list.simps(15) order_refl set_append sorted_append)
  qed
  have last: "last ts \<in> {t \<in> due w. beyond cursor t}"
    using last_in_set[OF assms(3)] t f by (metis in_set_takeD set_sorted_list_of_set)
  have e: "{t \<in> set ?S. last ts < t} = {t \<in> due w'. beyond (Some (last ts)) t}"
  proof (intro set_eqI)
    fix u
    have "u \<in> due w \<longleftrightarrow> u \<in> due w'" if "last ts < u"
      using assms(4) above that by (metis Diff_iff leD)
    moreover have "beyond cursor u" if "last ts < u" using last that by (auto simp: beyond_def split: option.splits)
    ultimately show "u \<in> {t \<in> set ?S. last ts < t} \<longleftrightarrow> u \<in> {t \<in> due w'. beyond (Some (last ts)) t}"
      using f by (auto simp: beyond_def)
  qed
  show "?S = ts @ sorted_list_of_set {t \<in> due w'. beyond (Some (last ts)) t}"
    using append_take_drop_id[of page_size ?S] t d e by metis
  have "{t \<in> due w'. beyond (Some (last ts)) t} \<subseteq> {t \<in> due w. beyond cursor t}" using e f by auto
  moreover have "last ts \<notin> {t \<in> due w'. beyond (Some (last ts)) t}" by (simp add: beyond_def)
  ultimately show "{t \<in> due w'. beyond (Some (last ts)) t} \<subset> {t \<in> due w. beyond cursor t}" using last by blast
qed

text \<open>Every team that is due beyond the cursor is attempted once, in order, and ends as a success or as a failure.\<close>

lemma drain_attempts:
  assumes "drain_pages page operation cursor result w = Some (w', out)" and "inv w"
  shows "inv w' \<and> (\<exists>r. out = Inr r \<and>
    sr_attempted r = sr_attempted result @ sorted_list_of_set {t \<in> due w. beyond cursor t} \<and>
    mset (sr_succeeded r) + mset (sr_failed r) =
      mset (sr_succeeded result) + mset (sr_failed result) + mset (sorted_list_of_set {t \<in> due w. beyond cursor t}))"
proof -
  let ?S = "\<lambda>w cursor. sorted_list_of_set {t \<in> due w. beyond cursor t}"
  let ?good = "\<lambda>cursor result w w' out. inv w' \<and> (\<exists>r. out = Inr r \<and> sr_attempted r = sr_attempted result @ ?S w cursor \<and>
    mset (sr_succeeded r) + mset (sr_failed r) = mset (sr_succeeded result) + mset (sr_failed result) + mset (?S w cursor))"
  have "page = page \<longrightarrow> operation = operation \<longrightarrow> inv w \<longrightarrow> ?good cursor result w (fst (w', out)) (snd (w', out))"
  proof (rule drain_pages.raw_induct[where P = "\<lambda>pg op cursor result w res. pg = page \<longrightarrow> op = operation \<longrightarrow> inv w \<longrightarrow>
      ?good cursor result w (fst res) (snd res)", OF _ assms(1)])
    fix drain pg op cursor result w res
    assume ih0: "\<And>pg op cursor result w res. drain pg op cursor result w = Some res \<Longrightarrow>
        pg = page \<longrightarrow> op = operation \<longrightarrow> inv w \<longrightarrow> ?good cursor result w (fst res) (snd res)"
      and eq0: "(case pg w cursor of Inl e \<Rightarrow> Some (w, Inl e)
        | Inr teams \<Rightarrow> if teams = [] then Some (w, Inr result)
            else Option.bind (run_teams op teams w) (\<lambda>(w', r). drain pg op (Some (last teams)) (extend_result result r) w')) = Some res"
    obtain a b where res: "res = (a, b)" by (cases res)
    have ih: "drain page operation cursor result w = Some (a, b) \<Longrightarrow> inv w \<Longrightarrow> ?good cursor result w a b" for cursor result w a b
      using ih0[of page operation cursor result w "(a, b)"] by simp
    have "?good cursor result w a b" if pg: "pg = page" "op = operation" and i: "inv w"
    proof -
      have eq: "(case page w cursor of Inl e \<Rightarrow> Some (w, Inl e)
        | Inr teams \<Rightarrow> if teams = [] then Some (w, Inr result)
            else Option.bind (run_teams operation teams w) (\<lambda>(w', r). drain page operation (Some (last teams)) (extend_result result r) w')) = Some (a, b)"
        using eq0 unfolding pg res .
      obtain ts where ts: "page w cursor = Inr ts" using page[OF i] by simp
      show "?good cursor result w a b"
      proof (cases "ts = []")
        case True
        then have "?S w cursor = []" using page[OF i, of cursor] ts page_size by simp
        then show ?thesis using eq ts True i by auto
      next
        case False
        then obtain w1 ok bad where r: "run_each operation ts w = Some (w1, ok, bad)"
          "drain page operation (Some (last ts)) (extend_result result \<lparr>sr_attempted = ts, sr_succeeded = ok, sr_failed = bad\<rparr>) w1 = Some (a, b)"
          using eq ts by (auto simp: run_teams_def bind_eq_Some_conv)
        note e = run_each_runs[OF r(1) i]
        have "?S w cursor = ts @ ?S w1 (Some (last ts))" by (rule next_pages(1)[OF i ts False]) (use e in simp)
        then show ?thesis using ih[OF r(2)] e by (auto simp: extend_result_def)
      qed
    qed
    then show "pg = page \<longrightarrow> op = operation \<longrightarrow> inv w \<longrightarrow> ?good cursor result w (fst res) (snd res)" using res by simp
  qed
  then show ?thesis using assms(2) by simp
qed

text \<open>When every operation on a due team returns, so does the loop: a page is never seen twice.\<close>

lemma drain_returns:
  assumes "inv w" and "\<And>t w. t \<in> due w0 \<Longrightarrow> inv w \<Longrightarrow> operation t w \<noteq> None" and "{t \<in> due w. beyond cursor t} \<subseteq> due w0"
  shows "drain_pages page operation cursor result w \<noteq> None"
  using assms(1,3)
proof (induction "card {t \<in> due w. beyond cursor t}" arbitrary: w cursor result rule: less_induct)
  case less
  obtain ts where ts: "page w cursor = Inr ts" "ts = take page_size (sorted_list_of_set {t \<in> due w. beyond cursor t})"
    using page[OF less.prems(1)] by simp
  show ?case
  proof (cases "ts = []")
    case True
    then show ?thesis using ts by (subst drain_pages.simps) simp
  next
    case False
    have "set ts \<subseteq> set (sorted_list_of_set {t \<in> due w. beyond cursor t})" unfolding ts(2) by (rule set_take_subset)
    then have "set ts \<subseteq> due w0" using less.prems(2) finite_due by simp
    then have "run_each operation ts v \<noteq> None" if "inv v" for v
      using that
    proof (induction ts arbitrary: v)
      case (Cons t ts)
      obtain v1 r where o: "operation t v = Some (v1, r)" using assms(2)[of t v] Cons.prems by auto
      then have "inv v1" using runs[OF Cons.prems(2)] by blast
      then have "run_each operation ts v1 \<noteq> None" using Cons.IH[of v1] Cons.prems(1) by simp
      then show ?case using o by auto
    qed simp
    then obtain w1 ok bad where r: "run_each operation ts w = Some (w1, ok, bad)" using less.prems(1) by fastforce
    note e = run_each_runs[OF r less.prems(1)]
    note n = next_pages(2)[OF less.prems(1) ts(1) False, of w1]
    have s: "{t \<in> due w1. beyond (Some (last ts)) t} \<subset> {t \<in> due w. beyond cursor t}" using n e by blast
    then have "card {t \<in> due w1. beyond (Some (last ts)) t} < card {t \<in> due w. beyond cursor t}"
      by (intro psubset_card_mono) (simp_all add: finite_due)
    then have "drain_pages page operation (Some (last ts)) x w1 \<noteq> None" for x
      using less.hyps e s less.prems(2) by blast
    then show ?thesis using ts(1) False r by (subst drain_pages.simps) (auto simp: run_teams_def)
  qed
qed

end

section \<open>What a team's operation leaves alone\<close>

definition sound_runtimes :: "scrum_db \<Rightarrow> bool" where
  "sound_runtimes db \<longleftrightarrow> distinct (map rt_team_id (db_runtimes db))"

text \<open>The rows of every other team stay, and so do the tables that say which teams there are.\<close>

definition keeps_others :: "uuid \<Rightarrow> scrum_db \<Rightarrow> scrum_db \<Rightarrow> bool" where
  "keeps_others team db db' \<longleftrightarrow>
     map rt_team_id (db_runtimes db') = map rt_team_id (db_runtimes db) \<and>
     filter (\<lambda>rt. rt_team_id rt \<noteq> team) (db_runtimes db') = filter (\<lambda>rt. rt_team_id rt \<noteq> team) (db_runtimes db) \<and>
     db_teams db' = db_teams db \<and> db_blueprints db' = db_blueprints db \<and> db_runs db' = db_runs db"

lemma keeps_others_refl: "keeps_others team db db"
  by (simp add: keeps_others_def)

lemma keeps_others_trans: "keeps_others team a b \<Longrightarrow> keeps_others team b c \<Longrightarrow> keeps_others team a c"
  by (simp add: keeps_others_def)

lemma keeps_others_sound: "keeps_others team db db' \<Longrightarrow> sound_runtimes db \<Longrightarrow> sound_runtimes db'"
  by (simp add: keeps_others_def sound_runtimes_def)

lemma persist_ledgers_runtimes:
  "persist_ledgers cd k rt l = Inr (l', out) \<Longrightarrow> ld_runtimes l' = ld_runtimes l \<and> cs_runtime out = rt"
  by (auto simp: persist_ledgers_def elim!: bindR_Inr2E)

text \<open>A commit moves the runtime of its team by one version, to the instant of the command.\<close>

lemma commit_runtimes:
  assumes "commit_authoritative_slice env k db = Inr (db', c)" and "sound_runtimes db"
  shows "keeps_others (tc_team_id (au_live k)) db db'"
    "\<exists>rt. row_at rt_team_id (db_runtimes db) (tc_team_id (au_live k)) = Some rt \<and> cas_matches (au_live k) rt \<and>
       row_at rt_team_id (db_runtimes db') (tc_team_id (au_live k)) = Some (cas_values (au_live k) rt) \<and>
       cs_runtime (ca_live c) = cas_values (au_live k) rt"
proof -
  let ?live = "au_live k" let ?move = "\<lambda>rt. if cas_matches ?live rt then cas_values ?live rt else rt"
  obtain runtimes runtime where p: "advance_runtime ?live (db_runtimes db) = Inr (runtimes, runtime)"
    "persist_ledgers (se_codec env) ?live runtime ((db_live db)\<lparr>ld_runtimes := runtimes\<rparr>) = Inr (db_live db', ca_live c)"
    "db' = db\<lparr>db_rows := db_rows db', db_live := db_live db'\<rparr>"
    using authoritative_parts[OF assms(1)] by metis
  have d: "distinct (map rt_team_id (db_runtimes db))" using assms(2) by (simp add: sound_runtimes_def)
  note a = advance_runtime_effect[OF d p(1)]
  have l: "db_runtimes db' = runtimes" "cs_runtime (ca_live c) = runtime"
    using persist_ledgers_runtimes[OF p(2)] by simp_all
  have ids: "rt_team_id (?move rt) = rt_team_id rt" for rt by (simp add: cas_values_def)
  have others: "filter (\<lambda>rt. rt_team_id rt \<noteq> tc_team_id ?live) (map ?move rts) = filter (\<lambda>rt. rt_team_id rt \<noteq> tc_team_id ?live) rts" for rts
    by (induction rts) (auto simp: cas_matches_def cas_values_def)
  have "db_teams db' = db_teams db" "db_blueprints db' = db_blueprints db" "db_runs db' = db_runs db"
    by (subst p(3), simp)+
  then show "keeps_others (tc_team_id ?live) db db'"
    using a l(1) ids others by (simp add: keeps_others_def comp_def)
  obtain rt where rt: "rt \<in> set (db_runtimes db)" "cas_matches ?live rt" "runtime = cas_values ?live rt" using a by blast
  have t: "rt_team_id rt = tc_team_id ?live" using rt(2) by (simp add: cas_matches_def)
  have "row_at rt_team_id (db_runtimes db) (tc_team_id ?live) = Some rt" using row_at_distinct[OF d rt(1)] t by simp
  moreover have "distinct (map rt_team_id (db_runtimes db'))" using d a l(1) ids by (simp add: comp_def)
  moreover have "cas_values ?live rt \<in> set (db_runtimes db')" using a l(1) rt by force
  moreover have "rt_team_id (cas_values ?live rt) = tc_team_id ?live" using t by (simp add: cas_values_def)
  ultimately show "\<exists>rt. row_at rt_team_id (db_runtimes db) (tc_team_id ?live) = Some rt \<and> cas_matches ?live rt \<and>
       row_at rt_team_id (db_runtimes db') (tc_team_id ?live) = Some (cas_values ?live rt) \<and>
       cs_runtime (ca_live c) = cas_values ?live rt"
    using rt l(2) row_at_distinct[of rt_team_id "db_runtimes db'" "cas_values ?live rt"] by auto
qed

lemma live_load_Inr:
  assumes "live_load env db team = Inr st"
  shows "live_aggregate env db team = Inr (lt_aggregate st)" "load_state env db team (rt_run_id (lt_runtime st)) = Inr (lt_scrum st)"
    "row_at rt_team_id (db_runtimes db) team = Some (lt_runtime st)" "rt_team_id (lt_runtime st) = team"
proof -
  show a: "live_aggregate env db team = Inr (lt_aggregate st)" "load_state env db team (rt_run_id (lt_runtime st)) = Inr (lt_scrum st)"
    using assms by (auto simp: live_load_def elim!: bindR_InrE)
  show "row_at rt_team_id (db_runtimes db) team = Some (lt_runtime st)" "rt_team_id (lt_runtime st) = team"
    using live_aggregate_Inr[OF a(1)] by simp_all
qed

lemma tick_command_Inr:
  assumes "tick_command renv st request = Inr k"
  shows "tc_team_id (au_live k) = rt_team_id (lt_runtime st)" "tc_run_id (au_live k) = rt_run_id (lt_runtime st)"
    "tc_expected_runtime_version (au_live k) = rt_version (lt_runtime st)"
    "rt_simulation_time (lt_runtime st) \<le> ra_simulation_time (tc_runtime_after (au_live k))"
    "ra_simulation_time (tc_runtime_after (au_live k)) \<le> tq_ends_at request"
  using tick_clock[OF assms[unfolded tick_command_def]] by simp_all

section \<open>Properties of the tick\<close>

text \<open>(C8) No tick is computed from a state that somebody has moved on. Whatever other sessions commit before either of the
  two attempts, a tick that returns was computed from a load of the team whose version the runtime still had when it was
  committed, and it leaves the runtime one version further, at an instant between the one it was loaded with and
  the requested end.\<close>

theorem tick_builds_on_fresh_state:
  assumes "advance_tick env renv first second request db = (db', Inr c)"
    and "\<And>d. sound_runtimes d \<Longrightarrow> sound_runtimes (first d)" and "\<And>d. sound_runtimes d \<Longrightarrow> sound_runtimes (second d)" and "sound_runtimes db"
  shows "\<exists>base other st k. (base, other) \<in> {(db, first), (first db, second)} \<and>
    live_load env base (tq_team_id request) = Inr st \<and> tick_command renv st request = Inr k \<and>
    commit_authoritative_slice env k (other base) = Inr (db', c) \<and>
    (\<exists>rt. row_at rt_team_id (db_runtimes (other base)) (tq_team_id request) = Some rt \<and> rt_version rt = rt_version (lt_runtime st) \<and>
       rt_run_id rt = rt_run_id (lt_runtime st)) \<and>
    (\<exists>rt. row_at rt_team_id (db_runtimes db') (tq_team_id request) = Some rt \<and> rt_version rt = rt_version (lt_runtime st) + 1 \<and>
       rt_simulation_time (lt_runtime st) \<le> rt_simulation_time rt \<and> rt_simulation_time rt \<le> tq_ends_at request)"
proof -
  obtain base other st k where b: "(base, other) \<in> {(db, first), (first db, second)}" "live_load env base (tq_team_id request) = Inr st"
    "tick_command renv st request = Inr k" "commit_authoritative_slice env k (other base) = Inr (db', c)"
  proof -
    obtain st k where l: "live_load env db (tq_team_id request) = Inr st" "tick_command renv st request = Inr k"
      using assms(1) by (auto simp: advance_tick_def bindR_def split: sum.splits)
    show ?thesis
    proof (cases "commit_authoritative_slice env k (first db)")
      case (Inr r)
      then have "r = (db', c)" using assms(1) l by (cases r) (simp add: advance_tick_def)
      then show ?thesis using that[of db first] l Inr by simp
    next
      case (Inl e)
      then have r: "tick_attempts env renv request [second] (first db) = (db', Inr c)"
        using assms(1) l by (simp add: advance_tick_def split: if_splits)
      then obtain st2 k2 where l2: "live_load env (first db) (tq_team_id request) = Inr st2" "tick_command renv st2 request = Inr k2"
        by (auto simp: bindR_def split: sum.splits)
      then have "commit_authoritative_slice env k2 (second (first db)) = Inr (db', c)"
        using r by (auto split: sum.splits)
      then show ?thesis using that[of "first db" second] l2 by simp
    qed
  qed
  note l = live_load_Inr[OF b(2)] and t = tick_command_Inr[OF b(3)]
  have "sound_runtimes (other base)" using b(1) assms(2-4) by auto
  then obtain rt where rt: "row_at rt_team_id (db_runtimes (other base)) (tc_team_id (au_live k)) = Some rt" "cas_matches (au_live k) rt"
    "row_at rt_team_id (db_runtimes db') (tc_team_id (au_live k)) = Some (cas_values (au_live k) rt)"
    using commit_runtimes(2)[OF b(4)] by blast
  have "rt_version rt = rt_version (lt_runtime st)" "rt_run_id rt = rt_run_id (lt_runtime st)"
    using rt(2) t by (simp_all add: cas_matches_def)
  moreover have "rt_version (cas_values (au_live k) rt) = rt_version (lt_runtime st) + 1"
    "rt_simulation_time (cas_values (au_live k) rt) = ra_simulation_time (tc_runtime_after (au_live k))"
    using t by (simp_all add: cas_values_def)
  moreover have "tc_team_id (au_live k) = tq_team_id request" using t l by simp
  ultimately show ?thesis using b rt(1,3) t(4,5)
    by (intro exI[of _ base] exI[of _ other] exI[of _ st] exI[of _ k]) auto
qed

section \<open>Properties of the scheduler\<close>

lemma tick_alone_effect:
  assumes "tick_alone env renv team as_of db = (db1, out)" and "sound_runtimes db"
  shows "keeps_others team db db1"
    and "out = Inr c \<Longrightarrow> \<exists>rt. row_at rt_team_id (db_runtimes db1) team = Some rt \<and> rt_simulation_time rt \<le> as_of"
proof -
  let ?request = "\<lparr>tq_team_id = team, tq_ends_at = as_of, tq_recorded_at = as_of\<rparr>"
  have ran: "\<exists>st k. live_load env db team = Inr st \<and> tick_command renv st ?request = Inr k \<and>
      commit_authoritative_slice env k db = Inr (db1, c)" if "out = Inr c" for c
    using assms(1) that by (auto simp: tick_alone_def advance_tick_def bindR_def split: sum.splits if_splits)
  have idle: "db1 = db" if "out = Inl e" for e
    using assms(1) that by (auto simp: tick_alone_def advance_tick_def bindR_def split: sum.splits if_splits)
  have moved: "keeps_others team db db1 \<and> (\<exists>rt. row_at rt_team_id (db_runtimes db1) team = Some rt \<and> rt_simulation_time rt \<le> as_of)"
    if o: "out = Inr c" for c
  proof -
    obtain st k where r: "live_load env db team = Inr st" "tick_command renv st ?request = Inr k"
      "commit_authoritative_slice env k db = Inr (db1, c)" using ran[OF o] by blast
    have t: "tc_team_id (au_live k) = team" using tick_command_Inr(1)[OF r(2)] live_load_Inr(4)[OF r(1)] by simp
    have "ra_simulation_time (tc_runtime_after (au_live k)) \<le> as_of" using tick_command_Inr(5)[OF r(2)] by simp
    then show ?thesis using commit_runtimes[OF r(3) assms(2)] t by (auto simp: cas_values_def)
  qed
  show "keeps_others team db db1" using idle moved keeps_others_refl by (cases out) auto
  show "out = Inr c \<Longrightarrow> \<exists>rt. row_at rt_team_id (db_runtimes db1) team = Some rt \<and> rt_simulation_time rt \<le> as_of"
    using moved by blast
qed

definition brought_up :: "store_env \<Rightarrow> instant \<Rightarrow> uuid \<Rightarrow> scrum_db \<Rightarrow> scrum_db \<Rightarrow> bool" where
  "brought_up env as_of team db db' \<longleftrightarrow>
     (\<exists>before now. live_load env db team = Inr before \<and> live_load env db' team = Inr now \<and>
        rt_simulation_time (lt_runtime now) = as_of \<and> first_boundary_until now as_of = None \<and>
        rt_version (lt_runtime before) < rt_version (lt_runtime now))"

lemma advance_team_effect:
  assumes "advance_team env renv as_of team db = Some (db', r)" and "sound_runtimes db"
  shows "keeps_others team db db' \<and> (r = Inr () \<longrightarrow> brought_up env as_of team db db')"
proof -
  have "sound_runtimes db \<longrightarrow> keeps_others team db (fst (db', r)) \<and>
      (snd (db', r) = Inr () \<longrightarrow> brought_up env as_of team db (fst (db', r)))"
  proof (rule advance_team.raw_induct[where P = "\<lambda>env renv as_of team db res. sound_runtimes db \<longrightarrow> keeps_others team db (fst res) \<and>
      (snd res = Inr () \<longrightarrow> brought_up env as_of team db (fst res))", OF _ assms(1)])
    fix advance env renv as_of team db res
    assume ih: "\<And>env renv as_of team db res. advance env renv as_of team db = Some res \<Longrightarrow> sound_runtimes db \<longrightarrow>
        keeps_others team db (fst res) \<and> (snd res = Inr () \<longrightarrow> brought_up env as_of team db (fst res))"
      and eq: "(case live_load env db team of Inl e \<Rightarrow> Some (db, Inl e)
        | Inr before \<Rightarrow> (case tick_alone env renv team as_of db of (db1, outcome) \<Rightarrow> (case outcome of Inl e \<Rightarrow> Some (db1, Inl e)
          | Inr committed \<Rightarrow> (case live_load env db1 team of Inl e \<Rightarrow> Some (db1, Inl e)
            | Inr now \<Rightarrow> if rt_version (lt_runtime now) \<le> rt_version (lt_runtime before)
                then Some (db1, Inl (Runtime_Error ''team tick did not advance the persisted runtime version''))
                else if caught_up now as_of then Some (db1, Inr ()) else advance env renv as_of team db1)))) = Some res"
    show "sound_runtimes db \<longrightarrow> keeps_others team db (fst res) \<and> (snd res = Inr () \<longrightarrow> brought_up env as_of team db (fst res))"
    proof (intro impI)
      assume ok: "sound_runtimes db"
      obtain db1 out where t: "tick_alone env renv team as_of db = (db1, out)" by fastforce
      note e = tick_alone_effect[OF t ok]
      show "keeps_others team db (fst res) \<and> (snd res = Inr () \<longrightarrow> brought_up env as_of team db (fst res))"
      proof (cases "live_load env db team")
        case (Inl x)
        then show ?thesis using eq keeps_others_refl by auto
      next
        case before: (Inr before)
        show ?thesis
        proof (cases "\<exists>c now. out = Inr c \<and> live_load env db1 team = Inr now \<and> rt_version (lt_runtime before) < rt_version (lt_runtime now)")
          case False
          then show ?thesis using eq before t e(1) by (auto split: sum.splits if_splits)
        next
          case True
          then obtain c now where n: "out = Inr c" "live_load env db1 team = Inr now"
            "rt_version (lt_runtime before) < rt_version (lt_runtime now)" by blast
          show ?thesis
          proof (cases "caught_up now as_of")
            case True
            obtain rt where "row_at rt_team_id (db_runtimes db1) team = Some rt" "rt_simulation_time rt \<le> as_of"
              using e(2)[OF n(1)] by blast
            then have "rt_simulation_time (lt_runtime now) \<le> as_of" using live_load_Inr(3)[OF n(2)] by simp
            then have "brought_up env as_of team db db1" using True before n unfolding brought_up_def caught_up_def by fastforce
            then show ?thesis using eq before t n True e(1) by auto
          next
            case False
            then have "advance env renv as_of team db1 = Some res" using eq before t n by simp
            note i = ih[OF this]
            have "sound_runtimes db1" using keeps_others_sound[OF e(1) ok] .
            then have "keeps_others team db1 (fst res)" "snd res = Inr () \<Longrightarrow> brought_up env as_of team db1 (fst res)" using i by auto
            moreover from this(2) have "snd res = Inr () \<Longrightarrow> brought_up env as_of team db (fst res)"
              using before n unfolding brought_up_def by fastforce
            ultimately show ?thesis using keeps_others_trans[OF e(1)] by blast
          qed
        qed
      qed
    qed
  qed
  then show ?thesis using assms(2) by simp
qed

lemma nothing_left_at:
  assumes "first_boundary_until st (rt_simulation_time (lt_runtime st)) = None" and "s \<in> set (st_sprints (lt_scrum st))"
  shows "\<not> (ss_lifecycle s = SP_PLANNED \<and> ss_planned_start_at s = rt_simulation_time (lt_runtime st)) \<and>
    \<not> (ss_lifecycle s = SP_ACTIVE \<and> ss_planned_end_at s = rt_simulation_time (lt_runtime st))"
proof -
  have "open_boundaries st (rt_simulation_time (lt_runtime st)) = []"
    using assms(1) by (simp add: first_boundary_until_def split: list.splits)
  then have "boundary_for s \<noteq> Some (rt_simulation_time (lt_runtime st))"
    using assms(2) by (auto simp: open_boundaries_def filter_empty_conv map_filter_def image_iff)
  then show ?thesis by (auto simp: boundary_for_def)
qed

text \<open>A due team that is advanced without an exception has caught up: in the stored state its clock stands at
  the instant of the poll, neither before nor behind it; a sprint boundary that falls on this very instant has been
  crossed, so no planned sprint still waits to start there and no active one to end there; and its version has grown.
  No other team's runtime has changed, whatever happened to this one. (That no single tick passes a boundary is
  stated of the tick, not here.)\<close>

theorem advanced_team_has_caught_up:
  assumes "advance_team env renv as_of team db = Some (db', r)" and "sound_runtimes db"
  shows "filter (\<lambda>rt. rt_team_id rt \<noteq> team) (db_runtimes db') = filter (\<lambda>rt. rt_team_id rt \<noteq> team) (db_runtimes db) \<and>
    (r = Inr () \<longrightarrow> (\<exists>before now. live_load env db team = Inr before \<and> live_load env db' team = Inr now \<and>
       rt_simulation_time (lt_runtime now) = as_of \<and>
       (\<forall>s \<in> set (st_sprints (lt_scrum now)).
          \<not> (ss_lifecycle s = SP_PLANNED \<and> ss_planned_start_at s = as_of) \<and>
          \<not> (ss_lifecycle s = SP_ACTIVE \<and> ss_planned_end_at s = as_of)) \<and>
       rt_version (lt_runtime before) < rt_version (lt_runtime now)))"
proof (intro conjI impI)
  note e = advance_team_effect[OF assms]
  show "filter (\<lambda>rt. rt_team_id rt \<noteq> team) (db_runtimes db') = filter (\<lambda>rt. rt_team_id rt \<noteq> team) (db_runtimes db)"
    using e by (simp add: keeps_others_def)
  assume "r = Inr ()"
  then obtain before now where n: "live_load env db team = Inr before" "live_load env db' team = Inr now"
    "rt_simulation_time (lt_runtime now) = as_of" "first_boundary_until now as_of = None"
    "rt_version (lt_runtime before) < rt_version (lt_runtime now)"
    using e by (auto simp: brought_up_def)
  show "\<exists>before now. live_load env db team = Inr before \<and> live_load env db' team = Inr now \<and>
       rt_simulation_time (lt_runtime now) = as_of \<and>
       (\<forall>s \<in> set (st_sprints (lt_scrum now)).
          \<not> (ss_lifecycle s = SP_PLANNED \<and> ss_planned_start_at s = as_of) \<and>
          \<not> (ss_lifecycle s = SP_ACTIVE \<and> ss_planned_end_at s = as_of)) \<and>
       rt_version (lt_runtime before) < rt_version (lt_runtime now)"
    using n nothing_left_at[of now] by (intro exI[of _ before] exI[of _ now]) (simp add: n(3))
qed

definition due_teams :: "instant \<Rightarrow> scrum_db \<Rightarrow> uuid set" where
  "due_teams as_of db = rt_team_id ` {rt \<in> set (db_runtimes db). is_due as_of rt}"

lemma due_page:
  assumes "sound_runtimes db"
  shows "due_team_ids db as_of 100 cursor = Inr (take 100 (sorted_list_of_set {t \<in> due_teams as_of db. beyond cursor t}))"
proof -
  let ?ids = "map rt_team_id (filter (\<lambda>rt. is_due as_of rt \<and> beyond cursor (rt_team_id rt)) (db_runtimes db))"
  have "distinct ?ids" using assms by (simp add: sound_runtimes_def distinct_map_filter)
  then have "sort ?ids = sorted_list_of_set (set ?ids)"
    using sorted_list_of_set.idem_if_sorted_distinct[of "sort ?ids"] by (simp only: set_sort sorted_sort distinct_sort simp_thms)
  moreover have "set ?ids = {t \<in> due_teams as_of db. beyond cursor t}" by (auto simp: due_teams_def)
  ultimately show ?thesis by (simp add: due_team_ids_def beyond_def)
qed

lemma keeps_others_due: "keeps_others team db db' \<Longrightarrow> due_teams as_of db' - {team} = due_teams as_of db - {team}"
proof -
  assume "keeps_others team db db'"
  then have "set (filter (\<lambda>rt. rt_team_id rt \<noteq> team) (db_runtimes db')) = set (filter (\<lambda>rt. rt_team_id rt \<noteq> team) (db_runtimes db))"
    by (simp only: keeps_others_def)
  then have "{rt \<in> set (db_runtimes db'). rt_team_id rt \<noteq> team} = {rt \<in> set (db_runtimes db). rt_team_id rt \<noteq> team}" by simp
  moreover have "due_teams as_of d - {team} = rt_team_id ` {rt \<in> {rt \<in> set (db_runtimes d). rt_team_id rt \<noteq> team}. is_due as_of rt}" for d
    by (auto simp: due_teams_def)
  ultimately show ?thesis by presburger
qed

text \<open>While the due teams are run, there are the teams that there were.\<close>

definition same_teams :: "scrum_db \<Rightarrow> scrum_db \<Rightarrow> bool" where
  "same_teams db w \<longleftrightarrow> sound_runtimes w \<and> map rt_team_id (db_runtimes w) = map rt_team_id (db_runtimes db) \<and>
     db_teams w = db_teams db \<and> db_blueprints w = db_blueprints db \<and> db_runs w = db_runs db"

lemma keeps_others_same: "keeps_others team v w \<Longrightarrow> same_teams db v \<Longrightarrow> same_teams db w"
  unfolding same_teams_def keeps_others_def sound_runtimes_def by (elim conjE) (intro conjI; metis)

interpretation due_run: paged_teams "same_teams db" "due_teams as_of" "advance_team env renv as_of" "\<lambda>w. due_team_ids w as_of 100" 100
  for as_of env renv db
proof
  show "finite (due_teams as_of w)" for w by (simp add: due_teams_def)
  show "due_team_ids w as_of 100 cursor = Inr (take 100 (sorted_list_of_set {t \<in> due_teams as_of w. beyond cursor t}))"
    if "same_teams db w" for w cursor using that by (intro due_page) (simp add: same_teams_def)
  show "same_teams db w' \<and> due_teams as_of w' - {t} = due_teams as_of w - {t}"
    if "same_teams db w" "advance_team env renv as_of t w = Some (w', r)" for w t w' r
  proof -
    have "keeps_others t w w'" using advance_team_effect[OF that(2)] that(1) by (simp add: same_teams_def)
    then show ?thesis using keeps_others_same that(1) keeps_others_due by blast
  qed
qed simp

lemma same_teams_refl: "sound_runtimes db \<Longrightarrow> same_teams db db"
  by (simp add: same_teams_def)

text \<open>(C10) A poll reaches every due team once. When the loop over the pages ends it has attempted exactly the teams that were
  due at its start, in the order of their identifiers, whatever the earlier ones did or raised, and each is counted once,
  as a success or as a failure.\<close>

theorem run_due_reaches_every_team:
  assumes "run_due env renv as_of db = Some (db', out)" and "sound_runtimes db"
  shows "\<exists>r. out = Inr r \<and> sr_attempted r = sorted_list_of_set (due_teams as_of db) \<and>
    mset (sr_succeeded r) + mset (sr_failed r) = mset (sr_attempted r)"
  using due_run.drain_attempts[OF assms(1)[unfolded run_due_def] same_teams_refl[OF assms(2)]] by (auto simp: beyond_def empty_run_def)

text \<open>(C12) The loop over the pages ends: if advancing a due team always returns, so does the poll. A team that stays due does
  not keep the poll going, for the cursor has passed it.\<close>

theorem run_due_returns:
  assumes "sound_runtimes db"
    and "\<And>team w. team \<in> due_teams as_of db \<Longrightarrow> same_teams db w \<Longrightarrow> advance_team env renv as_of team w \<noteq> None"
  shows "run_due env renv as_of db \<noteq> None"
  unfolding run_due_def
  by (rule due_run.drain_returns[OF same_teams_refl[OF assms(1)], where ?w0.0 = db]) (use assms(2) in auto)

section \<open>Properties of the restart\<close>

definition store_sound :: "scrum_db \<Rightarrow> bool" where
  "store_sound db \<longleftrightarrow> db_ok (db_live db) \<and> unique_identities (db_rows db)"

lemma store_sound_runtimes: "store_sound db \<Longrightarrow> sound_runtimes db"
  by (simp add: store_sound_def db_ok_def sound_runtimes_def)

text \<open>What one commit of a restart does to the store: no time of a member is used up and no absence is recorded.\<close>

definition rested :: "uuid \<Rightarrow> scrum_db \<Rightarrow> scrum_db \<Rightarrow> bool" where
  "rested team db db' \<longleftrightarrow>
     store_sound db' \<and> keeps_others team db db' \<and>
     ta_consumption (tables_of (db_rows db')) = ta_consumption (tables_of (db_rows db)) \<and>
     ta_overlays (tables_of (db_rows db')) = ta_overlays (tables_of (db_rows db)) \<and>
     (\<exists>new. lg_rows (live_db.ld_ground_truth (db_live db')) = lg_rows (live_db.ld_ground_truth (db_live db)) @ new)"

lemma rested_refl: "store_sound db \<Longrightarrow> rested team db db"
  by (simp add: rested_def keeps_others_refl)

lemma rested_trans: "rested team a b \<Longrightarrow> rested team b c \<Longrightarrow> rested team a c"
  using keeps_others_trans unfolding rested_def by fastforce

lemma persist_ledgers_effect:
  assumes "persist_ledgers cd k rt l = Inr (l', out)" and "ledger_ok (live_db.ld_activity l)" "ledger_ok (live_db.ld_ground_truth l)"
    "ledger_ok (ld_projection l)"
  shows "ledger_ok (live_db.ld_activity l') \<and> ledger_ok (live_db.ld_ground_truth l') \<and> ledger_ok (ld_projection l') \<and>
    (\<exists>new. lg_rows (live_db.ld_ground_truth l') = lg_rows (live_db.ld_ground_truth l) @ new) \<and>
    list_all2 (holds (validate_ground_truth cd) (owner k) (live_db.ld_ground_truth l')) (tc_ground_truth k) (cs_ground_truth out)"
proof -
  obtain la activity lt truth lp proj where
    p: "persist (validate_activity cd) k (tc_activity k) (live_db.ld_activity l) = Inr (la, activity)"
    "persist (validate_ground_truth cd) k (tc_ground_truth k) (live_db.ld_ground_truth l) = Inr (lt, truth)"
    "persist (validate_projection cd) k (tc_projection_intents k) (ld_projection l) = Inr (lp, proj)"
    "l' = l\<lparr>live_db.ld_activity := la, live_db.ld_ground_truth := lt, ld_projection := lp\<rparr>" "cs_ground_truth out = truth"
    using assms(1) by (auto simp: persist_ledgers_def elim!: bindR_Inr2E)
  show ?thesis
    using persist_effect[OF assms(2) p(1)] persist_effect[OF assms(3) p(2)] persist_effect[OF assms(4) p(3)] p(4,5) by simp
qed

lemma commit_rested:
  assumes "commit_authoritative_slice env k db = Inr (db', c)" and "store_sound db"
    and "st_consumption (au_state k) = []" and "st_overlays (au_state k) = []"
  shows "rested (tc_team_id (au_live k)) db db'"
    "\<forall>d \<in> set (tc_ground_truth (au_live k)). \<exists>row \<in> set (lg_rows (live_db.ld_ground_truth (db_live db'))).
       dr_semantic_key (st_draft row) = dr_semantic_key d \<and> dr_details (st_draft row) = dr_details d \<and>
       st_team_id row = tc_team_id (au_live k)"
proof -
  obtain runtimes runtime where p: "persist_ledgers (se_codec env) (au_live k) runtime ((db_live db)\<lparr>ld_runtimes := runtimes\<rparr>) =
      Inr (db_live db', ca_live c)" using authoritative_parts[OF assms(1)] by metis
  have ok: "ledger_ok (live_db.ld_activity (db_live db))" "ledger_ok (live_db.ld_ground_truth (db_live db))"
    "ledger_ok (ld_projection (db_live db))" using assms(2) by (simp_all add: store_sound_def db_ok_def)
  note l = persist_ledgers_effect[OF p]
  note r = commit_runtimes(1)[OF assms(1) store_sound_runtimes[OF assms(2)]]
  have o: "tables_of (db_rows db') = overlay_tables (tables_of (db_rows db)) (tables_of (au_state k))" "unique_identities (db_rows db')"
    using commit_overlay[OF assms(1)] assms(2) by (simp_all add: store_sound_def)
  have "sound_runtimes db'" by (rule keeps_others_sound[OF r store_sound_runtimes[OF assms(2)]])
  then have "store_sound db'" using l ok o(2) by (simp add: store_sound_def db_ok_def sound_runtimes_def)
  moreover have "ta_consumption (tables_of (db_rows db')) = ta_consumption (tables_of (db_rows db))"
    "ta_overlays (tables_of (db_rows db')) = ta_overlays (tables_of (db_rows db))"
    unfolding o(1) using assms(3,4) by (simp_all add: overlay_tables_def tables_of_def)
  ultimately show "rested (tc_team_id (au_live k)) db db'" using r l ok by (simp add: rested_def)
  show "\<forall>d \<in> set (tc_ground_truth (au_live k)). \<exists>row \<in> set (lg_rows (live_db.ld_ground_truth (db_live db'))).
       dr_semantic_key (st_draft row) = dr_semantic_key d \<and> dr_details (st_draft row) = dr_details d \<and> st_team_id row = tc_team_id (au_live k)"
  proof
    fix d assume "d \<in> set (tc_ground_truth (au_live k))"
    then obtain row where "holds (validate_ground_truth (se_codec env)) (owner (au_live k)) (live_db.ld_ground_truth (db_live db')) d row"
      using l ok by (auto simp: in_set_conv_nth list_all2_conv_all_nth)
    then show "\<exists>row \<in> set (lg_rows (live_db.ld_ground_truth (db_live db'))).
       dr_semantic_key (st_draft row) = dr_semantic_key d \<and> dr_details (st_draft row) = dr_details d \<and> st_team_id row = tc_team_id (au_live k)"
      by (auto simp: holds_def deduplication_content_def)
  qed
qed

lemma boundary_transition_state: "boundary_transition env x event ops = Inr tn \<Longrightarrow> tn_state tn = tx_write_set x"
  by (auto simp: boundary_transition_def elim!: bindR_InrE)

lemma boundary_rests:
  assumes "cross_sprint_boundary env st t = Inr change"
  shows "st_consumption (tn_state change) = [] \<and> st_overlays (tn_state change) = []"
proof -
  have "st_consumption (tn_state change) = [] \<and> st_overlays (tn_state change) = []"
    if "activate_planned_sprint env st sprint t = Inr change" for sprint
    using that by (auto simp: activate_planned_sprint_def activation_transition_def Let_def empty_state_def
        elim!: bindR_InrE dest!: boundary_transition_state write_set_Inr)
  moreover have "st_consumption (tn_state change) = [] \<and> st_overlays (tn_state change) = []"
    if "roll_active_sprint env st sprint t = Inr change" for sprint
    using that by (auto simp: roll_active_sprint_def rollover_transition_def rolled_context_def Let_def empty_state_def
        elim!: bindR_InrE bindR_Inr2E dest!: boundary_transition_state write_set_Inr)
  ultimately show ?thesis using assms
    by (auto simp: cross_sprint_boundary_def empty_transition_def empty_state_def split: option.splits)
qed

lemma lifecycle_command_Inr:
  assumes "lifecycle_command env st change boundary t = Inr k"
  shows "tc_team_id (au_live k) = rt_team_id (lt_runtime st)" "au_state k = tn_state change"
    "ra_state (tc_runtime_after (au_live k)) = rt_state (lt_runtime st)"
  using assms by (auto simp: lifecycle_command_def Let_def built_Inr elim!: bindR_InrE)

lemma downtime_command_Inr:
  assumes "downtime_command env st after t activity truth = Inr k"
  shows "tc_team_id (au_live k) = rt_team_id (lt_runtime st)" "au_state k = empty_state" "tc_runtime_after (au_live k) = after"
    "tc_ground_truth (au_live k) = truth"
  using assms by (auto simp: downtime_command_def Let_def built_Inr elim!: bindR_InrE dest!: write_set_Inr)

text \<open>One commit for a loaded team that adds no consumption and no absence: what the two kinds of restart command share.\<close>

lemma submit_rested:
  assumes "submit env command db = (db', r)" and "store_sound db"
    and "\<And>k. command = Inr k \<Longrightarrow> tc_team_id (au_live k) = team \<and> st_consumption (au_state k) = [] \<and> st_overlays (au_state k) = []"
  shows "rested team db db'"
proof (cases "bindR command (\<lambda>k. commit_authoritative_slice env k db)")
  case (Inl e)
  then show ?thesis using assms(1,2) rested_refl by (simp add: submit_def)
next
  case (Inr x)
  then obtain k c where k: "command = Inr k" "commit_authoritative_slice env k db = Inr (db', c)"
    using assms(1) by (cases x) (auto simp: submit_def elim!: bindR_InrE)
  show ?thesis using commit_rested(1)[OF k(2) assms(2)] assms(3)[OF k(1)] by simp
qed

lemma submit_Inr:
  assumes "submit env command db = (db', Inr u)"
  obtains k c where "command = Inr k" "commit_authoritative_slice env k db = Inr (db', c)"
  using assms by (auto simp: submit_def split: sum.splits elim!: bindR_InrE)

lemma boundary_command_rests:
  assumes "commit_boundary env st boundary t = Inr k" and "rt_team_id (lt_runtime st) = team"
  shows "tc_team_id (au_live k) = team \<and> st_consumption (au_state k) = [] \<and> st_overlays (au_state k) = []"
proof -
  obtain change where "cross_sprint_boundary env st boundary = Inr change" "lifecycle_command env st change boundary t = Inr k"
    using assms(1) by (auto simp: commit_boundary_def elim!: bindR_InrE)
  then show ?thesis using boundary_rests lifecycle_command_Inr assms(2) by metis
qed

lemma silent_skip_Inr:
  assumes "silent_skip env st ends_at t = Inr k"
  shows "tc_team_id (au_live k) = rt_team_id (lt_runtime st)" "au_state k = empty_state"
    "ra_simulation_time (tc_runtime_after (au_live k)) = ends_at" "ra_next_wake_at (tc_runtime_after (au_live k)) = Some ends_at"
  using assms by (auto simp: silent_skip_def built_Inr elim!: bindR_InrE dest: downtime_command_Inr)

text \<open>Where a resumed team ends: its clock stands at the restart and it is to wake at once.\<close>

definition skipped_to :: "instant \<Rightarrow> uuid \<Rightarrow> scrum_db \<Rightarrow> bool" where
  "skipped_to as_of team db \<longleftrightarrow>
     (\<exists>rt. row_at rt_team_id (db_runtimes db) team = Some rt \<and> rt_simulation_time rt = as_of \<and> rt_next_wake_at rt = Some as_of)"

lemma silent_skip_effect:
  assumes "submit env (silent_skip (se_scrum env) st as_of as_of) db = (db', Inr u)" and "sound_runtimes db"
    and "rt_team_id (lt_runtime st) = team"
  shows "skipped_to as_of team db'"
proof -
  obtain k c where k: "silent_skip (se_scrum env) st as_of as_of = Inr k" "commit_authoritative_slice env k db = Inr (db', c)"
    by (rule submit_Inr[OF assms(1)])
  show ?thesis using commit_runtimes(2)[OF k(2) assms(2)] silent_skip_Inr[OF k(1)] assms(3)
    by (auto simp: skipped_to_def cas_values_def)
qed

lemma resume_loop_effect:
  assumes "resume_loop env as_of team db = Some (db', r)" and "store_sound db"
  shows "rested team db db' \<and> (r = Inr () \<longrightarrow> skipped_to as_of team db')"
proof -
  have "store_sound db \<longrightarrow> rested team db (fst (db', r)) \<and> (snd (db', r) = Inr () \<longrightarrow> skipped_to as_of team (fst (db', r)))"
  proof (rule resume_loop.raw_induct[where P = "\<lambda>env as_of team db res. store_sound db \<longrightarrow> rested team db (fst res) \<and>
      (snd res = Inr () \<longrightarrow> skipped_to as_of team (fst res))", OF _ assms(1)])
    fix resume env as_of team db res
    assume ih: "\<And>env as_of team db res. resume env as_of team db = Some res \<Longrightarrow> store_sound db \<longrightarrow>
        rested team db (fst res) \<and> (snd res = Inr () \<longrightarrow> skipped_to as_of team (fst res))"
      and eq: "(case live_load env db team of Inl e \<Rightarrow> Some (db, Inl e)
        | Inr st \<Rightarrow> (case first_boundary_until st as_of of
            None \<Rightarrow> Some (submit env (silent_skip (se_scrum env) st as_of as_of) db)
          | Some boundary \<Rightarrow> (case submit env (commit_boundary (se_scrum env) st boundary as_of) db of
              (db1, outcome) \<Rightarrow> (case outcome of Inl e \<Rightarrow> Some (db1, Inl e) | Inr x \<Rightarrow> resume env as_of team db1)))) = Some res"
    show "store_sound db \<longrightarrow> rested team db (fst res) \<and> (snd res = Inr () \<longrightarrow> skipped_to as_of team (fst res))"
    proof (intro impI)
      assume ok: "store_sound db"
      show "rested team db (fst res) \<and> (snd res = Inr () \<longrightarrow> skipped_to as_of team (fst res))"
      proof (cases "live_load env db team")
        case (Inl e)
        then show ?thesis using eq rested_refl[OF ok] by auto
      next
        case (Inr st)
        have t: "rt_team_id (lt_runtime st) = team" by (rule live_load_Inr(4)[OF Inr])
        show ?thesis
        proof (cases "first_boundary_until st as_of")
          case None
          then have s: "submit env (silent_skip (se_scrum env) st as_of as_of) db = (fst res, snd res)" using eq Inr by simp
          have "rested team db (fst res)"
            by (rule submit_rested[OF s ok]) (use silent_skip_Inr t in \<open>auto simp: empty_state_def\<close>)
          moreover have "skipped_to as_of team (fst res)" if "snd res = Inr ()"
            by (rule silent_skip_effect[OF _ store_sound_runtimes[OF ok] t]) (use s that in simp)
          ultimately show ?thesis by blast
        next
          case (Some boundary)
          obtain db1 out where s: "submit env (commit_boundary (se_scrum env) st boundary as_of) db = (db1, out)" by fastforce
          have m: "rested team db db1" by (rule submit_rested[OF s ok]) (rule boundary_command_rests[OF _ t])
          then have ok1: "store_sound db1" by (simp add: rested_def)
          have next_step: "(case out of Inl e \<Rightarrow> Some (db1, Inl e) | Inr x \<Rightarrow> resume env as_of team db1) = Some res"
            using eq Inr Some s by simp
          show ?thesis
          proof (cases out)
            case (Inl e)
            then have "res = (db1, Inl e)" using next_step by simp
            then show ?thesis using m by simp
          next
            case (Inr x)
            then have "resume env as_of team db1 = Some res" using next_step by simp
            then show ?thesis using ih ok1 rested_trans[OF m] by blast
          qed
        qed
      qed
    qed
  qed
  then show ?thesis using assms(2) by simp
qed

lemma downtime_evidence_Inr:
  assumes "downtime_evidence env st starts_at ends_at = Inr k"
  shows "tc_team_id (au_live k) = rt_team_id (lt_runtime st) \<and> au_state k = empty_state \<and>
    (\<exists>d \<in> set (tc_ground_truth (au_live k)). dr_semantic_key d = downtime_evidence_key env st starts_at ends_at @ ''/downtime'' \<and>
       gt_record_type (dr_details d) = ''DOWNTIME_SKIPPED'')"
proof -
  obtain activity truth after where d: "downtime_records env st (downtime_evidence_key env st starts_at ends_at) starts_at ends_at = Inr (activity, truth)"
    "downtime_command env st after ends_at activity truth = Inr k"
    using assms by (auto simp: downtime_evidence_def Let_def elim!: bindR_InrE)
  obtain e d where t: "truth = [d]" "create_draft (en_codec env) ''ground-truth'' check_ground_truth_details e
      \<lparr>gt_record_type = ''DOWNTIME_SKIPPED'', gt_provenance_type = ''SIMULATOR_V2''\<rparr> = Inr d"
    "make_envelope (downtime_evidence_key env st starts_at ends_at @ ''/downtime'') ends_at
       (JObj [(''starts_at'', JStr (en_instant_text env starts_at)), (''ends_at'', JStr (en_instant_text env ends_at))]) = Inr e"
    using d(1) by (auto simp: downtime_records_def Let_def ground_truth_draft_def built_Inr elim!: bindR_InrE)
  have "de_semantic_key e = downtime_evidence_key env st starts_at ends_at @ ''/downtime''"
    using t(3) by (auto simp: make_envelope_def built_Inr)
  then have "dr_semantic_key d = downtime_evidence_key env st starts_at ends_at @ ''/downtime''" "gt_record_type (dr_details d) = ''DOWNTIME_SKIPPED''"
    using t(2) by (auto simp: create_draft_def Let_def elim!: bindR_InrE)
  then show ?thesis using downtime_command_Inr[OF d(2)] t(1) by auto
qed

lemma resume_team_rested:
  assumes "resume_team env as_of team db = Some (db', r)" and "store_sound db"
  shows "rested team db db'"
proof (cases "live_load env db team")
  case (Inl e)
  then show ?thesis using assms rested_refl by (simp add: resume_team_def reconcile_def)
next
  case (Inr st)
  show ?thesis
  proof (cases "as_of \<le> rt_simulation_time (lt_runtime st)")
    case True
    then show ?thesis using assms rested_refl Inr by (simp add: resume_team_def reconcile_def Let_def)
  next
    case False
    obtain db1 out where s: "submit env (downtime_evidence (se_scrum env) st (rt_simulation_time (lt_runtime st)) as_of) db = (db1, out)"
      by fastforce
    have m: "rested team db db1"
      by (rule submit_rested[OF s assms(2)])
        (use downtime_evidence_Inr live_load_Inr(4)[OF Inr] in \<open>fastforce simp: empty_state_def\<close>)
    then have ok: "store_sound db1" by (simp add: rested_def)
    show ?thesis
    proof (cases out)
      case (Inl e)
      then show ?thesis using assms(1) Inr False s m by (simp add: resume_team_def reconcile_def Let_def)
    next
      case o: (Inr u)
      then have "resume_loop env as_of team db1 = Some (db', r)"
        using assms(1) Inr False s by (simp add: resume_team_def reconcile_def Let_def)
      then show ?thesis using resume_loop_effect[OF _ ok] rested_trans[OF m] by blast
    qed
  qed
qed

text \<open>(C9) Time offline is skipped, not simulated. A running team that is resumed without an exception, and whose clock lay
  before the restart, stands at the restart and wakes at once; meanwhile no member has worked and no absence was recorded
  for any team, the other teams' runtimes are as they were, the ground truth has only grown, and it holds the record of
  exactly this gap.\<close>

theorem restart_skips_downtime:
  assumes "resume_team env as_of team db = Some (db', Inr ())" and "store_sound db"
    and "live_load env db team = Inr st" and "rt_simulation_time (lt_runtime st) < as_of"
  shows "(\<exists>rt. row_at rt_team_id (db_runtimes db') team = Some rt \<and> rt_simulation_time rt = as_of \<and> rt_next_wake_at rt = Some as_of) \<and>
    ta_consumption (tables_of (db_rows db')) = ta_consumption (tables_of (db_rows db)) \<and>
    ta_overlays (tables_of (db_rows db')) = ta_overlays (tables_of (db_rows db)) \<and>
    filter (\<lambda>rt. rt_team_id rt \<noteq> team) (db_runtimes db') = filter (\<lambda>rt. rt_team_id rt \<noteq> team) (db_runtimes db) \<and>
    (\<exists>new. lg_rows (live_db.ld_ground_truth (db_live db')) = lg_rows (live_db.ld_ground_truth (db_live db)) @ new) \<and>
    (\<exists>row \<in> set (lg_rows (live_db.ld_ground_truth (db_live db'))). gt_record_type (dr_details (st_draft row)) = ''DOWNTIME_SKIPPED'' \<and>
       st_team_id row = team \<and>
       dr_semantic_key (st_draft row) =
         downtime_evidence_key (se_scrum env) st (rt_simulation_time (lt_runtime st)) as_of @ ''/downtime'')"
proof -
  let ?start = "rt_simulation_time (lt_runtime st)"
  have t: "rt_team_id (lt_runtime st) = team" by (rule live_load_Inr(4)[OF assms(3)])
  have r: "rested team db db'" by (rule resume_team_rested[OF assms(1,2)])
  obtain db1 u where s: "submit env (downtime_evidence (se_scrum env) st ?start as_of) db = (db1, Inr u)"
    "resume_loop env as_of team db1 = Some (db', Inr ())"
    using assms(1,3,4) by (auto simp: resume_team_def reconcile_def Let_def split: prod.splits sum.splits)
  obtain k c where k: "downtime_evidence (se_scrum env) st ?start as_of = Inr k" "commit_authoritative_slice env k db = Inr (db1, c)"
    by (rule submit_Inr[OF s(1)])
  note e = downtime_evidence_Inr[OF k(1)]
  then have n: "st_consumption (au_state k) = []" "st_overlays (au_state k) = []" by (simp_all add: empty_state_def)
  have "store_sound db1" using commit_rested(1)[OF k(2) assms(2) n] by (simp add: rested_def)
  note l = resume_loop_effect[OF s(2) this]
  obtain row where row: "row \<in> set (lg_rows (live_db.ld_ground_truth (db_live db1)))" "gt_record_type (dr_details (st_draft row)) = ''DOWNTIME_SKIPPED''"
    "st_team_id row = team" "dr_semantic_key (st_draft row) = downtime_evidence_key (se_scrum env) st ?start as_of @ ''/downtime''"
    using commit_rested(2)[OF k(2) assms(2) n] e t by metis
  moreover have "row \<in> set (lg_rows (live_db.ld_ground_truth (db_live db')))" using row(1) l by (auto simp: rested_def)
  ultimately show ?thesis using r l by (auto simp: rested_def keeps_others_def skipped_to_def)
qed

lemma running_ids_sorted: "sorted (running_team_ids db)" "sort (running_team_ids db) = running_team_ids db"
  by (simp_all add: running_team_ids_def sorted_sort_id)

interpretation resume_run: team_runs store_sound "due_teams as_of" "resume_team env as_of" for as_of env
proof
  show "store_sound w' \<and> due_teams as_of w' - {t} = due_teams as_of w - {t}"
    if "store_sound w" "resume_team env as_of t w = Some (w', r)" for w t w' r
    using resume_team_rested[OF that(2,1)] keeps_others_due by (auto simp: rested_def)
qed

text \<open>A restart resumes every running team once, in the order of the identifiers, and counts each as a success or as
  a failure; whether a team that is not running is due does not change.\<close>

theorem restart_resumes_every_team:
  assumes "resume_after_restart env as_of db = Some (db', r)" and "store_sound db"
  shows "sr_attempted r = running_team_ids db \<and> mset (sr_succeeded r) + mset (sr_failed r) = mset (running_team_ids db) \<and>
    due_teams as_of db' - set (running_team_ids db) = due_teams as_of db - set (running_team_ids db) \<and> store_sound db'"
proof -
  obtain ok bad where e: "run_each (resume_team env as_of) (running_team_ids db) db = Some (db', ok, bad)"
    "r = \<lparr>sr_attempted = running_team_ids db, sr_succeeded = ok, sr_failed = bad\<rparr>"
    using assms(1) by (auto simp: resume_after_restart_def run_teams_def running_ids_sorted)
  show ?thesis using resume_run.run_each_runs[OF e(1) assms(2)] e(2) by simp
qed

end
