(* ===== verification/Live_Examples.thy ===== *)
theory Live_Examples
  imports Store_Examples Live_Scheduler
begin

text \<open>
  The sample team alive: its provisioning, its creation, the poll that brings it up to date and the restart that skips
  its downtime. The witnesses of the theorems in \<open>Provisioning\<close>, \<open>Live_Team\<close> and \<open>Live_Scheduler\<close>.
\<close>

section \<open>Provisioning\<close>

text \<open>A codec that reads back: a document is written as its number in unary.\<close>

instance json :: countable by countable_datatype

definition unary_codec :: codec where
  "unary_codec = \<lparr>cd_encode = (\<lambda>j. replicate (to_nat j) (CHR ''1'')), cd_decode = (\<lambda>s. Some (from_nat (length s))),
     cd_sha = (\<lambda>_. hex_text 64 0), cd_uuid5 = length, cd_hmac = (\<lambda>_ _. 0)\<rparr>"

definition unary_env :: scrum_env where
  "unary_env = demo_env\<lparr>en_codec := unary_codec\<rparr>"

lemma unary_reads_back: "reads_back (en_codec unary_env)"
  by (simp add: reads_back_def unary_env_def unary_codec_def)

lemma running_text: "\<not> blank ''RUNNING''"
  by (simp add: blank_def is_space_def)

theorem provisioning_never_stalls_witness:
  "\<exists>k. compose_initial_jira_provisioning unary_env demo_live = Inr k \<and>
     (let row = \<lambda>n. \<lparr>st_draft = tc_projection_intents k ! n, st_append_sequence = n, st_team_id = 69, st_run_id = 42, st_commit_id = 0,
              st_transaction_sequence = n, st_recorded_at = 0\<rparr>;
          db = \<lparr>db_intents = map row [0..<length (tc_projection_intents k)], db_receipts = [], db_mappings = []\<rparr>
      in \<exists>i. List.find (outstanding db) (db_intents db) = Some i \<and> dependencies_delivered (en_codec unary_env) db i = Inr True)"
proof -
  have h: "st_work_items (lt_scrum demo_live) \<noteq> []" "distinct (map wi_id (st_work_items (lt_scrum demo_live)))"
    "\<forall>w \<in> set (st_work_items (lt_scrum demo_live)). wi_id w < 2 ^ 128"
    "\<not> blank (rt_state (lt_runtime demo_live))" "0 \<le> rt_version (lt_runtime demo_live)"
    by (simp_all add: demo_live_sel demo_collections demo_coordinates demo_runtime running_text)
  obtain k where k: "compose_initial_jira_provisioning unary_env demo_live = Inr k"
    "\<And>db rows i. map st_draft rows = tc_projection_intents k \<Longrightarrow> set rows \<subseteq> set (db_intents db) \<Longrightarrow>
      List.find (outstanding db) rows = Some i \<Longrightarrow> dependencies_delivered (en_codec unary_env) db i = Inr True"
    using provisioning_never_stalls[OF unary_reads_back h] by blast
  define row where "row = (\<lambda>n. \<lparr>st_draft = tc_projection_intents k ! n, st_append_sequence = n, st_team_id = 69 :: uuid,
      st_run_id = 42 :: uuid, st_commit_id = 0 :: uuid, st_transaction_sequence = n, st_recorded_at = 0 :: instant\<rparr>)"
  define db where "db = \<lparr>db_intents = map row [0..<length (tc_projection_intents k)], db_receipts = [], db_mappings = []\<rparr>"
  have rows: "map st_draft (db_intents db) = tc_projection_intents k"
    by (simp add: db_def row_def comp_def map_nth)
  have "tc_projection_intents k \<noteq> []"
    using k(1) by (auto simp: compose_initial_jira_provisioning_def initial_provisioning_intents_def provisioning_intents_def
        provisioning_commit_def Let_def built_Inr elim!: bindR_InrE split: option.splits)
  then obtain i rest where i: "db_intents db = i # rest" using rows by (cases "db_intents db") auto
  have "outstanding db i" by (simp add: outstanding_def receipt_of_def db_def)
  then have f: "List.find (outstanding db) (db_intents db) = Some i" using i by simp
  moreover have "dependencies_delivered (en_codec unary_env) db i = Inr True" by (rule k(2)[OF rows _ f]) simp
  ultimately have "\<exists>i. List.find (outstanding db) (db_intents db) = Some i \<and> dependencies_delivered (en_codec unary_env) db i = Inr True"
    by blast
  then show ?thesis using k(1) unfolding Let_def db_def row_def by blast
qed

text \<open>The provisioning of the team before and after its tick: the second composition writes nothing.\<close>

definition later_live :: LiveTeamState where
  "later_live = demo_live\<lparr>lt_aggregate := (lt_aggregate demo_live)\<lparr>pa_runtime := (lt_runtime demo_live)\<lparr>rt_version := 4,
     rt_simulation_time := 640800000000\<rparr>\<rparr>, lt_scrum := done_state\<rparr>"

lemma persist_fresh:
  "\<forall>d \<in> set ds. check d = Inr () \<Longrightarrow> distinct (map dr_semantic_key ds) \<Longrightarrow> distinct (map dr_id ds) \<Longrightarrow>
   (\<forall>d \<in> set ds. by_key l (dr_semantic_key d) = None \<and> dr_id d \<notin> (\<lambda>row. dr_id (st_draft row)) ` set (lg_rows l)) \<Longrightarrow>
   \<exists>l' rows. persist_drafts check k (enumerate n ds) l = Inr (l', rows)"
proof (induction ds arbitrary: n l)
  case (Cons d ds)
  let ?l = "\<lparr>lg_rows = lg_rows l @ [new_row k n (lg_next l) d], lg_next = Suc (lg_next l)\<rparr>"
  have r: "resolve_draft check k (n, d) l = Inr (?l, new_row k n (lg_next l) d)"
    using Cons.prems by (simp add: resolve_draft_def new_row_def require_identical_def deduplication_content_def guardR_def Let_def)
  have "\<forall>e \<in> set ds. by_key ?l (dr_semantic_key e) = None \<and> dr_id e \<notin> (\<lambda>row. dr_id (st_draft row)) ` set (lg_rows ?l)"
    using Cons.prems by (auto simp: by_key_def find_None_iff new_row_def) (metis image_eqI)+
  then obtain l' rows where "persist_drafts check k (enumerate (Suc n) ds) ?l = Inr (l', rows)" using Cons by fastforce
  then show ?case using r by simp
qed simp

lemma unary_provisioned:
  "\<exists>k db' rows. compose_initial_jira_provisioning unary_env demo_live = Inr k \<and>
     append_projection_intents (en_codec unary_env) k demo_live_db = Inr (db', rows) \<and> length rows = 3"
proof -
  obtain x where x: "provisioning_context demo_live = Inr x" "pc_state x = demo_live"
    by (simp add: provisioning_context_def demo_live_sel demo_collections)
  have na: "first_active demo_live = None" by (simp add: first_active_def demo_live_sel demo_collections)
  have sx: "suffixes x = [''project'', ''board'', ''issue/'' @ uuid_text 59]"
    by (simp add: suffixes_def x(2) demo_live_sel demo_collections demo_coordinates)
  obtain ds where ds: "initial_provisioning_intents unary_env x = Inr ds" "in_order (en_codec unary_env) {} ds"
    "map dr_semantic_key ds = map (provisioning_key x) (suffixes x)"
    using initial_made[OF unary_reads_back, of x] na x(2) by auto
  have dist: "distinct (map dr_semantic_key ds)"
    unfolding ds(3) distinct_map by (simp add: sx inj_on_def provisioning_key_inj)
  obtain k where k: "provisioning_commit (en_codec unary_env) x ds = Inr k" "tc_projection_intents k = ds"
    using provisioning_commit_valid[OF ds(2) dist, of x] x(2) running_text by (auto simp: demo_runtime)
  have valid: "\<forall>d \<in> set ds. validate_projection (en_codec unary_env) d = Inr ()" using in_order_valid[OF ds(2)] by blast
  have "dr_id d = length (''projection/'' @ dr_semantic_key d)" if "d \<in> set ds" for d
    using validate_draft_coherent[of "en_codec unary_env" "''projection''"] valid that
    by (auto simp: draft_coherent_def semantic_uuid_def unary_env_def unary_codec_def)
  then have "map dr_id ds = map (\<lambda>key. length (''projection/'' @ key)) (map dr_semantic_key ds)" by simp
  then have ids: "distinct (map dr_id ds)" unfolding ds(3) by (simp add: sx provisioning_key_def Let_def)
  have empty: "ld_projection demo_live_db = \<lparr>lg_rows = [], lg_next = 1\<rparr>" by (simp add: demo_live_db_def)
  obtain lp rows where p: "persist (validate_projection (en_codec unary_env)) k ds (ld_projection demo_live_db) = Inr (lp, rows)"
    using persist_fresh[OF valid dist ids, of "ld_projection demo_live_db" k 0] by (auto simp: empty by_key_def)
  have "length ds = 3" using ds(3) sx by (metis length_map list.size(3) list.size(4) numeral_3_eq_3 add_Suc_right add_0_right)
  moreover have "ledger_ok (ld_projection demo_live_db)" by (simp add: empty ledger_ok_def)
  ultimately have "length rows = 3" using persist_effect[OF _ p] list_all2_lengthD by fastforce
  moreover have "validate_commit (en_codec unary_env) k = Inr ()" "tc_activity k = []" "tc_ground_truth k = []"
    using k(1) by (auto simp: provisioning_commit_def Let_def built_Inr elim!: bindR_InrE)
  ultimately show ?thesis using p x(1) ds(1) k
    by (auto simp: compose_initial_jira_provisioning_def append_projection_intents_def)
qed

theorem provisioning_replayed_witness:
  "\<exists>k db' rows k'. append_projection_intents (en_codec unary_env) k demo_live_db = Inr (db', rows) \<and> length rows = 3 \<and>
     compose_jira_provisioning unary_env later_live = Inr k' \<and>
     append_projection_intents (en_codec unary_env) k' db' = Inr (db', rows)"
proof -
  obtain k db' rows where k: "compose_initial_jira_provisioning unary_env demo_live = Inr k"
    "append_projection_intents (en_codec unary_env) k demo_live_db = Inr (db', rows)" "length rows = 3" using unary_provisioned by blast
  have l: "rt_state (lt_runtime later_live) = ''RUNNING''" "rt_version (lt_runtime later_live) = 4" "lt_scrum later_live = done_state"
    by (simp_all add: later_live_def) (simp add: demo_live_def)
  obtain x where x: "provisioning_context later_live = Inr x" "pc_state x = later_live"
    by (simp add: provisioning_context_def l done_state_sel)
  obtain ds where ds: "provisioning_intents (en_codec unary_env) x = Inr ds" "in_order (en_codec unary_env) {} ds"
    "map dr_semantic_key ds = map (provisioning_key x) (suffixes x)" using basics_made[OF unary_reads_back] by blast
  have "distinct (suffixes x)" by (simp add: suffixes_def x(2) l done_state_sel)
  then have "distinct (map dr_semantic_key ds)" unfolding ds(3) distinct_map by (simp add: inj_on_def provisioning_key_inj)
  then obtain k' where k': "provisioning_commit (en_codec unary_env) x ds = Inr k'"
    using provisioning_commit_valid[OF ds(2), of x] x(2) l running_text by auto
  then have c: "compose_jira_provisioning unary_env later_live = Inr k'" using x(1) ds(1) by (simp add: compose_jira_provisioning_def)
  have same: "provisioned_as demo_live later_live"
    unfolding provisioned_as_def l demo_live_sel done_state_sel demo_collections
    by (simp add: later_live_def done_sel demo_coordinates) (simp add: done_work_def demo_live_def)
  have ok: "ledger_ok (ld_projection demo_live_db)" by (simp add: demo_live_db_def ledger_ok_def)
  have "2 + length (st_work_items (lt_scrum demo_live)) = 3" by (simp add: demo_live_sel demo_collections)
  then have "append_projection_intents (en_codec unary_env) k' db' = Inr (db', rows)"
    using provisioning_replayed[OF k(1,2) ok same c] k(3) by simp
  then show ?thesis using k(2,3) c by blast
qed

section \<open>Creation\<close>

definition demo_creation :: CreateTeamCommand where
  "demo_creation = \<lparr>ct_idempotency_key = ''k'', ct_blueprint_json = ''{}'', ct_requested_at = 637200000000\<rparr>"

definition empty_db :: scrum_db where
  "empty_db = \<lparr>db_teams = [], db_blueprints = [], db_runs = [], db_rows = empty_state, db_live = demo_live_db\<lparr>ld_runtimes := []\<rparr>\<rparr>"

lemma empty_db_sel: "db_teams empty_db = []" "db_blueprints empty_db = []" "db_runs empty_db = []" "db_runtimes empty_db = []"
  by (simp_all add: empty_db_def)

lemma demo_document: "from_canonical_json demo_store ''{}'' = Inr sample_blueprint" "bp_canonical_document sample_blueprint = ''{}''"
  by (simp add: from_canonical_json_def store_sel demo_sel demo_decode demo_encode sample_blueprint_valid) (simp add: sample_blueprint_def)

lemma demo_new_aggregate: "\<exists>a. new_aggregate demo_codec ''k'' sample_blueprint 637200000000 = Inr a \<and> vt_id (pa_team a) = 69"
  by (simp add: new_aggregate_def demo_document demo_decode demo_sha semantic_uuid_def Let_def)

lemma demo_created:
  "\<exists>a db'. create_team demo_store id demo_creation empty_db = (db', Inr a) \<and> vt_id (pa_team a) = 69 \<and>
     new_aggregate demo_codec ''k'' sample_blueprint 637200000000 = Inr a"
proof -
  obtain a where a: "new_aggregate demo_codec ''k'' sample_blueprint 637200000000 = Inr a" "vt_id (pa_team a) = 69"
    using demo_new_aggregate by blast
  have "vt_idempotency_key (pa_team a) = ''k''" by (rule new_aggregate_Inr(2)[OF a(1)])
  moreover have "\<exists>db'. add_models a empty_db = Inr db'" by (simp add: add_models_def team_rows_clash_def empty_db_sel Let_def)
  ultimately have "\<exists>db'. create_team demo_store id demo_creation empty_db = (db', Inr a)"
    using a(1)
    by (auto simp: create_team_def demo_creation_def demo_document store_sel demo_sel repository_create_def empty_db_sel row_at_def Let_def)
  then show ?thesis using a by blast
qed

theorem created_team_reads_back_witness:
  "\<exists>a db'. create_team demo_store id demo_creation empty_db = (db', Inr a) \<and> vt_id (pa_team a) = 69 \<and>
     get_by_idempotency_key demo_store db' ''k'' = Inr (Some a) \<and> live_aggregate demo_store db' 69 = Inr a"
proof -
  obtain a db' where c: "create_team demo_store id demo_creation empty_db = (db', Inr a)" "vt_id (pa_team a) = 69"
    using demo_created by blast
  have n: "row_at tr_idempotency_key (db_teams empty_db) (ct_idempotency_key demo_creation) = None" by (simp add: empty_db_sel row_at_def)
  have s: "team_rows_sound empty_db" by (simp add: team_rows_sound_def empty_db_sel)
  have d: "from_canonical_json demo_store (ct_blueprint_json demo_creation) = Inr b \<Longrightarrow> bp_canonical_document b = ct_blueprint_json demo_creation" for b
    by (auto simp: demo_creation_def demo_document)
  have "get_by_idempotency_key demo_store db' ''k'' = Inr (Some a)" "live_aggregate demo_store db' 69 = Inr a"
    using created_team_reads_back[OF c(1) n s d] c(2) by (simp_all add: demo_creation_def)
  then show ?thesis using c by blast
qed

text \<open>Another session creates the same team while the call runs.\<close>

theorem taken_key_returns_stored_team_witness:
  "\<exists>a db'. create_team demo_store (\<lambda>_. db') demo_creation empty_db = (db', Inr a) \<and> db_teams db' \<noteq> []"
proof -
  obtain a db' where c: "create_team demo_store id demo_creation empty_db = (db', Inr a)"
    "new_aggregate demo_codec ''k'' sample_blueprint 637200000000 = Inr a" using demo_created by blast
  have k: "vt_idempotency_key (pa_team a) = ''k''" by (rule new_aggregate_Inr(2)[OF c(2)])
  have "add_models a empty_db = Inr db'"
    using c k by (auto simp: create_team_def demo_creation_def demo_document store_sel demo_sel repository_create_def empty_db_sel row_at_def
        get_by_idempotency_key_def optional_aggregate_def Let_def split: sum.splits if_splits)
  note r = added_team_reads_back(1)[OF this _ new_aggregate_Inr(4,5,6)[OF c(2)], of demo_store]
  have w: "get_by_idempotency_key demo_store ((\<lambda>_. db') empty_db) (ct_idempotency_key demo_creation) = Inr (Some a)"
    using r new_aggregate_Inr(1)[OF c(2)] by (simp add: team_rows_sound_def empty_db_sel demo_document k demo_creation_def)
  have "create_team demo_store (\<lambda>_. db') demo_creation empty_db = (db', Inr a)"
    using taken_key_returns_stored_team[of demo_store demo_creation sample_blueprint a "\<lambda>_. db'" empty_db a, OF _ _ w] c(2)
    by (simp add: demo_creation_def demo_document store_sel demo_sel empty_db_sel row_at_def)
  moreover have "db_teams db' \<noteq> []" using add_models_Inr(2)[OF \<open>add_models a empty_db = Inr db'\<close>] by simp
  ultimately show ?thesis by blast
qed

section \<open>The tick, the poll\<close>

lemma demo_live_loaded: "live_load demo_store (demo_db demo_state) 69 = Inr demo_live"
proof -
  have "live_aggregate demo_store (demo_db demo_state) 69 = Inr (lt_aggregate demo_live)"
    by (simp add: live_aggregate_def row_at_def demo_db_def demo_live_db_def stored_parts_def demo_document map_team_def map_run_def
        stored_runtime_def demo_live_def)
  then show ?thesis by (simp add: live_load_def demo_runtime demo_loaded) (simp add: demo_live_sel(1)[symmetric])
qed

lemma demo_sound: "sound_runtimes (demo_db rows)" "store_sound (demo_db demo_state)"
  by (simp_all add: sound_runtimes_def store_sound_def db_ok_def store_sel demo_rows_unique) (simp_all add: demo_live_db_def ledger_ok_def)

lemma demo_codec_of_risks: "re_scrum demo_risk_env = demo_env" by (rule demo_env_sel)

lemma demo_ticked:
  "\<exists>db' c. tick_alone demo_store demo_risk_env 69 640800000000 (demo_db demo_state) = (db', Inr c) \<and>
     advance_tick demo_store demo_risk_env id id demo_request (demo_db demo_state) = (db', Inr c) \<and>
     live_load demo_store db' 69 = Inr \<lparr>lt_aggregate = (lt_aggregate demo_live)\<lparr>pa_runtime := cs_runtime (ca_live c)\<rparr>, lt_scrum = done_state\<rparr> \<and>
     rt_version (cs_runtime (ca_live c)) = 4 \<and> rt_simulation_time (cs_runtime (ca_live c)) = 640800000000"
proof -
  obtain k where k: "finalize_tick demo_env demo_request tick_advance = Inr k" "au_claims k = []"
    "length (tc_activity (au_live k)) = 1" "length (tc_ground_truth (au_live k)) = 1" "length (tc_projection_intents (au_live k)) = 1"
    "ra_state (tc_runtime_after (au_live k)) = ''RUNNING''" "tc_recorded_at (au_live k) = 640800000000"
    using demo_finalized unfolding tick_advance_def by blast
  obtain db' c where c: "commit_authoritative_slice demo_store k (demo_db demo_state) = Inr (db', c)" "ca_state c = done_state"
    using demo_tick_committed[OF k] by blast
  have t: "tick_command demo_risk_env demo_live demo_request = Inr k"
    using k(1) by (simp add: tick_command_def demo_tick_finalizes tick_advance_def)
  note f = finalize_tick_parts[OF k(1)]
  have p: "tc_team_id (au_live k) = 69" "tc_run_id (au_live k) = 42" "tc_expected_runtime_version (au_live k) = 3"
    "ra_simulation_time (tc_runtime_after (au_live k)) = 640800000000"
    using f(1-4) demo_runtime by (simp_all add: tick_advance_def demo_result_sel)
  have ran: "advance_tick demo_store demo_risk_env id id demo_request (demo_db demo_state) = (db', Inr c)"
    using demo_live_loaded t c(1) by (simp add: advance_tick_def demo_request_def)
  obtain rt where r: "row_at rt_team_id (db_runtimes db') 69 = Some (cas_values (au_live k) rt)"
    "cs_runtime (ca_live c) = cas_values (au_live k) rt" "cas_matches (au_live k) rt"
    using commit_runtimes(2)[OF c(1) demo_sound(1)] p(1) by auto
  have v: "rt_version (cs_runtime (ca_live c)) = 4" "rt_simulation_time (cs_runtime (ca_live c)) = 640800000000"
    "rt_run_id (cs_runtime (ca_live c)) = 42"
    using r(2,3) p by (simp_all add: cas_values_def cas_matches_def)
  have m: "keeps_others 69 (demo_db demo_state) db'" using commit_runtimes(1)[OF c(1) demo_sound(1)] p(1) by simp
  have "live_aggregate demo_store db' 69 = Inr ((lt_aggregate demo_live)\<lparr>pa_runtime := cs_runtime (ca_live c)\<rparr>)"
    by (rule live_aggregate_runtime[OF live_load_Inr(1)[OF demo_live_loaded]])
      (use m r v(3) demo_runtime in \<open>simp_all add: keeps_others_def\<close>)
  moreover have "load_state demo_store db' 69 42 = Inr done_state"
    using authoritative_parts[OF c(1)] c(2) p(1,2) by metis
  ultimately have "live_load demo_store db' 69 = Inr \<lparr>lt_aggregate = (lt_aggregate demo_live)\<lparr>pa_runtime := cs_runtime (ca_live c)\<rparr>, lt_scrum = done_state\<rparr>"
    by (simp add: live_load_def v(3))
  then show ?thesis using ran v by (auto simp: tick_alone_def demo_request_def)
qed

theorem tick_builds_on_fresh_state_witness:
  "\<exists>db' c rt. advance_tick demo_store demo_risk_env id id demo_request (demo_db demo_state) = (db', Inr c) \<and>
     row_at rt_team_id (db_runtimes db') 69 = Some rt \<and> rt_version rt = 4"
proof -
  obtain db' c where c: "advance_tick demo_store demo_risk_env id id demo_request (demo_db demo_state) = (db', Inr c)" using demo_ticked by blast
  have t: "tq_team_id demo_request = 69" by (simp add: demo_request_def)
  obtain base st rt where "base \<in> {demo_db demo_state}" "live_load demo_store base 69 = Inr st"
    "row_at rt_team_id (db_runtimes db') 69 = Some rt" "rt_version rt = rt_version (lt_runtime st) + 1"
    using tick_builds_on_fresh_state[OF c _ _ demo_sound(1)] unfolding t by auto
  then show ?thesis using c demo_live_loaded demo_runtime by auto
qed

lemma demo_brought_up: "\<exists>db'. advance_team demo_store demo_risk_env 640800000000 69 (demo_db demo_state) = Some (db', Inr ())"
proof -
  obtain db' c where c: "tick_alone demo_store demo_risk_env 69 640800000000 (demo_db demo_state) = (db', Inr c)"
    "live_load demo_store db' 69 = Inr \<lparr>lt_aggregate = (lt_aggregate demo_live)\<lparr>pa_runtime := cs_runtime (ca_live c)\<rparr>, lt_scrum = done_state\<rparr>"
    "rt_version (cs_runtime (ca_live c)) = 4" "rt_simulation_time (cs_runtime (ca_live c)) = 640800000000" using demo_ticked by blast
  then show ?thesis
    by (subst advance_team.simps)
      (simp add: demo_live_loaded demo_runtime caught_up_def first_boundary_until_def open_boundaries_def done_state_sel map_filter_simps)
qed

theorem advanced_team_has_caught_up_witness:
  "\<exists>db' now. advance_team demo_store demo_risk_env 640800000000 69 (demo_db demo_state) = Some (db', Inr ()) \<and>
     live_load demo_store db' 69 = Inr now \<and> rt_simulation_time (lt_runtime now) = 640800000000"
  using demo_brought_up advanced_team_has_caught_up[OF _ demo_sound(1)] by blast

lemma demo_due: "due_team_ids w 640800000000 100 cursor =
    Inr (take 100 (sort (map rt_team_id (filter (\<lambda>rt. is_due 640800000000 rt \<and> beyond cursor (rt_team_id rt)) (db_runtimes w)))))"
  by (simp add: due_team_ids_def beyond_def)

lemma drained_once:
  assumes "page w None = Inr [t]" and "operation t w = Some (w', r)" and "page w' (Some t) = Inr []"
  shows "drain_pages page operation None empty_run w =
    Some (w', Inr (case r of Inr _ \<Rightarrow> \<lparr>sr_attempted = [t], sr_succeeded = [t], sr_failed = []\<rparr>
                         | Inl _ \<Rightarrow> \<lparr>sr_attempted = [t], sr_succeeded = [], sr_failed = [t]\<rparr>))"
  using assms by (subst drain_pages.simps)
    (subst drain_pages.simps, cases r, auto simp: run_teams_def extend_result_def empty_run_def)

lemma demo_polled:
  "\<exists>db'. run_due demo_store demo_risk_env 640800000000 (demo_db demo_state) =
     Some (db', Inr \<lparr>sr_attempted = [69], sr_succeeded = [69], sr_failed = []\<rparr>)"
proof -
  obtain db' where d: "advance_team demo_store demo_risk_env 640800000000 69 (demo_db demo_state) = Some (db', Inr ())"
    using demo_brought_up by blast
  have "keeps_others 69 (demo_db demo_state) db'" using advance_team_effect[OF d demo_sound(1)] by blast
  then have "map rt_team_id (db_runtimes db') = [69]" by (simp add: keeps_others_def store_sel) (simp add: stored_runtime_def)
  then obtain rt where "db_runtimes db' = [rt]" "rt_team_id rt = 69" by (auto simp: map_eq_Cons_conv)
  then have "due_team_ids db' 640800000000 100 (Some 69) = Inr []" by (simp add: demo_due beyond_def)
  moreover have "due_team_ids (demo_db demo_state) 640800000000 100 None = Inr [69]"
    by (simp add: demo_due beyond_def store_sel is_due_def) (simp add: stored_runtime_def)
  ultimately show ?thesis
    unfolding run_due_def
    using drained_once[of "\<lambda>w. due_team_ids w 640800000000 100" "demo_db demo_state" 69
        "advance_team demo_store demo_risk_env 640800000000" db' "Inr ()", OF _ d] by simp
qed

theorem run_due_reaches_every_team_witness:
  "\<exists>db' r. run_due demo_store demo_risk_env 640800000000 (demo_db demo_state) = Some (db', Inr r) \<and>
     sr_attempted r = [69] \<and> sorted_list_of_set (due_teams 640800000000 (demo_db demo_state)) = [69]"
proof -
  obtain db' where d: "run_due demo_store demo_risk_env 640800000000 (demo_db demo_state) =
     Some (db', Inr \<lparr>sr_attempted = [69], sr_succeeded = [69], sr_failed = []\<rparr>)" using demo_polled by blast
  show ?thesis using run_due_reaches_every_team[OF d demo_sound(1)] d by fastforce
qed

text \<open>A runtime whose team is gone fails on every poll; the poll returns all the same.\<close>

definition orphan_db :: scrum_db where
  "orphan_db = (demo_db demo_state)\<lparr>db_teams := []\<rparr>"

theorem run_due_returns_witness:
  "run_due demo_store demo_risk_env 640800000000 orphan_db \<noteq> None \<and> due_teams 640800000000 orphan_db = {69}"
proof -
  have s: "sound_runtimes orphan_db" "db_teams orphan_db = []" "db_runtimes orphan_db = [stored_runtime]"
    by (simp_all add: orphan_db_def sound_runtimes_def store_sel)
  have "advance_team demo_store demo_risk_env 640800000000 team w \<noteq> None" if "same_teams orphan_db w" for team w
  proof -
    have "live_load demo_store w team = Inl (Value_Error ''persisted live team does not exist'')"
      using that s(2) by (simp add: same_teams_def live_load_def live_aggregate_def row_at_def)
    then show ?thesis by (subst advance_team.simps) simp
  qed
  then have "run_due demo_store demo_risk_env 640800000000 orphan_db \<noteq> None" by (intro run_due_returns[OF s(1)])
  moreover have "is_due 640800000000 stored_runtime" "rt_team_id stored_runtime = 69" by (simp_all add: is_due_def stored_runtime_def)
  then have "due_teams 640800000000 orphan_db = {69}" by (auto simp: due_teams_def s(3))
  ultimately show ?thesis by blast
qed

section \<open>The restart\<close>

text \<open>A commit without rows and claims for the sample team, at any point of its life.\<close>

lemma quiet_committed:
  assumes "validate_authoritative demo_env k = Inr ()" and "au_state k = empty_state" "au_claims k = []" "au_natural k = []"
    and "tc_team_id (au_live k) = 69" "tc_run_id (au_live k) = 42" and "ld_runtimes l = [rt]" and "cas_matches (au_live k) rt"
    and "rt_id rt = 44" "rt_created_at rt = 0" "0 \<le> tc_recorded_at (au_live k)" "0 \<le> rt_version rt" "ra_state (tc_runtime_after (au_live k)) = ''RUNNING''"
    and "persist_ledgers demo_codec (au_live k) (cas_values (au_live k) rt) (l\<lparr>ld_runtimes := [cas_values (au_live k) rt]\<rparr>) = Inr (l', c)"
    and "validate_committed_collection (validate_activity demo_codec) (cs_activity c) (cas_values (au_live k) rt) = Inr ()"
    and "validate_committed_collection (validate_ground_truth demo_codec) (cs_ground_truth c) (cas_values (au_live k) rt) = Inr ()"
    and "cs_projection_intents c = []"
  shows "\<exists>s. commit_authoritative_slice demo_store k ((demo_db demo_state)\<lparr>db_live := l\<rparr>) = Inr ((demo_db demo_state)\<lparr>db_live := l'\<rparr>, s)"
proof -
  let ?rt = "cas_values (au_live k) rt"
  have m: "rt_team_id ?rt = 69" "rt_run_id ?rt = 42" using assms(5,6,8) by (simp_all add: cas_matches_def cas_values_def)
  have adv: "advance_runtime (au_live k) [rt] = Inr ([?rt], ?rt)"
    using assms(5,8) m by (simp add: advance_runtime_def get_runtime_def)
  have pre: "preflight_replay demo_store demo_state k = Inr False"
    by (simp add: preflight_replay_def assms(3) allocation_claims_def)
  have claims: "apply_counter_claims demo_store k {} demo_state = Inr ([demo_counter], [])"
    by (simp add: apply_counter_claims_def preflight_natural_claims_def assms(3,4) ordered_claims_def demo_collections)
  have on: "ordered_natural_claims [] = []" by (simp add: ordered_natural_claims_def)
  have rows: "demo_state\<lparr>st_counters := [demo_counter], st_evaluations := []\<rparr> = demo_state"
    "demo_state\<lparr>st_counters := [demo_counter]\<rparr> = demo_state"
    by (simp_all add: demo_state_def empty_state_def)
  have load: "load_state demo_store (d\<lparr>db_live := l, db_rows := demo_state\<rparr>) 69 42 = load_state demo_store (d\<lparr>db_rows := demo_state\<rparr>) 69 42" for d
    by (auto simp: load_state_def load_authority_def validate_run_def split: option.split)
  have db: "(demo_db demo_state)\<lparr>db_live := l, db_rows := demo_state\<rparr> = (demo_db demo_state)\<lparr>db_live := l\<rparr>"
    "(demo_db demo_state)\<lparr>db_rows := demo_state\<rparr> = demo_db demo_state" by (simp_all add: demo_db_def)
  have loaded: "load_state demo_store ((demo_db demo_state)\<lparr>db_live := l\<rparr>) 69 42 = Inr demo_state"
    using load[of "demo_db demo_state"] db demo_loaded by simp
  have c: "cs_runtime c = ?rt" using persist_ledgers_runtimes[OF assms(14)] by simp
  let ?s = "\<lparr>ca_live = c, ca_state = demo_state, ca_counters = [], ca_evaluations = []\<rparr>"
  have "validate_runtime demo_codec ?rt = Inr ()"
    using assms(9-13) m by (simp add: validate_runtime_def cas_values_def cas_matches_def require_text_def is_space_def semantic_uuid_def demo_sha)
      (use assms(8) in \<open>simp add: cas_matches_def\<close>)
  moreover have "validate_coordinates demo_state 69 42 = Inr ()"
    by (simp add: validate_coordinates_def state_teams_def state_runs_def demo_collections demo_coordinates)
  ultimately have "validate_committed demo_env ?s = Inr ()"
    using assms(15-17) c m
    by (simp add: validate_committed_def validate_committed_live_def demo_sel demo_snapshot validate_result_coordinates_def
        validate_snapshot_members_def validate_committed_collection_def)
  then have "commit_authoritative_in_session demo_store k ((demo_db demo_state)\<lparr>db_live := l\<rparr>) = Inr ((demo_db demo_state)\<lparr>db_live := l'\<rparr>, ?s)"
    using assms(2-7,14)
    by (simp add: commit_authoritative_in_session_def store_sel demo_sel adv pre claims on rows loaded demo_collections Let_def db)
  then show ?thesis using assms(1) by (auto simp: commit_authoritative_slice_def store_sel)
qed

text \<open>The command of a restart, for the sample team at a given runtime.\<close>

lemma quiet_command:
  assumes "rt_team_id (lt_runtime st) = 69" "rt_run_id (lt_runtime st) = 42" "0 \<le> rt_version (lt_runtime st)"
    and "check_runtime_advance after = Inr ()" "length activity \<le> 1" "length truth \<le> 1"
    and "\<forall>d \<in> set activity. validate_activity demo_codec d = Inr ()" "\<forall>d \<in> set truth. validate_ground_truth demo_codec d = Inr ()"
  shows "\<exists>k. downtime_command demo_env st after t activity truth = Inr k \<and> validate_authoritative demo_env k = Inr () \<and>
    au_state k = empty_state \<and> au_claims k = [] \<and> au_natural k = [] \<and> tc_team_id (au_live k) = 69 \<and> tc_run_id (au_live k) = 42 \<and>
    tc_expected_runtime_version (au_live k) = rt_version (lt_runtime st) \<and> tc_runtime_after (au_live k) = after \<and>
    tc_activity (au_live k) = activity \<and> tc_ground_truth (au_live k) = truth \<and> tc_projection_intents (au_live k) = [] \<and>
    tc_recorded_at (au_live k) = t"
proof -
  let ?live = "\<lparr>tc_commit_id = semantic_uuid demo_codec (''commit/'' @ downtime_key demo_env st (ra_simulation_time after)),
      tc_team_id = 69, tc_run_id = 42, tc_expected_runtime_version = rt_version (lt_runtime st), tc_runtime_after = after,
      tc_activity = activity, tc_ground_truth = truth, tc_projection_intents = [], tc_recorded_at = t\<rparr>"
  let ?k = "\<lparr>au_live = ?live, au_state = empty_state, au_claims = [], au_natural = []\<rparr>"
  have short: "validate_drafts check name ds [] = Inr ()" if "length ds \<le> 1" "\<forall>d \<in> set ds. check d = Inr ()"
    for check :: "'a draft \<Rightarrow> unit res" and name ds
    using that by (cases ds) auto
  have short': "validate_drafts check name ds [] = Inr ()" if "length ds \<le> 1" "\<forall>d \<in> set ds. check d = Inr ()"
    for check :: "'b draft \<Rightarrow> unit res" and name ds
    using that by (cases ds) auto
  have live: "validate_commit demo_codec ?live = Inr ()"
    using assms by (simp add: validate_commit_def non_negative_def short short')
  have w: "validate_state demo_env empty_state = Inr ()"
    using empty_write_set by (auto simp: write_set_def built_Inr elim!: bindR_InrE)
  have "validate_authoritative demo_env ?k = Inr ()"
    using live w by (simp add: validate_authoritative_def demo_sel)
      (simp add: validate_coordinates_def empty_state_def state_teams_def state_runs_def validate_claim_bindings_def unique_claims_def
        unique_natural_claims_def dict_of_def validate_natural_bindings_def validate_visible_natural_owners_def validate_allocation_ranges_def
        Let_def)
  then show ?thesis using live empty_write_set assms(1,2)
    by (intro exI[of _ ?k]) (simp add: downtime_command_def built_def demo_sel Let_def)
qed

lemma validated_draft: "create_draft c path check e details = Inr d \<Longrightarrow> validate_draft c path check d = Inr ()"
  by (auto simp: create_draft_def Let_def elim!: bindR_InrE)

lemma demo_gap_records:
  "\<exists>a g. downtime_records demo_env demo_live (downtime_evidence_key demo_env demo_live 637200000000 640800000000) 637200000000 640800000000 =
     Inr ([a], [g]) \<and> validate_activity demo_codec a = Inr () \<and> validate_ground_truth demo_codec g = Inr ()"
proof -
  let ?key = "downtime_evidence_key demo_env demo_live 637200000000 640800000000 @ ''/downtime''"
  have key: "\<not> blank ?key" by (simp add: downtime_evidence_key_def Let_def blank_def is_space_def)
  have details: "check_activity_details \<lparr>ad_event_type = ''DOWNTIME_SKIPPED'', ad_aggregate_type = ''RUNTIME'', ad_aggregate_id = n,
      ad_aggregate_version = 0\<rparr> = Inr ()"
    "check_ground_truth_details \<lparr>gt_record_type = ''DOWNTIME_SKIPPED'', gt_provenance_type = ''SIMULATOR_V2''\<rparr> = Inr ()" for n
    by (simp_all add: check_activity_details_def check_ground_truth_details_def non_empty_def non_negative_def blank_def is_space_def)
  obtain a g where d: "activity_draft demo_codec (make_envelope ?key 640800000000
        (JObj [(''starts_at'', JStr (en_instant_text demo_env 637200000000)), (''ends_at'', JStr (en_instant_text demo_env 640800000000))]))
      \<lparr>ad_event_type = ''DOWNTIME_SKIPPED'', ad_aggregate_type = ''RUNTIME'', ad_aggregate_id = rt_id (lt_runtime demo_live),
       ad_aggregate_version = 0\<rparr> = Inr a"
    "ground_truth_draft demo_codec (make_envelope ?key 640800000000
        (JObj [(''starts_at'', JStr (en_instant_text demo_env 637200000000)), (''ends_at'', JStr (en_instant_text demo_env 640800000000))]))
      \<lparr>gt_record_type = ''DOWNTIME_SKIPPED'', gt_provenance_type = ''SIMULATOR_V2''\<rparr> = Inr g"
    using demo_activity[OF key details(1)] demo_ground_truth[OF key details(2)] by blast
  have "validate_activity demo_codec a = Inr ()" "validate_ground_truth demo_codec g = Inr ()"
    using d by (auto simp: activity_draft_def ground_truth_draft_def built_Inr dest: validated_draft elim!: bindR_InrE)
  then show ?thesis using d by (simp add: downtime_records_def demo_sel Let_def)
qed

abbreviation quiet_store :: "live_db \<Rightarrow> scrum_db" where
  "quiet_store l \<equiv> (demo_db demo_state)\<lparr>db_live := l\<rparr>"

text \<open>The first commit writes the evidence and lets the clock stand; the second moves the clock and writes nothing.\<close>

lemma demo_gap_written:
  "\<exists>l rt. submit demo_store (downtime_evidence demo_env demo_live 637200000000 640800000000) (demo_db demo_state) = (quiet_store l, Inr ()) \<and>
     ld_runtimes l = [rt] \<and> rt = stored_runtime\<lparr>rt_version := 4, rt_updated_at := 640800000000\<rparr>"
proof -
  obtain a g where r: "downtime_records demo_env demo_live (downtime_evidence_key demo_env demo_live 637200000000 640800000000)
      637200000000 640800000000 = Inr ([a], [g])" "validate_activity demo_codec a = Inr ()" "validate_ground_truth demo_codec g = Inr ()"
    using demo_gap_records by blast
  define after where "after = \<lparr>ra_state = ''RUNNING'', ra_simulation_time = 637200000000 :: instant, ra_next_wake_at = Some (637200000000 :: instant)\<rparr>"
  have after: "check_runtime_advance after = Inr ()" by (simp add: after_def check_runtime_advance_def non_empty_def running_text)
  have clock: "rt_simulation_time (lt_runtime demo_live) = 637200000000" "rt_next_wake_at (lt_runtime demo_live) = Some 637200000000"
    by (simp_all add: demo_live_def)
  obtain k where k: "downtime_command demo_env demo_live after 640800000000 [a] [g] = Inr k" "validate_authoritative demo_env k = Inr ()"
    "au_state k = empty_state" "au_claims k = []" "au_natural k = []" "tc_team_id (au_live k) = 69" "tc_run_id (au_live k) = 42"
    "tc_expected_runtime_version (au_live k) = 3" "tc_runtime_after (au_live k) = after" "tc_activity (au_live k) = [a]"
    "tc_ground_truth (au_live k) = [g]" "tc_projection_intents (au_live k) = []" "tc_recorded_at (au_live k) = 640800000000"
    using quiet_command[of demo_live after "[a]" "[g]" 640800000000] r after demo_runtime by auto
  have e: "downtime_evidence demo_env demo_live 637200000000 640800000000 = Inr k"
    using r(1) k(1) after demo_runtime clock by (simp add: downtime_evidence_def built_def Let_def after_def)
  let ?rt = "cas_values (au_live k) stored_runtime"
  have m: "cas_matches (au_live k) stored_runtime" "rt_id stored_runtime = 44" "rt_created_at stored_runtime = 0" "0 \<le> rt_version stored_runtime"
    "ra_state (tc_runtime_after (au_live k)) = ''RUNNING''"
    using k(6-9) by (simp_all add: cas_matches_def stored_runtime_def after_def)
  obtain ra where a: "persist (validate_activity demo_codec) (au_live k) [a] \<lparr>lg_rows = [], lg_next = 1\<rparr> =
      Inr (\<lparr>lg_rows = [ra], lg_next = 2\<rparr>, [ra])" "validate_activity demo_codec (st_draft ra) = Inr ()" "st_append_sequence ra = 1"
    "Live_Slice.st_team_id ra = 69" "Live_Slice.st_run_id ra = 42"
    using persist_single[of "[a]" "validate_activity demo_codec" "au_live k"] r(2) k(6,7) by auto
  obtain rg where g: "persist (validate_ground_truth demo_codec) (au_live k) [g] \<lparr>lg_rows = [], lg_next = 1\<rparr> =
      Inr (\<lparr>lg_rows = [rg], lg_next = 2\<rparr>, [rg])" "validate_ground_truth demo_codec (st_draft rg) = Inr ()" "st_append_sequence rg = 1"
    "Live_Slice.st_team_id rg = 69" "Live_Slice.st_run_id rg = 42"
    using persist_single[of "[g]" "validate_ground_truth demo_codec" "au_live k"] r(3) k(6,7) by auto
  let ?l = "\<lparr>ld_runtimes = [?rt], ld_activity = \<lparr>lg_rows = [ra], lg_next = 2\<rparr>, ld_ground_truth = \<lparr>lg_rows = [rg], lg_next = 2\<rparr>,
     ld_projection = \<lparr>lg_rows = [], lg_next = 1\<rparr>\<rparr>"
  let ?c = "\<lparr>cs_runtime = ?rt, cs_activity = [ra], cs_ground_truth = [rg], cs_projection_intents = []\<rparr>"
  have p: "persist_ledgers demo_codec (au_live k) ?rt (demo_live_db\<lparr>ld_runtimes := [?rt]\<rparr>) = Inr (?l, ?c)"
    using a(1) g(1) k(10-12) by (simp add: persist_ledgers_def demo_live_db_def)
  have t: "rt_team_id ?rt = 69" "rt_run_id ?rt = 42" by (simp_all add: cas_values_def stored_runtime_def)
  have v: "validate_committed_collection (validate_activity demo_codec) (cs_activity ?c) ?rt = Inr ()"
    "validate_committed_collection (validate_ground_truth demo_codec) (cs_ground_truth ?c) ?rt = Inr ()"
    using a g t by (simp_all add: validate_committed_collection_def validate_ledger_metadata_def)
  have "0 \<le> tc_recorded_at (au_live k)" by (simp add: k(13))
  from quiet_committed[OF k(2-7) store_sel(5) m(1-3) this m(4,5) p v]
  obtain s where "commit_authoritative_slice demo_store k (quiet_store demo_live_db) = Inr (quiet_store ?l, s)" by auto
  moreover have "quiet_store demo_live_db = demo_db demo_state" by (simp add: demo_db_def)
  ultimately have "submit demo_store (downtime_evidence demo_env demo_live 637200000000 640800000000) (demo_db demo_state) = (quiet_store ?l, Inr ())"
    by (simp add: submit_def e)
  moreover have "?rt = stored_runtime\<lparr>rt_version := 4, rt_updated_at := 640800000000\<rparr>"
    using k(8,9,13) by (simp add: cas_values_def stored_runtime_def after_def)
  ultimately show ?thesis by (intro exI[of _ ?l]) simp
qed

lemma demo_skipped:
  assumes "ld_runtimes l = [rt]" and "rt = stored_runtime\<lparr>rt_version := 4, rt_updated_at := 640800000000\<rparr>"
    and "lt_runtime st = rt"
  shows "\<exists>l'. submit demo_store (silent_skip demo_env st 640800000000 640800000000) (quiet_store l) = (quiet_store l', Inr ())"
proof -
  define after where "after = \<lparr>ra_state = ''RUNNING'', ra_simulation_time = 640800000000 :: instant, ra_next_wake_at = Some (640800000000 :: instant)\<rparr>"
  have after: "check_runtime_advance after = Inr ()" by (simp add: after_def check_runtime_advance_def non_empty_def running_text)
  have rt: "rt_id rt = 44" "rt_team_id rt = 69" "rt_run_id rt = 42" "rt_version rt = 4" "rt_state rt = ''RUNNING''" "rt_created_at rt = 0"
    using assms(2) by (simp_all add: stored_runtime_def)
  obtain k where k: "downtime_command demo_env st after 640800000000 [] [] = Inr k" "validate_authoritative demo_env k = Inr ()"
    "au_state k = empty_state" "au_claims k = []" "au_natural k = []" "tc_team_id (au_live k) = 69" "tc_run_id (au_live k) = 42"
    "tc_expected_runtime_version (au_live k) = 4" "tc_runtime_after (au_live k) = after" "tc_activity (au_live k) = []"
    "tc_ground_truth (au_live k) = []" "tc_projection_intents (au_live k) = []" "tc_recorded_at (au_live k) = 640800000000"
    using quiet_command[of st after "[]" "[]" 640800000000] after rt assms(3) by auto
  have e: "silent_skip demo_env st 640800000000 640800000000 = Inr k"
    using k(1) after rt assms(3) by (simp add: silent_skip_def built_def after_def)
  have m: "cas_matches (au_live k) rt" "ra_state (tc_runtime_after (au_live k)) = ''RUNNING''"
    using k(6-9) rt by (simp_all add: cas_matches_def after_def)
  let ?rt = "cas_values (au_live k) rt"
  let ?l = "l\<lparr>ld_runtimes := [?rt]\<rparr>"
  let ?c = "\<lparr>cs_runtime = ?rt, cs_activity = [], cs_ground_truth = [], cs_projection_intents = []\<rparr>"
  have p: "persist_ledgers demo_codec (au_live k) ?rt ?l = Inr (?l, ?c)"
    by (simp add: persist_ledgers_def k(10-12))
  have v: "validate_committed_collection (validate_activity demo_codec) (cs_activity ?c) ?rt = Inr ()"
    "validate_committed_collection (validate_ground_truth demo_codec) (cs_ground_truth ?c) ?rt = Inr ()"
    by (simp_all add: validate_committed_collection_def)
  have n: "0 \<le> tc_recorded_at (au_live k)" "0 \<le> rt_version rt" by (simp_all add: k(13) rt)
  from quiet_committed[OF k(2-7) assms(1) m(1) rt(1,6) n m(2) p v]
  obtain s where "commit_authoritative_slice demo_store k (quiet_store l) = Inr (quiet_store ?l, s)" by auto
  then show ?thesis by (intro exI[of _ ?l]) (simp add: submit_def e)
qed

lemma demo_restarted: "\<exists>db'. resume_team demo_store 640800000000 69 (demo_db demo_state) = Some (db', Inr ())"
proof -
  obtain l rt where l: "submit demo_store (downtime_evidence demo_env demo_live 637200000000 640800000000) (demo_db demo_state) = (quiet_store l, Inr ())"
    "ld_runtimes l = [rt]" "rt = stored_runtime\<lparr>rt_version := 4, rt_updated_at := 640800000000\<rparr>" using demo_gap_written by (elim exE conjE) (rule that)
  let ?st = "\<lparr>lt_aggregate = (lt_aggregate demo_live)\<lparr>pa_runtime := rt\<rparr>, lt_scrum = demo_state\<rparr>"
  have rt: "rt_team_id rt = 69" "rt_run_id rt = 42" using l(3) by (simp_all add: stored_runtime_def)
  have agg: "live_aggregate demo_store (quiet_store l) 69 = Inr ((lt_aggregate demo_live)\<lparr>pa_runtime := rt\<rparr>)"
    by (rule live_aggregate_runtime[OF live_load_Inr(1)[OF demo_live_loaded]]) (use l(2) rt demo_runtime in \<open>simp_all add: row_at_def\<close>)
  have "load_state demo_store (quiet_store l) 69 42 = load_state demo_store (demo_db demo_state) 69 42"
    by (auto simp: load_state_def load_authority_def validate_run_def demo_db_def split: option.split)
  then have now: "live_load demo_store (quiet_store l) 69 = Inr ?st" using agg rt demo_loaded by (simp add: live_load_def)
  have "first_boundary_until ?st 640800000000 = None" by (simp add: first_boundary_until_def open_boundaries_def demo_collections)
  moreover obtain l' where "submit demo_store (silent_skip demo_env ?st 640800000000 640800000000) (quiet_store l) = (quiet_store l', Inr ())"
    using demo_skipped[OF l(2,3), of ?st] by auto
  ultimately have loop: "resume_loop demo_store 640800000000 69 (quiet_store l) = Some (quiet_store l', Inr ())"
    using now by (subst resume_loop.simps) (simp add: store_sel)
  have "rt_simulation_time (lt_runtime demo_live) = 637200000000" by (simp add: demo_live_def)
  then show ?thesis using l(1) loop by (simp add: resume_team_def reconcile_def demo_live_loaded store_sel Let_def)
qed

theorem restart_skips_downtime_witness:
  "\<exists>db' rt. resume_team demo_store 640800000000 69 (demo_db demo_state) = Some (db', Inr ()) \<and>
     row_at rt_team_id (db_runtimes db') 69 = Some rt \<and> rt_simulation_time rt = 640800000000 \<and>
     lg_rows (live_db.ld_ground_truth (db_live db')) \<noteq> []"
proof -
  obtain db' where d: "resume_team demo_store 640800000000 69 (demo_db demo_state) = Some (db', Inr ())" using demo_restarted by blast
  have "rt_simulation_time (lt_runtime demo_live) < 640800000000" by (simp add: demo_live_def)
  from restart_skips_downtime[OF d demo_sound(2) demo_live_loaded this] show ?thesis
    using d by (elim conjE exE bexE) (intro exI conjI, assumption+, metis empty_iff list.set(1))
qed

end
