(* ===== verification/Jira_Client.thy ===== *)
theory Jira_Client
  imports Team_Blueprint Deterministic_Rng
begin

text \<open>
  The Jira client (\<open>integrations/jira_client.py\<close>, \<open>integrations/exceptions.py\<close>): every method as the requests it sends
  and what it reads from the responses. The HTTP library is a parameter: a function that takes a request and the state
  of the outside world and gives a response, or a transport error, and the state afterwards. Headers, credentials and the
  base URL are the same for every request and left out.

  A call gives \<open>None\<close> when it runs for ever, which only the method that follows pages can do.
\<close>

section \<open>Reading JSON\<close>

text \<open>What Python does with a decoded document: \<open>d.get(k)\<close>, \<open>d[k]\<close>, truth, iteration, \<open>len\<close>, \<open>v[0]\<close> and \<open>str\<close>.\<close>

type_synonym json_dict = "(string \<times> json) list"

definition json_dict :: "json \<Rightarrow> json_dict res" where
  "json_dict j = (case j of JObj kvs \<Rightarrow> Inr kvs | _ \<Rightarrow> Inl Attribute_Error)"

definition json_get :: "json \<Rightarrow> string \<Rightarrow> json option res" where
  "json_get j k = bindR (json_dict j) (\<lambda>d. Inr (map_of d k))"

definition json_get_or :: "json \<Rightarrow> string \<Rightarrow> json \<Rightarrow> json res" where
  "json_get_or j k d = bindR (json_get j k) (\<lambda>v. Inr (case v of None \<Rightarrow> d | Some x \<Rightarrow> x))"

definition json_item :: "json \<Rightarrow> string \<Rightarrow> json res" where
  "json_item j k = (case j of JObj kvs \<Rightarrow> dict_get kvs k | _ \<Rightarrow> Inl (Type_Error ''not subscriptable by a key''))"

fun json_truth :: "json \<Rightarrow> bool" where
  "json_truth JNull = False"
| "json_truth (JBool b) = b"
| "json_truth (JInt i) = (i \<noteq> 0)"
| "json_truth (JNum q) = (q \<noteq> 0)"
| "json_truth (JStr s) = (s \<noteq> [])"
| "json_truth (JList js) = (js \<noteq> [])"
| "json_truth (JObj kvs) = (kvs \<noteq> [])"

fun json_iter :: "json \<Rightarrow> json list res" where
  "json_iter (JList js) = Inr js"
| "json_iter (JStr s) = Inr (map (\<lambda>ch. JStr [ch]) s)"
| "json_iter (JObj kvs) = Inr (map (\<lambda>p. JStr (fst p)) kvs)"
| "json_iter j = Inl (Type_Error ''object is not iterable'')"

definition json_len :: "json \<Rightarrow> int res" where
  "json_len j = bindR (json_iter j) (\<lambda>js. Inr (int (length js)))"

fun json_first :: "json \<Rightarrow> json res" where
  "json_first (JList (j # js)) = Inr j"
| "json_first (JList []) = Inl Index_Error"
| "json_first (JStr (ch # s)) = Inr (JStr [ch])"
| "json_first (JStr []) = Inl Index_Error"
| "json_first (JObj kvs) = Inl Key_Error"
| "json_first j = Inl (Type_Error ''object is not subscriptable'')"

text \<open>\<open>isinstance(v, int)\<close>; a Boolean is one.\<close>

fun json_int :: "json \<Rightarrow> int option" where
  "json_int (JInt i) = Some i"
| "json_int (JBool b) = Some (if b then 1 else 0)"
| "json_int j = None"

section \<open>Requests and errors\<close>

record http_request =
  rq_method :: string
  rq_path :: string
  rq_params :: "(string \<times> json) list"
  rq_body :: "json option"

text \<open>A response whose body is no JSON has no document.\<close>

record http_response =
  rp_status :: int
  rp_retry_after :: "string option"
  rp_url :: string
  rp_text :: string
  rp_document :: "json option"

datatype transport_error = Connect_Error string | Other_Transport string

type_synonym 'w http = "http_request \<Rightarrow> 'w \<Rightarrow> (transport_error + http_response) \<times> 'w"

text \<open>The parameters: the library, \<open>float\<close> of a text, \<open>isoformat\<close>, and \<open>str\<close> of a float, a list or a dictionary.\<close>

record 'w jira_env =
  je_http :: "'w http"
  je_float :: "string \<Rightarrow> py_float res"
  je_isoformat :: "instant \<Rightarrow> string"
  je_repr :: "json \<Rightarrow> string"

fun json_str :: "'w jira_env \<Rightarrow> json \<Rightarrow> string" where
  "json_str env JNull = ''None''"
| "json_str env (JBool b) = (if b then ''True'' else ''False'')"
| "json_str env (JInt i) = int_text i"
| "json_str env (JStr s) = s"
| "json_str env j = je_repr env j"

datatype jira_error =
    Jira_Auth_Error string
  | Jira_Not_Found_Error string
  | Jira_Rate_Limit_Error py_float
  | Jira_Connection_Error string
  | Transport_Error string   \<comment> \<open>an error of the library that the client does not translate\<close>
  | Delivery_Provider_Error string   \<comment> \<open>\<open>JiraDeliveryProviderError\<close>, raised by the adapter of the second engine\<close>
  | Raised py_exc

type_synonym ('w, 'a) jira = "'w \<Rightarrow> ((jira_error + 'a) \<times> 'w) option"

definition pureJ :: "'a \<Rightarrow> ('w, 'a) jira" where
  "pureJ x w = Some (Inr x, w)"

definition raiseJ :: "jira_error \<Rightarrow> ('w, 'a) jira" where
  "raiseJ e w = Some (Inl e, w)"

definition bindJ :: "('w, 'a) jira \<Rightarrow> ('a \<Rightarrow> ('w, 'b) jira) \<Rightarrow> ('w, 'b) jira" where
  "bindJ m f w = (case m w of None \<Rightarrow> None | Some (Inl e, w') \<Rightarrow> Some (Inl e, w') | Some (Inr x, w') \<Rightarrow> f x w')"

definition liftJ :: "'a res \<Rightarrow> ('w, 'a) jira" where
  "liftJ r = (case r of Inl e \<Rightarrow> raiseJ (Raised e) | Inr x \<Rightarrow> pureJ x)"

definition catchJ :: "('w, 'a) jira \<Rightarrow> (jira_error \<Rightarrow> ('w, 'a) jira) \<Rightarrow> ('w, 'a) jira" where
  "catchJ m f w = (case m w of None \<Rightarrow> None | Some (Inl e, w') \<Rightarrow> f e w' | Some (Inr x, w') \<Rightarrow> Some (Inr x, w'))"

section \<open>One request\<close>

definition JIRA_PAGE_SIZE :: int where "JIRA_PAGE_SIZE = 50"

definition check_status :: "'w jira_env \<Rightarrow> http_response \<Rightarrow> jira_error + unit" where
  "check_status env rp =
     (let code = rp_status rp in
      if code \<in> {401, 403} then Inl (Jira_Auth_Error (''Auth failed: '' @ int_text code))
      else if code = 404 then Inl (Jira_Not_Found_Error (''Not found: '' @ rp_url rp))
      else if code = 429 then
        (case je_float env (case rp_retry_after rp of None \<Rightarrow> ''60'' | Some t \<Rightarrow> t) of
           Inl e \<Rightarrow> Inl (Raised e)
         | Inr seconds \<Rightarrow> Inl (Jira_Rate_Limit_Error seconds))
      else if 400 \<le> code then Inl (Jira_Connection_Error (''HTTP '' @ int_text code @ '': '' @ take 200 (rp_text rp)))
      else Inr ())"

lemma check_status_ok: "check_status env rp = Inr u \<longleftrightarrow> rp_status rp < 400"
  by (auto simp: check_status_def Let_def split: sum.split)

definition jira_request :: "'w jira_env \<Rightarrow> http_request \<Rightarrow> ('w, http_response) jira" where
  "jira_request env rq w =
     (case je_http env rq w of
        (Inl (Connect_Error text), w') \<Rightarrow> Some (Inl (Jira_Connection_Error text), w')
      | (Inl (Other_Transport text), w') \<Rightarrow> Some (Inl (Transport_Error text), w')
      | (Inr rp, w') \<Rightarrow> (case check_status env rp of Inl e \<Rightarrow> Some (Inl e, w') | Inr _ \<Rightarrow> Some (Inr rp, w')))"

text \<open>\<open>response.json()\<close>.\<close>

definition response_json :: "http_response \<Rightarrow> json res" where
  "response_json rp = (case rp_document rp of None \<Rightarrow> Inl (Value_Error ''invalid JSON'') | Some j \<Rightarrow> Inr j)"

definition request_json :: "'w jira_env \<Rightarrow> http_request \<Rightarrow> ('w, json) jira" where
  "request_json env rq = bindJ (jira_request env rq) (\<lambda>rp. liftJ (response_json rp))"

definition request_unit :: "'w jira_env \<Rightarrow> http_request \<Rightarrow> ('w, unit) jira" where
  "request_unit env rq = bindJ (jira_request env rq) (\<lambda>_. pureJ ())"

abbreviation get_rq :: "string \<Rightarrow> (string \<times> json) list \<Rightarrow> http_request" where
  "get_rq path params \<equiv> \<lparr>rq_method = ''GET'', rq_path = path, rq_params = params, rq_body = None\<rparr>"

abbreviation send_rq :: "string \<Rightarrow> string \<Rightarrow> json \<Rightarrow> http_request" where
  "send_rq verb path body \<equiv> \<lparr>rq_method = verb, rq_path = path, rq_params = [], rq_body = Some body\<rparr>"

text \<open>\<open>response.json().get(key, [])\<close>.\<close>

definition get_collection :: "'w jira_env \<Rightarrow> http_request \<Rightarrow> string \<Rightarrow> ('w, json) jira" where
  "get_collection env rq key = bindJ (request_json env rq) (\<lambda>j. liftJ (json_get_or j key (JList [])))"

text \<open>\<open>values[0] if values else None\<close>.\<close>

definition first_of :: "json \<Rightarrow> json option res" where
  "first_of v = (if json_truth v then bindR (json_first v) (\<lambda>j. Inr (Some j)) else Inr None)"

section \<open>Health, projects, boards\<close>

definition ping :: "'w jira_env \<Rightarrow> ('w, bool) jira" where
  "ping env = catchJ (bindJ (jira_request env (get_rq ''/rest/api/3/myself'' [])) (\<lambda>_. pureJ True))
     (\<lambda>e. case e of Jira_Connection_Error _ \<Rightarrow> pureJ False | Jira_Auth_Error _ \<Rightarrow> pureJ False | _ \<Rightarrow> raiseJ e)"

definition get_project :: "'w jira_env \<Rightarrow> string \<Rightarrow> ('w, json option) jira" where
  "get_project env project_key =
     catchJ (bindJ (request_json env (get_rq (''/rest/api/3/project/'' @ project_key) [])) (\<lambda>j. pureJ (Some j)))
       (\<lambda>e. case e of Jira_Not_Found_Error _ \<Rightarrow> pureJ None | _ \<Rightarrow> raiseJ e)"

definition get_myself :: "'w jira_env \<Rightarrow> ('w, json) jira" where
  "get_myself env = request_json env (get_rq ''/rest/api/3/myself'' [])"

definition template_key :: "string \<Rightarrow> string" where
  "template_key board_type =
     (if board_type = ''scrum'' then ''com.pyxis.greenhopper.jira:gh-simplified-scrum-classic''
      else ''com.pyxis.greenhopper.jira:gh-simplified-kanban-classic'')"

definition create_project :: "'w jira_env \<Rightarrow> string \<Rightarrow> string \<Rightarrow> string \<Rightarrow> ('w, json) jira" where
  "create_project env key name board_type =
     bindJ (get_myself env) (\<lambda>myself.
     bindJ (liftJ (json_item myself ''accountId'')) (\<lambda>account.
       request_json env (send_rq ''POST'' ''/rest/api/3/project''
         (JObj [(''key'', JStr key), (''name'', JStr name), (''projectTypeKey'', JStr ''software''),
                (''projectTemplateKey'', JStr (template_key board_type)), (''leadAccountId'', account)]))))"

definition get_board :: "'w jira_env \<Rightarrow> string \<Rightarrow> ('w, json option) jira" where
  "get_board env project_key =
     bindJ (get_collection env (get_rq ''/rest/agile/1.0/board'' [(''projectKeyOrId'', JStr project_key)]) ''values'')
       (\<lambda>boards. liftJ (first_of boards))"

definition get_active_sprint :: "'w jira_env \<Rightarrow> int \<Rightarrow> ('w, json option) jira" where
  "get_active_sprint env board_id =
     bindJ (get_collection env (get_rq (''/rest/agile/1.0/board/'' @ int_text board_id @ ''/sprint'') [(''state'', JStr ''active'')])
              ''values'')
       (\<lambda>sprints. liftJ (first_of sprints))"

section \<open>Sprints\<close>

text \<open>An identifier in a path is written as its text, whatever its type.\<close>

definition sprint_path :: "string \<Rightarrow> string" where
  "sprint_path sprint_id = ''/rest/agile/1.0/sprint/'' @ sprint_id"

definition create_sprint :: "'w jira_env \<Rightarrow> json \<Rightarrow> json \<Rightarrow> instant \<Rightarrow> instant \<Rightarrow> ('w, json) jira" where
  "create_sprint env board_id name start_date end_date =
     request_json env (send_rq ''POST'' ''/rest/agile/1.0/sprint''
       (JObj [(''name'', name), (''originBoardId'', board_id), (''startDate'', JStr (je_isoformat env start_date)),
              (''endDate'', JStr (je_isoformat env end_date))]))"

definition start_sprint :: "'w jira_env \<Rightarrow> string \<Rightarrow> ('w, json) jira" where
  "start_sprint env sprint_id = request_json env (send_rq ''POST'' (sprint_path sprint_id) (JObj [(''state'', JStr ''active'')]))"

definition complete_sprint :: "'w jira_env \<Rightarrow> string \<Rightarrow> ('w, json) jira" where
  "complete_sprint env sprint_id = request_json env (send_rq ''POST'' (sprint_path sprint_id) (JObj [(''state'', JStr ''closed'')]))"

definition add_issues_to_sprint :: "'w jira_env \<Rightarrow> string \<Rightarrow> json \<Rightarrow> ('w, unit) jira" where
  "add_issues_to_sprint env sprint_id issue_keys =
     request_unit env (send_rq ''POST'' (sprint_path sprint_id @ ''/issue'') (JObj [(''issues'', issue_keys)]))"

definition add_to_sprint :: "'w jira_env \<Rightarrow> string \<Rightarrow> string \<Rightarrow> ('w, unit) jira" where
  "add_to_sprint env issue_key sprint_id = add_issues_to_sprint env sprint_id (JList [JStr issue_key])"

definition get_sprint :: "'w jira_env \<Rightarrow> string \<Rightarrow> ('w, json) jira" where
  "get_sprint env sprint_id = request_json env (get_rq (sprint_path sprint_id) [])"

definition get_sprint_issues :: "'w jira_env \<Rightarrow> string \<Rightarrow> int \<Rightarrow> ('w, json) jira" where
  "get_sprint_issues env sprint_id max_results =
     get_collection env (get_rq (sprint_path sprint_id @ ''/issue'') [(''maxResults'', JInt max_results)]) ''issues''"

definition move_issues_to_backlog :: "'w jira_env \<Rightarrow> json \<Rightarrow> ('w, unit) jira" where
  "move_issues_to_backlog env issue_keys =
     request_unit env (send_rq ''POST'' ''/rest/agile/1.0/backlog/issue'' (JObj [(''issues'', issue_keys)]))"

definition delete_sprint :: "'w jira_env \<Rightarrow> string \<Rightarrow> ('w, unit) jira" where
  "delete_sprint env sprint_id =
     request_unit env \<lparr>rq_method = ''DELETE'', rq_path = sprint_path sprint_id, rq_params = [], rq_body = None\<rparr>"

text \<open>The fields that are given, under the names of the interface.\<close>

definition renamed_fields :: "json_dict \<Rightarrow> json_dict" where
  "renamed_fields given =
     List.map_filter (\<lambda>(key, name). map_option (\<lambda>v. (name, v)) (map_of given key))
       [(''name'', ''name''), (''start_date'', ''startDate''), (''end_date'', ''endDate''), (''goal'', ''goal'')]"

definition update_sprint_details :: "'w jira_env \<Rightarrow> string \<Rightarrow> json_dict \<Rightarrow> ('w, json) jira" where
  "update_sprint_details env sprint_id given =
     request_json env (send_rq ''PUT'' (sprint_path sprint_id) (JObj (renamed_fields given)))"

section \<open>The pages of a board's sprints\<close>

definition next_page_start :: "json_dict \<Rightarrow> int \<Rightarrow> bool \<Rightarrow> int option" where
  "next_page_start document current_start has_values =
     (if map_of document ''isLast'' = Some (JBool True) \<or> \<not> has_values then None
      else if \<forall>key \<in> {''isLast'', ''startAt'', ''maxResults'', ''total''}. map_of document key = None then None
      else
        (case (case map_of document ''startAt'' of None \<Rightarrow> Some current_start | Some v \<Rightarrow> json_int v,
               case map_of document ''maxResults'' of None \<Rightarrow> Some JIRA_PAGE_SIZE | Some v \<Rightarrow> json_int v) of
           (Some page_start, Some page_size) \<Rightarrow>
             let next_start = page_start + page_size;
                 reached_total = (case Option.bind (map_of document ''total'') json_int of None \<Rightarrow> False | Some n \<Rightarrow> n \<le> next_start)
             in if next_start \<le> current_start \<or> reached_total then None else Some next_start
         | _ \<Rightarrow> None))"

definition sprint_page_request :: "int \<Rightarrow> string option \<Rightarrow> int \<Rightarrow> http_request" where
  "sprint_page_request board_id state start_at =
     get_rq (''/rest/agile/1.0/board/'' @ int_text board_id @ ''/sprint'')
       ([(''startAt'', JInt start_at), (''maxResults'', JInt JIRA_PAGE_SIZE)] @
        (case state of None \<Rightarrow> [] | Some s \<Rightarrow> if s = [] then [] else [(''state'', JStr s)]))"

text \<open>The sprints of one page, and where the next one starts.\<close>

definition sprint_page :: "int \<Rightarrow> json \<Rightarrow> (json list \<times> int option) res" where
  "sprint_page start_at j =
     bindR (json_get_or j ''values'' (JList [])) (\<lambda>values.
     bindR (json_iter values) (\<lambda>sprints.
     bindR (json_dict j) (\<lambda>document. Inr (sprints, next_page_start document start_at (json_truth values)))))"

partial_function (option) board_sprint_pages ::
  "'w jira_env \<Rightarrow> int \<Rightarrow> string option \<Rightarrow> int \<Rightarrow> json list \<Rightarrow> 'w \<Rightarrow> ((jira_error + json list) \<times> 'w) option" where
  "board_sprint_pages env board_id state start_at sprints w =
     Option.bind (bindJ (request_json env (sprint_page_request board_id state start_at)) (\<lambda>j. liftJ (sprint_page start_at j)) w)
       (\<lambda>(r, w').
          case r of
            Inl e \<Rightarrow> Some (Inl e, w')
          | Inr (values, next_start) \<Rightarrow>
              (case next_start of
                 None \<Rightarrow> Some (Inr (sprints @ values), w')
               | Some n \<Rightarrow> board_sprint_pages env board_id state n (sprints @ values) w'))"

definition get_board_sprints :: "'w jira_env \<Rightarrow> int \<Rightarrow> string option \<Rightarrow> ('w, json list) jira" where
  "get_board_sprints env board_id state = board_sprint_pages env board_id state 0 []"

section \<open>Issues, links and search\<close>

definition issue_path :: "string \<Rightarrow> string" where
  "issue_path issue_key = ''/rest/api/3/issue/'' @ issue_key"

definition get_issue_transitions :: "'w jira_env \<Rightarrow> string \<Rightarrow> ('w, json) jira" where
  "get_issue_transitions env issue_key = get_collection env (get_rq (issue_path issue_key @ ''/transitions'') []) ''transitions''"

definition transition_issue :: "'w jira_env \<Rightarrow> string \<Rightarrow> json \<Rightarrow> ('w, unit) jira" where
  "transition_issue env issue_key transition_id =
     request_unit env (send_rq ''POST'' (issue_path issue_key @ ''/transitions'')
       (JObj [(''transition'', JObj [(''id'', transition_id)])]))"

text \<open>\<open>{..., **fields}\<close>: a field replaces an entry of the same name.\<close>

definition issue_document :: "json \<Rightarrow> json \<Rightarrow> json \<Rightarrow> json_dict \<Rightarrow> json" where
  "issue_document project_key issue_type summary given =
     JObj [(''fields'', JObj (foldl (\<lambda>d (k, v). dict_set k v d)
       [(''project'', JObj [(''key'', project_key)]), (''issuetype'', JObj [(''name'', issue_type)]), (''summary'', summary)] given))]"

definition create_issue :: "'w jira_env \<Rightarrow> json \<Rightarrow> json \<Rightarrow> json \<Rightarrow> json \<Rightarrow> ('w, json) jira" where
  "create_issue env project_key issue_type summary given =
     (case given of
        JObj kvs \<Rightarrow> request_json env (send_rq ''POST'' ''/rest/api/3/issue'' (issue_document project_key issue_type summary kvs))
      | _ \<Rightarrow> raiseJ (Raised (Type_Error ''object is not a mapping'')))"

definition set_estimation :: "'w jira_env \<Rightarrow> string \<Rightarrow> int \<Rightarrow> py_float \<Rightarrow> ('w, unit) jira" where
  "set_estimation env issue_key board_id value =
     request_unit env \<lparr>rq_method = ''PUT'', rq_path = ''/rest/agile/1.0/issue/'' @ issue_key @ ''/estimation'',
       rq_params = [(''boardId'', JInt board_id)], rq_body = Some (JObj [(''value'', JNum value)])\<rparr>"

definition update_issue :: "'w jira_env \<Rightarrow> string \<Rightarrow> json \<Rightarrow> ('w, unit) jira" where
  "update_issue env issue_key given = request_unit env (send_rq ''PUT'' (issue_path issue_key) (JObj [(''fields'', given)]))"

definition get_issue :: "'w jira_env \<Rightarrow> string \<Rightarrow> ('w, json) jira" where
  "get_issue env issue_key = request_json env (get_rq (issue_path issue_key) [])"

definition add_comment :: "'w jira_env \<Rightarrow> string \<Rightarrow> json \<Rightarrow> ('w, json) jira" where
  "add_comment env issue_key body =
     request_json env (send_rq ''POST'' (issue_path issue_key @ ''/comment'')
       (JObj [(''body'', JObj [(''type'', JStr ''doc''), (''version'', JInt 1),
          (''content'', JList [JObj [(''type'', JStr ''paragraph''),
             (''content'', JList [JObj [(''type'', JStr ''text''), (''text'', body)]])]])])]))"

definition create_issue_link :: "'w jira_env \<Rightarrow> json \<Rightarrow> json \<Rightarrow> json \<Rightarrow> ('w, unit) jira" where
  "create_issue_link env link_type inward_key outward_key =
     request_unit env (send_rq ''POST'' ''/rest/api/3/issueLink''
       (JObj [(''type'', JObj [(''name'', link_type)]), (''inwardIssue'', JObj [(''key'', inward_key)]),
              (''outwardIssue'', JObj [(''key'', outward_key)])]))"

definition get_issue_link_types :: "'w jira_env \<Rightarrow> ('w, json) jira" where
  "get_issue_link_types env = get_collection env (get_rq ''/rest/api/3/issueLinkType'' []) ''issueLinkTypes''"

fun joined :: "string list \<Rightarrow> string" where
  "joined [] = []"
| "joined [s] = s"
| "joined (s # ss) = s @ '','' @ joined ss"

definition search_issues :: "'w jira_env \<Rightarrow> string \<Rightarrow> string list \<Rightarrow> int \<Rightarrow> ('w, json) jira" where
  "search_issues env jql names max_results =
     get_collection env (get_rq ''/rest/api/3/search/jql''
       ([(''jql'', JStr jql), (''maxResults'', JInt max_results)] @ (if names = [] then [] else [(''fields'', JStr (joined names))])))
       ''issues''"

definition delete_issue :: "'w jira_env \<Rightarrow> string \<Rightarrow> ('w, unit) jira" where
  "delete_issue env issue_key =
     request_unit env \<lparr>rq_method = ''DELETE'', rq_path = issue_path issue_key, rq_params = [], rq_body = None\<rparr>"

section \<open>Custom fields, screens and statuses\<close>

definition get_custom_fields :: "'w jira_env \<Rightarrow> ('w, json) jira" where
  "get_custom_fields env = request_json env (get_rq ''/rest/api/3/field'' [])"

definition create_custom_field :: "'w jira_env \<Rightarrow> string \<Rightarrow> string \<Rightarrow> ('w, json) jira" where
  "create_custom_field env name field_type =
     request_json env (send_rq ''POST'' ''/rest/api/3/field''
       (JObj [(''name'', JStr name), (''type'', JStr field_type), (''searcherKey'', JStr [])]))"

fun field_named :: "string \<Rightarrow> json list \<Rightarrow> json option res" where
  "field_named name [] = Inr None"
| "field_named name (j # js) =
     bindR (json_get j ''name'') (\<lambda>v.
       if v = Some (JStr name) then bindR (json_item j ''id'') (\<lambda>i. Inr (Some i)) else field_named name js)"

definition get_field_id_by_name :: "'w jira_env \<Rightarrow> string \<Rightarrow> ('w, json option) jira" where
  "get_field_id_by_name env name =
     bindJ (get_custom_fields env) (\<lambda>j. liftJ (bindR (json_iter j) (field_named name)))"

definition get_screens :: "'w jira_env \<Rightarrow> ('w, json) jira" where
  "get_screens env = get_collection env (get_rq ''/rest/api/3/screens'' [(''maxResults'', JInt 100)]) ''values''"

definition screen_tabs_path :: "string \<Rightarrow> string" where
  "screen_tabs_path screen_id = ''/rest/api/3/screens/'' @ screen_id @ ''/tabs''"

definition add_field_to_screen :: "'w jira_env \<Rightarrow> string \<Rightarrow> string \<Rightarrow> string \<Rightarrow> ('w, bool) jira" where
  "add_field_to_screen env screen_id tab_id field_id =
     catchJ (bindJ (jira_request env (send_rq ''POST'' (screen_tabs_path screen_id @ ''/'' @ tab_id @ ''/fields'')
                                        (JObj [(''fieldId'', JStr field_id)]))) (\<lambda>_. pureJ True))
       (\<lambda>e. case e of Jira_Connection_Error _ \<Rightarrow> pureJ False | _ \<Rightarrow> raiseJ e)"

definition get_screen_tabs :: "'w jira_env \<Rightarrow> string \<Rightarrow> ('w, json list) jira" where
  "get_screen_tabs env screen_id =
     bindJ (request_json env (get_rq (screen_tabs_path screen_id) [])) (\<lambda>j.
       pureJ (case j of JList js \<Rightarrow> js | _ \<Rightarrow> []))"

fun add_to_screens :: "'w jira_env \<Rightarrow> string \<Rightarrow> json list \<Rightarrow> int \<Rightarrow> ('w, int) jira" where
  "add_to_screens env field_id [] added = pureJ added"
| "add_to_screens env field_id (screen # screens) added =
     bindJ (liftJ (json_item screen ''id'')) (\<lambda>screen_id.
     bindJ (get_screen_tabs env (json_str env screen_id)) (\<lambda>tabs.
       case tabs of
         [] \<Rightarrow> add_to_screens env field_id screens added
       | tab # _ \<Rightarrow>
           bindJ (liftJ (json_item tab ''id'')) (\<lambda>tab_id.
           bindJ (add_field_to_screen env (json_str env screen_id) (json_str env tab_id) field_id) (\<lambda>ok.
             add_to_screens env field_id screens (if ok then added + 1 else added)))))"

definition add_field_to_all_screens :: "'w jira_env \<Rightarrow> string \<Rightarrow> ('w, int) jira" where
  "add_field_to_all_screens env field_id =
     bindJ (get_screens env) (\<lambda>j. bindJ (liftJ (json_iter j)) (\<lambda>screens. add_to_screens env field_id screens 0))"

definition get_project_statuses :: "'w jira_env \<Rightarrow> string \<Rightarrow> ('w, json list) jira" where
  "get_project_statuses env project_key =
     bindJ (request_json env (get_rq (''/rest/api/3/project/'' @ project_key @ ''/statuses'') [])) (\<lambda>data.
       liftJ (bindR (json_iter data) (\<lambda>groups.
         bindR (mapR (\<lambda>g. bindR (json_get_or g ''statuses'' (JList [])) json_iter) groups) (\<lambda>statuses. Inr (concat statuses)))))"

section \<open>Every page\<close>

text \<open>
  A document that is the page of \<open>xs\<close> from \<open>start\<close> on: the server chooses the size of the page and states it; it may state
  whether the page is the last one, and how many sprints there are.
\<close>

definition page_of :: "json list \<Rightarrow> int \<Rightarrow> json_dict \<Rightarrow> bool" where
  "page_of xs start document \<longleftrightarrow>
     (\<exists>size > 0. map_of document ''values'' = Some (JList (take size (drop (nat start) xs))) \<and>
        map_of document ''startAt'' = Some (JInt start) \<and> map_of document ''maxResults'' = Some (JInt (int size)) \<and>
        map_of document ''isLast'' \<in> {None, Some (JBool (int (length xs) \<le> start + int size))} \<and>
        map_of document ''total'' \<in> {None, Some (JInt (int (length xs)))})"

definition serves_sprints :: "'w jira_env \<Rightarrow> int \<Rightarrow> string option \<Rightarrow> json list \<Rightarrow> 'w \<Rightarrow> bool" where
  "serves_sprints env board_id state xs w \<longleftrightarrow>
     (\<forall>start \<ge> 0. \<exists>rp document. je_http env (sprint_page_request board_id state start) w = (Inr rp, w) \<and> rp_status rp = 200 \<and>
        rp_document rp = Some (JObj document) \<and> page_of xs start document)"

lemma page_read:
  assumes "page_of xs start document" and "0 \<le> start"
  obtains size where "0 < size"
    "sprint_page start (JObj document) = Inr (take size (drop (nat start) xs),
       if drop (nat start) xs = [] \<or>
          int (length xs) \<le> start + int size \<and> (map_of document ''isLast'' \<noteq> None \<or> map_of document ''total'' \<noteq> None)
       then None else Some (start + int size))"
proof -
  obtain size where size: "0 < size" "map_of document ''values'' = Some (JList (take size (drop (nat start) xs)))"
    "map_of document ''startAt'' = Some (JInt start)" "map_of document ''maxResults'' = Some (JInt (int size))"
    "map_of document ''isLast'' \<in> {None, Some (JBool (int (length xs) \<le> start + int size))}"
    "map_of document ''total'' \<in> {None, Some (JInt (int (length xs)))}"
    using assms(1) unfolding page_of_def by blast
  have "take size (drop (nat start) xs) = [] \<longleftrightarrow> drop (nat start) xs = []" using size(1) by simp
  then have "sprint_page start (JObj document) = Inr (take size (drop (nat start) xs),
       if drop (nat start) xs = [] \<or>
          int (length xs) \<le> start + int size \<and> (map_of document ''isLast'' \<noteq> None \<or> map_of document ''total'' \<noteq> None)
       then None else Some (start + int size))"
    using size by (auto simp: sprint_page_def json_get_or_def json_get_def json_dict_def next_page_start_def Let_def)
  then show ?thesis using that size(1) by blast
qed

lemma page_requested:
  assumes "serves_sprints env board_id state xs w" and "0 \<le> start"
  obtains document where "page_of xs start document"
    "request_json env (sprint_page_request board_id state start) w = Some (Inr (JObj document), w)"
proof -
  obtain rp document where "je_http env (sprint_page_request board_id state start) w = (Inr rp, w)" "rp_status rp = 200"
    "rp_document rp = Some (JObj document)" "page_of xs start document"
    using assms unfolding serves_sprints_def by blast
  then show ?thesis
    by (intro that[of document]) (simp_all add: request_json_def bindJ_def jira_request_def check_status_def response_json_def liftJ_def pureJ_def)
qed

lemma board_sprint_pages_from:
  assumes "serves_sprints env board_id state xs w" and "0 \<le> start"
  shows "board_sprint_pages env board_id state start (take (nat start) xs) w = Some (Inr xs, w)"
  using assms(2)
proof (induction "length xs - nat start" arbitrary: start rule: less_induct)
  case less
  obtain document where d: "page_of xs start document"
    "request_json env (sprint_page_request board_id state start) w = Some (Inr (JObj document), w)"
    using page_requested[OF assms(1) less.prems] by blast
  obtain size where size: "0 < size"
    "sprint_page start (JObj document) = Inr (take size (drop (nat start) xs),
       if drop (nat start) xs = [] \<or>
          int (length xs) \<le> start + int size \<and> (map_of document ''isLast'' \<noteq> None \<or> map_of document ''total'' \<noteq> None)
       then None else Some (start + int size))"
    using page_read[OF d(1) less.prems] by blast
  have more: "take (nat start) xs @ take size (drop (nat start) xs) = take (nat (start + int size)) xs"
    using less.prems by (simp add: nat_add_distrib take_add)
  show ?case
  proof (cases "drop (nat start) xs = [] \<or>
          int (length xs) \<le> start + int size \<and> (map_of document ''isLast'' \<noteq> None \<or> map_of document ''total'' \<noteq> None)")
    case True
    then have "take (nat start) xs @ take size (drop (nat start) xs) = xs" unfolding more using less.prems by auto
    then show ?thesis using True d(2) size(2) by (subst board_sprint_pages.simps) (simp add: bindJ_def liftJ_def pureJ_def)
  next
    case False
    then have "length xs - nat (start + int size) < length xs - nat start" using less.prems size(1) by auto
    then have "board_sprint_pages env board_id state (start + int size) (take (nat (start + int size)) xs) w = Some (Inr xs, w)"
      using less by simp
    moreover have "sprint_page start (JObj document) = Inr (take size (drop (nat start) xs), Some (start + int size))"
      unfolding size(2) using False by (simp only: if_False)
    ultimately show ?thesis using d(2) more by (subst board_sprint_pages.simps) (simp add: bindJ_def liftJ_def pureJ_def)
  qed
qed

text \<open>Every page is read: from a server that serves the pages of a list of sprints, in pages of any size, with or without
  the total or the mark of the last page, the client returns the whole list, once and in order.\<close>

theorem board_sprints_complete:
  assumes "serves_sprints env board_id state xs w"
  shows "get_board_sprints env board_id state w = Some (Inr xs, w)"
  using board_sprint_pages_from[OF assms, of 0] by (simp add: get_board_sprints_def)

text \<open>A server that sends two sprints at a time and marks neither the last page nor the total.\<close>

definition paging_env :: "json list \<Rightarrow> unit jira_env" where
  "paging_env xs = \<lparr>je_http = (\<lambda>rq w. case map_of (rq_params rq) ''startAt'' of
       Some (JInt start) \<Rightarrow> (Inr \<lparr>rp_status = 200, rp_retry_after = None, rp_url = [], rp_text = [], rp_document = Some (JObj
          [(''values'', JList (take 2 (drop (nat start) xs))), (''startAt'', JInt start), (''maxResults'', JInt 2)])\<rparr>, w)
     | _ \<Rightarrow> (Inl (Other_Transport []), w)),
     je_float = (\<lambda>_. Inr 60), je_isoformat = (\<lambda>_. []), je_repr = (\<lambda>_. [])\<rparr>"

theorem board_sprints_complete_witness:
  "get_board_sprints (paging_env [JInt 5, JInt 6, JInt 7]) 1 None () = Some (Inr [JInt 5, JInt 6, JInt 7], ())"
proof (rule board_sprints_complete)
  have "page_of xs start [(''values'', JList (take 2 (drop (nat start) xs))), (''startAt'', JInt start), (''maxResults'', JInt 2)]" for xs start
    unfolding page_of_def by (intro exI[of _ 2]) simp
  then show "serves_sprints (paging_env [JInt 5, JInt 6, JInt 7]) 1 None [JInt 5, JInt 6, JInt 7] ()"
    by (simp add: serves_sprints_def paging_env_def sprint_page_request_def)
qed

end
