(* ===== verification/Jira_Adapter.thy ===== *)
theory Jira_Adapter
  imports Jira_Client Delivery_Store
begin

text \<open>
  The adapter that turns a committed intent into calls of the Jira client (\<open>integrations/v2_jira_intent_adapter.py\<close>).
  The client is the one of \<open>Jira_Client\<close>; the mappings are read by a function, in the composed system
  \<open>find_mapping\<close> of the delivery store. \<open>datetime.fromisoformat\<close> and the canonical JSON codec are parameters.
\<close>

section \<open>Texts\<close>

fun remove_all :: "nat \<Rightarrow> string \<Rightarrow> string \<Rightarrow> string" where
  "remove_all n pat [] = []"
| "remove_all 0 pat (ch # s) =
     (if pat \<noteq> [] \<and> take (length pat) (ch # s) = pat then remove_all (length pat - 1) pat s else ch # remove_all 0 pat s)"
| "remove_all (Suc n) pat (ch # s) = remove_all n pat s"

text \<open>\<open>text.replace(pat, "")\<close>, and \<open>part in text\<close>.\<close>

definition without :: "string \<Rightarrow> string \<Rightarrow> string" where
  "without pat s = remove_all 0 pat s"

fun occurs_in :: "string \<Rightarrow> string \<Rightarrow> bool" where
  "occurs_in part [] = (part = [])"
| "occurs_in part (ch # s) = (take (length part) (ch # s) = part \<or> occurs_in part s)"

definition hex_any :: "char \<Rightarrow> nat option" where
  "hex_any ch =
     (let k = (of_char ch :: nat) in if 65 \<le> k \<and> k \<le> 70 then Some (k - 55) else hex_digit ch)"

fun hex_number :: "string \<Rightarrow> int \<Rightarrow> int option" where
  "hex_number [] acc = Some acc"
| "hex_number (ch # rest) acc =
     (case hex_any ch of
        Some d \<Rightarrow> hex_number rest (16 * acc + int d)
      | None \<Rightarrow>
          (case rest of
             [] \<Rightarrow> None
           | c # _ \<Rightarrow> if ch = CHR ''_'' \<and> hex_any c \<noteq> None then hex_number rest acc else None))"

text \<open>\<open>int(text, 16)\<close>: whitespace around it, a sign, the prefix \<open>0x\<close>, and digits that single underscores may separate.\<close>

definition int_of_hex :: "string \<Rightarrow> int option" where
  "int_of_hex text =
     (let core = rev (dropWhile is_space (rev (dropWhile is_space text)));
          (sign, unsigned) = (case core of [] \<Rightarrow> (1, [])
             | ch # rest \<Rightarrow> if ch = CHR ''-'' then (- 1, rest) else if ch = CHR ''+'' then (1, rest) else (1, core));
          ds = (if take 2 unsigned \<in> {''0x'', ''0X''}
                then (if take 1 (drop 2 unsigned) = ''_'' then drop 3 unsigned else drop 2 unsigned) else unsigned)
      in case ds of
           [] \<Rightarrow> None
         | ch # _ \<Rightarrow> if hex_any ch = None then None else map_option (\<lambda>n. sign * n) (hex_number ds 0))"

text \<open>\<open>UUID(text)\<close>.\<close>

definition brace :: "char \<Rightarrow> bool" where
  "brace ch \<longleftrightarrow> ch = CHR ''{'' \<or> ch = CHR ''}''"

definition uuid_of_text :: "string \<Rightarrow> uuid res" where
  "uuid_of_text text =
     (let bare = without ''uuid:'' (without ''urn:'' text);
          digits = filter (\<lambda>ch. ch \<noteq> CHR ''-'') (rev (dropWhile brace (rev (dropWhile brace bare))))
      in if length digits \<noteq> 32 then Inl (Value_Error ''badly formed hexadecimal UUID string'')
         else (case int_of_hex digits of
                 None \<Rightarrow> Inl (Value_Error ''invalid literal for int() with base 16'')
               | Some n \<Rightarrow> if 0 \<le> n \<and> n < 2 ^ 128 then Inr (nat n)
                           else Inl (Value_Error ''int is out of range (need a 128-bit value)'')))"

section \<open>The payload\<close>

text \<open>The parameters: the client's, the codec, \<open>fromisoformat\<close> (the instant, and whether the text carried an offset), the clock.\<close>

record 'w adapter_env =
  ae_jira :: "'w jira_env"
  ae_codec :: codec
  ae_fromiso :: "string \<Rightarrow> (instant \<times> bool) res"
  ae_find_mapping :: "uuid \<Rightarrow> string \<Rightarrow> uuid \<Rightarrow> JiraResourceMapping option res"
  ae_now :: instant

definition provider_error :: "string \<Rightarrow> ('w, 'a) jira" where
  "provider_error message = raiseJ (Delivery_Provider_Error message)"

definition payload_of :: "codec \<Rightarrow> PendingJiraIntent \<Rightarrow> ('w, json_dict) jira" where
  "payload_of cd item =
     (case cd_decode cd (dr_canonical_payload (st_draft (pj_intent item))) of
        None \<Rightarrow> raiseJ (Raised (Value_Error ''invalid JSON''))
      | Some (JObj kvs) \<Rightarrow> pureJ kvs
      | Some j \<Rightarrow> provider_error ''Jira intent payload must be an object'')"

definition payload_string :: "json_dict \<Rightarrow> string \<Rightarrow> ('w, string) jira" where
  "payload_string payload key =
     (case map_of payload key of
        Some (JStr s) \<Rightarrow> if blank s then provider_error (key @ '' must be a non-empty string'') else pureJ s
      | _ \<Rightarrow> provider_error (key @ '' must be a non-empty string''))"

definition payload_object :: "json_dict \<Rightarrow> string \<Rightarrow> ('w, json_dict) jira" where
  "payload_object payload key =
     (case map_of payload key of
        None \<Rightarrow> pureJ []
      | Some (JObj kvs) \<Rightarrow> pureJ kvs
      | Some j \<Rightarrow> provider_error (key @ '' must be an object''))"

text \<open>A value that is missing, or null, counts as missing.\<close>

definition payload_uuid :: "'w jira_env \<Rightarrow> json_dict \<Rightarrow> string \<Rightarrow> uuid option \<Rightarrow> ('w, uuid) jira" where
  "payload_uuid env payload key default_id =
     (let v = (case map_of payload key of None \<Rightarrow> JNull | Some j \<Rightarrow> j) in
      case (if v = JNull then default_id else None) of
        Some u \<Rightarrow> pureJ u
      | None \<Rightarrow>
          (case uuid_of_text (json_str env v) of
             Inl e \<Rightarrow> provider_error (key @ '' must be a UUID'')
           | Inr u \<Rightarrow> pureJ u))"

definition uuid_list :: "'w jira_env \<Rightarrow> json \<Rightarrow> string \<Rightarrow> ('w, uuid list) jira" where
  "uuid_list env v key =
     (case v of
        JList js \<Rightarrow>
          (case mapR (\<lambda>j. uuid_of_text (json_str env j)) js of
             Inl e \<Rightarrow> provider_error (key @ '' must contain UUIDs'')
           | Inr us \<Rightarrow> pureJ us)
      | _ \<Rightarrow> provider_error (key @ '' must be a list''))"

definition payload_datetime :: "'w adapter_env \<Rightarrow> json_dict \<Rightarrow> string \<Rightarrow> ('w, instant) jira" where
  "payload_datetime env payload key =
     bindJ (payload_string payload key) (\<lambda>text.
       case ae_fromiso env text of
         Inl (Value_Error e) \<Rightarrow> provider_error (key @ '' must be an ISO datetime'')
       | Inl e \<Rightarrow> raiseJ (Raised e)
       | Inr (t, aware) \<Rightarrow> if aware then pureJ t else provider_error (key @ '' must be an aware datetime''))"

definition marker_of :: "uuid \<Rightarrow> string" where
  "marker_of internal_id = ''sim-v2-'' @ uuid_text internal_id"

abbreviation team_of :: "PendingJiraIntent \<Rightarrow> uuid" where
  "team_of item \<equiv> st_team_id (pj_intent item)"

abbreviation aggregate_of :: "PendingJiraIntent \<Rightarrow> uuid" where
  "aggregate_of item \<equiv> pd_aggregate_id (dr_details (st_draft (pj_intent item)))"

definition resource_mapping :: "'w jira_env \<Rightarrow> PendingJiraIntent \<Rightarrow> string \<Rightarrow> uuid \<Rightarrow> json \<Rightarrow> ('w, JiraResourceMapping) jira" where
  "resource_mapping env item kind internal provider =
     liftJ (bindR (json_item provider ''id'') (\<lambda>jira_id.
            bindR (json_get provider ''key'') (\<lambda>jira_key.
            let m = \<lparr>rm_team_id = team_of item, rm_internal_kind = kind, rm_internal_id = internal,
               rm_jira_id = json_str env jira_id,
               rm_jira_key = (case jira_key of None \<Rightarrow> None | Some k \<Rightarrow> if k = JNull then None else Some (json_str env k))\<rparr>
            in bindR (check_resource_mapping m) (\<lambda>_. Inr m))))"

definition required_mapping :: "'w adapter_env \<Rightarrow> PendingJiraIntent \<Rightarrow> string \<Rightarrow> uuid \<Rightarrow> ('w, JiraResourceMapping) jira" where
  "required_mapping env item kind internal =
     bindJ (liftJ (ae_find_mapping env (team_of item) kind internal)) (\<lambda>m.
       case m of
         None \<Rightarrow> provider_error (''missing '' @ kind @ '' mapping for '' @ uuid_text internal)
       | Some x \<Rightarrow> pureJ x)"

section \<open>The handlers\<close>

type_synonym 'w handler = "'w adapter_env \<Rightarrow> PendingJiraIntent \<Rightarrow> json_dict \<Rightarrow> ('w, JiraResourceMapping list) jira"

text \<open>\<open>str.lower\<close>, on ASCII letters.\<close>

definition lower :: "string \<Rightarrow> string" where
  "lower s = map (\<lambda>ch. let k = (of_char ch :: nat) in if 65 \<le> k \<and> k \<le> 90 then char_of (k + 32) else ch) s"

definition deliver_project :: "'w handler" where
  "deliver_project env item payload =
     (let jira = ae_jira env in
      bindJ (payload_string payload ''project_key'') (\<lambda>project_key.
      bindJ (get_project jira project_key) (\<lambda>found.
      bindJ (case found of
               Some project \<Rightarrow> pureJ project
             | None \<Rightarrow>
                 bindJ (payload_string payload ''name'') (\<lambda>name.
                 bindJ (payload_string payload ''board_type'') (\<lambda>board_type.
                   create_project jira project_key name (lower board_type)))) (\<lambda>project.
      bindJ (resource_mapping jira item ''PROJECT'' (aggregate_of item) project) (\<lambda>m. pureJ [m])))))"

definition deliver_board :: "'w handler" where
  "deliver_board env item payload =
     (let jira = ae_jira env in
      bindJ (payload_string payload ''project_key'') (\<lambda>project_key.
      bindJ (get_board jira project_key) (\<lambda>first_board.
      bindJ (case first_board of
               Some board \<Rightarrow> pureJ (Some board)
             | None \<Rightarrow>
                 bindJ (get_project jira project_key) (\<lambda>found.
                   case found of
                     Some project \<Rightarrow> pureJ None
                   | None \<Rightarrow>
                       bindJ (payload_string payload ''project_name'') (\<lambda>name.
                       bindJ (payload_string payload ''board_type'') (\<lambda>board_type.
                       bindJ (create_project jira project_key name (lower board_type)) (\<lambda>_.
                         get_board jira project_key))))) (\<lambda>board.
        case board of
          None \<Rightarrow> provider_error ''Jira project exists without its expected board''
        | Some b \<Rightarrow> bindJ (resource_mapping jira item ''BOARD'' (aggregate_of item) b) (\<lambda>m. pureJ [m])))))"

definition marked_fields :: "string \<Rightarrow> json_dict \<Rightarrow> json_dict res" where
  "marked_fields marker given =
     bindR (json_iter (case map_of given ''labels'' of None \<Rightarrow> JList [] | Some v \<Rightarrow> v)) (\<lambda>labels.
       Inr (dict_set ''labels'' (JList (if JStr marker \<in> set labels then labels else labels @ [JStr marker])) given))"

definition create_marked_issue :: "'w jira_env \<Rightarrow> json_dict \<Rightarrow> string \<Rightarrow> ('w, json) jira" where
  "create_marked_issue jira payload marker =
     bindJ (payload_object payload ''fields'') (\<lambda>given.
     bindJ (liftJ (marked_fields marker given)) (\<lambda>marked.
     bindJ (payload_string payload ''project_key'') (\<lambda>project_key.
     bindJ (payload_string payload ''issue_type'') (\<lambda>issue_type.
     bindJ (payload_string payload ''summary'') (\<lambda>summary.
       create_issue jira (JStr project_key) (JStr issue_type) (JStr summary) (JObj marked))))))"

definition marker_search :: "string \<Rightarrow> string" where
  "marker_search marker = ''labels = '' @ [CHR 0x22] @ marker @ [CHR 0x22]"

definition deliver_issue :: "'w handler" where
  "deliver_issue env item payload =
     (let jira = ae_jira env in
      bindJ (payload_uuid jira payload ''issue_id'' (Some (aggregate_of item))) (\<lambda>issue_id.
      let marker = marker_of issue_id in
      bindJ (search_issues jira (marker_search marker) [''key'', ''labels''] 2) (\<lambda>matches.
      bindJ (liftJ (json_len matches)) (\<lambda>n.
      if 1 < n then provider_error (''multiple Jira issues carry marker '' @ marker)
      else
        bindJ (liftJ (first_of matches)) (\<lambda>found.
        bindJ (case found of Some issue \<Rightarrow> pureJ issue | None \<Rightarrow> create_marked_issue jira payload marker) (\<lambda>issue.
        bindJ (resource_mapping jira item ''ISSUE'' issue_id issue) (\<lambda>m. pureJ [m])))))))"

definition sprint_carries :: "'w jira_env \<Rightarrow> string \<Rightarrow> json \<Rightarrow> bool res" where
  "sprint_carries jira marker sprint =
     bindR (json_get_or sprint ''name'' (JStr [])) (\<lambda>name.
       if occurs_in marker (json_str jira name) then Inr True
       else bindR (json_get_or sprint ''goal'' (JStr [])) (\<lambda>goal. Inr (occurs_in marker (json_str jira goal))))"

definition deliver_sprint :: "'w handler" where
  "deliver_sprint env item payload =
     (let jira = ae_jira env in
      bindJ (payload_uuid jira payload ''sprint_id'' (Some (aggregate_of item))) (\<lambda>sprint_id.
      bindJ (payload_uuid jira payload ''board_id'' None) (\<lambda>internal_board.
      bindJ (required_mapping env item ''BOARD'' internal_board) (\<lambda>board.
      bindJ (liftJ (int_of_text (rm_jira_id board))) (\<lambda>board_id.
      let marker = marker_of sprint_id in
      bindJ (get_board_sprints jira board_id None) (\<lambda>sprints.
      bindJ (liftJ (filterR (sprint_carries jira marker) sprints)) (\<lambda>matches.
      if 1 < length matches then provider_error (''multiple Jira sprints carry marker '' @ marker)
      else
        bindJ (case matches of
                 sprint # _ \<Rightarrow> pureJ sprint
               | [] \<Rightarrow>
                   bindJ (payload_string payload ''name'') (\<lambda>name.
                   bindJ (payload_datetime env payload ''start_at'') (\<lambda>start_at.
                   bindJ (payload_datetime env payload ''end_at'') (\<lambda>end_at.
                     create_sprint jira (JInt board_id) (JStr (name @ '' ['' @ marker @ '']'')) start_at end_at)))) (\<lambda>sprint.
        bindJ (resource_mapping jira item ''SPRINT'' sprint_id sprint) (\<lambda>m. pureJ [m])))))))))"

definition issue_key_text :: "'w jira_env \<Rightarrow> json \<Rightarrow> string res" where
  "issue_key_text jira issue = bindR (json_item issue ''key'') (\<lambda>k. Inr (json_str jira k))"

fun required_issues :: "'w adapter_env \<Rightarrow> PendingJiraIntent \<Rightarrow> uuid list \<Rightarrow> ('w, JiraResourceMapping list) jira" where
  "required_issues env item [] = pureJ []"
| "required_issues env item (u # us) =
     bindJ (required_mapping env item ''ISSUE'' u) (\<lambda>m. bindJ (required_issues env item us) (\<lambda>ms. pureJ (m # ms)))"

definition deliver_scope :: "'w handler" where
  "deliver_scope env item payload =
     (let jira = ae_jira env in
      bindJ (payload_uuid jira payload ''sprint_id'' None) (\<lambda>sprint_id.
      bindJ (required_mapping env item ''SPRINT'' sprint_id) (\<lambda>sprint.
      case map_of payload ''issue_ids'' of
        None \<Rightarrow> provider_error ''issue_ids is required for SCOPE_SPRINT''
      | Some v \<Rightarrow>
          bindJ (uuid_list jira v ''issue_ids'') (\<lambda>issue_ids.
          bindJ (required_issues env item issue_ids) (\<lambda>issues.
          bindJ (liftJ (int_of_text (rm_jira_id sprint))) (\<lambda>jira_sprint.
          bindJ (get_sprint_issues jira (int_text jira_sprint) 100) (\<lambda>existing.
          bindJ (liftJ (bindR (json_iter existing) (mapR (issue_key_text jira)))) (\<lambda>existing_keys.
          let missing = filter (\<lambda>m. rm_jira_key m \<notin> Some ` set existing_keys) issues in
          bindJ (if missing = [] then pureJ ()
                 else add_issues_to_sprint jira (int_text jira_sprint) (JList (map (\<lambda>m. json_opt JStr (rm_jira_key m)) missing)))
            (\<lambda>_. pureJ [])))))))))"

definition sprint_state_is :: "string \<Rightarrow> json \<Rightarrow> bool res" where
  "sprint_state_is state sprint = bindR (json_get sprint ''state'') (\<lambda>v. Inr (v = Some (JStr state)))"

definition deliver_start :: "'w handler" where
  "deliver_start env item payload =
     (let jira = ae_jira env in
      bindJ (payload_uuid jira payload ''sprint_id'' None) (\<lambda>sprint_id.
      bindJ (required_mapping env item ''SPRINT'' sprint_id) (\<lambda>m.
      bindJ (liftJ (int_of_text (rm_jira_id m))) (\<lambda>n.
      bindJ (get_sprint jira (int_text n)) (\<lambda>sprint.
      bindJ (liftJ (sprint_state_is ''active'' sprint)) (\<lambda>active.
      bindJ (if active then pureJ JNull else start_sprint jira (int_text n)) (\<lambda>_. pureJ [])))))))"

definition deliver_complete :: "'w handler" where
  "deliver_complete env item payload =
     (let jira = ae_jira env in
      bindJ (payload_uuid jira payload ''sprint_id'' None) (\<lambda>sprint_id.
      bindJ (required_mapping env item ''SPRINT'' sprint_id) (\<lambda>m.
      bindJ (liftJ (int_of_text (rm_jira_id m))) (\<lambda>n.
      bindJ (get_sprint jira (int_text n)) (\<lambda>sprint.
      bindJ (liftJ (sprint_state_is ''closed'' sprint)) (\<lambda>ended.
      bindJ (if ended then pureJ JNull else complete_sprint jira (int_text n)) (\<lambda>_. pureJ [])))))))"

text \<open>\<open>document.get(a, {}).get(b, {}).get(c)\<close>.\<close>

fun nested_get :: "json \<Rightarrow> string list \<Rightarrow> json option res" where
  "nested_get j [] = Inr (Some j)"
| "nested_get j [k] = json_get j k"
| "nested_get j (k # ks) = bindR (json_get_or j k (JObj [])) (\<lambda>v. nested_get v ks)"

fun transition_to :: "string \<Rightarrow> json list \<Rightarrow> json option res" where
  "transition_to target [] = Inr None"
| "transition_to target (t # ts) =
     bindR (nested_get t [''to'', ''name'']) (\<lambda>a.
       if a = Some (JStr target) then Inr (Some t)
       else bindR (json_get t ''name'') (\<lambda>b. if b = Some (JStr target) then Inr (Some t) else transition_to target ts))"

definition deliver_transition :: "'w handler" where
  "deliver_transition env item payload =
     (let jira = ae_jira env in
      bindJ (payload_uuid jira payload ''issue_id'' None) (\<lambda>issue_id.
      bindJ (required_mapping env item ''ISSUE'' issue_id) (\<lambda>m.
      case rm_jira_key m of
        None \<Rightarrow> provider_error ''issue mapping has no Jira key''
      | Some key \<Rightarrow>
          bindJ (payload_string payload ''status'') (\<lambda>target.
          bindJ (get_issue jira key) (\<lambda>issue.
          bindJ (liftJ (nested_get issue [''fields'', ''status'', ''name''])) (\<lambda>current.
          if current = Some (JStr target) then pureJ []
          else
            bindJ (get_issue_transitions jira key) (\<lambda>transitions.
            bindJ (liftJ (bindR (json_iter transitions) (transition_to target))) (\<lambda>found.
              case found of
                None \<Rightarrow> provider_error (''no Jira transition reaches '' @ target)
              | Some t \<Rightarrow>
                  bindJ (liftJ (json_item t ''id'')) (\<lambda>t_id.
                  bindJ (transition_issue jira key (JStr (json_str jira t_id))) (\<lambda>_. pureJ []))))))))))"

section \<open>Delivery\<close>

definition operation_of :: "PendingJiraIntent \<Rightarrow> string" where
  "operation_of item = pd_operation_type (dr_details (st_draft (pj_intent item)))"

definition handler_of :: "string \<Rightarrow> 'w handler option" where
  "handler_of operation = map_of
     [(''CREATE_PROJECT'', deliver_project), (''CREATE_BOARD'', deliver_board), (''CREATE_ISSUE'', deliver_issue),
      (''UPSERT_ISSUE'', deliver_issue), (''CREATE_SPRINT'', deliver_sprint), (''SCOPE_SPRINT'', deliver_scope),
      (''START_SPRINT'', deliver_start), (''COMPLETE_SPRINT'', deliver_complete), (''TRANSITION_ISSUE'', deliver_transition)] operation"

definition deliver_mappings :: "'w adapter_env \<Rightarrow> PendingJiraIntent \<Rightarrow> ('w, JiraResourceMapping list) jira" where
  "deliver_mappings env item =
     bindJ (payload_of (ae_codec env) item) (\<lambda>payload.
       case handler_of (operation_of item) of
         None \<Rightarrow> provider_error (''unsupported Jira intent operation: '' @ operation_of item)
       | Some handle \<Rightarrow> handle env item payload)"

text \<open>The text of the two errors that the worker stores. The text of a rate limit contains the seconds as Python writes them.\<close>

definition rate_limit_text :: "'w jira_env \<Rightarrow> py_float \<Rightarrow> string" where
  "rate_limit_text jira seconds = ''Jira rate limited delivery for '' @ je_repr jira (JNum (max 0 seconds)) @ '' seconds''"

definition delivery_error :: "'w jira_env \<Rightarrow> jira_error \<Rightarrow> adapter_error" where
  "delivery_error jira e =
     (case e of
        Jira_Rate_Limit_Error seconds \<Rightarrow> Rate_Limited (max 0 seconds) (rate_limit_text jira seconds)
      | Jira_Auth_Error text \<Rightarrow> Provider_Error text
      | Jira_Not_Found_Error text \<Rightarrow> Provider_Error text
      | Jira_Connection_Error text \<Rightarrow> Provider_Error text
      | Transport_Error text \<Rightarrow> Provider_Error text
      | Delivery_Provider_Error text \<Rightarrow> Provider_Error text
      | Raised x \<Rightarrow> Other_Error x)"

definition deliver :: "'w adapter_env \<Rightarrow> PendingJiraIntent \<Rightarrow> 'w \<Rightarrow> ((adapter_error + JiraDeliverySuccess) \<times> 'w) option" where
  "deliver env item w =
     map_option (\<lambda>(r, w').
       (case r of
          Inl e \<Rightarrow> Inl (delivery_error (ae_jira env) e)
        | Inr mappings \<Rightarrow>
            Inr \<lparr>sx_intent_id = intent_id item, sx_mappings = mappings, sx_delivered_at = ae_now env\<rparr>, w'))
       (deliver_mappings env item w)"

section \<open>The adapter in the worker\<close>

text \<open>
  One delivery of the composed system: the adapter reads the mappings of the store as it is when the intent is delivered,
  then the worker records the outcome.
\<close>

definition deliver_stored ::
  "'w adapter_env \<Rightarrow> PendingJiraIntent \<Rightarrow> instant \<Rightarrow> delivery_db \<Rightarrow> 'w \<Rightarrow> ((delivery_db \<times> bool res) \<times> 'w) option" where
  "deliver_stored env item as_of db w =
     map_option (\<lambda>(outcome, w'). deliver_one (sql_store (ae_codec env)) (\<lambda>_ _. (outcome, w')) item as_of db w)
       (deliver (env\<lparr>ae_find_mapping := find_mapping db\<rparr>) item w)"

end
