(* ===== verification/Jira_Redelivery.thy ===== *)
theory Jira_Redelivery
  imports Jira_Adapter "HOL-Library.Sublist"
begin

text \<open>
  Delivery is at least once: an intent is delivered again whenever its outcome was not recorded. What Jira has to promise,
  and the theorems that a repeated delivery does no harm: an issue is created at most once, and delivering its intent again
  reports the same issue.
\<close>

section \<open>What a call leaves as it was\<close>

definition keepsJ :: "('w \<Rightarrow> 'w \<Rightarrow> bool) \<Rightarrow> ('w, 'a) jira \<Rightarrow> bool" where
  "keepsJ R m \<longleftrightarrow> (\<forall>w r w'. m w = Some (r, w') \<longrightarrow> R w w')"

named_theorems keeps_intros

lemma keepsJ_pure [keeps_intros]: "reflp R \<Longrightarrow> keepsJ R (pureJ x)"
  by (auto simp: keepsJ_def pureJ_def reflpD)

lemma keepsJ_raise [keeps_intros]: "reflp R \<Longrightarrow> keepsJ R (raiseJ e)"
  by (auto simp: keepsJ_def raiseJ_def reflpD)

lemma keepsJ_provider_error [keeps_intros]: "reflp R \<Longrightarrow> keepsJ R (provider_error e)"
  by (simp add: provider_error_def keepsJ_raise)

lemma keepsJ_lift [keeps_intros]: "reflp R \<Longrightarrow> keepsJ R (liftJ r)"
  by (cases r) (simp_all add: liftJ_def keepsJ_pure keepsJ_raise)

lemma keepsJ_bind [keeps_intros]:
  assumes "transp R" and "keepsJ R m" and "\<And>x. keepsJ R (f x)"
  shows "keepsJ R (bindJ m f)"
  unfolding keepsJ_def
proof (intro allI impI)
  fix w r w' assume b: "bindJ m f w = Some (r, w')"
  show "R w w'"
  proof (cases "m w")
    case None
    then show ?thesis using b by (simp add: bindJ_def)
  next
    case (Some p)
    obtain q v where q: "m w = Some (q, v)" using Some by (cases p) simp
    then have "R w v" using assms(2) by (simp add: keepsJ_def)
    moreover have "R v w' \<or> w' = v" using b q assms(3) by (cases q) (auto simp: bindJ_def keepsJ_def)
    ultimately show ?thesis using assms(1) by (auto dest: transpD)
  qed
qed

lemma keepsJ_catch [keeps_intros]:
  assumes "transp R" and "keepsJ R m" and "\<And>e. keepsJ R (f e)"
  shows "keepsJ R (catchJ m f)"
  unfolding keepsJ_def
proof (intro allI impI)
  fix w r w' assume b: "catchJ m f w = Some (r, w')"
  show "R w w'"
  proof (cases "m w")
    case None
    then show ?thesis using b by (simp add: catchJ_def)
  next
    case (Some p)
    obtain q v where q: "m w = Some (q, v)" using Some by (cases p) simp
    then have "R w v" using assms(2) by (simp add: keepsJ_def)
    moreover have "R v w' \<or> w' = v" using b q assms(3) by (cases q) (auto simp: catchJ_def keepsJ_def)
    ultimately show ?thesis using assms(1) by (auto dest: transpD)
  qed
qed

section \<open>What Jira promises about issues\<close>

text \<open>The labels of the issue that a request creates.\<close>

definition issue_labels :: "http_request \<Rightarrow> json list" where
  "issue_labels rq =
     (case rq_body rq of
        Some (JObj body) \<Rightarrow>
          (case map_of body ''fields'' of
             Some (JObj given) \<Rightarrow> (case map_of given ''labels'' of Some (JList js) \<Rightarrow> js | _ \<Rightarrow> [])
           | _ \<Rightarrow> [])
      | _ \<Rightarrow> [])"

definition creates_issue :: "http_request \<Rightarrow> bool" where
  "creates_issue rq \<longleftrightarrow> rq_method rq = ''POST'' \<and> rq_path rq = ''/rest/api/3/issue''"

definition issue_search :: "string \<Rightarrow> http_request" where
  "issue_search marker = get_rq ''/rest/api/3/search/jql''
     [(''jql'', JStr (marker_search marker)), (''maxResults'', JInt 2), (''fields'', JStr ''key,labels'')]"

definition succeeded :: "(transport_error + http_response) \<Rightarrow> bool" where
  "succeeded r \<longleftrightarrow> (case r of Inl e \<Rightarrow> False | Inr rp \<Rightarrow> rp_status rp < 400)"

definition same_issue :: "json \<Rightarrow> json \<Rightarrow> bool" where
  "same_issue i j \<longleftrightarrow> json_item i ''id'' = json_item j ''id'' \<and> json_get i ''key'' = json_get j ''key''"

text \<open>
  \<open>marked m w\<close> are the issues with the label \<open>m\<close>. A search finds the first two of them and changes nothing. Only a request
  that creates an issue with the label adds to them, at most one at a time; it may do so and still fail to answer. A
  request that succeeds has added the issue that its answer names.
\<close>

definition jira_issues :: "'w http \<Rightarrow> (string \<Rightarrow> 'w \<Rightarrow> json list) \<Rightarrow> bool" where
  "jira_issues http marked \<longleftrightarrow>
     (\<forall>m w. snd (http (issue_search m) w) = w \<and>
        (\<forall>rp. fst (http (issue_search m) w) = Inr rp \<longrightarrow> rp_status rp < 400 \<longrightarrow>
           (\<exists>document. rp_document rp = Some (JObj document) \<and> map_of document ''issues'' = Some (JList (take 2 (marked m w)))))) \<and>
     (\<forall>rq m w. marked m (snd (http rq w)) = marked m w \<and>
          (creates_issue rq \<and> JStr m \<in> set (issue_labels rq) \<longrightarrow> \<not> succeeded (fst (http rq w))) \<or>
        creates_issue rq \<and> JStr m \<in> set (issue_labels rq) \<and>
          (\<exists>i. marked m (snd (http rq w)) = marked m w @ [i] \<and>
             (\<forall>rp j. fst (http rq w) = Inr rp \<longrightarrow> rp_document rp = Some j \<longrightarrow> same_issue j i)))"

text \<open>The payload of an intent gives no marker of its own as a label; keys of a decoded object are distinct.\<close>

definition plain_labels :: "json_dict \<Rightarrow> bool" where
  "plain_labels given \<longleftrightarrow> distinct (map fst given) \<and>
     (\<forall>v js u. map_of given ''labels'' = Some v \<longrightarrow> json_iter v = Inr js \<longrightarrow> JStr (marker_of u) \<notin> set js)"

definition unmarked :: "codec \<Rightarrow> PendingJiraIntent \<Rightarrow> bool" where
  "unmarked cd item \<longleftrightarrow>
     (\<forall>payload given. cd_decode cd (dr_canonical_payload (st_draft (pj_intent item))) = Some (JObj payload) \<longrightarrow>
        map_of payload ''fields'' = Some (JObj given) \<longrightarrow> plain_labels given)"

section \<open>Calls that create no issue\<close>

abbreviation same_marked :: "(string \<Rightarrow> 'w \<Rightarrow> json list) \<Rightarrow> 'w \<Rightarrow> 'w \<Rightarrow> bool" where
  "same_marked marked w w' \<equiv> \<forall>m. marked m w' = marked m w"

lemma same_marked_order: "reflp (same_marked marked)" "transp (same_marked marked)"
  by (simp_all add: reflp_def transp_def)

lemma keepsJ_request:
  assumes "jira_issues (je_http env) marked" and "\<not> creates_issue rq"
  shows "keepsJ (same_marked marked) (jira_request env rq)"
  unfolding keepsJ_def
proof (intro allI impI)
  fix w r w' m assume q: "jira_request env rq w = Some (r, w')"
  have "w' = snd (je_http env rq w)" using q by (auto simp: jira_request_def split: prod.splits sum.splits transport_error.splits)
  moreover have "marked m (snd (je_http env rq w)) = marked m w" using assms unfolding jira_issues_def by blast
  ultimately show "marked m w' = marked m w" by simp
qed

lemma keepsJ_pages:
  assumes "jira_issues (je_http env) marked"
  shows "keepsJ (same_marked marked) (board_sprint_pages env board state start sprints)"
proof -
  have "\<forall>m. marked m (snd res) = marked m w" if "board_sprint_pages env board state start sprints w = Some res" for w res
  proof (rule board_sprint_pages.raw_induct[where
        P = "\<lambda>env0 board state start sprints w res. env0 = env \<longrightarrow> (\<forall>m. marked m (snd res) = marked m w)", OF _ that, THEN mp, OF _ refl])
    fix pages env0 board state start sprints w res
    assume ih: "\<And>e b s n xs v r. pages e b s n xs v = Some r \<Longrightarrow> e = env \<longrightarrow> (\<forall>m. marked m (snd r) = marked m v)"
      and eq: "Option.bind (bindJ (request_json env0 (sprint_page_request board state start)) (\<lambda>j. liftJ (sprint_page start j)) w)
        (\<lambda>(r, w'). case r of Inl e \<Rightarrow> Some (Inl e, w')
          | Inr (values, next_start) \<Rightarrow> (case next_start of None \<Rightarrow> Some (Inr (sprints @ values), w')
             | Some n \<Rightarrow> pages env0 board state n (sprints @ values) w')) = Some res"
    show "env0 = env \<longrightarrow> (\<forall>m. marked m (snd res) = marked m w)"
    proof
      assume e: "env0 = env"
      have "\<not> creates_issue (sprint_page_request board state start)" by (simp add: creates_issue_def sprint_page_request_def)
      then have k: "keepsJ (same_marked marked) (bindJ (request_json env (sprint_page_request board state start)) (\<lambda>j. liftJ (sprint_page start j)))"
        unfolding request_json_def by (intro keepsJ_bind same_marked_order keepsJ_lift keepsJ_request assms)
      obtain r v where b: "bindJ (request_json env (sprint_page_request board state start)) (\<lambda>j. liftJ (sprint_page start j)) w = Some (r, v)"
        using eq e by (cases "bindJ (request_json env (sprint_page_request board state start)) (\<lambda>j. liftJ (sprint_page start j)) w") auto
      then have "\<forall>m. marked m v = marked m w" using k by (auto simp: keepsJ_def)
      moreover have "\<forall>m. marked m (snd res) = marked m v"
        using eq b e ih by (auto split: sum.splits option.splits prod.splits)
      ultimately show "\<forall>m. marked m (snd res) = marked m w" by simp
    qed
  qed
  then show ?thesis by (auto simp: keepsJ_def)
qed

lemma keepsJ_if [keeps_intros]: "keepsJ R a \<Longrightarrow> keepsJ R b \<Longrightarrow> keepsJ R (if c then a else b)"
  by simp

lemma keepsJ_option [keeps_intros]:
  "keepsJ R a \<Longrightarrow> (\<And>x. keepsJ R (b x)) \<Longrightarrow> keepsJ R (case z of None \<Rightarrow> a | Some x \<Rightarrow> b x)"
  by (simp split: option.split)

lemma keepsJ_let [keeps_intros]: "(\<And>x. keepsJ R (f x)) \<Longrightarrow> keepsJ R (let x = a in f x)"
  by simp

lemma keepsJ_list [keeps_intros]:
  "keepsJ R a \<Longrightarrow> (\<And>x xs. keepsJ R (b x xs)) \<Longrightarrow> keepsJ R (case l of [] \<Rightarrow> a | x # xs \<Rightarrow> b x xs)"
  by (simp split: list.split)

named_theorems quiet

lemma quiet_request [quiet]:
  "jira_issues (je_http env) marked \<Longrightarrow> \<not> creates_issue rq \<Longrightarrow> keepsJ (same_marked marked) (jira_request env rq)"
  by (rule keepsJ_request)

lemma quiet_json [quiet]:
  "jira_issues (je_http env) marked \<Longrightarrow> \<not> creates_issue rq \<Longrightarrow> keepsJ (same_marked marked) (request_json env rq)"
  unfolding request_json_def by (intro keeps_intros same_marked_order quiet)

lemma quiet_unit [quiet]:
  "jira_issues (je_http env) marked \<Longrightarrow> \<not> creates_issue rq \<Longrightarrow> keepsJ (same_marked marked) (request_unit env rq)"
  unfolding request_unit_def by (intro keeps_intros same_marked_order quiet)

lemma quiet_collection [quiet]:
  "jira_issues (je_http env) marked \<Longrightarrow> \<not> creates_issue rq \<Longrightarrow> keepsJ (same_marked marked) (get_collection env rq k)"
  unfolding get_collection_def by (intro keeps_intros same_marked_order quiet)

lemmas paths = creates_issue_def sprint_path_def issue_path_def

lemma quiet_client [quiet]:
  assumes "jira_issues (je_http env) marked"
  shows "keepsJ (same_marked marked) (create_project env key name board_type)"
    "keepsJ (same_marked marked) (get_board env key)"
    "keepsJ (same_marked marked) (get_sprint env sid)"
    "keepsJ (same_marked marked) (get_sprint_issues env sid n)"
    "keepsJ (same_marked marked) (create_sprint env b j t u)"
    "keepsJ (same_marked marked) (start_sprint env sid)"
    "keepsJ (same_marked marked) (complete_sprint env sid)"
    "keepsJ (same_marked marked) (add_issues_to_sprint env sid j)"
    "keepsJ (same_marked marked) (get_issue env key)"
    "keepsJ (same_marked marked) (get_issue_transitions env key)"
    "keepsJ (same_marked marked) (transition_issue env key j)"
    "keepsJ (same_marked marked) (get_board_sprints env board state)"
  unfolding create_project_def get_myself_def get_board_def get_sprint_def get_sprint_issues_def create_sprint_def start_sprint_def
    complete_sprint_def add_issues_to_sprint_def get_issue_def get_issue_transitions_def transition_issue_def get_board_sprints_def
  by (auto intro!: keeps_intros same_marked_order quiet assms keepsJ_pages simp: paths)

lemma quiet_get_project [quiet]:
  "jira_issues (je_http env) marked \<Longrightarrow> keepsJ (same_marked marked) (get_project env key)"
  unfolding get_project_def
  by (auto intro!: keeps_intros same_marked_order quiet simp: paths split: jira_error.split)

lemma quiet_payload [quiet]:
  "keepsJ (same_marked marked) (payload_of cd item)" "keepsJ (same_marked marked) (payload_string p k)"
  "keepsJ (same_marked marked) (payload_object p k)" "keepsJ (same_marked marked) (payload_uuid env p k d)"
  "keepsJ (same_marked marked) (uuid_list env j k)" "keepsJ (same_marked marked) (payload_datetime aenv p k)"
  "keepsJ (same_marked marked) (required_mapping aenv item k u)" "keepsJ (same_marked marked) (resource_mapping env item k u j)"
  unfolding payload_of_def payload_string_def payload_object_def payload_uuid_def uuid_list_def payload_datetime_def
    required_mapping_def resource_mapping_def
  by (auto intro!: keeps_intros same_marked_order simp: Let_def split: json.split option.split sum.split prod.split py_exc.split)

lemma quiet_required_issues [quiet]: "keepsJ (same_marked marked) (required_issues aenv item us)"
  by (induction us) (auto intro!: keeps_intros same_marked_order quiet)

lemma quiet_handlers:
  assumes "jira_issues (je_http (ae_jira env)) marked"
  shows "keepsJ (same_marked marked) (deliver_project env item p)" "keepsJ (same_marked marked) (deliver_board env item p)"
    "keepsJ (same_marked marked) (deliver_sprint env item p)" "keepsJ (same_marked marked) (deliver_scope env item p)"
    "keepsJ (same_marked marked) (deliver_start env item p)" "keepsJ (same_marked marked) (deliver_complete env item p)"
    "keepsJ (same_marked marked) (deliver_transition env item p)"
  unfolding deliver_project_def deliver_board_def deliver_sprint_def deliver_scope_def deliver_start_def deliver_complete_def deliver_transition_def
  by (auto intro!: keeps_intros same_marked_order quiet assms simp: Let_def split: list.split option.split)

section \<open>The issue of an intent\<close>

lemma bindJ_Some:
  assumes "bindJ m f w = Some (r, w')"
  obtains e where "m w = Some (Inl e, w')" "r = Inl e" | x v where "m w = Some (Inr x, v)" "f x v = Some (r, w')"
  using assms by (auto simp: bindJ_def split: option.splits sum.splits)

lemma liftJ_Some: "liftJ q w = Some (r, w') \<longleftrightarrow> w' = w \<and> r = map_sum Raised id q"
  by (cases q) (auto simp: liftJ_def raiseJ_def pureJ_def)

lemma map_of_overlaid:
  "distinct (map fst kvs) \<Longrightarrow> map_of (foldl (\<lambda>d (k, v). dict_set k v d) base kvs) key =
     (case map_of kvs key of None \<Rightarrow> map_of base key | Some v \<Rightarrow> Some v)"
proof (induction kvs arbitrary: base)
  case (Cons p kvs)
  obtain k v where p: "p = (k, v)" by (cases p)
  have "map_of kvs k = None" using Cons.prems p by (simp add: map_of_eq_None_iff)
  then show ?case using Cons p by (auto simp: dict_simps split: option.split)
qed simp

lemma jira_search_law:
  assumes "jira_issues http marked"
  shows "snd (http (issue_search m) w) = w"
    "fst (http (issue_search m) w) = Inr rp \<Longrightarrow> rp_status rp < 400 \<Longrightarrow>
      \<exists>document. rp_document rp = Some (JObj document) \<and> map_of document ''issues'' = Some (JList (take 2 (marked m w)))"
  using assms unfolding jira_issues_def by blast+

lemma payload_object_Inr:
  "payload_object p ''fields'' w = Some (q, v) \<Longrightarrow>
   v = w \<and> (\<forall>given. q = Inr given \<longrightarrow> given = [] \<or> map_of p ''fields'' = Some (JObj given))"
  by (auto simp: payload_object_def provider_error_def raiseJ_def pureJ_def split: option.splits json.splits)

lemma marker_searched:
  assumes "jira_issues (je_http jira) marked"
    and "search_issues jira (marker_search m) [''key'', ''labels''] 2 w = Some (r, w')"
  shows "w' = w \<and> (\<forall>j. r = Inr j \<longrightarrow> j = JList (take 2 (marked m w)))"
proof -
  have s: "search_issues jira (marker_search m) [''key'', ''labels''] 2 = get_collection jira (issue_search m) ''issues''"
    by (simp add: search_issues_def issue_search_def)
  obtain o1 v where h: "je_http jira (issue_search m) w = (o1, v)" by fastforce
  have law: "v = w" "o1 = Inr rp \<Longrightarrow> rp_status rp < 400 \<Longrightarrow>
      \<exists>document. rp_document rp = Some (JObj document) \<and> map_of document ''issues'' = Some (JList (take 2 (marked m w)))" for rp
    using jira_search_law[OF assms(1), of m w] h by simp_all
  show ?thesis
  proof (cases o1)
    case (Inl e)
    then show ?thesis using assms(2) h law(1) unfolding s get_collection_def request_json_def
      by (auto simp: bindJ_def jira_request_def split: transport_error.splits)
  next
    case (Inr rp)
    show ?thesis
    proof (cases "rp_status rp < 400")
      case True
      then obtain document where d: "rp_document rp = Some (JObj document)" "map_of document ''issues'' = Some (JList (take 2 (marked m w)))"
        using law(2) Inr by blast
      then show ?thesis using assms(2) h law(1) Inr unfolding s get_collection_def request_json_def
        by (auto simp: bindJ_def jira_request_def response_json_def liftJ_def pureJ_def json_get_or_def json_get_def json_dict_def
            split: sum.splits)
    next
      case False
      then have "\<exists>e. check_status jira rp = Inl e" using check_status_ok[of jira rp] by (cases "check_status jira rp") auto
      then show ?thesis using assms(2) h law(1) Inr unfolding s get_collection_def request_json_def
        by (auto simp: bindJ_def jira_request_def)
    qed
  qed
qed

lemma marked_fields_labels:
  assumes "marked_fields m given = Inr fields_sent" and "distinct (map fst given)"
  shows "\<exists>labels. json_iter (case map_of given ''labels'' of None \<Rightarrow> JList [] | Some v \<Rightarrow> v) = Inr labels \<and>
    set (issue_labels (send_rq ''POST'' ''/rest/api/3/issue'' (issue_document a b c fields_sent))) = insert (JStr m) (set labels)"
proof -
  obtain labels where l: "json_iter (case map_of given ''labels'' of None \<Rightarrow> JList [] | Some v \<Rightarrow> v) = Inr labels"
    "fields_sent = dict_set ''labels'' (JList (if JStr m \<in> set labels then labels else labels @ [JStr m])) given"
    using assms(1) by (auto simp: marked_fields_def elim!: bindR_InrE)
  have "distinct (map fst fields_sent)" using l(2) assms(2) by (simp add: distinct_dict_set)
  then show ?thesis using l by (auto simp: issue_labels_def issue_document_def map_of_overlaid dict_simps)
qed

lemma issue_created:
  assumes "jira_issues (je_http jira) marked"
    and "create_marked_issue jira payload m w = Some (r, w')"
    and "\<And>given. map_of payload ''fields'' = Some (JObj given) \<Longrightarrow> plain_labels given"
  shows "(\<forall>u. marker_of u \<noteq> m \<longrightarrow> marked (marker_of u) w' = marked (marker_of u) w) \<and>
    (marked m w' = marked m w \<and> (\<exists>e. r = Inl e) \<or>
     (\<exists>i. marked m w' = marked m w @ [i] \<and> (\<forall>j. r = Inr j \<longrightarrow> same_issue j i)))"
proof -
  have idle: ?thesis if "w' = w" "\<exists>e. r = Inl e" using that by auto
  from assms(2) show ?thesis unfolding create_marked_issue_def
  proof (cases rule: bindJ_Some)
    case 1
    then show ?thesis using idle payload_object_Inr[OF 1(1)] by auto
  next
    case (2 given v)
    note g = 2
    have v: "v = w" "given = [] \<or> map_of payload ''fields'' = Some (JObj given)" using payload_object_Inr[OF g(1)] by auto
    have "plain_labels given" using v(2) assms(3) by (auto simp: plain_labels_def[of "[]"])
    then have plain: "distinct (map fst given)"
      "map_of given ''labels'' = Some x \<Longrightarrow> json_iter x = Inr js \<Longrightarrow> JStr (marker_of u) \<notin> set js" for x js u
      by (simp_all add: plain_labels_def)
    show ?thesis
    proof (cases "marked_fields m given")
      case (Inl e)
      then show ?thesis using g(2) v(1) idle by (auto simp: bindJ_def liftJ_def raiseJ_def)
    next
      case (Inr fs)
      obtain labels where labels: "json_iter (case map_of given ''labels'' of None \<Rightarrow> JList [] | Some v \<Rightarrow> v) = Inr labels"
        "\<And>a b c. set (issue_labels (send_rq ''POST'' ''/rest/api/3/issue'' (issue_document a b c fs))) = insert (JStr m) (set labels)"
        using marked_fields_labels[OF Inr plain(1)] by (metis Inr_inject)
      have free: "JStr (marker_of u) \<notin> set labels" for u
        using labels(1) plain(2) by (cases "map_of given ''labels''") auto
      have strings: "payload_string payload k x = Some (q, y) \<Longrightarrow> y = x" for k q x y
        by (auto simp: payload_string_def provider_error_def raiseJ_def pureJ_def split: option.splits json.splits if_splits)
      have sent: "(\<exists>e. r = Inl e) \<and> w' = w \<or> (\<exists>a b c. create_issue jira a b c (JObj fs) w = Some (r, w'))"
        using g(2) v(1) Inr by (auto simp: liftJ_def pureJ_def elim!: bindJ_Some dest!: strings)
      show ?thesis
      proof (cases "(\<exists>e. r = Inl e) \<and> w' = w")
        case True
        then show ?thesis using idle by blast
      next
        case False
        then obtain a b c where c: "create_issue jira a b c (JObj fs) w = Some (r, w')" using sent by blast
        let ?rq = "send_rq ''POST'' ''/rest/api/3/issue'' (issue_document a b c fs)"
        have q: "request_json jira ?rq w = Some (r, w')" using c by (simp add: create_issue_def)
        have w': "w' = snd (je_http jira ?rq w)"
          using q by (auto simp: request_json_def bindJ_def jira_request_def liftJ_Some split: option.splits sum.splits prod.splits transport_error.splits)
        have ok: "\<exists>rp. fst (je_http jira ?rq w) = Inr rp \<and> rp_document rp = Some j \<and> succeeded (fst (je_http jira ?rq w))" if "r = Inr j" for j
          using q that by (auto simp: request_json_def bindJ_def jira_request_def liftJ_Some response_json_def succeeded_def check_status_ok
              split: option.splits sum.splits prod.splits transport_error.splits)
        have new: "creates_issue ?rq" "JStr m \<in> set (issue_labels ?rq)" using labels(2) by (auto simp: creates_issue_def)
        have law: "marked x (snd (je_http jira ?rq w)) = marked x w \<and>
             (creates_issue ?rq \<and> JStr x \<in> set (issue_labels ?rq) \<longrightarrow> \<not> succeeded (fst (je_http jira ?rq w))) \<or>
           creates_issue ?rq \<and> JStr x \<in> set (issue_labels ?rq) \<and>
             (\<exists>i. marked x (snd (je_http jira ?rq w)) = marked x w @ [i] \<and>
                (\<forall>rp j. fst (je_http jira ?rq w) = Inr rp \<longrightarrow> rp_document rp = Some j \<longrightarrow> same_issue j i))" for x
          using assms(1) unfolding jira_issues_def by blast
        have "marked (marker_of u) w' = marked (marker_of u) w" if "marker_of u \<noteq> m" for u
          using law[of "marker_of u"] labels(2) free that w' by auto
        moreover have "marked m w' = marked m w \<and> (\<exists>e. r = Inl e) \<or>
            (\<exists>i. marked m w' = marked m w @ [i] \<and> (\<forall>j. r = Inr j \<longrightarrow> same_issue j i))"
          using law[of m] new ok w' by (cases r) (blast, metis)
        ultimately show ?thesis by blast
      qed
    qed
  qed
qed

definition single_issues :: "(string \<Rightarrow> 'w \<Rightarrow> json list) \<Rightarrow> 'w \<Rightarrow> bool" where
  "single_issues marked w \<longleftrightarrow> (\<forall>u. length (marked (marker_of u) w) \<le> 1)"

definition issues_grow :: "(string \<Rightarrow> 'w \<Rightarrow> json list) \<Rightarrow> 'w \<Rightarrow> 'w \<Rightarrow> bool" where
  "issues_grow marked w w' \<longleftrightarrow> (\<forall>u. prefix (marked (marker_of u) w) (marked (marker_of u) w'))"

lemma issues_grow_order: "issues_grow marked w w" "issues_grow marked a b \<Longrightarrow> issues_grow marked b c \<Longrightarrow> issues_grow marked a c"
  unfolding issues_grow_def by (simp, blast intro: prefix_order.trans)

lemma grown_once:
  assumes "single_issues marked w" and "\<forall>u. marker_of u \<noteq> m \<longrightarrow> marked (marker_of u) w' = marked (marker_of u) w"
    and "marked m w' = marked m w \<or> (\<exists>i. marked m w = [] \<and> marked m w' = [i])"
  shows "single_issues marked w' \<and> issues_grow marked w w'"
proof -
  have "length (marked (marker_of u) w') \<le> 1 \<and> prefix (marked (marker_of u) w) (marked (marker_of u) w')" for u
    using assms by (cases "marker_of u = m") (auto simp: single_issues_def)
  then show ?thesis by (simp add: single_issues_def issues_grow_def)
qed

text \<open>Where a delivered issue intent leads: one issue carries its marker, and the mapping names it.\<close>

definition reported :: "'w jira_env \<Rightarrow> PendingJiraIntent \<Rightarrow> uuid \<Rightarrow> json \<Rightarrow> JiraResourceMapping list \<Rightarrow> bool" where
  "reported jira item u i ms \<longleftrightarrow> (\<exists>m. ms = [m] \<and> (\<forall>w. resource_mapping jira item ''ISSUE'' u i w = Some (Inr m, w)))"

lemma reported_same: "same_issue i j \<Longrightarrow> reported jira item u i ms = reported jira item u j ms"
  by (simp add: reported_def resource_mapping_def same_issue_def)

lemma reported_unique: "reported jira item u i ms \<Longrightarrow> reported jira item u i ns \<Longrightarrow> ms = ns"
  by (auto simp: reported_def)

definition intent_issue :: "'w jira_env \<Rightarrow> PendingJiraIntent \<Rightarrow> json_dict \<Rightarrow> uuid \<Rightarrow> bool" where
  "intent_issue jira item payload u \<longleftrightarrow> (\<forall>w. payload_uuid jira payload ''issue_id'' (Some (aggregate_of item)) w = Some (Inr u, w))"

lemma payload_uuid_pure:
  obtains u where "payload_uuid jira payload k d = pureJ u" | e where "payload_uuid jira payload k d = provider_error e"
proof -
  let ?v = "case map_of payload k of None \<Rightarrow> JNull | Some j \<Rightarrow> j"
  show ?thesis
  proof (cases "if ?v = JNull then d else None")
    case None
    then show ?thesis using that by (cases "uuid_of_text (json_str jira ?v)") (simp_all add: payload_uuid_def Let_def)
  next
    case (Some u)
    then show ?thesis using that(1)[of u] by (simp add: payload_uuid_def Let_def)
  qed
qed

lemma deliver_issue_effect:
  assumes law: "jira_issues (je_http (ae_jira env)) marked" and one: "single_issues marked w"
    and plain: "\<And>given. map_of payload ''fields'' = Some (JObj given) \<Longrightarrow> plain_labels given"
    and run: "deliver_issue env item payload w = Some (r, w')"
  shows "single_issues marked w' \<and> issues_grow marked w w' \<and>
    (\<forall>ms. r = Inr ms \<longrightarrow>
       (\<exists>u i. intent_issue (ae_jira env) item payload u \<and> marked (marker_of u) w' = [i] \<and> reported (ae_jira env) item u i ms))"
proof (cases rule: payload_uuid_pure[of "ae_jira env" payload "''issue_id''" "Some (aggregate_of item)"])
  case (2 e)
  then have "w' = w" "\<exists>e. r = Inl e" using run by (auto simp: deliver_issue_def Let_def bindJ_def provider_error_def raiseJ_def)
  then show ?thesis using one issues_grow_order(1) by auto
next
  case (1 u)
  let ?jira = "ae_jira env" let ?m = "marker_of u"
  have id: "intent_issue ?jira item payload u" using 1 by (simp add: intent_issue_def pureJ_def)
  have b: "bindJ (search_issues ?jira (marker_search ?m) [''key'', ''labels''] 2) (\<lambda>found.
      bindJ (liftJ (json_len found)) (\<lambda>n. if 1 < n then provider_error (''multiple Jira issues carry marker '' @ ?m)
        else bindJ (liftJ (first_of found)) (\<lambda>first.
          bindJ (case first of Some issue \<Rightarrow> pureJ issue | None \<Rightarrow> create_marked_issue ?jira payload ?m) (\<lambda>issue.
            bindJ (resource_mapping ?jira item ''ISSUE'' u issue) (\<lambda>m. pureJ [m]))))) w = Some (r, w')"
    using run 1 by (simp add: deliver_issue_def Let_def bindJ_def pureJ_def)
  have idle: ?thesis if "w' = w" "\<exists>e. r = Inl e" using that one issues_grow_order(1) by auto
  have mapped: "reported ?jira item u i ms" if "bindJ (resource_mapping ?jira item ''ISSUE'' u i) (\<lambda>m. pureJ [m]) v = Some (Inr ms, x)" for i v x ms
    using that by (auto simp: reported_def resource_mapping_def pureJ_def elim!: bindJ_Some) (auto simp: liftJ_Some)
  have still: "x = v" if "bindJ (resource_mapping ?jira item ''ISSUE'' u i) (\<lambda>m. pureJ [m]) v = Some (q, x)" for i v x q
    using that by (auto simp: resource_mapping_def pureJ_def liftJ_Some elim!: bindJ_Some)
  from b show ?thesis
  proof (cases rule: bindJ_Some)
    case (1 e)
    then show ?thesis using idle marker_searched[OF law 1(1)] by auto
  next
    case (2 found v)
    have f: "v = w" "found = JList (take 2 (marked ?m w))" using marker_searched[OF law 2(1)] by auto
    have few: "length (marked ?m w) \<le> 1" using one by (simp add: single_issues_def)
    show ?thesis
    proof (cases "marked ?m w")
      case Nil
      then have c: "bindJ (create_marked_issue ?jira payload ?m) (\<lambda>issue.
          bindJ (resource_mapping ?jira item ''ISSUE'' u issue) (\<lambda>m. pureJ [m])) w = Some (r, w')"
        using 2(2) f by (simp add: bindJ_def liftJ_def pureJ_def json_len_def first_of_def)
      then obtain q x where x: "create_marked_issue ?jira payload ?m w = Some (q, x)" "x = w'"
        "\<And>ms. r = Inr ms \<Longrightarrow> \<exists>j. q = Inr j \<and> reported ?jira item u j ms"
      proof (cases rule: bindJ_Some)
        case (1 e)
        then show ?thesis using that by auto
      next
        case (2 j v)
        have "v = w'" using still[OF 2(2)] by simp
        moreover have "reported ?jira item u j ms" if "r = Inr ms" for ms using mapped 2(2) that by blast
        ultimately show ?thesis using that[of "Inr j" v] 2(1) by blast
      qed
      note made = issue_created[OF law x(1) plain]
      have grown: "single_issues marked w' \<and> issues_grow marked w w'"
        by (rule grown_once[OF one, of ?m]) (use made x(2) Nil in auto)
      have "\<exists>i. marked ?m w' = [i] \<and> reported ?jira item u i ms" if r: "r = Inr ms" for ms
      proof -
        obtain j where j: "q = Inr j" "reported ?jira item u j ms" using x(3)[OF r] by blast
        then obtain i where "marked ?m w' = [i]" "same_issue j i" using made x(2) Nil by auto
        then show ?thesis using j(2) reported_same by blast
      qed
      then show ?thesis using grown id by metis
    next
      case (Cons i rest)
      then have one_i: "marked ?m w = [i]" using few by simp
      then have c: "bindJ (resource_mapping ?jira item ''ISSUE'' u i) (\<lambda>m. pureJ [m]) w = Some (r, w')"
        using 2(2) f by (simp add: bindJ_def liftJ_def pureJ_def json_len_def first_of_def)
      have w: "w' = w" using still[OF c] .
      have "reported ?jira item u i ms" if "r = Inr ms" for ms using c that mapped by blast
      then have "\<forall>ms. r = Inr ms \<longrightarrow> (\<exists>i. marked ?m w' = [i] \<and> reported ?jira item u i ms)" unfolding w using one_i by simp
      moreover have "single_issues marked w' \<and> issues_grow marked w w'" unfolding w using one issues_grow_order(1) by simp
      ultimately show ?thesis using id by metis
    qed
  qed
qed

section \<open>One delivery, and many\<close>

lemma issue_operations:
  "handler_of op = Some handle \<Longrightarrow>
     handle = deliver_issue \<and> op \<in> {''CREATE_ISSUE'', ''UPSERT_ISSUE''} \<or>
     op \<notin> {''CREATE_ISSUE'', ''UPSERT_ISSUE''} \<and> handle \<in> {deliver_project, deliver_board, deliver_sprint, deliver_scope, deliver_start,
       deliver_complete, deliver_transition}"
  by (auto simp: handler_of_def split: if_splits)

definition is_issue_intent :: "PendingJiraIntent \<Rightarrow> bool" where
  "is_issue_intent item \<longleftrightarrow> operation_of item \<in> {''CREATE_ISSUE'', ''UPSERT_ISSUE''}"

lemma delivered_mappings:
  assumes "deliver env item w = Some (r, w')"
  shows "\<exists>q. deliver_mappings env item w = Some (q, w') \<and> (\<forall>s. r = Inr s \<longrightarrow> q = Inr (sx_mappings s) \<and> sx_intent_id s = intent_id item)"
proof -
  obtain q v where "deliver_mappings env item w = Some (q, v)"
    using assms by (cases "deliver_mappings env item w") (auto simp: deliver_def)
  then show ?thesis using assms by (auto simp: deliver_def split: sum.splits)
qed

lemma deliver_effect:
  fixes env :: "'w adapter_env"
  assumes law: "jira_issues (je_http (ae_jira env)) marked" and one: "single_issues marked w" and plain: "unmarked (ae_codec env) item"
    and run: "deliver env item w = Some (r, w')"
  shows "single_issues marked w' \<and> issues_grow marked w w'"
    and "is_issue_intent item \<Longrightarrow> r = Inr s \<Longrightarrow>
      \<exists>payload u i. cd_decode (ae_codec env) (dr_canonical_payload (st_draft (pj_intent item))) = Some (JObj payload) \<and>
        intent_issue (ae_jira env) item payload u \<and> marked (marker_of u) w' = [i] \<and> reported (ae_jira env) item u i (sx_mappings s)"
proof -
  obtain q where q: "deliver_mappings env item w = Some (q, w')" "\<And>s. r = Inr s \<Longrightarrow> q = Inr (sx_mappings s) \<and> sx_intent_id s = intent_id item"
    using delivered_mappings[OF run] by blast
  show "single_issues marked w' \<and> issues_grow marked w w'"
    and "is_issue_intent item \<Longrightarrow> r = Inr s \<Longrightarrow>
      \<exists>payload u i. cd_decode (ae_codec env) (dr_canonical_payload (st_draft (pj_intent item))) = Some (JObj payload) \<and>
        intent_issue (ae_jira env) item payload u \<and> marked (marker_of u) w' = [i] \<and> reported (ae_jira env) item u i (sx_mappings s)"
  proof (atomize (full), cases "\<exists>payload. cd_decode (ae_codec env) (dr_canonical_payload (st_draft (pj_intent item))) = Some (JObj payload)")
    case False
    then have "w' = w \<and> (\<exists>e. q = Inl e)"
      using q(1) by (auto simp: deliver_mappings_def payload_of_def bindJ_def raiseJ_def provider_error_def split: option.splits json.splits)
    then show "(single_issues marked w' \<and> issues_grow marked w w') \<and> (is_issue_intent item \<longrightarrow> r = Inr s \<longrightarrow>
      (\<exists>payload u i. cd_decode (ae_codec env) (dr_canonical_payload (st_draft (pj_intent item))) = Some (JObj payload) \<and>
        intent_issue (ae_jira env) item payload u \<and> marked (marker_of u) w' = [i] \<and> reported (ae_jira env) item u i (sx_mappings s)))"
      using q(2) one issues_grow_order(1) by auto
  next
    case True
    then obtain payload where p: "cd_decode (ae_codec env) (dr_canonical_payload (st_draft (pj_intent item))) = Some (JObj payload)" by blast
    have labels: "map_of payload ''fields'' = Some (JObj given) \<Longrightarrow> plain_labels given" for given
      using plain p by (simp add: unmarked_def)
    have h: "(case handler_of (operation_of item) of None \<Rightarrow> provider_error (''unsupported Jira intent operation: '' @ operation_of item)
        | Some handle \<Rightarrow> handle env item payload) w = Some (q, w')"
      using q(1) p by (simp add: deliver_mappings_def payload_of_def bindJ_def pureJ_def)
    show "(single_issues marked w' \<and> issues_grow marked w w') \<and> (is_issue_intent item \<longrightarrow> r = Inr s \<longrightarrow>
      (\<exists>payload u i. cd_decode (ae_codec env) (dr_canonical_payload (st_draft (pj_intent item))) = Some (JObj payload) \<and>
        intent_issue (ae_jira env) item payload u \<and> marked (marker_of u) w' = [i] \<and> reported (ae_jira env) item u i (sx_mappings s)))"
    proof (cases "handler_of (operation_of item) :: 'w handler option")
      case None
      then have "w' = w \<and> (\<exists>e. q = Inl e)" using h by (auto simp: provider_error_def raiseJ_def)
      then show ?thesis using q(2) one issues_grow_order(1) by auto
    next
      case (Some handle)
      then have run_handle: "handle env item payload w = Some (q, w')" using h by simp
      from issue_operations[OF Some] show ?thesis
      proof
        assume "handle = deliver_issue \<and> operation_of item \<in> {''CREATE_ISSUE'', ''UPSERT_ISSUE''}"
        then show ?thesis using deliver_issue_effect[OF law one labels, of payload item q w'] run_handle q(2) p by blast
      next
        assume other: "operation_of item \<notin> {''CREATE_ISSUE'', ''UPSERT_ISSUE''} \<and> handle \<in> {deliver_project, deliver_board, deliver_sprint,
          deliver_scope, deliver_start, deliver_complete, deliver_transition}"
        then have "keepsJ (same_marked marked) (handle env item payload)" using quiet_handlers[OF law] by auto
        then have "\<forall>m. marked m w' = marked m w" using run_handle by (auto simp: keepsJ_def)
        then show ?thesis using one other by (simp add: single_issues_def issues_grow_def is_issue_intent_def)
      qed
    qed
  qed
qed

text \<open>An issue that is there already is found, and nothing is sent that changes anything.\<close>

lemma found_issue_changes_nothing:
  assumes law: "jira_issues (je_http (ae_jira env)) marked" and "intent_issue (ae_jira env) item payload u"
    and found: "marked (marker_of u) w = [i]" and "deliver_issue env item payload w = Some (r, w')"
  shows "w' = w"
proof -
  have "payload_uuid (ae_jira env) payload ''issue_id'' (Some (aggregate_of item)) = pureJ u"
    using assms(2) by (auto simp: intent_issue_def pureJ_def)
  then have b: "bindJ (search_issues (ae_jira env) (marker_search (marker_of u)) [''key'', ''labels''] 2) (\<lambda>found.
      bindJ (liftJ (json_len found)) (\<lambda>n. if 1 < n then provider_error (''multiple Jira issues carry marker '' @ marker_of u)
        else bindJ (liftJ (first_of found)) (\<lambda>first.
          bindJ (case first of Some issue \<Rightarrow> pureJ issue | None \<Rightarrow> create_marked_issue (ae_jira env) payload (marker_of u)) (\<lambda>issue.
            bindJ (resource_mapping (ae_jira env) item ''ISSUE'' u issue) (\<lambda>m. pureJ [m]))))) w = Some (r, w')"
    using assms(4) by (simp add: deliver_issue_def Let_def bindJ_def pureJ_def)
  then show ?thesis
  proof (cases rule: bindJ_Some)
    case (1 e)
    then show ?thesis using marker_searched[OF law 1(1)] by auto
  next
    case (2 matched v)
    have f: "v = w" "matched = JList [i]" using marker_searched[OF law 2(1)] found by auto
    have "bindJ (resource_mapping (ae_jira env) item ''ISSUE'' u i) (\<lambda>m. pureJ [m]) w = Some (r, w')"
      using 2(2) f by (simp add: bindJ_def liftJ_def pureJ_def json_len_def first_of_def)
    then show ?thesis by (auto simp: resource_mapping_def pureJ_def liftJ_Some elim!: bindJ_Some)
  qed
qed

text \<open>Any deliveries, one after another, whatever becomes of their outcomes.\<close>

fun deliver_runs :: "('w adapter_env \<times> PendingJiraIntent) list \<Rightarrow> 'w \<Rightarrow> 'w option" where
  "deliver_runs [] w = Some w"
| "deliver_runs ((env, item) # rest) w = Option.bind (deliver env item w) (\<lambda>(r, w'). deliver_runs rest w')"

definition delivers_to :: "(string \<Rightarrow> 'w \<Rightarrow> json list) \<Rightarrow> 'w adapter_env \<times> PendingJiraIntent \<Rightarrow> bool" where
  "delivers_to marked d \<longleftrightarrow> jira_issues (je_http (ae_jira (fst d))) marked \<and> unmarked (ae_codec (fst d)) (snd d)"

lemma deliver_runs_effect:
  "\<forall>d \<in> set runs. delivers_to marked d \<Longrightarrow> single_issues marked w \<Longrightarrow> deliver_runs runs w = Some w' \<Longrightarrow>
   single_issues marked w' \<and> issues_grow marked w w'"
proof (induction runs arbitrary: w)
  case (Cons d runs)
  obtain env item where d: "d = (env, item)" by (cases d)
  obtain r v where v: "deliver env item w = Some (r, v)" "deliver_runs runs v = Some w'"
    using Cons.prems(3) d by (auto simp: bind_eq_Some_conv)
  have "single_issues marked v \<and> issues_grow marked w v"
    using deliver_effect(1)[OF _ Cons.prems(2) _ v(1)] Cons.prems(1) d by (simp add: delivers_to_def)
  then show ?case using Cons.IH[of v] Cons.prems(1) v(2) issues_grow_order(2) by fastforce
qed (simp add: issues_grow_order)

text \<open>The work item that the payload of an issue intent names.\<close>

definition issue_of :: "'w adapter_env \<Rightarrow> PendingJiraIntent \<Rightarrow> uuid \<Rightarrow> bool" where
  "issue_of env item u \<longleftrightarrow>
     (\<exists>payload. cd_decode (ae_codec env) (dr_canonical_payload (st_draft (pj_intent item))) = Some (JObj payload) \<and>
        intent_issue (ae_jira env) item payload u)"


lemma ensure_mapping_again:
  assumes "ensure_mapping m db = Inr db1"
  shows "map_of (db_mappings db1) (rm_team_id m, rm_internal_kind m, rm_internal_id m) = Some (rm_jira_id m, rm_jira_key m)"
  using assms by (auto simp: ensure_mapping_def Let_def dict_simps split: option.splits if_splits)

lemma success_recorded_again:
  assumes "record_success s db = Inr db1" and "sx_mappings s = [m]" "sx_mappings s' = [m]" "sx_intent_id s' = sx_intent_id s"
  shows "record_success s' db1 = Inr db1"
proof -
  obtain db0 where e: "ensure_mapping m db = Inr db0" "require_intent db (sx_intent_id s) = Inr ()"
    using assms(1,2) by (auto simp: record_success_def elim!: bindR_InrE)
  have "db_intents db0 = db_intents db" using e(1) by (auto simp: ensure_mapping_def Let_def split: option.splits if_splits)
  moreover have parts: "db_mappings db1 = db_mappings db0" "db_intents db1 = db_intents db0"
    "\<exists>rc. map_of (db_receipts db1) (sx_intent_id s) = Some rc \<and> rc_state rc = DELIVERED"
    using assms(1,2) e by (auto simp: record_success_def delivered_receipt_def dict_simps split: option.splits if_splits)
  ultimately have "require_intent db1 (sx_intent_id s) = Inr ()" using e(2) by (simp add: require_intent_def)
  moreover have "ensure_mapping m db1 = Inr db1" using ensure_mapping_again[OF e(1)] parts(1) by (simp add: ensure_mapping_def Let_def)
  ultimately show ?thesis using assms(3,4) parts(3) by (auto simp: record_success_def)
qed


section \<open>An error without a text\<close>

text \<open>A transport error without a text, which is what a time-out of the HTTP library is, is not retried as the worker intends
  for every failure of the provider: the record of the failure refuses an empty text, so the delivery raises, no receipt and no
  time of the next attempt are stored, and the exception leaves the worker's loop with the intents of all other teams.\<close>

theorem textless_timeout_escapes:
  assumes "operation_of item = ''CREATE_PROJECT''"
    and "cd_decode (ae_codec env) (dr_canonical_payload (st_draft (pj_intent item))) = Some (JObj payload)"
    and "map_of payload ''project_key'' = Some (JStr key)" and "\<not> blank key"
    and "je_http (ae_jira env) (get_rq (''/rest/api/3/project/'' @ key) []) w = (Inl (Other_Transport text), w')" and "blank text"
    and "instant_add as_of (retry_delay (pj_attempts item) * 1000000) = Inr t"
  shows "deliver_stored env item as_of db w = Some ((db, Inl (Value_Error ''error must be a non-empty string'')), w')"
proof -
  have "get_project (ae_jira env) key w = Some (Inl (Transport_Error text), w')"
    using assms(5) by (simp add: get_project_def catchJ_def bindJ_def request_json_def jira_request_def raiseJ_def)
  then have "deliver_mappings (env\<lparr>ae_find_mapping := find_mapping db\<rparr>) item w = Some (Inl (Transport_Error text), w')"
    using assms(1-4)
    by (simp add: deliver_mappings_def payload_of_def handler_of_def deliver_project_def payload_string_def bindJ_def pureJ_def Let_def)
  then have "deliver (env\<lparr>ae_find_mapping := find_mapping db\<rparr>) item w = Some (Inl (Provider_Error text), w')"
    by (simp add: deliver_def delivery_error_def)
  then show ?thesis using assms(6,7)
    by (simp add: deliver_stored_def deliver_one_def record_worker_failure_def check_failure_def Let_def)
qed

section \<open>A small Jira\<close>

text \<open>It keeps the labels of every issue; an issue is known by its place.\<close>

definition tiny_issue :: "nat \<Rightarrow> json" where
  "tiny_issue n = JObj [(''id'', JStr (nat_text n)), (''key'', JStr (''SIM-'' @ nat_text n))]"

definition tiny_marked :: "string \<Rightarrow> json list list \<Rightarrow> json list" where
  "tiny_marked m w = map (tiny_issue \<circ> fst) (filter (\<lambda>(n, labels). JStr m \<in> set labels) (enumerate 0 w))"

definition tiny_hits :: "json \<Rightarrow> json list list \<Rightarrow> json list" where
  "tiny_hits jql w = map (tiny_issue \<circ> fst) (filter (\<lambda>(n, labels).
     list_ex (\<lambda>l. case l of JStr m \<Rightarrow> JStr (marker_search m) = jql | _ \<Rightarrow> False) labels) (enumerate 0 w))"

definition answer :: "int \<Rightarrow> json \<Rightarrow> http_response" where
  "answer code j = \<lparr>rp_status = code, rp_retry_after = None, rp_url = [], rp_text = [], rp_document = Some j\<rparr>"

definition tiny_jira :: "json list list http" where
  "tiny_jira rq w =
     (if creates_issue rq then (Inr (answer 201 (tiny_issue (length w))), w @ [issue_labels rq])
      else (case map_of (rq_params rq) ''jql'' of
              Some jql \<Rightarrow> (Inr (answer 200 (JObj [(''issues'', JList (take 2 (tiny_hits jql w)))])), w)
            | None \<Rightarrow> (Inl (Other_Transport []), w)))"

lemma tiny_hits_search: "tiny_hits (JStr (marker_search m)) w = tiny_marked m w"
proof -
  have one: "(case l of JStr m' \<Rightarrow> JStr (marker_search m') = JStr (marker_search m) | _ \<Rightarrow> False) \<longleftrightarrow> l = JStr m" for l
    by (cases l) (auto simp: marker_search_def)
  have "list_ex (\<lambda>l. case l of JStr m' \<Rightarrow> JStr (marker_search m') = JStr (marker_search m) | _ \<Rightarrow> False) labels \<longleftrightarrow> JStr m \<in> set labels" for labels
    unfolding one list_ex_iff by auto
  then show ?thesis by (simp add: tiny_hits_def tiny_marked_def)
qed

lemma tiny_jira_issues: "jira_issues tiny_jira tiny_marked"
  unfolding jira_issues_def
proof (intro conjI allI)
  fix m w
  show "snd (tiny_jira (issue_search m) w) = w"
    by (simp add: tiny_jira_def issue_search_def creates_issue_def)
  fix rp
  show "fst (tiny_jira (issue_search m) w) = Inr rp \<longrightarrow> rp_status rp < 400 \<longrightarrow>
     (\<exists>document. rp_document rp = Some (JObj document) \<and> map_of document ''issues'' = Some (JList (take 2 (tiny_marked m w))))"
    by (auto simp: tiny_jira_def issue_search_def creates_issue_def answer_def tiny_hits_search)
next
  fix rq m w
  have one: "tiny_marked m (w @ [labels]) = tiny_marked m w @ (if JStr m \<in> set labels then [tiny_issue (length w)] else [])" for labels
    by (simp add: tiny_marked_def enumerate_append_eq)
  show "tiny_marked m (snd (tiny_jira rq w)) = tiny_marked m w \<and>
        (creates_issue rq \<and> JStr m \<in> set (issue_labels rq) \<longrightarrow> \<not> succeeded (fst (tiny_jira rq w))) \<or>
      creates_issue rq \<and> JStr m \<in> set (issue_labels rq) \<and>
        (\<exists>i. tiny_marked m (snd (tiny_jira rq w)) = tiny_marked m w @ [i] \<and>
          (\<forall>rp j. fst (tiny_jira rq w) = Inr rp \<longrightarrow> rp_document rp = Some j \<longrightarrow> same_issue j i))"
    by (auto simp: tiny_jira_def one answer_def same_issue_def split: option.splits)
qed

definition tiny_env :: "json list list adapter_env" where
  "tiny_env = \<lparr>ae_jira = \<lparr>je_http = tiny_jira, je_float = (\<lambda>_. Inr 60), je_isoformat = (\<lambda>_. []), je_repr = (\<lambda>_. [])\<rparr>,
     ae_codec = toy_codec\<lparr>cd_decode := (\<lambda>_. Some (JObj [(''fields'', JObj []), (''issue_type'', JStr ''Story''),
        (''project_key'', JStr ''SIM''), (''summary'', JStr ''Simulated Story 1'')]))\<rparr>,
     ae_fromiso = (\<lambda>_. Inl (Value_Error [])), ae_find_mapping = (\<lambda>_ _ _. Inr None), ae_now = 0\<rparr>"

definition tiny_intent :: "string \<Rightarrow> PendingJiraIntent" where
  "tiny_intent operation = \<lparr>pj_intent = (sample_intent 7 3 ''a'')\<lparr>st_draft := (st_draft (sample_intent 7 3 ''a''))\<lparr>dr_details :=
     (dr_details (st_draft (sample_intent 7 3 ''a'')))\<lparr>pd_operation_type := operation, pd_aggregate_id := 59\<rparr>\<rparr>\<rparr>,
     pj_dependency_keys = [], pj_attempts = 0\<rparr>"

abbreviation tiny_item :: PendingJiraIntent where
  "tiny_item \<equiv> tiny_intent ''CREATE_ISSUE''"

definition tiny_success :: JiraDeliverySuccess where
  "tiny_success = \<lparr>sx_intent_id = 12, sx_mappings = [\<lparr>rm_team_id = 7, rm_internal_kind = ''ISSUE'', rm_internal_id = 59,
     rm_jira_id = ''0'', rm_jira_key = Some ''SIM-0''\<rparr>], sx_delivered_at = 0\<rparr>"

lemma tiny_env_sel: "je_http (ae_jira tiny_env) = tiny_jira" "ae_now tiny_env = 0"
  "cd_decode (ae_codec tiny_env) x = Some (JObj [(''fields'', JObj []), (''issue_type'', JStr ''Story''),
     (''project_key'', JStr ''SIM''), (''summary'', JStr ''Simulated Story 1'')])"
  by (simp_all add: tiny_env_def)

lemma tiny_item_sel: "operation_of (tiny_intent operation) = operation" "st_team_id (pj_intent (tiny_intent operation)) = 7"
  "intent_id (tiny_intent operation) = 12" "pd_aggregate_id (dr_details (st_draft (pj_intent (tiny_intent operation)))) = 59"
  "pj_attempts (tiny_intent operation) = 0"
  by (simp_all add: tiny_intent_def operation_of_def sample_intent_def)

lemma tiny_searched:
  "search_issues (ae_jira tiny_env) (marker_search m) [''key'', ''labels''] 2 w = Some (Inr (JList (take 2 (tiny_marked m w))), w)"
  by (simp add: search_issues_def get_collection_def request_json_def jira_request_def bindJ_def liftJ_def raiseJ_def pureJ_def tiny_env_sel
      tiny_jira_def creates_issue_def answer_def check_status_def response_json_def json_get_or_def json_get_def json_dict_def tiny_hits_search)

lemma tiny_created:
  "create_marked_issue (ae_jira tiny_env) [(''fields'', JObj []), (''issue_type'', JStr ''Story''), (''project_key'', JStr ''SIM''),
     (''summary'', JStr ''Simulated Story 1'')] m w = Some (Inr (tiny_issue (length w)), w @ [[JStr m]])"
proof -
  have l: "issue_labels \<lparr>rq_method = ''POST'', rq_path = ''/rest/api/3/issue'', rq_params = [],
      rq_body = Some (issue_document p t u [(''labels'', JList [JStr m])])\<rparr> = [JStr m]" for p t u
    by (simp add: issue_labels_def issue_document_def dict_simps)
  have f: "marked_fields m [] = Inr [(''labels'', JList [JStr m])]" by (simp add: marked_fields_def)
  show ?thesis
    by (simp add: create_marked_issue_def payload_object_def payload_string_def create_issue_def request_json_def jira_request_def
        bindJ_def liftJ_def raiseJ_def pureJ_def f blank_def is_space_def tiny_env_sel)
      (simp add: tiny_jira_def creates_issue_def l answer_def check_status_def response_json_def pureJ_def)
qed

lemma tiny_texts: "nat_text 0 = ''0''"
  by (simp add: nat_text.simps digit_char_def char_of_def bit_0)

lemma tiny_mapped: "resource_mapping (ae_jira tiny_env) tiny_item ''ISSUE'' 59 (tiny_issue 0) w =
    Some (Inr \<lparr>rm_team_id = 7, rm_internal_kind = ''ISSUE'', rm_internal_id = 59, rm_jira_id = ''0'', rm_jira_key = Some ''SIM-0''\<rparr>, w)"
  by (simp add: resource_mapping_def tiny_issue_def tiny_texts json_item_def json_get_def json_dict_def dict_get_def tiny_item_sel check_resource_mapping_def
      non_empty_def blank_def is_space_def liftJ_def pureJ_def)

lemma tiny_found: "tiny_marked m [] = []" "tiny_marked m [[JStr m]] = [tiny_issue 0]"
  by (simp_all add: tiny_marked_def)

lemma tiny_delivers:
  assumes "w = [] \<or> w = [[JStr (marker_of 59)]]"
  shows "deliver tiny_env tiny_item w = Some (Inr tiny_success, [[JStr (marker_of 59)]])"
proof -
  let ?p = "[(''fields'', JObj []), (''issue_type'', JStr ''Story''), (''project_key'', JStr ''SIM''), (''summary'', JStr ''Simulated Story 1'')]"
  have u: "payload_uuid (ae_jira tiny_env) ?p ''issue_id'' (Some 59) w = Some (Inr 59, w)"
    by (simp add: payload_uuid_def pureJ_def)
  have "deliver_issue tiny_env tiny_item ?p w = Some (Inr (sx_mappings tiny_success), [[JStr (marker_of 59)]])"
    using assms
  proof
    assume "w = []"
    then show ?thesis using u
      by (simp add: deliver_issue_def bindJ_def tiny_item_sel tiny_searched tiny_found liftJ_def json_len_def first_of_def pureJ_def
          tiny_created tiny_mapped tiny_success_def Let_def)
  next
    assume "w = [[JStr (marker_of 59)]]"
    then show ?thesis using u
      by (simp add: deliver_issue_def bindJ_def tiny_item_sel tiny_searched tiny_found liftJ_def json_len_def first_of_def pureJ_def
          tiny_mapped tiny_success_def Let_def)
  qed
  moreover have "handler_of ''CREATE_ISSUE'' = Some (deliver_issue :: json list list handler)" by (simp add: handler_of_def)
  ultimately have "deliver_mappings tiny_env tiny_item w = Some (Inr (sx_mappings tiny_success), [[JStr (marker_of 59)]])"
    by (simp add: deliver_mappings_def payload_of_def tiny_env_sel tiny_item_sel bindJ_def pureJ_def)
  then show ?thesis by (simp add: deliver_def tiny_item_sel tiny_env_sel tiny_success_def)
qed

lemma tiny_delivers_to: "delivers_to tiny_marked (tiny_env, tiny_intent operation)"
  by (simp add: delivers_to_def tiny_env_sel tiny_jira_issues unmarked_def plain_labels_def)

section \<open>Witnesses\<close>


definition tiny_db :: delivery_db where
  "tiny_db = \<lparr>db_intents = [pj_intent tiny_item], db_receipts = [], db_mappings = []\<rparr>"


theorem textless_timeout_escapes_witness:
  "deliver_stored tiny_env (tiny_intent ''CREATE_PROJECT'') 0 tiny_db [] =
     Some ((tiny_db, Inl (Value_Error ''error must be a non-empty string'')), [])"
proof (rule textless_timeout_escapes)
  show "cd_decode (ae_codec tiny_env) (dr_canonical_payload (st_draft (pj_intent (tiny_intent ''CREATE_PROJECT'')))) =
      Some (JObj [(''fields'', JObj []), (''issue_type'', JStr ''Story''), (''project_key'', JStr ''SIM''), (''summary'', JStr ''Simulated Story 1'')])"
    by (rule tiny_env_sel(3))
  show "map_of [(''fields'', JObj []), (''issue_type'', JStr ''Story''), (''project_key'', JStr ''SIM''), (''summary'', JStr ''Simulated Story 1'')]
      ''project_key'' = Some (JStr ''SIM'')" by simp
  show "je_http (ae_jira tiny_env) (get_rq (''/rest/api/3/project/'' @ ''SIM'') []) [] = (Inl (Other_Transport []), [])"
    by (simp add: tiny_env_sel tiny_jira_def creates_issue_def)
  show "instant_add 0 (retry_delay (pj_attempts (tiny_intent ''CREATE_PROJECT'')) * 1000000) =
      Inr (retry_delay 0 * 1000000)"
    by (simp add: tiny_item_sel retry_delay_def instant_add_def valid_instant_def BASE_RETRY_SECONDS_def MAX_RETRY_SECONDS_def
        MAX_ORDINAL_def DAY_US_def)
qed (simp_all add: tiny_item_sel blank_def is_space_def)

end
