(* ===== verification/Spec2Isabelle.thy ===== *)
theory Spec2Isabelle
  imports Precompute Delivery_Store Unit_Of_Work US_Federal Tick_Examples Store_Examples Live_Examples Jira_Redelivery
begin

text \<open>
  \<^bold>\<open>A model of the Jira simulator's engines.\<close>

  The program simulates software teams at work and projects what they do into Jira. It has two engines.
  The first (\<open>backend/app/engine\<close>) pre-computes a whole sprint as a list of scheduled events. The second
  (\<open>backend/app/v2\<close>) keeps an authoritative state of a Scrum team and advances it tick by tick: a tick is a
  pure function of the stored state (domain), committed in one transaction (persistence), and its
  projection intents are delivered to Jira by a worker (application) through an adapter and a client
  (integrations). The model covers the computations of the first engine, the second engine from its domain to its
  tables, and the way of an intent to Jira; what it leaves out is listed at the end. File names below are relative
  to \<open>src/backend/app\<close>.

  \<^bold>\<open>Conventions.\<close>

  \<^item> A dataclass is a record with the fields of the class behind a short prefix, an enumeration is a datatype.
    A constructor that validates (\<open>__post_init__\<close>) is a check function with a unit result; \<open>built\<close> and
    \<open>replaced\<close> run it on a new or an updated record. Checks of Python types have no counterpart: the model is typed.
  \<^item> Exceptions are values. \<open>'a res\<close> is a sum whose left side is the exception; \<open>bindR\<close>, \<open>mapR\<close>, \<open>foldR\<close>, \<open>forR\<close>
    and \<open>filterR\<close> are the ways in which the code sequences fallible calls. An exception text is kept where
    the code writes a literal one.
  \<^item> A Python dictionary is an association list in insertion order with \<open>dict_set\<close>, which replaces in place.
  \<^item> An instant is a number of microseconds in UTC counted from ordinal 0, a date is its ordinal, and arithmetic
    that leaves the range of \<open>datetime\<close> raises. A time zone is a record of two functions.
  \<^item> A finite float is the rational number it denotes; every operation is exact arithmetic followed by rounding
    to IEEE 754 binary64, with overflow reported as an exception where Python raises one.
  \<^item> A UUID is a natural number, a text is a list of characters, a digest is the text of its hexadecimal form.
  \<^item> What is not under \<open>src\<close> is a parameter: SHA-256, UUIDv5 and the canonical JSON codec (record \<open>codec\<close>),
    the C mathematics library (\<open>log\<close>, \<open>exp\<close>, \<open>log1p\<close>, \<open>expm1\<close>), the time zone data base, the Mersenne twister,
    and the HTTP library with the Jira behind it. What the code relies on is stated as a hypothesis and met by the concrete functions
    of the witnesses.
  \<^item> A loop is a structural function or a \<open>function\<close> with a measure; a loop that may not end is a
    \<open>partial_function (option)\<close>, and that it ends is then a theorem. No fuel is used anywhere.

  \<^bold>\<open>Foundations.\<close> \<open>Prelude\<close> (results, dictionaries, loops and their lemmas), \<open>Py_Float\<close>, \<open>Py_Random\<close>, \<open>Py_Time\<close>
  and \<open>Civil_Date\<close> (the parts of Python's library that the code uses).

  \<^bold>\<open>The first engine.\<close>

  \<^item> \<open>Capacity\<close> models \<open>engine/capacity.py\<close>: the tick state of every member. Its locale \<open>worker_pool\<close> states what
    the workflow engine relies on and is interpreted on the model of the module.
  \<^item> \<open>Distributions\<close> models \<open>engine/distributions.py\<close>, \<open>Sprint_Planning\<close> models \<open>engine/sprint_lifecycle.py\<close>, and
    \<open>Work_Calendar\<close> models \<open>engine/calendar.py\<close> with the tick schedule of \<open>engine/precompute.py\<close>: the first
    working moment is found, sprints count working days, and the tick loop ends unless its step is zero.
  \<^item> \<open>Workflow_Engine\<close> models \<open>engine/workflow_engine.py\<close>, \<open>engine/snapshots.py\<close> and \<open>engine/types.py\<close>: the tick of
    one item, which needs one worker and both of its clocks.
  \<^item> \<open>Precompute\<close> models \<open>engine/precompute.py\<close>: a whole sprint, as events.

  \<^bold>\<open>The second engine, calendars and draws.\<close>

  \<^item> \<open>Business_Calendar\<close> models \<open>v2/domain/business_calendar.py\<close> (local times that must exist exactly once, working
    intervals, addition and measurement of business time) and \<open>US_Federal\<close> models
    \<open>v2/domain/us_federal_calendar.py\<close>.
  \<^item> \<open>Deterministic_Rng\<close> models \<open>v2/domain/deterministic_rng.py\<close>, \<open>Sampling\<close> models \<open>v2/domain/sampling.py\<close> and
    \<open>Team_Blueprint\<close> models \<open>v2/domain/team_blueprint.py\<close>; the typed reading of a document by pydantic is a
    parameter of the store.

  \<^bold>\<open>The second engine, state.\<close>

  \<^item> \<open>Scrum_State\<close>, \<open>Status_Sample\<close> and \<open>Scrum_Collections\<close> model \<open>v2/domain/scrum_state.py\<close>: the records, the
    authenticated sample of a visit, and the write sets and snapshots with their checks. A snapshot is closed
    under its references.
  \<^item> \<open>Scrum_Bootstrap\<close> models \<open>v2/domain/scrum_bootstrap.py\<close>: the first state of a run, which is complete and valid.
  \<^item> \<open>State_Merge\<close> models the merging of write sets into each other and into a state, which \<open>v2/domain/risks.py\<close> and
    \<open>v2/domain/scrum_tick.py\<close> share; merging is associative.

  \<^bold>\<open>The second engine, one tick\<close> (\<open>v2/domain/scrum_tick.py\<close> and what it calls).

  \<^item> \<open>Tick_Allocation\<close>: owners, capacity and labour of a business segment. \<open>Tick_Labor\<close> shows that labour stays within
    the segment and the day, and \<open>Tick_Progress\<close> that a segment never fails on a valid state.
  \<^item> \<open>Tick_Visits\<close>: segments, the boundary of the first completion, transitions, the result of a tick. \<open>Tick_Time\<close>
    shows that the segments are exactly the business time of the tick, \<open>Tick_Finish\<close> what closes and follows.
  \<^item> \<open>Sprint_Boundary\<close> models \<open>v2/domain/sprint_lifecycle.py\<close>: activation and rollover.
  \<^item> \<open>Risks\<close> models \<open>v2/domain/risks.py\<close>: long stays, review rejections, cancellations, external dependencies and
    unavailable members. \<open>Risk_Outcomes\<close> shows that the changes of the rules compose, that their claims bind,
    that pauses are bounded and long stays reported once; \<open>Risk_Examples\<close> holds the witnesses.
  \<^item> \<open>Tick_Commit\<close> models the tick as a whole: the loop that repeats the risks until they fit its end, the ledger drafts, and
    the command. \<open>Tick_Outcomes\<close> shows that the loop ends, where the clock of the team stops, that every counter is
    claimed once from its stored value, that committing the command gives the state that was computed, and what
    the ledgers hold; \<open>Tick_Examples\<close> runs a whole tick of the sample team.
  \<^item> \<open>Authoritative_Slice\<close> models \<open>v2/domain/authoritative_slice.py\<close>: counter claims and the checks of a command.

  \<^bold>\<open>The second engine, storage and delivery.\<close>

  \<^item> \<open>Live_Slice\<close> models \<open>v2/domain/live_slice.py\<close>, \<open>v2/domain/team_runtime.py\<close> and \<open>v2/domain/canonical_json.py\<close>:
    drafts, their identities and the commit command.
  \<^item> \<open>Unit_Of_Work\<close> models \<open>v2/persistence/unit_of_work.py\<close> and \<open>v2/persistence/live_models.py\<close>: a commit is all or
    nothing, loses no update, and can be repeated.
  \<^item> \<open>Scrum_Rows\<close> models \<open>v2/persistence/scrum_state_mapper.py\<close> and the authoritative commit of \<open>unit_of_work.py\<close>: loading,
    after-images, compare-and-swap on the counters, natural decisions and replays. \<open>Scrum_Store\<close> states the contract of
    an after-image as the locale \<open>row_image\<close>, interprets it on the three kinds of table, and shows that the tables after
    a commit are the old ones with the command laid over them, that a committed tick is stored as it was computed,
    that counters move by their claims alone, that no coordinate is given out twice, and that a replay writes
    nothing but the runtime row. \<open>Store_Examples\<close> commits the commands of the sample team.
  \<^item> \<open>Jira_Delivery\<close>, \<open>Delivery_Worker\<close> and \<open>Delivery_Store\<close> model \<open>v2/domain/jira_delivery.py\<close>,
    \<open>v2/application/jira_delivery.py\<close> and \<open>v2/persistence/jira_delivery_store.py\<close>. The worker is written over an
    arbitrary store and an arbitrary adapter; the locale \<open>delivery_protocol\<close> states what it relies on, and
    \<open>Delivery_Store\<close> interprets it.
  \<^item> \<open>Jira_Client\<close> models \<open>integrations/jira_client.py\<close> with \<open>integrations/exceptions.py\<close>, and \<open>Jira_Adapter\<close> models
    \<open>integrations/v2_jira_intent_adapter.py\<close>. The HTTP library is a parameter, a function that takes a request and the state of
    the world to an error or a response and the next state. The walk over the pages of a board's sprints may not end, as in the
    code; \<open>Jira_Client\<close> shows that it returns every sprint from a server that serves the pages of a list. \<open>Jira_Redelivery\<close>
    shows that an intent that is delivered again creates no second issue and reports the first one. The hypothesis on Jira is
    the predicate \<open>jira_issues\<close>: a search by label sees every issue created before, and only a creation gives a label. It
    also shows that a time-out, whose error has no text, makes the worker raise instead of recording a failure.

  \<^bold>\<open>The second engine, live teams.\<close>

  \<^item> \<open>Provisioning\<close> models \<open>v2/application/jira_provisioning.py\<close>: the intents that set a team up in Jira and what each
    waits for. In the order in which they are appended every intent waits only for earlier ones, so their delivery
    cannot stall, and provisioning again writes nothing.
  \<^item> \<open>Live_Team\<close> models \<open>v2/application/create_team.py\<close>, \<open>v2/persistence/team_repository.py\<close> and
    \<open>v2/persistence/live_team_store.py\<close>: creation under an idempotency key, the coherent load, the bootstrap. What
    another session does between the look-up and the insert is an argument \<open>others\<close>, a function on the data base. Primary
    keys and unique constraints are modelled, foreign keys and the lengths of text columns are not. The order of UUIDs
    as texts is their order as numbers.
  \<^item> \<open>Live_Scheduler\<close> models \<open>v2/persistence/due_team_store.py\<close>, \<open>v2/application/team_tick.py\<close> and
    \<open>v2/application/live_scheduler.py\<close> as \<open>v2/runtime.py\<close> composes them: a tick with one retry after a lost race, the
    poll over the pages of due teams, and the restart. The loops are partial functions, where \<open>None\<close> means that the code
    runs for ever. The locales \<open>team_runs\<close> and \<open>paged_teams\<close> state what the loops rely on; both are interpreted on the
    scheduler's own operations. That the poll returns is proved from the hypothesis that advancing a single team does;
    whether the tick of one team catches up after finitely many ticks is not proved. \<open>Live_Examples\<close> provisions,
    creates, polls and restarts the sample team.

  \<^bold>\<open>Not modelled.\<close> HTTP routers and schemas, the first engine's database queries (\<open>engine/simulation.py\<close>), its event
  dispatcher, auditor, write queue, cadence check, backlog texts and timing templates, the Jira bootstrapper, the health
  monitor and alerts, the registration of polling jobs, migrations, the frontend: input and output around the two engines, or
  services whose behaviour is that of a library. Concurrency is the order of transactions: a transaction is one function.
\<close>

end
